(* ===== verification/Prelude.thy ===== *)
theory Prelude
  imports Main "HOL-Library.Word"
begin

text \<open>
  Shared vocabulary of the development: the C integer types, the status codes of
  \<^verbatim>\<open>lib/helpers/error_handling.h\<close> and the Linux error numbers the driver returns,
  the theorem collections, and generic facts about words, ring indices and lists that
  several components use. The queue interface \<open>fifo\<close> at the end is the contract that
  the pointer lists and the ring buffer of the driver implement.
\<close>

unbundle bit_operations_syntax

type_synonym u8 = "8 word"
type_synonym u16 = "16 word"
type_synonym u32 = "32 word"
type_synonym u64 = "64 word"

named_theorems wf_intros "introduction of component invariants"
named_theorems bit_specs "bit-level characterisations of the bit macros and the writers"

section \<open>Status codes\<close>

abbreviation STATUS_OK :: int where "STATUS_OK \<equiv> 0"
abbreviation STATUS_ERROR :: int where "STATUS_ERROR \<equiv> -1"
abbreviation STATUS_ERR_TIMEOUT :: int where "STATUS_ERR_TIMEOUT \<equiv> -2"
abbreviation STATUS_ERR_INVALID_ARGUMENT :: int where "STATUS_ERR_INVALID_ARGUMENT \<equiv> -5"
abbreviation STATUS_ERR_INVALID_OPERATION :: int where "STATUS_ERR_INVALID_OPERATION \<equiv> -7"
abbreviation STATUS_ERR_INSUFFICIENT_MEM :: int where "STATUS_ERR_INSUFFICIENT_MEM \<equiv> -6"
abbreviation STATUS_ERR_OVERFLOW :: int where "STATUS_ERR_OVERFLOW \<equiv> -8"
abbreviation STATUS_ERR_INVALID_STATE :: int where "STATUS_ERR_INVALID_STATE \<equiv> -10"
abbreviation STATUS_ERR_UNKNOWN_BOARDTYPE :: int where "STATUS_ERR_UNKNOWN_BOARDTYPE \<equiv> -11"

definition MEN_IS_ERROR :: "int \<Rightarrow> bool" where
  "MEN_IS_ERROR retval \<longleftrightarrow> retval < 0"

abbreviation EINTR :: int where "EINTR \<equiv> 4"
abbreviation ENOMEM :: int where "ENOMEM \<equiv> 12"
abbreviation EFAULT :: int where "EFAULT \<equiv> 14"
abbreviation EBUSY :: int where "EBUSY \<equiv> 16"
abbreviation ENODEV :: int where "ENODEV \<equiv> 19"
abbreviation EINVAL :: int where "EINVAL \<equiv> 22"
abbreviation ENOTTY :: int where "ENOTTY \<equiv> 25"
abbreviation ENOSPC :: int where "ENOSPC \<equiv> 28"
abbreviation ECHRNG :: int where "ECHRNG \<equiv> 44"
abbreviation ETIMEDOUT :: int where "ETIMEDOUT \<equiv> 110"
abbreviation ENOIOCTLCMD :: int where "ENOIOCTLCMD \<equiv> 515"

section \<open>Words\<close>

lemma unat_of_nat_u32 [simp]: "n < 4294967296 \<Longrightarrow> unat (of_nat n :: u32) = n"
  by (simp add: unat_of_nat take_bit_eq_mod)

lemma unat_add_u32: "unat a + unat b < 4294967296 \<Longrightarrow> unat (a + b :: u32) = unat a + unat b"
  by (simp add: unat_word_ariths)

lemma unat_Suc_u32: "unat a < 4294967295 \<Longrightarrow> unat (a + 1 :: u32) = Suc (unat a)"
  by (simp add: unat_word_ariths)

lemma unat_sub_u32: "unat b \<le> unat a \<Longrightarrow> unat (a - b :: u32) = unat a - unat b"
  by (simp add: unat_sub_if')

lemma unat_mod_u32: "unat (a mod b :: u32) = unat a mod unat b"
  by (simp add: unat_mod)

lemma unat_min_u32: "unat (min a b :: u32) = min (unat a) (unat b)"
  by (auto simp: min_def word_le_nat_alt)

lemma unat_u32_bound [simp]: "unat (a :: u32) < 4294967296"
  using unsigned_less [of a] by simp

lemma u32_of_nat_eq_0: "n < 4294967296 \<Longrightarrow> (of_nat n :: u32) = 0 \<longleftrightarrow> n = 0"
  by (metis unat_of_nat_u32 unat_eq_zero of_nat_0)

lemma of_nat_length_Suc_minus: "(of_nat (Suc n) :: 'a::len word) - 1 = of_nat n"
  by simp

lemma unat_ucast_u32: "unat (ucast (x :: u32) :: u64) = unat x"
  using unat_u32_bound [of x] by (simp add: unsigned_ucast_eq take_bit_eq_mod mod_less less_trans del: unat_u32_bound)

lemma unat_and_mask: "unat (w AND mask n :: 'a::len word) = unat w mod 2 ^ n"
  by (metis take_bit_eq_mask unsigned_take_bit_eq take_bit_eq_mod)

text \<open>Numbers split at bit 31, as the 31 bit frame windows do.\<close>

lemma window_split: "(x :: u64) AND NOT 0x7FFFFFFF = x - (x AND 0x7FFFFFFF)"
proof -
  have "(x AND NOT 0x7FFFFFFF) + (x AND 0x7FFFFFFF) = (x AND NOT 0x7FFFFFFF) OR (x AND 0x7FFFFFFF)"
    by (rule disjunctive_add) (auto simp: bit_simps)
  also have "\<dots> = x" by (rule bit_eqI) (auto simp: bit_simps)
  finally show ?thesis by (simp add: algebra_simps)
qed

lemma low31: "unat ((x :: u64) AND 0x7FFFFFFF) = unat x mod 2147483648"
proof -
  have "x AND 0x7FFFFFFF = take_bit 31 x" by (simp add: take_bit_eq_mask mask_eq_exp_minus_1)
  then show ?thesis by (simp add: unsigned_take_bit_eq take_bit_eq_mod unat_mod)
qed

lemma unat_window: "unat ((x :: u64) AND NOT 0x7FFFFFFF) = unat x div 2147483648 * 2147483648"
proof -
  have "unat (x AND 0x7FFFFFFF) \<le> unat x" unfolding low31 by simp
  then show ?thesis unfolding window_split by (simp add: unat_sub_if' low31 minus_mod_eq_div_mult)
qed

lemma unat_or_window:
  assumes "unat (i::u64) < 2147483648"
  shows "unat (i OR (x AND NOT 0x7FFFFFFF)) = unat i + unat x div 2147483648 * 2147483648"
proof -
  have i: "i = take_bit 31 i" using assms
   by (simp add: take_bit_eq_mod word_unat_eq_iff unat_mod unsigned_take_bit_eq)
  have "i OR (x AND NOT 0x7FFFFFFF) = i + (x AND NOT 0x7FFFFFFF)"
  proof (rule disjunctive_add [symmetric])
    fix n
    have m: "(0x7FFFFFFF::u64) = mask 31" by (simp add: mask_eq_exp_minus_1)
    show "\<not> bit i n \<or> \<not> bit (x AND NOT 0x7FFFFFFF) n"
      unfolding m by (subst i) (auto simp: bit_simps)
  qed
  moreover have "unat x < 18446744073709551616" using unsigned_less [of x] by simp
  then have "unat x div 2147483648 < 8589934592" by (simp add: less_mult_imp_div_less)
  moreover have "unat (i + (x AND NOT 0x7FFFFFFF))
      = (unat i + unat x div 2147483648 * 2147483648) mod 18446744073709551616"
    unfolding unat_word_ariths(1) unat_window by simp
  ultimately show ?thesis using assms by (simp only:) simp
qed
section \<open>Ring indices\<close>

lemma ring_index_inj:
  fixes i j r c :: nat
  assumes "i < c" "j < c" "(r + i) mod c = (r + j) mod c"
  shows "i = j"
proof -
  have aux: "a = b" if "a \<le> b" "b < c" "(r + a) mod c = (r + b) mod c" for a b
  proof -
    have "c dvd (r + b) - (r + a)"
      using that by (metis mod_eq_dvd_iff_nat add_le_cancel_left)
    then have "c dvd b - a" by simp
    with that(1,2) show ?thesis by (auto dest: dvd_imp_le)
  qed
  show ?thesis
    using aux [of i j] aux [of j i] assms by (cases "i \<le> j") auto
qed

lemma map_ring_update:
  fixes r f c :: nat
  assumes "f < c" "length xs = c"
  shows "map (\<lambda>i. xs[(r + f) mod c := w] ! ((r + i) mod c)) [0..<f]
       = map (\<lambda>i. xs ! ((r + i) mod c)) [0..<f]"
proof (rule map_cong [OF refl])
  fix i assume "i \<in> set [0..<f]"
  then have "i < f" by simp
  with assms have "(r + f) mod c \<noteq> (r + i) mod c"
    using ring_index_inj [of f c i r] by auto
  then show "xs[(r + f) mod c := w] ! ((r + i) mod c) = xs ! ((r + i) mod c)"
    by simp
qed

text \<open>Copying a ring out in two pieces, the second one after the wrap-around.\<close>

lemma ring_copy:
  fixes r c n :: nat
  assumes "r \<le> c" "n \<le> c" "length d = c"
  defines "b \<equiv> min (c - r) n"
  shows "take b (drop r d) @ (if b < n then take (n - b) d else [])
       = map (\<lambda>i. d ! ((r + i) mod c)) [0..<n]" (is "?l = ?r")
proof (rule nth_equalityI)
  show len: "length ?l = length ?r"
    using assms(1-3) by (auto simp: b_def min_def)
  fix i assume "i < length ?l"
  then have i: "i < n" using len by simp
  show "?l ! i = ?r ! i"
  proof (cases "i < b")
    case True
    then have "r + i < c" "i < c - r" by (auto simp: b_def)
    with True i assms(3) show ?thesis by (simp add: nth_append)
  next
    case False
    with i have b: "b = c - r" "b < n" "c \<le> r + i" by (auto simp: b_def min_def split: if_splits)
    with i assms(1,2) have "(r + i) mod c = i - b" by (simp add: le_mod_geq)
    with False b i assms show ?thesis by (simp add: nth_append)
  qed
qed

section \<open>Lists\<close>

lemma take_upt_min: "take k [0..<n] = [0..<min k n]"
  by (cases "k \<le> n") (auto simp: min_def)

lemma removeAll_id: "x \<notin> set xs \<Longrightarrow> removeAll x xs = xs"
  by (induction xs) auto

lemma length_removeAll_in:
  "distinct xs \<Longrightarrow> x \<in> set xs \<Longrightarrow> Suc (length (removeAll x xs)) = length xs"
proof (induction xs)
  case (Cons y ys)
  then show ?case by (cases "x = y") (auto simp: removeAll_id)
qed simp

lemma removeAll_Cons_hd: "distinct (x # xs) \<Longrightarrow> removeAll x (x # xs) = xs"
  by (simp add: removeAll_id)

section \<open>The first-in first-out contract\<close>

text \<open>
  Generic clients of a queue: putting a list of elements one after the other and taking
  a number of elements from the front.
\<close>

fun put_all :: "('a \<Rightarrow> 's \<Rightarrow> 's) \<Rightarrow> 'a list \<Rightarrow> 's \<Rightarrow> 's" where
  "put_all put [] s = s"
| "put_all put (x # xs) s = put_all put xs (put x s)"

fun get_many :: "('s \<Rightarrow> 'a option \<times> 's) \<Rightarrow> nat \<Rightarrow> 's \<Rightarrow> 'a list \<times> 's" where
  "get_many get 0 s = ([], s)"
| "get_many get (Suc n) s =
     (case get s of
        (None, s') \<Rightarrow> ([], s')
      | (Some x, s') \<Rightarrow> (let (xs, s'') = get_many get n s' in (x # xs, s'')))"

locale fifo =
  fixes inv :: "'s \<Rightarrow> bool"
    and contents :: "'s \<Rightarrow> 'a list"
    and room :: "'s \<Rightarrow> 'a list \<Rightarrow> bool"
    and put :: "'a \<Rightarrow> 's \<Rightarrow> 's"
    and get :: "'s \<Rightarrow> 'a option \<times> 's"
  assumes put_inv: "inv s \<Longrightarrow> room s (x # xs) \<Longrightarrow> inv (put x s)"
    and put_contents: "inv s \<Longrightarrow> room s (x # xs) \<Longrightarrow> contents (put x s) = contents s @ [x]"
    and put_room: "inv s \<Longrightarrow> room s (x # xs) \<Longrightarrow> room (put x s) xs"
    and get_empty: "inv s \<Longrightarrow> contents s = [] \<Longrightarrow> fst (get s) = None"
    and get_front: "inv s \<Longrightarrow> contents s = x # xs \<Longrightarrow> fst (get s) = Some x"
    and get_contents: "inv s \<Longrightarrow> contents (snd (get s)) = tl (contents s)"
    and get_inv: "inv s \<Longrightarrow> inv (snd (get s))"
begin

lemma put_all_spec:
  "inv s \<Longrightarrow> room s xs \<Longrightarrow>
   inv (put_all put xs s) \<and> contents (put_all put xs s) = contents s @ xs"
proof (induction xs arbitrary: s)
  case Nil
  then show ?case by simp
next
  case (Cons x xs)
  from Cons.IH [OF put_inv [OF Cons.prems] put_room [OF Cons.prems]] put_contents [OF Cons.prems]
  show ?case by simp
qed

lemma get_many_spec:
  "inv s \<Longrightarrow> n \<le> length (contents s) \<Longrightarrow>
   fst (get_many get n s) = take n (contents s)
   \<and> contents (snd (get_many get n s)) = drop n (contents s)
   \<and> inv (snd (get_many get n s))"
proof (induction n arbitrary: s)
  case 0
  then show ?case by simp
next
  case (Suc n)
  then obtain x xs where c: "contents s = x # xs" by (cases "contents s") auto
  obtain s' where g: "get s = (Some x, s')"
    using get_front [OF Suc.prems(1) c] by (cases "get s") auto
  have s': "inv s'" "contents s' = xs"
    using get_inv [OF Suc.prems(1)] get_contents [OF Suc.prems(1)] g c by simp_all
  with Suc.prems c have "n \<le> length (contents s')" by simp
  from Suc.IH [OF s'(1) this] s' c g show ?case
    by (simp add: case_prod_beta Let_def)
qed

lemma put_all_get_many:
  assumes "inv s" "room s xs" "contents s = []"
  shows "fst (get_many get (length xs) (put_all put xs s)) = xs"
  using put_all_spec [OF assms(1,2)] get_many_spec [of "put_all put xs s" "length xs"] assms(3)
  by simp

end

end
