(* ===== verification/Dma_Channel.thy ===== *)
theory Dma_Channel
  imports Prelude
begin

text \<open>
  The buffer queues of a DMA channel (\<^verbatim>\<open>linux/menable.h\<close>, \<^verbatim>\<open>linux/menable_mem.c\<close>). A buffer is
  named by the address of its \<^verbatim>\<open>struct menable_dmabuf\<close> and lives in a heap; the intrusive kernel
  lists \<^verbatim>\<open>free_list\<close>, \<^verbatim>\<open>ready_list\<close>, \<^verbatim>\<open>grabbed_list\<close> and \<^verbatim>\<open>hot_list\<close> are the sequences of the
  buffers linked into them, and the counters are kept beside them at their C width, as in the
  code. \<^verbatim>\<open>list_del\<close> unlinks a node from whichever list holds it.

  A result \<open>None\<close> stands for undefined behaviour: \<^verbatim>\<open>list_first_entry\<close> on an empty list, or a
  \<^verbatim>\<open>BUG\<close>. Locks delimit the operations, each of which is one atomic step of the model.
  The call through \<^verbatim>\<open>queue_sb\<close>, which hands a buffer to the board, appends the buffer to the log
  \<open>hw_queue\<close>.
\<close>

section \<open>Data\<close>

datatype listname = FREE_LIST | GRABBED_LIST | HOT_LIST | NO_LIST | READY_LIST

datatype chan_state =
    MEN_DMA_CHAN_STATE_STARTING | MEN_DMA_CHAN_STATE_STARTED
  | MEN_DMA_CHAN_STATE_STOPPING | MEN_DMA_CHAN_STATE_STOPPED

abbreviation DMA_CONTMODE :: u32 where "DMA_CONTMODE \<equiv> 0x10"
abbreviation DMA_HANDSHAKEMODE :: u32 where "DMA_HANDSHAKEMODE \<equiv> 0x20"
abbreviation DMA_PULSEMODE :: u32 where "DMA_PULSEMODE \<equiv> 0x30"
abbreviation DMA_SELECTIVEMODE :: u32 where "DMA_SELECTIVEMODE \<equiv> 0x04"

type_synonym buf_id = nat
type_synonym head_ptr = nat
type_synonym chan_ptr = nat

record menable_timespec =
  tv_sec :: int
  tv_nsec :: int

record menable_dmabuf =
  listname :: listname
  dma_length :: u64
  buf_length :: u64
  dma_tag :: u32
  frame_number :: u64
  index :: int
  timestamp :: menable_timespec

type_synonym buf_heap = "buf_id \<Rightarrow> menable_dmabuf"

record menable_dmahead =
  head_id :: u32
  bufs :: "buf_id option list"
  dummybuf :: buf_id
  head_chan :: "chan_ptr option"

record menable_dma_wait =
  waiter :: nat
  frame :: u64
  completed :: bool

record menable_dmachan =
  active :: "head_ptr option"
  number :: nat
  fpga :: nat
  mode :: u32
  direction :: u32
  state :: chan_state
  imgcnt :: u64
  goodcnt :: u64
  latest_frame_number :: u64
  free_count :: u32
  ready_count :: u32
  grabbed_count :: u32
  hot_count :: u32
  lost_count :: u32
  locked_count :: u32
  free_list :: "buf_id list"
  ready_list :: "buf_id list"
  grabbed_list :: "buf_id list"
  hot_list :: "buf_id list"
  wait_list :: "menable_dma_wait list"
  transfer_todo :: int
  chan_timeout :: nat
  timer_armed :: bool
  dwork_scheduled :: bool
  hw_queue :: "buf_id list"

section \<open>The intrusive lists\<close>

fun lst :: "listname \<Rightarrow> menable_dmachan \<Rightarrow> buf_id list" where
  "lst FREE_LIST c = free_list c"
| "lst GRABBED_LIST c = grabbed_list c"
| "lst HOT_LIST c = hot_list c"
| "lst READY_LIST c = ready_list c"
| "lst NO_LIST c = []"

fun cnt :: "listname \<Rightarrow> menable_dmachan \<Rightarrow> u32" where
  "cnt FREE_LIST c = free_count c"
| "cnt GRABBED_LIST c = grabbed_count c"
| "cnt HOT_LIST c = hot_count c"
| "cnt READY_LIST c = ready_count c"
| "cnt NO_LIST c = locked_count c"

fun upd_lst :: "listname \<Rightarrow> (buf_id list \<Rightarrow> buf_id list) \<Rightarrow> menable_dmachan \<Rightarrow> menable_dmachan" where
  "upd_lst FREE_LIST f c = c\<lparr>free_list := f (free_list c)\<rparr>"
| "upd_lst GRABBED_LIST f c = c\<lparr>grabbed_list := f (grabbed_list c)\<rparr>"
| "upd_lst HOT_LIST f c = c\<lparr>hot_list := f (hot_list c)\<rparr>"
| "upd_lst READY_LIST f c = c\<lparr>ready_list := f (ready_list c)\<rparr>"
| "upd_lst NO_LIST f c = c"

fun upd_cnt :: "listname \<Rightarrow> (u32 \<Rightarrow> u32) \<Rightarrow> menable_dmachan \<Rightarrow> menable_dmachan" where
  "upd_cnt FREE_LIST f c = c\<lparr>free_count := f (free_count c)\<rparr>"
| "upd_cnt GRABBED_LIST f c = c\<lparr>grabbed_count := f (grabbed_count c)\<rparr>"
| "upd_cnt HOT_LIST f c = c\<lparr>hot_count := f (hot_count c)\<rparr>"
| "upd_cnt READY_LIST f c = c\<lparr>ready_count := f (ready_count c)\<rparr>"
| "upd_cnt NO_LIST f c = c\<lparr>locked_count := f (locked_count c)\<rparr>"

definition list_del :: "buf_id \<Rightarrow> menable_dmachan \<Rightarrow> menable_dmachan" where
  "list_del b c = c\<lparr>free_list := removeAll b (free_list c), ready_list := removeAll b (ready_list c),
     grabbed_list := removeAll b (grabbed_list c), hot_list := removeAll b (hot_list c)\<rparr>"

definition list_move_tail :: "buf_id \<Rightarrow> listname \<Rightarrow> menable_dmachan \<Rightarrow> menable_dmachan" where
  "list_move_tail b l c = upd_lst l (\<lambda>xs. xs @ [b]) (list_del b c)"

definition set_listname :: "buf_id \<Rightarrow> listname \<Rightarrow> buf_heap \<Rightarrow> buf_heap" where
  "set_listname b l h = h(b := (h b)\<lparr>listname := l\<rparr>)"

section \<open>Moving buffers\<close>

text \<open>\<^verbatim>\<open>men_move_hot\<close>: the oldest hot buffer was filled; file it by the acquisition mode.\<close>

definition move_hot_target :: "u32 \<Rightarrow> listname" where
  "move_hot_target m =
     (if m = DMA_HANDSHAKEMODE then GRABBED_LIST
      else if m = DMA_SELECTIVEMODE then FREE_LIST
      else READY_LIST)"

definition men_move_hot ::
    "menable_timespec \<Rightarrow> menable_dmachan \<Rightarrow> buf_heap
     \<Rightarrow> (buf_id option \<times> menable_dmachan \<times> buf_heap) option" where
  "men_move_hot ts c h =
     (if active c = None
      then Some (None, c\<lparr>lost_count := lost_count c + 1, transfer_todo := 0\<rparr>, h)
      else if hot_count c \<noteq> 0 then
        (case hot_list c of
           [] \<Rightarrow> None
         | sb # _ \<Rightarrow>
             let (c1, h1) =
                   (if index (h sb) = -1
                    then ((list_del sb c)\<lparr>lost_count := lost_count c + 1\<rparr>, h)
                    else let l = move_hot_target (mode c)
                         in ((upd_cnt l (\<lambda>n. n + 1) (list_move_tail sb l c))
                               \<lparr>goodcnt := goodcnt c + 1\<rparr>,
                             set_listname sb l h));
                 c2 = c1\<lparr>transfer_todo := transfer_todo c1 - 1, hot_count := hot_count c1 - 1,
                         imgcnt := imgcnt c1 + 1,
                         latest_frame_number := latest_frame_number c1 + 1\<rparr>;
                 h2 = h1(sb := (h1 sb)\<lparr>timestamp := ts\<rparr>)
             in Some (Some sb, c2, h2))
      else Some (None, c\<lparr>lost_count := lost_count c + 1\<rparr>, h))"

text \<open>One iteration of the loop of \<^verbatim>\<open>men_dma_queue_max\<close>, and the loop.\<close>

fun queue_loop :: "nat \<Rightarrow> menable_dmachan \<Rightarrow> buf_heap \<Rightarrow> (menable_dmachan \<times> buf_heap) option" where
  "queue_loop 0 c h = Some (c, h)"
| "queue_loop (Suc n) c h =
     (case ready_list c of
        [] \<Rightarrow> None
      | sb # _ \<Rightarrow>
          let c1 = list_move_tail sb HOT_LIST (c\<lparr>hw_queue := hw_queue c @ [sb]\<rparr>);
              c2 = c1\<lparr>ready_count := ready_count c1 - 1, hot_count := hot_count c1 + 1\<rparr>;
              h1 = set_listname sb HOT_LIST h
          in queue_loop n c2 (h1(sb := (h1 sb)\<lparr>frame_number := 0\<rparr>)))"

text \<open>
  \<^verbatim>\<open>num_free_in_dma_fifo\<close> is computed in \<^verbatim>\<open>unsigned int\<close> and then converted, the other two bounds
  in \<^verbatim>\<open>long long\<close>. The loop condition \<^verbatim>\<open>num_bufs_to_queue--\<close> counts down to zero; the bound is
  never negative (\<open>queue_bound_nonneg\<close>), so the number of iterations is its value.
\<close>

definition num_bufs_to_queue :: "u32 \<Rightarrow> menable_dmachan \<Rightarrow> int" where
  "num_bufs_to_queue fifo_length c =
     min (transfer_todo c - uint (hot_count c))
         (min (uint (ready_count c)) (uint (fifo_length - hot_count c)))"

definition men_dma_queue_max ::
    "u32 \<Rightarrow> (head_ptr \<Rightarrow> menable_dmahead) \<Rightarrow> menable_dmachan \<Rightarrow> buf_heap
     \<Rightarrow> (menable_dmachan \<times> buf_heap) option" where
  "men_dma_queue_max fifo_length heads c h =
     (if transfer_todo c > uint (hot_count c) then
        if mode c = DMA_HANDSHAKEMODE \<and> ready_count c = 0 then
          if hot_count c = 0 then
            (case active c of
               None \<Rightarrow> Some (c, h)
             | Some hp \<Rightarrow>
                 let sb = dummybuf (heads hp)
                 in Some (c\<lparr>hw_queue := hw_queue c @ [sb], hot_list := sb # hot_list c,
                            hot_count := hot_count c + 1\<rparr>, h))
          else Some (c, h)
        else queue_loop (nat (num_bufs_to_queue fifo_length c)) c h
      else Some (c, h))"

definition men_next_blocked ::
    "menable_dmachan \<Rightarrow> buf_heap \<Rightarrow> (buf_id option \<times> menable_dmachan \<times> buf_heap) option" where
  "men_next_blocked c h =
     (if grabbed_count c = 0 then Some (None, c, h)
      else case grabbed_list c of
        [] \<Rightarrow> None
      | b # _ \<Rightarrow>
          let c1 = list_del b c
          in Some (Some b, c1\<lparr>grabbed_count := grabbed_count c1 - 1,
                              locked_count := locked_count c1 + 1\<rparr>,
                   set_listname b NO_LIST h))"

function last_blocked_loop ::
    "menable_dmachan \<Rightarrow> buf_heap \<Rightarrow> (menable_dmachan \<times> buf_heap) option" where
  "last_blocked_loop c h =
     (if 1 < grabbed_count c then
        (case grabbed_list c of
           [] \<Rightarrow> None
         | b # _ \<Rightarrow>
             let c1 = list_move_tail b READY_LIST c
             in last_blocked_loop
                  (c1\<lparr>ready_count := ready_count c1 + 1, grabbed_count := grabbed_count c - 1\<rparr>)
                  (set_listname b READY_LIST h))
      else Some (c, h))"
  by pat_completeness auto
termination
  by (relation "measure (\<lambda>(c, h). unat (grabbed_count c))")
    (auto simp: word_less_nat_alt unat_sub_u32)

declare last_blocked_loop.simps [simp del]

definition men_last_blocked ::
    "menable_dmachan \<Rightarrow> buf_heap \<Rightarrow> (buf_id option \<times> menable_dmachan \<times> buf_heap) option" where
  "men_last_blocked c h =
     (if grabbed_count c = 0 then Some (None, c, h)
      else case last_blocked_loop c h of
        None \<Rightarrow> None
      | Some (c1, h1) \<Rightarrow>
          (case grabbed_list c1 of
             [] \<Rightarrow> None
           | b # _ \<Rightarrow>
               let c2 = list_del b c1
               in Some (Some b, c2\<lparr>grabbed_count := 0, locked_count := locked_count c2 + 1\<rparr>,
                        set_listname b NO_LIST h1)))"

definition men_unblock_buffer ::
    "u32 \<Rightarrow> (head_ptr \<Rightarrow> menable_dmahead) \<Rightarrow> menable_dmachan \<Rightarrow> buf_heap \<Rightarrow> buf_id option
     \<Rightarrow> (menable_dmachan \<times> buf_heap) option" where
  "men_unblock_buffer fifo_length heads c h sbp =
     (case sbp of
        None \<Rightarrow> Some (c, h)
      | Some sb \<Rightarrow>
          let refill = (\<lambda>c h. if hot_count c \<le> 1 \<and> ready_count c > 0
                              then men_dma_queue_max fifo_length heads c h else Some (c, h))
          in (case listname (h sb) of
                HOT_LIST \<Rightarrow> Some (c, h)
              | FREE_LIST \<Rightarrow> Some (c, h)
              | READY_LIST \<Rightarrow> Some (c, h)
              | GRABBED_LIST \<Rightarrow>
                  let c1 = list_move_tail sb READY_LIST c
                  in refill (c1\<lparr>grabbed_count := grabbed_count c1 - 1,
                                ready_count := ready_count c1 + 1\<rparr>)
                            (set_listname sb READY_LIST h)
              | NO_LIST \<Rightarrow>
                  refill (c\<lparr>ready_list := ready_list c @ [sb],
                            locked_count := locked_count c - 1,
                            ready_count := ready_count c + 1\<rparr>)
                         (set_listname sb READY_LIST h)))"

end
