(* ===== verification/Dma_Queues.thy ===== *)
theory Dma_Queues
  imports Dma_Channel
begin

text \<open>
  The invariant of the buffer queues of a channel and the operations of
  \<^verbatim>\<open>linux/menable_mem.c\<close> against it: each buffer of the active head is on exactly the list its
  \<^verbatim>\<open>listname\<close> says, or locked by user space, and every counter is the length of its list.
  One lemma, \<open>relocate_wf\<close>, covers every move of a buffer between two lists.
\<close>

section \<open>Access lemmas\<close>

lemma lst_list_del [simp]: "lst k (list_del b c) = removeAll b (lst k c)"
  by (cases k) (simp_all add: list_del_def)

lemma cnt_list_del [simp]: "cnt k (list_del b c) = cnt k c"
  by (cases k) (simp_all add: list_del_def)

lemma lst_upd_lst [simp]:
  "lst k (upd_lst l f c) = (if k = l \<and> l \<noteq> NO_LIST then f (lst k c) else lst k c)"
  by (cases k; cases l) simp_all

lemma cnt_upd_lst [simp]: "cnt k (upd_lst l f c) = cnt k c"
  by (cases k; cases l) simp_all

lemma lst_upd_cnt [simp]: "lst k (upd_cnt l f c) = lst k c"
  by (cases k; cases l) simp_all

lemma cnt_upd_cnt [simp]: "cnt k (upd_cnt l f c) = (if k = l then f (cnt k c) else cnt k c)"
  by (cases k; cases l) simp_all

lemma listname_set_listname [simp]:
  "listname (set_listname b l h x) = (if x = b then l else listname (h x))"
  by (simp add: set_listname_def)

lemma index_set_listname [simp]: "index (set_listname b l h x) = index (h x)"
  by (simp add: set_listname_def)

section \<open>The invariant\<close>

definition members :: "buf_heap \<Rightarrow> buf_id set \<Rightarrow> listname \<Rightarrow> buf_id set" where
  "members h bs l = Set.filter (\<lambda>b. listname (h b) = l) bs"

definition linked_lists :: "listname set" where
  "linked_lists = {FREE_LIST, GRABBED_LIST, HOT_LIST, READY_LIST}"

text \<open>\<open>bs\<close> are the buffers of the active head, \<open>d\<close> is its dummy buffer.\<close>

definition heap_ok :: "buf_heap \<Rightarrow> buf_id set \<Rightarrow> buf_id \<Rightarrow> bool" where
  "heap_ok h bs d \<longleftrightarrow> finite bs \<and> card bs < 2 ^ 31 \<and> d \<notin> bs \<and> index (h d) = -1
     \<and> (\<forall>b\<in>bs. index (h b) \<noteq> -1)"

definition queue_ok :: "menable_dmachan \<Rightarrow> buf_heap \<Rightarrow> buf_id set \<Rightarrow> buf_id \<Rightarrow> listname \<Rightarrow> bool" where
  "queue_ok c h bs d l \<longleftrightarrow> distinct (lst l c) \<and> cnt l c = of_nat (length (lst l c))
     \<and> set (lst l c) - {d} = members h bs l \<and> (l \<noteq> HOT_LIST \<longrightarrow> d \<notin> set (lst l c))"

definition chan_wf :: "menable_dmachan \<Rightarrow> buf_heap \<Rightarrow> buf_id set \<Rightarrow> buf_id \<Rightarrow> bool" where
  "chan_wf c h bs d \<longleftrightarrow> heap_ok h bs d \<and> (\<forall>l\<in>linked_lists. queue_ok c h bs d l)
     \<and> locked_count c = of_nat (card (members h bs NO_LIST))"

lemma in_linked_lists [simp]: "l \<in> linked_lists \<longleftrightarrow> l \<noteq> NO_LIST"
  by (cases l) (auto simp: linked_lists_def)

lemma members_iff [simp]: "b \<in> members h bs l \<longleftrightarrow> b \<in> bs \<and> listname (h b) = l"
  by (auto simp: members_def)

lemma chan_wf_cong:
  assumes "\<And>k. lst k c' = lst k c" "\<And>k. cnt k c' = cnt k c"
    and "\<And>b. listname (h' b) = listname (h b)" "\<And>b. index (h' b) = index (h b)"
  shows "chan_wf c' h' bs d \<longleftrightarrow> chan_wf c h bs d"
proof -
  have m: "members h' bs l = members h bs l" for l
    by (simp add: members_def assms(3))
  have "locked_count c' = locked_count c" using assms(2) [of NO_LIST] by simp
  then show ?thesis
    by (simp add: chan_wf_def heap_ok_def queue_ok_def m assms)
qed

lemma chan_wf_queue: "chan_wf c h bs d \<Longrightarrow> l \<noteq> NO_LIST \<Longrightarrow> queue_ok c h bs d l"
  by (simp add: chan_wf_def)

lemma members_finite: "chan_wf c h bs d \<Longrightarrow> finite (members h bs l)"
  by (simp add: chan_wf_def heap_ok_def members_def)

lemma members_card: "chan_wf c h bs d \<Longrightarrow> card (members h bs l) < 2 ^ 31"
  unfolding chan_wf_def heap_ok_def
  by (meson card_mono le_less_trans members_iff subsetI)

lemma queue_length:
  assumes "chan_wf c h bs d" "l \<noteq> NO_LIST"
  shows "length (lst l c) \<le> 2 ^ 31"
proof -
  have q: "distinct (lst l c)" "set (lst l c) - {d} = members h bs l"
    using chan_wf_queue [OF assms] by (simp_all add: queue_ok_def)
  have "length (lst l c) = card (set (lst l c))"
    using q(1) by (simp add: distinct_card)
  also have "\<dots> \<le> card (insert d (members h bs l))"
    by (rule card_mono) (use q(2) members_finite [OF assms(1)] in auto)
  also have "\<dots> \<le> Suc (card (members h bs l))"
    by (rule card_insert_le_m1) simp_all
  finally show ?thesis using members_card [OF assms(1), of l] by simp
qed

lemma unat_cnt:
  assumes "chan_wf c h bs d" "l \<noteq> NO_LIST"
  shows "unat (cnt l c) = length (lst l c)"
  using chan_wf_queue [OF assms] queue_length [OF assms] by (simp add: queue_ok_def)

lemma unat_locked:
  assumes "chan_wf c h bs d"
  shows "unat (locked_count c) = card (members h bs NO_LIST)"
proof -
  have "card (members h bs NO_LIST) < 2 ^ 31" using members_card [OF assms] .
  then show ?thesis using assms by (simp add: chan_wf_def)
qed

lemmas unat_counts =
  unat_cnt [where l = READY_LIST, simplified] unat_cnt [where l = HOT_LIST, simplified]
  unat_cnt [where l = GRABBED_LIST, simplified] unat_cnt [where l = FREE_LIST, simplified]

lemma in_list_iff:
  assumes "chan_wf c h bs d" "l \<noteq> NO_LIST" "b \<in> bs"
  shows "b \<in> set (lst l c) \<longleftrightarrow> listname (h b) = l"
proof -
  have s: "set (lst l c) - {d} = members h bs l"
    using chan_wf_queue [OF assms(1,2)] by (simp add: queue_ok_def)
  have "b \<noteq> d" using assms(1,3) by (auto simp: chan_wf_def heap_ok_def)
  then have "b \<in> set (lst l c) \<longleftrightarrow> b \<in> set (lst l c) - {d}" by simp
  then show ?thesis using assms(3) by (simp add: s)
qed

lemma list_elem:
  assumes "chan_wf c h bs d" "l \<noteq> NO_LIST" "b \<in> set (lst l c)"
  shows "b = d \<and> l = HOT_LIST \<or> b \<in> bs \<and> b \<noteq> d \<and> listname (h b) = l"
proof (cases "b = d")
  case True
  then show ?thesis using assms(3) chan_wf_queue [OF assms(1,2)] by (auto simp: queue_ok_def)
next
  case False
  then have "b \<in> set (lst l c) - {d}" using assms(3) by simp
  moreover have "set (lst l c) - {d} = members h bs l"
    using chan_wf_queue [OF assms(1,2)] by (simp add: queue_ok_def)
  ultimately show ?thesis using False by simp
qed

lemma removeAll_other:
  assumes "chan_wf c h bs d" "b \<in> bs" "k \<noteq> listname (h b)"
  shows "removeAll b (lst k c) = lst k c"
proof (cases "k = NO_LIST")
  case False
  then show ?thesis using in_list_iff [OF assms(1) False assms(2)] assms(3) by (simp add: removeAll_id)
qed simp

section \<open>Moving one buffer\<close>

definition relocate :: "buf_id \<Rightarrow> listname \<Rightarrow> listname \<Rightarrow> menable_dmachan \<Rightarrow> menable_dmachan" where
  "relocate b l l' c = upd_cnt l' (\<lambda>n. n + 1) (upd_cnt l (\<lambda>n. n - 1) (list_move_tail b l' c))"

lemma lst_relocate:
  "lst k (relocate b l l' c)
     = (if k = l' \<and> k \<noteq> NO_LIST then removeAll b (lst k c) @ [b] else removeAll b (lst k c))"
  by (simp add: relocate_def list_move_tail_def)

lemma cnt_relocate:
  "cnt k (relocate b l l' c)
     = cnt k c - (if k = l then 1 else 0) + (if k = l' then 1 else 0)"
  by (simp add: relocate_def list_move_tail_def)

lemma members_move:
  assumes "b \<in> bs"
  shows "members (set_listname b l' h) bs k
       = (if k = l' then insert b (members h bs k) else members h bs k - {b})"
  using assms by (auto simp: members_def set_listname_def split: if_splits)

theorem relocate_wf:
  assumes wf: "chan_wf c h bs d" and b: "b \<in> bs" and l: "listname (h b) = l"
  shows "chan_wf (relocate b l l' c) (set_listname b l' h) bs d"
proof -
  have bd: "b \<noteq> d" using wf b by (auto simp: chan_wf_def heap_ok_def)
  have "queue_ok (relocate b l l' c) (set_listname b l' h) bs d k" if k: "k \<noteq> NO_LIST" for k
  proof -
    have q: "distinct (lst k c)" "cnt k c = of_nat (length (lst k c))"
        "set (lst k c) - {d} = members h bs k" "k \<noteq> HOT_LIST \<longrightarrow> d \<notin> set (lst k c)"
      using chan_wf_queue [OF wf k] by (simp_all add: queue_ok_def)
    have inb: "b \<in> set (lst k c) \<longleftrightarrow> k = l" using in_list_iff [OF wf k b] l by auto
    have len: "(of_nat (length (removeAll b (lst k c))) :: u32)
             = of_nat (length (lst k c)) - (if k = l then 1 else 0)"
    proof (cases "k = l")
      case True
      then have "length (lst k c) = Suc (length (removeAll b (lst k c)))"
        using length_removeAll_in [OF q(1), of b] inb by simp
      then show ?thesis using True by simp
    qed (use inb in \<open>simp add: removeAll_id\<close>)
    have "set (lst k (relocate b l l' c)) - {d} = members (set_listname b l' h) bs k"
      using q(3) bd k by (auto simp: lst_relocate members_move [OF b])
    moreover have "distinct (lst k (relocate b l l' c))"
      using q(1) by (auto simp: lst_relocate distinct_removeAll)
    moreover have "cnt k (relocate b l l' c) = of_nat (length (lst k (relocate b l l' c)))"
      using q(2) len k by (auto simp: cnt_relocate lst_relocate)
    moreover have "k \<noteq> HOT_LIST \<longrightarrow> d \<notin> set (lst k (relocate b l l' c))"
      using q(4) bd by (auto simp: lst_relocate)
    ultimately show ?thesis by (simp add: queue_ok_def)
  qed
  moreover have "heap_ok (set_listname b l' h) bs d"
    using wf by (simp add: chan_wf_def heap_ok_def)
  moreover have "locked_count (relocate b l l' c)
               = of_nat (card (members (set_listname b l' h) bs NO_LIST))"
  proof -
    have lc: "locked_count c = of_nat (card (members h bs NO_LIST))"
      using wf by (simp add: chan_wf_def)
    have fin: "finite (members h bs NO_LIST)" by (rule members_finite [OF wf])
    have "locked_count (relocate b l l' c)
        = locked_count c - (if l = NO_LIST then 1 else 0) + (if l' = NO_LIST then 1 else 0)"
      using cnt_relocate [of NO_LIST b l l' c] by auto
    also have "\<dots> = of_nat (card (members (set_listname b l' h) bs NO_LIST))"
    proof (cases "l = NO_LIST")
      case True
      then have "b \<in> members h bs NO_LIST" using l b by simp
      then have "card (members h bs NO_LIST) = Suc (card (members h bs NO_LIST - {b}))"
        "insert b (members h bs NO_LIST) = members h bs NO_LIST"
        using fin card_Suc_Diff1 [OF fin] by (metis, simp add: insert_absorb)
      then show ?thesis using True lc by (simp add: members_move [OF b])
    next
      case False
      then have nb: "b \<notin> members h bs NO_LIST" using l b by simp
      show ?thesis
        unfolding members_move [OF b] lc using False fin nb
        by (cases "l' = NO_LIST") (simp_all add: card_insert_disjoint)
    qed
    finally show ?thesis .
  qed
  ultimately show ?thesis by (simp add: chan_wf_def)
qed

text \<open>The form in which the operations use it: any state with the same queues and counters.\<close>

lemma relocate_wf':
  assumes "chan_wf c h bs d" "b \<in> bs" "listname (h b) = l"
    and "\<And>k. lst k c' = lst k (relocate b l l' c)" "\<And>k. cnt k c' = cnt k (relocate b l l' c)"
    and "\<And>x. listname (h' x) = (if x = b then l' else listname (h x))"
    and "\<And>x. index (h' x) = index (h x)"
  shows "chan_wf c' h' bs d"
  using relocate_wf [OF assms(1-3), of l']
  by (subst chan_wf_cong [where c = "relocate b l l' c" and h = "set_listname b l' h"])
    (simp_all add: assms(4-7))

end
