(* ===== verification/Dma_Queue_Ops.thy ===== *)
theory Dma_Queue_Ops
  imports Dma_Queues
begin

text \<open>
  What each operation of \<^verbatim>\<open>linux/menable_mem.c\<close> does to the queues of a well-formed channel, and
  that it never runs into undefined behaviour there.
\<close>

section \<open>Heads of the queues\<close>

lemma cnt_zero_iff:
  assumes "chan_wf c h bs d" "l \<noteq> NO_LIST"
  shows "cnt l c = 0 \<longleftrightarrow> lst l c = []"
  using unat_cnt [OF assms] by (metis length_0_conv unat_eq_zero)

lemma queue_hd:
  assumes "chan_wf c h bs d" "l \<noteq> NO_LIST" "lst l c = b # xs" "b \<noteq> d"
  shows "b \<in> bs" "listname (h b) = l" "b \<notin> set xs" "removeAll b (lst l c) = xs"
    "k \<noteq> l \<Longrightarrow> removeAll b (lst k c) = lst k c"
proof -
  have dist: "distinct (b # xs)"
    using chan_wf_queue [OF assms(1,2)] assms(3) by (simp add: queue_ok_def)
  have bl: "b \<in> bs \<and> listname (h b) = l"
    using list_elem [OF assms(1,2), of b] assms(3,4) by auto
  then show "b \<in> bs" "listname (h b) = l" by simp_all
  show "b \<notin> set xs" "removeAll b (lst l c) = xs"
    using dist assms(3) by (simp_all add: removeAll_id)
  show "removeAll b (lst k c) = lst k c" if "k \<noteq> l"
    by (rule removeAll_other [OF assms(1)]) (use bl that in auto)
qed

lemma hd_not_dummy:
  "chan_wf c h bs d \<Longrightarrow> l \<noteq> NO_LIST \<Longrightarrow> l \<noteq> HOT_LIST \<Longrightarrow> lst l c = b # xs \<Longrightarrow> b \<noteq> d"
  using chan_wf_queue [of c h bs d l] by (auto simp: queue_ok_def)

section \<open>\<^verbatim>\<open>men_dma_queue_max\<close>\<close>

definition marked_hot :: "buf_id set \<Rightarrow> buf_heap \<Rightarrow> buf_heap" where
  "marked_hot B h = (\<lambda>b. if b \<in> B then (h b)\<lparr>listname := HOT_LIST, frame_number := 0\<rparr> else h b)"

definition queued_chan :: "nat \<Rightarrow> menable_dmachan \<Rightarrow> menable_dmachan" where
  "queued_chan n c = c\<lparr>ready_list := drop n (ready_list c),
     hot_list := hot_list c @ take n (ready_list c), hw_queue := hw_queue c @ take n (ready_list c),
     ready_count := ready_count c - of_nat n, hot_count := hot_count c + of_nat n\<rparr>"

lemma queue_loop_spec:
  assumes "chan_wf c h bs d" "n \<le> length (ready_list c)"
  shows "queue_loop n c h = Some (queued_chan n c, marked_hot (set (take n (ready_list c))) h)
     \<and> chan_wf (queued_chan n c) (marked_hot (set (take n (ready_list c))) h) bs d"
  using assms
proof (induction n arbitrary: c h)
  case 0
  have "marked_hot {} h = h" by (auto simp: marked_hot_def)
  then show ?case using 0 by (simp add: queued_chan_def)
next
  case (Suc n)
  then obtain b xs where r: "ready_list c = b # xs" by (cases "ready_list c") auto
  have rl: "lst READY_LIST c = b # xs" using r by simp
  have bd: "b \<noteq> d" by (rule hd_not_dummy [OF Suc.prems(1) _ _ rl]) simp_all
  note hd = queue_hd [OF Suc.prems(1) _ rl bd, simplified]
  let ?c1 = "list_move_tail b HOT_LIST (c\<lparr>hw_queue := hw_queue c @ [b]\<rparr>)"
  let ?c2 = "?c1\<lparr>ready_count := ready_count ?c1 - 1, hot_count := hot_count ?c1 + 1\<rparr>"
  let ?h1 = "set_listname b HOT_LIST h"
  let ?h2 = "?h1(b := (?h1 b)\<lparr>frame_number := 0\<rparr>)"
  have lists: "removeAll b (hot_list c) = hot_list c" "removeAll b (free_list c) = free_list c"
      "removeAll b (grabbed_list c) = grabbed_list c" "removeAll b (ready_list c) = xs"
    using hd(4) hd(5) [of HOT_LIST] hd(5) [of FREE_LIST] hd(5) [of GRABBED_LIST] by simp_all
  have c2: "?c2 = c\<lparr>ready_list := xs, hot_list := hot_list c @ [b], hw_queue := hw_queue c @ [b],
                    ready_count := ready_count c - 1, hot_count := hot_count c + 1\<rparr>"
    by (simp add: list_move_tail_def list_del_def lists)
  have wf2: "chan_wf ?c2 ?h2 bs d"
  proof (rule relocate_wf' [OF Suc.prems(1) hd(1,2), where l' = HOT_LIST])
    show "lst k ?c2 = lst k (relocate b READY_LIST HOT_LIST c)" for k
      unfolding c2 by (cases k) (simp_all add: lst_relocate lists)
    show "cnt k ?c2 = cnt k (relocate b READY_LIST HOT_LIST c)" for k
      unfolding c2 by (cases k) (simp_all add: cnt_relocate)
  qed simp_all
  have "n \<le> length (ready_list ?c2)" unfolding c2 using Suc.prems(2) r by simp
  note IH = Suc.IH [OF wf2 this]
  have heap: "marked_hot (set (take n xs)) ?h2 = marked_hot (set (take (Suc n) (ready_list c))) h"
    using hd(3) by (auto simp: marked_hot_def set_listname_def r fun_eq_iff dest: in_set_takeD)
  have step: "queue_loop (Suc n) c h = queue_loop n ?c2 ?h2"
    by (simp add: r Let_def)
  have rec: "queued_chan n ?c2 = queued_chan (Suc n) c"
    unfolding c2 by (simp add: queued_chan_def r algebra_simps)
  have rl2: "ready_list ?c2 = xs" unfolding c2 by simp
  show ?case
    using IH by (simp only: step rec rl2 heap)
qed

text \<open>How many buffers one call hands to the board.\<close>

definition queue_amount :: "u32 \<Rightarrow> menable_dmachan \<Rightarrow> nat" where
  "queue_amount fifo_length c =
     (if transfer_todo c > uint (hot_count c)
      then min (nat (transfer_todo c) - length (hot_list c))
             (min (length (ready_list c)) (unat fifo_length - length (hot_list c)))
      else 0)"

definition needs_dummy :: "menable_dmachan \<Rightarrow> bool" where
  "needs_dummy c \<longleftrightarrow> transfer_todo c > 0 \<and> mode c = DMA_HANDSHAKEMODE \<and> ready_list c = []
     \<and> hot_list c = [] \<and> active c \<noteq> None"

definition with_dummy :: "buf_id \<Rightarrow> menable_dmachan \<Rightarrow> menable_dmachan" where
  "with_dummy d c = c\<lparr>hw_queue := hw_queue c @ [d], hot_list := [d], hot_count := 1\<rparr>"

lemma nat_num_bufs:
  assumes wf: "chan_wf c h bs d" and le: "hot_count c \<le> fifo_length"
    and todo: "transfer_todo c > uint (hot_count c)"
  shows "nat (num_bufs_to_queue fifo_length c) = queue_amount fifo_length c"
proof -
  have u: "uint (hot_count c) = int (length (hot_list c))"
      "uint (ready_count c) = int (length (ready_list c))"
    using unat_counts(1,2) [OF wf] by (metis uint_nat)+
  have "uint (fifo_length - hot_count c) = int (unat fifo_length - length (hot_list c))"
    using unat_sub_u32 [of "hot_count c" fifo_length] le unat_counts(2) [OF wf]
    by (metis uint_nat word_le_nat_alt)
  moreover have "transfer_todo c - uint (hot_count c)
               = int (nat (transfer_todo c) - length (hot_list c))"
    using todo u by simp
  ultimately have "num_bufs_to_queue fifo_length c = int (min (nat (transfer_todo c) - length (hot_list c))
      (min (length (ready_list c)) (unat fifo_length - length (hot_list c))))"
    unfolding num_bufs_to_queue_def by (simp only: u(2) of_nat_min)
  then show ?thesis
    unfolding queue_amount_def using todo by (simp only: if_True nat_int)
qed

lemma queue_amount_le: "queue_amount fifo_length c \<le> length (ready_list c)"
  by (simp add: queue_amount_def min_le_iff_disj)

lemma dummy_wf:
  assumes wf: "chan_wf c h bs d" and e: "hot_list c = []"
  shows "chan_wf (with_dummy d c) h bs d"
proof -
  have "queue_ok (with_dummy d c) h bs d l" if "l \<noteq> NO_LIST" for l
    using chan_wf_queue [OF wf that] e that
    by (cases l) (simp_all add: queue_ok_def with_dummy_def)
  then show ?thesis using wf by (simp add: chan_wf_def with_dummy_def)
qed

lemma marked_hot_empty [simp]: "marked_hot {} h = h"
  by (auto simp: marked_hot_def)

lemma queued_chan_0 [simp]: "queued_chan 0 c = c"
  by (simp add: queued_chan_def)

lemma men_dma_queue_max_result:
  assumes wf: "chan_wf c h bs d" and le: "hot_count c \<le> fifo_length"
    and d: "\<And>hp. active c = Some hp \<Longrightarrow> dummybuf (heads hp) = d"
  shows "men_dma_queue_max fifo_length heads c h =
     (if needs_dummy c then Some (with_dummy d c, h)
      else Some (queued_chan (queue_amount fifo_length c) c,
                 marked_hot (set (take (queue_amount fifo_length c) (ready_list c))) h))"
proof -
  have z: "ready_count c = 0 \<longleftrightarrow> ready_list c = []" "hot_count c = 0 \<longleftrightarrow> hot_list c = []"
    using cnt_zero_iff [OF wf, of READY_LIST] cnt_zero_iff [OF wf, of HOT_LIST] by simp_all
  show ?thesis
  proof (cases "transfer_todo c > uint (hot_count c)")
    case False
    then have "\<not> needs_dummy c" using z by (auto simp: needs_dummy_def)
    with False show ?thesis by (simp add: men_dma_queue_max_def queue_amount_def)
  next
    case todo: True
    have am: "queue_amount fifo_length c \<le> length (ready_list c)"
      by (rule queue_amount_le)
    show ?thesis
    proof (cases "mode c = DMA_HANDSHAKEMODE \<and> ready_count c = 0")
      case True
      then have amz: "queue_amount fifo_length c = 0" using am z by simp
      show ?thesis
      proof (cases "hot_count c = 0")
        case True
        then show ?thesis
          using todo amz z d \<open>mode c = DMA_HANDSHAKEMODE \<and> ready_count c = 0\<close>
          by (cases "active c")
            (auto simp: men_dma_queue_max_def needs_dummy_def with_dummy_def Let_def)
      next
        case False
        then have "\<not> needs_dummy c" using z by (simp add: needs_dummy_def)
        then show ?thesis
          using todo amz False True by (simp add: men_dma_queue_max_def)
      qed
    next
      case False
      then have "\<not> needs_dummy c" using z by (auto simp: needs_dummy_def)
      then show ?thesis
        using todo False queue_loop_spec [OF wf am] nat_num_bufs [OF wf le todo]
        by (auto simp: men_dma_queue_max_def)
    qed
  qed
qed

lemma hot_within_fifo:
  assumes "chan_wf c h bs d" "hot_count c \<le> fifo_length"
  shows "length (hot_list c) + queue_amount fifo_length c \<le> unat fifo_length"
  using assms unat_counts(2) [OF assms(1)]
  by (auto simp: queue_amount_def word_le_nat_alt)

lemma men_dma_queue_max_wf:
  assumes wf: "chan_wf c h bs d" and le: "hot_count c \<le> fifo_length" and pos: "0 < fifo_length"
    and d: "\<And>hp. active c = Some hp \<Longrightarrow> dummybuf (heads hp) = d"
  obtains c' h' n where "men_dma_queue_max fifo_length heads c h = Some (c', h')"
    "chan_wf c' h' bs d" "hot_count c' \<le> fifo_length"
    "hot_list c' = hot_list c @ n" "hw_queue c' = hw_queue c @ n" "active c' = active c"
proof (cases "needs_dummy c")
  case True
  then have e: "hot_list c = []" by (simp add: needs_dummy_def)
  show ?thesis
  proof (rule that)
    show "men_dma_queue_max fifo_length heads c h = Some (with_dummy d c, h)"
      using men_dma_queue_max_result [OF wf le d] True by simp
    show "chan_wf (with_dummy d c) h bs d" by (rule dummy_wf [OF wf e])
    show "hot_count (with_dummy d c) \<le> fifo_length"
      using pos by (simp add: with_dummy_def word_le_nat_alt word_less_nat_alt)
  qed (use e in \<open>simp_all add: with_dummy_def\<close>)
next
  case False
  let ?n = "queue_amount fifo_length c"
  let ?c = "queued_chan ?n c" and ?h = "marked_hot (set (take ?n (ready_list c))) h"
  have wf': "chan_wf ?c ?h bs d"
    using queue_loop_spec [OF wf queue_amount_le] by blast
  have hl: "hot_list ?c = hot_list c @ take ?n (ready_list c)"
    by (simp add: queued_chan_def)
  show ?thesis
  proof (rule that)
    show "men_dma_queue_max fifo_length heads c h = Some (?c, ?h)"
      using men_dma_queue_max_result [OF wf le d] False by simp
    show "hot_count ?c \<le> fifo_length"
      using hot_within_fifo [OF wf le] unat_counts(2) [OF wf'] unfolding hl
      by (simp add: word_le_nat_alt)
  qed (use wf' in \<open>simp_all add: queued_chan_def\<close>)
qed

section \<open>\<^verbatim>\<open>men_move_hot\<close>\<close>

lemma index_dummy_iff:
  "chan_wf c h bs d \<Longrightarrow> b \<in> insert d bs \<Longrightarrow> index (h b) = -1 \<longleftrightarrow> b = d"
  by (auto simp: chan_wf_def heap_ok_def)

definition after_filled :: "menable_dmachan \<Rightarrow> menable_dmachan" where
  "after_filled c = c\<lparr>transfer_todo := transfer_todo c - 1, imgcnt := imgcnt c + 1,
     latest_frame_number := latest_frame_number c + 1\<rparr>"

definition stamped :: "buf_id \<Rightarrow> menable_timespec \<Rightarrow> buf_heap \<Rightarrow> buf_heap" where
  "stamped b ts h = h(b := (h b)\<lparr>timestamp := ts\<rparr>)"

lemma drop_dummy_wf:
  assumes wf: "chan_wf c h bs d" and hot: "hot_list c = d # xs"
  shows "chan_wf (c\<lparr>hot_list := xs, hot_count := hot_count c - 1\<rparr>) h bs d"
proof -
  let ?c = "c\<lparr>hot_list := xs, hot_count := hot_count c - 1\<rparr>"
  have "queue_ok ?c h bs d l" if "l \<noteq> NO_LIST" for l
    using chan_wf_queue [OF wf that] hot that by (cases l) (auto simp: queue_ok_def)
  then show ?thesis using wf by (simp add: chan_wf_def)
qed

lemma men_move_hot_dummy:
  assumes wf: "chan_wf c h bs d" and act: "active c \<noteq> None" and hot: "hot_list c = d # xs"
  shows "men_move_hot ts c h =
     Some (Some d, after_filled (c\<lparr>hot_list := xs, hot_count := hot_count c - 1,
             lost_count := lost_count c + 1\<rparr>), stamped d ts h)"
proof -
  have nz: "hot_count c \<noteq> 0" using cnt_zero_iff [OF wf, of HOT_LIST] hot by simp
  have idx: "index (h d) = -1" using wf by (simp add: chan_wf_def heap_ok_def)
  have free: "d \<notin> set (free_list c)" "d \<notin> set (ready_list c)" "d \<notin> set (grabbed_list c)"
    using chan_wf_queue [OF wf, of FREE_LIST] chan_wf_queue [OF wf, of READY_LIST]
      chan_wf_queue [OF wf, of GRABBED_LIST] by (simp_all add: queue_ok_def)
  have "removeAll d (hot_list c) = xs"
    using chan_wf_queue [OF wf, of HOT_LIST] hot by (simp add: queue_ok_def removeAll_id)
  then show ?thesis
    using act nz idx hot free
    by (simp add: men_move_hot_def after_filled_def stamped_def list_del_def removeAll_id Let_def)
qed

lemma men_move_hot_buffer:
  assumes wf: "chan_wf c h bs d" and act: "active c \<noteq> None"
    and hot: "hot_list c = b # xs" and bd: "b \<noteq> d"
  shows "men_move_hot ts c h =
     Some (Some b, after_filled ((relocate b HOT_LIST (move_hot_target (mode c)) c)
                      \<lparr>goodcnt := goodcnt c + 1\<rparr>),
           stamped b ts (set_listname b (move_hot_target (mode c)) h))"
proof -
  have nz: "hot_count c \<noteq> 0" using cnt_zero_iff [OF wf, of HOT_LIST] hot by simp
  have "b \<in> bs" using queue_hd(1) [OF wf, of HOT_LIST] hot bd by simp
  then have idx: "index (h b) \<noteq> -1" using wf by (auto simp: chan_wf_def heap_ok_def)
  have tgt: "move_hot_target (mode c) \<in> {GRABBED_LIST, FREE_LIST, READY_LIST}"
    by (simp add: move_hot_target_def)
  then show ?thesis
    using act nz idx hot
    by (auto simp: men_move_hot_def after_filled_def stamped_def relocate_def list_move_tail_def
        list_del_def Let_def)
qed

end
