(* ===== verification/Dma_Queue_Props.thy ===== *)
theory Dma_Queue_Props
  imports Dma_Queue_Ops
begin

text \<open>
  The remaining queue operations (grabbing a buffer for user space and giving it back), the
  histories of all of them, and the properties of the queues of a channel.
\<close>

section \<open>\<^verbatim>\<open>men_move_hot\<close> keeps the invariant\<close>

lemma men_move_hot_wf:
  assumes wf: "chan_wf c h bs d" and act: "active c \<noteq> None" and hot: "hot_list c = b # xs"
  obtains c' h' where "men_move_hot ts c h = Some (Some b, c', h')" "chan_wf c' h' bs d"
    "hot_list c' = xs" "hw_queue c' = hw_queue c" "active c' = active c"
proof (cases "b = d")
  case True
  have "chan_wf (after_filled (c\<lparr>hot_list := xs, hot_count := hot_count c - 1,
             lost_count := lost_count c + 1\<rparr>)) (stamped d ts h) bs d"
  proof (subst chan_wf_cong [OF _ _ _ _])
    show "chan_wf (c\<lparr>hot_list := xs, hot_count := hot_count c - 1\<rparr>) h bs d"
      by (rule drop_dummy_wf [OF wf]) (use hot True in simp)
    show "lst k (after_filled (c\<lparr>hot_list := xs, hot_count := hot_count c - 1,
             lost_count := lost_count c + 1\<rparr>)) = lst k (c\<lparr>hot_list := xs, hot_count := hot_count c - 1\<rparr>)" for k
      by (cases k) (simp_all add: after_filled_def)
    show "cnt k (after_filled (c\<lparr>hot_list := xs, hot_count := hot_count c - 1,
             lost_count := lost_count c + 1\<rparr>)) = cnt k (c\<lparr>hot_list := xs, hot_count := hot_count c - 1\<rparr>)" for k
      by (cases k) (simp_all add: after_filled_def)
  qed (simp_all add: stamped_def)
  then show ?thesis
    using that men_move_hot_dummy [OF wf act, of xs ts] hot True by (simp add: after_filled_def)
next
  case False
  let ?l = "move_hot_target (mode c)"
  have hl: "lst HOT_LIST c = b # xs" using hot by simp
  note hd = queue_hd [OF wf _ hl False, simplified]
  have l: "?l \<noteq> HOT_LIST" by (simp add: move_hot_target_def)
  let ?c = "after_filled ((relocate b HOT_LIST ?l c)\<lparr>goodcnt := goodcnt c + 1\<rparr>)"
  let ?h = "stamped b ts (set_listname b ?l h)"
  have sel: "lst k ?c = lst k (relocate b HOT_LIST ?l c)"
      "cnt k ?c = cnt k (relocate b HOT_LIST ?l c)" for k
    by (cases k; simp add: after_filled_def)+
  have "chan_wf ?c ?h bs d"
    by (rule relocate_wf' [OF wf hd(1,2), where l' = ?l]) (simp_all add: sel stamped_def)
  moreover have "hot_list ?c = xs"
    using sel(1) [of HOT_LIST] hd(4) l by (simp add: lst_relocate)
  moreover have "hw_queue ?c = hw_queue c" "active ?c = active c"
    by (cases ?l; simp add: after_filled_def relocate_def list_move_tail_def list_del_def)+
  ultimately show ?thesis
    using that men_move_hot_buffer [OF wf act hot False, of ts] by blast
qed

section \<open>Grabbing buffers\<close>

lemma men_next_blocked_result:
  assumes wf: "chan_wf c h bs d"
  shows "grabbed_list c = [] \<Longrightarrow> men_next_blocked c h = Some (None, c, h)"
    and "grabbed_list c = b # xs \<Longrightarrow>
      men_next_blocked c h = Some (Some b,
        c\<lparr>grabbed_list := xs, grabbed_count := grabbed_count c - 1, locked_count := locked_count c + 1\<rparr>,
        set_listname b NO_LIST h)
      \<and> chan_wf (c\<lparr>grabbed_list := xs, grabbed_count := grabbed_count c - 1,
                  locked_count := locked_count c + 1\<rparr>) (set_listname b NO_LIST h) bs d"
proof -
  have z: "grabbed_count c = 0 \<longleftrightarrow> grabbed_list c = []"
    using cnt_zero_iff [OF wf, of GRABBED_LIST] by simp
  show "grabbed_list c = [] \<Longrightarrow> men_next_blocked c h = Some (None, c, h)"
    using z by (simp add: men_next_blocked_def)
  assume g: "grabbed_list c = b # xs"
  then have gl: "lst GRABBED_LIST c = b # xs" by simp
  have bd: "b \<noteq> d" by (rule hd_not_dummy [OF wf _ _ gl]) simp_all
  note hd = queue_hd [OF wf _ gl bd, simplified]
  have lists: "removeAll b (hot_list c) = hot_list c" "removeAll b (free_list c) = free_list c"
      "removeAll b (grabbed_list c) = xs" "removeAll b (ready_list c) = ready_list c"
    using hd(4) hd(5) [of HOT_LIST] hd(5) [of FREE_LIST] hd(5) [of READY_LIST] by simp_all
  let ?c = "c\<lparr>grabbed_list := xs, grabbed_count := grabbed_count c - 1,
              locked_count := locked_count c + 1\<rparr>"
  have "chan_wf ?c (set_listname b NO_LIST h) bs d"
  proof (rule relocate_wf' [OF wf hd(1,2), where l' = NO_LIST])
    show "lst k ?c = lst k (relocate b GRABBED_LIST NO_LIST c)" for k
      by (cases k) (simp_all add: lst_relocate lists)
    show "cnt k ?c = cnt k (relocate b GRABBED_LIST NO_LIST c)" for k
      by (cases k) (simp_all add: cnt_relocate)
  qed simp_all
  then show "men_next_blocked c h = Some (Some b, ?c, set_listname b NO_LIST h)
      \<and> chan_wf ?c (set_listname b NO_LIST h) bs d"
    using z g lists by (simp add: men_next_blocked_def list_del_def Let_def)
qed

definition marked_ready :: "buf_id set \<Rightarrow> buf_heap \<Rightarrow> buf_heap" where
  "marked_ready B h = (\<lambda>b. if b \<in> B then (h b)\<lparr>listname := READY_LIST\<rparr> else h b)"

definition recycled :: "nat \<Rightarrow> menable_dmachan \<Rightarrow> menable_dmachan" where
  "recycled n c = c\<lparr>grabbed_list := drop n (grabbed_list c),
     ready_list := ready_list c @ take n (grabbed_list c),
     ready_count := ready_count c + of_nat n, grabbed_count := grabbed_count c - of_nat n\<rparr>"

lemma recycled_0: "recycled 0 c = c"
  by (simp add: recycled_def)

lemma recycled_1_wf:
  assumes wf: "chan_wf c h bs d" and g: "grabbed_list c = b # xs"
  shows "list_move_tail b READY_LIST c
           \<lparr>ready_count := ready_count (list_move_tail b READY_LIST c) + 1,
            grabbed_count := grabbed_count c - 1\<rparr> = recycled 1 c"
    and "chan_wf (recycled 1 c) (set_listname b READY_LIST h) bs d"
proof -
  have gl: "lst GRABBED_LIST c = b # xs" using g by simp
  have bd: "b \<noteq> d" by (rule hd_not_dummy [OF wf _ _ gl]) simp_all
  note hd = queue_hd [OF wf _ gl bd, simplified]
  have lists: "removeAll b (hot_list c) = hot_list c" "removeAll b (free_list c) = free_list c"
      "removeAll b (grabbed_list c) = xs" "removeAll b (ready_list c) = ready_list c"
    using hd(4) hd(5) [of HOT_LIST] hd(5) [of FREE_LIST] hd(5) [of READY_LIST] by simp_all
  show "list_move_tail b READY_LIST c
           \<lparr>ready_count := ready_count (list_move_tail b READY_LIST c) + 1,
            grabbed_count := grabbed_count c - 1\<rparr> = recycled 1 c"
    using lists g by (simp add: list_move_tail_def list_del_def recycled_def removeAll_id hd(3))
  show "chan_wf (recycled 1 c) (set_listname b READY_LIST h) bs d"
  proof (rule relocate_wf' [OF wf hd(1,2), where l' = READY_LIST])
    show "lst k (recycled 1 c) = lst k (relocate b GRABBED_LIST READY_LIST c)" for k
      by (cases k) (simp_all add: lst_relocate lists recycled_def g removeAll_id hd(3))
    show "cnt k (recycled 1 c) = cnt k (relocate b GRABBED_LIST READY_LIST c)" for k
      by (cases k) (simp_all add: cnt_relocate recycled_def)
  qed simp_all
qed

lemma last_blocked_loop_spec:
  assumes "chan_wf c h bs d" "grabbed_list c = xs @ [b]"
  shows "last_blocked_loop c h = Some (recycled (length xs) c, marked_ready (set xs) h)
     \<and> chan_wf (recycled (length xs) c) (marked_ready (set xs) h) bs d"
  using assms
proof (induction xs arbitrary: c h)
  case Nil
  have "unat (grabbed_count c) = 1" using unat_counts(3) [OF Nil.prems(1)] Nil.prems(2) by simp
  then have "\<not> 1 < grabbed_count c" by (simp add: word_less_nat_alt)
  moreover have "marked_ready {} h = h" by (auto simp: marked_ready_def)
  ultimately show ?case
    using Nil by (subst last_blocked_loop.simps) (simp add: recycled_0)
next
  case (Cons a xs)
  have g: "grabbed_list c = a # (xs @ [b])" using Cons.prems(2) by simp
  have "1 < grabbed_count c"
    using unat_counts(3) [OF Cons.prems(1)] g by (simp add: word_less_nat_alt)
  note step = recycled_1_wf [OF Cons.prems(1) g]
  have loop: "last_blocked_loop c h
            = last_blocked_loop (recycled 1 c) (set_listname a READY_LIST h)"
    using \<open>1 < grabbed_count c\<close> g step(1)
    by (subst last_blocked_loop.simps) (simp add: Let_def)
  have g1: "grabbed_list (recycled 1 c) = xs @ [b]" using g by (simp add: recycled_def)
  have rec: "recycled (length xs) (recycled 1 c) = recycled (length (a # xs)) c"
    using g by (simp add: recycled_def algebra_simps)
  have heap: "marked_ready (set xs) (set_listname a READY_LIST h) = marked_ready (set (a # xs)) h"
    by (auto simp: marked_ready_def set_listname_def fun_eq_iff)
  show ?case using Cons.IH [OF step(2) g1] by (simp only: loop rec heap)
qed

text \<open>The channel after the newest grabbed buffer was locked and the others recycled.\<close>

definition newest_locked :: "menable_dmachan \<Rightarrow> menable_dmachan" where
  "newest_locked c = c\<lparr>grabbed_list := [], ready_list := ready_list c @ butlast (grabbed_list c),
     ready_count := ready_count c + of_nat (length (grabbed_list c) - 1), grabbed_count := 0,
     locked_count := locked_count c + 1\<rparr>"

lemma men_last_blocked_result:
  assumes wf: "chan_wf c h bs d"
  shows "grabbed_list c = [] \<Longrightarrow> men_last_blocked c h = Some (None, c, h)"
    and "grabbed_list c = xs @ [b] \<Longrightarrow>
      men_last_blocked c h = Some (Some b, newest_locked c,
         set_listname b NO_LIST (marked_ready (set xs) h))
      \<and> chan_wf (newest_locked c) (set_listname b NO_LIST (marked_ready (set xs) h)) bs d"
proof -
  have z: "grabbed_count c = 0 \<longleftrightarrow> grabbed_list c = []"
    using cnt_zero_iff [OF wf, of GRABBED_LIST] by simp
  show "grabbed_list c = [] \<Longrightarrow> men_last_blocked c h = Some (None, c, h)"
    using z by (simp add: men_last_blocked_def)
  assume g: "grabbed_list c = xs @ [b]"
  note loop = last_blocked_loop_spec [OF wf g]
  let ?c1 = "recycled (length xs) c" and ?h1 = "marked_ready (set xs) h"
  have wf1: "chan_wf ?c1 ?h1 bs d" using loop by blast
  have g1: "grabbed_list ?c1 = [b]" using g by (simp add: recycled_def)
  have gc1: "grabbed_count ?c1 = 1"
    using chan_wf_queue [OF wf1, of GRABBED_LIST] g1 by (simp add: queue_ok_def)
  note nb = men_next_blocked_result(2) [OF wf1 g1]
  have eq: "?c1\<lparr>grabbed_list := [], grabbed_count := grabbed_count ?c1 - 1,
                locked_count := locked_count ?c1 + 1\<rparr> = newest_locked c"
    unfolding gc1 using g by (simp add: recycled_def newest_locked_def)
  have gc2: "grabbed_count (list_del b ?c1) = 1" using gc1 by (simp add: list_del_def)
  have "(list_del b ?c1)\<lparr>grabbed_count := 0, locked_count := locked_count (list_del b ?c1) + 1\<rparr>
      = newest_locked c"
    using nb g1 gc1 gc2 unfolding eq by (simp add: men_next_blocked_def Let_def)
  then show "men_last_blocked c h = Some (Some b, newest_locked c, set_listname b NO_LIST ?h1)
      \<and> chan_wf (newest_locked c) (set_listname b NO_LIST ?h1) bs d"
    using nb loop z g g1 unfolding eq by (simp add: men_last_blocked_def Let_def)
qed

section \<open>Giving a buffer back\<close>

definition unblocked :: "buf_id \<Rightarrow> menable_dmachan \<Rightarrow> buf_heap \<Rightarrow> menable_dmachan" where
  "unblocked b c h =
     (case listname (h b) of
        GRABBED_LIST \<Rightarrow> c\<lparr>grabbed_list := removeAll b (grabbed_list c),
           ready_list := ready_list c @ [b], grabbed_count := grabbed_count c - 1,
           ready_count := ready_count c + 1\<rparr>
      | NO_LIST \<Rightarrow> c\<lparr>ready_list := ready_list c @ [b], locked_count := locked_count c - 1,
           ready_count := ready_count c + 1\<rparr>
      | _ \<Rightarrow> c)"

definition given_back :: "listname \<Rightarrow> bool" where
  "given_back l \<longleftrightarrow> l = GRABBED_LIST \<or> l = NO_LIST"

lemma unblocked_wf:
  assumes wf: "chan_wf c h bs d" and b: "b \<in> bs" and l: "given_back (listname (h b))"
  shows "chan_wf (unblocked b c h) (set_listname b READY_LIST h) bs d"
proof (rule relocate_wf' [OF wf b refl, where l' = READY_LIST])
  have lists: "k \<noteq> listname (h b) \<Longrightarrow> removeAll b (lst k c) = lst k c" for k
    using removeAll_other [OF wf b] by blast
  show "lst k (unblocked b c h) = lst k (relocate b (listname (h b)) READY_LIST c)" for k
    using lists [of k] l
    by (cases k; cases "listname (h b)") (simp_all add: lst_relocate unblocked_def given_back_def)
  show "cnt k (unblocked b c h) = cnt k (relocate b (listname (h b)) READY_LIST c)" for k
    using l by (cases k; cases "listname (h b)")
      (simp_all add: cnt_relocate unblocked_def given_back_def)
qed simp_all

lemma men_unblock_buffer_result:
  assumes wf: "chan_wf c h bs d" and b: "b \<in> bs"
  shows "men_unblock_buffer fifo_length heads c h (Some b) =
     (if given_back (listname (h b)) then
        (let c' = unblocked b c h; h' = set_listname b READY_LIST h
         in if hot_count c' \<le> 1 \<and> ready_count c' > 0
            then men_dma_queue_max fifo_length heads c' h' else Some (c', h'))
      else Some (c, h))"
proof -
  have lists: "k \<noteq> listname (h b) \<Longrightarrow> removeAll b (lst k c) = lst k c" for k
    using removeAll_other [OF wf b] by blast
  show ?thesis
    using lists [of HOT_LIST] lists [of FREE_LIST] lists [of READY_LIST] lists [of GRABBED_LIST]
    by (cases "listname (h b)")
      (simp_all add: men_unblock_buffer_def given_back_def unblocked_def list_move_tail_def
        list_del_def Let_def)
qed

section \<open>Histories\<close>

datatype queue_op =
    QueueMax | MoveHot menable_timespec | NextBlocked | LastBlocked | Unblock buf_id

text \<open>One operation; the first component lists the buffer \<^verbatim>\<open>men_move_hot\<close> returned.\<close>

fun queue_step ::
    "u32 \<Rightarrow> (head_ptr \<Rightarrow> menable_dmahead) \<Rightarrow> queue_op \<Rightarrow> menable_dmachan \<Rightarrow> buf_heap
     \<Rightarrow> (buf_id list \<times> menable_dmachan \<times> buf_heap) option" where
  "queue_step n hs QueueMax c h =
     map_option (\<lambda>(c, h). ([], c, h)) (men_dma_queue_max n hs c h)"
| "queue_step n hs (MoveHot ts) c h =
     map_option (\<lambda>(b, c, h). (case b of None \<Rightarrow> [] | Some b \<Rightarrow> [b], c, h)) (men_move_hot ts c h)"
| "queue_step n hs NextBlocked c h = map_option (\<lambda>(b, c, h). ([], c, h)) (men_next_blocked c h)"
| "queue_step n hs LastBlocked c h = map_option (\<lambda>(b, c, h). ([], c, h)) (men_last_blocked c h)"
| "queue_step n hs (Unblock b) c h =
     map_option (\<lambda>(c, h). ([], c, h)) (men_unblock_buffer n hs c h (Some b))"

fun run_queue ::
    "u32 \<Rightarrow> (head_ptr \<Rightarrow> menable_dmahead) \<Rightarrow> queue_op list \<Rightarrow> menable_dmachan \<Rightarrow> buf_heap
     \<Rightarrow> (buf_id list \<times> menable_dmachan \<times> buf_heap) option" where
  "run_queue n hs [] c h = Some ([], c, h)"
| "run_queue n hs (q # qs) c h =
     (case queue_step n hs q c h of
        None \<Rightarrow> None
      | Some (f, c1, h1) \<Rightarrow>
          (case run_queue n hs qs c1 h1 of
             None \<Rightarrow> None
           | Some (fs, c2, h2) \<Rightarrow> Some (f @ fs, c2, h2)))"

text \<open>The state between two operations on a running channel.\<close>

definition running_ok ::
    "u32 \<Rightarrow> (head_ptr \<Rightarrow> menable_dmahead) \<Rightarrow> menable_dmachan \<Rightarrow> buf_heap \<Rightarrow> buf_id set \<Rightarrow> buf_id
     \<Rightarrow> bool" where
  "running_ok n hs c h bs d \<longleftrightarrow> chan_wf c h bs d \<and> 0 < n \<and> hot_count c \<le> n
     \<and> (case active c of None \<Rightarrow> False | Some hp \<Rightarrow> dummybuf (hs hp) = d)"

definition op_ok :: "buf_id set \<Rightarrow> queue_op \<Rightarrow> bool" where
  "op_ok bs q = (case q of Unblock b \<Rightarrow> b \<in> bs | _ \<Rightarrow> True)"

lemma running_okD:
  assumes "running_ok n hs c h bs d"
  shows "chan_wf c h bs d" "0 < n" "hot_count c \<le> n" "active c \<noteq> None"
    "\<And>hp. active c = Some hp \<Longrightarrow> dummybuf (hs hp) = d"
proof -
  show "chan_wf c h bs d" "0 < n" "hot_count c \<le> n"
    using assms unfolding running_ok_def by blast+
  have a: "case active c of None \<Rightarrow> False | Some hp \<Rightarrow> dummybuf (hs hp) = d"
    using assms unfolding running_ok_def by blast
  show "active c \<noteq> None"
  proof
    assume "active c = None"
    with a show False by simp
  qed
  show "dummybuf (hs hp) = d" if "active c = Some hp" for hp
    using a unfolding that by simp
qed

lemma running_okI:
  assumes "running_ok n hs c h bs d" "chan_wf c' h' bs d" "active c' = active c"
    "hot_count c' \<le> n"
  shows "running_ok n hs c' h' bs d"
  using assms by (simp add: running_ok_def)

lemma queue_step_spec:
  assumes ok: "running_ok n hs c h bs d" and q: "op_ok bs q"
  obtains f c' h' m where "queue_step n hs q c h = Some (f, c', h')" "running_ok n hs c' h' bs d"
    "hw_queue c' = hw_queue c @ m" "hot_list c @ m = f @ hot_list c'"
proof -
  note D = running_okD [OF ok]
  show ?thesis
  proof (cases q)
    case QueueMax
    obtain c' h' m where
      "men_dma_queue_max n hs c h = Some (c', h')" "chan_wf c' h' bs d" "hot_count c' \<le> n"
      "hot_list c' = hot_list c @ m" "hw_queue c' = hw_queue c @ m" "active c' = active c"
      by (rule men_dma_queue_max_wf [OF D(1,3,2,5)])
    then show ?thesis
      using that [of "[]" c' h' m] running_okI [OF ok] QueueMax by simp
  next
    case (MoveHot ts)
    show ?thesis
    proof (cases "hot_list c")
      case Nil
      then have "hot_count c = 0" using cnt_zero_iff [OF D(1), of HOT_LIST] by simp
      then have "men_move_hot ts c h = Some (None, c\<lparr>lost_count := lost_count c + 1\<rparr>, h)"
        using D(4) by (auto simp: men_move_hot_def)
      moreover have "running_ok n hs (c\<lparr>lost_count := lost_count c + 1\<rparr>) h bs d"
      proof (rule running_okI [OF ok])
        show "chan_wf (c\<lparr>lost_count := lost_count c + 1\<rparr>) h bs d"
        proof (subst chan_wf_cong)
          show "lst k (c\<lparr>lost_count := lost_count c + 1\<rparr>) = lst k c" for k by (cases k) simp_all
          show "cnt k (c\<lparr>lost_count := lost_count c + 1\<rparr>) = cnt k c" for k by (cases k) simp_all
        qed (use D(1) in simp_all)
      qed (use D(3) in simp_all)
      ultimately show ?thesis using that [of "[]"] MoveHot by simp
    next
      case (Cons b xs)
      obtain c' h' where mv:
        "men_move_hot ts c h = Some (Some b, c', h')" "chan_wf c' h' bs d" "hot_list c' = xs"
        "hw_queue c' = hw_queue c" "active c' = active c"
        by (rule men_move_hot_wf [OF D(1,4) Cons])
      have "unat (hot_count c') \<le> unat n"
        using unat_counts(2) [OF mv(2)] unat_counts(2) [OF D(1)] D(3) Cons mv(3)
        by (simp add: word_le_nat_alt)
      then have "running_ok n hs c' h' bs d"
        using running_okI [OF ok mv(2,5)] by (simp add: word_le_nat_alt)
      then show ?thesis using that [of "[b]" c' h' "[]"] mv MoveHot Cons by simp
    qed
  next
    case NextBlocked
    show ?thesis
    proof (cases "grabbed_list c")
      case Nil
      then show ?thesis
        using that [of "[]" c h] men_next_blocked_result(1) [OF D(1)] ok NextBlocked by simp
    next
      case (Cons b xs)
      let ?c = "c\<lparr>grabbed_list := xs, grabbed_count := grabbed_count c - 1,
                  locked_count := locked_count c + 1\<rparr>"
      note r = men_next_blocked_result(2) [OF D(1) Cons]
      then have "running_ok n hs ?c (set_listname b NO_LIST h) bs d"
        using D(3) by (intro running_okI [OF ok]) simp_all
      then show ?thesis using that [of "[]" ?c "set_listname b NO_LIST h"] r NextBlocked by simp
    qed
  next
    case LastBlocked
    show ?thesis
    proof (cases "grabbed_list c" rule: rev_cases)
      case Nil
      then show ?thesis
        using that [of "[]" c h] men_last_blocked_result(1) [OF D(1)] ok LastBlocked by simp
    next
      case (snoc xs b)
      let ?h = "set_listname b NO_LIST (marked_ready (set xs) h)"
      note r = men_last_blocked_result(2) [OF D(1) snoc]
      have "running_ok n hs (newest_locked c) ?h bs d"
        using D(3) r by (intro running_okI [OF ok]) (simp_all add: newest_locked_def)
      then show ?thesis
        using that [of "[]" "newest_locked c" ?h] r LastBlocked by (simp add: newest_locked_def)
    qed
  next
    case (Unblock b)
    then have b: "b \<in> bs" using q by (simp add: op_ok_def)
    note res = men_unblock_buffer_result [OF D(1) b, of n hs]
    show ?thesis
    proof (cases "given_back (listname (h b))")
      case False
      then show ?thesis using that [of "[]" c h] res ok Unblock by simp
    next
      case True
      let ?c = "unblocked b c h" and ?h = "set_listname b READY_LIST h"
      have f: "hot_count ?c = hot_count c" "hot_list ?c = hot_list c" "hw_queue ?c = hw_queue c"
          "active ?c = active c"
        by (simp_all add: unblocked_def split: listname.splits)
      have ok1: "running_ok n hs ?c ?h bs d"
        using unblocked_wf [OF D(1) b True] D(3) f by (intro running_okI [OF ok]) simp_all
      show ?thesis
      proof (cases "hot_count ?c \<le> 1 \<and> ready_count ?c > 0")
        case False
        then show ?thesis
          using that [of "[]" ?c ?h] res True ok1 f Unblock by (auto simp: Let_def)
      next
        case refill: True
        note D1 = running_okD [OF ok1]
        obtain c' h' m where
          "men_dma_queue_max n hs ?c ?h = Some (c', h')" "chan_wf c' h' bs d" "hot_count c' \<le> n"
          "hot_list c' = hot_list ?c @ m" "hw_queue c' = hw_queue ?c @ m" "active c' = active ?c"
          by (rule men_dma_queue_max_wf [OF D1(1,3,2,5)])
        then show ?thesis
          using that [of "[]" c' h' m] running_okI [OF ok1] res refill True f Unblock
          by (simp add: Let_def)
      qed
    qed
  qed
qed

lemma run_queue_spec:
  assumes "running_ok n hs c h bs d" "list_all (op_ok bs) qs"
  shows "\<exists>f c' h' m. run_queue n hs qs c h = Some (f, c', h') \<and> running_ok n hs c' h' bs d
     \<and> hw_queue c' = hw_queue c @ m \<and> hot_list c @ m = f @ hot_list c'"
  using assms
proof (induction qs arbitrary: c h)
  case Nil
  then show ?case by simp
next
  case (Cons q qs)
  then have q: "op_ok bs q" and qs: "list_all (op_ok bs) qs" by simp_all
  obtain f c1 h1 m where s: "queue_step n hs q c h = Some (f, c1, h1)" "running_ok n hs c1 h1 bs d"
      "hw_queue c1 = hw_queue c @ m" "hot_list c @ m = f @ hot_list c1"
    by (rule queue_step_spec [OF Cons.prems(1) q])
  obtain fs c2 h2 ms where r: "run_queue n hs qs c1 h1 = Some (fs, c2, h2)"
      "running_ok n hs c2 h2 bs d" "hw_queue c2 = hw_queue c1 @ ms"
      "hot_list c1 @ ms = fs @ hot_list c2"
    using Cons.IH [OF s(2) qs] by blast
  have "hot_list c @ (m @ ms) = (f @ fs) @ hot_list c2"
    using s(4) r(4) by (metis append_assoc)
  then show ?case using s(1,3) r by (auto intro!: exI [of _ "m @ ms"])
qed

lemma queued_chan_lists:
  "hot_list (queued_chan n c) @ ready_list (queued_chan n c) = hot_list c @ ready_list c"
  by (simp add: queued_chan_def)

lemma counters_sum:
  assumes wf: "chan_wf c h bs d"
  shows "unat (free_count c) + unat (ready_count c) + unat (grabbed_count c)
           + unat (hot_count c) + unat (locked_count c)
       = card bs + (if d \<in> set (hot_list c) then 1 else 0)"
proof -
  have fin: "finite (members h bs l)" for l by (rule members_finite [OF wf])
  have len: "length (lst l c) = card (members h bs l) + (if d \<in> set (lst l c) then 1 else 0)"
    if "l \<noteq> NO_LIST" for l
  proof -
    have "distinct (lst l c)" and s: "set (lst l c) - {d} = members h bs l"
      using chan_wf_queue [OF wf that] by (simp_all add: queue_ok_def)
    then have "length (lst l c) = card (set (lst l c))" by (simp add: distinct_card)
    also have "\<dots> = card (set (lst l c) - {d}) + (if d \<in> set (lst l c) then 1 else 0)"
      using card_Suc_Diff1 [of "set (lst l c)" d] by simp
    finally show ?thesis unfolding s .
  qed
  have notd: "d \<notin> set (lst l c)" if "l \<noteq> NO_LIST" "l \<noteq> HOT_LIST" for l
    using chan_wf_queue [OF wf that(1)] that(2) by (simp add: queue_ok_def)
  have "bs = (\<Union>l\<in>UNIV. members h bs l)" by auto
  also have "(UNIV :: listname set) = {FREE_LIST, GRABBED_LIST, HOT_LIST, NO_LIST, READY_LIST}"
    using listname.exhaust by auto
  also have "card (\<Union>l\<in>{FREE_LIST, GRABBED_LIST, HOT_LIST, NO_LIST, READY_LIST}. members h bs l)
      = (\<Sum>l\<in>{FREE_LIST, GRABBED_LIST, HOT_LIST, NO_LIST, READY_LIST}. card (members h bs l))"
    by (rule card_UN_disjoint) (use fin in auto)
  finally have "card bs = card (members h bs FREE_LIST) + card (members h bs GRABBED_LIST)
      + card (members h bs HOT_LIST) + card (members h bs NO_LIST) + card (members h bs READY_LIST)"
    by simp
  then show ?thesis
    using len [of FREE_LIST] len [of GRABBED_LIST] len [of HOT_LIST] len [of READY_LIST]
      notd [of FREE_LIST] notd [of GRABBED_LIST] notd [of READY_LIST]
      unat_counts [OF wf] unat_locked [OF wf]
    by simp
qed

section \<open>An example channel\<close>

text \<open>Four buffers 0 to 3 and the dummy buffer 9; buffer 0 is hot, 1 and 2 are ready, 3 is grabbed.\<close>

definition demo_ts :: menable_timespec where
  "demo_ts = \<lparr>tv_sec = 1700000000, tv_nsec = 5\<rparr>"

definition demo_buf :: "listname \<Rightarrow> int \<Rightarrow> menable_dmabuf" where
  "demo_buf l i = \<lparr>listname = l, dma_length = 0, buf_length = 4096, dma_tag = 0, frame_number = 0,
     index = i, timestamp = \<lparr>tv_sec = 0, tv_nsec = 0\<rparr>\<rparr>"

definition demo_heap :: buf_heap where
  "demo_heap b = (if b = 0 then demo_buf HOT_LIST 0 else if b = 1 then demo_buf READY_LIST 1
     else if b = 2 then demo_buf READY_LIST 2 else if b = 3 then demo_buf GRABBED_LIST 3
     else demo_buf FREE_LIST (-1))"

definition demo_heads :: "head_ptr \<Rightarrow> menable_dmahead" where
  "demo_heads p = \<lparr>head_id = 0, bufs = [Some 0, Some 1, Some 2, Some 3], dummybuf = 9,
     head_chan = Some 0\<rparr>"

definition demo_chan :: menable_dmachan where
  "demo_chan = \<lparr>active = Some 0, number = 0, fpga = 0, mode = DMA_HANDSHAKEMODE, direction = 2,
     state = MEN_DMA_CHAN_STATE_STARTED, imgcnt = 0, goodcnt = 0, latest_frame_number = 0,
     free_count = 0, ready_count = 2, grabbed_count = 1, hot_count = 1, lost_count = 0,
     locked_count = 0, free_list = [], ready_list = [1, 2], grabbed_list = [3], hot_list = [0],
     wait_list = [], transfer_todo = 10, chan_timeout = 0, timer_armed = False,
     dwork_scheduled = False, hw_queue = [0]\<rparr>"

lemma demo_wf: "chan_wf demo_chan demo_heap {0, 1, 2, 3} 9"
proof -
  have m: "members demo_heap {0, 1, 2, 3} FREE_LIST = {}"
      "members demo_heap {0, 1, 2, 3} GRABBED_LIST = {3}"
      "members demo_heap {0, 1, 2, 3} HOT_LIST = {0}"
      "members demo_heap {0, 1, 2, 3} READY_LIST = {1, 2}"
      "members demo_heap {0, 1, 2, 3} NO_LIST = {}"
    by (auto simp: members_def demo_heap_def demo_buf_def split: if_splits)
  have "heap_ok demo_heap {0, 1, 2, 3} 9"
    by (simp add: heap_ok_def demo_heap_def demo_buf_def)
  then show ?thesis
    unfolding chan_wf_def queue_ok_def linked_lists_def m by (auto simp: m demo_chan_def demo_heap_def demo_buf_def)
qed

lemma demo_fields:
  "active demo_chan = Some 0" "hot_count demo_chan = 1" "hot_list demo_chan = [0]"
  "ready_list demo_chan = [1, 2]" "grabbed_list demo_chan = [3]" "free_list demo_chan = []"
  "mode demo_chan = DMA_HANDSHAKEMODE" "dummybuf (demo_heads p) = 9"
  "listname (demo_heap 3) = GRABBED_LIST"
  by (simp_all add: demo_chan_def demo_heads_def demo_heap_def demo_buf_def)

lemma demo_running: "running_ok 2 demo_heads demo_chan demo_heap {0, 1, 2, 3} 9"
  unfolding running_ok_def demo_fields using demo_wf by simp

section \<open>Properties\<close>

text \<open>
  C1: On a running channel no sequence of queue operations (queueing, completion interrupts,
  grabbing the next or the newest buffer, unlocking) reaches undefined behaviour or a
  \<^verbatim>\<open>BUG\<close>, each keeps every buffer on exactly the list its \<^verbatim>\<open>listname\<close> says with every counter equal
  to the length of its list, never more than \<^verbatim>\<open>dma_fifo_length\<close> buffers are queued to the board,
  and buffers complete in exactly the order in which they were handed to the board.
\<close>

theorem dma_history_is_safe_and_in_order:
  assumes "running_ok n hs c h bs d" "list_all (op_ok bs) qs"
  shows "\<exists>f c' h' m. run_queue n hs qs c h = Some (f, c', h') \<and> chan_wf c' h' bs d
     \<and> hot_count c' \<le> n \<and> hw_queue c' = hw_queue c @ m \<and> hot_list c @ m = f @ hot_list c'"
proof -
  obtain f c' h' m where r: "run_queue n hs qs c h = Some (f, c', h')" "running_ok n hs c' h' bs d"
      "hw_queue c' = hw_queue c @ m" "hot_list c @ m = f @ hot_list c'"
    using run_queue_spec [OF assms] by blast
  then show ?thesis using running_okD(1,3) [OF r(2)] by blast
qed

abbreviation demo_ops :: "queue_op list" where
  "demo_ops \<equiv> [QueueMax, MoveHot \<lparr>tv_sec = 1, tv_nsec = 0\<rparr>, QueueMax, LastBlocked, Unblock 0,
     MoveHot \<lparr>tv_sec = 2, tv_nsec = 0\<rparr>]"

lemma dma_history_is_safe_and_in_order_witness:
  "(\<exists>f c' h' m. run_queue 2 demo_heads demo_ops demo_chan demo_heap = Some (f, c', h')
     \<and> chan_wf c' h' {0, 1, 2, 3} 9 \<and> hot_count c' \<le> 2 \<and> hw_queue c' = hw_queue demo_chan @ m
     \<and> hot_list demo_chan @ m = f @ hot_list c')
   \<and> map_option fst (run_queue 2 demo_heads demo_ops demo_chan demo_heap) = Some [0, 1]"
  by (rule conjI, rule dma_history_is_safe_and_in_order [OF demo_running]) (code_simp)+

text \<open>
  C2: No buffer is lost or duplicated: whatever happened on a running channel, the five counters
  add up to the number of buffers of the active head, plus one while the dummy buffer is queued.
\<close>

theorem dma_counters_account_for_all_buffers:
  assumes "running_ok n hs c h bs d" "list_all (op_ok bs) qs"
    and "run_queue n hs qs c h = Some (f, c', h')"
  shows "unat (free_count c') + unat (ready_count c') + unat (grabbed_count c')
           + unat (hot_count c') + unat (locked_count c')
       = card bs + (if d \<in> set (hot_list c') then 1 else 0)"
proof -
  have "running_ok n hs c' h' bs d"
    using run_queue_spec [OF assms(1,2)] assms(3) by auto
  from counters_sum [OF running_okD(1) [OF this]] show ?thesis .
qed

lemma dma_counters_account_for_all_buffers_witness:
  "case run_queue 2 demo_heads demo_ops demo_chan demo_heap of
     None \<Rightarrow> False
   | Some (f, c', h') \<Rightarrow>
       unat (free_count c') + unat (ready_count c') + unat (grabbed_count c')
           + unat (hot_count c') + unat (locked_count c')
       = card {0, 1, 2, 3 :: nat} + (if 9 \<in> set (hot_list c') then 1 else 0)"
proof -
  have ok: "list_all (op_ok {0, 1, 2, 3}) demo_ops" by code_simp
  have "run_queue 2 demo_heads demo_ops demo_chan demo_heap \<noteq> None"
    using run_queue_spec [OF demo_running ok] by auto
  then obtain f c' h' where r: "run_queue 2 demo_heads demo_ops demo_chan demo_heap = Some (f, c', h')"
    by auto
  show ?thesis
    using dma_counters_account_for_all_buffers [OF demo_running ok r] unfolding r by simp
qed

text \<open>
  C29: A call of \<^verbatim>\<open>men_dma_queue_max\<close> hands exactly the oldest ready buffers to the board, in order,
  as many as the rest of the transfer, the ready queue and the free places of the DMA fifo
  allow; only a handshake channel with nothing ready and nothing queued gets the dummy
  buffer. A queued buffer is marked \<^verbatim>\<open>HOT_LIST\<close> and its frame number reset, no other buffer changes.
\<close>

theorem queue_max_hands_out_oldest_ready:
  assumes "running_ok n hs c h bs d"
  shows "men_dma_queue_max n hs c h =
     (let k = queue_amount n c; q = take k (ready_list c)
      in if needs_dummy c
         then Some (c\<lparr>hw_queue := hw_queue c @ [d], hot_list := [d], hot_count := 1\<rparr>, h)
         else Some (c\<lparr>ready_list := drop k (ready_list c), hot_list := hot_list c @ q,
                      hw_queue := hw_queue c @ q, ready_count := ready_count c - of_nat k,
                      hot_count := hot_count c + of_nat k\<rparr>,
                    \<lambda>b. if b \<in> set q then (h b)\<lparr>listname := HOT_LIST, frame_number := 0\<rparr> else h b))"
  using men_dma_queue_max_result [OF running_okD(1,3,5) [OF assms]]
  by (simp add: Let_def with_dummy_def queued_chan_def marked_hot_def)

lemma queue_max_hands_out_oldest_ready_witness:
  "map_option (\<lambda>(c, h). (hot_list c, ready_list c, hw_queue c))
     (men_dma_queue_max 2 demo_heads demo_chan demo_heap) = Some ([0, 1], [2], [0, 1])"
  unfolding queue_max_hands_out_oldest_ready [OF demo_running] by code_simp

text \<open>
  A completion interrupt takes the buffer that was queued first and files it at the end of
  the grabbed queue in handshake mode, of the free queue in selective mode and of the ready
  queue in every other mode; it stamps it with the given time and counts the frame as good.
\<close>

theorem move_hot_files_oldest_by_mode:
  assumes "running_ok n hs c h bs d" "hot_list c = b # xs" "b \<noteq> d"
  shows "\<exists>c' h'. men_move_hot ts c h = Some (Some b, c', h') \<and> hot_list c' = xs
     \<and> goodcnt c' = goodcnt c + 1 \<and> lost_count c' = lost_count c
     \<and> transfer_todo c' = transfer_todo c - 1 \<and> timestamp (h' b) = ts
     \<and> grabbed_list c' = grabbed_list c @ (if mode c = DMA_HANDSHAKEMODE then [b] else [])
     \<and> free_list c' = free_list c @ (if mode c = DMA_SELECTIVEMODE then [b] else [])
     \<and> ready_list c' = ready_list c
          @ (if mode c \<noteq> DMA_HANDSHAKEMODE \<and> mode c \<noteq> DMA_SELECTIVEMODE then [b] else [])"
proof -
  note D = running_okD [OF assms(1)]
  have hl: "lst HOT_LIST c = b # xs" using assms(2) by simp
  note hd = queue_hd [OF D(1) _ hl assms(3), simplified]
  have rm: "removeAll b (grabbed_list c) = grabbed_list c" "removeAll b (free_list c) = free_list c"
      "removeAll b (ready_list c) = ready_list c" "removeAll b (hot_list c) = xs"
    using hd(4) hd(5) [of GRABBED_LIST] hd(5) [of FREE_LIST] hd(5) [of READY_LIST] by simp_all
  show ?thesis
    unfolding men_move_hot_buffer [OF D(1,4) assms(2,3)]
    using rm by (simp add: after_filled_def stamped_def relocate_def list_move_tail_def
        list_del_def move_hot_target_def removeAll_id hd(3))
qed

lemma move_hot_files_oldest_by_mode_witness:
  "\<exists>c' h'. men_move_hot demo_ts demo_chan demo_heap = Some (Some 0, c', h') \<and> hot_list c' = []
     \<and> grabbed_list c' = [3, 0] \<and> ready_list c' = [1, 2]"
proof -
  obtain c' h' where "men_move_hot demo_ts demo_chan demo_heap = Some (Some 0, c', h')" "hot_list c' = []"
      "grabbed_list c' = [3, 0]" "ready_list c' = [1, 2]"
    using move_hot_files_oldest_by_mode [OF demo_running, of 0 "[]" demo_ts] by (auto simp: demo_fields)
  then show ?thesis by blast
qed

text \<open>
  \<^verbatim>\<open>men_last_blocked\<close> returns the newest grabbed buffer and locks it; the older grabbed buffers
  go to the end of the ready queue, oldest first, and not to the free queue.
\<close>

theorem last_blocked_locks_newest_recycles_rest:
  assumes "running_ok n hs c h bs d" "grabbed_list c = xs @ [b]"
  shows "\<exists>c' h'. men_last_blocked c h = Some (Some b, c', h') \<and> chan_wf c' h' bs d
     \<and> grabbed_list c' = [] \<and> grabbed_count c' = 0 \<and> ready_list c' = ready_list c @ xs
     \<and> free_list c' = free_list c \<and> listname (h' b) = NO_LIST
     \<and> locked_count c' = locked_count c + 1"
  using men_last_blocked_result(2) [OF running_okD(1) [OF assms(1)] assms(2)] assms(2)
  by (simp add: newest_locked_def)

lemma last_blocked_locks_newest_recycles_rest_witness:
  "\<exists>c' h'. men_last_blocked demo_chan demo_heap = Some (Some 3, c', h')
     \<and> grabbed_list c' = [] \<and> ready_list c' = [1, 2] \<and> listname (h' 3) = NO_LIST"
  using last_blocked_locks_newest_recycles_rest [OF demo_running, of "[]" 3]
  by (auto simp: demo_fields)

text \<open>
  Unlocking a buffer that user space holds puts it at the end of the ready queue, from where
  the board is refilled when at most one buffer is queued; unlocking any other buffer
  changes nothing.
\<close>

theorem unblock_recycles_held_buffer:
  assumes "running_ok n hs c h bs d" "b \<in> bs"
  shows "if listname (h b) = GRABBED_LIST \<or> listname (h b) = NO_LIST
     then \<exists>c' h'. men_unblock_buffer n hs c h (Some b) = Some (c', h') \<and> chan_wf c' h' bs d
            \<and> (hot_list c' = hot_list c \<and> ready_list c' = ready_list c @ [b]
               \<or> hot_count c \<le> 1
                 \<and> hot_list c' @ ready_list c' = hot_list c @ ready_list c @ [b])
     else men_unblock_buffer n hs c h (Some b) = Some (c, h)"
proof (cases "given_back (listname (h b))")
  case False
  then show ?thesis
    using men_unblock_buffer_result [OF running_okD(1) [OF assms(1)] assms(2), of n hs]
    by (auto simp: given_back_def)
next
  case True
  let ?c = "unblocked b c h" and ?h = "set_listname b READY_LIST h"
  note D = running_okD [OF assms(1)]
  have f: "hot_count ?c = hot_count c" "hot_list ?c = hot_list c" "hw_queue ?c = hw_queue c"
      "active ?c = active c" "ready_list ?c = ready_list c @ [b]"
    using True by (auto simp: unblocked_def given_back_def split: listname.splits)
  have ok1: "running_ok n hs ?c ?h bs d"
    using unblocked_wf [OF D(1) assms(2) True] D(3) f by (intro running_okI [OF assms(1)]) simp_all
  note D1 = running_okD [OF ok1]
  have nd: "\<not> needs_dummy ?c" using f by (simp add: needs_dummy_def)
  let ?c' = "queued_chan (queue_amount n ?c) ?c"
  let ?h' = "marked_hot (set (take (queue_amount n ?c) (ready_list ?c))) ?h"
  have m: "men_dma_queue_max n hs ?c ?h = Some (?c', ?h')"
    using men_dma_queue_max_result [OF D1(1,3,5)] nd by simp
  have q: "chan_wf ?c' ?h' bs d" "hot_list ?c' @ ready_list ?c' = hot_list c @ ready_list c @ [b]"
    using queue_loop_spec [OF D1(1) queue_amount_le] unfolding queued_chan_lists f by blast+
  note r = men_unblock_buffer_result [OF D(1) assms(2), of n hs]
  have "\<exists>c' h'. men_unblock_buffer n hs c h (Some b) = Some (c', h') \<and> chan_wf c' h' bs d
            \<and> (hot_list c' = hot_list c \<and> ready_list c' = ready_list c @ [b]
               \<or> hot_count c \<le> 1
                 \<and> hot_list c' @ ready_list c' = hot_list c @ ready_list c @ [b])"
  proof (cases "hot_count ?c \<le> 1 \<and> ready_count ?c > 0")
    case refill: True
    then have "men_unblock_buffer n hs c h (Some b) = Some (?c', ?h')"
      using r True m by (simp add: Let_def)
    then show ?thesis using q refill f(1) by (metis)
  next
    case False
    then have "men_unblock_buffer n hs c h (Some b) = Some (?c, ?h)"
      using r True by (auto simp: Let_def)
    then show ?thesis using f(2,5) D1(1) by blast
  qed
  then show ?thesis using True by (simp add: given_back_def)
qed

lemma unblock_recycles_held_buffer_witness:
  "\<exists>c' h'. men_unblock_buffer 2 demo_heads demo_chan demo_heap (Some 3) = Some (c', h')
     \<and> (hot_list c' = [0] \<and> ready_list c' = [1, 2, 3]
         \<or> hot_list c' @ ready_list c' = [0, 1, 2, 3])"
  using unblock_recycles_held_buffer [OF demo_running, of 3]
  by (auto simp: demo_fields)

end
