(* ===== verification/Dma_Board.thy ===== *)
theory Dma_Board
  imports Dma_Queue_Props
begin

text \<open>
  The board (\<^verbatim>\<open>struct siso_menable\<close>) with its buffer heads and DMA channels, and the life cycle of
  an acquisition: \<^verbatim>\<open>linux/menable_dma.c\<close> and \<^verbatim>\<open>linux/fgrab.c\<close>. Heads, channels, buffers and thread
  groups are addressed by pointers into stores, because the code shares them: a channel points
  to its active head and the head back to the channel, and they can disagree.

  The type parameter is the state of the hardware behind the register interface. The board
  specific callbacks of \<^verbatim>\<open>struct siso_menable\<close> are the record \<open>board_ops\<close>; the mE6 instance is
  in \<open>Dma_Me6\<close>. A result \<open>None\<close> is a \<^verbatim>\<open>BUG\<close> or undefined behaviour.
\<close>

section \<open>State\<close>

datatype men_board_state =
    BOARD_STATE_UNKNOWN | BOARD_STATE_UNINITIALISED | BOARD_STATE_DEAD | BOARD_STATE_SLEEPING
  | BOARD_STATE_RECONFIGURING | BOARD_STATE_READY | BOARD_STATE_CONFIGURED | BOARD_STATE_ACTIVE

fun board_state_rank :: "men_board_state \<Rightarrow> nat" where
  "board_state_rank BOARD_STATE_UNKNOWN = 0"
| "board_state_rank BOARD_STATE_UNINITIALISED = 1"
| "board_state_rank BOARD_STATE_DEAD = 2"
| "board_state_rank BOARD_STATE_SLEEPING = 3"
| "board_state_rank BOARD_STATE_RECONFIGURING = 4"
| "board_state_rank BOARD_STATE_READY = 5"
| "board_state_rank BOARD_STATE_CONFIGURED = 6"
| "board_state_rank BOARD_STATE_ACTIVE = 7"

instantiation men_board_state :: linorder
begin

definition less_eq_men_board_state :: "men_board_state \<Rightarrow> men_board_state \<Rightarrow> bool" where
  "less_eq_men_board_state a b \<longleftrightarrow> board_state_rank a \<le> board_state_rank b"

definition less_men_board_state :: "men_board_state \<Rightarrow> men_board_state \<Rightarrow> bool" where
  "less_men_board_state a b \<longleftrightarrow> board_state_rank a < board_state_rank b"

instance
proof
  fix a b :: men_board_state
  show "a \<le> b \<Longrightarrow> b \<le> a \<Longrightarrow> a = b"
    by (cases a; cases b) (simp_all add: less_eq_men_board_state_def)
qed (auto simp: less_eq_men_board_state_def less_men_board_state_def)

end

abbreviation MEN_MAX_DMA :: nat where "MEN_MAX_DMA \<equiv> 8"
abbreviation MAX_FPGAS :: nat where "MAX_FPGAS \<equiv> 2"

abbreviation MEN_DMA_DIR_DEVICE_TO_CPU :: int where "MEN_DMA_DIR_DEVICE_TO_CPU \<equiv> 0"
abbreviation MEN_DMA_DIR_CPU_TO_DEVICE :: int where "MEN_DMA_DIR_CPU_TO_DEVICE \<equiv> 1"
abbreviation DMA_TO_DEVICE :: u32 where "DMA_TO_DEVICE \<equiv> 1"
abbreviation DMA_FROM_DEVICE :: u32 where "DMA_FROM_DEVICE \<equiv> 2"

type_synonym tg_ptr = nat

record me_threadgroup =
  tg_id :: nat
  tg_cnt :: u32
  tg_dmas :: "nat \<Rightarrow> nat \<Rightarrow> int"

record fg_ctrl =
  fg_mode :: int
  fg_timeout :: int
  fg_transfer_todo :: int
  fg_chan :: u32
  fg_head :: u32
  fg_start_buf :: int
  fg_dma_dir :: int

record 'hw siso_menable =
  hw :: 'hw
  board_state :: men_board_state
  active_fpgas :: nat
  dmacnt :: "u8 list"
  dmachannels :: "chan_ptr option list"
  use_count :: int
  releasing :: bool
  num_buffer_heads :: u32
  buffer_heads_list :: "head_ptr list"
  dma_fifo_length :: u32
  threadgroups_heads :: "tg_ptr list"
  threadgroups :: "tg_ptr \<Rightarrow> me_threadgroup"
  heads :: "head_ptr \<Rightarrow> menable_dmahead"
  chans :: "chan_ptr \<Rightarrow> menable_dmachan"
  heap :: buf_heap

record 'hw board_ops =
  startdma :: "chan_ptr \<Rightarrow> 'hw siso_menable \<Rightarrow> (int \<times> 'hw siso_menable) option"
  stopdma :: "chan_ptr \<Rightarrow> 'hw siso_menable \<Rightarrow> 'hw siso_menable"
  abortdma :: "chan_ptr \<Rightarrow> 'hw siso_menable \<Rightarrow> 'hw siso_menable"
  query_dma :: "nat \<Rightarrow> 'hw siso_menable \<Rightarrow> u32 \<times> 'hw siso_menable"

definition upd_chan ::
    "chan_ptr \<Rightarrow> (menable_dmachan \<Rightarrow> menable_dmachan) \<Rightarrow> 'hw siso_menable \<Rightarrow> 'hw siso_menable" where
  "upd_chan p f m = m\<lparr>chans := (chans m)(p := f (chans m p))\<rparr>"

definition upd_head ::
    "head_ptr \<Rightarrow> (menable_dmahead \<Rightarrow> menable_dmahead) \<Rightarrow> 'hw siso_menable \<Rightarrow> 'hw siso_menable" where
  "upd_head p f m = m\<lparr>heads := (heads m)(p := f (heads m p))\<rparr>"

text \<open>Run an operation of \<open>Dma_Channel\<close> on one channel of the board.\<close>

definition on_chan ::
    "chan_ptr \<Rightarrow> (menable_dmachan \<Rightarrow> buf_heap \<Rightarrow> (menable_dmachan \<times> buf_heap) option)
     \<Rightarrow> 'hw siso_menable \<Rightarrow> 'hw siso_menable option" where
  "on_chan p f m = (case f (chans m p) (heap m) of
       None \<Rightarrow> None
     | Some (c, h) \<Rightarrow> Some (m\<lparr>chans := (chans m)(p := c), heap := h\<rparr>))"

definition on_chan_ret ::
    "chan_ptr \<Rightarrow> (menable_dmachan \<Rightarrow> buf_heap \<Rightarrow> ('a \<times> menable_dmachan \<times> buf_heap) option)
     \<Rightarrow> 'hw siso_menable \<Rightarrow> ('a \<times> 'hw siso_menable) option" where
  "on_chan_ret p f m = (case f (chans m p) (heap m) of
       None \<Rightarrow> None
     | Some (a, c, h) \<Rightarrow> Some (a, m\<lparr>chans := (chans m)(p := c), heap := h\<rparr>))"

section \<open>Thread groups\<close>

definition me_create_threadgroup ::
    "tg_ptr option \<Rightarrow> nat \<Rightarrow> 'hw siso_menable \<Rightarrow> tg_ptr option \<times> 'hw siso_menable" where
  "me_create_threadgroup mem tgid m =
     (case mem of
        None \<Rightarrow> (None, m)
      | Some bh \<Rightarrow> (Some bh,
          m\<lparr>threadgroups := (threadgroups m)
               (bh := \<lparr>tg_id = tgid, tg_cnt = 0, tg_dmas = (\<lambda>i j. 0)\<rparr>),
            threadgroups_heads := threadgroups_heads m @ [bh]\<rparr>))"

definition me_free_threadgroup :: "tg_ptr \<Rightarrow> 'hw siso_menable \<Rightarrow> 'hw siso_menable" where
  "me_free_threadgroup bh m = m\<lparr>threadgroups_heads := removeAll bh (threadgroups_heads m)\<rparr>"

definition me_get_threadgroup :: "nat \<Rightarrow> 'hw siso_menable \<Rightarrow> tg_ptr option" where
  "me_get_threadgroup tgid m =
     List.find (\<lambda>t. tg_id (threadgroups m t) = tgid) (threadgroups_heads m)"

section \<open>Looking up heads, buffers and channels\<close>

definition me_get_buf_head :: "u32 \<Rightarrow> 'hw siso_menable \<Rightarrow> head_ptr option" where
  "me_get_buf_head num m = List.find (\<lambda>p. head_id (heads m p) = num) (buffer_heads_list m)"

definition num_sb :: "menable_dmahead \<Rightarrow> int" where
  "num_sb dh = int (length (bufs dh))"

definition me_get_sub_buf_by_head :: "menable_dmahead \<Rightarrow> int \<Rightarrow> buf_id option" where
  "me_get_sub_buf_by_head dh bufidx =
     (if bufidx < 0 \<or> bufidx \<ge> num_sb dh then None else bufs dh ! nat bufidx)"

definition me_get_sub_buf :: "u32 \<Rightarrow> int \<Rightarrow> 'hw siso_menable \<Rightarrow> buf_id option" where
  "me_get_sub_buf headnum bufidx m =
     (case me_get_buf_head headnum m of
        None \<Rightarrow> None
      | Some hp \<Rightarrow> me_get_sub_buf_by_head (heads m hp) bufidx)"

definition men_dma_channel :: "u32 \<Rightarrow> 'hw siso_menable \<Rightarrow> chan_ptr option" where
  "men_dma_channel idx m =
     (let j = sum_list (map unat (take MAX_FPGAS (dmacnt m)))
      in if unat idx < j \<and> unat idx < length (dmachannels m) then dmachannels m ! unat idx
         else None)"

section \<open>Starting an acquisition\<close>

text \<open>
  \<^verbatim>\<open>men_clean_bh\<close>: one iteration of its loop files one buffer. The lists are rebuilt from empty
  ones, so \<^verbatim>\<open>list_add_tail\<close> appends.
\<close>

definition clean_bh_step ::
    "menable_dmahead \<Rightarrow> nat \<Rightarrow> menable_dmachan \<times> buf_heap \<Rightarrow> menable_dmachan \<times> buf_heap" where
  "clean_bh_step dh i s =
     (let (c, h) = s in
      case bufs dh ! (i mod length (bufs dh)) of
        None \<Rightarrow> (c, h)
      | Some b \<Rightarrow>
          if mode c \<noteq> DMA_SELECTIVEMODE \<or> listname (h b) = READY_LIST
          then (c\<lparr>ready_list := ready_list c @ [b], ready_count := ready_count c + 1\<rparr>,
                set_listname b READY_LIST h)
          else (c\<lparr>free_list := free_list c @ [b], free_count := free_count c + 1\<rparr>,
                set_listname b FREE_LIST h))"

definition cleared_queues :: "menable_dmachan \<Rightarrow> menable_dmachan" where
  "cleared_queues c = c\<lparr>free_count := 0, free_list := [], ready_count := 0, ready_list := [],
     hot_count := 0, hot_list := [], grabbed_count := 0, grabbed_list := [],
     locked_count := 0, lost_count := 0, goodcnt := 0\<rparr>"

definition men_clean_bh ::
    "menable_dmahead \<Rightarrow> nat \<Rightarrow> menable_dmachan \<Rightarrow> buf_heap \<Rightarrow> menable_dmachan \<times> buf_heap" where
  "men_clean_bh dh startbuf c h =
     fold (clean_bh_step dh) [startbuf..<startbuf + length (bufs dh)] (cleared_queues c, h)"

text \<open>
  The first half of \<^verbatim>\<open>men_start_dma\<close>, after its guard: detach the head the channel had before, attach
  the new one and rebuild the queues.
\<close>

definition attach_head ::
    "chan_ptr \<Rightarrow> head_ptr \<Rightarrow> nat \<Rightarrow> 'hw siso_menable \<Rightarrow> 'hw siso_menable" where
  "attach_head cp hp startbuf m =
     (let m1 = (case active (chans m cp) of
                  None \<Rightarrow> m
                | Some a \<Rightarrow> if a \<noteq> hp then upd_head a (\<lambda>dh. dh\<lparr>head_chan := None\<rparr>) m else m);
          m2 = upd_chan cp (\<lambda>c. c\<lparr>active := Some hp, state := MEN_DMA_CHAN_STATE_STARTING\<rparr>) m1;
          (c3, h3) = men_clean_bh (heads m2 hp) startbuf (chans m2 cp) (heap m2)
      in upd_head hp (\<lambda>dh. dh\<lparr>head_chan := Some cp\<rparr>)
           (m2\<lparr>chans := (chans m2)(cp := c3), heap := h3\<rparr>))"

definition men_start_dma ::
    "'hw board_ops \<Rightarrow> nat \<Rightarrow> chan_ptr \<Rightarrow> head_ptr \<Rightarrow> nat \<Rightarrow> 'hw siso_menable
     \<Rightarrow> (int \<times> 'hw siso_menable) option" where
  "men_start_dma ops tgid cp hp startbuf m =
     (if (case head_chan (heads m hp) of
            None \<Rightarrow> False
          | Some cp' \<Rightarrow> state (chans m cp) \<noteq> MEN_DMA_CHAN_STATE_STOPPED
                       \<or> state (chans m cp') \<noteq> MEN_DMA_CHAN_STATE_STOPPED)
      then Some (- EBUSY, m)
      else
        let m3 = attach_head cp hp startbuf m
        in if ready_count (chans m3 cp) = 0 \<and> mode (chans m3 cp) \<noteq> DMA_SELECTIVEMODE
           then Some (- ENODEV, upd_chan cp (\<lambda>c. c\<lparr>state := MEN_DMA_CHAN_STATE_STOPPING\<rparr>) m3)
           else case startdma ops cp m3 of
             None \<Rightarrow> None
           | Some (ret, m4) \<Rightarrow>
               if ret \<noteq> 0
               then Some (ret, upd_chan cp (\<lambda>c. c\<lparr>state := MEN_DMA_CHAN_STATE_STOPPING\<rparr>) m4)
               else
                 let c4 = chans m4 cp;
                     m5 = (case me_get_threadgroup tgid m4 of
                             None \<Rightarrow> m4
                           | Some t \<Rightarrow> m4\<lparr>threadgroups := (threadgroups m4)(t :=
                               (threadgroups m4 t)\<lparr>tg_dmas := \<lambda>i j.
                                  if i = fpga c4 \<and> j = number c4 then 1
                                  else tg_dmas (threadgroups m4 t) i j\<rparr>)\<rparr>);
                     m6 = (if chan_timeout (chans m5 cp) \<noteq> 0
                           then upd_chan cp (\<lambda>c. c\<lparr>timer_armed := True\<rparr>) m5 else m5)
                 in Some (ret, upd_chan cp (\<lambda>c. c\<lparr>state := MEN_DMA_CHAN_STATE_STARTED\<rparr>) m6))"

section \<open>Stopping\<close>

definition complete_all :: "menable_dmachan \<Rightarrow> menable_dmachan" where
  "complete_all c = c\<lparr>wait_list := map (\<lambda>w. w\<lparr>completed := True\<rparr>) (wait_list c)\<rparr>"

definition men_dma_clean_sync ::
    "'hw board_ops \<Rightarrow> chan_ptr \<Rightarrow> 'hw siso_menable \<Rightarrow> 'hw siso_menable option" where
  "men_dma_clean_sync ops cp m =
     (if state (chans m cp) \<noteq> MEN_DMA_CHAN_STATE_STOPPING then None
      else Some (upd_chan cp
        (\<lambda>c. complete_all (c\<lparr>timer_armed := False, state := MEN_DMA_CHAN_STATE_STOPPED,
                               transfer_todo := 0\<rparr>))
        (stopdma ops cp m)))"

definition men_dma_done_work ::
    "'hw board_ops \<Rightarrow> chan_ptr \<Rightarrow> 'hw siso_menable \<Rightarrow> 'hw siso_menable option" where
  "men_dma_done_work ops cp m =
     (let m1 = upd_chan cp (\<lambda>c. c\<lparr>dwork_scheduled := False\<rparr>) m
      in if state (chans m1 cp) = MEN_DMA_CHAN_STATE_STOPPING then men_dma_clean_sync ops cp m1
         else Some m1)"

text \<open>The timer; \<open>locked\<close> says whether \<^verbatim>\<open>spin_trylock\<close> got the timer lock.\<close>

definition men_dma_timeout ::
    "'hw board_ops \<Rightarrow> bool \<Rightarrow> chan_ptr \<Rightarrow> 'hw siso_menable \<Rightarrow> 'hw siso_menable" where
  "men_dma_timeout ops locked cp m =
     (if \<not> locked then m
      else upd_chan cp (\<lambda>c. complete_all (c\<lparr>state := MEN_DMA_CHAN_STATE_STOPPED\<rparr>))
             (abortdma ops cp m))"

definition men_stop_dma_locked :: "menable_dmachan \<Rightarrow> menable_dmachan" where
  "men_stop_dma_locked c =
     (if transfer_todo c > 0
      then c\<lparr>transfer_todo := 0, state := MEN_DMA_CHAN_STATE_STOPPING, dwork_scheduled := True\<rparr>
      else c)"

definition men_stop_dma :: "chan_ptr \<Rightarrow> 'hw siso_menable \<Rightarrow> 'hw siso_menable" where
  "men_stop_dma cp m =
     (if state (chans m cp) = MEN_DMA_CHAN_STATE_STARTED then upd_chan cp men_stop_dma_locked m
      else m)"

section \<open>\<^verbatim>\<open>fg_start_transfer\<close>\<close>

abbreviation LLONG_MAX :: int where "LLONG_MAX \<equiv> 9223372036854775807"
abbreviation INT_MAX :: int where "INT_MAX \<equiv> 2147483647"

text \<open>The guards before the channel is touched: an error code, or the head and the channel.\<close>

definition fg_check ::
    "fg_ctrl \<Rightarrow> u64 \<Rightarrow> 'hw siso_menable \<Rightarrow> int + head_ptr \<times> chan_ptr" where
  "fg_check fgr tsize m =
     (if fg_transfer_todo fgr = 0 then Inl (- EINVAL)
      else case me_get_buf_head (fg_head fgr) m of
        None \<Rightarrow> Inl (- EINVAL)
      | Some hp \<Rightarrow>
          if fg_start_buf fgr \<ge> num_sb (heads m hp) \<or> fg_start_buf fgr < 0 then Inl (- EINVAL)
          else (case bufs (heads m hp) ! nat (fg_start_buf fgr) of
              None \<Rightarrow> Inl (- EINVAL)
            | Some b \<Rightarrow>
                if tsize \<noteq> 0 \<and> buf_length (heap m b) < tsize then Inl (- EINVAL)
                else (case men_dma_channel (fg_chan fgr) m of
                    None \<Rightarrow> Inl (- ECHRNG)
                  | Some cp \<Rightarrow>
                      if fg_dma_dir fgr > 1 then Inl (- EINVAL)
                      else if state (chans m cp) = MEN_DMA_CHAN_STATE_STARTED then Inl (- EBUSY)
                      else if fg_mode fgr = uint DMA_HANDSHAKEMODE
                              \<and> fg_dma_dir fgr = MEN_DMA_DIR_CPU_TO_DEVICE then Inl (- EINVAL)
                      else Inr (hp, cp))))"

text \<open>
  Setting the channel up once it is known to be idle. \<^verbatim>\<open>mode\<close> is a six bit field; \<^verbatim>\<open>timeout\<close> is
  stored as an \<^verbatim>\<open>unsigned long\<close>.
\<close>

definition fg_setup :: "fg_ctrl \<Rightarrow> menable_dmachan \<Rightarrow> menable_dmachan" where
  "fg_setup fgr c =
     c\<lparr>transfer_todo := (if fg_transfer_todo fgr = -1 then LLONG_MAX else fg_transfer_todo fgr),
       chan_timeout := (if fg_timeout fgr < INT_MAX - 1 then unat (word_of_int (fg_timeout fgr) :: u64)
                        else 0),
       direction := (if fg_dma_dir fgr = MEN_DMA_DIR_DEVICE_TO_CPU then DMA_FROM_DEVICE
                     else DMA_TO_DEVICE),
       dwork_scheduled := False,
       mode := word_of_int (fg_mode fgr) AND 0x3F,
       latest_frame_number := 0\<rparr>"

definition fg_start_idle ::
    "'hw board_ops \<Rightarrow> nat \<Rightarrow> fg_ctrl \<Rightarrow> head_ptr \<Rightarrow> chan_ptr \<Rightarrow> 'hw siso_menable
     \<Rightarrow> (int \<times> 'hw siso_menable) option" where
  "fg_start_idle ops tgid fgr hp cp m =
     (case men_start_dma ops tgid cp hp (nat (fg_start_buf fgr)) (upd_chan cp (fg_setup fgr) m) of
        None \<Rightarrow> None
      | Some (ret, m1) \<Rightarrow>
          if ret < 0 then map_option (\<lambda>m2. (ret, m2)) (men_dma_clean_sync ops cp m1)
          else Some (ret, m1))"

text \<open>
  \<open>env\<close> is what other threads do while the locks are dropped to cancel the pending shutdown.
\<close>

definition fg_start_transfer ::
    "'hw board_ops \<Rightarrow> ('hw siso_menable \<Rightarrow> 'hw siso_menable) \<Rightarrow> nat \<Rightarrow> fg_ctrl \<Rightarrow> u64
     \<Rightarrow> 'hw siso_menable \<Rightarrow> (int \<times> 'hw siso_menable) option" where
  "fg_start_transfer ops env tgid fgr tsize m =
     (case fg_check fgr tsize m of
        Inl e \<Rightarrow> Some (e, m)
      | Inr (hp, cp) \<Rightarrow>
          if state (chans m cp) = MEN_DMA_CHAN_STATE_STOPPING then
            let cancelled = dwork_scheduled (chans m cp);
                m1 = env (upd_chan cp (\<lambda>c. c\<lparr>dwork_scheduled := False\<rparr>) m)
            in case me_get_buf_head (fg_head fgr) m1 of
                 None \<Rightarrow> Some (- EBUSY, m1)
               | Some hp' \<Rightarrow>
                   (case (if cancelled \<and> state (chans m1 cp) = MEN_DMA_CHAN_STATE_STOPPING
                          then men_dma_clean_sync ops cp m1 else Some m1) of
                      None \<Rightarrow> None
                    | Some m2 \<Rightarrow>
                        if state (chans m2 cp) \<noteq> MEN_DMA_CHAN_STATE_STOPPED then Some (- EBUSY, m2)
                        else if hp' \<noteq> hp then Some (- EBUSY, m2)
                        else fg_start_idle ops tgid fgr hp cp m2)
          else fg_start_idle ops tgid fgr hp cp m)"

section \<open>Waiting for an image\<close>

abbreviation INT32_MAX :: u64 where "INT32_MAX \<equiv> 0x7FFFFFFF"

definition GET_31_BIT_WINDOW :: "u64 \<Rightarrow> u64" where
  "GET_31_BIT_WINDOW v = v AND NOT INT32_MAX"

abbreviation THRESHOLD_31_BIT_WRAPAROUND :: u64 where
  "THRESHOLD_31_BIT_WRAPAROUND \<equiv> 0x3FFFFFFF"

definition wait_frame :: "u64 \<Rightarrow> int \<Rightarrow> bool \<Rightarrow> u64" where
  "wait_frame latest img is32bit =
     (if img \<le> 0 then
        let w = latest - word_of_int img in if w < latest then w + 1 else w
      else if is32bit then
        let w = word_of_int img OR GET_31_BIT_WINDOW latest
        in if w < latest \<and> latest - w > THRESHOLD_31_BIT_WRAPAROUND then w + 0x80000000 else w
      else word_of_int img)"

text \<open>
  \<^verbatim>\<open>men_wait_dmaimg\<close>. The wait itself is \<open>env\<close>: what happens to the board until the completion is
  signalled or the timeout runs out. The waiter, a variable on the stack at address \<open>self\<close>, is appended to the wait list meanwhile.
\<close>

definition men_wait_dmaimg ::
    "('hw siso_menable \<Rightarrow> 'hw siso_menable) \<Rightarrow> nat \<Rightarrow> chan_ptr \<Rightarrow> int \<Rightarrow> bool \<Rightarrow> 'hw siso_menable
     \<Rightarrow> (int + u64) \<times> 'hw siso_menable" where
  "men_wait_dmaimg env self cp img is32bit m =
     (let c = chans m cp; w = wait_frame (goodcnt c) img is32bit
      in if goodcnt c \<ge> w then (Inr (goodcnt c), m)
         else if state c \<noteq> MEN_DMA_CHAN_STATE_STARTED then (Inl (- ETIMEDOUT), m)
         else
           let m1 = env (upd_chan cp (\<lambda>c. c\<lparr>wait_list := wait_list c
                                     @ [\<lparr>waiter = self, frame = w, completed = False\<rparr>]\<rparr>) m);
               m2 = upd_chan cp (\<lambda>c. c\<lparr>wait_list := filter (\<lambda>x. waiter x \<noteq> self) (wait_list c)\<rparr>) m1
           in if goodcnt (chans m2 cp) < w then (Inl (- ETIMEDOUT), m2)
              else (Inr (goodcnt (chans m2 cp)), m2))"

end
