(* ===== verification/Registers.thy ===== *)
theory Registers
  imports Prelude
begin

text \<open>
  The access to the device's registers, \<^verbatim>\<open>struct register_interface\<close> of
  \<^verbatim>\<open>lib/fpga/register_interface.h\<close>: a device is a state with a read that gives a word and may
  change the state, and a write. The barriers of the structure order accesses of the
  processor, which the model performs in program order.
\<close>

record 'hw register_interface =
  ri_read :: "u32 \<Rightarrow> 'hw \<Rightarrow> u32 \<times> 'hw"
  ri_write :: "u32 \<Rightarrow> u32 \<Rightarrow> 'hw \<Rightarrow> 'hw"

text \<open>The words of a list written to one register, in order.\<close>

definition write_words :: "'hw register_interface \<Rightarrow> u32 \<Rightarrow> u32 list \<Rightarrow> 'hw \<Rightarrow> 'hw" where
  "write_words ri a ws s = fold (ri_write ri a) ws s"

lemma write_words_simps [simp]:
  "write_words ri a [] s = s"
  "write_words ri a (w # ws) s = write_words ri a ws (ri_write ri a w s)"
  "write_words ri a (xs @ ys) s = write_words ri a ys (write_words ri a xs s)"
  by (simp_all add: write_words_def)

text \<open>Pairs of a register and a word, written in order.\<close>

definition write_regs :: "'hw register_interface \<Rightarrow> (u32 \<times> u32) list \<Rightarrow> 'hw \<Rightarrow> 'hw" where
  "write_regs ri avs s = fold (\<lambda>(a, v). ri_write ri a v) avs s"

lemma write_regs_simps [simp]:
  "write_regs ri [] s = s"
  "write_regs ri (av # avs) s = write_regs ri avs (ri_write ri (fst av) (snd av) s)"
  "write_regs ri (xs @ ys) s = write_regs ri ys (write_regs ri xs s)"
  by (simp_all add: write_regs_def case_prod_beta)

text \<open>\<open>n\<close> reads of one register: the words it delivers and the state of the device after them.\<close>

fun read_words :: "'hw register_interface \<Rightarrow> u32 \<Rightarrow> nat \<Rightarrow> 'hw \<Rightarrow> u32 list \<times> 'hw" where
  "read_words ri a 0 s = ([], s)"
| "read_words ri a (Suc n) s =
     (let (w, s1) = ri_read ri a s; (ws, s2) = read_words ri a n s1 in (w # ws, s2))"

text \<open>A device that records what is written to it and delivers the words of a list.\<close>

definition fifo_device :: "(u32 list \<times> (u32 \<times> u32) list) register_interface" where
  "fifo_device = \<lparr>ri_read = (\<lambda>a (i, t). (hd (i @ [0]), (tl i, t))),
                  ri_write = (\<lambda>a v (i, t). (i, t @ [(a, v)]))\<rparr>"

text \<open>A device together with the accesses that are made to it, in order.\<close>

datatype bus_event = Rd u32 u32 | Wr u32 u32

definition logged :: "'hw register_interface \<Rightarrow> ('hw \<times> bus_event list) register_interface" where
  "logged ri = \<lparr>
     ri_read = (\<lambda>a (s, t). let (v, s') = ri_read ri a s in (v, (s', t @ [Rd a v]))),
     ri_write = (\<lambda>a v (s, t). (ri_write ri a v s, t @ [Wr a v]))\<rparr>"

lemma logged_read [simp]:
  "ri_read (logged ri) a st = (fst (ri_read ri a (fst st)),
     (snd (ri_read ri a (fst st)), snd st @ [Rd a (fst (ri_read ri a (fst st)))]))"
  by (simp add: logged_def case_prod_beta)

lemma logged_write [simp]:
  "ri_write (logged ri) a v st = (ri_write ri a v (fst st), snd st @ [Wr a v])"
  by (simp add: logged_def case_prod_beta)

end
