(* ===== verification/Dma_Me6.thy ===== *)
theory Dma_Me6
  imports Dma_Board Registers
begin

text \<open>
  The DMA side of \<^verbatim>\<open>linux/menable6.c\<close>: start, stop and abort of a DMA engine, and the completion
  interrupt. The device behind \<^verbatim>\<open>struct register_interface\<close> is a parameter: a read may change its
  state, and nothing is assumed of the values it returns. The polling loops run on the
  timeout counter of the code.
\<close>

definition reg_read :: "'hw register_interface \<Rightarrow> u32 \<Rightarrow> 'hw siso_menable \<Rightarrow> u32 \<times> 'hw siso_menable" where
  "reg_read ri a m = (let (v, s) = ri_read ri a (hw m) in (v, m\<lparr>hw := s\<rparr>))"

definition reg_write :: "'hw register_interface \<Rightarrow> u32 \<Rightarrow> u32 \<Rightarrow> 'hw siso_menable \<Rightarrow> 'hw siso_menable" where
  "reg_write ri a v m = m\<lparr>hw := ri_write ri a v (hw m)\<rparr>"

abbreviation ME6_REG_NUM_DMA_CHANNELS :: u32 where "ME6_REG_NUM_DMA_CHANNELS \<equiv> 0x0002"
abbreviation ME6_REG_IRQ_DMA_0_COUNT :: u32 where "ME6_REG_IRQ_DMA_0_COUNT \<equiv> 0x0007"
abbreviation ME6_REG_DMA_BASE :: u32 where "ME6_REG_DMA_BASE \<equiv> 0x0110"
abbreviation ME6_DMA_CHAN_OFFSET :: u32 where "ME6_DMA_CHAN_OFFSET \<equiv> 0x000A"
abbreviation ME6_REG_DMA_CONTROL :: u32 where "ME6_REG_DMA_CONTROL \<equiv> 0"
abbreviation ME6_REG_DMA_STATUS :: u32 where "ME6_REG_DMA_STATUS \<equiv> 0"
abbreviation ME6_REG_DMA_LENGTH :: u32 where "ME6_REG_DMA_LENGTH \<equiv> 4"
abbreviation ME6_REG_DMA_TAG :: u32 where "ME6_REG_DMA_TAG \<equiv> 5"
abbreviation ME6_DMA_CTRL_RESET :: u32 where "ME6_DMA_CTRL_RESET \<equiv> 2"
abbreviation ME6_DMA_CTRL_ENABLE :: u32 where "ME6_DMA_CTRL_ENABLE \<equiv> 1"
abbreviation ME6_DMA_STAT_RUNNING :: u32 where "ME6_DMA_STAT_RUNNING \<equiv> 4"
abbreviation ME6_DMA_STAT_TIMEOUT :: nat where "ME6_DMA_STAT_TIMEOUT \<equiv> 100000"
abbreviation ME6_IRQ_DMA_OVERFLOW :: u32 where "ME6_IRQ_DMA_OVERFLOW \<equiv> 1"

definition ME6_IRQ_DMA_GET_COUNT :: "u32 \<Rightarrow> u32" where
  "ME6_IRQ_DMA_GET_COUNT x = (drop_bit 1 x) AND 0xff"

text \<open>\<^verbatim>\<open>me6_dmabase\<close> fixes the address of the registers of a channel by its number.\<close>

definition iobase :: "menable_dmachan \<Rightarrow> u32" where
  "iobase c = ME6_REG_DMA_BASE + ME6_DMA_CHAN_OFFSET * of_nat (number c)"

definition set_dead :: "'hw siso_menable \<Rightarrow> 'hw siso_menable" where
  "set_dead m = m\<lparr>board_state := BOARD_STATE_DEAD\<rparr>"

definition me6_query_dma :: "'hw register_interface \<Rightarrow> nat \<Rightarrow> 'hw siso_menable \<Rightarrow> u32 \<times> 'hw siso_menable" where
  "me6_query_dma ri arg m =
     (let (n, m1) = reg_read ri ME6_REG_NUM_DMA_CHANNELS m
      in if n = - 1 then (0, set_dead m1) else (n, m1))"

section \<open>Start and stop\<close>

fun stop_poll :: "'hw register_interface \<Rightarrow> u32 \<Rightarrow> nat \<Rightarrow> 'hw siso_menable \<Rightarrow> 'hw siso_menable" where
  "stop_poll ri a 0 m = m"
| "stop_poll ri a (Suc n) m =
     (let (s, m1) = reg_read ri a m
      in if s = - 1 then set_dead m1
         else if s AND ME6_DMA_STAT_RUNNING \<noteq> 0 then stop_poll ri a n m1
         else m1)"

definition me6_stopdma :: "'hw register_interface \<Rightarrow> chan_ptr \<Rightarrow> 'hw siso_menable \<Rightarrow> 'hw siso_menable" where
  "me6_stopdma ri cp m =
     (let io = iobase (chans m cp);
          (s, m1) = reg_read ri (io + ME6_REG_DMA_STATUS) m
      in if s AND ME6_DMA_STAT_RUNNING \<noteq> 0
         then stop_poll ri (io + ME6_REG_DMA_STATUS) ME6_DMA_STAT_TIMEOUT
                (reg_write ri (io + ME6_REG_DMA_CONTROL) 0 m1)
         else m1)"

definition me6_abortdma :: "'hw register_interface \<Rightarrow> chan_ptr \<Rightarrow> 'hw siso_menable \<Rightarrow> 'hw siso_menable" where
  "me6_abortdma ri cp m =
     (let io = iobase (chans m cp);
          m1 = reg_write ri (io + ME6_REG_DMA_CONTROL) ME6_DMA_CTRL_RESET (me6_stopdma ri cp m);
          m2 = snd (reg_read ri (io + ME6_REG_DMA_STATUS) m1);
          m3 = reg_write ri (io + ME6_REG_DMA_CONTROL) 0 m2
      in snd (reg_read ri (io + ME6_REG_DMA_STATUS) m3))"

text \<open>The polling loop of \<^verbatim>\<open>me6_startdma\<close>; \<^verbatim>\<open>while (... && --timeout)\<close> fails when it reaches zero.\<close>

fun start_poll :: "'hw register_interface \<Rightarrow> u32 \<Rightarrow> nat \<Rightarrow> 'hw siso_menable \<Rightarrow> int \<times> 'hw siso_menable" where
  "start_poll ri a 0 m = (- ETIMEDOUT, m)"
| "start_poll ri a (Suc n) m =
     (let (s, m1) = reg_read ri a m
      in if s = - 1 then (- EFAULT, set_dead m1)
         else if s AND ME6_DMA_STAT_RUNNING = 0 then start_poll ri a n m1
         else (0, m1))"

definition queue_max_chan :: "chan_ptr \<Rightarrow> 'hw siso_menable \<Rightarrow> 'hw siso_menable option" where
  "queue_max_chan cp m = on_chan cp (men_dma_queue_max (dma_fifo_length m) (heads m)) m"

definition me6_startdma ::
    "'hw register_interface \<Rightarrow> chan_ptr \<Rightarrow> 'hw siso_menable \<Rightarrow> (int \<times> 'hw siso_menable) option" where
  "me6_startdma ri cp m =
     (let io = iobase (chans m cp)
      in case queue_max_chan cp (me6_abortdma ri cp m) of
           None \<Rightarrow> None
         | Some m1 \<Rightarrow>
             Some (start_poll ri (io + ME6_REG_DMA_STATUS) ME6_DMA_STAT_TIMEOUT
                     (reg_write ri (io + ME6_REG_DMA_CONTROL) ME6_DMA_CTRL_ENABLE m1)))"

definition me6_ops :: "'hw register_interface \<Rightarrow> 'hw board_ops" where
  "me6_ops ri = \<lparr>startdma = me6_startdma ri, stopdma = me6_stopdma ri,
     abortdma = me6_abortdma ri, query_dma = me6_query_dma ri\<rparr>"

section \<open>The completion interrupt\<close>

text \<open>One frame: take the oldest hot buffer and note length, tag and frame number in it.\<close>

definition irq_frame ::
    "'hw register_interface \<Rightarrow> menable_timespec \<Rightarrow> chan_ptr \<Rightarrow> 'hw siso_menable \<Rightarrow> 'hw siso_menable option" where
  "irq_frame ri ts cp m =
     (case on_chan_ret cp (men_move_hot ts) m of
        None \<Rightarrow> None
      | Some (sb, m1) \<Rightarrow>
          let (len, m2) = reg_read ri (iobase (chans m1 cp) + ME6_REG_DMA_LENGTH) m1;
              (tag, m3) = reg_read ri (iobase (chans m1 cp) + ME6_REG_DMA_TAG) m2
          in (case sb of
                None \<Rightarrow> Some m3
              | Some b \<Rightarrow>
                  if index (heap m3 b) = -1 then Some m3
                  else Some (m3\<lparr>heap := (heap m3)(b := (heap m3 b)\<lparr>dma_length := ucast len,
                         dma_tag := tag, frame_number := latest_frame_number (chans m3 cp)\<rparr>)\<rparr>)))"

fun irq_frames ::
    "'hw register_interface \<Rightarrow> menable_timespec \<Rightarrow> chan_ptr \<Rightarrow> nat \<Rightarrow> 'hw siso_menable
     \<Rightarrow> 'hw siso_menable option" where
  "irq_frames ri ts cp 0 m = Some m"
| "irq_frames ri ts cp (Suc n) m =
     (case irq_frame ri ts cp m of None \<Rightarrow> None | Some m1 \<Rightarrow> irq_frames ri ts cp n m1)"

text \<open>Frames of a channel without an active head are read from the device and dropped.\<close>

fun irq_drop ::
    "'hw register_interface \<Rightarrow> chan_ptr \<Rightarrow> nat \<Rightarrow> 'hw siso_menable \<Rightarrow> 'hw siso_menable" where
  "irq_drop ri cp 0 m = m"
| "irq_drop ri cp (Suc n) m =
     (let m1 = snd (reg_read ri (iobase (chans m cp) + ME6_REG_DMA_LENGTH) m);
          m2 = snd (reg_read ri (iobase (chans m cp) + ME6_REG_DMA_TAG) m1)
      in irq_drop ri cp n (upd_chan cp (\<lambda>c. c\<lparr>lost_count := lost_count c + 1\<rparr>) m2))"

definition complete_reached :: "menable_dmachan \<Rightarrow> menable_dmachan" where
  "complete_reached c = c\<lparr>wait_list :=
     map (\<lambda>w. if frame w \<le> goodcnt c then w\<lparr>completed := True\<rparr> else w) (wait_list c)\<rparr>"

text \<open>
  What follows the frames of an interrupt: waiters are woken, and the board gets new buffers, if any were
  used, or the channel stops. \<^verbatim>\<open>me5_irq\<close> of \<^verbatim>\<open>linux/menable5.c\<close> has the same code.
\<close>

definition irq_finish :: "chan_ptr \<Rightarrow> bool \<Rightarrow> 'hw siso_menable \<Rightarrow> 'hw siso_menable option" where
  "irq_finish cp new_frames m =
     (let m3 = upd_chan cp complete_reached m
      in if transfer_todo (chans m3 cp) > 0
         then (case (if new_frames then queue_max_chan cp m3 else Some m3) of
                 None \<Rightarrow> None
               | Some m4 \<Rightarrow>
                   Some (if chan_timeout (chans m4 cp) \<noteq> 0
                         then upd_chan cp (\<lambda>c. c\<lparr>timer_armed := True\<rparr>) m4 else m4))
         else Some (upd_chan cp (\<lambda>c. c\<lparr>state := MEN_DMA_CHAN_STATE_STOPPING,
                      dwork_scheduled := True\<rparr>) m3))"

definition me6_dma_irq ::
    "'hw register_interface \<Rightarrow> menable_timespec \<Rightarrow> u32 \<Rightarrow> 'hw siso_menable \<Rightarrow> 'hw siso_menable option" where
  "me6_dma_irq ri ts dma_idx m =
     (case men_dma_channel dma_idx m of
        None \<Rightarrow> None
      | Some cp \<Rightarrow>
          let (pending, m1) = reg_read ri (ME6_REG_IRQ_DMA_0_COUNT + dma_idx) m
          in if pending AND ME6_IRQ_DMA_OVERFLOW \<noteq> 0
             then Some (upd_chan cp (\<lambda>c. c\<lparr>lost_count := lost_count c + 1\<rparr>) m1)
             else
               let n = unat (ME6_IRQ_DMA_GET_COUNT pending)
               in if active (chans m1 cp) = None then Some (irq_drop ri cp n m1)
                  else (case irq_frames ri ts cp n m1 of
                      None \<Rightarrow> None
                    | Some m2 \<Rightarrow> irq_finish cp (n \<noteq> 0) m2))"

end
