(* ===== verification/Dma_Start_Props.thy ===== *)
theory Dma_Start_Props
  imports Dma_Me6 "HOL-Library.Multiset"
begin

text \<open>
  Properties of starting, stopping and waiting: the queues an acquisition starts with, the frame
  a waiter waits for, and the consequences of a head being used by two channels.
\<close>

section \<open>The queues after \<^verbatim>\<open>men_clean_bh\<close>\<close>

lemma map_mod_rotate:
  "map (\<lambda>i. xs ! (i mod length xs)) [s..<s + length xs] = rotate s xs"
  by (rule nth_equalityI) (simp_all add: nth_rotate)

definition present :: "buf_id option list \<Rightarrow> buf_id list" where
  "present xs = map the (filter (\<lambda>x. x \<noteq> None) xs)"

lemma present_simps [simp]:
  "present [] = []" "present (None # xs) = present xs" "present (Some b # xs) = b # present xs"
  by (simp_all add: present_def)

lemma set_present: "set (present xs) = {b. Some b \<in> set xs}"
  by (induction xs) (auto simp: present_def)

text \<open>Which buffers start out ready: all, or in selective mode the ones user space queued.\<close>

definition starts_ready :: "u32 \<Rightarrow> buf_heap \<Rightarrow> buf_id \<Rightarrow> bool" where
  "starts_ready m h b \<longleftrightarrow> m \<noteq> DMA_SELECTIVEMODE \<or> listname (h b) = READY_LIST"

definition file_buf :: "buf_id option \<Rightarrow> menable_dmachan \<times> buf_heap \<Rightarrow> menable_dmachan \<times> buf_heap" where
  "file_buf x s = (let (c, h) = s in
      case x of
        None \<Rightarrow> (c, h)
      | Some b \<Rightarrow>
          if starts_ready (mode c) h b
          then (c\<lparr>ready_list := ready_list c @ [b], ready_count := ready_count c + 1\<rparr>,
                set_listname b READY_LIST h)
          else (c\<lparr>free_list := free_list c @ [b], free_count := free_count c + 1\<rparr>,
                set_listname b FREE_LIST h))"

lemma clean_bh_step_file:
  "clean_bh_step dh i s = file_buf (bufs dh ! (i mod length (bufs dh))) s"
  by (cases s) (auto simp: clean_bh_step_def file_buf_def starts_ready_def split: option.split)

definition filed_heap :: "u32 \<Rightarrow> buf_id set \<Rightarrow> buf_heap \<Rightarrow> buf_heap" where
  "filed_heap m B h = (\<lambda>b. if b \<in> B
     then (h b)\<lparr>listname := if starts_ready m h b then READY_LIST else FREE_LIST\<rparr> else h b)"

lemma fold_file_buf:
  assumes "distinct (present xs)"
  shows "fold file_buf xs (c, h) =
    (c\<lparr>ready_list := ready_list c @ filter (starts_ready (mode c) h) (present xs),
       ready_count := ready_count c + of_nat (length (filter (starts_ready (mode c) h) (present xs))),
       free_list := free_list c @ filter (\<lambda>b. \<not> starts_ready (mode c) h b) (present xs),
       free_count := free_count c
          + of_nat (length (filter (\<lambda>b. \<not> starts_ready (mode c) h b) (present xs)))\<rparr>,
     filed_heap (mode c) (set (present xs)) h)"
  using assms
proof (induction xs arbitrary: c h)
  case Nil
  have "filed_heap (mode c) {} h = h" by (simp add: filed_heap_def)
  then show ?case by simp
next
  case (Cons x xs)
  show ?case
  proof (cases x)
    case None
    then show ?thesis using Cons by (simp add: file_buf_def)
  next
    case (Some b)
    then have b: "b \<notin> set (present xs)" and dist: "distinct (present xs)"
      using Cons.prems by simp_all
    have same: "filter (\<lambda>x. starts_ready (mode c) (set_listname b l h) x) (present xs)
              = filter (starts_ready (mode c) h) (present xs)"
      "filter (\<lambda>x. \<not> starts_ready (mode c) (set_listname b l h) x) (present xs)
              = filter (\<lambda>x. \<not> starts_ready (mode c) h x) (present xs)" for l
      using b by (auto intro!: filter_cong simp: starts_ready_def)
    have heap: "filed_heap (mode c) (set (present xs)) (set_listname b l h)
              = filed_heap (mode c) (set (present (x # xs))) h"
      if "l = (if starts_ready (mode c) h b then READY_LIST else FREE_LIST)" for l
      using b that Some
      by (auto simp: filed_heap_def starts_ready_def set_listname_def fun_eq_iff)
    show ?thesis
    proof (cases "starts_ready (mode c) h b")
      case True
      then show ?thesis
        using Cons.IH [OF dist] Some same heap [of READY_LIST]
        by (simp add: file_buf_def algebra_simps)
    next
      case False
      then show ?thesis
        using Cons.IH [OF dist] Some same heap [of FREE_LIST]
        by (simp add: file_buf_def algebra_simps)
    qed
  qed
qed

lemma fold_map_fun: "fold g (map f xs) = fold (\<lambda>x. g (f x)) xs"
  by (induction xs) simp_all

lemma men_clean_bh_fold:
  "men_clean_bh dh s c h = fold file_buf (rotate s (bufs dh)) (cleared_queues c, h)"
proof -
  have "clean_bh_step dh = (\<lambda>i. file_buf (bufs dh ! (i mod length (bufs dh))))"
    by (rule ext)+ (rule clean_bh_step_file)
  then show ?thesis
    unfolding men_clean_bh_def map_mod_rotate [symmetric] fold_map_fun by simp
qed

lemma present_rotate:
  "set (present (rotate s xs)) = set (present xs)"
  "distinct (present (rotate s xs)) \<longleftrightarrow> distinct (present xs)"
proof -
  have perm: "mset (present (rotate s xs)) = mset (present xs)"
  proof -
    have "mset (rotate s xs) = mset xs"
      by (metis append_take_drop_id mset_append rotate_drop_take union_commute)
    then show ?thesis by (simp add: present_def mset_filter)
  qed
  show "set (present (rotate s xs)) = set (present xs)"
    using perm by (rule mset_eq_setD)
  show "distinct (present (rotate s xs)) \<longleftrightarrow> distinct (present xs)"
    using perm mset_eq_imp_distinct_iff by blast
qed

lemma men_clean_bh_result:
  assumes "distinct (present (bufs dh))"
  shows "men_clean_bh dh s c h =
    (let ys = present (rotate s (bufs dh));
         rs = filter (starts_ready (mode c) h) ys; fs = filter (\<lambda>b. \<not> starts_ready (mode c) h b) ys
     in ((cleared_queues c)\<lparr>ready_list := rs, ready_count := of_nat (length rs),
           free_list := fs, free_count := of_nat (length fs)\<rparr>,
         filed_heap (mode c) (set (present (bufs dh))) h))"
proof -
  have "distinct (present (rotate s (bufs dh)))" using assms by (simp add: present_rotate)
  from fold_file_buf [OF this, of "cleared_queues c" h] show ?thesis
    unfolding men_clean_bh_fold by (simp add: present_rotate cleared_queues_def Let_def)
qed

definition head_ok :: "menable_dmahead \<Rightarrow> buf_heap \<Rightarrow> bool" where
  "head_ok dh h \<longleftrightarrow> distinct (present (bufs dh))
     \<and> heap_ok h (set (present (bufs dh))) (dummybuf dh)"

lemma men_clean_bh_wf:
  assumes "head_ok dh h"
  shows "chan_wf (fst (men_clean_bh dh s c h)) (snd (men_clean_bh dh s c h))
           (set (present (bufs dh))) (dummybuf dh)"
proof -
  let ?B = "set (present (bufs dh))"
  let ?P = "starts_ready (mode c) h"
  let ?h = "filed_heap (mode c) ?B h"
  let ?ys = "present (rotate s (bufs dh))"
  have dist: "distinct (present (bufs dh))" and hp: "heap_ok h ?B (dummybuf dh)"
    using assms by (simp_all add: head_ok_def)
  have ys: "set ?ys = ?B" "distinct ?ys" using dist by (simp_all add: present_rotate)
  have mem: "members ?h ?B READY_LIST = {b \<in> ?B. ?P b}" "members ?h ?B FREE_LIST = {b \<in> ?B. \<not> ?P b}"
      "members ?h ?B HOT_LIST = {}" "members ?h ?B GRABBED_LIST = {}" "members ?h ?B NO_LIST = {}"
    by (auto simp: members_def filed_heap_def)
  have "heap_ok ?h ?B (dummybuf dh)"
    using hp by (auto simp: heap_ok_def filed_heap_def)
  moreover have d: "dummybuf dh \<notin> ?B" using hp by (simp add: heap_ok_def)
  ultimately show ?thesis
    unfolding men_clean_bh_result [OF dist] Let_def chan_wf_def queue_ok_def linked_lists_def
    using ys by (auto simp: mem cleared_queues_def)
qed

section \<open>Example board\<close>

text \<open>A board with one mE6 channel that never started and one head with three buffers.\<close>

definition idle_chan :: "nat \<Rightarrow> menable_dmachan" where
  "idle_chan n = \<lparr>active = None, number = n, fpga = 0, mode = 0, direction = 0,
     state = MEN_DMA_CHAN_STATE_STARTING, imgcnt = 0, goodcnt = 0, latest_frame_number = 0,
     free_count = 0, ready_count = 0, grabbed_count = 0, hot_count = 0, lost_count = 0,
     locked_count = 0, free_list = [], ready_list = [], grabbed_list = [], hot_list = [],
     wait_list = [], transfer_todo = 0, chan_timeout = 0, timer_armed = False,
     dwork_scheduled = False, hw_queue = []\<rparr>"

text \<open>Head 0 has buffers 0 to 2 and dummy 100, head 1 has buffer 10 and dummy 101.\<close>

definition demo_board_heap :: buf_heap where
  "demo_board_heap b = demo_buf FREE_LIST (if b \<ge> 100 then -1 else int b mod 10)"

definition demo_board :: "unit siso_menable" where
  "demo_board = \<lparr>hw = (), board_state = BOARD_STATE_ACTIVE, active_fpgas = 1, dmacnt = [2, 0],
     dmachannels = [Some 0, Some 1], use_count = 1, releasing = False, num_buffer_heads = 2,
     buffer_heads_list = [0, 1], dma_fifo_length = 2, threadgroups_heads = [0],
     threadgroups = (\<lambda>t. \<lparr>tg_id = 42, tg_cnt = 1, tg_dmas = (\<lambda>i j. 0)\<rparr>),
     heads = (\<lambda>p. if p = 0
        then \<lparr>head_id = 0, bufs = [Some 0, Some 1, Some 2], dummybuf = 100, head_chan = None\<rparr>
        else \<lparr>head_id = 1, bufs = [Some 10], dummybuf = 101, head_chan = None\<rparr>),
     chans = idle_chan, heap = demo_board_heap\<rparr>"

text \<open>A device whose status register always reads as running, with no pending interrupts.\<close>

definition demo_ri :: "unit register_interface" where
  "demo_ri = \<lparr>ri_read = (\<lambda>a s. (4, s)), ri_write = (\<lambda>a v s. s)\<rparr>"

abbreviation demo_fg :: "u32 \<Rightarrow> u32 \<Rightarrow> fg_ctrl" where
  "demo_fg ch h \<equiv> \<lparr>fg_mode = 0x20, fg_timeout = 0, fg_transfer_todo = 5, fg_chan = ch,
     fg_head = h, fg_start_buf = 0, fg_dma_dir = 0\<rparr>"

section \<open>Properties\<close>

text \<open>
  C34: \<^verbatim>\<open>men_clean_bh\<close> rebuilds the queues of a channel from the buffers of its head, cyclically from
  the start buffer on: every existing buffer becomes ready; but in selective mode only those that are
  marked ready do, and all others, the hot and the grabbed ones among them, become free. Nothing is
  hot, grabbed or locked then, and the result satisfies the queue invariant. The comment above the
  function says that in selective mode hot and grabbed buffers become ready; the code, and the
  comments inside it, do not do so.
\<close>

theorem clean_bh_builds_queues_cyclically:
  assumes "head_ok dh h"
  shows "let ys = map the (filter (\<lambda>x. x \<noteq> None) (rotate s (bufs dh)));
             c' = fst (men_clean_bh dh s c h); h' = snd (men_clean_bh dh s c h)
         in ready_list c' = filter (\<lambda>b. mode c \<noteq> DMA_SELECTIVEMODE \<or> listname (h b) = READY_LIST) ys
            \<and> free_list c' = filter (\<lambda>b. mode c = DMA_SELECTIVEMODE \<and> listname (h b) \<noteq> READY_LIST) ys
            \<and> hot_list c' = [] \<and> grabbed_list c' = [] \<and> locked_count c' = 0 \<and> goodcnt c' = 0
            \<and> chan_wf c' h' (set ys) (dummybuf dh)"
proof -
  have "distinct (present (bufs dh))" using assms by (simp add: head_ok_def)
  note res = men_clean_bh_result [OF this, of s c h]
  have sr: "starts_ready (mode c) h
          = (\<lambda>b. mode c \<noteq> DMA_SELECTIVEMODE \<or> listname (h b) = READY_LIST)"
    by (rule ext) (simp add: starts_ready_def)
  have ys: "map the (filter (\<lambda>x. x \<noteq> None) (rotate s (bufs dh))) = present (rotate s (bufs dh))"
    by (simp add: present_def)
  have "chan_wf (fst (men_clean_bh dh s c h)) (snd (men_clean_bh dh s c h))
          (set (present (rotate s (bufs dh)))) (dummybuf dh)"
    using men_clean_bh_wf [OF assms] by (simp add: present_rotate)
  then show ?thesis
    unfolding ys Let_def by (simp add: res Let_def cleared_queues_def sr)
qed

lemma demo_head_ok: "head_ok (heads demo_board 0) (heap demo_board)"
  by (simp add: head_ok_def demo_board_def heap_ok_def demo_board_heap_def demo_buf_def)

lemma clean_bh_builds_queues_cyclically_witness:
  "ready_list (fst (men_clean_bh (heads demo_board 0) 2 (idle_chan 0) (heap demo_board))) = [2, 0, 1]"
proof -
  have r: "rotate 2 (bufs (heads demo_board 0)) = [Some 2, Some 0, Some 1]" by code_simp
  have m: "mode (idle_chan 0) \<noteq> DMA_SELECTIVEMODE" by (simp add: idle_chan_def)
  show ?thesis
    using clean_bh_builds_queues_cyclically [OF demo_head_ok, of 2 "idle_chan 0"] m
    unfolding r Let_def by simp
qed

text \<open>
  For a 32 bit caller the requested image number is only known modulo two to the 31; the frame
  waited for is congruent to it, at most two to the 30 behind the newest image (so a
  recent image is found at once) and less than two to the 31 ahead of it.
\<close>

theorem wait_frame_31_bit_window:
  assumes "0 < img" "img < 2147483648" "unat latest < 9223372036854775808"
  shows "int (unat (wait_frame latest img True)) mod 2147483648 = img
     \<and> unat latest \<le> unat (wait_frame latest img True) + 1073741823
     \<and> unat (wait_frame latest img True) < unat latest + 2147483648"
proof -
  obtain q r where l: "unat latest = r + q * 2147483648" and r: "r < 2147483648"
    by (metis mod_div_mult_eq mod_less_divisor zero_less_numeral)
  then have lq: "unat latest div 2147483648 = q" by simp
  let ?w = "word_of_int img OR GET_31_BIT_WINDOW latest"
  have i: "unat (word_of_int img :: u64) = nat img" using assms(1,2)
    by (simp add: unat_eq_nat_uint uint_word_of_int)
  have w: "unat ?w = nat img + q * 2147483648"
    unfolding GET_31_BIT_WINDOW_def using assms(1,2) by (subst unat_or_window) (simp_all add: i lq)
  have im: "img mod 2147483648 = img" using assms(1,2) by simp
  have q: "q < 4294967296" using assms(3) l by simp
  have ib: "nat img < 2147483648" using assms by simp
  show ?thesis
  proof (cases "?w < latest \<and> latest - ?w > 0x3FFFFFFF")
    case True
    then have f: "wait_frame latest img True = ?w + 0x80000000" using assms by (simp add: wait_frame_def Let_def)
    have "unat (?w + 0x80000000) = nat img + q * 2147483648 + 2147483648"
      unfolding unat_word_ariths w using q ib by simp
    moreover have "unat ?w < unat latest" "unat latest - unat ?w > 1073741823"
      using True by (auto simp: word_less_nat_alt unat_sub_if')
    ultimately show ?thesis unfolding f using w l r ib assms(1) im by (simp add: zmod_int)
  next
    case False
    then have f: "wait_frame latest img True = ?w" using assms by (auto simp: wait_frame_def Let_def)
    have "unat latest \<le> unat ?w + 1073741823"
      using False by (auto simp: word_less_nat_alt unat_sub_if' not_less split: if_splits)
    then show ?thesis unfolding f using w l r ib assms(1) im by (simp add: zmod_int)
  qed
qed

lemma wait_frame_31_bit_window_witness:
  "int (unat (wait_frame 0x80000005 3 True)) mod 2147483648 = 3
   \<and> wait_frame 0xFFFFFFF0 7 True = 0x100000007"
  using wait_frame_31_bit_window [of 3 "0x80000005"] by (simp add: wait_frame_def GET_31_BIT_WINDOW_def)

end
