(* ===== verification/Dma_Me6_Props.thy ===== *)
theory Dma_Me6_Props
  imports Dma_Start_Props
begin

text \<open>
  The life cycle of an mE6 acquisition: the register accesses leave the buffers alone, a start
  ends in a running or a stopped channel, and the completion interrupt keeps a running channel
  running.
\<close>

section \<open>Register accesses change nothing but the device and the board state\<close>

definition same_dma :: "'hw siso_menable \<Rightarrow> 'hw siso_menable \<Rightarrow> bool" where
  "same_dma m m' \<longleftrightarrow> (\<exists>s b. m' = m\<lparr>hw := s, board_state := b\<rparr>)"

lemma same_dma_refl [simp, intro]: "same_dma m m"
  unfolding same_dma_def by (rule exI [of _ "hw m"], rule exI [of _ "board_state m"]) simp

lemma same_dma_trans: "same_dma m m1 \<Longrightarrow> same_dma m1 m2 \<Longrightarrow> same_dma m m2"
proof -
  assume "same_dma m m1" "same_dma m1 m2"
  then obtain s b s' b' where "m1 = m\<lparr>hw := s, board_state := b\<rparr>"
      "m2 = m1\<lparr>hw := s', board_state := b'\<rparr>" unfolding same_dma_def by blast
  then have "m2 = m\<lparr>hw := s', board_state := b'\<rparr>" by simp
  then show "same_dma m m2" unfolding same_dma_def by blast
qed

lemma same_dma_fields:
  assumes "same_dma m m'"
  shows "chans m' = chans m" "heap m' = heap m" "heads m' = heads m"
    "dma_fifo_length m' = dma_fifo_length m" "threadgroups m' = threadgroups m"
    "threadgroups_heads m' = threadgroups_heads m" "dmachannels m' = dmachannels m"
    "buffer_heads_list m' = buffer_heads_list m"
  using assms by (auto simp: same_dma_def)

lemma reg_read_same: "same_dma m (snd (reg_read ri a m))"
proof -
  have "snd (reg_read ri a m) = m\<lparr>hw := snd (ri_read ri a (hw m)), board_state := board_state m\<rparr>"
    by (simp add: reg_read_def case_prod_beta Let_def)
  then show ?thesis unfolding same_dma_def by blast
qed

lemma reg_read_fst: "fst (reg_read ri a m) = fst (ri_read ri a (hw m))"
  by (simp add: reg_read_def case_prod_beta Let_def)

lemma reg_write_same: "same_dma m (reg_write ri a v m)"
proof -
  have "reg_write ri a v m = m\<lparr>hw := ri_write ri a v (hw m), board_state := board_state m\<rparr>"
    by (simp add: reg_write_def)
  then show ?thesis unfolding same_dma_def by blast
qed

lemma set_dead_same: "same_dma m (set_dead m)"
proof -
  have "set_dead m = m\<lparr>hw := hw m, board_state := BOARD_STATE_DEAD\<rparr>" by (simp add: set_dead_def)
  then show ?thesis unfolding same_dma_def by blast
qed

lemmas same_dma_intros = reg_read_same reg_write_same set_dead_same
  same_dma_trans [OF _ reg_write_same] same_dma_trans [OF _ reg_read_same]
  same_dma_trans [OF _ set_dead_same]

lemma stop_poll_same: "same_dma m (stop_poll ri a n m)"
proof (induction n arbitrary: m)
  case (Suc n)
  obtain s m1 where r: "reg_read ri a m = (s, m1)" by (cases "reg_read ri a m") auto
  then have "same_dma m m1" using reg_read_same [of m ri a] by simp
  then show ?case
    using r Suc.IH [of m1] same_dma_trans set_dead_same by (auto simp: Let_def)
qed simp

lemma start_poll_same: "same_dma m (snd (start_poll ri a n m)) \<and> fst (start_poll ri a n m) \<le> 0"
proof (induction n arbitrary: m)
  case (Suc n)
  obtain s m1 where r: "reg_read ri a m = (s, m1)" by (cases "reg_read ri a m") auto
  then have "same_dma m m1" using reg_read_same [of m ri a] by simp
  then show ?case
    using r Suc.IH [of m1] same_dma_trans set_dead_same by (auto simp: Let_def)
qed simp

lemma me6_stopdma_same: "same_dma m (me6_stopdma ri cp m)"
proof -
  obtain s m1 where r: "reg_read ri (iobase (chans m cp) + ME6_REG_DMA_STATUS) m = (s, m1)"
    by (cases "reg_read ri (iobase (chans m cp) + ME6_REG_DMA_STATUS) m") auto
  then have m1: "same_dma m m1"
    using reg_read_same [of m ri "iobase (chans m cp) + ME6_REG_DMA_STATUS"] by simp
  have "same_dma m (stop_poll ri a n (reg_write ri b v m1))" for a n b v
    by (rule same_dma_trans [OF same_dma_trans [OF m1 reg_write_same] stop_poll_same])
  then show ?thesis using m1 r by (simp add: me6_stopdma_def Let_def)
qed

lemma me6_abortdma_same: "same_dma m (me6_abortdma ri cp m)"
  unfolding me6_abortdma_def Let_def
  by (intro same_dma_trans [OF _ reg_read_same] same_dma_trans [OF _ reg_write_same] me6_stopdma_same)

section \<open>Attaching a head\<close>

lemma attach_head_spec:
  assumes "head_ok (heads m hp) (heap m)" and m3_def: "m3 = attach_head cp hp s m"
  shows "chan_wf (chans m3 cp) (heap m3) (set (present (bufs (heads m hp)))) (dummybuf (heads m hp))"
    "active (chans m3 cp) = Some hp" "hot_list (chans m3 cp) = []"
    "head_chan (heads m3 hp) = Some cp" "dummybuf (heads m3 hp) = dummybuf (heads m hp)"
    "dma_fifo_length m3 = dma_fifo_length m"
    "p \<noteq> cp \<Longrightarrow> chans m3 p = chans m p"
    "transfer_todo (chans m3 cp) = transfer_todo (chans m cp)"
proof -
  let ?m1 = "case active (chans m cp) of
                  None \<Rightarrow> m
                | Some a \<Rightarrow> if a \<noteq> hp then upd_head a (\<lambda>dh. dh\<lparr>head_chan := None\<rparr>) m else m"
  let ?m2 = "upd_chan cp (\<lambda>c. c\<lparr>active := Some hp, state := MEN_DMA_CHAN_STATE_STARTING\<rparr>) ?m1"
  have m1: "heads ?m1 hp = heads m hp" "heap ?m1 = heap m" "chans ?m1 = chans m"
      "dma_fifo_length ?m1 = dma_fifo_length m"
    by (auto simp: upd_head_def split: option.split)
  have m2: "heads ?m2 hp = heads m hp" "heap ?m2 = heap m" "dma_fifo_length ?m2 = dma_fifo_length m"
      "active (chans ?m2 cp) = Some hp"
      "transfer_todo (chans ?m2 cp) = transfer_todo (chans m cp)" "p \<noteq> cp \<Longrightarrow> chans ?m2 p = chans m p" for p
    using m1 by (simp_all add: upd_chan_def)
  let ?r = "men_clean_bh (heads m hp) s (chans ?m2 cp) (heap m)"
  have m3: "m3 = upd_head hp (\<lambda>dh. dh\<lparr>head_chan := Some cp\<rparr>)
                (?m2\<lparr>chans := (chans ?m2)(cp := fst ?r), heap := snd ?r\<rparr>)"
    unfolding m3_def attach_head_def Let_def m2(1,2) by (simp add: case_prod_beta)
  have dist: "distinct (present (bufs (heads m hp)))" using assms(1) by (simp add: head_ok_def)
  note res = men_clean_bh_result [OF dist, of s "chans ?m2 cp" "heap m"]
  have c: "chans m3 cp = fst ?r" "heap m3 = snd ?r" unfolding m3 by (simp_all add: upd_head_def)
  show "chan_wf (chans m3 cp) (heap m3) (set (present (bufs (heads m hp)))) (dummybuf (heads m hp))"
    unfolding c by (rule men_clean_bh_wf [OF assms(1)])
  show "active (chans m3 cp) = Some hp" "hot_list (chans m3 cp) = []"
    "transfer_todo (chans m3 cp) = transfer_todo (chans m cp)"
    unfolding c res Let_def using m2(4,5) by (simp_all add: cleared_queues_def)
  show "head_chan (heads m3 hp) = Some cp" "dummybuf (heads m3 hp) = dummybuf (heads m hp)"
    "dma_fifo_length m3 = dma_fifo_length m" "p \<noteq> cp \<Longrightarrow> chans m3 p = chans m p"
    unfolding m3 using m2 by (simp_all add: upd_head_def)
qed

section \<open>Operations of a channel on the board\<close>

definition chan_running :: "chan_ptr \<Rightarrow> buf_id set \<Rightarrow> buf_id \<Rightarrow> 'hw siso_menable \<Rightarrow> bool" where
  "chan_running cp bs d m \<longleftrightarrow>
     running_ok (dma_fifo_length m) (heads m) (chans m cp) (heap m) bs d"

lemma chan_running_same: "same_dma m m' \<Longrightarrow> chan_running cp bs d m' = chan_running cp bs d m"
  by (simp add: chan_running_def same_dma_fields)

lemma chan_wf_upd:
  assumes "chan_wf c h bs d" "\<And>k. lst k c' = lst k c" "\<And>k. cnt k c' = cnt k c"
  shows "chan_wf c' h bs d"
  using assms by (subst chan_wf_cong [where c = c and h = h]) simp_all

lemma chan_running_upd:
  assumes "chan_running cp bs d m" "\<And>k c. lst k (f c) = lst k c" "\<And>k c. cnt k (f c) = cnt k c"
    "\<And>c. active (f c) = active c"
  shows "chan_running cp bs d (upd_chan cp f m)"
proof -
  note D = running_okD [OF assms(1) [unfolded chan_running_def]]
  have "chan_wf (f (chans m cp)) (heap m) bs d" by (rule chan_wf_upd [OF D(1) assms(2,3)])
  moreover have "hot_count (f (chans m cp)) = hot_count (chans m cp)"
    using assms(3) [of HOT_LIST] by simp
  ultimately show ?thesis
    unfolding chan_running_def upd_chan_def
    using running_okI [OF assms(1) [unfolded chan_running_def]] assms(4) D(3) by simp
qed

text \<open>The fields of a channel that refilling the board leaves alone.\<close>

definition same_progress :: "menable_dmachan \<Rightarrow> menable_dmachan \<Rightarrow> bool" where
  "same_progress c c' \<longleftrightarrow> transfer_todo c' = transfer_todo c \<and> goodcnt c' = goodcnt c
     \<and> wait_list c' = wait_list c \<and> state c' = state c \<and> dwork_scheduled c' = dwork_scheduled c
     \<and> active c' = active c \<and> mode c' = mode c"

lemma queue_max_chan_spec:
  assumes "chan_running cp bs d m"
  obtains m' where "queue_max_chan cp m = Some m'" "chan_running cp bs d m'"
    "same_progress (chans m cp) (chans m' cp)" "heads m' = heads m"
    "dma_fifo_length m' = dma_fifo_length m"
proof -
  let ?c = "chans m cp" and ?h = "heap m" and ?n = "dma_fifo_length m"
  note ok = assms [unfolded chan_running_def]
  note D = running_okD [OF ok]
  obtain c' h' k where r: "men_dma_queue_max ?n (heads m) ?c ?h = Some (c', h')"
      "chan_wf c' h' bs d" "hot_count c' \<le> ?n" "hot_list c' = hot_list ?c @ k"
      "hw_queue c' = hw_queue ?c @ k" "active c' = active ?c"
    by (rule men_dma_queue_max_wf [OF D(1,3,2,5)])
  have "same_progress ?c c'"
    using r(1) men_dma_queue_max_result [OF D(1,3,5)]
    by (auto simp: same_progress_def with_dummy_def queued_chan_def split: if_splits)
  moreover have "running_ok ?n (heads m) c' h' bs d" by (rule running_okI [OF ok r(2,6,3)])
  ultimately show ?thesis
    using that [of "m\<lparr>chans := (chans m)(cp := c'), heap := h'\<rparr>"] r(1)
    by (simp add: queue_max_chan_def on_chan_def chan_running_def)
qed

section \<open>Starting\<close>

lemma me6_startdma_spec:
  assumes "chan_running cp bs d m"
  obtains ret m' where "me6_startdma ri cp m = Some (ret, m')" "ret \<le> 0" "chan_running cp bs d m'"
    "same_progress (chans m cp) (chans m' cp)" "heads m' = heads m"
    "dma_fifo_length m' = dma_fifo_length m"
proof -
  let ?m1 = "me6_abortdma ri cp m"
  note s1 = me6_abortdma_same [of m ri cp]
  have "chan_running cp bs d ?m1" using assms chan_running_same [OF s1] by blast
  then obtain m2 where m2: "queue_max_chan cp ?m1 = Some m2" "chan_running cp bs d m2"
      "same_progress (chans ?m1 cp) (chans m2 cp)" "heads m2 = heads ?m1"
      "dma_fifo_length m2 = dma_fifo_length ?m1"
    by (rule queue_max_chan_spec)
  let ?a = "iobase (chans m cp)"
  let ?r = "start_poll ri (?a + ME6_REG_DMA_STATUS) ME6_DMA_STAT_TIMEOUT
              (reg_write ri (?a + ME6_REG_DMA_CONTROL) ME6_DMA_CTRL_ENABLE m2)"
  have s2: "same_dma m2 (snd ?r)"
    using start_poll_same by (blast intro: same_dma_trans [OF reg_write_same])
  show ?thesis
  proof (rule that)
    show "me6_startdma ri cp m = Some (fst ?r, snd ?r)" by (simp add: me6_startdma_def Let_def m2(1))
    show "fst ?r \<le> 0" using start_poll_same by blast
    show "chan_running cp bs d (snd ?r)" using m2(2) chan_running_same [OF s2] by blast
    show "same_progress (chans m cp) (chans (snd ?r) cp)"
      using m2(3) unfolding same_dma_fields [OF s1] same_dma_fields [OF s2] .
    show "heads (snd ?r) = heads m" "dma_fifo_length (snd ?r) = dma_fifo_length m"
      using m2(4,5) unfolding same_dma_fields [OF s1] same_dma_fields [OF s2] .
  qed
qed

text \<open>May the head be attached to the channel?\<close>

definition head_available :: "chan_ptr \<Rightarrow> head_ptr \<Rightarrow> 'hw siso_menable \<Rightarrow> bool" where
  "head_available cp hp m \<longleftrightarrow> (case head_chan (heads m hp) of
      None \<Rightarrow> True
    | Some cp' \<Rightarrow> state (chans m cp) = MEN_DMA_CHAN_STATE_STOPPED
               \<and> state (chans m cp') = MEN_DMA_CHAN_STATE_STOPPED)"

lemma upd_same [simp]: "chans (upd_chan cp f m) p = (if p = cp then f (chans m p) else chans m p)"
  "heap (upd_chan cp f m) = heap m" "heads (upd_chan cp f m) = heads m"
  "dma_fifo_length (upd_chan cp f m) = dma_fifo_length m"
  "threadgroups (upd_chan cp f m) = threadgroups m"
  "dmachannels (upd_chan cp f m) = dmachannels m" "dmacnt (upd_chan cp f m) = dmacnt m"
  "hw (upd_chan cp f m) = hw m"
  by (simp_all add: upd_chan_def)

lemma state_fg_setup [simp]: "state (fg_setup fgr c) = state c"
  by (simp add: fg_setup_def)

lemma head_available_upd:
  "(\<And>c. state (f c) = state c) \<Longrightarrow> head_available cp hp (upd_chan p f m) = head_available cp hp m"
  by (auto simp: head_available_def split: option.split)

lemma clean_sync_stopping:
  assumes "state (chans m cp) = MEN_DMA_CHAN_STATE_STOPPING" "\<And>m. same_dma m (stopdma ops cp m)"
  obtains m' where "men_dma_clean_sync ops cp m = Some m'"
    "state (chans m' cp) = MEN_DMA_CHAN_STATE_STOPPED" "transfer_todo (chans m' cp) = 0"
    "\<And>bs d. chan_running cp bs d m \<Longrightarrow> chan_running cp bs d m'"
    "\<And>bs d. chan_wf (chans m cp) (heap m) bs d \<Longrightarrow> chan_wf (chans m' cp) (heap m') bs d"
    "active (chans m' cp) = active (chans m cp)" "heads m' = heads m"
    "dma_fifo_length m' = dma_fifo_length m"
    "\<forall>w\<in>set (wait_list (chans m' cp)). completed w"
proof -
  let ?f = "\<lambda>c. complete_all (c\<lparr>timer_armed := False, state := MEN_DMA_CHAN_STATE_STOPPED,
                               transfer_todo := 0\<rparr>)"
  let ?m = "upd_chan cp ?f (stopdma ops cp m)"
  note s = assms(2) [of m]
  have f: "lst k (?f c) = lst k c" "cnt k (?f c) = cnt k c" for k c
    by (cases k; simp add: complete_all_def)+
  have eq: "men_dma_clean_sync ops cp m = Some ?m"
    using assms(1) by (simp add: men_dma_clean_sync_def)
  have run: "chan_running cp bs d ?m" if "chan_running cp bs d m" for bs d
  proof (rule chan_running_upd [OF _ f])
    show "chan_running cp bs d (stopdma ops cp m)" using that chan_running_same [OF s] by blast
  qed (simp add: complete_all_def)
  have wf: "chan_wf (chans ?m cp) (heap ?m) bs d" if "chan_wf (chans m cp) (heap m) bs d" for bs d
    using chan_wf_upd [OF that, of "?f (chans m cp)"] f
    by (simp add: same_dma_fields [OF s])
  show ?thesis
    by (rule that [OF eq _ _ run wf])
      (auto simp: complete_all_def same_dma_fields [OF s])
qed

section \<open>Properties of a start\<close>

text \<open>
  What the code above a DMA engine relies on: stopping leaves the buffers alone, and a start on a channel that is
  ready hands buffers to the engine or fails, whatever the device answers. The boards provide it.
\<close>

locale dma_engine =
  fixes ops :: "'hw board_ops"
  assumes stop_same: "same_dma m (stopdma ops cp m)"
    and start_runs: "chan_running cp bs d m \<Longrightarrow>
      \<exists>ret m'. startdma ops cp m = Some (ret, m') \<and> ret \<le> 0 \<and> chan_running cp bs d m'
        \<and> same_progress (chans m cp) (chans m' cp)"
begin

lemma start_transfer_spec:
  assumes check: "fg_check fgr tsize m = Inr (hp, cp)"
    and idle: "state (chans m cp) \<noteq> MEN_DMA_CHAN_STATE_STOPPING"
    and avail: "head_available cp hp m"
    and ok: "head_ok (heads m hp) (heap m)" and fifo: "0 < dma_fifo_length m"
  shows "\<exists>ret m'. fg_start_transfer ops env tgid fgr tsize m = Some (ret, m')
     \<and> chan_running cp (set (present (bufs (heads m hp)))) (dummybuf (heads m hp)) m'
     \<and> active (chans m' cp) = Some hp
     \<and> (ret = 0 \<and> state (chans m' cp) = MEN_DMA_CHAN_STATE_STARTED
          \<and> transfer_todo (chans m' cp)
            = (if fg_transfer_todo fgr = -1 then LLONG_MAX else fg_transfer_todo fgr)
        \<or> ret < 0 \<and> state (chans m' cp) = MEN_DMA_CHAN_STATE_STOPPED \<and> transfer_todo (chans m' cp) = 0)"
proof -
  let ?B = "set (present (bufs (heads m hp)))" and ?d = "dummybuf (heads m hp)"
  define m0 where "m0 = upd_chan cp (fg_setup fgr) m"
  define m3 where "m3 = attach_head cp hp (nat (fg_start_buf fgr)) m0"
  have ok0: "head_ok (heads m0 hp) (heap m0)" using ok by (simp add: m0_def)
  note at = attach_head_spec [OF ok0 m3_def]
  have "hot_count (chans m3 cp) = 0" using cnt_zero_iff [OF at(1), of HOT_LIST] at(3) by simp
  then have run3: "chan_running cp ?B ?d m3"
    using at(1,2,5,6) fifo by (simp add: chan_running_def running_ok_def m0_def)
  have guard: "\<not> (case head_chan (heads m0 hp) of None \<Rightarrow> False
        | Some cp' \<Rightarrow> state (chans m0 cp) \<noteq> MEN_DMA_CHAN_STATE_STOPPED
                     \<or> state (chans m0 cp') \<noteq> MEN_DMA_CHAN_STATE_STOPPED)"
    using avail by (auto simp: head_available_def m0_def split: option.splits)
  have failed: "\<exists>m'. men_dma_clean_sync ops cp (upd_chan cp (\<lambda>c. c\<lparr>state := MEN_DMA_CHAN_STATE_STOPPING\<rparr>) mx)
        = Some m' \<and> chan_running cp ?B ?d m' \<and> active (chans m' cp) = Some hp
        \<and> state (chans m' cp) = MEN_DMA_CHAN_STATE_STOPPED \<and> transfer_todo (chans m' cp) = 0"
    if "chan_running cp ?B ?d mx" "active (chans mx cp) = Some hp" for mx
  proof -
    let ?my = "upd_chan cp (\<lambda>c. c\<lparr>state := MEN_DMA_CHAN_STATE_STOPPING\<rparr>) mx"
    have "chan_running cp ?B ?d ?my"
    proof (rule chan_running_upd [OF that(1)])
      show "lst k (c\<lparr>state := MEN_DMA_CHAN_STATE_STOPPING\<rparr>) = lst k c"
        "cnt k (c\<lparr>state := MEN_DMA_CHAN_STATE_STOPPING\<rparr>) = cnt k c" for k c
        by (cases k; simp)+
    qed simp
    moreover have "state (chans ?my cp) = MEN_DMA_CHAN_STATE_STOPPING" by simp
    moreover have "active (chans ?my cp) = Some hp" using that(2) by simp
    ultimately show ?thesis by (metis clean_sync_stopping [OF _ stop_same])
  qed
  let ?go = "startdma ops cp m3"
  obtain r m4 where s: "?go = Some (r, m4)" "r \<le> 0" "chan_running cp ?B ?d m4"
      "same_progress (chans m3 cp) (chans m4 cp)"
    using start_runs [OF run3] by blast
  have act4: "active (chans m4 cp) = Some hp" using s(4) at(2) by (simp add: same_progress_def)
  have start: "fg_start_transfer ops env tgid fgr tsize m = fg_start_idle ops tgid fgr hp cp m"
    using check idle by (simp add: fg_start_transfer_def)
  show ?thesis
  proof (cases "ready_count (chans m3 cp) = 0 \<and> mode (chans m3 cp) \<noteq> DMA_SELECTIVEMODE")
    case True
    then have "men_start_dma ops tgid cp hp (nat (fg_start_buf fgr)) m0
        = Some (- ENODEV, upd_chan cp (\<lambda>c. c\<lparr>state := MEN_DMA_CHAN_STATE_STOPPING\<rparr>) m3)"
      using guard by (simp add: men_start_dma_def m3_def [symmetric] Let_def)
    then show ?thesis
      using failed [OF run3 at(2)] unfolding start
      by (auto simp: fg_start_idle_def m0_def [symmetric])
  next
    case nonempty: False
    show ?thesis
    proof (cases "r = 0")
      case False
      then have "men_start_dma ops tgid cp hp (nat (fg_start_buf fgr)) m0
          = Some (r, upd_chan cp (\<lambda>c. c\<lparr>state := MEN_DMA_CHAN_STATE_STOPPING\<rparr>) m4)"
        using guard nonempty s(1) by (auto simp: men_start_dma_def m3_def [symmetric] Let_def)
      then show ?thesis
        using failed [OF s(3) act4] False s(2) unfolding start
        by (auto simp: fg_start_idle_def m0_def [symmetric])
    next
      case True
      define m5 where "m5 = (case me_get_threadgroup tgid m4 of
                             None \<Rightarrow> m4
                           | Some t \<Rightarrow> m4\<lparr>threadgroups := (threadgroups m4)(t :=
                               (threadgroups m4 t)\<lparr>tg_dmas := \<lambda>i j.
                                  if i = fpga (chans m4 cp) \<and> j = number (chans m4 cp) then 1
                                  else tg_dmas (threadgroups m4 t) i j\<rparr>)\<rparr>)"
      have todo: "transfer_todo (chans m4 cp)
          = (if fg_transfer_todo fgr = -1 then LLONG_MAX else fg_transfer_todo fgr)"
        using s(4) at(8) by (simp add: same_progress_def m0_def fg_setup_def)
      have m5: "chan_running cp ?B ?d m5" "active (chans m5 cp) = Some hp"
          "transfer_todo (chans m5 cp) = transfer_todo (chans m4 cp)"
        using s(3) act4 by (simp_all add: m5_def chan_running_def split: option.split)
      define f :: "menable_dmachan \<Rightarrow> menable_dmachan" where "f = (\<lambda>c. if chan_timeout (chans m5 cp) \<noteq> 0
          then c\<lparr>timer_armed := True, state := MEN_DMA_CHAN_STATE_STARTED\<rparr>
          else c\<lparr>state := MEN_DMA_CHAN_STATE_STARTED\<rparr>)"
      have f: "lst k (f c) = lst k c" "cnt k (f c) = cnt k c" "active (f c) = active c"
          "state (f c) = MEN_DMA_CHAN_STATE_STARTED" "transfer_todo (f c) = transfer_todo c" for k c
        by (cases k; simp add: f_def)+
      have "men_start_dma ops tgid cp hp (nat (fg_start_buf fgr)) m0
          = Some (0, upd_chan cp f m5)"
        using guard nonempty s(1) True
        by (auto simp: men_start_dma_def m3_def [symmetric] Let_def m5_def [symmetric] f_def
            upd_chan_def)
      moreover have "chan_running cp ?B ?d (upd_chan cp f m5)"
        by (rule chan_running_upd [OF m5(1) f(1-3)])
      ultimately show ?thesis
        using m5(2,3) todo f unfolding start by (auto simp: fg_start_idle_def m0_def [symmetric])
    qed
  qed
qed

end

interpretation me6_dma: dma_engine "me6_ops ri" for ri
proof
  show "same_dma m (stopdma (me6_ops ri) cp m)" for m cp by (simp add: me6_ops_def me6_stopdma_same)
  show "\<exists>ret m'. startdma (me6_ops ri) cp m = Some (ret, m') \<and> ret \<le> 0 \<and> chan_running cp bs d m'
      \<and> same_progress (chans m cp) (chans m' cp)" if "chan_running cp bs d m" for cp bs d m
    by (rule me6_startdma_spec [OF that, of ri]) (simp add: me6_ops_def)
qed



end
