(* ===== verification/Dma_Irq_Props.thy ===== *)
theory Dma_Irq_Props
  imports Dma_Me6_Props
begin

text \<open>
  The mE6 completion interrupt, the end of an acquisition, and what goes wrong when one buffer
  head is given to two channels.
\<close>

section \<open>One frame\<close>

lemma move_hot_progress:
  assumes "men_move_hot ts c h = Some (b, c', h')" "active c \<noteq> None"
  shows "active c' = active c" "wait_list c' = wait_list c" "state c' = state c"
    "chan_timeout c' = chan_timeout c" "number c' = number c"
proof -
  have "active c' = active c \<and> wait_list c' = wait_list c \<and> state c' = state c
      \<and> chan_timeout c' = chan_timeout c \<and> number c' = number c"
  proof (cases "hot_count c = 0 \<or> hot_list c = []")
    case True
    then show ?thesis using assms by (auto simp: men_move_hot_def split: if_splits)
  next
    case False
    then obtain sb xs where "hot_list c = sb # xs" "hot_count c \<noteq> 0" by (cases "hot_list c") auto
    then show ?thesis
      using assms by (auto simp: men_move_hot_def Let_def list_del_def list_move_tail_def
          move_hot_target_def split: if_splits)
  qed
  then show "active c' = active c" "wait_list c' = wait_list c" "state c' = state c"
    "chan_timeout c' = chan_timeout c" "number c' = number c" by simp_all
qed

text \<open>Taking the oldest hot buffer off a channel, and noting what arrived in it.\<close>

lemma move_hot_chan_spec:
  assumes "chan_running cp bs d m"
  obtains b m1 where "on_chan_ret cp (men_move_hot ts) m = Some (b, m1)" "chan_running cp bs d m1"
    "wait_list (chans m1 cp) = wait_list (chans m cp)" "state (chans m1 cp) = state (chans m cp)"
proof -
  let ?c = "chans m cp" and ?h = "heap m"
  note ok = assms [unfolded chan_running_def]
  obtain f c' h' k where st: "queue_step (dma_fifo_length m) (heads m) (MoveHot ts) ?c ?h = Some (f, c', h')"
      "running_ok (dma_fifo_length m) (heads m) c' h' bs d"
    by (rule queue_step_spec [OF ok, of "MoveHot ts"]) (auto simp: op_ok_def)
  then obtain b where mv: "men_move_hot ts ?c ?h = Some (b, c', h')" by auto
  note pr = move_hot_progress [OF mv running_okD(4) [OF ok]]
  show thesis
    using that [of b "m\<lparr>chans := (chans m)(cp := c'), heap := h'\<rparr>"] mv st(2) pr
    by (simp add: on_chan_ret_def chan_running_def)
qed

lemma note_frame_running:
  assumes "chan_running cp bs d m" "\<And>b. listname (f b) = listname b" "\<And>b. index (f b) = index b"
  shows "chan_running cp bs d (m\<lparr>heap := (heap m)(x := f (heap m x))\<rparr>)"
proof -
  have "chan_wf (chans m cp) ((heap m)(x := f (heap m x))) bs d = chan_wf (chans m cp) (heap m) bs d"
    by (rule chan_wf_cong) (simp_all add: assms(2,3))
  then show ?thesis using assms(1) by (simp add: chan_running_def running_ok_def)
qed

lemma irq_frame_spec:
  assumes "chan_running cp bs d m"
  obtains m' where "irq_frame ri ts cp m = Some m'" "chan_running cp bs d m'"
    "wait_list (chans m' cp) = wait_list (chans m cp)" "state (chans m' cp) = state (chans m cp)"
proof -
  obtain b m1 where m1: "on_chan_ret cp (men_move_hot ts) m = Some (b, m1)" "chan_running cp bs d m1"
    "wait_list (chans m1 cp) = wait_list (chans m cp)" "state (chans m1 cp) = state (chans m cp)"
    by (rule move_hot_chan_spec [OF assms])
  obtain len m2 where r2: "reg_read ri (iobase (chans m1 cp) + ME6_REG_DMA_LENGTH) m1 = (len, m2)"
    by (cases "reg_read ri (iobase (chans m1 cp) + ME6_REG_DMA_LENGTH) m1") auto
  obtain tag m3 where r3: "reg_read ri (iobase (chans m1 cp) + ME6_REG_DMA_TAG) m2 = (tag, m3)"
    by (cases "reg_read ri (iobase (chans m1 cp) + ME6_REG_DMA_TAG) m2") auto
  have s2: "same_dma m1 m2" using reg_read_same [of m1 ri "iobase (chans m1 cp) + ME6_REG_DMA_LENGTH"] r2 by simp
  have s3: "same_dma m1 m3"
    using same_dma_trans [OF s2, of m3] reg_read_same [of m2 ri "iobase (chans m1 cp) + ME6_REG_DMA_TAG"] r3 by simp
  have run3: "chan_running cp bs d m3" using m1(2) chan_running_same [OF s3] by blast
  let ?g = "\<lambda>b. b\<lparr>dma_length := ucast len, dma_tag := tag, frame_number := latest_frame_number (chans m3 cp)\<rparr>"
  let ?m4 = "case b of None \<Rightarrow> m3 | Some x \<Rightarrow> if index (heap m3 x) = -1 then m3
    else m3\<lparr>heap := (heap m3)(x := ?g (heap m3 x))\<rparr>"
  have res: "irq_frame ri ts cp m = Some ?m4"
    using same_dma_fields [OF s2] by (simp add: irq_frame_def m1(1) r2 r3 split: option.split)
  have "chan_running cp bs d ?m4"
    using run3 note_frame_running [OF run3, of ?g] by (simp split: option.split)
  moreover have "chans ?m4 cp = chans m1 cp" by (simp add: same_dma_fields [OF s3] split: option.split)
  ultimately show ?thesis using that [OF res] m1(3,4) by simp
qed

lemma irq_frames_spec:
  assumes "chan_running cp bs d m"
  obtains m' where "irq_frames ri ts cp n m = Some m'" "chan_running cp bs d m'"
    "wait_list (chans m' cp) = wait_list (chans m cp)" "state (chans m' cp) = state (chans m cp)"
proof -
  have "\<exists>m'. irq_frames ri ts cp n m = Some m' \<and> chan_running cp bs d m'
     \<and> wait_list (chans m' cp) = wait_list (chans m cp) \<and> state (chans m' cp) = state (chans m cp)"
    using assms
  proof (induction n arbitrary: m)
    case (Suc n)
    obtain m1 where m1: "irq_frame ri ts cp m = Some m1" "chan_running cp bs d m1"
        "wait_list (chans m1 cp) = wait_list (chans m cp)" "state (chans m1 cp) = state (chans m cp)"
      by (rule irq_frame_spec [OF Suc.prems])
    from Suc.IH [OF m1(2)] show ?case by (simp add: m1)
  qed simp
  with that show ?thesis by blast
qed

section \<open>The interrupt\<close>

lemma complete_reached_spec:
  "lst k (complete_reached c) = lst k c" "cnt k (complete_reached c) = cnt k c"
  "active (complete_reached c) = active c" "goodcnt (complete_reached c) = goodcnt c"
  "transfer_todo (complete_reached c) = transfer_todo c" "state (complete_reached c) = state c"
  by (cases k; simp add: complete_reached_def)+

lemma complete_reached_wakes:
  "w \<in> set (wait_list (complete_reached c)) \<Longrightarrow> frame w \<le> goodcnt c \<Longrightarrow> completed w"
proof -
  assume w: "w \<in> set (wait_list (complete_reached c))" "frame w \<le> goodcnt c"
  then have "w \<in> (\<lambda>w. if frame w \<le> goodcnt c then w\<lparr>completed := True\<rparr> else w) ` set (wait_list c)"
    by (simp add: complete_reached_def)
  then obtain v where v: "w = (if frame v \<le> goodcnt c then v\<lparr>completed := True\<rparr> else v)"
    by blast
  show "completed w"
  proof (cases "frame v \<le> goodcnt c")
    case False
    then show ?thesis using v w(2) by simp
  qed (simp add: v)
qed

lemma irq_finish_spec:
  assumes "chan_running cp bs d m"
  obtains m' where "irq_finish cp new m = Some m'" "chan_running cp bs d m'"
    "\<forall>w\<in>set (wait_list (chans m' cp)). frame w \<le> goodcnt (chans m' cp) \<longrightarrow> completed w"
    "if transfer_todo (chans m' cp) > 0 then state (chans m' cp) = state (chans m cp)
     else state (chans m' cp) = MEN_DMA_CHAN_STATE_STOPPING \<and> dwork_scheduled (chans m' cp)"
proof -
  let ?m3 = "upd_chan cp complete_reached m"
  have run3: "chan_running cp bs d ?m3" by (rule chan_running_upd [OF assms complete_reached_spec(1-3)])
  have woken: "\<forall>w\<in>set (wait_list (chans ?m3 cp)). frame w \<le> goodcnt (chans ?m3 cp) \<longrightarrow> completed w"
    using complete_reached_wakes complete_reached_spec(4) [of "chans m cp"] by auto
  have st3: "state (chans ?m3 cp) = state (chans m cp)" by (simp add: complete_reached_spec)
  show ?thesis
  proof (cases "transfer_todo (chans ?m3 cp) > 0")
    case todo: True
    obtain m4 where m4: "(if new then queue_max_chan cp ?m3 else Some ?m3) = Some m4"
        "chan_running cp bs d m4" "same_progress (chans ?m3 cp) (chans m4 cp)"
    proof (cases new)
      case True
      from queue_max_chan_spec [OF run3] obtain m4 where
        "queue_max_chan cp ?m3 = Some m4" "chan_running cp bs d m4"
        "same_progress (chans ?m3 cp) (chans m4 cp)" by metis
      then show thesis using that True by simp
    qed (use that [of ?m3] run3 in \<open>simp add: same_progress_def\<close>)
    let ?f = "\<lambda>c. if chan_timeout (chans m4 cp) \<noteq> 0 then c\<lparr>timer_armed := True\<rparr> else c"
    have f: "lst k (?f c) = lst k c" "cnt k (?f c) = cnt k c" "active (?f c) = active c" for k c
      by (cases k; simp)+
    have e: "irq_finish cp new m = Some (upd_chan cp ?f m4)"
      unfolding irq_finish_def Let_def m4(1) using todo by (simp add: upd_chan_def)
    have "transfer_todo (chans m4 cp) > 0" "state (chans m4 cp) = state (chans m cp)"
      "\<forall>w\<in>set (wait_list (chans m4 cp)). frame w \<le> goodcnt (chans m4 cp) \<longrightarrow> completed w"
      using m4(3) todo st3 woken unfolding same_progress_def by metis+
    then show ?thesis using that [OF e chan_running_upd [OF m4(2) f]] by auto
  next
    case False
    let ?f = "\<lambda>c. c\<lparr>state := MEN_DMA_CHAN_STATE_STOPPING, dwork_scheduled := True\<rparr>"
    have f: "lst k (?f c) = lst k c" "cnt k (?f c) = cnt k c" "active (?f c) = active c" for k c
      by (cases k; simp)+
    have e: "irq_finish cp new m = Some (upd_chan cp ?f ?m3)"
      unfolding irq_finish_def Let_def using False by simp
    show ?thesis using that [OF e chan_running_upd [OF run3 f]] False woken by auto
  qed
qed

text \<open>
  C4: A completion interrupt on a running channel reaches no undefined behaviour whatever the
  device reports, and leaves the queues well formed and within the DMA fifo. Without an overflow
  every waiter whose frame has arrived is woken, and the channel is told to stop, with
  the shutdown work scheduled, exactly when nothing is left to transfer.
\<close>

theorem dma_irq_keeps_running_and_wakes_waiters:
  assumes "men_dma_channel idx m = Some cp" "chan_running cp bs d m"
  shows "\<exists>m'. me6_dma_irq ri ts idx m = Some m' \<and> chan_running cp bs d m'
     \<and> (fst (ri_read ri (ME6_REG_IRQ_DMA_0_COUNT + idx) (hw m)) AND ME6_IRQ_DMA_OVERFLOW = 0 \<longrightarrow>
          (\<forall>w\<in>set (wait_list (chans m' cp)). frame w \<le> goodcnt (chans m' cp) \<longrightarrow> completed w)
        \<and> (if transfer_todo (chans m' cp) > 0 then state (chans m' cp) = state (chans m cp)
           else state (chans m' cp) = MEN_DMA_CHAN_STATE_STOPPING \<and> dwork_scheduled (chans m' cp)))"
proof -
  obtain p m1 where r: "reg_read ri (ME6_REG_IRQ_DMA_0_COUNT + idx) m = (p, m1)"
    by (cases "reg_read ri (ME6_REG_IRQ_DMA_0_COUNT + idx) m") auto
  have s1: "same_dma m m1" using reg_read_same [of m ri "ME6_REG_IRQ_DMA_0_COUNT + idx"] r by simp
  have p: "fst (ri_read ri (ME6_REG_IRQ_DMA_0_COUNT + idx) (hw m)) = p"
    using reg_read_fst [of ri "ME6_REG_IRQ_DMA_0_COUNT + idx" m] r by simp
  have run1: "chan_running cp bs d m1" using assms(2) chan_running_same [OF s1] by blast
  show ?thesis
  proof (cases "p AND ME6_IRQ_DMA_OVERFLOW = 0")
    case False
    let ?f = "\<lambda>c. c\<lparr>lost_count := lost_count c + 1\<rparr>"
    have f: "lst k (?f c) = lst k c" "cnt k (?f c) = cnt k c" for k c by (cases k; simp)+
    have "chan_running cp bs d (upd_chan cp ?f m1)"
      by (rule chan_running_upd [OF run1 f]) simp
    then show ?thesis
      using False assms(1) r by (simp add: me6_dma_irq_def p Let_def)
  next
    case True
    let ?n = "unat (ME6_IRQ_DMA_GET_COUNT p)"
    obtain a where act: "active (chans m1 cp) = Some a"
      using running_okD(4) [OF run1 [unfolded chan_running_def]] by blast
    obtain m2 where m2: "irq_frames ri ts cp ?n m1 = Some m2" "chan_running cp bs d m2"
        "wait_list (chans m2 cp) = wait_list (chans m1 cp)" "state (chans m2 cp) = state (chans m1 cp)"
      by (rule irq_frames_spec [OF run1])
    have irq: "me6_dma_irq ri ts idx m = irq_finish cp (?n \<noteq> 0) m2"
      using True act m2(1) assms(1) r by (simp add: me6_dma_irq_def Let_def)
    have st: "state (chans m2 cp) = state (chans m cp)" using m2(4) by (simp add: same_dma_fields [OF s1])
    show ?thesis unfolding irq p
      by (rule irq_finish_spec [OF m2(2), of "?n \<noteq> 0"]) (use st in auto)
  qed
qed

text \<open>The example board with channel 0 running on head 0; its interrupt reports two frames.\<close>

definition busy_board :: "unit siso_menable" where
  "busy_board = demo_board\<lparr>chans := (\<lambda>p. if p = 0 then demo_chan else idle_chan p),
     heap := demo_heap, heads := (\<lambda>p. demo_heads p)\<rparr>"

lemma busy_running: "chan_running 0 {0, 1, 2, 3} 9 busy_board"
  using demo_running by (simp add: chan_running_def busy_board_def demo_board_def)

lemma dma_irq_keeps_running_and_wakes_waiters_witness:
  "men_dma_channel 0 busy_board = Some 0
   \<and> (\<exists>m'. me6_dma_irq demo_ri demo_ts 0 busy_board = Some m' \<and> chan_running 0 {0, 1, 2, 3} 9 m')"
proof
  show c: "men_dma_channel 0 busy_board = Some 0" by code_simp
  show "\<exists>m'. me6_dma_irq demo_ri demo_ts 0 busy_board = Some m' \<and> chan_running 0 {0, 1, 2, 3} 9 m'"
    using dma_irq_keeps_running_and_wakes_waiters [OF c busy_running, of demo_ri demo_ts] by blast
qed

section \<open>Stopping\<close>

text \<open>
  C35: Stopping a started channel with something left to transfer and running the scheduled work
  stops the channel, clears the rest of the transfer and wakes every waiter; but a started
  channel whose remaining count is not positive is left untouched.
\<close>

theorem stop_and_work_stop_the_channel:
  assumes "state (chans m cp) = MEN_DMA_CHAN_STATE_STARTED"
  shows "if transfer_todo (chans m cp) > 0
     then \<exists>m'. men_dma_done_work (me6_ops ri) cp (men_stop_dma cp m) = Some m'
            \<and> state (chans m' cp) = MEN_DMA_CHAN_STATE_STOPPED \<and> transfer_todo (chans m' cp) = 0
            \<and> (\<forall>w\<in>set (wait_list (chans m' cp)). completed w)
     else men_stop_dma cp m = m"
proof (cases "transfer_todo (chans m cp) > 0")
  case True
  let ?m = "upd_chan cp (\<lambda>c. c\<lparr>dwork_scheduled := False\<rparr>) (men_stop_dma cp m)"
  have st: "state (chans ?m cp) = MEN_DMA_CHAN_STATE_STOPPING"
    using assms True by (simp add: men_stop_dma_def men_stop_dma_locked_def)
  obtain m' where "men_dma_clean_sync (me6_ops ri) cp ?m = Some m'"
      "state (chans m' cp) = MEN_DMA_CHAN_STATE_STOPPED" "transfer_todo (chans m' cp) = 0"
      "\<forall>w\<in>set (wait_list (chans m' cp)). completed w"
    by (rule clean_sync_stopping [OF st me6_dma.stop_same])
  then show ?thesis using True st by (simp add: men_dma_done_work_def Let_def)
next
  case False
  then have "men_stop_dma_locked (chans m cp) = chans m cp" by (simp add: men_stop_dma_locked_def)
  then show ?thesis using False assms by (simp add: men_stop_dma_def upd_chan_def)
qed

lemma stop_and_work_stop_the_channel_witness:
  "\<exists>m'. men_dma_done_work (me6_ops demo_ri) 0 (men_stop_dma 0 busy_board) = Some m'
     \<and> state (chans m' 0) = MEN_DMA_CHAN_STATE_STOPPED"
  using stop_and_work_stop_the_channel [of busy_board 0 demo_ri]
  by (auto simp: busy_board_def demo_board_def demo_chan_def)

text \<open>
  A negative transfer count other than -1 passes the checks of \<^verbatim>\<open>fg_start_transfer\<close>; the channel
  is started with that count, no buffer is ever handed to the board, and \<^verbatim>\<open>men_stop_dma\<close> has no
  effect on it: the channel stays started.
\<close>

theorem negative_transfer_count_cannot_be_stopped:
  assumes "fg_check fgr tsize m = Inr (hp, cp)"
    and "state (chans m cp) \<noteq> MEN_DMA_CHAN_STATE_STOPPING" "head_available cp hp m"
    and "head_ok (heads m hp) (heap m)" "0 < dma_fifo_length m"
    and neg: "fg_transfer_todo fgr < -1"
  shows "\<exists>ret m'. fg_start_transfer (me6_ops ri) env tgid fgr tsize m = Some (ret, m')
     \<and> (ret = 0 \<and> state (chans m' cp) = MEN_DMA_CHAN_STATE_STARTED \<and> men_stop_dma cp m' = m'
          \<and> queue_max_chan cp m' = Some m'
        \<or> ret < 0 \<and> state (chans m' cp) = MEN_DMA_CHAN_STATE_STOPPED)"
proof -
  obtain ret m' where st: "fg_start_transfer (me6_ops ri) env tgid fgr tsize m = Some (ret, m')"
      "ret = 0 \<and> state (chans m' cp) = MEN_DMA_CHAN_STATE_STARTED
          \<and> transfer_todo (chans m' cp) = fg_transfer_todo fgr
       \<or> ret < 0 \<and> state (chans m' cp) = MEN_DMA_CHAN_STATE_STOPPED"
    using me6_dma.start_transfer_spec [OF assms(1-5), of ri env tgid] neg by auto
  have "men_stop_dma cp m' = m' \<and> queue_max_chan cp m' = Some m'"
    if todo: "transfer_todo (chans m' cp) = fg_transfer_todo fgr"
  proof
    have "men_stop_dma_locked (chans m' cp) = chans m' cp"
      using todo neg by (simp add: men_stop_dma_locked_def)
    then show "men_stop_dma cp m' = m'" by (simp add: men_stop_dma_def upd_chan_def)
    have "uint (hot_count (chans m' cp)) \<ge> 0" by simp
    then have "\<not> transfer_todo (chans m' cp) > uint (hot_count (chans m' cp))"
      using todo neg by linarith
    then show "queue_max_chan cp m' = Some m'"
      by (simp add: queue_max_chan_def on_chan_def men_dma_queue_max_def)
  qed
  then show ?thesis using st by auto
qed

lemma negative_transfer_count_cannot_be_stopped_witness:
  "\<exists>ret m'. fg_start_transfer (me6_ops demo_ri) (\<lambda>m. m) 42 ((demo_fg 0 0)\<lparr>fg_transfer_todo := -5\<rparr>) 0
       demo_board = Some (ret, m')
     \<and> (ret = 0 \<and> state (chans m' 0) = MEN_DMA_CHAN_STATE_STARTED \<and> men_stop_dma 0 m' = m'
          \<and> queue_max_chan 0 m' = Some m'
        \<or> ret < 0 \<and> state (chans m' 0) = MEN_DMA_CHAN_STATE_STOPPED)"
proof (rule negative_transfer_count_cannot_be_stopped [OF _ _ _ demo_head_ok])
  show "fg_check ((demo_fg 0 0)\<lparr>fg_transfer_todo := -5\<rparr>) 0 demo_board = Inr (0, 0)" by code_simp
qed (simp_all add: demo_board_def idle_chan_def head_available_def)

text \<open>
  If the head is attached to a channel that is not stopped, or the channel was never used
  before while the head was, \<^verbatim>\<open>fg_start_transfer\<close> reaches the \<^verbatim>\<open>BUG_ON\<close> in \<^verbatim>\<open>men_dma_clean_sync\<close>:
  \<^verbatim>\<open>men_start_dma\<close> refuses with \<^verbatim>\<open>-EBUSY\<close> before it sets the state that the clean-up requires.
\<close>

theorem start_on_unavailable_head_hits_bug:
  assumes "fg_check fgr tsize m = Inr (hp, cp)"
    and "state (chans m cp) \<noteq> MEN_DMA_CHAN_STATE_STOPPING" "\<not> head_available cp hp m"
  shows "fg_start_transfer ops env tgid fgr tsize m = None"
proof -
  obtain cp' where h: "head_chan (heads m hp) = Some cp'"
      "state (chans m cp) \<noteq> MEN_DMA_CHAN_STATE_STOPPED
        \<or> state (chans m cp') \<noteq> MEN_DMA_CHAN_STATE_STOPPED"
    using assms(3) by (auto simp: head_available_def split: option.splits)
  let ?m0 = "upd_chan cp (fg_setup fgr) m"
  have "men_start_dma ops tgid cp hp (nat (fg_start_buf fgr)) ?m0 = Some (- EBUSY, ?m0)"
    using h by (auto simp: men_start_dma_def)
  then show ?thesis
    using assms(1,2) by (simp add: fg_start_transfer_def fg_start_idle_def men_dma_clean_sync_def)
qed

text \<open>Head 0 is in use by channel 0 when channel 1 is asked to start on it.\<close>

lemma start_on_unavailable_head_hits_bug_witness:
  "fg_start_transfer (me6_ops demo_ri) (\<lambda>m. m) 42 (demo_fg 1 0) 0 busy_board = None"
proof (rule start_on_unavailable_head_hits_bug)
  show "fg_check (demo_fg 1 0) 0 busy_board = Inr (0, 1)" by code_simp
  show "state (chans busy_board 1) \<noteq> MEN_DMA_CHAN_STATE_STOPPING"
    by (simp add: busy_board_def idle_chan_def)
  show "\<not> head_available 1 0 busy_board"
    by (simp add: busy_board_def demo_heads_def idle_chan_def head_available_def)
qed

end
