(* ===== verification/Dma_Ioctl.thy ===== *)
theory Dma_Ioctl
  imports Dma_Irq_Props
begin

text \<open>
  Buffers and heads as user space sees them: creation and release (\<^verbatim>\<open>linux/menable_mem.c\<close>), the
  \<^verbatim>\<open>ioctl\<close> handlers and their dispatch (\<^verbatim>\<open>linux/menable_ioctl.c\<close>, 64 bit and compat), and what closing
  the device does (\<^verbatim>\<open>linux/menable_core.c\<close>).

  An argument in user memory is a \<open>user_arg\<close>: the size coded in the command does not fit, the
  copy faults, or the structure is copied. What a handler writes back is an \<open>io_out\<close>; \<open>out_ok\<close>
  tells whether that copy succeeds. A result \<open>None\<close> is a \<^verbatim>\<open>BUG\<close> or undefined behaviour.
\<close>

section \<open>Buffers\<close>

record men_io_range =
  range_start :: u64
  range_length :: u64
  range_subnr :: int
  range_headnr :: u32

text \<open>
  \<^verbatim>\<open>men_create_userbuf\<close>. Pinning the pages, mapping them for DMA and building the board's
  scatter gather list happen between the two look-ups of the head, without the lock; their outcome
  is \<open>made\<close> (an error or the address of the new buffer), and \<open>env\<close> is what others do meanwhile.
\<close>

definition new_buf :: "men_io_range \<Rightarrow> menable_dmabuf" where
  "new_buf r = \<lparr>listname = FREE_LIST, dma_length = 0, buf_length = range_length r, dma_tag = 0,
     frame_number = 0, index = range_subnr r, timestamp = \<lparr>tv_sec = 0, tv_nsec = 0\<rparr>\<rparr>"

definition men_create_userbuf ::
    "(int + buf_id) \<Rightarrow> ('hw siso_menable \<Rightarrow> 'hw siso_menable) \<Rightarrow> men_io_range \<Rightarrow> 'hw siso_menable
     \<Rightarrow> (int \<times> 'hw siso_menable) option" where
  "men_create_userbuf made env r m =
     (if range_length r > 17179869184 then Some (- EINVAL, m)
      else if range_start r AND 3 \<noteq> 0 then Some (- EINVAL, m)
      else case me_get_buf_head (range_headnr r) m of
        None \<Rightarrow> Some (- EINVAL, m)
      | Some hp \<Rightarrow>
          if range_subnr r \<ge> num_sb (heads m hp) then Some (- EINVAL, m)
          else if range_subnr r < 0 then None
          else if bufs (heads m hp) ! nat (range_subnr r) \<noteq> None then Some (- EBUSY, m)
          else (case made of
              Inl e \<Rightarrow> Some (e, env m)
            | Inr b \<Rightarrow>
                let m1 = env m;
                    m2 = m1\<lparr>heap := (heap m1)(b := new_buf r)\<rparr>
                in case me_get_buf_head (range_headnr r) m2 of
                     None \<Rightarrow> Some (- EINVAL, m2)
                   | Some hp' \<Rightarrow>
                       if range_subnr r \<ge> num_sb (heads m2 hp') then None
                       else
                         let m3 = upd_head hp' (\<lambda>dh. dh\<lparr>bufs := (bufs dh)[nat (range_subnr r) := Some b]\<rparr>) m2
                         in Some (0, (case head_chan (heads m3 hp') of
                              None \<Rightarrow> m3
                            | Some cp \<Rightarrow> upd_chan cp (\<lambda>c. c\<lparr>free_list := free_list c @ [b],
                                           free_count := free_count c + 1\<rparr>) m3))))"

definition men_free_userbuf ::
    "head_ptr \<Rightarrow> int \<Rightarrow> 'hw siso_menable \<Rightarrow> (int \<times> 'hw siso_menable) option" where
  "men_free_userbuf hp idx m =
     (let dh = heads m hp
      in if idx < 0 \<or> idx > num_sb dh then Some (- EINVAL, m)
         else if idx = num_sb dh then None
         else case bufs dh ! nat idx of
           None \<Rightarrow> Some (- EINVAL, m)
         | Some b \<Rightarrow>
             let unlink = upd_head hp (\<lambda>dh. dh\<lparr>bufs := (bufs dh)[nat idx := None]\<rparr>)
             in (case head_chan dh of
                   None \<Rightarrow> Some (0, unlink m)
                 | Some cp \<Rightarrow>
                     let l = listname (heap m b)
                     in if state (chans m cp) \<noteq> MEN_DMA_CHAN_STATE_STOPPED \<and> l = HOT_LIST
                        then Some (- EBUSY, m)
                        else Some (0, unlink (upd_chan cp
                               (\<lambda>c. upd_cnt l (\<lambda>n. n - 1) (if l \<noteq> NO_LIST then list_del b c else c)) m))))"

section \<open>Heads\<close>

text \<open>The loop that computes one more than the highest id; \<^verbatim>\<open>next_id\<close> is compared unsigned.\<close>

definition next_head_id :: "'hw siso_menable \<Rightarrow> u32" where
  "next_head_id m = fold (\<lambda>p n. if head_id (heads m p) \<ge> n then head_id (heads m p) + 1 else n)
     (buffer_heads_list m) 0"

text \<open>\<open>made\<close>: the addresses of the new head and its dummy buffer, or the error of their creation.\<close>

definition men_create_buf_head ::
    "(int + head_ptr \<times> buf_id) \<Rightarrow> int \<Rightarrow> 'hw siso_menable \<Rightarrow> int \<times> 'hw siso_menable" where
  "men_create_buf_head made subbufs m =
     (if subbufs \<le> 0 then (- EINVAL, m)
      else case made of
        Inl e \<Rightarrow> (e, m)
      | Inr (hp, d) \<Rightarrow>
          let n = next_head_id m
          in (sint n,
              m\<lparr>heads := (heads m)(hp := \<lparr>head_id = n, bufs = replicate (nat subbufs) None,
                                       dummybuf = d, head_chan = None\<rparr>),
                num_buffer_heads := num_buffer_heads m + 1,
                buffer_heads_list := buffer_heads_list m @ [hp]\<rparr>))"

definition men_release_buf_head ::
    "head_ptr \<Rightarrow> 'hw siso_menable \<Rightarrow> int \<times> 'hw siso_menable" where
  "men_release_buf_head hp m =
     (let unlink = (\<lambda>m. m\<lparr>buffer_heads_list := removeAll hp (buffer_heads_list m),
                           num_buffer_heads := num_buffer_heads m - 1\<rparr>)
      in case head_chan (heads m hp) of
           None \<Rightarrow> (0, unlink m)
         | Some cp \<Rightarrow>
             if state (chans m cp) = MEN_DMA_CHAN_STATE_STARTED then (- EBUSY, m)
             else (0, unlink (upd_chan cp (\<lambda>c. c\<lparr>active := None\<rparr>) m)))"

section \<open>Unlocking and queueing\<close>

definition unblock_on_board ::
    "chan_ptr \<Rightarrow> buf_id option \<Rightarrow> 'hw siso_menable \<Rightarrow> 'hw siso_menable option" where
  "unblock_on_board cp b m =
     on_chan cp (\<lambda>c h. men_unblock_buffer (dma_fifo_length m) (heads m) c h b) m"

fun unblock_all ::
    "chan_ptr \<Rightarrow> buf_id option list \<Rightarrow> 'hw siso_menable \<Rightarrow> 'hw siso_menable option" where
  "unblock_all cp [] m = Some m"
| "unblock_all cp (b # bs) m =
     (case unblock_on_board cp b m of None \<Rightarrow> None | Some m1 \<Rightarrow> unblock_all cp bs m1)"

definition men_ioctl_unlock_buffer ::
    "u32 \<Rightarrow> int \<Rightarrow> 'hw siso_menable \<Rightarrow> (int \<times> 'hw siso_menable) option" where
  "men_ioctl_unlock_buffer head idx m =
     (if idx < -1 then Some (- EINVAL, m)
      else case me_get_buf_head head m of
        None \<Rightarrow> Some (- EINVAL, m)
      | Some hp \<Rightarrow>
          if idx \<ge> num_sb (heads m hp) then Some (- EINVAL, m)
          else (case head_chan (heads m hp) of
              None \<Rightarrow> Some (0, m)
            | Some cp \<Rightarrow>
                if idx = -1 then
                  (case unblock_all cp (bufs (heads m hp)) m of
                     None \<Rightarrow> None
                   | Some m1 \<Rightarrow>
                       if grabbed_count (chans m1 cp) \<noteq> 0 then None
                       else if locked_count (chans m1 cp) \<noteq> 0 then None
                       else Some (0, m1))
                else (case bufs (heads m hp) ! nat idx of
                        None \<Rightarrow> Some (- EINVAL, m)
                      | Some b \<Rightarrow> map_option (\<lambda>m1. (0, m1)) (unblock_on_board cp (Some b) m))))"

definition men_queue_buffer ::
    "u32 \<Rightarrow> u32 \<Rightarrow> 'hw siso_menable \<Rightarrow> (int \<times> 'hw siso_menable) option" where
  "men_queue_buffer head_idx buf_idx m =
     (case me_get_buf_head head_idx m of
        None \<Rightarrow> Some (- EINVAL, m)
      | Some hp \<Rightarrow>
          if uint buf_idx \<ge> num_sb (heads m hp) then Some (- EINVAL, m)
          else (case me_get_sub_buf_by_head (heads m hp) (uint buf_idx) of
              None \<Rightarrow> Some (- EINVAL, m)
            | Some b \<Rightarrow>
                let mark = (\<lambda>m. m\<lparr>heap := set_listname b READY_LIST (heap m)\<rparr>)
                in (case head_chan (heads m hp) of
                      None \<Rightarrow> Some (0, mark m)
                    | Some cp \<Rightarrow>
                        if state (chans m cp) = MEN_DMA_CHAN_STATE_STOPPED
                           \<or> state (chans m cp) = MEN_DMA_CHAN_STATE_STOPPING
                        then Some (0, mark m)
                        else if mode (chans m cp) \<noteq> DMA_SELECTIVEMODE then Some (- EINVAL, m)
                        else map_option (\<lambda>m1. (0, m1)) (queue_max_chan cp (mark
                               (upd_chan cp (\<lambda>c. let c1 = list_move_tail b READY_LIST c
                                  in c1\<lparr>free_count := free_count c1 - 1,
                                        ready_count := ready_count c1 + 1\<rparr>) m))))))"

section \<open>What user space reads\<close>

record buf_status =
  st_free :: int
  st_grabbed :: int
  st_locked :: int
  st_lost :: int
  st_is_locked :: bool

definition get_buffer_status ::
    "u32 \<Rightarrow> int \<Rightarrow> 'hw siso_menable \<Rightarrow> int + buf_status" where
  "get_buffer_status head idx m =
     (case me_get_buf_head head m of
        None \<Rightarrow> Inl (- EINVAL)
      | Some hp \<Rightarrow>
          if idx \<ge> num_sb (heads m hp) \<or> idx < -1 then Inl (- EINVAL)
          else if idx \<noteq> -1 \<and> bufs (heads m hp) ! nat idx = None then Inl (- EINVAL)
          else (case head_chan (heads m hp) of
              None \<Rightarrow> Inl (- EINVAL)
            | Some cp \<Rightarrow>
                let c = chans m cp
                in Inr \<lparr>st_free = uint (free_count c), st_grabbed = uint (grabbed_count c),
                        st_locked = uint (locked_count c), st_lost = uint (lost_count c),
                        st_is_locked = (idx \<noteq> -1 \<and>
                          (case bufs (heads m hp) ! nat idx of
                             None \<Rightarrow> False
                           | Some b \<Rightarrow> listname (heap m b) \<noteq> FREE_LIST
                                     \<and> listname (heap m b) \<noteq> READY_LIST))\<rparr>))"

abbreviation SEL_ACT_IMAGE :: u32 where "SEL_ACT_IMAGE \<equiv> 200"
abbreviation SEL_NEXT_IMAGE :: u32 where "SEL_NEXT_IMAGE \<equiv> 220"

text \<open>\<^verbatim>\<open>men_ioctl_get_handshake_dma_buffer\<close>: the index written back is -12 when no frame is there.\<close>

definition get_handshake_dma_buffer ::
    "u32 \<Rightarrow> u32 \<Rightarrow> 'hw siso_menable \<Rightarrow> (int \<times> int option \<times> 'hw siso_menable) option" where
  "get_handshake_dma_buffer head md m =
     (if md \<noteq> SEL_ACT_IMAGE \<and> md \<noteq> SEL_NEXT_IMAGE then Some (- EINVAL, None, m)
      else case me_get_buf_head head m of
        None \<Rightarrow> Some (- EINVAL, None, m)
      | Some hp \<Rightarrow>
          (case head_chan (heads m hp) of
             None \<Rightarrow> Some (- EINVAL, None, m)
           | Some cp \<Rightarrow>
               (case on_chan_ret cp (if md = SEL_ACT_IMAGE then men_last_blocked else men_next_blocked) m of
                  None \<Rightarrow> None
                | Some (sb, m1) \<Rightarrow>
                    Some (0, Some (case sb of None \<Rightarrow> -12 | Some b \<Rightarrow> index (heap m1 b)), m1))))"

section \<open>Closing the device\<close>

text \<open>The channels of a thread group: the loops of \<^verbatim>\<open>men_cleanup_threadgroup\<close>, FPGA by FPGA.\<close>

definition cleanup_tg_step ::
    "tg_ptr \<Rightarrow> nat \<Rightarrow> nat \<Rightarrow> nat \<Rightarrow> 'hw siso_menable \<Rightarrow> 'hw siso_menable option" where
  "cleanup_tg_step t j dmaskip i m =
     (if tg_dmas (threadgroups m t) j i = 1 then
        (case men_dma_channel (of_nat (dmaskip + i)) m of
           None \<Rightarrow> None
         | Some cp \<Rightarrow>
             let m1 = (if state (chans m cp) = MEN_DMA_CHAN_STATE_STARTED
                       then upd_chan cp men_stop_dma_locked m else m)
             in Some (m1\<lparr>threadgroups := (threadgroups m1)(t := (threadgroups m1 t)
                    \<lparr>tg_dmas := \<lambda>j' i'. if j' = j \<and> i' = i then 0
                                       else tg_dmas (threadgroups m1 t) j' i'\<rparr>)\<rparr>))
      else Some m)"

fun fold_opt :: "('a \<Rightarrow> 's \<Rightarrow> 's option) \<Rightarrow> 'a list \<Rightarrow> 's \<Rightarrow> 's option" where
  "fold_opt f [] s = Some s"
| "fold_opt f (x # xs) s = (case f x s of None \<Rightarrow> None | Some s1 \<Rightarrow> fold_opt f xs s1)"

definition dma_skip :: "nat \<Rightarrow> 'hw siso_menable \<Rightarrow> nat" where
  "dma_skip j m = sum_list (map unat (take j (dmacnt m)))"

definition men_cleanup_threadgroup ::
    "tg_ptr \<Rightarrow> 'hw siso_menable \<Rightarrow> 'hw siso_menable option" where
  "men_cleanup_threadgroup t m =
     map_option (me_free_threadgroup t)
       (fold_opt (\<lambda>j. fold_opt (cleanup_tg_step t j (dma_skip j m)) [0..<unat (dmacnt m ! j)])
          [0..<active_fpgas m] m)"

definition cleanup_chan_step :: "nat \<Rightarrow> nat \<Rightarrow> 'hw siso_menable \<Rightarrow> 'hw siso_menable option" where
  "cleanup_chan_step skipdma i m =
     (case men_dma_channel (of_nat (skipdma + i)) m of
        None \<Rightarrow> None
      | Some cp \<Rightarrow> Some (if state (chans m cp) = MEN_DMA_CHAN_STATE_STARTED
                         then upd_chan cp men_stop_dma_locked m else m))"

definition men_cleanup_channels :: "'hw siso_menable \<Rightarrow> 'hw siso_menable option" where
  "men_cleanup_channels m =
     fold_opt (\<lambda>j. fold_opt (cleanup_chan_step (dma_skip j m)) [0..<unat (dmacnt m ! j)])
       [0..<active_fpgas m] m"

text \<open>
  \<^verbatim>\<open>men_cleanup_mem\<close> releases every head. One that cannot be released stays linked where it was and
  is linked again into the list of heads to free, which corrupts both lists: \<open>None\<close>.
\<close>

definition men_cleanup_mem :: "'hw siso_menable \<Rightarrow> 'hw siso_menable option" where
  "men_cleanup_mem m =
     fold_opt (\<lambda>hp m. let (r, m1) = men_release_buf_head hp m in if r \<noteq> 0 then None else Some m1)
       (buffer_heads_list m) m"

text \<open>Opening and closing; \<open>tgid\<close> is the calling process, \<open>mem\<close> memory for a new thread group.\<close>

definition upd_tg :: "tg_ptr \<Rightarrow> (me_threadgroup \<Rightarrow> me_threadgroup) \<Rightarrow> 'hw siso_menable \<Rightarrow> 'hw siso_menable" where
  "upd_tg t f m = m\<lparr>threadgroups := (threadgroups m)(t := f (threadgroups m t))\<rparr>"

definition menable_open ::
    "('hw siso_menable \<Rightarrow> 'hw siso_menable) \<Rightarrow> tg_ptr option \<Rightarrow> nat \<Rightarrow> 'hw siso_menable
     \<Rightarrow> int \<times> 'hw siso_menable" where
  "menable_open startirq mem tgid m =
     (let m1 = (if use_count m = 0 then startirq m else m);
          m2 = m1\<lparr>use_count := use_count m1 + 1\<rparr>;
          (tg, m3) = (case me_get_threadgroup tgid m2 of
                        Some t \<Rightarrow> (Some t, m2)
                      | None \<Rightarrow> me_create_threadgroup mem tgid m2)
      in (0, case tg of None \<Rightarrow> m3 | Some t \<Rightarrow> upd_tg t (\<lambda>g. g\<lparr>tg_cnt := tg_cnt g + 1\<rparr>) m3))"

definition menable_release ::
    "('hw siso_menable \<Rightarrow> 'hw siso_menable) \<Rightarrow> nat \<Rightarrow> 'hw siso_menable \<Rightarrow> 'hw siso_menable option" where
  "menable_release stopirq tgid m =
     (let after_tg =
        (case me_get_threadgroup tgid m of
           None \<Rightarrow> Some m
         | Some t \<Rightarrow>
             let m1 = upd_tg t (\<lambda>g. g\<lparr>tg_cnt := tg_cnt g - 1\<rparr>) m
             in if tg_cnt (threadgroups m1 t) = 0 then men_cleanup_threadgroup t m1 else Some m1)
      in case after_tg of
           None \<Rightarrow> None
         | Some m1 \<Rightarrow>
             let m2 = m1\<lparr>use_count := use_count m1 - 1\<rparr>
             in if use_count m2 = 0
                then (case men_cleanup_channels m2 of
                        None \<Rightarrow> None
                      | Some m3 \<Rightarrow> men_cleanup_mem (stopirq m3))
                else Some m2)"

end
