(* ===== verification/Dma_Dispatch.thy ===== *)
theory Dma_Dispatch
  imports Dma_Ioctl
begin

text \<open>
  The \<^verbatim>\<open>ioctl\<close> entry points of \<^verbatim>\<open>linux/menable_ioctl.c\<close>: the checks and copies of each handler's
  argument and the dispatch on the command number, for 64 bit and for compat callers.
\<close>

section \<open>Arguments and results\<close>

datatype 'a user_arg = Wrong_Size | Fault | Copied 'a

datatype io_out =
    OutNone
  | OutTag u32
  | OutLength u64
  | OutFrameNumber u64
  | OutStamp int int
  | OutIndex int
  | OutFrame int
  | OutStatus buf_status

text \<open>User memory at the argument address, as each of the argument structures.\<close>

record user_view =
  v_create :: "(u64 \<times> int) user_arg"
  v_range :: "men_io_range user_arg"
  v_bufidx :: "(u32 \<times> int) user_arg"
  v_timestamp :: "(u32 \<times> int) user_arg"
  v_bufwait :: "(int \<times> u32 \<times> u32) user_arg"
  v_fg :: "(fg_ctrl \<times> u64) user_arg"
  v_bufstatus :: "(u32 \<times> int) user_arg"
  v_handshake :: "(u32 \<times> u32) user_arg"
  v_size_zero :: bool
  v_plain :: u32
  v_out_ok :: bool

type_synonym 'hw io_result = "(int \<times> io_out \<times> 'hw siso_menable) option"

definition with_arg :: "'a user_arg \<Rightarrow> 'hw siso_menable \<Rightarrow> ('a \<Rightarrow> 'hw io_result) \<Rightarrow> 'hw io_result" where
  "with_arg a m k = (case a of
      Wrong_Size \<Rightarrow> Some (- EINVAL, OutNone, m)
    | Fault \<Rightarrow> Some (- EFAULT, OutNone, m)
    | Copied x \<Rightarrow> k x)"

definition no_out :: "(int \<times> 'hw siso_menable) option \<Rightarrow> 'hw io_result" where
  "no_out r = map_option (\<lambda>(e, m). (e, OutNone, m)) r"

definition copy_out :: "bool \<Rightarrow> io_out \<Rightarrow> 'hw siso_menable \<Rightarrow> 'hw io_result" where
  "copy_out ok v m = Some (if ok then (0, v, m) else (- EFAULT, OutNone, m))"

text \<open>What lies outside the driver's own logic when a handler runs.\<close>

record 'hw io_env =
  made_buf :: "int + buf_id"
  made_head :: "int + head_ptr \<times> buf_id"
  others :: "'hw siso_menable \<Rightarrow> 'hw siso_menable"
  caller_tgid :: nat
  stack_addr :: nat
  board_ioctl :: "u32 \<Rightarrow> 'hw siso_menable \<Rightarrow> 'hw io_result"
  camera_control :: "'hw siso_menable \<Rightarrow> 'hw io_result"
  data_transfer :: "'hw siso_menable \<Rightarrow> 'hw io_result"
  device_status :: "'hw siso_menable \<Rightarrow> 'hw io_result"
  is_me6 :: bool

section \<open>Handlers\<close>

definition men_ioctl_allocate_virt_buffer ::
    "'hw io_env \<Rightarrow> user_view \<Rightarrow> 'hw siso_menable \<Rightarrow> 'hw io_result" where
  "men_ioctl_allocate_virt_buffer e v m =
     with_arg (v_create v) m (\<lambda>(maxsize, subbufs). no_out (Some (men_create_buf_head (made_head e) subbufs m)))"

definition men_ioctl_add_virt_user_buffer ::
    "'hw io_env \<Rightarrow> user_view \<Rightarrow> 'hw siso_menable \<Rightarrow> 'hw io_result" where
  "men_ioctl_add_virt_user_buffer e v m =
     with_arg (v_range v) m (\<lambda>r. if range_length r = 0 then Some (- EFAULT, OutNone, m)
        else no_out (men_create_userbuf (made_buf e) (others e) r m))"

definition men_ioctl_del_virt_user_buffer :: "user_view \<Rightarrow> 'hw siso_menable \<Rightarrow> 'hw io_result" where
  "men_ioctl_del_virt_user_buffer v m =
     with_arg (v_bufidx v) m (\<lambda>(headnr, idx).
       case me_get_buf_head headnr m of
         None \<Rightarrow> Some (- EINVAL, OutNone, m)
       | Some hp \<Rightarrow> no_out (men_free_userbuf hp idx m))"

definition men_ioctl_free_virt_buffer :: "user_view \<Rightarrow> 'hw siso_menable \<Rightarrow> 'hw io_result" where
  "men_ioctl_free_virt_buffer v m =
     (if \<not> v_size_zero v then Some (- EINVAL, OutNone, m)
      else case me_get_buf_head (v_plain v) m of
        None \<Rightarrow> Some (0, OutNone, m)
      | Some hp \<Rightarrow> no_out (Some (men_release_buf_head hp m)))"

definition men_ioctl_dma_time_stamp :: "user_view \<Rightarrow> 'hw siso_menable \<Rightarrow> 'hw io_result" where
  "men_ioctl_dma_time_stamp v m =
     with_arg (v_timestamp v) m (\<lambda>(head, buf).
       case me_get_sub_buf head buf m of
         None \<Rightarrow> Some (- EINVAL, OutNone, m)
       | Some b \<Rightarrow> copy_out (v_out_ok v)
           (OutStamp (tv_sec (timestamp (heap m b)) AND 0x7FFFFFFF) (tv_nsec (timestamp (heap m b)))) m)"

text \<open>\<open>1000 * ctrl.timeout\<close> only matters to the wait itself, which is \<open>others\<close>.\<close>

definition wait_for_subbuf ::
    "'hw io_env \<Rightarrow> bool \<Rightarrow> int \<Rightarrow> user_view \<Rightarrow> 'hw siso_menable \<Rightarrow> 'hw io_result" where
  "wait_for_subbuf e is32bit out_mask v m =
     with_arg (v_bufwait v) m (\<lambda>(idx, dmachan, timeout).
       if idx < - 1073741824 then Some (- EINVAL, OutNone, m)
       else case men_dma_channel dmachan m of
         None \<Rightarrow> Some (- ECHRNG, OutNone, m)
       | Some cp \<Rightarrow>
           (case men_wait_dmaimg (others e) (stack_addr e) cp idx is32bit m of
              (Inl err, m1) \<Rightarrow> Some (err, OutNone, m1)
            | (Inr f, m1) \<Rightarrow> copy_out (v_out_ok v) (OutIndex (uint f AND out_mask)) m1))"

definition men_ioctl_fg_wait_for_subbuf ::
    "'hw io_env \<Rightarrow> user_view \<Rightarrow> 'hw siso_menable \<Rightarrow> 'hw io_result" where
  "men_ioctl_fg_wait_for_subbuf e = wait_for_subbuf e False LLONG_MAX"

definition men_compat_ioctl_wait_for_subbuf32 ::
    "'hw io_env \<Rightarrow> user_view \<Rightarrow> 'hw siso_menable \<Rightarrow> 'hw io_result" where
  "men_compat_ioctl_wait_for_subbuf32 e = wait_for_subbuf e True INT_MAX"

definition men_ioctl_fg_stop_cmd :: "user_view \<Rightarrow> 'hw siso_menable \<Rightarrow> 'hw io_result" where
  "men_ioctl_fg_stop_cmd v m =
     (if \<not> v_size_zero v then Some (- EINVAL, OutNone, m)
      else case men_dma_channel (v_plain v) m of
        None \<Rightarrow> Some (- ECHRNG, OutNone, m)
      | Some cp \<Rightarrow> Some (0, OutNone, men_stop_dma cp m))"

text \<open>The 32 bit form passes the size of an image, the 64 bit form passes zero.\<close>

definition men_ioctl_fg_start_transfer ::
    "'hw board_ops \<Rightarrow> 'hw io_env \<Rightarrow> user_view \<Rightarrow> 'hw siso_menable \<Rightarrow> 'hw io_result" where
  "men_ioctl_fg_start_transfer ops e v m =
     with_arg (v_fg v) m (\<lambda>(fgr, act_size).
       no_out (fg_start_transfer ops (others e) (caller_tgid e) fgr 0 m))"

definition men_ioctl_fgstart ::
    "'hw board_ops \<Rightarrow> 'hw io_env \<Rightarrow> user_view \<Rightarrow> 'hw siso_menable \<Rightarrow> 'hw io_result" where
  "men_ioctl_fgstart ops e v m =
     with_arg (v_fg v) m (\<lambda>(fgr, act_size).
       no_out (fg_start_transfer ops (others e) (caller_tgid e) fgr act_size m))"

definition men_ioctl_get_buffer_status :: "user_view \<Rightarrow> 'hw siso_menable \<Rightarrow> 'hw io_result" where
  "men_ioctl_get_buffer_status v m =
     with_arg (v_bufstatus v) m (\<lambda>(head, idx).
       case get_buffer_status head idx m of
         Inl err \<Rightarrow> Some (err, OutNone, m)
       | Inr s \<Rightarrow> copy_out (v_out_ok v) (OutStatus s) m)"

text \<open>The 64 bit index is cut to \<^verbatim>\<open>unsigned int\<close> by the call of \<^verbatim>\<open>men_queue_buffer\<close>.\<close>

definition men_ioctl_queue_buffer :: "user_view \<Rightarrow> 'hw siso_menable \<Rightarrow> 'hw io_result" where
  "men_ioctl_queue_buffer v m =
     with_arg (v_bufstatus v) m (\<lambda>(head, idx). no_out (men_queue_buffer head (word_of_int idx) m))"

definition men_ioctl_unlock_buffer_number :: "user_view \<Rightarrow> 'hw siso_menable \<Rightarrow> 'hw io_result" where
  "men_ioctl_unlock_buffer_number v m =
     with_arg (v_bufidx v) m (\<lambda>(headnr, idx). no_out (men_ioctl_unlock_buffer headnr idx m))"

definition men_ioctl_get_handshake_dma_buffer :: "user_view \<Rightarrow> 'hw siso_menable \<Rightarrow> 'hw io_result" where
  "men_ioctl_get_handshake_dma_buffer v m =
     with_arg (v_handshake v) m (\<lambda>(head, md).
       case get_handshake_dma_buffer head md m of
         None \<Rightarrow> None
       | Some (err, None, m1) \<Rightarrow> Some (err, OutNone, m1)
       | Some (err, Some f, m1) \<Rightarrow> copy_out (v_out_ok v) (OutFrame f) m1)"

abbreviation IOCTL_DMA_LENGTH :: u32 where "IOCTL_DMA_LENGTH \<equiv> 33"
abbreviation IOCTL_DMA_TAG :: u32 where "IOCTL_DMA_TAG \<equiv> 45"
abbreviation IOCTL_DMA_FRAME_NUMBER :: u32 where "IOCTL_DMA_FRAME_NUMBER \<equiv> 46"

text \<open>
  \<^verbatim>\<open>men_ioctl_subbuf_impl\<close>: the outcome of \<^verbatim>\<open>copy_to_user\<close> is ignored, and for the frame number the
  return value is the frame number cut to \<^verbatim>\<open>int\<close>.
\<close>

definition men_ioctl_subbuf_impl ::
    "u32 \<Rightarrow> bool \<Rightarrow> u32 \<Rightarrow> int \<Rightarrow> 'hw siso_menable \<Rightarrow> 'hw io_result" where
  "men_ioctl_subbuf_impl nr ok head idx m =
     (case me_get_sub_buf head idx m of
        None \<Rightarrow> Some (- EINVAL, OutNone, m)
      | Some b \<Rightarrow>
          let w = (\<lambda>x. if ok then x else OutNone)
          in if nr = IOCTL_DMA_TAG then Some (0, w (OutTag (dma_tag (heap m b))), m)
             else if nr = IOCTL_DMA_LENGTH then Some (0, w (OutLength (dma_length (heap m b))), m)
             else if nr = IOCTL_DMA_FRAME_NUMBER
             then Some (sint (ucast (frame_number (heap m b)) :: u32),
                        w (OutFrameNumber (frame_number (heap m b))), m)
             else Some (- ENOTTY, OutNone, m))"

definition men_ioctl_subbuf :: "u32 \<Rightarrow> user_view \<Rightarrow> 'hw siso_menable \<Rightarrow> 'hw io_result" where
  "men_ioctl_subbuf nr v m =
     with_arg (v_bufidx v) m (\<lambda>(head, idx). men_ioctl_subbuf_impl nr (v_out_ok v) head idx m)"

section \<open>Dispatch\<close>

abbreviation IOCTL_EX_GET_INTERFACE_VERSION :: u32 where "IOCTL_EX_GET_INTERFACE_VERSION \<equiv> 64"
abbreviation IOCTL_EX_GET_DEVICE_STATUS :: u32 where "IOCTL_EX_GET_DEVICE_STATUS \<equiv> 65"
abbreviation IOCTL_EX_CONFIGURE_FPGA :: u32 where "IOCTL_EX_CONFIGURE_FPGA \<equiv> 69"
abbreviation IOCTL_EX_DATA_TRANSFER :: u32 where "IOCTL_EX_DATA_TRANSFER \<equiv> 70"
abbreviation IOCTL_EX_CAMERA_CONTROL :: u32 where "IOCTL_EX_CAMERA_CONTROL \<equiv> 71"
abbreviation IOCTL_PP_CONTROL :: u32 where "IOCTL_PP_CONTROL \<equiv> 201"
abbreviation IOCTL_FREE_VIRT_BUFFER :: u32 where "IOCTL_FREE_VIRT_BUFFER \<equiv> 25"
abbreviation IOCTL_FG_STOP_CMD :: u32 where "IOCTL_FG_STOP_CMD \<equiv> 27"
abbreviation IOCTL_DMA_TIME_STAMP :: u32 where "IOCTL_DMA_TIME_STAMP \<equiv> 37"
abbreviation IOCTL_UNLOCK_BUFFER_NR :: u32 where "IOCTL_UNLOCK_BUFFER_NR \<equiv> 40"
abbreviation IOCTL_GET_HANDSHAKE_DMA_BUFFER :: u32 where "IOCTL_GET_HANDSHAKE_DMA_BUFFER \<equiv> 42"
abbreviation IOCTL_DEL_VIRT_USER_BUFFER :: u32 where "IOCTL_DEL_VIRT_USER_BUFFER \<equiv> 44"
abbreviation IOCTL_QUEUE_BUFFER :: u32 where "IOCTL_QUEUE_BUFFER \<equiv> 54"

text \<open>Commands with a 64 bit form: the 32 bit number, and 128 more for 64 bit callers.\<close>

definition ioctl64 :: "u32 \<Rightarrow> u32" where
  "ioctl64 x = x + 128"

abbreviation IOCTL_FG_START_TRANSFER32 :: u32 where "IOCTL_FG_START_TRANSFER32 \<equiv> 21"
abbreviation IOCTL_ALLOCATE_VIRT_BUFFER32 :: u32 where "IOCTL_ALLOCATE_VIRT_BUFFER32 \<equiv> 24"
abbreviation IOCTL_FG_WAIT_FOR_SUBBUF32 :: u32 where "IOCTL_FG_WAIT_FOR_SUBBUF32 \<equiv> 29"
abbreviation IOCTL_ADD_VIRT_USER_BUFFER32 :: u32 where "IOCTL_ADD_VIRT_USER_BUFFER32 \<equiv> 41"
abbreviation IOCTL_GET_BUFFER_STATUS32 :: u32 where "IOCTL_GET_BUFFER_STATUS32 \<equiv> 43"

definition men_is_ioctl_allowed :: "men_board_state \<Rightarrow> u32 \<Rightarrow> bool" where
  "men_is_ioctl_allowed s nr \<longleftrightarrow> s \<ge> BOARD_STATE_READY
     \<or> nr \<in> {IOCTL_EX_GET_INTERFACE_VERSION, IOCTL_EX_GET_DEVICE_STATUS, IOCTL_EX_CONFIGURE_FPGA,
             IOCTL_PP_CONTROL}"

definition menable_ioctl_dispatch ::
    "'hw board_ops \<Rightarrow> 'hw io_env \<Rightarrow> u32 \<Rightarrow> user_view \<Rightarrow> 'hw siso_menable \<Rightarrow> 'hw io_result" where
  "menable_ioctl_dispatch ops e nr v m =
     (if nr = ioctl64 IOCTL_ALLOCATE_VIRT_BUFFER32 then men_ioctl_allocate_virt_buffer e v m
      else if nr = ioctl64 IOCTL_ADD_VIRT_USER_BUFFER32 then men_ioctl_add_virt_user_buffer e v m
      else if nr = IOCTL_DEL_VIRT_USER_BUFFER then men_ioctl_del_virt_user_buffer v m
      else if nr = IOCTL_FREE_VIRT_BUFFER then men_ioctl_free_virt_buffer v m
      else if nr = IOCTL_DMA_LENGTH \<or> nr = IOCTL_DMA_TAG \<or> nr = IOCTL_DMA_FRAME_NUMBER
      then men_ioctl_subbuf nr v m
      else if nr = IOCTL_DMA_TIME_STAMP then men_ioctl_dma_time_stamp v m
      else if nr = ioctl64 IOCTL_FG_WAIT_FOR_SUBBUF32 then men_ioctl_fg_wait_for_subbuf e v m
      else if nr = IOCTL_FG_STOP_CMD then men_ioctl_fg_stop_cmd v m
      else if nr = ioctl64 IOCTL_FG_START_TRANSFER32 then men_ioctl_fg_start_transfer ops e v m
      else if nr = ioctl64 IOCTL_GET_BUFFER_STATUS32 then men_ioctl_get_buffer_status v m
      else if nr = IOCTL_QUEUE_BUFFER then men_ioctl_queue_buffer v m
      else if nr = IOCTL_UNLOCK_BUFFER_NR then men_ioctl_unlock_buffer_number v m
      else if nr = IOCTL_GET_HANDSHAKE_DMA_BUFFER then men_ioctl_get_handshake_dma_buffer v m
      else if nr = IOCTL_EX_GET_DEVICE_STATUS then device_status e m
      else if nr = IOCTL_EX_DATA_TRANSFER
      then if is_me6 e then data_transfer e m else Some (- ENOTTY, OutNone, m)
      else if nr = IOCTL_EX_CAMERA_CONTROL then camera_control e m
      else board_ioctl e nr m)"

definition menable_ioctl ::
    "'hw board_ops \<Rightarrow> 'hw io_env \<Rightarrow> bool \<Rightarrow> u32 \<Rightarrow> user_view \<Rightarrow> 'hw siso_menable \<Rightarrow> 'hw io_result" where
  "menable_ioctl ops e type_ok nr v m =
     (if \<not> type_ok then Some (- EINVAL, OutNone, m)
      else if \<not> men_is_ioctl_allowed (board_state m) nr then Some (- EINVAL, OutNone, m)
      else menable_ioctl_dispatch ops e nr v m)"

section \<open>Compat callers\<close>

definition men_compat_ioctl_allocate_virt_buffer32 ::
    "'hw io_env \<Rightarrow> user_view \<Rightarrow> 'hw siso_menable \<Rightarrow> 'hw io_result" where
  "men_compat_ioctl_allocate_virt_buffer32 e v m =
     with_arg (v_create v) m (\<lambda>(maxsize, subbufs).
       if maxsize > 0xffffffff then Some (- EINVAL, OutNone, m)
       else no_out (Some (men_create_buf_head (made_head e) subbufs m)))"

definition menable_compat_ioctl ::
    "'hw board_ops \<Rightarrow> 'hw io_env \<Rightarrow> bool \<Rightarrow> u32 \<Rightarrow> user_view \<Rightarrow> 'hw siso_menable \<Rightarrow> 'hw io_result" where
  "menable_compat_ioctl ops e type_ok nr v m =
     (if \<not> type_ok then Some (- EINVAL, OutNone, m)
      else if \<not> men_is_ioctl_allowed (board_state m) nr then Some (- EINVAL, OutNone, m)
      else if nr = IOCTL_ALLOCATE_VIRT_BUFFER32 then men_compat_ioctl_allocate_virt_buffer32 e v m
      else if nr = IOCTL_ADD_VIRT_USER_BUFFER32 then men_ioctl_add_virt_user_buffer e v m
      else if nr = IOCTL_DEL_VIRT_USER_BUFFER then men_ioctl_del_virt_user_buffer v m
      else if nr = IOCTL_FG_START_TRANSFER32 then men_ioctl_fgstart ops e v m
      else if nr = IOCTL_DMA_LENGTH \<or> nr = IOCTL_DMA_TAG \<or> nr = IOCTL_DMA_FRAME_NUMBER
      then men_ioctl_subbuf nr v m
      else if nr = IOCTL_DMA_TIME_STAMP then men_ioctl_dma_time_stamp v m
      else if nr = IOCTL_FG_WAIT_FOR_SUBBUF32 then men_compat_ioctl_wait_for_subbuf32 e v m
      else if nr = IOCTL_UNLOCK_BUFFER_NR then men_ioctl_unlock_buffer_number v m
      else if nr = IOCTL_EX_GET_DEVICE_STATUS then device_status e m
      else if nr = IOCTL_EX_DATA_TRANSFER then data_transfer e m
      else if nr = IOCTL_EX_CAMERA_CONTROL then camera_control e m
      else board_ioctl e nr m)"

end
