(* ===== verification/Dma_Ioctl_Props.thy ===== *)
theory Dma_Ioctl_Props
  imports Dma_Dispatch
begin

text \<open>
  Properties of the \<^verbatim>\<open>ioctl\<close> layer: what unlocking, freeing and creating do on a well-formed board,
  and the calls that leave the well-formed states.
\<close>

section \<open>Unlocking every buffer\<close>

lemma queue_max_given_back:
  assumes "running_ok n hs c h bs d" "men_dma_queue_max n hs c h = Some (c', h')"
    and "given_back (listname (h' x))"
  shows "given_back (listname (h x))"
proof -
  have "h' = h \<or> (\<exists>B. h' = marked_hot B h)"
    using men_dma_queue_max_result [OF running_okD(1,3,5) [OF assms(1)]] assms(2)
    by (auto split: if_splits)
  then show ?thesis
    using assms(3) by (auto simp: marked_hot_def given_back_def split: if_splits)
qed

lemma unblock_on_board_spec:
  assumes run: "chan_running cp bs d m" and b: "\<And>x. b = Some x \<Longrightarrow> x \<in> bs"
  obtains m' where "unblock_on_board cp b m = Some m'" "chan_running cp bs d m'"
    "heads m' = heads m"
    "\<And>x. given_back (listname (heap m' x)) \<Longrightarrow> b \<noteq> Some x \<and> given_back (listname (heap m x))"
proof (cases b)
  case None
  have "unblock_on_board cp b m = Some (m\<lparr>chans := (chans m)(cp := chans m cp), heap := heap m\<rparr>)"
    by (simp add: unblock_on_board_def on_chan_def men_unblock_buffer_def None)
  then show ?thesis using that run None by simp
next
  case (Some x)
  let ?c = "chans m cp" and ?h = "heap m" and ?n = "dma_fifo_length m" and ?hs = "heads m"
  note ok = run [unfolded chan_running_def]
  note D = running_okD [OF ok]
  have x: "x \<in> bs" using b Some by blast
  note res = men_unblock_buffer_result [OF D(1) x, of ?n ?hs]
  have "\<exists>c' h'. men_unblock_buffer ?n ?hs ?c ?h (Some x) = Some (c', h')
      \<and> running_ok ?n ?hs c' h' bs d
      \<and> (\<forall>y. given_back (listname (h' y)) \<longrightarrow> x \<noteq> y \<and> given_back (listname (?h y)))"
  proof (cases "given_back (listname (?h x))")
    case False
    then show ?thesis using res ok by auto
  next
    case True
    let ?c1 = "unblocked x ?c ?h" and ?h1 = "set_listname x READY_LIST ?h"
    have f: "hot_count ?c1 = hot_count ?c" "active ?c1 = active ?c"
      by (simp_all add: unblocked_def split: listname.splits)
    have ok1: "running_ok ?n ?hs ?c1 ?h1 bs d"
      using unblocked_wf [OF D(1) x True] D(3) f by (intro running_okI [OF ok]) simp_all
    have gb1: "given_back (listname (?h1 y)) \<Longrightarrow> x \<noteq> y \<and> given_back (listname (?h y))" for y
      by (auto simp: given_back_def split: if_splits)
    show ?thesis
    proof (cases "hot_count ?c1 \<le> 1 \<and> ready_count ?c1 > 0")
      case False
      then have "men_unblock_buffer ?n ?hs ?c ?h (Some x) = Some (?c1, ?h1)"
        using res True by (auto simp: Let_def)
      then show ?thesis using ok1 gb1 by blast
    next
      case refill: True
      note D1 = running_okD [OF ok1]
      obtain c' h' k where q: "men_dma_queue_max ?n ?hs ?c1 ?h1 = Some (c', h')"
          "chan_wf c' h' bs d" "hot_count c' \<le> ?n" "hot_list c' = hot_list ?c1 @ k"
          "hw_queue c' = hw_queue ?c1 @ k" "active c' = active ?c1"
        by (rule men_dma_queue_max_wf [OF D1(1,3,2,5)])
      have "men_unblock_buffer ?n ?hs ?c ?h (Some x) = Some (c', h')"
        using res True refill q(1) by (simp add: Let_def)
      moreover have "running_ok ?n ?hs c' h' bs d" by (rule running_okI [OF ok1 q(2,6,3)])
      ultimately show ?thesis using gb1 queue_max_given_back [OF ok1 q(1)] by blast
    qed
  qed
  then obtain c' h' where u: "men_unblock_buffer ?n ?hs ?c ?h (Some x) = Some (c', h')"
      "running_ok ?n ?hs c' h' bs d"
      "\<forall>y. given_back (listname (h' y)) \<longrightarrow> x \<noteq> y \<and> given_back (listname (?h y))" by blast
  show ?thesis
    by (rule that [of "m\<lparr>chans := (chans m)(cp := c'), heap := h'\<rparr>"])
      (use u Some in \<open>simp_all add: unblock_on_board_def on_chan_def chan_running_def\<close>)
qed

lemma unblock_all_spec:
  assumes "chan_running cp bs d m" "set (present xs) \<subseteq> bs"
  shows "\<exists>m'. unblock_all cp xs m = Some m' \<and> chan_running cp bs d m' \<and> heads m' = heads m
     \<and> (\<forall>x. given_back (listname (heap m' x)) \<longrightarrow> x \<notin> set (present xs) \<and> given_back (listname (heap m x)))"
  using assms
proof (induction xs arbitrary: m)
  case Nil
  then show ?case by simp
next
  case (Cons b xs)
  have "y \<in> bs" if "b = Some y" for y using Cons.prems(2) that by simp
  then obtain m1 where m1: "unblock_on_board cp b m = Some m1" "chan_running cp bs d m1"
      "heads m1 = heads m"
      "\<And>x. given_back (listname (heap m1 x)) \<Longrightarrow> b \<noteq> Some x \<and> given_back (listname (heap m x))"
    using unblock_on_board_spec [OF Cons.prems(1), of b] by blast
  have "set (present xs) \<subseteq> bs" using Cons.prems(2) by (cases b) auto
  from Cons.IH [OF m1(2) this] obtain m2 where m2: "unblock_all cp xs m1 = Some m2"
      "chan_running cp bs d m2" "heads m2 = heads m1"
      "\<forall>x. given_back (listname (heap m2 x)) \<longrightarrow> x \<notin> set (present xs) \<and> given_back (listname (heap m1 x))"
    by blast
  have "x \<notin> set (present (b # xs)) \<and> given_back (listname (heap m x))"
    if "given_back (listname (heap m2 x))" for x
    using m2(4) m1(4) [of x] that by (cases b) auto
  then show ?case using m1 m2 by auto
qed

text \<open>
  C36: Unlocking all buffers (index -1) of a head returns zero without reaching the two \<^verbatim>\<open>BUG_ON\<close>s, and
  then no buffer is grabbed or locked and the queues are still well formed, provided that the channel
  of the head is in order before (\<open>chan_running\<close>): the channel has an active head, the buffers in its
  queues are those of the head to unlock, each counted and in the queue it is marked with, and not
  more of them are hot than the FIFO of the board takes. Without that a \<^verbatim>\<open>BUG_ON\<close> can be
  reached: \<open>queue_grabbed_buffer_then_unlock_all_hits_bug\<close> below.
\<close>

theorem unlock_all_releases_every_buffer:
  assumes "me_get_buf_head head m = Some hp" "head_chan (heads m hp) = Some cp"
    and "chan_running cp (set (present (bufs (heads m hp)))) d m"
  shows "\<exists>m'. men_ioctl_unlock_buffer head (-1) m = Some (0, m')
     \<and> chan_running cp (set (present (bufs (heads m hp)))) d m'
     \<and> grabbed_list (chans m' cp) = [] \<and> locked_count (chans m' cp) = 0"
proof -
  let ?B = "set (present (bufs (heads m hp)))"
  obtain m1 where m1: "unblock_all cp (bufs (heads m hp)) m = Some m1" "chan_running cp ?B d m1"
      "\<forall>x. given_back (listname (heap m1 x)) \<longrightarrow> x \<notin> ?B"
    using unblock_all_spec [OF assms(3) subset_refl] by blast
  note wf = running_okD(1) [OF m1(2) [unfolded chan_running_def]]
  have empty: "members (heap m1) ?B GRABBED_LIST = {}" "members (heap m1) ?B NO_LIST = {}"
    using m1(3) by (auto simp: members_def given_back_def)
  have g: "grabbed_list (chans m1 cp) = []"
    using chan_wf_queue [OF wf, of GRABBED_LIST] empty(1)
    by (cases "grabbed_list (chans m1 cp)") (auto simp: queue_ok_def)
  have gc: "grabbed_count (chans m1 cp) = 0" using cnt_zero_iff [OF wf, of GRABBED_LIST] g by simp
  have lc: "locked_count (chans m1 cp) = 0" using unat_locked [OF wf] empty(2) by (simp add: unat_eq_zero)
  have "num_sb (heads m hp) \<ge> 0" by (simp add: num_sb_def)
  then show ?thesis
    using assms(1,2) m1 g gc lc by (simp add: men_ioctl_unlock_buffer_def)
qed

lemma busy_head: "me_get_buf_head 0 busy_board = Some 0" "head_chan (heads busy_board 0) = Some 0"
    "set (present (bufs (heads busy_board 0))) = {0, 1, 2, 3}"
  by (simp_all add: busy_board_def demo_heads_def me_get_buf_head_def demo_board_def)

lemma unlock_all_releases_every_buffer_witness:
  "\<exists>m'. men_ioctl_unlock_buffer 0 (-1) busy_board = Some (0, m') \<and> grabbed_list (chans m' 0) = []"
  using unlock_all_releases_every_buffer [OF busy_head(1,2)] busy_running unfolding busy_head(3)
  by blast

section \<open>Freeing a buffer\<close>

definition freed_chan :: "buf_id \<Rightarrow> listname \<Rightarrow> menable_dmachan \<Rightarrow> menable_dmachan" where
  "freed_chan b l c = upd_cnt l (\<lambda>n. n - 1) (if l \<noteq> NO_LIST then list_del b c else c)"

lemma freed_chan_lst:
  assumes wf: "chan_wf c h bs d" and b: "b \<in> bs"
  shows "lst k (freed_chan b (listname (h b)) c) = removeAll b (lst k c)"
proof (cases "listname (h b) = NO_LIST")
  case True
  then have e: "freed_chan b (listname (h b)) c = upd_cnt NO_LIST (\<lambda>n. n - 1) c"
    by (simp add: freed_chan_def)
  show ?thesis
  proof (cases "k = NO_LIST")
    case False
    then have "k \<noteq> listname (h b)" using True by simp
    then have "removeAll b (lst k c) = lst k c" by (rule removeAll_other [OF wf b])
    then show ?thesis unfolding e lst_upd_cnt by simp
  qed simp
next
  case False
  then show ?thesis unfolding freed_chan_def lst_upd_cnt by simp
qed

lemma freed_chan_wf:
  assumes wf: "chan_wf c h bs d" and b: "b \<in> bs"
  shows "chan_wf (freed_chan b (listname (h b)) c) h (bs - {b}) d"
proof -
  let ?l = "listname (h b)" and ?c = "freed_chan b (listname (h b)) c"
  have bd: "b \<noteq> d" using wf b by (auto simp: chan_wf_def heap_ok_def)
  have lst: "lst k ?c = removeAll b (lst k c)" for k
    by (rule freed_chan_lst [OF wf b])
  have cnt: "cnt k ?c = cnt k c - (if k = ?l then 1 else 0)" for k
    by (simp add: freed_chan_def)
  have mem: "members h (bs - {b}) k = members h bs k - {b}" for k by (auto simp: members_def)
  have fin: "finite (members h bs k)" for k by (rule members_finite [OF wf])
  have "queue_ok ?c h (bs - {b}) d k" if k: "k \<noteq> NO_LIST" for k
  proof -
    have q: "distinct (lst k c)" "cnt k c = of_nat (length (lst k c))"
        "set (lst k c) - {d} = members h bs k" "k \<noteq> HOT_LIST \<longrightarrow> d \<notin> set (lst k c)"
      using chan_wf_queue [OF wf k] by (simp_all add: queue_ok_def)
    have inb: "b \<in> set (lst k c) \<longleftrightarrow> k = ?l" using in_list_iff [OF wf k b] by auto
    have "cnt k ?c = of_nat (length (lst k ?c))"
    proof (cases "k = ?l")
      case True
      then have "length (lst k c) = Suc (length (removeAll b (lst k c)))"
        using length_removeAll_in [OF q(1), of b] inb by simp
      then show ?thesis using True q(2) cnt [of k] lst [of k] by simp
    next
      case False
      then show ?thesis using q(2) inb cnt [of k] lst [of k] by (simp add: removeAll_id)
    qed
    moreover have "set (lst k ?c) - {d} = members h (bs - {b}) k"
      unfolding lst mem using q(3) by auto
    ultimately show ?thesis
      using q(1,4) by (simp add: queue_ok_def lst distinct_removeAll)
  qed
  moreover have "heap_ok h (bs - {b}) d"
  proof -
    have "card (bs - {b}) \<le> card bs" using wf by (simp add: chan_wf_def heap_ok_def card_Diff1_le)
    then show ?thesis using wf unfolding chan_wf_def heap_ok_def by auto
  qed
  moreover have "locked_count ?c = of_nat (card (members h (bs - {b}) NO_LIST))"
  proof (cases "?l = NO_LIST")
    case True
    then have "b \<in> members h bs NO_LIST" using b by simp
    then have "card (members h bs NO_LIST) = Suc (card (members h bs NO_LIST - {b}))"
      using fin card_Suc_Diff1 by metis
    then show ?thesis
      using wf True cnt [of NO_LIST] unfolding mem by (simp add: chan_wf_def)
  next
    case False
    then have "members h bs NO_LIST - {b} = members h bs NO_LIST" by auto
    then show ?thesis using wf False cnt [of NO_LIST] unfolding mem by (simp add: chan_wf_def)
  qed
  ultimately show ?thesis by (simp add: chan_wf_def)
qed

text \<open>
  C37: Deleting an existing buffer of a running channel's head is refused with \<^verbatim>\<open>-EBUSY\<close> exactly when
  the board may still write to it; otherwise it leaves its list, the counters follow, and
  the rest of the channel stays well formed.
\<close>

theorem free_userbuf_keeps_queues_wellformed:
  assumes "chan_running cp bs d m" "head_chan (heads m hp) = Some cp"
    and "bufs (heads m hp) ! nat i = Some b" "b \<in> bs" "0 \<le> i" "i < num_sb (heads m hp)"
  shows "if state (chans m cp) \<noteq> MEN_DMA_CHAN_STATE_STOPPED \<and> listname (heap m b) = HOT_LIST
     then men_free_userbuf hp i m = Some (- EBUSY, m)
     else \<exists>m'. men_free_userbuf hp i m = Some (0, m')
            \<and> bufs (heads m' hp) = (bufs (heads m hp))[nat i := None]
            \<and> chan_wf (chans m' cp) (heap m') (bs - {b}) d
            \<and> (\<forall>l. b \<notin> set (lst l (chans m' cp)))"
proof -
  note wf = running_okD(1) [OF assms(1) [unfolded chan_running_def]]
  let ?m = "upd_head hp (\<lambda>dh. dh\<lparr>bufs := (bufs dh)[nat i := None]\<rparr>)
              (upd_chan cp (freed_chan b (listname (heap m b))) m)"
  have "chans ?m cp = freed_chan b (listname (heap m b)) (chans m cp)"
    by (simp add: upd_head_def)
  then have "\<forall>l. b \<notin> set (lst l (chans ?m cp))"
    using freed_chan_lst [OF wf assms(4)] by simp
  then show ?thesis
    using assms(2,3,5,6) freed_chan_wf [OF wf assms(4)]
    by (simp add: men_free_userbuf_def Let_def freed_chan_def [abs_def] upd_head_def)
qed

lemma free_userbuf_keeps_queues_wellformed_witness:
  "men_free_userbuf 0 0 busy_board = Some (- EBUSY, busy_board)
   \<and> (\<exists>m'. men_free_userbuf 0 3 busy_board = Some (0, m') \<and> chan_wf (chans m' 0) (heap m') {0, 1, 2} 9)"
proof -
  have b: "bufs (heads busy_board 0) ! nat 0 = Some 0" "bufs (heads busy_board 0) ! nat 3 = Some 3"
      "num_sb (heads busy_board 0) = 4" "state (chans busy_board 0) = MEN_DMA_CHAN_STATE_STARTED"
      "listname (heap busy_board 0) = HOT_LIST" "listname (heap busy_board 3) = GRABBED_LIST"
    by (simp_all add: busy_board_def demo_heads_def num_sb_def demo_chan_def demo_heap_def demo_buf_def)
  have s: "{0, 1, 2, 3} - {3} = {0, 1, 2 :: nat}" by auto
  show ?thesis
    using free_userbuf_keeps_queues_wellformed [OF busy_running busy_head(2) b(1)]
      free_userbuf_keeps_queues_wellformed [OF busy_running busy_head(2) b(2)]
    unfolding s by (auto simp: b)
qed

text \<open>
  Two indices from user space reach memory outside the buffer array: \<^verbatim>\<open>men_free_userbuf\<close> reads one
  element past its end for the index equal to the number of buffers, and
  \<^verbatim>\<open>men_create_userbuf\<close> accepts every negative index.
\<close>

theorem buffer_index_checks_miss_bounds:
  assumes "me_get_buf_head (range_headnr r) m = Some hp"
    and "range_length r \<le> 17179869184" "range_start r AND 3 = 0" "range_subnr r < 0"
  shows "men_create_userbuf made env r m = None
     \<and> men_free_userbuf hp (int (length (bufs (heads m hp)))) m = None"
  using assms by (simp add: men_create_userbuf_def men_free_userbuf_def num_sb_def not_less)

lemma buffer_index_checks_miss_bounds_witness:
  "men_create_userbuf (Inr 50) (\<lambda>m. m)
     \<lparr>range_start = 4096, range_length = 8192, range_subnr = -1, range_headnr = 0\<rparr> busy_board = None
   \<and> men_free_userbuf 0 4 busy_board = None"
  using buffer_index_checks_miss_bounds
      [of "\<lparr>range_start = 4096, range_length = 8192, range_subnr = -1, range_headnr = 0\<rparr>" busy_board 0]
    busy_head(1) by (simp add: busy_board_def demo_heads_def)

section \<open>Creating a head\<close>

lemma fold_next_id:
  assumes "\<forall>x\<in>set xs. x \<noteq> - 1"
  shows "(n :: u32) \<le> fold (\<lambda>x n. if x \<ge> n then x + 1 else n) xs n
     \<and> (\<forall>x\<in>set xs. x < fold (\<lambda>x n. if x \<ge> n then x + 1 else n) xs n)"
  using assms
proof (induction xs arbitrary: n)
  case (Cons x xs)
  have "unat (- 1 :: u32) = 4294967295" by (simp add: unsigned_minus_1_eq_mask mask_eq_exp_minus_1)
  then have "unat x \<noteq> 4294967295" using Cons.prems by (simp add: word_unat_eq_iff)
  then have "unat x < 4294967295" using unat_u32_bound [of x] by linarith
  then have x: "x < x + 1" by (simp add: word_less_nat_alt unat_Suc_u32)
  let ?n = "if x \<ge> n then x + 1 else n"
  have "n \<le> ?n" "x < ?n" using x by (auto simp: not_le)
  then show ?case using Cons.IH [of ?n] Cons.prems by (auto dest: order_trans less_le_trans)
qed simp

lemma find_append_None: "List.find P xs = None \<Longrightarrow> List.find P (xs @ ys) = List.find P ys"
  by (induction xs) (auto split: if_splits)

lemma find_None: "(\<And>x. x \<in> set xs \<Longrightarrow> \<not> P x) \<Longrightarrow> List.find P xs = None"
  by (induction xs) auto

lemma find_append_Some: "List.find P xs = Some y \<Longrightarrow> List.find P (xs @ ys) = Some y"
  by (induction xs) (auto split: if_splits)

lemma find_cong: "(\<And>x. x \<in> set xs \<Longrightarrow> P x = Q x) \<Longrightarrow> List.find P xs = List.find Q xs"
  by (induction xs) auto

text \<open>
  While no head has the largest 32 bit id, a new head gets an id greater than all others; looking
  that id up finds the new head, with the requested number of empty slots, and every other
  look-up is unchanged.
\<close>

theorem created_head_has_fresh_id:
  assumes "\<forall>p\<in>set (buffer_heads_list m). head_id (heads m p) \<noteq> - 1"
    and "hp \<notin> set (buffer_heads_list m)" "0 < n"
  shows "\<exists>i m'. men_create_buf_head (Inr (hp, d)) n m = (sint i, m') \<and> head_id (heads m' hp) = i
        \<and> (\<forall>p\<in>set (buffer_heads_list m). head_id (heads m' p) < i)
        \<and> me_get_buf_head i m' = Some hp \<and> num_sb (heads m' hp) = n
        \<and> present (bufs (heads m' hp)) = []
        \<and> (\<forall>j. j = i \<or> me_get_buf_head j m' = me_get_buf_head j m)"
proof -
  let ?i = "next_head_id m" and ?L = "buffer_heads_list m"
  let ?m = "snd (men_create_buf_head (Inr (hp, d)) n m)"
  have m: "men_create_buf_head (Inr (hp, d)) n m = (sint ?i, ?m)" "head_id (heads ?m hp) = ?i"
      "buffer_heads_list ?m = ?L @ [hp]" "bufs (heads ?m hp) = replicate (nat n) None"
      "p \<noteq> hp \<Longrightarrow> heads ?m p = heads m p" for p
    using assms(3) by (simp_all add: men_create_buf_head_def Let_def)
  have same: "head_id (heads ?m p) = head_id (heads m p)" if "p \<in> set ?L" for p
    using m(5) [of p] that assms(2) by metis
  have i: "?i = fold (\<lambda>x n. if x \<ge> n then x + 1 else n) (map (\<lambda>p. head_id (heads m p)) ?L) 0"
    by (simp add: next_head_id_def fold_map comp_def)
  have less: "head_id (heads m p) < ?i" if "p \<in> set ?L" for p
    unfolding i using fold_next_id [of "map (\<lambda>p. head_id (heads m p)) ?L" 0] assms(1) that by auto
  have "List.find (\<lambda>p. head_id (heads ?m p) = ?i) ?L = None"
    by (rule find_None) (use same less in fastforce)
  then have new: "me_get_buf_head ?i ?m = Some hp"
    unfolding me_get_buf_head_def m(3) by (simp add: find_append_None m(2))
  have other: "me_get_buf_head j ?m = me_get_buf_head j m" if "j \<noteq> ?i" for j
  proof -
    have c: "List.find (\<lambda>p. head_id (heads ?m p) = j) ?L = List.find (\<lambda>p. head_id (heads m p) = j) ?L"
      by (rule find_cong) (simp add: same)
    show ?thesis
    proof (cases "List.find (\<lambda>p. head_id (heads m p) = j) ?L")
      case None
      then show ?thesis
        unfolding me_get_buf_head_def m(3) using c that by (simp add: find_append_None m(2))
    next
      case (Some p)
      then show ?thesis
        unfolding me_get_buf_head_def m(3) using c by (simp add: find_append_Some)
    qed
  qed
  have "present (replicate (nat n) None) = []" by (simp add: present_def)
  moreover have "\<forall>p\<in>set ?L. head_id (heads ?m p) < ?i" using less same by simp
  moreover have "num_sb (heads ?m hp) = n" using assms(3) by (simp add: num_sb_def m(4))
  ultimately show ?thesis
    using m(1,2,4) new other by (intro exI [of _ ?i] exI [of _ ?m]) auto
qed

lemma created_head_has_fresh_id_witness:
  "\<exists>i m'. men_create_buf_head (Inr (7, 200)) 3 demo_board = (sint i, m')
     \<and> me_get_buf_head i m' = Some 7 \<and> (i = 1 \<or> me_get_buf_head 1 m' = Some 1)"
proof -
  have p: "\<forall>p\<in>set (buffer_heads_list demo_board). head_id (heads demo_board p) \<noteq> - 1"
      "7 \<notin> set (buffer_heads_list demo_board)"
    by (simp_all add: demo_board_def)
  have e: "me_get_buf_head 1 demo_board = Some 1"
    by (simp add: me_get_buf_head_def demo_board_def)
  obtain i m' where "men_create_buf_head (Inr (7, 200)) 3 demo_board = (sint i, m')"
      "me_get_buf_head i m' = Some 7" "\<forall>j. j = i \<or> me_get_buf_head j m' = me_get_buf_head j demo_board"
    using created_head_has_fresh_id [OF p, of 3 200] by auto
  then show ?thesis using e by (intro exI [of _ i] exI [of _ m']) auto
qed

section \<open>Gating by the board state\<close>

text \<open>
  Below the state \<^verbatim>\<open>READY\<close> every command but the four that work on an unconfigured board is
  refused with \<^verbatim>\<open>-EINVAL\<close> and changes nothing, for 64 bit and compat callers; from \<^verbatim>\<open>READY\<close>
  on no command is refused by the gate.
\<close>

theorem ioctl_gate_follows_board_state:
  "if board_state m < BOARD_STATE_READY \<and> nr \<notin> {64, 65, 69, 201}
   then menable_ioctl ops e True nr v m = Some (- EINVAL, OutNone, m)
        \<and> menable_compat_ioctl ops e True nr v m = Some (- EINVAL, OutNone, m)
   else menable_ioctl ops e True nr v m = menable_ioctl_dispatch ops e nr v m"
  by (auto simp: menable_ioctl_def menable_compat_ioctl_def men_is_ioctl_allowed_def)

section \<open>Calls that leave the well-formed states\<close>

text \<open>Callbacks of a board that starts and stops at once.\<close>

definition plain_ops :: "'hw board_ops" where
  "plain_ops = \<lparr>startdma = (\<lambda>cp m. map_option (\<lambda>m1. (0, m1)) (queue_max_chan cp m)),
     stopdma = (\<lambda>cp m. m), abortdma = (\<lambda>cp m. m), query_dma = (\<lambda>i m. (1, m))\<rparr>"

text \<open>The example channel after its acquisition was stopped; buffer 3 is still grabbed.\<close>

definition stopped_board :: "unit siso_menable" where
  "stopped_board = upd_chan 0 (\<lambda>c. c\<lparr>state := MEN_DMA_CHAN_STATE_STOPPED, transfer_todo := 0\<rparr>) busy_board"

text \<open>
  On a stopped channel \<^verbatim>\<open>men_queue_buffer\<close> relabels a grabbed buffer as ready without moving it;
  unlocking all buffers then skips it and reaches \<^verbatim>\<open>BUG_ON(dc->grabbed_count)\<close>, while the same
  call before would have succeeded.
\<close>

theorem queue_grabbed_buffer_then_unlock_all_hits_bug:
  "(case men_queue_buffer 0 3 stopped_board of
      Some (r, m) \<Rightarrow> r = 0 \<and> men_ioctl_unlock_buffer 0 (-1) m = None
    | None \<Rightarrow> False)
   \<and> map_option fst (men_ioctl_unlock_buffer 0 (-1) stopped_board) = Some 0"
  by (rule conjI) code_simp+

text \<open>A running selective acquisition: buffer 1 and 2 were queued, nothing is hot.\<close>

definition selective_board :: "unit siso_menable" where
  "selective_board = busy_board\<lparr>chans := (\<lambda>p. demo_chan\<lparr>mode := DMA_SELECTIVEMODE, hot_list := [],
       hot_count := 0, grabbed_list := [], grabbed_count := 0, free_list := [0, 3],
       free_count := 2, transfer_todo := 2\<rparr>),
     heap := (\<lambda>b. if b = 0 \<or> b = 3 then demo_buf FREE_LIST (int b) else demo_heap b),
     dma_fifo_length := 8\<rparr>"

text \<open>
  In a running selective acquisition \<^verbatim>\<open>men_queue_buffer\<close> warns about a buffer that is not free
  but counts it as moved from free to ready all the same: after queueing buffer 1, which was
  ready, the free counter is one too small and the ready counter one too large, so a
  longer transfer would take a buffer from an empty ready list.
\<close>

theorem queue_ready_buffer_breaks_counters:
  "(case men_queue_buffer 0 1 selective_board of
      Some (r, m) \<Rightarrow> r = 0 \<and> length (free_list (chans m 0)) = 2 \<and> free_count (chans m 0) = 1
         \<and> length (ready_list (chans m 0)) = 0 \<and> ready_count (chans m 0) = 1
    | None \<Rightarrow> False)
   \<and> men_queue_buffer 0 1 (upd_chan 0 (\<lambda>c. c\<lparr>transfer_todo := 9\<rparr>) selective_board) = None"
  by (rule conjI) code_simp+

definition start_on :: "u32 \<Rightarrow> u32 \<Rightarrow> unit siso_menable \<Rightarrow> unit siso_menable option" where
  "start_on ch h m = (case fg_start_transfer plain_ops (\<lambda>m. m) 42 (demo_fg ch h) 0 m of
      Some (r, m1) \<Rightarrow> if r = 0 then Some m1 else None | None \<Rightarrow> None)"

text \<open>
  Both channels ran on the head of their number and are stopped. Channel 1 is then started on head
  0, and channel 0, whose active head is still head 0, on head 1.
\<close>

definition after_two_runs :: "unit siso_menable" where
  "after_two_runs = demo_board\<lparr>
     chans := (\<lambda>p. (idle_chan p)\<lparr>active := Some p, state := MEN_DMA_CHAN_STATE_STOPPED\<rparr>),
     heads := (\<lambda>p. (heads demo_board p)\<lparr>head_chan := Some p\<rparr>)\<rparr>"

definition heads_swapped :: "unit siso_menable option" where
  "heads_swapped = (case start_on 1 0 after_two_runs of
      None \<Rightarrow> None | Some m \<Rightarrow> start_on 0 1 m)"

text \<open>
  The back pointer of a head can be lost while the board writes to its buffers: after channel 1
  took over head 0 from the stopped channel 0, starting channel 0 on another head clears the
  pointer of head 0. Channel 1 is started on head 0 with buffer 0 queued to the board, yet
  \<^verbatim>\<open>men_free_userbuf\<close> frees that buffer instead of returning \<^verbatim>\<open>-EBUSY\<close>.
\<close>

theorem lost_head_pointer_frees_hot_buffer:
  "case heads_swapped of
     None \<Rightarrow> False
   | Some m \<Rightarrow> state (chans m 1) = MEN_DMA_CHAN_STATE_STARTED \<and> active (chans m 1) = Some 0
       \<and> head_chan (heads m 0) = None \<and> 0 \<in> set (hot_list (chans m 1))
       \<and> bufs (heads m 0) ! 0 = Some 0 \<and> map_option fst (men_free_userbuf 0 0 m) = Some 0"
  by code_simp

section \<open>Closing the device\<close>

text \<open>One channel on each of two FPGAs; the second one, number 1, was started by the process.\<close>

definition two_fpga_board :: "unit siso_menable" where
  "two_fpga_board = demo_board\<lparr>active_fpgas := 2, dmacnt := [1, 1],
     chans := (\<lambda>p. (idle_chan p)\<lparr>fpga := p, state := MEN_DMA_CHAN_STATE_STOPPED\<rparr>)\<rparr>"

text \<open>
  Thread groups note a started channel under its number on the whole board but the clean-up of
  an exiting process looks it up by its number within the FPGA: a channel of the
  second FPGA that the process started keeps running, while one of the first FPGA is stopped.
\<close>

theorem cleanup_misses_channels_of_second_fpga:
  "(case start_on 1 0 two_fpga_board of
      None \<Rightarrow> False
    | Some m \<Rightarrow> (case men_cleanup_threadgroup 0 m of
         None \<Rightarrow> False | Some m' \<Rightarrow> state (chans m' 1) = MEN_DMA_CHAN_STATE_STARTED))
   \<and> (case start_on 0 0 two_fpga_board of
      None \<Rightarrow> False
    | Some m \<Rightarrow> (case men_cleanup_threadgroup 0 m of
         None \<Rightarrow> False | Some m' \<Rightarrow> state (chans m' 0) = MEN_DMA_CHAN_STATE_STOPPING))"
  by (rule conjI) code_simp+

end
