(* ===== verification/Bits.thy ===== *)
theory Bits
  imports Prelude
begin

text \<open>
  The bit macros of \<^verbatim>\<open>lib/helpers/bits.h\<close> and the mask-and-shift helpers of
  \<^verbatim>\<open>linux/menable.h\<close>, for a word of any width: the \<^verbatim>\<open>_64\<close>, \<^verbatim>\<open>_32\<close>, \<^verbatim>\<open>_16\<close> and \<^verbatim>\<open>_8\<close>
  forms of the header instantiate the same implementation macro with the type and its
  number of bits. Each macro gets its bit-level meaning in the collection \<open>bit_specs\<close>.
\<close>

definition GEN_BITS :: "nat \<Rightarrow> 'a::len word" where
  "GEN_BITS n = drop_bit (LENGTH('a) - n) (- 1)"

definition GEN_BITS_INV :: "nat \<Rightarrow> 'a::len word" where
  "GEN_BITS_INV n = push_bit n (- 1)"

definition GEN_MASK :: "nat \<Rightarrow> nat \<Rightarrow> 'a::len word" where
  "GEN_MASK from to = GEN_BITS (to + 1) AND GEN_BITS_INV from"

definition GET_BITS :: "'a::len word \<Rightarrow> nat \<Rightarrow> nat \<Rightarrow> 'a word" where
  "GET_BITS w from to = drop_bit from (w AND GEN_MASK from to)"

definition SET_BITS :: "'a::len word \<Rightarrow> 'a word \<Rightarrow> nat \<Rightarrow> nat \<Rightarrow> 'a word" where
  "SET_BITS w val from to = (w AND NOT (GEN_MASK from to)) OR (push_bit from val AND GEN_MASK from to)"

definition ARE_BITS_SET :: "'a::len word \<Rightarrow> 'a word \<Rightarrow> bool" where
  "ARE_BITS_SET w m \<longleftrightarrow> w AND m = m"

definition modify_bits :: "u8 \<Rightarrow> u8 \<Rightarrow> u8 \<Rightarrow> u8" where
  "modify_bits bits modify_mask new_vals = (bits AND NOT modify_mask) OR (new_vals AND modify_mask)"

definition are_flags_set :: "u8 \<Rightarrow> u8 \<Rightarrow> bool" where
  "are_flags_set bits flags \<longleftrightarrow> bits AND flags = flags"

text \<open>The kernel's \<^verbatim>\<open>GENMASK_ULL(h, l)\<close>: bits \<open>l\<close> to \<open>h\<close> set.\<close>

definition GENMASK_ULL :: "nat \<Rightarrow> nat \<Rightarrow> u64" where
  "GENMASK_ULL h l = push_bit l (mask (Suc h - l))"

definition msl64 :: "u64 \<Rightarrow> nat \<Rightarrow> nat \<Rightarrow> nat \<Rightarrow> u64" where
  "msl64 val h l s = push_bit s (val AND GENMASK_ULL h l)"

definition msr64 :: "u64 \<Rightarrow> nat \<Rightarrow> nat \<Rightarrow> nat \<Rightarrow> u64" where
  "msr64 val h l s = drop_bit s (val AND GENMASK_ULL h l)"

definition rmsl64 :: "u64 \<Rightarrow> u64 \<Rightarrow> nat \<Rightarrow> nat \<Rightarrow> nat \<Rightarrow> u64" where
  "rmsl64 dest src h l s =
     (let m = GENMASK_ULL h l in (dest AND NOT (push_bit s m)) OR push_bit s (src AND m))"

definition rmsr64 :: "u64 \<Rightarrow> u64 \<Rightarrow> nat \<Rightarrow> nat \<Rightarrow> nat \<Rightarrow> u64" where
  "rmsr64 dest src h l s =
     (let m = GENMASK_ULL h l in (dest AND NOT (drop_bit s m)) OR drop_bit s (src AND m))"

section \<open>Bit-level meaning\<close>

lemma bit_GEN_BITS [bit_specs]:
  "n \<le> LENGTH('a) \<Longrightarrow> bit (GEN_BITS n :: 'a::len word) i \<longleftrightarrow> i < n"
  by (auto simp: GEN_BITS_def bit_simps)

lemma bit_GEN_BITS_INV [bit_specs]:
  "bit (GEN_BITS_INV n :: 'a::len word) i \<longleftrightarrow> n \<le> i \<and> i < LENGTH('a)"
  by (auto simp: GEN_BITS_INV_def bit_simps)

lemma bit_GEN_MASK [bit_specs]:
  "to < LENGTH('a) \<Longrightarrow> bit (GEN_MASK from to :: 'a::len word) i \<longleftrightarrow> from \<le> i \<and> i \<le> to"
  by (auto simp: GEN_MASK_def bit_GEN_BITS bit_GEN_BITS_INV bit_and_iff)

lemma bit_GET_BITS [bit_specs]:
  "to < LENGTH('a) \<Longrightarrow>
   bit (GET_BITS (w :: 'a::len word) from to) i \<longleftrightarrow> from + i \<le> to \<and> bit w (from + i)"
  by (auto simp: GET_BITS_def bit_simps bit_GEN_MASK)

lemma bit_SET_BITS [bit_specs]:
  "to < LENGTH('a) \<Longrightarrow>
   bit (SET_BITS (w :: 'a::len word) val from to) i
   \<longleftrightarrow> (if from \<le> i \<and> i \<le> to then bit val (i - from) else bit w i)"
  by (auto simp: SET_BITS_def bit_simps bit_GEN_MASK dest: bit_imp_le_length)

lemma bit_GENMASK_ULL [bit_specs]:
  "bit (GENMASK_ULL h l) i \<longleftrightarrow> l \<le> i \<and> i \<le> h \<and> i < 64"
  by (auto simp: GENMASK_ULL_def bit_simps)

lemma bit_msl64 [bit_specs]:
  "bit (msl64 v h l s) i \<longleftrightarrow> s \<le> i \<and> i < 64 \<and> l \<le> i - s \<and> i - s \<le> h \<and> bit v (i - s)"
  by (auto simp: msl64_def bit_simps bit_GENMASK_ULL dest: bit_imp_le_length)

lemma bit_msr64 [bit_specs]:
  "bit (msr64 v h l s) i \<longleftrightarrow> l \<le> i + s \<and> i + s \<le> h \<and> bit v (i + s)"
  by (auto simp: msr64_def bit_simps bit_GENMASK_ULL add.commute dest: bit_imp_le_length)

lemma bit_rmsl64 [bit_specs]:
  "bit (rmsl64 d v h l s) i \<longleftrightarrow>
   (if s \<le> i \<and> l \<le> i - s \<and> i - s \<le> h then i < 64 \<and> bit v (i - s) else bit d i)"
  by (auto simp: rmsl64_def Let_def bit_simps bit_GENMASK_ULL dest: bit_imp_le_length)

lemma bit_rmsr64 [bit_specs]:
  "bit (rmsr64 d v h l s) i \<longleftrightarrow>
   (if l \<le> i + s \<and> i + s \<le> h \<and> i + s < 64 then bit v (i + s) else bit d i)"
  by (auto simp: rmsr64_def Let_def bit_simps bit_GENMASK_ULL add.commute dest: bit_imp_le_length)

section \<open>Reading back what was written\<close>

lemma GET_SET_BITS_same:
  assumes "to < LENGTH('a)" "from \<le> to"
  shows "GET_BITS (SET_BITS (w :: 'a::len word) val from to) from to = take_bit (Suc to - from) val"
  using assms by (auto intro!: bit_word_eqI simp: bit_specs bit_take_bit_iff)

lemma GET_SET_BITS_other:
  assumes "to < LENGTH('a)" "to' < LENGTH('a)" "to < from' \<or> to' < from"
  shows "GET_BITS (SET_BITS (w :: 'a::len word) val from to) from' to' = GET_BITS w from' to'"
  using assms by (auto intro!: bit_word_eqI simp: bit_specs)

lemma SET_BITS_GET_BITS_id:
  assumes "to < LENGTH('a)"
  shows "SET_BITS (w :: 'a::len word) (GET_BITS w from to) from to = w"
  using assms by (auto intro!: bit_word_eqI simp: bit_specs split: if_splits)

end
