(* ===== verification/Uiq.thy ===== *)
theory Uiq
  imports Bits
begin

text \<open>
  The user interrupt queue of \<^verbatim>\<open>lib/uiq/uiq_base.c\<close>: a ring buffer of 32-bit words with a
  loss counter and the data-loss protocol of the grabber words. The record has the fields of
  \<^verbatim>\<open>uiq_base\<close> at their C widths; the buffer behind the pointer \<^verbatim>\<open>data\<close> is the list \<open>uiq_data\<close>,
  whose length is the capacity. The function pointer \<^verbatim>\<open>write_from_grabber\<close> is selected by
  \<open>read_protocol\<close>, so calling it is a case split on that field. The clock read by
  \<^verbatim>\<open>men_get_uiq_timestamp\<close> is an argument (\<open>now\<close>).
\<close>

section \<open>Data\<close>

datatype uiq_protocol = UIQ_PROTOCOL_RAW | UIQ_PROTOCOL_LEGACY | UIQ_PROTOCOL_VA_EVENT

datatype uiq_type =
    UIQ_TYPE_READ | UIQ_TYPE_WRITE_RAW | UIQ_TYPE_WRITE_LEGACY | UIQ_TYPE_WRITE_CXP

definition UIQ_TYPE_IS_WRITE :: "uiq_type \<Rightarrow> bool" where
  "UIQ_TYPE_IS_WRITE t \<longleftrightarrow> t \<noteq> UIQ_TYPE_READ"

abbreviation UIQ_CONTROL_EOT :: u32 where "UIQ_CONTROL_EOT \<equiv> 0x00010000"
abbreviation UIQ_CONTROL_DATALOSS :: u32 where "UIQ_CONTROL_DATALOSS \<equiv> 0x00020000"
abbreviation UIQ_CONTROL_INSERT_TS :: u32 where "UIQ_CONTROL_INSERT_TS \<equiv> 0x00040000"
abbreviation UIQ_CONTROL_INVALID :: u32 where "UIQ_CONTROL_INVALID \<equiv> 0x80000000"

definition UIQ_CONTROL_IS_END_OF_TRANSMISSION :: "u32 \<Rightarrow> bool" where
  "UIQ_CONTROL_IS_END_OF_TRANSMISSION w \<longleftrightarrow> ARE_BITS_SET w UIQ_CONTROL_EOT"

definition UIQ_CONTROL_IS_INVALID :: "u32 \<Rightarrow> bool" where
  "UIQ_CONTROL_IS_INVALID w \<longleftrightarrow> ARE_BITS_SET w UIQ_CONTROL_INVALID"

definition UIQ_CONTROL_SHALL_INSERT_TIMESTAMP :: "u32 \<Rightarrow> bool" where
  "UIQ_CONTROL_SHALL_INSERT_TIMESTAMP w \<longleftrightarrow> ARE_BITS_SET w UIQ_CONTROL_INSERT_TS"

record uiq_timestamp =
  ts0 :: u32
  ts1 :: u32
  ts2 :: u32
  ts3 :: u32

definition ts_words :: "uiq_timestamp \<Rightarrow> u32 list" where
  "ts_words t = [ts0 t, ts1 t, ts2 t, ts3 t]"

text \<open>
  \<^verbatim>\<open>lib/os/linux/kernel/uiq_helper_os.c\<close>: the kernel time, less the offset in seconds, cut into
  16-bit chunks. Only the low 32 bits of the seconds enter (\<^verbatim>\<open>GET_BITS_32\<close> casts first).
\<close>

definition men_get_uiq_timestamp :: "u64 \<Rightarrow> u64 \<Rightarrow> u64 \<Rightarrow> uiq_timestamp" where
  "men_get_uiq_timestamp offset tv_sec tv_nsec =
     (let sec = ucast (tv_sec - offset) :: u32; nsec = ucast tv_nsec :: u32
      in \<lparr>ts0 = GET_BITS sec 0 15, ts1 = GET_BITS sec 16 31,
          ts2 = GET_BITS nsec 0 15, ts3 = GET_BITS nsec 16 31\<rparr>)"

record uiq_base =
  uiq_id :: u32
  channel_index :: u32
  uiq_type_of :: uiq_type
  read_protocol :: uiq_protocol
  capacity :: u32
  fill :: u32
  read_index :: u32
  uiq_data :: "u32 list"
  lost_words_count :: u32
  irq_count :: u32
  is_running :: bool
  last_words_were_lost :: bool
  last_word_was_eop :: bool
  data_register_offset :: u32
  fpga_fifo_depth :: u32

section \<open>Operations\<close>

definition is_empty :: "uiq_base \<Rightarrow> bool" where
  "is_empty q \<longleftrightarrow> fill q = 0"

definition is_full :: "uiq_base \<Rightarrow> bool" where
  "is_full q \<longleftrightarrow> fill q = capacity q"

definition get_free_capacity :: "uiq_base \<Rightarrow> u32" where
  "get_free_capacity q = capacity q - fill q"

text \<open>
  \<open>replace_buffer new_buffer new_size q\<close> gives the old buffer (the caller frees it) and the queue
  with its words moved to the start of the new buffer, whose previous content is \<open>new_buffer\<close>.
\<close>

definition replace_buffer :: "u32 list \<Rightarrow> u32 \<Rightarrow> uiq_base \<Rightarrow> u32 list \<times> uiq_base" where
  "replace_buffer new_buffer new_size q =
     (let words_to_copy = min (fill q) new_size;
          lost = (if fill q > words_to_copy then lost_words_count q + (fill q - words_to_copy)
                  else lost_words_count q);
          words_before = min (capacity q - read_index q) words_to_copy;
          before = take (unat words_before) (drop (unat (read_index q)) (uiq_data q));
          after = (if words_before < words_to_copy
                   then take (unat (words_to_copy - words_before)) (uiq_data q) else []);
          new_data = before @ after @ drop (unat words_to_copy) new_buffer
      in (uiq_data q,
          q\<lparr>uiq_data := new_data, fill := words_to_copy, read_index := 0,
            capacity := new_size, lost_words_count := lost\<rparr>))"

fun pop_loop :: "nat \<Rightarrow> uiq_base \<Rightarrow> u32 list \<times> uiq_base" where
  "pop_loop 0 q = ([], q)"
| "pop_loop (Suc n) q =
     (let w = uiq_data q ! unat (read_index q);
          (ws, q') = pop_loop n (q\<lparr>read_index := (read_index q + 1) mod capacity q\<rparr>)
      in (w # ws, q'))"

text \<open>The words written to \<^verbatim>\<open>target_buffer\<close>; their number is the C return value.\<close>

definition pop_front :: "uiq_base \<Rightarrow> u32 \<Rightarrow> u32 list \<times> uiq_base" where
  "pop_front q num_words_to_read =
     (let n = min num_words_to_read (fill q);
          (ws, q') = pop_loop (unat n) q
      in (ws, q'\<lparr>fill := fill q' - n\<rparr>))"

definition reset :: "uiq_base \<Rightarrow> uiq_base" where
  "reset q = q\<lparr>fill := 0, read_index := 0, lost_words_count := 0\<rparr>"

definition record_discarded_words :: "uiq_base \<Rightarrow> u32 \<Rightarrow> uiq_base" where
  "record_discarded_words q n =
     q\<lparr>lost_words_count := lost_words_count q + n, last_words_were_lost := True\<rparr>"

definition push_word :: "u32 \<Rightarrow> uiq_base \<Rightarrow> uiq_base" where
  "push_word w q =
     (let write_index = (read_index q + fill q) mod capacity q
      in q\<lparr>uiq_data := (uiq_data q)[unat write_index := w], fill := fill q + 1\<rparr>)"

definition push_back :: "uiq_base \<Rightarrow> u32 list \<Rightarrow> u32 \<times> uiq_base" where
  "push_back q words =
     (let num_words = of_nat (length words) :: u32;
          words_free = capacity q - fill q;
          words_lost = (if words_free < num_words then num_words - words_free else 0);
          n = min num_words words_free;
          q1 = fold push_word (take (unat n) words) q;
          q2 = (if words_lost = 0 then q1\<lparr>last_words_were_lost := False\<rparr>
                else record_discarded_words q1 words_lost)
      in (n, q2))"

definition push_back_decorated_with_timestamp_unchecked ::
    "uiq_base \<Rightarrow> u32 \<Rightarrow> uiq_timestamp \<Rightarrow> u32 \<times> uiq_base" where
  "push_back_decorated_with_timestamp_unchecked q d t =
     (let eot = (d AND UIQ_CONTROL_EOT \<noteq> 0);
          w0 = d AND NOT UIQ_CONTROL_EOT;
          w4 = (if eot then ts3 t OR UIQ_CONTROL_EOT else ts3 t)
      in push_back q [w0, ts0 t, ts1 t, ts2 t, w4])"

definition push_back_decorated_with_timestamp ::
    "uiq_base \<Rightarrow> u32 \<Rightarrow> uiq_timestamp \<Rightarrow> u32 \<times> uiq_base" where
  "push_back_decorated_with_timestamp q d t =
     (if get_free_capacity q < 5 then push_back q [d]
      else push_back_decorated_with_timestamp_unchecked q d t)"

text \<open>
  The pair of the pointers \<^verbatim>\<open>timestamp\<close> and \<^verbatim>\<open>is_timestamp_initialized\<close> is threaded through the
  grabber functions: within one interrupt the clock is read at most once.
\<close>

type_synonym ts_state = "uiq_timestamp \<times> bool"

definition init_timestamp_if_uninitialized :: "uiq_timestamp \<Rightarrow> ts_state \<Rightarrow> ts_state" where
  "init_timestamp_if_uninitialized now s = (if \<not> snd s then (now, True) else s)"

definition write_from_grabber_raw :: "uiq_base \<Rightarrow> u32 \<Rightarrow> uiq_base" where
  "write_from_grabber_raw q v = snd (push_back q [v])"

definition write_word_with_dataloss_flag_if_applicable ::
    "uiq_timestamp \<Rightarrow> uiq_base \<Rightarrow> u32 \<Rightarrow> ts_state \<Rightarrow> uiq_base \<times> ts_state" where
  "write_word_with_dataloss_flag_if_applicable now q v s =
     (let v' = (if last_words_were_lost q then v OR UIQ_CONTROL_DATALOSS else v)
      in if UIQ_CONTROL_SHALL_INSERT_TIMESTAMP v'
         then let s' = init_timestamp_if_uninitialized now s
              in (snd (push_back_decorated_with_timestamp q v' (fst s')), s')
         else (snd (push_back q [v']), s))"

definition write_from_grabber_legacy ::
    "uiq_timestamp \<Rightarrow> uiq_base \<Rightarrow> u32 \<Rightarrow> ts_state \<Rightarrow> uiq_base \<times> ts_state" where
  "write_from_grabber_legacy now q v s =
     (if \<not> UIQ_CONTROL_IS_INVALID v
      then write_word_with_dataloss_flag_if_applicable now q v s else (q, s))"

definition write_from_grabber_va_event ::
    "uiq_timestamp \<Rightarrow> uiq_base \<Rightarrow> u32 \<Rightarrow> ts_state \<Rightarrow> uiq_base \<times> ts_state" where
  "write_from_grabber_va_event now q v s =
     (if \<not> UIQ_CONTROL_IS_INVALID v
      then let (q1, s1) =
                 (if last_words_were_lost q \<and> \<not> last_word_was_eop q
                  then (record_discarded_words q 1, s)
                  else write_word_with_dataloss_flag_if_applicable now q v s)
           in (q1\<lparr>last_word_was_eop := UIQ_CONTROL_IS_END_OF_TRANSMISSION v\<rparr>, s1)
      else (q, s))"

fun write_from_grabber ::
    "uiq_timestamp \<Rightarrow> uiq_base \<Rightarrow> u32 \<Rightarrow> ts_state \<Rightarrow> uiq_base \<times> ts_state" where
  "write_from_grabber now q v s =
     (case read_protocol q of
        UIQ_PROTOCOL_RAW \<Rightarrow> (write_from_grabber_raw q v, s)
      | UIQ_PROTOCOL_LEGACY \<Rightarrow> write_from_grabber_legacy now q v s
      | UIQ_PROTOCOL_VA_EVENT \<Rightarrow> write_from_grabber_va_event now q v s)"

definition uiq_base_init ::
    "u32 \<Rightarrow> u32 list \<Rightarrow> u32 \<Rightarrow> u32 \<Rightarrow> uiq_type \<Rightarrow> uiq_protocol \<Rightarrow> u32 \<Rightarrow> u32 \<Rightarrow> uiq_base" where
  "uiq_base_init reg_offset buffer cap ident t protocol fifo_depth chan =
     \<lparr>uiq_id = ident, channel_index = chan, uiq_type_of = t, read_protocol = protocol,
      capacity = cap, fill = 0, read_index = 0, uiq_data = buffer,
      lost_words_count = 0, irq_count = 0, is_running = False,
      last_words_were_lost = False, last_word_was_eop = False,
      data_register_offset = reg_offset,
      fpga_fifo_depth = (if UIQ_TYPE_IS_WRITE t then fifo_depth else 0)\<rparr>"

section \<open>Well-formed queues and their contents\<close>

text \<open>
  A capacity is a number of 32-bit words of a buffer whose size in bytes is an
  \<^verbatim>\<open>unsigned int\<close> (\<^verbatim>\<open>men_scale_uiq\<close>), hence below \<open>2 ^ 30\<close>; ring arithmetic on
  \<^verbatim>\<open>uint32_t\<close> then never wraps.
\<close>

definition uiq_wf :: "uiq_base \<Rightarrow> bool" where
  "uiq_wf q \<longleftrightarrow> length (uiq_data q) = unat (capacity q) \<and> unat (capacity q) < 2 ^ 30
     \<and> fill q \<le> capacity q \<and> (read_index q < capacity q \<or> capacity q = 0 \<and> read_index q = 0)"

definition contents :: "uiq_base \<Rightarrow> u32 list" where
  "contents q = map (\<lambda>i. uiq_data q ! ((unat (read_index q) + i) mod unat (capacity q)))
                    [0..<unat (fill q)]"

definition free_words :: "uiq_base \<Rightarrow> nat" where
  "free_words q = unat (capacity q) - unat (fill q)"

lemma length_contents [simp]: "length (contents q) = unat (fill q)"
  by (simp add: contents_def)

lemma uiq_wf_nat:
  "uiq_wf q \<longleftrightarrow> length (uiq_data q) = unat (capacity q) \<and> unat (capacity q) < 1073741824
     \<and> unat (fill q) \<le> unat (capacity q)
     \<and> (unat (read_index q) < unat (capacity q) \<or> unat (capacity q) = 0 \<and> unat (read_index q) = 0)"
  by (simp add: uiq_wf_def word_le_nat_alt word_less_nat_alt unat_eq_zero)

lemma free_capacity_words: "uiq_wf q \<Longrightarrow> unat (get_free_capacity q) = free_words q"
  by (simp add: get_free_capacity_def free_words_def uiq_wf_nat unat_sub_u32)

section \<open>One word in, one word out\<close>

lemma push_word_unat:
  assumes "uiq_wf q" "0 < free_words q"
  shows "unat ((read_index q + fill q) mod capacity q)
           = (unat (read_index q) + unat (fill q)) mod unat (capacity q)"
    and "unat (fill q + 1) = Suc (unat (fill q))"
  using assms by (auto simp: uiq_wf_nat free_words_def unat_mod_u32 unat_add_u32 unat_Suc_u32)

lemma push_word_spec:
  assumes "uiq_wf q" "0 < free_words q"
  shows "uiq_wf (push_word w q)"
    and "contents (push_word w q) = contents q @ [w]"
    and "free_words (push_word w q) = free_words q - 1"
proof -
  let ?r = "unat (read_index q)" and ?c = "unat (capacity q)" and ?f = "unat (fill q)"
  have f: "?f < ?c" "length (uiq_data q) = ?c"
    using assms by (auto simp: uiq_wf_nat free_words_def)
  then have idx: "(?r + ?f) mod ?c < ?c" by simp
  show "uiq_wf (push_word w q)"
    using assms f by (auto simp: push_word_def Let_def uiq_wf_nat push_word_unat)
  show "contents (push_word w q) = contents q @ [w]"
    using f idx map_ring_update [OF f(1) f(2), where w = w and r = ?r]
    by (simp add: contents_def push_word_def Let_def push_word_unat [OF assms])
  show "free_words (push_word w q) = free_words q - 1"
    by (simp add: free_words_def push_word_def Let_def push_word_unat [OF assms])
qed

lemma push_word_frame [simp]:
  "capacity (push_word w q) = capacity q"
  "lost_words_count (push_word w q) = lost_words_count q"
  "last_words_were_lost (push_word w q) = last_words_were_lost q"
  "last_word_was_eop (push_word w q) = last_word_was_eop q"
  "read_protocol (push_word w q) = read_protocol q"
  by (simp_all add: push_word_def Let_def)

lemma fold_push_word_frame [simp]:
  "capacity (fold push_word ws q) = capacity q"
  "lost_words_count (fold push_word ws q) = lost_words_count q"
  "last_words_were_lost (fold push_word ws q) = last_words_were_lost q"
  "last_word_was_eop (fold push_word ws q) = last_word_was_eop q"
  "read_protocol (fold push_word ws q) = read_protocol q"
  by (induction ws arbitrary: q) simp_all

lemma fold_push_word_spec:
  assumes "uiq_wf q" "length ws \<le> free_words q"
  shows "uiq_wf (fold push_word ws q) \<and> contents (fold push_word ws q) = contents q @ ws"
  using assms
proof (induction ws arbitrary: q)
  case (Cons w ws)
  then have "0 < free_words q" by simp
  note s = push_word_spec [OF Cons.prems(1) this, of w]
  from Cons.prems have "length ws \<le> free_words (push_word w q)" by (simp add: s(3))
  from Cons.IH [OF s(1) this] show ?case by (simp add: s(2))
qed simp

lemma pop_loop_spec:
  assumes "uiq_wf q" "n \<le> unat (capacity q)"
  shows "pop_loop n q =
     (map (\<lambda>i. uiq_data q ! ((unat (read_index q) + i) mod unat (capacity q))) [0..<n],
      q\<lparr>read_index := word_of_nat ((unat (read_index q) + n) mod unat (capacity q))\<rparr>)"
  using assms
proof (induction n arbitrary: q)
  case 0
  then show ?case by (auto simp: uiq_wf_nat unat_eq_zero intro!: uiq_base.equality)
next
  case (Suc n)
  let ?r = "unat (read_index q)" and ?c = "unat (capacity q)"
  let ?q' = "q\<lparr>read_index := (read_index q + 1) mod capacity q\<rparr>"
  have r: "?r < ?c" and c: "?c < 1073741824" using Suc.prems by (auto simp: uiq_wf_nat)
  have r': "unat (read_index ?q') = Suc ?r mod ?c"
    using r c by (simp add: unat_mod_u32 unat_Suc_u32)
  have "uiq_wf ?q'" using Suc.prems(1) r r' by (auto simp: uiq_wf_nat)
  from Suc.IH [OF this] Suc.prems(2) r' have
    "pop_loop n ?q' = (map (\<lambda>i. uiq_data q ! ((?r + Suc i) mod ?c)) [0..<n],
       q\<lparr>read_index := word_of_nat ((?r + Suc n) mod ?c)\<rparr>)"
    by (simp add: mod_simps)
  moreover have "[0..<Suc n] = 0 # map Suc [0..<n]"
    by (simp add: map_Suc_upt upt_conv_Cons del: upt_Suc)
  ultimately show ?case using r by (simp add: o_def del: upt_Suc)
qed

section \<open>Functional behaviour of the operations\<close>

definition kept_words :: "uiq_base \<Rightarrow> u32 list \<Rightarrow> u32 list" where
  "kept_words q ws = take (free_words q) ws"

lemma push_back_unfold:
  assumes "uiq_wf q" "length ws < 4294967296"
  shows "push_back q ws =
     (of_nat (length (kept_words q ws)),
      (fold push_word (kept_words q ws) q)
        \<lparr>lost_words_count := lost_words_count q + of_nat (length ws - free_words q),
         last_words_were_lost := free_words q < length ws\<rparr>)"
proof -
  let ?n = "of_nat (length ws) :: u32" and ?f = "capacity q - fill q"
  have f: "unat ?f = free_words q"
    using free_capacity_words [OF assms(1)] by (simp add: get_free_capacity_def)
  have n: "unat ?n = length ws" using assms(2) by simp
  have lt: "?f < ?n \<longleftrightarrow> free_words q < length ws" by (simp add: word_less_nat_alt f n)
  have m: "unat (min ?n ?f) = min (length ws) (free_words q)" by (simp add: unat_min_u32 f n)
  have take: "take (unat (min ?n ?f)) ws = kept_words q ws"
    unfolding m kept_words_def by (simp add: min_def)
  have fst: "min ?n ?f = of_nat (length (kept_words q ws))"
  proof -
    have "length (kept_words q ws) < 4294967296" using assms(2) by (simp add: kept_words_def)
    then show ?thesis
      unfolding word_unat_eq_iff m by (simp add: kept_words_def)
  qed
  have lost: "(if ?f < ?n then ?n - ?f else 0) = of_nat (length ws - free_words q)"
  proof (cases "?f < ?n")
    case True
    then have "unat (?n - ?f) = length ws - free_words q"
      by (simp add: unat_sub_u32 word_less_nat_alt f n)
    with True assms(2) show ?thesis by (simp add: word_unat_eq_iff)
  next
    case False
    then show ?thesis by (simp add: lt)
  qed
  have zero: "(of_nat (length ws - free_words q) :: u32) = 0 \<longleftrightarrow> \<not> free_words q < length ws"
    using assms(2) u32_of_nat_eq_0 [of "length ws - free_words q"] by auto
  show ?thesis
    unfolding push_back_def Let_def take lost zero
    by (simp add: fst record_discarded_words_def)
qed

lemma push_back_spec:
  assumes "uiq_wf q" "length ws < 4294967296"
  shows "uiq_wf (snd (push_back q ws))"
    and "contents (snd (push_back q ws)) = contents q @ kept_words q ws"
    and "capacity (snd (push_back q ws)) = capacity q"
    and "lost_words_count (snd (push_back q ws))
           = lost_words_count q + of_nat (length ws - free_words q)"
    and "last_words_were_lost (snd (push_back q ws)) \<longleftrightarrow> free_words q < length ws"
    and "last_word_was_eop (snd (push_back q ws)) = last_word_was_eop q"
    and "read_protocol (snd (push_back q ws)) = read_protocol q"
    and "unat (fst (push_back q ws)) = min (length ws) (free_words q)"
proof -
  have k: "length (kept_words q ws) \<le> free_words q" by (simp add: kept_words_def)
  note s = fold_push_word_spec [OF assms(1) k]
  show "uiq_wf (snd (push_back q ws))"
    using s by (simp add: push_back_unfold [OF assms] uiq_wf_def)
  show "contents (snd (push_back q ws)) = contents q @ kept_words q ws"
    using s by (simp add: push_back_unfold [OF assms] contents_def)
  show "unat (fst (push_back q ws)) = min (length ws) (free_words q)"
    using assms(2) by (simp add: push_back_unfold [OF assms] kept_words_def min_def)
qed (simp_all add: push_back_unfold [OF assms])

lemma pop_front_spec:
  assumes "uiq_wf q"
  shows "fst (pop_front q n) = take (unat n) (contents q)"
    and "contents (snd (pop_front q n)) = drop (unat n) (contents q)"
    and "uiq_wf (snd (pop_front q n))"
    and "capacity (snd (pop_front q n)) = capacity q"
    and "lost_words_count (snd (pop_front q n)) = lost_words_count q"
proof -
  let ?m = "min n (fill q)"
  let ?r = "unat (read_index q)" and ?c = "unat (capacity q)"
  have m: "unat ?m = min (unat n) (unat (fill q))" by (rule unat_min_u32)
  have le: "unat ?m \<le> ?c" using assms by (auto simp: m uiq_wf_nat)
  note p = pop_loop_spec [OF assms le]
  have sub: "unat (fill q - ?m) = unat (fill q) - unat ?m"
    by (rule unat_sub_u32) (simp add: m)
  have lt: "(?r + unat ?m) mod ?c < 4294967296"
  proof (cases "?c = 0")
    case True
    with assms le show ?thesis by (auto simp: uiq_wf_nat)
  next
    case False
    then have "(?r + unat ?m) mod ?c < ?c" by simp
    also have "?c < 4294967296" by simp
    finally show ?thesis .
  qed
  have eq: "pop_front q n =
     (map (\<lambda>i. uiq_data q ! ((?r + i) mod ?c)) [0..<unat ?m],
      q\<lparr>read_index := word_of_nat ((?r + unat ?m) mod ?c), fill := fill q - ?m\<rparr>)"
    unfolding pop_front_def Let_def p by simp
  show "fst (pop_front q n) = take (unat n) (contents q)"
    unfolding eq fst_conv contents_def take_map take_upt_min unfolding m ..
  show "contents (snd (pop_front q n)) = drop (unat n) (contents q)"
  proof (rule nth_equalityI)
    show "length (contents (snd (pop_front q n))) = length (drop (unat n) (contents q))"
      by (simp add: eq sub m)
    fix i assume "i < length (contents (snd (pop_front q n)))"
    then have i: "i < unat (fill q) - unat ?m" by (simp add: eq sub)
    then have mn: "unat ?m = unat n" by (simp add: m min_def split: if_splits)
    with i have "unat n + i < unat (fill q)" "i < unat (fill q - ?m)" by (simp_all add: sub)
    with lt mn show "contents (snd (pop_front q n)) ! i = drop (unat n) (contents q) ! i"
      by (simp add: eq contents_def mod_simps add.assoc)
  qed
  show "uiq_wf (snd (pop_front q n))"
    using assms lt sub le by (auto simp: eq uiq_wf_nat)
  show "capacity (snd (pop_front q n)) = capacity q"
    "lost_words_count (snd (pop_front q n)) = lost_words_count q"
    by (simp_all add: eq)
qed

end
