(* ===== verification/Uiq_Props.thy ===== *)
theory Uiq_Props
  imports Uiq
begin

text \<open>
  Properties of the ring buffer of \<^verbatim>\<open>uiq_base.c\<close>: it refines an abstract bounded queue with a
  loss counter, keeps the order of the words over any history of pushes and pops, survives a
  change of its buffer, and follows the data-loss protocol of the grabber words.
\<close>

section \<open>Changing the buffer\<close>

lemma replace_buffer_spec:
  assumes wf: "uiq_wf q" and len: "length nb = unat sz" and sz: "unat sz < 2 ^ 30"
  defines "q' \<equiv> snd (replace_buffer nb sz q)"
  shows "uiq_wf q'" and "contents q' = take (unat sz) (contents q)"
    and "lost_words_count q' = lost_words_count q + of_nat (unat (fill q) - unat sz)"
    and "fst (replace_buffer nb sz q) = uiq_data q"
proof -
  let ?r = "unat (read_index q)" and ?c = "unat (capacity q)" and ?f = "unat (fill q)"
  let ?m = "min (fill q) sz" and ?b = "min (capacity q - read_index q) (min (fill q) sz)"
  have r: "?r \<le> ?c" and f: "?f \<le> ?c" and d: "length (uiq_data q) = ?c"
    using wf by (auto simp: uiq_wf_nat)
  have m: "unat ?m = min ?f (unat sz)" by (rule unat_min_u32)
  have b: "unat ?b = min (?c - ?r) (min ?f (unat sz))"
    unfolding unat_min_u32 by (simp add: unat_sub_u32 r)
  have lt: "?b < ?m \<longleftrightarrow> ?c - ?r < min ?f (unat sz)"
    unfolding word_less_nat_alt b m by auto
  have rest: "unat (?m - ?b) = unat ?m - unat ?b"
    by (rule unat_sub_u32) (simp add: b m min.coboundedI2)
  let ?n = "min ?f (unat sz)"
  let ?after = "if ?b < ?m then take (unat (?m - ?b)) (uiq_data q) else []"
  let ?front = "take (unat ?b) (drop ?r (uiq_data q)) @ ?after"
  have "?n \<le> ?c" using f by simp
  then have front: "?front = take (unat sz) (contents q)"
    using ring_copy [OF r _ d, of ?n]
    unfolding contents_def take_map take_upt_min word_less_nat_alt rest m b
    by (simp only: min.commute [of "unat sz"])
  have front2: "take (unat ?b) (drop ?r (uiq_data q)) @ ?after @ xs
      = take (unat sz) (contents q) @ xs" for xs
    by (subst append_assoc [symmetric], subst front, rule refl)
  have q': "q' = q\<lparr>uiq_data := take (unat sz) (contents q) @ drop ?n nb, fill := ?m,
      read_index := 0, capacity := sz,
      lost_words_count := (if fill q > ?m then lost_words_count q + (fill q - ?m)
                           else lost_words_count q)\<rparr>"
    unfolding q'_def replace_buffer_def Let_def snd_conv m front2 ..
  have fill': "unat (fill q') = ?n" unfolding q' m [symmetric] by simp
  have sel: "read_index q' = 0" "capacity q' = sz"
    "uiq_data q' = take (unat sz) (contents q) @ drop ?n nb"
    by (simp_all add: q')
  show "uiq_wf q'"
    using len sz by (auto simp: sel fill' uiq_wf_nat)
  show "contents q' = take (unat sz) (contents q)"
  proof (rule nth_equalityI)
    show "length (contents q') = length (take (unat sz) (contents q))"
      by (simp add: fill' min.commute)
    fix i assume "i < length (contents q')"
    then have "i < ?n" by (simp add: fill')
    then show "contents q' ! i = take (unat sz) (contents q) ! i"
      unfolding contents_def [of q'] sel fill' by (simp add: nth_append)
  qed
  have "fill q > ?m \<Longrightarrow> unat (fill q - ?m) = ?f - unat sz"
    using m by (simp add: unat_sub_u32)
  then show "lost_words_count q' = lost_words_count q + of_nat (?f - unat sz)"
    using m by (auto simp: q' word_unat_eq_iff word_less_nat_alt)
  show "fst (replace_buffer nb sz q) = uiq_data q" by (simp add: replace_buffer_def Let_def)
qed

section \<open>The abstract queue\<close>

record abs_queue =
  aq_words :: "u32 list"
  aq_capacity :: nat
  aq_lost :: u32
  aq_lossy :: bool

definition abs_uiq :: "uiq_base \<Rightarrow> abs_queue" where
  "abs_uiq q = \<lparr>aq_words = contents q, aq_capacity = unat (capacity q),
                aq_lost = lost_words_count q, aq_lossy = last_words_were_lost q\<rparr>"

definition abs_push :: "u32 list \<Rightarrow> abs_queue \<Rightarrow> abs_queue" where
  "abs_push ws a =
     (let room = aq_capacity a - length (aq_words a)
      in a\<lparr>aq_words := aq_words a @ take room ws,
           aq_lost := aq_lost a + of_nat (length ws - room),
           aq_lossy := room < length ws\<rparr>)"

definition abs_pop :: "nat \<Rightarrow> abs_queue \<Rightarrow> u32 list \<times> abs_queue" where
  "abs_pop n a = (take n (aq_words a), a\<lparr>aq_words := drop n (aq_words a)\<rparr>)"

definition abs_resize :: "nat \<Rightarrow> abs_queue \<Rightarrow> abs_queue" where
  "abs_resize n a = a\<lparr>aq_words := take n (aq_words a), aq_capacity := n,
                      aq_lost := aq_lost a + of_nat (length (aq_words a) - n)\<rparr>"

lemma pop_front_flag: "last_words_were_lost (snd (pop_front q n)) = last_words_were_lost q"
proof -
  have "last_words_were_lost (snd (pop_loop k p)) = last_words_were_lost p" for k p
    by (induction k arbitrary: p) (simp_all add: Let_def case_prod_beta)
  then show ?thesis by (simp add: pop_front_def Let_def case_prod_beta)
qed

lemma abs_push_back:
  assumes "uiq_wf q" "length ws < 4294967296"
  shows "abs_uiq (snd (push_back q ws)) = abs_push ws (abs_uiq q)"
  using push_back_spec [OF assms]
  by (simp add: abs_uiq_def abs_push_def Let_def kept_words_def free_words_def)

lemma abs_pop_front:
  assumes "uiq_wf q"
  shows "(fst (pop_front q n), abs_uiq (snd (pop_front q n))) = abs_pop (unat n) (abs_uiq q)"
  using pop_front_spec [OF assms] by (simp add: abs_uiq_def abs_pop_def pop_front_flag)

lemma abs_replace_buffer:
  assumes "uiq_wf q" "length nb = unat sz" "unat sz < 2 ^ 30"
  shows "abs_uiq (snd (replace_buffer nb sz q)) = abs_resize (unat sz) (abs_uiq q)"
  using replace_buffer_spec [OF assms]
  by (simp add: abs_uiq_def abs_resize_def) (simp add: replace_buffer_def Let_def)

section \<open>The queue contract\<close>

definition uiq_room :: "uiq_base \<Rightarrow> u32 list \<Rightarrow> bool" where
  "uiq_room q ws \<longleftrightarrow> length ws \<le> free_words q"

definition uiq_put :: "u32 \<Rightarrow> uiq_base \<Rightarrow> uiq_base" where
  "uiq_put w q = snd (push_back q [w])"

definition uiq_get :: "uiq_base \<Rightarrow> u32 option \<times> uiq_base" where
  "uiq_get q = (case pop_front q 1 of
      ([], q') \<Rightarrow> (None, q') | (w # _, q') \<Rightarrow> (Some w, q'))"

lemma uiq_get_alt:
  "uiq_get q = ((case fst (pop_front q 1) of [] \<Rightarrow> None | w # _ \<Rightarrow> Some w), snd (pop_front q 1))"
  by (auto simp: uiq_get_def split: prod.splits list.splits)

interpretation uiq: fifo uiq_wf contents uiq_room uiq_put uiq_get
proof unfold_locales
  fix s :: uiq_base and x :: u32 and xs :: "u32 list"
  assume wf: "uiq_wf s"
  have sp: "length [x] < 4294967296" by simp
  note p = push_back_spec [OF wf sp]
  { assume room: "uiq_room s (x # xs)"
    show "uiq_wf (uiq_put x s)" by (simp add: uiq_put_def p)
    show c: "contents (uiq_put x s) = contents s @ [x]"
      using room by (simp add: uiq_put_def p uiq_room_def kept_words_def take_Cons')
    have "unat (fill (uiq_put x s)) = Suc (unat (fill s))"
      using arg_cong [OF c, of length] by simp
    with room show "uiq_room (uiq_put x s) xs"
      by (simp add: uiq_room_def free_words_def uiq_put_def p) }
  note g = pop_front_spec [OF wf, of 1]
  show "contents s = [] \<Longrightarrow> fst (uiq_get s) = None" by (simp add: uiq_get_alt g)
  show "contents s = x # xs \<Longrightarrow> fst (uiq_get s) = Some x" by (simp add: uiq_get_alt g)
  show "contents (snd (uiq_get s)) = tl (contents s)" by (simp add: uiq_get_alt g drop_Suc)
  show "uiq_wf (snd (uiq_get s))" by (simp add: uiq_get_alt g)
qed

section \<open>Word by word is the same as in one burst\<close>

lemma push_back_Cons:
  assumes "uiq_wf q" "ws \<noteq> []" "length (w # ws) < 4294967296"
  shows "snd (push_back (snd (push_back q [w])) ws) = snd (push_back q (w # ws))"
proof -
  let ?q1 = "snd (push_back q [w])"
  have l: "length [w] < 4294967296" "length ws < 4294967296" using assms(3) by simp_all
  note p1 = push_back_spec [OF assms(1) l(1)]
  have fr: "free_words ?q1 = free_words q - 1"
    using arg_cong [OF p1(2), of length] p1(3)
    by (simp add: free_words_def kept_words_def min_def split: if_splits)
  have lost: "(of_nat (Suc 0 - free_words q) :: u32) + of_nat (length ws - (free_words q - Suc 0))
       = of_nat (Suc (length ws) - free_words q)"
    unfolding of_nat_add [symmetric] by (rule arg_cong [where f = of_nat]) auto
  have kept: "fold push_word (kept_words ?q1 ws)
       (fold push_word (kept_words q [w]) q) = fold push_word (kept_words q (w # ws)) q"
    by (cases "free_words q") (simp_all add: kept_words_def fr)
  have upd: "fold push_word us (p\<lparr>lost_words_count := a, last_words_were_lost := b\<rparr>)
      = (fold push_word us p)\<lparr>lost_words_count := a, last_words_were_lost := b\<rparr>" for us p a b
  proof (induction us arbitrary: p)
    case (Cons u us)
    have "push_word u (p\<lparr>lost_words_count := a, last_words_were_lost := b\<rparr>)
        = (push_word u p)\<lparr>lost_words_count := a, last_words_were_lost := b\<rparr>"
      by (rule uiq_base.equality) (simp_all add: push_word_def Let_def)
    then show ?case by (simp only: fold.simps o_apply Cons)
  qed simp
  have flag: "free_words q - Suc 0 < length ws \<longleftrightarrow> free_words q < Suc (length ws)"
    using assms(2) by (cases ws) auto
  show ?thesis
    unfolding push_back_unfold [OF p1(1) l(2)] push_back_unfold [OF assms(1,3)]
      fr p1(4)
    unfolding push_back_unfold [OF assms(1) l(1)] snd_conv upd
    using kept [unfolded push_back_unfold [OF assms(1) l(1)] snd_conv]
    by (simp add: lost flag add.assoc)
qed

lemma push_back_singles:
  assumes "uiq_wf q" "ws \<noteq> []" "length ws < 4294967296"
  shows "fold uiq_put ws q = snd (push_back q ws)"
  using assms(2,1,3)
proof (induction ws arbitrary: q rule: list_nonempty_induct)
  case (single x)
  then show ?case by (simp add: uiq_put_def)
next
  case (cons x xs)
  then have "uiq_wf (uiq_put x q)" unfolding uiq_put_def by (intro push_back_spec(1)) auto
  with cons show ?case
    by (simp add: push_back_Cons [OF cons.prems(1) cons.hyps(1)] uiq_put_def)
qed

section \<open>Histories of pushes and pops\<close>

datatype uiq_op = Push "u32 list" | Pop u32

text \<open>A history gives the words that went in, the words that came out, and the queue.\<close>

fun run_ops :: "uiq_op list \<Rightarrow> uiq_base \<Rightarrow> u32 list \<times> u32 list \<times> uiq_base" where
  "run_ops [] q = ([], [], q)"
| "run_ops (Push ws # ops) q =
     (let (n, q1) = push_back q ws; (i, out, q2) = run_ops ops q1
      in (take (unat n) ws @ i, out, q2))"
| "run_ops (Pop n # ops) q =
     (let (ws, q1) = pop_front q n; (i, out, q2) = run_ops ops q1
      in (i, ws @ out, q2))"

fun op_fits :: "uiq_op \<Rightarrow> bool" where
  "op_fits (Push ws) \<longleftrightarrow> length ws < 4294967296"
| "op_fits (Pop n) \<longleftrightarrow> True"

lemma run_ops_spec:
  assumes "uiq_wf q" "list_all op_fits ops" "run_ops ops q = (i, out, q')"
  shows "contents q @ i = out @ contents q' \<and> uiq_wf q' \<and> capacity q' = capacity q"
  using assms
proof (induction ops q arbitrary: i out q' rule: run_ops.induct)
  case (1 q)
  then show ?case by simp
next
  case (2 ws ops q)
  then have l: "length ws < 4294967296" by simp
  note p = push_back_spec [OF 2(2) l]
  obtain n q1 where e: "push_back q ws = (n, q1)" by fastforce
  obtain i' where r: "run_ops ops q1 = (i', out, q')" and i: "i = take (unat n) ws @ i'"
    using 2(4) by (auto simp: e split: prod.splits)
  have "take (unat n) ws = kept_words q ws"
    using p(8) by (simp add: e kept_words_def min_def)
  with 2(1) [OF e [symmetric] refl _ _ r] p e i 2(3) show ?case by simp
next
  case (3 n ops q)
  note p = pop_front_spec [OF 3(2), of n]
  obtain ws q1 where e: "pop_front q n = (ws, q1)" by fastforce
  obtain out' where r: "run_ops ops q1 = (i, out', q')" and o: "out = ws @ out'"
    using 3(4) by (auto simp: e split: prod.splits)
  have "contents q = ws @ contents q1" using p(1,2) e by simp
  with 3(1) [OF e [symmetric] refl _ _ r] p e o 3(3) show ?case by simp
qed

section \<open>The grabber words\<close>

lemma push_decorated_burst:
  "\<exists>ws. push_back_decorated_with_timestamp q d t = push_back q ws \<and> length ws \<le> 5"
proof (cases "get_free_capacity q < 5")
  case True
  then show ?thesis
    by (intro exI [of _ "[d]"]) (simp add: push_back_decorated_with_timestamp_def)
next
  case False
  then show ?thesis
    by (intro exI [of _ "[d AND NOT UIQ_CONTROL_EOT, ts0 t, ts1 t, ts2 t,
        if d AND UIQ_CONTROL_EOT \<noteq> 0 then ts3 t OR UIQ_CONTROL_EOT else ts3 t]"])
      (simp add: push_back_decorated_with_timestamp_def
        push_back_decorated_with_timestamp_unchecked_def Let_def)
qed

lemma write_word_spec:
  assumes wf: "uiq_wf q"
  shows "uiq_wf (fst (write_word_with_dataloss_flag_if_applicable now q v s))"
    and "\<exists>ws. contents (fst (write_word_with_dataloss_flag_if_applicable now q v s))
           = contents q @ ws \<and> length ws \<le> 5"
    and "read_protocol (fst (write_word_with_dataloss_flag_if_applicable now q v s))
           = read_protocol q"
proof -
  let ?w = "write_word_with_dataloss_flag_if_applicable now q v s"
  obtain ws where ws: "fst ?w = snd (push_back q ws)" "length ws \<le> 5"
  proof (cases "UIQ_CONTROL_SHALL_INSERT_TIMESTAMP
      (if last_words_were_lost q then v OR UIQ_CONTROL_DATALOSS else v)")
    case False
    then show ?thesis
      using that by (force simp: write_word_with_dataloss_flag_if_applicable_def Let_def)
  next
    case True
    let ?v = "if last_words_were_lost q then v OR UIQ_CONTROL_DATALOSS else v"
    let ?t = "fst (init_timestamp_if_uninitialized now s)"
    have fst: "fst ?w = snd (push_back_decorated_with_timestamp q ?v ?t)"
      using True by (simp add: write_word_with_dataloss_flag_if_applicable_def Let_def)
    show ?thesis
      using push_decorated_burst [of q ?v ?t] that unfolding fst by metis
  qed
  then have l: "length ws < 4294967296" by simp
  note p = push_back_spec [OF wf l]
  show "uiq_wf (fst ?w)" "read_protocol (fst ?w) = read_protocol q" by (simp_all add: ws p)
  show "\<exists>ws. contents (fst ?w) = contents q @ ws \<and> length ws \<le> 5"
    using ws(2) by (auto simp: ws(1) p kept_words_def)
qed

lemma uiq_wf_flags [simp]:
  "uiq_wf (q\<lparr>last_word_was_eop := b\<rparr>) = uiq_wf q"
  "uiq_wf (record_discarded_words q n) = uiq_wf q"
  "contents (q\<lparr>last_word_was_eop := b\<rparr>) = contents q"
  "contents (record_discarded_words q n) = contents q"
  "read_protocol (record_discarded_words q n) = read_protocol q"
  by (simp_all add: uiq_wf_def contents_def record_discarded_words_def)

lemma write_from_grabber_wf:
  assumes "uiq_wf q"
  shows "uiq_wf (fst (write_from_grabber now q v s))"
    and "read_protocol (fst (write_from_grabber now q v s)) = read_protocol q"
  using write_word_spec [OF assms, of now v s] assms push_back_spec(1,7) [OF assms, of "[v]"]
  by (auto simp: write_from_grabber_legacy_def write_from_grabber_va_event_def
    write_from_grabber_raw_def case_prod_beta Let_def split: uiq_protocol.split)

text \<open>A run of the grabber function over the words of a packet.\<close>

fun grab_words :: "uiq_timestamp \<Rightarrow> u32 list \<Rightarrow> uiq_base \<times> ts_state \<Rightarrow> uiq_base \<times> ts_state" where
  "grab_words now [] c = c"
| "grab_words now (w # ws) c = grab_words now ws (write_from_grabber now (fst c) w (snd c))"

lemma grab_words_append:
  "grab_words now (us @ ws) c = grab_words now ws (grab_words now us c)"
  by (induction us arbitrary: c) simp_all

lemma grab_words_wf:
  "uiq_wf (fst c) \<Longrightarrow> uiq_wf (fst (grab_words now ws c))
     \<and> read_protocol (fst (grab_words now ws c)) = read_protocol (fst c)"
  by (induction ws arbitrary: c) (auto simp: write_from_grabber_wf simp del: write_from_grabber.simps)

lemma va_event_discard_step:
  assumes "read_protocol q = UIQ_PROTOCOL_VA_EVENT" "last_words_were_lost q"
    "\<not> last_word_was_eop q" "\<not> UIQ_CONTROL_IS_INVALID v"
  shows "write_from_grabber now q v s =
     (q\<lparr>lost_words_count := lost_words_count q + 1,
        last_word_was_eop := UIQ_CONTROL_IS_END_OF_TRANSMISSION v\<rparr>, s)"
  using assms
  by (auto simp: write_from_grabber_va_event_def record_discarded_words_def intro!: uiq_base.equality)

lemma va_event_discard_run:
  assumes "read_protocol q = UIQ_PROTOCOL_VA_EVENT" "last_words_were_lost q"
    "\<not> last_word_was_eop q"
    "\<forall>v \<in> set ws. \<not> UIQ_CONTROL_IS_INVALID v \<and> \<not> UIQ_CONTROL_IS_END_OF_TRANSMISSION v"
  shows "grab_words now ws (q, s) =
     (q\<lparr>lost_words_count := lost_words_count q + of_nat (length ws)\<rparr>, s)"
  using assms
proof (induction ws arbitrary: q)
  case (Cons v ws)
  let ?q = "q\<lparr>lost_words_count := lost_words_count q + 1, last_word_was_eop := False\<rparr>"
  have "write_from_grabber now q v s = (?q, s)"
    using Cons.prems by (subst va_event_discard_step) auto
  moreover have "?q = q\<lparr>lost_words_count := lost_words_count q + 1\<rparr>"
    using Cons.prems by (auto intro!: uiq_base.equality)
  moreover have "grab_words now ws (?q, s) =
      (?q\<lparr>lost_words_count := lost_words_count ?q + of_nat (length ws)\<rparr>, s)"
    using Cons.prems by (intro Cons.IH) auto
  ultimately show ?case by (simp add: add.assoc)
qed simp

lemma insert_ts_ignores_dataloss:
  "UIQ_CONTROL_SHALL_INSERT_TIMESTAMP (v OR UIQ_CONTROL_DATALOSS)
     = UIQ_CONTROL_SHALL_INSERT_TIMESTAMP v"
  by (simp add: UIQ_CONTROL_SHALL_INSERT_TIMESTAMP_def ARE_BITS_SET_def word_ao_dist)

section \<open>Properties\<close>

text \<open>C6: \<^verbatim>\<open>push_back\<close> refines the abstract bounded queue: it appends the longest prefix of the
  words that fits, returns its length, adds the number of the other words to the loss counter,
  sets the loss flag exactly when a word was lost, and keeps the ring well-formed.\<close>

theorem push_back_refines_bounded_queue:
  assumes "uiq_wf q" "length ws < 4294967296"
  shows "abs_uiq (snd (push_back q ws)) = abs_push ws (abs_uiq q)
    \<and> unat (fst (push_back q ws)) = min (length ws) (unat (capacity q) - length (contents q))
    \<and> uiq_wf (snd (push_back q ws))"
  using abs_push_back [OF assms] push_back_spec [OF assms] by (simp add: free_words_def)

definition demo_stamp :: uiq_timestamp where
  "demo_stamp = \<lparr>ts0 = 1, ts1 = 2, ts2 = 3, ts3 = 4\<rparr>"

definition demo_uiq :: uiq_base where
  "demo_uiq = (uiq_base_init 16 [0, 0, 0, 0] 4 7 UIQ_TYPE_READ UIQ_PROTOCOL_VA_EVENT 0 0)
     \<lparr>uiq_data := [1, 2, 3, 4], fill := 3, read_index := 2\<rparr>"

lemma demo_uiq_wf: "uiq_wf demo_uiq"
  by (simp add: demo_uiq_def uiq_wf_def uiq_base_init_def)

lemma demo_uiq_contents: "contents demo_uiq = [3, 4, 1]"
  by (simp add: demo_uiq_def contents_def uiq_base_init_def upt_rec)

theorem push_back_refines_bounded_queue_witness:
  "uiq_wf demo_uiq \<and> contents (snd (push_back demo_uiq [8, 9])) = [3, 4, 1, 8]
   \<and> lost_words_count (snd (push_back demo_uiq [8, 9])) = 1"
proof -
  have "abs_uiq (snd (push_back demo_uiq [8, 9])) = abs_push [8, 9] (abs_uiq demo_uiq)"
    using push_back_refines_bounded_queue [OF demo_uiq_wf, of "[8, 9]"] by simp
  then show ?thesis
    using demo_uiq_wf
    by (simp add: abs_uiq_def abs_push_def demo_uiq_contents)
      (simp add: demo_uiq_def uiq_base_init_def)
qed

text \<open>C7: over any history of pushes and pops, the words that came out followed by the words still
  queued are the words queued at the start followed by the words accepted, in order: nothing is
  reordered, duplicated or silently dropped, across every wrap-around of the ring.\<close>

theorem uiq_history_is_fifo:
  assumes "uiq_wf q" "list_all op_fits ops" "run_ops ops q = (accepted, popped, q')"
  shows "contents q @ accepted = popped @ contents q'"
  using run_ops_spec [OF assms] by blast

theorem uiq_history_is_fifo_witness:
  "contents demo_uiq @ fst (run_ops [Pop 2, Push [5, 6, 7, 8], Pop 9] demo_uiq)
     = [3, 4, 1, 5, 6, 7]"
proof -
  obtain acc popped q' where r:
    "run_ops [Pop 2, Push [5, 6, 7, 8], Pop 9] demo_uiq = (acc, popped, q')"
    by (metis prod_cases3)
  have "contents demo_uiq @ acc = popped @ contents q'"
    by (rule uiq_history_is_fifo [OF demo_uiq_wf _ r]) simp
  moreover have "fst (run_ops [Pop 2, Push [5, 6, 7, 8], Pop 9] demo_uiq) = [5, 6, 7]"
    by code_simp
  ultimately show ?thesis by (simp add: r demo_uiq_contents)
qed

text \<open>Exchanging the buffer (\<^verbatim>\<open>replace_buffer\<close>, behind the size attribute) keeps the oldest
  words that fit into the new buffer in order, counts every other queued word as lost, hands the
  old buffer back to be freed, and leaves a well-formed ring, wherever the old ring wrapped.\<close>

theorem replace_buffer_keeps_oldest:
  assumes "uiq_wf q" "length nb = unat sz" "unat sz < 2 ^ 30"
  shows "abs_uiq (snd (replace_buffer nb sz q)) = abs_resize (unat sz) (abs_uiq q)
    \<and> uiq_wf (snd (replace_buffer nb sz q)) \<and> fst (replace_buffer nb sz q) = uiq_data q"
  using abs_replace_buffer [OF assms] replace_buffer_spec [OF assms] by blast

theorem replace_buffer_keeps_oldest_witness:
  "contents (snd (replace_buffer [0, 0] 2 demo_uiq)) = [3, 4]"
proof -
  have "abs_uiq (snd (replace_buffer [0, 0] 2 demo_uiq)) = abs_resize (unat (2 :: u32)) (abs_uiq demo_uiq)"
    using replace_buffer_keeps_oldest [OF demo_uiq_wf, of "[0, 0]" 2] by simp
  then show ?thesis by (simp add: abs_uiq_def abs_resize_def demo_uiq_contents)
qed

text \<open>The data-loss protocol of event queues. Once words were lost inside a packet, every
  further word up to and including the end-of-packet word is discarded and counted, so no torn
  packet is queued; the first word of the next packet that finds room is queued with the
  data-loss flag set, and the loss state is cleared.\<close>

theorem va_event_resynchronises:
  assumes wf: "uiq_wf q" and p: "read_protocol q = UIQ_PROTOCOL_VA_EVENT"
    and lost: "last_words_were_lost q" "\<not> last_word_was_eop q"
    and body: "\<forall>v \<in> set ws. \<not> UIQ_CONTROL_IS_INVALID v \<and> \<not> UIQ_CONTROL_IS_END_OF_TRANSMISSION v"
    and eop: "\<not> UIQ_CONTROL_IS_INVALID e" "UIQ_CONTROL_IS_END_OF_TRANSMISSION e"
    and hdr: "\<not> UIQ_CONTROL_IS_INVALID h" "\<not> UIQ_CONTROL_SHALL_INSERT_TIMESTAMP h"
    and room: "0 < free_words q"
  shows "let q' = fst (grab_words now (ws @ [e, h]) (q, s)) in
      contents q' = contents q @ [h OR UIQ_CONTROL_DATALOSS]
    \<and> lost_words_count q' = lost_words_count q + of_nat (Suc (length ws))
    \<and> \<not> last_words_were_lost q'"
proof -
  let ?q' = "fst (grab_words now (ws @ [e, h]) (q, s))"
  let ?q1 = "q\<lparr>lost_words_count := lost_words_count q + of_nat (length ws)\<rparr>"
  let ?q2 = "?q1\<lparr>lost_words_count := lost_words_count ?q1 + 1, last_word_was_eop := True\<rparr>"
  have 1: "grab_words now ws (q, s) = (?q1, s)"
    by (rule va_event_discard_run [OF p lost body])
  have 2: "write_from_grabber now ?q1 e s = (?q2, s)"
    using p lost eop by (subst va_event_discard_step) auto
  have wf2: "uiq_wf ?q2" using wf by (simp add: uiq_wf_def)
  have l: "length [h OR UIQ_CONTROL_DATALOSS] < 4294967296" by simp
  note pb = push_back_spec [OF wf2 l]
  have "?q' = (snd (push_back ?q2 [h OR UIQ_CONTROL_DATALOSS]))
      \<lparr>last_word_was_eop := UIQ_CONTROL_IS_END_OF_TRANSMISSION h\<rparr>"
    using p lost hdr unfolding grab_words_append 1
    by (simp add: 2 insert_ts_ignores_dataloss write_from_grabber_va_event_def
      write_word_with_dataloss_flag_if_applicable_def del: write_from_grabber.simps)
      (simp add: write_from_grabber_va_event_def insert_ts_ignores_dataloss
        write_word_with_dataloss_flag_if_applicable_def)
  moreover have "free_words ?q2 = free_words q" "contents ?q2 = contents q"
    by (simp_all add: free_words_def contents_def)
  ultimately show ?thesis
    using room pb unfolding Let_def by (simp add: kept_words_def take_Cons' algebra_simps)
qed

theorem va_event_resynchronises_witness:
  "contents (fst (grab_words demo_stamp ([9] @ [0x10009, 5]) (demo_uiq\<lparr>last_words_were_lost := True\<rparr>, (demo_stamp, False))))
     = [3, 4, 1, 0x20005]"
proof -
  let ?q = "demo_uiq\<lparr>last_words_were_lost := True\<rparr>"
  have wf: "uiq_wf ?q" using demo_uiq_wf by (simp add: uiq_wf_def)
  have c: "contents ?q = [3, 4, 1]" using demo_uiq_contents by (simp add: contents_def)
  have "contents (fst (grab_words demo_stamp ([9] @ [0x10009, 5]) (?q, (demo_stamp, False))))
      = contents ?q @ [5 OR UIQ_CONTROL_DATALOSS]"
    by (rule va_event_resynchronises [OF wf, unfolded Let_def, THEN conjunct1])
      (simp_all add: demo_uiq_def uiq_base_init_def free_words_def UIQ_CONTROL_IS_INVALID_def
        UIQ_CONTROL_IS_END_OF_TRANSMISSION_def UIQ_CONTROL_SHALL_INSERT_TIMESTAMP_def
        ARE_BITS_SET_def)
  then show ?thesis by (simp add: c)
qed

text \<open>A word that asks for a timestamp is queued together with the four 16-bit timestamp words
  in order, its end-of-transmission flag moved to the last of them, or, when fewer than five words
  are free, alone without a timestamp: the decoration is never torn.\<close>

theorem timestamp_decoration_is_atomic:
  assumes "uiq_wf q"
  shows "contents (snd (push_back_decorated_with_timestamp q d t)) = contents q @
    (if free_words q < 5 then take (free_words q) [d]
     else [d AND NOT UIQ_CONTROL_EOT, ts0 t, ts1 t, ts2 t,
           if d AND UIQ_CONTROL_EOT \<noteq> 0 then ts3 t OR UIQ_CONTROL_EOT else ts3 t])"
proof -
  have lt: "get_free_capacity q < 5 \<longleftrightarrow> free_words q < 5"
    using free_capacity_words [OF assms] by (simp add: word_less_nat_alt)
  let ?ws = "if free_words q < 5 then [d] else [d AND NOT UIQ_CONTROL_EOT, ts0 t, ts1 t, ts2 t,
           if d AND UIQ_CONTROL_EOT \<noteq> 0 then ts3 t OR UIQ_CONTROL_EOT else ts3 t]"
  have e: "push_back_decorated_with_timestamp q d t = push_back q ?ws"
    by (simp add: push_back_decorated_with_timestamp_def lt
      push_back_decorated_with_timestamp_unchecked_def Let_def)
  have l: "length ?ws < 4294967296" by simp
  show ?thesis
    unfolding e push_back_spec(2) [OF assms l] by (auto simp: kept_words_def take_Cons')
qed

theorem timestamp_decoration_is_atomic_witness:
  "contents (snd (push_back_decorated_with_timestamp demo_uiq 0x50001 demo_stamp)) = [3, 4, 1, 0x50001]"
proof -
  have "free_words demo_uiq = 1" by (simp add: free_words_def demo_uiq_def uiq_base_init_def)
  then show ?thesis
    using timestamp_decoration_is_atomic [OF demo_uiq_wf, of "0x50001" demo_stamp]
    by (simp add: demo_uiq_contents)
qed

end
