(* ===== verification/Boards.thy ===== *)
theory Boards
  imports Uiq_Props
begin

text \<open>
  The board types (\<^verbatim>\<open>linux/sisoboards.h\<close>), the protocol of an event queue by board
  (\<^verbatim>\<open>lib/uiq/uiq_helper.c\<close>), and the probe of a PCI device (\<^verbatim>\<open>linux/menable_core.c\<close>). Board types are C
  \<^verbatim>\<open>int\<close>s; deprecated aliases are abbreviations of the value they stand for.
\<close>

section \<open>Board types\<close>

abbreviation PN_MICROENABLE4AD1CL :: int where "PN_MICROENABLE4AD1CL \<equiv> 0xa40"
abbreviation PN_MICROENABLE4BASE :: int where "PN_MICROENABLE4BASE \<equiv> PN_MICROENABLE4AD1CL"
abbreviation PN_MICROENABLE4BASEx4 :: int where "PN_MICROENABLE4BASEx4 \<equiv> 0xa43"
abbreviation PN_MICROENABLE4AD4CL :: int where "PN_MICROENABLE4AD4CL \<equiv> 0xa42"
abbreviation PN_MICROENABLE4VD1CL :: int where "PN_MICROENABLE4VD1CL \<equiv> 0xa41"
abbreviation PN_MICROENABLE4FULLx1 :: int where "PN_MICROENABLE4FULLx1 \<equiv> PN_MICROENABLE4VD1CL"
abbreviation PN_MICROENABLE4VD4CL :: int where "PN_MICROENABLE4VD4CL \<equiv> 0xa44"
abbreviation PN_MICROENABLE4FULLx4 :: int where "PN_MICROENABLE4FULLx4 \<equiv> PN_MICROENABLE4VD4CL"
abbreviation PN_MICROENABLE4AS1CL :: int where "PN_MICROENABLE4AS1CL \<equiv> 0xa45"
abbreviation PN_MICROENABLE4VQ4GE :: int where "PN_MICROENABLE4VQ4GE \<equiv> 0xe44"
abbreviation PN_MICROENABLE4GIGEx4 :: int where "PN_MICROENABLE4GIGEx4 \<equiv> PN_MICROENABLE4VQ4GE"
abbreviation PN_MICROENABLE4AQ4GE :: int where "PN_MICROENABLE4AQ4GE \<equiv> 0xe42"
abbreviation PN_MICROENABLE4_H264CLx1 :: int where "PN_MICROENABLE4_H264CLx1 \<equiv> 0xb41"
abbreviation PN_MICROENABLE4_H264pCLx1 :: int where "PN_MICROENABLE4_H264pCLx1 \<equiv> 0xb42"
abbreviation PN_PX100 :: int where "PN_PX100 \<equiv> 0xc41"
abbreviation PN_PX200 :: int where "PN_PX200 \<equiv> 0xc42"
abbreviation PN_PX210 :: int where "PN_PX210 \<equiv> 0xc43"
abbreviation PN_PX300 :: int where "PN_PX300 \<equiv> 0xc44"
abbreviation PN_MICROENABLE5A1CXP4 :: int where "PN_MICROENABLE5A1CXP4 \<equiv> 0xa51"
abbreviation PN_MICROENABLE5A1CLHSF2 :: int where "PN_MICROENABLE5A1CLHSF2 \<equiv> 0xa52"
abbreviation PN_MICROENABLE5AQ8CXP6B :: int where "PN_MICROENABLE5AQ8CXP6B \<equiv> 0xa53"
abbreviation PN_MICROENABLE5AQ8CXP4 :: int where "PN_MICROENABLE5AQ8CXP4 \<equiv> PN_MICROENABLE5AQ8CXP6B"
abbreviation PN_MICROENABLE5VQ8CXP6B :: int where "PN_MICROENABLE5VQ8CXP6B \<equiv> 0xa54"
abbreviation PN_MICROENABLE5VQ8CXP4 :: int where "PN_MICROENABLE5VQ8CXP4 \<equiv> PN_MICROENABLE5VQ8CXP6B"
abbreviation PN_MICROENABLE5AD8CLHSF2 :: int where "PN_MICROENABLE5AD8CLHSF2 \<equiv> 0xa55"
abbreviation PN_MICROENABLE5VQ8CXP6D :: int where "PN_MICROENABLE5VQ8CXP6D \<equiv> 0xa56"
abbreviation PN_MICROENABLE5AQ8CXP6D :: int where "PN_MICROENABLE5AQ8CXP6D \<equiv> 0xa57"
abbreviation PN_MICROENABLE5VD8CL :: int where "PN_MICROENABLE5VD8CL \<equiv> 0xa58"
abbreviation PN_MICROENABLE5VF8CL :: int where "PN_MICROENABLE5VF8CL \<equiv> PN_MICROENABLE5VD8CL"
abbreviation PN_MICROENABLE5A2CLHSF2 :: int where "PN_MICROENABLE5A2CLHSF2 \<equiv> 0xa59"
abbreviation PN_MICROENABLE5AD8CL :: int where "PN_MICROENABLE5AD8CL \<equiv> 0xa5a"
abbreviation PN_MICROENABLE5_LIGHTBRIDGE_VCL_PROTOTYPE :: int where "PN_MICROENABLE5_LIGHTBRIDGE_VCL_PROTOTYPE \<equiv> 0x750"
abbreviation PN_MICROENABLE5_LIGHTBRIDGE_MARATHON_VCL :: int where "PN_MICROENABLE5_LIGHTBRIDGE_MARATHON_VCL \<equiv> 0x751"
abbreviation PN_MICROENABLE5_LIGHTBRIDGE_VCL :: int where "PN_MICROENABLE5_LIGHTBRIDGE_VCL \<equiv> 0x7510"
abbreviation PN_MICROENABLE5_MARATHON_VCL :: int where "PN_MICROENABLE5_MARATHON_VCL \<equiv> 0x7511"
abbreviation PN_MICROENABLE5_LIGHTBRIDGE_VCL_SPI :: int where "PN_MICROENABLE5_LIGHTBRIDGE_VCL_SPI \<equiv> 0x7512"
abbreviation PN_MICROENABLE5_MARATHON_VCL_SPI :: int where "PN_MICROENABLE5_MARATHON_VCL_SPI \<equiv> 0x7513"
abbreviation PN_MICROENABLE5_MARATHON_AF2_DP :: int where "PN_MICROENABLE5_MARATHON_AF2_DP \<equiv> 0x752"
abbreviation PN_MICROENABLE5_MARATHON_ACX_QP :: int where "PN_MICROENABLE5_MARATHON_ACX_QP \<equiv> 0x753"
abbreviation PN_MICROENABLE5_LIGHTBRIDGE_MARATHON_ACL :: int where "PN_MICROENABLE5_LIGHTBRIDGE_MARATHON_ACL \<equiv> 0x754"
abbreviation PN_MICROENABLE5_LIGHTBRIDGE_ACL :: int where "PN_MICROENABLE5_LIGHTBRIDGE_ACL \<equiv> 0x7540"
abbreviation PN_MICROENABLE5_MARATHON_ACL :: int where "PN_MICROENABLE5_MARATHON_ACL \<equiv> 0x7541"
abbreviation PN_MICROENABLE5_LIGHTBRIDGE_ACL_SPI :: int where "PN_MICROENABLE5_LIGHTBRIDGE_ACL_SPI \<equiv> 0x7542"
abbreviation PN_MICROENABLE5_MARATHON_ACL_SPI :: int where "PN_MICROENABLE5_MARATHON_ACL_SPI \<equiv> 0x7543"
abbreviation PN_MICROENABLE5_MARATHON_ACX_SP :: int where "PN_MICROENABLE5_MARATHON_ACX_SP \<equiv> 0x755"
abbreviation PN_MICROENABLE5_MARATHON_ACX_DP :: int where "PN_MICROENABLE5_MARATHON_ACX_DP \<equiv> 0x756"
abbreviation PN_MICROENABLE5_MARATHON_VCX_QP :: int where "PN_MICROENABLE5_MARATHON_VCX_QP \<equiv> 0x757"
abbreviation PN_MICROENABLE5_MARATHON_VF2_DP :: int where "PN_MICROENABLE5_MARATHON_VF2_DP \<equiv> 0x758"
abbreviation PN_MICROENABLE5_LIGHTBRIDGE_MARATHON_VCLx :: int where "PN_MICROENABLE5_LIGHTBRIDGE_MARATHON_VCLx \<equiv> 0x759"
abbreviation PN_MICROENABLE5_MARATHON_VCLx :: int where "PN_MICROENABLE5_MARATHON_VCLx \<equiv> 0x7591"
abbreviation PN_MICROENABLE5_MARATHON_DeepVCL :: int where "PN_MICROENABLE5_MARATHON_DeepVCL \<equiv> 0x7595"
abbreviation PN_TDI :: int where "PN_TDI \<equiv> 0xb50"
abbreviation PN_TDI_I :: int where "PN_TDI_I \<equiv> 0xb500"
abbreviation PN_TDI_II :: int where "PN_TDI_II \<equiv> 0xb501"
abbreviation PN_TDI_III :: int where "PN_TDI_III \<equiv> 0xb502"
abbreviation PN_TGATE_USB :: int where "PN_TGATE_USB \<equiv> 0xb57"
abbreviation PN_TGATE_I_USB :: int where "PN_TGATE_I_USB \<equiv> 0xb570"
abbreviation PN_TGATE_II_USB :: int where "PN_TGATE_II_USB \<equiv> 0xb571"
abbreviation PN_TGATE :: int where "PN_TGATE \<equiv> 0xb5e"
abbreviation PN_TGATE_I :: int where "PN_TGATE_I \<equiv> 0xb5e0"
abbreviation PN_TGATE_II :: int where "PN_TGATE_II \<equiv> 0xb5e1"
abbreviation PN_TGATE_35 :: int where "PN_TGATE_35 \<equiv> 0xb58"
abbreviation PN_TGATE_I_35 :: int where "PN_TGATE_I_35 \<equiv> 0xb580"
abbreviation PN_TGATE_II_35 :: int where "PN_TGATE_II_35 \<equiv> 0xb581"
abbreviation PN_TGATE_35_USB :: int where "PN_TGATE_35_USB \<equiv> 0xb59"
abbreviation PN_TGATE_I_35_USB :: int where "PN_TGATE_I_35_USB \<equiv> 0xb590"
abbreviation PN_TGATE_II_35_USB :: int where "PN_TGATE_II_35_USB \<equiv> 0xb591"
abbreviation PN_TTDI :: int where "PN_TTDI \<equiv> 0xb5f"
abbreviation PN_MICROENABLE5_ABACUS_4G_PROTOTYPE :: int where "PN_MICROENABLE5_ABACUS_4G_PROTOTYPE \<equiv> 0xb51"
abbreviation PN_MICROENABLE5_ABACUS_4G :: int where "PN_MICROENABLE5_ABACUS_4G \<equiv> PN_MICROENABLE5_ABACUS_4G_PROTOTYPE"
abbreviation PN_MICROENABLE5_ABACUS_4G_BASE :: int where "PN_MICROENABLE5_ABACUS_4G_BASE \<equiv> 0xb52"
abbreviation PN_MICROENABLE5_ABACUS_4G_BASE_II :: int where "PN_MICROENABLE5_ABACUS_4G_BASE_II \<equiv> 0xb53"
abbreviation PN_MICROENABLE6_IMPULSE_TEST_CXP12_QUAD :: int where "PN_MICROENABLE6_IMPULSE_TEST_CXP12_QUAD \<equiv> 0xa60"
abbreviation PN_MICROENABLE6_IMPULSE_KCU116 :: int where "PN_MICROENABLE6_IMPULSE_KCU116 \<equiv> 0xa61"
abbreviation PN_MICROENABLE6_IMAWORX_CXP12_QUAD :: int where "PN_MICROENABLE6_IMAWORX_CXP12_QUAD \<equiv> 0xa64"
abbreviation PN_MICROENABLE6_ABACUS_4TG :: int where "PN_MICROENABLE6_ABACUS_4TG \<equiv> 0xb61"
abbreviation PN_MICROENABLE6_CXP12_IC_1C :: int where "PN_MICROENABLE6_CXP12_IC_1C \<equiv> 0xb63"
abbreviation PN_MICROENABLE6_CXP12_IC_2C :: int where "PN_MICROENABLE6_CXP12_IC_2C \<equiv> 0xb65"
abbreviation PN_MICROENABLE6_CXP12_IC_4C :: int where "PN_MICROENABLE6_CXP12_IC_4C \<equiv> 0xb64"
abbreviation PN_MICROENABLE6_CXP12_LB_2C :: int where "PN_MICROENABLE6_CXP12_LB_2C \<equiv> 0xb66"
abbreviation PN_MICROENABLE6_ELEGANCE_ECO :: int where "PN_MICROENABLE6_ELEGANCE_ECO \<equiv> 0xb68"
abbreviation PN_MICROENABLE6_IMAFLEX_CXP12_QUAD :: int where "PN_MICROENABLE6_IMAFLEX_CXP12_QUAD \<equiv> 0xa62"
abbreviation PN_MICROENABLE6_IMPULSE_CX4S :: int where "PN_MICROENABLE6_IMPULSE_CX4S \<equiv> PN_MICROENABLE6_IMAFLEX_CXP12_QUAD"
abbreviation PN_MICROENABLE6_IMPULSE_CX1S :: int where "PN_MICROENABLE6_IMPULSE_CX1S \<equiv> 0xa63"
abbreviation PN_MICROENABLE6_IMPULSE_CX2S :: int where "PN_MICROENABLE6_IMPULSE_CX2S \<equiv> 0xa66"
abbreviation PN_MICROENABLE6_IMPULSE_CX4A :: int where "PN_MICROENABLE6_IMPULSE_CX4A \<equiv> 0xa67"
abbreviation PN_MICROENABLE6_IMPULSE_CX4X :: int where "PN_MICROENABLE6_IMPULSE_CX4X \<equiv> 0xa68"
abbreviation PN_MICROENABLE6_IMAFLEX_CXP12_PENTA :: int where "PN_MICROENABLE6_IMAFLEX_CXP12_PENTA \<equiv> 0xa69"
abbreviation PN_MICROENABLE6_IMPULSE_CX5A :: int where "PN_MICROENABLE6_IMPULSE_CX5A \<equiv> PN_MICROENABLE6_IMAFLEX_CXP12_PENTA"
abbreviation PN_MICROENABLE6_IMPULSE_FB4X :: int where "PN_MICROENABLE6_IMPULSE_FB4X \<equiv> 0xa6a"
abbreviation PN_MICROENABLE6_LIGHTBRIDGE_FB2A :: int where "PN_MICROENABLE6_LIGHTBRIDGE_FB2A \<equiv> 0xa6b"
abbreviation PN_MICROENABLE6_IMPULSE_PROTOTYPE :: int where "PN_MICROENABLE6_IMPULSE_PROTOTYPE \<equiv> 0xa6c"
abbreviation PN_MIPI_1200_PB_12C :: int where "PN_MIPI_1200_PB_12C \<equiv> 0xb62"
abbreviation PN_UNKNOWN :: int where "PN_UNKNOWN \<equiv> 0xffff"
abbreviation PN_GENERIC_EVA :: int where "PN_GENERIC_EVA \<equiv> 0x10000000"
abbreviation PN_GENERIC_CXP :: int where "PN_GENERIC_CXP \<equiv> 0x1000000"
abbreviation PN_GENERIC_CXP12 :: int where "PN_GENERIC_CXP12 \<equiv> 0x2000000"
abbreviation PN_GENERIC_GIGE :: int where "PN_GENERIC_GIGE \<equiv> 0x100000"
abbreviation PN_GENERIC_10GIGE :: int where "PN_GENERIC_10GIGE \<equiv> 0x200000"
abbreviation PN_GENERIC_CL :: int where "PN_GENERIC_CL \<equiv> 0x10000"
abbreviation PN_GENERIC_CLHS :: int where "PN_GENERIC_CLHS \<equiv> 0x20000"
abbreviation PN_NONE :: int where "PN_NONE \<equiv> 0"

definition siso_board_types :: "int list" where
  "siso_board_types =
    [
     PN_MICROENABLE4AD1CL, PN_MICROENABLE4BASEx4, PN_MICROENABLE4AD4CL, PN_MICROENABLE4VD1CL,
     PN_MICROENABLE4VD4CL, PN_MICROENABLE4AS1CL, PN_MICROENABLE4VQ4GE, PN_MICROENABLE4AQ4GE,
     PN_MICROENABLE4_H264CLx1, PN_MICROENABLE4_H264pCLx1, PN_PX100, PN_PX200, PN_PX210,
     PN_PX300, PN_MICROENABLE5A1CXP4, PN_MICROENABLE5A1CLHSF2, PN_MICROENABLE5AQ8CXP6B,
     PN_MICROENABLE5VQ8CXP6B, PN_MICROENABLE5AD8CLHSF2, PN_MICROENABLE5VQ8CXP6D,
     PN_MICROENABLE5AQ8CXP6D, PN_MICROENABLE5VD8CL, PN_MICROENABLE5A2CLHSF2,
     PN_MICROENABLE5AD8CL, PN_MICROENABLE5_LIGHTBRIDGE_VCL_PROTOTYPE,
     PN_MICROENABLE5_LIGHTBRIDGE_MARATHON_VCL, PN_MICROENABLE5_LIGHTBRIDGE_VCL,
     PN_MICROENABLE5_MARATHON_VCL, PN_MICROENABLE5_LIGHTBRIDGE_VCL_SPI,
     PN_MICROENABLE5_MARATHON_VCL_SPI, PN_MICROENABLE5_MARATHON_AF2_DP,
     PN_MICROENABLE5_MARATHON_ACX_QP, PN_MICROENABLE5_LIGHTBRIDGE_MARATHON_ACL,
     PN_MICROENABLE5_LIGHTBRIDGE_ACL, PN_MICROENABLE5_MARATHON_ACL,
     PN_MICROENABLE5_LIGHTBRIDGE_ACL_SPI, PN_MICROENABLE5_MARATHON_ACL_SPI,
     PN_MICROENABLE5_MARATHON_ACX_SP, PN_MICROENABLE5_MARATHON_ACX_DP,
     PN_MICROENABLE5_MARATHON_VCX_QP, PN_MICROENABLE5_MARATHON_VF2_DP,
     PN_MICROENABLE5_LIGHTBRIDGE_MARATHON_VCLx, PN_MICROENABLE5_MARATHON_VCLx,
     PN_MICROENABLE5_MARATHON_DeepVCL, PN_TDI, PN_TDI_I, PN_TDI_II, PN_TDI_III, PN_TGATE_USB,
     PN_TGATE_I_USB, PN_TGATE_II_USB, PN_TGATE, PN_TGATE_I, PN_TGATE_II, PN_TGATE_35,
     PN_TGATE_I_35, PN_TGATE_II_35, PN_TGATE_35_USB, PN_TGATE_I_35_USB, PN_TGATE_II_35_USB,
     PN_TTDI, PN_MICROENABLE5_ABACUS_4G_PROTOTYPE, PN_MICROENABLE5_ABACUS_4G_BASE,
     PN_MICROENABLE5_ABACUS_4G_BASE_II, PN_MICROENABLE6_IMPULSE_TEST_CXP12_QUAD,
     PN_MICROENABLE6_IMPULSE_KCU116, PN_MICROENABLE6_IMAWORX_CXP12_QUAD,
     PN_MICROENABLE6_ABACUS_4TG, PN_MICROENABLE6_CXP12_IC_1C, PN_MICROENABLE6_CXP12_IC_2C,
     PN_MICROENABLE6_CXP12_IC_4C, PN_MICROENABLE6_CXP12_LB_2C, PN_MICROENABLE6_ELEGANCE_ECO,
     PN_MICROENABLE6_IMAFLEX_CXP12_QUAD, PN_MICROENABLE6_IMPULSE_CX1S,
     PN_MICROENABLE6_IMPULSE_CX2S, PN_MICROENABLE6_IMPULSE_CX4A, PN_MICROENABLE6_IMPULSE_CX4X,
     PN_MICROENABLE6_IMAFLEX_CXP12_PENTA, PN_MICROENABLE6_IMPULSE_FB4X,
     PN_MICROENABLE6_LIGHTBRIDGE_FB2A, PN_MICROENABLE6_IMPULSE_PROTOTYPE, PN_MIPI_1200_PB_12C]"

definition SisoBoardIsMe4 :: "int \<Rightarrow> bool" where
  "SisoBoardIsMe4 boardType \<longleftrightarrow> List.member
    [
     PN_MICROENABLE4AD1CL, PN_MICROENABLE4BASEx4, PN_MICROENABLE4AD4CL, PN_MICROENABLE4VD1CL,
     PN_MICROENABLE4VD4CL, PN_MICROENABLE4AS1CL, PN_MICROENABLE4_H264CLx1,
     PN_MICROENABLE4_H264pCLx1, PN_MICROENABLE4VQ4GE, PN_MICROENABLE4AQ4GE] boardType"

definition SisoBoardIsPxp :: "int \<Rightarrow> bool" where
  "SisoBoardIsPxp boardType \<longleftrightarrow> List.member
    [
     PN_PX100, PN_PX200, PN_PX210, PN_PX300] boardType"

definition SisoBoardIsMe5 :: "int \<Rightarrow> bool" where
  "SisoBoardIsMe5 boardType \<longleftrightarrow> List.member
    [
     PN_MICROENABLE5A1CLHSF2, PN_MICROENABLE5AD8CLHSF2, PN_MICROENABLE5A2CLHSF2,
     PN_MICROENABLE5A1CXP4, PN_MICROENABLE5AQ8CXP6B, PN_MICROENABLE5VQ8CXP6B,
     PN_MICROENABLE5AQ8CXP6D, PN_MICROENABLE5VQ8CXP6D, PN_MICROENABLE5VD8CL,
     PN_MICROENABLE5AD8CL, PN_TDI, PN_TDI_I, PN_TDI_II, PN_TDI_III, PN_TTDI,
     PN_MICROENABLE5_ABACUS_4G_PROTOTYPE, PN_MICROENABLE5_ABACUS_4G_BASE,
     PN_MICROENABLE5_ABACUS_4G_BASE_II, PN_MICROENABLE5_LIGHTBRIDGE_VCL_PROTOTYPE,
     PN_MICROENABLE5_LIGHTBRIDGE_MARATHON_VCL, PN_MICROENABLE5_LIGHTBRIDGE_VCL,
     PN_MICROENABLE5_MARATHON_VCL, PN_MICROENABLE5_LIGHTBRIDGE_MARATHON_VCLx,
     PN_MICROENABLE5_MARATHON_VCLx, PN_MICROENABLE5_MARATHON_DeepVCL,
     PN_MICROENABLE5_MARATHON_AF2_DP, PN_MICROENABLE5_MARATHON_ACX_QP,
     PN_MICROENABLE5_LIGHTBRIDGE_MARATHON_ACL, PN_MICROENABLE5_LIGHTBRIDGE_ACL,
     PN_MICROENABLE5_MARATHON_ACL, PN_MICROENABLE5_MARATHON_ACX_SP,
     PN_MICROENABLE5_MARATHON_ACX_DP, PN_MICROENABLE5_MARATHON_VCX_QP,
     PN_MICROENABLE5_MARATHON_VF2_DP] boardType"

definition SisoBoardIsMe6 :: "int \<Rightarrow> bool" where
  "SisoBoardIsMe6 boardType \<longleftrightarrow> List.member
    [
     PN_MICROENABLE6_IMAWORX_CXP12_QUAD, PN_MICROENABLE6_IMAFLEX_CXP12_QUAD,
     PN_MICROENABLE6_IMAFLEX_CXP12_PENTA, PN_MICROENABLE6_IMPULSE_KCU116,
     PN_MICROENABLE6_ABACUS_4TG, PN_MICROENABLE6_CXP12_IC_1C, PN_MICROENABLE6_CXP12_IC_2C,
     PN_MICROENABLE6_CXP12_IC_4C, PN_MICROENABLE6_ELEGANCE_ECO, PN_MICROENABLE6_IMPULSE_CX1S,
     PN_MICROENABLE6_IMPULSE_CX2S, PN_MICROENABLE6_IMPULSE_CX4A, PN_MICROENABLE6_IMPULSE_CX4X,
     PN_MICROENABLE6_IMPULSE_FB4X, PN_MICROENABLE6_IMPULSE_PROTOTYPE] boardType"

definition SisoBoardIsAbacus :: "int \<Rightarrow> bool" where
  "SisoBoardIsAbacus boardType \<longleftrightarrow> List.member
    [
     PN_MICROENABLE5_ABACUS_4G_PROTOTYPE, PN_MICROENABLE5_ABACUS_4G_BASE,
     PN_MICROENABLE5_ABACUS_4G_BASE_II, PN_MICROENABLE6_ABACUS_4TG] boardType"

definition SisoBoardIsIronMan :: "int \<Rightarrow> bool" where
  "SisoBoardIsIronMan boardType \<longleftrightarrow> List.member
    [
     PN_MICROENABLE5A1CLHSF2, PN_MICROENABLE5AD8CLHSF2, PN_MICROENABLE5A2CLHSF2,
     PN_MICROENABLE5A1CXP4, PN_MICROENABLE5AQ8CXP6B, PN_MICROENABLE5VQ8CXP6B,
     PN_MICROENABLE5AQ8CXP6D, PN_MICROENABLE5VQ8CXP6D, PN_MICROENABLE5VD8CL,
     PN_MICROENABLE5AD8CL] boardType"

definition SisoBoardIsMarathon :: "int \<Rightarrow> bool" where
  "SisoBoardIsMarathon boardType \<longleftrightarrow> List.member
    [
     PN_MICROENABLE5_LIGHTBRIDGE_VCL_PROTOTYPE, PN_MICROENABLE5_LIGHTBRIDGE_MARATHON_VCL,
     PN_MICROENABLE5_LIGHTBRIDGE_VCL, PN_MICROENABLE5_MARATHON_VCL,
     PN_MICROENABLE5_LIGHTBRIDGE_MARATHON_VCLx, PN_MICROENABLE5_MARATHON_VCLx,
     PN_MICROENABLE5_MARATHON_DeepVCL, PN_MICROENABLE5_MARATHON_AF2_DP,
     PN_MICROENABLE5_MARATHON_ACX_QP, PN_MICROENABLE5_LIGHTBRIDGE_MARATHON_ACL,
     PN_MICROENABLE5_LIGHTBRIDGE_ACL, PN_MICROENABLE5_MARATHON_ACL,
     PN_MICROENABLE5_MARATHON_ACX_SP, PN_MICROENABLE5_MARATHON_ACX_DP,
     PN_MICROENABLE5_MARATHON_VCX_QP, PN_MICROENABLE5_MARATHON_VF2_DP] boardType"

definition SisoBoardIsImpulse :: "int \<Rightarrow> bool" where
  "SisoBoardIsImpulse boardType \<longleftrightarrow> List.member
    [
     PN_MICROENABLE6_IMAWORX_CXP12_QUAD, PN_MICROENABLE6_IMAFLEX_CXP12_QUAD,
     PN_MICROENABLE6_IMAFLEX_CXP12_PENTA, PN_MICROENABLE6_IMPULSE_KCU116,
     PN_MICROENABLE6_CXP12_IC_1C, PN_MICROENABLE6_CXP12_IC_2C, PN_MICROENABLE6_CXP12_IC_4C,
     PN_MICROENABLE6_IMPULSE_CX1S, PN_MICROENABLE6_IMPULSE_CX2S, PN_MICROENABLE6_IMPULSE_CX4A,
     PN_MICROENABLE6_IMPULSE_CX4X, PN_MICROENABLE6_IMPULSE_FB4X,
     PN_MICROENABLE6_IMPULSE_PROTOTYPE] boardType"

definition SisoBoardIsBaslerIC :: "int \<Rightarrow> bool" where
  "SisoBoardIsBaslerIC boardType \<longleftrightarrow> List.member
    [
     PN_MICROENABLE6_CXP12_IC_1C, PN_MICROENABLE6_CXP12_IC_2C, PN_MICROENABLE6_CXP12_IC_4C] boardType"

definition SisoBoardIsElegance :: "int \<Rightarrow> bool" where
  "SisoBoardIsElegance boardType \<longleftrightarrow> List.member
    [
     PN_MICROENABLE6_ELEGANCE_ECO] boardType"

definition SisoBoardIsTdi :: "int \<Rightarrow> bool" where
  "SisoBoardIsTdi boardType \<longleftrightarrow> List.member
    [
     PN_TDI, PN_TDI_I, PN_TDI_II, PN_TDI_III, PN_TTDI] boardType"

definition SisoBoardIsExternal :: "int \<Rightarrow> bool" where
  "SisoBoardIsExternal boardType \<longleftrightarrow> List.member
    [
     PN_MICROENABLE5_LIGHTBRIDGE_VCL_PROTOTYPE, PN_MICROENABLE5_LIGHTBRIDGE_MARATHON_VCL,
     PN_MICROENABLE5_LIGHTBRIDGE_VCL, PN_MICROENABLE5_LIGHTBRIDGE_MARATHON_ACL,
     PN_MICROENABLE5_LIGHTBRIDGE_ACL, PN_TDI, PN_TDI_I, PN_TDI_II, PN_TDI_III, PN_TTDI,
     PN_TGATE, PN_TGATE_I, PN_TGATE_II, PN_TGATE_USB, PN_TGATE_I_USB, PN_TGATE_II_USB,
     PN_TGATE_35, PN_TGATE_I_35, PN_TGATE_II_35, PN_TGATE_35_USB, PN_TGATE_I_35_USB,
     PN_TGATE_II_35_USB] boardType"

definition SisoBoardIsCL :: "int \<Rightarrow> bool" where
  "SisoBoardIsCL boardType \<longleftrightarrow> List.member
    [
     PN_MICROENABLE4AD1CL, PN_MICROENABLE4BASEx4, PN_MICROENABLE4AD4CL, PN_MICROENABLE4VD1CL,
     PN_MICROENABLE4VD4CL, PN_MICROENABLE4AS1CL, PN_MICROENABLE5VD8CL, PN_MICROENABLE5AD8CL,
     PN_MICROENABLE5_LIGHTBRIDGE_VCL_PROTOTYPE, PN_MICROENABLE5_LIGHTBRIDGE_MARATHON_VCL,
     PN_MICROENABLE5_LIGHTBRIDGE_VCL, PN_MICROENABLE5_MARATHON_VCL,
     PN_MICROENABLE5_LIGHTBRIDGE_MARATHON_VCLx, PN_MICROENABLE5_MARATHON_VCLx,
     PN_MICROENABLE5_MARATHON_DeepVCL, PN_MICROENABLE5_LIGHTBRIDGE_MARATHON_ACL,
     PN_MICROENABLE5_LIGHTBRIDGE_ACL, PN_MICROENABLE5_MARATHON_ACL] boardType
   \<or> (let mask = PN_GENERIC_EVA OR PN_GENERIC_CL in boardType AND mask = mask)"

definition SisoBoardIsGigE :: "int \<Rightarrow> bool" where
  "SisoBoardIsGigE boardType \<longleftrightarrow> List.member
    [
     PN_MICROENABLE4VQ4GE, PN_MICROENABLE4AQ4GE, PN_MICROENABLE5_ABACUS_4G_PROTOTYPE,
     PN_MICROENABLE5_ABACUS_4G_BASE, PN_MICROENABLE5_ABACUS_4G_BASE_II,
     PN_MICROENABLE6_ABACUS_4TG] boardType
   \<or> (let mask = PN_GENERIC_EVA OR PN_GENERIC_GIGE in boardType AND mask = mask)"

definition SisoBoardIs10GigE :: "int \<Rightarrow> bool" where
  "SisoBoardIs10GigE boardType \<longleftrightarrow> List.member
    [
     PN_MICROENABLE6_ABACUS_4TG] boardType
   \<or> (let mask = PN_GENERIC_EVA OR PN_GENERIC_10GIGE in boardType AND mask = mask)"

definition SisoBoardIsCXP :: "int \<Rightarrow> bool" where
  "SisoBoardIsCXP boardType \<longleftrightarrow> List.member
    [
     PN_MICROENABLE5A1CXP4, PN_MICROENABLE5AQ8CXP6B, PN_MICROENABLE5VQ8CXP6B,
     PN_MICROENABLE5AQ8CXP6D, PN_MICROENABLE5VQ8CXP6D, PN_MICROENABLE5_MARATHON_ACX_QP,
     PN_MICROENABLE5_MARATHON_ACX_SP, PN_MICROENABLE5_MARATHON_ACX_DP,
     PN_MICROENABLE5_MARATHON_VCX_QP, PN_MICROENABLE6_IMAWORX_CXP12_QUAD,
     PN_MICROENABLE6_IMAFLEX_CXP12_QUAD, PN_MICROENABLE6_IMAFLEX_CXP12_PENTA,
     PN_MICROENABLE6_CXP12_IC_1C, PN_MICROENABLE6_CXP12_IC_2C, PN_MICROENABLE6_CXP12_IC_4C,
     PN_MICROENABLE6_ELEGANCE_ECO, PN_MICROENABLE6_IMPULSE_CX1S, PN_MICROENABLE6_IMPULSE_CX2S,
     PN_MICROENABLE6_IMPULSE_CX4A, PN_MICROENABLE6_IMPULSE_CX4X,
     PN_MICROENABLE6_IMPULSE_PROTOTYPE, PN_MICROENABLE6_CXP12_LB_2C] boardType
   \<or> (let mask = PN_GENERIC_EVA OR PN_GENERIC_CXP in boardType AND mask = mask)"

definition SisoBoardIsCXP12 :: "int \<Rightarrow> bool" where
  "SisoBoardIsCXP12 boardType \<longleftrightarrow> List.member
    [
     PN_MICROENABLE6_IMAWORX_CXP12_QUAD, PN_MICROENABLE6_IMAFLEX_CXP12_QUAD,
     PN_MICROENABLE6_IMAFLEX_CXP12_PENTA, PN_MICROENABLE6_CXP12_IC_1C,
     PN_MICROENABLE6_CXP12_IC_2C, PN_MICROENABLE6_CXP12_IC_4C, PN_MICROENABLE6_ELEGANCE_ECO,
     PN_MICROENABLE6_IMPULSE_CX1S, PN_MICROENABLE6_IMPULSE_CX2S, PN_MICROENABLE6_IMPULSE_CX4A,
     PN_MICROENABLE6_IMPULSE_CX4X, PN_MICROENABLE6_IMPULSE_PROTOTYPE,
     PN_MICROENABLE6_CXP12_LB_2C] boardType
   \<or> (let mask = PN_GENERIC_EVA OR PN_GENERIC_CXP12 in boardType AND mask = mask)"

definition SisoBoardIsCLHS :: "int \<Rightarrow> bool" where
  "SisoBoardIsCLHS boardType \<longleftrightarrow> List.member
    [
     PN_MICROENABLE5A1CLHSF2, PN_MICROENABLE5AD8CLHSF2, PN_MICROENABLE5A2CLHSF2,
     PN_MICROENABLE5_MARATHON_AF2_DP, PN_MICROENABLE5_MARATHON_VF2_DP] boardType
   \<or> (let mask = PN_GENERIC_EVA OR PN_GENERIC_CLHS in boardType AND mask = mask)"

definition SisoBoardIsV :: "int \<Rightarrow> bool" where
  "SisoBoardIsV boardType \<longleftrightarrow> List.member
    [
     PN_MICROENABLE4VD1CL, PN_MICROENABLE4VD4CL, PN_MICROENABLE4VQ4GE, PN_MICROENABLE5VD8CL,
     PN_MICROENABLE5VQ8CXP6B, PN_MICROENABLE5VQ8CXP6D,
     PN_MICROENABLE5_LIGHTBRIDGE_VCL_PROTOTYPE, PN_MICROENABLE5_LIGHTBRIDGE_MARATHON_VCL,
     PN_MICROENABLE5_LIGHTBRIDGE_VCL, PN_MICROENABLE5_MARATHON_VCL,
     PN_MICROENABLE5_LIGHTBRIDGE_MARATHON_VCLx, PN_MICROENABLE5_MARATHON_VCLx,
     PN_MICROENABLE5_MARATHON_DeepVCL, PN_MICROENABLE5_MARATHON_VCX_QP,
     PN_MICROENABLE5_MARATHON_VF2_DP, PN_MICROENABLE6_IMAFLEX_CXP12_QUAD,
     PN_MICROENABLE6_IMAFLEX_CXP12_PENTA, PN_MICROENABLE6_IMPULSE_KCU116,
     PN_MICROENABLE6_IMPULSE_PROTOTYPE] boardType"

definition SisoBoardIsOEM :: "int \<Rightarrow> bool" where
  "SisoBoardIsOEM boardType \<longleftrightarrow> List.member
    [
     PN_TDI, PN_TDI_I, PN_TDI_II, PN_TDI_III, PN_TTDI, PN_TGATE, PN_TGATE_I, PN_TGATE_II,
     PN_TGATE_USB, PN_TGATE_I_USB, PN_TGATE_II_USB, PN_TGATE_35, PN_TGATE_I_35, PN_TGATE_II_35,
     PN_TGATE_35_USB, PN_TGATE_I_35_USB, PN_TGATE_II_35_USB,
     PN_MICROENABLE5_ABACUS_4G_PROTOTYPE, PN_MICROENABLE5_ABACUS_4G_BASE,
     PN_MICROENABLE5_ABACUS_4G_BASE_II, PN_MICROENABLE6_ABACUS_4TG, PN_MICROENABLE6_ELEGANCE_ECO] boardType"

definition SisoBoardProdHasExtendedType :: "int \<Rightarrow> bool" where
  "SisoBoardProdHasExtendedType boardType \<longleftrightarrow> List.member
    [
     PN_MICROENABLE5_LIGHTBRIDGE_MARATHON_ACL, PN_MICROENABLE5_LIGHTBRIDGE_MARATHON_VCL,
     PN_MICROENABLE5_LIGHTBRIDGE_ACL, PN_MICROENABLE5_MARATHON_ACL,
     PN_MICROENABLE5_LIGHTBRIDGE_VCL, PN_MICROENABLE5_MARATHON_VCL,
     PN_MICROENABLE5_LIGHTBRIDGE_MARATHON_VCLx, PN_MICROENABLE5_MARATHON_VCLx,
     PN_MICROENABLE5_MARATHON_DeepVCL, PN_TDI, PN_TDI_I, PN_TDI_II, PN_TDI_III, PN_TGATE,
     PN_TGATE_I, PN_TGATE_II, PN_TGATE_USB, PN_TGATE_I_USB, PN_TGATE_II_USB, PN_TGATE_35,
     PN_TGATE_I_35, PN_TGATE_II_35, PN_TGATE_35_USB, PN_TGATE_I_35_USB, PN_TGATE_II_35_USB] boardType"

definition SisoBoardHasExtendedType :: "int \<Rightarrow> bool" where
  "SisoBoardHasExtendedType boardType \<longleftrightarrow> List.member
    [
     PN_MICROENABLE5_LIGHTBRIDGE_MARATHON_ACL, PN_MICROENABLE5_LIGHTBRIDGE_MARATHON_VCL,
     PN_MICROENABLE5_LIGHTBRIDGE_ACL, PN_MICROENABLE5_MARATHON_ACL,
     PN_MICROENABLE5_LIGHTBRIDGE_VCL, PN_MICROENABLE5_MARATHON_VCL,
     PN_MICROENABLE5_LIGHTBRIDGE_MARATHON_VCLx, PN_MICROENABLE5_MARATHON_VCLx,
     PN_MICROENABLE5_MARATHON_DeepVCL] boardType"

definition SisoBoardSupportTGS :: "int \<Rightarrow> bool" where
  "SisoBoardSupportTGS boardType \<longleftrightarrow> List.member
    [
     PN_MICROENABLE6_IMAWORX_CXP12_QUAD, PN_MICROENABLE6_IMAFLEX_CXP12_QUAD,
     PN_MICROENABLE6_CXP12_IC_1C, PN_MICROENABLE6_CXP12_IC_2C, PN_MICROENABLE6_CXP12_IC_4C] boardType"

definition SisoBoardNumberOfPhysicalPorts :: "int \<Rightarrow> int" where
  "SisoBoardNumberOfPhysicalPorts boardType =
    (if List.member
      [
       PN_MICROENABLE4AS1CL, PN_MICROENABLE5_MARATHON_ACX_SP, PN_MICROENABLE6_CXP12_IC_1C,
       PN_MICROENABLE6_IMPULSE_CX1S] boardType then 1
     else if List.member
      [
       PN_MICROENABLE4AD1CL, PN_MICROENABLE4BASEx4, PN_MICROENABLE4AD4CL, PN_MICROENABLE4VD1CL,
       PN_MICROENABLE4VD4CL, PN_MICROENABLE5VD8CL, PN_MICROENABLE5AD8CL,
       PN_MICROENABLE5A1CLHSF2, PN_MICROENABLE5AD8CLHSF2, PN_MICROENABLE5A2CLHSF2,
       PN_MICROENABLE5_LIGHTBRIDGE_VCL_PROTOTYPE, PN_MICROENABLE5_LIGHTBRIDGE_MARATHON_VCL,
       PN_MICROENABLE5_LIGHTBRIDGE_VCL, PN_MICROENABLE5_MARATHON_VCL,
       PN_MICROENABLE5_LIGHTBRIDGE_MARATHON_VCLx, PN_MICROENABLE5_MARATHON_VCLx,
       PN_MICROENABLE5_MARATHON_DeepVCL, PN_MICROENABLE5_LIGHTBRIDGE_MARATHON_ACL,
       PN_MICROENABLE5_LIGHTBRIDGE_ACL, PN_MICROENABLE5_MARATHON_ACL,
       PN_MICROENABLE5_MARATHON_ACX_DP, PN_MICROENABLE5_MARATHON_AF2_DP,
       PN_MICROENABLE5_MARATHON_VF2_DP, PN_MICROENABLE6_CXP12_IC_2C,
       PN_MICROENABLE6_IMPULSE_CX2S, PN_MICROENABLE6_LIGHTBRIDGE_FB2A,
       PN_MICROENABLE6_CXP12_LB_2C] boardType then 2
     else if List.member
      [
       PN_MICROENABLE4VQ4GE, PN_MICROENABLE4AQ4GE, PN_MICROENABLE5A1CXP4,
       PN_MICROENABLE5AQ8CXP6B, PN_MICROENABLE5VQ8CXP6B, PN_MICROENABLE5AQ8CXP6D,
       PN_MICROENABLE5VQ8CXP6D, PN_MICROENABLE5_MARATHON_ACX_QP,
       PN_MICROENABLE5_MARATHON_VCX_QP, PN_MICROENABLE5_ABACUS_4G_PROTOTYPE,
       PN_MICROENABLE5_ABACUS_4G_BASE, PN_MICROENABLE5_ABACUS_4G_BASE_II,
       PN_MICROENABLE6_IMPULSE_KCU116, PN_MICROENABLE6_IMAWORX_CXP12_QUAD,
       PN_MICROENABLE6_IMAFLEX_CXP12_QUAD, PN_MICROENABLE6_CXP12_IC_4C,
       PN_MICROENABLE6_ABACUS_4TG, PN_MICROENABLE6_ELEGANCE_ECO, PN_MICROENABLE6_IMPULSE_CX4A,
       PN_MICROENABLE6_IMPULSE_CX4X, PN_MICROENABLE6_IMPULSE_FB4X] boardType then 4
     else if List.member
      [
       PN_MICROENABLE6_IMAFLEX_CXP12_PENTA, PN_MICROENABLE6_IMPULSE_PROTOTYPE] boardType then 5
     else 0)"

definition SisoBoardNumberOfPCIeLanes :: "int \<Rightarrow> int" where
  "SisoBoardNumberOfPCIeLanes boardType =
    (if List.member
      [
       PN_MICROENABLE4AS1CL, PN_MICROENABLE4AD1CL, PN_MICROENABLE4VD1CL] boardType then 1
     else if List.member
      [
       PN_MICROENABLE4BASEx4, PN_MICROENABLE4AD4CL, PN_MICROENABLE4VD4CL, PN_MICROENABLE4VQ4GE,
       PN_MICROENABLE4AQ4GE, PN_MICROENABLE5_LIGHTBRIDGE_VCL_PROTOTYPE,
       PN_MICROENABLE5_LIGHTBRIDGE_MARATHON_VCL, PN_MICROENABLE5_LIGHTBRIDGE_VCL,
       PN_MICROENABLE5_MARATHON_VCL, PN_MICROENABLE5_LIGHTBRIDGE_MARATHON_VCLx,
       PN_MICROENABLE5_MARATHON_VCLx, PN_MICROENABLE5_MARATHON_DeepVCL,
       PN_MICROENABLE5_LIGHTBRIDGE_MARATHON_ACL, PN_MICROENABLE5_LIGHTBRIDGE_ACL,
       PN_MICROENABLE5_MARATHON_ACL, PN_MICROENABLE5_MARATHON_ACX_DP,
       PN_MICROENABLE5_MARATHON_ACX_SP, PN_MICROENABLE5_MARATHON_ACX_QP,
       PN_MICROENABLE5_MARATHON_VCX_QP, PN_MICROENABLE5_MARATHON_AF2_DP,
       PN_MICROENABLE5_MARATHON_VF2_DP, PN_MICROENABLE5_ABACUS_4G_PROTOTYPE,
       PN_MICROENABLE5_ABACUS_4G_BASE, PN_MICROENABLE5_ABACUS_4G_BASE_II,
       PN_MICROENABLE6_CXP12_IC_1C, PN_MICROENABLE6_IMPULSE_CX1S,
       PN_MICROENABLE6_LIGHTBRIDGE_FB2A, PN_MIPI_1200_PB_12C, PN_MICROENABLE6_CXP12_LB_2C] boardType then 4
     else if List.member
      [
       PN_MICROENABLE5VD8CL, PN_MICROENABLE5AD8CL, PN_MICROENABLE5A1CLHSF2,
       PN_MICROENABLE5AD8CLHSF2, PN_MICROENABLE5A2CLHSF2, PN_MICROENABLE5A1CXP4,
       PN_MICROENABLE5AQ8CXP6B, PN_MICROENABLE5VQ8CXP6B, PN_MICROENABLE5AQ8CXP6D,
       PN_MICROENABLE5VQ8CXP6D, PN_MICROENABLE6_IMPULSE_KCU116,
       PN_MICROENABLE6_IMAWORX_CXP12_QUAD, PN_MICROENABLE6_IMAFLEX_CXP12_QUAD,
       PN_MICROENABLE6_IMAFLEX_CXP12_PENTA, PN_MICROENABLE6_CXP12_IC_2C,
       PN_MICROENABLE6_CXP12_IC_4C, PN_MICROENABLE6_ABACUS_4TG, PN_MICROENABLE6_ELEGANCE_ECO,
       PN_MICROENABLE6_IMPULSE_CX2S, PN_MICROENABLE6_IMPULSE_CX4A,
       PN_MICROENABLE6_IMPULSE_CX4X, PN_MICROENABLE6_IMPULSE_FB4X,
       PN_MICROENABLE6_IMPULSE_PROTOTYPE] boardType then 8
     else 0)"

definition SisoBoardPCIeGeneration :: "int \<Rightarrow> int" where
  "SisoBoardPCIeGeneration boardType =
    (if List.member
      [
       PN_MICROENABLE4AS1CL, PN_MICROENABLE4AD1CL, PN_MICROENABLE4VD1CL, PN_MICROENABLE4BASEx4,
       PN_MICROENABLE4AD4CL, PN_MICROENABLE4VD4CL, PN_MICROENABLE4VQ4GE, PN_MICROENABLE4AQ4GE] boardType then 1
     else if List.member
      [
       PN_MICROENABLE5VD8CL, PN_MICROENABLE5AD8CL, PN_MICROENABLE5A1CLHSF2,
       PN_MICROENABLE5AD8CLHSF2, PN_MICROENABLE5A2CLHSF2, PN_MICROENABLE5A1CXP4,
       PN_MICROENABLE5AQ8CXP6B, PN_MICROENABLE5VQ8CXP6B, PN_MICROENABLE5AQ8CXP6D,
       PN_MICROENABLE5VQ8CXP6D, PN_MICROENABLE5_LIGHTBRIDGE_VCL_PROTOTYPE,
       PN_MICROENABLE5_LIGHTBRIDGE_MARATHON_VCL, PN_MICROENABLE5_LIGHTBRIDGE_VCL,
       PN_MICROENABLE5_MARATHON_VCL, PN_MICROENABLE5_LIGHTBRIDGE_MARATHON_VCLx,
       PN_MICROENABLE5_MARATHON_VCLx, PN_MICROENABLE5_MARATHON_DeepVCL,
       PN_MICROENABLE5_LIGHTBRIDGE_MARATHON_ACL, PN_MICROENABLE5_LIGHTBRIDGE_ACL,
       PN_MICROENABLE5_MARATHON_ACL, PN_MICROENABLE5_MARATHON_ACX_DP,
       PN_MICROENABLE5_MARATHON_ACX_SP, PN_MICROENABLE5_MARATHON_ACX_QP,
       PN_MICROENABLE5_MARATHON_VCX_QP, PN_MICROENABLE5_MARATHON_AF2_DP,
       PN_MICROENABLE5_MARATHON_VF2_DP, PN_MICROENABLE5_ABACUS_4G_PROTOTYPE,
       PN_MICROENABLE5_ABACUS_4G_BASE, PN_MICROENABLE5_ABACUS_4G_BASE_II] boardType then 2
     else if List.member
      [
       PN_MICROENABLE6_IMPULSE_KCU116, PN_MICROENABLE6_IMAWORX_CXP12_QUAD,
       PN_MICROENABLE6_IMAFLEX_CXP12_QUAD, PN_MICROENABLE6_IMAFLEX_CXP12_PENTA,
       PN_MICROENABLE6_CXP12_IC_1C, PN_MICROENABLE6_CXP12_IC_2C, PN_MICROENABLE6_CXP12_IC_4C,
       PN_MICROENABLE6_ABACUS_4TG, PN_MICROENABLE6_ELEGANCE_ECO, PN_MICROENABLE6_IMPULSE_CX1S,
       PN_MICROENABLE6_IMPULSE_CX2S, PN_MICROENABLE6_IMPULSE_CX4A,
       PN_MICROENABLE6_IMPULSE_CX4X, PN_MICROENABLE6_IMPULSE_FB4X,
       PN_MICROENABLE6_LIGHTBRIDGE_FB2A, PN_MICROENABLE6_IMPULSE_PROTOTYPE,
       PN_MIPI_1200_PB_12C, PN_MICROENABLE6_CXP12_LB_2C] boardType then 3
     else 0)"

definition SisoBoardBaseTypeFromExtendedType :: "int \<Rightarrow> int" where
  "SisoBoardBaseTypeFromExtendedType boardType =
    (if List.member
      [
       PN_MICROENABLE5_LIGHTBRIDGE_MARATHON_ACL, PN_MICROENABLE5_LIGHTBRIDGE_ACL,
       PN_MICROENABLE5_MARATHON_ACL] boardType then PN_MICROENABLE5_LIGHTBRIDGE_MARATHON_ACL
     else if List.member
      [
       PN_MICROENABLE5_LIGHTBRIDGE_MARATHON_VCL, PN_MICROENABLE5_LIGHTBRIDGE_VCL,
       PN_MICROENABLE5_MARATHON_VCL] boardType then PN_MICROENABLE5_LIGHTBRIDGE_MARATHON_VCL
     else if List.member
      [
       PN_MICROENABLE5_LIGHTBRIDGE_MARATHON_VCLx, PN_MICROENABLE5_MARATHON_VCLx,
       PN_MICROENABLE5_MARATHON_DeepVCL] boardType then PN_MICROENABLE5_LIGHTBRIDGE_MARATHON_VCLx
     else if List.member
      [
       PN_TDI, PN_TDI_I, PN_TDI_II, PN_TDI_III] boardType then PN_TDI
     else if List.member
      [
       PN_TGATE, PN_TGATE_I, PN_TGATE_II] boardType then PN_TGATE
     else if List.member
      [
       PN_TGATE_USB, PN_TGATE_I_USB, PN_TGATE_II_USB] boardType then PN_TGATE_USB
     else if List.member
      [
       PN_TGATE_35, PN_TGATE_I_35, PN_TGATE_II_35] boardType then PN_TGATE_35
     else if List.member
      [
       PN_TGATE_35_USB, PN_TGATE_I_35_USB, PN_TGATE_II_35_USB] boardType then PN_TGATE_35_USB
     else boardType)"

definition board_names :: "(int \<times> string) list" where
  "board_names =
    [(PN_MICROENABLE4AD1CL, ''microEnable IV AD1-CL''),
     (PN_MICROENABLE4AD4CL, ''microEnable IV AD4-CL''),
     (PN_MICROENABLE4VD1CL, ''microEnable IV VD1-CL''),
     (PN_MICROENABLE4VD4CL, ''microEnable IV VD4-CL''),
     (PN_MICROENABLE4AS1CL, ''microEnable IV AS1-CL''),
     (PN_MICROENABLE4VQ4GE, ''microEnable IV VQ4-GE''),
     (PN_MICROENABLE4AQ4GE, ''microEnable IV AQ4-GE''),
     (PN_MICROENABLE4_H264CLx1, ''kappa h264 Fujitsu MB86H51''),
     (PN_MICROENABLE4_H264pCLx1, ''kappa h264 Fujitsu MB86H46A''),
     (PN_PX100, ''PixelPlant PX100''),
     (PN_PX200, ''PixelPlant PX200''),
     (PN_PX210, ''PixelPlant PX210-CL''),
     (PN_PX300, ''PixelPlant PX300-CxP''),
     (PN_MICROENABLE5A1CXP4, ''microEnable 5 A01-CXP''),
     (PN_MICROENABLE5A1CLHSF2, ''microEnable 5 A1-CLHS-F2''),
     (PN_MICROENABLE5AQ8CXP6B, ''microEnable 5 AQ8-CXP6B''),
     (PN_MICROENABLE5VQ8CXP6B, ''microEnable 5 VQ8-CXP6B''),
     (PN_MICROENABLE5AD8CLHSF2, ''microEnable 5 AD8-CLHS-F2''),
     (PN_MICROENABLE5VQ8CXP6D, ''microEnable 5 VQ8-CXP6D''),
     (PN_MICROENABLE5AQ8CXP6D, ''microEnable 5 AQ8-CXP6D''),
     (PN_MICROENABLE5VD8CL, ''microEnable 5 VD8-CL''),
     (PN_MICROENABLE5A2CLHSF2, ''microEnable 5 A2-CLHS-F2''),
     (PN_MICROENABLE5AD8CL, ''microEnable 5 AD8-CL''),
     (PN_MICROENABLE5_LIGHTBRIDGE_VCL_PROTOTYPE, ''LightBridge VCL Prototype''),
     (PN_MICROENABLE5_LIGHTBRIDGE_MARATHON_VCL, ''LightBridge/Marathon VCL''),
     (PN_MICROENABLE5_LIGHTBRIDGE_VCL, ''LightBridge VCL''),
     (PN_MICROENABLE5_MARATHON_VCL, ''mE5 marathon VCL''),
     (PN_MICROENABLE5_LIGHTBRIDGE_VCL_SPI, ''LightBridge VCL SPI''),
     (PN_MICROENABLE5_MARATHON_VCL_SPI, ''mE5 marathon VCL SPI''),
     (PN_MICROENABLE5_MARATHON_AF2_DP, ''mE5 marathon AF2''),
     (PN_MICROENABLE5_MARATHON_ACX_QP, ''mE5 marathon ACX QP''),
     (PN_MICROENABLE5_LIGHTBRIDGE_MARATHON_ACL, ''LightBridge/Marathon ACL''),
     (PN_MICROENABLE5_LIGHTBRIDGE_ACL, ''LightBridge ACL''),
     (PN_MICROENABLE5_MARATHON_ACL, ''mE5 marathon ACL''),
     (PN_MICROENABLE5_LIGHTBRIDGE_ACL_SPI, ''LightBridge ACL SPI''),
     (PN_MICROENABLE5_MARATHON_ACL_SPI, ''mE5 marathon ACL SPI''),
     (PN_MICROENABLE5_MARATHON_ACX_SP, ''mE5 marathon ACX SP''),
     (PN_MICROENABLE5_MARATHON_ACX_DP, ''mE5 marathon ACX DP''),
     (PN_MICROENABLE5_MARATHON_VCX_QP, ''mE5 marathon VCX QP''),
     (PN_MICROENABLE5_MARATHON_VF2_DP, ''mE5 marathon VF2''),
     (PN_MICROENABLE5_LIGHTBRIDGE_MARATHON_VCLx, ''LightBridge/Marathon VCLx''),
     (PN_MICROENABLE5_MARATHON_VCLx, ''mE5 marathon VCLx''),
     (PN_MICROENABLE5_MARATHON_DeepVCL, ''mE5 marathon DeepVCL''),
     (PN_TDI, ''Thunderbolt Device Interface/II''),
     (PN_TDI_I, ''Thunderbolt Device Interface''),
     (PN_TDI_II, ''Thunderbolt Device Interface II''),
     (PN_TGATE_USB, ''T-Gate USB/II''),
     (PN_TGATE_I_USB, ''T-Gate USB/II''),
     (PN_TGATE_II_USB, ''T-Gate USB/II''),
     (PN_TGATE, ''T-Gate/II''),
     (PN_TGATE_I, ''T-Gate/II''),
     (PN_TGATE_II, ''T-Gate/II''),
     (PN_TGATE_35, ''T-Gate/II 35 USB''),
     (PN_TGATE_I_35, ''T-Gate/II 35 USB''),
     (PN_TGATE_II_35, ''T-Gate/II 35 USB''),
     (PN_TGATE_35_USB, ''T-Gate/II 35 USB''),
     (PN_TGATE_I_35_USB, ''T-Gate/II 35 USB''),
     (PN_TGATE_II_35_USB, ''T-Gate/II 35 USB''),
     (PN_TTDI, ''Test Thunderbolt Device Interface''),
     (PN_MICROENABLE5_ABACUS_4G_PROTOTYPE, ''microEnable 5 Abacus 4G Prototype''),
     (PN_MICROENABLE5_ABACUS_4G_BASE, ''microEnable 5 Abacus 4G Base''),
     (PN_MICROENABLE5_ABACUS_4G_BASE_II, ''microEnable 5 Abacus 4G Base II''),
     (PN_MICROENABLE6_IMPULSE_TEST_CXP12_QUAD, ''Test-CXP12-A-4C''),
     (PN_MICROENABLE6_IMPULSE_KCU116, ''EVAL board KCU116''),
     (PN_MICROENABLE6_IMAWORX_CXP12_QUAD, ''imaWorx CXP-12 Quad''),
     (PN_MICROENABLE6_IMAFLEX_CXP12_QUAD, ''imaFlex CXP-12 Quad''),
     (PN_MICROENABLE6_IMAFLEX_CXP12_PENTA, ''imaFlex CXP-12 Penta''),
     (PN_MICROENABLE6_ABACUS_4TG, ''microEnable 6 Abacus 4 TGE''),
     (PN_MICROENABLE6_CXP12_IC_1C, ''CXP12 Interface Card 1C''),
     (PN_MICROENABLE6_CXP12_IC_2C, ''CXP12 Interface Card 2C''),
     (PN_MICROENABLE6_CXP12_IC_4C, ''CXP12 Interface Card 4C''),
     (PN_MICROENABLE6_CXP12_LB_2C, ''CXP12 Light Bridge 2C''),
     (PN_MICROENABLE6_ELEGANCE_ECO, ''microEnable 6 Elegance.eco''),
     (PN_MICROENABLE6_IMPULSE_CX1S, ''Impulse CX1S''),
     (PN_MICROENABLE6_IMPULSE_CX2S, ''Impulse CX2S''),
     (PN_MICROENABLE6_IMPULSE_CX4A, ''Impulse CX4A''),
     (PN_MICROENABLE6_IMPULSE_CX4X, ''Impulse CX4X''),
     (PN_MICROENABLE6_IMPULSE_FB4X, ''Impulse FB4X''),
     (PN_MICROENABLE6_LIGHTBRIDGE_FB2A, ''LightBridge FB2A''),
     (PN_MICROENABLE6_IMPULSE_PROTOTYPE, ''Impulse Prototype''),
     (PN_MIPI_1200_PB_12C, ''MIPI-1200 Processing Board 12C'')]"

definition GetBoardName :: "int \<Rightarrow> string" where
  "GetBoardName boardType =
     (case map_of board_names boardType of Some s \<Rightarrow> s | None \<Rightarrow> ''UNKNOWN'')"

definition SisoBoardTypeFromSerialNumber :: "u32 \<Rightarrow> int" where
  "SisoBoardTypeFromSerialNumber serial =
     (let t = uint (drop_bit 20 serial AND 0xfff);
          t1 = (if List.member [PN_MICROENABLE5_LIGHTBRIDGE_MARATHON_ACL,
                   PN_MICROENABLE5_LIGHTBRIDGE_MARATHON_VCL,
                   PN_MICROENABLE5_LIGHTBRIDGE_MARATHON_VCLx] t
                then uint (drop_bit 16 serial AND 0xfffd) else t)
      in if List.member [PN_TDI, PN_TGATE, PN_TGATE_USB, PN_TGATE_35, PN_TGATE_35_USB] t1
         then uint (drop_bit 16 serial AND 0xffff) else t1)"

text \<open>The device identifiers the kernel binds the driver to, \<^verbatim>\<open>menable_pci_table\<close>; \<open>prototypes\<close> is the build option \<^verbatim>\<open>WITH_PROTOTYPE_FRAMEGRABBERS\<close>.\<close>

definition menable_pci_table :: "bool \<Rightarrow> int list" where
  "menable_pci_table prototypes =
    [
     PN_MICROENABLE5_LIGHTBRIDGE_MARATHON_VCL, PN_MICROENABLE5_MARATHON_AF2_DP,
     PN_MICROENABLE5_MARATHON_ACX_QP, PN_MICROENABLE5_LIGHTBRIDGE_MARATHON_ACL,
     PN_MICROENABLE5_MARATHON_ACX_SP, PN_MICROENABLE5_MARATHON_ACX_DP,
     PN_MICROENABLE5_MARATHON_VCX_QP, PN_MICROENABLE5_MARATHON_VF2_DP,
     PN_MICROENABLE5_LIGHTBRIDGE_MARATHON_VCLx, PN_MICROENABLE5_ABACUS_4G,
     PN_MICROENABLE5_ABACUS_4G_BASE, PN_MICROENABLE5_ABACUS_4G_BASE_II,
     PN_MICROENABLE6_IMAWORX_CXP12_QUAD, PN_MICROENABLE6_IMAFLEX_CXP12_QUAD,
     PN_MICROENABLE6_IMAFLEX_CXP12_PENTA, PN_MICROENABLE6_CXP12_IC_1C,
     PN_MICROENABLE6_CXP12_IC_2C, PN_MICROENABLE6_CXP12_IC_4C, PN_MICROENABLE6_CXP12_LB_2C,
     PN_MICROENABLE6_ABACUS_4TG]
     @ (if prototypes then [PN_MICROENABLE6_IMPULSE_KCU116] else [])"

section \<open>Event queue protocols\<close>

definition get_first_va_event_uiq_idx_me5 :: "int \<Rightarrow> int" where
  "get_first_va_event_uiq_idx_me5 board_type =
     (if \<not> SisoBoardIsMe5 board_type then STATUS_ERR_INVALID_ARGUMENT
      else if SisoBoardIsCL board_type \<and> SisoBoardIsMarathon board_type then 4
      else if SisoBoardIsCL board_type \<and> SisoBoardIsIronMan board_type then 2
      else 0)"

abbreviation UIQ_PACKET_TYPE_VA_EVENT :: u32 where "UIQ_PACKET_TYPE_VA_EVENT \<equiv> 0"

text \<open>The status, and the protocol when it is \<^verbatim>\<open>STATUS_OK\<close>.\<close>

definition determine_uiq_protocol :: "u32 \<Rightarrow> int \<Rightarrow> int \<Rightarrow> int + uiq_protocol" where
  "determine_uiq_protocol qid channel board_type =
     (if SisoBoardIsMe6 board_type then
        Inr (if GET_BITS qid 8 15 = UIQ_PACKET_TYPE_VA_EVENT then UIQ_PROTOCOL_VA_EVENT
             else UIQ_PROTOCOL_RAW)
      else if SisoBoardIsMe5 board_type then
        (let first = get_first_va_event_uiq_idx_me5 board_type
         in if MEN_IS_ERROR first then Inl first
            else Inr (if channel < first then UIQ_PROTOCOL_LEGACY else UIQ_PROTOCOL_VA_EVENT))
      else if SisoBoardIsMe4 board_type then Inr UIQ_PROTOCOL_LEGACY
      else Inl STATUS_ERR_UNKNOWN_BOARDTYPE)"

section \<open>Probing a PCI device\<close>

text \<open>The outcomes of the kernel services \<^verbatim>\<open>menable_pci_probe\<close> calls; zero is success.\<close>

record probe_env =
  r_enable :: int
  alloc_ok :: bool
  r_cdev_add :: int
  r_register :: int
  r_regions :: int
  iomap_ok :: bool
  r_board_probe :: int
  r_sysfs :: int

text \<open>
  What is left after the call: the return value, the index counter, whether the device structure
  is still allocated, and whether the initialisation was completed.
\<close>

record probe_result =
  p_ret :: int
  p_maxidx :: int
  p_alive :: bool
  p_ready :: bool

text \<open>
  The error exits undo the index only if it is still the last one, which it is in a probe that no
  other probe overlaps. All of them free the structure.
\<close>

definition probe_failed :: "int \<Rightarrow> int \<Rightarrow> probe_result" where
  "probe_failed ret maxidx = \<lparr>p_ret = ret, p_maxidx = maxidx, p_alive = False, p_ready = False\<rparr>"

definition menable_pci_probe :: "probe_env \<Rightarrow> int \<Rightarrow> int \<Rightarrow> probe_result" where
  "menable_pci_probe e device maxidx =
     (if r_enable e \<noteq> 0 then probe_failed (r_enable e) maxidx
      else if \<not> alloc_ok e then probe_failed (- ENOMEM) maxidx
      else if r_cdev_add e \<noteq> 0 then probe_failed (r_cdev_add e) maxidx
      else if \<not> SisoBoardIsMe5 device \<and> \<not> SisoBoardIsMe6 device then probe_failed 0 maxidx
      else if r_register e \<noteq> 0 then probe_failed (r_register e) maxidx
      else if r_regions e \<noteq> 0 then probe_failed (r_regions e) maxidx
      else if \<not> iomap_ok e then probe_failed 0 maxidx
      else if r_board_probe e \<noteq> 0 then probe_failed (r_board_probe e) maxidx
      else if r_sysfs e \<noteq> 0 then probe_failed (r_sysfs e) maxidx
      else \<lparr>p_ret = 0, p_maxidx = maxidx + 1, p_alive = True, p_ready = True\<rparr>)"

section \<open>Properties\<close>

lemmas board_family_defs = SisoBoardIsMe4_def SisoBoardIsPxp_def SisoBoardIsMe5_def
  SisoBoardIsMe6_def SisoBoardIsAbacus_def SisoBoardIsIronMan_def SisoBoardIsMarathon_def
  SisoBoardIsImpulse_def SisoBoardIsBaslerIC_def SisoBoardIsElegance_def SisoBoardIsTdi_def

text \<open>
  Over the whole enumeration of board types the families fit together: a type is in at most one
  of mE4, PixelPlant, mE5 and mE6, the product lines lie in their family and are disjoint within
  it, every mE4 but the two
  H264 boards is PCIe generation 1, every mE6 generation 3 with a positive number of ports and
  lanes, every mE5 but the Thunderbolt devices generation 2, and every CXP-12 board is a CXP board.
\<close>

theorem board_families_fit_together:
  "list_all (\<lambda>b. length (filter (\<lambda>p. p b) [SisoBoardIsMe4, SisoBoardIsPxp, SisoBoardIsMe5, SisoBoardIsMe6]) \<le> 1
     \<and> (SisoBoardIsMe5 b = (length (filter (\<lambda>p. p b) [SisoBoardIsIronMan, SisoBoardIsMarathon, SisoBoardIsTdi,
            (\<lambda>b. SisoBoardIsAbacus b \<and> \<not> SisoBoardIsMe6 b)]) = 1))
     \<and> (SisoBoardIsMe6 b = (length (filter (\<lambda>p. p b) [SisoBoardIsImpulse, SisoBoardIsElegance,
            (\<lambda>b. SisoBoardIsAbacus b \<and> \<not> SisoBoardIsMe5 b)]) = 1))
     \<and> ((SisoBoardIsMe4 b \<and> b \<noteq> PN_MICROENABLE4_H264CLx1 \<and> b \<noteq> PN_MICROENABLE4_H264pCLx1)
            = (SisoBoardPCIeGeneration b = 1))
     \<and> ((SisoBoardIsMe5 b \<and> \<not> SisoBoardIsTdi b) = (SisoBoardPCIeGeneration b = 2))
     \<and> (if SisoBoardIsMe6 b then SisoBoardPCIeGeneration b = 3 \<and> SisoBoardNumberOfPhysicalPorts b > 0
            \<and> SisoBoardNumberOfPCIeLanes b > 0 else True)
     \<and> (if SisoBoardIsCXP12 b then SisoBoardIsCXP b else True)
     \<and> (if SisoBoardIsBaslerIC b then SisoBoardIsImpulse b else True))
   siso_board_types"
  by code_simp

text \<open>
  Exactly one device of the PCI table is of neither family the driver supports: the CXP12
  Light Bridge 2C, although it is a generation 3 CXP-12 board with its own name. Every other one
  is an mE5 or an mE6, in exactly one of the two families.
\<close>

theorem pci_table_has_one_unsupported_board:
  "filter (\<lambda>b. \<not> (SisoBoardIsMe5 b \<noteq> SisoBoardIsMe6 b)) (menable_pci_table True)
     = [PN_MICROENABLE6_CXP12_LB_2C]
   \<and> SisoBoardIsCXP12 PN_MICROENABLE6_CXP12_LB_2C
   \<and> SisoBoardPCIeGeneration PN_MICROENABLE6_CXP12_LB_2C = 3"
  by code_simp

text \<open>
  A probe that succeeds completely leaves the board allocated and ready and takes one index; in
  every other case the structure is freed and the index counter is unchanged. But two failures
  are reported to the kernel as success: a device of an unsupported family, and a BAR that
  cannot be mapped.
\<close>

theorem probe_reports_two_failures_as_success:
  "let r = menable_pci_probe e device maxidx
   in p_alive r = p_ready r \<and> p_maxidx r = (if p_ready r then maxidx + 1 else maxidx)
      \<and> (p_ret r = 0 \<and> \<not> p_ready r \<longleftrightarrow>
           r_enable e = 0 \<and> alloc_ok e \<and> r_cdev_add e = 0
           \<and> (\<not> SisoBoardIsMe5 device \<and> \<not> SisoBoardIsMe6 device
              \<or> (SisoBoardIsMe5 device \<or> SisoBoardIsMe6 device)
                \<and> r_register e = 0 \<and> r_regions e = 0 \<and> \<not> iomap_ok e))"
  by (simp add: menable_pci_probe_def probe_failed_def Let_def)

lemma serial_word_facts:
  fixes s :: u32
  shows "drop_bit 20 s AND 0xfff = drop_bit 20 s" "drop_bit 16 s AND 0xffff = drop_bit 16 s"
    "uint (drop_bit 16 s AND 0xfffd) div 16 = uint (drop_bit 20 s)"
proof -
  have m12: "(0xfff :: u32) = mask 12" and m16: "(0xffff :: u32) = mask 16" by (simp_all add: mask_eq_exp_minus_1)
  show "drop_bit 20 s AND 0xfff = drop_bit 20 s"
    unfolding m12 by (rule bit_word_eqI) (auto simp: bit_simps dest: bit_imp_le_length)
  show "drop_bit 16 s AND 0xffff = drop_bit 16 s"
    unfolding m16 by (rule bit_word_eqI) (auto simp: bit_simps dest: bit_imp_le_length)
  have "drop_bit 4 (drop_bit 16 s AND 0xfffd) = drop_bit 20 s AND drop_bit 4 0xfffd"
    by (simp add: drop_bit_and)
  also have "(drop_bit 4 0xfffd :: u32) = 0xfff" by code_simp
  also have "drop_bit 20 s AND 0xfff = drop_bit 20 s" by fact
  finally have "uint (drop_bit 4 (drop_bit 16 s AND 0xfffd)) = uint (drop_bit 20 s)" by (rule arg_cong)
  moreover have "uint (drop_bit 4 w) = uint w div 16" for w :: u32
    by (simp add: drop_bit_eq_div uint_div)
  ultimately show "uint (drop_bit 16 s AND 0xfffd) div 16 = uint (drop_bit 20 s)" by (simp only:)
qed

lemma GET_BITS_8_15: "GET_BITS (w::u32) 8 15 = 0 \<longleftrightarrow> w AND 0xFF00 = 0"
proof -
  have m: "(GEN_MASK 8 15 :: u32) = 0xFF00" by code_simp
  have "w AND 0xFF00 = push_bit 8 (GET_BITS w 8 15)"
    unfolding GET_BITS_def m
    by (rule bit_word_eqI) (auto simp: bit_simps m [symmetric] bit_GEN_MASK)
  moreover have "push_bit 8 (GET_BITS w 8 15) = 0 \<longleftrightarrow> GET_BITS w 8 15 = 0"
  proof
    assume 0: "push_bit 8 (GET_BITS w 8 15) = 0"
    show "GET_BITS w 8 15 = 0"
    proof (rule bit_word_eqI)
      fix n assume "n < LENGTH(32)"
      have "\<not> bit (push_bit 8 (GET_BITS w 8 15)) (8 + n)" by (simp add: 0)
      then show "bit (GET_BITS w 8 15) n = bit (0 :: u32) n"
        by (auto simp: bit_simps bit_GET_BITS)
    qed
  qed simp
  ultimately show ?thesis by simp
qed
text \<open>
  The board type coded in a serial number is its upper twelve bits, except for the
  LightBridge/marathon and Thunderbolt types, where it is the upper sixteen bits, with
  bit 1 (which marks the SPI variants) cleared for the former.
\<close>

theorem serial_number_type_width:
  "let t = uint (drop_bit 20 serial :: u32); x = uint (drop_bit 16 serial)
   in if t \<in> {0x754, 0x751, 0x759}
      then SisoBoardTypeFromSerialNumber serial = uint (drop_bit 16 serial AND 0xfffd)
           \<and> SisoBoardTypeFromSerialNumber serial div 16 = t
      else SisoBoardTypeFromSerialNumber serial = (if t \<in> {0xb50, 0xb5e, 0xb57, 0xb58, 0xb59} then x else t)"
proof -
  let ?t = "uint (drop_bit 20 serial)" and ?u = "uint (drop_bit 16 serial AND 0xfffd)"
  note d = serial_word_facts(3) [of serial]
  show ?thesis
  proof (cases "?t \<in> {0x754, 0x751, 0x759}")
    case True
    with d have "?u \<notin> {0xb50, 0xb5e, 0xb57, 0xb58, 0xb59}" by auto
    with True d show ?thesis
      by (auto simp add: SisoBoardTypeFromSerialNumber_def serial_word_facts Let_def)
  next
    case False
    then show ?thesis
      by (simp add: SisoBoardTypeFromSerialNumber_def serial_word_facts Let_def)
  qed
qed

text \<open>
  On mE6 boards the protocol of an event queue depends on the packet type in its id only, on
  mE5 boards on its channel only: the channels before the first event queue (four on
  CameraLink marathon boards, two on CameraLink ironman boards, none elsewhere) are legacy.
\<close>

theorem uiq_protocol_by_board:
  "determine_uiq_protocol qid chan b =
     (if SisoBoardIsMe6 b then
        Inr (if qid AND 0xFF00 = 0 then UIQ_PROTOCOL_VA_EVENT else UIQ_PROTOCOL_RAW)
      else if SisoBoardIsMe5 b then
        Inr (if chan < (if SisoBoardIsCL b \<and> SisoBoardIsMarathon b then 4
                        else if SisoBoardIsCL b \<and> SisoBoardIsIronMan b then 2 else 0)
             then UIQ_PROTOCOL_LEGACY else UIQ_PROTOCOL_VA_EVENT)
      else if SisoBoardIsMe4 b then Inr UIQ_PROTOCOL_LEGACY
      else Inl STATUS_ERR_UNKNOWN_BOARDTYPE)"
  by (simp add: determine_uiq_protocol_def get_first_va_event_uiq_idx_me5_def GET_BITS_8_15 Let_def
      MEN_IS_ERROR_def)

end
