(* ===== verification/Crc32.thy ===== *)
theory Crc32
  imports Prelude
begin

text \<open>
  The checksum of \<^verbatim>\<open>lib/helpers/crc32.c\<close>: the table, the loop over the bytes, and the bit-serial
  shift register the table is an optimisation of. The function neither presets nor inverts: the
  caller passes the seed, so a checksum continues where the last one stopped.
\<close>

definition g_tbCrc :: "u32 list" where
  "g_tbCrc =
    [0x00000000, 0x77073096, 0xEE0E612C, 0x990951BA, 0x076DC419, 0x706AF48F, 0xE963A535, 0x9E6495A3,
     0x0EDB8832, 0x79DCB8A4, 0xE0D5E91E, 0x97D2D988, 0x09B64C2B, 0x7EB17CBD, 0xE7B82D07, 0x90BF1D91,
     0x1DB71064, 0x6AB020F2, 0xF3B97148, 0x84BE41DE, 0x1ADAD47D, 0x6DDDE4EB, 0xF4D4B551, 0x83D385C7,
     0x136C9856, 0x646BA8C0, 0xFD62F97A, 0x8A65C9EC, 0x14015C4F, 0x63066CD9, 0xFA0F3D63, 0x8D080DF5,
     0x3B6E20C8, 0x4C69105E, 0xD56041E4, 0xA2677172, 0x3C03E4D1, 0x4B04D447, 0xD20D85FD, 0xA50AB56B,
     0x35B5A8FA, 0x42B2986C, 0xDBBBC9D6, 0xACBCF940, 0x32D86CE3, 0x45DF5C75, 0xDCD60DCF, 0xABD13D59,
     0x26D930AC, 0x51DE003A, 0xC8D75180, 0xBFD06116, 0x21B4F4B5, 0x56B3C423, 0xCFBA9599, 0xB8BDA50F,
     0x2802B89E, 0x5F058808, 0xC60CD9B2, 0xB10BE924, 0x2F6F7C87, 0x58684C11, 0xC1611DAB, 0xB6662D3D,
     0x76DC4190, 0x01DB7106, 0x98D220BC, 0xEFD5102A, 0x71B18589, 0x06B6B51F, 0x9FBFE4A5, 0xE8B8D433,
     0x7807C9A2, 0x0F00F934, 0x9609A88E, 0xE10E9818, 0x7F6A0DBB, 0x086D3D2D, 0x91646C97, 0xE6635C01,
     0x6B6B51F4, 0x1C6C6162, 0x856530D8, 0xF262004E, 0x6C0695ED, 0x1B01A57B, 0x8208F4C1, 0xF50FC457,
     0x65B0D9C6, 0x12B7E950, 0x8BBEB8EA, 0xFCB9887C, 0x62DD1DDF, 0x15DA2D49, 0x8CD37CF3, 0xFBD44C65,
     0x4DB26158, 0x3AB551CE, 0xA3BC0074, 0xD4BB30E2, 0x4ADFA541, 0x3DD895D7, 0xA4D1C46D, 0xD3D6F4FB,
     0x4369E96A, 0x346ED9FC, 0xAD678846, 0xDA60B8D0, 0x44042D73, 0x33031DE5, 0xAA0A4C5F, 0xDD0D7CC9,
     0x5005713C, 0x270241AA, 0xBE0B1010, 0xC90C2086, 0x5768B525, 0x206F85B3, 0xB966D409, 0xCE61E49F,
     0x5EDEF90E, 0x29D9C998, 0xB0D09822, 0xC7D7A8B4, 0x59B33D17, 0x2EB40D81, 0xB7BD5C3B, 0xC0BA6CAD,
     0xEDB88320, 0x9ABFB3B6, 0x03B6E20C, 0x74B1D29A, 0xEAD54739, 0x9DD277AF, 0x04DB2615, 0x73DC1683,
     0xE3630B12, 0x94643B84, 0x0D6D6A3E, 0x7A6A5AA8, 0xE40ECF0B, 0x9309FF9D, 0x0A00AE27, 0x7D079EB1,
     0xF00F9344, 0x8708A3D2, 0x1E01F268, 0x6906C2FE, 0xF762575D, 0x806567CB, 0x196C3671, 0x6E6B06E7,
     0xFED41B76, 0x89D32BE0, 0x10DA7A5A, 0x67DD4ACC, 0xF9B9DF6F, 0x8EBEEFF9, 0x17B7BE43, 0x60B08ED5,
     0xD6D6A3E8, 0xA1D1937E, 0x38D8C2C4, 0x4FDFF252, 0xD1BB67F1, 0xA6BC5767, 0x3FB506DD, 0x48B2364B,
     0xD80D2BDA, 0xAF0A1B4C, 0x36034AF6, 0x41047A60, 0xDF60EFC3, 0xA867DF55, 0x316E8EEF, 0x4669BE79,
     0xCB61B38C, 0xBC66831A, 0x256FD2A0, 0x5268E236, 0xCC0C7795, 0xBB0B4703, 0x220216B9, 0x5505262F,
     0xC5BA3BBE, 0xB2BD0B28, 0x2BB45A92, 0x5CB36A04, 0xC2D7FFA7, 0xB5D0CF31, 0x2CD99E8B, 0x5BDEAE1D,
     0x9B64C2B0, 0xEC63F226, 0x756AA39C, 0x026D930A, 0x9C0906A9, 0xEB0E363F, 0x72076785, 0x05005713,
     0x95BF4A82, 0xE2B87A14, 0x7BB12BAE, 0x0CB61B38, 0x92D28E9B, 0xE5D5BE0D, 0x7CDCEFB7, 0x0BDBDF21,
     0x86D3D2D4, 0xF1D4E242, 0x68DDB3F8, 0x1FDA836E, 0x81BE16CD, 0xF6B9265B, 0x6FB077E1, 0x18B74777,
     0x88085AE6, 0xFF0F6A70, 0x66063BCA, 0x11010B5C, 0x8F659EFF, 0xF862AE69, 0x616BFFD3, 0x166CCF45,
     0xA00AE278, 0xD70DD2EE, 0x4E048354, 0x3903B3C2, 0xA7672661, 0xD06016F7, 0x4969474D, 0x3E6E77DB,
     0xAED16A4A, 0xD9D65ADC, 0x40DF0B66, 0x37D83BF0, 0xA9BCAE53, 0xDEBB9EC5, 0x47B2CF7F, 0x30B5FFE9,
     0xBDBDF21C, 0xCABAC28A, 0x53B39330, 0x24B4A3A6, 0xBAD03605, 0xCDD70693, 0x54DE5729, 0x23D967BF,
     0xB3667A2E, 0xC4614AB8, 0x5D681B02, 0x2A6F2B94, 0xB40BBE37, 0xC30C8EA1, 0x5A05DF1B, 0x2D02EF8D]"

definition crc32_byte :: "u8 \<Rightarrow> u32 \<Rightarrow> u32" where
  "crc32_byte p crc = drop_bit 8 crc XOR g_tbCrc ! unat ((crc AND 0xFF) XOR ucast p)"

definition crc32 :: "u8 list \<Rightarrow> u32 \<Rightarrow> u32" where
  "crc32 data seed = fold crc32_byte data seed"

section \<open>The shift register\<close>

text \<open>The reflected CRC-32 polynomial, one bit at a time.\<close>

definition crc_bit :: "u32 \<Rightarrow> u32" where
  "crc_bit r = (if bit r 0 then drop_bit 1 r XOR 0xEDB88320 else drop_bit 1 r)"

definition crc_serial :: "u8 list \<Rightarrow> u32 \<Rightarrow> u32" where
  "crc_serial data seed = fold (\<lambda>p r. (crc_bit ^^ 8) (r XOR ucast p)) data seed"

text \<open>
  The step is linear over exclusive or, so the table is generated from its entries at the powers
  of two: each doubling adds one of them to all the entries before.
\<close>

definition crc_basis :: "u32 list" where
  "crc_basis = [0x77073096, 0xEE0E612C, 0x076DC419, 0x0EDB8832, 0x1DB71064, 0x3B6E20C8,
     0x76DC4190, 0xEDB88320]"

definition xor_double :: "u32 list \<Rightarrow> u32 \<Rightarrow> u32 list" where
  "xor_double t b = t @ map (\<lambda>e. b XOR e) t"

lemma table_generated: "foldl xor_double [0] crc_basis = g_tbCrc"
  by (simp add: crc_basis_def xor_double_def g_tbCrc_def)

lemma crc_basis_steps: "crc_basis = map (\<lambda>p. (crc_bit ^^ 8) p) [1, 2, 4, 8, 16, 32, 64, 128]"
  by code_simp

lemma crc_bit_xor: "crc_bit (x XOR y) = crc_bit x XOR crc_bit y"
  by (rule bit_word_eqI) (auto simp: crc_bit_def bit_simps)

lemma crc_bits_xor: "(crc_bit ^^ n) (x XOR y) = (crc_bit ^^ n) x XOR (crc_bit ^^ n) y"
  by (induction n) (simp_all add: crc_bit_xor)

text \<open>Zeros shift out without feedback: the upper 24 bits only move down.\<close>

lemma crc_bits_shift: "take_bit n r = 0 \<Longrightarrow> (crc_bit ^^ n) r = drop_bit n r"
proof (induction n arbitrary: r)
  case (Suc n)
  have b: "\<not> bit r i" if "i < Suc n" for i
    using Suc.prems that by (metis bit_take_bit_iff bit_0_eq bot_apply bot_bool_def)
  then have "take_bit n (drop_bit 1 r) = 0"
    by (auto intro!: bit_word_eqI simp: bit_simps)
  from Suc.IH [OF this] b show ?case
    by (simp add: funpow_Suc_right crc_bit_def drop_bit_drop_bit del: funpow.simps)
qed simp

lemma of_nat_add_power: "i < 2 ^ n \<Longrightarrow> (of_nat (2 ^ n + i) :: u32) = 2 ^ n XOR of_nat i"
proof -
  assume i: "i < 2 ^ n"
  have *: "(2 ^ n :: nat) XOR i = 2 ^ n + i"
  proof -
    have t: "take_bit n i = i" using i by (simp add: take_bit_nat_eq_self_iff)
    have "(2 ^ n :: nat) + i = 2 ^ n OR i"
      by (rule disjunctive_add) (subst t [symmetric], auto simp: bit_simps)
    also have "\<dots> = 2 ^ n XOR i"
      by (rule bit_eqI) (subst (1 2) t [symmetric], auto simp: bit_simps)
    finally show ?thesis by simp
  qed
  have "(of_nat (2 ^ n XOR i) :: u32) = of_nat (2 ^ n) XOR of_nat i"
    by (rule bit_word_eqI) (simp add: bit_simps)
  then show ?thesis by (simp add: *)
qed

lemma doubled_table:
  assumes "length t = 2 ^ n" "\<forall>i<2 ^ n. t ! i = (crc_bit ^^ 8) (of_nat i)" "b = (crc_bit ^^ 8) (2 ^ n)"
  shows "length (xor_double t b) = 2 ^ Suc n
     \<and> (\<forall>i<2 ^ Suc n. xor_double t b ! i = (crc_bit ^^ 8) (of_nat i))"
proof (intro conjI allI impI)
  show "length (xor_double t b) = 2 ^ Suc n" by (simp add: xor_double_def assms(1))
  fix i :: nat assume i: "i < 2 ^ Suc n"
  show "xor_double t b ! i = (crc_bit ^^ 8) (of_nat i)"
  proof (cases "i < 2 ^ n")
    case True
    then show ?thesis using assms(1,2) by (simp add: xor_double_def nth_append)
  next
    case False
    define d where "d = i - 2 ^ n"
    have d: "i = 2 ^ n + d" "d < 2 ^ n" using False i by (simp_all add: d_def)
    have "xor_double t b ! i = b XOR t ! d"
      using d assms(1) by (simp add: xor_double_def nth_append)
    also have "\<dots> = (crc_bit ^^ 8) (2 ^ n XOR of_nat d)"
      using d assms(2,3) by (simp only: crc_bits_xor)
    also have "2 ^ n XOR of_nat d = (of_nat i :: u32)"
      unfolding d(1) using of_nat_add_power [OF d(2)] by (rule sym)
    finally show ?thesis .
  qed
qed

definition generated :: "nat \<Rightarrow> u32 list \<Rightarrow> bool" where
  "generated n t \<longleftrightarrow> length t = 2 ^ n \<and> (\<forall>i<2 ^ n. t ! i = (crc_bit ^^ 8) (of_nat i))"

lemma generated_step:
  "generated n t \<Longrightarrow> b = (crc_bit ^^ 8) (2 ^ n) \<Longrightarrow> generated (Suc n) (xor_double t b)"
  unfolding generated_def using doubled_table by blast

lemma crc_bits_zero: "(crc_bit ^^ n) 0 = 0"
  by (induction n) (simp_all add: crc_bit_def)

lemma generated_table: "generated 8 g_tbCrc"
proof -
  have g: "generated (n + length bs) (foldl xor_double t bs)"
    if "generated n t" "bs = map (\<lambda>k. (crc_bit ^^ 8) (2 ^ k)) [n..<n + length bs]" for n t bs
    using that
  proof (induction bs arbitrary: n t)
    case (Cons b bs)
    have "[n..<n + length (b # bs)] = n # [Suc n..<Suc n + length bs]"
      by (simp add: upt_conv_Cons del: upt_Suc)
    with Cons.prems(2) have b: "b = (crc_bit ^^ 8) (2 ^ n)"
      and bs: "bs = map (\<lambda>k. (crc_bit ^^ 8) (2 ^ k)) [Suc n..<Suc n + length bs]"
      by (simp_all del: upt_Suc)
    show ?case using Cons.IH [OF generated_step [OF Cons.prems(1) b] bs] by simp
  qed simp
  have "generated 0 [0]" by (simp add: generated_def crc_bits_zero)
  moreover have "crc_basis = map (\<lambda>k. (crc_bit ^^ 8) (2 ^ k)) [0..<0 + length crc_basis]"
  proof -
    have "[0..<0 + length crc_basis] = [0, 1, 2, 3, 4, 5, 6, 7]" by (simp add: crc_basis_def upt_rec)
    moreover have "map (\<lambda>k. f (2 ^ k)) [0, 1, 2, 3, 4, 5, 6, 7] = map f [1, 2, 4, 8, 16, 32, 64, 128]"
      for f :: "u32 \<Rightarrow> u32" by simp
    ultimately show ?thesis by (simp only: crc_basis_steps)
  qed
  ultimately have "generated (0 + length crc_basis) (foldl xor_double [0] crc_basis)" by (rule g)
  moreover have "0 + length crc_basis = 8" by (simp add: crc_basis_def)
  ultimately show ?thesis by (simp only: table_generated)
qed

lemma table_entry: "x < 256 \<Longrightarrow> g_tbCrc ! unat x = (crc_bit ^^ 8) (x :: u32)"
  using generated_table by (simp add: generated_def word_less_nat_alt)

lemma crc32_byte_serial: "crc32_byte p r = (crc_bit ^^ 8) (r XOR ucast p)"
proof -
  let ?x = "r AND 0xFF" and ?h = "r AND NOT 0xFF"
  have m: "(0xFF :: u32) = mask 8" by (simp add: mask_eq_exp_minus_1)
  have split: "r XOR ucast p = ?h XOR (?x XOR ucast p)"
    unfolding m by (rule bit_word_eqI) (auto simp: bit_simps)
  have lt: "?x XOR ucast p < 256"
  proof -
    have "?x XOR ucast p = (?x XOR ucast p) AND mask 8"
      unfolding m by (rule bit_word_eqI) (auto simp: bit_simps dest: bit_imp_le_length)
    also have "\<dots> < 2 ^ 8" by (rule and_mask_less_size) (simp add: word_size)
    finally show ?thesis by simp
  qed
  have hi: "take_bit 8 ?h = 0"
    unfolding m by (rule bit_word_eqI) (auto simp: bit_simps)
  have dh: "drop_bit 8 ?h = drop_bit 8 r"
    unfolding m by (rule bit_word_eqI) (auto simp: bit_simps dest: bit_imp_le_length)
  show ?thesis
    unfolding split crc_bits_xor [of 8 ?h] crc_bits_shift [OF hi] dh crc32_byte_def
      table_entry [OF lt] ..
qed

lemma crc32_serial: "crc32 data seed = crc_serial data seed"
proof -
  have "crc32_byte = (\<lambda>p r. (crc_bit ^^ 8) (r XOR ucast p))"
    by (intro ext) (rule crc32_byte_serial)
  then show ?thesis by (simp only: crc32_def crc_serial_def)
qed

section \<open>Properties\<close>

text \<open>
  C40: The table-driven checksum equals the bit-serial CRC-32 shift register for every data and
  every seed: each of the 256 table entries is the register after eight shifts.
\<close>

theorem crc32_is_shift_register: "crc32 data seed = crc_serial data seed"
  by (rule crc32_serial)

text \<open>
  A checksum over several chunks, each seeded with the result of the one before (as the queue
  writer does word by word), is the checksum over the whole data; and with the usual preset and
  inversion the checksum of the digits 1 to 9 is the check value CBF43926 of CRC-32.
\<close>

theorem crc32_chunks_compose:
  "crc32 (xs @ ys) seed = crc32 ys (crc32 xs seed)
   \<and> NOT (crc32 [0x31, 0x32, 0x33, 0x34, 0x35, 0x36, 0x37, 0x38, 0x39] 0xFFFFFFFF) = 0xCBF43926"
proof
  show "crc32 (xs @ ys) seed = crc32 ys (crc32 xs seed)" by (simp add: crc32_def)
  show "NOT (crc32 [0x31, 0x32, 0x33, 0x34, 0x35, 0x36, 0x37, 0x38, 0x39] 0xFFFFFFFF) = 0xCBF43926"
    by (simp add: crc32_def crc32_byte_def g_tbCrc_def)
qed

end
