(* ===== verification/Uiq_Device.thy ===== *)
theory Uiq_Device
  imports Boards Crc32 Registers
begin

text \<open>
  The event queues of a board, \<^verbatim>\<open>linux/uiq.c\<close>, and the event interrupt of \<^verbatim>\<open>linux/menable6.c\<close>.
  A queue is the ring buffer of \<^verbatim>\<open>uiq_base.c\<close> with the fields of \<^verbatim>\<open>struct menable_uiq\<close>; a
  \<^verbatim>\<open>struct completion\<close> is the number of its completions. The board is the part of
  \<^verbatim>\<open>struct siso_menable\<close> these functions use. The memory of the messaging DMA is a function from
  word addresses; a read through a freed queue is undefined behaviour and gives \<open>None\<close>. A loop
  that may not end is a \<open>partial_function\<close>: \<open>None\<close> when it does not.
\<close>

section \<open>Data\<close>

record menable_uiq =
  base :: uiq_base
  cpltodo :: u32
  irqack_offs :: u32
  ackbit :: nat
  cpltimeout :: u64
  cpl :: nat

record uiq_transfer_state =
  read_ptr :: nat
  current_uiq :: "nat option"
  current_header :: u32
  remaining_packet_words :: u16

record 'hw uiq_board =
  ub_hw :: 'hw
  msg_dma_mem :: "(nat \<Rightarrow> u32) option"
  uiq_transfer :: uiq_transfer_state
  uiqs :: "menable_uiq option list"
  uiqcnt :: "u8 list"
  num_active_uiqs :: u32

definition men_fetch_next_incoming_uiq_word ::
    "'hw register_interface \<Rightarrow> u32 \<Rightarrow> 'hw uiq_board \<Rightarrow> u32 \<times> 'hw uiq_board" where
  "men_fetch_next_incoming_uiq_word ri data_register_address b =
     (case msg_dma_mem b of
        Some mem \<Rightarrow> (mem (read_ptr (uiq_transfer b)),
                     b\<lparr>uiq_transfer := (uiq_transfer b)\<lparr>read_ptr := read_ptr (uiq_transfer b) + 1\<rparr>\<rparr>)
      | None \<Rightarrow> let (w, s) = ri_read ri data_register_address (ub_hw b) in (w, b\<lparr>ub_hw := s\<rparr>))"

definition complete :: "menable_uiq \<Rightarrow> menable_uiq" where
  "complete u = u\<lparr>cpl := cpl u + 1\<rparr>"

section \<open>From the board to the user\<close>

text \<open>The clock is read at most once in an interrupt; \<open>now\<close> is what it would give.\<close>

definition men_uiq_pop ::
    "'hw register_interface \<Rightarrow> uiq_timestamp \<Rightarrow> menable_uiq \<Rightarrow> 'hw uiq_board \<Rightarrow> ts_state
     \<Rightarrow> bool \<times> menable_uiq \<times> 'hw uiq_board \<times> ts_state" where
  "men_uiq_pop ri now u b s =
     (let (w, b1) = men_fetch_next_incoming_uiq_word ri (data_register_offset (base u)) b;
          (q, s1) = write_from_grabber now (base u) w s
      in (read_protocol q = UIQ_PROTOCOL_LEGACY \<and> \<not> UIQ_CONTROL_IS_END_OF_TRANSMISSION w
            \<and> \<not> UIQ_CONTROL_IS_INVALID w,
          u\<lparr>base := q\<rparr>, b1, s1))"

partial_function (option) drain ::
    "'hw register_interface \<Rightarrow> u32 \<Rightarrow> u32 \<Rightarrow> 'hw uiq_board \<Rightarrow> (u32 \<times> 'hw uiq_board) option" where
  "drain ri reg lost b =
     (let (w, b1) = men_fetch_next_incoming_uiq_word ri reg b;
          lost1 = (if w AND UIQ_CONTROL_INVALID = 0 then lost + 1 else lost)
      in if w AND UIQ_CONTROL_EOT = 0 then drain ri reg lost1 b1 else Some (lost1, b1))"

partial_function (option) pop_while ::
    "'hw register_interface \<Rightarrow> uiq_timestamp \<Rightarrow> menable_uiq \<Rightarrow> 'hw uiq_board \<Rightarrow> ts_state
     \<Rightarrow> (menable_uiq \<times> 'hw uiq_board \<times> ts_state) option" where
  "pop_while ri now u b s =
     (let (more, u1, b1, s1) = men_uiq_pop ri now u b s
      in if more then pop_while ri now u1 b1 s1 else Some (u1, b1, s1))"

definition count_irq :: "menable_uiq \<Rightarrow> menable_uiq" where
  "count_irq u = u\<lparr>base := (base u)\<lparr>irq_count := irq_count (base u) + 1\<rparr>\<rparr>"

definition complete_reader :: "menable_uiq \<Rightarrow> menable_uiq" where
  "complete_reader u = (if cpltodo u \<noteq> 0 \<and> cpltodo u \<le> fill (base u) then complete u else u)"

definition men_uiq_pop_all ::
    "'hw register_interface \<Rightarrow> uiq_timestamp \<Rightarrow> menable_uiq \<Rightarrow> 'hw uiq_board \<Rightarrow> ts_state
     \<Rightarrow> (bool \<times> menable_uiq \<times> 'hw uiq_board \<times> ts_state) option" where
  "men_uiq_pop_all ri now u b s =
     (if is_full (base u) then
        map_option (\<lambda>(n, b1). (False, u\<lparr>base := (base u)\<lparr>lost_words_count := n\<rparr>\<rparr>, b1, s))
          (drain ri (data_register_offset (base u)) (lost_words_count (base u)) b)
      else
        map_option (\<lambda>(u1, b1, s1).
            (is_empty (base u) \<and> \<not> is_empty (base u1), count_irq (complete_reader u1), b1, s1))
          (pop_while ri now u b s))"

section \<open>From the user to the board\<close>

text \<open>Word \<open>i\<close> of the queue, \<^verbatim>\<open>data[(read_index + i) % capacity]\<close>.\<close>

definition uiq_word :: "uiq_base \<Rightarrow> u32 \<Rightarrow> u32" where
  "uiq_word q i = uiq_data q ! unat ((read_index q + i) mod capacity q)"

definition uiq_write_to_device_raw ::
    "'hw register_interface \<Rightarrow> uiq_base \<Rightarrow> u32 \<Rightarrow> 'hw \<Rightarrow> 'hw" where
  "uiq_write_to_device_raw ri q write_count s =
     fold (\<lambda>i. ri_write ri (data_register_offset q) (uiq_word q (of_nat i) AND 0xffff))
       [0..<unat write_count] s"

definition uiq_write_to_device_legacy ::
    "'hw register_interface \<Rightarrow> uiq_base \<Rightarrow> u32 \<Rightarrow> 'hw \<Rightarrow> 'hw" where
  "uiq_write_to_device_legacy ri q write_count s =
     (if write_count = 0 then s
      else ri_write ri (data_register_offset q)
             ((uiq_word q (write_count - 1) AND 0xffff) OR UIQ_CONTROL_EOT)
             (fold (\<lambda>i. ri_write ri (data_register_offset q) (uiq_word q (of_nat i) AND 0xffff))
                [0..<unat (write_count - 1)] s))"

definition UIQ_CXP_HEADER_PACKET_LENGTH :: "u32 \<Rightarrow> u32" where
  "UIQ_CXP_HEADER_PACKET_LENGTH x = x AND 0xffff"

abbreviation UIQ_CXP_HEADER_TAGGED_PACKET_FLAG :: u32 where
  "UIQ_CXP_HEADER_TAGGED_PACKET_FLAG \<equiv> 0x200000"
abbreviation UIQ_CXP_SOP_K_WORD :: u32 where "UIQ_CXP_SOP_K_WORD \<equiv> 0xfbfbfbfb"
abbreviation UIQ_CXP_COMMAND_PACKET :: u32 where "UIQ_CXP_COMMAND_PACKET \<equiv> 0x02020202"
abbreviation UIQ_CXP_TAGGED_COMMAND_PACKET :: u32 where "UIQ_CXP_TAGGED_COMMAND_PACKET \<equiv> 0x05050505"
abbreviation UIQ_CXP_EOP_K_WORD :: u32 where "UIQ_CXP_EOP_K_WORD \<equiv> 0xfdfdfdfd"

text \<open>The bytes of a word in memory, on the little-endian machines the driver runs on.\<close>

definition word_bytes :: "u32 \<Rightarrow> u8 list" where
  "word_bytes w = map (\<lambda>k. ucast (drop_bit k w)) [0, 8, 16, 24]"

definition uiq_write_to_device_cxp ::
    "'hw register_interface \<Rightarrow> uiq_base \<Rightarrow> u32 \<Rightarrow> 'hw \<Rightarrow> 'hw" where
  "uiq_write_to_device_cxp ri q write_count s =
     (let reg = data_register_offset q;
          header = uiq_data q ! unat (read_index q);
          packet_length = UIQ_CXP_HEADER_PACKET_LENGTH header
      in if write_count > packet_length then
           let s1 = ri_write ri (reg + 1) 1 s;
               s2 = ri_write ri reg UIQ_CXP_SOP_K_WORD s1;
               s3 = ri_write ri (reg + 1) 0 s2;
               packet_type = (if header AND UIQ_CXP_HEADER_TAGGED_PACKET_FLAG \<noteq> 0
                              then UIQ_CXP_TAGGED_COMMAND_PACKET else UIQ_CXP_COMMAND_PACKET);
               s4 = ri_write ri reg packet_type s3;
               (s5, crc) = fold (\<lambda>i (s, crc).
                   let w = uiq_word q (of_nat i + 1)
                   in (ri_write ri reg w s, crc32 (word_bytes w) crc))
                 [0..<unat packet_length] (s4, 0xffffffff);
               s6 = ri_write ri reg crc s5;
               s7 = ri_write ri (reg + 1) 1 s6
           in ri_write ri reg UIQ_CXP_EOP_K_WORD s7
         else s)"

text \<open>
  \<^verbatim>\<open>men_uiq_push\<close>: the burst is written and taken out of the queue; true if it is empty then. A
  writer that waits for room is completed.
\<close>

definition burst :: "uiq_base \<Rightarrow> u32" where
  "burst q = min (fpga_fifo_depth q) (fill q)"

definition send_burst :: "'hw register_interface \<Rightarrow> uiq_base \<Rightarrow> 'hw \<Rightarrow> 'hw" where
  "send_burst ri q s = (case uiq_type_of q of
      UIQ_TYPE_WRITE_RAW \<Rightarrow> uiq_write_to_device_raw ri q (burst q) s
    | UIQ_TYPE_WRITE_LEGACY \<Rightarrow> uiq_write_to_device_legacy ri q (burst q) s
    | UIQ_TYPE_WRITE_CXP \<Rightarrow> uiq_write_to_device_cxp ri q (burst q) s
    | UIQ_TYPE_READ \<Rightarrow> s)"

definition after_burst :: "uiq_base \<Rightarrow> uiq_base" where
  "after_burst q = q\<lparr>read_index := (read_index q + burst q) mod capacity q,
                     irq_count := irq_count q + 1, fill := fill q - burst q\<rparr>"

definition complete_writer :: "menable_uiq \<Rightarrow> menable_uiq" where
  "complete_writer u =
     (if cpltodo u \<noteq> 0 \<and> cpltodo u \<le> capacity (base u) - fill (base u) then complete u else u)"

definition men_uiq_push ::
    "'hw register_interface \<Rightarrow> menable_uiq \<Rightarrow> 'hw \<Rightarrow> bool \<times> menable_uiq \<times> 'hw" where
  "men_uiq_push ri u s =
     (let s1 = send_burst ri (base u) s;
          u1 = complete_writer (u\<lparr>base := after_burst (base u)\<rparr>)
      in if fill (base u1) = 0 then (True, u1\<lparr>base := (base u1)\<lparr>read_index := 0\<rparr>\<rparr>, s1)
         else (False, u1, s1))"

section \<open>User space access\<close>

text \<open>
  One return of \<^verbatim>\<open>wait_for_completion_killable_timeout\<close>: its status, what others did to the
  state while the lock was free, and whether a fatal signal is pending then. A waiter that has
  not seen its last return yet is still waiting (\<open>None\<close>).
\<close>

record 's wait_event =
  we_status :: int
  we_others :: "'s \<Rightarrow> 's"
  we_fatal :: bool

definition consume :: "int \<Rightarrow> menable_uiq \<Rightarrow> menable_uiq" where
  "consume status u = (if status > 0 then u\<lparr>cpl := cpl u - 1\<rparr> else u)"

fun read_wait :: "u32 \<Rightarrow> menable_uiq wait_event list \<Rightarrow> menable_uiq \<Rightarrow> menable_uiq option" where
  "read_wait n [] u = None"
| "read_wait n (e # es) u =
     (let u1 = consume (we_status e) (we_others e u)
      in if we_status e > 0 \<and> \<not> fill (base u1) \<ge> n \<and> \<not> we_fatal e then read_wait n es u1
         else Some u1)"

text \<open>\<^verbatim>\<open>uiq_read\<close>: the return value and the words it puts into the buffer.\<close>

definition uiq_read ::
    "nat \<Rightarrow> menable_uiq wait_event list \<Rightarrow> menable_uiq \<Rightarrow> (int \<times> u32 list \<times> menable_uiq) option" where
  "uiq_read buffer_size es u =
     (let n = of_nat (buffer_size div 4) :: u32
      in if cpltodo u \<noteq> 0 then Some (- EBUSY, [], u)
         else case (if fill (base u) < n
                    then map_option (\<lambda>u1. u1\<lparr>cpltodo := 0\<rparr>) (read_wait n es (u\<lparr>cpltodo := n\<rparr>))
                    else Some u) of
           None \<Rightarrow> None
         | Some u1 \<Rightarrow>
             if fill (base u1) > 0 then
               let (ws, q) = pop_front (base u1) n
               in Some (int (length ws) * 4, ws, u1\<lparr>base := q\<rparr>)
             else Some (- ETIMEDOUT, [], u1))"

text \<open>
  The writer's wait: \<open>True\<close> when the queue was cleared meanwhile. The status goes into an
  \<^verbatim>\<open>unsigned long\<close>, so an error counts as time left.
\<close>

fun write_wait ::
    "u32 \<Rightarrow> (menable_uiq \<times> 'hw) wait_event list \<Rightarrow> menable_uiq \<times> 'hw
     \<Rightarrow> (bool \<times> menable_uiq \<times> 'hw) option" where
  "write_wait n [] us = None"
| "write_wait n (e # es) us =
     (let (u0, s1) = we_others e us; u1 = consume (we_status e) u0
      in if cpltodo u1 = - 1 then Some (True, u1\<lparr>cpltodo := 0\<rparr>, s1)
         else if capacity (base u1) - fill (base u1) \<ge> n then Some (False, u1\<lparr>cpltodo := 0\<rparr>, s1)
         else if (word_of_int (we_status e) :: u64) > 0 \<and> \<not> we_fatal e then write_wait n es (u1, s1)
         else Some (False, u1\<lparr>cpltodo := 0\<rparr>, s1))"

definition set_running :: "menable_uiq \<Rightarrow> menable_uiq" where
  "set_running u = u\<lparr>base := (base u)\<lparr>is_running := True\<rparr>\<rparr>"

definition uiq_write ::
    "'hw register_interface \<Rightarrow> nat \<Rightarrow> u32 list \<Rightarrow> (menable_uiq \<times> 'hw) wait_event list
     \<Rightarrow> menable_uiq \<times> 'hw \<Rightarrow> (int \<times> menable_uiq \<times> 'hw) option" where
  "uiq_write ri buffer_size buf es us =
     (let (u, s) = us; n = of_nat (buffer_size div 4) :: u32
      in if buffer_size = 0 then Some (0, u, s)
         else if buffer_size mod 4 \<noteq> 0 then Some (- EINVAL, u, s)
         else if capacity (base u) = 0 \<or> capacity (base u) < n then Some (- ENOSPC, u, s)
         else if cpltodo u \<noteq> 0 then Some (- EBUSY, u, s)
         else case (if capacity (base u) - fill (base u) < n
                    then write_wait n es (u\<lparr>cpltodo := n\<rparr>, s) else Some (False, u, s)) of
           None \<Rightarrow> None
         | Some (cleared, u1, s1) \<Rightarrow>
             if cleared then Some (int buffer_size, u1, s1)
             else if capacity (base u1) - fill (base u1) < n then Some (- EBUSY, u1, s1)
             else
               let u2 = u1\<lparr>base := snd (push_back (base u1) (take (unat n) buf))\<rparr>
               in if \<not> is_running (base u2)
                  then let (notify, u3, s2) = men_uiq_push ri u2 s1
                       in Some (int buffer_size, set_running u3, s2)
                  else Some (int buffer_size, u2, s1))"

definition men_uiq_writefill :: "bool \<Rightarrow> int \<Rightarrow> menable_uiq \<Rightarrow> int \<times> menable_uiq" where
  "men_uiq_writefill is_zero buffer_size u =
     (if \<not> is_zero then (- EINVAL, u)
      else let u1 = u\<lparr>base := reset (base u)\<rparr>
           in (buffer_size, if cpltodo u1 \<noteq> 0 then complete (u1\<lparr>cpltodo := - 1\<rparr>) else u1))"

text \<open>\<open>mem\<close>: the words of the new buffer as allocated, or \<open>None\<close> when there is no memory.\<close>

definition men_scale_uiq :: "u32 list option \<Rightarrow> u32 \<Rightarrow> menable_uiq \<Rightarrow> int \<times> menable_uiq" where
  "men_scale_uiq mem len u =
     (let new_buffer_size = len div 4
      in if capacity (base u) = new_buffer_size then (0, u)
         else case (if len = 0 then Some [] else mem) of
           None \<Rightarrow> (- ENOMEM, u)
         | Some new_buffer \<Rightarrow>
             (0, u\<lparr>base := snd (replace_buffer new_buffer new_buffer_size (base u))\<rparr>))"

text \<open>
  \<^verbatim>\<open>men_uiq_init\<close> with the outcomes of the kernel services; it gives the queue or an error, and
  how often the memory of the queue was freed: \<^verbatim>\<open>device_unregister\<close> drops the last reference, and
  the release function \<^verbatim>\<open>menable_uiq_release\<close> frees the structure.
\<close>

record uiq_init_env =
  ui_alloc :: bool
  ui_device_add :: int
  ui_bin_file :: int
  ui_link :: int

definition men_uiq_init ::
    "uiq_init_env \<Rightarrow> int \<Rightarrow> int \<Rightarrow> u32 \<Rightarrow> uiq_type \<Rightarrow> u32 \<Rightarrow> u32 \<Rightarrow> (int + menable_uiq) \<times> nat" where
  "men_uiq_init e board_type chan ident t reg_offset fifo_depth =
     (if \<not> ui_alloc e then (Inl (- ENOMEM), 0)
      else case determine_uiq_protocol ident chan board_type of
        Inl err \<Rightarrow> (Inl (- EINVAL), 1)
      | Inr protocol \<Rightarrow>
          if ui_device_add e \<noteq> 0 then (Inl (ui_device_add e), 1)
          else if ui_bin_file e \<noteq> 0 then (Inl (ui_bin_file e), 2)
          else if ui_link e \<noteq> 0 then (Inl (ui_link e), 2)
          else (Inr \<lparr>base = uiq_base_init reg_offset [] 0 ident t protocol fifo_depth (word_of_int chan),
                     cpltodo = 0, irqack_offs = 0, ackbit = 0, cpltimeout = 0, cpl = 0\<rparr>, 0))"

section \<open>Interrupts\<close>

definition upd_hw :: "('hw \<Rightarrow> 'hw) \<Rightarrow> 'hw uiq_board \<Rightarrow> 'hw uiq_board" where
  "upd_hw f b = b\<lparr>ub_hw := f (ub_hw b)\<rparr>"

definition stop_queue :: "menable_uiq \<Rightarrow> menable_uiq" where
  "stop_queue u = u\<lparr>base := (base u)\<lparr>is_running := False, read_index := 0\<rparr>\<rparr>"

definition uiq_irq ::
    "'hw register_interface \<Rightarrow> uiq_timestamp \<Rightarrow> menable_uiq \<Rightarrow> 'hw uiq_board \<Rightarrow> ts_state
     \<Rightarrow> (menable_uiq \<times> 'hw uiq_board \<times> ts_state) option" where
  "uiq_irq ri now u b s =
     (let ack = upd_hw (ri_write ri (irqack_offs u) (push_bit (ackbit u) 1))
      in if \<not> UIQ_TYPE_IS_WRITE (uiq_type_of (base u)) then
           map_option (\<lambda>(notify, u1, b1, s1). (u1, ack b1, s1)) (men_uiq_pop_all ri now u b s)
         else if fill (base u) = 0 then Some (stop_queue u, ack b, s)
         else let b1 = ack b; (notify, u1, h) = men_uiq_push ri u (ub_hw b1)
              in Some (u1, b1\<lparr>ub_hw := h\<rparr>, s))"

abbreviation ME6_REG_IRQ_EVENT_COUNT :: u32 where "ME6_REG_IRQ_EVENT_COUNT \<equiv> 5"
abbreviation ME6_REG_IRQ_EVENT_DATA :: u32 where "ME6_REG_IRQ_EVENT_DATA \<equiv> 6"
abbreviation ME6_IRQ_EVENT_OVERFLOW :: u32 where "ME6_IRQ_EVENT_OVERFLOW \<equiv> 1"

definition ME6_IRQ_EVENT_GET_COUNT :: "u32 \<Rightarrow> u32" where
  "ME6_IRQ_EVENT_GET_COUNT x = drop_bit 1 x AND 0xffff"

definition ME6_IRQ_EVENT_GET_PACKET_LENGTH :: "u32 \<Rightarrow> u32" where
  "ME6_IRQ_EVENT_GET_PACKET_LENGTH x = drop_bit 16 x AND 0xffff"

definition ME6_IRQ_EVENT_GET_PACKET_ID :: "u32 \<Rightarrow> u32" where
  "ME6_IRQ_EVENT_GET_PACKET_ID x = x AND 0xffff"

definition upd_transfer ::
    "(uiq_transfer_state \<Rightarrow> uiq_transfer_state) \<Rightarrow> 'hw uiq_board \<Rightarrow> 'hw uiq_board" where
  "upd_transfer f b = b\<lparr>uiq_transfer := f (uiq_transfer b)\<rparr>"

abbreviation remaining :: "'hw uiq_board \<Rightarrow> u16" where
  "remaining b \<equiv> remaining_packet_words (uiq_transfer b)"

abbreviation dec_remaining :: "'hw uiq_board \<Rightarrow> 'hw uiq_board" where
  "dec_remaining b \<equiv> upd_transfer (\<lambda>t. t\<lparr>remaining_packet_words := remaining_packet_words t - 1\<rparr>) b"

definition uiq_of :: "nat \<Rightarrow> 'hw uiq_board \<Rightarrow> menable_uiq option" where
  "uiq_of i b = (if i < length (uiqs b) then uiqs b ! i else None)"

definition put_uiq :: "nat \<Rightarrow> menable_uiq \<Rightarrow> 'hw uiq_board \<Rightarrow> 'hw uiq_board" where
  "put_uiq i u b = b\<lparr>uiqs := (uiqs b)[i := Some u]\<rparr>"

text \<open>The first of the active queues with the identifier of the packet.\<close>

definition find_uiq :: "u32 \<Rightarrow> 'hw uiq_board \<Rightarrow> nat option" where
  "find_uiq target b = List.find (\<lambda>i. case uiq_of i b of None \<Rightarrow> False | Some u \<Rightarrow> uiq_id (base u) = target)
     [0..<unat (num_active_uiqs b)]"

definition take_header :: "'hw register_interface \<Rightarrow> 'hw uiq_board \<Rightarrow> 'hw uiq_board" where
  "take_header ri b =
     (let (h, b1) = men_fetch_next_incoming_uiq_word ri ME6_REG_IRQ_EVENT_DATA b
      in if h = 0 \<or> h = 0xffffffff
         then upd_transfer (\<lambda>t. t\<lparr>current_header := 0, remaining_packet_words := 0\<rparr>) b1
         else upd_transfer (\<lambda>t. t\<lparr>current_header := h,
                 remaining_packet_words := ucast (ME6_IRQ_EVENT_GET_PACKET_LENGTH h - 1),
                 current_uiq := find_uiq (ME6_IRQ_EVENT_GET_PACKET_ID h) b1\<rparr>) b1)"

text \<open>The inner loops give the number of words that are left.\<close>

fun discard_words :: "'hw register_interface \<Rightarrow> nat \<Rightarrow> 'hw uiq_board \<Rightarrow> nat \<times> 'hw uiq_board" where
  "discard_words ri 0 b = (0, b)"
| "discard_words ri (Suc n) b =
     (if remaining b = 0 then (Suc n, b)
      else discard_words ri n
             (dec_remaining (snd (men_fetch_next_incoming_uiq_word ri ME6_REG_IRQ_EVENT_DATA b))))"

fun pop_words ::
    "'hw register_interface \<Rightarrow> uiq_timestamp \<Rightarrow> nat \<Rightarrow> menable_uiq \<Rightarrow> 'hw uiq_board \<Rightarrow> ts_state
     \<Rightarrow> nat \<times> menable_uiq \<times> 'hw uiq_board \<times> ts_state" where
  "pop_words ri now 0 u b s = (0, u, b, s)"
| "pop_words ri now (Suc n) u b s =
     (if remaining b = 0 then (Suc n, u, b, s)
      else let (more, u1, b1, s1) = men_uiq_pop ri now u b s
           in pop_words ri now n u1 (dec_remaining b1) s1)"

definition write_packet_done ::
    "'hw register_interface \<Rightarrow> nat \<Rightarrow> menable_uiq \<Rightarrow> 'hw uiq_board \<Rightarrow> 'hw uiq_board" where
  "write_packet_done ri i u b =
     (if fill (base u) = 0 then put_uiq i (stop_queue u) b
      else let (emptied, u1, h) = men_uiq_push ri u (ub_hw b) in put_uiq i u1 (b\<lparr>ub_hw := h\<rparr>))"

lemma discard_words_less: "fst (discard_words ri n b) \<le> n"
  by (induction n arbitrary: b) (simp_all add: le_SucI)

lemma pop_words_less: "fst (pop_words ri now n u b s) \<le> n"
  by (induction n arbitrary: u b s) (simp_all add: le_SucI case_prod_beta)

lemma discard_words_progress:
  "(n', b') = discard_words ri n b \<Longrightarrow> n \<noteq> 0 \<Longrightarrow> remaining b \<noteq> 0 \<Longrightarrow> n' < n"
  by (cases n) (auto dest!: arg_cong [where f = fst] simp: discard_words_less less_Suc_eq_le)

lemma pop_words_progress:
  "(n', u', b', s') = pop_words ri now n u b s \<Longrightarrow> n \<noteq> 0 \<Longrightarrow> remaining b \<noteq> 0 \<Longrightarrow> n' < n"
  by (cases n) (auto dest!: arg_cong [where f = fst]
      simp: pop_words_less less_Suc_eq_le case_prod_beta)

function process_uiq_data ::
    "'hw register_interface \<Rightarrow> uiq_timestamp \<Rightarrow> nat \<Rightarrow> 'hw uiq_board \<Rightarrow> ts_state
     \<Rightarrow> ('hw uiq_board \<times> ts_state) option" where
  "process_uiq_data ri now num_words b s =
     (if num_words = 0 then Some (b, s)
      else if remaining b = 0 then process_uiq_data ri now (num_words - 1) (take_header ri b) s
      else case current_uiq (uiq_transfer b) of
        None \<Rightarrow>
          (let (n, b1) = discard_words ri num_words b in process_uiq_data ri now n b1 s)
      | Some i \<Rightarrow>
          (case uiq_of i b of
             None \<Rightarrow> None
           | Some u \<Rightarrow>
               if UIQ_TYPE_IS_WRITE (uiq_type_of (base u)) then
                 (let (n, b1) = discard_words ri num_words b
                  in process_uiq_data ri now n
                       (if remaining b1 = 0 then write_packet_done ri i u b1 else b1) s)
               else
                 (let (n, u1, b1, s1) = pop_words ri now num_words u b s
                  in process_uiq_data ri now n
                       (put_uiq i (count_irq (complete_reader u1)) b1) s1)))"
  by pat_completeness auto
termination
  by (relation "measure (\<lambda>(ri, now, n, b, s). n)")
    (auto dest: discard_words_progress pop_words_progress)

declare process_uiq_data.simps [simp del]

definition me6_event_irq ::
    "'hw register_interface \<Rightarrow> uiq_timestamp \<Rightarrow> 'hw uiq_board \<Rightarrow> ts_state
     \<Rightarrow> ('hw uiq_board \<times> ts_state) option" where
  "me6_event_irq ri now b s =
     (let (reg, h) = ri_read ri ME6_REG_IRQ_EVENT_COUNT (ub_hw b); b1 = b\<lparr>ub_hw := h\<rparr>
      in if reg AND ME6_IRQ_EVENT_OVERFLOW = 0
         then process_uiq_data ri now (unat (ME6_IRQ_EVENT_GET_COUNT reg)) b1 s
         else Some (b1, s))"

end
