(* ===== verification/Uiq_Board.thy ===== *)
theory Uiq_Board
  imports Uiq_Device
begin

text \<open>
  The queues of a board as a whole: the table of queues and its growth for VA events
  (\<^verbatim>\<open>me6_alloc_va_event_uiqs\<close>), its removal (\<^verbatim>\<open>men_del_uiqs\<close>), and the messaging DMA, which
  delivers the words of the event queues in pages of memory
  (\<^verbatim>\<open>lib/dma/messaging_dma_controller.c\<close>, \<^verbatim>\<open>me6_messaging_irq\<close>).
\<close>

section \<open>The table of queues\<close>

abbreviation ME6_MAX_UIQS :: u32 where "ME6_MAX_UIQS \<equiv> 64"
abbreviation MEN_MAX_UIQ_PER_FPGA :: nat where "MEN_MAX_UIQ_PER_FPGA \<equiv> 16"
abbreviation UIQ_MAX_FPGAS :: nat where "UIQ_MAX_FPGAS \<equiv> 2"

text \<open>The table as \<^verbatim>\<open>krealloc\<close> leaves it: the old entries, and room for more.\<close>

definition resize_uiqs :: "nat \<Rightarrow> 'hw uiq_board \<Rightarrow> 'hw uiq_board" where
  "resize_uiqs n b = b\<lparr>uiqs := take n (uiqs b) @ replicate (n - length (uiqs b)) None\<rparr>"

fun add_event_uiqs ::
    "(nat \<Rightarrow> uiq_init_env) \<Rightarrow> int \<Rightarrow> u32 \<Rightarrow> nat list \<Rightarrow> 'hw uiq_board \<Rightarrow> int \<times> 'hw uiq_board" where
  "add_event_uiqs env board_type first [] b = (STATUS_OK, b)"
| "add_event_uiqs env board_type first (i # is) b =
     (case fst (men_uiq_init (env i) board_type (int i) (of_nat i - first) UIQ_TYPE_READ
                  ME6_REG_IRQ_EVENT_DATA 0) of
        Inl err \<Rightarrow> (err, b)
      | Inr u \<Rightarrow> add_event_uiqs env board_type first is
          (b\<lparr>uiqs := (uiqs b)[i := Some u],
             uiqcnt := (uiqcnt b)[0 := uiqcnt b ! 0 + 1],
             num_active_uiqs := num_active_uiqs b + 1\<rparr>))"

definition wake :: "menable_uiq \<Rightarrow> menable_uiq" where
  "wake u = (if cpl u = 0 then complete u else u)"

definition me6_alloc_va_event_uiqs ::
    "(nat \<Rightarrow> uiq_init_env) \<Rightarrow> bool \<Rightarrow> int \<Rightarrow> u32 \<Rightarrow> u32 \<Rightarrow> 'hw uiq_board \<Rightarrow> int \<times> 'hw uiq_board" where
  "me6_alloc_va_event_uiqs env realloc_ok board_type num_uiq_declarations num_events b =
     (let first = num_uiq_declarations;
          new_uiq_count = first + num_events
      in if new_uiq_count > ME6_MAX_UIQS then (STATUS_ERR_INVALID_ARGUMENT, b)
         else if ucast (uiqcnt b ! 0) < new_uiq_count then
           (if \<not> realloc_ok then (STATUS_ERR_INSUFFICIENT_MEM, b)
            else add_event_uiqs env board_type first [unat (uiqcnt b ! 0)..<unat new_uiq_count]
                   (resize_uiqs (unat new_uiq_count) b))
         else if num_active_uiqs b > new_uiq_count then
           (STATUS_OK,
            b\<lparr>uiqs := fold (\<lambda>n us. us[n := map_option wake (us ! n)])
                        [unat new_uiq_count..<unat (num_active_uiqs b)] (uiqs b),
              num_active_uiqs := new_uiq_count\<rparr>)
         else (STATUS_OK, b))"

text \<open>\<^verbatim>\<open>men_del_uiqs\<close>, also for the FPGAs after the given one.\<close>

definition del_fpga_uiqs :: "nat \<Rightarrow> 'hw uiq_board \<Rightarrow> 'hw uiq_board" where
  "del_fpga_uiqs f b =
     b\<lparr>uiqs := fold (\<lambda>i us. us[f * MEN_MAX_UIQ_PER_FPGA + i := None]) [0..<unat (uiqcnt b ! f)] (uiqs b),
       num_active_uiqs := num_active_uiqs b - ucast (uiqcnt b ! f),
       uiqcnt := (uiqcnt b)[f := 0]\<rparr>"

definition men_del_uiqs :: "nat \<Rightarrow> 'hw uiq_board \<Rightarrow> 'hw uiq_board" where
  "men_del_uiqs fpga b = fold del_fpga_uiqs [fpga..<UIQ_MAX_FPGAS] b"

section \<open>The messaging DMA\<close>

abbreviation WORDS_PER_PAGE :: u32 where "WORDS_PER_PAGE \<equiv> 1024"

abbreviation DMA_STATUS_ENABLED_AND_RUNNING :: u32 where "DMA_STATUS_ENABLED_AND_RUNNING \<equiv> 5"

text \<open>
  The pages are \<open>num_buffers\<close> buffers at the word addresses \<open>buffer_addresses\<close>.
\<close>

record messaging_dma_controller =
  num_buffers :: u8
  buffer_addresses :: "nat \<Rightarrow> nat"
  read_offset :: u32
  status_register :: u32

record messaging_dma_transmission_info =
  info_read_ptr :: nat
  info_num_words :: u32

definition is_enabled_and_running ::
    "'hw register_interface \<Rightarrow> messaging_dma_controller \<Rightarrow> 'hw \<Rightarrow> bool \<times> 'hw" where
  "is_enabled_and_running ri c s =
     (let (v, s1) = ri_read ri (status_register c) s
      in (ARE_BITS_SET v DMA_STATUS_ENABLED_AND_RUNNING, s1))"

text \<open>Where the next transmission starts after one of \<open>n\<close> words: never at the last word of a page.\<close>

definition advance :: "u32 \<Rightarrow> messaging_dma_controller \<Rightarrow> messaging_dma_controller" where
  "advance n c =
     (let o1 = read_offset c + n;
          o2 = (if WORDS_PER_PAGE - o1 mod WORDS_PER_PAGE = 1 then o1 + 1 else o1)
      in c\<lparr>read_offset := o2 mod (ucast (num_buffers c) * WORDS_PER_PAGE)\<rparr>)"

definition get_next_transmission ::
    "(nat \<Rightarrow> u32) \<Rightarrow> bool \<Rightarrow> messaging_dma_controller
     \<Rightarrow> (int + messaging_dma_transmission_info) \<times> messaging_dma_controller" where
  "get_next_transmission mem running c =
     (if \<not> running then (Inl STATUS_ERR_INVALID_STATE, c)
      else
        let buf_id = read_offset c div WORDS_PER_PAGE;
            buf_read_offset = read_offset c mod WORDS_PER_PAGE
        in if buf_id \<ge> ucast (num_buffers c) then (Inl STATUS_ERR_OVERFLOW, c)
           else if buf_read_offset = WORDS_PER_PAGE - 1 then (Inl STATUS_ERR_INVALID_STATE, c)
           else
             let ptr = buffer_addresses c (unat buf_id) + unat buf_read_offset;
                 len = mem ptr
             in if len = 0 then (Inl STATUS_ERR_INVALID_STATE, c)
                else if buf_read_offset + len > WORDS_PER_PAGE then (Inl STATUS_ERR_OVERFLOW, c)
                else (Inr \<lparr>info_read_ptr = ptr + 1, info_num_words = len - 1\<rparr>, advance len c))"

definition ME6_MESSAGING_GET_COUNT :: "u32 \<Rightarrow> u32" where
  "ME6_MESSAGING_GET_COUNT x = drop_bit 1 x AND 0x1ffff"

abbreviation ME6_REG_IRQ_MESSAGING_PROCESSED :: u32 where "ME6_REG_IRQ_MESSAGING_PROCESSED \<equiv> 6"

text \<open>The transmissions of one interrupt; one that cannot be fetched is skipped.\<close>

fun messaging_loop ::
    "'hw register_interface \<Rightarrow> (nat \<Rightarrow> u32) \<Rightarrow> uiq_timestamp \<Rightarrow> nat \<Rightarrow> messaging_dma_controller
     \<Rightarrow> 'hw uiq_board \<Rightarrow> ts_state \<Rightarrow> (messaging_dma_controller \<times> 'hw uiq_board \<times> ts_state) option" where
  "messaging_loop ri mem now 0 c b s = Some (c, b, s)"
| "messaging_loop ri mem now (Suc n) c b s =
     (let (running, h) = is_enabled_and_running ri c (ub_hw b); b1 = b\<lparr>ub_hw := h\<rparr>
      in case get_next_transmission mem running c of
           (Inl err, c1) \<Rightarrow> messaging_loop ri mem now n c1 b1 s
         | (Inr info, c1) \<Rightarrow>
             (case process_uiq_data ri now (unat (info_num_words info))
                     (upd_transfer (\<lambda>t. t\<lparr>read_ptr := info_read_ptr info\<rparr>) b1) s of
                None \<Rightarrow> None
              | Some (b2, s1) \<Rightarrow> messaging_loop ri mem now n c1 b2 s1))"

definition me6_messaging_irq ::
    "'hw register_interface \<Rightarrow> (nat \<Rightarrow> u32) \<Rightarrow> uiq_timestamp \<Rightarrow> messaging_dma_controller
     \<Rightarrow> 'hw uiq_board \<Rightarrow> ts_state \<Rightarrow> (messaging_dma_controller \<times> 'hw uiq_board \<times> ts_state) option" where
  "me6_messaging_irq ri mem now c b s =
     (let (pending, h) = ri_read ri ME6_REG_IRQ_EVENT_COUNT (ub_hw b); b1 = b\<lparr>ub_hw := h\<rparr>;
          ack = upd_hw (ri_write ri ME6_REG_IRQ_MESSAGING_PROCESSED 1)
      in if pending AND 1 = 1 then Some (c, ack b1, s)
         else map_option (\<lambda>(c1, b2, s1). (c1, ack b2, s1))
                (messaging_loop ri mem now (unat (ME6_MESSAGING_GET_COUNT pending)) c b1 s))"

end
