(* ===== verification/Uiq_Device_Props.thy ===== *)
theory Uiq_Device_Props
  imports Uiq_Board
begin

text \<open>
  Properties of the event queues on a board: the batch loops of \<^verbatim>\<open>process_uiq_data\<close> implement a
  state machine that takes one word at a time, bursts written to the device are the words at the
  front of the queue, and the pages of the messaging DMA are read in the order they are written.
\<close>

section \<open>One word at a time\<close>

definition word_step ::
    "'hw register_interface \<Rightarrow> uiq_timestamp \<Rightarrow> 'hw uiq_board \<times> ts_state
     \<Rightarrow> ('hw uiq_board \<times> ts_state) option" where
  "word_step ri now bs =
     (let (b, s) = bs;
          skip = dec_remaining (snd (men_fetch_next_incoming_uiq_word ri ME6_REG_IRQ_EVENT_DATA b))
      in if remaining b = 0 then Some (take_header ri b, s)
         else case current_uiq (uiq_transfer b) of
           None \<Rightarrow> Some (skip, s)
         | Some i \<Rightarrow>
             (case uiq_of i b of
                None \<Rightarrow> None
              | Some u \<Rightarrow>
                  if UIQ_TYPE_IS_WRITE (uiq_type_of (base u))
                  then Some (if remaining skip = 0 then write_packet_done ri i u skip else skip, s)
                  else let (again, u1, b1, s1) = men_uiq_pop ri now u b s
                       in Some (put_uiq i u1 (dec_remaining b1), s1)))"

fun word_steps ::
    "'hw register_interface \<Rightarrow> uiq_timestamp \<Rightarrow> nat \<Rightarrow> 'hw uiq_board \<times> ts_state
     \<Rightarrow> ('hw uiq_board \<times> ts_state) option" where
  "word_steps ri now 0 bs = Some bs"
| "word_steps ri now (Suc n) bs = Option.bind (word_step ri now bs) (word_steps ri now n)"

lemma word_steps_add:
  "word_steps ri now (m + n) bs = Option.bind (word_steps ri now m bs) (word_steps ri now n)"
proof (induction m arbitrary: bs)
  case (Suc m)
  then show ?case by (cases "word_step ri now bs") simp_all
qed simp

text \<open>What a batch does besides: the interrupt counter of a queue and its completions.\<close>

definition plain_uiq :: "menable_uiq \<Rightarrow> menable_uiq" where
  "plain_uiq u = u\<lparr>base := (base u)\<lparr>irq_count := 0\<rparr>, cpl := 0\<rparr>"

definition plain :: "'hw uiq_board \<Rightarrow> 'hw uiq_board" where
  "plain b = b\<lparr>uiqs := map (map_option plain_uiq) (uiqs b)\<rparr>"

definition plain_res ::
    "('hw uiq_board \<times> ts_state) option \<Rightarrow> ('hw uiq_board \<times> ts_state) option" where
  "plain_res r = map_option (\<lambda>(b, s). (plain b, s)) r"

lemma plain_sel [simp]:
  "uiq_transfer (plain b) = uiq_transfer b" "ub_hw (plain b) = ub_hw b"
  "msg_dma_mem (plain b) = msg_dma_mem b" "num_active_uiqs (plain b) = num_active_uiqs b"
  by (simp_all add: plain_def)

lemma plain_upd:
  "plain (upd_transfer f b) = upd_transfer f (plain b)"
  "plain (b\<lparr>ub_hw := h\<rparr>) = (plain b)\<lparr>ub_hw := h\<rparr>"
  "plain (put_uiq i u b) = put_uiq i (plain_uiq u) (plain b)"
  by (simp_all add: plain_def upd_transfer_def put_uiq_def map_update)

lemma plain_uiq_of: "uiq_of i (plain b) = map_option plain_uiq (uiq_of i b)"
  by (simp add: uiq_of_def plain_def)

lemma plain_uiq_sel [simp]:
  "uiq_id (base (plain_uiq u)) = uiq_id (base u)"
  "uiq_type_of (base (plain_uiq u)) = uiq_type_of (base u)"
  "fill (base (plain_uiq u)) = fill (base u)"
  "capacity (base (plain_uiq u)) = capacity (base u)"
  "data_register_offset (base (plain_uiq u)) = data_register_offset (base u)"
  "cpltodo (plain_uiq u) = cpltodo u"
  by (simp_all add: plain_uiq_def)

lemma plain_find: "find_uiq t (plain b) = find_uiq t b"
proof -
  have "(case uiq_of i (plain b) of None \<Rightarrow> False | Some u \<Rightarrow> uiq_id (base u) = t)
      = (case uiq_of i b of None \<Rightarrow> False | Some u \<Rightarrow> uiq_id (base u) = t)" for i
    by (simp add: plain_uiq_of split: option.splits)
  then show ?thesis by (simp add: find_uiq_def)
qed

lemma plain_fetch:
  "men_fetch_next_incoming_uiq_word ri a (plain b)
     = (let (w, b1) = men_fetch_next_incoming_uiq_word ri a b in (w, plain b1))"
  by (simp add: men_fetch_next_incoming_uiq_word_def case_prod_beta Let_def plain_def split: option.splits)

lemma plain_header: "take_header ri (plain b) = plain (take_header ri b)"
  by (simp add: take_header_def plain_fetch case_prod_beta Let_def plain_upd plain_find)

section \<open>The interrupt counter does not matter\<close>

lemma no_irq_push_word: "push_word w (q\<lparr>irq_count := n\<rparr>) = (push_word w q)\<lparr>irq_count := n\<rparr>"
  by (simp add: push_word_def Let_def)

lemma no_irq_fold: "fold push_word ws (q\<lparr>irq_count := n\<rparr>) = (fold push_word ws q)\<lparr>irq_count := n\<rparr>"
  by (induction ws arbitrary: q) (simp_all add: no_irq_push_word)

lemma no_irq_push_back:
  "push_back (q\<lparr>irq_count := n\<rparr>) ws = (let (k, q1) = push_back q ws in (k, q1\<lparr>irq_count := n\<rparr>))"
  by (simp add: push_back_def Let_def no_irq_fold record_discarded_words_def)

lemma no_irq_decorated:
  "push_back_decorated_with_timestamp (q\<lparr>irq_count := n\<rparr>) w t
     = (let (k, q1) = push_back_decorated_with_timestamp q w t in (k, q1\<lparr>irq_count := n\<rparr>))"
  by (simp add: push_back_decorated_with_timestamp_def no_irq_push_back get_free_capacity_def Let_def
      push_back_decorated_with_timestamp_unchecked_def case_prod_beta)

lemma no_irq_word:
  "write_word_with_dataloss_flag_if_applicable now (q\<lparr>irq_count := n\<rparr>) w s
     = (let (q1, s1) = write_word_with_dataloss_flag_if_applicable now q w s in (q1\<lparr>irq_count := n\<rparr>, s1))"
  by (simp add: write_word_with_dataloss_flag_if_applicable_def Let_def no_irq_decorated no_irq_push_back
      case_prod_beta)

lemma no_irq_grabber:
  "write_from_grabber now (q\<lparr>irq_count := n\<rparr>) w s
     = (let (q1, s1) = write_from_grabber now q w s in (q1\<lparr>irq_count := n\<rparr>, s1))"
  by (simp add: write_from_grabber_raw_def write_from_grabber_legacy_def write_from_grabber_va_event_def
      no_irq_word no_irq_push_back record_discarded_words_def case_prod_beta Let_def
      split: uiq_protocol.splits)

lemma plain_pop:
  "men_uiq_pop ri now (plain_uiq u) (plain b) s
     = (let (again, u1, b1, s1) = men_uiq_pop ri now u b s in (again, plain_uiq u1, plain b1, s1))"
proof -
  have "base (plain_uiq u) = (base u)\<lparr>irq_count := 0\<rparr>" by (simp add: plain_uiq_def)
  then show ?thesis
    by (simp add: men_uiq_pop_def plain_fetch no_irq_grabber case_prod_beta Let_def del: write_from_grabber.simps)
      (simp add: plain_uiq_def)
qed

lemma no_irq_send: "send_burst ri (q\<lparr>irq_count := n\<rparr>) s = send_burst ri q s"
  by (simp add: send_burst_def uiq_write_to_device_raw_def uiq_write_to_device_legacy_def
      uiq_write_to_device_cxp_def burst_def uiq_word_def Let_def split: uiq_type.splits)

lemma plain_push:
  "(let (e, u1, h) = men_uiq_push ri (plain_uiq u) s in (plain_uiq u1, h))
     = (let (e, u1, h) = men_uiq_push ri u s in (plain_uiq u1, h))"
proof -
  have "base (plain_uiq u) = (base u)\<lparr>irq_count := 0\<rparr>" by (simp add: plain_uiq_def)
  then show ?thesis
    by (simp add: men_uiq_push_def no_irq_send Let_def complete_writer_def after_burst_def burst_def
        complete_def)
      (simp add: plain_uiq_def)
qed

lemma plain_uiq_idem [simp]:
  "plain_uiq (plain_uiq u) = plain_uiq u"
  "plain_uiq (stop_queue (plain_uiq u)) = plain_uiq (stop_queue u)"
  by (simp_all add: plain_uiq_def stop_queue_def)

lemma plain_idem [simp]: "plain (plain b) = plain b"
  by (simp add: plain_def option.map_comp o_def)

lemma plain_done:
  "plain (write_packet_done ri i (plain_uiq u) (plain b)) = plain (write_packet_done ri i u b)"
proof (cases "fill (base u) = 0")
  case True
  then show ?thesis by (simp add: write_packet_done_def plain_upd)
next
  case False
  obtain e u1 h where p: "men_uiq_push ri u (ub_hw b) = (e, u1, h)" by (cases "men_uiq_push ri u (ub_hw b)")
  obtain e' u2 h' where p': "men_uiq_push ri (plain_uiq u) (ub_hw b) = (e', u2, h')"
    by (cases "men_uiq_push ri (plain_uiq u) (ub_hw b)")
  have "plain_uiq u2 = plain_uiq u1" "h' = h" using plain_push [of ri u "ub_hw b"] by (simp_all add: p p')
  then show ?thesis using False by (simp add: write_packet_done_def p p' plain_upd)
qed

lemma plain_done_transfer:
  "plain (write_packet_done ri i (plain_uiq u) (upd_transfer f (plain b)))
     = plain (write_packet_done ri i u (upd_transfer f b))"
  using plain_done [of ri i u "upd_transfer f b"] by (simp only: plain_upd)

lemma transfer_fetch [simp]:
  "remaining (snd (men_fetch_next_incoming_uiq_word ri a b)) = remaining b"
  "current_uiq (uiq_transfer (snd (men_fetch_next_incoming_uiq_word ri a b))) = current_uiq (uiq_transfer b)"
  "uiqs (snd (men_fetch_next_incoming_uiq_word ri a b)) = uiqs b"
  "uiq_of i (snd (men_fetch_next_incoming_uiq_word ri a b)) = uiq_of i b"
  by (simp_all add: uiq_of_def men_fetch_next_incoming_uiq_word_def case_prod_beta split: option.splits)

lemma transfer_dec [simp]:
  "remaining (dec_remaining b) = remaining b - 1"
  "current_uiq (uiq_transfer (dec_remaining b)) = current_uiq (uiq_transfer b)"
  "uiq_of i (dec_remaining b) = uiq_of i b" "uiqs (dec_remaining b) = uiqs b"
  by (simp_all add: upd_transfer_def uiq_of_def)

lemma plain_step: "plain_res (word_step ri now (plain b, s)) = plain_res (word_step ri now (b, s))"
proof (cases "remaining b = 0")
  case True
  then show ?thesis by (simp add: word_step_def plain_res_def plain_header)
next
  case rem: False
  show ?thesis
  proof (cases "current_uiq (uiq_transfer b)")
    case None
    with rem show ?thesis
      by (simp add: word_step_def plain_res_def plain_fetch case_prod_beta plain_upd)
  next
    case (Some i)
    note cur = this
    show ?thesis
    proof (cases "uiq_of i b")
      case None
      with rem cur show ?thesis by (simp add: word_step_def plain_res_def plain_uiq_of)
    next
      case (Some u)
      with rem cur show ?thesis
        by (simp add: word_step_def plain_res_def plain_uiq_of plain_fetch plain_pop case_prod_beta
            plain_done_transfer plain_upd Let_def)
    qed
  qed
qed

lemma plain_steps:
  assumes "plain b = plain b'"
  shows "plain_res (word_steps ri now n (b, s)) = plain_res (word_steps ri now n (b', s))"
  using assms
proof (induction n arbitrary: b b' s)
  case 0
  then show ?case by (simp add: plain_res_def)
next
  case (Suc n)
  have "plain_res (word_step ri now (b, s)) = plain_res (word_step ri now (b', s))"
    using plain_step [of ri now b s] plain_step [of ri now b' s] by (simp only: Suc.prems)
  then consider "word_step ri now (b, s) = None" "word_step ri now (b', s) = None"
    | c c' s1 where "word_step ri now (b, s) = Some (c, s1)" "word_step ri now (b', s) = Some (c', s1)"
        "plain c = plain c'"
    by (auto simp: plain_res_def map_option_case split: option.splits prod.splits)
  then show ?case
  proof cases
    case 1
    then show ?thesis by simp
  next
    case 2
    then show ?thesis using Suc.IH [OF 2(3)] by simp
  qed
qed

section \<open>A batch is as many single steps\<close>

lemma discard_unknown:
  assumes "current_uiq (uiq_transfer b) = None" "discard_words ri n b = (n', b')"
  shows "n' \<le> n \<and> word_steps ri now (n - n') (b, s) = Some (b', s)"
  using assms
proof (induction n arbitrary: b)
  case (Suc n)
  let ?b = "dec_remaining (snd (men_fetch_next_incoming_uiq_word ri ME6_REG_IRQ_EVENT_DATA b))"
  show ?case
  proof (cases "remaining b = 0")
    case False
    with Suc.prems(2) have d: "discard_words ri n ?b = (n', b')" by simp
    have c: "current_uiq (uiq_transfer ?b) = None" using Suc.prems(1) by simp
    have "word_step ri now (b, s) = Some (?b, s)"
      using False Suc.prems(1) by (simp add: word_step_def)
    with Suc.IH [OF c d] show ?thesis by (simp add: Suc_diff_le)
  qed (use Suc.prems in simp)
qed simp

lemma discard_write_queue:
  assumes "current_uiq (uiq_transfer b) = Some i" "uiq_of i b = Some u"
    "UIQ_TYPE_IS_WRITE (uiq_type_of (base u))" "discard_words ri n b = (n', b')"
    "remaining b \<noteq> 0" "n \<noteq> 0"
  shows "n' \<le> n \<and> word_steps ri now (n - n') (b, s)
     = Some (if remaining b' = 0 then write_packet_done ri i u b' else b', s)"
  using assms
proof (induction n arbitrary: b)
  case (Suc n)
  let ?b = "dec_remaining (snd (men_fetch_next_incoming_uiq_word ri ME6_REG_IRQ_EVENT_DATA b))"
  have d: "discard_words ri n ?b = (n', b')" using Suc.prems(4,5) by simp
  have c: "current_uiq (uiq_transfer ?b) = Some i" "uiq_of i ?b = Some u"
    using Suc.prems(1,2) by simp_all
  have st: "word_step ri now (b, s)
      = Some (if remaining ?b = 0 then write_packet_done ri i u ?b else ?b, s)"
    using Suc.prems by (simp add: word_step_def Let_def)
  have le: "n' \<le> n" using discard_words_less [of ri n ?b] by (simp add: d)
  show ?case
  proof (cases "n = 0 \<or> remaining ?b = 0")
    case True
    with d have "n' = n" "b' = ?b" by (cases n; simp)+
    with st show ?thesis by simp
  next
    case False
    with Suc.IH [OF c Suc.prems(3) d] st le show ?thesis
      by (simp add: Suc_diff_le del: transfer_dec transfer_fetch)
  qed
qed simp

lemma type_push_back [simp]: "uiq_type_of (snd (push_back q ws)) = uiq_type_of q"
proof -
  have "uiq_type_of (fold push_word vs p) = uiq_type_of p" for vs p
    by (induction vs arbitrary: p) (simp_all add: push_word_def Let_def)
  then show ?thesis by (simp add: push_back_def Let_def record_discarded_words_def)
qed

lemma type_word:
  "uiq_type_of (fst (write_word_with_dataloss_flag_if_applicable now q w s)) = uiq_type_of q"
  by (simp add: write_word_with_dataloss_flag_if_applicable_def Let_def
      push_back_decorated_with_timestamp_def push_back_decorated_with_timestamp_unchecked_def)

lemma type_grabber [simp]: "uiq_type_of (fst (write_from_grabber now q w s)) = uiq_type_of q"
  by (simp add: write_from_grabber_raw_def write_from_grabber_legacy_def
      write_from_grabber_va_event_def type_word record_discarded_words_def case_prod_beta Let_def
      split: uiq_protocol.splits)

lemma type_pop: "men_uiq_pop ri now u b s = (again, u1, b1, s1) \<Longrightarrow> uiq_type_of (base u1) = uiq_type_of (base u)"
  using type_grabber [of now "base u" "fst (men_fetch_next_incoming_uiq_word ri (data_register_offset (base u)) b)" s]
  by (auto simp: men_uiq_pop_def case_prod_beta Let_def simp del: type_grabber write_from_grabber.simps)

lemma fetch_put:
  "men_fetch_next_incoming_uiq_word ri a (put_uiq i v b)
     = (let (w, b1) = men_fetch_next_incoming_uiq_word ri a b in (w, put_uiq i v b1))"
  by (simp add: men_fetch_next_incoming_uiq_word_def case_prod_beta put_uiq_def split: option.splits)

lemma pop_put:
  "men_uiq_pop ri now u (put_uiq i v b) s
     = (let (again, u1, b1, s1) = men_uiq_pop ri now u b s in (again, u1, put_uiq i v b1, s1))"
  by (simp add: men_uiq_pop_def fetch_put case_prod_beta Let_def del: write_from_grabber.simps)

lemma put_uiq_simps [simp]:
  "put_uiq i u (put_uiq i v b) = put_uiq i u b"
  "upd_transfer f (put_uiq i u b) = put_uiq i u (upd_transfer f b)"
  "uiq_transfer (put_uiq i u b) = uiq_transfer b"
  "uiq_of i (put_uiq i u b) = (if i < length (uiqs b) then Some u else None)"
  "length (uiqs (put_uiq i u b)) = length (uiqs b)"
  by (simp_all add: put_uiq_def upd_transfer_def uiq_of_def)

lemma put_uiq_same: "uiq_of i b = Some u \<Longrightarrow> put_uiq i u b = b"
proof -
  assume u: "uiq_of i b = Some u"
  then have "(uiqs b)[i := Some u] = uiqs b"
    by (metis uiq_of_def list_update_id option.distinct(1))
  then show ?thesis by (simp add: put_uiq_def)
qed

lemma pop_frame:
  assumes "men_uiq_pop ri now u b s = (again, u1, b1, s1)"
  shows "uiqs b1 = uiqs b" "remaining b1 = remaining b"
    "current_uiq (uiq_transfer b1) = current_uiq (uiq_transfer b)"
  using assms by (auto simp: men_uiq_pop_def case_prod_beta Let_def simp del: write_from_grabber.simps)

lemma pop_batch:
  assumes "current_uiq (uiq_transfer b) = Some i" "i < length (uiqs b)"
    "\<not> UIQ_TYPE_IS_WRITE (uiq_type_of (base u))" "pop_words ri now n u b s = (n', u', b', s')"
  shows "n' \<le> n \<and> word_steps ri now (n - n') (put_uiq i u b, s) = Some (put_uiq i u' b', s')"
  using assms
proof (induction n arbitrary: u b s)
  case (Suc n)
  show ?case
  proof (cases "remaining b = 0")
    case False
    obtain again u1 b1 s1 where p: "men_uiq_pop ri now u b s = (again, u1, b1, s1)"
      by (cases "men_uiq_pop ri now u b s") auto
    note f = pop_frame [OF p]
    have c: "current_uiq (uiq_transfer (dec_remaining b1)) = Some i" "i < length (uiqs (dec_remaining b1))"
      using Suc.prems(1,2) f by simp_all
    have t: "\<not> UIQ_TYPE_IS_WRITE (uiq_type_of (base u1))"
      using Suc.prems(3) type_pop [OF p] by simp
    have d: "pop_words ri now n u1 (dec_remaining b1) s1 = (n', u', b', s')"
      using Suc.prems(4) False p by simp
    have st: "word_step ri now (put_uiq i u b, s) = Some (put_uiq i u1 (dec_remaining b1), s1)"
      using Suc.prems False by (simp add: word_step_def Let_def pop_put p)
    show ?thesis using Suc.IH [OF c t d] st by (simp add: Suc_diff_le)
  qed (use Suc.prems in simp)
qed simp

lemma batch_result:
  "n' \<le> n \<Longrightarrow> word_steps ri now (n - n') bs = Some cs \<Longrightarrow> word_steps ri now n bs = word_steps ri now n' cs"
  using word_steps_add [of ri now "n - n'" n' bs] by simp

lemma process_word_steps:
  "plain_res (process_uiq_data ri now n b s) = plain_res (word_steps ri now n (b, s))"
proof (induction n arbitrary: b s rule: less_induct)
  case (less n)
  show ?case
  proof (cases "n = 0")
    case True
    then show ?thesis by (simp add: process_uiq_data.simps)
  next
    case n: False
    then obtain k where k: "n = Suc k" by (cases n) auto
    show ?thesis
    proof (cases "remaining b = 0")
      case True
      then have "word_step ri now (b, s) = Some (take_header ri b, s)" by (simp add: word_step_def)
      then show ?thesis
        using True n less.IH [of k "take_header ri b" s]
        by (subst process_uiq_data.simps) (simp add: k)
    next
      case rem: False
      show ?thesis
      proof (cases "current_uiq (uiq_transfer b)")
        case None
        obtain n' b' where d: "discard_words ri n b = (n', b')" by (cases "discard_words ri n b")
        note w = discard_unknown [OF None d, of now s]
        have "n' < n" using discard_words_progress [OF d [symmetric] n rem] .
        from less.IH [OF this, of b' s] show ?thesis
          using rem n None d batch_result [of n' n ri now "(b, s)"] w
          by (subst process_uiq_data.simps) simp
      next
        case cur: (Some i)
        show ?thesis
        proof (cases "uiq_of i b")
          case None
          with rem cur have "word_step ri now (b, s) = None" by (simp add: word_step_def Let_def)
          then show ?thesis
            using rem n cur None by (subst process_uiq_data.simps) (simp add: k)
        next
          case u: (Some u)
          show ?thesis
          proof (cases "UIQ_TYPE_IS_WRITE (uiq_type_of (base u))")
            case True
            obtain n' b' where d: "discard_words ri n b = (n', b')" by (cases "discard_words ri n b")
            note w = discard_write_queue [OF cur u True d rem n, of now s]
            have "n' < n" using discard_words_progress [OF d [symmetric] n rem] .
            from less.IH [OF this] show ?thesis
              using rem n cur u True d batch_result [of n' n ri now "(b, s)"] w
              by (subst process_uiq_data.simps) simp
          next
            case False
            obtain n' u' b' s' where d: "pop_words ri now n u b s = (n', u', b', s')"
              by (cases "pop_words ri now n u b s") auto
            have i: "i < length (uiqs b)" using u by (simp add: uiq_of_def split: if_splits)
            note w = pop_batch [OF cur i False d]
            have w': "word_steps ri now (n - n') (b, s) = Some (put_uiq i u' b', s')"
              using w by (simp add: put_uiq_same [OF u])
            have lt: "n' < n" using pop_words_progress [OF d [symmetric] n rem] .
            have e: "plain_uiq (count_irq (complete_reader u')) = plain_uiq u'"
              by (simp add: plain_uiq_def count_irq_def complete_reader_def complete_def)
            have "process_uiq_data ri now n b s
                = process_uiq_data ri now n' (put_uiq i (count_irq (complete_reader u')) b') s'"
              using rem n cur u False d by (subst process_uiq_data.simps) simp
            moreover have "plain (put_uiq i (count_irq (complete_reader u')) b') = plain (put_uiq i u' b')"
              by (simp add: plain_upd e)
            ultimately show ?thesis
              using less.IH [OF lt] plain_steps batch_result [of n' n ri now "(b, s)"] w w' by metis
          qed
        qed
      qed
    qed
  qed
qed

section \<open>Bursts\<close>

lemma uiq_word_contents:
  assumes "uiq_wf q" "i < unat (fill q)"
  shows "uiq_word q (of_nat i) = contents q ! i"
proof -
  have f: "unat (fill q) \<le> unat (capacity q)" "unat (capacity q) < 1073741824"
    "unat (read_index q) < unat (capacity q)"
    using assms by (auto simp: uiq_wf_nat)
  then have i: "unat (of_nat i :: u32) = i" using assms(2) by (intro unat_of_nat_u32) simp
  have "unat (read_index q + of_nat i) = unat (read_index q) + i"
    using f assms(2) i by (subst unat_add_u32) simp_all
  then show ?thesis using assms(2) by (simp add: uiq_word_def unat_mod_u32 contents_def)
qed

lemma burst_nat: "unat (burst q) = min (unat (fpga_fifo_depth q)) (unat (fill q))"
  by (simp add: burst_def unat_min_u32)

text \<open>The first \<open>k\<close> words of the queue, written one by one.\<close>

lemma fold_words:
  assumes "uiq_wf q" "k \<le> unat (fill q)"
  shows "fold (\<lambda>i. ri_write ri a (f (uiq_word q (of_nat i)))) [0..<k] s
     = write_words ri a (map f (take k (contents q))) s"
  using assms(2)
proof (induction k)
  case (Suc k)
  have "take (Suc k) (contents q) = take k (contents q) @ [contents q ! k]"
    using Suc.prems by (intro take_Suc_conv_app_nth) simp
  with Suc show ?case by (simp add: uiq_word_contents [OF assms(1)])
qed simp

text \<open>Words with the payload bits only; in the legacy protocol the last one ends the transmission.\<close>

definition legacy_frame :: "u32 list \<Rightarrow> u32 list" where
  "legacy_frame ws = (if ws = [] then []
     else map (\<lambda>w. w AND 0xffff) (butlast ws) @ [(last ws AND 0xffff) OR UIQ_CONTROL_EOT])"

lemma send_raw:
  assumes "uiq_wf q" "n \<le> fill q"
  shows "uiq_write_to_device_raw ri q n s
     = write_words ri (data_register_offset q) (map (\<lambda>w. w AND 0xffff) (take (unat n) (contents q))) s"
  using assms fold_words [OF assms(1), of "unat n" ri _ "\<lambda>w. w AND 0xffff"]
  by (simp add: uiq_write_to_device_raw_def word_le_nat_alt)

lemma send_legacy:
  assumes "uiq_wf q" "n \<le> fill q"
  shows "uiq_write_to_device_legacy ri q n s
     = write_words ri (data_register_offset q) (legacy_frame (take (unat n) (contents q))) s"
proof (cases "n = 0")
  case True
  then show ?thesis by (simp add: uiq_write_to_device_legacy_def legacy_frame_def)
next
  case False
  then obtain k where k: "unat n = Suc k" by (metis unat_eq_zero not0_implies_Suc)
  have f: "Suc k \<le> unat (fill q)" using assms(2) k by (simp add: word_le_nat_alt)
  have k1: "unat (n - 1) = k" using k False by (simp add: unat_minus_one)
  have "unat (of_nat k :: u32) = k" using unat_u32_bound [of n] k by (intro unat_of_nat_u32) simp
  then have n1: "n - 1 = of_nat k" using k1 by (simp add: word_unat_eq_iff)
  have tk: "take (Suc k) (contents q) = take k (contents q) @ [contents q ! k]"
    using f by (intro take_Suc_conv_app_nth) simp
  have "uiq_write_to_device_legacy ri q n s
      = ri_write ri (data_register_offset q) ((contents q ! k AND 0xffff) OR UIQ_CONTROL_EOT)
          (write_words ri (data_register_offset q) (map (\<lambda>w. w AND 0xffff) (take k (contents q))) s)"
    using False f fold_words [OF assms(1), of k ri _ "\<lambda>w. w AND 0xffff"] uiq_word_contents [OF assms(1), of k]
    unfolding uiq_write_to_device_legacy_def k1 by (simp add: n1)
  also have "\<dots> = write_words ri (data_register_offset q) (legacy_frame (take (unat n) (contents q))) s"
    unfolding k tk by (simp add: legacy_frame_def)
  finally show ?thesis .
qed

lemma after_burst_spec:
  assumes "uiq_wf q" "capacity q \<noteq> 0"
  shows "uiq_wf (after_burst q)" "contents (after_burst q) = drop (unat (burst q)) (contents q)"
    "unat (fill (after_burst q)) = unat (fill q) - unat (burst q)"
proof -
  let ?r = "unat (read_index q)" and ?c = "unat (capacity q)" and ?k = "unat (burst q)"
  have w: "?r < ?c" "?c < 1073741824" "unat (fill q) \<le> ?c" "length (uiq_data q) = ?c"
    using assms by (auto simp: uiq_wf_nat unat_eq_zero)
  have k: "?k \<le> unat (fill q)" by (simp add: burst_nat)
  have r: "unat (read_index (after_burst q)) = (?r + ?k) mod ?c"
    using w k by (simp add: after_burst_def unat_mod_u32 unat_add_u32)
  show f: "unat (fill (after_burst q)) = unat (fill q) - ?k"
    using k by (simp add: after_burst_def unat_sub_u32)
  have s: "capacity (after_burst q) = capacity q" "uiq_data (after_burst q) = uiq_data q"
    by (simp_all add: after_burst_def)
  show "uiq_wf (after_burst q)" using w f r by (auto simp: uiq_wf_nat s)
  show "contents (after_burst q) = drop ?k (contents q)"
  proof (rule nth_equalityI)
    fix i assume "i < length (contents (after_burst q))"
    then have i: "i < unat (fill q) - ?k" "?k + i < unat (fill q)" using f k by simp_all
    then show "contents (after_burst q) ! i = drop ?k (contents q) ! i"
      using f by (simp add: contents_def r s mod_simps add.assoc)
  qed (simp add: f)
qed

lemma push_fields:
  assumes "men_uiq_push ri u s = (e, u', h)"
  shows "h = send_burst ri (base u) s" "e \<longleftrightarrow> fill (base u') = 0"
    "base u' = after_burst (base u)
       \<or> fill (after_burst (base u)) = 0 \<and> base u' = (after_burst (base u))\<lparr>read_index := 0\<rparr>"
    "fill (base u') = fill (after_burst (base u))"
  using assms by (auto simp: men_uiq_push_def Let_def complete_writer_def complete_def split: if_splits)

lemma push_queue:
  assumes "uiq_wf (base u)" "capacity (base u) \<noteq> 0" "men_uiq_push ri u s = (e, u', h)"
  shows "uiq_wf (base u') \<and> contents (base u') = drop (unat (burst (base u))) (contents (base u))
     \<and> (e \<longleftrightarrow> contents (base u') = [])"
proof -
  note a = after_burst_spec [OF assms(1,2)] and p = push_fields [OF assms(3)]
  let ?q = "after_burst (base u)"
  have e: "e \<longleftrightarrow> unat (fill ?q) = 0" using p(2,4) by (simp add: unat_eq_zero)
  show ?thesis
  proof (cases "base u' = ?q")
    case True
    then show ?thesis using a e by (auto simp: burst_nat)
  next
    case False
    with p(3) have z: "fill ?q = 0" "base u' = ?q\<lparr>read_index := 0\<rparr>" by auto
    have "contents (base u') = []" "drop (unat (burst (base u))) (contents (base u)) = []"
      using z a(2,3) by (simp_all add: contents_def)
    moreover have "uiq_wf (base u')" using a(1) z by (auto simp: uiq_wf_nat)
    ultimately show ?thesis using e z by simp
  qed
qed

text \<open>The registers a CXP packet is written to: K-words are announced in the second one.\<close>

definition cxp_frame :: "u32 \<Rightarrow> u32 \<Rightarrow> u32 list \<Rightarrow> (u32 \<times> u32) list" where
  "cxp_frame reg header payload =
     [(reg + 1, 1), (reg, UIQ_CXP_SOP_K_WORD), (reg + 1, 0),
      (reg, if header AND UIQ_CXP_HEADER_TAGGED_PACKET_FLAG \<noteq> 0
            then UIQ_CXP_TAGGED_COMMAND_PACKET else UIQ_CXP_COMMAND_PACKET)]
     @ map (Pair reg) payload
     @ [(reg, crc32 (concat (map word_bytes payload)) 0xffffffff), (reg + 1, 1),
        (reg, UIQ_CXP_EOP_K_WORD)]"

lemma write_regs_one: "write_regs ri (map (Pair a) ws) s = write_words ri a ws s"
  by (induction ws arbitrary: s) simp_all

lemma crc32_append: "crc32 (xs @ ys) c = crc32 ys (crc32 xs c)"
  by (simp add: crc32_def)

lemma cxp_payload:
  assumes "uiq_wf q" "k < unat (fill q)"
  shows "fold (\<lambda>i (s, c). let w = uiq_word q (of_nat i + 1)
             in (ri_write ri a w s, crc32 (word_bytes w) c)) [0..<k] (s, c)
     = (write_words ri a (take k (drop 1 (contents q))) s,
        crc32 (concat (map word_bytes (take k (drop 1 (contents q))))) c)"
  using assms(2)
proof (induction k)
  case 0
  then show ?case by (simp add: crc32_def)
next
  case (Suc k)
  have "take (Suc k) (drop 1 (contents q)) = take k (drop 1 (contents q)) @ [contents q ! Suc k]"
    using Suc.prems by (subst take_Suc_conv_app_nth) simp_all
  moreover have "uiq_word q (of_nat k + 1) = contents q ! Suc k"
    using uiq_word_contents [OF assms(1), of "Suc k"] Suc.prems by (simp add: add.commute)
  ultimately show ?case using Suc by (simp add: crc32_append Let_def)
qed

lemma header_contents:
  assumes "uiq_wf q" "0 < unat (fill q)"
  shows "uiq_data q ! unat (read_index q) = contents q ! 0"
  using assms by (simp add: contents_def uiq_wf_nat) auto

lemma send_cxp:
  assumes "uiq_wf q" "n \<le> fill q" "UIQ_CXP_HEADER_PACKET_LENGTH (contents q ! 0) < n"
  shows "uiq_write_to_device_cxp ri q n s = write_regs ri
     (cxp_frame (data_register_offset q) (contents q ! 0)
        (take (unat (UIQ_CXP_HEADER_PACKET_LENGTH (contents q ! 0))) (drop 1 (contents q)))) s"
proof -
  have l: "unat (UIQ_CXP_HEADER_PACKET_LENGTH (contents q ! 0)) < unat (fill q)"
    using assms(2,3) by (simp add: word_le_nat_alt word_less_nat_alt)
  then have f: "0 < unat (fill q)" by simp
  note pl = cxp_payload [OF assms(1) l, unfolded Let_def]
  show ?thesis
    using assms(3)
    by (simp add: uiq_write_to_device_cxp_def header_contents [OF assms(1) f] pl cxp_frame_def
        write_regs_one Let_def)
qed

section \<open>Properties\<close>

text \<open>
  C8: A burst of a raw or legacy write queue sends the words at the front of the queue in order,
  at most as many as the FIFO of the board holds, cut to 16 bits, the last word of a legacy burst
  marked as end of transmission; exactly these words leave the queue, which stays well-formed, and
  the result says whether it is empty.
\<close>

theorem push_sends_front_of_queue:
  assumes wf: "uiq_wf (base u)" "capacity (base u) \<noteq> 0"
    and t: "uiq_type_of (base u) = UIQ_TYPE_WRITE_RAW \<or> uiq_type_of (base u) = UIQ_TYPE_WRITE_LEGACY"
  shows "let q = base u; k = min (unat (fpga_fifo_depth q)) (unat (fill q)); ws = take k (contents q);
             (e, u', h) = men_uiq_push ri u s
         in h = write_words ri (data_register_offset q)
                  (if uiq_type_of q = UIQ_TYPE_WRITE_RAW then map (\<lambda>w. w AND 0xffff) ws
                   else legacy_frame ws) s
            \<and> uiq_wf (base u') \<and> contents q = ws @ contents (base u') \<and> (e \<longleftrightarrow> contents (base u') = [])"
proof -
  obtain e u' h where p: "men_uiq_push ri u s = (e, u', h)" by (cases "men_uiq_push ri u s")
  have le: "burst (base u) \<le> fill (base u)" by (simp add: burst_def)
  have h: "h = send_burst ri (base u) s" by (rule push_fields(1) [OF p])
  show ?thesis
    using t push_queue [OF wf p] send_raw [OF wf(1) le, of ri s] send_legacy [OF wf(1) le, of ri s]
    unfolding h p Let_def prod.case burst_nat [symmetric]
    by (auto simp: send_burst_def)
qed

definition demo_write_uiq :: "uiq_type \<Rightarrow> u32 list \<Rightarrow> menable_uiq" where
  "demo_write_uiq t ws = \<lparr>base = (uiq_base_init 16 (ws @ replicate (8 - length ws) 0) 8 7 t UIQ_PROTOCOL_RAW 6 0)
       \<lparr>fill := of_nat (length ws)\<rparr>,
     cpltodo = 0, irqack_offs = 0, ackbit = 0, cpltimeout = 0, cpl = 0\<rparr>"

theorem push_sends_front_of_queue_witness:
  "snd (snd (snd (men_uiq_push fifo_device (demo_write_uiq UIQ_TYPE_WRITE_LEGACY [0x10001, 2, 3]) ([], []))))
     = [(16, 1), (16, 2), (16, 0x10003)]"
proof -
  let ?u = "demo_write_uiq UIQ_TYPE_WRITE_LEGACY [0x10001, 2, 3]"
  have wf: "uiq_wf (base ?u)" "capacity (base ?u) \<noteq> 0"
    and t: "uiq_type_of (base ?u) = UIQ_TYPE_WRITE_RAW \<or> uiq_type_of (base ?u) = UIQ_TYPE_WRITE_LEGACY"
    by (simp_all add: demo_write_uiq_def uiq_base_init_def uiq_wf_def)
  have c: "contents (base ?u) = [0x10001, 2, 3]" "fpga_fifo_depth (base ?u) = 6" "fill (base ?u) = 3"
    "data_register_offset (base ?u) = 16" "uiq_type_of (base ?u) = UIQ_TYPE_WRITE_LEGACY"
    by (simp_all add: demo_write_uiq_def uiq_base_init_def contents_def upt_rec UIQ_TYPE_IS_WRITE_def)
  show ?thesis
    using push_sends_front_of_queue [OF wf t, of fifo_device "([], [])"]
    by (simp add: c Let_def case_prod_beta legacy_frame_def fifo_device_def)
qed

text \<open>
  A burst of a CXP write queue that covers its first packet sends this packet alone, framed by
  the start and end K-words, its type and its checksum over the payload words; but the whole
  burst leaves the queue. The words behind the first packet that are part of the burst are
  neither sent nor kept: the number of words is passed by value to the function that cuts it
  down to one packet.
\<close>

theorem cxp_push_sends_one_packet_drops_burst:
  assumes wf: "uiq_wf (base u)" "capacity (base u) \<noteq> 0" and t: "uiq_type_of (base u) = UIQ_TYPE_WRITE_CXP"
    and c: "contents (base u) = header # payload @ rest"
    and l: "length payload = unat (UIQ_CXP_HEADER_PACKET_LENGTH header)"
    and b: "length payload < unat (burst (base u))"
  shows "let (e, u', h) = men_uiq_push ri u s
         in h = write_regs ri (cxp_frame (data_register_offset (base u)) header payload) s
            \<and> contents (base u') = drop (unat (burst (base u)) - Suc (length payload)) rest"
proof -
  obtain e u' h where p: "men_uiq_push ri u s = (e, u', h)" by (cases "men_uiq_push ri u s")
  have le: "burst (base u) \<le> fill (base u)" by (simp add: burst_def)
  have lt: "UIQ_CXP_HEADER_PACKET_LENGTH (contents (base u) ! 0) < burst (base u)"
    using b l c by (simp add: word_less_nat_alt)
  have h: "h = send_burst ri (base u) s" by (rule push_fields(1) [OF p])
  obtain k where k: "unat (burst (base u)) = Suc k" using b by (cases "unat (burst (base u))") auto
  show ?thesis
    using push_queue [OF wf p] send_cxp [OF wf(1) le lt, of ri s] b l k
    unfolding h p Let_def prod.case by (simp add: t c send_burst_def)
qed

theorem cxp_push_sends_one_packet_drops_burst_witness:
  "contents (base (fst (snd (men_uiq_push fifo_device
     (demo_write_uiq UIQ_TYPE_WRITE_CXP [1, 0xaaaa, 1, 0xbbbb]) ([], []))))) = []"
proof -
  let ?u = "demo_write_uiq UIQ_TYPE_WRITE_CXP [1, 0xaaaa, 1, 0xbbbb]"
  have wf: "uiq_wf (base ?u)" "capacity (base ?u) \<noteq> 0" and t: "uiq_type_of (base ?u) = UIQ_TYPE_WRITE_CXP"
    by (simp_all add: demo_write_uiq_def uiq_base_init_def uiq_wf_def)
  have c: "contents (base ?u) = 1 # [0xaaaa] @ [1, 0xbbbb]"
    by (simp add: demo_write_uiq_def uiq_base_init_def contents_def upt_rec)
  have l: "length [0xaaaa :: u32] = unat (UIQ_CXP_HEADER_PACKET_LENGTH 1)"
    by (simp add: UIQ_CXP_HEADER_PACKET_LENGTH_def)
  have k: "unat (burst (base ?u)) = 4"
    by (simp add: burst_nat demo_write_uiq_def uiq_base_init_def UIQ_TYPE_IS_WRITE_def)
  then have b: "length [0xaaaa :: u32] < unat (burst (base ?u))" by simp
  show ?thesis
    using cxp_push_sends_one_packet_drops_burst [OF wf t c l b, of fifo_device "([], [])"] k
    by (simp add: case_prod_beta)
qed
end
