(* ===== verification/Uiq_Board_Props.thy ===== *)
theory Uiq_Board_Props
  imports Uiq_Device_Props
begin

text \<open>
  Properties of the table of queues, of the creation of a queue, of the legacy read interrupt, and of
  the pages of the messaging DMA.
\<close>

section \<open>The table of queues\<close>

definition event_board :: "unit uiq_board" where
  "event_board = \<lparr>ub_hw = (), msg_dma_mem = None,
     uiq_transfer = \<lparr>read_ptr = 0, current_uiq = None, current_header = 0, remaining_packet_words = 0\<rparr>,
     uiqs = [Some (demo_write_uiq UIQ_TYPE_WRITE_RAW [])], uiqcnt = [1, 0], num_active_uiqs = 1\<rparr>"

definition alloc_events :: "u32 \<Rightarrow> unit uiq_board \<Rightarrow> int \<times> unit uiq_board" where
  "alloc_events n b = me6_alloc_va_event_uiqs
     (\<lambda>_. \<lparr>ui_alloc = True, ui_device_add = 0, ui_bin_file = 0, ui_link = 0\<rparr>) True
     PN_MICROENABLE6_IMAFLEX_CXP12_QUAD 1 n b"

text \<open>
  A request for VA event queues that fit into the queues already allocated succeeds and leaves
  the smaller of the number of active queues and the number asked for active, all other queues as they are. So
  a request for more events after one for fewer is answered with success but activates nothing:
  the queues exist, yet words for them are discarded as unknown.
\<close>

theorem event_queues_do_not_grow_back:
  assumes "first + n \<le> ME6_MAX_UIQS" "first + n \<le> ucast (uiqcnt b ! 0)"
  shows "let (r, b') = me6_alloc_va_event_uiqs env ok board_type first n b
         in r = STATUS_OK \<and> num_active_uiqs b' = min (num_active_uiqs b) (first + n)
            \<and> uiqcnt b' = uiqcnt b \<and> length (uiqs b') = length (uiqs b)"
proof -
  have "length (fold (\<lambda>i us. us[i := f (us ! i)]) is us) = length us"
    for f :: "menable_uiq option \<Rightarrow> menable_uiq option" and "is" us
    by (induction "is" arbitrary: us) simp_all
  moreover have "\<not> ucast (uiqcnt b ! 0) < first + n" "\<not> ME6_MAX_UIQS < first + n"
    using assms by (simp_all only: not_less)
  ultimately show ?thesis
    by (auto simp: me6_alloc_va_event_uiqs_def Let_def min_def)
qed

theorem event_queues_do_not_grow_back_witness:
  "let b1 = snd (alloc_events 4 event_board); b2 = snd (alloc_events 2 b1)
   in num_active_uiqs b1 = 5 \<and> num_active_uiqs b2 = 3
      \<and> fst (alloc_events 4 b2) = STATUS_OK \<and> num_active_uiqs (snd (alloc_events 4 b2)) = 3"
proof -
  define b1 where "b1 = snd (alloc_events 4 event_board)"
  define b2 where "b2 = snd (alloc_events 2 b1)"
  have "(num_active_uiqs b1, uiqcnt b1, num_active_uiqs b2, uiqcnt b2) = (5, [5, 0], 3, [5, 0])"
    unfolding b1_def b2_def by code_simp
  then have n: "num_active_uiqs b1 = 5" "num_active_uiqs b2 = 3" "uiqcnt b2 ! 0 = 5" by simp_all
  have "(1 :: u32) + 4 \<le> ME6_MAX_UIQS" "(1 :: u32) + 4 \<le> ucast (uiqcnt b2 ! 0)" by (simp_all add: n)
  from event_queues_do_not_grow_back [OF this, where ok = True
      and env = "\<lambda>_. \<lparr>ui_alloc = True, ui_device_add = 0, ui_bin_file = 0, ui_link = 0\<rparr>"
      and board_type = PN_MICROENABLE6_IMAFLEX_CXP12_QUAD]
  have "fst (alloc_events 4 b2) = STATUS_OK \<and> num_active_uiqs (snd (alloc_events 4 b2)) = 3"
    by (simp add: alloc_events_def case_prod_beta n min_def)
  then show ?thesis using n by (simp add: b1_def [symmetric] b2_def [symmetric])
qed

text \<open>
  The number of queues asked for is computed in 32 bits. With one firmware queue, a request for
  \<open>2 ^ 32 - 1\<close> events passes the check against the maximum and deactivates all queues, the
  firmware queue included.
\<close>

theorem huge_event_request_deactivates_all:
  "num_active_uiqs event_board = 1
   \<and> fst (alloc_events 0xFFFFFFFF event_board) = STATUS_OK
   \<and> num_active_uiqs (snd (alloc_events 0xFFFFFFFF event_board)) = 0"
  by code_simp

section \<open>Creating a queue\<close>

text \<open>
  Creating a queue gives a queue exactly when every kernel service it calls succeeds and its
  protocol is known, and then an empty one without a buffer. When the file or the link of the
  queue cannot be created, its memory is freed twice: the release function of the unregistered
  device frees it, and the error exit frees it again.
\<close>

theorem queue_creation_frees_twice_on_late_failure:
  "let (r, frees) = men_uiq_init e board_type chan ident t reg depth;
       known = (\<not> isl (determine_uiq_protocol ident chan board_type));
       registered = (ui_alloc e \<and> known \<and> ui_device_add e = 0)
   in (\<not> isl r \<longleftrightarrow> registered \<and> ui_bin_file e = 0 \<and> ui_link e = 0)
      \<and> (frees = 2 \<longleftrightarrow> registered \<and> \<not> (ui_bin_file e = 0 \<and> ui_link e = 0))
      \<and> (case r of Inl err \<Rightarrow> True | Inr u \<Rightarrow> uiq_wf (base u) \<and> contents (base u) = [] \<and> frees = 0)"
  by (cases "determine_uiq_protocol ident chan board_type")
    (simp_all add: men_uiq_init_def Let_def uiq_base_init_def uiq_wf_def contents_def)

section \<open>The legacy interrupt\<close>

text \<open>The next \<open>n\<close> words of a board, from the device or from the memory of the messaging DMA.\<close>

fun fetch_words :: "'hw register_interface \<Rightarrow> u32 \<Rightarrow> nat \<Rightarrow> 'hw uiq_board \<Rightarrow> u32 list \<times> 'hw uiq_board" where
  "fetch_words ri a 0 b = ([], b)"
| "fetch_words ri a (Suc n) b =
     (let (w, b1) = men_fetch_next_incoming_uiq_word ri a b; (ws, b2) = fetch_words ri a n b1 in (w # ws, b2))"

lemma fetch_words_Suc:
  "fetch_words ri a (Suc n) b = (w # ws, b') \<longleftrightarrow>
     (\<exists>b1. men_fetch_next_incoming_uiq_word ri a b = (w, b1) \<and> fetch_words ri a n b1 = (ws, b'))"
  by (auto simp: case_prod_beta prod_eq_iff)

lemma fetch_one: "fetch_words ri a (Suc 0) b = ([w], b') \<longleftrightarrow> men_fetch_next_incoming_uiq_word ri a b = (w, b')"
  by (auto simp: case_prod_beta prod_eq_iff)

lemma control_bits:
  "w AND UIQ_CONTROL_EOT = 0 \<longleftrightarrow> \<not> UIQ_CONTROL_IS_END_OF_TRANSMISSION w"
  "w AND UIQ_CONTROL_INVALID = 0 \<longleftrightarrow> \<not> UIQ_CONTROL_IS_INVALID w"
proof -
  have one: "w AND 2 ^ k = 0 \<longleftrightarrow> \<not> ARE_BITS_SET w (2 ^ k)" if "(2 :: u32) ^ k \<noteq> 0" for k
  proof -
    have "w AND 2 ^ k = (if bit w k then 2 ^ k else 0)"
      by (intro bit_word_eqI) (auto simp: bit_simps)
    with that show ?thesis by (auto simp: ARE_BITS_SET_def)
  qed
  show "w AND UIQ_CONTROL_EOT = 0 \<longleftrightarrow> \<not> UIQ_CONTROL_IS_END_OF_TRANSMISSION w"
    "w AND UIQ_CONTROL_INVALID = 0 \<longleftrightarrow> \<not> UIQ_CONTROL_IS_INVALID w"
    using one [of 16] one [of 31]
    by (simp_all add: UIQ_CONTROL_IS_END_OF_TRANSMISSION_def UIQ_CONTROL_IS_INVALID_def)
qed

lemma frame_push_back [simp]:
  "read_protocol (snd (push_back q ws)) = read_protocol q"
  "data_register_offset (snd (push_back q ws)) = data_register_offset q"
proof -
  have "read_protocol (fold push_word vs p) = read_protocol p"
    "data_register_offset (fold push_word vs p) = data_register_offset p" for vs p
    by (induction vs arbitrary: p) (simp_all add: push_word_def Let_def)
  then show "read_protocol (snd (push_back q ws)) = read_protocol q"
    "data_register_offset (snd (push_back q ws)) = data_register_offset q"
    by (simp_all add: push_back_def Let_def record_discarded_words_def)
qed

lemma frame_legacy [simp]:
  "read_protocol (fst (write_from_grabber_legacy now q w s)) = read_protocol q"
  "data_register_offset (fst (write_from_grabber_legacy now q w s)) = data_register_offset q"
  by (simp_all add: write_from_grabber_legacy_def write_word_with_dataloss_flag_if_applicable_def Let_def
      push_back_decorated_with_timestamp_def push_back_decorated_with_timestamp_unchecked_def)

lemma pop_while_reads:
  assumes "read_protocol (base u) = UIQ_PROTOCOL_LEGACY"
    "fetch_words ri (data_register_offset (base u)) (Suc (length ws)) b = (ws @ [e], b')"
    "list_all (\<lambda>w. \<not> UIQ_CONTROL_IS_END_OF_TRANSMISSION w \<and> \<not> UIQ_CONTROL_IS_INVALID w) ws"
    "UIQ_CONTROL_IS_END_OF_TRANSMISSION e \<or> UIQ_CONTROL_IS_INVALID e"
  shows "pop_while ri now u b s = Some (u\<lparr>base := fst (grab_words now (ws @ [e]) (base u, s))\<rparr>,
           b', snd (grab_words now (ws @ [e]) (base u, s)))"
  using assms
proof (induction ws arbitrary: u b s)
  case Nil
  then have "men_fetch_next_incoming_uiq_word ri (data_register_offset (base u)) b = (e, b')"
    using fetch_one [of ri _ b e b'] by simp
  with Nil show ?case
    by (subst pop_while.simps) (auto simp: men_uiq_pop_def case_prod_beta Let_def)
next
  case (Cons w ws)
  from Cons.prems(2) obtain b1
    where r: "men_fetch_next_incoming_uiq_word ri (data_register_offset (base u)) b = (w, b1)"
      and rs: "fetch_words ri (data_register_offset (base u)) (Suc (length ws)) b1 = (ws @ [e], b')"
    using fetch_words_Suc [of ri "data_register_offset (base u)" "Suc (length ws)" b w "ws @ [e]" b'] by auto
  let ?q = "fst (write_from_grabber_legacy now (base u) w s)"
  let ?s = "snd (write_from_grabber_legacy now (base u) w s)"
  have p: "men_uiq_pop ri now u b s = (True, u\<lparr>base := ?q\<rparr>, b1, ?s)"
    using Cons.prems(1,3) by (simp add: men_uiq_pop_def r case_prod_beta Let_def)
  have "pop_while ri now u b s = pop_while ri now (u\<lparr>base := ?q\<rparr>) b1 ?s"
    by (subst pop_while.simps) (simp add: p)
  also have "\<dots> = Some (u\<lparr>base := fst (grab_words now (ws @ [e]) (?q, ?s))\<rparr>, b',
      snd (grab_words now (ws @ [e]) (?q, ?s)))"
    using Cons.IH [of "u\<lparr>base := ?q\<rparr>" b1 ?s] Cons.prems rs by simp
  also have "grab_words now (ws @ [e]) (?q, ?s) = grab_words now ((w # ws) @ [e]) (base u, s)"
    using Cons.prems(1) by simp
  finally show ?case .
qed

text \<open>The valid words among those a full queue throws away.\<close>

definition valid_words :: "u32 list \<Rightarrow> nat" where
  "valid_words ws = length (filter (\<lambda>w. \<not> UIQ_CONTROL_IS_INVALID w) ws)"

lemma drain_reads:
  assumes "fetch_words ri a (Suc (length ws)) b = (ws @ [e], b')"
    "list_all (\<lambda>w. \<not> UIQ_CONTROL_IS_END_OF_TRANSMISSION w) ws" "UIQ_CONTROL_IS_END_OF_TRANSMISSION e"
  shows "drain ri a lost b = Some (lost + of_nat (valid_words (ws @ [e])), b')"
  using assms
proof (induction ws arbitrary: b lost)
  case Nil
  then have "men_fetch_next_incoming_uiq_word ri a b = (e, b')"
    using fetch_one [of ri a b e b'] by simp
  with Nil show ?case
    by (subst drain.simps) (simp add: control_bits valid_words_def)
next
  case (Cons w ws)
  from Cons.prems(1) obtain b1
    where r: "men_fetch_next_incoming_uiq_word ri a b = (w, b1)"
      and rs: "fetch_words ri a (Suc (length ws)) b1 = (ws @ [e], b')"
    using fetch_words_Suc [of ri a "Suc (length ws)" b w "ws @ [e]" b'] by auto
  show ?case using Cons.prems(2,3) Cons.IH [OF rs]
    by (subst drain.simps) (simp add: r control_bits valid_words_def)
qed

text \<open>
  The word at which a read interrupt stops: the end of a transmission, and for a queue with room
  also an invalid word.
\<close>

definition stops_reading :: "uiq_base \<Rightarrow> u32 \<Rightarrow> bool" where
  "stops_reading q w \<longleftrightarrow> UIQ_CONTROL_IS_END_OF_TRANSMISSION w \<or> \<not> is_full q \<and> UIQ_CONTROL_IS_INVALID w"

text \<open>
  C38: The read interrupt of a queue, of the legacy protocol unless the queue is full, when the words
  the board delivers contain one at which it stops. If the queue has room this is the end of a
  transmission or an invalid word; the words up to it go into the queue by the data-loss protocol, one
  after the other, a reader that waits for so many words is completed, and the interrupt is counted.
  If the queue is full an invalid word does not stop it, only the end of a transmission; the words go
  nowhere, the valid ones among them are counted as lost, the flag that the last words were lost is
  not set, and the interrupt is not counted. In both cases the interrupt returns and exactly the words
  up to the one that stops it are read from the board.
\<close>

theorem legacy_interrupt_reads_one_transmission:
  assumes "is_full (base u) \<or> read_protocol (base u) = UIQ_PROTOCOL_LEGACY"
    and "fetch_words ri (data_register_offset (base u)) (Suc (length ws)) b = (ws @ [e], b')"
    and "list_all (\<lambda>w. \<not> stops_reading (base u) w) ws" "stops_reading (base u) e"
  shows "men_uiq_pop_all ri now u b s =
    (if is_full (base u)
     then Some (False, u\<lparr>base := (base u)\<lparr>lost_words_count := lost_words_count (base u) + of_nat (valid_words (ws @ [e]))\<rparr>\<rparr>, b', s)
     else let (q, s') = grab_words now (ws @ [e]) (base u, s); waits = (cpltodo u \<noteq> 0 \<and> cpltodo u \<le> fill q)
          in Some (is_empty (base u) \<and> \<not> is_empty q,
                   u\<lparr>base := q\<lparr>irq_count := irq_count q + 1\<rparr>, cpl := (if waits then cpl u + 1 else cpl u)\<rparr>, b', s'))"
proof (cases "is_full (base u)")
  case True
  with assms(3,4) have "list_all (\<lambda>w. \<not> UIQ_CONTROL_IS_END_OF_TRANSMISSION w) ws" "UIQ_CONTROL_IS_END_OF_TRANSMISSION e"
    by (simp_all add: stops_reading_def)
  from drain_reads [OF assms(2) this] True show ?thesis by (simp add: men_uiq_pop_all_def)
next
  case False
  with assms have l: "read_protocol (base u) = UIQ_PROTOCOL_LEGACY"
    "list_all (\<lambda>w. \<not> UIQ_CONTROL_IS_END_OF_TRANSMISSION w \<and> \<not> UIQ_CONTROL_IS_INVALID w) ws"
    "UIQ_CONTROL_IS_END_OF_TRANSMISSION e \<or> UIQ_CONTROL_IS_INVALID e"
    by (auto simp: stops_reading_def)
  from pop_while_reads [OF l(1) assms(2) l(2,3), of now s] False show ?thesis
    by (simp add: men_uiq_pop_all_def count_irq_def complete_reader_def complete_def case_prod_beta)
qed

definition legacy_uiq :: "u32 \<Rightarrow> menable_uiq" where
  "legacy_uiq n = \<lparr>base = (uiq_base_init 16 [0, 0, 0, 0] 4 7 UIQ_TYPE_READ UIQ_PROTOCOL_LEGACY 0 0)\<lparr>fill := n\<rparr>,
     cpltodo = 0, irqack_offs = 0, ackbit = 0, cpltimeout = 0, cpl = 0\<rparr>"

definition fifo_board :: "u32 list \<Rightarrow> (u32 list \<times> (u32 \<times> u32) list) uiq_board" where
  "fifo_board ws = \<lparr>ub_hw = (ws, []), msg_dma_mem = None,
     uiq_transfer = uiq_transfer event_board, uiqs = [], uiqcnt = [], num_active_uiqs = 0\<rparr>"

lemma fetch_fifo [simp]:
  "men_fetch_next_incoming_uiq_word fifo_device a (fifo_board (w # ws)) = (w, fifo_board ws)"
  by (simp add: men_fetch_next_incoming_uiq_word_def fifo_board_def fifo_device_def)

text \<open>With room and full: the invalid word \<open>0x80000000\<close> stops the first interrupt only.\<close>

theorem legacy_interrupt_reads_one_transmission_witness:
  "(\<exists>u'. men_uiq_pop_all fifo_device demo_stamp (legacy_uiq 0) (fifo_board [5, 0x80000000, 6, 0x10007, 9]) (demo_stamp, False)
      = Some (True, u', fifo_board [6, 0x10007, 9], (demo_stamp, False)) \<and> contents (base u') = [5])
   \<and> (\<exists>u'. men_uiq_pop_all fifo_device demo_stamp (legacy_uiq 4) (fifo_board [5, 0x80000000, 6, 0x10007, 9]) (demo_stamp, False)
      = Some (False, u', fifo_board [9], (demo_stamp, False)) \<and> lost_words_count (base u') = 3)"
proof -
  note flags = UIQ_CONTROL_IS_END_OF_TRANSMISSION_def UIQ_CONTROL_IS_INVALID_def
    UIQ_CONTROL_SHALL_INSERT_TIMESTAMP_def ARE_BITS_SET_def
  let ?b = "fifo_board [5, 0x80000000, 6, 0x10007, 9]"
  have q: "is_full (base (legacy_uiq 4))" "\<not> is_full (base (legacy_uiq 0))" "data_register_offset (base (legacy_uiq n)) = 16"
    "read_protocol (base (legacy_uiq n)) = UIQ_PROTOCOL_LEGACY" "cpltodo (legacy_uiq n) = 0"
    "lost_words_count (base (legacy_uiq n)) = 0" "fill (base (legacy_uiq 0)) = 0" for n
    by (simp_all add: legacy_uiq_def is_full_def is_empty_def uiq_base_init_def)
  have g: "grab_words demo_stamp ([5] @ [0x80000000]) (base (legacy_uiq 0), (demo_stamp, False))
      = ((base (legacy_uiq 0))\<lparr>uiq_data := [5, 0, 0, 0], fill := 1\<rparr>, (demo_stamp, False))"
    by (simp add: legacy_uiq_def uiq_base_init_def write_from_grabber_legacy_def flags Let_def
        write_word_with_dataloss_flag_if_applicable_def push_back_def push_word_def)
  have "men_uiq_pop_all fifo_device demo_stamp (legacy_uiq 4) ?b (demo_stamp, False)
      = Some (False, (legacy_uiq 4)\<lparr>base := (base (legacy_uiq 4))\<lparr>lost_words_count := 3\<rparr>\<rparr>, fifo_board [9], (demo_stamp, False))"
    using legacy_interrupt_reads_one_transmission [where u = "legacy_uiq 4" and ri = fifo_device
        and ws = "[5, 0x80000000, 6]" and b = ?b and e = "0x10007" and b' = "fifo_board [9]"]
    by (simp add: q stops_reading_def valid_words_def flags)
  moreover have "men_uiq_pop_all fifo_device demo_stamp (legacy_uiq 0) ?b (demo_stamp, False)
      = Some (True, (legacy_uiq 0)\<lparr>base := (base (legacy_uiq 0))\<lparr>uiq_data := [5, 0, 0, 0], fill := 1, irq_count := irq_count (base (legacy_uiq 0)) + 1\<rparr>\<rparr>,
          fifo_board [6, 0x10007, 9], (demo_stamp, False))"
    using legacy_interrupt_reads_one_transmission [where u = "legacy_uiq 0" and ri = fifo_device
        and ws = "[5]" and b = ?b and e = "0x80000000" and b' = "fifo_board [6, 0x10007, 9]"
        and now = demo_stamp and s = "(demo_stamp, False)"] g
    by (simp add: q stops_reading_def flags is_empty_def)
  ultimately show ?thesis
    by (simp add: contents_def legacy_uiq_def uiq_base_init_def upt_rec)
qed

text \<open>
  A full queue of a board that delivers words without an end of transmission keeps the interrupt
  reading for ever, also when all of them are invalid.
\<close>

lemma full_queue_waits_for_the_end:
  assumes "\<And>s. \<not> UIQ_CONTROL_IS_END_OF_TRANSMISSION (fst (ri_read ri (data_register_offset (base u)) s))"
    "msg_dma_mem b = None" "is_full (base u)"
  shows "men_uiq_pop_all ri now u b s = None"
proof -
  let ?a = "data_register_offset (base u)"
  have F: "a = ?a \<longrightarrow> msg_dma_mem c = None \<longrightarrow> ri' \<noteq> ri" if "drain ri' a lost c = Some r" for ri' a lost c r
    using that
  proof (rule drain.raw_induct [of "\<lambda>ri' a lost c r. a = ?a \<longrightarrow> msg_dma_mem c = None \<longrightarrow> ri' \<noteq> ri", rotated])
    fix f and ri' :: "'a register_interface" and a lost c r
    assume IH: "\<And>ri' a lost c r. f ri' a lost c = Some r \<Longrightarrow> a = ?a \<longrightarrow> msg_dma_mem c = None \<longrightarrow> ri' \<noteq> ri"
      and d: "(let (w, b1) = men_fetch_next_incoming_uiq_word ri' a c;
               lost1 = (if w AND UIQ_CONTROL_INVALID = 0 then lost + 1 else lost)
           in if w AND UIQ_CONTROL_EOT = 0 then f ri' a lost1 b1 else Some (lost1, b1)) = Some r"
    show "a = ?a \<longrightarrow> msg_dma_mem c = None \<longrightarrow> ri' \<noteq> ri"
    proof (intro impI notI)
      assume e: "a = ?a" "msg_dma_mem c = None" "ri' = ri"
      let ?x = "ri_read ri a (ub_hw c)"
      have "men_fetch_next_incoming_uiq_word ri' a c = (fst ?x, c\<lparr>ub_hw := snd ?x\<rparr>)"
        using e(2,3) by (simp add: men_fetch_next_incoming_uiq_word_def case_prod_beta Let_def)
      moreover have "fst ?x AND UIQ_CONTROL_EOT = 0" using assms(1) e(1) by (simp add: control_bits)
      ultimately obtain l where "f ri ?a l (c\<lparr>ub_hw := snd ?x\<rparr>) = Some r"
        using d e by (simp add: Let_def)
      from IH [OF this] e(2) show False by simp
    qed
  qed
  have "drain ri ?a (lost_words_count (base u)) b = None"
    using F [of ri ?a "lost_words_count (base u)" b] assms(2) by (meson not_Some_eq)
  with assms(3) show ?thesis by (simp add: men_uiq_pop_all_def)
qed

section \<open>The pages of the messaging DMA\<close>

text \<open>The reader stands in one of the pages, never at the last word of it.\<close>

definition reader_ok :: "messaging_dma_controller \<Rightarrow> bool" where
  "reader_ok c \<longleftrightarrow> unat (read_offset c) < unat (num_buffers c) * 1024
     \<and> unat (read_offset c) mod 1024 \<noteq> 1023"

definition page_end :: "messaging_dma_controller \<Rightarrow> nat" where
  "page_end c = buffer_addresses c (unat (read_offset c) div 1024) + 1024"

lemma unat_pages_num: "unat (ucast (n :: u8) :: u32) = unat n"
proof -
  have "unat n < 256" using unsigned_less [of n] by simp
  then have "take_bit 32 (unat n) = unat n" by (simp add: take_bit_nat_eq_self_iff)
  then show ?thesis by (simp add: unsigned_ucast_eq)
qed

lemma unat_pages:
  "unat (ucast (n :: u8) * WORDS_PER_PAGE :: u32) = unat n * 1024"
proof -
  have n: "unat n < 256" using unsigned_less [of n] by simp
  then show ?thesis by (simp add: unat_word_ariths unat_pages_num)
qed

lemma advance_ok:
  assumes "0 < unat (num_buffers c)"
  shows "reader_ok (advance n c)"
proof -
  let ?o = "read_offset c + n" and ?t = "ucast (num_buffers c) * WORDS_PER_PAGE :: u32"
  let ?p = "if WORDS_PER_PAGE - ?o mod WORDS_PER_PAGE = 1 then ?o + 1 else ?o"
  have lt: "unat ?o mod 1024 < 1024" by simp
  have m: "unat (WORDS_PER_PAGE - ?o mod WORDS_PER_PAGE) = 1024 - unat ?o mod 1024"
    using lt by (subst unat_sub_u32) (simp_all add: unat_mod_u32)
  have last: "1024 - x = Suc 0 \<longleftrightarrow> x = 1023" if "x < 1024" for x :: nat using that by arith
  have one: "WORDS_PER_PAGE - ?o mod WORDS_PER_PAGE = 1 \<longleftrightarrow> unat ?o mod 1024 = 1023"
    unfolding word_unat_eq_iff m using last [OF lt] by (simp only: unat_1 One_nat_def)
  have p: "unat ?p mod 1024 \<noteq> 1023"
  proof (cases "unat ?o mod 1024 = 1023")
    case True
    then have "(unat ?o + 1) mod 1024 = 0" by (simp add: mod_Suc)
    moreover have "unat (?o + 1) mod 1024 = (unat ?o + 1) mod 1024"
    proof -
      have "unat (?o + 1) = (unat ?o + 1) mod 2 ^ 32" by (simp add: unat_word_ariths)
      also have "\<dots> mod 1024 = (unat ?o + 1) mod 1024" by (rule mod_mod_cancel) simp
      finally show ?thesis .
    qed
    ultimately show ?thesis using True one by simp
  qed (use one in simp)
  have "unat (read_offset (advance n c)) = unat ?p mod (unat (num_buffers c) * 1024)"
    by (simp add: advance_def Let_def unat_mod_u32 unat_pages del: One_nat_def)
  moreover have "unat ?p mod (unat (num_buffers c) * 1024) mod 1024 = unat ?p mod 1024"
    by (rule mod_mod_cancel) simp
  ultimately show ?thesis
    using assms p by (simp add: reader_ok_def) (simp add: advance_def Let_def)
qed

text \<open>
  C39: A reader inside its pages stays inside them, whatever the device writes. A transmission is
  refused when the engine does not run, when it is empty, or when its length crosses the end of the
  page, and then the reader does not move. Otherwise it gets the words behind the length word, and the
  next transmission starts behind them, or in the next page if only one word is left. One length
  check is unsound: a length that makes the sum of offset and length wrap in 32 bits is accepted,
  and only then the words reach beyond the page.
\<close>

theorem messaging_reader_stays_in_its_pages:
  assumes ok: "reader_ok c"
  shows "let off = unat (read_offset c) mod 1024;
             start = buffer_addresses c (unat (read_offset c) div 1024) + off;
             len = unat (mem start)
         in case get_next_transmission mem running c of
              (Inl err, c') \<Rightarrow> c' = c
                \<and> err = (if \<not> running \<or> len = 0 then STATUS_ERR_INVALID_STATE else STATUS_ERR_OVERFLOW)
            | (Inr info, c') \<Rightarrow> reader_ok c' \<and> info_read_ptr info = start + 1
                \<and> unat (info_num_words info) = len - 1
                \<and> (page_end c < info_read_ptr info + unat (info_num_words info) \<longleftrightarrow> 2 ^ 32 \<le> off + len)"
proof -
  let ?o = "read_offset c"
  define off where "off = unat ?o mod 1024"
  define start where "start = buffer_addresses c (unat ?o div 1024) + off"
  define w where "w = mem start"
  have n: "0 < unat (num_buffers c)" and lt: "unat ?o < unat (num_buffers c) * 1024"
    and off: "off \<noteq> 1023" "off < 1024"
    using ok by (auto simp: reader_ok_def off_def intro: ccontr)
  have d: "unat (?o div WORDS_PER_PAGE) = unat ?o div 1024" "unat (?o mod WORDS_PER_PAGE) = off"
    by (simp_all add: unat_div unat_mod_u32 off_def)
  have nb: "unat (ucast (num_buffers c) :: u32) = unat (num_buffers c)"
    by (rule unat_pages_num)
  have id: "\<not> ?o div WORDS_PER_PAGE \<ge> ucast (num_buffers c)"
    using lt by (simp add: word_le_nat_alt d nb not_le less_mult_imp_div_less)
  have last: "?o mod WORDS_PER_PAGE \<noteq> WORDS_PER_PAGE - 1"
    using off(1) d(2) by (auto simp del: One_nat_def)
  have e: "get_next_transmission mem running c =
     (if \<not> running then (Inl STATUS_ERR_INVALID_STATE, c)
      else if w = 0 then (Inl STATUS_ERR_INVALID_STATE, c)
      else if ?o mod WORDS_PER_PAGE + w > WORDS_PER_PAGE then (Inl STATUS_ERR_OVERFLOW, c)
      else (Inr \<lparr>info_read_ptr = start + 1, info_num_words = w - 1\<rparr>, advance w c))"
    using id last by (simp add: get_next_transmission_def Let_def d w_def start_def)
  have sum: "?o mod WORDS_PER_PAGE + w > WORDS_PER_PAGE \<longleftrightarrow> 1024 < (off + unat w) mod 2 ^ 32"
    by (simp add: word_less_nat_alt unat_word_ariths(1) d)
  have pg: "page_end c = start + (1024 - off)"
    using off(2) by (simp add: page_end_def start_def off_def)
  have beyond: "page_end c < start + 1 + (unat w - 1) \<longleftrightarrow> 2 ^ 32 \<le> off + unat w"
    if "\<not> 1024 < (off + unat w) mod 2 ^ 32" "w \<noteq> 0"
  proof -
    have "unat w < 2 ^ 32" "unat w \<noteq> 0" using that(2) by (simp_all add: unat_eq_zero)
    then show ?thesis using that(1) off(2) unfolding pg
      by (cases "off + unat w < 2 ^ 32") auto
  qed
  show ?thesis
    unfolding Let_def off_def [symmetric] start_def [symmetric] w_def [symmetric] e sum
    using beyond advance_ok [OF n, of w]
    by (auto simp: unat_eq_zero unat_minus_one)
qed

theorem messaging_reader_stays_in_its_pages_witness:
  "get_next_transmission (\<lambda>a. if a = 2010 then 3 else 0) True
      \<lparr>num_buffers = 2, buffer_addresses = (\<lambda>i. 1000 + 2000 * i), read_offset = 1010, status_register = 0\<rparr>
     = (Inr \<lparr>info_read_ptr = 2011, info_num_words = 2\<rparr>,
        \<lparr>num_buffers = 2, buffer_addresses = (\<lambda>i. 1000 + 2000 * i), read_offset = 1013, status_register = 0\<rparr>)
   \<and> reader_ok \<lparr>num_buffers = 2, buffer_addresses = (\<lambda>i. 1000 + 2000 * i), read_offset = 1013, status_register = 0\<rparr>"
proof -
  let ?c = "\<lparr>num_buffers = 2, buffer_addresses = (\<lambda>i. 1000 + 2000 * i), read_offset = 1010, status_register = 0\<rparr>"
  have ok: "reader_ok ?c" by (simp add: reader_ok_def)
  have "get_next_transmission (\<lambda>a. if a = 2010 then 3 else 0) True ?c
     = (Inr \<lparr>info_read_ptr = 2011, info_num_words = 2\<rparr>, ?c\<lparr>read_offset := 1013\<rparr>)"
    by (simp add: get_next_transmission_def advance_def Let_def)
  with messaging_reader_stays_in_its_pages [OF ok, of "\<lambda>a. if a = 2010 then 3 else 0" True]
  show ?thesis by (simp add: Let_def)
qed

end
