(* ===== verification/Sgl.thy ===== *)
theory Sgl
  imports Bits
begin

text \<open>
  The scatter-gather lists of the mE6 boards as \<^verbatim>\<open>linux/menable6.c\<close> builds them. A block has a
  pointer to the next block and seven data words that hold five entries of 86 bits from bit 18
  on: a flag for the last entry, the address without its two lowest bits, and the encoded size.
  A word is written with \<^verbatim>\<open>cpu_to_le64\<close>, the identity on the little-endian machines the driver
  runs on. \<open>None\<close> is a \<^verbatim>\<open>BUG\<close>.
\<close>

record me6_sgl =
  sgl_next :: u64
  sgl_data :: "u64 list"

abbreviation (input) ME6_SGL_ENTRIES :: nat where "ME6_SGL_ENTRIES \<equiv> 5"

definition zero_sgl :: me6_sgl where
  "zero_sgl = \<lparr>sgl_next = 0, sgl_data = replicate 7 0\<rparr>"

section \<open>One entry\<close>

definition set_last :: "nat \<Rightarrow> bool \<Rightarrow> u64 \<Rightarrow> u64" where
  "set_last k is_last temp = (if is_last then temp OR push_bit k 1 else temp AND NOT (push_bit k 1))"

definition me6_set_sgl_entry :: "u64 list \<Rightarrow> nat \<Rightarrow> u64 \<Rightarrow> u32 \<Rightarrow> bool \<Rightarrow> u64 list option" where
  "me6_set_sgl_entry d entry_idx addr payload_size is_last =
     (let psize = ucast payload_size :: u64 in
      if entry_idx = 0 then
        let d0 = (if is_last then push_bit 18 1 else 0) OR msl64 addr 46 2 (19 - 2);
            d1 = rmsl64 (rmsr64 (d ! 1) addr 63 47 47) psize 22 0 17
        in Some (d[0 := d0, 1 := d1])
      else if entry_idx = 1 then
        let d1 = rmsl64 (set_last 40 is_last (d ! 1)) addr 24 2 (41 - 2);
            d2 = rmsl64 (rmsr64 (d ! 2) addr 63 25 25) psize 22 0 39
        in Some (d[1 := d1, 2 := d2])
      else if entry_idx = 2 then
        let d2 = rmsl64 (set_last 62 is_last (d ! 2)) addr 2 2 (63 - 2);
            d3 = msr64 addr 63 3 3 OR msl64 psize 2 0 61;
            d4 = rmsr64 (d ! 4) psize 22 3 3
        in Some (d[2 := d2, 3 := d3, 4 := d4])
      else if entry_idx = 3 then
        let d4 = rmsl64 (set_last 20 is_last (d ! 4)) addr 44 2 (21 - 2);
            d5 = rmsl64 (rmsr64 (d ! 5) addr 63 45 45) psize 22 0 19
        in Some (d[4 := d4, 5 := d5])
      else if entry_idx = 4 then
        let d5 = rmsl64 (set_last 42 is_last (d ! 5)) addr 22 2 (43 - 2);
            d6 = msr64 addr 63 23 23 OR msl64 psize 22 0 41
        in Some (d[5 := d5, 6 := d6])
      else None)"

text \<open>The transfers an entry needs and the words in the last one, packed.\<close>

definition me6_sgl_size :: "u16 \<Rightarrow> u32 \<Rightarrow> u32 \<Rightarrow> u32 option" where
  "me6_sgl_size offset nbytes payload =
     (let off = ucast offset :: u32;
          first_transfer_size = (if off mod payload = 0 then payload else payload - off mod payload);
          (num_transfers, last_transfer_size) =
            (if nbytes \<le> first_transfer_size then (1, nbytes)
             else
               let aligned = nbytes - first_transfer_size;
                   n = 1 + aligned div payload;
                   l = aligned mod payload
               in if l = 0 then (n, payload) else (n + 1, l));
          last_words = last_transfer_size div 4
      in if num_transfers > 0x8000 \<or> last_words > 0x100 then None
         else Some ((num_transfers AND 0x7fff) OR push_bit 15 (last_words AND 0xff)))"

section \<open>The chain of a buffer\<close>

text \<open>
  \<open>node_ok n\<close> and \<open>pool n\<close> are what \<^verbatim>\<open>kzalloc\<close> and \<^verbatim>\<open>dma_pool_alloc\<close> give for node number \<open>n\<close> of
  the chain (node 0 was allocated with the buffer). The chain itself does not hold the bus
  address of a block, only the block before it does.
\<close>

record sgl_alloc =
  node_ok :: "nat \<Rightarrow> bool"
  pool :: "nat \<Rightarrow> u64 option"

definition payload_of_ctrl :: "u32 \<Rightarrow> u32" where
  "payload_of_ctrl ctrl = push_bit (unat (drop_bit 5 (ctrl AND 0xe0))) 128"

text \<open>True with the whole chain, or False with the nodes there are when memory runs out.\<close>

fun fill_chain ::
    "sgl_alloc \<Rightarrow> u32 \<Rightarrow> me6_sgl list \<Rightarrow> me6_sgl \<Rightarrow> nat \<Rightarrow> u64 \<Rightarrow> (u64 \<times> u32) list
     \<Rightarrow> (bool \<times> me6_sgl list) option" where
  "fill_chain al p full cur e rem [] = Some (True, full @ [cur])"
| "fill_chain al p full cur e rem ((addr, sglen) # sgs) =
     (let len = (if ucast sglen > rem then ucast rem else sglen);
          is_last = (sgs = [])
      in case me6_sgl_size (ucast (addr AND 0xfff)) len p of
           None \<Rightarrow> None
         | Some sz \<Rightarrow>
             (case me6_set_sgl_entry (sgl_data cur) e addr sz is_last of
                None \<Rightarrow> None
              | Some d \<Rightarrow>
                  let cur1 = cur\<lparr>sgl_data := d\<rparr>
                  in if Suc e = ME6_SGL_ENTRIES \<and> \<not> is_last then
                       (if \<not> node_ok al (Suc (length full)) then Some (False, full @ [cur1])
                        else case pool al (Suc (length full)) of
                            None \<Rightarrow> Some (False, full @ [cur1])
                          | Some a \<Rightarrow>
                              fill_chain al p (full @ [cur1\<lparr>sgl_next := drop_bit 1 a OR 1\<rparr>])
                                zero_sgl 0 (rem - ucast len) sgs)
                     else fill_chain al p full cur1 (Suc e) (rem - ucast len) sgs))"

text \<open>\<^verbatim>\<open>me6_free_sgl\<close>: the blocks given back to the pool, each with the address it is freed with.\<close>

fun me6_free_sgl :: "u64 \<Rightarrow> me6_sgl list \<Rightarrow> (me6_sgl \<times> u64) list" where
  "me6_free_sgl dma [] = []"
| "me6_free_sgl dma (res # chain) =
     (let ndma = push_bit 1 (sgl_next res) AND NOT 3
      in if dma = ndma then [] else (res, dma) # me6_free_sgl ndma chain)"

datatype userbuf_result =
  Userbuf_created u64 "me6_sgl list"
| Userbuf_nomem "(me6_sgl \<times> u64) list"

text \<open>
  \<^verbatim>\<open>me6_create_userbuf\<close>, for the mapped entries \<open>sgs\<close> of the buffer: the address of the first
  block and the chain, or \<^verbatim>\<open>-ENOMEM\<close> with the blocks that are freed again.
\<close>

definition me6_create_userbuf ::
    "sgl_alloc \<Rightarrow> u32 \<Rightarrow> u64 \<Rightarrow> (u64 \<times> u32) list \<Rightarrow> userbuf_result option" where
  "me6_create_userbuf al pcie_device_ctrl buf_length sgs =
     (case pool al 0 of
        None \<Rightarrow> Some (Userbuf_nomem [])
      | Some dma \<Rightarrow>
          map_option (\<lambda>(ok, chain). if ok then Userbuf_created dma chain
                                    else Userbuf_nomem (me6_free_sgl dma chain))
            (fill_chain al (payload_of_ctrl pcie_device_ctrl) [] zero_sgl 0 buf_length sgs))"

text \<open>
  \<^verbatim>\<open>me6_create_dummybuf\<close>: one block whose five entries are the dummy page and that is its own
  successor.
\<close>

definition PCI_PAGE_SIZE :: u32 where "PCI_PAGE_SIZE = 4096"

fun dummy_entries :: "u64 \<Rightarrow> u32 \<Rightarrow> nat list \<Rightarrow> u64 list \<Rightarrow> u64 list option" where
  "dummy_entries page p [] d = Some d"
| "dummy_entries page p (i # is) d =
     (case me6_sgl_size 0 PCI_PAGE_SIZE p of
        None \<Rightarrow> None
      | Some sz \<Rightarrow>
          (case me6_set_sgl_entry d i page sz False of
             None \<Rightarrow> None
           | Some d1 \<Rightarrow> dummy_entries page p is d1))"

definition me6_create_dummybuf ::
    "sgl_alloc \<Rightarrow> u64 \<Rightarrow> u32 \<Rightarrow> userbuf_result option" where
  "me6_create_dummybuf al dummypage_dma payload =
     (if \<not> node_ok al 0 then Some (Userbuf_nomem [])
      else case pool al 0 of
        None \<Rightarrow> Some (Userbuf_nomem [])
      | Some dma \<Rightarrow>
          map_option (\<lambda>d. Userbuf_created dma [\<lparr>sgl_next = drop_bit 1 dma OR 1, sgl_data = d\<rparr>])
            (dummy_entries dummypage_dma payload [0..<ME6_SGL_ENTRIES] (replicate 7 0)))"

definition me6_destroy_dummybuf :: "u64 \<Rightarrow> me6_sgl list \<Rightarrow> (me6_sgl \<times> u64) list" where
  "me6_destroy_dummybuf dma chain = [(hd chain, dma)]"

text \<open>\<^verbatim>\<open>me6_queue_sb\<close>: the word address of the first block that goes to the board.\<close>

definition me6_queue_sb :: "u64 \<Rightarrow> u64" where
  "me6_queue_sb dma = drop_bit 2 dma"

end
