(* ===== verification/Sgl_Spec.thy ===== *)
theory Sgl_Spec
  imports Sgl
begin

text \<open>
  What the entry writers do, bit by bit, and the reference reader of a block: the data words
  are one string of 448 bits, and an entry is 86 of them.
\<close>

definition block_bit :: "u64 list \<Rightarrow> nat \<Rightarrow> bool" where
  "block_bit d n = bit (d ! (n div 64)) (n mod 64)"

text \<open>The \<open>len\<close> bits from \<open>off\<close> on are those of \<open>v\<close>, all the others are kept.\<close>

definition field_written :: "nat \<Rightarrow> nat \<Rightarrow> (nat \<Rightarrow> bool) \<Rightarrow> u64 list \<Rightarrow> u64 list \<Rightarrow> bool" where
  "field_written off len v d d' \<longleftrightarrow>
     length d' = length d
     \<and> (\<forall>n < 64 * length d.
          block_bit d' n = (if off \<le> n \<and> n < off + len then v (n - off) else block_bit d n))"

definition entry_offset :: "nat \<Rightarrow> nat" where
  "entry_offset i = 18 + i * 86"

definition entry_bits :: "bool \<Rightarrow> u64 \<Rightarrow> u32 \<Rightarrow> nat \<Rightarrow> bool" where
  "entry_bits lst addr sz k =
     (if k = 0 then lst else if k < 63 then bit addr (k + 1) else bit sz (k - 63))"

lemma block_bit_word: "k < 64 \<Longrightarrow> block_bit d (64 * w + k) = bit (d ! w) k"
  by (simp add: block_bit_def)

lemma blocks_eqI:
  assumes "length d = length d'" "\<And>n. n < 64 * length d \<Longrightarrow> block_bit d n = block_bit d' n"
  shows "d = d'"
proof (rule nth_equalityI [OF assms(1)])
  fix w assume w: "w < length d"
  show "d ! w = d' ! w"
  proof (rule bit_word_eqI)
    fix k assume "k < LENGTH(64)"
    then have k: "k < 64" by simp
    with w have "64 * w + k < 64 * length d" by simp
    from assms(2) [OF this] k show "bit (d ! w) k = bit (d' ! w) k" by (simp add: block_bit_word)
  qed
qed

lemma field_written_unique:
  assumes "field_written off len v d d1" "field_written off len v d d2"
  shows "d1 = d2"
  by (rule blocks_eqI) (use assms in \<open>auto simp: field_written_def\<close>)

lemma field_writtenI:
  assumes "length d' = length d"
    and "\<And>w k. w < length d \<Longrightarrow> k < 64 \<Longrightarrow> bit (d' ! w) k =
      (if off \<le> 64 * w + k \<and> 64 * w + k < off + len then v (64 * w + k - off) else bit (d ! w) k)"
  shows "field_written off len v d d'"
  unfolding field_written_def
proof (intro conjI allI impI)
  fix n assume n: "n < 64 * length d"
  then have w: "n div 64 < length d" by (simp add: less_mult_imp_div_less mult.commute)
  have "64 * (n div 64) + n mod 64 = n" by simp
  with assms(2) [OF w, of "n mod 64"]
  show "block_bit d' n = (if off \<le> n \<and> n < off + len then v (n - off) else block_bit d n)"
    by (simp add: block_bit_def)
qed (rule assms(1))

lemma bit_set_last [bit_specs]:
  "k < 64 \<Longrightarrow> bit (set_last k l x) i = (if i = k then l else bit x i)"
  by (auto simp: set_last_def bit_simps dest: bit_imp_le_length)

section \<open>The writer of the driver\<close>

text \<open>The reserved bits below the first entry are clear in every block the driver builds.\<close>

definition reserved_clear :: "u64 list \<Rightarrow> bool" where
  "reserved_clear d \<longleftrightarrow> length d = 7 \<and> (\<forall>n < 18. \<not> block_bit d n)"

lemma less_7_cases:
  "(w::nat) < 7 \<Longrightarrow> (w = 0 \<Longrightarrow> P) \<Longrightarrow> (w = 1 \<Longrightarrow> P) \<Longrightarrow> (w = 2 \<Longrightarrow> P) \<Longrightarrow> (w = 3 \<Longrightarrow> P)
   \<Longrightarrow> (w = 4 \<Longrightarrow> P) \<Longrightarrow> (w = 5 \<Longrightarrow> P) \<Longrightarrow> (w = 6 \<Longrightarrow> P) \<Longrightarrow> P"
  by linarith

lemma Suc_diff_numeral: "numeral m \<le> k \<Longrightarrow> Suc (k - numeral m) = k - pred_numeral m"
  by (simp add: numeral_eq_Suc)

lemma bit_262144: "bit (262144 :: int) k \<longleftrightarrow> k = 18" "bit (262144 :: nat) k \<longleftrightarrow> k = 18"
proof -
  have "(262144 :: int) = push_bit 18 1" "(262144 :: nat) = push_bit 18 1" by simp_all
  then show "bit (262144 :: int) k \<longleftrightarrow> k = 18" "bit (262144 :: nat) k \<longleftrightarrow> k = 18"
    by (simp_all only: bit_push_bit_iff) (auto simp: bit_simps)
qed

lemmas entry_simps = numeral_3_eq_3 bit_262144 me6_set_sgl_entry_def Let_def entry_bits_def bit_specs bit_simps Suc_diff_numeral

lemma set_entry_0:
  assumes "reserved_clear d" "me6_set_sgl_entry d 0 a s l = Some d'"
  shows "field_written 18 86 (entry_bits l a s) d d'"
proof (rule field_writtenI)
  have d: "length d = 7" using assms(1) by (simp add: reserved_clear_def)
  then show "length d' = length d" using assms(2) by (auto simp: me6_set_sgl_entry_def Let_def)
  have low: "\<not> bit (d ! 0) k" if "k < 18" for k
    using assms(1) that by (simp add: reserved_clear_def block_bit_def)
  fix w k :: nat assume "w < length d" and k: "k < 64"
  then have w: "w < 7" using d by simp
  show "bit (d' ! w) k =
      (if 18 \<le> 64 * w + k \<and> 64 * w + k < 18 + 86 then entry_bits l a s (64 * w + k - 18)
       else bit (d ! w) k)"
    by (rule less_7_cases [OF w]; use assms(2) d low k in
      \<open>auto simp: entry_simps add.commute [of k] split: if_splits; arith\<close>)
qed

lemma set_entry_1:
  assumes "reserved_clear d" "me6_set_sgl_entry d 1 a s l = Some d'"
  shows "field_written 104 86 (entry_bits l a s) d d'"
proof (rule field_writtenI)
  have d: "length d = 7" using assms(1) by (simp add: reserved_clear_def)
  then show "length d' = length d" using assms(2) by (auto simp: me6_set_sgl_entry_def Let_def)
  have low: "\<not> bit (d ! 0) k" if "k < 18" for k
    using assms(1) that by (simp add: reserved_clear_def block_bit_def)
  fix w k :: nat assume "w < length d" and k: "k < 64"
  then have w: "w < 7" using d by simp
  show "bit (d' ! w) k =
      (if 104 \<le> 64 * w + k \<and> 64 * w + k < 104 + 86 then entry_bits l a s (64 * w + k - 104)
       else bit (d ! w) k)"
    by (rule less_7_cases [OF w]; use assms(2) d low k in
      \<open>auto simp: entry_simps add.commute [of k] split: if_splits; arith\<close>)
qed

lemma set_entry_2:
  assumes "reserved_clear d" "me6_set_sgl_entry d 2 a s l = Some d'"
  shows "field_written 190 86 (entry_bits l a s) d d'"
proof (rule field_writtenI)
  have d: "length d = 7" using assms(1) by (simp add: reserved_clear_def)
  then show "length d' = length d" using assms(2) by (auto simp: me6_set_sgl_entry_def Let_def)
  have low: "\<not> bit (d ! 0) k" if "k < 18" for k
    using assms(1) that by (simp add: reserved_clear_def block_bit_def)
  fix w k :: nat assume "w < length d" and k: "k < 64"
  then have w: "w < 7" using d by simp
  show "bit (d' ! w) k =
      (if 190 \<le> 64 * w + k \<and> 64 * w + k < 190 + 86 then entry_bits l a s (64 * w + k - 190)
       else bit (d ! w) k)"
    by (rule less_7_cases [OF w]; use assms(2) d low k in
      \<open>auto simp: entry_simps add.commute [of k] split: if_splits; arith\<close>)
qed

lemma set_entry_3:
  assumes "reserved_clear d" "me6_set_sgl_entry d 3 a s l = Some d'"
  shows "field_written 276 86 (entry_bits l a s) d d'"
proof (rule field_writtenI)
  have d: "length d = 7" using assms(1) by (simp add: reserved_clear_def)
  then show "length d' = length d" using assms(2) by (auto simp: me6_set_sgl_entry_def Let_def)
  have low: "\<not> bit (d ! 0) k" if "k < 18" for k
    using assms(1) that by (simp add: reserved_clear_def block_bit_def)
  fix w k :: nat assume "w < length d" and k: "k < 64"
  then have w: "w < 7" using d by simp
  show "bit (d' ! w) k =
      (if 276 \<le> 64 * w + k \<and> 64 * w + k < 276 + 86 then entry_bits l a s (64 * w + k - 276)
       else bit (d ! w) k)"
    by (rule less_7_cases [OF w]; use assms(2) d low k in
      \<open>auto simp: entry_simps add.commute [of k] split: if_splits; arith\<close>)
qed

lemma set_entry_4:
  assumes "reserved_clear d" "me6_set_sgl_entry d 4 a s l = Some d'"
  shows "field_written 362 86 (entry_bits l a s) d d'"
proof (rule field_writtenI)
  have d: "length d = 7" using assms(1) by (simp add: reserved_clear_def)
  then show "length d' = length d" using assms(2) by (auto simp: me6_set_sgl_entry_def Let_def)
  have low: "\<not> bit (d ! 0) k" if "k < 18" for k
    using assms(1) that by (simp add: reserved_clear_def block_bit_def)
  fix w k :: nat assume "w < length d" and k: "k < 64"
  then have w: "w < 7" using d by simp
  show "bit (d' ! w) k =
      (if 362 \<le> 64 * w + k \<and> 64 * w + k < 362 + 86 then entry_bits l a s (64 * w + k - 362)
       else bit (d ! w) k)"
    by (rule less_7_cases [OF w]; use assms(2) d low k in
      \<open>auto simp: entry_simps add.commute [of k] split: if_splits; arith\<close>)
qed

lemma set_entry:
  assumes "reserved_clear d" "i < ME6_SGL_ENTRIES"
  obtains d' where "me6_set_sgl_entry d i a s l = Some d'"
    "field_written (entry_offset i) 86 (entry_bits l a s) d d'" "reserved_clear d'"
proof -
  have i: "i \<in> {0, 1, 2, 3, 4}" using assms(2) by auto
  then have "\<exists>d'. me6_set_sgl_entry d i a s l = Some d'"
    by (auto simp: me6_set_sgl_entry_def Let_def)
  then obtain d' where d': "me6_set_sgl_entry d i a s l = Some d'" by blast
  have w: "field_written (entry_offset i) 86 (entry_bits l a s) d d'"
    using set_entry_0 [OF assms(1)] set_entry_1 [OF assms(1)] set_entry_2 [OF assms(1)]
      set_entry_3 [OF assms(1)] set_entry_4 [OF assms(1)] d' i
    by (auto simp: entry_offset_def)
  then have "reserved_clear d'"
    using assms(1) by (auto simp: reserved_clear_def field_written_def entry_offset_def)
  with d' w show thesis by (rule that)
qed

section \<open>The reader\<close>

definition read_field :: "u64 list \<Rightarrow> nat \<Rightarrow> nat \<Rightarrow> 'a::len word" where
  "read_field d off n = horner_sum of_bool 2 (map (block_bit d) [off..<off + n])"

lemma bit_read_field:
  "bit (read_field d off n :: 'a::len word) k \<longleftrightarrow> k < LENGTH('a) \<and> k < n \<and> block_bit d (off + k)"
  by (auto simp: read_field_def bit_horner_sum_bit_word_iff)

definition read_entry :: "u64 list \<Rightarrow> nat \<Rightarrow> bool \<times> u64 \<times> u32" where
  "read_entry d i =
     (block_bit d (entry_offset i), push_bit 2 (read_field d (entry_offset i + 1) 62),
      read_field d (entry_offset i + 63) 23)"

lemma entry_fits: "i < ME6_SGL_ENTRIES \<Longrightarrow> k < 86 \<Longrightarrow> entry_offset i + k < 448"
  by (simp add: entry_offset_def)

lemma read_field_cong:
  "(\<And>k. k < n \<Longrightarrow> block_bit d (off + k) = block_bit d' (off + k))
   \<Longrightarrow> read_field d off n = (read_field d' off n :: 'a::len word)"
  by (rule bit_word_eqI) (auto simp: bit_read_field)

lemma read_entry_cong:
  assumes "\<And>k. k < 86 \<Longrightarrow> block_bit d (entry_offset i + k) = block_bit d' (entry_offset i + k)"
  shows "read_entry d i = read_entry d' i"
proof -
  have "read_field d (entry_offset i + 1) 62 = (read_field d' (entry_offset i + 1) 62 :: u64)"
    by (rule read_field_cong) (use assms [of "1 + k" for k] in \<open>simp add: add.assoc\<close>)
  moreover have "read_field d (entry_offset i + 63) 23 = (read_field d' (entry_offset i + 63) 23 :: u32)"
    by (rule read_field_cong) (use assms [of "63 + k" for k] in \<open>simp add: add.assoc\<close>)
  ultimately show ?thesis using assms [of 0] by (simp add: read_entry_def)
qed

lemma read_written_entry:
  assumes "field_written (entry_offset i) 86 (entry_bits l a s) d d'" "length d = 7"
    "i < ME6_SGL_ENTRIES"
  shows "read_entry d' i = (l, a AND NOT 3, take_bit 23 s)"
proof -
  have b: "block_bit d' (entry_offset i + k) = entry_bits l a s k" if "k < 86" for k
    using assms that entry_fits [of i k] by (simp add: field_written_def)
  have "push_bit 2 (read_field d' (entry_offset i + 1) 62) = a AND NOT (3 :: u64)"
  proof (rule bit_word_eqI)
    fix n assume n: "n < LENGTH(64)"
    have three: "(3 :: u64) = mask 2" by (simp add: mask_eq_exp_minus_1)
    show "bit (push_bit 2 (read_field d' (entry_offset i + 1) 62 :: u64)) n = bit (a AND NOT (3 :: u64)) n"
    proof (cases "2 \<le> n")
      case True
      then obtain m where m: "n = m + 2" by (metis le_Suc_ex add.commute)
      show ?thesis
        using n b [of "m + 1"] unfolding three m
        by (simp add: bit_simps bit_read_field entry_bits_def)
    qed (auto simp: three bit_simps)
  qed
  moreover have "read_field d' (entry_offset i + 63) 23 = take_bit 23 s"
    using b [of "63 + k" for k]
    by (intro bit_word_eqI) (auto simp: bit_simps bit_read_field entry_bits_def add.assoc)
  moreover have "block_bit d' (entry_offset i) = l" using b [of 0] by (simp add: entry_bits_def)
  ultimately show ?thesis by (simp add: read_entry_def)
qed

section \<open>Reading a chain\<close>

text \<open>
  What the board does with a chain: it reads the entries of a block in order, follows the pointer
  after the fifth, and stops at the entry that is flagged as the last one. A pointer without its
  lowest bit is none. \<open>mem\<close> gives the block at a bus address.
\<close>

fun board_reads :: "(u64 \<Rightarrow> me6_sgl option) \<Rightarrow> nat \<Rightarrow> u64 \<Rightarrow> nat \<Rightarrow> (u64 \<times> u32) list option" where
  "board_reads mem 0 a i = None"
| "board_reads mem (Suc fuel) a i =
     (case mem a of
        None \<Rightarrow> None
      | Some b \<Rightarrow>
          (let (lst, pga, sz) = read_entry (sgl_data b) i
           in if lst then Some [(pga, sz)]
              else map_option ((#) (pga, sz))
                (if Suc i < ME6_SGL_ENTRIES then board_reads mem fuel a (Suc i)
                 else if sgl_next b AND 1 = 0 then None
                 else board_reads mem fuel (push_bit 1 (sgl_next b) AND NOT 3) 0)))"

text \<open>The bytes an encoded size stands for, zero being the largest value of a field.\<close>

definition field_or_max :: "nat \<Rightarrow> nat \<Rightarrow> nat" where
  "field_or_max n v = (if v = 0 then 2 ^ n else v)"

definition decode_size :: "u64 \<Rightarrow> u32 \<Rightarrow> u32 \<Rightarrow> nat" where
  "decode_size addr payload sz =
     (let n = field_or_max 15 (unat (sz AND 0x7fff));
          l = 4 * field_or_max 8 (unat (drop_bit 15 sz AND 0xff))
      in if n = 1 then l
         else (unat payload - unat (addr AND 0xfff) mod unat payload) + (n - 2) * unat payload + l)"

section \<open>The chain the driver builds\<close>

definition link_to :: "u64 \<Rightarrow> u64" where
  "link_to a = drop_bit 1 a OR 1"

lemma link_to_back:
  assumes "a AND 3 = 0"
  shows "push_bit 1 (link_to a) AND NOT 3 = a" "link_to a AND 1 \<noteq> 0"
proof -
  have three: "(3 :: u64) = mask 2" by (simp add: mask_eq_exp_minus_1)
  have low: "\<not> bit a n" if "n < 2" for n
    using assms that by (auto simp: three bit_eq_iff bit_simps dest: spec [of _ n])
  show "push_bit 1 (link_to a) AND NOT 3 = a"
  proof (rule bit_word_eqI)
    fix n assume n: "n < LENGTH(64)"
    have "bit (push_bit 1 (link_to a) AND NOT 3) n
        \<longleftrightarrow> (1 \<le> n \<and> n < 64 \<and> bit (link_to a) (n - 1)) \<and> \<not> n < 2"
      unfolding three by (simp only: bit_and_iff bit_push_bit_iff bit_not_iff) (use n in \<open>auto simp: bit_simps\<close>)
    also have "\<dots> \<longleftrightarrow> bit a n"
    proof (cases "n < 2")
      case False
      then show ?thesis using n by (auto simp: link_to_def bit_or_iff bit_drop_bit_eq bit_1_iff)
    qed (use low in simp)
    finally show "bit (push_bit 1 (link_to a) AND NOT 3) n = bit a n" .
  qed
  show "link_to a AND 1 \<noteq> 0"
    by (auto simp: link_to_def bit_eq_iff bit_simps intro!: exI [of _ 0])
qed

fun linked :: "(nat \<Rightarrow> u64 option) \<Rightarrow> nat \<Rightarrow> me6_sgl list \<Rightarrow> bool" where
  "linked p n [] = False"
| "linked p n [b] = (sgl_next b = 0)"
| "linked p n (b # c # bs) =
     ((\<exists>a. p (Suc n) = Some a \<and> sgl_next b = link_to a) \<and> linked p (Suc n) (c # bs))"

end
