(* ===== verification/Sgl_Chain.thy ===== *)
theory Sgl_Chain
  imports Sgl_Spec
begin

text \<open>
  The scatter-gather list of a buffer: what the sizes stand for, how the blocks are linked and
  freed, and what the board reads when it follows the chain.
\<close>

section \<open>Sizes\<close>

lemma field_or_max_take_bit:
  "0 < v \<Longrightarrow> v \<le> 2 ^ n \<Longrightarrow> field_or_max n (v mod 2 ^ n) = v"
  by (cases "v = 2 ^ n") (auto simp: field_or_max_def)

definition pack_size :: "u32 \<Rightarrow> u32 \<Rightarrow> u32" where
  "pack_size n l = (n AND 0x7fff) OR push_bit 15 (l AND 0xff)"

lemma mask_15_8: "(0x7fff :: u32) = mask 15" "(0xff :: u32) = mask 8"
  by (simp_all add: mask_eq_exp_minus_1)

lemma pack_size_count: "pack_size n l AND 0x7fff = n AND 0x7fff"
  unfolding pack_size_def mask_15_8 by (intro bit_word_eqI) (auto simp: bit_simps)

lemma pack_size_last: "drop_bit 15 (pack_size n l) AND 0xff = l AND 0xff"
  unfolding pack_size_def mask_15_8 by (intro bit_word_eqI) (auto simp: bit_simps)

lemma pack_size_23: "take_bit 23 (pack_size n l) = pack_size n l"
  unfolding pack_size_def mask_15_8 by (intro bit_word_eqI) (auto simp: bit_simps)

lemma decode_pack_size:
  assumes "0 < n" "n \<le> 0x8000" "0 < l" "l \<le> 0x100"
  shows "decode_size a p (pack_size n l) =
    (if n = 1 then 4 * unat l
     else (unat p - unat (a AND 0xfff) mod unat p) + (unat n - 2) * unat p + 4 * unat l)"
proof -
  have "field_or_max 15 (unat (n AND 0x7fff)) = unat n"
    using assms(1,2) unfolding mask_15_8 unat_and_mask
    by (intro field_or_max_take_bit) (auto simp: word_less_nat_alt word_le_nat_alt)
  moreover have "field_or_max 8 (unat (l AND 0xff)) = unat l"
    using assms(3,4) unfolding mask_15_8 unat_and_mask
    by (intro field_or_max_take_bit) (auto simp: word_less_nat_alt word_le_nat_alt)
  moreover have "unat n = 1 \<longleftrightarrow> n = 1" by (simp add: word_unat_eq_iff)
  ultimately show ?thesis by (simp add: decode_size_def pack_size_count pack_size_last)
qed

text \<open>The split of \<^verbatim>\<open>me6_sgl_size\<close> over the natural numbers.\<close>

definition transfers :: "nat \<Rightarrow> nat \<Rightarrow> nat \<Rightarrow> nat \<times> nat" where
  "transfers off n p =
     (let f = p - off mod p
      in if n \<le> f then (1, n)
         else let m = n - f in if m mod p = 0 then (1 + m div p, p) else (2 + m div p, m mod p))"

lemma transfers_sum:
  assumes "0 < p" "0 < n" "transfers off n p = (k, l)"
  shows "0 < k" "0 < l" "k = 1 \<Longrightarrow> l = n" "k \<noteq> 1 \<Longrightarrow> (p - off mod p) + (k - 2) * p + l = n"
proof -
  let ?f = "p - off mod p" and ?m = "n - (p - off mod p)"
  have "?m mod p = 0 \<Longrightarrow> n > ?f \<Longrightarrow> ?f + (?m div p - 1) * p + p = n"
  proof -
    assume a: "?m mod p = 0" "n > ?f"
    then have "?m div p * p = ?m" by auto
    moreover have "?m div p \<noteq> 0" using a by (metis calculation mult_0 zero_less_diff not_less0)
    ultimately show ?thesis using a(2) by (cases "?m div p") auto
  qed
  moreover have "n > ?f \<Longrightarrow> ?f + ?m div p * p + ?m mod p = n" by simp
  ultimately show "0 < k" "0 < l" "k = 1 \<Longrightarrow> l = n" "k \<noteq> 1 \<Longrightarrow> (p - off mod p) + (k - 2) * p + l = n"
    using assms by (auto simp: transfers_def Let_def split: if_splits)
qed


lemma transfers_le: "0 < p \<Longrightarrow> transfers off n p = (k, l) \<Longrightarrow> l \<le> p"
  by (auto simp: transfers_def Let_def less_imp_le split: if_splits)

lemma sgl_size_cases:
  assumes "4 \<le> p"
  obtains k l where "transfers (unat off) (unat n) (unat p) = (unat k, unat l)"
    "me6_sgl_size off n p =
       (if k > 0x8000 \<or> l div 4 > 0x100 then None else Some (pack_size k (l div 4)))"
proof -
  define o' :: u32 where "o' = ucast off"
  define f where "f = (if o' mod p = 0 then p else p - o' mod p)"
  define m where "m = n - f"
  define k where "k = (if n \<le> f then 1 else if m mod p = 0 then 1 + m div p else 1 + m div p + 1)"
  define l where "l = (if n \<le> f then n else if m mod p = 0 then p else m mod p)"
  have sz: "me6_sgl_size off n p =
      (if k > 0x8000 \<or> l div 4 > 0x100 then None else Some (pack_size k (l div 4)))"
    by (simp add: me6_sgl_size_def Let_def o'_def [symmetric] f_def [symmetric] m_def
        [symmetric] k_def l_def pack_size_def)
  have p: "4 \<le> unat p" using assms by (simp add: word_le_nat_alt)
  have o': "unat o' = unat off"
    by (simp add: o'_def unsigned_ucast_eq take_bit_eq_mod less_trans [OF unsigned_less])
  have "unat (o' mod p) < unat p" using p by (simp add: unat_mod_u32)
  then have f: "unat f = unat p - unat off mod unat p"
    using p by (auto simp: f_def unat_sub_u32 unat_mod_u32 o' word_unat_eq_iff)
  have m: "unat m = unat n - unat f" if "\<not> n \<le> f"
    using that by (simp add: m_def unat_sub_u32 word_le_nat_alt)
  have "unat m div unat p < 4294967294"
    using p unat_u32_bound [of m] div_le_mono2 [OF _ p, of "unat m"] by linarith
  then have d: "unat (1 + m div p) = 1 + unat m div unat p" "unat (1 + m div p + 1) = 2 + unat m div unat p"
    by (simp_all add: unat_word_ariths unat_div)
  have "transfers (unat off) (unat n) (unat p) = (unat k, unat l)"
    using f m d by (auto simp: transfers_def Let_def k_def l_def word_le_nat_alt unat_mod_u32
        word_unat_eq_iff)
  with sz show thesis using that by blast
qed

lemma sgl_size_transfers:
  assumes "4 \<le> p" "me6_sgl_size off n p = Some sz"
  obtains k l where "transfers (unat off) (unat n) (unat p) = (unat k, unat l)"
    "sz = pack_size k (l div 4)" "k \<le> 0x8000" "l div 4 \<le> 0x100"
proof -
  obtain k l where "transfers (unat off) (unat n) (unat p) = (unat k, unat l)"
    "me6_sgl_size off n p =
       (if k > 0x8000 \<or> l div 4 > 0x100 then None else Some (pack_size k (l div 4)))"
    by (rule sgl_size_cases [OF assms(1)])
  with assms(2) that show thesis by (auto simp: not_less split: if_splits)
qed

lemma sgl_size_decode:
  assumes "me6_sgl_size (ucast (a AND 0xfff)) n p = Some sz"
    and "4 dvd unat p" "p \<noteq> 0" "4 dvd unat n" "n \<noteq> 0" "a AND 3 = 0"
  shows "decode_size a p sz = unat n" "take_bit 23 sz = sz"
proof -
  let ?off = "ucast (a AND 0xfff) :: u16"
  have p: "0 < unat p" "4 \<le> p"
    using assms(2,3) dvd_imp_le [of 4 "unat p"] by (auto simp: word_le_nat_alt unat_gt_0)
  obtain k l where kl: "transfers (unat ?off) (unat n) (unat p) = (unat k, unat l)"
    "sz = pack_size k (l div 4)" "k \<le> 0x8000" "l div 4 \<le> 0x100"
    using sgl_size_transfers [OF p(2) assms(1)] .
  have o1: "unat ?off = unat (a AND 0xfff)"
  proof -
    have "(0xfff :: u64) = mask 12" by (simp add: mask_eq_exp_minus_1)
    then have "unat (a AND 0xfff) < 2 ^ 12"
      using unat_and_mask [of a 12] by (simp only:) simp
    then show ?thesis by (simp add: unsigned_ucast_eq take_bit_eq_mod)
  qed
  have o2: "4 dvd unat (a AND 0xfff)"
  proof -
    have "(3 :: u64) = mask 2" by (simp add: mask_eq_exp_minus_1)
    then have "take_bit 2 a = 0" using assms(6) by (simp add: take_bit_eq_mask)
    then have "take_bit 2 (a AND 0xfff) = 0" by (simp add: take_bit_and)
    then have "take_bit 2 (unat (a AND 0xfff)) = 0" by (metis unsigned_take_bit_eq unsigned_0)
    then show ?thesis unfolding take_bit_eq_mod by (simp add: mod_eq_0_iff_dvd)
  qed
  note s = transfers_sum [OF p(1) _ kl(1)]
  have n: "0 < unat n" using assms(5) by (simp add: unat_gt_0)
  have m4: "4 dvd (unat n - (unat p - unat (a AND 0xfff) mod unat p))"
    using assms(2,4) o2 by (intro dvd_diff_nat dvd_mod)
  have l4: "4 dvd unat l"
    using kl(1) assms(2,4) dvd_mod [OF m4 assms(2)] unfolding o1
    by (auto simp: transfers_def Let_def split: if_splits)
  then have l: "4 * unat (l div 4) = unat l" by (simp add: unat_div)
  then have "0 < l div 4" "0 < k" using s(1,2) [OF n] by (auto simp: word_less_nat_alt)
  from decode_pack_size [OF this(2) kl(3) this(1) kl(4)] l s(3,4) [OF n]
  show "decode_size a p sz = unat n"
    unfolding kl(2) o1 by (auto simp: word_unat_eq_iff)
  show "take_bit 23 sz = sz" unfolding kl(2) by (rule pack_size_23)
qed

section \<open>The chain as the driver writes it\<close>

definition entry_len :: "u64 \<Rightarrow> u32 \<Rightarrow> u32" where
  "entry_len r sglen = (if ucast sglen > r then ucast r else sglen)"

text \<open>One entry of the buffer: the last one, out of memory, a new block, or room left.\<close>

lemma fill_chain_Cons:
  assumes "fill_chain al p full cur e r ((a, sl) # sgs) = Some (ok, chain)"
  obtains sz d where
    "me6_sgl_size (ucast (a AND 0xfff)) (entry_len r sl) p = Some sz"
    "me6_set_sgl_entry (sgl_data cur) e a sz (sgs = []) = Some d"
    "sgs = [] \<and> ok \<and> chain = full @ [cur\<lparr>sgl_data := d\<rparr>]
     \<or> sgs \<noteq> [] \<and> Suc e = ME6_SGL_ENTRIES \<and> \<not> ok \<and> chain = full @ [cur\<lparr>sgl_data := d\<rparr>]
     \<or> sgs \<noteq> [] \<and> Suc e = ME6_SGL_ENTRIES
        \<and> (\<exists>b. pool al (Suc (length full)) = Some b
           \<and> fill_chain al p (full @ [cur\<lparr>sgl_data := d, sgl_next := link_to b\<rparr>]) zero_sgl 0
               (r - ucast (entry_len r sl)) sgs = Some (ok, chain))
     \<or> sgs \<noteq> [] \<and> Suc e \<noteq> ME6_SGL_ENTRIES
        \<and> fill_chain al p full (cur\<lparr>sgl_data := d\<rparr>) (Suc e) (r - ucast (entry_len r sl)) sgs
            = Some (ok, chain)"
  using assms that
  by (cases "sgs = []") (auto simp: entry_len_def [symmetric] Let_def link_to_def split: option.splits if_splits)

lemma fill_chain_linked:
  "fill_chain al p full cur e r sgs = Some (ok, chain) \<Longrightarrow> sgl_next cur = 0
   \<Longrightarrow> \<exists>tail. chain = full @ tail \<and> linked (pool al) (length full) tail"
proof (induction sgs arbitrary: full cur e r)
  case Nil
  then show ?case by auto
next
  case (Cons s sgs)
  obtain a sl where s: "s = (a, sl)" by (cases s)
  from Cons.prems(1) [unfolded s] show ?case
  proof (cases rule: fill_chain_Cons)
    case (1 sz d)
    then consider "chain = full @ [cur\<lparr>sgl_data := d\<rparr>]"
      | b where "pool al (Suc (length full)) = Some b"
        "fill_chain al p (full @ [cur\<lparr>sgl_data := d, sgl_next := link_to b\<rparr>]) zero_sgl 0
               (r - ucast (entry_len r sl)) sgs = Some (ok, chain)"
      | "fill_chain al p full (cur\<lparr>sgl_data := d\<rparr>) (Suc e) (r - ucast (entry_len r sl)) sgs
            = Some (ok, chain)"
      by blast
    then show ?thesis
    proof cases
      case 2
      from Cons.IH [OF 2(2)] obtain tail where
        t: "chain = full @ cur\<lparr>sgl_data := d, sgl_next := link_to b\<rparr> # tail"
        "linked (pool al) (Suc (length full)) tail"
        by (auto simp: zero_sgl_def)
      with 2(1) have "linked (pool al) (length full) (cur\<lparr>sgl_data := d, sgl_next := link_to b\<rparr> # tail)"
        by (cases tail) auto
      with t(1) show ?thesis by blast
    next
      case 3
      from Cons.IH [OF 3] Cons.prems(2) show ?thesis by simp
    qed (use Cons.prems(2) in simp)
  qed
qed

section \<open>Freeing\<close>

definition addrs_ok :: "(nat \<Rightarrow> u64 option) \<Rightarrow> bool" where
  "addrs_ok p \<longleftrightarrow> (\<forall>n a. p n = Some a \<longrightarrow> a \<noteq> 0 \<and> a AND 3 = 0)
     \<and> (\<forall>m n a. p m = Some a \<longrightarrow> p n = Some a \<longrightarrow> m = n)"

lemma free_link:
  assumes "sgl_next res = link_to a" "a AND 3 = 0"
  shows "me6_free_sgl dma (res # chain) = (if dma = a then [] else (res, dma) # me6_free_sgl a chain)"
  unfolding me6_free_sgl.simps Let_def assms(1) link_to_back(1) [OF assms(2)] ..

lemma free_linked:
  "linked p n chain \<Longrightarrow> p n = Some dma \<Longrightarrow> addrs_ok p
   \<Longrightarrow> map fst (me6_free_sgl dma chain) = chain
     \<and> map (Some \<circ> snd) (me6_free_sgl dma chain) = map p [n..<n + length chain]"
proof (induction p n chain arbitrary: dma rule: linked.induct)
  case (2 p n b)
  then show ?case by (auto simp: addrs_ok_def)
next
  case (3 p n b c bs)
  then obtain a where a: "p (Suc n) = Some a" "sgl_next b = link_to a" by auto
  then have "a AND 3 = 0" "dma \<noteq> a"
    using 3(3,4) n_not_Suc_n [of n] unfolding addrs_ok_def by metis+
  with 3(1) [OF _ a(1) 3(4)] 3(2) a 3(3) show ?case
    by (simp add: free_link upt_conv_Cons del: me6_free_sgl.simps upt_Suc)
qed simp

section \<open>What the board reads\<close>

lemma entry_bits_below:
  assumes "field_written (entry_offset e) 86 v d d'" "length d = 7" "n < entry_offset e" "e < ME6_SGL_ENTRIES"
  shows "block_bit d' n = block_bit d n"
  using assms by (auto simp: field_written_def entry_offset_def)

lemma reserved_clear_zero: "reserved_clear (sgl_data zero_sgl)"
  by (auto simp: reserved_clear_def zero_sgl_def block_bit_def)

text \<open>
  The blocks from the current one on: the entries before \<open>e\<close> stay as they are, and the board
  that reads on at entry \<open>e\<close> gets the rest of the buffer.
\<close>

definition sg_ok :: "u64 \<times> u32 \<Rightarrow> bool" where
  "sg_ok s \<longleftrightarrow> fst s AND 3 = 0 \<and> snd s \<noteq> 0 \<and> 4 dvd unat (snd s)"

fun entries_of :: "u32 \<Rightarrow> u64 \<Rightarrow> (u64 \<times> u32) list \<Rightarrow> (u64 \<times> u32) list" where
  "entries_of p r [] = []"
| "entries_of p r ((a, sl) # sgs) =
     (a AND NOT 3, take_bit 23 (the (me6_sgl_size (ucast (a AND 0xfff)) (entry_len r sl) p)))
     # entries_of p (r - ucast (entry_len r sl)) sgs"

lemma board_reads_chain:
  assumes "fill_chain al p full cur e r sgs = Some (True, chain)" "sgs \<noteq> []"
    "e < ME6_SGL_ENTRIES" "reserved_clear (sgl_data cur)" "addrs_ok (pool al)"
    "\<And>n. length full \<le> n \<Longrightarrow> n < length chain \<Longrightarrow> mem (the (pool al n)) = Some (chain ! n)"
  shows "length full < length chain
    \<and> (\<forall>n < entry_offset e. block_bit (sgl_data (chain ! length full)) n = block_bit (sgl_data cur) n)
    \<and> board_reads mem (length sgs) (the (pool al (length full))) e = Some (entries_of p r sgs)"
  using assms
proof (induction sgs arbitrary: full cur e r)
  case (Cons s sgs)
  obtain a sl where s: "s = (a, sl)" by (cases s)
  let ?here = "the (pool al (length full))"
  from Cons.prems(1) [unfolded s] show ?case
  proof (cases rule: fill_chain_Cons)
    case (1 sz d)
    have lc: "length (sgl_data cur) = 7" using Cons.prems(4) by (simp add: reserved_clear_def)
    obtain w: "field_written (entry_offset e) 86 (entry_bits (sgs = []) a sz) (sgl_data cur) d"
      and d: "reserved_clear d"
      using set_entry [OF Cons.prems(4,3), of a sz "sgs = []"] 1(2) by (metis option.inject)
    have rd: "read_entry d e = (sgs = [], a AND NOT 3, take_bit 23 sz)"
      by (rule read_written_entry [OF w lc Cons.prems(3)])
    have below: "block_bit d n = block_bit (sgl_data cur) n" if "n < entry_offset e" for n
      by (rule entry_bits_below [OF w lc that Cons.prems(3)])
    have same: "read_entry (sgl_data b) e = read_entry d e"
      if "\<forall>n < entry_offset (Suc e). block_bit (sgl_data b) n = block_bit d n" for b
      using that by (intro read_entry_cong) (simp add: entry_offset_def)
    from 1(3) consider (last) "sgs = []" "chain = full @ [cur\<lparr>sgl_data := d\<rparr>]"
      | (block) b where "sgs \<noteq> []" "Suc e = ME6_SGL_ENTRIES" "pool al (Suc (length full)) = Some b"
        "fill_chain al p (full @ [cur\<lparr>sgl_data := d, sgl_next := link_to b\<rparr>]) zero_sgl 0
               (r - ucast (entry_len r sl)) sgs = Some (True, chain)"
      | (room) "sgs \<noteq> []" "Suc e \<noteq> ME6_SGL_ENTRIES"
        "fill_chain al p full (cur\<lparr>sgl_data := d\<rparr>) (Suc e) (r - ucast (entry_len r sl)) sgs
            = Some (True, chain)"
      by blast
    then show ?thesis
    proof cases
      case last
      then have "mem ?here = Some (cur\<lparr>sgl_data := d\<rparr>)" using Cons.prems(6) [of "length full"] by simp
      with last below rd 1(1) show ?thesis by (simp add: s)
    next
      case block
      let ?b = "cur\<lparr>sgl_data := d, sgl_next := link_to b\<rparr>"
      have ih: "length (full @ [?b]) < length chain
        \<and> board_reads mem (length sgs) b 0 = Some (entries_of p (r - ucast (entry_len r sl)) sgs)"
        using Cons.IH [OF block(4,1) _ reserved_clear_zero Cons.prems(5)] Cons.prems(6) block(3) by simp
      obtain tail where t: "chain = full @ ?b # tail"
        using fill_chain_linked [OF block(4)] by (auto simp: zero_sgl_def)
      have m: "mem ?here = Some ?b" using Cons.prems(6) [of "length full"] t by simp
      have b3: "b AND 3 = 0" using Cons.prems(5) block(3) by (auto simp: addrs_ok_def)
      have "board_reads mem (Suc (length sgs)) ?here e
        = map_option ((#) (a AND NOT 3, take_bit 23 sz)) (board_reads mem (length sgs) b 0)"
        unfolding board_reads.simps(2) m using block(1,2) rd link_to_back [OF b3] by simp
      with ih block(1) below 1(1) t show ?thesis by (simp add: s)
    next
      case room
      then have e: "Suc e < ME6_SGL_ENTRIES" using Cons.prems(3) by simp
      have ih: "length full < length chain
        \<and> (\<forall>n < entry_offset (Suc e). block_bit (sgl_data (chain ! length full)) n = block_bit d n)
        \<and> board_reads mem (length sgs) ?here (Suc e) = Some (entries_of p (r - ucast (entry_len r sl)) sgs)"
        using Cons.IH [OF room(3,1) e _ Cons.prems(5,6)] d by simp
      then have m: "mem ?here = Some (chain ! length full)" using Cons.prems(6) by simp
      have "read_entry (sgl_data (chain ! length full)) e = (False, a AND NOT 3, take_bit 23 sz)"
        using same [of "chain ! length full"] ih rd room(1) by simp
      then have "board_reads mem (Suc (length sgs)) ?here e
        = Some ((a AND NOT 3, take_bit 23 sz) # entries_of p (r - ucast (entry_len r sl)) sgs)"
        unfolding board_reads.simps(2) m using e ih by simp
      moreover have "\<forall>n < entry_offset e. block_bit (sgl_data (chain ! length full)) n = block_bit (sgl_data cur) n"
        using ih below by (simp add: entry_offset_def)
      ultimately show ?thesis using ih 1(1) by (simp add: s)
    qed
  qed
qed simp

section \<open>Buffers\<close>

lemma entry_len_fits: "unat sl \<le> unat r \<Longrightarrow> entry_len r sl = sl"
  by (simp add: entry_len_def word_less_nat_alt unat_ucast_u32)

lemma and_not_3: "(a :: u64) AND 3 = 0 \<Longrightarrow> a AND NOT 3 = a"
proof (rule bit_word_eqI)
  fix n assume "a AND 3 = 0"
  then have "bit (a AND 3) n = bit (0 :: u64) n" by (rule arg_cong)
  then show "bit (a AND NOT 3) n = bit a n" if "n < LENGTH(64)"
    using that by (simp only: bit_and_iff bit_not_iff bit_0) auto
qed

lemma entries_of_decode:
  assumes "fill_chain al p full cur e r sgs = Some (True, chain)"
    "\<forall>s \<in> set sgs. sg_ok s" "sum_list (map (unat \<circ> snd) sgs) \<le> unat r" "4 dvd unat p" "p \<noteq> 0"
  shows "map (\<lambda>(a, sz). (a, decode_size a p sz)) (entries_of p r sgs) = map (\<lambda>(a, l). (a, unat l)) sgs"
  using assms(1-3)
proof (induction sgs arbitrary: full cur e r)
  case (Cons s sgs)
  obtain a sl where s: "s = (a, sl)" by (cases s)
  have ok: "a AND 3 = 0" "sl \<noteq> 0" "4 dvd unat sl" using Cons.prems(2) by (auto simp: s sg_ok_def)
  have "unat sl \<le> unat r" using Cons.prems(3) by (simp add: s)
  then have sl: "entry_len r sl = sl" by (simp add: entry_len_fits)
  have r: "unat (r - ucast sl) = unat r - unat sl"
    using \<open>unat sl \<le> unat r\<close> by (simp add: unat_sub_if' unat_ucast_u32)
  obtain sz where sz: "me6_sgl_size (ucast (a AND 0xfff)) sl p = Some sz"
    and later: "sgs \<noteq> [] \<Longrightarrow> \<exists>full cur e. fill_chain al p full cur e (r - ucast sl) sgs = Some (True, chain)"
    using Cons.prems(1) [unfolded s] by (cases rule: fill_chain_Cons) (auto simp: sl)
  have "map (\<lambda>(a, sz). (a, decode_size a p sz)) (entries_of p (r - ucast sl) sgs)
      = map (\<lambda>(a, l). (a, unat l)) sgs"
  proof (cases "sgs = []")
    case False
    from later [OF this] Cons.IH Cons.prems(2,3) show ?thesis by (auto simp: s r)
  qed simp
  then show ?case
    using sgl_size_decode [OF sz assms(4,5) ok(3,2,1)] sz and_not_3 [OF ok(1)] by (simp add: s sl)
qed simp

lemma payload_of_ctrl_ok: "4 dvd unat (payload_of_ctrl c)" "payload_of_ctrl c \<noteq> 0"
proof -
  have "drop_bit 5 (c AND 0xe0) = drop_bit 5 c AND 7"
    by (simp add: drop_bit_and)
  also have "\<dots> \<le> 7" by (rule word_and_le1)
  finally have "unat (drop_bit 5 (c AND 0xe0)) \<le> 7" by (simp add: word_le_nat_alt)
  then have "unat (drop_bit 5 (c AND 0xe0)) \<in> {0,1,2,3,4,5,6,7}" by auto
  then show "4 dvd unat (payload_of_ctrl c)" "payload_of_ctrl c \<noteq> 0"
    unfolding payload_of_ctrl_def by auto
qed


section \<open>Properties\<close>

text \<open>
  C9: the board reads back what the driver wrote. For a buffer of word-aligned pieces whose lengths
  add up to the buffer's, the chain that \<^verbatim>\<open>me6_create_userbuf\<close> builds, followed from its first
  block with at most one step per piece, gives the pieces with their addresses and byte counts, in
  order, and ends at the last of them.
\<close>

theorem userbuf_chain_is_read_back:
  assumes "me6_create_userbuf al ctrl buf_length sgs = Some (Userbuf_created dma chain)"
    and "sgs \<noteq> []" "\<forall>s \<in> set sgs. sg_ok s" "sum_list (map (unat \<circ> snd) sgs) = unat buf_length"
    and "addrs_ok (pool al)"
    and "\<forall>n < length chain. mem (the (pool al n)) = Some (chain ! n)"
  shows "map_option (map (\<lambda>(a, sz). (a, decode_size a (payload_of_ctrl ctrl) sz)))
      (board_reads mem (length sgs) dma 0) = Some (map (\<lambda>(a, l). (a, unat l)) sgs)"
proof -
  from assms(1) have dma: "pool al 0 = Some dma"
    and fc: "fill_chain al (payload_of_ctrl ctrl) [] zero_sgl 0 buf_length sgs = Some (True, chain)"
    by (auto simp: me6_create_userbuf_def split: option.splits if_splits)
  have "board_reads mem (length sgs) dma 0 = Some (entries_of (payload_of_ctrl ctrl) buf_length sgs)"
    using board_reads_chain [OF fc assms(2) _ reserved_clear_zero assms(5)] assms(6) dma by simp
  with entries_of_decode [OF fc assms(3) _ payload_of_ctrl_ok] assms(4) show ?thesis by simp
qed

definition demo_alloc :: sgl_alloc where
  "demo_alloc = \<lparr>node_ok = (\<lambda>_. True), pool = (\<lambda>n. if n < 16 then Some (of_nat n * 64 + 64) else None)\<rparr>"

definition demo_sgs :: "(u64 \<times> u32) list" where
  "demo_sgs = [(0x1010, 4080), (0x5000, 4096), (0x9000, 4096), (0xd000, 4096), (0x11000, 4096), (0x90000, 16)]"

definition demo_result :: "userbuf_result option" where
  "demo_result = me6_create_userbuf demo_alloc 0x20 20480 demo_sgs"

lemma demo_addrs: "addrs_ok (pool demo_alloc)"
proof -
  have "a \<noteq> 0 \<and> a AND 3 = 0" if "pool demo_alloc n = Some a" for n a
  proof -
    have "n \<in> set [0..<16]" "a = of_nat n * 64 + 64" using that by (auto simp: demo_alloc_def split: if_splits)
    then show ?thesis by (auto simp: upt_rec)
  qed
  moreover have "m = n" if "pool demo_alloc m = Some a" "pool demo_alloc n = Some a" for m n a
  proof -
    have mn: "m < 16" "n < 16" "(of_nat m * 64 + 64 :: u64) = of_nat n * 64 + 64"
      using that by (auto simp: demo_alloc_def split: if_splits)
    then have "(of_nat (m * 64) :: u64) = of_nat (n * 64)" by simp
    then have "unat (of_nat (m * 64) :: u64) = unat (of_nat (n * 64) :: u64)" by (rule arg_cong)
    with mn(1,2) show ?thesis by (simp only: unat_of_nat) (simp add: take_bit_eq_mod)
  qed
  ultimately show ?thesis unfolding addrs_ok_def by blast
qed

lemma demo_created:
  obtains b c where "demo_result = Some (Userbuf_created 64 [b, c])"
proof -
  have "case demo_result of Some (Userbuf_created d [b, c]) \<Rightarrow> d = 64 | _ \<Rightarrow> False"
    by code_simp
  then show thesis using that by (auto split: option.splits userbuf_result.splits list.splits)
qed

theorem userbuf_chain_is_read_back_witness:
  "\<exists>b c. map_option (map (\<lambda>(a, sz). (a, decode_size a (payload_of_ctrl 0x20) sz)))
      (board_reads (\<lambda>a. if a = 64 then Some b else Some c) 6 64 0)
    = Some [(0x1010, 4080), (0x5000, 4096), (0x9000, 4096), (0xd000, 4096), (0x11000, 4096), (0x90000, 16)]"
proof -
  obtain b c where r: "me6_create_userbuf demo_alloc 0x20 20480 demo_sgs = Some (Userbuf_created 64 [b, c])"
    using demo_created by (auto simp: demo_result_def)
  have "\<forall>n < length [b, c]. (if the (pool demo_alloc n) = 64 then Some b else Some c) = Some ([b, c] ! n)"
    by (auto simp: demo_alloc_def less_Suc_eq)
  with userbuf_chain_is_read_back [OF r, of "\<lambda>a. if a = 64 then Some b else Some c"] demo_addrs
  have "map_option (map (\<lambda>(a, sz). (a, decode_size a (payload_of_ctrl 0x20) sz)))
      (board_reads (\<lambda>a. if a = 64 then Some b else Some c) (length demo_sgs) 64 0)
    = Some (map (\<lambda>(a, l). (a, unat l)) demo_sgs)"
    by (simp add: demo_sgs_def sg_ok_def del: board_reads.simps)
  moreover have "length demo_sgs = 6" by (simp add: demo_sgs_def)
  moreover have "map (\<lambda>(a, l). (a, unat l)) demo_sgs
      = [(0x1010, 4080), (0x5000, 4096), (0x9000, 4096), (0xd000, 4096), (0x11000, 4096), (0x90000, 16)]"
    by (simp add: demo_sgs_def)
  ultimately have "map_option (map (\<lambda>(a, sz). (a, decode_size a (payload_of_ctrl 0x20) sz)))
      (board_reads (\<lambda>a. if a = 64 then Some b else Some c) 6 64 0)
    = Some [(0x1010, 4080), (0x5000, 4096), (0x9000, 4096), (0xd000, 4096), (0x11000, 4096), (0x90000, 16)]"
    by (simp only:)
  then show ?thesis by (intro exI)
qed

text \<open>
  C10: freeing gives every block of the chain back to the pool once, in order, each with the bus
  address it was allocated with, which the driver only finds in the block before; so it is for the
  blocks that were allocated before memory ran out.
\<close>

theorem userbuf_free_returns_every_block:
  assumes "addrs_ok (pool al)"
    and "me6_create_userbuf al ctrl buf_length sgs = Some res"
  shows "case res of
      Userbuf_created dma chain \<Rightarrow> map fst (me6_free_sgl dma chain) = chain
        \<and> map (Some \<circ> snd) (me6_free_sgl dma chain) = map (pool al) [0..<length chain]
    | Userbuf_nomem freed \<Rightarrow> map (Some \<circ> snd) freed = map (pool al) [0..<length freed]"
proof (cases "pool al 0")
  case (Some dma)
  with assms(2) obtain ok chain where
    fc: "fill_chain al (payload_of_ctrl ctrl) [] zero_sgl 0 buf_length sgs = Some (ok, chain)"
    and res: "res = (if ok then Userbuf_created dma chain else Userbuf_nomem (me6_free_sgl dma chain))"
    by (auto simp: me6_create_userbuf_def)
  have "linked (pool al) 0 chain" using fill_chain_linked [OF fc] by (simp add: zero_sgl_def)
  from free_linked [OF this Some assms(1)] have f:
    "map fst (me6_free_sgl dma chain) = chain"
    "map (Some \<circ> snd) (me6_free_sgl dma chain) = map (pool al) [0..<length chain]" by simp_all
  from f(1) have "length (me6_free_sgl dma chain) = length chain" by (metis length_map)
  with f res show ?thesis by (auto simp del: me6_free_sgl.simps)
next
  case None
  with assms(2) show ?thesis by (auto simp: me6_create_userbuf_def)
qed

theorem userbuf_free_returns_every_block_witness:
  "\<exists>b c. demo_result = Some (Userbuf_created 64 [b, c])
    \<and> map fst (me6_free_sgl 64 [b, c]) = [b, c]
    \<and> map (Some \<circ> snd) (me6_free_sgl 64 [b, c]) = [Some 64, Some 128]"
proof -
  obtain b c where r: "demo_result = Some (Userbuf_created 64 [b, c])" by (rule demo_created)
  have "[0..<2] = [0, 1::nat]" by (simp add: upt_rec)
  with userbuf_free_returns_every_block [OF demo_addrs r [unfolded demo_result_def]] r
  have "demo_result = Some (Userbuf_created 64 [b, c])
    \<and> map fst (me6_free_sgl 64 [b, c]) = [b, c]
    \<and> map (Some \<circ> snd) (me6_free_sgl 64 [b, c]) = [Some 64, Some 128]"
    by (simp add: demo_alloc_def numeral_2_eq_2 del: me6_free_sgl.simps)
  then show ?thesis by (intro exI)
qed

end
