(* ===== verification/Sgl_Lib.thy ===== *)
theory Sgl_Lib
  imports Sgl
begin

text \<open>
  The two scatter-gather list builders of the portable library: \<^verbatim>\<open>lib/dma/sgl_v2.c\<close>, which joins
  adjacent pieces, and \<^verbatim>\<open>lib/dma/me6_sgl.c\<close>, which describes the fields of an entry by tables, for
  both directions of transfer. Bit positions are natural numbers: they stay below 2048.
  \<open>None\<close> is a shift by the width of the word, which C leaves undefined.
\<close>

section \<open>\<^verbatim>\<open>sgl_v2.c\<close>\<close>

text \<open>
  The loop takes one bit more than the chunk out of the value; it is zero in the last chunk and
  shifted out of the word in the ones before, as the value fits in its field.
\<close>

function set_bits_loop :: "u64 list \<Rightarrow> nat \<Rightarrow> nat \<Rightarrow> u64 \<Rightarrow> u64 list option" where
  "set_bits_loop buf from to val =
     (if from \<le> to then
        let target_idx = from div 64;
            chunk_offset = target_idx * 64;
            chunk_from = from mod 64;
            chunk_to = min 63 (to - chunk_offset);
            bits_in_current_chunk = chunk_to + 1 - chunk_from
        in if bits_in_current_chunk = 64 then None
           else
             let cleared = buf ! target_idx AND NOT (GEN_MASK chunk_from chunk_to);
                 w = cleared OR push_bit chunk_from (GET_BITS val 0 bits_in_current_chunk)
             in set_bits_loop (buf[target_idx := w]) (from + bits_in_current_chunk) to
                  (drop_bit bits_in_current_chunk val)
      else Some buf)"
  by pat_completeness auto
termination
proof (relation "measure (\<lambda>(buf, from, to, val). Suc to - from)", goal_cases)
  case (2 buf fr t v x xa xb xc xd xe)
  have "fr mod 64 \<le> t - fr div 64 * 64"
    using 2(1) unfolding minus_div_mult_eq_mod [symmetric] by (rule diff_le_mono)
  moreover have "fr mod 64 \<le> 63" using mod_less_divisor [of 64 fr] by linarith
  ultimately have "0 < xd" unfolding 2(2-6) by linarith
  with 2(1) show ?case by simp
qed (rule wf_measure)

declare set_bits_loop.simps [simp del]

definition set_bits :: "u64 list \<Rightarrow> nat \<Rightarrow> nat \<Rightarrow> u64 \<Rightarrow> (int \<times> u64 list) option" where
  "set_bits target_buf from to val =
     (let num_bits = to + 1 - from
      in if num_bits = 64 then None
         else if GET_BITS val num_bits 63 \<noteq> 0 then Some (STATUS_ERROR, target_buf)
         else map_option (\<lambda>b. (STATUS_OK, b)) (set_bits_loop target_buf from to val))"

text \<open>The results of the three calls are ignored.\<close>

definition set_sgl_block_entry :: "u64 list \<Rightarrow> nat \<Rightarrow> u64 \<Rightarrow> u64 \<Rightarrow> bool \<Rightarrow> u64 list option" where
  "set_sgl_block_entry d entry_idx page_group_address group_size is_last =
     (let entry_offset = 18 + entry_idx * 86;
          pga_from = entry_offset + 1;
          pga_to = pga_from + 62 - 1;
          grpsize_from = pga_to + 1;
          grpsize_to = grpsize_from + 23 - 1
      in Option.bind (set_bits d entry_offset entry_offset (if is_last then 1 else 0)) (\<lambda>(_, d1).
           Option.bind (set_bits d1 pga_from pga_to page_group_address) (\<lambda>(_, d2).
             map_option snd (set_bits d2 grpsize_from grpsize_to group_size))))"

definition compute_group_size :: "u64 \<Rightarrow> u32 \<Rightarrow> u32 \<Rightarrow> u32" where
  "compute_group_size phys_addr chunk_size pci_payload_size =
     (let aligned_chunk_size = ucast (ucast chunk_size + (phys_addr AND (ucast pci_payload_size - 1))) :: u32;
          payload_count = ((aligned_chunk_size + pci_payload_size - 1) div pci_payload_size) AND 0x7fff;
          l = aligned_chunk_size mod pci_payload_size;
          last_payload_size = ((if l = 0 then l + pci_payload_size else l) div 4) AND 0xff
      in payload_count OR push_bit 15 last_payload_size)"

record men_dma_mem_descriptor =
  physical_address :: u64
  length_of :: u32

text \<open>
  The inner loop of \<^verbatim>\<open>men_create_sgl_v2\<close>: how far the pieces after the given one join on, as the
  joined size and the pieces that are left.
\<close>

fun join_adjacent ::
    "u64 \<Rightarrow> u32 \<Rightarrow> u64 \<Rightarrow> men_dma_mem_descriptor list \<Rightarrow> u64 \<times> men_dma_mem_descriptor list" where
  "join_adjacent phys max_chunk chunk [] = (chunk, [])"
| "join_adjacent phys max_chunk chunk (m # ms) =
     (if physical_address m = phys + chunk \<and> phys + chunk > phys
         \<and> chunk + ucast (length_of m) \<le> ucast max_chunk
      then join_adjacent phys max_chunk (chunk + ucast (length_of m)) ms
      else (chunk, m # ms))"

lemma join_adjacent_shorter: "length (snd (join_adjacent p mx c ms)) \<le> length ms"
  by (induction p mx c ms rule: join_adjacent.induct) auto

text \<open>A piece that leaves its page only makes the driver print a warning.\<close>

function sgl_v2_loop ::
    "u32 \<Rightarrow> (nat \<Rightarrow> u64) \<Rightarrow> nat \<Rightarrow> nat \<Rightarrow> men_dma_mem_descriptor list \<Rightarrow> me6_sgl list
     \<Rightarrow> (nat \<times> me6_sgl list) option" where
  "sgl_v2_loop p phys_of b e [] blocks = Some (b, blocks)"
| "sgl_v2_loop p phys_of b e (m # ms) blocks =
     (let blocks1 = (if e = 0 \<and> b > 0
                     then blocks[b - 1 := (blocks ! (b - 1))\<lparr>sgl_next := drop_bit 1 (phys_of b) OR 1\<rparr>]
                     else blocks);
          (chunk_size, rest) = join_adjacent (physical_address m) (push_bit 15 p) (ucast (length_of m)) ms;
          group_size = compute_group_size (physical_address m) (ucast chunk_size) p
      in case set_sgl_block_entry (sgl_data (blocks1 ! b)) e (drop_bit 2 (physical_address m))
                (ucast group_size) (rest = []) of
           None \<Rightarrow> None
         | Some d \<Rightarrow>
             let e1 = (e + 1) mod 5
             in sgl_v2_loop p phys_of (if e1 = 0 then b + 1 else b) e1 rest
                  (blocks1[b := (blocks1 ! b)\<lparr>sgl_data := d\<rparr>]))"
  by pat_completeness auto
termination
  by (relation "measure (\<lambda>(p, f, b, e, ms, blocks). length ms)")
    (auto dest!: arg_cong [where f = snd] simp: less_Suc_eq_le intro: join_adjacent_shorter
      dest: sym)

text \<open>\<^verbatim>\<open>men_create_sgl_v2\<close>: the number it returns, and the blocks.\<close>

definition men_create_sgl_v2 ::
    "men_dma_mem_descriptor list \<Rightarrow> u32 \<Rightarrow> me6_sgl list \<Rightarrow> (nat \<Rightarrow> u64) \<Rightarrow> (nat \<times> me6_sgl list) option" where
  "men_create_sgl_v2 mem_descriptors pci_payload_size sgl_blocks phys_of =
     map_option (\<lambda>(b, blocks). (b + 1, blocks))
       (sgl_v2_loop pci_payload_size phys_of 0 0 mem_descriptors sgl_blocks)"

section \<open>\<^verbatim>\<open>me6_sgl.c\<close>\<close>

text \<open>
  The table of fields of an entry is chosen by the direction; the C code keeps it behind the
  pointer \<^verbatim>\<open>get_entry_fields_with_values\<close>. A write outside the blocks and a division by a
  transfer size of zero are \<open>None\<close>. \<open>block_bus\<close> gives the bus address of a block, and \<open>data_bus\<close>
  that of an address of the buffer.
\<close>

datatype sgl_direction = Dev2pc | Pc2dev

record men_me6sgl =
  direction :: sgl_direction
  sgl_blocks :: "me6_sgl list"
  first_block_bus_address :: u64
  bits_in_last_transfer_size_field :: nat
  max_pci_transfer_size :: u32
  start_bit_of_first_block_entry :: nat

text \<open>The start bit is a remainder, so it is always below 64.\<close>

function men_set_sgl_block_field :: "nat \<Rightarrow> nat \<Rightarrow> nat \<Rightarrow> u64 \<Rightarrow> u64 list \<Rightarrow> u64 list" where
  "men_set_sgl_block_field arrayItemIdx startBitInArrayItem remainingBits fieldValue d =
     (if remainingBits > 0 \<and> startBitInArrayItem < 64 then
        let bitsInChunk = min remainingBits (64 - startBitInArrayItem);
            endBitInArrayItem = startBitInArrayItem + bitsInChunk - 1
        in men_set_sgl_block_field (arrayItemIdx + 1) 0 (remainingBits - bitsInChunk)
             (drop_bit bitsInChunk fieldValue)
             (d[arrayItemIdx :=
                  SET_BITS (d ! arrayItemIdx) fieldValue startBitInArrayItem endBitInArrayItem])
      else d)"
  by pat_completeness auto
termination
  by (relation "measure (\<lambda>(i, s, r, v, d). r)") auto

declare men_set_sgl_block_field.simps [simp del]

fun set_fields :: "nat \<Rightarrow> (nat \<times> u64) list \<Rightarrow> u64 list \<Rightarrow> u64 list" where
  "set_fields fieldStartBitIdx [] d = d"
| "set_fields fieldStartBitIdx ((numBits, val) # flds) d =
     set_fields (fieldStartBitIdx + numBits) flds
       (men_set_sgl_block_field (fieldStartBitIdx div 64) (fieldStartBitIdx mod 64) numBits val d)"

definition set_block_entry :: "nat \<Rightarrow> nat \<Rightarrow> (nat \<times> u64) list \<Rightarrow> nat \<Rightarrow> u64 list \<Rightarrow> u64 list" where
  "set_block_entry entry_idx entry_size flds first_entry_start_bit_idx d =
     set_fields (first_entry_start_bit_idx + entry_idx * entry_size) flds d"

definition get_fields_with_values_dev2pc :: "u64 \<Rightarrow> u32 \<Rightarrow> bool \<Rightarrow> (nat \<times> u64) list" where
  "get_fields_with_values_dev2pc page_group_address page_group_size is_last_sgl_entry =
     [(1, if is_last_sgl_entry then 1 else 0), (62, drop_bit 2 page_group_address),
      (23, ucast page_group_size)]"

definition get_entry_fields_with_values_pc2dev :: "u64 \<Rightarrow> u32 \<Rightarrow> bool \<Rightarrow> (nat \<times> u64) list" where
  "get_entry_fields_with_values_pc2dev page_group_address page_group_size unused =
     [(62, drop_bit 2 page_group_address), (25, ucast page_group_size)]"

definition get_entry_fields_with_values ::
    "sgl_direction \<Rightarrow> u64 \<Rightarrow> u32 \<Rightarrow> bool \<Rightarrow> (nat \<times> u64) list" where
  "get_entry_fields_with_values dir = (case dir of
      Dev2pc \<Rightarrow> get_fields_with_values_dev2pc
    | Pc2dev \<Rightarrow> get_entry_fields_with_values_pc2dev)"

text \<open>Sizes that do not fit are only reported to the log.\<close>

definition men_generate_page_group_size :: "u64 \<Rightarrow> u32 \<Rightarrow> u32 \<Rightarrow> nat \<Rightarrow> u32" where
  "men_generate_page_group_size offset_in_page data_size_in_bytes num_bytes_per_pci_transfer
     last_field_bits =
     (let p = num_bytes_per_pci_transfer;
          offset_in_pci_chunk = ucast (offset_in_page mod ucast p) :: u32;
          bytes_in_first_chunk = p - offset_in_pci_chunk;
          (num_transfers, num_bytes_in_last_transfer) =
            (if data_size_in_bytes \<le> bytes_in_first_chunk then (1, data_size_in_bytes)
             else
               let beyond = data_size_in_bytes - bytes_in_first_chunk;
                   l = beyond mod p
               in (1 + (beyond + p - 1) div p, if l = 0 then p else l));
          words_in_last = num_bytes_in_last_transfer div 4;
          size_value = SET_BITS 0 num_transfers 0 (last_field_bits - 1)
      in SET_BITS size_value words_in_last 15 (15 + last_field_bits - 1))"

definition link_block_to_next :: "me6_sgl \<Rightarrow> u64 \<Rightarrow> me6_sgl" where
  "link_block_to_next block bus_address_of_next_block =
     block\<lparr>sgl_next := drop_bit 1 bus_address_of_next_block OR 1\<rparr>"

definition create_link_in_previous_block :: "(nat \<Rightarrow> u64) \<Rightarrow> nat \<Rightarrow> men_me6sgl \<Rightarrow> men_me6sgl" where
  "create_link_in_previous_block block_bus block_idx sgl =
     sgl\<lparr>sgl_blocks := (sgl_blocks sgl)
       [block_idx - 1 := link_block_to_next (sgl_blocks sgl ! (block_idx - 1)) (block_bus block_idx)]\<rparr>"

definition init_block_and_create_link_from_previous ::
    "(nat \<Rightarrow> u64) \<Rightarrow> nat \<Rightarrow> men_me6sgl \<Rightarrow> men_me6sgl" where
  "init_block_and_create_link_from_previous block_bus block_index sgl =
     (let sgl1 = sgl\<lparr>sgl_blocks := (sgl_blocks sgl)[block_index := zero_sgl]\<rparr>
      in if block_index > 0 then create_link_in_previous_block block_bus block_index sgl1 else sgl1)"

abbreviation (input) PAGE_SIZE :: nat where "PAGE_SIZE \<equiv> 4096"

definition prepare_sgl_block :: "u64 \<Rightarrow> nat \<Rightarrow> u32 \<Rightarrow> nat" where
  "prepare_sgl_block buffer_chunk_bus_address remaining_length pci_payload_size =
     (let page_offset = unat (buffer_chunk_bus_address AND 0xfff);
          pci_payload_offset = unat (buffer_chunk_bus_address mod ucast pci_payload_size);
          max_bytes_for_sgl_entry = 0x8000 * unat pci_payload_size - pci_payload_offset;
          max_length = min remaining_length max_bytes_for_sgl_entry
      in min (PAGE_SIZE - page_offset) max_length)"

text \<open>
  The loop of \<^verbatim>\<open>fill_blocks\<close>: \<open>ptr\<close> is the address in the buffer and \<open>remaining\<close> what is left of
  the batch. Every entry takes at least a byte (\<open>prepare_pos\<close>), so the loop ends.
\<close>

lemma prepare_pos: "p \<noteq> 0 \<Longrightarrow> 0 < r \<Longrightarrow> 0 < prepare_sgl_block a r p"
proof -
  assume p: "p \<noteq> 0" and r: "0 < r"
  have "(0xfff :: u64) = mask 12" by (simp add: mask_eq_exp_minus_1)
  then have "unat (a AND 0xfff) = take_bit 12 (unat a)"
    by (metis take_bit_eq_mask unsigned_take_bit_eq)
  then have "unat (a AND 0xfff) < 4096" by (simp add: take_bit_eq_mod)
  moreover have "unat (a mod ucast p) < 0x8000 * unat p"
  proof -
    have "unat p \<noteq> 0" using p by (simp add: unat_eq_zero)
    moreover have "unat (a mod ucast p) < unat p" if "unat p \<noteq> 0"
      using that by (simp add: unat_mod unat_ucast_u32)
    ultimately show ?thesis by linarith
  qed
  ultimately show ?thesis using r by (simp add: prepare_sgl_block_def Let_def)
qed

function fill_loop ::
    "(nat \<Rightarrow> u64) \<Rightarrow> (nat \<Rightarrow> u64) \<Rightarrow> bool \<Rightarrow> nat \<Rightarrow> nat \<Rightarrow> nat \<Rightarrow> men_me6sgl \<Rightarrow> (nat \<times> men_me6sgl) option" where
  "fill_loop block_bus data_bus is_last_batch current_entry_number ptr remaining self =
     (if remaining = 0 then Some (current_entry_number, self)
      else
        let block_sgl_idx = current_entry_number div 5;
            block_entry_idx = current_entry_number mod 5
        in if block_sgl_idx \<ge> length (sgl_blocks self) \<or> max_pci_transfer_size self = 0 then None
           else
             let self1 = (if block_entry_idx = 0
                          then init_block_and_create_link_from_previous block_bus block_sgl_idx self
                          else self);
                 a = data_bus ptr;
                 p = max_pci_transfer_size self;
                 entry_length = prepare_sgl_block a remaining p;
                 is_last_entry = (is_last_batch \<and> remaining - entry_length = 0);
                 size_value = men_generate_page_group_size (a AND 0xfff) (of_nat entry_length) p
                                (bits_in_last_transfer_size_field self);
                 flds = get_entry_fields_with_values (direction self) a size_value is_last_entry;
                 b = sgl_blocks self1 ! block_sgl_idx;
                 d = set_block_entry block_entry_idx (sum_list (map fst flds)) flds
                       (start_bit_of_first_block_entry self) (sgl_data b)
             in fill_loop block_bus data_bus is_last_batch (current_entry_number + 1)
                  (ptr + entry_length) (remaining - entry_length)
                  (self1\<lparr>sgl_blocks := (sgl_blocks self1)[block_sgl_idx := b\<lparr>sgl_data := d\<rparr>]\<rparr>))"
  by pat_completeness auto
termination
proof (relation "measure (\<lambda>(bb, db, l, n, p, r, s). r)", goal_cases)
  case (2 bb db l n ptr r s x xa xb xc xd xe)
  have "0 < xe"
    unfolding 2(7,8) by (rule prepare_pos) (use 2(1,4) in blast)+
  with 2(1) show ?case by (simp only: in_measure split) linarith?
qed (rule wf_measure)

declare fill_loop.simps [simp del]

definition fill_blocks ::
    "(nat \<Rightarrow> u64) \<Rightarrow> (nat \<Rightarrow> u64) \<Rightarrow> men_me6sgl \<Rightarrow> nat \<Rightarrow> nat \<Rightarrow> nat \<Rightarrow> bool \<Rightarrow> (nat \<times> men_me6sgl) option" where
  "fill_blocks block_bus data_bus self entry_count_offset batch_length virt_address is_last_batch =
     fill_loop block_bus data_bus is_last_batch entry_count_offset virt_address batch_length self"

text \<open>
  The loop runs over the seven data words of a block, not over its five entries.
\<close>

definition create_for_dummy_buffer ::
    "(nat \<Rightarrow> u64) \<Rightarrow> (nat \<Rightarrow> u64) \<Rightarrow> men_me6sgl \<Rightarrow> nat \<Rightarrow> men_me6sgl option" where
  "create_for_dummy_buffer block_bus data_bus self dummy_page_address =
     map_option (\<lambda>s. s\<lparr>sgl_blocks := (sgl_blocks s)
         [0 := link_block_to_next (sgl_blocks s ! 0) (first_block_bus_address s)]\<rparr>)
       (fold (\<lambda>i so. Option.bind so (\<lambda>s.
            map_option snd (fill_blocks block_bus data_bus s i PAGE_SIZE dummy_page_address False)))
          [0..<7] (Some self))"

definition init_common_members ::
    "(nat \<Rightarrow> u64) \<Rightarrow> sgl_direction \<Rightarrow> me6_sgl list \<Rightarrow> u32 \<Rightarrow> nat \<Rightarrow> nat \<Rightarrow> men_me6sgl" where
  "init_common_members block_bus dir block_memory transfer_size last_bits start_bit =
     \<lparr>direction = dir, sgl_blocks = block_memory, first_block_bus_address = block_bus 0,
      bits_in_last_transfer_size_field = last_bits, max_pci_transfer_size = transfer_size,
      start_bit_of_first_block_entry = start_bit\<rparr>"

definition men_me6sgl_init_dev2pc :: "(nat \<Rightarrow> u64) \<Rightarrow> me6_sgl list \<Rightarrow> u32 \<Rightarrow> men_me6sgl" where
  "men_me6sgl_init_dev2pc block_bus block_memory transfer_size =
     init_common_members block_bus Dev2pc block_memory transfer_size 8 18"

definition men_me6sgl_init_pc2dev :: "(nat \<Rightarrow> u64) \<Rightarrow> me6_sgl list \<Rightarrow> u32 \<Rightarrow> men_me6sgl" where
  "men_me6sgl_init_pc2dev block_bus block_memory transfer_size =
     init_common_members block_bus Pc2dev block_memory transfer_size 10 13"

end
