(* ===== verification/Sgl_Equiv.thy ===== *)
theory Sgl_Equiv
  imports Sgl_Chain Sgl_Lib
begin

text \<open>
  The three ways the sources write an entry of a scatter-gather list are one, and so are the three
  encodings of its size, but for the cases this theory shows.
\<close>

section \<open>Fields\<close>

lemma field_written_empty: "field_written off 0 v d d"
  by (auto simp: field_written_def)

lemma field_written_append:
  assumes "field_written off m v d d1" "field_written (off + m) n (\<lambda>k. v (m + k)) d1 d2"
  shows "field_written off (m + n) v d d2"
  using assms by (auto simp: field_written_def)

lemma field_written_cong:
  "field_written off len v d d' \<Longrightarrow> (\<And>k. k < len \<Longrightarrow> v k = w k) \<Longrightarrow> field_written off len w d d'"
  by (auto simp: field_written_def)

lemma field_written_in_word:
  assumes "w < length d" "s + m \<le> 64"
    and "\<And>k. k < 64 \<Longrightarrow> bit x k = (if s \<le> k \<and> k < s + m then v (k - s) else bit (d ! w) k)"
  shows "field_written (64 * w + s) m v d (d[w := x])"
proof (rule field_writtenI)
  fix u k :: nat assume u: "u < length d" and k: "k < 64"
  show "bit (d[w := x] ! u) k = (if 64 * w + s \<le> 64 * u + k \<and> 64 * u + k < 64 * w + s + m
      then v (64 * u + k - (64 * w + s)) else bit (d ! u) k)"
  proof (cases "u = w")
    case True
    then show ?thesis using assms(1) assms(3) [OF k] by simp
  next
    case False
    then have "\<not> (64 * w + s \<le> 64 * u + k \<and> 64 * u + k < 64 * w + s + m)"
      using k assms(2) by linarith
    with False show ?thesis by (simp only: if_False nth_list_update_neq)
  qed
qed simp

lemma drop_bit_field: "(\<lambda>k. bit v (m + k)) = bit (drop_bit m v :: 'a::len word)"
  by (auto simp: bit_drop_bit_eq)

lemma block_field_written:
  "s < 64 \<Longrightarrow> 64 * i + s + r \<le> 64 * length d
   \<Longrightarrow> field_written (64 * i + s) r (bit v) d (men_set_sgl_block_field i s r v d)"
proof (induction i s r v d rule: men_set_sgl_block_field.induct)
  case (1 i s r v d)
  show ?case
  proof (cases "r = 0")
    case True
    then show ?thesis by (subst men_set_sgl_block_field.simps) (simp add: field_written_empty)
  next
    case False
    define m where "m = min r (64 - s)"
    define x where "x = SET_BITS (d ! i) v s (s + m - 1)"
    have m: "0 < m" "m \<le> r" "s + m \<le> 64" using False "1.prems"(1) by (auto simp: m_def)
    have i: "i < length d" using "1.prems" False by linarith
    have x: "bit x k = (if s \<le> k \<and> k < s + m then bit v (k - s) else bit (d ! i) k)" if "k < 64" for k
      using m that by (auto simp: x_def bit_SET_BITS)
    have step: "field_written (64 * i + s) m (bit v) d (d[i := x])"
      by (rule field_written_in_word [OF i m(3) x])
    have e: "men_set_sgl_block_field i s r v d
        = men_set_sgl_block_field (i + 1) 0 (r - m) (drop_bit m v) (d[i := x])"
      using False "1.prems"(1)
      by (subst men_set_sgl_block_field.simps) (simp add: Let_def m_def [symmetric], simp add: x_def)
    show ?thesis
    proof (cases "r = m")
      case True
      then show ?thesis unfolding e using step
        by (subst men_set_sgl_block_field.simps) simp
    next
      case r: False
      then have sm: "s + m = 64" using m "1.prems"(1) by (auto simp: m_def min_def split: if_splits)
      have "field_written (64 * (i + 1) + 0) (r - m) (bit (drop_bit m v)) (d[i := x])
          (men_set_sgl_block_field (i + 1) 0 (r - m) (drop_bit m v) (d[i := x]))"
        using "1.IH" [OF _ m_def refl] False "1.prems" r m sm
        by (simp add: Let_def x_def)
      moreover have pos: "64 * (i + 1) + 0 = 64 * i + s + m" using sm by simp
      ultimately have "field_written (64 * i + s + m) (r - m) (\<lambda>k. bit v (m + k)) (d[i := x])
          (men_set_sgl_block_field i s r v d)"
        unfolding e drop_bit_field pos by blast
      from field_written_append [OF step this] m(2) show ?thesis by simp
    qed
  qed
qed

lemma bits_loop_written:
  "from \<le> Suc to \<Longrightarrow> to < 64 * length d \<Longrightarrow> Suc to - from < 64
   \<Longrightarrow> (\<And>k. Suc to - from \<le> k \<Longrightarrow> \<not> bit v k)
   \<Longrightarrow> \<exists>d'. set_bits_loop d from to v = Some d' \<and> field_written from (Suc to - from) (bit v) d d'"
proof (induction d "from" to v rule: set_bits_loop.induct)
  case (1 d fr to v)
  show ?case
  proof (cases "fr \<le> to")
    case False
    then show ?thesis by (subst set_bits_loop.simps) (simp add: field_written_empty)
  next
    case True
    define i where "i = fr div 64"
    define s where "s = fr mod 64"
    define e where "e = min 63 (to - i * 64)"
    define m where "m = e + 1 - s"
    define x where "x = (d ! i AND NOT (GEN_MASK s e)) OR push_bit s (GET_BITS v 0 m)"
    have fr: "64 * i + s = fr" "i * 64 \<le> fr" by (simp_all add: i_def s_def)
    have s: "s < 64" by (simp add: s_def)
    have e: "s \<le> e" "e \<le> 63" "64 * i + e \<le> to" using True fr s by (auto simp: e_def)
    have m: "0 < m" "s + m = e + 1" "m \<le> Suc to - fr" "m < 64"
      using e fr "1.prems"(3) by (auto simp: m_def)
    have i: "i < length d" using "1.prems"(2) e by linarith
    have beyond: "\<not> bit v m" if "e \<noteq> 63"
    proof -
      have "e = to - i * 64" using that by (auto simp: e_def min_def split: if_splits)
      then have "m = Suc to - fr" using fr m(2) True by linarith
      then show ?thesis using "1.prems"(4) [of m] by simp
    qed
    have x: "bit x k = (if s \<le> k \<and> k < s + m then bit v (k - s) else bit (d ! i) k)" if k: "k < 64" for k
    proof -
      have "\<not> bit v (k - s)" if ks: "k = s + m"
      proof -
        have "k - s = m" "e \<noteq> 63" using ks k m(2) by linarith+
        with beyond show ?thesis by simp
      qed
      moreover have "k - s \<le> m \<longleftrightarrow> k < s + m \<or> k = s + m" by linarith
      ultimately show ?thesis
        using k m(2,4) e(1,2) by (auto simp: x_def bit_simps bit_GEN_MASK bit_GET_BITS)
    qed
    have step: "field_written fr m (bit v) d (d[i := x])"
      using field_written_in_word [OF i _ x] m(2) e(2) fr(1) by simp
    have eq: "set_bits_loop d fr to v = set_bits_loop (d[i := x]) (fr + m) to (drop_bit m v)"
      using True m(4)
      by (subst set_bits_loop.simps)
        (simp add: Let_def i_def [symmetric] s_def [symmetric] e_def [symmetric], simp add: m_def x_def)
    have "\<exists>d'. set_bits_loop (d[i := x]) (fr + m) to (drop_bit m v) = Some d'
        \<and> field_written (fr + m) (Suc to - (fr + m)) (bit (drop_bit m v)) (d[i := x]) d'"
      by (rule "1.IH" [OF True i_def refl s_def e_def m_def _ refl x_def])
        (use m(3,4) "1.prems" in \<open>auto simp: bit_drop_bit_eq\<close>)
    then obtain d' where d': "set_bits_loop (d[i := x]) (fr + m) to (drop_bit m v) = Some d'"
      "field_written (fr + m) (Suc to - (fr + m)) (\<lambda>k. bit v (m + k)) (d[i := x]) d'"
      unfolding drop_bit_field by blast
    have "m + (Suc to - (fr + m)) = Suc to - fr" using m(3) by simp
    with field_written_append [OF step d'(2)] d'(1) eq show ?thesis by simp
  qed
qed

lemma set_bits_written:
  assumes "from \<le> to" "to < 64 * length d" "to + 1 - from < 64"
    and "\<And>k. to + 1 - from \<le> k \<Longrightarrow> \<not> bit v k"
  obtains d' where "set_bits d from to v = Some (STATUS_OK, d')"
    "field_written from (to + 1 - from) (bit v) d d'"
proof -
  have "GET_BITS v (to + 1 - from) 63 = 0"
    using assms(4) by (intro bit_word_eqI) (simp add: bit_GET_BITS)
  moreover obtain d' where "set_bits_loop d from to v = Some d'"
    "field_written from (Suc to - from) (bit v) d d'"
    using bits_loop_written [of "from" to d v] assms by auto
  ultimately show thesis using assms(3) that by (simp add: set_bits_def Let_def)
qed

section \<open>Entries\<close>

lemma entry_bits_fields:
  "entry_bits l a s 0 = l"
  "k < 62 \<Longrightarrow> entry_bits l a s (1 + k) = bit (drop_bit 2 a) k"
  "entry_bits l a s (63 + k) = bit s k"
  by (auto simp: entry_bits_def bit_simps numeral_2_eq_2)

lemma entry_written_fields:
  assumes "field_written off 1 (\<lambda>k. l) d d1"
    "field_written (off + 1) 62 (bit (drop_bit 2 a)) d1 d2"
    "field_written (off + 63) 23 (bit (ucast (s :: u32) :: u64)) d2 d3"
  shows "field_written off 86 (entry_bits l a s) d d3"
proof -
  have "field_written off (1 + 62) (entry_bits l a s) d d2"
    by (rule field_written_append [OF field_written_cong [OF assms(1)] field_written_cong [OF assms(2)]])
      (simp_all only: entry_bits_fields less_one)
  moreover have "field_written (off + (1 + 62)) 23 (\<lambda>k. entry_bits l a s (1 + 62 + k)) d2 d3"
    using field_written_cong [OF assms(3), of "bit s"] entry_bits_fields(3) [of l a s]
    by (simp add: bit_simps)
  ultimately show ?thesis using field_written_append [of off "1 + 62" "entry_bits l a s" d d2 23 d3] by simp
qed

lemma library_entry_written:
  assumes "length d = 7" "i < ME6_SGL_ENTRIES"
  shows "field_written (entry_offset i) 86 (entry_bits l a s) d
    (set_block_entry i 86 (get_fields_with_values_dev2pc a s l) 18 d)"
proof -
  have fw: "field_written off n (bit v) d' (men_set_sgl_block_field (off div 64) (off mod 64) n v d')"
    if "off + n \<le> 64 * length d'" for off n v and d' :: "u64 list"
    using block_field_written [of "off mod 64" "off div 64" n d' v] that by simp
  let ?o = "entry_offset i"
  have o: "?o + 86 \<le> 448" using assms(2) by (simp add: entry_offset_def)
  define d1 where "d1 = men_set_sgl_block_field (?o div 64) (?o mod 64) 1 (if l then 1 else 0) d"
  define d2 where "d2 = men_set_sgl_block_field ((?o + 1) div 64) ((?o + 1) mod 64) 62 (drop_bit 2 a) d1"
  have 1: "field_written ?o 1 (bit (if l then 1 else 0 :: u64)) d d1"
    unfolding d1_def by (rule fw) (use o assms(1) in simp)
  then have l1: "length d1 = 7" using assms(1) by (simp add: field_written_def)
  have 2: "field_written (?o + 1) 62 (bit (drop_bit 2 a)) d1 d2"
    unfolding d2_def by (rule fw) (use o l1 in simp)
  then have l2: "length d2 = 7" using l1 by (simp add: field_written_def)
  have 3: "field_written (?o + 63) 23 (bit (ucast s :: u64)) d2
      (men_set_sgl_block_field ((?o + 63) div 64) ((?o + 63) mod 64) 23 (ucast s) d2)"
    by (rule fw) (use o l2 in simp)
  have "set_block_entry i 86 (get_fields_with_values_dev2pc a s l) 18 d
      = men_set_sgl_block_field ((?o + 63) div 64) ((?o + 63) mod 64) 23 (ucast s) d2"
    by (simp add: set_block_entry_def get_fields_with_values_dev2pc_def entry_offset_def d1_def d2_def
        add.assoc)
  moreover have "field_written ?o 1 (\<lambda>k. l) d d1"
    by (rule field_written_cong [OF 1]) simp
  ultimately show ?thesis using entry_written_fields [OF _ 2 3] by simp
qed

lemma v2_entry_written:
  assumes "length d = 7" "i < ME6_SGL_ENTRIES" "take_bit 23 s = s"
  obtains d3 where "set_sgl_block_entry d i (drop_bit 2 a) (ucast s) l = Some d3"
    "field_written (entry_offset i) 86 (entry_bits l a s) d d3"
proof -
  let ?o = "entry_offset i"
  have o: "?o + 86 \<le> 448" using assms(2) by (simp add: entry_offset_def)
  have flag: "\<not> bit (if l then 1 else 0 :: u64) k" if "1 \<le> k" for k
    using that by (auto simp: bit_1_iff)
  obtain d1 where d1: "set_bits d ?o ?o (if l then 1 else 0) = Some (STATUS_OK, d1)"
    "field_written ?o 1 (bit (if l then 1 else 0 :: u64)) d d1"
    by (rule set_bits_written [of ?o ?o d "if l then 1 else 0"]) (use o assms(1) flag in auto)
  have l1: "length d1 = 7" using d1(2) assms(1) by (simp add: field_written_def)
  obtain d2 where d2: "set_bits d1 (?o + 1) (?o + 62) (drop_bit 2 a) = Some (STATUS_OK, d2)"
    "field_written (?o + 1) 62 (bit (drop_bit 2 a)) d1 d2"
    by (rule set_bits_written [of "?o + 1" "?o + 62" d1 "drop_bit 2 a"])
      (use o l1 in \<open>auto simp: bit_drop_bit_eq dest: bit_imp_le_length\<close>)
  have l2: "length d2 = 7" using d2(2) l1 by (simp add: field_written_def)
  have s: "\<not> bit (ucast s :: u64) k" if "23 \<le> k" for k
    using that assms(3) by (metis bit_take_bit_iff bit_ucast_iff linorder_not_less)
  obtain d3 where d3: "set_bits d2 (?o + 63) (?o + 85) (ucast s) = Some (STATUS_OK, d3)"
    "field_written (?o + 63) 23 (bit (ucast s :: u64)) d2 d3"
    by (rule set_bits_written [of "?o + 63" "?o + 85" d2 "ucast s"]) (use o l2 s in auto)
  have "field_written ?o 1 (\<lambda>k. l) d d1" by (rule field_written_cong [OF d1(2)]) simp
  from entry_written_fields [OF this d2(2) d3(2)]
  show thesis using d1(1) d2(1) d3(1) that
    by (simp add: set_sgl_block_entry_def Let_def entry_offset_def add.assoc)
qed

text \<open>
  C30: the three ways of writing an entry give the same block: by shifts and masks for each of the
  five positions (the driver), by a loop over the words a field touches (\<^verbatim>\<open>sgl_v2.c\<close>), and by the
  table of fields (\<^verbatim>\<open>me6_sgl.c\<close>). The last two also keep the reserved bits; the first clears
  them, so they are clear here.
\<close>

theorem entry_writers_agree:
  assumes "reserved_clear d" "i < ME6_SGL_ENTRIES" "take_bit 23 s = s"
  shows "me6_set_sgl_entry d i a s l = Some (set_block_entry i 86 (get_fields_with_values_dev2pc a s l) 18 d)
    \<and> set_sgl_block_entry d i (drop_bit 2 a) (ucast s) l
      = Some (set_block_entry i 86 (get_fields_with_values_dev2pc a s l) 18 d)"
proof -
  have len: "length d = 7" using assms(1) by (simp add: reserved_clear_def)
  note lib = library_entry_written [OF len assms(2), of l a s]
  obtain d1 where 1: "me6_set_sgl_entry d i a s l = Some d1"
    "field_written (entry_offset i) 86 (entry_bits l a s) d d1"
    using set_entry [OF assms(1,2)] by metis
  obtain d2 where 2: "set_sgl_block_entry d i (drop_bit 2 a) (ucast s) l = Some d2"
    "field_written (entry_offset i) 86 (entry_bits l a s) d d2"
    by (rule v2_entry_written [OF len assms(2,3)])
  show ?thesis using field_written_unique [OF 1(2) lib] field_written_unique [OF 2(2) lib] 1(1) 2(1)
    by simp
qed

theorem entry_writers_agree_witness:
  "me6_set_sgl_entry (sgl_data zero_sgl) 2 0x123456789abc 0x8020 True
   = Some (set_block_entry 2 86 (get_fields_with_values_dev2pc 0x123456789abc 0x8020 True) 18
       (sgl_data zero_sgl))"
  by (rule conjunct1 [OF entry_writers_agree [OF reserved_clear_zero]])
    (simp_all add: take_bit_eq_mod)

section \<open>Sizes\<close>

lemma small_bit: "unat (w :: u32) < 2 ^ n \<Longrightarrow> bit w i \<Longrightarrow> i < n"
  by (metis bit_take_bit_iff take_bit_nat_eq_self_iff unsigned_take_bit_eq word_unat_eq_iff)

lemma pack_fields:
  assumes "unat k < 256"
  shows "SET_BITS (SET_BITS 0 k 0 7) l 15 22 = pack_size k l"
proof (rule bit_word_eqI)
  fix i assume "i < LENGTH(32)"
  have "bit k i \<Longrightarrow> i < 8" using small_bit [of k 8] assms by simp
  then show "bit (SET_BITS (SET_BITS 0 k 0 7) l 15 22) i = bit (pack_size k l) i"
    unfolding pack_size_def mask_15_8
    using \<open>i < LENGTH(32)\<close> by (auto simp: bit_SET_BITS bit_simps)
qed

lemma ceil_div_nat: "0 < p \<Longrightarrow> (m + p - 1) div p = (if m mod p = 0 then m div p else m div p + 1)" for m p :: nat
proof -
  assume p: "0 < p"
  have "m + p - 1 = m div p * p + (m mod p + p - 1)" using p by simp
  then have "(m + p - 1) div p = m div p + (m mod p + p - 1) div p"
    using p by (metis div_mult_self3 add.commute less_not_refl)
  moreover have "(m mod p + p - 1) div p = (if m mod p = 0 then 0 else 1)"
  proof (cases "m mod p")
    case (Suc r)
    then have "Suc r < p" using mod_less_divisor [OF p, of m] by simp
    then have "(r + p) div p = 1" using p div_add_self2 [of p r] by simp
    with Suc show ?thesis by simp
  qed (use p in simp)
  ultimately show ?thesis by simp
qed

lemma unat_ucast_down: "unat (x :: u64) < 4294967296 \<Longrightarrow> unat (ucast x :: u32) = unat x"
  by (simp add: unsigned_ucast_eq take_bit_eq_mod)

text \<open>The library's encoder also splits as \<open>transfers\<close> does, for sizes up to a page.\<close>

lemma group_size_transfers:
  assumes "128 \<le> p" "p \<le> 1024" "n \<le> 4096"
  obtains k l where "transfers (unat off) (unat n) (unat p) = (unat k, unat l)"
    "men_generate_page_group_size off n p 8 = pack_size k (l div 4)"
    "unat k \<le> 34" "unat l \<le> 1024"
proof -
  define o' :: u32 where "o' = ucast (off mod ucast p)"
  define f where "f = p - o'"
  define m where "m = n - f"
  define k where "k = (if n \<le> f then 1 else 1 + (m + p - 1) div p)"
  define l where "l = (if n \<le> f then n else if m mod p = 0 then p else m mod p)"
  have p: "128 \<le> unat p" "unat p \<le> 1024" "0 < unat p" and n: "unat n \<le> 4096"
    using assms by (auto simp: word_le_nat_alt)
  have lt: "unat off mod unat p < unat p" using p(3) by simp
  then have small: "unat off mod unat p < 4294967296" using unat_u32_bound [of p] by linarith
  have o': "unat o' = unat off mod unat p"
    unfolding o'_def by (subst unat_ucast_down) (use small in \<open>simp_all add: unat_mod unat_ucast_u32\<close>)
  have f: "unat f = unat p - unat off mod unat p"
    using lt by (simp add: f_def unat_sub_u32 o')
  have m: "unat m = unat n - unat f" if "\<not> n \<le> f"
    using that by (simp add: m_def unat_sub_u32 word_le_nat_alt)
  have kk: "unat k = (if n \<le> f then 1 else 1 + (if unat m mod unat p = 0 then unat m div unat p
      else unat m div unat p + 1)) \<and> unat k \<le> 34"
  proof (cases "n \<le> f")
    case False
    then have um: "unat m \<le> 4096" using m n by simp
    have mp: "unat (m + p - 1) = unat m + unat p - 1"
      using um p by (simp add: unat_sub_u32 unat_add_u32)
    have "unat m div unat p \<le> 4096 div 128"
      using div_le_mono [OF um, of "unat p"] div_le_mono2 [OF _ p(1), of 4096] by simp
    moreover have "unat ((m + p - 1) div p) = (if unat m mod unat p = 0 then unat m div unat p
      else unat m div unat p + 1)"
      unfolding unat_div mp by (rule ceil_div_nat [OF p(3)])
    ultimately show ?thesis using False by (simp add: k_def unat_Suc_u32 add.commute [of 1])
  qed (simp add: k_def)
  have l: "unat l \<le> 1024"
  proof -
    have "unat m mod unat p < unat p" using p(3) by simp
    moreover have "unat n \<le> unat f \<Longrightarrow> unat n \<le> unat p" using f by simp
    ultimately show ?thesis using p(2) by (auto simp: l_def unat_mod_u32 word_le_nat_alt)
  qed
  have "transfers (unat off) (unat n) (unat p) = (unat k, unat l)"
    using kk f m by (auto simp: transfers_def Let_def l_def word_le_nat_alt unat_mod_u32
        word_unat_eq_iff)
  moreover have "men_generate_page_group_size off n p 8 = pack_size k (l div 4)"
  proof -
    have "men_generate_page_group_size off n p 8 = SET_BITS (SET_BITS 0 k 0 7) (l div 4) 15 22"
      by (simp add: men_generate_page_group_size_def Let_def o'_def [symmetric] f_def [symmetric]
          m_def [symmetric] k_def l_def)
    with pack_fields [of k "l div 4"] kk show ?thesis by simp
  qed
  ultimately show thesis using that kk l by blast
qed

lemma unat_page_offset: "unat (ucast (a AND 0xfff :: u64) :: u16) = unat (a AND 0xfff)"
  "unat (a AND 0xfff :: u64) = unat a mod 4096"
proof -
  have "(0xfff :: u64) = mask 12" by (simp add: mask_eq_exp_minus_1)
  then show m: "unat (a AND 0xfff :: u64) = unat a mod 4096"
    using unat_and_mask [of a 12] by (simp only:) simp
  then show "unat (ucast (a AND 0xfff :: u64) :: u16) = unat (a AND 0xfff)"
    by (simp add: unsigned_ucast_eq take_bit_eq_mod)
qed

lemma driver_size_encodes:
  assumes "transfers (unat (off :: u16)) (unat n) (unat p) = (unat k, unat l)"
    "unat k \<le> 0x8000" "unat l \<le> 1024" "4 \<le> p"
  shows "me6_sgl_size off n p = Some (pack_size k (l div 4))"
proof -
  obtain k' l' where kl: "transfers (unat off) (unat n) (unat p) = (unat k', unat l')"
    "me6_sgl_size off n p =
       (if k' > 0x8000 \<or> l' div 4 > 0x100 then None else Some (pack_size k' (l' div 4)))"
    by (rule sgl_size_cases [OF assms(4)])
  have "k' = k" "l' = l" using assms(1) kl(1) by (simp_all add: word_unat_eq_iff)
  moreover have "\<not> k > 0x8000" using assms(2) by (simp add: word_less_nat_alt)
  moreover have "\<not> l div 4 > 0x100"
    using assms(3) div_le_mono [of "unat l" 1024 4] by (simp add: word_less_nat_alt unat_div)
  ultimately show ?thesis using kl(2) by simp
qed

text \<open>
  For a piece that stays in a page, the library's \<^verbatim>\<open>men_generate_page_group_size\<close> gives the size
  the driver's \<^verbatim>\<open>me6_sgl_size\<close> gives, although it cuts the number of transfers to eight bits and
  does not check it.
\<close>

theorem page_size_encodings_agree:
  assumes "128 \<le> p" "p \<le> 1024" "n \<le> 4096"
  shows "me6_sgl_size (ucast (a AND 0xfff)) n p = Some (men_generate_page_group_size (a AND 0xfff) n p 8)"
proof -
  obtain k l where kl: "transfers (unat (a AND 0xfff)) (unat n) (unat p) = (unat k, unat l)"
    "men_generate_page_group_size (a AND 0xfff) n p 8 = pack_size k (l div 4)" "unat k \<le> 34" "unat l \<le> 1024"
    by (rule group_size_transfers [OF assms])
  have p4: "4 \<le> p" using assms(1) by (simp add: word_le_nat_alt)
  show ?thesis
    using driver_size_encodes [OF kl(1) [folded unat_page_offset(1)] _ kl(4) p4] kl(2,3) by simp
qed

theorem page_size_encodings_agree_witness:
  "me6_sgl_size (ucast ((0x1010 :: u64) AND 0xfff)) 4080 128
   = Some (men_generate_page_group_size (0x1010 AND 0xfff) 4080 128 8)"
  by (rule page_size_encodings_agree) simp_all

text \<open>
  The driver's encoder hits no \<^verbatim>\<open>BUG\<close> for payloads of up to 1024 bytes and pieces of up to
  32767 of them; with a payload of 2048 or 4096 bytes, which the PCI Express control register can
  hold, a page hits it.
\<close>

theorem sgl_size_bug_needs_large_payload:
  assumes "4 \<le> p" "p \<le> 1024" "unat n \<le> 0x7fff * unat p" "pool al 0 \<noteq> None"
  shows "me6_sgl_size off n p \<noteq> None
    \<and> me6_create_userbuf al 0x80 4096 [(0x1000, 4096)] = None
    \<and> me6_create_userbuf al 0xa0 4096 [(0x1000, 4096)] = None"
proof -
  obtain k l where kl: "transfers (unat off) (unat n) (unat p) = (unat k, unat l)"
    "me6_sgl_size off n p =
       (if k > 0x8000 \<or> l div 4 > 0x100 then None else Some (pack_size k (l div 4)))"
    by (rule sgl_size_cases [OF assms(1)])
  have p: "0 < unat p" "unat p \<le> 1024" using assms(1,2) by (auto simp: word_le_nat_alt)
  let ?f = "unat p - unat off mod unat p"
  have f: "0 < ?f" "?f \<le> unat p" using mod_less_divisor [OF p(1), of "unat off"] by auto
  have "(unat n - ?f) div unat p \<le> 0x7ffe" if "?f < unat n"
  proof -
    have "unat n - ?f < 0x7fff * unat p" using assms(3) f(1) that by linarith
    then have "(unat n - ?f) div unat p < 0x7fff" by (simp add: div_less_iff_less_mult p(1))
    then show ?thesis by simp
  qed
  then have "unat k \<le> 0x8000"
    using kl(1) by (auto simp: transfers_def Let_def split: if_splits)
  moreover have "unat l \<le> 1024" using transfers_le [OF p(1) kl(1)] p(2) by simp
  ultimately have "unat k \<le> 0x8000" "unat l \<le> 1024" .
  from driver_size_encodes [OF kl(1) this assms(1)] have "me6_sgl_size off n p \<noteq> None" by simp
  moreover have "me6_sgl_size 0 4096 2048 = None" "me6_sgl_size 0 4096 4096 = None"
    by (simp_all add: me6_sgl_size_def)
  ultimately show ?thesis
    using assms(4) by (auto simp: me6_create_userbuf_def payload_of_ctrl_def)
qed

theorem sgl_size_bug_needs_large_payload_witness:
  "me6_sgl_size 16 4080 128 \<noteq> None
   \<and> me6_create_userbuf demo_alloc 0x80 4096 [(0x1000, 4096)] = None
   \<and> me6_create_userbuf demo_alloc 0xa0 4096 [(0x1000, 4096)] = None"
  by (rule sgl_size_bug_needs_large_payload) (simp_all add: demo_alloc_def)

end
