(* ===== verification/Sgl_Props.thy ===== *)
theory Sgl_Props
  imports Sgl_Equiv
begin

text \<open>
  Where the scatter-gather lists go wrong: the tail of a buffer whose length is not a multiple of
  four, joined pieces of the full size, the number of blocks \<^verbatim>\<open>men_create_sgl_v2\<close> reports, and the
  dummy buffer of \<^verbatim>\<open>me6_sgl.c\<close>.
\<close>

section \<open>Short tails\<close>

lemma page_offset_4: "a AND 3 = 0 \<Longrightarrow> 4 dvd unat (a AND 0xfff :: u64)"
proof -
  assume a: "a AND 3 = 0"
  have "(3 :: u64) = mask 2" by (simp add: mask_eq_exp_minus_1)
  then have "unat a mod 4 = 0" using a unat_and_mask [of a 2] by simp
  then have "4 dvd unat a" by (simp add: mod_eq_0_iff_dvd)
  then show ?thesis unfolding unat_page_offset(2) by (simp add: dvd_mod_iff)
qed

text \<open>
  The last piece of a buffer may have one, two or three bytes, as only the start of a buffer is
  checked to be a multiple of four. It is encoded as no words in the last transfer, which the
  board takes for the largest number: 1024 bytes are written where the buffer has at most three.
\<close>

theorem short_tail_asks_for_1024_bytes:
  assumes "a AND 3 = 0" "n \<noteq> 0" "n < 4" "4 dvd unat p" "p \<noteq> 0"
  shows "map_option (decode_size a p) (me6_sgl_size (ucast (a AND 0xfff)) n p) = Some 1024"
proof -
  let ?off = "unat (a AND 0xfff)"
  have p: "0 < unat p" using assms(5) by (simp add: unat_gt_0)
  then have p4: "4 \<le> p" using assms(4) dvd_imp_le [of 4 "unat p"] by (simp add: word_le_nat_alt)
  have "4 dvd ?off mod unat p" using page_offset_4 [OF assms(1)] assms(4) by (rule dvd_mod)
  then have "4 dvd unat p - ?off mod unat p" using assms(4) by simp
  moreover have "0 < unat p - ?off mod unat p" using p by simp
  ultimately have "4 \<le> unat p - ?off mod unat p" by (rule dvd_imp_le)
  moreover have "unat n < 4" using assms(3) by (simp add: word_less_nat_alt)
  ultimately have t: "transfers ?off (unat n) (unat p) = (unat (1 :: u32), unat n)"
    by (simp add: transfers_def)
  have n0: "n div 4 = 0" using assms(3) by (simp add: word_unat_eq_iff unat_div \<open>unat n < 4\<close>)
  have "me6_sgl_size (ucast (a AND 0xfff)) n p = Some (pack_size 1 (n div 4))"
    by (rule driver_size_encodes) (use t unat_page_offset \<open>unat n < 4\<close> p4 in simp_all)
  moreover have "decode_size a p (pack_size 1 0) = 1024"
    by (simp add: decode_size_def pack_size_count pack_size_last field_or_max_def)
  ultimately show ?thesis by (simp add: n0)
qed

theorem short_tail_asks_for_1024_bytes_witness:
  "map_option (decode_size 0x5000 256) (me6_sgl_size (ucast ((0x5000 :: u64) AND 0xfff)) 2 256) = Some 1024"
  by (rule short_tail_asks_for_1024_bytes) simp_all

lemma buffer_of_4098_bytes_overruns:
  "(case me6_create_userbuf demo_alloc 0x20 4098 [(0x1000, 4096), (0x5000, 2)] of
      Some (Userbuf_created d [b]) \<Rightarrow>
        map_option (map (\<lambda>(a, sz). (a, decode_size a 256 sz))) (board_reads (\<lambda>_. Some b) 2 d 0)
          = Some [(0x1000, 4096), (0x5000, 1024)]
    | _ \<Rightarrow> False)"
  by code_simp

section \<open>Joined pieces\<close>

text \<open>Full pages that follow each other without a gap.\<close>

fun full_pages :: "nat \<Rightarrow> u64 \<Rightarrow> men_dma_mem_descriptor list" where
  "full_pages 0 a = []"
| "full_pages (Suc n) a = \<lparr>physical_address = a, length_of = 4096\<rparr> # full_pages n (a + 4096)"

lemma join_full_pages:
  "unat phys + unat c + 4096 * k < 18446744073709551616 \<Longrightarrow> unat c + 4096 * k \<le> unat mx \<Longrightarrow> 0 < unat c
   \<Longrightarrow> join_adjacent phys mx c (full_pages k (phys + c) @ ms)
     = join_adjacent phys mx (c + of_nat k * 4096) ms"
proof (induction k arbitrary: c)
  case (Suc k)
  have c: "unat (c + 4096) = unat c + 4096" using Suc.prems(1) by (simp add: unat_word_ariths)
  have "unat (phys + c) = unat phys + unat c" using Suc.prems(1) by (simp add: unat_word_ariths)
  then have "phys + c > phys" using Suc.prems(3) by (simp add: word_less_nat_alt)
  moreover have "c + 4096 \<le> ucast mx"
    unfolding word_le_nat_alt c unat_ucast_u32 using Suc.prems(2) by simp
  ultimately have "join_adjacent phys mx c (full_pages (Suc k) (phys + c) @ ms)
      = join_adjacent phys mx (c + 4096) (full_pages k (phys + (c + 4096)) @ ms)"
    by (simp add: add.assoc)
  also have "\<dots> = join_adjacent phys mx (c + 4096 + of_nat k * 4096) ms"
    by (rule Suc.IH) (use Suc.prems c in simp)+
  also have "c + 4096 + of_nat k * 4096 = c + of_nat (Suc k) * 4096" by (simp add: algebra_simps)
  finally show ?case .
qed simp

lemma compute_group_size_23: "take_bit 23 (compute_group_size a c p) = compute_group_size a c p"
proof -
  obtain k l where "compute_group_size a c p = pack_size k l"
    by (simp add: compute_group_size_def Let_def pack_size_def)
  then show ?thesis by (simp add: pack_size_23)
qed

lemma v2_entry:
  assumes "length d = 7" "i < ME6_SGL_ENTRIES"
  shows "\<exists>d'. set_sgl_block_entry d i (drop_bit 2 a) (ucast (compute_group_size a c p)) l = Some d'
    \<and> length d' = 7"
proof -
  obtain d' where "set_sgl_block_entry d i (drop_bit 2 a) (ucast (compute_group_size a c p)) l = Some d'"
    "field_written (entry_offset i) 86 (entry_bits l a (compute_group_size a c p)) d d'"
    by (rule v2_entry_written [OF assms compute_group_size_23])
  with assms(1) show ?thesis by (simp add: field_written_def)
qed

text \<open>
  Pieces that join to the largest size (32768 transfers) and start inside a transfer need one
  transfer more than the field can count; the count wraps to one. A buffer of 4 MiB that starts
  16 bytes into a transfer of 128 is described as 16 bytes.
\<close>

theorem joined_pieces_wrap_the_count:
  "\<exists>d sz. men_create_sgl_v2
      (\<lparr>physical_address = 0x1010, length_of = 4080\<rparr> # full_pages 1023 0x2000
        @ [\<lparr>physical_address = 0x401000, length_of = 16\<rparr>]) 128 [zero_sgl] phys_of
      = Some (1, [zero_sgl\<lparr>sgl_data := d\<rparr>])
    \<and> read_entry d 0 = (True, 0x1010, sz) \<and> decode_size 0x1010 128 sz = 16"
proof -
  have "join_adjacent 0x1010 0x400000 4080 (full_pages 1023 (0x1010 + 4080)
        @ [\<lparr>physical_address = 0x401000, length_of = 16\<rparr>])
      = join_adjacent 0x1010 0x400000 (4080 + of_nat 1023 * 4096)
          [\<lparr>physical_address = 0x401000, length_of = 16\<rparr>]"
    by (rule join_full_pages) simp_all
  then have j: "join_adjacent 0x1010 0x400000 4080 (full_pages 1023 0x2000
        @ [\<lparr>physical_address = 0x401000, length_of = 16\<rparr>]) = (0x400000, [])" by simp
  have s: "compute_group_size 0x1010 0x400000 128 = pack_size 1 4"
    by (simp add: compute_group_size_def pack_size_def)
  have len: "length (sgl_data zero_sgl) = 7" by (simp add: zero_sgl_def)
  obtain d where d: "set_sgl_block_entry (sgl_data zero_sgl) 0 (drop_bit 2 0x1010)
      (ucast (pack_size 1 4)) True = Some d"
    "field_written (entry_offset 0) 86 (entry_bits True 0x1010 (pack_size 1 4)) (sgl_data zero_sgl) d"
    by (rule v2_entry_written [where i = 0 and s = "pack_size 1 4" and a = "0x1010" and l = True,
          OF len _ pack_size_23]) simp_all
  have "read_entry d 0 = (True, 0x1010 AND NOT 3, take_bit 23 (pack_size 1 4))"
    by (rule read_written_entry [OF d(2)]) (simp_all add: zero_sgl_def)
  then have r: "read_entry d 0 = (True, 0x1010, pack_size 1 4)" by (simp add: pack_size_23)
  have z: "decode_size 0x1010 128 (pack_size 1 4) = 16"
    by (subst decode_pack_size) simp_all
  have m: "men_create_sgl_v2
      (\<lparr>physical_address = 0x1010, length_of = 4080\<rparr> # full_pages 1023 0x2000
        @ [\<lparr>physical_address = 0x401000, length_of = 16\<rparr>]) 128 [zero_sgl] phys_of
      = Some (1, [zero_sgl\<lparr>sgl_data := d\<rparr>])"
    using d(1) by (simp add: men_create_sgl_v2_def j s)
  show ?thesis using m r z by blast
qed

text \<open>
  The number \<^verbatim>\<open>men_create_sgl_v2\<close> returns is one too large when the last block is full: for five
  pieces it reports two blocks and has not touched the second.
\<close>

theorem sgl_v2_reports_an_unused_block:
  "\<exists>b. men_create_sgl_v2
      [\<lparr>physical_address = 0x1000, length_of = 4096\<rparr>, \<lparr>physical_address = 0x3000, length_of = 4096\<rparr>,
       \<lparr>physical_address = 0x5000, length_of = 4096\<rparr>, \<lparr>physical_address = 0x7000, length_of = 4096\<rparr>,
       \<lparr>physical_address = 0x9000, length_of = 4096\<rparr>] 128 [zero_sgl, c] phys_of = Some (2, [b, c])"
proof -
  define g :: "u64 \<Rightarrow> u64" where "g a = ucast (compute_group_size a 4096 128)" for a
  have lt: "0 < (5::nat)" "1 < (5::nat)" "Suc (Suc 0) < (5::nat)" "3 < (5::nat)" "4 < (5::nat)" by simp_all
  have len: "length (sgl_data zero_sgl) = 7" by (simp add: zero_sgl_def)
  obtain d1 where 1: "set_sgl_block_entry (sgl_data zero_sgl) 0 (drop_bit 2 0x1000) (g 0x1000) False = Some d1"
    "length d1 = 7" unfolding g_def using v2_entry [OF len lt(1)] by blast
  obtain d2 where 2: "set_sgl_block_entry d1 1 (drop_bit 2 0x3000) (g 0x3000) False = Some d2"
    "length d2 = 7" unfolding g_def using v2_entry [OF 1(2) lt(2)] by blast
  obtain d3 where 3: "set_sgl_block_entry d2 (Suc (Suc 0)) (drop_bit 2 0x5000) (g 0x5000) False = Some d3"
    "length d3 = 7" unfolding g_def using v2_entry [OF 2(2) lt(3)] by blast
  obtain d4 where 4: "set_sgl_block_entry d3 3 (drop_bit 2 0x7000) (g 0x7000) False = Some d4"
    "length d4 = 7" unfolding g_def using v2_entry [OF 3(2) lt(4)] by blast
  obtain d5 where 5: "set_sgl_block_entry d4 4 (drop_bit 2 0x9000) (g 0x9000) True = Some d5"
    unfolding g_def using v2_entry [OF 4(2) lt(5)] by blast
  show ?thesis
    using 1(1) 2(1) 3(1) 4(1) 5
    by (simp add: men_create_sgl_v2_def g_def [symmetric])
qed

section \<open>The dummy buffer\<close>

lemma length_init_block [simp]:
  "length (sgl_blocks (init_block_and_create_link_from_previous bb i s)) = length (sgl_blocks s)"
  by (simp add: init_block_and_create_link_from_previous_def create_link_in_previous_block_def Let_def)

lemma fill_loop_length:
  "fill_loop bb db l n ptr r s = Some (m, s') \<Longrightarrow> length (sgl_blocks s') = length (sgl_blocks s)"
proof (induction bb db l n ptr r s rule: fill_loop.induct)
  case (1 bb db l n ptr r s)
  show ?case
  proof (cases "r = 0 \<or> n div 5 \<ge> length (sgl_blocks s) \<or> max_pci_transfer_size s = 0")
    case True
    then show ?thesis using "1.prems" by (subst (asm) fill_loop.simps) (auto split: if_splits)
  next
    case False
    then have f: "r \<noteq> 0" "\<not> (n div 5 \<ge> length (sgl_blocks s) \<or> max_pci_transfer_size s = 0)" by auto
    note ih = "1.IH" [OF f(1) refl refl f(2) refl refl refl refl refl refl refl refl refl]
    from ih "1.prems" f show ?thesis
      by (subst (asm) (2) fill_loop.simps) (auto simp: Let_def split: if_splits)
  qed
qed

lemma fill_blocks_outside:
  "length (sgl_blocks s) \<le> n div 5 \<Longrightarrow> 0 < r \<Longrightarrow> fill_blocks bb db s n r v l = None"
  by (simp add: fill_blocks_def fill_loop.simps)

text \<open>
  \<^verbatim>\<open>create_for_dummy_buffer\<close> writes seven entries, as many as a block has data words, where a
  block has five: with one block, all a dummy buffer needs, it writes behind it.
\<close>

theorem dummy_sgl_writes_behind_its_block:
  assumes "length (sgl_blocks s) = 1"
  shows "create_for_dummy_buffer bb db s page = None"
proof -
  let ?step = "\<lambda>i so. Option.bind so (\<lambda>s. map_option snd (fill_blocks bb db s i 4096 page False))"
  have len: "case fold ?step [0..<n] (Some s) of None \<Rightarrow> True | Some s' \<Rightarrow> length (sgl_blocks s') = 1" for n
  proof (induction n)
    case (Suc n)
    then show ?case
      by (auto simp: fill_blocks_def dest: fill_loop_length split: option.splits)
  qed (simp add: assms)
  have "?step 5 (fold ?step [0..<5] (Some s)) = None"
    using len [of 5] by (cases "fold ?step [0..<5] (Some s)") (simp_all add: fill_blocks_outside)
  then have "fold ?step [0..<6] (Some s) = None"
    using upt_Suc_append [of 0 5] by (simp del: upt_Suc)
  then have "fold ?step [0..<7] (Some s) = None"
    using upt_Suc_append [of 0 6] by (simp del: upt_Suc)
  then show ?thesis by (simp add: create_for_dummy_buffer_def)
qed

theorem dummy_sgl_writes_behind_its_block_witness:
  "create_for_dummy_buffer (\<lambda>n. 64) (\<lambda>v. of_nat v) (men_me6sgl_init_dev2pc (\<lambda>n. 64) [zero_sgl] 256) 0x10000 = None"
  by (rule dummy_sgl_writes_behind_its_block)
    (simp add: men_me6sgl_init_dev2pc_def init_common_members_def)

end
