(* ===== verification/Image_Deque.thy ===== *)
theory Image_Deque
  imports Prelude
begin

text \<open>
  \<^verbatim>\<open>lib/acquisition/image_buffer_deque.c\<close> and \<^verbatim>\<open>image_buffer_manager.c\<close>: doubly linked lists of
  image buffers. The links are in the buffers, and the head of a deque is itself a buffer, so the
  state is a heap from nodes to the pair of pointers; \<open>None\<close> is \<^verbatim>\<open>NULL\<close>. The loops follow the
  pointers and do not end on a cyclic heap, so they are partial functions.
\<close>

datatype node = Head nat | Item nat

record links =
  previous :: "node option"
  follower :: "node option"

type_synonym link_heap = "node \<Rightarrow> links"

definition set_next :: "node \<Rightarrow> node option \<Rightarrow> link_heap \<Rightarrow> link_heap" where
  "set_next n p h = h(n := (h n)\<lparr>follower := p\<rparr>)"

definition set_previous :: "node \<Rightarrow> node option \<Rightarrow> link_heap \<Rightarrow> link_heap" where
  "set_previous n p h = h(n := (h n)\<lparr>previous := p\<rparr>)"

definition set_follower :: "node \<Rightarrow> node option \<Rightarrow> link_heap \<Rightarrow> link_heap" where
  "set_follower item f h =
     (let h1 = set_next item f h
      in case f of None \<Rightarrow> h1 | Some n \<Rightarrow> set_previous n (Some item) h1)"

definition is_item_already_linked :: "node \<Rightarrow> link_heap \<Rightarrow> bool" where
  "is_item_already_linked b h \<longleftrightarrow> follower (h b) \<noteq> None \<or> previous (h b) \<noteq> None"

definition unlink_item :: "node \<Rightarrow> link_heap \<Rightarrow> link_heap" where
  "unlink_item b h = set_next b None (set_previous b None h)"

definition image_buffer_init :: "node \<Rightarrow> link_heap \<Rightarrow> link_heap" where
  "image_buffer_init b h = set_next b None (set_previous b None h)"

section \<open>The operations of a deque\<close>

text \<open>A deque is named by the number of its head.\<close>

definition deque_is_empty :: "nat \<Rightarrow> link_heap \<Rightarrow> bool" where
  "deque_is_empty d h \<longleftrightarrow> follower (h (Head d)) = None"

definition deque_pop_front :: "nat \<Rightarrow> link_heap \<Rightarrow> node option \<times> link_heap" where
  "deque_pop_front d h =
     (case follower (h (Head d)) of
        None \<Rightarrow> (None, h)
      | Some item \<Rightarrow> (Some item, unlink_item item (set_follower (Head d) (follower (h item)) h)))"

partial_function (option) last_from :: "link_heap \<Rightarrow> node \<Rightarrow> node option" where
  "last_from h n = (case follower (h n) of None \<Rightarrow> Some n | Some m \<Rightarrow> last_from h m)"

definition get_last_entry :: "nat \<Rightarrow> link_heap \<Rightarrow> node option" where
  "get_last_entry d h = last_from h (Head d)"

text \<open>The status and the heap; no result if the search for the last entry does not end.\<close>

definition deque_push_back :: "nat \<Rightarrow> node option \<Rightarrow> link_heap \<Rightarrow> (int \<times> link_heap) option" where
  "deque_push_back d buffer h =
     (case buffer of
        None \<Rightarrow> Some (STATUS_ERR_INVALID_OPERATION, h)
      | Some b \<Rightarrow>
          if is_item_already_linked b h then Some (STATUS_ERR_INVALID_OPERATION, h)
          else map_option (\<lambda>l. (STATUS_OK, set_follower l (Some b) h)) (get_last_entry d h))"

partial_function (option) count_from :: "link_heap \<Rightarrow> node option \<Rightarrow> nat option" where
  "count_from h p =
     (case p of None \<Rightarrow> Some 0 | Some n \<Rightarrow> Option.bind (count_from h (follower (h n))) (\<lambda>k. Some (k + 1)))"

definition deque_size :: "nat \<Rightarrow> link_heap \<Rightarrow> nat option" where
  "deque_size d h = count_from h (follower (h (Head d)))"

partial_function (option) clear :: "nat \<Rightarrow> link_heap \<Rightarrow> link_heap option" where
  "clear d h = (if deque_is_empty d h then Some h else clear d (snd (deque_pop_front d h)))"

text \<open>The head is copied, pointers and all; the first buffer still points back to the old one.\<close>

definition pop_all :: "nat \<Rightarrow> nat \<Rightarrow> link_heap \<Rightarrow> link_heap" where
  "pop_all d target h = unlink_item (Head d) (h(Head target := h (Head d)))"

definition move_items_from :: "nat \<Rightarrow> nat \<Rightarrow> link_heap \<Rightarrow> link_heap option" where
  "move_items_from d source h =
     map_option (\<lambda>l. unlink_item (Head source) (set_follower l (follower (h (Head source))) h))
       (get_last_entry d h)"

partial_function (option) occurs_from :: "link_heap \<Rightarrow> node \<Rightarrow> node option \<Rightarrow> bool option" where
  "occurs_from h b p =
     (case p of None \<Rightarrow> Some False | Some n \<Rightarrow> if n = b then Some True else occurs_from h b (follower (h n)))"

text \<open>A buffer without a predecessor would be a write through \<^verbatim>\<open>NULL\<close>: no result.\<close>

definition remove :: "nat \<Rightarrow> node option \<Rightarrow> link_heap \<Rightarrow> (int \<times> link_heap) option" where
  "remove d buffer h =
     (if deque_is_empty d h then Some (STATUS_ERR_INVALID_OPERATION, h)
      else case buffer of
        None \<Rightarrow> Some (STATUS_ERR_INVALID_ARGUMENT, h)
      | Some b \<Rightarrow>
          (case occurs_from h b (follower (h (Head d))) of
             None \<Rightarrow> None
           | Some False \<Rightarrow> Some (STATUS_ERROR, h)
           | Some True \<Rightarrow>
               (case previous (h b) of
                  None \<Rightarrow> None
                | Some p \<Rightarrow> Some (STATUS_OK, unlink_item b (set_follower p (follower (h b)) h)))))"

definition image_buffer_deque_init :: "nat \<Rightarrow> link_heap \<Rightarrow> link_heap" where
  "image_buffer_deque_init d h = image_buffer_init (Head d) h"

section \<open>The manager\<close>

record image_buffer_manager =
  free_deque :: nat
  ready_deque :: nat
  hot_deque :: nat
  grabbed_deque :: nat
  done_deque :: nat

definition clear_all :: "image_buffer_manager \<Rightarrow> link_heap \<Rightarrow> link_heap option" where
  "clear_all m h =
     Option.bind (clear (free_deque m) h) (\<lambda>h1.
       Option.bind (clear (ready_deque m) h1) (\<lambda>h2.
         Option.bind (clear (hot_deque m) h2) (\<lambda>h3.
           Option.bind (clear (grabbed_deque m) h3) (clear (done_deque m)))))"

definition image_buffer_manager_init :: "image_buffer_manager \<Rightarrow> link_heap \<Rightarrow> link_heap" where
  "image_buffer_manager_init m h =
     fold image_buffer_deque_init
       [free_deque m, ready_deque m, hot_deque m, grabbed_deque m, done_deque m] h"

section \<open>The list a heap holds\<close>

text \<open>A doubly linked chain from a node through the given ones to the end.\<close>

fun chained :: "link_heap \<Rightarrow> node \<Rightarrow> node list \<Rightarrow> bool" where
  "chained h n [] \<longleftrightarrow> follower (h n) = None"
| "chained h n (m # ms) \<longleftrightarrow> follower (h n) = Some m \<and> previous (h m) = Some n \<and> chained h m ms"

definition holds :: "link_heap \<Rightarrow> nat \<Rightarrow> nat list \<Rightarrow> bool" where
  "holds h d xs \<longleftrightarrow> chained h (Head d) (map Item xs) \<and> distinct xs \<and> previous (h (Head d)) = None"

lemma links_after [simp]:
  "follower (set_next n p h m) = (if m = n then p else follower (h m))"
  "previous (set_next n p h m) = previous (h m)"
  "follower (set_previous n p h m) = follower (h m)"
  "previous (set_previous n p h m) = (if m = n then p else previous (h m))"
  "follower (set_follower n f h m) = (if m = n then f else follower (h m))"
  "previous (set_follower n f h m) = (if f = Some m then Some n else previous (h m))"
  "follower (unlink_item b h m) = (if m = b then None else follower (h m))"
  "previous (unlink_item b h m) = (if m = b then None else previous (h m))"
  by (auto simp: set_next_def set_previous_def set_follower_def unlink_item_def Let_def split: option.splits)

lemma chained_cong:
  assumes "follower (h n) = follower (h' n)"
    "\<And>m. m \<in> set ms \<Longrightarrow> follower (h m) = follower (h' m) \<and> previous (h m) = previous (h' m)"
  shows "chained h n ms = chained h' n ms"
  using assms by (induction ms arbitrary: n) auto

lemma chained_last: "chained h n ms \<Longrightarrow> last_from h n = Some (last (n # ms))"
  by (induction ms arbitrary: n) (auto simp: last_from.simps)

lemma chained_count: "chained h n ms \<Longrightarrow> count_from h (follower (h n)) = Some (length ms)"
  by (induction ms arbitrary: n) (auto simp: count_from.simps)

lemma chained_occurs: "chained h n ms \<Longrightarrow> occurs_from h b (follower (h n)) = Some (b \<in> set ms)"
  by (induction ms arbitrary: n) (auto simp: occurs_from.simps)

lemma chained_linked:
  "chained h n ms \<Longrightarrow> m \<in> set ms \<Longrightarrow> previous (h m) \<noteq> None"
  by (induction ms arbitrary: n) auto

text \<open>Joining a chain onto the end of another one.\<close>

lemma chained_join:
  assumes "chained h n xs" "distinct (n # xs)" "set (n # xs) \<inter> set ys = {}" "distinct ys"
    "case ys of [] \<Rightarrow> True | y # zs \<Rightarrow> chained h y zs"
  shows "chained (set_follower (last (n # xs)) (case ys of [] \<Rightarrow> None | y # _ \<Rightarrow> Some y) h) n (xs @ ys)"
  using assms
proof (induction xs arbitrary: n)
  case Nil
  show ?case
  proof (cases ys)
    case (Cons y zs)
    have "chained (set_follower n (Some y) h) y zs = chained h y zs"
      by (rule chained_cong) (use Nil.prems Cons in auto)
    with Nil.prems Cons show ?thesis by simp
  qed simp
next
  case (Cons x xs)
  let ?h = "set_follower (last (x # xs)) (case ys of [] \<Rightarrow> None | y # _ \<Rightarrow> Some y) h"
  have "chained ?h x (xs @ ys)" using Cons.IH [of x] Cons.prems by auto
  moreover have "n \<noteq> last (x # xs)" using Cons.prems(2) last_in_set [of "x # xs"] by auto
  moreover have "x \<notin> set ys" using Cons.prems(3) by simp
  ultimately show ?case using Cons.prems(1) by (auto split: list.splits)
qed

lemma chained_suffix: "chained h n (xs @ b # ys) \<Longrightarrow> chained h b ys"
  by (induction xs arbitrary: n) auto

text \<open>Taking a node out of a chain.\<close>

lemma chained_take_out:
  assumes "chained h n (xs @ b # ys)" "distinct (n # xs @ b # ys)"
  shows "previous (h b) = Some (last (n # xs))
    \<and> chained (unlink_item b (set_follower (last (n # xs)) (follower (h b)) h)) n (xs @ ys)"
  using assms
proof (induction xs arbitrary: n)
  case Nil
  show ?case
  proof (cases ys)
    case (Cons y zs)
    have "chained (unlink_item b (set_follower n (Some y) h)) y zs = chained h y zs"
      by (rule chained_cong) (use Nil.prems Cons in auto)
    with Nil.prems Cons show ?thesis by auto
  qed (use Nil.prems in auto)
next
  case (Cons x xs)
  have ih: "previous (h b) = Some (last (x # xs))
    \<and> chained (unlink_item b (set_follower (last (x # xs)) (follower (h b)) h)) x (xs @ ys)"
    using Cons.IH [of x] Cons.prems by auto
  have "n \<noteq> last (x # xs)" using Cons.prems(2) last_in_set [of "x # xs"] by auto
  moreover have "follower (h b) \<noteq> Some x"
  proof
    assume "follower (h b) = Some x"
    then have "x \<in> set ys" using chained_suffix [OF Cons.prems(1)] by (cases ys) auto
    with Cons.prems(2) show False by simp
  qed
  ultimately show ?case using Cons.prems ih by auto
qed

section \<open>What the operations do to the list\<close>

lemma last_items: "last (Head d # map Item xs) = (if xs = [] then Head d else Item (last xs))"
  by (simp add: last_map)

lemma holds_distinct: "holds h d xs \<Longrightarrow> distinct (Head d # map Item xs)"
  by (auto simp: holds_def distinct_map inj_on_def)

lemma holds_empty: "holds h d xs \<Longrightarrow> deque_is_empty d h \<longleftrightarrow> xs = []"
  by (cases xs) (auto simp: holds_def deque_is_empty_def)

lemma holds_last: "holds h d xs \<Longrightarrow> get_last_entry d h = Some (last (Head d # map Item xs))"
  unfolding holds_def get_last_entry_def by (blast intro: chained_last)

lemma holds_size: "holds h d xs \<Longrightarrow> deque_size d h = Some (length xs)"
  using chained_count [of h "Head d" "map Item xs"] by (simp add: holds_def deque_size_def)

lemma holds_linked: "holds h d xs \<Longrightarrow> x \<in> set xs \<Longrightarrow> is_item_already_linked (Item x) h"
  using chained_linked [of h "Head d" "map Item xs" "Item x"]
  by (auto simp: holds_def is_item_already_linked_def)

lemma deque_push_spec:
  assumes "holds h d xs" "\<not> is_item_already_linked (Item x) h"
  obtains h' where "deque_push_back d (Some (Item x)) h = Some (STATUS_OK, h')" "holds h' d (xs @ [x])"
    "h' = set_follower (last (Head d # map Item xs)) (Some (Item x)) h"
proof -
  let ?h = "set_follower (last (Head d # map Item xs)) (Some (Item x)) h"
  have x: "x \<notin> set xs" using holds_linked [OF assms(1)] assms(2) by blast
  then have "Item x \<notin> Item ` set xs" by auto
  then have "chained ?h (Head d) (map Item xs @ [Item x])"
    using chained_join [of h "Head d" "map Item xs" "[Item x]"] assms holds_distinct [OF assms(1)] x
    by (auto simp: holds_def is_item_already_linked_def)
  then have "holds ?h d (xs @ [x])" using assms(1) x by (auto simp: holds_def)
  moreover have "deque_push_back d (Some (Item x)) h = Some (STATUS_OK, ?h)"
    using assms by (simp add: deque_push_back_def holds_last)
  ultimately show thesis by (rule that [OF _ _ refl, rotated])
qed

lemma remove_at:
  assumes "holds h d (xs @ x # ys)"
  shows "remove d (Some (Item x)) h
      = Some (STATUS_OK, unlink_item (Item x) (set_follower (last (Head d # map Item xs)) (follower (h (Item x))) h))"
    "holds (unlink_item (Item x) (set_follower (last (Head d # map Item xs)) (follower (h (Item x))) h)) d (xs @ ys)"
proof -
  have c: "chained h (Head d) (map Item xs @ Item x # map Item ys)"
    "distinct (Head d # map Item xs @ Item x # map Item ys)"
    using assms holds_distinct [OF assms] by (auto simp: holds_def)
  note t = chained_take_out [OF c]
  have "\<not> deque_is_empty d h" using holds_empty [OF assms] by simp
  moreover have "occurs_from h (Item x) (follower (h (Head d))) = Some True"
    using chained_occurs [OF c(1), of "Item x"] by simp
  ultimately show "remove d (Some (Item x)) h
      = Some (STATUS_OK, unlink_item (Item x) (set_follower (last (Head d # map Item xs)) (follower (h (Item x))) h))"
    using t by (simp add: remove_def del: last.simps)
  have "follower (h (Item x)) \<noteq> Some (Head d)"
  proof
    assume "follower (h (Item x)) = Some (Head d)"
    then have "Head d \<in> set (map Item ys)"
      using chained_suffix [OF c(1)] by (cases ys) auto
    then show False by auto
  qed
  then show "holds (unlink_item (Item x) (set_follower (last (Head d # map Item xs)) (follower (h (Item x))) h)) d (xs @ ys)"
    using t assms by (auto simp: holds_def simp del: last.simps)
qed

lemma deque_pop_spec:
  assumes "holds h d (x # xs)"
  shows "deque_pop_front d h = (Some (Item x), unlink_item (Item x) (set_follower (Head d) (follower (h (Item x))) h))"
    "holds (snd (deque_pop_front d h)) d xs" "\<not> is_item_already_linked (Item x) (snd (deque_pop_front d h))"
proof -
  have "follower (h (Head d)) = Some (Item x)" using assms by (simp add: holds_def)
  then show p: "deque_pop_front d h
      = (Some (Item x), unlink_item (Item x) (set_follower (Head d) (follower (h (Item x))) h))"
    by (simp add: deque_pop_front_def)
  show "holds (snd (deque_pop_front d h)) d xs"
    using remove_at(2) [of h d "[]" x xs] assms by (simp add: p)
  show "\<not> is_item_already_linked (Item x) (snd (deque_pop_front d h))"
    by (simp add: p is_item_already_linked_def)
qed

lemma pop_front_empty: "holds h d [] \<Longrightarrow> deque_pop_front d h = (None, h)"
  by (simp add: holds_def deque_pop_front_def)

text \<open>What an operation on one deque leaves of another one.\<close>

lemma holds_frame:
  assumes "holds h d xs"
    "\<And>m. m \<in> insert (Head d) (Item ` set xs)
      \<Longrightarrow> follower (h' m) = follower (h m) \<and> previous (h' m) = previous (h m)"
  shows "holds h' d xs"
  using assms chained_cong [of h "Head d" h' "map Item xs"] by (auto simp: holds_def)

lemma clear_spec:
  "holds h d xs \<Longrightarrow> \<exists>h'. clear d h = Some h' \<and> holds h' d []
     \<and> (\<forall>x \<in> set xs. \<not> is_item_already_linked (Item x) h')
     \<and> (\<forall>m. m \<notin> insert (Head d) (Item ` set xs) \<longrightarrow> follower (h' m) = follower (h m) \<and> previous (h' m) = previous (h m))"
proof (induction xs arbitrary: h)
  case Nil
  then show ?case using holds_empty by (subst clear.simps) simp
next
  case (Cons x xs)
  let ?h = "snd (deque_pop_front d h)"
  note p = deque_pop_spec [OF Cons.prems]
  have x: "x \<notin> set xs" using Cons.prems by (simp add: holds_def)
  from Cons.IH [OF p(2)] obtain h' where h': "clear d ?h = Some h'" "holds h' d []"
    "\<forall>x \<in> set xs. \<not> is_item_already_linked (Item x) h'"
    "\<forall>m. m \<notin> insert (Head d) (Item ` set xs) \<longrightarrow> follower (h' m) = follower (?h m) \<and> previous (h' m) = previous (?h m)"
    by blast
  have "clear d h = Some h'"
    using h'(1) holds_empty [OF Cons.prems] by (subst clear.simps) simp
  moreover have "\<not> is_item_already_linked (Item x) h'"
    using h'(4) p(3) x by (auto simp: is_item_already_linked_def)
  moreover have "follower (h' m) = follower (h m) \<and> previous (h' m) = previous (h m)"
    if "m \<notin> insert (Head d) (Item ` set (x # xs))" for m
  proof -
    have "follower (h (Item x)) \<noteq> Some m"
      using Cons.prems that by (cases xs) (auto simp: holds_def)
    then show ?thesis using h'(4) that by (auto simp: p(1))
  qed
  ultimately show ?case using h'(2,3) by auto
qed

end
