(* ===== verification/Image_Deque_Props.thy ===== *)
theory Image_Deque_Props
  imports Image_Deque
begin

text \<open>
  A deque of image buffers refines a list of distinct numbers, operation by operation and over any
  history; it is a queue in the sense of \<open>fifo\<close>; moving all buffers to another deque keeps
  their order, but \<^verbatim>\<open>pop_all\<close> leaves a pointer to the old head behind.
\<close>

section \<open>Histories\<close>

datatype deque_op = Push nat | Pop | Remove nat

datatype deque_result = Status int | Buffer "nat option"

fun item_number :: "node \<Rightarrow> nat" where
  "item_number (Item x) = x"
| "item_number (Head d) = d"

fun deque_step :: "nat \<Rightarrow> deque_op \<Rightarrow> link_heap \<Rightarrow> (deque_result \<times> link_heap) option" where
  "deque_step d (Push x) h = map_option (\<lambda>(s, h). (Status s, h)) (deque_push_back d (Some (Item x)) h)"
| "deque_step d Pop h = (let (b, h1) = deque_pop_front d h in Some (Buffer (map_option item_number b), h1))"
| "deque_step d (Remove x) h = map_option (\<lambda>(s, h). (Status s, h)) (remove d (Some (Item x)) h)"

fun list_step :: "deque_op \<Rightarrow> nat list \<Rightarrow> deque_result \<times> nat list" where
  "list_step (Push x) xs =
     (if x \<in> set xs then (Status STATUS_ERR_INVALID_OPERATION, xs) else (Status STATUS_OK, xs @ [x]))"
| "list_step Pop xs = (case xs of [] \<Rightarrow> (Buffer None, []) | x # ys \<Rightarrow> (Buffer (Some x), ys))"
| "list_step (Remove x) xs =
     (if xs = [] then (Status STATUS_ERR_INVALID_OPERATION, xs)
      else if x \<in> set xs then (Status STATUS_OK, remove1 x xs) else (Status STATUS_ERROR, xs))"

fun deque_run :: "nat \<Rightarrow> deque_op list \<Rightarrow> link_heap \<Rightarrow> (deque_result list \<times> link_heap) option" where
  "deque_run d [] h = Some ([], h)"
| "deque_run d (op # ops) h =
     Option.bind (deque_step d op h) (\<lambda>(r, h1). map_option (\<lambda>(rs, h2). (r # rs, h2)) (deque_run d ops h1))"

fun list_run :: "deque_op list \<Rightarrow> nat list \<Rightarrow> deque_result list \<times> nat list" where
  "list_run [] xs = ([], xs)"
| "list_run (op # ops) xs =
     (let (r, ys) = list_step op xs; (rs, zs) = list_run ops ys in (r # rs, zs))"

text \<open>The deque is the only one that has buffers.\<close>

definition sole :: "link_heap \<Rightarrow> nat \<Rightarrow> nat list \<Rightarrow> bool" where
  "sole h d xs \<longleftrightarrow> holds h d xs \<and> (\<forall>x. is_item_already_linked (Item x) h \<longleftrightarrow> x \<in> set xs)"

lemma sole_holds: "sole h d xs \<Longrightarrow> holds h d xs"
  by (simp add: sole_def)

lemma sole_linked: "sole h d xs \<Longrightarrow> is_item_already_linked (Item x) h \<longleftrightarrow> x \<in> set xs"
  by (simp add: sole_def)

lemma last_not_item: "y \<notin> set xs \<Longrightarrow> Item y \<noteq> last (Head d # map Item xs)"
  by (cases "xs = []") (auto simp: last_map)

lemma sole_push:
  assumes "sole h d xs" "x \<notin> set xs"
  obtains h' where "deque_push_back d (Some (Item x)) h = Some (STATUS_OK, h')" "sole h' d (xs @ [x])"
proof -
  have un: "\<not> is_item_already_linked (Item x) h" using assms by (simp add: sole_linked)
  obtain h' where h': "deque_push_back d (Some (Item x)) h = Some (STATUS_OK, h')" "holds h' d (xs @ [x])"
    "h' = set_follower (last (Head d # map Item xs)) (Some (Item x)) h"
    by (rule deque_push_spec [OF sole_holds [OF assms(1)] un])
  have "is_item_already_linked (Item y) h' \<longleftrightarrow> y \<in> set (xs @ [x])" for y
  proof (cases "y = x \<or> y \<in> set xs")
    case True
    then show ?thesis using holds_linked [OF h'(2), of y] by auto
  next
    case False
    then have "Item y \<noteq> last (Head d # map Item xs)" using last_not_item by blast
    with False have "is_item_already_linked (Item y) h' \<longleftrightarrow> is_item_already_linked (Item y) h"
      by (auto simp: h'(3) is_item_already_linked_def)
    with False assms(1) show ?thesis by (simp add: sole_linked)
  qed
  with h' that show thesis by (simp add: sole_def)
qed

lemma sole_remove:
  assumes "sole h d (xs @ x # ys)"
  obtains h' where "remove d (Some (Item x)) h = Some (STATUS_OK, h')" "sole h' d (xs @ ys)"
    "h' = unlink_item (Item x) (set_follower (last (Head d # map Item xs)) (follower (h (Item x))) h)"
proof -
  note r = remove_at [OF sole_holds [OF assms]]
  let ?h = "unlink_item (Item x) (set_follower (last (Head d # map Item xs)) (follower (h (Item x))) h)"
  have x: "x \<notin> set (xs @ ys)" using assms by (auto simp: sole_def holds_def)
  have "is_item_already_linked (Item y) ?h \<longleftrightarrow> y \<in> set (xs @ ys)" for y
  proof (cases "y \<in> set (xs @ ys)")
    case True
    then show ?thesis using holds_linked [OF r(2)] by blast
  next
    case y: False
    show ?thesis
    proof (cases "y = x")
      case True
      with y show ?thesis by (simp add: is_item_already_linked_def)
    next
      case False
      with y have un: "\<not> is_item_already_linked (Item y) h" using assms by (simp add: sole_linked)
      have "Item y \<noteq> last (Head d # map Item xs)" using y last_not_item by simp
      moreover have "follower (h (Item x)) \<noteq> Some (Item y)"
      proof
        assume f: "follower (h (Item x)) = Some (Item y)"
        have "chained h (Item x) (map Item ys)"
          using chained_suffix [of h "Head d" "map Item xs" "Item x" "map Item ys"] assms
          by (simp add: sole_def holds_def)
        with f have "y \<in> set ys" by (cases ys) auto
        with y show False by simp
      qed
      ultimately show ?thesis using un y False by (simp add: is_item_already_linked_def)
    qed
  qed
  with r that show thesis by (simp add: sole_def del: last.simps)
qed

lemma sole_pop:
  assumes "sole h d (x # xs)"
  shows "fst (deque_pop_front d h) = Some (Item x)" "sole (snd (deque_pop_front d h)) d xs"
proof -
  obtain h' where h': "sole h' d ([] @ xs)"
    "h' = unlink_item (Item x) (set_follower (last (Head d # map Item [])) (follower (h (Item x))) h)"
    using sole_remove [of h d "[]" x xs] assms by (metis append_Nil)
  note p = deque_pop_spec [OF sole_holds [OF assms]]
  show "fst (deque_pop_front d h) = Some (Item x)" by (simp add: p(1))
  show "sole (snd (deque_pop_front d h)) d xs" using h' by (simp add: p(1))
qed

lemma deque_step_refines:
  assumes "sole h d xs"
  shows "\<exists>h'. deque_step d op h = Some (fst (list_step op xs), h') \<and> sole h' d (snd (list_step op xs))"
proof (cases op)
  case (Push x)
  show ?thesis
  proof (cases "x \<in> set xs")
    case True
    then have "is_item_already_linked (Item x) h" using assms by (simp add: sole_linked)
    with True Push assms show ?thesis by (simp add: deque_push_back_def)
  next
    case False
    obtain h' where "deque_push_back d (Some (Item x)) h = Some (STATUS_OK, h')" "sole h' d (xs @ [x])"
      by (rule sole_push [OF assms False])
    with False Push show ?thesis by simp
  qed
next
  case Pop
  show ?thesis
  proof (cases xs)
    case Nil
    with Pop assms show ?thesis by (simp add: pop_front_empty sole_holds)
  next
    case (Cons x ys)
    with sole_pop [of h d x ys] assms Pop show ?thesis by (simp add: case_prod_beta)
  qed
next
  case (Remove x)
  show ?thesis
  proof (cases "x \<in> set xs")
    case True
    then obtain ys zs where xs: "xs = ys @ x # zs" "x \<notin> set ys" by (meson split_list_first)
    obtain h' where "remove d (Some (Item x)) h = Some (STATUS_OK, h')" "sole h' d (ys @ zs)"
      by (rule sole_remove [OF assms [unfolded xs(1)]])
    with xs Remove show ?thesis by (simp add: remove1_append)
  next
    case False
    have "chained h (Head d) (map Item xs)" using assms by (simp add: sole_def holds_def)
    then have "occurs_from h (Item x) (follower (h (Head d))) = Some False"
      using chained_occurs [of h "Head d" "map Item xs" "Item x"] False by auto
    with False Remove assms holds_empty [OF sole_holds [OF assms]] show ?thesis
      by (cases "xs = []") (simp_all add: remove_def)
  qed
qed


definition blank_heap :: link_heap where
  "blank_heap = (\<lambda>_. \<lparr>previous = None, follower = None\<rparr>)"

lemma sole_init: "sole (image_buffer_deque_init d blank_heap) d []"
  by (simp add: sole_def holds_def is_item_already_linked_def image_buffer_deque_init_def
      image_buffer_init_def blank_heap_def)


section \<open>A deque is a queue\<close>

partial_function (option) items_from :: "link_heap \<Rightarrow> node option \<Rightarrow> nat list option" where
  "items_from h p =
     (case p of None \<Rightarrow> Some []
      | Some n \<Rightarrow> Option.bind (items_from h (follower (h n))) (\<lambda>xs. Some (item_number n # xs)))"

definition deque_contents :: "nat \<Rightarrow> link_heap \<Rightarrow> nat list" where
  "deque_contents d h = the (items_from h (follower (h (Head d))))"

lemma chained_items: "chained h n (map Item xs) \<Longrightarrow> items_from h (follower (h n)) = Some xs"
  by (induction xs arbitrary: n) (auto simp: items_from.simps)

lemma sole_contents: "sole h d xs \<Longrightarrow> deque_contents d h = xs"
  using chained_items [of h "Head d" xs] by (simp add: sole_def holds_def deque_contents_def)

definition deque_ok :: "nat \<Rightarrow> link_heap \<Rightarrow> bool" where
  "deque_ok d h \<longleftrightarrow> (\<exists>xs. sole h d xs)"

definition deque_room :: "link_heap \<Rightarrow> nat list \<Rightarrow> bool" where
  "deque_room h xs \<longleftrightarrow> distinct xs \<and> (\<forall>x \<in> set xs. \<not> is_item_already_linked (Item x) h)"

definition deque_put :: "nat \<Rightarrow> nat \<Rightarrow> link_heap \<Rightarrow> link_heap" where
  "deque_put d x h = snd (the (deque_push_back d (Some (Item x)) h))"

definition deque_get :: "nat \<Rightarrow> link_heap \<Rightarrow> nat option \<times> link_heap" where
  "deque_get d h = (map_option item_number (fst (deque_pop_front d h)), snd (deque_pop_front d h))"

lemma deque_ok_sole: "deque_ok d h \<longleftrightarrow> sole h d (deque_contents d h)"
  by (auto simp: deque_ok_def sole_contents)

lemma deque_put_sole:
  assumes "sole h d ys" "deque_room h (x # xs)"
  shows "sole (deque_put d x h) d (ys @ [x])" "deque_room (deque_put d x h) xs"
proof -
  have "x \<notin> set ys" using assms by (auto simp: deque_room_def sole_linked)
  then obtain h' where h': "deque_push_back d (Some (Item x)) h = Some (STATUS_OK, h')" "sole h' d (ys @ [x])"
    by (rule sole_push [OF assms(1)])
  then show s: "sole (deque_put d x h) d (ys @ [x])" by (simp add: deque_put_def)
  show "deque_room (deque_put d x h) xs"
    using assms by (auto simp: deque_room_def sole_linked [OF s] sole_linked [OF assms(1)])
qed

lemma deque_get_sole:
  assumes "sole h d xs"
  shows "sole (snd (deque_get d h)) d (tl xs)" "fst (deque_get d h) = (case xs of [] \<Rightarrow> None | x # _ \<Rightarrow> Some x)"
  using sole_pop [of h d "hd xs" "tl xs"] assms pop_front_empty [of h d]
  by (cases xs; simp add: deque_get_def sole_holds)+

interpretation deque: fifo "deque_ok d" "deque_contents d" deque_room "deque_put d" "deque_get d" for d
proof
  fix s x and xs :: "nat list"
  assume s: "deque_ok d s"
  then have sole: "sole s d (deque_contents d s)" by (simp add: deque_ok_sole)
  {
    assume r: "deque_room s (x # xs)"
    note p = deque_put_sole [OF sole r]
    show "deque_ok d (deque_put d x s)" using p(1) by (auto simp: deque_ok_def)
    show "deque_contents d (deque_put d x s) = deque_contents d s @ [x]" by (rule sole_contents [OF p(1)])
    show "deque_room (deque_put d x s) xs" by (rule p(2))
  }
  note g = deque_get_sole [OF sole]
  show "fst (deque_get d s) = None" if "deque_contents d s = []" using g(2) that by simp
  show "fst (deque_get d s) = Some x" if "deque_contents d s = x # xs" using g(2) that by simp
  show "deque_contents d (snd (deque_get d s)) = tl (deque_contents d s)" by (rule sole_contents [OF g(1)])
  show "deque_ok d (snd (deque_get d s))" using g(1) by (auto simp: deque_ok_def)
qed

text \<open>Buffers put into an empty deque come out in the order they went in.\<close>

lemma deque_is_fifo:
  assumes "distinct xs"
  shows "fst (get_many (deque_get d) (length xs)
      (put_all (deque_put d) xs (image_buffer_deque_init d blank_heap))) = xs"
proof (rule deque.put_all_get_many)
  show "deque_ok d (image_buffer_deque_init d blank_heap)" using sole_init by (auto simp: deque_ok_def)
  show "deque_contents d (image_buffer_deque_init d blank_heap) = []" by (rule sole_contents [OF sole_init])
  show "deque_room (image_buffer_deque_init d blank_heap) xs"
    using assms by (simp add: deque_room_def sole_linked [OF sole_init])
qed

section \<open>Two deques\<close>

text \<open>
  \<^verbatim>\<open>move_items_from\<close> appends all buffers of the other deque, in order, and empties it. After
  \<^verbatim>\<open>pop_all\<close> the first buffer still points back to the head it came from, so \<^verbatim>\<open>remove\<close> on the new
  deque reports success, unlinks the buffer, and leaves it at the front of the new deque; the rest
  is back in the old one.
\<close>

theorem moving_all_buffers:
  assumes "holds h d xs" "holds h s (y # zs)" "d \<noteq> s" "set xs \<inter> set (y # zs) = {}" "t \<noteq> s"
  shows "(\<exists>h'. move_items_from d s h = Some h' \<and> holds h' d (xs @ y # zs) \<and> holds h' s [])
    \<and> (\<exists>h'. remove t (Some (Item y)) (pop_all s t h) = Some (STATUS_OK, h')
         \<and> follower (h' (Head t)) = Some (Item y) \<and> \<not> is_item_already_linked (Item y) h'
         \<and> follower (h' (Head s)) = (case zs of [] \<Rightarrow> None | z # _ \<Rightarrow> Some (Item z)))"
proof
  let ?l = "last (Head d # map Item xs)"
  let ?h = "unlink_item (Head s) (set_follower ?l (Some (Item y)) h)"
  have s: "follower (h (Head s)) = Some (Item y)" "previous (h (Item y)) = Some (Head s)"
    "chained h (Item y) (map Item zs)" "distinct (y # zs)"
    using assms(2) by (auto simp: holds_def)
  have l: "?l \<noteq> Head s" using assms(3) by (cases "xs = []") (auto simp: last_map)
  have "chained (set_follower ?l (Some (Item y)) h) (Head d) (map Item xs @ map Item (y # zs))"
    using chained_join [of h "Head d" "map Item xs" "map Item (y # zs)"] assms(1,4) s holds_distinct [OF assms(1)]
    by (auto simp: holds_def distinct_map inj_on_def simp del: last.simps)
  then have "chained ?h (Head d) (map Item xs @ map Item (y # zs))"
    by (rule chained_cong [THEN iffD1, rotated -1]) (use assms(3) l in \<open>auto simp del: last.simps\<close>)
  moreover have "previous (?h (Head d)) = None" using assms(1,3) by (simp add: holds_def)
  ultimately have "holds ?h d (xs @ y # zs)" using assms(1,4) s(4) by (auto simp: holds_def)
  moreover have "holds ?h s []" by (simp add: holds_def)
  moreover have "move_items_from d s h = Some ?h"
    by (simp add: move_items_from_def holds_last [OF assms(1)] s(1) del: last.simps)
  ultimately show "\<exists>h'. move_items_from d s h = Some h' \<and> holds h' d (xs @ y # zs) \<and> holds h' s []" by blast
next
  have y: "follower (h (Head s)) = Some (Item y)" "previous (h (Item y)) = Some (Head s)"
    "follower (h (Item y)) = (case zs of [] \<Rightarrow> None | z # _ \<Rightarrow> Some (Item z))"
    using assms(2) by (auto simp: holds_def split: list.splits)
  have oc: "occurs_from g b (Some b) = Some True" for g b
    by (subst occurs_from.simps) simp
  show "\<exists>h'. remove t (Some (Item y)) (pop_all s t h) = Some (STATUS_OK, h')
         \<and> follower (h' (Head t)) = Some (Item y) \<and> \<not> is_item_already_linked (Item y) h'
         \<and> follower (h' (Head s)) = (case zs of [] \<Rightarrow> None | z # _ \<Rightarrow> Some (Item z))"
    using y assms(5) by (auto simp: remove_def deque_is_empty_def pop_all_def is_item_already_linked_def oc
        split: list.splits)
qed

lemma demo_two_deques:
  obtains h where "holds h 0 [1]" "holds h 1 [2, 3]"
proof -
  let ?e = "\<lparr>previous = None, follower = None\<rparr>"
  let ?h = "(\<lambda>n. ?e)(Head 0 := ?e\<lparr>follower := Some (Item 1)\<rparr>, Item 1 := ?e\<lparr>previous := Some (Head 0)\<rparr>,
      Head 1 := ?e\<lparr>follower := Some (Item 2)\<rparr>,
      Item 2 := \<lparr>previous = Some (Head 1), follower = Some (Item 3)\<rparr>,
      Item 3 := ?e\<lparr>previous := Some (Item 2)\<rparr>)"
  have "holds ?h 0 [1]" "holds ?h 1 [2, 3]" by (simp_all add: holds_def)
  then show thesis by (rule that)
qed

theorem moving_all_buffers_witness:
  "\<exists>h h' h''. move_items_from 0 1 h = Some h' \<and> holds h' 0 [1, 2, 3] \<and> holds h' 1 []
     \<and> remove 2 (Some (Item 2)) (pop_all 1 2 h) = Some (STATUS_OK, h'')
     \<and> follower (h'' (Head 2)) = Some (Item 2) \<and> follower (h'' (Head 1)) = Some (Item 3)"
proof -
  obtain h where h: "holds h 0 [1]" "holds h 1 [2, 3]" by (rule demo_two_deques)
  from moving_all_buffers [OF h, of 2] show ?thesis by (simp, blast)
qed

end
