(* ===== verification/Linked_List.thy ===== *)
theory Linked_List
  imports Prelude
begin

text \<open>
  The singly linked list of \<^verbatim>\<open>lib/helpers/linked_list.c\<close>: a record of the head, the tail and the
  size, and the \<^verbatim>\<open>next\<close> pointers of the entries as a heap. The search of \<^verbatim>\<open>men_list_pop_back\<close> follows
  the pointers; following \<^verbatim>\<open>NULL\<close> and not ending are both no result. The list refines a list of
  distinct entries under all its operations and is a queue in the sense of \<open>fifo\<close>.
\<close>

type_synonym entry = nat

record men_list =
  list_size :: u32
  list_head :: "entry option"
  list_tail :: "entry option"

type_synonym next_heap = "entry \<Rightarrow> entry option"

definition men_list_init :: men_list where
  "men_list_init = \<lparr>list_size = 0, list_head = None, list_tail = None\<rparr>"

definition men_list_push_front :: "entry \<Rightarrow> men_list \<times> next_heap \<Rightarrow> men_list \<times> next_heap" where
  "men_list_push_front e = (\<lambda>(l, h).
     (l\<lparr>list_head := Some e, list_tail := (if list_tail l = None then Some e else list_tail l),
        list_size := list_size l + 1\<rparr>, h(e := list_head l)))"

text \<open>The tail of a list with a head is not \<^verbatim>\<open>NULL\<close>.\<close>

definition men_list_push_back :: "entry \<Rightarrow> men_list \<times> next_heap \<Rightarrow> men_list \<times> next_heap" where
  "men_list_push_back e = (\<lambda>(l, h).
     (case list_head l of
        None \<Rightarrow> (l\<lparr>list_head := Some e, list_tail := Some e, list_size := list_size l + 1\<rparr>, h(e := None))
      | Some _ \<Rightarrow>
          (l\<lparr>list_tail := Some e, list_size := list_size l + 1\<rparr>,
           (h(e := None))(the (list_tail l) := Some e))))"

definition men_list_peek_front :: "men_list \<times> next_heap \<Rightarrow> entry option" where
  "men_list_peek_front = (\<lambda>(l, h). list_head l)"

definition men_list_peek_back :: "men_list \<times> next_heap \<Rightarrow> entry option" where
  "men_list_peek_back = (\<lambda>(l, h). list_tail l)"

definition men_list_pop_front :: "men_list \<times> next_heap \<Rightarrow> entry option \<times> men_list \<times> next_heap" where
  "men_list_pop_front = (\<lambda>(l, h).
     (if list_size l > 0 then
        let e = the (list_head l)
        in (Some e, l\<lparr>list_head := h e, list_tail := (if list_tail l = Some e then None else list_tail l),
                      list_size := list_size l - 1\<rparr>, h(e := None))
      else (None, l, h)))"

partial_function (option) before_tail :: "next_heap \<Rightarrow> entry option \<Rightarrow> entry \<Rightarrow> entry option" where
  "before_tail h t e =
     (if h e = t then Some e else case h e of None \<Rightarrow> None | Some n \<Rightarrow> before_tail h t n)"

definition men_list_pop_back ::
    "men_list \<times> next_heap \<Rightarrow> (entry option \<times> men_list \<times> next_heap) option" where
  "men_list_pop_back = (\<lambda>(l, h).
     (if list_size l = 1 then
        Some (list_head l, l\<lparr>list_head := None, list_tail := None, list_size := 0\<rparr>, h)
      else if list_size l > 1 then
        (case Option.bind (list_head l) (before_tail h (list_tail l)) of
           None \<Rightarrow> None
         | Some e \<Rightarrow> Some (h e, l\<lparr>list_tail := Some e, list_size := list_size l - 1\<rparr>, h(e := None)))
      else Some (None, l, h)))"

section \<open>The list a state holds\<close>

fun path :: "next_heap \<Rightarrow> entry option \<Rightarrow> entry list \<Rightarrow> bool" where
  "path h p [] \<longleftrightarrow> p = None"
| "path h p (x # xs) \<longleftrightarrow> p = Some x \<and> path h (h x) xs"

definition list_of :: "men_list \<times> next_heap \<Rightarrow> entry list \<Rightarrow> bool" where
  "list_of s xs \<longleftrightarrow> path (snd s) (list_head (fst s)) xs
     \<and> list_tail (fst s) = (if xs = [] then None else Some (last xs))
     \<and> list_size (fst s) = of_nat (length xs) \<and> distinct xs \<and> length xs < 4294967296"

lemma path_upd [simp]: "e \<notin> set xs \<Longrightarrow> path (h(e := q)) p xs = path h p xs"
  by (induction xs arbitrary: p) auto

lemma path_snoc: "path h p (xs @ [x]) \<Longrightarrow> distinct (xs @ [x]) \<Longrightarrow> e \<notin> set (xs @ [x])
  \<Longrightarrow> path ((h(e := None))(x := Some e)) p (xs @ [x, e])"
  by (induction xs arbitrary: p) auto

lemma list_size_0: "list_of s xs \<Longrightarrow> list_size (fst s) = 0 \<longleftrightarrow> xs = []"
  by (auto simp: list_of_def u32_of_nat_eq_0)

lemma push_back_list:
  assumes "list_of s xs" "e \<notin> set xs" "Suc (length xs) < 4294967296"
  shows "list_of (men_list_push_back e s) (xs @ [e])"
proof (cases xs rule: rev_cases)
  case Nil
  with assms show ?thesis by (auto simp: list_of_def men_list_push_back_def split: prod.splits)
next
  case (snoc ys y)
  obtain l h where s: "s = (l, h)" by (cases s)
  obtain z where "list_head l = Some z" using assms(1) snoc s by (cases ys) (auto simp: list_of_def)
  with assms snoc s path_snoc [of h "list_head l" ys y e] show ?thesis
    by (auto simp: list_of_def men_list_push_back_def)
qed

lemma push_front_list:
  assumes "list_of s xs" "e \<notin> set xs" "Suc (length xs) < 4294967296"
  shows "list_of (men_list_push_front e s) (e # xs)"
  using assms by (auto simp: list_of_def men_list_push_front_def split: prod.splits)

lemma pop_front_list:
  assumes "list_of s xs"
  shows "fst (men_list_pop_front s) = (case xs of [] \<Rightarrow> None | x # _ \<Rightarrow> Some x)
    \<and> list_of (snd (men_list_pop_front s)) (tl xs)"
proof (cases xs)
  case Nil
  with assms show ?thesis by (auto simp: men_list_pop_front_def list_of_def split: prod.splits)
next
  case (Cons x ys)
  obtain l h where s: "s = (l, h)" by (cases s)
  have z: "list_size l > 0" using list_size_0 [OF assms] Cons s by (simp add: word_gt_0)
  have t: "list_tail l = Some x \<longleftrightarrow> ys = []"
    using assms Cons s last_in_set [of ys] by (auto simp: list_of_def split: if_splits)
  show ?thesis using assms Cons s z t
    by (auto simp: men_list_pop_front_def list_of_def Let_def)
qed

lemma path_before_tail:
  "path h p (xs @ [x, y]) \<Longrightarrow> distinct (xs @ [x, y])
   \<Longrightarrow> Option.bind p (before_tail h (Some y)) = Some x \<and> path (h(x := None)) p (xs @ [x]) \<and> h x = Some y"
proof (induction xs arbitrary: p)
  case Nil
  then show ?case by (auto simp: before_tail.simps)
next
  case (Cons z zs)
  then have "Option.bind (h z) (before_tail h (Some y)) = Some x \<and> path (h(x := None)) (h z) (zs @ [x]) \<and> h x = Some y"
    by (intro Cons.IH) simp_all
  then have ih: "Option.bind (h z) (before_tail h (Some y)) = Some x" "path (h(x := None)) (h z) (zs @ [x])"
    "h x = Some y" by blast+
  have z: "h z \<noteq> Some y" "p = Some z" "z \<noteq> x" using Cons.prems by (cases zs; auto)+
  then have "(h(x := None)) z = h z" by simp
  then have "path (h(x := None)) p ((z # zs) @ [x])" unfolding append_Cons path.simps using ih(2) z(2) by simp
  moreover have "before_tail h (Some y) z = Some x"
    using ih(1) z(1) by (cases "h z"; subst before_tail.simps) simp_all
  ultimately show ?case unfolding z(2) Option.bind.simps using ih(3) by blast
qed

lemma pop_back_list:
  assumes "list_of s xs"
  shows "\<exists>s'. men_list_pop_back s = Some (if xs = [] then None else Some (last xs), s') \<and> list_of s' (butlast xs)"
proof -
  obtain l h where s: "s = (l, h)" by (cases s)
  consider "xs = []" | x where "xs = [x]" | ys x y where "xs = ys @ [x, y]"
    by (metis append.assoc append_Cons append_Nil rev_exhaust)
  then show ?thesis
  proof cases
    case 3
    have n: "list_size l = of_nat (Suc (Suc (length ys)))" "Suc (Suc (length ys)) < 4294967296"
      using assms 3 s by (simp_all add: list_of_def)
    have u: "unat (list_size l) = Suc (Suc (length ys))" using n by (metis unat_of_nat_u32)
    then have g: "list_size l \<noteq> 1" "list_size l > 1" by (auto simp: word_less_nat_alt)
    have "path h (list_head l) (ys @ [x, y])" "distinct (ys @ [x, y])" "list_tail l = Some y"
      using assms 3 s by (simp_all add: list_of_def)
    with path_before_tail [OF this(1,2)] g n assms show ?thesis
      by (simp add: men_list_pop_back_def s 3 list_of_def butlast_append)
  qed (use assms s in \<open>auto simp: men_list_pop_back_def list_of_def\<close>)
qed

section \<open>Histories\<close>

datatype list_op = Push_Front entry | Push_Back entry | Pop_Front | Pop_Back

fun list_exec :: "list_op \<Rightarrow> men_list \<times> next_heap \<Rightarrow> (entry option \<times> men_list \<times> next_heap) option" where
  "list_exec (Push_Front e) s = Some (None, men_list_push_front e s)"
| "list_exec (Push_Back e) s = Some (None, men_list_push_back e s)"
| "list_exec Pop_Front s = Some (men_list_pop_front s)"
| "list_exec Pop_Back s = men_list_pop_back s"

fun abstract_exec :: "list_op \<Rightarrow> entry list \<Rightarrow> entry option \<times> entry list" where
  "abstract_exec (Push_Front e) xs = (None, e # xs)"
| "abstract_exec (Push_Back e) xs = (None, xs @ [e])"
| "abstract_exec Pop_Front xs = (case xs of [] \<Rightarrow> None | x # _ \<Rightarrow> Some x, tl xs)"
| "abstract_exec Pop_Back xs = (if xs = [] then None else Some (last xs), butlast xs)"

fun list_execs :: "list_op list \<Rightarrow> men_list \<times> next_heap \<Rightarrow> (entry option list \<times> men_list \<times> next_heap) option" where
  "list_execs [] s = Some ([], s)"
| "list_execs (op # ops) s =
     Option.bind (list_exec op s) (\<lambda>(r, s1). map_option (\<lambda>(rs, s2). (r # rs, s2)) (list_execs ops s1))"

fun abstract_execs :: "list_op list \<Rightarrow> entry list \<Rightarrow> entry option list \<times> entry list" where
  "abstract_execs [] xs = ([], xs)"
| "abstract_execs (op # ops) xs =
     (let (r, ys) = abstract_exec op xs; (rs, zs) = abstract_execs ops ys in (r # rs, zs))"

text \<open>Entries are pushed only while they are in no list.\<close>

fun pushes_fresh :: "list_op list \<Rightarrow> entry list \<Rightarrow> bool" where
  "pushes_fresh [] xs \<longleftrightarrow> True"
| "pushes_fresh (op # ops) xs \<longleftrightarrow>
     (case op of Push_Front e \<Rightarrow> e \<notin> set xs | Push_Back e \<Rightarrow> e \<notin> set xs | _ \<Rightarrow> True)
     \<and> Suc (length xs) < 4294967296 \<and> pushes_fresh ops (snd (abstract_exec op xs))"

text \<open>
  C12: over any sequence of pushes and pops at both ends, in which no entry is pushed while it is in
  the list, the linked list answers as a sequence does; every search for the last entry but one
  ends, and the pointers, the tail and the size describe the sequence at the end.
\<close>

theorem linked_list_history_refines_sequence:
  assumes "list_of s xs" "pushes_fresh ops xs"
  shows "\<exists>s'. list_execs ops s = Some (fst (abstract_execs ops xs), s') \<and> list_of s' (snd (abstract_execs ops xs))"
  using assms
proof (induction ops arbitrary: s xs)
  case (Cons op ops)
  have "\<exists>s1. list_exec op s = Some (fst (abstract_exec op xs), s1) \<and> list_of s1 (snd (abstract_exec op xs))"
  proof (cases op)
    case Pop_Front
    with pop_front_list [OF Cons.prems(1)] show ?thesis by (cases "men_list_pop_front s") auto
  next
    case Pop_Back
    with pop_back_list [OF Cons.prems(1)] show ?thesis by simp
  qed (use Cons.prems push_front_list push_back_list in auto)
  then obtain s1 where s1: "list_exec op s = Some (fst (abstract_exec op xs), s1)"
    "list_of s1 (snd (abstract_exec op xs))" by blast
  from Cons.IH [OF s1(2)] Cons.prems(2) obtain s2 where
    "list_execs ops s1 = Some (fst (abstract_execs ops (snd (abstract_exec op xs))), s2)"
    "list_of s2 (snd (abstract_execs ops (snd (abstract_exec op xs))))" by auto
  with s1(1) show ?case by (simp add: case_prod_beta)
qed simp

lemma list_init: "list_of (men_list_init, h) []"
  by (simp add: list_of_def men_list_init_def)

theorem linked_list_history_refines_sequence_witness:
  "\<exists>s. list_execs [Push_Back 1, Push_Back 2, Push_Front 3, Pop_Back, Pop_Front, Push_Back 2, Pop_Back, Pop_Back, Pop_Back]
      (men_list_init, \<lambda>_. None)
    = Some ([None, None, None, Some 2, Some 3, None, Some 2, Some 1, None], s) \<and> list_of s []"
  using linked_list_history_refines_sequence [OF list_init,
      where ops = "[Push_Back 1, Push_Back 2, Push_Front 3, Pop_Back, Pop_Front, Push_Back 2, Pop_Back, Pop_Back, Pop_Back]"]
  by simp

section \<open>The list as a queue\<close>

partial_function (option) follow :: "next_heap \<Rightarrow> entry option \<Rightarrow> entry list option" where
  "follow h p = (case p of None \<Rightarrow> Some [] | Some e \<Rightarrow> Option.bind (follow h (h e)) (\<lambda>xs. Some (e # xs)))"

definition list_contents :: "men_list \<times> next_heap \<Rightarrow> entry list" where
  "list_contents s = the (follow (snd s) (list_head (fst s)))"

lemma path_follow: "path h p xs \<Longrightarrow> follow h p = Some xs"
  by (induction xs arbitrary: p) (auto simp: follow.simps)

lemma list_of_contents: "list_of s xs \<Longrightarrow> list_contents s = xs"
  using path_follow [of "snd s" "list_head (fst s)" xs] by (simp add: list_of_def list_contents_def)

definition list_ok :: "men_list \<times> next_heap \<Rightarrow> bool" where
  "list_ok s \<longleftrightarrow> (\<exists>xs. list_of s xs)"

definition list_room :: "men_list \<times> next_heap \<Rightarrow> entry list \<Rightarrow> bool" where
  "list_room s xs \<longleftrightarrow> distinct (list_contents s @ xs) \<and> length (list_contents s @ xs) < 4294967296"

lemma list_ok_contents: "list_ok s \<longleftrightarrow> list_of s (list_contents s)"
  by (auto simp: list_ok_def list_of_contents)

interpretation men_list: fifo list_ok list_contents list_room men_list_push_back men_list_pop_front
proof
  fix s x and xs :: "entry list"
  assume "list_ok s"
  then have l: "list_of s (list_contents s)" by (simp add: list_ok_contents)
  {
    assume "list_room s (x # xs)"
    then have p: "list_of (men_list_push_back x s) (list_contents s @ [x])"
      using push_back_list [OF l, of x] by (auto simp: list_room_def)
    show "list_ok (men_list_push_back x s)" using p by (auto simp: list_ok_def)
    show "list_contents (men_list_push_back x s) = list_contents s @ [x]" by (rule list_of_contents [OF p])
    then show "list_room (men_list_push_back x s) xs" using \<open>list_room s (x # xs)\<close> by (simp add: list_room_def)
  }
  note g = pop_front_list [OF l]
  show "fst (men_list_pop_front s) = None" if "list_contents s = []" using g that by simp
  show "fst (men_list_pop_front s) = Some x" if "list_contents s = x # xs" using g that by simp
  show "list_contents (snd (men_list_pop_front s)) = tl (list_contents s)" using g by (simp add: list_of_contents)
  show "list_ok (snd (men_list_pop_front s))" using g by (auto simp: list_ok_def)
qed

lemma men_list_is_fifo:
  assumes "distinct xs" "length xs < 4294967296"
  shows "fst (get_many men_list_pop_front (length xs) (put_all men_list_push_back xs (men_list_init, h))) = xs"
proof (rule men_list.put_all_get_many)
  show "list_contents (men_list_init, h) = []" by (rule list_of_contents [OF list_init])
  then show "list_room (men_list_init, h) xs" using assms by (simp add: list_room_def)
  show "list_ok (men_list_init, h)" using list_init by (auto simp: list_ok_def)
qed

end
