(* ===== verification/Controller_Base.thy ===== *)
theory Controller_Base
  imports Prelude
begin

text \<open>
  \<^verbatim>\<open>lib/controllers/controller_base.c\<close>: the bursts that all bus controllers share. A controller gives
  the operations of one shot, the sizes of its queues, and gets transfers of any length. Its own
  state and the device are \<open>port\<close>. A handler that waits for the device may not return: \<open>None\<close>.
  The queue and shot sizes the controllers give are positive.
\<close>

record 's controller =
  current_burst_flags :: u8
  is_first_shot :: bool
  is_last_shot :: bool
  port :: 's

type_synonym 's handler = "'s controller \<Rightarrow> (int \<times> 's controller) option"

record 's controller_ops =
  handle_begin_transaction :: "'s handler option"
  handle_end_transaction :: "('s controller \<Rightarrow> 's controller) option"
  handle_pre_burst_flags :: "u32 \<Rightarrow> 's handler"
  handle_post_burst_flags :: "u32 \<Rightarrow> 's handler"
  write_shot :: "u8 list \<Rightarrow> 's handler"
  request_read :: "nat \<Rightarrow> 's handler"
  read_shot :: "nat \<Rightarrow> 's controller \<Rightarrow> ((int \<times> u8 list) \<times> 's controller) option"
  execute_command :: "u8 list \<Rightarrow> u8 list \<Rightarrow> 's handler"
  wait_for_write_queue_empty :: "'s handler"
  burst_aborted :: "'s controller \<Rightarrow> 's controller"
  cleanup :: "'s controller \<Rightarrow> 's controller"
  read_queue_size :: nat
  max_bytes_per_read :: nat
  write_queue_size :: nat
  max_bytes_per_write :: nat

section \<open>Transactions\<close>

definition ctrl_begin_transaction :: "'s controller_ops \<Rightarrow> 's handler" where
  "ctrl_begin_transaction ops c =
     (case handle_begin_transaction ops of None \<Rightarrow> Some (STATUS_OK, c) | Some f \<Rightarrow> f c)"

definition ctrl_end_transaction :: "'s controller_ops \<Rightarrow> 's controller \<Rightarrow> 's controller" where
  "ctrl_end_transaction ops c = (case handle_end_transaction ops of None \<Rightarrow> c | Some f \<Rightarrow> f c)"

definition ctrl_cleanup_burst_state :: "'s controller_ops \<Rightarrow> 's controller \<Rightarrow> 's controller" where
  "ctrl_cleanup_burst_state ops c =
     burst_aborted ops (c\<lparr>current_burst_flags := 0, is_first_shot := False, is_last_shot := False\<rparr>)"

text \<open>The end of a burst that fails, whatever the reason.\<close>

definition abort_burst :: "'s controller_ops \<Rightarrow> 's handler" where
  "abort_burst ops c = Some (STATUS_ERROR, ctrl_cleanup_burst_state ops c)"

section \<open>Writing\<close>

text \<open>The loop of \<^verbatim>\<open>ctrl_write_burst\<close>: the status and the number of shots that are queued.\<close>

partial_function (option) write_loop ::
    "'s controller_ops \<Rightarrow> nat \<Rightarrow> nat \<Rightarrow> u8 list \<Rightarrow> 's controller \<Rightarrow> (int \<times> nat \<times> 's controller) option" where
  "write_loop ops nbytes num_queued buf c =
     (if buf = [] then Some (STATUS_OK, num_queued, c)
      else
        let n = min (length buf) (max_bytes_per_write ops);
            c1 = c\<lparr>is_first_shot := (length buf = nbytes),
                   is_last_shot := (length buf \<le> max_bytes_per_write ops)\<rparr>
        in Option.bind (write_shot ops (take n buf) c1) (\<lambda>(ret, c2).
             if ret < 0 then Some (ret, num_queued, c2)
             else if Suc num_queued mod write_queue_size ops = 0 then
               Option.bind (wait_for_write_queue_empty ops c2) (\<lambda>(ret, c3).
                 if ret < 0 then Some (ret, Suc num_queued, c3)
                 else write_loop ops nbytes (Suc num_queued) (drop n buf) c3)
             else write_loop ops nbytes (Suc num_queued) (drop n buf) c2))"

definition finish_burst :: "'s controller_ops \<Rightarrow> u32 \<Rightarrow> 's handler" where
  "finish_burst ops flags c =
     Option.bind (handle_post_burst_flags ops flags c) (\<lambda>(_, c1).
       Some (STATUS_OK, c1\<lparr>current_burst_flags := 0\<rparr>))"

definition ctrl_write_burst :: "'s controller_ops \<Rightarrow> u32 \<Rightarrow> u8 list \<Rightarrow> 's handler" where
  "ctrl_write_burst ops flags buf c =
     Option.bind (handle_pre_burst_flags ops flags (c\<lparr>current_burst_flags := ucast (flags AND 0xff)\<rparr>))
       (\<lambda>(ret, c1).
         if ret < 0 then abort_burst ops c1
         else Option.bind (write_loop ops (length buf) 0 buf c1) (\<lambda>(ret, num_queued, c2).
           if ret < 0 then abort_burst ops c2
           else
             let c3 = c2\<lparr>is_first_shot := False, is_last_shot := False\<rparr>
             in if num_queued mod write_queue_size ops \<noteq> 0 then
                  Option.bind (wait_for_write_queue_empty ops c3) (\<lambda>(ret, c4).
                    if ret < 0 then abort_burst ops c4 else finish_burst ops flags c4)
                else finish_burst ops flags c3))"

section \<open>Reading\<close>

text \<open>
  As many requests as the queue takes: the status, the bytes still to be requested, and those to
  be read.
\<close>

fun request_loop ::
    "'s controller_ops \<Rightarrow> nat \<Rightarrow> nat \<Rightarrow> nat \<Rightarrow> nat \<Rightarrow> nat \<Rightarrow> 's controller
     \<Rightarrow> (int \<times> nat \<times> nat \<times> 's controller) option" where
  "request_loop ops nbytes i 0 to_request to_read c = Some (STATUS_OK, to_request, to_read, c)"
| "request_loop ops nbytes i (Suc slots) to_request to_read c =
     (if to_request = 0 then Some (STATUS_OK, to_request, to_read, c)
      else
        let n = min to_request (max_bytes_per_read ops);
            to_read1 = to_read + n;
            c1 = c\<lparr>is_first_shot := (i = 0), is_last_shot := (to_read1 = nbytes)\<rparr>
        in Option.bind (request_read ops n c1) (\<lambda>(ret, c2).
             if ret < 0 then Some (ret, to_request - n, to_read1, c2)
             else request_loop ops nbytes (Suc i) slots (to_request - n) to_read1 c2))"

partial_function (option) read_loop ::
    "'s controller_ops \<Rightarrow> nat \<Rightarrow> nat \<Rightarrow> u8 list \<Rightarrow> 's controller \<Rightarrow> (int \<times> u8 list \<times> 's controller) option" where
  "read_loop ops to_request to_read acc c =
     (if to_read = 0 then Some (STATUS_OK, acc, c)
      else
        let c1 = c\<lparr>is_last_shot := (to_request = 0 \<and> to_read \<le> max_bytes_per_read ops)\<rparr>;
            n = min to_read (max_bytes_per_read ops)
        in Option.bind (read_shot ops n c1) (\<lambda>((ret, bs), c2).
             if ret < 0 then Some (ret, acc, c2)
             else
               let c3 = c2\<lparr>is_first_shot := False\<rparr>
               in if to_request > 0 then
                    let m = min to_request (max_bytes_per_read ops)
                    in Option.bind (request_read ops m c3) (\<lambda>(ret, c4).
                         if ret < 0 then Some (ret, acc @ bs, c4)
                         else read_loop ops (to_request - m) (to_read - n + m) (acc @ bs) c4)
                  else read_loop ops to_request (to_read - n) (acc @ bs) c3))"

text \<open>The bytes are those the buffer of the caller has when the burst ends.\<close>

definition ctrl_read_burst ::
    "'s controller_ops \<Rightarrow> u32 \<Rightarrow> nat \<Rightarrow> 's controller \<Rightarrow> (int \<times> u8 list \<times> 's controller) option" where
  "ctrl_read_burst ops flags nbytes c =
     (let fail = (\<lambda>acc c. Some (STATUS_ERROR, acc, ctrl_cleanup_burst_state ops c))
      in Option.bind (handle_pre_burst_flags ops flags (c\<lparr>current_burst_flags := ucast (flags AND 0xff)\<rparr>))
           (\<lambda>(ret, c1).
             if ret < 0 then fail [] c1
             else Option.bind (request_loop ops nbytes 0 (read_queue_size ops) nbytes 0 c1)
               (\<lambda>(ret, to_request, to_read, c2).
                 if ret < 0 then fail [] c2
                 else Option.bind (read_loop ops to_request to_read [] (c2\<lparr>is_first_shot := True\<rparr>))
                   (\<lambda>(ret, acc, c3).
                     if ret < 0 then fail acc c3
                     else map_option (\<lambda>(r, c4). (r, acc, c4))
                            (finish_burst ops flags (c3\<lparr>is_last_shot := False\<rparr>))))))"

section \<open>The other bursts\<close>

definition ctrl_state_change_burst :: "'s controller_ops \<Rightarrow> u32 \<Rightarrow> 's handler" where
  "ctrl_state_change_burst ops flags c =
     Option.bind (handle_pre_burst_flags ops flags c) (\<lambda>(ret, c1).
       if ret \<noteq> STATUS_OK then Some (ret, c1) else handle_post_burst_flags ops flags c1)"

text \<open>A command starts with a header of \<open>hdr\<close> bytes.\<close>

definition ctrl_command_execution_burst :: "'s controller_ops \<Rightarrow> nat \<Rightarrow> u8 list \<Rightarrow> 's handler" where
  "ctrl_command_execution_burst ops hdr buffer c =
     (if length buffer < hdr then Some (STATUS_ERR_INVALID_ARGUMENT, c)
      else execute_command ops (take hdr buffer) (drop hdr buffer) c)"

definition ctrl_are_burst_flags_set :: "'s controller \<Rightarrow> u8 \<Rightarrow> bool" where
  "ctrl_are_burst_flags_set c flags \<longleftrightarrow> current_burst_flags c AND flags = flags"

definition ctrl_destroy :: "'s controller_ops \<Rightarrow> 's controller \<Rightarrow> 's controller" where
  "ctrl_destroy ops c = cleanup ops c"

definition controller_base_execute_command_not_supported :: "u8 list \<Rightarrow> u8 list \<Rightarrow> 's handler" where
  "controller_base_execute_command_not_supported header command_data c = Some (STATUS_ERR_INVALID_OPERATION, c)"

definition controller_base_init :: "'s \<Rightarrow> 's controller" where
  "controller_base_init s =
     \<lparr>current_burst_flags = 0, is_first_shot = False, is_last_shot = False, port = s\<rparr>"

end
