(* ===== verification/Controller_Ports.thy ===== *)
theory Controller_Ports
  imports Controller_Base
begin

text \<open>
  What a bus controller promises the bursts of the base class, as two interfaces: \<open>write_port\<close> for
  the shots that are written, \<open>read_port\<close> for the requests and the shots that are read. The
  bursts are proved once for any controller that keeps the promise; the controllers interpret it.
\<close>

section \<open>Writing\<close>

text \<open>
  \<open>sent\<close> is what has gone out on the bus, \<open>pending\<close> how many shots may still be in the write queue,
  and \<open>calm\<close> that the queue has never been given more than it holds.
\<close>

locale write_port =
  fixes ops :: "'s controller_ops"
    and sent :: "'s \<Rightarrow> u8 list"
    and pending :: "'s \<Rightarrow> nat"
    and calm :: "'s \<Rightarrow> bool"
  assumes sizes: "0 < write_queue_size ops" "0 < max_bytes_per_write ops"
    and shot: "write_shot ops bs c = Some (r, c') \<Longrightarrow> 0 \<le> r \<Longrightarrow> bs \<noteq> [] \<Longrightarrow> length bs \<le> max_bytes_per_write ops
      \<Longrightarrow> pending (port c) < write_queue_size ops \<Longrightarrow> calm (port c)
      \<Longrightarrow> sent (port c') = sent (port c) @ bs \<and> pending (port c') \<le> Suc (pending (port c)) \<and> calm (port c')"
    and shot_fails: "write_shot ops bs c = Some (r, c') \<Longrightarrow> r < 0 \<Longrightarrow> calm (port c)
      \<Longrightarrow> sent (port c') = sent (port c) \<and> calm (port c')"
    and wait: "wait_for_write_queue_empty ops c = Some (r, c') \<Longrightarrow> calm (port c)
      \<Longrightarrow> sent (port c') = sent (port c) \<and> calm (port c') \<and> (0 \<le> r \<longrightarrow> pending (port c') = 0)"
    and pre: "handle_pre_burst_flags ops f c = Some (r, c') \<Longrightarrow> calm (port c)
      \<Longrightarrow> sent (port c') = sent (port c) \<and> calm (port c') \<and> pending (port c') = pending (port c)"
    and post: "handle_post_burst_flags ops f c = Some (r, c') \<Longrightarrow> calm (port c)
      \<Longrightarrow> sent (port c') = sent (port c) \<and> calm (port c') \<and> pending (port c') = pending (port c)"
    and aborted: "calm (port c) \<Longrightarrow> sent (port (burst_aborted ops c)) = sent (port c) \<and> calm (port (burst_aborted ops c))"
begin

lemma write_loop_sends:
  assumes "write_loop ops n q buf c = Some (r, q', c')" "calm (port c)"
    "pending (port c) \<le> q mod write_queue_size ops"
  shows "calm (port c')
    \<and> (if r < 0 then \<exists>k. sent (port c') = sent (port c) @ take k buf
       else sent (port c') = sent (port c) @ buf \<and> pending (port c') \<le> q' mod write_queue_size ops)"
  using assms
proof (induction buf arbitrary: q c rule: length_induct)
  case (1 buf)
  show ?case
  proof (cases "buf = []")
    case True
    with 1 show ?thesis by (simp add: write_loop.simps)
  next
    case False
    let ?n = "min (length buf) (max_bytes_per_write ops)"
    let ?c = "c\<lparr>is_first_shot := (length buf = n), is_last_shot := (length buf \<le> max_bytes_per_write ops)\<rparr>"
    obtain r1 c1 where s: "write_shot ops (take ?n buf) ?c = Some (r1, c1)"
      using "1.prems"(1) False by (subst (asm) write_loop.simps) (auto simp: Let_def bind_eq_Some_conv)
    show ?thesis
    proof (cases "r1 < 0")
      case True
      with s "1.prems"(1) False have "r = r1" "c' = c1"
        by (subst (asm) write_loop.simps, simp add: Let_def)+
      with shot_fails [OF s True] "1.prems"(2) True show ?thesis by (auto intro: exI [of _ 0])
    next
      case r1: False
      have len: "?n \<noteq> 0" using False sizes(2) by simp
      have l: "pending (port ?c) < write_queue_size ops" using "1.prems"(3) sizes(1) mod_less_divisor [of "write_queue_size ops" q] by (simp del: mod_less_divisor)
      have c1: "sent (port c1) = sent (port c) @ take ?n buf" "pending (port c1) \<le> Suc (pending (port c))" "calm (port c1)"
        using shot [OF s _ _ _ l] r1 False len "1.prems"(2) sizes(2) by auto
      have next_loop: "calm (port c')
          \<and> (if r < 0 then \<exists>k. sent (port c') = sent (port c) @ take k buf
             else sent (port c') = sent (port c) @ buf \<and> pending (port c') \<le> q' mod write_queue_size ops)"
        if "write_loop ops n (Suc q) (drop ?n buf) c2 = Some (r, q', c')" "sent (port c2) = sent (port c1)"
          "calm (port c2)" "pending (port c2) \<le> Suc q mod write_queue_size ops" for c2
      proof -
        have "length (drop ?n buf) < length buf" using len False by simp
        with "1.IH" that have "calm (port c')
          \<and> (if r < 0 then \<exists>k. sent (port c') = sent (port c2) @ take k (drop ?n buf)
             else sent (port c') = sent (port c2) @ drop ?n buf \<and> pending (port c') \<le> q' mod write_queue_size ops)"
          by blast
        moreover have "take ?n buf @ take k (drop ?n buf) = take (?n + k) buf" for k by (simp add: take_add)
        ultimately show ?thesis using that(2) c1(1) append_take_drop_id [of ?n buf]
          by (auto split: if_splits)
      qed
      show ?thesis
      proof (cases "Suc q mod write_queue_size ops = 0")
        case False
        have "write_loop ops n (Suc q) (drop ?n buf) c1 = Some (r, q', c')"
          using "1.prems"(1) s r1 False \<open>buf \<noteq> []\<close> by (subst (asm) write_loop.simps) (simp add: Let_def)
        moreover have "Suc q mod write_queue_size ops = Suc (q mod write_queue_size ops)"
          using False by (simp add: mod_Suc split: if_splits)
        ultimately show ?thesis using next_loop c1 "1.prems"(3) by simp
      next
        case True
        obtain r2 c2 where w: "wait_for_write_queue_empty ops c1 = Some (r2, c2)"
          using "1.prems"(1) s r1 True \<open>buf \<noteq> []\<close>
          by (subst (asm) write_loop.simps) (auto simp: Let_def bind_eq_Some_conv)
        note wt = wait [OF w c1(3)]
        show ?thesis
        proof (cases "r2 < 0")
          case True
          with s w r1 "1.prems"(1) \<open>Suc q mod write_queue_size ops = 0\<close> \<open>buf \<noteq> []\<close> have "r = r2" "c' = c2"
            by (subst (asm) write_loop.simps, simp add: Let_def)+
          with wt c1(1) True show ?thesis by auto
        next
          case False
          have "write_loop ops n (Suc q) (drop ?n buf) c2 = Some (r, q', c')"
            using "1.prems"(1) s w r1 False \<open>Suc q mod write_queue_size ops = 0\<close> \<open>buf \<noteq> []\<close>
            by (subst (asm) write_loop.simps) (simp add: Let_def)
          with next_loop wt False True show ?thesis by simp
        qed
      qed
    qed
  qed
qed

lemma abort_keeps_sent:
  "calm (port c) \<Longrightarrow> abort_burst ops c = Some (r, c')
   \<Longrightarrow> r = STATUS_ERROR \<and> calm (port c') \<and> sent (port c') = sent (port c)"
  using aborted [of "c\<lparr>current_burst_flags := 0, is_first_shot := False, is_last_shot := False\<rparr>"]
  by (auto simp: abort_burst_def ctrl_cleanup_burst_state_def)

lemma finish_keeps_sent:
  "calm (port c) \<Longrightarrow> finish_burst ops f c = Some (r, c')
   \<Longrightarrow> r = STATUS_OK \<and> calm (port c') \<and> sent (port c') = sent (port c) \<and> pending (port c') = pending (port c)"
  using post by (auto simp: finish_burst_def bind_eq_Some_conv)

text \<open>A burst that is written out sends its bytes; one that fails sends the first of them.\<close>

lemma write_burst_sends:
  assumes "ctrl_write_burst ops f buf c = Some (r, c')" "calm (port c)" "pending (port c) = 0"
  shows "calm (port c')
    \<and> (r = STATUS_OK \<and> sent (port c') = sent (port c) @ buf \<and> pending (port c') = 0
       \<or> r = STATUS_ERROR \<and> (\<exists>k. sent (port c') = sent (port c) @ take k buf))"
proof -
  let ?c = "c\<lparr>current_burst_flags := ucast (f AND 0xff)\<rparr>"
  obtain r1 c1 where p: "handle_pre_burst_flags ops f ?c = Some (r1, c1)"
    using assms(1) by (auto simp: ctrl_write_burst_def bind_eq_Some_conv)
  have c1: "sent (port c1) = sent (port c)" "calm (port c1)" "pending (port c1) = 0"
    using pre [OF p] assms(2,3) by simp_all
  show ?thesis
  proof (cases "r1 < 0")
    case True
    then have "abort_burst ops c1 = Some (r, c')" using assms(1) p by (simp add: ctrl_write_burst_def)
    with abort_keeps_sent [OF c1(2)] c1 show ?thesis by (auto intro: exI [of _ 0])
  next
    case r1: False
    then obtain r2 q c2 where l: "write_loop ops (length buf) 0 buf c1 = Some (r2, q, c2)"
      using assms(1) p by (auto simp: ctrl_write_burst_def bind_eq_Some_conv)
    have w: "calm (port c2) \<and> (if r2 < 0 then \<exists>k. sent (port c2) = sent (port c) @ take k buf
       else sent (port c2) = sent (port c) @ buf \<and> pending (port c2) \<le> q mod write_queue_size ops)"
      using write_loop_sends [OF l c1(2)] c1(1,3) by (auto split: if_splits)
    show ?thesis
    proof (cases "r2 < 0")
      case True
      then have "abort_burst ops c2 = Some (r, c')" using assms(1) p l r1 by (simp add: ctrl_write_burst_def)
      with abort_keeps_sent [of c2] w True show ?thesis by auto
    next
      case r2: False
      let ?c2 = "c2\<lparr>is_first_shot := False, is_last_shot := False\<rparr>"
      show ?thesis
      proof (cases "q mod write_queue_size ops = 0")
        case True
        then have "finish_burst ops f ?c2 = Some (r, c')"
          using assms(1) p l r1 r2 by (simp add: ctrl_write_burst_def)
        with finish_keeps_sent [of ?c2] w r2 True show ?thesis by auto
      next
        case False
        then obtain r3 c3 where wt: "wait_for_write_queue_empty ops ?c2 = Some (r3, c3)"
          using assms(1) p l r1 r2 by (auto simp: ctrl_write_burst_def bind_eq_Some_conv)
        have c3: "sent (port c3) = sent (port c) @ buf" "calm (port c3)" "0 \<le> r3 \<Longrightarrow> pending (port c3) = 0"
          using wait [OF wt] w r2 by simp_all
        show ?thesis
        proof (cases "r3 < 0")
          case True
          then have "abort_burst ops c3 = Some (r, c')"
            using assms(1) p l r1 r2 wt False by (simp add: ctrl_write_burst_def)
          with abort_keeps_sent [OF c3(2)] c3(1) show ?thesis by (auto intro: exI [of _ "length buf"])
        next
          case r3: False
          then have "finish_burst ops f c3 = Some (r, c')"
            using assms(1) p l r1 r2 wt False by (simp add: ctrl_write_burst_def)
          with finish_keeps_sent [OF c3(2)] c3 r3 show ?thesis by auto
        qed
      qed
    qed
  qed
qed

end

text \<open>A port that always answers, without an error: then every burst is written.\<close>

locale live_write_port = write_port +
  assumes shot_answers: "\<exists>r c'. write_shot ops bs c = Some (r, c') \<and> 0 \<le> r"
    and wait_answers: "\<exists>r c'. wait_for_write_queue_empty ops c = Some (r, c') \<and> 0 \<le> r"
    and pre_answers: "\<exists>r c'. handle_pre_burst_flags ops f c = Some (r, c') \<and> 0 \<le> r"
    and post_answers: "\<exists>r c'. handle_post_burst_flags ops f c = Some (r, c')"
begin

lemma write_loop_answers: "\<exists>q' c'. write_loop ops n q buf c = Some (STATUS_OK, q', c')"
proof (induction buf arbitrary: q c rule: length_induct)
  case (1 buf)
  show ?case
  proof (cases "buf = []")
    case False
    let ?n = "min (length buf) (max_bytes_per_write ops)"
    let ?c = "c\<lparr>is_first_shot := (length buf = n), is_last_shot := (length buf \<le> max_bytes_per_write ops)\<rparr>"
    obtain r1 c1 where s: "write_shot ops (take ?n buf) ?c = Some (r1, c1)" "0 \<le> r1" using shot_answers by blast
    obtain r2 c2 where w: "wait_for_write_queue_empty ops c1 = Some (r2, c2)" "0 \<le> r2" using wait_answers by blast
    have "length (drop ?n buf) < length buf" using False sizes(2) by simp
    with 1 have ih: "\<exists>q' c'. write_loop ops n q (drop ?n buf) c = Some (STATUS_OK, q', c')" for q c by blast
    show ?thesis using False s w ih by (subst write_loop.simps) (simp add: Let_def)
  qed (simp add: write_loop.simps)
qed

lemma write_burst_answers: "\<exists>c'. ctrl_write_burst ops f buf c = Some (STATUS_OK, c')"
proof -
  have fin: "\<exists>c'. finish_burst ops f c = Some (STATUS_OK, c')" for c
    using post_answers [of f c] by (auto simp: finish_burst_def)
  obtain r1 c1 where p: "handle_pre_burst_flags ops f (c\<lparr>current_burst_flags := ucast (f AND 0xff)\<rparr>) = Some (r1, c1)"
    "0 \<le> r1" using pre_answers by blast
  obtain q c2 where l: "write_loop ops (length buf) 0 buf c1 = Some (STATUS_OK, q, c2)"
    using write_loop_answers by blast
  obtain r3 c3 where w: "wait_for_write_queue_empty ops (c2\<lparr>is_first_shot := False, is_last_shot := False\<rparr>) = Some (r3, c3)"
    "0 \<le> r3" using wait_answers by blast
  show ?thesis using p l w fin by (auto simp: ctrl_write_burst_def Let_def)
qed

lemma write_burst_is_sent:
  assumes "calm (port c)" "pending (port c) = 0"
  shows "\<exists>c'. ctrl_write_burst ops f buf c = Some (STATUS_OK, c')
    \<and> sent (port c') = sent (port c) @ buf \<and> calm (port c') \<and> pending (port c') = 0"
proof -
  obtain c' where "ctrl_write_burst ops f buf c = Some (STATUS_OK, c')" using write_burst_answers by blast
  with write_burst_sends [OF this assms] show ?thesis by simp
qed

end

section \<open>Reading\<close>

text \<open>The sizes \<open>t\<close> bytes are requested in, each but the last of them the largest.\<close>

definition chunks :: "nat \<Rightarrow> nat \<Rightarrow> nat list" where
  "chunks m t = replicate (t div m) m @ (if t mod m = 0 then [] else [t mod m])"

lemma chunks_0 [simp]: "chunks m 0 = []"
  by (simp add: chunks_def)

lemma chunks_front: "0 < m \<Longrightarrow> 0 < t \<Longrightarrow> chunks m t = min t m # chunks m (t - min t m)"
proof (cases "t < m")
  case False
  assume "0 < m"
  with False have "t div m = Suc ((t - m) div m)" "t mod m = (t - m) mod m"
    by (simp_all add: le_div_geq le_mod_geq)
  with False show ?thesis by (simp add: chunks_def min_def)
qed (simp add: chunks_def)

lemma chunks_back:
  assumes "m dvd t" "0 < x" "x \<le> m"
  shows "chunks m (t + x) = chunks m t @ [x]"
proof -
  obtain k where t: "t = m * k" using assms(1) by blast
  show ?thesis
  proof (cases "x = m")
    case True
    then show ?thesis using assms(2) by (simp add: chunks_def t replicate_append_same)
  next
    case False
    then show ?thesis using assms(2,3) by (simp add: chunks_def t)
  qed
qed

lemma chunks_eq_Nil: "0 < m \<Longrightarrow> chunks m t = [] \<longleftrightarrow> t = 0"
  by (cases "t = 0") (simp_all add: chunks_front)

text \<open>
  \<open>requested\<close> are the sizes of the reads that are queued, \<open>delivered\<close> the bytes the bus has given.
\<close>

locale read_port =
  fixes ops :: "'s controller_ops"
    and requested :: "'s \<Rightarrow> nat list"
    and delivered :: "'s \<Rightarrow> u8 list"
  assumes read_sizes: "0 < max_bytes_per_read ops" "0 < read_queue_size ops"
    and request: "request_read ops n c = Some (r, c') \<Longrightarrow> 0 \<le> r \<Longrightarrow> 0 < n \<Longrightarrow> n \<le> max_bytes_per_read ops
      \<Longrightarrow> length (requested (port c)) < read_queue_size ops
      \<Longrightarrow> requested (port c') = requested (port c) @ [n] \<and> delivered (port c') = delivered (port c)"
    and read: "read_shot ops n c = Some ((r, bs), c') \<Longrightarrow> 0 \<le> r \<Longrightarrow> requested (port c) = n # ns
      \<Longrightarrow> requested (port c') = ns \<and> delivered (port c') = delivered (port c) @ bs \<and> length bs = n"
    and read_pre: "handle_pre_burst_flags ops f c = Some (r, c')
      \<Longrightarrow> requested (port c') = requested (port c) \<and> delivered (port c') = delivered (port c)"
    and read_post: "handle_post_burst_flags ops f c = Some (r, c')
      \<Longrightarrow> requested (port c') = requested (port c) \<and> delivered (port c') = delivered (port c)"
begin

lemma request_loop_requests:
  assumes "request_loop ops n i slots to_request to_read c = Some (r, to_request', to_read', c')" "0 \<le> r"
    "requested (port c) = chunks (max_bytes_per_read ops) to_read"
    "0 < to_request \<longrightarrow> max_bytes_per_read ops dvd to_read"
    "length (requested (port c)) + slots \<le> read_queue_size ops"
  shows "requested (port c') = chunks (max_bytes_per_read ops) to_read' \<and> delivered (port c') = delivered (port c)
    \<and> (0 < to_request' \<longrightarrow> max_bytes_per_read ops dvd to_read')
    \<and> to_request' + to_read' = to_request + to_read \<and> length (requested (port c')) \<le> read_queue_size ops
    \<and> to_read \<le> to_read' \<and> (0 < slots \<and> 0 < to_request' \<longrightarrow> 0 < to_read')"
  using assms
proof (induction slots arbitrary: i to_request to_read c)
  case 0
  then show ?case by simp
next
  case (Suc slots)
  show ?case
  proof (cases "to_request = 0")
    case False
    let ?m = "max_bytes_per_read ops" and ?n = "min to_request (max_bytes_per_read ops)"
    let ?c = "c\<lparr>is_first_shot := (i = 0), is_last_shot := (to_read + ?n = n)\<rparr>"
    obtain r1 c1 where rq: "request_read ops ?n ?c = Some (r1, c1)"
      using Suc.prems(1) False by (auto simp: Let_def bind_eq_Some_conv)
    have r1: "\<not> r1 < 0" using Suc.prems(1,2) False rq by (auto simp: Let_def)
    have rec: "request_loop ops n (Suc i) slots (to_request - ?n) (to_read + ?n) c1 = Some (r, to_request', to_read', c')"
      using Suc.prems(1) False rq r1 by (simp add: Let_def)
    have n: "0 < ?n" "?n \<le> ?m" using False read_sizes by simp_all
    have c1: "requested (port c1) = requested (port c) @ [?n]" "delivered (port c1) = delivered (port c)"
      using request [OF rq _ n] r1 Suc.prems(5) by simp_all
    have ch: "chunks ?m (to_read + ?n) = requested (port c1)"
      using chunks_back [OF _ n] Suc.prems(3,4) False c1(1) by simp
    have "0 < to_request - ?n \<longrightarrow> ?m dvd to_read + ?n" using Suc.prems(4) False by auto
    from Suc.IH [OF rec Suc.prems(2) ch [symmetric] this] c1 Suc.prems(5) n show ?thesis by auto
  qed (use Suc.prems in simp)
qed

lemma read_loop_reads:
  assumes "read_loop ops to_request to_read acc c = Some (r, bs, c')" "0 \<le> r"
    "requested (port c) = chunks (max_bytes_per_read ops) to_read"
    "0 < to_request \<longrightarrow> max_bytes_per_read ops dvd to_read \<and> 0 < to_read"
    "length (requested (port c)) \<le> read_queue_size ops"
  shows "\<exists>ds. bs = acc @ ds \<and> length ds = to_request + to_read \<and> delivered (port c') = delivered (port c) @ ds
    \<and> requested (port c') = []"
  using assms
proof (induction "to_request + to_read" arbitrary: to_request to_read acc c rule: less_induct)
  case less
  let ?m = "max_bytes_per_read ops"
  show ?case
  proof (cases "to_read = 0")
    case True
    with less.prems show ?thesis by (simp add: read_loop.simps)
  next
    case False
    let ?n = "min to_read ?m"
    let ?c = "c\<lparr>is_last_shot := (to_request = 0 \<and> to_read \<le> ?m)\<rparr>"
    obtain r1 b1 c1 where rd: "read_shot ops ?n ?c = Some ((r1, b1), c1)"
      using less.prems(1) False by (subst (asm) read_loop.simps) (auto simp: Let_def bind_eq_Some_conv)
    have r1: "\<not> r1 < 0"
      using less.prems(1,2) False rd by (subst (asm) read_loop.simps) (auto simp: Let_def)
    have n: "0 < ?n" using False read_sizes by simp
    have ch: "requested (port ?c) = ?n # chunks ?m (to_read - ?n)"
      using chunks_front [of ?m to_read] read_sizes False less.prems(3) by simp
    have c1: "requested (port c1) = chunks ?m (to_read - ?n)" "delivered (port c1) = delivered (port c) @ b1"
      "length b1 = ?n" using read [OF rd _ ch] r1 by simp_all
    show ?thesis
    proof (cases "to_request = 0")
      case True
      have rec: "read_loop ops to_request (to_read - ?n) (acc @ b1) (c1\<lparr>is_first_shot := False\<rparr>) = Some (r, bs, c')"
        using less.prems(1) False rd r1 True by (subst (asm) read_loop.simps) (simp add: Let_def)
      have "length (requested (port (c1\<lparr>is_first_shot := False\<rparr>))) \<le> read_queue_size ops"
        using less.prems(5) ch c1(1) by simp
      from less.hyps [OF _ rec less.prems(2)] c1 True False n this obtain ds where
        "bs = (acc @ b1) @ ds" "length ds = to_request + (to_read - ?n)"
        "delivered (port c') = delivered (port c1) @ ds" "requested (port c') = []" by auto
      with c1 show ?thesis by (intro exI [of _ "b1 @ ds"]) auto
    next
      case tr: False
      let ?k = "min to_request ?m"
      have nm: "?n = ?m" "?m dvd to_read" using less.prems(4) tr dvd_imp_le [of ?m to_read] by auto
      obtain r2 c2 where rq: "request_read ops ?k (c1\<lparr>is_first_shot := False\<rparr>) = Some (r2, c2)"
        using less.prems(1) False rd r1 tr by (subst (asm) read_loop.simps) (auto simp: Let_def bind_eq_Some_conv)
      have r2: "\<not> r2 < 0"
        using less.prems(1,2) False rd r1 tr rq by (subst (asm) read_loop.simps) (auto simp: Let_def)
      have rec: "read_loop ops (to_request - ?k) (to_read - ?n + ?k) (acc @ b1) c2 = Some (r, bs, c')"
        using less.prems(1) False rd r1 tr rq r2 by (subst (asm) read_loop.simps) (simp add: Let_def)
      have k: "0 < ?k" "?k \<le> ?m" using tr read_sizes by simp_all
      have room: "length (requested (port (c1\<lparr>is_first_shot := False\<rparr>))) < read_queue_size ops"
        using less.prems(5) ch c1(1) by simp
      have c2: "requested (port c2) = requested (port c1) @ [?k]" "delivered (port c2) = delivered (port c1)"
        using request [OF rq _ k room] r2 by simp_all
      have dv: "?m dvd to_read - ?n" using nm by simp
      have c2': "requested (port c2) = chunks ?m (to_read - ?n + ?k)"
        using chunks_back [OF dv k] c2(1) c1(1) by simp
      have a1: "0 < to_request - ?k \<longrightarrow> ?m dvd to_read - ?n + ?k \<and> 0 < to_read - ?n + ?k"
        using dv nm(2) k(1) by (auto simp: min_def)
      have a2: "length (requested (port c2)) \<le> read_queue_size ops" using room c2(1) by simp
      have a3: "to_request - ?k + (to_read - ?n + ?k) < to_request + to_read" using n by simp
      obtain ds where ds: "bs = (acc @ b1) @ ds" "length ds = to_request - ?k + (to_read - ?n + ?k)"
        "delivered (port c') = delivered (port c2) @ ds" "requested (port c') = []"
        using less.hyps [OF a3 rec less.prems(2) c2' a1 a2] by blast
      with c1 c2(2) n show ?thesis by (intro exI [of _ "b1 @ ds"]) auto
    qed
  qed
qed

text \<open>A burst that succeeds gives as many bytes as were asked for, in the order of the bus.\<close>

lemma read_burst_reads:
  assumes "ctrl_read_burst ops f n c = Some (STATUS_OK, bs, c')" "requested (port c) = []"
  shows "length bs = n \<and> delivered (port c') = delivered (port c) @ bs \<and> requested (port c') = []"
proof -
  let ?c = "c\<lparr>current_burst_flags := ucast (f AND 0xff)\<rparr>"
  obtain r1 c1 where p: "handle_pre_burst_flags ops f ?c = Some (r1, c1)"
    using assms(1) by (auto simp: ctrl_read_burst_def bind_eq_Some_conv)
  have r1: "\<not> r1 < 0" using assms(1) p by (auto simp: ctrl_read_burst_def)
  have c1: "requested (port c1) = []" "delivered (port c1) = delivered (port c)"
    using read_pre [OF p] assms(2) by simp_all
  obtain r2 t u c2 where rq: "request_loop ops n 0 (read_queue_size ops) n 0 c1 = Some (r2, t, u, c2)"
    using assms(1) p r1 by (auto simp: ctrl_read_burst_def bind_eq_Some_conv)
  have r2: "\<not> r2 < 0" using assms(1) p r1 rq by (auto simp: ctrl_read_burst_def)
  have c2: "requested (port c2) = chunks (max_bytes_per_read ops) u" "delivered (port c2) = delivered (port c)"
    "0 < t \<longrightarrow> max_bytes_per_read ops dvd u" "t + u = n" "length (requested (port c2)) \<le> read_queue_size ops"
    "0 < t \<longrightarrow> 0 < u"
    using request_loop_requests [OF rq] r2 c1 read_sizes(2) by auto
  obtain r3 acc c3 where rd: "read_loop ops t u [] (c2\<lparr>is_first_shot := True\<rparr>) = Some (r3, acc, c3)"
    using assms(1) p r1 rq r2 by (auto simp: ctrl_read_burst_def bind_eq_Some_conv)
  have r3: "\<not> r3 < 0" using assms(1) p r1 rq r2 rd by (auto simp: ctrl_read_burst_def)
  have c3: "length acc = n" "delivered (port c3) = delivered (port c) @ acc" "requested (port c3) = []"
    using read_loop_reads [OF rd] r3 c2 by auto
  have fin: "finish_burst ops f (c3\<lparr>is_last_shot := False\<rparr>) = Some (STATUS_OK, c')" "bs = acc"
    using assms(1) p r1 rq r2 rd r3 by (auto simp: ctrl_read_burst_def)
  then obtain r4 c4 where "handle_post_burst_flags ops f (c3\<lparr>is_last_shot := False\<rparr>) = Some (r4, c4)"
    "port c' = port c4" by (auto simp: finish_burst_def bind_eq_Some_conv)
  with read_post [of f "c3\<lparr>is_last_shot := False\<rparr>" r4 c4] c3 fin(2) show ?thesis by simp
qed

end

text \<open>A port that always answers, without an error: then every read burst succeeds.\<close>

locale live_read_port =
  fixes ops :: "'s controller_ops"
  assumes positive: "0 < max_bytes_per_read ops"
    and request_answers: "\<exists>r c'. request_read ops n c = Some (r, c') \<and> 0 \<le> r"
    and read_answers: "\<exists>r bs c'. read_shot ops n c = Some ((r, bs), c') \<and> 0 \<le> r"
    and pre_answers: "\<exists>r c'. handle_pre_burst_flags ops f c = Some (r, c') \<and> 0 \<le> r"
    and post_answers: "\<exists>r c'. handle_post_burst_flags ops f c = Some (r, c')"
begin

lemma request_loop_answers:
  "\<exists>t u c'. request_loop ops n i slots to_request to_read c = Some (STATUS_OK, t, u, c')"
proof (induction slots arbitrary: i to_request to_read c)
  case (Suc slots)
  let ?m = "min to_request (max_bytes_per_read ops)"
  obtain r c' where "request_read ops ?m (c\<lparr>is_first_shot := (i = 0), is_last_shot := (to_read + ?m = n)\<rparr>) = Some (r, c')"
    "0 \<le> r" using request_answers by blast
  with Suc show ?case by (auto simp: Let_def)
qed simp

lemma read_loop_answers:
  "\<exists>bs c'. read_loop ops to_request to_read acc c = Some (STATUS_OK, bs, c')"
proof (induction "to_request + to_read" arbitrary: to_request to_read acc c rule: less_induct)
  case less
  show ?case
  proof (cases "to_read = 0")
    case False
    let ?n = "min to_read (max_bytes_per_read ops)" and ?m = "min to_request (max_bytes_per_read ops)"
    obtain r bs c1 where rd: "read_shot ops ?n (c\<lparr>is_last_shot := (to_request = 0 \<and> to_read \<le> max_bytes_per_read ops)\<rparr>)
      = Some ((r, bs), c1)" "0 \<le> r" using read_answers by blast
    obtain r' c2 where rq: "request_read ops ?m (c1\<lparr>is_first_shot := False\<rparr>) = Some (r', c2)" "0 \<le> r'"
      using request_answers by blast
    have "0 < ?n" using False positive by simp
    then have "to_request - ?m + (to_read - ?n + ?m) < to_request + to_read" "to_read - ?n < to_read"
      using False by simp_all
    with less have "\<exists>bs c'. read_loop ops (to_request - ?m) (to_read - ?n + ?m) acc c = Some (STATUS_OK, bs, c')"
      "\<exists>bs c'. read_loop ops to_request (to_read - ?n) acc c = Some (STATUS_OK, bs, c')" for acc c by simp_all
    with rd rq False show ?thesis by (cases "to_request = 0") (subst read_loop.simps, simp add: Let_def)+
  qed (simp add: read_loop.simps)
qed

lemma read_burst_answers: "\<exists>bs c'. ctrl_read_burst ops f n c = Some (STATUS_OK, bs, c')"
proof -
  obtain r1 c1 where p: "handle_pre_burst_flags ops f (c\<lparr>current_burst_flags := ucast (f AND 0xff)\<rparr>) = Some (r1, c1)"
    "0 \<le> r1" using pre_answers by blast
  obtain t u c2 where rq: "request_loop ops n 0 (read_queue_size ops) n 0 c1 = Some (STATUS_OK, t, u, c2)"
    using request_loop_answers by blast
  obtain bs c3 where rd: "read_loop ops t u [] (c2\<lparr>is_first_shot := True\<rparr>) = Some (STATUS_OK, bs, c3)"
    using read_loop_answers by blast
  obtain r4 c4 where "handle_post_burst_flags ops f (c3\<lparr>is_last_shot := False\<rparr>) = Some (r4, c4)"
    using post_answers by blast
  with p rq rd show ?thesis by (simp add: ctrl_read_burst_def finish_burst_def)
qed

end

end
