(* ===== verification/Spi_V2.thy ===== *)
theory Spi_V2
  imports Controller_Ports Registers
begin

text \<open>
  The SPI controllers \<^verbatim>\<open>lib/controllers/spi_v2_controller.c\<close> and, bit by bit,
  \<^verbatim>\<open>spi_bs_single_controller.c\<close>. A loop that polls a status register ends only when the device
  answers; what never ends is \<open>None\<close>.
\<close>

abbreviation SPI_BURST_FLAG_QUAD_MODE :: u8 where "SPI_BURST_FLAG_QUAD_MODE \<equiv> 1"
abbreviation SPI_POST_BURST_FLAG_LEAVE_CS_ASSERTED :: u32 where
  "SPI_POST_BURST_FLAG_LEAVE_CS_ASSERTED \<equiv> 0x10"

abbreviation SPI_MASK_READ_WRITE :: u32 where "SPI_MASK_READ_WRITE \<equiv> 0x4000000"
abbreviation SPI_MASK_QUAD_MODE :: u32 where "SPI_MASK_QUAD_MODE \<equiv> 0x8000000"
abbreviation SPI_MASK_CHIPSELECT :: u32 where "SPI_MASK_CHIPSELECT \<equiv> 0x10000000"
abbreviation SPI_MASK_ACCESS_VALID :: u32 where "SPI_MASK_ACCESS_VALID \<equiv> 0x20000000"
abbreviation SPI_MASK_SELECT_DEVICE :: u32 where "SPI_MASK_SELECT_DEVICE \<equiv> 0x40000000"
abbreviation SPI_WRITE_FIFO_EMPTY :: u32 where "SPI_WRITE_FIFO_EMPTY \<equiv> 0x4000000"
abbreviation SPI_READ_FIFO_EMPTY :: u32 where "SPI_READ_FIFO_EMPTY \<equiv> 0x8000000"

datatype spi_cs_status = SPI_CS_ON | SPI_CS_OFF

record spi_v2_controller =
  control_register :: u32
  selected_device :: u32

definition extract_byte :: "u32 \<Rightarrow> nat \<Rightarrow> u8" where
  "extract_byte w pos = ucast (drop_bit (8 * pos) w)"

definition get_data_size_flag :: "nat \<Rightarrow> u32" where
  "get_data_size_flag num_bytes = push_bit 24 (of_nat num_bytes - 1)"

definition spi_v2_write_ctrl_register ::
    "'hw register_interface \<Rightarrow> spi_v2_controller \<Rightarrow> u32 \<Rightarrow> 'hw \<Rightarrow> 'hw" where
  "spi_v2_write_ctrl_register ri self val s =
     ri_write ri (control_register self) (val OR (selected_device self AND SPI_MASK_SELECT_DEVICE)) s"

definition spi_v2_read_ctrl_register ::
    "'hw register_interface \<Rightarrow> spi_v2_controller \<Rightarrow> 'hw \<Rightarrow> u32 \<times> 'hw" where
  "spi_v2_read_ctrl_register ri self s = ri_read ri (control_register self) s"

text \<open>A register that reads all ones is taken for a device that is gone.\<close>

partial_function (option) spi_v2_wait_for_ctrl_status ::
    "'hw register_interface \<Rightarrow> spi_v2_controller \<Rightarrow> u32 \<Rightarrow> u32 \<Rightarrow> 'hw \<Rightarrow> (int \<times> 'hw) option" where
  "spi_v2_wait_for_ctrl_status ri self status_mask desired_status s =
     (let v = fst (spi_v2_read_ctrl_register ri self s); s1 = snd (spi_v2_read_ctrl_register ri self s)
      in if v \<noteq> 0xffffffff \<and> v AND status_mask \<noteq> desired_status
         then spi_v2_wait_for_ctrl_status ri self status_mask desired_status s1
         else Some (if v \<noteq> 0xffffffff then STATUS_OK else STATUS_ERROR, s1))"

partial_function (option) spi_v2_read_data_when_valid ::
    "'hw register_interface \<Rightarrow> spi_v2_controller \<Rightarrow> 'hw \<Rightarrow> (u32 \<times> 'hw) option" where
  "spi_v2_read_data_when_valid ri self s =
     (let v = fst (spi_v2_read_ctrl_register ri self s); s1 = snd (spi_v2_read_ctrl_register ri self s)
      in if v AND SPI_READ_FIFO_EMPTY = SPI_READ_FIFO_EMPTY then spi_v2_read_data_when_valid ri self s1
         else Some (v, s1))"

definition upd_port :: "('s \<Rightarrow> 's) \<Rightarrow> 's controller \<Rightarrow> 's controller" where
  "upd_port f c = c\<lparr>port := f (port c)\<rparr>"

lemma port_upd [simp]: "port (upd_port f c) = f (port c)"
  by (simp add: upd_port_def)

definition spi_v2_wait_for_write_fifo_empty ::
    "'hw register_interface \<Rightarrow> spi_v2_controller \<Rightarrow> 'hw handler" where
  "spi_v2_wait_for_write_fifo_empty ri self c =
     map_option (\<lambda>(r, s). (r, c\<lparr>port := s\<rparr>))
       (spi_v2_wait_for_ctrl_status ri self SPI_WRITE_FIFO_EMPTY SPI_WRITE_FIFO_EMPTY (port c))"

definition spi_v2_wait_for_read_fifo_empty ::
    "'hw register_interface \<Rightarrow> spi_v2_controller \<Rightarrow> 'hw \<Rightarrow> (int \<times> 'hw) option" where
  "spi_v2_wait_for_read_fifo_empty ri self s =
     spi_v2_wait_for_ctrl_status ri self SPI_READ_FIFO_EMPTY SPI_READ_FIFO_EMPTY s"

definition spi_v2_set_chipselect ::
    "'hw register_interface \<Rightarrow> spi_v2_controller \<Rightarrow> spi_cs_status \<Rightarrow> 'hw \<Rightarrow> 'hw" where
  "spi_v2_set_chipselect ri self status =
     spi_v2_write_ctrl_register ri self (case status of SPI_CS_OFF \<Rightarrow> SPI_MASK_CHIPSELECT | SPI_CS_ON \<Rightarrow> 0)"

definition spi_v2_handle_pre_burst_flags ::
    "'hw register_interface \<Rightarrow> spi_v2_controller \<Rightarrow> u32 \<Rightarrow> 'hw handler" where
  "spi_v2_handle_pre_burst_flags ri self flags c =
     Some (0, upd_port (spi_v2_set_chipselect ri self SPI_CS_ON) c)"

definition spi_v2_handle_post_burst_flags ::
    "'hw register_interface \<Rightarrow> spi_v2_controller \<Rightarrow> u32 \<Rightarrow> 'hw handler" where
  "spi_v2_handle_post_burst_flags ri self flags c =
     Some (0, if flags AND SPI_POST_BURST_FLAG_LEAVE_CS_ASSERTED = 0
              then upd_port (spi_v2_set_chipselect ri self SPI_CS_OFF) c else c)"

definition shot_command :: "u32 \<Rightarrow> nat \<Rightarrow> u8 \<Rightarrow> u32" where
  "shot_command cmd_base num_bytes flags =
     (let cmd = cmd_base OR get_data_size_flag num_bytes
      in if flags AND SPI_BURST_FLAG_QUAD_MODE \<noteq> 0 then cmd OR SPI_MASK_QUAD_MODE else cmd)"

text \<open>The bytes of a shot, the first in the lowest place.\<close>

definition shot_data :: "u8 list \<Rightarrow> u32" where
  "shot_data buf = fold (\<lambda>i d. d OR push_bit (8 * i) (ucast (buf ! i))) [0..<length buf] 0"

definition spi_v2_write_shot ::
    "'hw register_interface \<Rightarrow> spi_v2_controller \<Rightarrow> u8 list \<Rightarrow> 'hw handler" where
  "spi_v2_write_shot ri self buf c =
     Some (0, upd_port (spi_v2_write_ctrl_register ri self
       (shot_command SPI_MASK_ACCESS_VALID (length buf) (current_burst_flags c) OR shot_data buf)) c)"

definition spi_v2_request_read ::
    "'hw register_interface \<Rightarrow> spi_v2_controller \<Rightarrow> nat \<Rightarrow> 'hw handler" where
  "spi_v2_request_read ri self num_bytes c =
     Some (0, upd_port (spi_v2_write_ctrl_register ri self
       (shot_command (SPI_MASK_READ_WRITE OR SPI_MASK_ACCESS_VALID) num_bytes (current_burst_flags c))) c)"

text \<open>The bytes of a word that was read, the last one from the lowest place.\<close>

definition spi_v2_read_shot ::
    "'hw register_interface \<Rightarrow> spi_v2_controller \<Rightarrow> nat \<Rightarrow> 'hw controller
     \<Rightarrow> ((int \<times> u8 list) \<times> 'hw controller) option" where
  "spi_v2_read_shot ri self num_bytes c =
     map_option (\<lambda>(spi_reg, s).
         ((0, map (\<lambda>i. extract_byte spi_reg (num_bytes - 1 - i)) [0..<num_bytes]), c\<lparr>port := s\<rparr>))
       (spi_v2_read_data_when_valid ri self (port c))"

text \<open>Aborting a burst and the cleanup are not implemented in the driver.\<close>

definition spi_v2_burst_aborted :: "'hw controller \<Rightarrow> 'hw controller" where
  "spi_v2_burst_aborted c = c"

definition spi_v2_cleanup :: "'hw controller \<Rightarrow> 'hw controller" where
  "spi_v2_cleanup c = c"

definition spi_v2_ops :: "'hw register_interface \<Rightarrow> spi_v2_controller \<Rightarrow> 'hw controller_ops" where
  "spi_v2_ops ri self = \<lparr>
     handle_begin_transaction = None,
     handle_end_transaction = None,
     handle_pre_burst_flags = spi_v2_handle_pre_burst_flags ri self,
     handle_post_burst_flags = spi_v2_handle_post_burst_flags ri self,
     write_shot = spi_v2_write_shot ri self,
     request_read = spi_v2_request_read ri self,
     read_shot = spi_v2_read_shot ri self,
     execute_command = controller_base_execute_command_not_supported,
     wait_for_write_queue_empty = spi_v2_wait_for_write_fifo_empty ri self,
     burst_aborted = spi_v2_burst_aborted,
     cleanup = spi_v2_cleanup,
     read_queue_size = 8,
     max_bytes_per_read = 3,
     write_queue_size = 8,
     max_bytes_per_write = 3\<rparr>"

definition spi_v2a_controller_init ::
    "'hw register_interface \<Rightarrow> u32 \<Rightarrow> u32 \<Rightarrow> 'hw \<Rightarrow> (int \<times> spi_v2_controller \<times> 'hw controller) option" where
  "spi_v2a_controller_init ri reg target_device s =
     (let self = \<lparr>control_register = reg,
                  selected_device = push_bit 30 target_device AND SPI_MASK_SELECT_DEVICE\<rparr>;
          s1 = spi_v2_write_ctrl_register ri self
                 (SPI_MASK_CHIPSELECT OR SPI_MASK_ACCESS_VALID OR SPI_MASK_READ_WRITE) s
      in map_option (\<lambda>(r, s2). (r, self, controller_base_init s2)) (spi_v2_wait_for_read_fifo_empty ri self s1))"

definition spi_v2_controller_init ::
    "'hw register_interface \<Rightarrow> u32 \<Rightarrow> 'hw \<Rightarrow> (int \<times> spi_v2_controller \<times> 'hw controller) option" where
  "spi_v2_controller_init ri reg s = spi_v2a_controller_init ri reg 0 s"

section \<open>The bit-banged controller\<close>

abbreviation SPI_SCK :: u32 where "SPI_SCK \<equiv> 1"
abbreviation SPI_CEn :: u32 where "SPI_CEn \<equiv> 2"
abbreviation SPI_MOSI :: u32 where "SPI_MOSI \<equiv> 4"
abbreviation SPI_WPn :: u32 where "SPI_WPn \<equiv> 8"
abbreviation SPI_OE :: u32 where "SPI_OE \<equiv> 0x80"
abbreviation SPI_MISO :: u32 where "SPI_MISO \<equiv> 0x80"

definition spi_bs_single_set_chipselect ::
    "'hw register_interface \<Rightarrow> u32 \<Rightarrow> spi_cs_status \<Rightarrow> 'hw \<Rightarrow> 'hw" where
  "spi_bs_single_set_chipselect ri reg status =
     ri_write ri reg (case status of SPI_CS_ON \<Rightarrow> SPI_OE OR SPI_WPn | SPI_CS_OFF \<Rightarrow> SPI_CEn)"

definition spi_bs_single_handle_pre_burst_flags :: "'hw register_interface \<Rightarrow> u32 \<Rightarrow> u32 \<Rightarrow> 'hw handler" where
  "spi_bs_single_handle_pre_burst_flags ri reg flags c =
     Some (0, upd_port (spi_bs_single_set_chipselect ri reg SPI_CS_ON) c)"

definition spi_bs_single_handle_post_burst_flags :: "'hw register_interface \<Rightarrow> u32 \<Rightarrow> u32 \<Rightarrow> 'hw handler" where
  "spi_bs_single_handle_post_burst_flags ri reg flags c =
     Some (0, if flags AND SPI_POST_BURST_FLAG_LEAVE_CS_ASSERTED = 0
              then upd_port (spi_bs_single_set_chipselect ri reg SPI_CS_OFF) c else c)"

text \<open>One bit: the data line is set before the clock rises and held until it has fallen.\<close>

definition clock_out :: "'hw register_interface \<Rightarrow> u32 \<Rightarrow> bool \<Rightarrow> 'hw \<Rightarrow> 'hw" where
  "clock_out ri reg b s =
     (let m = (if b then SPI_MOSI else 0)
      in write_words ri reg [SPI_OE OR m, SPI_OE OR SPI_SCK OR m, SPI_OE OR SPI_SCK OR m, SPI_OE OR m] s)"

definition msb_first :: "u8 \<Rightarrow> bool list" where
  "msb_first b = map (bit b) [7, 6, 5, 4, 3, 2, 1, 0]"

text \<open>The first byte of the buffer; the shots of this controller have one.\<close>

definition spi_bs_single_write_shot :: "'hw register_interface \<Rightarrow> u32 \<Rightarrow> u8 list \<Rightarrow> 'hw handler" where
  "spi_bs_single_write_shot ri reg buf c =
     Some (0, upd_port (fold (clock_out ri reg) (msb_first (hd buf))) c)"

definition clock_in :: "'hw register_interface \<Rightarrow> u32 \<Rightarrow> 'hw \<Rightarrow> bool \<times> 'hw" where
  "clock_in ri reg s =
     (let s1 = write_words ri reg [SPI_OE OR SPI_MOSI, SPI_OE OR SPI_SCK OR SPI_MOSI] s;
          (val, s2) = ri_read ri reg s1
      in (val AND SPI_MISO \<noteq> 0, ri_write ri reg (SPI_OE OR SPI_MOSI) s2))"

definition spi_bs_single_read_shot ::
    "'hw register_interface \<Rightarrow> u32 \<Rightarrow> nat \<Rightarrow> 'hw controller \<Rightarrow> ((int \<times> u8 list) \<times> 'hw controller) option" where
  "spi_bs_single_read_shot ri reg num_bytes c =
     (let (data, s) = fold (\<lambda>k (d, s). let (b, s1) = clock_in ri reg s
                                        in (if b then d OR push_bit k 1 else d, s1))
                        [7, 6, 5, 4, 3, 2, 1, 0] (0, port c)
      in Some ((0, [data]), c\<lparr>port := s\<rparr>))"

definition spi_bs_single_ops :: "'hw register_interface \<Rightarrow> u32 \<Rightarrow> 'hw controller_ops" where
  "spi_bs_single_ops ri reg = \<lparr>
     handle_begin_transaction = None,
     handle_end_transaction = None,
     handle_pre_burst_flags = spi_bs_single_handle_pre_burst_flags ri reg,
     handle_post_burst_flags = spi_bs_single_handle_post_burst_flags ri reg,
     write_shot = spi_bs_single_write_shot ri reg,
     request_read = (\<lambda>n c. Some (0, c)),
     read_shot = spi_bs_single_read_shot ri reg,
     execute_command = controller_base_execute_command_not_supported,
     wait_for_write_queue_empty = (\<lambda>c. Some (0, c)),
     burst_aborted = (\<lambda>c. c),
     cleanup = (\<lambda>c. c),
     read_queue_size = 1,
     max_bytes_per_read = 1,
     write_queue_size = 1,
     max_bytes_per_write = 1\<rparr>"

end
