(* ===== verification/Spi_V2_Props.thy ===== *)
theory Spi_V2_Props
  imports Spi_V2
begin

text \<open>
  What the SPI controllers put on the wire, for any device: the accesses to the control register
  are logged, and the log is read the way the FPGA reads it.
\<close>

section \<open>Reading the log\<close>

record wire =
  w_sent :: "u8 list"
  w_pending :: nat
  w_calm :: bool
  w_requested :: "nat list"
  w_delivered :: "u8 list"

definition quiet_wire :: wire where
  "quiet_wire = \<lparr>w_sent = [], w_pending = 0, w_calm = True, w_requested = [], w_delivered = []\<rparr>"

definition shot_bytes :: "nat \<Rightarrow> u32 \<Rightarrow> u8 list" where
  "shot_bytes n x = map (\<lambda>i. ucast (drop_bit (8 * i) x)) [0..<n]"

definition shot_size :: "u32 \<Rightarrow> nat" where
  "shot_size x = unat (drop_bit 24 x AND 3) + 1"

text \<open>
  A command that is valid sends its bytes or asks for some. The write FIFO holds eight shots; it
  is known to be empty when the status says so. A status with a valid word delivers the bytes of
  the oldest request.
\<close>

fun wire_step :: "u32 \<Rightarrow> bus_event \<Rightarrow> wire \<Rightarrow> wire" where
  "wire_step reg (Wr a x) w =
     (if a = reg \<and> bit x 29 then
        if bit x 26 then w\<lparr>w_requested := w_requested w @ [shot_size x]\<rparr>
        else w\<lparr>w_sent := w_sent w @ shot_bytes (shot_size x) x, w_pending := w_pending w + 1,
               w_calm := (w_calm w \<and> w_pending w < 8)\<rparr>
      else w)"
| "wire_step reg (Rd a x) w =
     (if a = reg then
        let w1 = (if bit x 26 then w\<lparr>w_pending := 0\<rparr> else w)
        in case w_requested w1 of
             [] \<Rightarrow> w1
           | n # ns \<Rightarrow>
               if bit x 27 then w1
               else w1\<lparr>w_requested := ns, w_delivered := w_delivered w1 @ rev (shot_bytes n x)\<rparr>
      else w)"

definition wire_of :: "u32 \<Rightarrow> bus_event list \<Rightarrow> wire" where
  "wire_of reg log = fold (wire_step reg) log quiet_wire"

lemma wire_of_snoc [simp]: "wire_of reg (log @ [e]) = wire_step reg e (wire_of reg log)"
  by (simp add: wire_of_def)

section \<open>The layout of a command\<close>

lemma bit_push_one: "bit (push_bit n (1 :: u32)) k \<longleftrightarrow> k = n \<and> n < 32"
  by (auto simp only: bit_push_bit_iff bit_1_iff possible_bit_word) simp_all

lemma and_push_one:
  fixes x :: u32
  assumes "n < 32"
  shows "x AND push_bit n 1 = 0 \<longleftrightarrow> \<not> bit x n" "x AND push_bit n 1 = push_bit n 1 \<longleftrightarrow> bit x n"
proof -
  show "x AND push_bit n 1 = 0 \<longleftrightarrow> \<not> bit x n" by (simp add: and_exp_eq_0_iff_not_bit push_bit_of_1)
  show "x AND push_bit n 1 = push_bit n 1 \<longleftrightarrow> bit x n"
  proof
    assume "x AND push_bit n 1 = push_bit n 1"
    then have "bit (x AND push_bit n 1) n" using assms by (simp only: bit_push_one simp_thms)
    then show "bit x n" by (simp only: bit_and_iff)
  next
    assume "bit x n"
    then show "x AND push_bit n 1 = push_bit n 1"
      by (intro bit_word_eqI) (auto simp only: bit_and_iff bit_push_one)
  qed
qed

lemma mask_bits:
  "(0x4000000 :: u32) = push_bit 26 1" "(0x8000000 :: u32) = push_bit 27 1"
  "(0x10000000 :: u32) = push_bit 28 1" "(0x20000000 :: u32) = push_bit 29 1"
  "(0x40000000 :: u32) = push_bit 30 1"
  by simp_all

lemma and_bit [simp]:
  "x AND 0x4000000 = 0 \<longleftrightarrow> \<not> bit x 26" "x AND 0x8000000 = 0 \<longleftrightarrow> \<not> bit x 27"
  "x AND 0x4000000 = 0x4000000 \<longleftrightarrow> bit x 26" "x AND 0x8000000 = 0x8000000 \<longleftrightarrow> bit x 27" for x :: u32
  unfolding mask_bits by (simp_all only: and_push_one refl numeral_less_iff Num.num.simps less_num_simps)

lemma three_cases:
  assumes "bs \<noteq> []" "length bs \<le> 3"
  obtains a where "bs = [a]" | a b where "bs = [a, b]" | a b c where "bs = [a, b, c]"
proof -
  from assms(1) obtain a bs1 where 1: "bs = a # bs1" by (cases bs) auto
  show thesis
  proof (cases bs1)
    case (Cons b bs2)
    show thesis
    proof (cases bs2)
      case (Cons c bs3)
      with 1 \<open>bs1 = b # bs2\<close> assms(2) show thesis using that(3) by simp
    qed (use 1 \<open>bs1 = b # bs2\<close> that(2) in simp)
  qed (use 1 that(1) in simp)
qed


lemma size_flag:
  "get_data_size_flag 1 = 0" "get_data_size_flag (Suc 0) = 0" "get_data_size_flag 2 = push_bit 24 1"
  "get_data_size_flag 3 = push_bit 25 1"
  by (simp_all add: get_data_size_flag_def)

lemma data_of:
  "shot_data [a] = ucast a" "shot_data [a, b] = ucast a OR push_bit 8 (ucast b)"
  "shot_data [a, b, c] = (ucast a OR push_bit 8 (ucast b)) OR push_bit 16 (ucast c)"
  by (simp_all add: shot_data_def upt_rec numeral_2_eq_2)

lemma bit_select: "bit (x AND push_bit 30 1) k \<longleftrightarrow> k = 30 \<and> bit x 30" for x :: u32
  by (auto simp only: bit_and_iff bit_push_one numeral_less_iff less_num_simps)

lemma bit_data:
  "bit (ucast a :: u32) k \<longleftrightarrow> k < 8 \<and> bit a k"
  "bit (push_bit 8 (ucast a) :: u32) k \<longleftrightarrow> 8 \<le> k \<and> k < 16 \<and> bit a (k - 8)"
  "bit (push_bit 16 (ucast a) :: u32) k \<longleftrightarrow> 16 \<le> k \<and> k < 24 \<and> bit a (k - 16)" for a :: u8
  by (auto simp: bit_push_bit_iff bit_ucast_iff dest: bit_imp_le_length)


lemma shot_command_bits:
  assumes "n = 1 \<or> n = 2 \<or> n = 3" "k < 32"
  shows "bit (shot_command base n fl) k \<longleftrightarrow>
    bit base k \<or> (k = 24 \<and> n = 2) \<or> (k = 25 \<and> n = 3) \<or> (k = 27 \<and> fl AND 1 \<noteq> 0)"
  using assms(1)
proof (elim disjE)
  assume n: "n = 1"
  show ?thesis
    by (auto simp only: n shot_command_def Let_def size_flag mask_bits bit_or_iff bit_push_one or.right_neutral split: if_splits)
next
  assume n: "n = 2"
  show ?thesis
    by (auto simp only: n shot_command_def Let_def size_flag mask_bits bit_or_iff bit_push_one split: if_splits)
next
  assume n: "n = 3"
  show ?thesis
    by (auto simp only: n shot_command_def Let_def size_flag mask_bits bit_or_iff bit_push_one split: if_splits)
qed


lemma shot_size_bits: "shot_size x = (if bit x 24 then 2 else 1) + (if bit x 25 then 2 else 0)"
proof -
  let ?y = "unat x div 2 ^ 24"
  have "unat (drop_bit 24 x AND 3) = ?y mod 4"
    using unat_and_mask [of "drop_bit 24 x" 2] by (simp add: mask_eq_exp_minus_1 unat_drop_bit_eq drop_bit_eq_div [where 'a = nat])
  moreover have "bit x 24 \<longleftrightarrow> odd ?y" "bit x 25 \<longleftrightarrow> odd (?y div 2)"
    using bit_unsigned_iff [of x 24, where 'a = nat] bit_unsigned_iff [of x 25, where 'a = nat]
    by (simp_all add: bit_iff_odd [of "unat x"] flip: div_mult2_eq)
  moreover have "y mod 4 = (if odd y then 1 else 0) + (if odd (y div 2) then 2 else 0)" for y :: nat
    by presburger
  ultimately show ?thesis by (simp add: shot_size_def)
qed


text \<open>The word of a shot that is written, and of one that is requested.\<close>

definition write_word :: "u32 \<Rightarrow> u8 \<Rightarrow> u8 list \<Rightarrow> u32" where
  "write_word sel fl bs =
     (shot_command SPI_MASK_ACCESS_VALID (length bs) fl OR shot_data bs) OR (sel AND SPI_MASK_SELECT_DEVICE)"

definition request_word :: "u32 \<Rightarrow> u8 \<Rightarrow> nat \<Rightarrow> u32" where
  "request_word sel fl n =
     shot_command (SPI_MASK_READ_WRITE OR SPI_MASK_ACCESS_VALID) n fl OR (sel AND SPI_MASK_SELECT_DEVICE)"

lemma byte_place:
  "8 \<le> k \<Longrightarrow> k < 16 \<Longrightarrow> k div 8 = 1 \<and> k mod 8 = k - 8"
  "16 \<le> k \<Longrightarrow> k < 24 \<Longrightarrow> k div 8 = 2 \<and> k mod 8 = k - 16" for k :: nat
  by presburger+

lemma data_bits:
  assumes "bs \<noteq> []" "length bs \<le> 3" "k < 32"
  shows "bit (shot_data bs) k \<longleftrightarrow> k div 8 < length bs \<and> bit (bs ! (k div 8)) (k mod 8)"
  using assms(1,2)
proof (cases rule: three_cases)
  case (1 a)
  then show ?thesis by (auto simp: data_of bit_data)
next
  case (2 a b)
  consider "k < 8" | "8 \<le> k" "k < 16" | "16 \<le> k" by linarith
  then show ?thesis using 2 by cases (auto simp: data_of bit_or_iff bit_data byte_place)
next
  case (3 a b c)
  consider "k < 8" | "8 \<le> k" "k < 16" | "16 \<le> k" "k < 24" | "24 \<le> k" by linarith
  then show ?thesis using 3 by cases (auto simp: data_of bit_or_iff bit_data byte_place)
qed


lemma few: "bs \<noteq> [] \<Longrightarrow> length bs \<le> 3 \<Longrightarrow> length bs = 1 \<or> length bs = 2 \<or> length bs = 3"
  by (cases bs rule: three_cases) auto

lemma write_word_bits:
  assumes "bs \<noteq> []" "length bs \<le> 3" "k < 32"
  shows "bit (write_word sel fl bs) k \<longleftrightarrow> k = 29 \<or> k = 24 \<and> length bs = 2 \<or> k = 25 \<and> length bs = 3
    \<or> k = 27 \<and> fl AND 1 \<noteq> 0 \<or> k = 30 \<and> bit sel 30 \<or> k div 8 < length bs \<and> bit (bs ! (k div 8)) (k mod 8)"
  using assms
  by (auto simp only: write_word_def bit_or_iff shot_command_bits [OF few [OF assms(1,2)] assms(3)]
    data_bits [OF assms] bit_select mask_bits bit_push_one)

lemma write_word_layout:
  assumes "bs \<noteq> []" "length bs \<le> 3"
  shows "bit (write_word sel fl bs) 29" "\<not> bit (write_word sel fl bs) 26"
    "shot_size (write_word sel fl bs) = length bs" "shot_bytes (length bs) (write_word sel fl bs) = bs"
proof -
  note b = write_word_bits [OF assms]
  show "bit (write_word sel fl bs) 29" "\<not> bit (write_word sel fl bs) 26" using assms(2) by (simp_all add: b)
  show "shot_size (write_word sel fl bs) = length bs" using few [OF assms] by (auto simp: shot_size_bits b)
  show "shot_bytes (length bs) (write_word sel fl bs) = bs"
  proof (rule nth_equalityI)
    fix i
    assume "i < length (shot_bytes (length bs) (write_word sel fl bs))"
    then have i: "i < length bs" by (simp add: shot_bytes_def)
    have "ucast (drop_bit (8 * i) (write_word sel fl bs)) = bs ! i"
    proof (rule bit_word_eqI)
      fix j
      assume "j < LENGTH(8)"
      then have j: "j < 8" by simp
      then have "8 * i + j < 24" "(8 * i + j) div 8 = i" "(8 * i + j) mod 8 = j" using i assms(2) by simp_all
      then show "bit (ucast (drop_bit (8 * i) (write_word sel fl bs)) :: u8) j = bit (bs ! i) j"
        using j i b [of "8 * i + j" sel fl] by (simp add: bit_ucast_iff bit_drop_bit_eq)
    qed
    then show "shot_bytes (length bs) (write_word sel fl bs) ! i = bs ! i" using i by (simp add: shot_bytes_def)
  qed (simp add: shot_bytes_def)
qed

lemma request_word_layout:
  assumes "0 < n" "n \<le> 3"
  shows "bit (request_word sel fl n) 29" "bit (request_word sel fl n) 26" "shot_size (request_word sel fl n) = n"
proof -
  have n: "n = 1 \<or> n = 2 \<or> n = 3" using assms by auto
  have b: "bit (request_word sel fl n) k \<longleftrightarrow> k = 29 \<or> k = 26 \<or> k = 24 \<and> n = 2 \<or> k = 25 \<and> n = 3
    \<or> k = 27 \<and> fl AND 1 \<noteq> 0 \<or> k = 30 \<and> bit sel 30" if "k < 32" for k
    using that by (auto simp only: request_word_def bit_or_iff shot_command_bits [OF n that] bit_select
      mask_bits bit_push_one)
  show "bit (request_word sel fl n) 29" "bit (request_word sel fl n) 26" by (simp_all add: b)
  show "shot_size (request_word sel fl n) = n" using n by (auto simp: shot_size_bits b)
qed

lemma select_word_quiet: "\<not> bit (v OR (sel AND 0x40000000)) 29" if "\<not> bit v 29" for v :: u32
  using that by (simp only: bit_or_iff mask_bits bit_select) simp


section \<open>Polling\<close>

text \<open>A poll that ends has read the status it waits for, or all ones; what reads keep, it keeps.\<close>

lemma wait_ends:
  assumes "spi_v2_wait_for_ctrl_status ri self m d s = Some y" "Q s"
    "\<And>s. Q s \<Longrightarrow> Q (snd (ri_read ri (control_register self) s))"
  shows "\<exists>s0 v. Q s0 \<and> ri_read ri (control_register self) s0 = (v, snd y)
    \<and> (fst y = STATUS_OK \<and> v \<noteq> 0xffffffff \<and> v AND m = d \<or> fst y = STATUS_ERROR \<and> v = 0xffffffff)"
  using assms
proof (induction rule: spi_v2_wait_for_ctrl_status.raw_induct [rotated, consumes 1])
  case (1 f ri self m d s y)
  show ?case
  proof (cases "fst (ri_read ri (control_register self) s) \<noteq> 0xffffffff
      \<and> fst (ri_read ri (control_register self) s) AND m \<noteq> d")
    case True
    then have "f ri self m d (snd (ri_read ri (control_register self) s)) = Some y"
      using 1(2) by (simp add: spi_v2_read_ctrl_register_def Let_def)
    from 1(1) [OF this 1(4) [OF 1(3)] 1(4)] show ?thesis .
  next
    case False
    then have "y = (if fst (ri_read ri (control_register self) s) \<noteq> 0xffffffff then STATUS_OK else STATUS_ERROR,
        snd (ri_read ri (control_register self) s))"
      using 1(2) by (auto simp: spi_v2_read_ctrl_register_def Let_def)
    with False 1(3) show ?thesis
      by (intro exI [of _ s] exI [of _ "fst (ri_read ri (control_register self) s)"]) auto
  qed
qed

lemma read_ends:
  assumes "spi_v2_read_data_when_valid ri self s = Some y" "Q s"
    "\<And>s. Q s \<Longrightarrow> bit (fst (ri_read ri (control_register self) s)) 27
      \<Longrightarrow> Q (snd (ri_read ri (control_register self) s))"
  shows "\<exists>s0. Q s0 \<and> ri_read ri (control_register self) s0 = y \<and> \<not> bit (fst y) 27"
  using assms
proof (induction rule: spi_v2_read_data_when_valid.raw_induct [rotated, consumes 1])
  case (1 f ri self s y)
  show ?case
  proof (cases "bit (fst (ri_read ri (control_register self) s)) 27")
    case True
    then have "f ri self (snd (ri_read ri (control_register self) s)) = Some y"
      using 1(2) by (simp add: spi_v2_read_ctrl_register_def Let_def)
    from 1(1) [OF this 1(4) [OF 1(3) True] 1(4)] show ?thesis .
  next
    case False
    with 1(2,3) show ?thesis by (intro exI [of _ s]) (auto simp: spi_v2_read_ctrl_register_def Let_def)
  qed
qed

text \<open>A device that is gone reads all ones: a write ends with an error, a read does not end.\<close>

lemma gone_never_delivers:
  assumes "\<And>s. fst (ri_read ri (control_register self) s) = 0xffffffff"
  shows "spi_v2_read_data_when_valid ri self s = None"
proof (cases "spi_v2_read_data_when_valid ri self s")
  case (Some y)
  from read_ends [OF this, of "\<lambda>_. True"] obtain s0 where
    "ri_read ri (control_register self) s0 = y" "\<not> bit (fst y) 27" by blast
  with assms [of s0] show ?thesis by simp
qed


section \<open>The controller as a port\<close>

lemma wire_read [simp]:
  "w_sent (wire_step reg (Rd a x) w) = w_sent w" "w_calm (wire_step reg (Rd a x) w) = w_calm w"
  by (simp_all add: Let_def split: list.split)

lemma wire_read_waits: "bit x 27 \<Longrightarrow> w_requested (wire_step reg (Rd a x) w) = w_requested w
    \<and> w_delivered (wire_step reg (Rd a x) w) = w_delivered w"
  by (simp add: Let_def split: list.split)

lemma wire_read_empty: "bit x 26 \<Longrightarrow> w_pending (wire_step reg (Rd reg x) w) = 0"
  by (simp add: Let_def split: list.split)

lemma wire_read_delivers: "w_requested w = n # ns \<Longrightarrow> \<not> bit x 27
   \<Longrightarrow> w_requested (wire_step reg (Rd reg x) w) = ns
     \<and> w_delivered (wire_step reg (Rd reg x) w) = w_delivered w @ rev (shot_bytes n x)"
  by (simp add: Let_def)

lemma wire_quiet: "\<not> bit x 29 \<Longrightarrow> wire_step reg (Wr a x) w = w"
  by simp

lemma chipselect_quiet:
  "snd (spi_v2_set_chipselect (logged ri) self st (h, t)) = t @ [Wr (control_register self)
     ((case st of SPI_CS_OFF \<Rightarrow> SPI_MASK_CHIPSELECT | SPI_CS_ON \<Rightarrow> 0) OR (selected_device self AND SPI_MASK_SELECT_DEVICE))]"
  by (simp add: spi_v2_set_chipselect_def spi_v2_write_ctrl_register_def)

lemma chipselect_wire [simp]:
  "wire_of (control_register self) (snd (spi_v2_set_chipselect (logged ri) self st s))
   = wire_of (control_register self) (snd s)"
proof -
  have "\<not> bit (case st of SPI_CS_OFF \<Rightarrow> SPI_MASK_CHIPSELECT | SPI_CS_ON \<Rightarrow> 0) 29"
    by (cases st) simp_all
  then show ?thesis
    by (cases s) (simp only: chipselect_quiet wire_of_snoc snd_conv wire_quiet select_word_quiet not_False_eq_True)
qed

lemma rev_word_bytes: "map (\<lambda>i. extract_byte x (n - 1 - i)) [0..<n] = rev (shot_bytes n x)"
  by (rule nth_equalityI) (simp_all add: shot_bytes_def extract_byte_def rev_nth)

lemma length_word_bytes [simp]: "length (shot_bytes n x) = n"
  by (simp add: shot_bytes_def)

lemma wait_wire:
  fixes self :: spi_v2_controller
  defines "w \<equiv> \<lambda>s. wire_of (control_register self) (snd s)"
  assumes "spi_v2_wait_for_ctrl_status (logged ri) self 0x4000000 0x4000000 s = Some (r, s')"
  shows "w_sent (w s') = w_sent (w s) \<and> w_calm (w s') = w_calm (w s) \<and> (0 \<le> r \<longrightarrow> w_pending (w s') = 0)"
proof -
  have keeps: "w_sent (w (snd (ri_read (logged ri) (control_register self) s))) = w_sent (w s)"
    "w_calm (w (snd (ri_read (logged ri) (control_register self) s))) = w_calm (w s)" for s
    by (simp_all add: w_def del: wire_step.simps)
  obtain s0 v where e: "w_sent (w s0) = w_sent (w s)" "w_calm (w s0) = w_calm (w s)"
    "ri_read (logged ri) (control_register self) s0 = (v, s')"
    "r = STATUS_OK \<and> v AND 0x4000000 = 0x4000000 \<or> r = STATUS_ERROR"
    using wait_ends [OF assms(2), of "\<lambda>s'. w_sent (w s') = w_sent (w s) \<and> w_calm (w s') = w_calm (w s)"]
    by (simp only: keeps) auto
  then have "w s' = wire_step (control_register self) (Rd (control_register self) v) (w s0)"
    by (auto simp: w_def simp del: wire_step.simps)
  with e show ?thesis by (auto simp: wire_read_empty simp del: wire_step.simps)
qed

interpretation spi: write_port "spi_v2_ops (logged ri) self"
  "\<lambda>st. w_sent (wire_of (control_register self) (snd st))"
  "\<lambda>st. w_pending (wire_of (control_register self) (snd st))"
  "\<lambda>st. w_calm (wire_of (control_register self) (snd st))"
  for ri :: "'hw register_interface" and self
proof (unfold_locales, goal_cases)
  case (3 bs c r c')
  let ?x = "write_word (selected_device self) (current_burst_flags c) bs"
  have c': "snd (port c') = snd (port c) @ [Wr (control_register self) ?x]"
    using 3(1) by (auto simp: spi_v2_ops_def spi_v2_write_shot_def spi_v2_write_ctrl_register_def write_word_def)
  have "length bs \<le> 3" using 3(4) by (simp add: spi_v2_ops_def)
  note l = write_word_layout [OF 3(3) this]
  show ?case using 3(5,6) l unfolding c' by (simp add: spi_v2_ops_def)
next
  case (5 c r c')
  obtain s' where "spi_v2_wait_for_ctrl_status (logged ri) self 0x4000000 0x4000000 (port c) = Some (r, s')"
    "c' = c\<lparr>port := s'\<rparr>"
    using 5(1) by (auto simp: spi_v2_ops_def spi_v2_wait_for_write_fifo_empty_def)
  with wait_wire [of ri self] 5(2) show ?case by simp
next
  case 6 then show ?case by (auto simp: spi_v2_ops_def spi_v2_handle_pre_burst_flags_def)
next
  case 7 then show ?case by (auto simp: spi_v2_ops_def spi_v2_handle_post_burst_flags_def split: if_splits)
qed (auto simp: spi_v2_ops_def spi_v2_write_shot_def spi_v2_burst_aborted_def)


lemma read_wire:
  fixes self :: spi_v2_controller
  defines "w \<equiv> \<lambda>s. wire_of (control_register self) (snd s)"
  assumes "spi_v2_read_data_when_valid (logged ri) self s = Some (v, s')" "w_requested (w s) = n # ns"
  shows "w_requested (w s') = ns \<and> w_delivered (w s') = w_delivered (w s) @ rev (shot_bytes n v)"
proof -
  let ?Q = "\<lambda>s'. w_requested (w s') = n # ns \<and> w_delivered (w s') = w_delivered (w s)"
  have "?Q (snd (ri_read (logged ri) (control_register self) s1))"
    if "?Q s1" "bit (fst (ri_read (logged ri) (control_register self) s1)) 27" for s1
    using that by (simp add: w_def wire_read_waits del: wire_step.simps)
  from read_ends [OF assms(2), of ?Q, OF _ this] assms(3) obtain s0 where e: "?Q s0"
    "ri_read (logged ri) (control_register self) s0 = (v, s')" "\<not> bit v 27" by auto
  then have "w s' = wire_step (control_register self) (Rd (control_register self) v) (w s0)"
    by (auto simp: w_def simp del: wire_step.simps)
  with e wire_read_delivers show ?thesis by metis
qed

interpretation spi: read_port "spi_v2_ops (logged ri) self"
  "\<lambda>st. w_requested (wire_of (control_register self) (snd st))"
  "\<lambda>st. w_delivered (wire_of (control_register self) (snd st))"
  for ri :: "'hw register_interface" and self
proof (unfold_locales, goal_cases)
  case (3 n c r c')
  let ?x = "request_word (selected_device self) (current_burst_flags c) n"
  have c': "snd (port c') = snd (port c) @ [Wr (control_register self) ?x]"
    using 3(1) by (auto simp: spi_v2_ops_def spi_v2_request_read_def spi_v2_write_ctrl_register_def request_word_def)
  have "n \<le> 3" using 3(4) by (simp add: spi_v2_ops_def)
  note l = request_word_layout [OF 3(3) this]
  show ?case unfolding c' by (simp add: l)
next
  case (4 n c r bs c' ns)
  obtain v s' where rd: "spi_v2_read_data_when_valid (logged ri) self (port c) = Some (v, s')"
    "c' = c\<lparr>port := s'\<rparr>" "bs = rev (shot_bytes n v)"
    using 4(1) by (auto simp: spi_v2_ops_def spi_v2_read_shot_def simp flip: rev_word_bytes)
  from read_wire [OF rd(1) 4(3)] rd(2,3) show ?case by simp
next
  case 5 then show ?case by (auto simp: spi_v2_ops_def spi_v2_handle_pre_burst_flags_def)
next
  case 6 then show ?case by (auto simp: spi_v2_ops_def spi_v2_handle_post_burst_flags_def split: if_splits)
qed (auto simp: spi_v2_ops_def)

section \<open>What the bursts do\<close>

definition on_wire :: "spi_v2_controller \<Rightarrow> ('hw \<times> bus_event list) controller \<Rightarrow> wire" where
  "on_wire self c = wire_of (control_register self) (snd (port c))"

text \<open>A device that has always taken what it was sent, and has the bytes 1, 2, 3 to give.\<close>

definition demo_spi :: "unit register_interface" where
  "demo_spi = \<lparr>ri_read = (\<lambda>a s. (0x4010203, s)), ri_write = (\<lambda>a x s. s)\<rparr>"

definition gone_spi :: "unit register_interface" where
  "gone_spi = \<lparr>ri_read = (\<lambda>a s. (0xffffffff, s)), ri_write = (\<lambda>a x s. s)\<rparr>"

definition demo_spi_ctrl :: spi_v2_controller where
  "demo_spi_ctrl = \<lparr>control_register = 0x40, selected_device = 0\<rparr>"

text \<open>C13: A write burst of the SPI controller, whatever the device answers, never gives the write FIFO a
  ninth shot before the device has said that it is empty. If it succeeds, the valid commands on the
  wire carry exactly the bytes of the buffer in their order, and the FIFO is empty; if it fails, they
  carry the first bytes of it.\<close>

theorem spi_write_burst_sends_the_buffer:
  assumes "ctrl_write_burst (spi_v2_ops (logged ri) self) f buf c = Some (r, c')"
    "w_calm (on_wire self c)" "w_pending (on_wire self c) = 0"
  shows "w_calm (on_wire self c')
    \<and> (r = STATUS_OK \<and> w_sent (on_wire self c') = w_sent (on_wire self c) @ buf \<and> w_pending (on_wire self c') = 0
       \<or> r = STATUS_ERROR \<and> (\<exists>k. w_sent (on_wire self c') = w_sent (on_wire self c) @ take k buf))"
  using spi.write_burst_sends [OF assms(1)] assms(2,3) unfolding on_wire_def by blast

text \<open>C14: A read burst of the SPI controller that succeeds gives as many bytes as were asked for: the
  bytes the device delivers for the requests on the wire, each request with the number of bytes that
  was asked for, in their order; no request is left open.\<close>

theorem spi_read_burst_gives_the_delivered_bytes:
  assumes "ctrl_read_burst (spi_v2_ops (logged ri) self) f n c = Some (STATUS_OK, bs, c')"
    "w_requested (on_wire self c) = []"
  shows "length bs = n \<and> w_delivered (on_wire self c') = w_delivered (on_wire self c) @ bs
    \<and> w_requested (on_wire self c') = []"
  using spi.read_burst_reads [OF assms(1)] assms(2) unfolding on_wire_def by blast


text \<open>The bursts above on the device of the example.\<close>

lemmas burst_eval = ctrl_write_burst_def ctrl_read_burst_def write_loop.simps read_loop.simps finish_burst_def
  spi_v2_ops_def spi_v2_write_shot_def spi_v2_request_read_def spi_v2_read_shot_def spi_v2_wait_for_write_fifo_empty_def
  spi_v2_wait_for_ctrl_status.simps spi_v2_read_data_when_valid.simps spi_v2_handle_pre_burst_flags_def
  spi_v2_handle_post_burst_flags_def spi_v2_read_ctrl_register_def

definition demo_spi_start :: "(unit \<times> bus_event list) controller" where
  "demo_spi_start = controller_base_init ((), [])"

lemma demo_start_wire: "on_wire self demo_spi_start = quiet_wire"
  by (simp add: on_wire_def demo_spi_start_def controller_base_init_def wire_of_def)

lemma demo_spi_read [simp]: "ri_read demo_spi a s = (0x4010203, s)"
  by (simp add: demo_spi_def)

lemma demo_writes:
  "map_option fst (ctrl_write_burst (spi_v2_ops (logged demo_spi) demo_spi_ctrl) 0 [1, 2, 3, 4] demo_spi_start) = Some STATUS_OK"
  by (simp add: burst_eval Let_def)

interpretation demo: live_read_port "spi_v2_ops (logged demo_spi) demo_spi_ctrl"
proof (unfold_locales, goal_cases)
  case 3
  then show ?case
    by (simp add: spi_v2_ops_def spi_v2_read_shot_def spi_v2_read_data_when_valid.simps spi_v2_read_ctrl_register_def)
qed (auto simp: spi_v2_ops_def spi_v2_request_read_def spi_v2_handle_pre_burst_flags_def
  spi_v2_handle_post_burst_flags_def)

theorem spi_write_burst_sends_the_buffer_witness:
  "\<exists>r c'. ctrl_write_burst (spi_v2_ops (logged demo_spi) demo_spi_ctrl) 0 [1, 2, 3, 4] demo_spi_start = Some (r, c')
     \<and> w_sent (on_wire demo_spi_ctrl c') = [1, 2, 3, 4] \<and> w_pending (on_wire demo_spi_ctrl c') = 0"
proof -
  obtain c' where w: "ctrl_write_burst (spi_v2_ops (logged demo_spi) demo_spi_ctrl) 0 [1, 2, 3, 4] demo_spi_start
      = Some (STATUS_OK, c')" using demo_writes by auto
  from spi_write_burst_sends_the_buffer [OF w] w show ?thesis by (simp add: demo_start_wire quiet_wire_def)
qed

theorem spi_read_burst_gives_the_delivered_bytes_witness:
  "\<exists>bs c'. ctrl_read_burst (spi_v2_ops (logged demo_spi) demo_spi_ctrl) 0 4 demo_spi_start = Some (STATUS_OK, bs, c')
     \<and> length bs = 4 \<and> w_delivered (on_wire demo_spi_ctrl c') = bs"
proof -
  obtain bs c' where r: "ctrl_read_burst (spi_v2_ops (logged demo_spi) demo_spi_ctrl) 0 4 demo_spi_start
      = Some (STATUS_OK, bs, c')" using demo.read_burst_answers by blast
  from spi_read_burst_gives_the_delivered_bytes [OF r] r show ?thesis by (simp add: demo_start_wire quiet_wire_def)
qed


section \<open>A device that is gone\<close>

lemma gone_wait:
  assumes "\<And>s. fst (ri_read ri (control_register self) s) = 0xffffffff"
  shows "\<exists>c'. wait_for_write_queue_empty (spi_v2_ops ri self) c = Some (STATUS_ERROR, c')"
  using assms by (simp add: spi_v2_ops_def spi_v2_wait_for_write_fifo_empty_def spi_v2_wait_for_ctrl_status.simps
    spi_v2_read_ctrl_register_def Let_def)

lemma gone_write_loop:
  assumes "\<And>s. fst (ri_read ri (control_register self) s) = 0xffffffff" "buf \<noteq> [] \<or> q mod 8 \<noteq> 0"
  shows "\<exists>r q' c'. write_loop (spi_v2_ops ri self) n q buf c = Some (r, q', c')
    \<and> (r < 0 \<or> q' mod write_queue_size (spi_v2_ops ri self) \<noteq> 0)"
  using assms(2)
proof (induction buf arbitrary: q c rule: length_induct)
  case (1 buf)
  have size: "write_queue_size (spi_v2_ops ri self) = 8" by (simp add: spi_v2_ops_def)
  show ?case
  proof (cases "buf = []")
    case True
    with 1(2) show ?thesis by (simp add: write_loop.simps size)
  next
    case False
    let ?n = "min (length buf) (max_bytes_per_write (spi_v2_ops ri self))"
    obtain c1 where s: "write_shot (spi_v2_ops ri self) (take ?n buf)
        (c\<lparr>is_first_shot := (length buf = n), is_last_shot := (length buf \<le> max_bytes_per_write (spi_v2_ops ri self))\<rparr>)
        = Some (0, c1)" by (simp add: spi_v2_ops_def spi_v2_write_shot_def)
    obtain c2 where w: "wait_for_write_queue_empty (spi_v2_ops ri self) c1 = Some (STATUS_ERROR, c2)"
      using gone_wait [OF assms(1)] by blast
    have "length (drop ?n buf) < length buf" using False by (simp add: spi_v2_ops_def)
    with 1(1) have "\<exists>r q' c'. write_loop (spi_v2_ops ri self) n (Suc q) (drop ?n buf) c1 = Some (r, q', c')
      \<and> (r < 0 \<or> q' mod write_queue_size (spi_v2_ops ri self) \<noteq> 0)" if "Suc q mod 8 \<noteq> 0" using that by blast
    with False s w show ?thesis
      by (cases "Suc q mod 8 = 0") (subst write_loop.simps, simp add: Let_def size)+
  qed
qed

text \<open>A device that is gone reads all ones. A write burst then ends with \<^verbatim>\<open>STATUS_ERROR\<close>; a read
  burst never returns, because the wait for read data has no check for it.\<close>

theorem gone_spi_fails_writes_and_hangs_reads:
  assumes "\<And>s. fst (ri_read ri (control_register self) s) = 0xffffffff" "buf \<noteq> []" "0 < n"
  shows "(\<exists>c'. ctrl_write_burst (spi_v2_ops ri self) f buf c = Some (STATUS_ERROR, c'))
    \<and> ctrl_read_burst (spi_v2_ops ri self) f n c = None"
proof
  let ?o = "spi_v2_ops ri self"
  obtain c1 where p: "handle_pre_burst_flags ?o f (c\<lparr>current_burst_flags := ucast (f AND 0xff)\<rparr>) = Some (0, c1)"
    by (simp add: spi_v2_ops_def spi_v2_handle_pre_burst_flags_def)
  obtain r q c2 where l: "write_loop ?o (length buf) 0 buf c1 = Some (r, q, c2)" "r < 0 \<or> q mod write_queue_size ?o \<noteq> 0"
    using gone_write_loop [OF assms(1)] assms(2) by blast
  obtain c3 where "wait_for_write_queue_empty ?o (c2\<lparr>is_first_shot := False, is_last_shot := False\<rparr>) = Some (STATUS_ERROR, c3)"
    using gone_wait [OF assms(1)] by blast
  with p l show "\<exists>c'. ctrl_write_burst ?o f buf c = Some (STATUS_ERROR, c')"
    by (cases "r < 0") (simp_all add: ctrl_write_burst_def abort_burst_def Let_def)
  have rs: "read_shot ?o k c = None" for k c
    using gone_never_delivers [OF assms(1)] by (simp add: spi_v2_ops_def spi_v2_read_shot_def)
  have "\<exists>t u c'. request_loop ?o n i slots a b c = Some (STATUS_OK, t, u, c') \<and> b \<le> u
      \<and> (0 < slots \<and> 0 < a \<longrightarrow> 0 < u)" for i slots a b c
  proof (induction slots arbitrary: i a b c)
    case (Suc slots)
    let ?n = "min a (max_bytes_per_read ?o)"
    obtain c1 where "request_read ?o ?n (c\<lparr>is_first_shot := (i = 0), is_last_shot := (b + ?n = n)\<rparr>) = Some (0, c1)"
      by (simp add: spi_v2_ops_def spi_v2_request_read_def)
    moreover have "0 < max_bytes_per_read ?o" by (simp add: spi_v2_ops_def)
    ultimately show ?case using Suc [of "Suc i" "a - ?n" "b + ?n" c1] by (auto simp: Let_def)
  qed simp
  from this [of 0 "read_queue_size ?o" n 0 c1] assms(3) obtain t u c2 where
    rq: "request_loop ?o n 0 (read_queue_size ?o) n 0 c1 = Some (STATUS_OK, t, u, c2)" "0 < u"
    by (auto simp: spi_v2_ops_def)
  have "read_loop ?o t u [] c = None" for c using rq(2) rs by (subst read_loop.simps) (simp add: Let_def)
  with p rq show "ctrl_read_burst ?o f n c = None" by (simp add: ctrl_read_burst_def)
qed

theorem gone_spi_fails_writes_and_hangs_reads_witness:
  "(\<exists>c'. ctrl_write_burst (spi_v2_ops gone_spi demo_spi_ctrl) 0 [1] (controller_base_init ()) = Some (STATUS_ERROR, c'))
   \<and> ctrl_read_burst (spi_v2_ops gone_spi demo_spi_ctrl) 0 1 (controller_base_init ()) = None"
  by (rule gone_spi_fails_writes_and_hangs_reads) (simp_all add: gone_spi_def)

end
