(* ===== verification/Spi_Bs_Props.thy ===== *)
theory Spi_Bs_Props
  imports Spi_V2
begin

text \<open>
  The bit-banged SPI controller: what a device that samples the data line at each rising edge of
  the clock receives from the writes to the register.
\<close>

record bs_wire =
  bs_clock :: bool
  bs_bits :: "bool list"
  bs_bytes :: "u8 list"

definition byte_of_bits :: "bool list \<Rightarrow> u8" where
  "byte_of_bits bs = horner_sum of_bool 2 (rev bs)"

definition bs_sample :: "bool \<Rightarrow> bs_wire \<Rightarrow> bs_wire" where
  "bs_sample b w =
     (if length (bs_bits w) < 7 then w\<lparr>bs_bits := bs_bits w @ [b]\<rparr>
      else w\<lparr>bs_bits := [], bs_bytes := bs_bytes w @ [byte_of_bits (bs_bits w @ [b])]\<rparr>)"

text \<open>Bit 0 of the register is the clock, bit 2 the data line.\<close>

fun bs_step :: "u32 \<Rightarrow> bus_event \<Rightarrow> bs_wire \<Rightarrow> bs_wire" where
  "bs_step reg (Wr a x) w =
     (if a = reg then (if bit x 0 \<and> \<not> bs_clock w then bs_sample (bit x 2) w else w)\<lparr>bs_clock := bit x 0\<rparr> else w)"
| "bs_step reg (Rd a x) w = w"

definition bs_wire_of :: "u32 \<Rightarrow> bus_event list \<Rightarrow> bs_wire" where
  "bs_wire_of reg log = fold (bs_step reg) log \<lparr>bs_clock = False, bs_bits = [], bs_bytes = []\<rparr>"

lemma bs_wire_of_append [simp]: "bs_wire_of reg (log @ es) = fold (bs_step reg) es (bs_wire_of reg log)"
  by (simp add: bs_wire_of_def)

lemma clock_out_wire:
  assumes "\<not> bs_clock (bs_wire_of reg (snd s))"
  shows "bs_wire_of reg (snd (clock_out (logged ri) reg b s)) = (bs_sample b (bs_wire_of reg (snd s)))\<lparr>bs_clock := False\<rparr>"
proof -
  have "snd (clock_out (logged ri) reg b s) = snd s @ [Wr reg (SPI_OE OR (if b then 4 else 0)),
      Wr reg (SPI_OE OR SPI_SCK OR (if b then 4 else 0)), Wr reg (SPI_OE OR SPI_SCK OR (if b then 4 else 0)),
      Wr reg (SPI_OE OR (if b then 4 else 0))]"
    by (simp add: clock_out_def write_words_def case_prod_beta)
  then show ?thesis using assms by (simp add: bs_sample_def)
qed

lemma byte_of_msb_first: "byte_of_bits (msb_first b) = b"
proof -
  have "rev (msb_first b) = map (bit b) [0..<8]" by (simp add: msb_first_def upt_rec eval_nat_numeral)
  then show ?thesis by (simp add: byte_of_bits_def horner_sum_bit_eq_take_bit take_bit_word_eq_self)
qed

lemma byte_wire:
  assumes "\<not> bs_clock (bs_wire_of reg (snd s))" "bs_bits (bs_wire_of reg (snd s)) = []"
  shows "bs_wire_of reg (snd (fold (clock_out (logged ri) reg) (msb_first b) s))
    = (bs_wire_of reg (snd s))\<lparr>bs_bytes := bs_bytes (bs_wire_of reg (snd s)) @ [b]\<rparr>"
proof -
  have "bs_wire_of reg (snd (fold (clock_out (logged ri) reg) [b7, b6, b5, b4, b3, b2, b1, b0] s))
    = (bs_wire_of reg (snd s))\<lparr>bs_bytes := bs_bytes (bs_wire_of reg (snd s))
        @ [byte_of_bits [b7, b6, b5, b4, b3, b2, b1, b0]]\<rparr>" for b7 b6 b5 b4 b3 b2 b1 b0
    using assms by (simp add: clock_out_wire bs_sample_def)
  with byte_of_msb_first [of b] show ?thesis by (simp add: msb_first_def)
qed

interpretation spi_bs: live_write_port "spi_bs_single_ops (logged ri) reg"
  "\<lambda>st. bs_bytes (bs_wire_of reg (snd st))"
  "\<lambda>st. 0"
  "\<lambda>st. \<not> bs_clock (bs_wire_of reg (snd st)) \<and> bs_bits (bs_wire_of reg (snd st)) = []"
  for ri :: "'hw register_interface" and reg
proof (unfold_locales, goal_cases)
  case (3 bs c r c')
  from 3(3,4) have "bs = [hd bs]" by (cases bs) (auto simp: spi_bs_single_ops_def)
  moreover have "port c' = fold (clock_out (logged ri) reg) (msb_first (hd bs)) (port c)"
    using 3(1) by (auto simp: spi_bs_single_ops_def spi_bs_single_write_shot_def)
  ultimately show ?case using byte_wire [of reg "port c" ri "hd bs"] 3(6) by simp
next
  case 6 then show ?case
    by (auto simp: spi_bs_single_ops_def spi_bs_single_handle_pre_burst_flags_def spi_bs_single_set_chipselect_def)
next
  case 7 then show ?case
    by (auto simp: spi_bs_single_ops_def spi_bs_single_handle_post_burst_flags_def spi_bs_single_set_chipselect_def
      split: if_splits)
qed (auto simp: spi_bs_single_ops_def spi_bs_single_write_shot_def spi_bs_single_handle_pre_burst_flags_def
  spi_bs_single_handle_post_burst_flags_def)

text \<open>C15: A write burst of the bit-banged SPI controller returns and succeeds for any device, and a
  device that samples the data line at the rising edges of the clock receives exactly the bytes of the
  buffer, most significant bit first; the clock is low again.\<close>

theorem spi_bs_write_burst_clocks_out_the_buffer:
  assumes "\<not> bs_clock (bs_wire_of reg (snd (port c)))" "bs_bits (bs_wire_of reg (snd (port c))) = []"
  shows "\<exists>c'. ctrl_write_burst (spi_bs_single_ops (logged ri) reg) f buf c = Some (STATUS_OK, c')
    \<and> bs_bytes (bs_wire_of reg (snd (port c'))) = bs_bytes (bs_wire_of reg (snd (port c))) @ buf
    \<and> \<not> bs_clock (bs_wire_of reg (snd (port c'))) \<and> bs_bits (bs_wire_of reg (snd (port c'))) = []"
  using spi_bs.write_burst_is_sent [of reg c ri f buf] assms by simp

theorem spi_bs_write_burst_clocks_out_the_buffer_witness:
  "\<exists>c'. ctrl_write_burst (spi_bs_single_ops (logged \<lparr>ri_read = (\<lambda>a s. (0, s)), ri_write = (\<lambda>a x s. s)\<rparr>) 0x40) 0 [0xa5, 1]
      (controller_base_init ((), [])) = Some (STATUS_OK, c')
    \<and> bs_bytes (bs_wire_of 0x40 (snd (port c'))) = [0xa5, 1]"
  using spi_bs_write_burst_clocks_out_the_buffer [of "0x40" "controller_base_init ((), [])"
      "\<lparr>ri_read = (\<lambda>a s. (0, s)), ri_write = (\<lambda>a x s. s)\<rparr>" 0 "[0xa5, 1]"]
  by (auto simp: controller_base_init_def bs_wire_of_def)

end
