(* ===== verification/Jtag.thy ===== *)
theory Jtag
  imports Controller_Ports Registers
begin

text \<open>
  The JTAG controller \<^verbatim>\<open>lib/controllers/jtag_controller.c\<close>. The driver keeps the state it thinks
  the test access port (TAP) is in and shifts bits in frames of at most sixteen. \<open>None\<close> is an access
  outside a buffer, or a wait the device never ends.
\<close>

abbreviation JTAG_DEFAULT_VALUE :: u32 where "JTAG_DEFAULT_VALUE \<equiv> 0x3c00000"
abbreviation JTAG_TMS_nTDO :: u32 where "JTAG_TMS_nTDO \<equiv> 0x10000"
abbreviation JTAG_ENABLE :: u32 where "JTAG_ENABLE \<equiv> 0x20000"
abbreviation JTAG_DONE_TOGGLE :: u32 where "JTAG_DONE_TOGGLE \<equiv> 0x20000"
abbreviation JTAG_BITCOUNT_MASK :: u32 where "JTAG_BITCOUNT_MASK \<equiv> 0x3c0000"
abbreviation JTAG_PRESCALER_MASK :: u32 where "JTAG_PRESCALER_MASK \<equiv> 0x3c00000"
abbreviation JTAG_CTRL_ACTIVATE :: u32 where "JTAG_CTRL_ACTIVATE \<equiv> 0x4000000"
abbreviation JTAG_PRESCALER_BASE_FREQUENCY :: u32 where "JTAG_PRESCALER_BASE_FREQUENCY \<equiv> 125000000"

abbreviation JTAG_ERROR :: int where "JTAG_ERROR \<equiv> -1"
abbreviation JTAG_ERROR_INVALID_SIZE :: int where "JTAG_ERROR_INVALID_SIZE \<equiv> -3"
abbreviation JTAG_ERROR_INVALID_RWFLAGS :: int where "JTAG_ERROR_INVALID_RWFLAGS \<equiv> -4"
abbreviation JTAG_ERROR_IO_FAILURE :: int where "JTAG_ERROR_IO_FAILURE \<equiv> -5"
abbreviation JTAG_ERROR_TIMEOUT :: int where "JTAG_ERROR_TIMEOUT \<equiv> -6"
abbreviation JTAG_ERROR_NO_DATA :: int where "JTAG_ERROR_NO_DATA \<equiv> -7"
abbreviation JTAG_ERROR_FREQUENCY_TOO_LOW :: int where "JTAG_ERROR_FREQUENCY_TOO_LOW \<equiv> -8"
abbreviation JTAG_ERROR_FREQUENCY_TOO_HIGH :: int where "JTAG_ERROR_FREQUENCY_TOO_HIGH \<equiv> -9"
abbreviation JTAG_ERROR_DATA_LENGTH_MISMATCH :: int where "JTAG_ERROR_DATA_LENGTH_MISMATCH \<equiv> -10"

abbreviation LENGTH_IN_BYTES :: u32 where "LENGTH_IN_BYTES \<equiv> 0x1"
abbreviation LENGTH_IN_BITS :: u32 where "LENGTH_IN_BITS \<equiv> 0x2"
abbreviation SEND_ZEROES_ON_READ :: u32 where "SEND_ZEROES_ON_READ \<equiv> 0x20"
abbreviation SEND_ONES_ON_READ :: u32 where "SEND_ONES_ON_READ \<equiv> 0x40"
abbreviation READ_MODE_MASK :: u32 where "READ_MODE_MASK \<equiv> 0x60"
abbreviation RAW_MODE :: u32 where "RAW_MODE \<equiv> 0x80"
abbreviation STATE_IDLE :: u32 where "STATE_IDLE \<equiv> 0x100"
abbreviation STATE_SHIFT_DR :: u32 where "STATE_SHIFT_DR \<equiv> 0x200"
abbreviation STATE_SHIFT_IR :: u32 where "STATE_SHIFT_IR \<equiv> 0x300"
abbreviation STATE_RESET :: u32 where "STATE_RESET \<equiv> 0x400"
abbreviation STATE_EXIT :: u32 where "STATE_EXIT \<equiv> 0x800"
abbreviation STATE_INVALID :: u32 where "STATE_INVALID \<equiv> 0x1000"
abbreviation STATE_MASK :: u32 where "STATE_MASK \<equiv> 0x1f00"
abbreviation LSB_FIRST :: u32 where "LSB_FIRST \<equiv> 0x2000"
abbreviation WRITE_TMS_DATA :: u32 where "WRITE_TMS_DATA \<equiv> 0x4000"
abbreviation SET_DATA_LENGTH :: u32 where "SET_DATA_LENGTH \<equiv> 0x8000"
abbreviation SET_FREQUENCY :: u32 where "SET_FREQUENCY \<equiv> 0x10000"

text \<open>A buffer is its bytes and the number of valid bits in it.\<close>

record jtag_controller =
  jtag_control_register :: u32
  jtag_flags :: u32
  frequency :: u32
  prescaler_value :: u32
  tap_state :: u32
  tms_buffer :: "(u8 list \<times> u32) option"
  read_buffer :: "(u8 list \<times> u32) option"
  lengths_in_bits :: u32
  use_bits_length :: bool

definition write_control_register :: "'hw register_interface \<Rightarrow> jtag_controller \<Rightarrow> u32 \<Rightarrow> 'hw \<Rightarrow> 'hw" where
  "write_control_register ri j val s = ri_write ri (jtag_control_register j) val s"

definition read_control_register :: "'hw register_interface \<Rightarrow> jtag_controller \<Rightarrow> 'hw \<Rightarrow> u32 \<times> 'hw" where
  "read_control_register ri j s = ri_read ri (jtag_control_register j) s"

definition reverse_bit_char :: "u8 \<Rightarrow> u8" where
  "reverse_bit_char c =
     (let c1 = drop_bit 4 (c AND 0xf0) OR push_bit 4 (c AND 0x0f);
          c2 = drop_bit 2 (c1 AND 0xcc) OR push_bit 2 (c1 AND 0x33)
      in drop_bit 1 (c2 AND 0xaa) OR push_bit 1 (c2 AND 0x55))"

section \<open>Clock prescaler\<close>

text \<open>The prescaler and the frequency it gives.\<close>

function exp2n1_loop :: "u32 \<Rightarrow> u32 \<Rightarrow> u32 \<Rightarrow> u32 \<times> u32" where
  "exp2n1_loop freq prescaler f =
     (if f > freq then exp2n1_loop freq (prescaler + 1) (f div 2) else (prescaler, f))"
  by pat_completeness auto
termination
proof (relation "measure (\<lambda>(freq, p, f). unat f)")
  fix freq p f :: u32
  assume "f > freq"
  then have "unat f > 0" by (simp add: word_less_nat_alt)
  then show "((freq, p + 1, f div 2), (freq, p, f)) \<in> measure (\<lambda>(freq, p, f). unat f)"
    by (simp add: unat_div)
qed simp

declare exp2n1_loop.simps [simp del]

definition getExp2n1PrescalerValue :: "u32 \<Rightarrow> u32 \<Rightarrow> u32 \<times> u32" where
  "getExp2n1PrescalerValue clk freq = exp2n1_loop freq 0 (clk div 2)"

definition getExp2n1FrequencyValue :: "u32 \<Rightarrow> u32 \<Rightarrow> u32" where
  "getExp2n1FrequencyValue clk prescaler = ((\<lambda>f. f div 2) ^^ unat prescaler) (clk div 2)"

definition set_frequency ::
    "'hw register_interface \<Rightarrow> jtag_controller \<Rightarrow> 'hw \<Rightarrow> int \<times> jtag_controller \<times> 'hw" where
  "set_frequency ri j s =
     (if frequency j > JTAG_PRESCALER_BASE_FREQUENCY then (JTAG_ERROR_FREQUENCY_TOO_HIGH, j, s)
      else
        let (prescaler, freq) = getExp2n1PrescalerValue JTAG_PRESCALER_BASE_FREQUENCY (frequency j)
        in if prescaler > 0xf then (JTAG_ERROR_FREQUENCY_TOO_LOW, j, s)
           else
             let j1 = j\<lparr>prescaler_value := push_bit 22 prescaler\<rparr>
             in (sint freq, j1, write_control_register ri j1 (prescaler_value j1) s))"

definition get_frequency :: "'hw register_interface \<Rightarrow> jtag_controller \<Rightarrow> 'hw \<Rightarrow> u32 \<times> 'hw" where
  "get_frequency ri j s =
     (let (val, s1) = read_control_register ri j s
      in (getExp2n1FrequencyValue JTAG_PRESCALER_BASE_FREQUENCY (drop_bit 22 (val AND JTAG_PRESCALER_MASK)), s1))"

section \<open>State changes\<close>

text \<open>The bits for TMS, the first the highest, and their number; \<open>None\<close> for an unknown state.\<close>

definition gather_tms :: "u32 \<Rightarrow> u32 \<Rightarrow> (u32 \<times> nat) option" where
  "gather_tms cur state =
     (if cur = STATE_INVALID \<or> cur = STATE_RESET \<or> cur = STATE_IDLE then
        let (bits, n) = (if cur = STATE_INVALID then (0x1f, 5) else (0, 0))
        in if cur \<noteq> STATE_IDLE \<and> state = STATE_RESET then Some (bits, n)
           else
             let (bits, n) = (if cur \<noteq> STATE_IDLE then (push_bit 1 bits, n + 1) else (bits, n))
             in if state = STATE_IDLE then Some (bits, n)
                else if state = STATE_SHIFT_DR then Some (push_bit 3 bits OR 0x4, n + 3)
                else if state = STATE_SHIFT_IR then Some (push_bit 4 bits OR 0xc, n + 4)
                else Some (0x7, 3)
      else if cur = STATE_SHIFT_DR then
        if state = STATE_SHIFT_DR then Some (0, 0)
        else if state = STATE_IDLE then Some (0x6, 3)
        else if state = STATE_SHIFT_IR then Some (0x3c, 6)
        else Some (0x1f, 5)
      else if cur = STATE_SHIFT_IR then
        if state = STATE_SHIFT_IR then Some (0, 0)
        else if state = STATE_IDLE then Some (0x6, 3)
        else if state = STATE_SHIFT_DR then Some (0x1c, 5)
        else Some (0x1f, 5)
      else if cur = STATE_EXIT then
        if state = STATE_IDLE then Some (0x2, 2)
        else if state = STATE_SHIFT_DR then Some (0xc, 4)
        else if state = STATE_SHIFT_IR then Some (0x1c, 5)
        else Some (0xf, 4)
      else None)"

text \<open>Waits until the done bit differs from the last status; all ones is a device that is gone.\<close>

partial_function (option) wait_done ::
    "'hw register_interface \<Rightarrow> jtag_controller \<Rightarrow> u32 \<Rightarrow> 'hw \<Rightarrow> (u32 option \<times> 'hw) option" where
  "wait_done ri j last_status s =
     (let val = fst (read_control_register ri j s); s1 = snd (read_control_register ri j s)
      in if val = 0xffffffff then Some (None, write_control_register ri j JTAG_DEFAULT_VALUE s1)
         else if val AND JTAG_DONE_TOGGLE = last_status AND JTAG_DONE_TOGGLE then wait_done ri j last_status s1
         else Some (Some val, s1))"

text \<open>A frame: the bits for TMS, then those for TDO, which start the shift.\<close>

definition tms_word :: "u32 \<Rightarrow> u32 \<Rightarrow> u32" where
  "tms_word last_status tms =
     JTAG_CTRL_ACTIVATE OR (last_status AND JTAG_PRESCALER_MASK) OR JTAG_BITCOUNT_MASK OR JTAG_TMS_nTDO OR tms"

definition tdo_word :: "u32 \<Rightarrow> nat \<Rightarrow> u32 \<Rightarrow> u32" where
  "tdo_word last_status n d =
     JTAG_CTRL_ACTIVATE OR (last_status AND JTAG_PRESCALER_MASK) OR push_bit 18 (of_nat (n - 1)) OR JTAG_ENABLE OR d"

definition shift_frame ::
    "'hw register_interface \<Rightarrow> jtag_controller \<Rightarrow> u32 \<Rightarrow> nat \<Rightarrow> u32 \<Rightarrow> u32 \<Rightarrow> 'hw \<Rightarrow> (u32 option \<times> 'hw) option" where
  "shift_frame ri j last_status n tms d s =
     wait_done ri j last_status
       (write_control_register ri j (tdo_word last_status n d)
         (write_control_register ri j (tms_word last_status tms) s))"

definition set_state ::
    "'hw register_interface \<Rightarrow> jtag_controller \<Rightarrow> u32 \<Rightarrow> 'hw \<Rightarrow> (int \<times> jtag_controller \<times> 'hw) option" where
  "set_state ri j state s =
     (if state < STATE_IDLE \<or> state > STATE_RESET then Some (JTAG_ERROR, j, s)
      else case gather_tms (tap_state j) state of
        None \<Rightarrow> Some (JTAG_ERROR, j, s)
      | Some (bits, n) \<Rightarrow>
          let done = (\<lambda>s. Some (0, j\<lparr>tap_state := state\<rparr>, write_control_register ri j JTAG_DEFAULT_VALUE s))
          in if n = 0 then done s
             else
               let (last_status, s1) = read_control_register ri j (write_control_register ri j (prescaler_value j) s)
               in Option.bind (shift_frame ri j last_status n (push_bit (16 - n) bits AND 0xffff) 0 s1)
                    (\<lambda>(val, s2). if val = None then Some (JTAG_ERROR_IO_FAILURE, j, s2) else done s2))"


section \<open>Writing\<close>

text \<open>
  The bytes of a frame of \<open>n\<close> bits: from the last byte of the buffer down, or from the first up with
  the bits of a byte reversed. The send, TMS and receive pointers move together: \<open>i\<close>.
\<close>

definition byte_at :: "u8 list \<Rightarrow> int \<Rightarrow> u8 option" where
  "byte_at bs i = (if 0 \<le> i \<and> nat i < length bs then Some (bs ! nat i) else None)"

definition frame_bytes :: "bool \<Rightarrow> u8 list \<Rightarrow> int \<Rightarrow> nat \<Rightarrow> u16 option" where
  "frame_bytes msb_first bs i n =
     (let get = (\<lambda>i. map_option (\<lambda>b. ucast (if msb_first then b else reverse_bit_char b) :: u16) (byte_at bs i))
      in Option.bind (get i) (\<lambda>b.
           if n > 8 then map_option (\<lambda>b2. push_bit 8 b OR b2) (get (if msb_first then i - 1 else i + 1))
           else Some (push_bit 8 b)))"

text \<open>Only the data of the most significant first order are moved up to the first bit that is sent.\<close>

definition align_frame :: "bool \<Rightarrow> nat \<Rightarrow> u16 \<Rightarrow> u16" where
  "align_frame msb_first n d =
     (if \<not> msb_first then d
      else if n \<le> 8 then push_bit (8 - n) d
      else if n < 16 then push_bit (16 - n) d
      else d)"

definition put_byte :: "u8 list \<Rightarrow> int \<Rightarrow> u8 \<Rightarrow> u8 list" where
  "put_byte bs i b = bs[nat i := b]"

definition receive_frame :: "bool \<Rightarrow> nat \<Rightarrow> u32 \<Rightarrow> int \<Rightarrow> u8 list \<Rightarrow> u8 list" where
  "receive_frame msb_first n val i recv =
     (let hi = ucast (drop_bit 8 val) :: u8; lo = ucast val :: u8
      in if msb_first then
           if n > 8 then put_byte (put_byte recv i hi) (i - 1) lo else put_byte recv i lo
         else
           if n > 8 then put_byte (put_byte recv i (reverse_bit_char hi)) (i + 1) (reverse_bit_char lo)
           else put_byte recv i (reverse_bit_char lo))"

definition frame_size :: "nat \<Rightarrow> nat" where
  "frame_size left = (if left mod 16 = 0 then 16 else left mod 16)"

text \<open>
  The TMS bits of a frame: zeros, with a one in the last bit of a shift, or the caller's in raw mode.
\<close>

definition frame_tms :: "u32 \<Rightarrow> bool \<Rightarrow> u8 list \<Rightarrow> int \<Rightarrow> nat \<Rightarrow> nat \<Rightarrow> u16 option" where
  "frame_tms flags msb_first tms i n left =
     (if flags AND RAW_MODE \<noteq> 0 then frame_bytes msb_first tms i n
      else if left > 16 \<or> flags AND STATE_MASK = STATE_IDLE then Some 0
      else Some (push_bit (16 - n) 1))"

function write_frames ::
    "'hw register_interface \<Rightarrow> jtag_controller \<Rightarrow> u32 \<Rightarrow> u8 list \<Rightarrow> u8 list \<Rightarrow> nat \<Rightarrow> int \<Rightarrow> u32 \<Rightarrow> u8 list \<Rightarrow> 'hw
     \<Rightarrow> (bool \<times> u8 list \<times> 'hw) option" where
  "write_frames ri j flags data tms left i last_status recv s =
     (if left = 0 then Some (True, recv, s)
      else
        let msb_first = (flags AND LSB_FIRST = 0);
            n = frame_size left
        in Option.bind (frame_bytes msb_first data i n) (\<lambda>d.
           Option.bind (frame_tms flags msb_first tms i n left) (\<lambda>t.
           Option.bind (shift_frame ri j last_status n (ucast t) (ucast (align_frame msb_first n d)) s) (\<lambda>(val, s1).
             case val of
               None \<Rightarrow> Some (False, recv, s1)
             | Some v \<Rightarrow>
                 let k = (if n > 8 then 2 else 1)
                 in write_frames ri j flags data tms (left - n) (if msb_first then i - k else i + k) v
                      (receive_frame msb_first n v i recv) s1))))"
  by pat_completeness auto
termination
  by (relation "measure (\<lambda>(ri, j, flags, data, tms, left, i, last_status, recv, s). left)")
    (auto simp: frame_size_def)

declare write_frames.simps [simp del]

definition check_rw :: "u32 \<Rightarrow> u32 \<Rightarrow> int option" where
  "check_rw len flags =
     (if flags AND LENGTH_IN_BITS \<noteq> 0 \<and> len > 0x7fffffff
         \<or> flags AND LENGTH_IN_BYTES \<noteq> 0 \<and> len > 0xfffffff \<or> len = 0
      then Some JTAG_ERROR_INVALID_SIZE
      else if flags AND LENGTH_IN_BITS = 0 \<and> flags AND LENGTH_IN_BYTES = 0
         \<or> flags AND LENGTH_IN_BITS \<noteq> 0 \<and> flags AND LENGTH_IN_BYTES \<noteq> 0
         \<or> flags AND STATE_MASK = 0 \<and> flags AND RAW_MODE = 0
         \<or> flags AND STATE_MASK \<noteq> 0 \<and> flags AND RAW_MODE \<noteq> 0
      then Some JTAG_ERROR_INVALID_RWFLAGS
      else if flags AND SEND_ZEROES_ON_READ \<noteq> 0 \<and> flags AND SEND_ONES_ON_READ \<noteq> 0
      then Some JTAG_ERROR_INVALID_RWFLAGS
      else None)"

definition length_in_bits :: "u32 \<Rightarrow> u32 \<Rightarrow> u32" where
  "length_in_bits len flags = (if flags AND LENGTH_IN_BITS \<noteq> 0 then len else 8 * len)"

definition length_in_bytes :: "u32 \<Rightarrow> u32 \<Rightarrow> u32" where
  "length_in_bytes len flags = (length_in_bits len flags + 7) div 8"

definition rw_result :: "u32 \<Rightarrow> u32 \<Rightarrow> int" where
  "rw_result len flags =
     sint (if flags AND LENGTH_IN_BITS \<noteq> 0 then length_in_bits len flags else length_in_bytes len flags)"

definition dummy_bytes :: "u32 \<Rightarrow> u32 \<Rightarrow> u8 list" where
  "dummy_bytes len flags =
     replicate (unat (length_in_bytes len flags)) (if flags AND SEND_ZEROES_ON_READ \<noteq> 0 then 0 else 0xff)"

text \<open>The part of \<^verbatim>\<open>write\<close> that sends the data, once state and TMS data are prepared.\<close>

definition write_data ::
    "'hw register_interface \<Rightarrow> jtag_controller \<Rightarrow> u8 list \<Rightarrow> u32 \<Rightarrow> u32 \<Rightarrow> 'hw \<Rightarrow> (int \<times> jtag_controller \<times> 'hw) option" where
  "write_data ri j data len flags s =
     (let bytes = unat (length_in_bytes len flags);
          recv = replicate bytes 0;
          (last_status, s1) = read_control_register ri j (write_control_register ri j (prescaler_value j) s);
          tms = (case tms_buffer j of None \<Rightarrow> [] | Some (t, _) \<Rightarrow> t)
      in map_option (\<lambda>(ok, recv, s2).
           if \<not> ok then (JTAG_ERROR_IO_FAILURE, j\<lparr>read_buffer := Some (recv, 0)\<rparr>, s2)
           else
             let j1 = (if flags AND RAW_MODE = 0 then
                         if flags AND STATE_MASK \<noteq> STATE_IDLE then j\<lparr>tap_state := STATE_EXIT\<rparr> else j
                       else j\<lparr>tap_state := STATE_INVALID, tms_buffer := None\<rparr>)
             in (rw_result len flags, j1\<lparr>read_buffer := Some (recv, length_in_bits len flags)\<rparr>,
                 write_control_register ri j JTAG_DEFAULT_VALUE s2))
           (write_frames ri j flags data tms (unat (length_in_bits len flags))
              (if flags AND LSB_FIRST = 0 then int bytes - 1 else 0) last_status recv s1))"

definition write_raw ::
    "'hw register_interface \<Rightarrow> jtag_controller \<Rightarrow> u8 list \<Rightarrow> u32 \<Rightarrow> u32 \<Rightarrow> 'hw \<Rightarrow> (int \<times> jtag_controller \<times> 'hw) option" where
  "write_raw ri j data len flags s =
     (if flags AND READ_MODE_MASK \<noteq> 0 then
        write_data ri (j\<lparr>tms_buffer := Some (dummy_bytes len flags, length_in_bits len flags)\<rparr>) data len flags s
      else case tms_buffer j of
          None \<Rightarrow> Some (JTAG_ERROR_DATA_LENGTH_MISMATCH, j, s)
        | Some (t, valid) \<Rightarrow>
            if valid \<noteq> length_in_bits len flags then Some (JTAG_ERROR_DATA_LENGTH_MISMATCH, j, s)
            else write_data ri j data len flags s)"

text \<open>
  \<^verbatim>\<open>write\<close>. TMS data are kept for the next raw write; with a read mode the function calls itself for
  the data, with the flags that lead to \<open>write_raw\<close>.
\<close>

definition jtag_write ::
    "'hw register_interface \<Rightarrow> jtag_controller \<Rightarrow> u8 list \<Rightarrow> u32 \<Rightarrow> u32 \<Rightarrow> 'hw \<Rightarrow> (int \<times> jtag_controller \<times> 'hw) option" where
  "jtag_write ri j data len flags s =
     (case check_rw len flags of
        Some e \<Rightarrow> Some (e, j, s)
      | None \<Rightarrow>
          if flags AND RAW_MODE = 0 then
            let new_state = flags AND STATE_MASK
            in if new_state \<noteq> STATE_IDLE \<and> new_state \<noteq> STATE_SHIFT_DR \<and> new_state \<noteq> STATE_SHIFT_IR
               then Some (STATUS_ERR_INVALID_ARGUMENT, j, s)
               else Option.bind (set_state ri j new_state s) (\<lambda>(r, j1, s1).
                      if r < 0 then Some (r, j1, s1) else write_data ri j1 data len flags s1)
          else if flags AND WRITE_TMS_DATA = 0 then write_raw ri j data len flags s
          else
            let bytes = unat (length_in_bytes len flags);
                j1 = j\<lparr>tms_buffer := Some (take bytes data, length_in_bits len flags)\<rparr>
            in if bytes > length data then None
               else if flags AND READ_MODE_MASK \<noteq> 0 then
                 let write_flags = flags AND NOT (READ_MODE_MASK OR WRITE_TMS_DATA)
                 in case check_rw len write_flags of
                      Some e \<Rightarrow> Some (e, j1, s)
                    | None \<Rightarrow> write_raw ri j1 (dummy_bytes len flags) len write_flags s
               else Some (rw_result len flags, j1, s))"

section \<open>Reading and the handlers\<close>

text \<open>The result, the bytes that are copied to the caller, and the state.\<close>

definition jtag_read ::
    "'hw register_interface \<Rightarrow> jtag_controller \<Rightarrow> u32 \<Rightarrow> u32 \<Rightarrow> 'hw \<Rightarrow> (int \<times> u8 list \<times> jtag_controller \<times> 'hw) option" where
  "jtag_read ri j len flags s =
     (case check_rw len flags of
        Some e \<Rightarrow> Some (e, [], j, s)
      | None \<Rightarrow>
          let bits = length_in_bits len flags;
              bytes = unat (length_in_bytes len flags);
              copy = (\<lambda>j s. case read_buffer j of
                         None \<Rightarrow> None
                       | Some (r, _) \<Rightarrow>
                           if bytes > length r then None
                           else Some (rw_result len flags, take bytes r, j\<lparr>read_buffer := None\<rparr>, s))
          in if (case read_buffer j of None \<Rightarrow> True | Some (_, valid) \<Rightarrow> valid < bits) then
               if flags AND RAW_MODE \<noteq> 0 then Some (JTAG_ERROR_NO_DATA, [], j, s)
               else if flags AND READ_MODE_MASK = 0 then Some (JTAG_ERROR_TIMEOUT, [], j, s)
               else Option.bind (jtag_write ri j (dummy_bytes len flags) len flags s) (\<lambda>(r, j1, s1).
                      if r \<le> 0 then Some (r, [], j1, s1) else copy j1 s1)
             else copy j s)"


text \<open>
  The handlers of the bursts; the port is the controller and the device. The first word of a buffer is
  little endian. More bytes than the caller's buffer takes are \<open>None\<close>; the part of it that is not
  written keeps its content \<open>old\<close>.
\<close>

definition first_word :: "u8 list \<Rightarrow> u32 option" where
  "first_word bs =
     (case bs of
        b0 # b1 # b2 # b3 # _ \<Rightarrow>
          Some (ucast b0 OR push_bit 8 (ucast b1) OR push_bit 16 (ucast b2) OR push_bit 24 (ucast b3))
      | _ \<Rightarrow> None)"

definition transfer_length :: "jtag_controller \<Rightarrow> nat \<Rightarrow> u32" where
  "transfer_length j n = (if use_bits_length j then lengths_in_bits j else of_nat n)"

definition jtag_write_shot :: "'hw register_interface \<Rightarrow> u8 list \<Rightarrow> (jtag_controller \<times> 'hw) handler" where
  "jtag_write_shot ri buffer c =
     (let (j, s) = port c
      in if buffer = [] then Some (STATUS_ERR_INVALID_ARGUMENT, c)
         else if jtag_flags j AND SET_DATA_LENGTH \<noteq> 0 then
           map_option (\<lambda>n. (0, c\<lparr>port := (j\<lparr>lengths_in_bits := n, use_bits_length := True\<rparr>, s)\<rparr>)) (first_word buffer)
         else if jtag_flags j AND SET_FREQUENCY \<noteq> 0 then
           map_option (\<lambda>f. (0, c\<lparr>port := snd (set_frequency ri (j\<lparr>frequency := f\<rparr>) s)\<rparr>)) (first_word buffer)
         else
           map_option (\<lambda>(r, j1, s1). (r, c\<lparr>port := (j1, s1)\<rparr>))
             (jtag_write ri (j\<lparr>use_bits_length := False\<rparr>) buffer (transfer_length j (length buffer)) (jtag_flags j) s))"

definition jtag_read_shot ::
    "'hw register_interface \<Rightarrow> u8 list \<Rightarrow> nat \<Rightarrow> (jtag_controller \<times> 'hw) controller
     \<Rightarrow> ((int \<times> u8 list) \<times> (jtag_controller \<times> 'hw) controller) option" where
  "jtag_read_shot ri old n c =
     (let (j, s) = port c
      in if n = 0 then Some ((STATUS_ERR_INVALID_ARGUMENT, []), c)
         else Option.bind (jtag_read ri (j\<lparr>use_bits_length := False\<rparr>) (transfer_length j n) (jtag_flags j) s)
                (\<lambda>(r, bs, j1, s1).
                   if length bs > n then None
                   else Some ((r, bs @ drop (length bs) (take n old)), c\<lparr>port := (j1, s1)\<rparr>)))"

definition jtag_handle_pre_burst_flags ::
    "'hw register_interface \<Rightarrow> u32 \<Rightarrow> (jtag_controller \<times> 'hw) handler" where
  "jtag_handle_pre_burst_flags ri flags c =
     (let (j, s) = port c; j1 = j\<lparr>jtag_flags := flags\<rparr>
      in if flags AND STATE_MASK = STATE_RESET then
           map_option (\<lambda>(r, j2, s1). (r, c\<lparr>port := (j2, s1)\<rparr>)) (set_state ri j1 STATE_RESET s)
         else Some (0, c\<lparr>port := (j1, s)\<rparr>))"

definition jtag_handle_post_burst_flags :: "u32 \<Rightarrow> (jtag_controller \<times> 'hw) handler" where
  "jtag_handle_post_burst_flags flags c = Some (0, c\<lparr>port := map_prod (jtag_flags_update (\<lambda>_. 0)) id (port c)\<rparr>)"

definition jtag_cleanup :: "(jtag_controller \<times> 'hw) controller \<Rightarrow> (jtag_controller \<times> 'hw) controller" where
  "jtag_cleanup c =
     c\<lparr>port := map_prod (\<lambda>j. j\<lparr>read_buffer := None, tms_buffer := None, jtag_flags := 0, use_bits_length := False\<rparr>)
                 id (port c)\<rparr>"

definition jtag_burst_aborted :: "(jtag_controller \<times> 'hw) controller \<Rightarrow> (jtag_controller \<times> 'hw) controller" where
  "jtag_burst_aborted c = jtag_cleanup c"

definition jtag_ops :: "'hw register_interface \<Rightarrow> u8 list \<Rightarrow> (jtag_controller \<times> 'hw) controller_ops" where
  "jtag_ops ri old = \<lparr>
     handle_begin_transaction = None,
     handle_end_transaction = None,
     handle_pre_burst_flags = jtag_handle_pre_burst_flags ri,
     handle_post_burst_flags = jtag_handle_post_burst_flags,
     write_shot = jtag_write_shot ri,
     request_read = (\<lambda>n c. Some (0, c)),
     read_shot = jtag_read_shot ri old,
     execute_command = controller_base_execute_command_not_supported,
     wait_for_write_queue_empty = (\<lambda>c. Some (0, c)),
     burst_aborted = jtag_burst_aborted,
     cleanup = jtag_cleanup,
     read_queue_size = 1,
     max_bytes_per_read = 268435455,
     write_queue_size = 1,
     max_bytes_per_write = 268435455\<rparr>"

definition jtag_controller_init :: "u32 \<Rightarrow> 'hw \<Rightarrow> (jtag_controller \<times> 'hw) controller" where
  "jtag_controller_init reg s = controller_base_init
     (\<lparr>jtag_control_register = reg, jtag_flags = 0, frequency = 0x30d40, prescaler_value = JTAG_DEFAULT_VALUE,
       tap_state = STATE_INVALID, tms_buffer = None, read_buffer = None, lengths_in_bits = 0, use_bits_length = False\<rparr>, s)"

end
