(* ===== verification/Jtag_Props.thy ===== *)
theory Jtag_Props
  imports Jtag
begin

text \<open>
  What the JTAG controller does to the test access port (IEEE 1149.1): the frames that are written
  to the register are read as the FPGA shifts them, and drive the state machine of the port.
\<close>

section \<open>The test access port\<close>

datatype tap =
  Test_Logic_Reset | Run_Test_Idle
| Select_DR | Capture_DR | Shift_DR | Exit1_DR | Pause_DR | Exit2_DR | Update_DR
| Select_IR | Capture_IR | Shift_IR | Exit1_IR | Pause_IR | Exit2_IR | Update_IR

fun tap_step :: "tap \<Rightarrow> bool \<Rightarrow> tap" where
  "tap_step Test_Logic_Reset tms = (if tms then Test_Logic_Reset else Run_Test_Idle)"
| "tap_step Run_Test_Idle tms = (if tms then Select_DR else Run_Test_Idle)"
| "tap_step Select_DR tms = (if tms then Select_IR else Capture_DR)"
| "tap_step Capture_DR tms = (if tms then Exit1_DR else Shift_DR)"
| "tap_step Shift_DR tms = (if tms then Exit1_DR else Shift_DR)"
| "tap_step Exit1_DR tms = (if tms then Update_DR else Pause_DR)"
| "tap_step Pause_DR tms = (if tms then Exit2_DR else Pause_DR)"
| "tap_step Exit2_DR tms = (if tms then Update_DR else Shift_DR)"
| "tap_step Update_DR tms = (if tms then Select_DR else Run_Test_Idle)"
| "tap_step Select_IR tms = (if tms then Test_Logic_Reset else Capture_IR)"
| "tap_step Capture_IR tms = (if tms then Exit1_IR else Shift_IR)"
| "tap_step Shift_IR tms = (if tms then Exit1_IR else Shift_IR)"
| "tap_step Exit1_IR tms = (if tms then Update_IR else Pause_IR)"
| "tap_step Pause_IR tms = (if tms then Exit2_IR else Pause_IR)"
| "tap_step Exit2_IR tms = (if tms then Update_IR else Shift_IR)"
| "tap_step Update_IR tms = (if tms then Select_DR else Run_Test_Idle)"

text \<open>
  The clocks of the port, each with TMS and the data bit, from the log of the register. A word
  with bit 26 is a command: with bit 16 it sets the TMS bits of the next frame, with bit 17 it
  shifts as many bits as its bits 18 to 21 say, the highest first.
\<close>

record jtag_wire =
  tms_bits :: u32
  clocks :: "(bool \<times> bool) list"

definition high_bits :: "nat \<Rightarrow> u32 \<Rightarrow> bool list" where
  "high_bits n x = map (\<lambda>i. bit x (15 - i)) [0..<n]"

definition bit_count :: "u32 \<Rightarrow> nat" where
  "bit_count x = unat (drop_bit 18 x AND 0xf) + 1"

fun jtag_step :: "u32 \<Rightarrow> bus_event \<Rightarrow> jtag_wire \<Rightarrow> jtag_wire" where
  "jtag_step reg (Wr a x) w =
     (if a = reg \<and> bit x 26 then
        if bit x 16 then w\<lparr>tms_bits := x\<rparr>
        else if bit x 17 then
          w\<lparr>clocks := clocks w @ zip (high_bits (bit_count x) (tms_bits w)) (high_bits (bit_count x) x)\<rparr>
        else w
      else w)"
| "jtag_step reg (Rd a x) w = w"

definition jtag_wire_of :: "u32 \<Rightarrow> bus_event list \<Rightarrow> jtag_wire" where
  "jtag_wire_of reg log = fold (jtag_step reg) log \<lparr>tms_bits = 0, clocks = []\<rparr>"

definition run_tap :: "tap \<Rightarrow> (bool \<times> bool) list \<Rightarrow> tap" where
  "run_tap t cs = foldl tap_step t (map fst cs)"

lemma jtag_wire_of_append [simp]:
  "jtag_wire_of reg (log @ es) = fold (jtag_step reg) es (jtag_wire_of reg log)"
  by (simp add: jtag_wire_of_def)

lemma run_tap_append: "run_tap t (cs @ ds) = run_tap (run_tap t cs) ds"
  by (simp add: run_tap_def)

text \<open>The states of the port the driver's state stands for.\<close>

definition stands_for :: "u32 \<Rightarrow> tap \<Rightarrow> bool" where
  "stands_for st t \<longleftrightarrow>
     st = STATE_INVALID
     \<or> st = STATE_RESET \<and> t = Test_Logic_Reset
     \<or> st = STATE_IDLE \<and> t = Run_Test_Idle
     \<or> st = STATE_SHIFT_DR \<and> t = Shift_DR
     \<or> st = STATE_SHIFT_IR \<and> t = Shift_IR
     \<or> st = STATE_EXIT \<and> (t = Exit1_DR \<or> t = Exit1_IR)"

text \<open>The bits \<open>gather_tms\<close> gives, as they are shifted.\<close>

definition tms_list :: "u32 \<times> nat \<Rightarrow> bool list" where
  "tms_list p = (case p of (bits, n) \<Rightarrow> map (\<lambda>i. bit bits (n - 1 - i)) [0..<n])"

definition requestable :: "u32 \<Rightarrow> bool" where
  "requestable st \<longleftrightarrow> st = STATE_IDLE \<or> st = STATE_SHIFT_DR \<or> st = STATE_SHIFT_IR \<or> st = STATE_RESET"

lemma tms_lists:
  "tms_list (0, 0) = []" "tms_list (0, Suc 0) = [False]"
  "tms_list (0x2, 2) = [True, False]"
  "tms_list (0x4, 3) = [True, False, False]" "tms_list (0x6, 3) = [True, True, False]"
  "tms_list (0x7, 3) = [True, True, True]"
  "tms_list (0x4, 4) = [False, True, False, False]" "tms_list (0xc, 4) = [True, True, False, False]"
  "tms_list (0xf, 4) = [True, True, True, True]"
  "tms_list (0xc, 5) = [False, True, True, False, False]" "tms_list (0x1c, 5) = [True, True, True, False, False]"
  "tms_list (0x1f, 5) = [True, True, True, True, True]"
  "tms_list (0x3c, 6) = [True, True, True, True, False, False]"
  "tms_list (0x3e, 6) = [True, True, True, True, True, False]"
  "tms_list (0x1f4, 9) = [True, True, True, True, True, False, True, False, False]"
  "tms_list (0x3ec, 10) = [True, True, True, True, True, False, True, True, False, False]"
  by (simp_all add: tms_list_def upt_conv_Cons)

lemma five_ones: "tap_step (tap_step (tap_step (tap_step (tap_step t True) True) True) True) True = Test_Logic_Reset"
  by (cases t) simp_all

lemma gathered_tms_reaches:
  assumes "stands_for cur t" "requestable st" "gather_tms cur st = Some p"
  shows "stands_for st (foldl tap_step t (tms_list p)) \<and> snd p \<le> 10"
proof -
  have st: "st = STATE_IDLE \<or> st = STATE_SHIFT_DR \<or> st = STATE_SHIFT_IR \<or> st = STATE_RESET"
    using assms(2) by (simp add: requestable_def)
  consider "cur = STATE_INVALID" | "cur = STATE_RESET" "t = Test_Logic_Reset" | "cur = STATE_IDLE" "t = Run_Test_Idle"
    | "cur = STATE_SHIFT_DR" "t = Shift_DR" | "cur = STATE_SHIFT_IR" "t = Shift_IR"
    | "cur = STATE_EXIT" "t = Exit1_DR \<or> t = Exit1_IR"
    using assms(1) by (auto simp: stands_for_def)
  then show ?thesis
    using st assms(3)
    by cases (elim disjE; auto simp: gather_tms_def tms_lists stands_for_def five_ones)+
qed


section \<open>A frame on the wire\<close>

lemma high_bits_low: "high_bits n x = high_bits n (take_bit 16 x)"
  by (auto simp: high_bits_def bit_take_bit_iff)

lemma take_bit_u16: "take_bit 16 (ucast t :: u32) = ucast t" for t :: u16
  by (rule bit_word_eqI) (auto simp: bit_take_bit_iff bit_ucast_iff dest: bit_imp_le_length)

lemma low_half:
  "take_bit 16 (tms_word l (ucast t)) = ucast t" "take_bit 16 (tdo_word l n (ucast d)) = ucast d" for t d :: u16
  by (simp_all add: tms_word_def tdo_word_def take_bit_push_bit take_bit_u16)

lemma command_bits:
  "bit (tms_word l t) 26" "bit (tms_word l t) 16" "bit (tdo_word l n d) 26" "bit (tdo_word l n d) 17"
  by (simp_all add: tms_word_def tdo_word_def bit_or_iff)


lemma tdo_not_tms: "\<not> bit (tdo_word l n (ucast d)) 16" for d :: u16
  by (auto simp: tdo_word_def bit_or_iff bit_and_iff bit_push_bit_iff bit_ucast_iff dest: bit_imp_le_length)

lemma count_field:
  "take_bit 4 (drop_bit 18 (push_bit 18 y)) = take_bit 4 y" for y :: u32
  by (rule bit_word_eqI) (auto simp: bit_take_bit_iff bit_drop_bit_eq bit_push_bit_iff)

lemma data_below_count: "drop_bit 18 (ucast d :: u32) = 0" for d :: u16
  by (rule bit_word_eqI) (auto simp: bit_drop_bit_eq bit_ucast_iff dest: bit_imp_le_length)

lemma bit_count_tdo:
  fixes d :: u16
  assumes "0 < n" "n \<le> 16"
  shows "bit_count (tdo_word l n (ucast d)) = n"
proof -
  have m: "unat (of_nat (n - 1) :: u32) = n - 1" using assms(2) by (simp add: unat_of_nat)
  have f: "x AND 0xf = take_bit 4 x" for x :: u32
    by (simp add: take_bit_eq_mask mask_numeral)
  have "drop_bit 18 (tdo_word l n (ucast d)) AND 0xf = take_bit 4 (of_nat (n - 1))"
    unfolding f tdo_word_def by (simp add: count_field data_below_count)
  then have "unat (drop_bit 18 (tdo_word l n (ucast d)) AND 0xf) = (n - 1) mod 16"
    using m by (simp add: take_bit_eq_mod unat_mod)
  with assms show ?thesis by (simp add: bit_count_def)
qed


abbreviation on_jtag :: "jtag_controller \<Rightarrow> 'hw \<times> bus_event list \<Rightarrow> jtag_wire" where
  "on_jtag j s \<equiv> jtag_wire_of (jtag_control_register j) (snd s)"

lemma write_wire:
  "on_jtag j (write_control_register (logged ri) j x s)
   = jtag_step (jtag_control_register j) (Wr (jtag_control_register j) x) (on_jtag j s)"
  by (simp add: write_control_register_def del: jtag_step.simps)

lemma jtag_read_wire: "on_jtag j (snd (read_control_register (logged ri) j s)) = on_jtag j s"
  by (simp add: read_control_register_def)

lemma idle_wire: "\<not> bit x 26 \<Longrightarrow> on_jtag j (write_control_register (logged ri) j x s) = on_jtag j s"
  by (simp add: write_wire)

lemma wait_done_wire:
  assumes "wait_done (logged ri) j l s = Some y"
  shows "on_jtag j (snd y) = on_jtag j s"
proof -
  have "wait_done ri' j l s = Some y \<Longrightarrow> ri' = logged ri \<Longrightarrow> on_jtag j (snd y) = on_jtag j s" for ri'
  proof (induction rule: wait_done.raw_induct [rotated, consumes 1])
    case (1 f ri' j l s y)
    let ?v = "fst (read_control_register ri' j s)" and ?s = "snd (read_control_register ri' j s)"
    have s: "on_jtag j ?s = on_jtag j s" unfolding 1(3) by (rule jtag_read_wire)
    show ?case
    proof (cases "?v = 0xffffffff")
      case True
      then have "y = (None, write_control_register ri' j JTAG_DEFAULT_VALUE ?s)"
        using 1(2) by (simp only: Let_def simp_thms if_True option.inject)
      then show ?thesis using s \<open>ri' = logged ri\<close> by (simp add: idle_wire)
    next
      case ne: False
      show ?thesis
      proof (cases "?v AND JTAG_DONE_TOGGLE = l AND JTAG_DONE_TOGGLE")
        case True
        then have "f ri' j l ?s = Some y" using 1(2) ne by (simp only: Let_def simp_thms if_True if_False)
        from 1(1) [OF this \<open>ri' = logged ri\<close>] s show ?thesis by simp
      next
        case False
        then have "y = (Some ?v, ?s)" using 1(2) ne by (simp only: Let_def simp_thms if_False option.inject)
        then show ?thesis using s by simp
      qed
    qed
  qed
  with assms show ?thesis by simp
qed

lemma frame_wire:
  fixes t d :: u16
  assumes "shift_frame (logged ri) j l n (ucast t) (ucast d) s = Some y" "0 < n" "n \<le> 16"
  shows "clocks (on_jtag j (snd y)) = clocks (on_jtag j s) @ zip (high_bits n (ucast t)) (high_bits n (ucast d))"
proof -
  have "high_bits n (tms_word l (ucast t)) = high_bits n (ucast t)" "high_bits n (tdo_word l n (ucast d)) = high_bits n (ucast d)"
    by (subst high_bits_low, simp only: low_half)+
  with wait_done_wire [OF assms(1) [unfolded shift_frame_def]] show ?thesis
    using command_bits tdo_not_tms bit_count_tdo [OF assms(2,3)] by (simp add: write_wire)
qed

section \<open>State changes\<close>

text \<open>The driver's commands do not touch the prescaler bits' neighbour, the activation bit.\<close>

definition jtag_ok :: "jtag_controller \<Rightarrow> bool" where
  "jtag_ok j \<longleftrightarrow> \<not> bit (prescaler_value j) 26"


lemma low_half_ucast: "x AND 0xffff = ucast (ucast x :: u16)" for x :: u32
proof -
  have "x AND 0xffff = take_bit 16 x" by (simp add: take_bit_eq_mask mask_numeral)
  moreover have "take_bit 16 x = ucast (ucast x :: u16)"
    by (rule bit_word_eqI) (auto simp: bit_take_bit_iff bit_ucast_iff)
  ultimately show ?thesis by simp
qed

lemma high_bits_state: "n \<le> 16 \<Longrightarrow> high_bits n (ucast (ucast (push_bit (16 - n) bits :: u32) :: u16)) = tms_list (bits, n)"
  by (auto simp: high_bits_def tms_list_def bit_ucast_iff bit_push_bit_iff)

lemma map_fst_zip_same: "length xs = length ys \<Longrightarrow> map fst (zip xs ys) = xs"
  by simp

lemma length_high_bits [simp]: "length (high_bits n x) = n"
  by (simp add: high_bits_def)

lemma set_state_wire:
  assumes "set_state (logged ri) j st s = Some (r, j', s')" "jtag_ok j" "requestable st"
    "stands_for (tap_state j) (run_tap t (clocks (on_jtag j s)))"
  shows "r = 0 \<and> j' = j\<lparr>tap_state := st\<rparr> \<and> stands_for st (run_tap t (clocks (on_jtag j s')))
      \<and> (\<exists>pre. clocks (on_jtag j s') = clocks (on_jtag j s) @ pre)
    \<or> r < 0 \<and> j' = j"
proof (cases "gather_tms (tap_state j) st")
  case None
  with assms(1) show ?thesis by (auto simp: set_state_def split: if_splits)
next
  case (Some p)
  obtain bits n where p: "p = (bits, n)" by (cases p)
  have reach: "stands_for st (foldl tap_step (run_tap t (clocks (on_jtag j s))) (tms_list (bits, n)))" "n \<le> 10"
    using gathered_tms_reaches [OF assms(4,3) Some] p by simp_all
  have st: "\<not> (st < STATE_IDLE \<or> st > STATE_RESET)" using assms(3) by (auto simp: requestable_def)
  show ?thesis
  proof (cases "n = 0")
    case True
    then have "r = 0" "j' = j\<lparr>tap_state := st\<rparr>" "s' = write_control_register (logged ri) j JTAG_DEFAULT_VALUE s"
      using assms(1) Some p st by (simp_all add: set_state_def)
    with reach True show ?thesis by (simp add: idle_wire tms_list_def)
  next
    case False
    let ?s = "write_control_register (logged ri) j (prescaler_value j) s"
    let ?l = "fst (read_control_register (logged ri) j ?s)" and ?s1 = "snd (read_control_register (logged ri) j ?s)"
    let ?t = "ucast (push_bit (16 - n) bits) :: u16"
    have s1: "on_jtag j ?s1 = on_jtag j s"
      using assms(2) by (simp only: jtag_read_wire idle_wire jtag_ok_def not_False_eq_True)
    obtain val s2 where f: "shift_frame (logged ri) j ?l n (ucast ?t) (ucast (0 :: u16)) ?s1 = Some (val, s2)"
      "(if val = None then (JTAG_ERROR_IO_FAILURE, j, s2)
        else (0, j\<lparr>tap_state := st\<rparr>, write_control_register (logged ri) j JTAG_DEFAULT_VALUE s2)) = (r, j', s')"
      using assms(1) Some p st False
      by (auto simp: set_state_def low_half_ucast case_prod_beta Let_def bind_eq_Some_conv split: if_splits)
    have n: "0 < n" "n \<le> 16" using False reach(2) by simp_all
    have c: "clocks (on_jtag j s2) = clocks (on_jtag j s) @ zip (tms_list (bits, n)) (high_bits n 0)"
      using frame_wire [OF f(1) n] s1 high_bits_state [OF n(2), of bits] by simp
    have "length (tms_list (bits, n)) = n" by (simp add: tms_list_def)
    then have "stands_for st (run_tap t (clocks (on_jtag j s2)))"
      using reach(1) c by (simp add: run_tap_def)
    with f(2) c show ?thesis by (auto simp: idle_wire split: if_splits)
  qed
qed


section \<open>Data\<close>

text \<open>The bits of a buffer, the first byte the lowest; they are sent from the highest down.\<close>

definition data_bit :: "u8 list \<Rightarrow> nat \<Rightarrow> bool" where
  "data_bit data k = bit (data ! (k div 8)) (k mod 8)"

definition bit_string :: "u8 list \<Rightarrow> nat \<Rightarrow> bool list" where
  "bit_string data n = map (\<lambda>x. data_bit data (n - 1 - x)) [0..<n]"

lemma length_bit_string [simp]: "length (bit_string data n) = n"
  by (simp add: bit_string_def)

lemma bit_string_split:
  assumes "n \<le> m"
  shows "bit_string data m = map (\<lambda>x. data_bit data (m - 1 - x)) [0..<n] @ bit_string data (m - n)"
  using assms by (intro nth_equalityI) (auto simp: bit_string_def nth_append)

lemma frame_size_facts:
  assumes "0 < left"
  shows "0 < frame_size left" "frame_size left \<le> 16" "frame_size left \<le> left" "16 dvd left - frame_size left"
proof -
  have "left mod 16 < 16" "left mod 16 \<le> left" by simp_all
  then show "0 < frame_size left" "frame_size left \<le> 16" by (auto simp: frame_size_def)
  show "frame_size left \<le> left" using assms by (auto simp: frame_size_def dest: mod_eq_0_iff_dvd [THEN iffD1] dvd_imp_le)
  show "16 dvd left - frame_size left"
    by (cases "left mod 16 = 0") (auto simp: frame_size_def mod_eq_0_iff_dvd minus_mod_eq_mult_div)
qed

lemma aligned_bits:
  fixes v :: u16
  assumes "x < n" "n \<le> 16"
  shows "bit (push_bit (16 - n) v) (15 - x) \<longleftrightarrow> bit v (n - 1 - x)"
  using assms by (auto simp: bit_push_bit_iff)

lemma data_bit_at: "k < 8 \<Longrightarrow> data_bit data (8 * b + k) = bit (data ! b) k"
  by (simp add: data_bit_def)

lemma byte_at_int: "byte_at bs (int k) = (if k < length bs then Some (bs ! k) else None)"
  by (simp add: byte_at_def)

lemma frame_msb:
  assumes "0 < left" "left \<le> 8 * length data"
  defines "n \<equiv> frame_size left" and "i \<equiv> int ((left + 7) div 8) - 1"
  shows "\<exists>d. frame_bytes True data i n = Some d
    \<and> high_bits n (ucast (align_frame True n d)) = map (\<lambda>x. data_bit data (left - 1 - x)) [0..<n]"
proof -
  note f = frame_size_facts [OF assms(1), folded n_def]
  obtain q where q: "left = 16 * q + n" using f(3,4) by (metis dvd_def le_add_diff_inverse2)
  show ?thesis
  proof (cases "n \<le> 8")
    case True
    have i: "i = int (2 * q)" using q True f(1) by (simp add: i_def)
    have b: "byte_at data i = Some (data ! (2 * q))" using assms(2) q f(1) unfolding i byte_at_int by simp
    let ?b = "ucast (data ! (2 * q)) :: u16"
    have "align_frame True n (push_bit 8 ?b) = push_bit (16 - n) ?b" using True by (simp add: align_frame_def)
    moreover have "bit ?b (n - 1 - x) \<longleftrightarrow> data_bit data (left - 1 - x)" if "x < n" for x
    proof -
      have e: "left - 1 - x = 8 * (2 * q) + (n - 1 - x)" "n - 1 - x < 8" using that q True by simp_all
      show ?thesis unfolding e(1) data_bit_at [OF e(2)] using e(2) by (simp add: bit_ucast_iff)
    qed
    ultimately show ?thesis using b True aligned_bits [OF _ f(2), of _ ?b]
      by (auto simp: frame_bytes_def high_bits_def bit_ucast_iff)
  next
    case False
    have i: "i = int (2 * q + 1)" using q False f(2) by (simp add: i_def)
    have i1: "i - 1 = int (2 * q)" by (simp add: i)
    have b: "byte_at data i = Some (data ! (2 * q + 1))" "byte_at data (i - 1) = Some (data ! (2 * q))"
      using assms(2) q False unfolding i1 unfolding i byte_at_int by simp_all
    let ?v = "push_bit 8 (ucast (data ! (2 * q + 1))) OR ucast (data ! (2 * q)) :: u16"
    have "align_frame True n ?v = push_bit (16 - n) ?v" using False f(2) by (auto simp: align_frame_def)
    moreover have "bit ?v (n - 1 - x) \<longleftrightarrow> data_bit data (left - 1 - x)" if "x < n" for x
    proof (cases "n - 1 - x < 8")
      case True
      then have e: "left - 1 - x = 8 * (2 * q) + (n - 1 - x)" using that q by simp
      show ?thesis unfolding e data_bit_at [OF True] using True by (simp add: bit_ucast_iff bit_or_iff bit_push_bit_iff)
    next
      case hi: False
      then have e: "left - 1 - x = 8 * (2 * q + 1) + (n - 1 - x - 8)" "n - 1 - x - 8 < 8" using that q f(2) by simp_all
      show ?thesis unfolding e(1) data_bit_at [OF e(2)] using hi e(2)
        by (auto simp: bit_ucast_iff bit_or_iff bit_push_bit_iff dest: bit_imp_le_length)
    qed
    ultimately show ?thesis using b False aligned_bits [OF _ f(2), of _ ?v]
      by (auto simp: frame_bytes_def high_bits_def bit_ucast_iff simp del: bit_or_iff)
  qed
qed


lemma frame_tms_bits:
  assumes "flags AND RAW_MODE = 0" "0 < left"
  defines "n \<equiv> frame_size left"
  shows "\<exists>t. frame_tms flags m tms i n left = Some t \<and> high_bits n (ucast t) =
    (if left > 16 \<or> flags AND STATE_MASK = STATE_IDLE then replicate n False else replicate (n - 1) False @ [True])"
proof -
  note f = frame_size_facts [OF assms(2), folded n_def]
  have z: "high_bits n 0 = replicate n False" by (rule nth_equalityI) (simp_all add: high_bits_def)
  have "high_bits n (ucast (push_bit (16 - n) 1 :: u16)) = replicate (n - 1) False @ [True]"
    using f(1,2)
    by (intro nth_equalityI) (auto simp: high_bits_def bit_ucast_iff bit_exp_iff nth_append)
  with z assms(1) show ?thesis by (auto simp: frame_tms_def)
qed

definition shift_tms :: "u32 \<Rightarrow> nat \<Rightarrow> bool list" where
  "shift_tms flags n =
     (if flags AND STATE_MASK = STATE_IDLE then replicate n False else replicate (n - 1) False @ [True])"

lemma shift_tms_split:
  assumes "left > 16"
  shows "shift_tms flags left = replicate (frame_size left) False @ shift_tms flags (left - frame_size left)"
proof -
  have "frame_size left < left" using assms frame_size_facts [of left] by auto
  then show ?thesis by (auto simp: shift_tms_def simp flip: replicate_add append_assoc)
qed

lemma next_index:
  assumes "0 < n" "n \<le> 16"
  shows "int ((16 * q + n + 7) div 8) - 1 - (if n > 8 then 2 else 1) = int ((16 * q + 7) div 8) - 1"
proof (cases "n > 8")
  case True
  then have "(16 * q + n + 7) div 8 = 2 * q + 2" "(16 * q + 7) div 8 = 2 * q" using assms by presburger+
  with True show ?thesis by simp
next
  case False
  then have "(16 * q + n + 7) div 8 = 2 * q + 1" "(16 * q + 7) div 8 = 2 * q" using assms by presburger+
  with False show ?thesis by simp
qed

lemma write_frames_wire:
  assumes "write_frames (logged ri) j flags data tms left i l recv s = Some (True, recv', s')"
    "flags AND RAW_MODE = 0" "flags AND LSB_FIRST = 0" "left \<le> 8 * length data"
    "i = int ((left + 7) div 8) - 1"
  shows "clocks (on_jtag j s') = clocks (on_jtag j s) @ (if left = 0 then [] else zip (shift_tms flags left) (bit_string data left))"
  using assms
proof (induction left arbitrary: i l recv s rule: less_induct)
  case (less left)
  show ?case
  proof (cases "left = 0")
    case True
    with less.prems(1) show ?thesis by (simp add: write_frames.simps)
  next
    case False
    let ?n = "frame_size left"
    let ?k = "if ?n > 8 then 2 else 1 :: int"
    note f = frame_size_facts [of left]
    obtain d where d: "frame_bytes True data i ?n = Some d"
      "high_bits ?n (ucast (align_frame True ?n d)) = map (\<lambda>x. data_bit data (left - 1 - x)) [0..<?n]"
      using frame_msb [OF _ less.prems(4)] False less.prems(5) by auto
    obtain t where t: "frame_tms flags True tms i ?n left = Some t"
      "high_bits ?n (ucast t) = (if left > 16 \<or> flags AND STATE_MASK = STATE_IDLE then replicate ?n False
        else replicate (?n - 1) False @ [True])"
      using frame_tms_bits [OF less.prems(2)] False by blast
    obtain v s1 where s: "shift_frame (logged ri) j l ?n (ucast t) (ucast (align_frame True ?n d)) s = Some (Some v, s1)"
      "write_frames (logged ri) j flags data tms (left - ?n) (i - ?k) v (receive_frame True ?n v i recv) s1 = Some (True, recv', s')"
      using less.prems(1) False d(1) t(1) less.prems(3)
      by (subst (asm) write_frames.simps) (auto simp: Let_def bind_eq_Some_conv split: option.splits if_splits)
    obtain q where q: "left - ?n = 16 * q" using f(4) False by (auto elim: dvdE)
    then have "left + 7 = 16 * q + ?n + 7" using f(3) False by linarith
    then have i: "i - ?k = int ((left - ?n + 7) div 8) - 1"
      using next_index [of ?n q] f(1,2) False unfolding less.prems(5) q by simp
    have c: "clocks (on_jtag j s1) = clocks (on_jtag j s) @ zip (high_bits ?n (ucast t)) (high_bits ?n (ucast (align_frame True ?n d)))"
      using frame_wire [OF s(1)] f False by simp
    have ih: "clocks (on_jtag j s') = clocks (on_jtag j s1) @
        (if left - ?n = 0 then [] else zip (shift_tms flags (left - ?n)) (bit_string data (left - ?n)))"
      using less.IH [OF _ s(2) less.prems(2,3) _ i] less.prems(4) f False by simp
    show ?thesis
    proof (cases "left > 16")
      case True
      then have "?n < left" using f False by linarith
      then show ?thesis using ih c d(2) t(2) True shift_tms_split [OF True, of flags]
        bit_string_split [of ?n left data] False by simp
    next
      case le: False
      then have "?n = left" using False by (cases "left = 16") (auto simp: frame_size_def)
      then show ?thesis using ih c d(2) t(2) le False by (simp add: shift_tms_def bit_string_def)
    qed
  qed
qed


section \<open>Writing\<close>

lemma zero_stays:
  assumes "stands_for st p" "st = STATE_IDLE \<or> st = STATE_SHIFT_DR \<or> st = STATE_SHIFT_IR"
  shows "stands_for st (tap_step p False)"
  using assms(2,1) by (elim disjE) (simp_all add: stands_for_def)

lemma zeros_stay:
  assumes "st = STATE_IDLE \<or> st = STATE_SHIFT_DR \<or> st = STATE_SHIFT_IR"
  shows "stands_for st p \<Longrightarrow> stands_for st (foldl tap_step p (replicate n False))"
  by (induction n arbitrary: p) (simp_all add: zero_stays [OF _ assms])

lemma last_one_exits:
  "stands_for st p \<Longrightarrow> st = STATE_SHIFT_DR \<or> st = STATE_SHIFT_IR \<Longrightarrow> stands_for STATE_EXIT (tap_step p True)"
  by (auto simp: stands_for_def)

text \<open>While the data are shifted the port stays in the state it was put in.\<close>

lemma shift_tms_states:
  assumes "stands_for st p" "st = STATE_IDLE \<or> st = STATE_SHIFT_DR \<or> st = STATE_SHIFT_IR" "0 < n"
    "st = flags AND STATE_MASK"
  shows "\<forall>k < n. stands_for st (foldl tap_step p (take k (shift_tms flags n)))"
    "stands_for (if st = STATE_IDLE then STATE_IDLE else STATE_EXIT) (foldl tap_step p (shift_tms flags n))"
proof -
  have z: "stands_for st (foldl tap_step p (replicate k False))" for k
    by (rule zeros_stay [OF assms(2,1)])
  then show "\<forall>k < n. stands_for st (foldl tap_step p (take k (shift_tms flags n)))"
    by (auto simp: shift_tms_def)
  show "stands_for (if st = STATE_IDLE then STATE_IDLE else STATE_EXIT) (foldl tap_step p (shift_tms flags n))"
    using z last_one_exits [OF z] assms(2,4) by (auto simp: shift_tms_def)
qed

lemma length_shift_tms [simp]: "0 < n \<Longrightarrow> length (shift_tms flags n) = n"
  by (simp add: shift_tms_def)

lemma bytes_of_bits:
  assumes "check_rw len flags = None"
  shows "unat (length_in_bytes len flags) = (unat (length_in_bits len flags) + 7) div 8"
    "0 < unat (length_in_bits len flags)" "unat (length_in_bits len flags) < 2 ^ 31"
proof -
  have len: "0 < unat len" using assms by (auto simp: check_rw_def unat_gt_0 split: if_splits)
  have b: "unat (length_in_bits len flags) < 2 ^ 31 \<and> 0 < unat (length_in_bits len flags)"
  proof (cases "flags AND LENGTH_IN_BITS = 0")
    case True
    then have "len \<le> 0xfffffff" using assms by (auto simp: check_rw_def split: if_splits)
    then have l: "unat len \<le> 0xfffffff" by (simp add: word_le_nat_alt)
    then have "unat (8 * len) = 8 * unat len" by (simp add: unat_word_ariths)
    with True l len show ?thesis by (simp add: length_in_bits_def)
  next
    case False
    then have "len \<le> 0x7fffffff" using assms by (auto simp: check_rw_def split: if_splits)
    then have "unat len \<le> 0x7fffffff" by (simp add: word_le_nat_alt)
    with False len show ?thesis by (simp add: length_in_bits_def)
  qed
  then show "0 < unat (length_in_bits len flags)" "unat (length_in_bits len flags) < 2 ^ 31" by simp_all
  have "unat (length_in_bits len flags + 7) = unat (length_in_bits len flags) + 7"
    using b by (simp add: unat_word_ariths)
  then show "unat (length_in_bytes len flags) = (unat (length_in_bits len flags) + 7) div 8"
    by (simp add: length_in_bytes_def unat_div)
qed

lemma write_data_wire:
  assumes "write_data (logged ri) j data len flags s = Some (r, j', s')" "0 \<le> r" "jtag_ok j"
    "check_rw len flags = None" "flags AND RAW_MODE = 0" "flags AND LSB_FIRST = 0"
    "unat (length_in_bytes len flags) \<le> length data"
  defines "n \<equiv> unat (length_in_bits len flags)"
  shows "clocks (on_jtag j s') = clocks (on_jtag j s) @ zip (shift_tms flags n) (bit_string data n)
    \<and> tap_state j' = (if flags AND STATE_MASK = STATE_IDLE then tap_state j else STATE_EXIT)
    \<and> jtag_control_register j' = jtag_control_register j"
proof -
  let ?s = "write_control_register (logged ri) j (prescaler_value j) s"
  let ?l = "fst (read_control_register (logged ri) j ?s)" and ?s1 = "snd (read_control_register (logged ri) j ?s)"
  let ?bytes = "unat (length_in_bytes len flags)"
  note b = bytes_of_bits [OF assms(4), folded n_def]
  have s1: "on_jtag j ?s1 = on_jtag j s"
    using assms(3) by (simp only: jtag_read_wire idle_wire jtag_ok_def not_False_eq_True)
  obtain ok recv s2 where w: "write_frames (logged ri) j flags data
      (case tms_buffer j of None \<Rightarrow> [] | Some (t, _) \<Rightarrow> t) n (int ?bytes - 1) ?l (replicate ?bytes 0) ?s1
      = Some (ok, recv, s2)"
    "ok" "s' = write_control_register (logged ri) j JTAG_DEFAULT_VALUE s2"
    "j' = (if flags AND STATE_MASK \<noteq> STATE_IDLE then j\<lparr>tap_state := STATE_EXIT\<rparr> else j)
        \<lparr>read_buffer := Some (recv, length_in_bits len flags)\<rparr>"
    using assms(1,2,5,6) by (auto simp: write_data_def Let_def case_prod_beta n_def split: if_splits)
  have "n \<le> 8 * length data" using assms(7) b(1) by linarith
  moreover have "int ?bytes - 1 = int ((n + 7) div 8) - 1" using b(1) by simp
  ultimately have "clocks (on_jtag j s2) = clocks (on_jtag j s) @ zip (shift_tms flags n) (bit_string data n)"
    using write_frames_wire [of ri j flags data _ n _ ?l _ ?s1 recv s2] w(1,2) assms(5,6) s1 b(2) by simp
  with w(3,4) show ?thesis by (simp add: idle_wire)
qed

text \<open>C22: A write of the JTAG controller (most significant bit first, not in raw mode) that succeeds first brings
  the test access port into the requested state, wherever it was, as far as the driver's record of its
  state was right; then it clocks out exactly the bits of the buffer, from the highest bit that is
  asked for down to bit 0, the port being in the requested state at every one of them; and afterwards the record
  is right again. This holds for any device.\<close>

theorem jtag_write_shifts_the_data:
  assumes "jtag_write (logged ri) j data len flags s = Some (r, j', s')" "0 < r" "jtag_ok j"
    "flags AND RAW_MODE = 0" "flags AND LSB_FIRST = 0" "unat (length_in_bytes len flags) \<le> length data"
    "stands_for (tap_state j) (run_tap t (clocks (on_jtag j s)))"
  shows "\<exists>pre ds. clocks (on_jtag j' s') = clocks (on_jtag j s) @ pre @ ds
    \<and> map snd ds = bit_string data (unat (length_in_bits len flags))
    \<and> (\<forall>k < length ds. stands_for (flags AND STATE_MASK) (run_tap t (clocks (on_jtag j s) @ pre @ take k ds)))
    \<and> stands_for (tap_state j') (run_tap t (clocks (on_jtag j' s')))"
proof -
  let ?st = "flags AND STATE_MASK" and ?n = "unat (length_in_bits len flags)"
  have chk: "check_rw len flags = None"
  proof (cases "check_rw len flags")
    case (Some e)
    then have "e < 0" by (auto simp: check_rw_def split: if_splits)
    with Some assms(1,2) show ?thesis by (simp add: jtag_write_def)
  qed
  obtain r1 j1 s1 where st: "?st = STATE_IDLE \<or> ?st = STATE_SHIFT_DR \<or> ?st = STATE_SHIFT_IR"
    "set_state (logged ri) j ?st s = Some (r1, j1, s1)" "\<not> r1 < 0"
    "write_data (logged ri) j1 data len flags s1 = Some (r, j', s')"
    using assms(1,2,4) chk by (auto simp: jtag_write_def Let_def bind_eq_Some_conv split: if_splits)
  obtain pre where j1: "j1 = j\<lparr>tap_state := ?st\<rparr>" "stands_for ?st (run_tap t (clocks (on_jtag j s1)))"
    "clocks (on_jtag j s1) = clocks (on_jtag j s) @ pre"
    using set_state_wire [OF st(2) assms(3) _ assms(7)] st(1,3) by (auto simp: requestable_def)
  let ?ds = "zip (shift_tms flags ?n) (bit_string data ?n)"
  have n: "0 < ?n" by (rule bytes_of_bits(2) [OF chk])
  have w: "clocks (on_jtag j s') = clocks (on_jtag j s1) @ ?ds"
    "tap_state j' = (if ?st = STATE_IDLE then ?st else STATE_EXIT)" "jtag_control_register j' = jtag_control_register j"
    using write_data_wire [OF st(4) _ _ chk assms(4,5,6)] assms(2,3) j1(1) by (simp_all add: jtag_ok_def)
  note ts = shift_tms_states [OF j1(2) st(1) n refl]
  have "run_tap t (clocks (on_jtag j s1) @ take k ?ds)
      = foldl tap_step (run_tap t (clocks (on_jtag j s1))) (take k (shift_tms flags ?n))" for k
    using n by (simp add: run_tap_append) (simp add: run_tap_def take_zip)
  note run = this this [of ?n]
  have "\<forall>k < length ?ds. stands_for ?st (run_tap t (clocks (on_jtag j s) @ pre @ take k ?ds))"
    using ts(1) run(1) j1(3) n by simp
  moreover have "stands_for (tap_state j') (run_tap t (clocks (on_jtag j' s')))"
    using ts(2) run(2) w n by auto
  ultimately show ?thesis using w(1,3) j1(3) n by (intro exI [of _ pre] exI [of _ ?ds]) simp
qed


text \<open>A device that has finished a frame when its status is read next.\<close>

definition prompt_jtag :: "u32 register_interface" where
  "prompt_jtag = \<lparr>ri_read = (\<lambda>a s. (s, s XOR JTAG_DONE_TOGGLE)), ri_write = (\<lambda>a x s. s)\<rparr>"

lemma prompt_jtag_simps [simp]:
  "ri_read prompt_jtag a s = (s, s XOR JTAG_DONE_TOGGLE)" "ri_write prompt_jtag a x s = s"
  by (simp_all add: prompt_jtag_def)

lemma prompt_shift_frame:
  "s = 0 \<or> s = JTAG_DONE_TOGGLE \<Longrightarrow>
   shift_frame (logged prompt_jtag) j (s XOR JTAG_DONE_TOGGLE) n t d (s, log) =
   Some (Some s, s XOR JTAG_DONE_TOGGLE,
     log @ [Wr (jtag_control_register j) (tms_word (s XOR JTAG_DONE_TOGGLE) t),
            Wr (jtag_control_register j) (tdo_word (s XOR JTAG_DONE_TOGGLE) n d), Rd (jtag_control_register j) s])"
  by (auto simp: shift_frame_def wait_done.simps [of "logged prompt_jtag"]
      write_control_register_def read_control_register_def)

lemmas prompt_shift_frames =
  prompt_shift_frame [of 0, simplified] prompt_shift_frame [of JTAG_DONE_TOGGLE, simplified]

definition new_jtag :: jtag_controller where
  "new_jtag = fst (port (jtag_controller_init 0x40 ()))"

lemma prompt_write:
  "\<exists>j' s'. jtag_write (logged prompt_jtag) new_jtag [0xa5] 8 (LENGTH_IN_BITS OR STATE_SHIFT_DR) (0, []) = Some (8, j', s')"
  by (simp add: jtag_write_def check_rw_def new_jtag_def jtag_controller_init_def controller_base_init_def
      set_state_def gather_tms_def prompt_shift_frames write_control_register_def read_control_register_def
      write_data_def write_frames.simps length_in_bytes_def length_in_bits_def frame_size_def frame_bytes_def
      byte_at_def frame_tms_def rw_result_def)

theorem jtag_write_shifts_the_data_witness:
  "\<exists>j' s' pre ds. jtag_write (logged prompt_jtag) new_jtag [0xa5] 8 (LENGTH_IN_BITS OR STATE_SHIFT_DR) (0, []) = Some (8, j', s')
    \<and> clocks (on_jtag j' s') = pre @ ds \<and> map snd ds = [True, False, True, False, False, True, False, True]"
proof -
  obtain j' s' where w: "jtag_write (logged prompt_jtag) new_jtag [0xa5] 8 (LENGTH_IN_BITS OR STATE_SHIFT_DR) (0, []) = Some (8, j', s')"
    using prompt_write by blast
  have bits: "bit_string [0xa5] (unat (length_in_bits 8 (LENGTH_IN_BITS OR STATE_SHIFT_DR)))
      = [True, False, True, False, False, True, False, True]"
    by (simp add: length_in_bits_def bit_string_def data_bit_def upt_conv_Cons)
  have init: "jtag_ok new_jtag" "stands_for (tap_state new_jtag) t" for t
    by (simp_all add: new_jtag_def jtag_controller_init_def controller_base_init_def jtag_ok_def stands_for_def)
  have c: "clocks (on_jtag new_jtag (0 :: u32, [])) = []" by (simp add: jtag_wire_of_def)
  obtain pre ds where "clocks (on_jtag j' s') = pre @ ds"
    "map snd ds = bit_string [0xa5] (unat (length_in_bits 8 (LENGTH_IN_BITS OR STATE_SHIFT_DR)))"
    using jtag_write_shifts_the_data [OF w _ init(1) _ _ _ init(2), of Pause_DR] unfolding c
    by (auto simp: length_in_bytes_def length_in_bits_def)
  with w bits show ?thesis by metis
qed

end
