(* ===== verification/Jtag_Loopback.thy ===== *)
theory Jtag_Loopback
  imports Jtag_Props
begin

text \<open>
  The JTAG controller with a chain that gives every bit back: what is written can be read. And the bit
  order with the least significant bit first, where the frames of a write do not fit together.
\<close>

section \<open>A chain that answers every frame with its own bits\<close>

definition loops_back :: "'hw register_interface \<Rightarrow> u32 \<Rightarrow> bool" where
  "loops_back ri reg \<longleftrightarrow> (\<forall>j l n (t :: u16) (d :: u16) s. jtag_control_register j = reg \<and> 0 < n \<and> n \<le> 16 \<longrightarrow>
     (\<exists>v s'. shift_frame ri j l n (ucast t) (ucast d) s = Some (Some v, s')
       \<and> take_bit 16 v = drop_bit (16 - n) (ucast d)))"

definition echo_byte :: "u8 list \<Rightarrow> nat \<Rightarrow> nat \<Rightarrow> u8" where
  "echo_byte data n k = take_bit (n - 8 * k) (data ! k)"

definition echo :: "u8 list \<Rightarrow> nat \<Rightarrow> u8 list" where
  "echo data n = map (echo_byte data n) [0..<(n + 7) div 8]"

lemma whole_byte: "8 * Suc k \<le> n \<Longrightarrow> echo_byte data n k = data ! k"
  unfolding echo_byte_def by (rule bit_word_eqI) (auto simp: bit_take_bit_iff)

lemma echo_whole_bytes: "(n + 7) div 8 = length data \<Longrightarrow> n = 8 * length data \<Longrightarrow> echo data n = data"
  by (rule nth_equalityI) (auto simp: echo_def whole_byte)

lemma echoed_bits:
  fixes a :: u16
  assumes "left = 16 * q + n" "n \<le> 16" "k < 16"
    "take_bit 16 v = drop_bit (16 - n) (ucast a :: u32)"
    "high_bits n (ucast a) = map (\<lambda>x. data_bit data (left - 1 - x)) [0..<n]"
  shows "bit v k \<longleftrightarrow> k < n \<and> data_bit data (16 * q + k)"
proof -
  have "bit v k = bit (take_bit 16 v) k" using assms(3) by (simp add: bit_take_bit_iff)
  also have "\<dots> \<longleftrightarrow> k < n \<and> bit (ucast a :: u32) (15 - (n - 1 - k))"
  proof (cases "k < n")
    case True
    then have "15 - (n - 1 - k) = 16 - n + k" using assms(2) by simp
    with True show ?thesis unfolding assms(4) by (simp add: bit_drop_bit_eq)
  next
    case False
    then show ?thesis unfolding assms(4)
      using assms(2) by (auto simp: bit_drop_bit_eq bit_ucast_iff dest: bit_imp_le_length)
  qed
  also have "\<dots> \<longleftrightarrow> k < n \<and> data_bit data (left - 1 - (n - 1 - k))"
    using arg_cong [OF assms(5), of "\<lambda>xs. xs ! (n - 1 - k)"] by (auto simp: high_bits_def)
  finally show ?thesis using assms(1) by auto
qed

lemma two_updates:
  "Suc k < length xs \<Longrightarrow> xs[Suc k := b, k := a] = take k xs @ [a, b] @ drop (k + 2) xs"
  by (simp add: upd_conv_take_nth_drop drop_Cons')

lemma receive_echo:
  assumes "left = 16 * q + n" "0 < n" "n \<le> 16" "length recv = len" "(left + 7) div 8 \<le> len"
    "\<And>k. k < 16 \<Longrightarrow> bit v k \<longleftrightarrow> k < n \<and> data_bit data (16 * q + k)"
  shows "receive_frame True n v (int ((left + 7) div 8) - 1) recv =
    take (2 * q) recv @ map (echo_byte data left) [2 * q..<(left + 7) div 8] @ drop ((left + 7) div 8) recv"
proof -
  have lo: "(ucast v :: u8) = echo_byte data left (2 * q)"
    using assms(1) data_bit_at [of _ data "2 * q"] assms(6)
    by (intro bit_word_eqI) (auto simp: echo_byte_def bit_ucast_iff bit_take_bit_iff)
  have hi: "(ucast (drop_bit 8 v) :: u8) = echo_byte data left (2 * q + 1)"
    using assms(1) data_bit_at [of _ data "2 * q + 1"] assms(6)
    by (intro bit_word_eqI) (auto simp: echo_byte_def bit_ucast_iff bit_take_bit_iff bit_drop_bit_eq ac_simps)
  show ?thesis
  proof (cases "n > 8")
    case True
    then have b: "(left + 7) div 8 = 2 * q + 2" using assms(1,3) by presburger
    then have i: "int ((left + 7) div 8) - 1 = int (Suc (2 * q))" "int (Suc (2 * q)) - 1 = int (2 * q)" by simp_all
    have nats: "nat (1 + 2 * int q) = Suc (2 * q)" "nat (2 * int q) = 2 * q" by simp_all
    have "Suc (2 * q) < length recv" using assms(4,5) b by simp
    from two_updates [OF this] show ?thesis
      unfolding i b receive_frame_def put_byte_def Let_def using True lo hi by (simp add: i upt_conv_Cons nats)
  next
    case False
    then have b: "(left + 7) div 8 = 2 * q + 1" using assms(1,2) by presburger
    then have i: "int ((left + 7) div 8) - 1 = int (2 * q)" by simp
    have nats: "nat (2 * int q) = 2 * q" by simp
    have "2 * q < length recv" using assms(4,5) b by simp
    from upd_conv_take_nth_drop [OF this] show ?thesis
      unfolding i b receive_frame_def put_byte_def Let_def using False lo by (simp add: nats)
  qed
qed


lemma echo_byte_cut: "k < 2 * q \<Longrightarrow> echo_byte data (16 * q) k = echo_byte data (16 * q + n) k"
  by (simp add: whole_byte)

lemma write_frames_echo:
  assumes "loops_back ri (jtag_control_register j)" "flags AND RAW_MODE = 0" "flags AND LSB_FIRST = 0" "left \<le> 8 * length data"
    "i = int ((left + 7) div 8) - 1" "(left + 7) div 8 \<le> length recv"
  shows "\<exists>s'. write_frames ri j flags data tms left i l recv s
    = Some (True, echo data left @ drop ((left + 7) div 8) recv, s')"
  using assms
proof (induction left arbitrary: i l recv s rule: less_induct)
  case (less left)
  show ?case
  proof (cases "left = 0")
    case True
    then show ?thesis by (simp add: write_frames.simps echo_def)
  next
    case False
    let ?n = "frame_size left"
    let ?k = "if ?n > 8 then 2 else 1 :: int"
    have f: "0 < ?n" "?n \<le> 16" "?n \<le> left" "16 dvd left - ?n" using frame_size_facts [of left] False by simp_all
    obtain d where d: "frame_bytes True data i ?n = Some d"
      "high_bits ?n (ucast (align_frame True ?n d)) = map (\<lambda>x. data_bit data (left - 1 - x)) [0..<?n]"
      using frame_msb [OF _ less.prems(4)] False less.prems(5) by auto
    obtain t where t: "frame_tms flags True tms i ?n left = Some t"
      using frame_tms_bits [OF less.prems(2)] False by blast
    obtain v s1 where v: "shift_frame ri j l ?n (ucast t) (ucast (align_frame True ?n d)) s = Some (Some v, s1)"
      "take_bit 16 v = drop_bit (16 - ?n) (ucast (align_frame True ?n d))"
      using less.prems(1) f(1,2) unfolding loops_back_def by blast
    obtain q where q: "left - ?n = 16 * q" using f(4) by (auto elim: dvdE)
    have left: "left = 16 * q + ?n" using q f(3) by linarith
    let ?recv = "receive_frame True ?n v i recv"
    have recv: "?recv = take (2 * q) recv @ map (echo_byte data left) [2 * q..<(left + 7) div 8] @ drop ((left + 7) div 8) recv"
      using receive_echo [OF left f(1,2) refl less.prems(6) echoed_bits [OF left f(2) _ v(2) d(2)]] less.prems(5) by simp
    have b: "(16 * q + 7) div 8 = 2 * q" "2 * q \<le> (left + 7) div 8" using left by presburger+
    have i: "i - ?k = int ((16 * q + 7) div 8) - 1"
      using next_index [OF f(1,2), of q] unfolding less.prems(5) using left by (simp add: add.assoc)
    have "16 * q < left" using left f(1) by linarith
    then obtain s' where "write_frames ri j flags data tms (16 * q) (i - ?k) v ?recv s1
        = Some (True, echo data (16 * q) @ drop (2 * q) ?recv, s')"
      using less.IH [of "16 * q" "i - ?k" ?recv v s1] less.prems i b recv by auto
    moreover have "echo data (16 * q) @ map (echo_byte data left) [2 * q..<(left + 7) div 8] = echo data left"
      using b echo_byte_cut [of _ q data ?n] left
      by (simp add: echo_def) (metis (no_types, lifting) atLeastLessThan_iff le_add_diff_inverse map_append map_cong set_upt upt_add_eq_append zero_le)
    moreover have "drop (2 * q) ?recv = map (echo_byte data left) [2 * q..<(left + 7) div 8] @ drop ((left + 7) div 8) recv"
      using less.prems(6) b(2) unfolding recv by simp
    ultimately show ?thesis using False d(1) t v(1) less.prems(3) q
      by (subst write_frames.simps) (simp add: Let_def)
  qed
qed

section \<open>Writing and reading back\<close>

definition driver_state :: "u32 \<Rightarrow> bool" where
  "driver_state st \<longleftrightarrow> st = STATE_INVALID \<or> st = STATE_RESET \<or> st = STATE_IDLE \<or> st = STATE_SHIFT_DR
     \<or> st = STATE_SHIFT_IR \<or> st = STATE_EXIT"

lemma gather_tms_total:
  "driver_state cur \<Longrightarrow> requestable st \<Longrightarrow> \<exists>bits n. gather_tms cur st = Some (bits, n) \<and> n \<le> 16"
  unfolding driver_state_def requestable_def by (elim disjE) (simp_all add: gather_tms_def)

lemma set_state_loopback:
  assumes "loops_back ri (jtag_control_register j)" "driver_state (tap_state j)" "requestable st"
  shows "\<exists>s'. set_state ri j st s = Some (0, j\<lparr>tap_state := st\<rparr>, s')"
proof -
  obtain bits n where g: "gather_tms (tap_state j) st = Some (bits, n)" "n \<le> 16"
    using gather_tms_total [OF assms(2,3)] by blast
  have st: "\<not> (st < STATE_IDLE \<or> st > STATE_RESET)" using assms(3) by (auto simp: requestable_def)
  show ?thesis
  proof (cases "n = 0")
    case True
    with g st show ?thesis by (simp add: set_state_def)
  next
    case False
    let ?r = "read_control_register ri j (write_control_register ri j (prescaler_value j) s)"
    obtain v s2 where "shift_frame ri j (fst ?r) n (ucast (ucast (push_bit (16 - n) bits) :: u16)) (ucast (0 :: u16)) (snd ?r)
        = Some (Some v, s2)"
      using assms(1) False g(2) unfolding loops_back_def by blast
    with g st False show ?thesis by (simp add: set_state_def case_prod_beta Let_def low_half_ucast)
  qed
qed

lemma loopback_write:
  assumes "loops_back ri (jtag_control_register j)" "driver_state (tap_state j)"
    "check_rw len flags = None" "flags AND RAW_MODE = 0" "flags AND LSB_FIRST = 0"
    "flags AND STATE_MASK = STATE_IDLE \<or> flags AND STATE_MASK = STATE_SHIFT_DR \<or> flags AND STATE_MASK = STATE_SHIFT_IR"
    "unat (length_in_bytes len flags) \<le> length data"
  shows "\<exists>j' s'. jtag_write ri j data len flags s = Some (rw_result len flags, j', s')
    \<and> read_buffer j' = Some (echo data (unat (length_in_bits len flags)), length_in_bits len flags)"
proof -
  let ?n = "unat (length_in_bits len flags)" and ?bytes = "unat (length_in_bytes len flags)"
  let ?j = "j\<lparr>tap_state := flags AND STATE_MASK\<rparr>"
  obtain s1 where st: "set_state ri j (flags AND STATE_MASK) s = Some (0, ?j, s1)"
    using set_state_loopback [OF assms(1,2)] assms(6) unfolding requestable_def by metis
  have b: "?bytes = (?n + 7) div 8" by (rule bytes_of_bits(1) [OF assms(3)])
  then have "?n \<le> 8 * length data" "int ?bytes - 1 = int ((?n + 7) div 8) - 1"
    using assms(7) by linarith+
  then have "\<exists>s'. write_frames ri ?j flags data tms ?n (int ?bytes - 1) l (replicate ?bytes 0) s
      = Some (True, echo data ?n, s')" for tms l s
    using write_frames_echo [of ri ?j flags ?n data "int ?bytes - 1" "replicate ?bytes 0" tms l s] assms(1,4,5) b by simp
  then obtain j' s' where w: "write_data ri ?j data len flags s1 = Some (rw_result len flags, j', s')"
    "read_buffer j' = Some (echo data ?n, length_in_bits len flags)"
    using assms(4,5) by (fastforce simp: write_data_def Let_def case_prod_beta)
  moreover have "jtag_write ri j data len flags s = Some (rw_result len flags, j', s')"
    using assms(3,4,6) st w(1) by (auto simp: jtag_write_def Let_def)
  ultimately show ?thesis by blast
qed

lemma sint_small:
  fixes x :: u32
  assumes "x \<le> 0x7fffffff"
  shows "sint x = uint x"
proof -
  have "uint x < 2 ^ 31" using assms by (simp add: word_le_def)
  moreover have "0 \<le> uint x" by simp
  ultimately have "signed_take_bit 31 (uint x) = uint x" by (intro signed_take_bit_int_eq_self) linarith+
  then show ?thesis by (simp add: sint_uint)
qed

lemma length_echo:
  "check_rw len flags = None \<Longrightarrow> length (echo data (unat (length_in_bits len flags))) = unat (length_in_bytes len flags)"
  by (simp add: echo_def bytes_of_bits(1))

text \<open>C23: On a chain that gives every bit back, a write of the JTAG controller (most significant bit first, not
  raw) returns the length it was asked for, and the read that follows, with the same length and flags, gives the
  very bytes of the buffer, down to the last bit that was sent, without touching the device, and leaves no buffer behind.\<close>

theorem jtag_loopback_roundtrip:
  assumes "loops_back ri (jtag_control_register j)" "driver_state (tap_state j)"
    "check_rw len flags = None" "flags AND RAW_MODE = 0" "flags AND LSB_FIRST = 0"
    "flags AND STATE_MASK = STATE_IDLE \<or> flags AND STATE_MASK = STATE_SHIFT_DR \<or> flags AND STATE_MASK = STATE_SHIFT_IR"
    "unat (length_in_bytes len flags) \<le> length data"
  shows "\<exists>j' s'. jtag_write ri j data len flags s = Some (rw_result len flags, j', s')
    \<and> jtag_read ri j' len flags s'
      = Some (rw_result len flags, echo data (unat (length_in_bits len flags)), j'\<lparr>read_buffer := None\<rparr>, s')"
proof -
  obtain j' s' where w: "jtag_write ri j data len flags s = Some (rw_result len flags, j', s')"
    "read_buffer j' = Some (echo data (unat (length_in_bits len flags)), length_in_bits len flags)"
    using loopback_write [OF assms] by blast
  moreover have "jtag_read ri j' len flags s'
      = Some (rw_result len flags, echo data (unat (length_in_bits len flags)), j'\<lparr>read_buffer := None\<rparr>, s')"
    using w(2) length_echo [OF assms(3), of data] assms(3) by (simp add: jtag_read_def Let_def)
  ultimately show ?thesis by blast
qed

text \<open>C31: The length that was set for a transfer is not compared with the buffer of the read: if it is longer, the
  read of a working device copies more bytes than the caller's buffer takes, and the kernel memory behind it is
  overwritten. This is a bug: any length up to 0x7fffffff bits is accepted.\<close>

theorem jtag_read_overruns_the_buffer:
  assumes "loops_back ri (jtag_control_register j)" "driver_state (tap_state j)" "read_buffer j = None"
    "use_bits_length j" "0 < lengths_in_bits j" "lengths_in_bits j \<le> 0x7fffffff"
    "jtag_flags j = LENGTH_IN_BITS OR STATE_SHIFT_DR OR SEND_ZEROES_ON_READ"
    "0 < n" "n < (unat (lengths_in_bits j) + 7) div 8"
  shows "jtag_read_shot ri old n (c\<lparr>port := (j, s)\<rparr>) = None"
proof -
  let ?len = "lengths_in_bits j" and ?flags = "LENGTH_IN_BITS OR STATE_SHIFT_DR OR SEND_ZEROES_ON_READ"
  have chk: "check_rw ?len ?flags = None" using assms(5,6) by (auto simp: check_rw_def word_less_def word_le_def)
  have bits: "length_in_bits ?len ?flags = ?len" by (simp add: length_in_bits_def)
  have bytes: "unat (length_in_bytes ?len ?flags) = (unat ?len + 7) div 8"
    using bytes_of_bits(1) [OF chk] bits by simp
  obtain j' s' where w: "jtag_write ri (j\<lparr>use_bits_length := False\<rparr>) (dummy_bytes ?len ?flags) ?len ?flags s
      = Some (rw_result ?len ?flags, j', s')"
    "read_buffer j' = Some (echo (dummy_bytes ?len ?flags) (unat ?len), ?len)"
    using loopback_write [of ri "j\<lparr>use_bits_length := False\<rparr>" ?len ?flags "dummy_bytes ?len ?flags" s] assms(1,2) chk bits
    by (auto simp: dummy_bytes_def)
  have pos: "0 < rw_result ?len ?flags"
    using assms(5,6) sint_small [of ?len] by (simp add: rw_result_def length_in_bits_def word_less_def)
  show ?thesis
    using w pos chk bits assms(3,4,7,8,9) bytes length_echo [OF chk, of "dummy_bytes ?len ?flags"]
    by (simp add: jtag_read_shot_def transfer_length_def jtag_read_def Let_def)
qed


text \<open>A chain of this kind: it keeps the bits of the last frame, and its done bit changes at each read.\<close>

definition echo_jtag :: "(u32 \<times> bool) register_interface" where
  "echo_jtag = \<lparr>
     ri_read = (\<lambda>a (d, t). (d OR (if t then JTAG_DONE_TOGGLE else 0), d, \<not> t)),
     ri_write = (\<lambda>a x (d, t). (if bit x 16 then d else drop_bit (16 - bit_count x) (take_bit 16 x), t))\<rparr>"

lemma echo_jtag_simps [simp]:
  "ri_read echo_jtag a (d, t) = (d OR (if t then JTAG_DONE_TOGGLE else 0), d, \<not> t)"
  "ri_write echo_jtag a x (d, t) = (if bit x 16 then d else drop_bit (16 - bit_count x) (take_bit 16 x), t)"
  by (simp_all add: echo_jtag_def)

lemma echo_wait_done:
  assumes "take_bit 16 d = d"
  shows "\<exists>v s. wait_done echo_jtag j l (d, t) = Some (Some v, s) \<and> take_bit 16 v = d"
proof -
  have high: "\<not> bit d k" if "16 \<le> k" for k
    using assms that by (metis bit_take_bit_iff not_le)
  have done_bit: "(x AND JTAG_DONE_TOGGLE = l AND JTAG_DONE_TOGGLE) = (bit x 17 = bit l 17)" for x
  proof
    assume "x AND JTAG_DONE_TOGGLE = l AND JTAG_DONE_TOGGLE"
    then have "bit (x AND JTAG_DONE_TOGGLE) 17 = bit (l AND JTAG_DONE_TOGGLE) 17" by simp
    then show "bit x 17 = bit l 17" by (simp add: bit_and_iff)
  next
    have m: "bit JTAG_DONE_TOGGLE k \<longleftrightarrow> k = 17" for k
      using bit_exp_iff [of 17 k, where 'a = "32 word"] by auto
    assume "bit x 17 = bit l 17"
    then show "x AND JTAG_DONE_TOGGLE = l AND JTAG_DONE_TOGGLE"
      by (intro bit_word_eqI) (simp only: bit_and_iff m, auto)
  qed
  have ne: "d OR (if u then JTAG_DONE_TOGGLE else 0) \<noteq> 0xffffffff" for u
  proof
    assume "d OR (if u then JTAG_DONE_TOGGLE else 0) = 0xffffffff"
    then have "bit (d OR (if u then JTAG_DONE_TOGGLE else 0)) 18 = bit (0xffffffff :: u32) 18" by simp
    with high [of 18] show False by (cases u) (simp_all add: bit_or_iff)
  qed
  have b: "bit (d OR (if u then JTAG_DONE_TOGGLE else 0)) 17 = u" for u
    using high [of 17] by (simp add: bit_or_iff)
  have v: "take_bit 16 (d OR (if u then JTAG_DONE_TOGGLE else 0)) = d" for u
    using assms by simp
  have answered: "\<exists>v s. wait_done echo_jtag j l (d, u) = Some (Some v, s) \<and> take_bit 16 v = d" if "u \<noteq> bit l 17" for u
    using v ne b that unfolding wait_done.simps [of _ _ _ "(d, u)"]
    by (simp add: read_control_register_def done_bit Let_def del: take_bit_or)
  show ?thesis
  proof (cases "t = bit l 17")
    case True
    then have "wait_done echo_jtag j l (d, t) = wait_done echo_jtag j l (d, \<not> t)"
      using ne b unfolding wait_done.simps [of _ _ _ "(d, t)"]
      by (simp add: read_control_register_def done_bit Let_def)
    with answered [of "\<not> t"] True show ?thesis by simp
  qed (rule answered)
qed

lemma echo_jtag_loops_back: "loops_back echo_jtag reg"
proof -
  have "\<exists>v s'. shift_frame echo_jtag j l n (ucast t) (ucast d) s = Some (Some v, s') \<and> take_bit 16 v = drop_bit (16 - n) (ucast d)"
    if "0 < n" "n \<le> 16" for j l n s and t d :: u16
  proof -
    have "take_bit 16 (drop_bit (16 - n) (ucast d :: u32)) = drop_bit (16 - n) (ucast d)"
      by (rule bit_word_eqI) (auto simp: bit_take_bit_iff bit_drop_bit_eq bit_ucast_iff dest: bit_imp_le_length)
    from echo_wait_done [OF this, of j l "snd s"] show ?thesis
      using that command_bits bit_count_tdo [OF that] tdo_not_tms
      by (cases s) (simp add: shift_frame_def write_control_register_def low_half)
  qed
  then show ?thesis unfolding loops_back_def by blast
qed

theorem jtag_loopback_roundtrip_witness:
  "\<exists>j' s'. jtag_write echo_jtag new_jtag [0x34, 0xf2, 0xff] 18 (LENGTH_IN_BITS OR STATE_SHIFT_IR) (0, False) = Some (18, j', s')
    \<and> jtag_read echo_jtag j' 18 (LENGTH_IN_BITS OR STATE_SHIFT_IR) s' = Some (18, [0x34, 0xf2, 0x03], j'\<lparr>read_buffer := None\<rparr>, s')"
proof -
  have "echo [0x34, 0xf2, 0xff] 18 = [0x34, 0xf2, 0x03]"
    by (simp add: echo_def echo_byte_def upt_conv_Cons take_bit_eq_mask mask_numeral)
  then show ?thesis
    using jtag_loopback_roundtrip [OF echo_jtag_loops_back, of new_jtag 18 "LENGTH_IN_BITS OR STATE_SHIFT_IR" "[0x34, 0xf2, 0xff]" "(0, False)"]
    by (simp add: new_jtag_def jtag_controller_init_def controller_base_init_def driver_state_def check_rw_def
        length_in_bytes_def length_in_bits_def rw_result_def)
qed


section \<open>The least significant bit first\<close>

lemma bit_reverse_bit_char: "bit (reverse_bit_char c) k \<longleftrightarrow> k < 8 \<and> bit c (7 - k)"
proof (cases "k < 8")
  case True
  then have "k = 0 \<or> k = 1 \<or> k = 2 \<or> k = 3 \<or> k = 4 \<or> k = 5 \<or> k = 6 \<or> k = 7" by auto
  then show ?thesis
    by (elim disjE)
      (simp_all only: reverse_bit_char_def Let_def bit_or_iff bit_and_iff bit_drop_bit_eq bit_push_bit_iff o_apply, simp_all)
next
  case False
  then show ?thesis using bit_imp_le_length [of "reverse_bit_char c" k] by auto
qed

lemma high_bits_ucast: "high_bits n (ucast d :: u32) = map (\<lambda>i. bit d (15 - i)) [0..<n]" for d :: u16
  by (auto simp: high_bits_def bit_ucast_iff)

lemma reversed_byte: "map (\<lambda>i. bit (push_bit 8 (ucast (reverse_bit_char b)) :: u16) (15 - i)) [0..<n] = map (bit b) [0..<n]" if "n \<le> 8"
  using that by (auto simp: bit_push_bit_iff bit_ucast_iff bit_reverse_bit_char)

lemma reversed_bytes:
  "map (\<lambda>i. bit (push_bit 8 (ucast (reverse_bit_char b)) OR ucast (reverse_bit_char c) :: u16) (15 - i)) [0..<16]
   = map (bit b) [0..<8] @ map (bit c) [0..<8]"
  by (rule nth_equalityI)
    (auto simp: bit_push_bit_iff bit_or_iff bit_ucast_iff bit_reverse_bit_char nth_append)


lemma write_frames_lsb_step:
  assumes "write_frames ri j flags data tms left i l recv s = Some (True, recv', s')" "left \<noteq> 0"
    "flags AND RAW_MODE = 0" "flags AND LSB_FIRST \<noteq> 0" "frame_bytes False data i (frame_size left) = Some d"
  shows "\<exists>(t :: u16) v s1 recv1. shift_frame ri j l (frame_size left) (ucast t) (ucast d) s = Some (Some v, s1)
    \<and> write_frames ri j flags data tms (left - frame_size left) (i + (if frame_size left > 8 then 2 else 1)) v recv1 s1
      = Some (True, recv', s')"
proof -
  obtain t where t: "frame_tms flags False tms i (frame_size left) left = Some t"
    using frame_tms_bits [OF assms(3)] assms(2) by blast
  show ?thesis using assms(1)
    by (subst (asm) write_frames.simps)
      (use assms(2-) t in \<open>fastforce simp: align_frame_def bind_eq_Some_conv Let_def split: option.splits\<close>)
qed

lemma lsb_frames:
  assumes "write_frames (logged ri) j flags [b0, b1, b2] tms 20 0 l recv s = Some (True, recv', s')"
    "flags AND RAW_MODE = 0" "flags AND LSB_FIRST \<noteq> 0"
  shows "map snd (clocks (on_jtag j s')) = map snd (clocks (on_jtag j s))
    @ map (bit b0) [0..<4] @ map (bit b1) [0..<8] @ map (bit b2) [0..<8]"
proof -
  let ?d = "push_bit 8 (ucast (reverse_bit_char b0)) :: u16"
  let ?e = "push_bit 8 (ucast (reverse_bit_char b1)) OR ucast (reverse_bit_char b2) :: u16"
  have f: "frame_size 20 = 4" "frame_size 16 = 16" by (simp_all add: frame_size_def)
  have d: "frame_bytes False [b0, b1, b2] 0 (frame_size 20) = Some ?d" "frame_bytes False [b0, b1, b2] 1 (frame_size 16) = Some ?e"
    by (simp_all add: f frame_bytes_def byte_at_def)
  obtain t :: u16 and v s1 recv1 where 1: "shift_frame (logged ri) j l 4 (ucast t) (ucast ?d) s = Some (Some v, s1)"
    "write_frames (logged ri) j flags [b0, b1, b2] tms 16 1 v recv1 s1 = Some (True, recv', s')"
    using write_frames_lsb_step [OF assms(1) _ assms(2,3) d(1)] unfolding f by auto
  obtain t' :: u16 and v' s2 recv2 where 2: "shift_frame (logged ri) j v 16 (ucast t') (ucast ?e) s1 = Some (Some v', s2)"
    "write_frames (logged ri) j flags [b0, b1, b2] tms 0 3 v' recv2 s2 = Some (True, recv', s')"
    using write_frames_lsb_step [OF 1(2) _ assms(2,3) d(2)] unfolding f by auto
  have "s' = s2" using 2(2) by (simp add: write_frames.simps)
  have "high_bits 4 (ucast ?d) = map (bit b0) [0..<4]" "high_bits 16 (ucast ?e) = map (bit b1) [0..<8] @ map (bit b2) [0..<8]"
    using reversed_byte [of 4 b0] reversed_bytes [of b1 b2] unfolding high_bits_ucast by simp_all
  with frame_wire [OF 1(1)] frame_wire [OF 2(1)] \<open>s' = s2\<close> show ?thesis by simp
qed


text \<open>With the least significant bit first, a write of twenty bits does not send the first twenty bits of the
  buffer: the short frame comes first, so that it takes four bits of the first byte and drops the other four, and the
  second and third byte follow whole. This is a bug: a shift register of twenty bits gets four wrong bits.\<close>

theorem jtag_lsb_first_drops_bits:
  assumes "jtag_write (logged ri) j [b0, b1, b2] 20 flags s = Some (20, j', s')" "jtag_ok j"
    "flags = LENGTH_IN_BITS OR STATE_SHIFT_DR OR LSB_FIRST"
    "stands_for (tap_state j) (run_tap t (clocks (on_jtag j s)))"
  shows "\<exists>pre. map snd (clocks (on_jtag j s')) = map snd (clocks (on_jtag j s)) @ pre
    @ map (bit b0) [0..<4] @ map (bit b1) [0..<8] @ map (bit b2) [0..<8]"
proof -
  obtain r1 j1 s1 where st: "set_state (logged ri) j STATE_SHIFT_DR s = Some (r1, j1, s1)" "\<not> r1 < 0"
    "write_data (logged ri) j1 [b0, b1, b2] 20 flags s1 = Some (20, j', s')"
    using assms(1,3) by (auto simp: jtag_write_def check_rw_def bind_eq_Some_conv split: if_splits)
  obtain pre where j1: "j1 = j\<lparr>tap_state := STATE_SHIFT_DR\<rparr>" "clocks (on_jtag j s1) = clocks (on_jtag j s) @ pre"
    using set_state_wire [OF st(1) assms(2) _ assms(4)] st(2) by (auto simp: requestable_def)
  let ?s = "write_control_register (logged ri) j1 (prescaler_value j1) s1"
  let ?l = "fst (read_control_register (logged ri) j1 ?s)" and ?s2 = "snd (read_control_register (logged ri) j1 ?s)"
  have ok: "jtag_ok j1" "jtag_control_register j1 = jtag_control_register j" using assms(2) j1(1) by (simp_all add: jtag_ok_def)
  from ok(1) have s2: "on_jtag j1 ?s2 = on_jtag j1 s1" by (simp only: jtag_read_wire idle_wire jtag_ok_def not_False_eq_True)
  obtain tms recv s3 recv' where "write_frames (logged ri) j1 flags [b0, b1, b2] tms 20 0 ?l recv ?s2 = Some (True, recv', s3)"
    "s' = write_control_register (logged ri) j1 JTAG_DEFAULT_VALUE s3"
    using st(3) assms(3) by (auto simp: write_data_def Let_def case_prod_beta length_in_bits_def length_in_bytes_def split: if_splits)
  moreover from this(2) have "on_jtag j1 s' = on_jtag j1 s3" by (simp add: idle_wire)
  ultimately have "map snd (clocks (on_jtag j1 s')) = map snd (clocks (on_jtag j1 s1))
      @ map (bit b0) [0..<4] @ map (bit b1) [0..<8] @ map (bit b2) [0..<8]"
    using lsb_frames [of ri j1 flags b0 b1 b2] assms(3) s2 by simp
  with j1(2) show ?thesis unfolding ok(2) by simp
qed

theorem jtag_lsb_first_drops_bits_witness:
  "\<exists>j' s' pre. jtag_write (logged prompt_jtag) new_jtag [0x21, 0x43, 0x65] 20 (LENGTH_IN_BITS OR STATE_SHIFT_DR OR LSB_FIRST) (0, [])
      = Some (20, j', s')
    \<and> map snd (clocks (on_jtag new_jtag s')) = pre @ map (bit (0x21 :: u8)) [0..<4] @ map (bit (0x43 :: u8)) [0..<8] @ map (bit (0x65 :: u8)) [0..<8]"
proof -
  obtain j' s' where w: "jtag_write (logged prompt_jtag) new_jtag [0x21, 0x43, 0x65] 20 (LENGTH_IN_BITS OR STATE_SHIFT_DR OR LSB_FIRST) (0, [])
      = Some (20, j', s')"
    by (simp add: jtag_write_def check_rw_def new_jtag_def jtag_controller_init_def controller_base_init_def
      set_state_def gather_tms_def prompt_shift_frames write_control_register_def read_control_register_def
      write_data_def write_frames.simps length_in_bytes_def length_in_bits_def frame_size_def frame_bytes_def
      byte_at_def frame_tms_def rw_result_def)
  have "jtag_ok new_jtag" "stands_for (tap_state new_jtag) t" for t
    by (simp_all add: new_jtag_def jtag_controller_init_def controller_base_init_def jtag_ok_def stands_for_def)
  from jtag_lsb_first_drops_bits [OF w this(1) refl this(2)] w show ?thesis
    unfolding jtag_wire_of_def by auto
qed


theorem jtag_read_overruns_the_buffer_witness:
  "jtag_read_shot echo_jtag [0] 1
     ((controller_base_init (new_jtag, (0, False)))\<lparr>port :=
        (new_jtag\<lparr>use_bits_length := True, lengths_in_bits := 0x7fffffff,
           jtag_flags := LENGTH_IN_BITS OR STATE_SHIFT_DR OR SEND_ZEROES_ON_READ\<rparr>, (0, False))\<rparr>) = None"
  by (rule jtag_read_overruns_the_buffer [OF echo_jtag_loops_back])
    (simp_all add: new_jtag_def jtag_controller_init_def controller_base_init_def driver_state_def)

section \<open>A device that does not answer\<close>

lemma wait_done_stuck:
  assumes "\<And>a s. fst (ri_read ri a s) = v" "v \<noteq> 0xffffffff"
  shows "wait_done ri j v s = None"
proof -
  have "wait_done ri' j l s = Some y \<Longrightarrow> ri' = ri \<Longrightarrow> l = v \<Longrightarrow> False" for ri' l y
  proof (induction rule: wait_done.raw_induct [rotated, consumes 1])
    case (1 f ri' j l s y)
    have "fst (read_control_register ri' j s) = v" using assms(1) 1(3) by (simp add: read_control_register_def)
    then have "f ri' j l (snd (read_control_register ri' j s)) = Some y"
      using 1(2) assms(2) 1(4) by (simp only: Let_def simp_thms if_True if_False)
    from 1(1) [OF this 1(3,4)] show ?case .
  qed
  from this [OF _ refl refl] show ?thesis by (cases "wait_done ri j v s") auto
qed

text \<open>The JTAG controller waits for the end of a frame without a limit: with a device whose status register does
  not change (and is not all ones), a valid write never returns, and JTAG_ERROR_TIMEOUT is not reported. This is
  a bug.\<close>

theorem jtag_write_has_no_timeout:
  assumes "\<And>a s. fst (ri_read ri a s) = v" "v \<noteq> 0xffffffff" "tap_state j = STATE_INVALID"
    "check_rw len flags = None" "flags AND RAW_MODE = 0"
    "flags AND STATE_MASK = STATE_IDLE \<or> flags AND STATE_MASK = STATE_SHIFT_DR \<or> flags AND STATE_MASK = STATE_SHIFT_IR"
  shows "jtag_write ri j data len flags s = None"
proof -
  have "set_state ri j (flags AND STATE_MASK) s = None"
    using assms(3,6) wait_done_stuck [of ri v, OF assms(1,2)]
    by (auto simp: set_state_def gather_tms_def shift_frame_def read_control_register_def assms(1) case_prod_beta)
  with assms(4,5,6) show ?thesis by (auto simp: jtag_write_def Let_def)
qed

theorem jtag_write_has_no_timeout_witness:
  "jtag_write \<lparr>ri_read = (\<lambda>a s. (0, s)), ri_write = (\<lambda>a x s. s)\<rparr> new_jtag [1] 1 (LENGTH_IN_BYTES OR STATE_IDLE) () = None"
  using jtag_write_has_no_timeout [of "\<lparr>ri_read = (\<lambda>a s. (0, s)), ri_write = (\<lambda>a x s. s)\<rparr>" 0 new_jtag 1 "LENGTH_IN_BYTES OR STATE_IDLE" "[1]" "()"]
  by (simp add: new_jtag_def jtag_controller_init_def controller_base_init_def check_rw_def)

end
