(* ===== verification/I2c.thy ===== *)
theory I2c
  imports Controller_Base Registers Bits
begin

text \<open>
  The I2C master core \<^verbatim>\<open>lib/controllers/i2c_master_core.c\<close> and the bus controllers that share it,
  \<^verbatim>\<open>lib/controllers/i2c_bus_controller.c\<close>. The registers of the core are behind an address, a
  write and a read register. The core and the device are the port of the controller. \<open>patience s\<close>
  is how often a wait that starts in the state \<open>s\<close> of the device finds its timeout not yet elapsed.
  \<open>None\<close> is an access outside the array of banks, or a division by zero.
\<close>

abbreviation STATUS_I2C_NO_ACK :: int where "STATUS_I2C_NO_ACK \<equiv> -100"

abbreviation I2C_PRE_BURST_FLAG_START_CONDITION :: u8 where "I2C_PRE_BURST_FLAG_START_CONDITION \<equiv> 0x01"
abbreviation I2C_POST_BURST_FLAG_STOP_CONDITION :: u8 where "I2C_POST_BURST_FLAG_STOP_CONDITION \<equiv> 0x02"
abbreviation I2C_POST_BURST_FLAG_SEND_NACK :: u8 where "I2C_POST_BURST_FLAG_SEND_NACK \<equiv> 0x04"
abbreviation I2C_BURST_FLAG_WRITE_ENABLE :: u8 where "I2C_BURST_FLAG_WRITE_ENABLE \<equiv> 0x10"

abbreviation I2C_MC_REG_PRESCALE_LOW :: u8 where "I2C_MC_REG_PRESCALE_LOW \<equiv> 0x00"
abbreviation I2C_MC_REG_PRESCALE_HIGH :: u8 where "I2C_MC_REG_PRESCALE_HIGH \<equiv> 0x01"
abbreviation I2C_MC_REG_CONTROL :: u8 where "I2C_MC_REG_CONTROL \<equiv> 0x02"
abbreviation I2C_MC_REG_TRANSMIT :: u8 where "I2C_MC_REG_TRANSMIT \<equiv> 0x03"
abbreviation I2C_MC_REG_RECEIVE :: u8 where "I2C_MC_REG_RECEIVE \<equiv> 0x03"
abbreviation I2C_MC_REG_COMMAND :: u8 where "I2C_MC_REG_COMMAND \<equiv> 0x04"
abbreviation I2C_MC_REG_STATUS :: u8 where "I2C_MC_REG_STATUS \<equiv> 0x04"

abbreviation I2C_COMMAND_NONE :: u8 where "I2C_COMMAND_NONE \<equiv> 0"
abbreviation I2C_COMMAND_START :: u8 where "I2C_COMMAND_START \<equiv> 0x80"
abbreviation I2C_COMMAND_STOP :: u8 where "I2C_COMMAND_STOP \<equiv> 0x40"
abbreviation I2C_COMMAND_READ :: u8 where "I2C_COMMAND_READ \<equiv> 0x20"
abbreviation I2C_COMMAND_WRITE :: u8 where "I2C_COMMAND_WRITE \<equiv> 0x10"
abbreviation I2C_COMMAND_NOT_ACKNOWLEDGE :: u8 where "I2C_COMMAND_NOT_ACKNOWLEDGE \<equiv> 0x08"

abbreviation CORE_CTRL_MASK_ENABLE :: u8 where "CORE_CTRL_MASK_ENABLE \<equiv> 0x80"
abbreviation CORE_CTRL_ENABLED :: u8 where "CORE_CTRL_ENABLED \<equiv> 0x80"
abbreviation CORE_CTRL_DISABLED :: u8 where "CORE_CTRL_DISABLED \<equiv> 0"
abbreviation I2C_MC_STATUS_MASK_ACK_FROM_SLAVE :: u8 where "I2C_MC_STATUS_MASK_ACK_FROM_SLAVE \<equiv> 0x80"
abbreviation I2C_MC_STATUS_MASK_BUS_STATUS :: u8 where "I2C_MC_STATUS_MASK_BUS_STATUS \<equiv> 0x40"
abbreviation I2C_MC_STATUS_BUS_BUSY :: u8 where "I2C_MC_STATUS_BUS_BUSY \<equiv> 0x40"
abbreviation I2C_MC_STATUS_BUS_IDLE :: u8 where "I2C_MC_STATUS_BUS_IDLE \<equiv> 0"
abbreviation I2C_MC_STATUS_MASK_TRANSFER_STATUS :: u8 where "I2C_MC_STATUS_MASK_TRANSFER_STATUS \<equiv> 0x02"
abbreviation I2C_MC_STATUS_TRANSFER_COMPLETE :: u8 where "I2C_MC_STATUS_TRANSFER_COMPLETE \<equiv> 0"
abbreviation I2C_MC_GET_STATUS_FAILED :: u8 where "I2C_MC_GET_STATUS_FAILED \<equiv> 0xff"

text \<open>The active bus is a pointer into the array of the banks: its index.\<close>

record i2c_master_core_bus_cfg =
  bank_number :: u8
  bank_activation_bit :: u8
  write_enable_bit :: u8
  bus_frequency :: u32

record i2c_master_core =
  i2c_ctrl_address_register :: u32
  i2c_ctrl_write_register :: u32
  i2c_ctrl_read_register :: u32
  firmware_clock_frequency :: u32
  num_safety_writes :: u8
  bus_configurations :: "i2c_master_core_bus_cfg list"
  active_bus :: "nat option"

type_synonym 'hw i2c = "(i2c_master_core \<times> 'hw) controller"

definition core_of :: "'hw i2c \<Rightarrow> i2c_master_core" where
  "core_of c = fst (port c)"

definition active_cfg :: "'hw i2c \<Rightarrow> i2c_master_core_bus_cfg option" where
  "active_cfg c = map_option ((!) (bus_configurations (core_of c))) (active_bus (core_of c))"

definition on_hw :: "('hw \<Rightarrow> 'hw) \<Rightarrow> 'hw i2c \<Rightarrow> 'hw i2c" where
  "on_hw f c = c\<lparr>port := map_prod id f (port c)\<rparr>"

section \<open>The registers of the core\<close>

definition safe_write :: "'hw register_interface \<Rightarrow> u32 \<Rightarrow> u8 \<Rightarrow> 'hw i2c \<Rightarrow> 'hw i2c" where
  "safe_write ri address v c =
     on_hw (\<lambda>s. (ri_write ri 0 0 ^^ unat (num_safety_writes (core_of c))) (ri_write ri address (ucast v) s)) c"

definition activate_i2c_core_on_bank :: "'hw register_interface \<Rightarrow> bool \<Rightarrow> 'hw i2c \<Rightarrow> 'hw i2c" where
  "activate_i2c_core_on_bank ri activate c =
     (case active_cfg c of
        None \<Rightarrow> c
      | Some cfg \<Rightarrow>
          if bank_activation_bit cfg \<noteq> 0 then
            on_hw (ri_write ri (i2c_ctrl_address_register (core_of c))
                    (if activate then ucast (bank_activation_bit cfg) else 0)) c
          else c)"

definition additional_control_bits :: "'hw i2c \<Rightarrow> u8" where
  "additional_control_bits c =
     (case active_cfg c of
        None \<Rightarrow> 0
      | Some cfg \<Rightarrow>
          (push_bit 3 (bank_number cfg) OR bank_activation_bit cfg) OR
          (if ctrl_are_burst_flags_set c I2C_BURST_FLAG_WRITE_ENABLE then write_enable_bit cfg else 0))"

definition write_core_register :: "'hw register_interface \<Rightarrow> u8 \<Rightarrow> u8 \<Rightarrow> 'hw i2c \<Rightarrow> 'hw i2c" where
  "write_core_register ri address v c =
     (if address = I2C_MC_REG_TRANSMIT \<and> active_bus (core_of c) = None then c
      else safe_write ri (i2c_ctrl_write_register (core_of c)) v
             (safe_write ri (i2c_ctrl_address_register (core_of c)) (address OR additional_control_bits c) c))"

definition read_core_register :: "'hw register_interface \<Rightarrow> u8 \<Rightarrow> 'hw i2c \<Rightarrow> u8 \<times> 'hw i2c" where
  "read_core_register ri address c =
     (if address = I2C_MC_REG_RECEIVE \<and> active_bus (core_of c) = None then (0xff, c)
      else
        let c1 = safe_write ri (i2c_ctrl_address_register (core_of c)) (address OR additional_control_bits c) c;
            (v, s) = ri_read ri (i2c_ctrl_read_register (core_of c)) (snd (port c1))
        in (ucast v, on_hw (\<lambda>_. s) c1))"

definition modify_rw_register :: "'hw register_interface \<Rightarrow> u8 \<Rightarrow> u8 \<Rightarrow> u8 \<Rightarrow> 'hw i2c \<Rightarrow> 'hw i2c" where
  "modify_rw_register ri address modify_mask modified_bits c =
     (let (v, c1) = read_core_register ri address c
      in write_core_register ri address (modify_bits v modify_mask modified_bits) c1)"

definition get_core_status :: "'hw register_interface \<Rightarrow> 'hw i2c \<Rightarrow> u8 \<times> 'hw i2c" where
  "get_core_status ri c = read_core_register ri I2C_MC_REG_STATUS c"

text \<open>Without an active bus the error code is returned as a truth value.\<close>

definition has_slave_acknowledged :: "'hw register_interface \<Rightarrow> 'hw i2c \<Rightarrow> bool \<times> 'hw i2c" where
  "has_slave_acknowledged ri c =
     (if active_bus (core_of c) = None then (STATUS_ERR_INVALID_STATE \<noteq> 0, c)
      else let (status, c1) = get_core_status ri c
           in (status AND I2C_MC_STATUS_MASK_ACK_FROM_SLAVE = 0, c1))"

definition core_has_status :: "'hw register_interface \<Rightarrow> u8 \<Rightarrow> u8 \<Rightarrow> 'hw i2c \<Rightarrow> bool \<times> 'hw i2c" where
  "core_has_status ri status_mask desired_status c =
     (let (status, c1) = get_core_status ri c in (status AND status_mask = desired_status, c1))"

section \<open>Waiting\<close>

text \<open>The loop reads once, and again as long as the timeout has not elapsed.\<close>

fun poll_core_status :: "'hw register_interface \<Rightarrow> u8 \<Rightarrow> u8 \<Rightarrow> nat \<Rightarrow> 'hw i2c \<Rightarrow> u8 \<times> 'hw i2c" where
  "poll_core_status ri status_mask desired_status 0 c = get_core_status ri c"
| "poll_core_status ri status_mask desired_status (Suc n) c =
     (let (status, c1) = get_core_status ri c
      in if status AND status_mask \<noteq> desired_status then poll_core_status ri status_mask desired_status n c1
         else (status, c1))"

definition wait_for_core_status ::
    "'hw register_interface \<Rightarrow> ('hw \<Rightarrow> nat) \<Rightarrow> u8 \<Rightarrow> u8 \<Rightarrow> 'hw i2c \<Rightarrow> u8 \<times> 'hw i2c" where
  "wait_for_core_status ri patience status_mask desired_status c =
     (let (status, c1) = poll_core_status ri status_mask desired_status (patience (snd (port c))) c
      in (if status AND status_mask \<noteq> desired_status then I2C_MC_GET_STATUS_FAILED else status, c1))"

definition wait_for_transfer_complete ::
    "'hw register_interface \<Rightarrow> ('hw \<Rightarrow> nat) \<Rightarrow> 'hw i2c \<Rightarrow> int \<times> 'hw i2c" where
  "wait_for_transfer_complete ri patience c =
     (if active_bus (core_of c) = None then (STATUS_ERR_INVALID_STATE, c)
      else
        let (status, c1) = wait_for_core_status ri patience
               I2C_MC_STATUS_MASK_TRANSFER_STATUS I2C_MC_STATUS_TRANSFER_COMPLETE c
        in (if status \<noteq> I2C_MC_GET_STATUS_FAILED then STATUS_OK else STATUS_ERROR, c1))"

text \<open>The result of \<^verbatim>\<open>write_stop\<close> is as in the code: OK when the wait has failed.\<close>

definition write_stop :: "'hw register_interface \<Rightarrow> ('hw \<Rightarrow> nat) \<Rightarrow> 'hw i2c \<Rightarrow> int \<times> 'hw i2c" where
  "write_stop ri patience c =
     (if active_bus (core_of c) = None then (STATUS_ERR_INVALID_STATE, c)
      else
        let (status, c1) = wait_for_core_status ri patience I2C_MC_STATUS_MASK_BUS_STATUS I2C_MC_STATUS_BUS_IDLE
               (write_core_register ri I2C_MC_REG_COMMAND I2C_COMMAND_STOP c)
        in (if status = I2C_MC_GET_STATUS_FAILED then STATUS_OK else STATUS_ERROR, c1))"

section \<open>Bytes\<close>

definition write_byte ::
    "'hw register_interface \<Rightarrow> ('hw \<Rightarrow> nat) \<Rightarrow> u8 \<Rightarrow> u8 \<Rightarrow> 'hw i2c \<Rightarrow> int \<times> 'hw i2c" where
  "write_byte ri patience byte cmd c =
     (if active_bus (core_of c) = None then (STATUS_ERR_INVALID_STATE, c)
      else
        let (ret, c1) = wait_for_transfer_complete ri patience
               (write_core_register ri I2C_MC_REG_COMMAND (I2C_COMMAND_WRITE OR cmd)
                 (write_core_register ri I2C_MC_REG_TRANSMIT byte c))
        in if ret < 0 then (STATUS_ERROR, c1)
           else let (ack, c2) = has_slave_acknowledged ri c1
                in (if ack then STATUS_OK else STATUS_I2C_NO_ACK, c2))"

definition read_byte ::
    "'hw register_interface \<Rightarrow> ('hw \<Rightarrow> nat) \<Rightarrow> u8 \<Rightarrow> 'hw i2c \<Rightarrow> (int \<times> u8 option) \<times> 'hw i2c" where
  "read_byte ri patience cmd c =
     (if active_bus (core_of c) = None then ((STATUS_ERR_INVALID_STATE, None), c)
      else
        let (ret, c1) = wait_for_transfer_complete ri patience
               (write_core_register ri I2C_MC_REG_COMMAND (I2C_COMMAND_READ OR cmd) c)
        in if ret < 0 then ((STATUS_ERROR, None), c1)
           else let (v, c2) = read_core_register ri I2C_MC_REG_RECEIVE c1 in ((STATUS_OK, Some v), c2))"

section \<open>The handlers\<close>

definition i2c_handle_begin_transaction :: "'hw register_interface \<Rightarrow> (i2c_master_core \<times> 'hw) handler" where
  "i2c_handle_begin_transaction ri c = Some (STATUS_OK, activate_i2c_core_on_bank ri True c)"

definition i2c_handle_end_transaction :: "'hw register_interface \<Rightarrow> 'hw i2c \<Rightarrow> 'hw i2c" where
  "i2c_handle_end_transaction ri c = activate_i2c_core_on_bank ri False c"

definition i2c_write_cmd :: "'hw i2c \<Rightarrow> u8" where
  "i2c_write_cmd c =
     (if is_first_shot c \<and> ctrl_are_burst_flags_set c I2C_PRE_BURST_FLAG_START_CONDITION
      then I2C_COMMAND_START else I2C_COMMAND_NONE) OR
     (if is_last_shot c \<and> ctrl_are_burst_flags_set c I2C_POST_BURST_FLAG_STOP_CONDITION
      then I2C_COMMAND_STOP else I2C_COMMAND_NONE)"

definition i2c_write_shot ::
    "'hw register_interface \<Rightarrow> ('hw \<Rightarrow> nat) \<Rightarrow> u8 list \<Rightarrow> (i2c_master_core \<times> 'hw) handler" where
  "i2c_write_shot ri patience buf c =
     (case buf of
        [byte] \<Rightarrow> Some (write_byte ri patience byte (i2c_write_cmd c) c)
      | _ \<Rightarrow> Some (STATUS_ERR_INVALID_OPERATION, c))"

definition i2c_request_read :: "nat \<Rightarrow> (i2c_master_core \<times> 'hw) handler" where
  "i2c_request_read num_bytes c =
     Some (if num_bytes \<noteq> 1 then STATUS_ERR_INVALID_OPERATION else STATUS_OK, c)"

definition i2c_read_cmd :: "'hw i2c \<Rightarrow> u8" where
  "i2c_read_cmd c =
     (if is_last_shot c then
        (if ctrl_are_burst_flags_set c I2C_POST_BURST_FLAG_SEND_NACK
         then I2C_COMMAND_NOT_ACKNOWLEDGE else I2C_COMMAND_NONE) OR
        (if ctrl_are_burst_flags_set c I2C_POST_BURST_FLAG_STOP_CONDITION
         then I2C_COMMAND_STOP else I2C_COMMAND_NONE)
      else I2C_COMMAND_NONE)"

definition i2c_read_shot ::
    "'hw register_interface \<Rightarrow> ('hw \<Rightarrow> nat) \<Rightarrow> nat \<Rightarrow> 'hw i2c \<Rightarrow> ((int \<times> u8 list) \<times> 'hw i2c) option" where
  "i2c_read_shot ri patience num_bytes c =
     (if num_bytes \<noteq> 1 then Some ((STATUS_ERR_INVALID_OPERATION, []), c)
      else
        let ((ret, out), c1) = read_byte ri patience (i2c_read_cmd c) c
        in if ret < 0 then Some ((STATUS_ERROR, []), c1)
           else Some ((STATUS_OK, case out of None \<Rightarrow> [] | Some v \<Rightarrow> [v]), c1))"

definition i2c_burst_aborted :: "'hw register_interface \<Rightarrow> ('hw \<Rightarrow> nat) \<Rightarrow> 'hw i2c \<Rightarrow> 'hw i2c" where
  "i2c_burst_aborted ri patience c = activate_i2c_core_on_bank ri False (snd (write_stop ri patience c))"

section \<open>Enabling the core and selecting a bank\<close>

definition is_bus_busy :: "'hw register_interface \<Rightarrow> 'hw i2c \<Rightarrow> bool \<times> 'hw i2c" where
  "is_bus_busy ri c = core_has_status ri I2C_MC_STATUS_MASK_BUS_STATUS I2C_MC_STATUS_BUS_BUSY c"

definition is_core_enabled :: "'hw register_interface \<Rightarrow> 'hw i2c \<Rightarrow> bool \<times> 'hw i2c" where
  "is_core_enabled ri c =
     (let (ctrl, c1) = read_core_register ri I2C_MC_REG_CONTROL c
      in (ctrl AND CORE_CTRL_MASK_ENABLE = CORE_CTRL_ENABLED, c1))"

definition stop_transfer_if_busy :: "'hw register_interface \<Rightarrow> ('hw \<Rightarrow> nat) \<Rightarrow> 'hw i2c \<Rightarrow> int \<times> 'hw i2c" where
  "stop_transfer_if_busy ri patience c =
     (let (busy, c1) = is_bus_busy ri c
      in if busy then
           let (ret, c2) = write_stop ri patience c1 in (if ret < 0 then STATUS_ERROR else STATUS_OK, c2)
         else (STATUS_OK, c1))"

definition enable_core :: "'hw register_interface \<Rightarrow> ('hw \<Rightarrow> nat) \<Rightarrow> 'hw i2c \<Rightarrow> int \<times> 'hw i2c" where
  "enable_core ri patience c =
     (let (enabled, c1) = is_core_enabled ri c
      in stop_transfer_if_busy ri patience
           (if \<not> enabled then modify_rw_register ri I2C_MC_REG_CONTROL CORE_CTRL_MASK_ENABLE CORE_CTRL_ENABLED c1
            else c1))"

definition disable_core :: "'hw register_interface \<Rightarrow> ('hw \<Rightarrow> nat) \<Rightarrow> 'hw i2c \<Rightarrow> int \<times> 'hw i2c" where
  "disable_core ri patience c =
     (let (enabled, c1) = is_core_enabled ri c
      in (STATUS_OK,
          if enabled then
            modify_rw_register ri I2C_MC_REG_CONTROL CORE_CTRL_MASK_ENABLE CORE_CTRL_DISABLED
              (snd (stop_transfer_if_busy ri patience c1))
          else c1))"

definition adjust_core_frequency :: "'hw register_interface \<Rightarrow> u32 \<Rightarrow> (i2c_master_core \<times> 'hw) handler" where
  "adjust_core_frequency ri bus_freq c =
     (if active_bus (core_of c) = None then Some (STATUS_ERR_INVALID_STATE, c)
      else if 5 * bus_freq = 0 then None
      else
        let core_freq = firmware_clock_frequency (core_of c) div (5 * bus_freq) - 1
        in if core_freq \<ge> 0x10000 then Some (STATUS_ERR_INVALID_ARGUMENT, c)
           else
             let c1 = write_core_register ri I2C_MC_REG_PRESCALE_LOW (ucast (core_freq AND 0xff)) c;
                 c2 = write_core_register ri I2C_MC_REG_PRESCALE_HIGH (ucast (drop_bit 8 core_freq AND 0xff)) c1;
                 (low, c3) = read_core_register ri I2C_MC_REG_PRESCALE_LOW c2;
                 (high, c4) = read_core_register ri I2C_MC_REG_PRESCALE_HIGH c3;
                 new_core_freq = ucast low OR push_bit 8 (ucast high) :: u32
             in Some (if new_core_freq = core_freq then STATUS_OK else STATUS_ERROR, c4))"

definition activate_bank ::
    "'hw register_interface \<Rightarrow> ('hw \<Rightarrow> nat) \<Rightarrow> u8 \<Rightarrow> 'hw i2c \<Rightarrow> 'hw i2c option" where
  "activate_bank ri patience bank c =
     (let n = unat bank
      in if n \<ge> length (bus_configurations (core_of c)) then None
         else
           let cfg = bus_configurations (core_of c) ! n
           in if bus_frequency cfg = 0 then Some c
              else if active_bus (core_of c) \<noteq> Some n then
                let c1 = snd (disable_core ri patience c);
                    c2 = c1\<lparr>port := map_prod (\<lambda>self. self\<lparr>active_bus := Some n\<rparr>) id (port c1)\<rparr>
                in map_option (\<lambda>(_, c3). snd (enable_core ri patience c3)) (adjust_core_frequency ri (bus_frequency cfg) c2)
              else Some c)"

definition i2c_cleanup :: "'hw register_interface \<Rightarrow> ('hw \<Rightarrow> nat) \<Rightarrow> 'hw i2c \<Rightarrow> 'hw i2c" where
  "i2c_cleanup ri patience c = snd (disable_core ri patience c)"

section \<open>The controller and its buses\<close>

definition i2c_ops :: "'hw register_interface \<Rightarrow> ('hw \<Rightarrow> nat) \<Rightarrow> (i2c_master_core \<times> 'hw) controller_ops" where
  "i2c_ops ri patience = \<lparr>
     handle_begin_transaction = Some (i2c_handle_begin_transaction ri),
     handle_end_transaction = Some (i2c_handle_end_transaction ri),
     handle_pre_burst_flags = (\<lambda>flags c. Some (STATUS_OK, c)),
     handle_post_burst_flags = (\<lambda>flags c. Some (STATUS_OK, c)),
     write_shot = i2c_write_shot ri patience,
     request_read = i2c_request_read,
     read_shot = i2c_read_shot ri patience,
     execute_command = controller_base_execute_command_not_supported,
     wait_for_write_queue_empty = (\<lambda>c. Some (STATUS_OK, c)),
     burst_aborted = i2c_burst_aborted ri patience,
     cleanup = i2c_cleanup ri patience,
     read_queue_size = 1,
     max_bytes_per_read = 1,
     write_queue_size = 1,
     max_bytes_per_write = 1\<rparr>"

definition i2c_master_core_init ::
    "'hw register_interface \<Rightarrow> ('hw \<Rightarrow> nat) \<Rightarrow> u32 \<Rightarrow> u32 \<Rightarrow> u32 \<Rightarrow> u32 \<Rightarrow> u32 \<Rightarrow> 'hw \<Rightarrow> int \<times> 'hw i2c" where
  "i2c_master_core_init ri patience address_reg write_reg read_reg fw_clock safety_writes s =
     (let self = \<lparr>i2c_ctrl_address_register = address_reg, i2c_ctrl_write_register = write_reg,
            i2c_ctrl_read_register = read_reg, firmware_clock_frequency = fw_clock,
            num_safety_writes = ucast safety_writes,
            bus_configurations = replicate 8 \<lparr>bank_number = 0, bank_activation_bit = 0, write_enable_bit = 0, bus_frequency = 0\<rparr>,
            active_bus = None\<rparr>;
          (ret, c) = enable_core ri patience
            (snd (read_core_register ri I2C_MC_REG_CONTROL (controller_base_init (self, s))))
      in (if ret < 0 then ret else STATUS_OK, c))"

definition i2c_master_core_configure_bus ::
    "u8 \<Rightarrow> u8 \<Rightarrow> u8 \<Rightarrow> u32 \<Rightarrow> 'hw i2c \<Rightarrow> int \<times> 'hw i2c" where
  "i2c_master_core_configure_bus bank activation wr_enable bus_freq c =
     (if bank \<ge> 8 then (STATUS_ERR_INVALID_ARGUMENT, c)
      else
        let cfg = \<lparr>bank_number = bank, bank_activation_bit = activation, write_enable_bit = wr_enable, bus_frequency = bus_freq\<rparr>;
            set_cfg = (\<lambda>self. self\<lparr>bus_configurations := (bus_configurations self)[unat bank := cfg]\<rparr>)
        in (STATUS_OK, c\<lparr>port := map_prod set_cfg id (port c)\<rparr>))"

text \<open>A bus controller is the number of its bank; everything but the transactions goes to the core.\<close>

definition i2c_bus_controller_init :: "u8 \<Rightarrow> u8 option" where
  "i2c_bus_controller_init bank = (if bank > 7 then None else Some bank)"

definition i2c_begin_transaction ::
    "'hw register_interface \<Rightarrow> ('hw \<Rightarrow> nat) \<Rightarrow> u8 \<Rightarrow> (i2c_master_core \<times> 'hw) handler" where
  "i2c_begin_transaction ri patience bank c =
     Option.bind (activate_bank ri patience bank c) (ctrl_begin_transaction (i2c_ops ri patience))"

definition i2c_end_transaction :: "'hw register_interface \<Rightarrow> ('hw \<Rightarrow> nat) \<Rightarrow> 'hw i2c \<Rightarrow> 'hw i2c" where
  "i2c_end_transaction ri patience c = ctrl_end_transaction (i2c_ops ri patience) c"

definition i2c_write_burst ::
    "'hw register_interface \<Rightarrow> ('hw \<Rightarrow> nat) \<Rightarrow> u32 \<Rightarrow> u8 list \<Rightarrow> (i2c_master_core \<times> 'hw) handler" where
  "i2c_write_burst ri patience flags buf c = ctrl_write_burst (i2c_ops ri patience) flags buf c"

definition i2c_read_burst ::
    "'hw register_interface \<Rightarrow> ('hw \<Rightarrow> nat) \<Rightarrow> u32 \<Rightarrow> nat \<Rightarrow> 'hw i2c \<Rightarrow> (int \<times> u8 list \<times> 'hw i2c) option" where
  "i2c_read_burst ri patience flags n c = ctrl_read_burst (i2c_ops ri patience) flags n c"

definition i2c_state_change_burst ::
    "'hw register_interface \<Rightarrow> ('hw \<Rightarrow> nat) \<Rightarrow> u32 \<Rightarrow> (i2c_master_core \<times> 'hw) handler" where
  "i2c_state_change_burst ri patience flags c = ctrl_state_change_burst (i2c_ops ri patience) flags c"

definition i2c_destroy :: "'hw register_interface \<Rightarrow> ('hw \<Rightarrow> nat) \<Rightarrow> 'hw i2c \<Rightarrow> 'hw i2c" where
  "i2c_destroy ri patience c = ctrl_destroy (i2c_ops ri patience) c"

end
