(* ===== verification/I2c_Props.thy ===== *)
theory I2c_Props
  imports I2c
begin

text \<open>
  What the I2C master core does on the bus, read from the accesses to its registers: which
  conditions and bytes it is told to put there, and which bytes are taken from it.
\<close>

section \<open>The commands to the core\<close>

datatype i2c_event = I2C_Start | I2C_Write u8 | I2C_Read bool | I2C_Stop

record i2c_wire =
  selected :: u8
  transmit :: u8
  prescale :: "u8 \<times> u8"
  events :: "i2c_event list"
  received :: "u8 list"

definition cmd_events :: "u8 \<Rightarrow> u8 \<Rightarrow> i2c_event list" where
  "cmd_events cmd t =
     (if bit cmd 7 then [I2C_Start] else []) @ (if bit cmd 4 then [I2C_Write t] else []) @
     (if bit cmd 5 then [I2C_Read (bit cmd 3)] else []) @ (if bit cmd 6 then [I2C_Stop] else [])"

definition core_write :: "u8 \<Rightarrow> i2c_wire \<Rightarrow> i2c_wire" where
  "core_write x w =
     (if selected w = I2C_MC_REG_PRESCALE_LOW then w\<lparr>prescale := (x, snd (prescale w))\<rparr>
      else if selected w = I2C_MC_REG_PRESCALE_HIGH then w\<lparr>prescale := (fst (prescale w), x)\<rparr>
      else if selected w = I2C_MC_REG_TRANSMIT then w\<lparr>transmit := x\<rparr>
      else if selected w = I2C_MC_REG_COMMAND then w\<lparr>events := events w @ cmd_events x (transmit w)\<rparr>
      else w)"

fun i2c_step :: "i2c_master_core \<Rightarrow> bus_event \<Rightarrow> i2c_wire \<Rightarrow> i2c_wire" where
  "i2c_step self (Wr a x) w =
     (if a = i2c_ctrl_address_register self then w\<lparr>selected := ucast x AND 7\<rparr>
      else if a = i2c_ctrl_write_register self then core_write (ucast x) w
      else w)"
| "i2c_step self (Rd a x) w =
     (if a = i2c_ctrl_read_register self \<and> selected w = I2C_MC_REG_RECEIVE
      then w\<lparr>received := received w @ [ucast x]\<rparr> else w)"

definition i2c_wire_of :: "i2c_master_core \<Rightarrow> bus_event list \<Rightarrow> i2c_wire" where
  "i2c_wire_of self log =
     fold (i2c_step self) log \<lparr>selected = 0, transmit = 0, prescale = (0, 0), events = [], received = []\<rparr>"

lemma i2c_wire_of_append [simp]:
  "i2c_wire_of self (log @ es) = fold (i2c_step self) es (i2c_wire_of self log)"
  by (simp add: i2c_wire_of_def)

text \<open>The wiring: three different registers, none of them the one that is written to gain time, and banks
  whose bits leave the address of the core's registers free.\<close>

definition i2c_ok :: "i2c_master_core \<Rightarrow> bool" where
  "i2c_ok self \<longleftrightarrow>
     i2c_ctrl_address_register self \<noteq> 0 \<and> i2c_ctrl_write_register self \<noteq> 0
     \<and> i2c_ctrl_address_register self \<noteq> i2c_ctrl_write_register self
     \<and> (\<forall>cfg \<in> set (bus_configurations self). bank_activation_bit cfg AND 7 = 0 \<and> write_enable_bit cfg AND 7 = 0)
     \<and> (case active_bus self of None \<Rightarrow> True | Some n \<Rightarrow> n < length (bus_configurations self))"

type_synonym 'hw logged_i2c = "('hw \<times> bus_event list) i2c"

definition on_i2c :: "'hw logged_i2c \<Rightarrow> i2c_wire" where
  "on_i2c c = i2c_wire_of (core_of c) (snd (snd (port c)))"

lemma on_hw_simps [simp]:
  "core_of (on_hw f c) = core_of c" "current_burst_flags (on_hw f c) = current_burst_flags c"
  "is_first_shot (on_hw f c) = is_first_shot c" "is_last_shot (on_hw f c) = is_last_shot c"
  "snd (port (on_hw f c)) = f (snd (port c))" "on_hw f (on_hw g c) = on_hw (\<lambda>s. f (g s)) c"
  by (simp_all add: on_hw_def core_of_def map_prod_def case_prod_beta)

lemma active_cfg_on_hw [simp]: "active_cfg (on_hw f c) = active_cfg c"
  by (simp add: active_cfg_def)

lemma control_bits_on_hw [simp]: "additional_control_bits (on_hw f c) = additional_control_bits c"
  by (auto simp: additional_control_bits_def ctrl_are_burst_flags_set_def split: option.splits)

lemma safe_write_simps [simp]:
  "core_of (safe_write ri a v c) = core_of c" "additional_control_bits (safe_write ri a v c) = additional_control_bits c"
  by (simp_all add: safe_write_def)

lemma delay_log: "snd ((ri_write (logged ri) 0 0 ^^ n) s) = snd s @ replicate n (Wr 0 0)"
  by (induction n) (simp_all add: replicate_append_same)

lemma delay_ignored: "i2c_ok self \<Longrightarrow> (i2c_step self (Wr 0 0) ^^ n) w = w"
  by (induction n) (auto simp: i2c_ok_def)

lemma safe_write_wire:
  "i2c_ok (core_of c) \<Longrightarrow> on_i2c (safe_write (logged ri) a v c) = i2c_step (core_of c) (Wr a (ucast v)) (on_i2c c)"
  by (simp add: on_i2c_def safe_write_def delay_log delay_ignored del: i2c_step.simps)

lemma no_low_bits:
  assumes "i2c_ok (core_of c)"
  shows "additional_control_bits c AND 7 = 0"
proof (cases "active_cfg c")
  case None
  then show ?thesis by (simp add: additional_control_bits_def)
next
  case (Some cfg)
  then have "cfg \<in> set (bus_configurations (core_of c))" using assms
    by (auto simp: active_cfg_def i2c_ok_def split: option.splits)
  then have "bank_activation_bit cfg AND 7 = 0" "write_enable_bit cfg AND 7 = 0" using assms by (auto simp: i2c_ok_def)
  moreover have "push_bit 3 (bank_number cfg) AND 7 = 0"
  proof -
    have "push_bit 3 (bank_number cfg) AND 7 = take_bit 3 (push_bit 3 (bank_number cfg))"
      by (simp add: take_bit_eq_mask mask_numeral)
    then show ?thesis by (simp add: take_bit_push_bit)
  qed
  ultimately show ?thesis using Some by (simp add: additional_control_bits_def bit.conj_disj_distrib2)
qed

lemma select_register:
  assumes "i2c_ok (core_of c)" "r AND 7 = r"
  shows "(r OR additional_control_bits c) AND 7 = r"
  using no_low_bits [OF assms(1)] assms(2) by (simp add: bit.conj_disj_distrib2)

lemma ucast_back [simp]: "(ucast (ucast x :: u32) :: u8) = x" for x :: u8
  by (rule bit_word_eqI) (auto simp: bit_ucast_iff)

text \<open>What the operations do to the bus: \<open>did es bs\<close> means that nothing but the device has changed, and the
  bus has seen the events \<open>es\<close> and given the bytes \<open>bs\<close>.\<close>

definition only_hw :: "'hw i2c \<Rightarrow> 'hw i2c \<Rightarrow> bool" where
  "only_hw c c' \<longleftrightarrow> c' = on_hw (\<lambda>_. snd (port c')) c"

lemma only_hw_on_hw [simp]: "only_hw c (on_hw f c)"
  by (simp add: only_hw_def on_hw_def map_prod_def case_prod_beta)

lemma only_hw_refl [simp]: "only_hw c c"
  by (simp add: only_hw_def on_hw_def map_prod_def case_prod_beta)

lemma only_hw_trans [trans]: "only_hw c c' \<Longrightarrow> only_hw c' c'' \<Longrightarrow> only_hw c c''"
proof -
  assume c: "only_hw c c'" "only_hw c' c''"
  have "c'' = on_hw (\<lambda>_. snd (port c'')) (on_hw (\<lambda>_. snd (port c')) c)" using c by (simp only: only_hw_def)
  then show ?thesis unfolding only_hw_def by (simp only: on_hw_simps(6))
qed

lemma only_hw_keeps:
  assumes "only_hw c c'"
  shows "core_of c' = core_of c" "current_burst_flags c' = current_burst_flags c"
    "is_first_shot c' = is_first_shot c" "is_last_shot c' = is_last_shot c"
    "additional_control_bits c' = additional_control_bits c" "active_cfg c' = active_cfg c"
proof -
  have c': "c' = on_hw (\<lambda>_. snd (port c')) c" using assms by (simp only: only_hw_def)
  show "core_of c' = core_of c" "current_burst_flags c' = current_burst_flags c"
    "is_first_shot c' = is_first_shot c" "is_last_shot c' = is_last_shot c"
    "additional_control_bits c' = additional_control_bits c" "active_cfg c' = active_cfg c"
    by (subst c', simp only: on_hw_simps active_cfg_on_hw control_bits_on_hw)+
qed

definition did :: "i2c_event list \<Rightarrow> u8 list \<Rightarrow> 'hw logged_i2c \<Rightarrow> 'hw logged_i2c \<Rightarrow> bool" where
  "did es bs c c' \<longleftrightarrow> only_hw c c'
     \<and> events (on_i2c c') = events (on_i2c c) @ es \<and> received (on_i2c c') = received (on_i2c c) @ bs
     \<and> prescale (on_i2c c') = prescale (on_i2c c)"

lemma did_trans: "did es bs c c' \<Longrightarrow> did es' bs' c' c'' \<Longrightarrow> did (es @ es') (bs @ bs') c c''"
  by (auto simp: did_def intro: only_hw_trans)

lemma did_nothing [simp]: "did [] [] c c"
  by (simp add: did_def)

lemma did_keeps: "did es bs c c' \<Longrightarrow> only_hw c c'"
  by (simp add: did_def)

lemma safe_write_only_hw [simp]: "only_hw c (safe_write ri a v c)"
  by (simp add: safe_write_def)

lemma write_core_register_only_hw: "only_hw c (write_core_register ri a v c)"
  unfolding write_core_register_def by (auto intro: only_hw_trans [OF safe_write_only_hw safe_write_only_hw])

text \<open>The effect of one access to a register of the core.\<close>

lemma write_core_register_wire:
  assumes "i2c_ok (core_of c)" "a AND 7 = a" "a = I2C_MC_REG_TRANSMIT \<longrightarrow> active_bus (core_of c) \<noteq> None"
  shows "on_i2c (write_core_register (logged ri) a v c) = core_write v ((on_i2c c)\<lparr>selected := a\<rparr>)"
proof -
  have "i2c_ctrl_address_register (core_of c) \<noteq> i2c_ctrl_write_register (core_of c)"
    using assms(1) by (simp add: i2c_ok_def)
  with assms(3) show ?thesis
    by (auto simp: write_core_register_def safe_write_wire assms(1) select_register [OF assms(1,2)])
qed

lemma read_core_register_did:
  assumes "i2c_ok (core_of c)" "a AND 7 = a"
  shows "did [] (if a = I2C_MC_REG_RECEIVE \<and> active_bus (core_of c) \<noteq> None
      then [fst (read_core_register (logged ri) a c)] else []) c (snd (read_core_register (logged ri) a c))"
proof (cases "a = I2C_MC_REG_RECEIVE \<and> active_bus (core_of c) = None")
  case True
  then show ?thesis by (simp add: read_core_register_def)
next
  case False
  let ?c1 = "safe_write (logged ri) (i2c_ctrl_address_register (core_of c)) (a OR additional_control_bits c) c"
  have w: "on_i2c ?c1 = (on_i2c c)\<lparr>selected := a\<rparr>"
    by (simp add: safe_write_wire assms(1) select_register [OF assms])
  let ?r = "i2c_ctrl_read_register (core_of c)" and ?h = "fst (snd (port ?c1))"
  let ?s = "(snd (ri_read ri ?r ?h), snd (snd (port ?c1)) @ [Rd ?r (fst (ri_read ri ?r ?h))])"
  have r: "read_core_register (logged ri) a c = (ucast (fst (ri_read ri ?r ?h)), on_hw (\<lambda>_. ?s) ?c1)"
    unfolding read_core_register_def if_not_P [OF False] Let_def case_prod_beta by simp
  have "on_i2c (on_hw (\<lambda>_. ?s) ?c1) = i2c_step (core_of c) (Rd ?r (fst (ri_read ri ?r ?h))) (on_i2c ?c1)"
    by (simp add: on_i2c_def del: i2c_step.simps)
  moreover have "only_hw c (on_hw (\<lambda>_. ?s) ?c1)" by (rule only_hw_trans [of _ ?c1]) simp_all
  ultimately show ?thesis using False w unfolding r by (auto simp: did_def)
qed

section \<open>Bytes\<close>

definition ready :: "'hw i2c \<Rightarrow> bool" where
  "ready c \<longleftrightarrow> i2c_ok (core_of c) \<and> active_bus (core_of c) \<noteq> None"

lemma ready_only_hw: "ready c \<Longrightarrow> only_hw c c' \<Longrightarrow> ready c'"
  by (simp add: ready_def only_hw_keeps)

lemma status_did:
  "i2c_ok (core_of c) \<Longrightarrow> did [] [] c (snd (get_core_status (logged ri) c))"
  using read_core_register_did [of c I2C_MC_REG_STATUS ri] by (simp add: get_core_status_def)

lemma poll_did:
  "i2c_ok (core_of c) \<Longrightarrow> did [] [] c (snd (poll_core_status (logged ri) m d n c))"
proof (induction n arbitrary: c)
  case (Suc n)
  have "did [] [] c (snd (get_core_status (logged ri) c))" by (rule status_did [OF Suc.prems])
  moreover from this have "did [] [] (snd (get_core_status (logged ri) c))
      (snd (poll_core_status (logged ri) m d n (snd (get_core_status (logged ri) c))))"
    using Suc only_hw_keeps(1) [OF did_keeps] by metis
  ultimately show ?case using did_trans [of "[]" "[]" _ _ "[]" "[]"] by (auto simp: Let_def case_prod_beta)
qed (simp add: status_did)

lemma wait_did:
  "i2c_ok (core_of c) \<Longrightarrow> did [] [] c (snd (wait_for_core_status (logged ri) pat m d c))"
  by (simp add: wait_for_core_status_def Let_def case_prod_beta poll_did)

lemma transfer_did:
  "i2c_ok (core_of c) \<Longrightarrow> did [] [] c (snd (wait_for_transfer_complete (logged ri) pat c))"
  by (simp add: wait_for_transfer_complete_def Let_def case_prod_beta wait_did)

lemma ack_did: "i2c_ok (core_of c) \<Longrightarrow> did [] [] c (snd (has_slave_acknowledged (logged ri) c))"
  by (simp add: has_slave_acknowledged_def Let_def case_prod_beta status_did)

lemma command_did:
  assumes "ready c"
  shows "did (cmd_events cmd (transmit (on_i2c c))) [] c (write_core_register (logged ri) I2C_MC_REG_COMMAND cmd c)"
  using assms by (simp add: did_def write_core_register_only_hw write_core_register_wire ready_def core_write_def)

lemma transmit_did:
  assumes "ready c"
  shows "did [] [] c (write_core_register (logged ri) I2C_MC_REG_TRANSMIT b c)
    \<and> transmit (on_i2c (write_core_register (logged ri) I2C_MC_REG_TRANSMIT b c)) = b"
  using assms by (simp add: did_def write_core_register_only_hw write_core_register_wire ready_def core_write_def)

lemma write_byte_did:
  assumes "ready c"
  shows "did (cmd_events (I2C_COMMAND_WRITE OR cmd) b) [] c (snd (write_byte (logged ri) pat b cmd c))"
proof -
  let ?c1 = "write_core_register (logged ri) I2C_MC_REG_TRANSMIT b c"
  let ?c2 = "write_core_register (logged ri) I2C_MC_REG_COMMAND (I2C_COMMAND_WRITE OR cmd) ?c1"
  let ?c3 = "snd (wait_for_transfer_complete (logged ri) pat ?c2)"
  note t = transmit_did [OF assms, of ri b]
  have "ready ?c1" using ready_only_hw [OF assms did_keeps] t by blast
  from command_did [OF this] t have 2: "did (cmd_events (I2C_COMMAND_WRITE OR cmd) b) [] c ?c2"
    using did_trans [of "[]" "[]" c ?c1] by fastforce
  then have ok2: "i2c_ok (core_of ?c2)" using ready_only_hw [OF assms did_keeps] by (auto simp: ready_def)
  from did_trans [OF 2 transfer_did [OF this]] have 3: "did (cmd_events (I2C_COMMAND_WRITE OR cmd) b) [] c ?c3" by simp
  then have "i2c_ok (core_of ?c3)" using ready_only_hw [OF assms did_keeps] by (auto simp: ready_def)
  from did_trans [OF 3 ack_did [OF this]] have
    "did (cmd_events (I2C_COMMAND_WRITE OR cmd) b) [] c (snd (has_slave_acknowledged (logged ri) ?c3))" by simp
  with 3 show ?thesis using assms by (auto simp: write_byte_def ready_def Let_def case_prod_beta)
qed

lemma read_byte_did:
  assumes "ready c" "read_byte (logged ri) pat cmd c = ((r, out), c')"
  shows "did (cmd_events (I2C_COMMAND_READ OR cmd) (transmit (on_i2c c))) (case out of None \<Rightarrow> [] | Some v \<Rightarrow> [v]) c c'
    \<and> (r = STATUS_OK \<and> out \<noteq> None \<or> r = STATUS_ERROR \<and> out = None)"
proof -
  let ?es = "cmd_events (I2C_COMMAND_READ OR cmd) (transmit (on_i2c c))"
  let ?c2 = "write_core_register (logged ri) I2C_MC_REG_COMMAND (I2C_COMMAND_READ OR cmd) c"
  let ?c3 = "snd (wait_for_transfer_complete (logged ri) pat ?c2)"
  have 2: "did ?es [] c ?c2" by (rule command_did [OF assms(1)])
  then have "ready ?c2" using ready_only_hw [OF assms(1) did_keeps] by blast
  then have "i2c_ok (core_of ?c2)" by (simp add: ready_def)
  from did_trans [OF 2 transfer_did [OF this]] have 3: "did ?es [] c ?c3" by simp
  then have r3: "ready ?c3" using ready_only_hw [OF assms(1) did_keeps] by blast
  then have "did [] [fst (read_core_register (logged ri) I2C_MC_REG_RECEIVE ?c3)] ?c3
      (snd (read_core_register (logged ri) I2C_MC_REG_RECEIVE ?c3))"
    using read_core_register_did [of ?c3 I2C_MC_REG_RECEIVE ri] by (simp add: ready_def)
  from did_trans [OF 3 this] 3 show ?thesis
    using assms by (auto simp: read_byte_def ready_def Let_def case_prod_beta split: if_splits)
qed

section \<open>Bursts\<close>

text \<open>The conditions around a shot.\<close>

definition start_of :: "u8 \<Rightarrow> i2c_event list" where
  "start_of fl = (if fl AND I2C_PRE_BURST_FLAG_START_CONDITION \<noteq> 0 then [I2C_Start] else [])"

definition stop_of :: "u8 \<Rightarrow> i2c_event list" where
  "stop_of fl = (if fl AND I2C_POST_BURST_FLAG_STOP_CONDITION \<noteq> 0 then [I2C_Stop] else [])"

definition nack_of :: "u8 \<Rightarrow> bool" where
  "nack_of fl \<longleftrightarrow> fl AND I2C_POST_BURST_FLAG_SEND_NACK \<noteq> 0"

lemma one_flag:
  "fl AND I2C_PRE_BURST_FLAG_START_CONDITION = I2C_PRE_BURST_FLAG_START_CONDITION \<longleftrightarrow> fl AND I2C_PRE_BURST_FLAG_START_CONDITION \<noteq> 0"
  "fl AND I2C_POST_BURST_FLAG_STOP_CONDITION = I2C_POST_BURST_FLAG_STOP_CONDITION \<longleftrightarrow> fl AND I2C_POST_BURST_FLAG_STOP_CONDITION \<noteq> 0"
  "fl AND I2C_POST_BURST_FLAG_SEND_NACK = I2C_POST_BURST_FLAG_SEND_NACK \<longleftrightarrow> fl AND I2C_POST_BURST_FLAG_SEND_NACK \<noteq> 0"
proof -
  have "fl AND push_bit n 1 = (if bit fl n then push_bit n 1 else 0)" for n
    by (rule bit_word_eqI) (auto simp: bit_and_iff bit_exp_iff)
  from this [of 0] this [of 1] this [of 2] show
    "fl AND I2C_PRE_BURST_FLAG_START_CONDITION = I2C_PRE_BURST_FLAG_START_CONDITION \<longleftrightarrow> fl AND I2C_PRE_BURST_FLAG_START_CONDITION \<noteq> 0"
    "fl AND I2C_POST_BURST_FLAG_STOP_CONDITION = I2C_POST_BURST_FLAG_STOP_CONDITION \<longleftrightarrow> fl AND I2C_POST_BURST_FLAG_STOP_CONDITION \<noteq> 0"
    "fl AND I2C_POST_BURST_FLAG_SEND_NACK = I2C_POST_BURST_FLAG_SEND_NACK \<longleftrightarrow> fl AND I2C_POST_BURST_FLAG_SEND_NACK \<noteq> 0"
    by (auto split: if_splits)
qed

lemma write_cmd_events:
  "cmd_events (I2C_COMMAND_WRITE OR i2c_write_cmd c) b =
    (if is_first_shot c then start_of (current_burst_flags c) else []) @ [I2C_Write b] @
    (if is_last_shot c then stop_of (current_burst_flags c) else [])"
  by (simp add: cmd_events_def i2c_write_cmd_def start_of_def stop_of_def ctrl_are_burst_flags_set_def one_flag)

lemma read_cmd_events:
  "cmd_events (I2C_COMMAND_READ OR i2c_read_cmd c) t =
    [I2C_Read (is_last_shot c \<and> nack_of (current_burst_flags c))] @
    (if is_last_shot c then stop_of (current_burst_flags c) else [])"
  by (simp add: cmd_events_def i2c_read_cmd_def nack_of_def stop_of_def ctrl_are_burst_flags_set_def one_flag)

lemma stop_events: "cmd_events I2C_COMMAND_STOP t = [I2C_Stop]"
  by (simp add: cmd_events_def)

text \<open>As \<open>did\<close>, but the marks of the first and the last shot may have changed.\<close>

definition bus_did :: "i2c_event list \<Rightarrow> u8 list \<Rightarrow> 'hw logged_i2c \<Rightarrow> 'hw logged_i2c \<Rightarrow> bool" where
  "bus_did es bs c c' \<longleftrightarrow> core_of c' = core_of c \<and> current_burst_flags c' = current_burst_flags c
     \<and> events (on_i2c c') = events (on_i2c c) @ es \<and> received (on_i2c c') = received (on_i2c c) @ bs"

lemma did_bus: "did es bs c c' \<Longrightarrow> bus_did es bs c c'"
  by (simp add: did_def bus_did_def only_hw_keeps)

lemma bus_did_trans: "bus_did es bs c c' \<Longrightarrow> bus_did es' bs' c' c'' \<Longrightarrow> bus_did (es @ es') (bs @ bs') c c''"
  by (simp add: bus_did_def)

lemma core_of_marks [simp]:
  "core_of (c\<lparr>is_first_shot := f\<rparr>) = core_of c" "core_of (c\<lparr>is_last_shot := l\<rparr>) = core_of c"
  by (simp_all add: core_of_def)

lemma marks [simp]:
  "on_i2c (c\<lparr>is_first_shot := f\<rparr>) = on_i2c c" "on_i2c (c\<lparr>is_last_shot := l\<rparr>) = on_i2c c"
  by (simp_all add: on_i2c_def)

lemma bus_did_marks [simp]:
  "bus_did es bs (c\<lparr>is_first_shot := f, is_last_shot := l\<rparr>) c' \<longleftrightarrow> bus_did es bs c c'"
  "bus_did es bs (c\<lparr>is_last_shot := l\<rparr>) c' \<longleftrightarrow> bus_did es bs c c'"
  "bus_did es bs (c\<lparr>is_first_shot := f\<rparr>) c' \<longleftrightarrow> bus_did es bs c c'"
  "bus_did es bs c (c'\<lparr>is_first_shot := f\<rparr>) \<longleftrightarrow> bus_did es bs c c'"
  "bus_did es bs c (c'\<lparr>is_first_shot := f, is_last_shot := l\<rparr>) \<longleftrightarrow> bus_did es bs c c'"
  by (simp_all add: bus_did_def)

lemma bus_did_nothing [simp]: "bus_did [] [] c c"
  by (simp add: bus_did_def)

lemma ready_bus: "ready c \<Longrightarrow> bus_did es bs c c' \<Longrightarrow> ready c'"
  by (simp add: ready_def bus_did_def)

lemma ready_marks [simp]:
  "ready (c\<lparr>is_first_shot := f\<rparr>) = ready c" "ready (c\<lparr>is_last_shot := l\<rparr>) = ready c"
  by (simp_all add: ready_def)

lemma write_shot_bus:
  assumes "ready c" "current_burst_flags c = fl" "is_first_shot c = f" "is_last_shot c = l"
  shows "\<exists>r c'. i2c_write_shot (logged ri) pat [b] c = Some (r, c')
    \<and> bus_did ((if f then start_of fl else []) @ [I2C_Write b] @ (if l then stop_of fl else [])) [] c c'"
  using did_bus [OF write_byte_did [OF assms(1), of "i2c_write_cmd c" b ri pat]]
  unfolding write_cmd_events assms(2-4)
  by (cases "write_byte (logged ri) pat b (i2c_write_cmd c) c") (simp add: i2c_write_shot_def)

text \<open>The events of a write that has come to its \<open>k\<close>-th byte.\<close>

definition write_events :: "u8 \<Rightarrow> bool \<Rightarrow> nat \<Rightarrow> u8 list \<Rightarrow> i2c_event list" where
  "write_events fl first k buf =
     (if first \<and> 0 < k then start_of fl else []) @ map I2C_Write (take k buf) @
     (if k = length buf \<and> 0 < k then stop_of fl else [])"

lemma write_loop_bus:
  assumes "ready c" "length buf \<le> n"
  shows "\<exists>r q' c' k. write_loop (i2c_ops (logged ri) pat) n q buf c = Some (r, q', c') \<and> k \<le> length buf
    \<and> bus_did (write_events (current_burst_flags c) (length buf = n) k buf) [] c c'
    \<and> (r < 0 \<and> 0 < k \<or> r = STATUS_OK \<and> k = length buf)"
  using assms
proof (induction buf arbitrary: q c)
  case Nil
  then show ?case by (auto simp: write_loop.simps write_events_def)
next
  case (Cons b buf)
  let ?c = "c\<lparr>is_first_shot := (length (b # buf) = n), is_last_shot := (length (b # buf) \<le> 1)\<rparr>"
  let ?es = "(if length (b # buf) = n then start_of (current_burst_flags c) else []) @ [I2C_Write b] @
     (if buf = [] then stop_of (current_burst_flags c) else [])"
  obtain r1 c1 where s: "i2c_write_shot (logged ri) pat [b] ?c = Some (r1, c1)" "bus_did ?es [] c c1"
    using write_shot_bus [of ?c "current_burst_flags c" "length (b # buf) = n" "buf = []" ri pat b] Cons.prems(1) by auto
  show ?case
  proof (cases "r1 < 0")
    case True
    have "write_loop (i2c_ops (logged ri) pat) n q (b # buf) c = Some (r1, q, c1)"
      using s(1) True by (subst write_loop.simps) (simp add: i2c_ops_def Let_def)
    moreover have "?es = write_events (current_burst_flags c) (length (b # buf) = n) 1 (b # buf)"
      by (simp add: write_events_def)
    ultimately show ?thesis using s(2) True by (intro exI [of _ r1] exI [of _ q] exI [of _ c1] exI [of _ 1]) simp
  next
    case False
    have w: "write_loop (i2c_ops (logged ri) pat) n q (b # buf) c = write_loop (i2c_ops (logged ri) pat) n (Suc q) buf c1"
      using s(1) False by (subst write_loop.simps) (simp add: i2c_ops_def Let_def)
    have "length buf \<noteq> n" "length buf \<le> n" using Cons.prems(2) by simp_all
    then obtain r q' c' k where ih: "write_loop (i2c_ops (logged ri) pat) n (Suc q) buf c1 = Some (r, q', c')"
      "k \<le> length buf" "bus_did (write_events (current_burst_flags c1) False k buf) [] c1 c'"
      "r < 0 \<and> 0 < k \<or> r = STATUS_OK \<and> k = length buf"
      using Cons.IH [OF ready_bus [OF Cons.prems(1) s(2)], of "Suc q"] by auto
    have "?es @ write_events (current_burst_flags c1) False k buf
        = write_events (current_burst_flags c) (length (b # buf) = n) (Suc k) (b # buf)"
      using s(2) ih(2,4) by (auto simp: write_events_def bus_did_def)
    with bus_did_trans [OF s(2) ih(3)] have
      "bus_did (write_events (current_burst_flags c) (length (b # buf) = n) (Suc k) (b # buf)) [] c c'" by simp
    with ih w show ?thesis by (intro exI [of _ r] exI [of _ q'] exI [of _ c'] exI [of _ "Suc k"]) auto
  qed
qed


text \<open>The events of a read of \<open>n\<close> bytes that has come to its \<open>k\<close>-th byte.\<close>

definition read_events :: "u8 \<Rightarrow> nat \<Rightarrow> nat \<Rightarrow> i2c_event list" where
  "read_events fl k n =
     replicate (min k (n - 1)) (I2C_Read False) @ (if k = n then [I2C_Read (nack_of fl)] @ stop_of fl else [])"

lemma read_events_Suc:
  "0 < n \<Longrightarrow> k \<le> n \<Longrightarrow> I2C_Read False # read_events fl k n = read_events fl (Suc k) (Suc n)"
  by (cases n) (auto simp: read_events_def min_def replicate_append_same simp flip: replicate_Suc)

lemma read_shot_bus:
  assumes "ready c" "current_burst_flags c = fl" "is_last_shot c = l"
  shows "\<exists>r bs c'. i2c_read_shot (logged ri) pat 1 c = Some ((r, bs), c')
    \<and> (r = STATUS_OK \<and> length bs = 1 \<or> r < 0 \<and> bs = [])
    \<and> bus_did ([I2C_Read (l \<and> nack_of fl)] @ (if l then stop_of fl else [])) bs c c'"
proof -
  obtain r out c' where b: "read_byte (logged ri) pat (i2c_read_cmd c) c = ((r, out), c')"
    by (cases "read_byte (logged ri) pat (i2c_read_cmd c) c") auto
  have "bus_did ([I2C_Read (l \<and> nack_of fl)] @ (if l then stop_of fl else []))
      (case out of None \<Rightarrow> [] | Some v \<Rightarrow> [v]) c c'
    \<and> (r = STATUS_OK \<and> out \<noteq> None \<or> r = STATUS_ERROR \<and> out = None)"
    using read_byte_did [OF assms(1) b] did_bus unfolding read_cmd_events assms(2,3) by blast
  with b show ?thesis by (auto simp: i2c_read_shot_def)
qed

lemma read_loop_bus:
  assumes "ready c"
  shows "\<exists>r bs c' k. read_loop (i2c_ops (logged ri) pat) m 1 acc c = Some (r, acc @ bs, c')
    \<and> (r = STATUS_OK \<and> length bs = Suc m \<and> k = Suc m \<or> r < 0 \<and> k = Suc (length bs) \<and> k \<le> Suc m)
    \<and> bus_did (read_events (current_burst_flags c) k (Suc m)) bs c c'"
  using assms
proof (induction m arbitrary: acc c)
  case 0
  let ?c = "c\<lparr>is_last_shot := True\<rparr>"
  obtain r bs c1 where s: "i2c_read_shot (logged ri) pat 1 ?c = Some ((r, bs), c1)"
    "r = STATUS_OK \<and> length bs = 1 \<or> r < 0 \<and> bs = []"
    "bus_did ([I2C_Read (nack_of (current_burst_flags c))] @ stop_of (current_burst_flags c)) bs c c1"
    using read_shot_bus [of ?c "current_burst_flags c" True ri pat] 0 by auto
  have e: "[I2C_Read (nack_of (current_burst_flags c))] @ stop_of (current_burst_flags c) = read_events (current_burst_flags c) 1 1"
    by (simp add: read_events_def)
  show ?case
  proof (cases "r < 0")
    case True
    then have "read_loop (i2c_ops (logged ri) pat) 0 1 acc c = Some (r, acc @ [], c1)"
      using s(1) by (subst read_loop.simps) (simp add: i2c_ops_def Let_def)
    moreover have "bs = []" using s(2) True by auto
    ultimately show ?thesis using s(3) True unfolding e by (intro exI [of _ r] exI [of _ "[]"] exI [of _ c1] exI [of _ 1]) simp
  next
    case False
    then have "read_loop (i2c_ops (logged ri) pat) 0 1 acc c = Some (STATUS_OK, acc @ bs, c1\<lparr>is_first_shot := False\<rparr>)"
      using s(1,2) by (subst read_loop.simps) (simp add: i2c_ops_def Let_def read_loop.simps [of _ 0 0])
    moreover have "length bs = 1" using s(2) False by auto
    ultimately show ?thesis using s(3) unfolding e
      by (intro exI [of _ STATUS_OK] exI [of _ bs] exI [of _ "c1\<lparr>is_first_shot := False\<rparr>"] exI [of _ 1]) simp
  qed
next
  case (Suc m)
  let ?c = "c\<lparr>is_last_shot := False\<rparr>"
  obtain r bs c1 where s: "i2c_read_shot (logged ri) pat 1 ?c = Some ((r, bs), c1)"
    "r = STATUS_OK \<and> length bs = 1 \<or> r < 0 \<and> bs = []" "bus_did [I2C_Read False] bs c c1"
    using read_shot_bus [of ?c "current_burst_flags c" False ri pat] Suc.prems by auto
  show ?case
  proof (cases "r < 0")
    case True
    then have "read_loop (i2c_ops (logged ri) pat) (Suc m) 1 acc c = Some (r, acc @ [], c1)"
      using s(1) by (subst read_loop.simps) (simp add: i2c_ops_def Let_def)
    moreover have "bs = []" using s(2) True by auto
    moreover have "read_events (current_burst_flags c) 1 (Suc (Suc m)) = [I2C_Read False]" by (simp add: read_events_def)
    ultimately show ?thesis using s(3) True
      by (intro exI [of _ r] exI [of _ "[]"] exI [of _ c1] exI [of _ 1]) simp
  next
    case False
    let ?c1 = "c1\<lparr>is_first_shot := False\<rparr>"
    have l: "read_loop (i2c_ops (logged ri) pat) (Suc m) 1 acc c = read_loop (i2c_ops (logged ri) pat) m 1 (acc @ bs) ?c1"
      using s(1) False by (subst read_loop.simps) (simp add: i2c_ops_def Let_def i2c_request_read_def)
    have len: "length bs = 1" using s(2) False by auto
    have "ready ?c1" using ready_bus [OF Suc.prems s(3)] by simp
    from Suc.IH [OF this, of "acc @ bs"] obtain r' bs' c' k where
      ih: "read_loop (i2c_ops (logged ri) pat) m 1 (acc @ bs) ?c1 = Some (r', (acc @ bs) @ bs', c')"
        "r' = STATUS_OK \<and> length bs' = Suc m \<and> k = Suc m \<or> r' < 0 \<and> k = Suc (length bs') \<and> k \<le> Suc m"
        "bus_did (read_events (current_burst_flags c1) k (Suc m)) bs' c1 c'" by auto
    have "bus_did (read_events (current_burst_flags c) (Suc k) (Suc (Suc m))) (bs @ bs') c c'"
      using bus_did_trans [OF s(3) ih(3)] s(3) ih(2) read_events_Suc [of "Suc m" k "current_burst_flags c"]
      by (auto simp: bus_did_def)
    with l len ih(1,2) show ?thesis by (intro exI [of _ r'] exI [of _ "bs @ bs'"] exI [of _ c'] exI [of _ "Suc k"]) auto
  qed
qed


lemma ready_flags [simp]: "ready (c\<lparr>current_burst_flags := f\<rparr>) = ready c"
  by (simp add: ready_def core_of_def)

lemma on_i2c_flags [simp]: "on_i2c (c\<lparr>current_burst_flags := f\<rparr>) = on_i2c c"
  by (simp add: on_i2c_def core_of_def)

lemma write_stop_did:
  assumes "ready c"
  shows "did [I2C_Stop] [] c (snd (write_stop (logged ri) pat c))"
proof -
  let ?c = "write_core_register (logged ri) I2C_MC_REG_COMMAND I2C_COMMAND_STOP c"
  have 1: "did [I2C_Stop] [] c ?c" using command_did [OF assms, of I2C_COMMAND_STOP ri] by (simp only: stop_events)
  then have "i2c_ok (core_of ?c)" using ready_only_hw [OF assms did_keeps] by (auto simp: ready_def)
  from did_trans [OF 1 wait_did [OF this]] show ?thesis using assms
    by (auto simp: write_stop_def ready_def Let_def case_prod_beta)
qed

lemma activate_did:
  assumes "i2c_ok (core_of c)"
  shows "did [] [] c (activate_i2c_core_on_bank (logged ri) on c)"
proof -
  have "on_i2c (on_hw (ri_write (logged ri) (i2c_ctrl_address_register (core_of c)) x) c)
      = i2c_step (core_of c) (Wr (i2c_ctrl_address_register (core_of c)) x) (on_i2c c)" for x
    by (simp add: on_i2c_def del: i2c_step.simps)
  then show ?thesis by (auto simp: activate_i2c_core_on_bank_def did_def split: option.splits)
qed

lemma abort_bus:
  assumes "ready c" "abort_burst (i2c_ops (logged ri) pat) c = Some (r, c')"
  shows "r = STATUS_ERROR \<and> events (on_i2c c') = events (on_i2c c) @ [I2C_Stop] \<and> received (on_i2c c') = received (on_i2c c)"
proof -
  let ?c = "c\<lparr>current_burst_flags := 0, is_first_shot := False, is_last_shot := False\<rparr>"
  let ?c1 = "snd (write_stop (logged ri) pat ?c)"
  have r: "ready ?c" using assms(1) by simp
  have 1: "did [I2C_Stop] [] ?c ?c1" by (rule write_stop_did [OF r])
  have "i2c_ok (core_of ?c1)" using ready_only_hw [OF r did_keeps [OF 1]] by (simp add: ready_def)
  from did_trans [OF 1 activate_did [OF this]] assms(2) show ?thesis
    by (auto simp: abort_burst_def ctrl_cleanup_burst_state_def i2c_ops_def i2c_burst_aborted_def did_def)
qed

text \<open>C24: A write burst to an active I2C bus always returns. If it succeeds the bus has seen the start
  condition if it was asked for, every byte of the buffer in order, and the stop condition if it was
  asked for; if it fails it has stopped after some byte, and a stop condition follows in any case, so that the
  bus is never left open by a burst that failed. This holds for any device.\<close>

theorem i2c_write_burst_frames_the_buffer:
  assumes "ready c" "buf \<noteq> []"
  shows "\<exists>r c' k. i2c_write_burst (logged ri) pat flags buf c = Some (r, c')
    \<and> (r = STATUS_OK \<and> k = length buf \<or> r = STATUS_ERROR \<and> 0 < k \<and> k \<le> length buf)
    \<and> events (on_i2c c') = events (on_i2c c) @ write_events (ucast (flags AND 0xff)) True k buf
        @ (if r = STATUS_OK then [] else [I2C_Stop])"
proof -
  let ?c = "c\<lparr>current_burst_flags := ucast (flags AND 0xff)\<rparr>" and ?ops = "i2c_ops (logged ri) pat"
  obtain r q c1 k where l: "write_loop ?ops (length buf) 0 buf ?c = Some (r, q, c1)" "k \<le> length buf"
    "bus_did (write_events (ucast (flags AND 0xff)) True k buf) [] ?c c1"
    "r < 0 \<and> 0 < k \<or> r = STATUS_OK \<and> k = length buf"
    using write_loop_bus [of ?c buf "length buf" ri pat 0] assms(1) by auto
  have ready: "ready c1" using ready_bus [OF _ l(3)] assms(1) by simp
  have ev: "events (on_i2c c1) = events (on_i2c c) @ write_events (ucast (flags AND 0xff)) True k buf"
    using l(3) by (simp add: bus_did_def)
  show ?thesis
  proof (cases "r < 0")
    case True
    have b: "i2c_write_burst (logged ri) pat flags buf c = abort_burst ?ops c1"
      using l(1) True by (simp add: i2c_write_burst_def ctrl_write_burst_def i2c_ops_def)
    obtain r' c' where a: "abort_burst ?ops c1 = Some (r', c')" by (simp add: abort_burst_def)
    show ?thesis using b a abort_bus [OF ready a] ev l(2,4) True
      by (intro exI [of _ r'] exI [of _ c'] exI [of _ k]) auto
  next
    case False
    have "i2c_write_burst (logged ri) pat flags buf c
        = Some (STATUS_OK, c1\<lparr>is_first_shot := False, is_last_shot := False, current_burst_flags := 0\<rparr>)"
      using l(1) False by (simp add: i2c_write_burst_def ctrl_write_burst_def finish_burst_def i2c_ops_def Let_def)
    with ev l(4) False show ?thesis by (intro exI) (auto simp: on_i2c_def core_of_def)
  qed
qed


text \<open>C25: A read burst of an active I2C bus always returns. If it succeeds the caller gets as many bytes as asked for,
  the very bytes that were taken from the receive register, in order; every byte but the last is
  acknowledged, the last is not if that was asked for, and the stop condition follows it if asked for. If it
  fails, the bytes before the one that failed are in the buffer, and a stop condition is sent.\<close>

theorem i2c_read_burst_gives_the_received_bytes:
  assumes "ready c" "0 < n"
  shows "\<exists>r bs c' k. i2c_read_burst (logged ri) pat flags n c = Some (r, bs, c')
    \<and> (r = STATUS_OK \<and> length bs = n \<and> k = n \<or> r = STATUS_ERROR \<and> k = Suc (length bs) \<and> k \<le> n)
    \<and> received (on_i2c c') = received (on_i2c c) @ bs
    \<and> events (on_i2c c') = events (on_i2c c) @ read_events (ucast (flags AND 0xff)) k n
        @ (if r = STATUS_OK then [] else [I2C_Stop])"
proof -
  let ?c = "c\<lparr>current_burst_flags := ucast (flags AND 0xff)\<rparr>" and ?ops = "i2c_ops (logged ri) pat"
  let ?d = "?c\<lparr>is_first_shot := True, is_last_shot := (n = 1)\<rparr>"
  obtain m where m: "n = Suc m" using assms(2) by (cases n) auto
  have "ready (?d\<lparr>is_first_shot := True\<rparr>)" using assms(1) by simp
  from read_loop_bus [OF this, of ri pat m "[]"] obtain r bs c1 k where
    l: "read_loop ?ops m 1 [] (?d\<lparr>is_first_shot := True\<rparr>) = Some (r, bs, c1)"
    "r = STATUS_OK \<and> length bs = n \<and> k = n \<or> r < 0 \<and> k = Suc (length bs) \<and> k \<le> n"
    "bus_did (read_events (ucast (flags AND 0xff)) k n) bs ?c c1"
    unfolding m by auto
  have rq: "request_loop ?ops n 0 1 n 0 ?c = Some (STATUS_OK, m, 1, ?d)"
    by (simp add: m i2c_ops_def i2c_request_read_def Let_def eval_nat_numeral)
  have ready: "ready c1" using ready_bus [OF _ l(3)] assms(1) by simp
  have ev: "events (on_i2c c1) = events (on_i2c c) @ read_events (ucast (flags AND 0xff)) k n"
    "received (on_i2c c1) = received (on_i2c c) @ bs" using l(3) by (simp_all add: bus_did_def)
  have burst: "i2c_read_burst (logged ri) pat flags n c
      = (if r < 0 then Some (STATUS_ERROR, bs, ctrl_cleanup_burst_state ?ops c1)
         else map_option (\<lambda>(r, c4). (r, bs, c4)) (finish_burst ?ops flags (c1\<lparr>is_last_shot := False\<rparr>)))"
  proof -
    have "read_queue_size ?ops = 1" "handle_pre_burst_flags ?ops flags ?c = Some (STATUS_OK, ?c)"
      by (simp_all add: i2c_ops_def)
    with rq l(1) show ?thesis
      by (simp add: i2c_read_burst_def ctrl_read_burst_def Let_def del: request_loop.simps One_nat_def)
  qed
  show ?thesis
  proof (cases "r < 0")
    case True
    have a: "abort_burst ?ops c1 = Some (STATUS_ERROR, ctrl_cleanup_burst_state ?ops c1)" by (simp add: abort_burst_def)
    show ?thesis using burst abort_bus [OF ready a] ev l(2) True
      by (intro exI [of _ STATUS_ERROR] exI [of _ bs] exI [of _ "ctrl_cleanup_burst_state ?ops c1"] exI [of _ k]) auto
  next
    case False
    have "i2c_read_burst (logged ri) pat flags n c
        = Some (STATUS_OK, bs, c1\<lparr>is_last_shot := False, current_burst_flags := 0\<rparr>)"
      using burst False by (simp add: finish_burst_def i2c_ops_def)
    with ev l(2) False show ?thesis by (intro exI) (auto simp: on_i2c_def core_of_def)
  qed
qed


section \<open>Selecting a bank\<close>

text \<open>Only the device has changed, and the prescaler has not been written.\<close>

definition keeps :: "'hw logged_i2c \<Rightarrow> 'hw logged_i2c \<Rightarrow> bool" where
  "keeps c c' \<longleftrightarrow> only_hw c c' \<and> prescale (on_i2c c') = prescale (on_i2c c)"

lemma keeps_refl [simp]: "keeps c c"
  by (simp add: keeps_def)

lemma keeps_trans [trans]: "keeps c c' \<Longrightarrow> keeps c' c'' \<Longrightarrow> keeps c c''"
  by (auto simp: keeps_def intro: only_hw_trans)

lemma did_keeps_clock: "did es bs c c' \<Longrightarrow> keeps c c'"
  by (simp add: did_def keeps_def)

lemma keeps_ok: "keeps c c' \<Longrightarrow> i2c_ok (core_of c) \<Longrightarrow> i2c_ok (core_of c')"
  unfolding keeps_def using only_hw_keeps(1) by metis

lemma read_keeps: "i2c_ok (core_of c) \<Longrightarrow> a AND 7 = a \<Longrightarrow> keeps c (snd (read_core_register (logged ri) a c))"
  by (rule did_keeps_clock [OF read_core_register_did])

lemma write_keeps:
  "i2c_ok (core_of c) \<Longrightarrow> a = I2C_MC_REG_CONTROL \<or> a = I2C_MC_REG_COMMAND \<Longrightarrow> keeps c (write_core_register (logged ri) a v c)"
  by (auto simp: keeps_def write_core_register_only_hw write_core_register_wire core_write_def)

lemma modify_keeps: "i2c_ok (core_of c) \<Longrightarrow> keeps c (modify_rw_register (logged ri) I2C_MC_REG_CONTROL m b c)"
  using read_keeps [of c I2C_MC_REG_CONTROL ri]
  by (auto simp: modify_rw_register_def case_prod_beta intro: keeps_trans [OF _ write_keeps] keeps_ok)

lemma stop_if_busy_keeps: "i2c_ok (core_of c) \<Longrightarrow> keeps c (snd (stop_transfer_if_busy (logged ri) pat c))"
proof -
  assume ok: "i2c_ok (core_of c)"
  let ?c = "snd (get_core_status (logged ri) c)"
  have 1: "keeps c ?c" by (rule did_keeps_clock [OF status_did [OF ok]])
  have "keeps ?c (snd (write_stop (logged ri) pat ?c))"
  proof (cases "active_bus (core_of ?c) = None")
    case False
    with keeps_ok [OF 1 ok] have "ready ?c" by (simp add: ready_def)
    from did_keeps_clock [OF write_stop_did [OF this]] show ?thesis .
  qed (simp add: write_stop_def)
  with 1 show ?thesis
    by (auto simp: stop_transfer_if_busy_def is_bus_busy_def core_has_status_def Let_def case_prod_beta intro: keeps_trans)
qed

lemma enabled_keeps: "i2c_ok (core_of c) \<Longrightarrow> keeps c (snd (is_core_enabled (logged ri) c))"
  using read_keeps [of c I2C_MC_REG_CONTROL ri] by (simp add: is_core_enabled_def Let_def case_prod_beta)

lemma enable_keeps:
  assumes "i2c_ok (core_of c)"
  shows "keeps c (snd (enable_core (logged ri) pat c))"
proof -
  let ?c = "snd (is_core_enabled (logged ri) c)"
  have 1: "keeps c ?c" by (rule enabled_keeps [OF assms])
  note ok = keeps_ok [OF 1 assms]
  have 2: "keeps c (modify_rw_register (logged ri) I2C_MC_REG_CONTROL m b ?c)" for m b
    by (rule keeps_trans [OF 1 modify_keeps [OF ok]])
  show ?thesis
    using keeps_trans [OF 1 stop_if_busy_keeps [OF ok]] keeps_trans [OF 2 stop_if_busy_keeps [OF keeps_ok [OF 2 assms]]]
    by (simp add: enable_core_def Let_def case_prod_beta)
qed

lemma disable_keeps:
  assumes "i2c_ok (core_of c)"
  shows "keeps c (snd (disable_core (logged ri) pat c))"
proof -
  let ?c = "snd (is_core_enabled (logged ri) c)"
  have 1: "keeps c ?c" by (rule enabled_keeps [OF assms])
  have 2: "keeps c (snd (stop_transfer_if_busy (logged ri) pat ?c))"
    by (rule keeps_trans [OF 1 stop_if_busy_keeps [OF keeps_ok [OF 1 assms]]])
  show ?thesis
    using 1 keeps_trans [OF 2 modify_keeps [OF keeps_ok [OF 2 assms]]]
    by (simp add: disable_core_def Let_def case_prod_beta)
qed

definition with_bus :: "nat \<Rightarrow> 'hw i2c \<Rightarrow> 'hw i2c" where
  "with_bus n c = c\<lparr>port := map_prod (\<lambda>self. self\<lparr>active_bus := Some n\<rparr>) id (port c)\<rparr>"

lemma i2c_step_same_wiring: "i2c_step (self\<lparr>active_bus := b\<rparr>) e = i2c_step self e"
  by (cases e) (auto simp: fun_eq_iff)

lemma core_of_with_bus [simp]: "core_of (with_bus n c) = (core_of c)\<lparr>active_bus := Some n\<rparr>"
  by (simp add: with_bus_def core_of_def map_prod_def case_prod_beta)

lemma on_i2c_with_bus [simp]: "on_i2c (with_bus n c) = on_i2c c"
proof -
  have "i2c_step (self\<lparr>active_bus := b\<rparr>) = i2c_step self" for self b
    by (rule ext) (rule i2c_step_same_wiring)
  then show ?thesis
    by (simp add: with_bus_def core_of_def on_i2c_def i2c_wire_of_def map_prod_def case_prod_beta)
qed

lemma with_bus_ready:
  "i2c_ok (core_of c) \<Longrightarrow> n < length (bus_configurations (core_of c)) \<Longrightarrow> ready (with_bus n c)"
  by (auto simp: ready_def i2c_ok_def)

text \<open>The prescaler for a clock of a bus, where there is one.\<close>

definition core_freq_of :: "u32 \<Rightarrow> u32 \<Rightarrow> u32" where
  "core_freq_of fw freq = fw div (5 * freq) - 1"

lemma five_times: "5 * freq = (0 :: u32) \<longleftrightarrow> freq = 0"
proof -
  have one: "(0xcccccccd :: u32) * 5 = 1" by simp
  have "0xcccccccd * (5 * freq) = freq" by (simp only: mult.assoc [symmetric] one mult_1_left)
  then show ?thesis by (metis mult_zero_right)
qed

lemma adjust_wire:
  assumes "ready c" "freq \<noteq> 0"
  defines "p \<equiv> core_freq_of (firmware_clock_frequency (core_of c)) freq"
  shows "\<exists>r c'. adjust_core_frequency (logged ri) freq c = Some (r, c') \<and> only_hw c c'
    \<and> prescale (on_i2c c') = (if p < 0x10000 then (ucast p, ucast (drop_bit 8 p)) else prescale (on_i2c c))"
proof (cases "p < 0x10000")
  case False
  then have p: "firmware_clock_frequency (core_of c) div (5 * freq) - 1 \<ge> 0x10000"
    by (simp add: p_def core_freq_of_def not_less)
  have "active_bus (core_of c) \<noteq> None" "5 * freq \<noteq> 0" using assms(1,2) by (simp_all add: ready_def five_times)
  with p have "adjust_core_frequency (logged ri) freq c = Some (STATUS_ERR_INVALID_ARGUMENT, c)"
    by (simp only: adjust_core_frequency_def Let_def if_True if_False simp_thms)
  with False show ?thesis by simp
next
  case True
  have ok: "i2c_ok (core_of c)" "active_bus (core_of c) \<noteq> None" using assms(1) by (simp_all add: ready_def)
  let ?lo = "ucast (p AND 0xff) :: u8" and ?hi = "ucast (drop_bit 8 p AND 0xff) :: u8"
  let ?c1 = "write_core_register (logged ri) I2C_MC_REG_PRESCALE_LOW ?lo c"
  let ?c2 = "write_core_register (logged ri) I2C_MC_REG_PRESCALE_HIGH ?hi ?c1"
  let ?c3 = "snd (read_core_register (logged ri) I2C_MC_REG_PRESCALE_LOW ?c2)"
  let ?c4 = "snd (read_core_register (logged ri) I2C_MC_REG_PRESCALE_HIGH ?c3)"
  have 1: "only_hw c ?c1" "only_hw c ?c2"
    by (auto intro: only_hw_trans write_core_register_only_hw)
  have ok1: "i2c_ok (core_of ?c1)" "i2c_ok (core_of ?c2)" using only_hw_keeps(1) [OF 1(1)] only_hw_keeps(1) [OF 1(2)] ok by simp_all
  have ff: "ucast (x AND 0xff :: u32) = (ucast x :: u8)" for x
  proof -
    have "x AND 0xff = take_bit 8 x" by (simp add: take_bit_eq_mask mask_numeral)
    then show ?thesis by (auto intro!: bit_word_eqI simp: bit_ucast_iff bit_take_bit_iff)
  qed
  have "prescale (on_i2c ?c2) = (?lo, ?hi)"
    using write_core_register_wire [OF ok1(1), of I2C_MC_REG_PRESCALE_HIGH ri ?hi]
      write_core_register_wire [OF ok(1), of I2C_MC_REG_PRESCALE_LOW ri ?lo] by (simp add: core_write_def)
  then have w: "prescale (on_i2c ?c2) = (ucast p, ucast (drop_bit 8 p))" by (simp only: ff)
  have k3: "keeps ?c2 ?c3" by (rule read_keeps [OF ok1(2)]) simp
  have "keeps ?c3 ?c4" by (rule read_keeps [OF keeps_ok [OF k3 ok1(2)]]) simp
  with k3 have k: "keeps ?c2 ?c4" by (rule keeps_trans)
  have "only_hw c ?c4" using 1(2) k by (auto simp: keeps_def intro: only_hw_trans)
  moreover have "prescale (on_i2c ?c4) = (ucast p, ucast (drop_bit 8 p))" using k w by (simp add: keeps_def)
  ultimately show ?thesis using True ok(2) assms(2)
    by (auto simp: adjust_core_frequency_def five_times core_freq_of_def p_def Let_def case_prod_beta)
qed

lemma activate_bank_wire:
  assumes "i2c_ok (core_of c)" "unat bank = n" "n < length (bus_configurations (core_of c))"
    "active_bus (core_of c) \<noteq> Some n" "bus_frequency (bus_configurations (core_of c) ! n) = freq" "freq \<noteq> 0"
  defines "p \<equiv> core_freq_of (firmware_clock_frequency (core_of c)) freq"
  shows "\<exists>c'. activate_bank (logged ri) pat bank c = Some c' \<and> ready c' \<and> active_bus (core_of c') = Some n
    \<and> prescale (on_i2c c') = (if p < 0x10000 then (ucast p, ucast (drop_bit 8 p)) else prescale (on_i2c c))"
proof -
  let ?c1 = "snd (disable_core (logged ri) pat c)"
  have k1: "keeps c ?c1" by (rule disable_keeps [OF assms(1)])
  then have core1: "core_of ?c1 = core_of c" unfolding keeps_def using only_hw_keeps(1) by blast
  have r2: "ready (with_bus n ?c1)" by (rule with_bus_ready) (simp_all add: core1 assms(1,3))
  obtain r c3 where a: "adjust_core_frequency (logged ri) freq (with_bus n ?c1) = Some (r, c3)" "only_hw (with_bus n ?c1) c3"
    "prescale (on_i2c c3) = (if p < 0x10000 then (ucast p, ucast (drop_bit 8 p)) else prescale (on_i2c ?c1))"
    using adjust_wire [OF r2 assms(6), of ri] core1 by (auto simp: p_def)
  let ?c4 = "snd (enable_core (logged ri) pat c3)"
  have r3: "ready c3" by (rule ready_only_hw [OF r2 a(2)])
  then have k4: "keeps c3 ?c4" by (intro enable_keeps) (simp add: ready_def)
  have "activate_bank (logged ri) pat bank c = Some ?c4"
    using assms a(1) by (simp add: activate_bank_def Let_def with_bus_def case_prod_beta)
  moreover have "ready ?c4" using k4 ready_only_hw [OF r3] by (simp add: keeps_def)
  moreover have "active_bus (core_of ?c4) = Some n"
  proof -
    have "core_of ?c4 = core_of c3" using k4 unfolding keeps_def using only_hw_keeps(1) by blast
    also have "\<dots> = core_of (with_bus n ?c1)" by (rule only_hw_keeps(1) [OF a(2)])
    finally show ?thesis by simp
  qed
  moreover have "prescale (on_i2c ?c4) = (if p < 0x10000 then (ucast p, ucast (drop_bit 8 p)) else prescale (on_i2c c))"
    using k4 k1 a(3) by (simp add: keeps_def)
  ultimately show ?thesis by blast
qed

lemma unat_split: "unat (ucast p :: u8) + 256 * unat (ucast (drop_bit 8 p) :: u8) = unat p" if "p < 0x10000" for p :: u32
proof -
  have "unat p < 65536" using that by (simp add: word_less_nat_alt)
  then have "unat p div 256 mod 256 = unat p div 256" by simp
  moreover have "unat (ucast p :: u8) = unat p mod 256" "unat (ucast (drop_bit 8 p) :: u8) = unat p div 256 mod 256"
    by (simp_all add: unsigned_ucast_eq take_bit_eq_mod unat_drop_bit_eq drop_bit_eq_div unat_div)
  ultimately show ?thesis by simp
qed

text \<open>C26: A transaction on a bus that is not the active one always begins with success, on any device, and makes
  the bus active. If the clock of the core can be divided down to the clock of the bus, the prescaler
  is set to that divisor less one; if the divisor is zero or above 65536, the prescaler keeps the value of the bus that was
  active before, and the transaction begins all the same. This last is a bug.\<close>

theorem i2c_transaction_sets_the_clock:
  assumes "i2c_ok (core_of c)" "unat bank = n" "n < length (bus_configurations (core_of c))"
    "active_bus (core_of c) \<noteq> Some n" "bus_frequency (bus_configurations (core_of c) ! n) = freq" "freq \<noteq> 0"
    "5 * unat freq < 2 ^ 32"
  defines "q \<equiv> unat (firmware_clock_frequency (core_of c)) div (5 * unat freq)"
  shows "\<exists>c'. i2c_begin_transaction (logged ri) pat bank c = Some (STATUS_OK, c')
    \<and> ready c' \<and> active_bus (core_of c') = Some n
    \<and> (if 0 < q \<and> q \<le> 0x10000
       then unat (fst (prescale (on_i2c c'))) + 256 * unat (snd (prescale (on_i2c c'))) + 1 = q
       else prescale (on_i2c c') = prescale (on_i2c c))"
proof -
  let ?fw = "firmware_clock_frequency (core_of c)"
  let ?p = "core_freq_of ?fw freq"
  obtain c1 where c1: "activate_bank (logged ri) pat bank c = Some c1" "ready c1" "active_bus (core_of c1) = Some n"
    "prescale (on_i2c c1) = (if ?p < 0x10000 then (ucast ?p, ucast (drop_bit 8 ?p)) else prescale (on_i2c c))"
    using activate_bank_wire [OF assms(1-6)] by blast
  let ?c2 = "activate_i2c_core_on_bank (logged ri) True c1"
  have 2: "did [] [] c1 ?c2" using c1(2) by (intro activate_did) (simp add: ready_def)
  have b: "i2c_begin_transaction (logged ri) pat bank c = Some (STATUS_OK, ?c2)"
    using c1(1) by (simp add: i2c_begin_transaction_def ctrl_begin_transaction_def i2c_ops_def i2c_handle_begin_transaction_def)
  have d: "unat (?fw div (5 * freq)) = q"
    using assms(7) unfolding q_def by (simp add: unat_div unat_word_ariths)
  have p: "?p < 0x10000 \<longleftrightarrow> 0 < q \<and> q \<le> 0x10000"
  proof (cases "q = 0")
    case True
    then have "?fw div (5 * freq) = 0" using d by (simp add: unat_eq_0)
    then show ?thesis using True by (simp add: core_freq_of_def)
  next
    case False
    then have "unat ?p = q - 1" using d by (simp add: core_freq_of_def unat_minus_one unat_eq_0 [symmetric] del: unat_eq_0)
    with False show ?thesis by (simp add: word_less_nat_alt) arith
  qed
  have "unat ?p + 1 = q" if "0 < q"
    using that d by (simp add: core_freq_of_def unat_minus_one unat_eq_0 [symmetric] del: unat_eq_0)
  moreover have "ready ?c2" "active_bus (core_of ?c2) = Some n" "prescale (on_i2c ?c2) = prescale (on_i2c c1)"
    using 2 c1(2,3) ready_only_hw [OF c1(2)] only_hw_keeps(1) [OF did_keeps [OF 2]] by (simp_all add: did_def)
  ultimately show ?thesis using b c1(4) p unat_split by auto
qed

section \<open>A core on a bus\<close>

definition quiet_device :: "unit register_interface" where
  "quiet_device = \<lparr>ri_read = (\<lambda>a s. (0, s)), ri_write = (\<lambda>a x s. s)\<rparr>"

definition sample_core :: "nat option \<Rightarrow> i2c_master_core" where
  "sample_core b = \<lparr>i2c_ctrl_address_register = 1, i2c_ctrl_write_register = 2, i2c_ctrl_read_register = 3,
     firmware_clock_frequency = 125000000, num_safety_writes = 2,
     bus_configurations = [\<lparr>bank_number = 0, bank_activation_bit = 0x40, write_enable_bit = 0x80, bus_frequency = 400000\<rparr>],
     active_bus = b\<rparr>"

definition sample_i2c :: "nat option \<Rightarrow> unit logged_i2c" where
  "sample_i2c b = controller_base_init (sample_core b, ((), []))"

lemma sample_ok: "i2c_ok (core_of (sample_i2c None))" "ready (sample_i2c (Some 0))"
  by (simp_all add: ready_def i2c_ok_def sample_i2c_def sample_core_def core_of_def controller_base_init_def)

lemma sample_start: "events (on_i2c (sample_i2c b)) = []" "received (on_i2c (sample_i2c b)) = []"
  by (simp_all add: on_i2c_def i2c_wire_of_def sample_i2c_def controller_base_init_def)

theorem i2c_write_burst_frames_the_buffer_witness:
  "\<exists>r c' k. i2c_write_burst (logged quiet_device) (\<lambda>_. 0) 3 [0xa0, 7] (sample_i2c (Some 0)) = Some (r, c')
    \<and> (r = STATUS_OK \<and> k = 2 \<or> r = STATUS_ERROR \<and> 0 < k \<and> k \<le> 2)
    \<and> events (on_i2c c') = write_events 3 True k [0xa0, 7] @ (if r = STATUS_OK then [] else [I2C_Stop])"
proof -
  have b: "[0xa0, 7 :: u8] \<noteq> []" "length [0xa0, 7 :: u8] = 2" "ucast ((3 :: u32) AND 0xff) = (3 :: u8)" by simp_all
  show ?thesis
    using i2c_write_burst_frames_the_buffer [OF sample_ok(2) b(1), of quiet_device "\<lambda>_. 0" 3]
    by (simp only: sample_start append_Nil b(2,3))
qed

theorem i2c_read_burst_gives_the_received_bytes_witness:
  "\<exists>r bs c' k. i2c_read_burst (logged quiet_device) (\<lambda>_. 0) 6 2 (sample_i2c (Some 0)) = Some (r, bs, c')
    \<and> (r = STATUS_OK \<and> length bs = 2 \<and> k = 2 \<or> r = STATUS_ERROR \<and> k = Suc (length bs) \<and> k \<le> 2)
    \<and> received (on_i2c c') = bs
    \<and> events (on_i2c c') = read_events 6 k 2 @ (if r = STATUS_OK then [] else [I2C_Stop])"
proof -
  have b: "0 < (2 :: nat)" "ucast ((6 :: u32) AND 0xff) = (6 :: u8)" by simp_all
  show ?thesis
    using i2c_read_burst_gives_the_received_bytes [OF sample_ok(2) b(1), of quiet_device "\<lambda>_. 0" 6]
    by (simp only: sample_start append_Nil b(2))
qed

theorem i2c_transaction_sets_the_clock_witness:
  "\<exists>c'. i2c_begin_transaction (logged quiet_device) (\<lambda>_. 0) 0 (sample_i2c None) = Some (STATUS_OK, c')
    \<and> ready c' \<and> active_bus (core_of c') = Some 0
    \<and> unat (fst (prescale (on_i2c c'))) + 256 * unat (snd (prescale (on_i2c c'))) + 1 = 62"
  using i2c_transaction_sets_the_clock [OF sample_ok(1), of 0 0 400000 quiet_device "\<lambda>_. 0"]
  by (simp add: sample_i2c_def sample_core_def core_of_def controller_base_init_def)

end
