(* ===== verification/Bpi.thy ===== *)
theory Bpi
  imports Controller_Base Registers
begin

text \<open>
  The controller of the flash memory, \<^verbatim>\<open>lib/controllers/bpi_controller.c\<close>. The flash is larger than the
  address register: its upper address bits are a bank that a CPLD selects, and the driver
  remembers the bank it selected last. \<open>patience s\<close> is how often a wait that starts in the state \<open>s\<close>
  finds its timeout not yet elapsed; \<open>None\<close> is an access outside a buffer. The widths are below 32.
\<close>

abbreviation STATUS_ERR_DEV_IO :: int where "STATUS_ERR_DEV_IO \<equiv> -3"

abbreviation BPI_OPERATION_SELECT :: u32 where "BPI_OPERATION_SELECT \<equiv> 0x001"
abbreviation BPI_OPERATION_DESELECT :: u32 where "BPI_OPERATION_DESELECT \<equiv> 0x002"
abbreviation BPI_OPERATION_WAITREADY :: u32 where "BPI_OPERATION_WAITREADY \<equiv> 0x004"
abbreviation BPI_OPERATION_SETADDRESS :: u32 where "BPI_OPERATION_SETADDRESS \<equiv> 0x008"
abbreviation BPI_OPERATION_WRITECMD :: u32 where "BPI_OPERATION_WRITECMD \<equiv> 0x010"
abbreviation BPI_OPERATION_WRITECMDADDRESS :: u32 where "BPI_OPERATION_WRITECMDADDRESS \<equiv> 0x020"
abbreviation BPI_OPERATION_EMPTYFIFO :: u32 where "BPI_OPERATION_EMPTYFIFO \<equiv> 0x040"
abbreviation BPI_OPERATION_READDATA :: u32 where "BPI_OPERATION_READDATA \<equiv> 0x080"
abbreviation BPI_OPERATION_WRITEDATA :: u32 where "BPI_OPERATION_WRITEDATA \<equiv> 0x100"

abbreviation WriteFifoEmpty :: u32 where "WriteFifoEmpty \<equiv> 0x010000"
abbreviation ReadFifoEmpty :: u32 where "ReadFifoEmpty \<equiv> 0x080000"
abbreviation WRITE_COMMAND :: u32 where "WRITE_COMMAND \<equiv> 0x1d0000"
abbreviation WRITE_INC_COMMAND :: u32 where "WRITE_INC_COMMAND \<equiv> 0x0d0000"
abbreviation READ_COMMAND :: u32 where "READ_COMMAND \<equiv> 0x1e0000"
abbreviation READ_INC_COMMAND :: u32 where "READ_INC_COMMAND \<equiv> 0x0e0000"
abbreviation READ_BURST_INC_COMMAND :: u32 where "READ_BURST_INC_COMMAND \<equiv> 0x4e0000"
abbreviation WAIT_COMMAND :: u32 where "WAIT_COMMAND \<equiv> 0x3e0000"
abbreviation BANK_NUMBER_MASK :: u8 where "BANK_NUMBER_MASK \<equiv> 0x7"
abbreviation CPLD_BUSY_MASK :: u8 where "CPLD_BUSY_MASK \<equiv> 0x8"
abbreviation BPI_READ_FIFO_LENGTH :: nat where "BPI_READ_FIFO_LENGTH \<equiv> 16"

record bpi_controller =
  address_register :: u32
  data_register :: u32
  bank_register :: u32
  selected_bank :: u32
  address_reg_width :: u32
  address_mask :: u32
  bank_mask :: u32
  bank_count :: u32
  bpi_address :: u32
  bpi_flags :: u32

section \<open>Registers and banks\<close>

definition write_address_register :: "'hw register_interface \<Rightarrow> bpi_controller \<Rightarrow> u32 \<Rightarrow> 'hw \<Rightarrow> 'hw" where
  "write_address_register ri j address s = ri_write ri (address_register j) (address AND address_mask j) s"

definition write_data_register :: "'hw register_interface \<Rightarrow> bpi_controller \<Rightarrow> u32 \<Rightarrow> 'hw \<Rightarrow> 'hw" where
  "write_data_register ri j v s = ri_write ri (data_register j) v s"

definition read_data_register :: "'hw register_interface \<Rightarrow> bpi_controller \<Rightarrow> 'hw \<Rightarrow> u32 \<times> 'hw" where
  "read_data_register ri j s = ri_read ri (data_register j) s"

definition read_bank_register :: "'hw register_interface \<Rightarrow> bpi_controller \<Rightarrow> 'hw \<Rightarrow> u8 \<times> 'hw" where
  "read_bank_register ri j s = (let (v, s1) = ri_read ri (bank_register j) s in (ucast (v AND 0xf), s1))"

text \<open>The reads make sure that the write is finished.\<close>

definition write_bank_register :: "'hw register_interface \<Rightarrow> bpi_controller \<Rightarrow> u8 \<Rightarrow> 'hw \<Rightarrow> 'hw" where
  "write_bank_register ri j bank s =
     (let s1 = ri_write ri (bank_register j) (ucast bank AND bank_mask j) s;
          s2 = snd (read_bank_register ri j s1)
      in snd (read_bank_register ri j s2))"

definition get_active_bank :: "'hw register_interface \<Rightarrow> bpi_controller \<Rightarrow> 'hw \<Rightarrow> int \<times> 'hw" where
  "get_active_bank ri j s =
     (let (v, s1) = read_bank_register ri j s in (uint (v AND BANK_NUMBER_MASK), s1))"

definition is_cpld_change_busy :: "'hw register_interface \<Rightarrow> bpi_controller \<Rightarrow> 'hw \<Rightarrow> bool \<times> 'hw" where
  "is_cpld_change_busy ri j s =
     (let (v, s1) = read_bank_register ri j s in (v AND CPLD_BUSY_MASK \<noteq> 0, s1))"

fun poll_cpld :: "'hw register_interface \<Rightarrow> bpi_controller \<Rightarrow> nat \<Rightarrow> 'hw \<Rightarrow> 'hw" where
  "poll_cpld ri j 0 s = snd (is_cpld_change_busy ri j s)"
| "poll_cpld ri j (Suc n) s =
     (let (busy, s1) = is_cpld_change_busy ri j s in if busy then poll_cpld ri j n s1 else s1)"

definition wait_for_cpld_change_completion ::
    "'hw register_interface \<Rightarrow> ('hw \<Rightarrow> nat) \<Rightarrow> bpi_controller \<Rightarrow> 'hw \<Rightarrow> bool \<times> 'hw" where
  "wait_for_cpld_change_completion ri patience j s =
     (let (busy, s1) = is_cpld_change_busy ri j (poll_cpld ri j (patience s) s) in (\<not> busy, s1))"

definition write_bank_register_and_wait_for_completion ::
    "'hw register_interface \<Rightarrow> ('hw \<Rightarrow> nat) \<Rightarrow> bpi_controller \<Rightarrow> u8 \<Rightarrow> 'hw \<Rightarrow> bool \<times> 'hw" where
  "write_bank_register_and_wait_for_completion ri patience j bank s =
     wait_for_cpld_change_completion ri patience j (write_bank_register ri j bank s)"

text \<open>The bank is written twice, since the first write may get lost.\<close>

definition switch_bank ::
    "'hw register_interface \<Rightarrow> ('hw \<Rightarrow> nat) \<Rightarrow> bpi_controller \<Rightarrow> u8 \<Rightarrow> 'hw \<Rightarrow> bool \<times> 'hw" where
  "switch_bank ri patience j bank s =
     (let (change_succeeded, s1) = write_bank_register_and_wait_for_completion ri patience j bank s
      in if change_succeeded then write_bank_register_and_wait_for_completion ri patience j bank s1
         else (change_succeeded, s1))"

definition select_bank ::
    "'hw register_interface \<Rightarrow> ('hw \<Rightarrow> nat) \<Rightarrow> bpi_controller \<Rightarrow> u8 \<Rightarrow> 'hw \<Rightarrow> int \<times> bpi_controller \<times> 'hw" where
  "select_bank ri patience j bank s =
     (if ucast bank \<ge> bank_count j then (STATUS_ERR_INVALID_ARGUMENT, j, s)
      else
        let (change_succeeded, s1) = switch_bank ri patience j bank s
        in if \<not> change_succeeded then (STATUS_ERR_DEV_IO, j, s1)
           else (STATUS_OK, j\<lparr>selected_bank := ucast bank\<rparr>, s1))"

definition set_address ::
    "'hw register_interface \<Rightarrow> ('hw \<Rightarrow> nat) \<Rightarrow> bpi_controller \<Rightarrow> u32 \<Rightarrow> 'hw \<Rightarrow> int \<times> bpi_controller \<times> 'hw" where
  "set_address ri patience j adr s =
     (let bank = ucast (drop_bit (unat (address_reg_width j)) adr AND bank_mask j) :: u8;
          (ret, j1, s1) = (if ucast bank \<noteq> selected_bank j then select_bank ri patience j bank s else (0, j, s))
      in if ret \<noteq> 0 then (ret, j1, s1) else (0, j1, write_address_register ri j1 adr s1))"

definition invalidate_bank :: "bpi_controller \<Rightarrow> bpi_controller" where
  "invalidate_bank j = j\<lparr>selected_bank := 0xff\<rparr>"

section \<open>Commands\<close>

definition write_command :: "'hw register_interface \<Rightarrow> bpi_controller \<Rightarrow> u16 \<Rightarrow> 'hw \<Rightarrow> 'hw" where
  "write_command ri j cmd s = write_data_register ri j (WRITE_COMMAND OR ucast cmd) s"

definition write_command_increment_address :: "'hw register_interface \<Rightarrow> bpi_controller \<Rightarrow> u16 \<Rightarrow> 'hw \<Rightarrow> 'hw" where
  "write_command_increment_address ri j cmd s = write_data_register ri j (WRITE_INC_COMMAND OR ucast cmd) s"

definition write_command_address ::
    "'hw register_interface \<Rightarrow> ('hw \<Rightarrow> nat) \<Rightarrow> bpi_controller \<Rightarrow> u32 \<Rightarrow> u16 \<Rightarrow> 'hw \<Rightarrow> int \<times> bpi_controller \<times> 'hw" where
  "write_command_address ri patience j adr cmd s =
     (let (ret, j1, s1) = set_address ri patience j adr s
      in if ret \<noteq> 0 then (ret, j1, s1) else (0, j1, write_command ri j1 cmd s1))"

text \<open>Reads the data register until \<open>again\<close> is false or the timeout has elapsed: the last word, and how
  often the timeout would still be found not elapsed.\<close>

fun poll_data ::
    "'hw register_interface \<Rightarrow> bpi_controller \<Rightarrow> (u32 \<Rightarrow> bool) \<Rightarrow> nat \<Rightarrow> 'hw \<Rightarrow> u32 \<times> nat \<times> 'hw" where
  "poll_data ri j again 0 s = (let (r, s1) = read_data_register ri j s in (r, 0, s1))"
| "poll_data ri j again (Suc n) s =
     (let (r, s1) = read_data_register ri j s in if again r then poll_data ri j again n s1 else (r, Suc n, s1))"

definition wait_ready :: "'hw register_interface \<Rightarrow> ('hw \<Rightarrow> nat) \<Rightarrow> bpi_controller \<Rightarrow> 'hw \<Rightarrow> int \<times> 'hw" where
  "wait_ready ri patience j s =
     (let s1 = write_data_register ri j WAIT_COMMAND s;
          (r, _, s2) = poll_data ri j (\<lambda>r. r AND ReadFifoEmpty \<noteq> 0) (patience s1) s1
      in if r AND ReadFifoEmpty \<noteq> 0 then (-1, s2) else if r AND 0x80 = 0 then (-1, s2) else (0, s2))"

definition empty_fifo :: "'hw register_interface \<Rightarrow> ('hw \<Rightarrow> nat) \<Rightarrow> bpi_controller \<Rightarrow> 'hw \<Rightarrow> int \<times> 'hw" where
  "empty_fifo ri patience j s =
     (let (_, left, s1) =
            poll_data ri j (\<lambda>r. r AND WriteFifoEmpty = 0 \<or> r AND ReadFifoEmpty = 0) (patience s) s
      in if left = 0 then (-1, s1) else (0, s1))"

text \<open>The commands for a read of \<open>len\<close> words, and the words as they come.\<close>

definition read_commands :: "nat \<Rightarrow> u32 list" where
  "read_commands len =
     READ_COMMAND #
     (if len > 1 then
        READ_INC_COMMAND #
        (if len < 5 then replicate (len - 2) READ_INC_COMMAND
         else [READ_INC_COMMAND, READ_BURST_INC_COMMAND OR of_nat (len - 4)])
      else [])"

fun receive_words ::
    "'hw register_interface \<Rightarrow> ('hw \<Rightarrow> nat) \<Rightarrow> bpi_controller \<Rightarrow> nat \<Rightarrow> 'hw \<Rightarrow> int \<times> u16 list \<times> 'hw" where
  "receive_words ri patience j 0 s = (0, [], s)"
| "receive_words ri patience j (Suc n) s =
     (let (r, left, s1) = poll_data ri j (\<lambda>r. r AND ReadFifoEmpty \<noteq> 0) (patience s) s
      in if left = 0 then (-1, [], s1)
         else let (ret, ws, s2) = receive_words ri patience j n s1 in (ret, ucast (r AND 0xffff) # ws, s2))"

definition read_data ::
    "'hw register_interface \<Rightarrow> ('hw \<Rightarrow> nat) \<Rightarrow> bpi_controller \<Rightarrow> u32 \<Rightarrow> nat \<Rightarrow> 'hw
     \<Rightarrow> int \<times> u16 list \<times> bpi_controller \<times> 'hw" where
  "read_data ri patience j adr len s =
     (let (ret, j1, s1) = set_address ri patience j adr s
      in if ret \<noteq> 0 then (ret, [], j1, s1)
         else
           let s2 = fold (write_data_register ri j1) (read_commands len) s1;
               (ret, ws, s3) = receive_words ri patience j1 len s2
           in (ret, ws, j1, s3))"

section \<open>The handlers\<close>

type_synonym 'hw bpi = "(bpi_controller \<times> 'hw) controller"

text \<open>Words are little endian in the buffers; the address is big endian behind the first byte.\<close>

fun le_words :: "u8 list \<Rightarrow> u16 list" where
  "le_words (a # b # bs) = (ucast a OR push_bit 8 (ucast b)) # le_words bs"
| "le_words _ = []"

definition le_bytes :: "u16 list \<Rightarrow> u8 list" where
  "le_bytes ws = concat (map (\<lambda>w. [ucast w, ucast (drop_bit 8 w)]) ws)"

definition address_of :: "u8 list \<Rightarrow> u32" where
  "address_of buffer = foldl (\<lambda>a b. push_bit 8 a OR ucast b) 0 (tl buffer)"

definition write_words_shot :: "'hw register_interface \<Rightarrow> bpi_controller \<Rightarrow> u8 list \<Rightarrow> 'hw \<Rightarrow> 'hw option" where
  "write_words_shot ri j buffer s =
     (case le_words buffer of
        [] \<Rightarrow> None
      | w # ws \<Rightarrow> Some (fold (write_command_increment_address ri j) ws (write_command ri j w s)))"

definition bpi_write_shot ::
    "'hw register_interface \<Rightarrow> ('hw \<Rightarrow> nat) \<Rightarrow> u8 list \<Rightarrow> (bpi_controller \<times> 'hw) handler" where
  "bpi_write_shot ri patience buffer c =
     (if buffer = [] then Some (-1, c)
      else
        let (j, s) = port c;
            flags = bpi_flags j;
            s1 = (if flags AND BPI_OPERATION_WRITECMD \<noteq> 0 then write_command ri j (ucast (hd buffer)) s else s);
            j1 = (if flags AND BPI_OPERATION_SETADDRESS \<noteq> 0 then j\<lparr>bpi_address := address_of buffer\<rparr> else j);
            (ret, j2, s2) =
              (if flags AND BPI_OPERATION_WRITECMDADDRESS \<noteq> 0 then
                 write_command_address ri patience (j1\<lparr>bpi_address := address_of buffer\<rparr>) (address_of buffer)
                   (ucast (hd buffer)) s1
               else (0, j1, s1))
        in map_option (\<lambda>s3. (ret, c\<lparr>port := (j2, s3)\<rparr>))
             (if flags AND BPI_OPERATION_WRITEDATA \<noteq> 0 then write_words_shot ri j2 buffer s2 else Some s2))"

text \<open>The loop of a read: as many words as the read queue takes at a time, at \<open>index\<close> on.\<close>

function read_chunks ::
    "'hw register_interface \<Rightarrow> ('hw \<Rightarrow> nat) \<Rightarrow> u32 \<Rightarrow> nat \<Rightarrow> bpi_controller \<Rightarrow> 'hw
     \<Rightarrow> int \<times> u16 list \<times> bpi_controller \<times> 'hw" where
  "read_chunks ri patience index words_left j s =
     (if words_left = 0 then (0, [], j, s)
      else
        let len = min BPI_READ_FIFO_LENGTH words_left;
            (ret, ws, j1, s1) = read_data ri patience j (bpi_address j + index) len s
        in if ret \<noteq> 0 then (ret, ws, j1, s1)
           else
             let (ret, ws', j2, s2) = read_chunks ri patience (index + of_nat len) (words_left - len) j1 s1
             in (ret, ws @ ws', j2, s2))"
  by pat_completeness auto
termination
  by (relation "measure (\<lambda>(ri, patience, index, words_left, j, s). words_left)") auto

declare read_chunks.simps [simp del]

text \<open>The status of the loop is a variable of its own in the code and is not returned. \<open>old\<close> is what the buffer of
  the caller holds before.\<close>

definition bpi_read_shot ::
    "'hw register_interface \<Rightarrow> ('hw \<Rightarrow> nat) \<Rightarrow> u8 list \<Rightarrow> nat \<Rightarrow> 'hw bpi \<Rightarrow> ((int \<times> u8 list) \<times> 'hw bpi) option" where
  "bpi_read_shot ri patience old n c =
     (if n = 0 then Some ((-1, []), c)
      else
        let (j, s) = port c
        in if bpi_flags j AND BPI_OPERATION_READDATA \<noteq> 0 then
             let (_, ws, j1, s1) = read_chunks ri patience 0 (n div 2) j s
             in Some ((0, le_bytes ws @ drop (length (le_bytes ws)) (take n old)), c\<lparr>port := (j1, s1)\<rparr>)
           else Some ((0, take n old), c))"

text \<open>Commands: the identifier is the first 32 bits of the header. The first word of the data is the
  result, if there is one.\<close>

definition bpi_command ::
    "'hw register_interface \<Rightarrow> ('hw \<Rightarrow> nat) \<Rightarrow> u32 \<Rightarrow> u8 list \<Rightarrow> 'hw bpi \<Rightarrow> int \<times> int option \<times> 'hw bpi" where
  "bpi_command ri patience command_id command_data c =
     (let (j, s) = port c
      in if command_id = 1 then
           if length command_data < 4 then (STATUS_ERR_INVALID_ARGUMENT, None, c)
           else let (v, s1) = get_active_bank ri j s in (STATUS_OK, Some v, c\<lparr>port := (j, s1)\<rparr>)
         else if command_id = 0 then
           if length command_data < 4 then (STATUS_ERR_INVALID_ARGUMENT, None, c)
           else let (v, j1, s1) = select_bank ri patience j (hd command_data) s
                in (STATUS_OK, Some v, c\<lparr>port := (j1, s1)\<rparr>)
         else (STATUS_ERR_INVALID_ARGUMENT, None, c))"

definition bpi_execute_command ::
    "'hw register_interface \<Rightarrow> ('hw \<Rightarrow> nat) \<Rightarrow> u8 list \<Rightarrow> u8 list \<Rightarrow> (bpi_controller \<times> 'hw) handler" where
  "bpi_execute_command ri patience header command_data c =
     (case le_words header of
        low # high # _ \<Rightarrow>
          let (ret, _, c1) = bpi_command ri patience (ucast low OR push_bit 16 (ucast high)) command_data c
          in Some (ret, c1)
      | _ \<Rightarrow> None)"

definition bpi_handle_pre_burst_flags ::
    "'hw register_interface \<Rightarrow> ('hw \<Rightarrow> nat) \<Rightarrow> u32 \<Rightarrow> (bpi_controller \<times> 'hw) handler" where
  "bpi_handle_pre_burst_flags ri patience flags c =
     (let (j, s) = port c;
          j1 = j\<lparr>bpi_flags := flags\<rparr>;
          j2 = (if flags AND BPI_OPERATION_SELECT \<noteq> 0 then invalidate_bank j1 else j1);
          (ret, s1) = (if flags AND BPI_OPERATION_WAITREADY \<noteq> 0 then wait_ready ri patience j2 s else (0, s));
          s2 = (if flags AND BPI_OPERATION_EMPTYFIFO \<noteq> 0 then snd (empty_fifo ri patience j2 s1) else s1)
      in Some (ret, c\<lparr>port := (j2, s2)\<rparr>))"

definition bpi_handle_post_burst_flags :: "u32 \<Rightarrow> (bpi_controller \<times> 'hw) handler" where
  "bpi_handle_post_burst_flags flags c =
     (let (j, s) = port c; j1 = (if flags AND BPI_OPERATION_DESELECT \<noteq> 0 then invalidate_bank j else j)
      in Some (0, c\<lparr>port := (j1\<lparr>bpi_flags := 0\<rparr>, s)\<rparr>))"

definition bpi_cleanup :: "'hw bpi \<Rightarrow> 'hw bpi" where
  "bpi_cleanup c =
     c\<lparr>port := map_prod (\<lambda>j. (invalidate_bank j)\<lparr>bpi_address := 0xffffffff, bpi_flags := 0\<rparr>) id (port c)\<rparr>"

definition bpi_burst_aborted :: "'hw bpi \<Rightarrow> 'hw bpi" where
  "bpi_burst_aborted c = bpi_cleanup c"

definition bpi_ops ::
    "'hw register_interface \<Rightarrow> ('hw \<Rightarrow> nat) \<Rightarrow> u8 list \<Rightarrow> (bpi_controller \<times> 'hw) controller_ops" where
  "bpi_ops ri patience old = \<lparr>
     handle_begin_transaction = None,
     handle_end_transaction = None,
     handle_pre_burst_flags = bpi_handle_pre_burst_flags ri patience,
     handle_post_burst_flags = bpi_handle_post_burst_flags,
     write_shot = bpi_write_shot ri patience,
     request_read = (\<lambda>n c. Some (0, c)),
     read_shot = bpi_read_shot ri patience old,
     execute_command = bpi_execute_command ri patience,
     wait_for_write_queue_empty = (\<lambda>c. Some (0, c)),
     burst_aborted = bpi_burst_aborted,
     cleanup = bpi_cleanup,
     read_queue_size = BPI_READ_FIFO_LENGTH,
     max_bytes_per_read = 67108864,
     write_queue_size = 512,
     max_bytes_per_write = 67108864\<rparr>"

definition bpi_controller_init :: "u32 \<Rightarrow> u32 \<Rightarrow> u32 \<Rightarrow> u32 \<Rightarrow> u32 \<Rightarrow> 'hw \<Rightarrow> 'hw bpi" where
  "bpi_controller_init addr_reg data_reg bank_reg address_width bank_width s =
     (let w = address_width - bank_width
      in controller_base_init
        (\<lparr>address_register = addr_reg, data_register = data_reg, bank_register = bank_reg, selected_bank = 0xff,
          address_reg_width = w, address_mask = push_bit (unat w) 1 - 1, bank_mask = push_bit (unat bank_width) 1 - 1,
          bank_count = push_bit (unat bank_width) 1, bpi_address = 0xffffffff, bpi_flags = 0\<rparr>, s))"

end
