(* ===== verification/Bpi_Props.thy ===== *)
theory Bpi_Props
  imports Bpi
begin

text \<open>
  What the flash controller does to the flash: the bank and the word it addresses, the words it programs
  and those it takes from the device, read from the accesses to its registers.
\<close>

section \<open>The flash\<close>

record flash_wire =
  bank :: u32
  address :: u32
  counter :: u32
  programmed :: "(u32 \<times> u32 \<times> u16) list"
  delivered :: "u16 list"

definition flash_command :: "u32 \<Rightarrow> flash_wire \<Rightarrow> flash_wire" where
  "flash_command x w =
     (let k = (if bit x 20 then address w else counter w + (if bit x 22 then x AND 0xffff else 1))
      in if bit x 16 then w\<lparr>counter := k, programmed := programmed w @ [(bank w, k, ucast x)]\<rparr>
         else if bit x 17 then w\<lparr>counter := k\<rparr>
         else w)"

fun flash_step :: "bpi_controller \<Rightarrow> bus_event \<Rightarrow> flash_wire \<Rightarrow> flash_wire" where
  "flash_step j (Wr a x) w =
     (if a = bank_register j then w\<lparr>bank := x\<rparr>
      else if a = address_register j then w\<lparr>address := x\<rparr>
      else if a = data_register j then flash_command x w
      else w)"
| "flash_step j (Rd a x) w =
     (if a = data_register j \<and> x AND ReadFifoEmpty = 0 then w\<lparr>delivered := delivered w @ [ucast x]\<rparr> else w)"

definition flash_of :: "bpi_controller \<Rightarrow> bus_event list \<Rightarrow> flash_wire" where
  "flash_of j log = fold (flash_step j) log
     \<lparr>bank = 0, address = 0, counter = 0, programmed = [], delivered = []\<rparr>"

lemma flash_of_append [simp]: "flash_of j (log @ es) = fold (flash_step j) es (flash_of j log)"
  by (simp add: flash_of_def)

abbreviation on_flash :: "bpi_controller \<Rightarrow> 'hw \<times> bus_event list \<Rightarrow> flash_wire" where
  "on_flash j s \<equiv> flash_of j (snd s)"

text \<open>The geometry: \<open>w\<close> address bits and \<open>b\<close> bank bits, and three different registers.\<close>

definition bpi_ok :: "nat \<Rightarrow> nat \<Rightarrow> bpi_controller \<Rightarrow> bool" where
  "bpi_ok w b j \<longleftrightarrow>
     unat (address_reg_width j) = w \<and> address_mask j = mask w \<and> bank_mask j = mask b \<and> bank_count j = 2 ^ b
     \<and> w + b \<le> 32 \<and> b < 8
     \<and> address_register j \<noteq> data_register j \<and> bank_register j \<noteq> data_register j \<and> bank_register j \<noteq> address_register j"

text \<open>The driver knows the bank that is selected, or knows that it does not.\<close>

definition bank_known :: "bpi_controller \<Rightarrow> 'hw \<times> bus_event list \<Rightarrow> bool" where
  "bank_known j s \<longleftrightarrow> selected_bank j = 0xff \<or> selected_bank j = bank (on_flash j s)"

lemma read_bank_wire: "bpi_ok w b j \<Longrightarrow> on_flash j (snd (read_bank_register (logged ri) j s)) = on_flash j s"
  by (simp add: read_bank_register_def bpi_ok_def case_prod_beta Let_def)

lemma busy_wire: "bpi_ok w b j \<Longrightarrow> on_flash j (snd (is_cpld_change_busy (logged ri) j s)) = on_flash j s"
  using read_bank_wire [of w b j ri s] by (simp add: is_cpld_change_busy_def case_prod_beta Let_def)

lemma poll_cpld_wire: "bpi_ok w b j \<Longrightarrow> on_flash j (poll_cpld (logged ri) j n s) = on_flash j s"
  by (induction n arbitrary: s) (simp_all add: busy_wire case_prod_beta Let_def)

lemma wait_cpld_wire:
  "bpi_ok w b j \<Longrightarrow> on_flash j (snd (wait_for_cpld_change_completion (logged ri) pat j s)) = on_flash j s"
  by (simp add: wait_for_cpld_change_completion_def case_prod_beta Let_def busy_wire poll_cpld_wire)

lemma write_bank_wire:
  "bpi_ok w b j \<Longrightarrow> on_flash j (write_bank_register (logged ri) j k s) = (on_flash j s)\<lparr>bank := ucast k AND bank_mask j\<rparr>"
  by (simp add: write_bank_register_def case_prod_beta Let_def read_bank_wire)

lemma switch_bank_wire:
  "bpi_ok w b j \<Longrightarrow> on_flash j (snd (switch_bank (logged ri) pat j k s)) = (on_flash j s)\<lparr>bank := ucast k AND bank_mask j\<rparr>"
  by (simp add: switch_bank_def write_bank_register_and_wait_for_completion_def case_prod_beta Let_def
      wait_cpld_wire write_bank_wire)

lemma select_bank_wire:
  assumes "bpi_ok w b j" "select_bank (logged ri) pat j k s = (r, j', s')"
  shows "r = STATUS_ERR_INVALID_ARGUMENT \<and> j' = j \<and> s' = s
    \<or> on_flash j s' = (on_flash j s)\<lparr>bank := ucast k AND bank_mask j\<rparr> \<and> ucast k < bank_count j
      \<and> (r = STATUS_ERR_DEV_IO \<and> j' = j \<or> r = STATUS_OK \<and> j' = j\<lparr>selected_bank := ucast k\<rparr>)"
  using assms(2) switch_bank_wire [OF assms(1), of ri pat k s]
  by (auto simp: select_bank_def case_prod_beta Let_def not_le split: if_splits)


section \<open>Addressing\<close>

lemma flash_step_same_wiring [simp]: "flash_step (j\<lparr>selected_bank := x\<rparr>) = flash_step j"
proof (rule ext)
  fix e show "flash_step (j\<lparr>selected_bank := x\<rparr>) e = flash_step j e" by (cases e) auto
qed

lemma flash_of_same_wiring [simp]: "flash_of (j\<lparr>selected_bank := x\<rparr>) log = flash_of j log"
  by (simp add: flash_of_def)

definition bank_of :: "bpi_controller \<Rightarrow> u32 \<Rightarrow> u8" where
  "bank_of j adr = ucast (drop_bit (unat (address_reg_width j)) adr AND bank_mask j)"

lemma bank_of_facts:
  assumes "bpi_ok w b j"
  shows "(ucast (bank_of j adr) :: u32) = take_bit b (drop_bit w adr)" "(ucast (bank_of j adr) :: u32) \<noteq> 0xff"
    "ucast (bank_of j adr) AND bank_mask j = (ucast (bank_of j adr) :: u32)" "ucast (bank_of j adr) < bank_count j"
proof -
  have b: "b < 8" "unat (address_reg_width j) = w" "bank_mask j = mask b" "bank_count j = 2 ^ b" using assms by (auto simp: bpi_ok_def)
  show k: "(ucast (bank_of j adr) :: u32) = take_bit b (drop_bit w adr)"
    unfolding bank_of_def b(2,3) take_bit_eq_mask [symmetric]
    using b(1) by (intro bit_word_eqI) (auto simp: bit_ucast_iff bit_take_bit_iff)
  have lt: "unat (take_bit b x) < 2 ^ b" for x :: u32
    by (simp add: unsigned_take_bit_eq)
  have "(2::nat) ^ b \<le> 128" using b(1) power_increasing [of b 7 "2 :: nat"] by simp
  with lt [of "drop_bit w adr"] have "unat (take_bit b (drop_bit w adr)) < 255" by linarith
  then show "(ucast (bank_of j adr) :: u32) \<noteq> 0xff" unfolding k by auto
  show "ucast (bank_of j adr) AND bank_mask j = (ucast (bank_of j adr) :: u32)"
    unfolding k b(3) by (simp add: take_bit_eq_mask [symmetric])
  have "(2 :: u32) ^ b = of_nat (2 ^ b)" by simp
  then have "unat ((2 :: u32) ^ b) = 2 ^ b mod 2 ^ 32" by (simp only: unsigned_of_nat take_bit_eq_mod) simp
  with \<open>(2::nat) ^ b \<le> 128\<close> have "unat ((2 :: u32) ^ b) = 2 ^ b" by simp
  with lt [of "drop_bit w adr"] show "ucast (bank_of j adr) < bank_count j"
    unfolding k b(4) by (simp add: word_less_nat_alt)
qed

lemma set_address_wire:
  assumes "bpi_ok w b j" "bank_known j s" "set_address (logged ri) pat j adr s = (0, j', s')"
  shows "on_flash j s' = (on_flash j s)\<lparr>bank := ucast (bank_of j adr), address := adr AND address_mask j\<rparr>
    \<and> j' = j\<lparr>selected_bank := ucast (bank_of j adr)\<rparr>"
proof -
  note k = bank_of_facts [OF assms(1), of adr]
  have wr: "on_flash j (write_address_register (logged ri) j' adr s1) = (on_flash j s1)\<lparr>address := adr AND address_mask j\<rparr>"
    if "j' = j\<lparr>selected_bank := x\<rparr>" for x s1 and j'
    using assms(1) that by (auto simp: write_address_register_def bpi_ok_def)
  show ?thesis
  proof (cases "ucast (bank_of j adr) = selected_bank j")
    case True
    then have "j' = j" "s' = write_address_register (logged ri) j adr s"
      using assms(3) by (auto simp: set_address_def bank_of_def)
    moreover have "bank (on_flash j s) = ucast (bank_of j adr)" using assms(2) True k(2) by (simp add: bank_known_def)
    ultimately show ?thesis using wr [of j "selected_bank j" s] True by simp
  next
    case False
    obtain r j1 s1 where sel: "select_bank (logged ri) pat j (bank_of j adr) s = (r, j1, s1)"
      by (cases "select_bank (logged ri) pat j (bank_of j adr) s") auto
    have "r = 0" "j' = j1" "s' = write_address_register (logged ri) j1 adr s1"
      using assms(3) sel False by (auto simp: set_address_def bank_of_def split: if_splits)
    with select_bank_wire [OF assms(1) sel] k(3) wr show ?thesis by auto
  qed
qed


text \<open>C27: If setting an address succeeds, bank and address register together address the word that was asked for, modulo the
  size of the flash, whichever bank was selected before, as far as the driver knew it; and the driver knows the bank
  afterwards. This holds for any device and any timeout.\<close>

theorem bpi_set_address_selects_the_word:
  assumes "bpi_ok w b j" "bank_known j s" "set_address (logged ri) pat j adr s = (0, j', s')"
  shows "unat (bank (on_flash j' s')) * 2 ^ w + unat (address (on_flash j' s')) = unat adr mod 2 ^ (w + b)
    \<and> bank_known j' s' \<and> selected_bank j' = bank (on_flash j' s')"
proof -
  note f = set_address_wire [OF assms]
  have "address_mask j = mask w" using assms(1) by (simp add: bpi_ok_def)
  then have a: "unat (adr AND address_mask j) = unat adr mod 2 ^ w"
    by (simp only: take_bit_eq_mask [symmetric] unsigned_take_bit_eq take_bit_eq_mod [of _ "unat adr"])
  have k: "unat (ucast (bank_of j adr) :: u32) = unat adr div 2 ^ w mod 2 ^ b"
    unfolding bank_of_facts(1) [OF assms(1)]
    by (simp only: unsigned_take_bit_eq unat_drop_bit_eq) (simp only: take_bit_eq_mod drop_bit_eq_div)
  have "unat adr mod (2 ^ w * 2 ^ b) = 2 ^ w * (unat adr div 2 ^ w mod 2 ^ b) + unat adr mod 2 ^ w"
    by (rule mod_mult2_eq)
  with f a k show ?thesis by (simp add: bank_known_def power_add mult.commute)
qed

text \<open>If the switch to another bank fails, the driver still takes the bank it knew before for the selected one although the
  new bank has been written to the register: the next access to an address in the old bank succeeds without
  selecting it, and goes to the new bank. This is a bug.\<close>

theorem bpi_failed_switch_misdirects_the_next_access:
  assumes "bpi_ok w b j" "bank_known j s" "selected_bank j \<noteq> 0xff" "ucast k \<noteq> selected_bank j"
    "ucast k AND bank_mask j = (ucast k :: u32)"
    "select_bank (logged ri) pat j k s = (STATUS_ERR_DEV_IO, j1, s1)"
    "ucast (bank_of j adr) = selected_bank j"
  shows "\<exists>j' s'. set_address (logged ri) pat j1 adr s1 = (0, j', s')
    \<and> bank (on_flash j' s') = ucast k \<and> bank (on_flash j' s') \<noteq> ucast (bank_of j adr)"
proof -
  have 1: "on_flash j s1 = (on_flash j s)\<lparr>bank := ucast k\<rparr>" "j1 = j"
    using select_bank_wire [OF assms(1,6)] assms(5) by auto
  let ?s = "write_address_register (logged ri) j adr s1"
  have "set_address (logged ri) pat j1 adr s1 = (0, j, ?s)"
    using assms(7) 1(2) by (simp add: set_address_def bank_of_def)
  moreover have "bank (on_flash j ?s) = ucast k"
    using assms(1) 1(1) by (auto simp: write_address_register_def bpi_ok_def)
  ultimately show ?thesis using assms(4,7) by auto
qed

section \<open>Programming\<close>

lemma flash_command_bits:
  fixes x :: u16
  shows "bit (WRITE_COMMAND OR ucast x :: u32) 16" "bit (WRITE_COMMAND OR ucast x :: u32) 20"
    "bit (WRITE_INC_COMMAND OR ucast x :: u32) 16" "\<not> bit (WRITE_INC_COMMAND OR ucast x :: u32) 20"
    "\<not> bit (WRITE_INC_COMMAND OR ucast x :: u32) 22"
    "ucast (WRITE_COMMAND OR ucast x :: u32) = x" "ucast (WRITE_INC_COMMAND OR ucast x :: u32) = x"
proof -
  show "bit (WRITE_COMMAND OR ucast x :: u32) 16" "bit (WRITE_COMMAND OR ucast x :: u32) 20"
    "bit (WRITE_INC_COMMAND OR ucast x :: u32) 16" "\<not> bit (WRITE_INC_COMMAND OR ucast x :: u32) 20"
    "\<not> bit (WRITE_INC_COMMAND OR ucast x :: u32) 22"
    by (auto simp: bit_or_iff bit_ucast_iff dest: bit_imp_le_length)
  have e: "ucast (y OR ucast x :: u32) = ucast y OR x" for y
    by (rule bit_word_eqI) (auto simp: bit_ucast_iff bit_or_iff)
  have z: "ucast WRITE_COMMAND = (0 :: u16)" "ucast WRITE_INC_COMMAND = (0 :: u16)" by simp_all
  then show "ucast (WRITE_COMMAND OR ucast x :: u32) = x" "ucast (WRITE_INC_COMMAND OR ucast x :: u32) = x"
    unfolding e z by simp_all
qed

lemma write_command_wire:
  "bpi_ok w b j \<Longrightarrow> on_flash j (write_command (logged ri) j x s) = (on_flash j s)\<lparr>counter := address (on_flash j s),
     programmed := programmed (on_flash j s) @ [(bank (on_flash j s), address (on_flash j s), x)]\<rparr>"
  by (auto simp: write_command_def write_data_register_def flash_command_def flash_command_bits bpi_ok_def Let_def)

lemma write_increment_wire:
  "bpi_ok w b j \<Longrightarrow> on_flash j (write_command_increment_address (logged ri) j x s)
   = (on_flash j s)\<lparr>counter := counter (on_flash j s) + 1,
       programmed := programmed (on_flash j s) @ [(bank (on_flash j s), counter (on_flash j s) + 1, x)]\<rparr>"
  by (auto simp: write_command_increment_address_def write_data_register_def flash_command_def flash_command_bits bpi_ok_def Let_def)

text \<open>Words at consecutive addresses.\<close>

fun run_of :: "u32 \<Rightarrow> u32 \<Rightarrow> u16 list \<Rightarrow> (u32 \<times> u32 \<times> u16) list" where
  "run_of k a [] = []"
| "run_of k a (x # xs) = (k, a, x) # run_of k (a + 1) xs"

lemma increments_wire:
  assumes "bpi_ok w b j"
  shows "programmed (on_flash j (fold (write_command_increment_address (logged ri) j) xs s))
      = programmed (on_flash j s) @ run_of (bank (on_flash j s)) (counter (on_flash j s) + 1) xs"
proof (induction xs arbitrary: s)
  case (Cons x xs)
  then show ?case by (simp add: write_increment_wire [OF assms])
qed simp

text \<open>C28: A shot of data writes the words of the buffer, little endian and in order, to consecutive addresses of the selected bank,
  the first to the address that is set, on any device; a last odd byte is not written, and one byte alone makes the
  driver read behind the buffer.\<close>

theorem bpi_data_shot_programs_consecutive_words:
  assumes "bpi_ok w b (fst (port c))" "bpi_flags (fst (port c)) = BPI_OPERATION_WRITEDATA" "2 \<le> length buffer"
  shows "\<exists>c'. bpi_write_shot (logged ri) pat buffer c = Some (0, c') \<and> fst (port c') = fst (port c)
    \<and> programmed (on_flash (fst (port c)) (snd (port c')))
      = programmed (on_flash (fst (port c)) (snd (port c)))
        @ run_of (bank (on_flash (fst (port c)) (snd (port c)))) (address (on_flash (fst (port c)) (snd (port c))))
            (le_words buffer)
    \<and> length (le_words buffer) = length buffer div 2"
proof -
  obtain j s where c: "port c = (j, s)" by (cases "port c")
  obtain a b' bs where buf: "buffer = a # b' # bs" using assms(3) by (cases buffer rule: le_words.cases) auto
  have len: "length (le_words bs) = length bs div 2" for bs by (induction bs rule: le_words.induct) auto
  obtain x xs where ws: "le_words buffer = x # xs" using buf by simp
  let ?s = "fold (write_command_increment_address (logged ri) j) xs (write_command (logged ri) j x s)"
  have "bpi_write_shot (logged ri) pat buffer c = Some (0, c\<lparr>port := (j, ?s)\<rparr>)"
    using assms(2) c ws buf by (simp add: bpi_write_shot_def write_words_shot_def)
  moreover have "programmed (on_flash j ?s) = programmed (on_flash j s) @ run_of (bank (on_flash j s)) (address (on_flash j s)) (x # xs)"
    using assms(1) c by (simp add: increments_wire write_command_wire)
  ultimately show ?thesis using c ws len [of buffer] by auto
qed


section \<open>Reading\<close>

lemma set_address_keeps:
  "set_address ri pat j adr s = (r, j', s') \<Longrightarrow> \<exists>x. j' = j\<lparr>selected_bank := x\<rparr>"
proof -
  assume "set_address ri pat j adr s = (r, j', s')"
  then have "j' = j \<or> (\<exists>x. j' = j\<lparr>selected_bank := x\<rparr>)"
    by (auto simp: set_address_def select_bank_def Let_def case_prod_beta split: if_splits)
  moreover have "j = j\<lparr>selected_bank := selected_bank j\<rparr>" by simp
  ultimately show ?thesis by metis
qed

lemma poll_data_wire:
  assumes "bpi_ok w b j" "poll_data (logged ri) j (\<lambda>r. r AND ReadFifoEmpty \<noteq> 0) n s = (r, left, s')" "left \<noteq> 0"
  shows "on_flash j s' = (on_flash j s)\<lparr>delivered := delivered (on_flash j s) @ [ucast r]\<rparr>"
  using assms(2,3)
  by (induction n arbitrary: s) (auto simp: read_data_register_def Let_def split: if_splits)

lemma receive_words_wire:
  assumes "bpi_ok w b j" "receive_words (logged ri) pat j n s = (0, ws, s')"
  shows "on_flash j s' = (on_flash j s)\<lparr>delivered := delivered (on_flash j s) @ ws\<rparr> \<and> length ws = n"
  using assms(2)
proof (induction n arbitrary: s ws)
  case (Suc n)
  obtain r left s1 where p: "poll_data (logged ri) j (\<lambda>r. r AND ReadFifoEmpty \<noteq> 0) (pat s) s = (r, left, s1)"
    by (cases "poll_data (logged ri) j (\<lambda>r. r AND ReadFifoEmpty \<noteq> 0) (pat s) s") auto
  then have left: "left \<noteq> 0" using Suc.prems by (auto split: if_splits)
  obtain ws' where ws: "receive_words (logged ri) pat j n s1 = (0, ws', s')" "ws = ucast (r AND 0xffff) # ws'"
    using Suc.prems p left by (auto simp: Let_def split: prod.splits)
  have "r AND 0xffff = take_bit 16 r" by (simp add: take_bit_eq_mask mask_numeral)
  then have "(ucast (r AND 0xffff) :: u16) = ucast r" by (auto intro!: bit_word_eqI simp: bit_ucast_iff bit_take_bit_iff)
  with Suc.IH [OF ws(1)] poll_data_wire [OF assms(1) p left] ws(2) show ?case by simp
qed simp

lemma data_write_wire:
  "bpi_ok w b j \<Longrightarrow> delivered (on_flash j (write_data_register (logged ri) j x s)) = delivered (on_flash j s)
    \<and> bank (on_flash j (write_data_register (logged ri) j x s)) = bank (on_flash j s)"
  by (auto simp: write_data_register_def flash_command_def bpi_ok_def Let_def)

lemma data_writes_wire:
  assumes "bpi_ok w b j"
  shows "delivered (on_flash j (fold (write_data_register (logged ri) j) xs s)) = delivered (on_flash j s)
    \<and> bank (on_flash j (fold (write_data_register (logged ri) j) xs s)) = bank (on_flash j s)"
proof (induction xs arbitrary: s)
  case (Cons x xs)
  then show ?case using data_write_wire [OF assms, of ri x s] by simp
qed simp

lemma bpi_ok_selected [simp]: "bpi_ok w b (j\<lparr>selected_bank := x\<rparr>) = bpi_ok w b j"
  by (simp add: bpi_ok_def)

lemma read_data_wire:
  assumes "bpi_ok w b j" "bank_known j s" "read_data (logged ri) pat j adr len s = (0, ws, j', s')"
  shows "delivered (on_flash j s') = delivered (on_flash j s) @ ws \<and> length ws = len
    \<and> bank_known j' s' \<and> (\<exists>x. j' = j\<lparr>selected_bank := x\<rparr>)"
proof -
  obtain r j1 s1 where a: "set_address (logged ri) pat j adr s = (r, j1, s1)" by (cases "set_address (logged ri) pat j adr s") auto
  then have r: "r = 0" using assms(3) by (auto simp: read_data_def split: if_splits)
  note f = set_address_wire [OF assms(1,2) a [unfolded r]]
  obtain x where j1: "j1 = j\<lparr>selected_bank := x\<rparr>" using set_address_keeps [OF a] by blast
  then have ok: "bpi_ok w b j1" using assms(1) by simp
  let ?s2 = "fold (write_data_register (logged ri) j1) (read_commands len) s1"
  have rw: "receive_words (logged ri) pat j1 len ?s2 = (0, ws, s')" "j' = j1"
    using assms(3) a r by (auto simp: read_data_def Let_def split: prod.splits)
  note w = receive_words_wire [OF ok rw(1)] and d = data_writes_wire [OF ok, of ri "read_commands len" s1]
  have fl: "on_flash j1 s = on_flash j s" for s :: "'a \<times> bus_event list" unfolding j1 by simp
  show ?thesis using w d f rw(2) j1 unfolding fl by (auto simp: bank_known_def)
qed

lemma read_chunks_wire:
  assumes "bpi_ok w b j" "bank_known j s" "read_chunks (logged ri) pat index n j s = (0, ws, j', s')"
  shows "delivered (on_flash j s') = delivered (on_flash j s) @ ws \<and> length ws = n"
  using assms
proof (induction n arbitrary: index j s ws rule: less_induct)
  case (less n)
  show ?case
  proof (cases "n = 0")
    case True
    with less.prems(3) show ?thesis by (simp add: read_chunks.simps)
  next
    case False
    let ?len = "min BPI_READ_FIFO_LENGTH n"
    obtain r ws1 j1 s1 where rd: "read_data (logged ri) pat j (bpi_address j + index) ?len s = (r, ws1, j1, s1)"
      by (cases "read_data (logged ri) pat j (bpi_address j + index) ?len s") auto
    then have r: "r = 0" using less.prems(3) False by (subst (asm) read_chunks.simps) (auto simp: Let_def split: if_splits)
    obtain ws2 where rec: "read_chunks (logged ri) pat (index + of_nat ?len) (n - ?len) j1 s1 = (0, ws2, j', s')" "ws = ws1 @ ws2"
      using less.prems(3) False rd r by (subst (asm) read_chunks.simps) (auto simp: Let_def split: prod.splits)
    note 1 = read_data_wire [OF less.prems(1,2) rd [unfolded r]]
    then obtain x where j1: "j1 = j\<lparr>selected_bank := x\<rparr>" by blast
    have "delivered (on_flash j1 s') = delivered (on_flash j1 s1) @ ws2 \<and> length ws2 = n - ?len"
      using less.IH [OF _ _ _ rec(1)] False 1 less.prems(1) j1 by simp
    with 1 rec(2) j1 False show ?thesis by simp
  qed
qed


text \<open>A read of the flash controller that succeeds gives as many words as asked for, exactly those the device has delivered,
  in order, on any device, with any timeout and across banks.\<close>

theorem bpi_read_gives_the_delivered_words:
  assumes "bpi_ok w b j" "bank_known j s" "read_chunks (logged ri) pat 0 n j s = (0, ws, j', s')"
  shows "length ws = n \<and> delivered (on_flash j s') = delivered (on_flash j s) @ ws"
  using read_chunks_wire [OF assms] by simp

lemma poll_mute:
  assumes "\<And>s. fst (ri_read ri (data_register j) s) AND ReadFifoEmpty \<noteq> 0"
  shows "fst (snd (poll_data ri j (\<lambda>r. r AND ReadFifoEmpty \<noteq> 0) n s)) = 0"
  using assms by (induction n arbitrary: s) (auto simp: read_data_register_def Let_def case_prod_beta)

lemma read_data_mute:
  assumes "\<And>s. fst (ri_read ri (data_register j) s) AND ReadFifoEmpty \<noteq> 0" "0 < len"
  shows "\<exists>r j' s'. read_data ri pat j adr len s = (r, [], j', s') \<and> r \<noteq> 0"
proof -
  obtain r j1 s1 where a: "set_address ri pat j adr s = (r, j1, s1)" by (cases "set_address ri pat j adr s") auto
  obtain x where j1: "j1 = j\<lparr>selected_bank := x\<rparr>" using set_address_keeps [OF a] by blast
  obtain n where n: "len = Suc n" using assms(2) by (cases len) auto
  have "\<exists>s'. receive_words ri pat j1 len s = (-1, [], s')" for s
    using poll_mute [of ri j1] assms(1) j1 n by (simp add: Let_def case_prod_beta)
  then obtain s' where "receive_words ri pat j1 len (fold (write_data_register ri j1) (read_commands len) s1) = (-1, [], s')"
    by blast
  then show ?thesis using a by (cases "r = 0") (auto simp: read_data_def Let_def)
qed

lemma read_shot_mute:
  assumes "\<And>s. fst (ri_read ri (data_register (fst (port c))) s) AND ReadFifoEmpty \<noteq> 0" "0 < n"
  shows "\<exists>c'. bpi_read_shot ri pat old n c = Some ((0, take n old), c')"
proof -
  obtain j s where c: "port c = (j, s)" by (cases "port c")
  have "\<exists>r j' s'. read_chunks ri pat 0 (n div 2) j s = (r, [], j', s')"
  proof (cases "n div 2 = 0")
    case True
    then show ?thesis by (simp add: read_chunks.simps)
  next
    case False
    then have "0 < min BPI_READ_FIFO_LENGTH (n div 2)" by simp
    from read_data_mute [OF _ this, of ri j pat "bpi_address j + 0" s] assms(1) c False show ?thesis
      by (subst read_chunks.simps) (auto simp: Let_def)
  qed
  with assms(2) c show ?thesis by (auto simp: bpi_read_shot_def le_bytes_def)
qed

text \<open>A read burst of a flash that does not deliver anything returns success, and what the buffer of the caller held
  before as its data: the status of the reads is assigned to a second variable of the same name and lost. This is a
  bug: a failed read of the flash cannot be told from a good one.\<close>

theorem bpi_failed_read_returns_success:
  assumes "\<And>s. fst (ri_read ri (data_register (fst (port c))) s) AND ReadFifoEmpty \<noteq> 0"
    "0 < n" "n \<le> 67108864"
  shows "\<exists>c'. ctrl_read_burst (bpi_ops ri pat old) BPI_OPERATION_READDATA n c = Some (STATUS_OK, take n old, c')"
proof -
  let ?ops = "bpi_ops ri pat old"
  obtain j s where c: "port c = (j, s)" by (cases "port c")
  let ?j = "j\<lparr>bpi_flags := BPI_OPERATION_READDATA\<rparr>"
  define c1 where "c1 = c\<lparr>current_burst_flags := ucast (BPI_OPERATION_READDATA AND 0xff), port := (?j, s)\<rparr>"
  define c2 where "c2 = c1\<lparr>is_first_shot := True, is_last_shot := True\<rparr>"
  have pre: "handle_pre_burst_flags ?ops BPI_OPERATION_READDATA (c\<lparr>current_burst_flags := ucast (BPI_OPERATION_READDATA AND 0xff)\<rparr>)
      = Some (0, c1)"
    using c by (simp add: bpi_ops_def bpi_handle_pre_burst_flags_def c1_def)
  have "request_loop ?ops n i k 0 n c = Some (STATUS_OK, 0, n, c)" for i k c
    by (cases k) simp_all
  moreover have "max_bytes_per_read ?ops = 67108864" "request_read ?ops m d = Some (0, d)" for m d
    by (simp_all add: bpi_ops_def)
  ultimately have step: "request_loop ?ops n 0 (Suc k) n 0 c1 = Some (STATUS_OK, 0, n, c2)" for k
    using assms(2,3) by (simp add: c2_def Let_def)
  have "read_queue_size ?ops = Suc 15" by (simp add: bpi_ops_def)
  then have rq: "request_loop ?ops n 0 (read_queue_size ?ops) n 0 c1 = Some (STATUS_OK, 0, n, c2)"
    using step [of 15] by (simp only:)
  obtain c3 where sh: "bpi_read_shot ri pat old n (c2\<lparr>is_first_shot := True, is_last_shot := True\<rparr>) = Some ((0, take n old), c3)"
    using read_shot_mute [of ri "c2\<lparr>is_first_shot := True, is_last_shot := True\<rparr>" n pat old] assms(1,2) c by (auto simp: c2_def c1_def)
  have "read_loop ?ops 0 n [] (c2\<lparr>is_first_shot := True\<rparr>) = Some (STATUS_OK, take n old, c3\<lparr>is_first_shot := False\<rparr>)"
    using assms(2,3) sh by (subst read_loop.simps) (simp add: bpi_ops_def Let_def read_loop.simps [of _ 0 0])
  moreover have "\<exists>c'. finish_burst ?ops BPI_OPERATION_READDATA d = Some (STATUS_OK, c')" for d
    by (simp add: finish_burst_def bpi_ops_def bpi_handle_post_burst_flags_def case_prod_beta)
  ultimately show ?thesis using pre rq
    by (simp add: ctrl_read_burst_def Let_def del: request_loop.simps)
qed


section \<open>A flash of 64 MB\<close>

text \<open>A device that answers each read of a register with the same word, and a controller that knows bank 0.\<close>

definition still_device :: "(u32 \<Rightarrow> u32) \<Rightarrow> unit register_interface" where
  "still_device f = \<lparr>ri_read = (\<lambda>a s. (f a, s)), ri_write = (\<lambda>a x s. s)\<rparr>"

definition sample_bpi :: bpi_controller where
  "sample_bpi = (fst (port (bpi_controller_init 1 2 3 25 3 ())))\<lparr>selected_bank := 0\<rparr>"

lemma sample_bpi_simps [simp]:
  "address_register sample_bpi = 1" "data_register sample_bpi = 2" "bank_register sample_bpi = 3"
  "selected_bank sample_bpi = 0" "address_reg_width sample_bpi = 22" "address_mask sample_bpi = 0x3fffff"
  "bank_mask sample_bpi = 7" "bank_count sample_bpi = 8" "bpi_address sample_bpi = 0xffffffff"
  by (simp_all add: sample_bpi_def bpi_controller_init_def controller_base_init_def Let_def)

lemma sample_bpi_ok: "bpi_ok 22 3 sample_bpi" "bank_known sample_bpi (s, [])"
  by (simp_all add: bpi_ok_def bank_known_def flash_of_def mask_numeral mask_eq_exp_minus_1)

theorem bpi_set_address_selects_the_word_witness:
  "\<exists>j' s'. set_address (logged (still_device (\<lambda>_. 0))) (\<lambda>_. 0) sample_bpi 0x800007 ((), []) = (0, j', s')
    \<and> unat (bank (on_flash j' s')) * 2 ^ 22 + unat (address (on_flash j' s')) = unat (0x800007 :: u32) mod 2 ^ (22 + 3)"
proof -
  have "fst (set_address (logged (still_device (\<lambda>_. 0))) (\<lambda>_. 0) sample_bpi 0x800007 ((), [])) = 0"
    by (simp add: set_address_def select_bank_def switch_bank_def write_bank_register_and_wait_for_completion_def
        wait_for_cpld_change_completion_def is_cpld_change_busy_def read_bank_register_def still_device_def Let_def case_prod_beta)
  then obtain j' s' where a: "set_address (logged (still_device (\<lambda>_. 0))) (\<lambda>_. 0) sample_bpi 0x800007 ((), []) = (0, j', s')"
    by (metis prod.collapse)
  from bpi_set_address_selects_the_word [OF sample_bpi_ok a] a show ?thesis by blast
qed

theorem bpi_failed_switch_misdirects_the_next_access_witness:
  "\<exists>j1 s1 j' s'. select_bank (logged (still_device (\<lambda>_. 8))) (\<lambda>_. 0) sample_bpi 1 ((), []) = (STATUS_ERR_DEV_IO, j1, s1)
    \<and> set_address (logged (still_device (\<lambda>_. 8))) (\<lambda>_. 0) j1 5 s1 = (0, j', s') \<and> bank (on_flash j' s') = 1"
proof -
  have "fst (select_bank (logged (still_device (\<lambda>_. 8))) (\<lambda>_. 0) sample_bpi 1 ((), [])) = STATUS_ERR_DEV_IO"
    by (simp add: select_bank_def switch_bank_def write_bank_register_and_wait_for_completion_def word_le_nat_alt
        wait_for_cpld_change_completion_def is_cpld_change_busy_def read_bank_register_def still_device_def Let_def case_prod_beta)
  then obtain j1 s1 where s: "select_bank (logged (still_device (\<lambda>_. 8))) (\<lambda>_. 0) sample_bpi 1 ((), []) = (STATUS_ERR_DEV_IO, j1, s1)"
    by (metis prod.collapse)
  have "\<exists>j' s'. set_address (logged (still_device (\<lambda>_. 8))) (\<lambda>_. 0) j1 5 s1 = (0, j', s')
    \<and> bank (on_flash j' s') = ucast (1 :: u8) \<and> bank (on_flash j' s') \<noteq> ucast (bank_of sample_bpi 5)"
    by (rule bpi_failed_switch_misdirects_the_next_access [OF sample_bpi_ok _ _ _ s]) (simp_all add: bank_of_def)
  with s show ?thesis by auto
qed

theorem bpi_data_shot_programs_consecutive_words_witness:
  "\<exists>c'. bpi_write_shot (logged (still_device (\<lambda>_. 0))) (\<lambda>_. 0) [0x34, 0x12, 0x78, 0x56]
      (controller_base_init (sample_bpi\<lparr>bpi_flags := BPI_OPERATION_WRITEDATA\<rparr>, ((), []))) = Some (0, c')
    \<and> programmed (on_flash (sample_bpi\<lparr>bpi_flags := BPI_OPERATION_WRITEDATA\<rparr>) (snd (port c'))) = [(0, 0, 0x1234), (0, 1, 0x5678)]"
  using bpi_data_shot_programs_consecutive_words [of 22 3
      "controller_base_init (sample_bpi\<lparr>bpi_flags := BPI_OPERATION_WRITEDATA\<rparr>, ((), []))" "[0x34, 0x12, 0x78, 0x56]"
      "still_device (\<lambda>_. 0)" "\<lambda>_. 0"]
  by (auto simp: controller_base_init_def bpi_ok_def mask_eq_exp_minus_1 flash_of_def)

theorem bpi_read_gives_the_delivered_words_witness:
  "\<exists>ws j' s'. read_chunks (logged (still_device (\<lambda>_. 5))) (\<lambda>_. 1) 0 1 (sample_bpi\<lparr>bpi_address := 7\<rparr>) ((), []) = (0, ws, j', s')
    \<and> length ws = 1 \<and> delivered (on_flash (sample_bpi\<lparr>bpi_address := 7\<rparr>) s') = ws"
proof -
  have ok: "bpi_ok 22 3 (sample_bpi\<lparr>bpi_address := 7\<rparr>)" "bank_known (sample_bpi\<lparr>bpi_address := 7\<rparr>) (s, [])" for s :: unit
    by (simp_all add: bpi_ok_def bank_known_def flash_of_def mask_eq_exp_minus_1)
  have "\<exists>ws j' s'. read_chunks (logged (still_device (\<lambda>_. 5))) (\<lambda>_. 1) 0 1 (sample_bpi\<lparr>bpi_address := 7\<rparr>) ((), []) = (0, ws, j', s')"
    by (simp add: read_chunks.simps read_data_def set_address_def read_commands_def receive_words.simps read_data_register_def
        write_data_register_def write_address_register_def still_device_def Let_def case_prod_beta)
  then obtain ws j' s' where r: "read_chunks (logged (still_device (\<lambda>_. 5))) (\<lambda>_. 1) 0 1 (sample_bpi\<lparr>bpi_address := 7\<rparr>) ((), [])
      = (0, ws, j', s')" by blast
  from bpi_read_gives_the_delivered_words [OF ok r] have "length ws = 1"
    "delivered (on_flash (sample_bpi\<lparr>bpi_address := 7\<rparr>) s') = ws" by (simp_all add: flash_of_def)
  with r show ?thesis by blast
qed

theorem bpi_failed_read_returns_success_witness:
  "\<exists>c'. ctrl_read_burst (bpi_ops (still_device (\<lambda>_. ReadFifoEmpty)) (\<lambda>_. 3) [1, 2, 3, 4]) BPI_OPERATION_READDATA 4
      (controller_base_init (sample_bpi, ())) = Some (STATUS_OK, [1, 2, 3, 4], c')"
  using bpi_failed_read_returns_success [of "still_device (\<lambda>_. ReadFifoEmpty)" "controller_base_init (sample_bpi, ())" 4 "\<lambda>_. 3" "[1, 2, 3, 4]"]
  by (simp add: still_device_def)

end
