(* ===== verification/Transaction.thy ===== *)
theory Transaction
  imports I2c
begin

text \<open>
  Transactions of user space with a bus controller: \<^verbatim>\<open>process_transaction\<close> and the two handlers that
  call it (\<^verbatim>\<open>linux/menable_ioctl.c\<close>), over the methods that \<^verbatim>\<open>controller_base_init\<close> and
  \<^verbatim>\<open>controller_base_super_init\<close> (\<^verbatim>\<open>lib/controllers/controller_base.c\<close>) install. The copies from and to
  user memory and \<^verbatim>\<open>vmalloc\<close> are services of the kernel, whose state is \<open>'u\<close>.
\<close>

section \<open>The methods of a controller\<close>

text \<open>
  \<open>m_read_burst\<close> gets the contents of the buffer and gives those it has afterwards;
  \<open>m_handle_post_burst_flags\<close> may be a null pointer.
\<close>

record 's controller_methods =
  m_begin_transaction :: "'s \<Rightarrow> (int \<times> 's) option"
  m_end_transaction :: "'s \<Rightarrow> 's"
  m_write_burst :: "u32 \<Rightarrow> u8 list \<Rightarrow> 's \<Rightarrow> (int \<times> 's) option"
  m_read_burst :: "u32 \<Rightarrow> u8 list \<Rightarrow> 's \<Rightarrow> (int \<times> u8 list \<times> 's) option"
  m_command_execution_burst :: "u8 list \<Rightarrow> 's \<Rightarrow> (int \<times> 's) option"
  m_handle_post_burst_flags :: "(u32 \<Rightarrow> 's \<Rightarrow> (int \<times> 's) option) option"

text \<open>A burst of \<open>bs\<close> into a buffer: what it does not overwrite stays.\<close>

definition into_buffer :: "u8 list \<Rightarrow> u8 list \<Rightarrow> u8 list" where
  "into_buffer old bs = bs @ drop (length bs) old"

definition command_header_size :: nat where "command_header_size = 8"

definition base_methods :: "'s controller_ops \<Rightarrow> 's controller controller_methods" where
  "base_methods ops = \<lparr>
     m_begin_transaction = ctrl_begin_transaction ops,
     m_end_transaction = ctrl_end_transaction ops,
     m_write_burst = ctrl_write_burst ops,
     m_read_burst = (\<lambda>flags old c. map_option (\<lambda>(ret, bs, c1). (ret, into_buffer old bs, c1))
        (ctrl_read_burst ops flags (length old) c)),
     m_command_execution_burst = ctrl_command_execution_burst ops command_header_size,
     m_handle_post_burst_flags = Some (handle_post_burst_flags ops)\<rparr>"

definition command_execution_burst_not_supported :: "u8 list \<Rightarrow> 's \<Rightarrow> (int \<times> 's) option" where
  "command_execution_burst_not_supported buffer c = Some (STATUS_ERR_INVALID_OPERATION, c)"

definition controller_base_super_init ::
    "('s \<Rightarrow> (int \<times> 's) option) \<Rightarrow> ('s \<Rightarrow> 's) \<Rightarrow> (u32 \<Rightarrow> u8 list \<Rightarrow> 's \<Rightarrow> (int \<times> u8 list \<times> 's) option)
     \<Rightarrow> (u32 \<Rightarrow> u8 list \<Rightarrow> 's \<Rightarrow> (int \<times> 's) option) \<Rightarrow> (u8 list \<Rightarrow> 's \<Rightarrow> (int \<times> 's) option) option
     \<Rightarrow> 's controller_methods" where
  "controller_base_super_init begin_ta end_ta read_b write_b command = \<lparr>
     m_begin_transaction = begin_ta,
     m_end_transaction = end_ta,
     m_write_burst = write_b,
     m_read_burst = read_b,
     m_command_execution_burst =
       (case command of Some f \<Rightarrow> f | None \<Rightarrow> command_execution_burst_not_supported),
     m_handle_post_burst_flags = None\<rparr>"

definition i2c_bus_methods ::
    "'hw register_interface \<Rightarrow> ('hw \<Rightarrow> nat) \<Rightarrow> u8 \<Rightarrow> 'hw i2c controller_methods" where
  "i2c_bus_methods ri patience bank = controller_base_super_init
     (i2c_begin_transaction ri patience bank)
     (i2c_end_transaction ri patience)
     (\<lambda>flags old c. map_option (\<lambda>(ret, bs, c1). (ret, into_buffer old bs, c1))
        (i2c_read_burst ri patience flags (length old) c))
     (i2c_write_burst ri patience)
     None"

section \<open>Headers in user memory\<close>

record burst_header =
  bh_type :: u32
  bh_flags :: u32
  buffer_address :: u64
  bh_len :: u32

record transaction_header =
  peripheral :: u32
  num_bursts :: u32
  burst_headers_address :: u64

abbreviation BURST_TYPE_NONE :: u32 where "BURST_TYPE_NONE \<equiv> 0"
abbreviation BURST_TYPE_WRITE :: u32 where "BURST_TYPE_WRITE \<equiv> 1"
abbreviation BURST_TYPE_READ :: u32 where "BURST_TYPE_READ \<equiv> 2"
abbreviation BURST_TYPE_STATE_CHANGE :: u32 where "BURST_TYPE_STATE_CHANGE \<equiv> 3"
abbreviation BURST_TYPE_COMMAND :: u32 where "BURST_TYPE_COMMAND \<equiv> 4"

text \<open>The structures are packed and little endian. The characters are D, U, M and Y.\<close>

definition DUMMY_PERIPHERAL_ID :: u32 where
  "DUMMY_PERIPHERAL_ID = push_bit 24 0x44 OR push_bit 16 0x55 OR push_bit 8 0x4d OR 0x59"

definition le_field :: "nat \<Rightarrow> nat \<Rightarrow> u8 list \<Rightarrow> 'w::len word" where
  "le_field off n bs = foldr (\<lambda>b acc. ucast b OR push_bit 8 acc) (take n (drop off bs)) 0"

definition burst_header_of :: "u8 list \<Rightarrow> burst_header" where
  "burst_header_of bs = \<lparr>bh_type = le_field 0 4 bs, bh_flags = le_field 4 4 bs,
     buffer_address = le_field 8 8 bs, bh_len = le_field 16 4 bs\<rparr>"

definition transaction_header_of :: "u8 list \<Rightarrow> transaction_header" where
  "transaction_header_of bs = \<lparr>peripheral = le_field 8 4 bs, num_bursts = le_field 12 4 bs,
     burst_headers_address = le_field 16 8 bs\<rparr>"

definition sizeof_burst_header :: nat where "sizeof_burst_header = 20"
definition sizeof_transaction_header :: nat where "sizeof_transaction_header = 24"

section \<open>The kernel around a transaction\<close>

text \<open>
  A copy gives the bytes the destination has afterwards, and the number of those not copied.
  \<open>live_buffers\<close> counts what is allocated, \<open>lock_held\<close> is the mutex of the controller.
\<close>

record 'u kernel_services =
  copy_from_user :: "u64 \<Rightarrow> nat \<Rightarrow> 'u \<Rightarrow> u8 list \<times> nat"
  copy_to_user :: "u64 \<Rightarrow> u8 list \<Rightarrow> 'u \<Rightarrow> nat \<times> 'u"
  vmalloc :: "nat \<Rightarrow> 'u \<Rightarrow> u8 list option \<times> 'u"

record ('s, 'u) tx_state =
  tx_ctrl :: 's
  tx_user :: 'u
  live_buffers :: nat
  lock_held :: bool

text \<open>
  A null pointer is called or handed on as a buffer; or a method of the controller does not return.
\<close>

datatype 'a outcome = Done 'a | Null_pointer | Stuck

primrec and_then :: "'a outcome \<Rightarrow> ('a \<Rightarrow> 'b outcome) \<Rightarrow> 'b outcome" where
  "and_then (Done a) f = f a"
| "and_then Null_pointer f = Null_pointer"
| "and_then Stuck f = Stuck"

definition run_method :: "('s \<Rightarrow> (int \<times> 's) option) \<Rightarrow> ('s, 'u) tx_state \<Rightarrow> (int \<times> ('s, 'u) tx_state) outcome" where
  "run_method f w =
     (case f (tx_ctrl w) of None \<Rightarrow> Stuck | Some (ret, c) \<Rightarrow> Done (ret, w\<lparr>tx_ctrl := c\<rparr>))"

definition allocate :: "'u kernel_services \<Rightarrow> nat \<Rightarrow> ('s, 'u) tx_state \<Rightarrow> u8 list option \<times> ('s, 'u) tx_state" where
  "allocate k n w =
     (let (buf, u) = vmalloc k n (tx_user w)
      in (buf, w\<lparr>tx_user := u, live_buffers := live_buffers w + (if buf = None then 0 else 1)\<rparr>))"

definition vfree :: "('s, 'u) tx_state \<Rightarrow> ('s, 'u) tx_state" where
  "vfree w = w\<lparr>live_buffers := live_buffers w - 1\<rparr>"

section \<open>One burst\<close>

text \<open>The result tells whether the loop goes on; otherwise the burst has jumped to the error label.\<close>

type_synonym ('s, 'u) burst_result = "(bool \<times> ('s, 'u) tx_state) outcome"

definition write_case ::
    "'u kernel_services \<Rightarrow> 's controller_methods \<Rightarrow> burst_header \<Rightarrow> ('s, 'u) tx_state \<Rightarrow> ('s, 'u) burst_result" where
  "write_case k m bh w =
     (case allocate k (unat (bh_len bh)) w of
        (None, w1) \<Rightarrow> Null_pointer
      | (Some _, w1) \<Rightarrow>
          let (bytes, missing) = copy_from_user k (buffer_address bh) (unat (bh_len bh)) (tx_user w1)
          in if missing \<noteq> 0 then Done (False, vfree w1)
             else and_then (run_method (m_write_burst m (bh_flags bh) bytes) w1)
               (\<lambda>(ret, w2). Done (ret = 0, vfree w2)))"

definition read_case ::
    "'u kernel_services \<Rightarrow> 's controller_methods \<Rightarrow> burst_header \<Rightarrow> ('s, 'u) tx_state \<Rightarrow> ('s, 'u) burst_result" where
  "read_case k m bh w =
     (case allocate k (unat (bh_len bh)) w of
        (None, w1) \<Rightarrow> Null_pointer
      | (Some old, w1) \<Rightarrow>
          (case m_read_burst m (bh_flags bh) old (tx_ctrl w1) of
             None \<Rightarrow> Stuck
           | Some (ret, bytes, c) \<Rightarrow>
               let w2 = w1\<lparr>tx_ctrl := c\<rparr>
               in if ret \<noteq> 0 then Done (False, vfree w2)
                  else let (missing, u) = copy_to_user k (buffer_address bh) bytes (tx_user w2)
                       in Done (missing = 0, vfree (w2\<lparr>tx_user := u\<rparr>))))"

definition state_change_case :: "'s controller_methods \<Rightarrow> burst_header \<Rightarrow> ('s, 'u) tx_state \<Rightarrow> ('s, 'u) burst_result" where
  "state_change_case m bh w =
     (case m_handle_post_burst_flags m of
        None \<Rightarrow> Null_pointer
      | Some f \<Rightarrow> and_then (run_method (f (bh_flags bh)) w) (\<lambda>(ret, w1). Done (ret = 0, w1)))"

definition command_case ::
    "'u kernel_services \<Rightarrow> 's controller_methods \<Rightarrow> burst_header \<Rightarrow> ('s, 'u) tx_state \<Rightarrow> ('s, 'u) burst_result" where
  "command_case k m bh w =
     (case allocate k (unat (bh_len bh)) w of
        (None, w1) \<Rightarrow> Done (False, w1)
      | (Some _, w1) \<Rightarrow>
          let (bytes, missing) = copy_from_user k (buffer_address bh) (unat (bh_len bh)) (tx_user w1)
          in if missing \<noteq> 0 then Done (False, vfree w1)
             else and_then (run_method (m_command_execution_burst m bytes) w1)
               (\<lambda>(ret, w2). Done (ret = 0, vfree w2)))"

definition process_burst ::
    "'u kernel_services \<Rightarrow> 's controller_methods \<Rightarrow> burst_header \<Rightarrow> ('s, 'u) tx_state \<Rightarrow> ('s, 'u) burst_result" where
  "process_burst k m bh w =
     (if bh_len bh \<le> 0 \<and> bh_type bh \<noteq> BURST_TYPE_STATE_CHANGE then Done (True, w)
      else if bh_type bh = BURST_TYPE_WRITE then write_case k m bh w
      else if bh_type bh = BURST_TYPE_READ then read_case k m bh w
      else if bh_type bh = BURST_TYPE_STATE_CHANGE then state_change_case m bh w
      else if bh_type bh = BURST_TYPE_COMMAND then command_case k m bh w
      else Done (True, w))"

section \<open>A transaction\<close>

text \<open>
  The header of a burst is read when its turn comes, and the outcome of that copy is ignored. The
  index is an \<^verbatim>\<open>int\<close> that is compared with an unsigned number.
\<close>

definition header_address :: "u64 \<Rightarrow> nat \<Rightarrow> u64" where
  "header_address base i = base + of_nat sizeof_burst_header * scast (of_nat i :: u32)"

definition fetch_header :: "'u kernel_services \<Rightarrow> u64 \<Rightarrow> nat \<Rightarrow> 'u \<Rightarrow> burst_header" where
  "fetch_header k base i u = burst_header_of (fst (copy_from_user k (header_address base i) sizeof_burst_header u))"

fun process_bursts ::
    "'u kernel_services \<Rightarrow> 's controller_methods \<Rightarrow> u64 \<Rightarrow> nat \<Rightarrow> nat \<Rightarrow> ('s, 'u) tx_state \<Rightarrow> ('s, 'u) burst_result" where
  "process_bursts k m base i 0 w = Done (True, w)"
| "process_bursts k m base i (Suc n) w =
     and_then (process_burst k m (fetch_header k base i (tx_user w)) w) (\<lambda>(ok, w1).
       if ok then process_bursts k m base (Suc i) n w1 else Done (False, w1))"

definition mutex_lock :: "('s, 'u) tx_state \<Rightarrow> ('s, 'u) tx_state" where
  "mutex_lock w = w\<lparr>lock_held := True\<rparr>"

definition mutex_unlock :: "('s, 'u) tx_state \<Rightarrow> ('s, 'u) tx_state" where
  "mutex_unlock w = w\<lparr>lock_held := False\<rparr>"

definition run_bursts ::
    "'u kernel_services \<Rightarrow> 's controller_methods \<Rightarrow> transaction_header \<Rightarrow> ('s, 'u) tx_state
     \<Rightarrow> (int \<times> ('s, 'u) tx_state) outcome" where
  "run_bursts k m th w =
     and_then (run_method (m_begin_transaction m) (mutex_lock w)) (\<lambda>(ret, w1).
       if ret \<noteq> 0 then Done (- EFAULT, mutex_unlock w1)
       else and_then (process_bursts k m (burst_headers_address th) 0 (unat (num_bursts th)) w1) (\<lambda>(ok, w2).
         if ok then Done (0, mutex_unlock (w2\<lparr>tx_ctrl := m_end_transaction m (tx_ctrl w2)\<rparr>))
         else Done (- EFAULT, mutex_unlock w2)))"

text \<open>\<open>get_controller\<close> is a null pointer on boards without peripherals.\<close>

definition process_transaction ::
    "'u kernel_services \<Rightarrow> (u32 \<Rightarrow> 's controller_methods option) option \<Rightarrow> transaction_header
     \<Rightarrow> ('s, 'u) tx_state \<Rightarrow> (int \<times> ('s, 'u) tx_state) outcome" where
  "process_transaction k get_controller th w =
     (if peripheral th = DUMMY_PERIPHERAL_ID then Done (0, w)
      else case get_controller of
        None \<Rightarrow> Done (- ENODEV, w)
      | Some get \<Rightarrow>
          (case get (peripheral th) of
             None \<Rightarrow> Done (- EINVAL, w)
           | Some m \<Rightarrow> run_bursts k m th w))"

definition men_compat_ioctl_data_transfer ::
    "'u kernel_services \<Rightarrow> (u32 \<Rightarrow> 's controller_methods option) option \<Rightarrow> u64
     \<Rightarrow> ('s, 'u) tx_state \<Rightarrow> (int \<times> ('s, 'u) tx_state) outcome" where
  "men_compat_ioctl_data_transfer k get_controller arg w =
     (let (bytes, missing) = copy_from_user k arg sizeof_transaction_header (tx_user w)
      in if missing \<noteq> 0 then Done (- EFAULT, w)
         else process_transaction k get_controller (transaction_header_of bytes) w)"

definition men_ioctl_data_transfer ::
    "'u kernel_services \<Rightarrow> (u32 \<Rightarrow> 's controller_methods option) option \<Rightarrow> nat \<Rightarrow> u64
     \<Rightarrow> ('s, 'u) tx_state \<Rightarrow> (int \<times> ('s, 'u) tx_state) outcome" where
  "men_ioctl_data_transfer k get_controller io_size arg w =
     (if io_size < sizeof_transaction_header then Done (- EINVAL, w)
      else
        let (bytes, missing) = copy_from_user k arg sizeof_transaction_header (tx_user w)
        in if missing \<noteq> 0 then Done (- EFAULT, w)
           else process_transaction k get_controller (transaction_header_of bytes) w)"

section \<open>The controllers of a board\<close>

text \<open>
  \<^verbatim>\<open>me6_impulse_get_controller\<close> and \<^verbatim>\<open>me6_abacus_get_controller\<close>: a bus of the list, or the SPI
  controller. The buses share a state, the SPI controller has its own.
\<close>

definition on_fst :: "'a controller_methods \<Rightarrow> ('a \<times> 'b) controller_methods" where
  "on_fst m = \<lparr>
     m_begin_transaction = (\<lambda>(a, b). map_option (\<lambda>(r, a). (r, a, b)) (m_begin_transaction m a)),
     m_end_transaction = (\<lambda>(a, b). (m_end_transaction m a, b)),
     m_write_burst = (\<lambda>f bs (a, b). map_option (\<lambda>(r, a). (r, a, b)) (m_write_burst m f bs a)),
     m_read_burst = (\<lambda>f old (a, b). map_option (\<lambda>(r, bs, a). (r, bs, a, b)) (m_read_burst m f old a)),
     m_command_execution_burst = (\<lambda>bs (a, b). map_option (\<lambda>(r, a). (r, a, b)) (m_command_execution_burst m bs a)),
     m_handle_post_burst_flags = map_option (\<lambda>h f (a, b). map_option (\<lambda>(r, a). (r, a, b)) (h f a))
       (m_handle_post_burst_flags m)\<rparr>"

definition on_snd :: "'b controller_methods \<Rightarrow> ('a \<times> 'b) controller_methods" where
  "on_snd m = \<lparr>
     m_begin_transaction = (\<lambda>(a, b). map_option (\<lambda>(r, b). (r, a, b)) (m_begin_transaction m b)),
     m_end_transaction = (\<lambda>(a, b). (a, m_end_transaction m b)),
     m_write_burst = (\<lambda>f bs (a, b). map_option (\<lambda>(r, b). (r, a, b)) (m_write_burst m f bs b)),
     m_read_burst = (\<lambda>f old (a, b). map_option (\<lambda>(r, bs, b). (r, bs, a, b)) (m_read_burst m f old b)),
     m_command_execution_burst = (\<lambda>bs (a, b). map_option (\<lambda>(r, b). (r, a, b)) (m_command_execution_burst m bs b)),
     m_handle_post_burst_flags = map_option (\<lambda>h f (a, b). map_option (\<lambda>(r, b). (r, a, b)) (h f b))
       (m_handle_post_burst_flags m)\<rparr>"

text \<open>The ids and banks of the buses, and the id of the SPI controller.\<close>

definition me6_get_controller ::
    "(u32 \<times> 'a controller_methods) list \<Rightarrow> u32 \<Rightarrow> 'b controller_methods \<Rightarrow> u32
     \<Rightarrow> ('a \<times> 'b) controller_methods option" where
  "me6_get_controller i2c_busses spi_id spi pid =
     (case map_of i2c_busses pid of
        Some m \<Rightarrow> Some (on_fst m)
      | None \<Rightarrow> if pid = spi_id then Some (on_snd spi) else None)"

end
