(* ===== verification/Transaction_Props.thy ===== *)
theory Transaction_Props
  imports Transaction Spi_V2_Props
begin

text \<open>
  What a transaction leaves behind, which bursts it runs, and what it does to the wire of the SPI
  controller of a board.
\<close>

section \<open>Outcomes\<close>

lemma and_then_Done: "and_then x f = Done r \<longleftrightarrow> (\<exists>a. x = Done a \<and> f a = Done r)"
  by (cases x) auto

lemma run_method_Done:
  "run_method f w = Done (ret, w') \<longleftrightarrow> (\<exists>c. f (tx_ctrl w) = Some (ret, c) \<and> w' = w\<lparr>tx_ctrl := c\<rparr>)"
  by (auto simp: run_method_def split: option.splits)

lemmas burst_cases = write_case_def read_case_def state_change_case_def command_case_def

lemma allocated:
  assumes "allocate k n w = (buf, w1)"
  shows "lock_held w1 = lock_held w" "tx_ctrl w1 = tx_ctrl w" "tx_user w1 = snd (vmalloc k n (tx_user w))"
    "live_buffers w1 = live_buffers w + (if buf = None then 0 else 1)"
  using assms by (auto simp: allocate_def split: prod.splits)

section \<open>Nothing is left behind\<close>

definition same_resources :: "('s, 'u) tx_state \<Rightarrow> ('s, 'u) tx_state \<Rightarrow> bool" where
  "same_resources w w' \<longleftrightarrow> lock_held w' = lock_held w \<and> live_buffers w' = live_buffers w"

lemma same_resources_refl [simp]: "same_resources w w"
  by (simp add: same_resources_def)

lemma same_resources_trans: "same_resources a b \<Longrightarrow> same_resources b c \<Longrightarrow> same_resources a c"
  by (simp add: same_resources_def)

lemma write_case_resources: "write_case k m bh w = Done (ok, w') \<Longrightarrow> same_resources w w'"
  by (auto simp: write_case_def same_resources_def vfree_def and_then_Done run_method_Done
      dest: allocated split: prod.splits option.splits if_splits)

lemma read_case_resources: "read_case k m bh w = Done (ok, w') \<Longrightarrow> same_resources w w'"
  by (auto simp: read_case_def same_resources_def vfree_def Let_def
      dest: allocated split: prod.splits option.splits if_splits)

lemma command_case_resources: "command_case k m bh w = Done (ok, w') \<Longrightarrow> same_resources w w'"
  by (auto simp: command_case_def same_resources_def vfree_def and_then_Done run_method_Done
      dest: allocated split: prod.splits option.splits if_splits)

lemma state_change_case_resources: "state_change_case m bh w = Done (ok, w') \<Longrightarrow> same_resources w w'"
  by (auto simp: state_change_case_def same_resources_def and_then_Done run_method_Done split: option.splits)

lemma process_burst_resources: "process_burst k m bh w = Done (ok, w') \<Longrightarrow> same_resources w w'"
  by (auto simp: process_burst_def split: if_splits
      dest: write_case_resources read_case_resources command_case_resources state_change_case_resources)

lemma process_bursts_resources: "process_bursts k m base i n w = Done (ok, w') \<Longrightarrow> same_resources w w'"
proof (induction k m base i n w rule: process_bursts.induct)
  case (1 k m base i w)
  then show ?case by (simp add: same_resources_def)
next
  case (2 k m base i n w)
  then show ?case
    by (auto simp: and_then_Done split: if_splits dest: process_burst_resources intro: same_resources_trans)
qed

lemma run_bursts_resources:
  assumes "run_bursts k m th w = Done (r, w')"
  shows "\<not> lock_held w'" "live_buffers w' = live_buffers w" "r = 0 \<or> r = - EFAULT"
  using assms
  by (auto simp: run_bursts_def and_then_Done run_method_Done mutex_lock_def mutex_unlock_def same_resources_def
      split: if_splits dest!: process_bursts_resources)

text \<open>C17: A transaction that ends, on whatever path, has released the mutex of the controller and every buffer it
  allocated, and returns zero or one of three error numbers.\<close>

theorem transaction_releases_lock_and_buffers:
  assumes "process_transaction k get_controller th w = Done (r, w')" "\<not> lock_held w"
  shows "\<not> lock_held w' \<and> live_buffers w' = live_buffers w \<and> r \<in> {0, - EFAULT, - ENODEV, - EINVAL}"
  using assms
  by (auto simp: process_transaction_def split: if_splits option.splits dest: run_bursts_resources)

section \<open>The bursts before and after\<close>

lemma process_bursts_add:
  "process_bursts k m base i (n1 + n2) w =
     and_then (process_bursts k m base i n1 w) (\<lambda>(ok, w1).
       if ok then process_bursts k m base (i + n1) n2 w1 else Done (False, w1))"
proof (induction n1 arbitrary: i w)
  case (Suc n1)
  have i: "i + Suc n1 = Suc i + n1" by simp
  show ?case
    unfolding i by (cases "process_burst k m (fetch_header k base i (tx_user w)) w") (auto simp: Suc.IH)
qed simp

lemma process_bursts_reach:
  assumes "process_bursts k m base 0 i w = Done (True, w1)" "i < n"
  shows "process_bursts k m base 0 n w =
    and_then (process_burst k m (fetch_header k base i (tx_user w1)) w1) (\<lambda>(ok, w2).
      if ok then process_bursts k m base (Suc i) (n - Suc i) w2 else Done (False, w2))"
proof -
  have "n = i + Suc (n - Suc i)" using assms(2) by simp
  then show ?thesis using assms(1) process_bursts_add [of k m base 0 i "Suc (n - Suc i)" w] by simp
qed

text \<open>
  The first burst that fails ends the transaction, whatever the later headers are; the method that
  ends a transaction is not called.
\<close>

theorem failed_burst_ends_transaction:
  assumes "m_begin_transaction m (tx_ctrl w) = Some (0, c)"
    "process_bursts k m (burst_headers_address th) 0 i (mutex_lock w\<lparr>tx_ctrl := c\<rparr>) = Done (True, w1)"
    "i < unat (num_bursts th)"
    "process_burst k m (fetch_header k (burst_headers_address th) i (tx_user w1)) w1 = Done (False, w2)"
  shows "run_bursts k m th w = Done (- EFAULT, mutex_unlock w2)"
proof -
  have "tx_ctrl (mutex_lock w) = tx_ctrl w" by (simp add: mutex_lock_def)
  with assms(1) have "run_method (m_begin_transaction m) (mutex_lock w) = Done (0, mutex_lock w\<lparr>tx_ctrl := c\<rparr>)"
    by (simp add: run_method_Done)
  with process_bursts_reach [OF assms(2,3)] assms(4) show ?thesis by (simp add: run_bursts_def)
qed

section \<open>A bus that gets a change of its state\<close>

lemma i2c_state_change: "m_handle_post_burst_flags (on_fst (i2c_bus_methods ri patience bank)) = None"
  by (simp add: on_fst_def i2c_bus_methods_def controller_base_super_init_def)

text \<open>A burst that changes the state of an I2C bus calls a null pointer: the transaction uses the method for the
  flags after a burst, which the constructor of the bus controllers leaves null, instead of the method
  for changes of the state, which they have. Any user of the device can stop the kernel this way.\<close>

theorem i2c_state_change_calls_null:
  assumes "map_of busses (peripheral th) = Some (i2c_bus_methods ri patience bank)"
    "peripheral th \<noteq> DUMMY_PERIPHERAL_ID"
    "i2c_begin_transaction ri patience bank (fst (tx_ctrl w)) = Some (0, c)"
    "process_bursts k (on_fst (i2c_bus_methods ri patience bank)) (burst_headers_address th) 0 i
       (mutex_lock w\<lparr>tx_ctrl := (c, snd (tx_ctrl w))\<rparr>) = Done (True, w1)"
    "i < unat (num_bursts th)"
    "bh_type (fetch_header k (burst_headers_address th) i (tx_user w1)) = BURST_TYPE_STATE_CHANGE"
  shows "process_transaction k (Some (me6_get_controller busses spi_id spi)) th w = Null_pointer"
proof -
  let ?m = "on_fst (i2c_bus_methods ri patience bank)"
  have "m_begin_transaction ?m (tx_ctrl w) = Some (0, (c, snd (tx_ctrl w)))"
    using assms(3) by (cases "tx_ctrl w") (simp add: on_fst_def i2c_bus_methods_def controller_base_super_init_def)
  moreover have "tx_ctrl (mutex_lock w) = tx_ctrl w" by (simp add: mutex_lock_def)
  ultimately have b: "run_method (m_begin_transaction ?m) (mutex_lock w)
      = Done (0, mutex_lock w\<lparr>tx_ctrl := (c, snd (tx_ctrl w))\<rparr>)" by (simp add: run_method_Done)
  have "process_burst k ?m (fetch_header k (burst_headers_address th) i (tx_user w1)) w1 = Null_pointer"
    using assms(6) by (simp add: process_burst_def state_change_case_def i2c_state_change)
  with process_bursts_reach [OF assms(4,5)] b have "run_bursts k ?m th w = Null_pointer"
    by (simp add: run_bursts_def)
  with assms(1,2) show ?thesis by (simp add: process_transaction_def me6_get_controller_def)
qed

section \<open>Writing to the SPI flash\<close>

text \<open>What user space has laid out: the bytes of the bursts, in their order.\<close>

definition burst_bytes :: "'u kernel_services \<Rightarrow> u64 \<Rightarrow> 'u \<Rightarrow> nat \<Rightarrow> u8 list" where
  "burst_bytes k base u i =
     (let bh = fetch_header k base i u
      in if bh_len bh = 0 then [] else fst (copy_from_user k (buffer_address bh) (unat (bh_len bh)) u))"

definition all_bytes :: "'u kernel_services \<Rightarrow> u64 \<Rightarrow> 'u \<Rightarrow> nat \<Rightarrow> nat \<Rightarrow> u8 list" where
  "all_bytes k base u i n = concat (map (burst_bytes k base u) [i..<i + n])"

lemma all_bytes_Suc [simp]:
  "all_bytes k base u i 0 = []"
  "all_bytes k base u i (Suc n) = burst_bytes k base u i @ all_bytes k base u (Suc i) n"
  by (simp_all add: all_bytes_def upt_conv_Cons del: upt_Suc)

definition wire_ready :: "spi_v2_controller \<Rightarrow> ('b \<times> ('hw \<times> bus_event list) controller, 'u) tx_state \<Rightarrow> bool" where
  "wire_ready self w \<longleftrightarrow> w_calm (on_wire self (snd (tx_ctrl w))) \<and> w_pending (on_wire self (snd (tx_ctrl w))) = 0"

definition sent_by :: "spi_v2_controller \<Rightarrow> ('b \<times> ('hw \<times> bus_event list) controller, 'u) tx_state \<Rightarrow> u8 list" where
  "sent_by self w = w_sent (on_wire self (snd (tx_ctrl w)))"

abbreviation spi_methods ::
    "('hw \<times> bus_event list) register_interface \<Rightarrow> spi_v2_controller
     \<Rightarrow> ('b \<times> ('hw \<times> bus_event list) controller) controller_methods" where
  "spi_methods ri self \<equiv> on_snd (base_methods (spi_v2_ops ri self))"

lemma spi_write_method:
  assumes "m_write_burst (spi_methods (logged ri) self) f buf c = Some (r, c')"
    "w_calm (on_wire self (snd c))" "w_pending (on_wire self (snd c)) = 0"
  shows "fst c' = fst c \<and> (r = 0 \<and> w_calm (on_wire self (snd c')) \<and> w_pending (on_wire self (snd c')) = 0
        \<and> w_sent (on_wire self (snd c')) = w_sent (on_wire self (snd c)) @ buf
      \<or> r \<noteq> 0 \<and> (\<exists>j. w_sent (on_wire self (snd c')) = w_sent (on_wire self (snd c)) @ take j buf))"
proof -
  obtain b s b' s' where c: "c = (b, s)" "c' = (b', s')" by (metis prod.collapse)
  with assms(1) have w: "ctrl_write_burst (spi_v2_ops (logged ri) self) f buf s = Some (r, s')" "b' = b"
    by (auto simp: on_snd_def base_methods_def)
  from spi.write_burst_sends [OF w(1)] assms(2,3) c w(2) show ?thesis
    by (auto simp: on_wire_def)
qed

lemma spi_write_case:
  assumes "write_case k (spi_methods (logged ri) self) bh w = Done (ok, w')" "wire_ready self w"
    "\<And>n u. snd (vmalloc k n u) = u"
  defines "bytes \<equiv> fst (copy_from_user k (buffer_address bh) (unat (bh_len bh)) (tx_user w))"
  shows "tx_user w' = tx_user w \<and> fst (tx_ctrl w') = fst (tx_ctrl w)
    \<and> (ok \<and> wire_ready self w' \<and> sent_by self w' = sent_by self w @ bytes
       \<or> \<not> ok \<and> (\<exists>j. sent_by self w' = sent_by self w @ take j bytes))"
proof -
  let ?m = "spi_methods (logged ri) self"
  obtain buf w1 where a: "allocate k (unat (bh_len bh)) w = (buf, w1)" by fastforce
  note al = allocated [OF a]
  from al(3) assms(3) have u: "tx_user w1 = tx_user w" by simp
  obtain missing where cp: "copy_from_user k (buffer_address bh) (unat (bh_len bh)) (tx_user w1) = (bytes, missing)"
    using u by (metis bytes_def prod.collapse)
  obtain x where b: "buf = Some x" using assms(1) a by (cases buf) (auto simp: write_case_def)
  show ?thesis
  proof (cases "missing = 0")
    case False
    then have "ok = False" "w' = vfree w1" using assms(1) a b cp by (auto simp: write_case_def)
    then show ?thesis using al(2) u by (auto simp: vfree_def sent_by_def intro: exI [of _ 0])
  next
    case True
    then have "and_then (run_method (m_write_burst ?m (bh_flags bh) bytes) w1) (\<lambda>(ret, w2). Done (ret = 0, vfree w2)) = Done (ok, w')"
      using assms(1) a b cp by (simp add: write_case_def)
    then obtain ret c' where r: "m_write_burst ?m (bh_flags bh) bytes (tx_ctrl w) = Some (ret, c')"
      "ok = (ret = 0)" "w' = vfree (w1\<lparr>tx_ctrl := c'\<rparr>)"
      by (auto simp: and_then_Done run_method_Done al(2))
    from spi_write_method [OF r(1)] assms(2) r(2,3) u show ?thesis
      by (auto simp: wire_ready_def sent_by_def vfree_def)
  qed
qed

lemma take_all_min: "take (min j (length xs)) xs = take j xs"
  by (simp add: min_def)

lemma spi_process_bursts:
  assumes "process_bursts k (spi_methods (logged ri) self) base i n w = Done (ok, w')" "wire_ready self w"
    "\<And>n u. snd (vmalloc k n u) = u"
    "\<And>j. i \<le> j \<Longrightarrow> j < i + n \<Longrightarrow> bh_type (fetch_header k base j (tx_user w)) = BURST_TYPE_WRITE"
  shows "tx_user w' = tx_user w \<and> fst (tx_ctrl w') = fst (tx_ctrl w)
    \<and> (ok \<and> sent_by self w' = sent_by self w @ all_bytes k base (tx_user w) i n
       \<or> \<not> ok \<and> (\<exists>j. sent_by self w' = sent_by self w @ take j (all_bytes k base (tx_user w) i n)))"
  using assms(1,2,4)
proof (induction n arbitrary: i w)
  case (Suc n)
  let ?m = "spi_methods (logged ri) self"
  let ?bh = "fetch_header k base i (tx_user w)"
  let ?u = "tx_user w"
  have t: "bh_type ?bh = BURST_TYPE_WRITE" using Suc.prems(3) by simp
  obtain ok1 w1 where p: "process_burst k ?m ?bh w = Done (ok1, w1)"
    "(if ok1 then process_bursts k ?m base (Suc i) n w1 else Done (False, w1)) = Done (ok, w')"
    using Suc.prems(1) by (auto simp: and_then_Done)
  have one: "tx_user w1 = ?u \<and> fst (tx_ctrl w1) = fst (tx_ctrl w)
    \<and> (ok1 \<and> wire_ready self w1 \<and> sent_by self w1 = sent_by self w @ burst_bytes k base ?u i
       \<or> \<not> ok1 \<and> (\<exists>j. sent_by self w1 = sent_by self w @ take j (burst_bytes k base ?u i)))"
  proof (cases "bh_len ?bh = 0")
    case True
    then show ?thesis using p(1) t Suc.prems(2) by (auto simp: process_burst_def burst_bytes_def)
  next
    case False
    then have "write_case k ?m ?bh w = Done (ok1, w1)" using p(1) t by (simp add: process_burst_def)
    from spi_write_case [OF this Suc.prems(2) assms(3)] False show ?thesis
      by (simp add: burst_bytes_def Let_def)
  qed
  show ?case
  proof (cases ok1)
    case False
    then have "ok = False" "w' = w1" using p(2) by simp_all
    moreover obtain j where "sent_by self w1 = sent_by self w @ take j (burst_bytes k base ?u i)"
      using one False by blast
    ultimately show ?thesis using one False
      by (auto intro!: exI [of _ "min j (length (burst_bytes k base ?u i))"] simp: take_all_min)
  next
    case True
    with one have w1: "tx_user w1 = ?u" "wire_ready self w1" "fst (tx_ctrl w1) = fst (tx_ctrl w)"
      "sent_by self w1 = sent_by self w @ burst_bytes k base ?u i" by auto
    have "process_bursts k ?m base (Suc i) n w1 = Done (ok, w')" using p(2) True by simp
    from Suc.IH [OF this w1(2)] Suc.prems(3) w1 show ?thesis
      by (auto intro: exI [of _ "length (burst_bytes k base ?u i) + _"])
  qed
qed simp

text \<open>C16: A transaction that writes to the SPI controller of a board, whatever the device and the copies from user
  memory do, and however the bursts are laid out: if it returns zero, the valid commands on the wire
  carry exactly the bytes of all bursts in their order; otherwise it returns \<^verbatim>\<open>-EFAULT\<close> and they carry the
  first bytes of them. The buses of the board and user memory are not touched.\<close>

theorem spi_transaction_sends_the_bursts:
  assumes "process_transaction k (Some (me6_get_controller busses (peripheral th)
      (base_methods (spi_v2_ops (logged ri) self)))) th w = Done (r, w')"
    "map_of busses (peripheral th) = None" "peripheral th \<noteq> DUMMY_PERIPHERAL_ID"
    "wire_ready self w" "\<And>n u. snd (vmalloc k n u) = u"
    "\<And>j. j < unat (num_bursts th) \<Longrightarrow>
       bh_type (fetch_header k (burst_headers_address th) j (tx_user w)) = BURST_TYPE_WRITE"
  defines "bytes \<equiv> all_bytes k (burst_headers_address th) (tx_user w) 0 (unat (num_bursts th))"
  shows "tx_user w' = tx_user w \<and> fst (tx_ctrl w') = fst (tx_ctrl w)
    \<and> (r = 0 \<and> sent_by self w' = sent_by self w @ bytes
       \<or> r = - EFAULT \<and> (\<exists>j. sent_by self w' = sent_by self w @ take j bytes))"
proof -
  let ?m = "spi_methods (logged ri) self"
  have r: "run_bursts k ?m th w = Done (r, w')"
    using assms(1-3) by (simp add: process_transaction_def me6_get_controller_def)
  have "run_method (m_begin_transaction ?m) (mutex_lock w) = Done (0, mutex_lock w)"
    by (simp add: run_method_def on_snd_def base_methods_def ctrl_begin_transaction_def spi_v2_ops_def
        case_prod_beta)
  with r obtain ok w2 where p:
    "process_bursts k ?m (burst_headers_address th) 0 (unat (num_bursts th)) (mutex_lock w) = Done (ok, w2)"
    "(if ok then Done (0, mutex_unlock (w2\<lparr>tx_ctrl := m_end_transaction ?m (tx_ctrl w2)\<rparr>))
      else Done (- EFAULT, mutex_unlock w2)) = Done (r, w')"
    by (auto simp: run_bursts_def and_then_Done)
  have same: "tx_user (mutex_lock w) = tx_user w" "tx_ctrl (mutex_lock w) = tx_ctrl w"
    "sent_by self (mutex_lock w) = sent_by self w" "wire_ready self (mutex_lock w)"
    using assms(4) by (simp_all add: mutex_lock_def sent_by_def wire_ready_def)
  have "m_end_transaction ?m (tx_ctrl w2) = tx_ctrl w2"
    by (simp add: on_snd_def base_methods_def ctrl_end_transaction_def spi_v2_ops_def case_prod_beta)
  with p(2) have "tx_user w' = tx_user w2" "tx_ctrl w' = tx_ctrl w2" "sent_by self w' = sent_by self w2"
    "r = (if ok then 0 else - EFAULT)"
    by (auto simp: mutex_unlock_def sent_by_def split: if_splits)
  with spi_process_bursts [OF p(1) same(4) assms(5)] assms(6) same bytes_def show ?thesis by auto
qed

section \<open>Headers that cannot be read\<close>

text \<open>
  The kernel fills what it cannot copy with zeros. A transaction whose headers are not readable
  therefore skips all its bursts, and succeeds.
\<close>

lemma le_field_zero [simp]: "le_field off n (replicate m 0) = 0"
proof -
  have "foldr (\<lambda>b acc. ucast (b :: u8) OR push_bit 8 acc) (replicate j 0) (0 :: 'a word) = 0" for j
    by (induction j) simp_all
  then show ?thesis by (simp add: le_field_def)
qed

lemma unreadable_bursts:
  assumes "\<And>a n. copy_from_user k a n (tx_user w) = (replicate n 0, n)"
  shows "process_bursts k m base i n w = Done (True, w)"
proof (induction n arbitrary: i)
  case (Suc n)
  then show ?case by (simp add: process_burst_def fetch_header_def assms burst_header_of_def)
qed simp

theorem unreadable_headers_succeed:
  assumes "\<And>a n. copy_from_user k a n (tx_user w) = (replicate n 0, n)"
    "m_begin_transaction m (tx_ctrl w) = Some (0, c)"
  shows "run_bursts k m th w = Done (0, w\<lparr>tx_ctrl := m_end_transaction m c, lock_held := False\<rparr>)"
proof -
  have "process_bursts k m (burst_headers_address th) 0 n (w\<lparr>lock_held := True, tx_ctrl := c\<rparr>)
      = Done (True, w\<lparr>lock_held := True, tx_ctrl := c\<rparr>)" for n
    by (rule unreadable_bursts) (simp add: assms(1))
  with assms(2) show ?thesis
    by (simp add: run_bursts_def run_method_def mutex_lock_def mutex_unlock_def)
qed

section \<open>Examples\<close>

text \<open>User memory is a list of bytes that starts at the address zero.\<close>

definition sample_kernel :: "u8 list kernel_services" where
  "sample_kernel = \<lparr>
     copy_from_user = (\<lambda>a n u. let bs = take n (drop (unat a) u) in (bs @ replicate (n - length bs) 0, n - length bs)),
     copy_to_user = (\<lambda>a bs u. (0, take (unat a) u @ bs @ drop (unat a + length bs) u)),
     vmalloc = (\<lambda>n u. (Some (replicate n 0), u))\<rparr>"

text \<open>The header of a burst at the address zero, and its data behind it.\<close>

definition sample_memory :: "u8 \<Rightarrow> u8 list" where
  "sample_memory t = [t, 0, 0, 0, 0, 0, 0, 0, 20, 0, 0, 0, 0, 0, 0, 0, 4, 0, 0, 0, 1, 2, 3, 4]"

definition sample_header :: "u32 \<Rightarrow> transaction_header" where
  "sample_header p = \<lparr>peripheral = p, num_bursts = 1, burst_headers_address = 0\<rparr>"

definition sample_state :: "'s \<Rightarrow> u8 \<Rightarrow> ('s, u8 list) tx_state" where
  "sample_state s t = \<lparr>tx_ctrl = s, tx_user = sample_memory t, live_buffers = 0, lock_held = False\<rparr>"

lemma sample_fetch: "fetch_header sample_kernel 0 0 (sample_memory t)
    = \<lparr>bh_type = ucast t, bh_flags = 0, buffer_address = 20, bh_len = 4\<rparr>"
  by (simp add: fetch_header_def header_address_def sample_kernel_def sample_memory_def burst_header_of_def
      le_field_def sizeof_burst_header_def)

lemma sample_copy: "copy_from_user sample_kernel 20 4 (sample_memory t) = ([1, 2, 3, 4], 0)"
  by (simp add: sample_kernel_def sample_memory_def)

lemma sample_allocate: "allocate sample_kernel n w = (Some (replicate n 0), w\<lparr>live_buffers := Suc (live_buffers w)\<rparr>)"
  by (simp add: allocate_def sample_kernel_def)

lemma sample_vmalloc: "snd (vmalloc sample_kernel n u) = u"
  by (simp add: sample_kernel_def)

definition idle_core :: i2c_master_core where
  "idle_core = \<lparr>i2c_ctrl_address_register = 1, i2c_ctrl_write_register = 2, i2c_ctrl_read_register = 3,
     firmware_clock_frequency = 125000000, num_safety_writes = 0,
     bus_configurations = [\<lparr>bank_number = 0, bank_activation_bit = 0, write_enable_bit = 0, bus_frequency = 0\<rparr>],
     active_bus = None\<rparr>"

abbreviation idle_bus :: "unit i2c" where
  "idle_bus \<equiv> controller_base_init (idle_core, ())"

abbreviation sample_board :: "u32 \<Rightarrow> (unit i2c \<times> (unit \<times> bus_event list) controller) controller_methods option" where
  "sample_board \<equiv> me6_get_controller [] 7 (base_methods (spi_v2_ops (logged demo_spi) demo_spi_ctrl))"

lemma sample_num_bursts: "unat (num_bursts (sample_header p)) = 1" "burst_headers_address (sample_header p) = 0"
  "peripheral (sample_header p) = p"
  by (simp_all add: sample_header_def)

lemma sample_transaction:
  "\<exists>w'. process_transaction sample_kernel (Some sample_board) (sample_header 7)
     (sample_state (s, demo_spi_start) 1) = Done (0, w')"
proof -
  obtain c' where w: "ctrl_write_burst (spi_v2_ops (logged demo_spi) demo_spi_ctrl) 0 [1, 2, 3, 4] demo_spi_start
      = Some (STATUS_OK, c')" using demo_writes by auto
  let ?m = "on_snd (base_methods (spi_v2_ops (logged demo_spi) demo_spi_ctrl)) :: (unit i2c \<times> _) controller_methods"
  have b: "m_write_burst ?m 0 [1, 2, 3, 4] (s, demo_spi_start) = Some (0, s, c')"
    using w by (simp add: on_snd_def base_methods_def)
  have "m_begin_transaction ?m (s, demo_spi_start) = Some (0, s, demo_spi_start)"
    by (simp add: on_snd_def base_methods_def ctrl_begin_transaction_def spi_v2_ops_def)
  moreover have "(7 :: u32) \<noteq> DUMMY_PERIPHERAL_ID" by (simp add: DUMMY_PERIPHERAL_ID_def)
  ultimately show ?thesis using b
    by (simp add: process_transaction_def me6_get_controller_def run_bursts_def run_method_def mutex_lock_def
        sample_num_bursts sample_state_def sample_fetch sample_copy sample_allocate process_burst_def write_case_def)
qed

theorem transaction_releases_lock_and_buffers_witness:
  "\<exists>w'. process_transaction sample_kernel (Some sample_board) (sample_header 7)
     (sample_state (idle_bus, demo_spi_start) 1) = Done (0, w') \<and> \<not> lock_held w' \<and> live_buffers w' = 0"
proof -
  obtain w' where w: "process_transaction sample_kernel (Some sample_board) (sample_header 7)
      (sample_state (idle_bus, demo_spi_start) 1) = Done (0, w')" using sample_transaction by blast
  from transaction_releases_lock_and_buffers [OF w] w show ?thesis by (simp add: sample_state_def)
qed

theorem spi_transaction_sends_the_bursts_witness:
  "\<exists>w'. process_transaction sample_kernel (Some sample_board) (sample_header 7)
     (sample_state (idle_bus, demo_spi_start) 1) = Done (0, w') \<and> sent_by demo_spi_ctrl w' = [1, 2, 3, 4]"
proof -
  let ?w = "sample_state (idle_bus, demo_spi_start) 1"
  obtain w' where w: "process_transaction sample_kernel (Some sample_board) (sample_header 7) ?w = Done (0, w')"
    using sample_transaction by blast
  have st: "sent_by demo_spi_ctrl ?w = []" "wire_ready demo_spi_ctrl ?w" "tx_user ?w = sample_memory 1"
    by (simp_all add: sample_state_def sent_by_def wire_ready_def demo_start_wire quiet_wire_def)
  have "all_bytes sample_kernel 0 (sample_memory 1) 0 1 = [1, 2, 3, 4]"
    by (simp add: all_bytes_def burst_bytes_def sample_fetch sample_copy)
  with spi_transaction_sends_the_bursts [of sample_kernel "[]" "sample_header 7" demo_spi demo_spi_ctrl ?w 0 w'] w st
  show ?thesis
    by (simp add: sample_num_bursts sample_fetch sample_vmalloc DUMMY_PERIPHERAL_ID_def)
qed

theorem i2c_state_change_calls_null_witness:
  "process_transaction sample_kernel
     (Some (me6_get_controller [(5, i2c_bus_methods demo_spi (\<lambda>_. 0) 0)] 7 (i2c_bus_methods demo_spi (\<lambda>_. 0) 0)))
     (sample_header 5) (sample_state (idle_bus, idle_bus) 3)
   = Null_pointer"
proof -
  let ?s = "sample_state (idle_bus, idle_bus) 3"
  obtain c where "i2c_begin_transaction demo_spi (\<lambda>_. 0) 0 idle_bus = Some (0, c)"
    by (simp add: i2c_begin_transaction_def activate_bank_def core_of_def controller_base_init_def idle_core_def
        ctrl_begin_transaction_def i2c_ops_def i2c_handle_begin_transaction_def)
  then have "i2c_begin_transaction demo_spi (\<lambda>_. 0) 0 (fst (tx_ctrl ?s)) = Some (0, c)" by (simp add: sample_state_def)
  from i2c_state_change_calls_null [of "[(5, i2c_bus_methods demo_spi (\<lambda>_. 0) 0)]" "sample_header 5", OF _ _ this,
      of sample_kernel 0]
  show ?thesis
    by (simp add: sample_num_bursts DUMMY_PERIPHERAL_ID_def sample_state_def mutex_lock_def sample_fetch)
qed

end
