(* ===== verification/Cxp.thy ===== *)
theory Cxp
  imports Bits Registers Boards
begin

text \<open>
  The CoaXPress frontend, \<^verbatim>\<open>lib/frontends/cxp_frontend.c\<close>, its factory \<^verbatim>\<open>camera_frontend.c\<close> and the
  command that reaches it, \<^verbatim>\<open>do_camera_control\<close> of \<^verbatim>\<open>linux/menable_ioctl.c\<close>. A board has one to five
  physical ports, and a multiplexer that connects them to logical ports. The state of the ports is
  written to registers that hold a field for each port, so the driver keeps it in caches: those of
  the link by physical port, those of the protocol by logical port. Enumerations are words, as users
  pass any value. \<open>patience s\<close> is how often a wait that starts in the state \<open>s\<close> finds its timeout not yet
  elapsed; \<open>None\<close> is an access outside an array, or a shift that C leaves undefined.
\<close>

section \<open>Versions\<close>

record version_number =
  major :: u32
  minor :: u32
  patch :: u32

definition is_version_equal :: "version_number \<Rightarrow> version_number \<Rightarrow> bool" where
  "is_version_equal v w \<longleftrightarrow> major v = major w \<and> minor v = minor w \<and> patch v = patch w"

definition is_version_less :: "version_number \<Rightarrow> version_number \<Rightarrow> bool" where
  "is_version_less v w \<longleftrightarrow> major v < major w
     \<or> (major v = major w \<and> (minor v < minor w \<or> minor v = minor w \<and> patch v < patch w))"

definition is_version_greater :: "version_number \<Rightarrow> version_number \<Rightarrow> bool" where
  "is_version_greater v w \<longleftrightarrow> major v > major w
     \<or> (major v = major w \<and> (minor v > minor w \<or> minor v = minor w \<and> patch v > patch w))"

definition is_version_less_or_equal :: "version_number \<Rightarrow> version_number \<Rightarrow> bool" where
  "is_version_less_or_equal v w \<longleftrightarrow> is_version_equal v w \<or> is_version_less v w"

definition is_version_greater_or_equal :: "version_number \<Rightarrow> version_number \<Rightarrow> bool" where
  "is_version_greater_or_equal v w \<longleftrightarrow> is_version_equal v w \<or> is_version_greater v w"

section \<open>States of a port\<close>

abbreviation POWER_STATE_UNKNOWN :: u32 where "POWER_STATE_UNKNOWN \<equiv> 0"
abbreviation POWER_STATE_OFF :: u32 where "POWER_STATE_OFF \<equiv> 1"
abbreviation POWER_STATE_ON :: u32 where "POWER_STATE_ON \<equiv> 2"
abbreviation POWER_STATE_TEST_MODE :: u32 where "POWER_STATE_TEST_MODE \<equiv> 3"

abbreviation DATA_PATH_STATE_UNKNOWN :: u32 where "DATA_PATH_STATE_UNKNOWN \<equiv> 0"
abbreviation DATA_PATH_STATE_FULL_RESET :: u32 where "DATA_PATH_STATE_FULL_RESET \<equiv> 1"
abbreviation DATA_PATH_STATE_INACTIVE :: u32 where "DATA_PATH_STATE_INACTIVE \<equiv> 2"
abbreviation DATA_PATH_STATE_SENDING_IDLES :: u32 where "DATA_PATH_STATE_SENDING_IDLES \<equiv> 3"
abbreviation DATA_PATH_STATE_MONITORING :: u32 where "DATA_PATH_STATE_MONITORING \<equiv> 4"
abbreviation DATA_PATH_STATE_ACTIVE :: u32 where "DATA_PATH_STATE_ACTIVE \<equiv> 5"

abbreviation DATA_PATH_SPEED_UNKNOWN :: u32 where "DATA_PATH_SPEED_UNKNOWN \<equiv> 0"
abbreviation DATA_PATH_SPEED_1250 :: u32 where "DATA_PATH_SPEED_1250 \<equiv> 1250"
abbreviation DATA_PATH_SPEED_2500 :: u32 where "DATA_PATH_SPEED_2500 \<equiv> 2500"
abbreviation DATA_PATH_SPEED_3125 :: u32 where "DATA_PATH_SPEED_3125 \<equiv> 3125"
abbreviation DATA_PATH_SPEED_5000 :: u32 where "DATA_PATH_SPEED_5000 \<equiv> 5000"
abbreviation DATA_PATH_SPEED_6250 :: u32 where "DATA_PATH_SPEED_6250 \<equiv> 6250"
abbreviation DATA_PATH_SPEED_10000 :: u32 where "DATA_PATH_SPEED_10000 \<equiv> 10000"
abbreviation DATA_PATH_SPEED_12500 :: u32 where "DATA_PATH_SPEED_12500 \<equiv> 12500"

abbreviation DATA_PATH_UP_SPEED_UNKNOWN :: u32 where "DATA_PATH_UP_SPEED_UNKNOWN \<equiv> 0"
abbreviation DATA_PATH_UP_SPEED_LOW :: u32 where "DATA_PATH_UP_SPEED_LOW \<equiv> 1"
abbreviation DATA_PATH_UP_SPEED_HIGH :: u32 where "DATA_PATH_UP_SPEED_HIGH \<equiv> 2"

abbreviation CXP_STANDARD_VERSION_UNKNOWN :: u32 where "CXP_STANDARD_VERSION_UNKNOWN \<equiv> 0"
abbreviation CXP_STANDARD_VERSION_1_0 :: u32 where "CXP_STANDARD_VERSION_1_0 \<equiv> 1"
abbreviation CXP_STANDARD_VERSION_1_1 :: u32 where "CXP_STANDARD_VERSION_1_1 \<equiv> 2"
abbreviation CXP_STANDARD_VERSION_2_0 :: u32 where "CXP_STANDARD_VERSION_2_0 \<equiv> 3"

abbreviation CXP_LED_STATE_UNKNOWN :: u32 where "CXP_LED_STATE_UNKNOWN \<equiv> 0"
abbreviation CXP_LED_STATE_BOOTING :: u32 where "CXP_LED_STATE_BOOTING \<equiv> 1"
abbreviation CXP_LED_STATE_POWERED :: u32 where "CXP_LED_STATE_POWERED \<equiv> 2"
abbreviation CXP_LED_STATE_DISCOVERY :: u32 where "CXP_LED_STATE_DISCOVERY \<equiv> 3"
abbreviation CXP_LED_STATE_CONNECTED :: u32 where "CXP_LED_STATE_CONNECTED \<equiv> 4"
abbreviation CXP_LED_STATE_WAITING_FOR_EVENT :: u32 where "CXP_LED_STATE_WAITING_FOR_EVENT \<equiv> 5"
abbreviation CXP_LED_STATE_INCOMPATIBLE_DEVICE :: u32 where "CXP_LED_STATE_INCOMPATIBLE_DEVICE \<equiv> 6"
abbreviation CXP_LED_STATE_SYSTEM_ERROR :: u32 where "CXP_LED_STATE_SYSTEM_ERROR \<equiv> 7"

abbreviation ACQUISITION_STATE_UNKNOWN :: u32 where "ACQUISITION_STATE_UNKNOWN \<equiv> 0"
abbreviation ACQUISITION_STATE_STOPPED :: u32 where "ACQUISITION_STATE_STOPPED \<equiv> 1"
abbreviation ACQUISITION_STATE_STARTED :: u32 where "ACQUISITION_STATE_STARTED \<equiv> 2"

abbreviation CXP_FRONTEND_ERROR_INVALID_PORT :: int where "CXP_FRONTEND_ERROR_INVALID_PORT \<equiv> -1"
abbreviation CXP_FRONTEND_ERROR_INVALID_PARAMETER :: int where "CXP_FRONTEND_ERROR_INVALID_PARAMETER \<equiv> -2"
abbreviation CXP_FRONTEND_ERROR_TIMEOUT :: int where "CXP_FRONTEND_ERROR_TIMEOUT \<equiv> -3"
abbreviation CXP_FRONTEND_ERROR_APPLETDOESNOTSUPPORTTGS :: int where
  "CXP_FRONTEND_ERROR_APPLETDOESNOTSUPPORTTGS \<equiv> -4"

record cxp_port =
  downlink_bitrate_register :: u32
  led_ctrl_register :: u32
  config_image_stream_id_register :: u32
  power_state_cache :: u32
  data_path_state_physical_cache :: u32
  data_path_state_logical_cache :: u32
  data_path_dw_speed_cache :: u32
  data_path_up_speed_cache :: u32
  standard_version_cache :: u32
  led_state_cache :: u32
  acquisition_state_cache :: u32
  camera_downscale_state_cache :: u8
  stream_id_cache :: u16

record cxp_frontend =
  cxp_flags :: u32
  ports :: "cxp_port list"
  port_maps :: "u64 list"
  port_map_index :: nat
  num_ports :: u32
  power_ctrl_register :: u32
  reset_ctrl_register :: u32
  standard_ctrl_register :: u32
  acquisition_status_register :: u32
  discovery_config_register :: u32
  camera_operator_downscale_register :: u32
  data_path_status_register :: u32
  load_applet_ctrl_register :: u32
  load_applet_status_register :: u32

type_synonym 'hw cxp = "cxp_frontend \<times> 'hw"

section \<open>The port maps\<close>

abbreviation CXP_PORT_MAP_INVALID :: u64 where "CXP_PORT_MAP_INVALID \<equiv> 0xffffffffffffffff"

definition cxp_port_maps_1ch :: "u64 list" where
  "cxp_port_maps_1ch = [
     0x7654321076543210,
     CXP_PORT_MAP_INVALID]"

definition cxp_port_maps_2ch :: "u64 list" where
  "cxp_port_maps_2ch = [
     0x7654321076543210, 0x7654320176543201,
     CXP_PORT_MAP_INVALID]"

definition cxp_port_maps_4ch :: "u64 list" where
  "cxp_port_maps_4ch = [
     0x7654321076543210, 0x7654231076542310, 0x7654312076543120, 0x7654213076541320, 0x7654132076542130,
     0x7654123076541230, 0x7654320176543201, 0x7654230176542301, 0x7654310276543021, 0x7654210376540321,
     0x7654130276542031, 0x7654120376540231, 0x7654302176543102, 0x7654203176541302, 0x7654301276543012,
     0x7654201376540312, 0x7654103276541032, 0x7654102376540132, 0x7654032176542103, 0x7654023176541203,
     0x7654031276542013, 0x7654021376540213, 0x7654013276541023, 0x7654012376540123,
     CXP_PORT_MAP_INVALID]"

definition cxp_port_maps_5ch :: "u64 list" where
  "cxp_port_maps_5ch = [
     0x7654321076543210, 0x7653421076534210, 0x7654231076542310, 0x7653241076524310, 0x7652431076532410,
     0x7652341076523410, 0x7654312076543120, 0x7653412076534120, 0x7654213076541320, 0x7653214076514320,
     0x7652413076531420, 0x7652314076513420, 0x7654132076542130, 0x7653142076524130, 0x7654123076541230,
     0x7653124076514230, 0x7652143076521430, 0x7652134076512430, 0x7651432076532140, 0x7651342076523140,
     0x7651423076531240, 0x7651324076513240, 0x7651243076521340, 0x7651234076512340, 0x7654320176543201,
     0x7653420176534201, 0x7654230176542301, 0x7653240176524301, 0x7652430176532401, 0x7652340176523401,
     0x7654310276543021, 0x7653410276534021, 0x7654210376540321, 0x7653210476504321, 0x7652410376530421,
     0x7652310476503421, 0x7654130276542031, 0x7653140276524031, 0x7654120376540231, 0x7653120476504231,
     0x7652140376520431, 0x7652130476502431, 0x7651430276532041, 0x7651340276523041, 0x7651420376530241,
     0x7651320476503241, 0x7651240376520341, 0x7651230476502341, 0x7654302176543102, 0x7653402176534102,
     0x7654203176541302, 0x7653204176514302, 0x7652403176531402, 0x7652304176513402, 0x7654301276543012,
     0x7653401276534012, 0x7654201376540312, 0x7653201476504312, 0x7652401376530412, 0x7652301476503412,
     0x7654103276541032, 0x7653104276514032, 0x7654102376540132, 0x7653102476504132, 0x7652104376510432,
     0x7652103476501432, 0x7651403276531042, 0x7651304276513042, 0x7651402376530142, 0x7651302476503142,
     0x7651204376510342, 0x7651203476501342, 0x7654032176542103, 0x7653042176524103, 0x7654023176541203,
     0x7653024176514203, 0x7652043176521403, 0x7652034176512403, 0x7654031276542013, 0x7653041276524013,
     0x7654021376540213, 0x7653021476504213, 0x7652041376520413, 0x7652031476502413, 0x7654013276541023,
     0x7653014276514023, 0x7654012376540123, 0x7653012476504123, 0x7652014376510423, 0x7652013476501423,
     0x7651043276521043, 0x7651034276512043, 0x7651042376520143, 0x7651032476502143, 0x7651024376510243,
     0x7651023476501243, 0x7650432176532104, 0x7650342176523104, 0x7650423176531204, 0x7650324176513204,
     0x7650243176521304, 0x7650234176512304, 0x7650431276532014, 0x7650341276523014, 0x7650421376530214,
     0x7650321476503214, 0x7650241376520314, 0x7650231476502314, 0x7650413276531024, 0x7650314276513024,
     0x7650412376530124, 0x7650312476503124, 0x7650214376510324, 0x7650213476501324, 0x7650143276521034,
     0x7650134276512034, 0x7650142376520134, 0x7650132476502134, 0x7650124376510234, 0x7650123476501234,
     CXP_PORT_MAP_INVALID]"

definition cxp_get_logical_port_number_from_port_map :: "u64 \<Rightarrow> u32 \<Rightarrow> u32" where
  "cxp_get_logical_port_number_from_port_map port_map physical = ucast (drop_bit (32 + unat physical * 4) port_map AND 0xf)"

definition cxp_get_physical_port_number_from_port_map :: "u64 \<Rightarrow> u32 \<Rightarrow> u32" where
  "cxp_get_physical_port_number_from_port_map port_map logical = ucast (drop_bit (unat logical * 4) port_map AND 0xf)"

definition current_port_map :: "cxp_frontend \<Rightarrow> u64" where
  "current_port_map self = port_maps self ! port_map_index self"

definition logical_of :: "cxp_frontend \<Rightarrow> u32 \<Rightarrow> u32" where
  "logical_of self p = cxp_get_logical_port_number_from_port_map (current_port_map self) p"

definition port_of :: "cxp_frontend \<Rightarrow> u32 \<Rightarrow> cxp_port" where
  "port_of self p = ports self ! unat p"

definition upd_port :: "u32 \<Rightarrow> (cxp_port \<Rightarrow> cxp_port) \<Rightarrow> cxp_frontend \<Rightarrow> cxp_frontend" where
  "upd_port p f self = self\<lparr>ports := (ports self)[unat p := f (port_of self p)]\<rparr>"

definition in_ports :: "cxp_frontend \<Rightarrow> u32 \<Rightarrow> bool" where
  "in_ports self p \<longleftrightarrow> unat p < length (ports self)"

text \<open>The numbers of the ports, and a register with a field of each port.\<close>

definition all_ports :: "cxp_frontend \<Rightarrow> u32 list" where
  "all_ports self = map of_nat [0..<unat (num_ports self)]"

definition combined :: "cxp_frontend \<Rightarrow> (u32 \<Rightarrow> u32) \<Rightarrow> u32" where
  "combined self field = fold (\<lambda>p acc. acc OR field p) (all_ports self) 0"

section \<open>Power and data path\<close>

definition port_power_ctrl :: "u32 \<Rightarrow> u32" where
  "port_power_ctrl st = (if st = POWER_STATE_OFF then 0 else if st = POWER_STATE_TEST_MODE then 0x3 else 0x1)"

definition power_ctrl_value :: "cxp_frontend \<Rightarrow> u32" where
  "power_ctrl_value self = combined self
     (\<lambda>p. push_bit (2 * unat p) (port_power_ctrl (power_state_cache (port_of self p)) AND 0x3))"

definition cxp_set_port_power_state ::
    "'hw register_interface \<Rightarrow> u32 \<Rightarrow> u32 \<Rightarrow> 'hw cxp \<Rightarrow> (int \<times> 'hw cxp) option" where
  "cxp_set_port_power_state ri p new c =
     (let (self, s) = c
      in if p \<ge> num_ports self then Some (CXP_FRONTEND_ERROR_INVALID_PORT, c)
         else if new < POWER_STATE_OFF \<or> new > POWER_STATE_TEST_MODE then Some (CXP_FRONTEND_ERROR_INVALID_PARAMETER, c)
         else if new \<noteq> power_state_cache (port_of self p) then
           let self1 = upd_port p (\<lambda>q. q\<lparr>power_state_cache := new\<rparr>) self
           in Some (0, self1, ri_write ri (power_ctrl_register self1) (power_ctrl_value self1) s)
         else Some (0, c))"

text \<open>The bits of the host and those of the transceiver for a state of the data path.\<close>

definition port_reset_ctrl_host :: "u32 \<Rightarrow> u32" where
  "port_reset_ctrl_host st =
     (if st = DATA_PATH_STATE_FULL_RESET then 0x7
      else if st = DATA_PATH_STATE_SENDING_IDLES then 0x6
      else if st = DATA_PATH_STATE_MONITORING then 0x2
      else if st = DATA_PATH_STATE_ACTIVE then 0
      else 0x7)"

definition port_reset_ctrl_transceiver :: "u32 \<Rightarrow> u32" where
  "port_reset_ctrl_transceiver st =
     (if st = DATA_PATH_STATE_FULL_RESET then 0x18
      else if st = DATA_PATH_STATE_SENDING_IDLES then 0x8
      else if st = DATA_PATH_STATE_MONITORING then 0
      else if st = DATA_PATH_STATE_ACTIVE then 0
      else 0x8)"

definition reset_ctrl_value :: "cxp_frontend \<Rightarrow> u32" where
  "reset_ctrl_value self = combined self (\<lambda>p.
     let st = data_path_state_physical_cache (port_of self p)
     in push_bit (5 * unat (logical_of self p)) (port_reset_ctrl_host st AND 0x7)
        OR push_bit (5 * unat p) (port_reset_ctrl_transceiver st AND 0x18))"

definition cxp_set_port_data_path_state ::
    "'hw register_interface \<Rightarrow> u32 \<Rightarrow> u32 \<Rightarrow> 'hw cxp \<Rightarrow> (int \<times> 'hw cxp) option" where
  "cxp_set_port_data_path_state ri p new c =
     (let (self, s) = c; l = logical_of self p
      in if p \<ge> num_ports self then Some (CXP_FRONTEND_ERROR_INVALID_PORT, c)
         else if new < DATA_PATH_STATE_FULL_RESET \<or> new > DATA_PATH_STATE_ACTIVE
         then Some (CXP_FRONTEND_ERROR_INVALID_PARAMETER, c)
         else if \<not> in_ports self l then None
         else if new \<noteq> data_path_state_physical_cache (port_of self p)
           \<or> new \<noteq> data_path_state_logical_cache (port_of self l) then
           let self1 = upd_port l (\<lambda>q. q\<lparr>data_path_state_logical_cache := new\<rparr>)
                 (upd_port p (\<lambda>q. q\<lparr>data_path_state_physical_cache := new\<rparr>) self)
           in Some (0, self1, ri_write ri (reset_ctrl_register self1) (reset_ctrl_value self1) s)
         else Some (0, c))"

section \<open>Speed and standard\<close>

definition port_uplink_speed :: "u32 \<Rightarrow> u32" where
  "port_uplink_speed up = (if up = DATA_PATH_UP_SPEED_HIGH then 0x1 else 0)"

definition port_standard_version :: "u32 \<Rightarrow> u32" where
  "port_standard_version v =
     (if v = CXP_STANDARD_VERSION_1_0 then 0 else if v = CXP_STANDARD_VERSION_2_0 then 0x4 else 0x2)"

definition standard_ctrl_value :: "cxp_frontend \<Rightarrow> u32" where
  "standard_ctrl_value self = combined self (\<lambda>p. push_bit (3 * unat p)
     ((port_uplink_speed (data_path_up_speed_cache (port_of self p))
       OR port_standard_version (standard_version_cache (port_of self p))) AND 0x7))"

definition cxp_update_standard_ctrl_register :: "'hw register_interface \<Rightarrow> 'hw cxp \<Rightarrow> 'hw cxp" where
  "cxp_update_standard_ctrl_register ri c =
     (let (self, s) = c in (self, ri_write ri (standard_ctrl_register self) (standard_ctrl_value self) s))"

fun poll_register :: "'hw register_interface \<Rightarrow> u32 \<Rightarrow> (u32 \<Rightarrow> bool) \<Rightarrow> nat \<Rightarrow> 'hw \<Rightarrow> u32 \<times> 'hw" where
  "poll_register ri a done 0 s = ri_read ri a s"
| "poll_register ri a done (Suc n) s =
     (let (v, s1) = ri_read ri a s in if done v then (v, s1) else poll_register ri a done n s1)"

definition cxp_wait_port_data_path_speed_change_done ::
    "'hw register_interface \<Rightarrow> ('hw \<Rightarrow> nat) \<Rightarrow> u32 \<Rightarrow> 'hw cxp \<Rightarrow> int \<times> 'hw cxp" where
  "cxp_wait_port_data_path_speed_change_done ri patience p c =
     (let (self, s) = c;
          port_bit = push_bit (unat p) 1;
          (status, s1) = poll_register ri (data_path_status_register self) (\<lambda>v. v AND port_bit = port_bit) (patience s) s
      in (if status AND port_bit \<noteq> port_bit then CXP_FRONTEND_ERROR_TIMEOUT else 0, self, s1))"

definition downlink_bitrate :: "u32 \<Rightarrow> u32" where
  "downlink_bitrate speed =
     (if speed = DATA_PATH_SPEED_1250 then 0
      else if speed = DATA_PATH_SPEED_2500 then 1
      else if speed = DATA_PATH_SPEED_5000 then 3
      else if speed = DATA_PATH_SPEED_6250 then 4
      else if speed = DATA_PATH_SPEED_10000 then 5
      else if speed = DATA_PATH_SPEED_12500 then 6
      else 2)"

definition valid_speed :: "u32 \<Rightarrow> bool" where
  "valid_speed speed \<longleftrightarrow> List.member [DATA_PATH_SPEED_1250, DATA_PATH_SPEED_2500, DATA_PATH_SPEED_3125,
     DATA_PATH_SPEED_5000, DATA_PATH_SPEED_6250, DATA_PATH_SPEED_10000, DATA_PATH_SPEED_12500] speed"

definition uplink_of :: "u32 \<Rightarrow> u32" where
  "uplink_of speed = (if speed \<ge> DATA_PATH_SPEED_10000 then DATA_PATH_UP_SPEED_HIGH else DATA_PATH_UP_SPEED_LOW)"

definition set_downlink ::
    "'hw register_interface \<Rightarrow> ('hw \<Rightarrow> nat) \<Rightarrow> u32 \<Rightarrow> u32 \<Rightarrow> 'hw cxp \<Rightarrow> int \<times> 'hw cxp" where
  "set_downlink ri patience p new c =
     (let (self, s) = c
      in if new \<noteq> data_path_dw_speed_cache (port_of self p) then
           cxp_wait_port_data_path_speed_change_done ri patience p
             (upd_port p (\<lambda>q. q\<lparr>data_path_dw_speed_cache := new\<rparr>) self,
              ri_write ri (downlink_bitrate_register (port_of self p)) (downlink_bitrate new) s)
         else (0, c))"

definition set_uplink :: "'hw register_interface \<Rightarrow> u32 \<Rightarrow> u32 \<Rightarrow> 'hw cxp \<Rightarrow> 'hw cxp" where
  "set_uplink ri l up c =
     (let (self, s) = c
      in if up \<noteq> data_path_up_speed_cache (port_of self l)
         then cxp_update_standard_ctrl_register ri (upd_port l (\<lambda>q. q\<lparr>data_path_up_speed_cache := up\<rparr>) self, s)
         else c)"

definition cxp_set_port_data_path_speed ::
    "'hw register_interface \<Rightarrow> ('hw \<Rightarrow> nat) \<Rightarrow> u32 \<Rightarrow> u32 \<Rightarrow> 'hw cxp \<Rightarrow> (int \<times> 'hw cxp) option" where
  "cxp_set_port_data_path_speed ri patience p new c =
     (let (self, s) = c; l = logical_of self p; up = uplink_of new
      in if p \<ge> num_ports self then Some (CXP_FRONTEND_ERROR_INVALID_PORT, c)
         else if \<not> valid_speed new then Some (CXP_FRONTEND_ERROR_INVALID_PARAMETER, c)
         else if \<not> in_ports self l then None
         else if new \<noteq> data_path_dw_speed_cache (port_of self p) \<or> up \<noteq> data_path_up_speed_cache (port_of self l) then
           let (ret, c1) = cxp_wait_port_data_path_speed_change_done ri patience p c
           in if ret = 0 then let (ret, c2) = set_downlink ri patience p new c1 in Some (ret, set_uplink ri l up c2)
              else Some (ret, c1)
         else Some (0, c))"

definition cxp_set_port_standard_version ::
    "'hw register_interface \<Rightarrow> u32 \<Rightarrow> u32 \<Rightarrow> 'hw cxp \<Rightarrow> (int \<times> 'hw cxp) option" where
  "cxp_set_port_standard_version ri p new c =
     (let (self, s) = c; l = logical_of self p
      in if p \<ge> num_ports self then Some (CXP_FRONTEND_ERROR_INVALID_PORT, c)
         else if new < CXP_STANDARD_VERSION_1_0 \<or> new > CXP_STANDARD_VERSION_2_0
         then Some (CXP_FRONTEND_ERROR_INVALID_PARAMETER, c)
         else if \<not> in_ports self l then None
         else if new \<noteq> standard_version_cache (port_of self l)
         then Some (0, cxp_update_standard_ctrl_register ri (upd_port l (\<lambda>q. q\<lparr>standard_version_cache := new\<rparr>) self, s))
         else Some (0, c))"

section \<open>Lights, acquisition and downscaling\<close>

definition led_ctrl :: "u32 \<Rightarrow> u32" where
  "led_ctrl st =
     (if st = CXP_LED_STATE_BOOTING then 0
      else if st = CXP_LED_STATE_POWERED then 1
      else if st = CXP_LED_STATE_DISCOVERY then 2
      else if st = CXP_LED_STATE_CONNECTED then 5
      else if st = CXP_LED_STATE_WAITING_FOR_EVENT then 4
      else if st = CXP_LED_STATE_INCOMPATIBLE_DEVICE then 3
      else 6)"

definition cxp_set_port_led_state ::
    "'hw register_interface \<Rightarrow> u32 \<Rightarrow> u32 \<Rightarrow> 'hw cxp \<Rightarrow> (int \<times> 'hw cxp) option" where
  "cxp_set_port_led_state ri p new c =
     (let (self, s) = c
      in if p \<ge> num_ports self then Some (CXP_FRONTEND_ERROR_INVALID_PORT, c)
         else if new < CXP_LED_STATE_BOOTING \<or> new > CXP_LED_STATE_SYSTEM_ERROR
         then Some (CXP_FRONTEND_ERROR_INVALID_PARAMETER, c)
         else if new \<noteq> led_state_cache (port_of self p) then
           Some (0, upd_port p (\<lambda>q. q\<lparr>led_state_cache := new\<rparr>) self,
                 ri_write ri (led_ctrl_register (port_of self p)) (led_ctrl new) s)
         else Some (0, c))"

definition acquisition_ctrl_value :: "cxp_frontend \<Rightarrow> u32" where
  "acquisition_ctrl_value self = combined self (\<lambda>p. push_bit (unat p)
     ((if acquisition_state_cache (port_of self p) = ACQUISITION_STATE_STARTED then 0x1 else 0) AND 0x1))"

definition cxp_set_port_acquisition_state ::
    "'hw register_interface \<Rightarrow> u32 \<Rightarrow> u32 \<Rightarrow> 'hw cxp \<Rightarrow> (int \<times> 'hw cxp) option" where
  "cxp_set_port_acquisition_state ri p new c =
     (let (self, s) = c; l = logical_of self p
      in if p \<ge> num_ports self then Some (CXP_FRONTEND_ERROR_INVALID_PORT, c)
         else if new < ACQUISITION_STATE_STOPPED \<or> new > ACQUISITION_STATE_STARTED
         then Some (CXP_FRONTEND_ERROR_INVALID_PARAMETER, c)
         else if \<not> in_ports self l then None
         else if new \<noteq> acquisition_state_cache (port_of self l) then
           let self1 = upd_port l (\<lambda>q. q\<lparr>acquisition_state_cache := new\<rparr>) self
           in Some (0, self1, ri_write ri (acquisition_status_register self1) (acquisition_ctrl_value self1) s)
         else Some (0, c))"

text \<open>
  The register is computed in eight bits. For the fifth port the macro shifts by a negative number.
\<close>

fun downscale_fields :: "cxp_frontend \<Rightarrow> u32 list \<Rightarrow> u8 \<Rightarrow> u8 option" where
  "downscale_fields self [] v = Some v"
| "downscale_fields self (p # ps) v =
     (if 2 * unat p + 1 \<ge> 8 then None
      else downscale_fields self ps
        (SET_BITS v (camera_downscale_state_cache (port_of self p) - 1) (2 * unat p) (2 * unat p + 1)))"

definition cxp_set_port_camera_donwscaling ::
    "'hw register_interface \<Rightarrow> u32 \<Rightarrow> u32 \<Rightarrow> 'hw cxp \<Rightarrow> (int \<times> 'hw cxp) option" where
  "cxp_set_port_camera_donwscaling ri p num_connections c =
     (let (self, s) = c; l = logical_of self p
      in if p \<ge> num_ports self then Some (CXP_FRONTEND_ERROR_INVALID_PORT, c)
         else if num_connections > 4 then Some (CXP_FRONTEND_ERROR_INVALID_PARAMETER, c)
         else if num_connections = 0 then Some (CXP_FRONTEND_ERROR_INVALID_PARAMETER, c)
         else if num_ports self = 1 then Some (STATUS_OK, c)
         else if \<not> in_ports self l then None
         else if num_connections = ucast (camera_downscale_state_cache (port_of self l)) then Some (STATUS_OK, c)
         else
           let self1 = upd_port l (\<lambda>q. q\<lparr>camera_downscale_state_cache := ucast num_connections\<rparr>) self
           in map_option (\<lambda>v. (STATUS_OK, self1, ri_write ri (camera_operator_downscale_register self1) (ucast v) s))
                (downscale_fields self1 (all_ports self1) 0))"

section \<open>Stream numbers\<close>

definition min_firmware_versions_for_tgs :: "(int \<times> version_number) list" where
  "min_firmware_versions_for_tgs =
     [(PN_MICROENABLE6_CXP12_IC_1C, \<lparr>major = 3, minor = 2, patch = 0\<rparr>),
      (PN_MICROENABLE6_CXP12_IC_2C, \<lparr>major = 1, minor = 1, patch = 0\<rparr>),
      (PN_MICROENABLE6_CXP12_IC_4C, \<lparr>major = 1, minor = 1, patch = 0\<rparr>),
      (PN_MICROENABLE6_IMAWORX_CXP12_QUAD, \<lparr>major = 1, minor = 1, patch = 0\<rparr>)]"

definition does_me6_firmware_support_tgs :: "int \<Rightarrow> version_number \<Rightarrow> bool" where
  "does_me6_firmware_support_tgs board_type firmware_version =
     (case map_of min_firmware_versions_for_tgs board_type of
        None \<Rightarrow> True
      | Some v \<Rightarrow> is_version_greater_or_equal firmware_version v)"

definition does_board_applet_support_tgs :: "'hw register_interface \<Rightarrow> 'hw \<Rightarrow> bool \<times> 'hw" where
  "does_board_applet_support_tgs ri s =
     (let (v, s1) = ri_read ri 1 s;
          board_type = uint (drop_bit 16 v AND 0xffff);
          (board_status, s2) = ri_read ri 0 s1;
          fw_version = \<lparr>major = drop_bit 8 (board_status AND 0x00ff00) AND 0xff,
                        minor = drop_bit 16 (board_status AND 0xff0000) AND 0xff, patch = 0\<rparr>
      in (SisoBoardIsMe6 board_type \<and> does_me6_firmware_support_tgs board_type fw_version, s2))"

definition cxp_set_port_image_stream_id ::
    "'hw register_interface \<Rightarrow> u32 \<Rightarrow> u16 \<Rightarrow> 'hw cxp \<Rightarrow> (int \<times> 'hw cxp) option" where
  "cxp_set_port_image_stream_id ri master_port stream_id c =
     (let (self, s) = c; l = logical_of self master_port
      in if master_port \<ge> num_ports self then Some (CXP_FRONTEND_ERROR_INVALID_PORT, c)
         else if sint stream_id < -1 \<or> sint stream_id > 255 then Some (CXP_FRONTEND_ERROR_INVALID_PARAMETER, c)
         else if \<not> in_ports self l then None
         else if sint stream_id = -1 then Some (STATUS_OK, upd_port l (\<lambda>q. q\<lparr>stream_id_cache := -1\<rparr>) self, s)
         else
           let (tgs, s1) = does_board_applet_support_tgs ri s
           in if \<not> tgs then Some (CXP_FRONTEND_ERROR_APPLETDOESNOTSUPPORTTGS, self, s1)
              else if stream_id = stream_id_cache (port_of self l) then Some (STATUS_OK, self, s1)
              else
                let v = (0xff00 AND push_bit 8 (scast stream_id AND 0xff)) AND 0xffff
                in Some (STATUS_OK, upd_port l (\<lambda>q. q\<lparr>stream_id_cache := stream_id\<rparr>) self,
                         ri_write ri (config_image_stream_id_register (port_of self l)) v s1))"

section \<open>The port map\<close>

text \<open>The index of the entry that is looked for, or of the invalid entry at the end of the table.\<close>

definition find_port_map :: "u64 list \<Rightarrow> u64 \<Rightarrow> nat" where
  "find_port_map maps new = length (takeWhile (\<lambda>m. m \<noteq> new \<and> m \<noteq> CXP_PORT_MAP_INVALID) maps)"

text \<open>
  The arrays that keep the old values, by physical port. Entries that are not written are \<open>None\<close>; the
  maps of the tables contain no port number above four.
\<close>

definition by_physical :: "u64 \<Rightarrow> cxp_frontend \<Rightarrow> (cxp_port \<Rightarrow> 'a) \<Rightarrow> 'a option list" where
  "by_physical port_map self f = fold (\<lambda>l arr.
       arr[unat (cxp_get_physical_port_number_from_port_map port_map l) := Some (f (port_of self l))])
     (all_ports self) (replicate 5 None)"

definition next_call :: "('hw cxp \<Rightarrow> (int \<times> 'hw cxp) option) \<Rightarrow> 'hw cxp option \<Rightarrow> 'hw cxp option" where
  "next_call f c = Option.bind c (\<lambda>c. map_option snd (f c))"

definition restore_port ::
    "'hw register_interface \<Rightarrow> ('hw \<Rightarrow> nat) \<Rightarrow> u64 \<Rightarrow> u64 \<Rightarrow> cxp_frontend \<Rightarrow> u32 \<Rightarrow> 'hw cxp \<Rightarrow> 'hw cxp option" where
  "restore_port ri patience old_map new_map old p c =
     (if cxp_get_logical_port_number_from_port_map old_map p = cxp_get_logical_port_number_from_port_map new_map p
      then Some c
      else
        case (by_physical old_map old standard_version_cache ! unat p,
              by_physical old_map old acquisition_state_cache ! unat p,
              by_physical old_map old camera_downscale_state_cache ! unat p) of
          (Some version, Some acquisition, Some downscale) \<Rightarrow>
            next_call (cxp_set_port_camera_donwscaling ri p (ucast downscale))
            (next_call (cxp_set_port_acquisition_state ri p acquisition)
            (next_call (cxp_set_port_standard_version ri p version)
            (next_call (cxp_set_port_data_path_speed ri patience p (data_path_dw_speed_cache (port_of old p)))
            (next_call (cxp_set_port_data_path_state ri p (data_path_state_physical_cache (port_of old p)))
              (Some c)))))
        | _ \<Rightarrow> None)"

fun each_port :: "(u32 \<Rightarrow> 'hw cxp \<Rightarrow> 'hw cxp option) \<Rightarrow> u32 list \<Rightarrow> 'hw cxp \<Rightarrow> 'hw cxp option" where
  "each_port f [] c = Some c"
| "each_port f (p # ps) c = Option.bind (f p c) (each_port f ps)"

definition cxp_set_port_map ::
    "'hw register_interface \<Rightarrow> ('hw \<Rightarrow> nat) \<Rightarrow> u64 \<Rightarrow> 'hw cxp \<Rightarrow> (int \<times> 'hw cxp) option" where
  "cxp_set_port_map ri patience new_map c =
     (let (self, s) = c; old_map = current_port_map self
      in if new_map = old_map then Some (0, c)
         else
           let i = find_port_map (port_maps self) new_map
           in if port_maps self ! i = CXP_PORT_MAP_INVALID then Some (CXP_FRONTEND_ERROR_INVALID_PARAMETER, c)
              else
                let c1 = (self\<lparr>port_map_index := i\<rparr>, ri_write ri (discovery_config_register self) (of_nat i) s)
                in if old_map = CXP_PORT_MAP_INVALID then Some (0, c1)
                   else map_option (Pair 0)
                          (each_port (restore_port ri patience old_map new_map self) (all_ports self) c1))"

section \<open>Reset\<close>

definition cxp_reset_port ::
    "'hw register_interface \<Rightarrow> ('hw \<Rightarrow> nat) \<Rightarrow> u32 \<Rightarrow> 'hw cxp \<Rightarrow> 'hw cxp option" where
  "cxp_reset_port ri patience p c =
     (if p < num_ports (fst c) then
        next_call (cxp_set_port_image_stream_id ri p (-1))
        (next_call (cxp_set_port_camera_donwscaling ri p 1)
        (next_call (cxp_set_port_acquisition_state ri p ACQUISITION_STATE_STOPPED)
        (next_call (cxp_set_port_led_state ri p CXP_LED_STATE_POWERED)
        (next_call (cxp_set_port_standard_version ri p CXP_STANDARD_VERSION_1_1)
        (next_call (cxp_set_port_data_path_speed ri patience p DATA_PATH_SPEED_3125)
        (next_call (cxp_set_port_data_path_state ri p DATA_PATH_STATE_INACTIVE)
          (Some c)))))))
      else Some c)"

abbreviation IDENTITY_PORT_MAP :: u64 where "IDENTITY_PORT_MAP \<equiv> 0x7654321076543210"

definition cxp_reset :: "'hw register_interface \<Rightarrow> ('hw \<Rightarrow> nat) \<Rightarrow> 'hw cxp \<Rightarrow> (int \<times> 'hw cxp) option" where
  "cxp_reset ri patience c =
     Option.bind (cxp_set_port_map ri patience IDENTITY_PORT_MAP c) (\<lambda>(_, c1).
       map_option (Pair 0) (each_port (cxp_reset_port ri patience) (all_ports (fst c1)) c1))"

abbreviation CXP_FLAGS_SUPPORTS_IDLE_VIOLATION_FIX :: u32 where "CXP_FLAGS_SUPPORTS_IDLE_VIOLATION_FIX \<equiv> 0x1"

definition cxp_prepare_applet_reload ::
    "'hw register_interface \<Rightarrow> ('hw \<Rightarrow> nat) \<Rightarrow> 'hw cxp \<Rightarrow> (int \<times> 'hw cxp) option" where
  "cxp_prepare_applet_reload ri patience c =
     map_option (\<lambda>(_, self, s).
       if cxp_flags self AND CXP_FLAGS_SUPPORTS_IDLE_VIOLATION_FIX \<noteq> 0 then
         let s1 = ri_write ri (load_applet_ctrl_register self) 0x1 s;
             ready = push_bit (unat (num_ports self)) 1 - 1;
             (status, s2) = poll_register ri (load_applet_status_register self) (\<lambda>v. v = ready) (patience s1) s1
         in (0, self, s2)
       else (0, self, s)) (cxp_reset ri patience c)"

text \<open>The destructor resets the ports and frees the frontend: what is left is the device.\<close>

definition cxp_frontend_destroy :: "'hw register_interface \<Rightarrow> ('hw \<Rightarrow> nat) \<Rightarrow> 'hw cxp \<Rightarrow> 'hw option" where
  "cxp_frontend_destroy ri patience c = map_option (\<lambda>(_, self, s). s) (cxp_reset ri patience c)"

section \<open>Commands\<close>

abbreviation CAMERA_COMMAND_GET_VERSION :: u32 where "CAMERA_COMMAND_GET_VERSION \<equiv> 0"
abbreviation CAMERA_COMMAND_RESET :: u32 where "CAMERA_COMMAND_RESET \<equiv> 1"
abbreviation CAMERA_COMMAND_SET_PORT_MAP :: u32 where "CAMERA_COMMAND_SET_PORT_MAP \<equiv> 2"
abbreviation CAMERA_COMMAND_SET_PORT_POWER_STATE :: u32 where "CAMERA_COMMAND_SET_PORT_POWER_STATE \<equiv> 3"
abbreviation CAMERA_COMMAND_SET_PORT_DATA_PATH_STATE :: u32 where "CAMERA_COMMAND_SET_PORT_DATA_PATH_STATE \<equiv> 4"
abbreviation CAMERA_COMMAND_SET_PORT_DATA_PATH_SPEED :: u32 where "CAMERA_COMMAND_SET_PORT_DATA_PATH_SPEED \<equiv> 5"
abbreviation CAMERA_COMMAND_SET_PORT_CXP_STANDARD_VERSION :: u32 where "CAMERA_COMMAND_SET_PORT_CXP_STANDARD_VERSION \<equiv> 6"
abbreviation CAMERA_COMMAND_SET_PORT_CXP_LED_STATE :: u32 where "CAMERA_COMMAND_SET_PORT_CXP_LED_STATE \<equiv> 7"
abbreviation CAMERA_COMMAND_SET_PORT_ACQUISITION_STATE :: u32 where "CAMERA_COMMAND_SET_PORT_ACQUISITION_STATE \<equiv> 8"
abbreviation CAMERA_COMMAND_SET_PORT_CXP_CAMERA_DOWNSCALING :: u32 where
  "CAMERA_COMMAND_SET_PORT_CXP_CAMERA_DOWNSCALING \<equiv> 9"
abbreviation CAMERA_COMMAND_SET_STREAM_ID :: u32 where "CAMERA_COMMAND_SET_STREAM_ID \<equiv> 10"

text \<open>The arguments are a packed union of eight bytes.\<close>

definition arg_port :: "u64 \<Rightarrow> u32" where "arg_port args = ucast args"
definition arg_param :: "u64 \<Rightarrow> u32" where "arg_param args = ucast (drop_bit 32 args)"
definition arg_stream_id :: "u64 \<Rightarrow> u16" where "arg_stream_id args = ucast args"
definition arg_master_port :: "u64 \<Rightarrow> u32" where "arg_master_port args = ucast (drop_bit 16 args)"

definition cxp_execute_command ::
    "'hw register_interface \<Rightarrow> ('hw \<Rightarrow> nat) \<Rightarrow> u32 \<Rightarrow> u64 \<Rightarrow> 'hw cxp \<Rightarrow> (int \<times> 'hw cxp) option" where
  "cxp_execute_command ri patience cmd args c =
     (if cmd = CAMERA_COMMAND_RESET then cxp_reset ri patience c
      else if cmd = CAMERA_COMMAND_SET_PORT_MAP then cxp_set_port_map ri patience args c
      else if cmd = CAMERA_COMMAND_SET_PORT_POWER_STATE
      then cxp_set_port_power_state ri (arg_port args) (arg_param args) c
      else if cmd = CAMERA_COMMAND_SET_PORT_DATA_PATH_STATE
      then cxp_set_port_data_path_state ri (arg_port args) (arg_param args) c
      else if cmd = CAMERA_COMMAND_SET_PORT_DATA_PATH_SPEED
      then cxp_set_port_data_path_speed ri patience (arg_port args) (arg_param args) c
      else if cmd = CAMERA_COMMAND_SET_PORT_CXP_STANDARD_VERSION
      then cxp_set_port_standard_version ri (arg_port args) (arg_param args) c
      else if cmd = CAMERA_COMMAND_SET_PORT_CXP_LED_STATE
      then cxp_set_port_led_state ri (arg_port args) (arg_param args) c
      else if cmd = CAMERA_COMMAND_SET_PORT_ACQUISITION_STATE
      then cxp_set_port_acquisition_state ri (arg_port args) (arg_param args) c
      else if cmd = CAMERA_COMMAND_SET_PORT_CXP_CAMERA_DOWNSCALING
      then cxp_set_port_camera_donwscaling ri (arg_port args) (arg_param args) c
      else if cmd = CAMERA_COMMAND_SET_STREAM_ID
      then cxp_set_port_image_stream_id ri (arg_master_port args) (arg_stream_id args) c
      else Some (STATUS_ERR_INVALID_OPERATION, c))"

text \<open>
  \<^verbatim>\<open>do_camera_control\<close>: \<open>input\<close> is \<open>None\<close> if the copy from user space faults; the result says also
  whether the version was copied to user space.
\<close>

definition do_camera_control ::
    "'hw register_interface \<Rightarrow> ('hw \<Rightarrow> nat) \<Rightarrow> (u32 \<times> u64) option \<Rightarrow> 'hw cxp option
     \<Rightarrow> (int \<times> bool \<times> 'hw cxp option) option" where
  "do_camera_control ri patience input frontend =
     (case frontend of
        None \<Rightarrow> Some (- EFAULT, False, None)
      | Some c \<Rightarrow>
          (case input of
             None \<Rightarrow> Some (- EFAULT, False, Some c)
           | Some (cmd, args) \<Rightarrow>
               if cmd = CAMERA_COMMAND_GET_VERSION then Some (0, True, Some c)
               else map_option (\<lambda>(status, c1).
                 (if status = STATUS_ERR_INVALID_OPERATION \<or> status = CXP_FRONTEND_ERROR_APPLETDOESNOTSUPPORTTGS
                  then - EFAULT
                  else if status \<noteq> STATUS_OK then - ENODEV else 0, False, Some c1))
                 (cxp_execute_command ri patience cmd args c)))"

section \<open>Construction\<close>

definition cxp_port_init :: "u32 \<Rightarrow> cxp_port" where
  "cxp_port_init p =
     \<lparr>downlink_bitrate_register = (if p < 4 then 0x802 + p else 0x818),
      led_ctrl_register = (if p < 4 then 0x811 + p else 0x81b),
      config_image_stream_id_register = 0x81c + p,
      power_state_cache = POWER_STATE_UNKNOWN,
      data_path_state_physical_cache = DATA_PATH_STATE_UNKNOWN,
      data_path_state_logical_cache = DATA_PATH_STATE_UNKNOWN,
      data_path_dw_speed_cache = DATA_PATH_SPEED_UNKNOWN,
      data_path_up_speed_cache = DATA_PATH_UP_SPEED_UNKNOWN,
      standard_version_cache = CXP_STANDARD_VERSION_UNKNOWN,
      led_state_cache = CXP_LED_STATE_UNKNOWN,
      acquisition_state_cache = ACQUISITION_STATE_UNKNOWN,
      camera_downscale_state_cache = 1,
      stream_id_cache = -1\<rparr>"

definition port_maps_of :: "nat \<Rightarrow> u64 list" where
  "port_maps_of n =
     (if n = 5 then cxp_port_maps_5ch else if n = 4 then cxp_port_maps_4ch
      else if n = 2 then cxp_port_maps_2ch else cxp_port_maps_1ch)"

definition cxp_frontend_init :: "nat \<Rightarrow> bool \<Rightarrow> cxp_frontend" where
  "cxp_frontend_init num_physical_ports supports_idle_violation_fix =
     (let n = (if num_physical_ports = 5 then 5 else if num_physical_ports = 4 then 4
               else if num_physical_ports = 2 then 2 else 1)
      in \<lparr>cxp_flags = (if supports_idle_violation_fix then CXP_FLAGS_SUPPORTS_IDLE_VIOLATION_FIX else 0),
          ports = map (\<lambda>p. cxp_port_init (of_nat p)) [0..<n],
          port_maps = port_maps_of n,
          port_map_index = length (port_maps_of n) - 1,
          num_ports = of_nat n,
          power_ctrl_register = 0x800,
          reset_ctrl_register = 0x801,
          standard_ctrl_register = 0x806,
          acquisition_status_register = 0x807,
          discovery_config_register = 0x808,
          camera_operator_downscale_register = 0x817,
          data_path_status_register = 0x801,
          load_applet_ctrl_register = 0x815,
          load_applet_status_register = 0x815\<rparr>)"

text \<open>
  Two allocations may fail. If that of the ports does, the destructor is called, whose first step
  calls the method \<^verbatim>\<open>reset\<close> of an object that is still filled with zeros: \<open>None\<close>.
\<close>

definition cxp_frontend_alloc_and_init :: "bool \<Rightarrow> bool \<Rightarrow> nat \<Rightarrow> bool \<Rightarrow> cxp_frontend option option" where
  "cxp_frontend_alloc_and_init frontend_allocated ports_allocated num_physical_ports supports_idle_violation_fix =
     (if \<not> frontend_allocated then Some None
      else if \<not> ports_allocated then None
      else Some (Some (cxp_frontend_init num_physical_ports supports_idle_violation_fix)))"

text \<open>The versions that the low word of the device serial number tells.\<close>

definition static_version_greater_equal :: "u32 \<Rightarrow> u32 \<Rightarrow> u32 \<Rightarrow> bool" where
  "static_version_greater_equal dsn maj mn \<longleftrightarrow>
     dsn AND 0x7 > maj \<or> dsn AND 0x7 = maj \<and> drop_bit 11 dsn AND 0xf \<ge> mn"

definition static_version_equal :: "u32 \<Rightarrow> u32 \<Rightarrow> u32 \<Rightarrow> bool" where
  "static_version_equal dsn maj mn \<longleftrightarrow> dsn AND 0x7 = maj \<and> drop_bit 11 dsn AND 0xf = mn"

definition BASLER_CXP12_IC_1C_SUPPORTS_CAMERA_FRONTEND :: "u32 \<Rightarrow> bool" where
  "BASLER_CXP12_IC_1C_SUPPORTS_CAMERA_FRONTEND dsn \<longleftrightarrow> static_version_greater_equal dsn 1 1 \<or> static_version_equal dsn 0 1"

definition BASLER_CXP12_IC_1C_SUPPORTS_IDLE_VIOLATION_FIX :: "u32 \<Rightarrow> bool" where
  "BASLER_CXP12_IC_1C_SUPPORTS_IDLE_VIOLATION_FIX dsn \<longleftrightarrow> static_version_greater_equal dsn 1 2 \<or> static_version_equal dsn 0 1"

definition ME6_IMPULSE_CXP_SUPPORTS_IDLE_VIOLATION_FIX :: "u32 \<Rightarrow> bool" where
  "ME6_IMPULSE_CXP_SUPPORTS_IDLE_VIOLATION_FIX dsn \<longleftrightarrow> static_version_greater_equal dsn 0 1"

definition ME6_ELEGANCE_ECO_SUPPORTS_CAMERA_FRONTEND :: "u32 \<Rightarrow> bool" where
  "ME6_ELEGANCE_ECO_SUPPORTS_CAMERA_FRONTEND dsn \<longleftrightarrow> dsn AND 0x7ff > 4"

text \<open>The number of ports and the flag that the factory asks for, if the board has a frontend.\<close>

definition frontend_of_board :: "int \<Rightarrow> u32 \<Rightarrow> (nat \<times> bool) option" where
  "frontend_of_board board dsn =
     (if board = PN_MICROENABLE6_CXP12_IC_1C then
        if BASLER_CXP12_IC_1C_SUPPORTS_CAMERA_FRONTEND dsn
        then Some (1, BASLER_CXP12_IC_1C_SUPPORTS_IDLE_VIOLATION_FIX dsn) else None
      else if board = PN_MICROENABLE6_CXP12_IC_2C \<or> board = PN_MICROENABLE6_CXP12_LB_2C then Some (2, True)
      else if board = PN_MICROENABLE6_CXP12_IC_4C then Some (4, True)
      else if board = PN_MICROENABLE6_IMAWORX_CXP12_QUAD \<or> board = PN_MICROENABLE6_IMAFLEX_CXP12_QUAD
        \<or> board = PN_MICROENABLE6_IMPULSE_TEST_CXP12_QUAD
      then Some (4, ME6_IMPULSE_CXP_SUPPORTS_IDLE_VIOLATION_FIX dsn)
      else if board = PN_MICROENABLE6_IMAFLEX_CXP12_PENTA
      then Some (5, ME6_IMPULSE_CXP_SUPPORTS_IDLE_VIOLATION_FIX dsn)
      else if board = PN_MICROENABLE6_ELEGANCE_ECO then
        if ME6_ELEGANCE_ECO_SUPPORTS_CAMERA_FRONTEND dsn then Some (4, False) else None
      else None)"

definition camera_frontend_factory :: "bool \<Rightarrow> bool \<Rightarrow> int \<Rightarrow> u32 \<Rightarrow> cxp_frontend option option" where
  "camera_frontend_factory frontend_allocated ports_allocated board dsn =
     (case frontend_of_board board dsn of
        None \<Rightarrow> Some None
      | Some (n, idle_fix) \<Rightarrow> cxp_frontend_alloc_and_init frontend_allocated ports_allocated n idle_fix)"

end
