(* ===== verification/Cxp_Maps.thy ===== *)
theory Cxp_Maps
  imports Cxp
begin

text \<open>
  The port maps of \<^verbatim>\<open>cxp_frontend.c\<close> are written as hexadecimal numbers. Here each is taken apart into
  the list of the logical ports of the physical ports, and shown to be a permutation, with its
  inverse in the lower half.
\<close>

section \<open>Digits\<close>

definition of_digits :: "nat list \<Rightarrow> nat" where
  "of_digits ds = foldr (\<lambda>d x. d + 16 * x) ds 0"

lemma of_digits_simps [simp]: "of_digits [] = 0" "of_digits (d # ds) = d + 16 * of_digits ds"
  by (simp_all add: of_digits_def)

lemma digit_of_digits:
  "list_all (\<lambda>d. d < 16) ds \<Longrightarrow> k < length ds \<Longrightarrow> of_digits ds div 16 ^ k mod 16 = ds ! k"
proof (induction ds arbitrary: k)
  case (Cons d ds)
  show ?case
  proof (cases k)
    case (Suc k')
    have "(d + 16 * of_digits ds) div 16 = of_digits ds" using Cons.prems(1) by simp
    then have "(d + 16 * of_digits ds) div (16 * 16 ^ k') = of_digits ds div 16 ^ k'"
      by (simp add: div_mult2_eq)
    with Suc Cons show ?thesis by simp
  qed (use Cons.prems in simp)
qed simp

lemma of_digits_less: "list_all (\<lambda>d. d < 16) ds \<Longrightarrow> of_digits ds < 16 ^ length ds"
proof (induction ds)
  case (Cons d ds)
  then have "of_digits ds + 1 \<le> 16 ^ length ds" "d < 16" by simp_all
  then have "d + 16 * of_digits ds < 16 * (of_digits ds + 1)" "16 * (of_digits ds + 1) \<le> 16 * 16 ^ length ds"
    by (simp, metis mult_le_mono2)
  then show ?case by simp
qed simp

lemma unat_take_bit_drop: "unat (take_bit m (drop_bit n (w :: u64))) = take_bit m (drop_bit n (unat w))"
proof -
  have "unat w < 2 ^ LENGTH(64)" by (rule unsigned_less)
  then have "take_bit 64 (unat w) = unat w" by (simp add: take_bit_nat_eq_self_iff)
  then show ?thesis by (simp add: unsigned_take_bit_eq unsigned_drop_bit_eq)
qed

lemma nibble_of_digits:
  assumes "list_all (\<lambda>d. d < 16) ds" "length ds = 16" "k < 16"
  shows "ucast (drop_bit (4 * k) (of_nat (of_digits ds) :: u64) AND 0xf) = (of_nat (ds ! k) :: u32)"
proof -
  have "of_digits ds < 2 ^ 64" using of_digits_less [OF assms(1)] assms(2) by simp
  then have u: "unat (of_nat (of_digits ds) :: u64) = of_digits ds" by (simp add: unat_of_nat take_bit_eq_mod)
  have m: "(0xf :: u64) = mask 4" by (simp add: mask_eq_exp_minus_1)
  have "(2 :: nat) ^ (4 * k) = 16 ^ k" by (simp add: power_mult)
  then have "take_bit 4 (drop_bit (4 * k) (of_digits ds)) = ds ! k"
    using digit_of_digits [OF assms(1), of k] assms(2,3) by (simp add: take_bit_eq_mod drop_bit_eq_div)
  with u have "unat (drop_bit (4 * k) (of_nat (of_digits ds) :: u64) AND 0xf) = ds ! k"
    unfolding m by (simp only: take_bit_eq_mask [symmetric] unat_take_bit_drop)
  then show ?thesis by (metis of_nat_unat)
qed

section \<open>The tables\<close>

definition perms_1 :: "nat list list" where
  "perms_1 = [
     [0]]"

definition perms_2 :: "nat list list" where
  "perms_2 = [
     [0, 1], [1, 0]]"

definition perms_4 :: "nat list list" where
  "perms_4 = [
     [0, 1, 2, 3], [0, 1, 3, 2], [0, 2, 1, 3], [0, 3, 1, 2], [0, 2, 3, 1], [0, 3, 2, 1], [1, 0, 2, 3],
     [1, 0, 3, 2], [2, 0, 1, 3], [3, 0, 1, 2], [2, 0, 3, 1], [3, 0, 2, 1], [1, 2, 0, 3], [1, 3, 0, 2],
     [2, 1, 0, 3], [3, 1, 0, 2], [2, 3, 0, 1], [3, 2, 0, 1], [1, 2, 3, 0], [1, 3, 2, 0], [2, 1, 3, 0],
     [3, 1, 2, 0], [2, 3, 1, 0], [3, 2, 1, 0]]"

definition perms_5 :: "nat list list" where
  "perms_5 = [
     [0, 1, 2, 3, 4], [0, 1, 2, 4, 3], [0, 1, 3, 2, 4], [0, 1, 4, 2, 3], [0, 1, 3, 4, 2], [0, 1, 4, 3, 2],
     [0, 2, 1, 3, 4], [0, 2, 1, 4, 3], [0, 3, 1, 2, 4], [0, 4, 1, 2, 3], [0, 3, 1, 4, 2], [0, 4, 1, 3, 2],
     [0, 2, 3, 1, 4], [0, 2, 4, 1, 3], [0, 3, 2, 1, 4], [0, 4, 2, 1, 3], [0, 3, 4, 1, 2], [0, 4, 3, 1, 2],
     [0, 2, 3, 4, 1], [0, 2, 4, 3, 1], [0, 3, 2, 4, 1], [0, 4, 2, 3, 1], [0, 3, 4, 2, 1], [0, 4, 3, 2, 1],
     [1, 0, 2, 3, 4], [1, 0, 2, 4, 3], [1, 0, 3, 2, 4], [1, 0, 4, 2, 3], [1, 0, 3, 4, 2], [1, 0, 4, 3, 2],
     [2, 0, 1, 3, 4], [2, 0, 1, 4, 3], [3, 0, 1, 2, 4], [4, 0, 1, 2, 3], [3, 0, 1, 4, 2], [4, 0, 1, 3, 2],
     [2, 0, 3, 1, 4], [2, 0, 4, 1, 3], [3, 0, 2, 1, 4], [4, 0, 2, 1, 3], [3, 0, 4, 1, 2], [4, 0, 3, 1, 2],
     [2, 0, 3, 4, 1], [2, 0, 4, 3, 1], [3, 0, 2, 4, 1], [4, 0, 2, 3, 1], [3, 0, 4, 2, 1], [4, 0, 3, 2, 1],
     [1, 2, 0, 3, 4], [1, 2, 0, 4, 3], [1, 3, 0, 2, 4], [1, 4, 0, 2, 3], [1, 3, 0, 4, 2], [1, 4, 0, 3, 2],
     [2, 1, 0, 3, 4], [2, 1, 0, 4, 3], [3, 1, 0, 2, 4], [4, 1, 0, 2, 3], [3, 1, 0, 4, 2], [4, 1, 0, 3, 2],
     [2, 3, 0, 1, 4], [2, 4, 0, 1, 3], [3, 2, 0, 1, 4], [4, 2, 0, 1, 3], [3, 4, 0, 1, 2], [4, 3, 0, 1, 2],
     [2, 3, 0, 4, 1], [2, 4, 0, 3, 1], [3, 2, 0, 4, 1], [4, 2, 0, 3, 1], [3, 4, 0, 2, 1], [4, 3, 0, 2, 1],
     [1, 2, 3, 0, 4], [1, 2, 4, 0, 3], [1, 3, 2, 0, 4], [1, 4, 2, 0, 3], [1, 3, 4, 0, 2], [1, 4, 3, 0, 2],
     [2, 1, 3, 0, 4], [2, 1, 4, 0, 3], [3, 1, 2, 0, 4], [4, 1, 2, 0, 3], [3, 1, 4, 0, 2], [4, 1, 3, 0, 2],
     [2, 3, 1, 0, 4], [2, 4, 1, 0, 3], [3, 2, 1, 0, 4], [4, 2, 1, 0, 3], [3, 4, 1, 0, 2], [4, 3, 1, 0, 2],
     [2, 3, 4, 0, 1], [2, 4, 3, 0, 1], [3, 2, 4, 0, 1], [4, 2, 3, 0, 1], [3, 4, 2, 0, 1], [4, 3, 2, 0, 1],
     [1, 2, 3, 4, 0], [1, 2, 4, 3, 0], [1, 3, 2, 4, 0], [1, 4, 2, 3, 0], [1, 3, 4, 2, 0], [1, 4, 3, 2, 0],
     [2, 1, 3, 4, 0], [2, 1, 4, 3, 0], [3, 1, 2, 4, 0], [4, 1, 2, 3, 0], [3, 1, 4, 2, 0], [4, 1, 3, 2, 0],
     [2, 3, 1, 4, 0], [2, 4, 1, 3, 0], [3, 2, 1, 4, 0], [4, 2, 1, 3, 0], [3, 4, 1, 2, 0], [4, 3, 1, 2, 0],
     [2, 3, 4, 1, 0], [2, 4, 3, 1, 0], [3, 2, 4, 1, 0], [4, 2, 3, 1, 0], [3, 4, 2, 1, 0], [4, 3, 2, 1, 0]]"
text \<open>The map of a permutation: its inverse in the lower half, and the ports a board does not have.\<close>

definition inverse_perm :: "nat list \<Rightarrow> nat list" where
  "inverse_perm p = map (\<lambda>l. length (takeWhile (\<lambda>x. x \<noteq> l) p)) [0..<length p]"

definition map_digits :: "nat list \<Rightarrow> nat list" where
  "map_digits p = inverse_perm p @ drop (length p) [0, 1, 2, 3, 4, 5, 6, 7] @ p @ drop (length p) [0, 1, 2, 3, 4, 5, 6, 7]"

definition map_of_perm :: "nat list \<Rightarrow> u64" where
  "map_of_perm p = of_nat (of_digits (map_digits p))"

lemma upt_small: "[0..<1] = [0]" "[0..<2] = [0, 1]" "[0..<4] = [0, 1, 2, 3]" "[0..<5] = [0, 1, 2, 3, 4]"
  by (simp_all add: upt_conv_Cons)

lemma table_5: "butlast cxp_port_maps_5ch = map map_of_perm perms_5"
  by (simp add: cxp_port_maps_5ch_def perms_5_def map_of_perm_def map_digits_def inverse_perm_def upt_small)

lemma table_4: "butlast cxp_port_maps_4ch = map map_of_perm perms_4"
  by (simp add: cxp_port_maps_4ch_def perms_4_def map_of_perm_def map_digits_def inverse_perm_def upt_small)

lemma table_2: "butlast cxp_port_maps_2ch = map map_of_perm perms_2"
  by (simp add: cxp_port_maps_2ch_def perms_2_def map_of_perm_def map_digits_def inverse_perm_def upt_small numeral_2_eq_2)

lemma table_1: "butlast cxp_port_maps_1ch = map map_of_perm perms_1"
  by (simp add: cxp_port_maps_1ch_def perms_1_def map_of_perm_def map_digits_def inverse_perm_def upt_small)

definition perm_ok :: "nat \<Rightarrow> nat list \<Rightarrow> bool" where
  "perm_ok n p \<longleftrightarrow> length p = n \<and> list_all (List.member p) [0..<n]"

lemma perm_okD:
  assumes "perm_ok n p"
  shows "length p = n" "set p = {0..<n}" "distinct p"
proof -
  show l: "length p = n" using assms by (simp add: perm_ok_def)
  have sub: "{0..<n} \<subseteq> set p" using assms by (auto simp: perm_ok_def list_all_iff)
  have "card (set p) \<le> card {0..<n}" using card_length [of p] l by simp
  then show e: "set p = {0..<n}" using card_seteq [OF _ sub] by simp
  show "distinct p" using e l by (simp add: card_distinct)
qed

lemma perms_ok:
  "list_all (perm_ok 5) perms_5" "list_all (perm_ok 4) perms_4" "list_all (perm_ok 2) perms_2" "list_all (perm_ok 1) perms_1"
  by code_simp+

lemma perms_distinct: "distinct perms_5 \<and> length perms_5 = fact 5" "distinct perms_4 \<and> length perms_4 = fact 4"
  by code_simp+

section \<open>What the maps say\<close>

lemma index_in_perm:
  assumes "perm_ok n p" "l < n"
  shows "length (takeWhile (\<lambda>x. x \<noteq> l) p) < n \<and> p ! length (takeWhile (\<lambda>x. x \<noteq> l) p) = l"
proof -
  have "l \<in> set p" using perm_okD(2) [OF assms(1)] assms(2) by simp
  then have "length (takeWhile (\<lambda>x. x \<noteq> l) p) < length p"
    by (induction p) auto
  then show ?thesis using nth_length_takeWhile [of "\<lambda>x. x \<noteq> l" p] perm_okD(1) [OF assms(1)] by auto
qed

lemma map_digits_ok:
  assumes "perm_ok n p" "n \<le> 8"
  shows "length (map_digits p) = 16" "list_all (\<lambda>d. d < 16) (map_digits p)"
    "i < n \<Longrightarrow> map_digits p ! (8 + i) = p ! i"
    "i < n \<Longrightarrow> map_digits p ! i = length (takeWhile (\<lambda>x. x \<noteq> i) p)"
proof -
  let ?rest = "[0, 1, 2, 3, 4, 5, 6, 7 :: nat]"
  have l: "length p = n" "length (inverse_perm p) = n" using perm_okD(1) [OF assms(1)] by (simp_all add: inverse_perm_def)
  have r: "length (drop n ?rest) = 8 - n" "list_all (\<lambda>d. d < 16) (drop n ?rest)"
    by (simp, use in_set_dropD [of _ n ?rest] in \<open>fastforce simp: list_all_iff\<close>)
  show "length (map_digits p) = 16" using l r(1) assms(2) by (simp add: map_digits_def)
  have "list_all (\<lambda>d. d < 16) p" using perm_okD(2) [OF assms(1)] assms(2) by (auto simp: list_all_iff)
  moreover have "list_all (\<lambda>d. d < 16) (inverse_perm p)"
  proof -
    have "length (takeWhile P p) < 16" for P using length_takeWhile_le [of P p] l(1) assms(2) by linarith
    then show ?thesis by (simp add: inverse_perm_def list_all_iff)
  qed
  ultimately show "list_all (\<lambda>d. d < 16) (map_digits p)" using r(2) l(1) by (simp add: map_digits_def)
  show "i < n \<Longrightarrow> map_digits p ! (8 + i) = p ! i"
    using nth_append_length_plus [of "inverse_perm p @ drop n ?rest" "p @ drop n ?rest" i] l r(1) assms(2)
    by (simp add: map_digits_def nth_append del: nth_append_length_plus)
  show "i < n \<Longrightarrow> map_digits p ! i = length (takeWhile (\<lambda>x. x \<noteq> i) p)"
    using l by (simp add: map_digits_def nth_append inverse_perm_def)
qed

lemma map_of_perm_ports:
  assumes "perm_ok n p" "n \<le> 8" "i < n"
  shows "cxp_get_logical_port_number_from_port_map (map_of_perm p) (of_nat i) = of_nat (p ! i)"
    "cxp_get_physical_port_number_from_port_map (map_of_perm p) (of_nat i) = of_nat (length (takeWhile (\<lambda>x. x \<noteq> i) p))"
proof -
  note d = map_digits_ok [OF assms(1,2)]
  have u: "unat (of_nat i :: u32) = i" using assms by simp
  have "32 + i * 4 = 4 * (8 + i)" "i * 4 = 4 * i" by simp_all
  then show "cxp_get_logical_port_number_from_port_map (map_of_perm p) (of_nat i) = of_nat (p ! i)"
    "cxp_get_physical_port_number_from_port_map (map_of_perm p) (of_nat i) = of_nat (length (takeWhile (\<lambda>x. x \<noteq> i) p))"
    unfolding cxp_get_logical_port_number_from_port_map_def cxp_get_physical_port_number_from_port_map_def u map_of_perm_def
    using nibble_of_digits [OF d(2,1), of "8 + i"] nibble_of_digits [OF d(2,1), of i] d(3,4) assms(2,3)
    by (simp_all only:)
qed

text \<open>The permutations of a table, and that the table has every one of them.\<close>

definition perms_of :: "nat \<Rightarrow> nat list list" where
  "perms_of n = (if n = 5 then perms_5 else if n = 4 then perms_4 else if n = 2 then perms_2 else perms_1)"

definition port_count :: "nat \<Rightarrow> bool" where
  "port_count n \<longleftrightarrow> n = 1 \<or> n = 2 \<or> n = 4 \<or> n = 5"

lemma port_count_le: "port_count n \<Longrightarrow> 0 < n \<and> n \<le> 5" by (auto simp: port_count_def)

lemma tables: "port_count n \<Longrightarrow> port_maps_of n = map map_of_perm (perms_of n) @ [CXP_PORT_MAP_INVALID]"
proof -
  have "cxp_port_maps_5ch = butlast cxp_port_maps_5ch @ [CXP_PORT_MAP_INVALID]"
    "cxp_port_maps_4ch = butlast cxp_port_maps_4ch @ [CXP_PORT_MAP_INVALID]"
    "cxp_port_maps_2ch = butlast cxp_port_maps_2ch @ [CXP_PORT_MAP_INVALID]"
    "cxp_port_maps_1ch = butlast cxp_port_maps_1ch @ [CXP_PORT_MAP_INVALID]"
    by (simp_all add: cxp_port_maps_5ch_def cxp_port_maps_4ch_def cxp_port_maps_2ch_def cxp_port_maps_1ch_def)
  then show "port_count n \<Longrightarrow> ?thesis"
    by (auto simp: port_count_def port_maps_of_def perms_of_def table_5 table_4 table_2 table_1)
qed

lemma perms_of_ok: "port_count n \<Longrightarrow> p \<in> set (perms_of n) \<Longrightarrow> perm_ok n p"
  using perms_ok by (auto simp: port_count_def perms_of_def list_all_iff split: if_splits)

lemma perms_of_count: "port_count n \<Longrightarrow> distinct (perms_of n) \<and> length (perms_of n) = fact n"
  using perms_distinct by (auto simp: port_count_def perms_of_def perms_2_def perms_1_def numeral_2_eq_2)

lemma perms_of_all:
  assumes "port_count n" "perm_ok n p"
  shows "p \<in> set (perms_of n)"
proof -
  let ?A = "{xs :: nat list. length xs = n \<and> distinct xs \<and> set xs \<subseteq> {0..<n}}"
  have "set (perms_of n) \<subseteq> ?A" using perms_of_ok [OF assms(1)] perm_okD by blast
  moreover have "card ?A = fact n"
    using card_lists_distinct_length_eq [of "{0..<n}" n] by (simp add: fact_prod)
  moreover have "card (set (perms_of n)) = fact n"
    using perms_of_count [OF assms(1)] by (simp add: distinct_card)
  moreover have "finite ?A" by (rule finite_subset [OF _ finite_lists_length_eq [of "{0..<n}" n]]) auto
  ultimately have "set (perms_of n) = ?A" by (metis card_subset_eq)
  then show ?thesis using perm_okD [OF assms(2)] by simp
qed

lemma map_not_invalid:
  assumes "perm_ok n p" "n \<le> 5" "0 < n"
  shows "map_of_perm p \<noteq> CXP_PORT_MAP_INVALID"
proof
  assume e: "map_of_perm p = CXP_PORT_MAP_INVALID"
  have "p ! 0 < n" using perm_okD [OF assms(1)] assms(3) nth_mem [of 0 p] by simp
  then have small: "p ! 0 < 5" using assms(2) by simp
  moreover have "(of_nat (p ! 0) :: u32) = 15"
    using map_of_perm_ports(1) [OF assms(1) _ assms(3)] assms(2) e
    by (simp add: cxp_get_logical_port_number_from_port_map_def)
  moreover have "unat (of_nat (p ! 0) :: u32) = p ! 0" using small by simp
  ultimately show False by simp
qed

text \<open>What a valid map does.\<close>

definition valid_map :: "nat \<Rightarrow> u64 \<Rightarrow> bool" where
  "valid_map n m \<longleftrightarrow> (\<exists>p \<in> set (perms_of n). m = map_of_perm p)"

lemma valid_map_iff: "port_count n \<Longrightarrow> valid_map n m \<longleftrightarrow> m \<in> set (port_maps_of n) \<and> m \<noteq> CXP_PORT_MAP_INVALID"
  using map_not_invalid perms_of_ok port_count_le by (fastforce simp: valid_map_def tables)

lemma valid_map_ports:
  assumes "port_count n" "valid_map n m" "unat p < n"
  shows "unat (cxp_get_logical_port_number_from_port_map m p) < n"
    "cxp_get_physical_port_number_from_port_map m (cxp_get_logical_port_number_from_port_map m p) = p"
    "unat (cxp_get_physical_port_number_from_port_map m p) < n"
    "cxp_get_logical_port_number_from_port_map m (cxp_get_physical_port_number_from_port_map m p) = p"
proof -
  obtain q where q: "perm_ok n q" "m = map_of_perm q" using assms(1,2) perms_of_ok by (auto simp: valid_map_def)
  have n: "n \<le> 8" "n \<le> 5" using port_count_le [OF assms(1)] by simp_all
  let ?i = "unat p" let ?x = "\<lambda>l. length (takeWhile (\<lambda>x. x \<noteq> l) q)"
  have small: "k < n \<Longrightarrow> unat (of_nat k :: u32) = k" for k using n by simp
  have qi: "q ! ?i < n" using perm_okD [OF q(1)] assms(3) nth_mem [of ?i q] by simp
  have x: "?x k < n \<and> q ! ?x k = k" if "k < n" for k using index_in_perm [OF q(1) that] .
  have inj: "?x (q ! ?i) = ?i"
    using x [OF qi] perm_okD [OF q(1)] assms(3) nth_eq_iff_index_eq [of q "?x (q ! ?i)" ?i] by simp
  have pi: "of_nat ?i = p" by simp
  note L = map_of_perm_ports(1) [OF q(1) n(1)] and P = map_of_perm_ports(2) [OF q(1) n(1)]
  show "unat (cxp_get_logical_port_number_from_port_map m p) < n"
    "cxp_get_physical_port_number_from_port_map m (cxp_get_logical_port_number_from_port_map m p) = p"
    using L [OF assms(3)] P [OF qi] qi inj small [OF qi] unfolding q(2) pi by simp_all
  show "unat (cxp_get_physical_port_number_from_port_map m p) < n"
    "cxp_get_logical_port_number_from_port_map m (cxp_get_physical_port_number_from_port_map m p) = p"
    using P [OF assms(3)] L [of "?x ?i"] x [OF assms(3)] small [of "?x ?i"] unfolding q(2) pi by simp_all
qed

end
