(* ===== verification/Cxp_Props.thy ===== *)
theory Cxp_Props
  imports Cxp_Maps
begin

text \<open>
  The registers of the CoaXPress frontend follow the states of the ports, whatever commands a user
  sends and whatever the board answers.
\<close>

section \<open>Reading and changing ports\<close>

definition frontend_ok :: "nat \<Rightarrow> cxp_frontend \<Rightarrow> bool" where
  "frontend_ok n self \<longleftrightarrow> port_count n \<and> length (ports self) = n \<and> valid_map n (current_port_map self)
     \<and> (\<exists>b ps i. self = (cxp_frontend_init n b)\<lparr>ports := ps, port_map_index := i\<rparr>)
     \<and> (\<forall>k < n. downlink_bitrate_register (ports self ! k) = downlink_bitrate_register (cxp_port_init (of_nat k))
          \<and> led_ctrl_register (ports self ! k) = led_ctrl_register (cxp_port_init (of_nat k))
          \<and> config_image_stream_id_register (ports self ! k) = 0x81c + of_nat k)"

lemma frontend_okD:
  assumes "frontend_ok n self"
  shows "port_count n" "length (ports self) = n" "valid_map n (current_port_map self)" "num_ports self = of_nat n"
    "power_ctrl_register self = 0x800" "reset_ctrl_register self = 0x801" "standard_ctrl_register self = 0x806"
    "acquisition_status_register self = 0x807" "discovery_config_register self = 0x808"
    "camera_operator_downscale_register self = 0x817" "data_path_status_register self = 0x801"
    "load_applet_ctrl_register self = 0x815" "load_applet_status_register self = 0x815"
    "port_maps self = port_maps_of n"
  using assms by (auto simp: frontend_ok_def cxp_frontend_init_def Let_def port_count_def)

lemma port_of_upd:
  "port_of (upd_port l f self) p = (if p = l \<and> in_ports self l then f (port_of self l) else port_of self p)"
proof (cases "in_ports self l")
  case True
  then show ?thesis by (simp add: port_of_def upd_port_def in_ports_def nth_list_update word_unat_eq_iff)
next
  case False
  then have "(ports self)[unat l := x] = ports self" for x by (simp add: in_ports_def list_update_beyond)
  with False show ?thesis by (simp add: port_of_def upd_port_def)
qed

lemma sel_upd:
  assumes "g (f (port_of self l)) = g (port_of self l)"
  shows "g (port_of (upd_port l f self) p) = g (port_of self p)"
  using assms by (auto simp: port_of_upd)

lemma upd_port_simps [simp]:
  "num_ports (upd_port l f self) = num_ports self"
  "port_maps (upd_port l f self) = port_maps self"
  "port_map_index (upd_port l f self) = port_map_index self"
  "current_port_map (upd_port l f self) = current_port_map self"
  "logical_of (upd_port l f self) p = logical_of self p"
  "all_ports (upd_port l f self) = all_ports self"
  "in_ports (upd_port l f self) p = in_ports self p"
  "length (ports (upd_port l f self)) = length (ports self)"
  "power_ctrl_register (upd_port l f self) = power_ctrl_register self"
  "reset_ctrl_register (upd_port l f self) = reset_ctrl_register self"
  "standard_ctrl_register (upd_port l f self) = standard_ctrl_register self"
  "acquisition_status_register (upd_port l f self) = acquisition_status_register self"
  "discovery_config_register (upd_port l f self) = discovery_config_register self"
  "camera_operator_downscale_register (upd_port l f self) = camera_operator_downscale_register self"
  "data_path_status_register (upd_port l f self) = data_path_status_register self"
  "load_applet_ctrl_register (upd_port l f self) = load_applet_ctrl_register self"
  "load_applet_status_register (upd_port l f self) = load_applet_status_register self"
  "cxp_flags (upd_port l f self) = cxp_flags self"
  by (simp_all add: upd_port_def current_port_map_def logical_of_def all_ports_def in_ports_def)

lemma combined_upd [simp]: "combined (upd_port l f self) F = combined self F"
  by (simp add: combined_def)

definition keeps_registers :: "(cxp_port \<Rightarrow> cxp_port) \<Rightarrow> bool" where
  "keeps_registers f \<longleftrightarrow> (\<forall>q. downlink_bitrate_register (f q) = downlink_bitrate_register q
     \<and> led_ctrl_register (f q) = led_ctrl_register q
     \<and> config_image_stream_id_register (f q) = config_image_stream_id_register q)"

lemma frontend_ok_upd:
  assumes "frontend_ok n self" "keeps_registers f"
  shows "frontend_ok n (upd_port l f self)"
proof -
  obtain b ps i where self: "self = (cxp_frontend_init n b)\<lparr>ports := ps, port_map_index := i\<rparr>"
    using assms(1) by (auto simp: frontend_ok_def)
  have "upd_port l f self = (cxp_frontend_init n b)\<lparr>ports := ps[unat l := f (ps ! unat l)], port_map_index := i\<rparr>"
    by (simp add: self upd_port_def port_of_def)
  moreover have "ports (upd_port l f self) ! k = (if k = unat l then f (ports self ! k) else ports self ! k)"
    if "k < n" for k using that assms(1) by (auto simp: upd_port_def port_of_def nth_list_update frontend_ok_def)
  ultimately show ?thesis using assms unfolding frontend_ok_def keeps_registers_def upd_port_simps by auto
qed

lemma keeps_registers_simps [simp]:
  "keeps_registers (\<lambda>q. q\<lparr>power_state_cache := a\<rparr>)"
  "keeps_registers (\<lambda>q. q\<lparr>data_path_state_physical_cache := a\<rparr>)"
  "keeps_registers (\<lambda>q. q\<lparr>data_path_state_logical_cache := a\<rparr>)"
  "keeps_registers (\<lambda>q. q\<lparr>data_path_dw_speed_cache := a\<rparr>)"
  "keeps_registers (\<lambda>q. q\<lparr>data_path_up_speed_cache := a\<rparr>)"
  "keeps_registers (\<lambda>q. q\<lparr>standard_version_cache := a\<rparr>)"
  "keeps_registers (\<lambda>q. q\<lparr>led_state_cache := a\<rparr>)"
  "keeps_registers (\<lambda>q. q\<lparr>acquisition_state_cache := a\<rparr>)"
  "keeps_registers (\<lambda>q. q\<lparr>camera_downscale_state_cache := b\<rparr>)"
  "keeps_registers (\<lambda>q. q\<lparr>stream_id_cache := d\<rparr>)"
  by (simp_all add: keeps_registers_def)

lemma port_in_range:
  assumes "frontend_ok n self" "p < num_ports self"
  shows "unat p < n" "in_ports self p" "in_ports self (logical_of self p)" "unat (logical_of self p) < n"
    "cxp_get_physical_port_number_from_port_map (current_port_map self) (logical_of self p) = p"
proof -
  note d = frontend_okD [OF assms(1)]
  have n: "n \<le> 5" using port_count_le [OF d(1)] by simp
  then show p: "unat p < n" using assms(2) d(4) by (simp add: word_less_nat_alt)
  from valid_map_ports(1,2) [OF d(1,3) p] show "unat (logical_of self p) < n"
    "cxp_get_physical_port_number_from_port_map (current_port_map self) (logical_of self p) = p"
    by (simp_all add: logical_of_def)
  with p d(2) show "in_ports self p" "in_ports self (logical_of self p)" by (simp_all add: in_ports_def)
qed

lemma logical_of_inj:
  assumes "frontend_ok n self" "p < num_ports self" "q < num_ports self"
  shows "logical_of self p = logical_of self q \<longleftrightarrow> p = q"
  using port_in_range(5) [OF assms(1,2)] port_in_range(5) [OF assms(1,3)] by metis

section \<open>What is written\<close>

fun last_write :: "u32 \<Rightarrow> bus_event list \<Rightarrow> u32 option" where
  "last_write a [] = None"
| "last_write a (e # es) =
     (case last_write a es of
        Some v \<Rightarrow> Some v
      | None \<Rightarrow> (case e of Wr b v \<Rightarrow> if a = b then Some v else None | Rd b v \<Rightarrow> None))"

lemma last_write_append:
  "last_write a (xs @ ys) = (case last_write a ys of Some v \<Rightarrow> Some v | None \<Rightarrow> last_write a xs)"
  by (induction xs) (auto split: option.splits)

lemma last_write_snoc [simp]:
  "last_write a (xs @ [Wr b v]) = (if a = b then Some v else last_write a xs)"
  "last_write a (xs @ [Rd b v]) = last_write a xs"
  by (simp_all add: last_write_append)

text \<open>A register that was written holds the value.\<close>

definition holds :: "bus_event list \<Rightarrow> u32 \<Rightarrow> u32 \<Rightarrow> bool" where
  "holds log a v \<longleftrightarrow> last_write a log = None \<or> last_write a log = Some v"

lemma holds_snoc [simp]:
  "holds (log @ [Wr b v]) a x \<longleftrightarrow> (if a = b then x = v else holds log a x)"
  "holds (log @ [Rd b v]) a x = holds log a x"
  by (auto simp: holds_def)

lemma poll_register_writes:
  "last_write a (snd (snd (poll_register (logged ri) b done n st))) = last_write a (snd st)"
  by (induction n arbitrary: st) (auto simp: Let_def)

lemma wait_done:
  assumes "cxp_wait_port_data_path_speed_change_done (logged ri) pat p (self, st) = (r, c)"
  obtains st' where "c = (self, st')" "\<And>a v. holds (snd st') a v = holds (snd st) a v"
proof -
  let ?P = "poll_register (logged ri) (data_path_status_register self)
      (\<lambda>v. v AND push_bit (unat p) 1 = push_bit (unat p) 1) (pat st) st"
  have "c = (self, snd ?P)"
    using assms unfolding cxp_wait_port_data_path_speed_change_done_def Let_def case_prod_beta by simp
  with that [of "snd ?P"] show thesis by (simp only: holds_def poll_register_writes)
qed

text \<open>The registers of a port, and that all registers are different.\<close>

definition dl_reg :: "u32 \<Rightarrow> u32" where "dl_reg p = downlink_bitrate_register (cxp_port_init p)"
definition led_reg :: "u32 \<Rightarrow> u32" where "led_reg p = led_ctrl_register (cxp_port_init p)"

lemma small_port:
  assumes "frontend_ok n self" "p < num_ports self"
  shows "p = 0 \<or> p = 1 \<or> p = 2 \<or> p = 3 \<or> p = (4 :: u32)"
proof -
  have "unat p < 5" using port_in_range(1) [OF assms] port_count_le frontend_okD(1) [OF assms(1)] by fastforce
  then have "unat p = 0 \<or> unat p = 1 \<or> unat p = 2 \<or> unat p = 3 \<or> unat p = 4" by linarith
  then show ?thesis by (auto simp: word_unat_eq_iff)
qed

lemma port_registers_differ:
  assumes "frontend_ok n self" "p < num_ports self" "q < num_ports self"
  shows "dl_reg p \<noteq> led_reg q" "dl_reg p = dl_reg q \<longleftrightarrow> p = q" "led_reg p = led_reg q \<longleftrightarrow> p = q"
    "dl_reg p \<notin> {0x800, 0x801, 0x806, 0x807, 0x808, 0x815, 0x817, 0x81c}"
    "led_reg p \<notin> {0x800, 0x801, 0x806, 0x807, 0x808, 0x815, 0x817, 0x81c}"
  using small_port [OF assms(1,2)] small_port [OF assms(1,3)]
  by (auto simp: dl_reg_def led_reg_def cxp_port_init_def)

text \<open>The registers, as far as they were written, tell the states of the ports.\<close>

definition port_in_step :: "cxp_frontend \<Rightarrow> bus_event list \<Rightarrow> u32 \<Rightarrow> bool" where
  "port_in_step self log p \<longleftrightarrow>
     holds log (dl_reg p) (downlink_bitrate (data_path_dw_speed_cache (port_of self p)))
   \<and> holds log (led_reg p) (led_ctrl (led_state_cache (port_of self p)))"

definition downscale_in_step :: "cxp_frontend \<Rightarrow> bus_event list \<Rightarrow> bool" where
  "downscale_in_step self log \<longleftrightarrow>
     (\<forall>v. downscale_fields self (all_ports self) 0 = Some v \<longrightarrow> holds log 0x817 (ucast v))"

definition in_step :: "cxp_frontend \<Rightarrow> bus_event list \<Rightarrow> bool" where
  "in_step self log \<longleftrightarrow>
     holds log 0x800 (power_ctrl_value self)
   \<and> holds log 0x806 (standard_ctrl_value self)
   \<and> holds log 0x807 (acquisition_ctrl_value self)
   \<and> (\<forall>p < num_ports self. port_in_step self log p)
   \<and> downscale_in_step self log"

text \<open>The caches of the data path by physical and by logical port agree.\<close>

definition in_sync :: "cxp_frontend \<Rightarrow> bool" where
  "in_sync self \<longleftrightarrow> (\<forall>p < num_ports self.
     data_path_state_logical_cache (port_of self (logical_of self p)) = data_path_state_physical_cache (port_of self p))"

text \<open>
  The register of the data path is apart, because it depends on the port map too.
\<close>

definition core :: "nat \<Rightarrow> ('hw \<times> bus_event list) cxp \<Rightarrow> bool" where
  "core n c \<longleftrightarrow> frontend_ok n (fst c) \<and> in_step (fst c) (snd (snd c))"

definition steady :: "nat \<Rightarrow> ('hw \<times> bus_event list) cxp \<Rightarrow> bool" where
  "steady n c \<longleftrightarrow> core n c \<and> in_sync (fst c) \<and> holds (snd (snd c)) 0x801 (reset_ctrl_value (fst c))"

text \<open>A step that has nothing to do with the data path.\<close>

definition same_path :: "cxp_frontend \<Rightarrow> cxp_frontend \<Rightarrow> bool" where
  "same_path self self' \<longleftrightarrow> num_ports self' = num_ports self \<and> current_port_map self' = current_port_map self
     \<and> (\<forall>p. data_path_state_physical_cache (port_of self' p) = data_path_state_physical_cache (port_of self p)
          \<and> data_path_state_logical_cache (port_of self' p) = data_path_state_logical_cache (port_of self p))"

definition quiet :: "('hw \<times> bus_event list) cxp \<Rightarrow> ('hw \<times> bus_event list) cxp \<Rightarrow> bool" where
  "quiet c c' \<longleftrightarrow> same_path (fst c) (fst c') \<and> (\<forall>v. holds (snd (snd c')) 0x801 v = holds (snd (snd c)) 0x801 v)"

lemma quiet_refl [simp]: "quiet c c"
  by (simp add: quiet_def same_path_def)

lemma quiet_trans: "quiet a b \<Longrightarrow> quiet b c \<Longrightarrow> quiet a c"
  by (simp add: quiet_def same_path_def)

lemma same_path_values:
  assumes "same_path self self'"
  shows "reset_ctrl_value self' = reset_ctrl_value self" "in_sync self' = in_sync self" "logical_of self' p = logical_of self p"
proof -
  have "logical_of self' = logical_of self" using assms by (simp add: logical_of_def same_path_def fun_eq_iff)
  then show "reset_ctrl_value self' = reset_ctrl_value self" "in_sync self' = in_sync self" "logical_of self' p = logical_of self p"
    using assms by (simp_all add: reset_ctrl_value_def combined_def all_ports_def in_sync_def same_path_def)
qed

lemma quiet_steady: "quiet c c' \<Longrightarrow> core n c' \<Longrightarrow> steady n c \<Longrightarrow> steady n c'"
  using same_path_values [of "fst c" "fst c'"] by (simp add: steady_def quiet_def)

lemmas sels = sel_upd [of power_state_cache] sel_upd [of data_path_state_physical_cache]
  sel_upd [of data_path_state_logical_cache] sel_upd [of data_path_dw_speed_cache] sel_upd [of data_path_up_speed_cache]
  sel_upd [of standard_version_cache] sel_upd [of led_state_cache] sel_upd [of acquisition_state_cache]
  sel_upd [of camera_downscale_state_cache] sel_upd [of stream_id_cache]
  sel_upd [of downlink_bitrate_register] sel_upd [of led_ctrl_register] sel_upd [of config_image_stream_id_register]

lemma downscale_upd:
  assumes "camera_downscale_state_cache (f (port_of self l)) = camera_downscale_state_cache (port_of self l)"
  shows "downscale_fields (upd_port l f self) ps v = downscale_fields self ps v"
  using sel_upd [of camera_downscale_state_cache f self l, OF assms] by (induction ps arbitrary: v) simp_all

text \<open>What a change of a port leaves as it is.\<close>

lemma values_upd:
  "(\<And>q. power_state_cache (f q) = power_state_cache q) \<Longrightarrow> power_ctrl_value (upd_port l f self) = power_ctrl_value self"
  "(\<And>q. data_path_state_physical_cache (f q) = data_path_state_physical_cache q)
    \<Longrightarrow> reset_ctrl_value (upd_port l f self) = reset_ctrl_value self"
  "(\<And>q. data_path_up_speed_cache (f q) = data_path_up_speed_cache q)
    \<Longrightarrow> (\<And>q. standard_version_cache (f q) = standard_version_cache q)
    \<Longrightarrow> standard_ctrl_value (upd_port l f self) = standard_ctrl_value self"
  "(\<And>q. acquisition_state_cache (f q) = acquisition_state_cache q)
    \<Longrightarrow> acquisition_ctrl_value (upd_port l f self) = acquisition_ctrl_value self"
  "(\<And>q. data_path_dw_speed_cache (f q) = data_path_dw_speed_cache q)
    \<Longrightarrow> (\<And>q. led_state_cache (f q) = led_state_cache q)
    \<Longrightarrow> port_in_step (upd_port l f self) log p = port_in_step self log p"
  "(\<And>q. camera_downscale_state_cache (f q) = camera_downscale_state_cache q)
    \<Longrightarrow> downscale_in_step (upd_port l f self) log = downscale_in_step self log"
  "(\<And>q. data_path_state_physical_cache (f q) = data_path_state_physical_cache q)
    \<Longrightarrow> (\<And>q. data_path_state_logical_cache (f q) = data_path_state_logical_cache q)
    \<Longrightarrow> in_sync (upd_port l f self) = in_sync self"
  by (simp_all add: power_ctrl_value_def reset_ctrl_value_def standard_ctrl_value_def acquisition_ctrl_value_def
      port_in_step_def downscale_in_step_def downscale_upd in_sync_def sels)

lemma same_path_upd:
  "(\<And>q. data_path_state_physical_cache (f q) = data_path_state_physical_cache q)
    \<Longrightarrow> (\<And>q. data_path_state_logical_cache (f q) = data_path_state_logical_cache q) \<Longrightarrow> same_path self (upd_port l f self)"
  by (simp add: same_path_def sels)

lemma port_registers:
  assumes "frontend_ok n self" "p < num_ports self"
  shows "downlink_bitrate_register (port_of self p) = dl_reg p" "led_ctrl_register (port_of self p) = led_reg p"
  using assms(1) port_in_range(1) [OF assms] by (auto simp: frontend_ok_def port_of_def dl_reg_def led_reg_def)

text \<open>What a write leaves as it is.\<close>

lemma ports_write:
  assumes "frontend_ok n self" "b \<in> {0x800, 0x801, 0x806, 0x807, 0x808, 0x815, 0x817, 0x81c}"
  shows "(\<forall>p < num_ports self. port_in_step self (log @ [Wr b v]) p) \<longleftrightarrow> (\<forall>p < num_ports self. port_in_step self log p)"
  using port_registers_differ(4,5) [OF assms(1)] assms(2) by (auto simp: port_in_step_def)

lemma downscale_write: "b \<noteq> 0x817 \<Longrightarrow> downscale_in_step self (log @ [Wr b v]) = downscale_in_step self log"
  by (simp add: downscale_in_step_def)

section \<open>The single steps\<close>

lemma power_state_core:
  assumes "cxp_set_port_power_state (logged ri) p new c = Some (r, c')" "core n c"
  shows "core n c' \<and> quiet c c'"
proof -
  obtain self s log where c: "c = (self, s, log)" by (cases c)
  from assms(2) c have ok: "frontend_ok n self" by (simp add: core_def)
  let ?self = "upd_port p (\<lambda>q. q\<lparr>power_state_cache := new\<rparr>) self"
  have "c' = c \<or> c' = (?self, ri_write ri 0x800 (power_ctrl_value ?self) s, log @ [Wr 0x800 (power_ctrl_value ?self)])"
    using assms(1) frontend_okD(5) [OF ok] by (auto simp: cxp_set_port_power_state_def c Let_def split: if_splits)
  then show ?thesis
  proof
    assume e: "c' = (?self, ri_write ri 0x800 (power_ctrl_value ?self) s, log @ [Wr 0x800 (power_ctrl_value ?self)])"
    show ?thesis using assms(2) frontend_ok_upd [OF ok]
      by (simp add: e c core_def quiet_def same_path_upd in_step_def values_upd ports_write [OF ok] downscale_write)
  qed (use assms(2) in simp)
qed

lemma led_state_core:
  assumes "cxp_set_port_led_state (logged ri) p new c = Some (r, c')" "core n c"
  shows "core n c' \<and> quiet c c'"
proof -
  obtain self s log where c: "c = (self, s, log)" by (cases c)
  from assms(2) c have ok: "frontend_ok n self" by (simp add: core_def)
  let ?self = "upd_port p (\<lambda>q. q\<lparr>led_state_cache := new\<rparr>) self"
  consider "c' = c" | "p < num_ports self" "c' = (?self, ri_write ri (led_reg p) (led_ctrl new) s,
      log @ [Wr (led_reg p) (led_ctrl new)])"
    using assms(1) port_registers(2) [OF ok, of p]
    by (auto simp: cxp_set_port_led_state_def c Let_def not_le split: if_splits)
  then show ?thesis
  proof cases
    case 2
    note R = port_registers_differ [OF ok _ 2(1)] port_registers_differ [OF ok 2(1)]
    have "port_in_step ?self (log @ [Wr (led_reg p) (led_ctrl new)]) q"
      if "q < num_ports self" "port_in_step self log q" for q
      using that R(1) [OF that(1)] R(3) [OF that(1)] port_in_range(2) [OF ok 2(1)]
      by (auto simp: port_in_step_def port_of_upd)
    moreover have "led_reg p \<notin> {0x800, 0x801, 0x806, 0x807, 0x817}" using R(10) [OF 2(1)] by blast
    ultimately show ?thesis using assms(2) frontend_ok_upd [OF ok]
      by (simp add: 2(2) c core_def quiet_def same_path_upd in_step_def values_upd(1-4,6-) downscale_write)
  qed (use assms(2) in simp)
qed

lemma acquisition_state_core:
  assumes "cxp_set_port_acquisition_state (logged ri) p new c = Some (r, c')" "core n c"
  shows "core n c' \<and> quiet c c'"
proof -
  obtain self s log where c: "c = (self, s, log)" by (cases c)
  from assms(2) c have ok: "frontend_ok n self" by (simp add: core_def)
  let ?self = "upd_port (logical_of self p) (\<lambda>q. q\<lparr>acquisition_state_cache := new\<rparr>) self"
  have "c' = c \<or> c' = (?self, ri_write ri 0x807 (acquisition_ctrl_value ?self) s, log @ [Wr 0x807 (acquisition_ctrl_value ?self)])"
    using assms(1) frontend_okD(8) [OF ok] by (auto simp: cxp_set_port_acquisition_state_def c Let_def split: if_splits)
  then show ?thesis
  proof
    assume e: "c' = (?self, ri_write ri 0x807 (acquisition_ctrl_value ?self) s, log @ [Wr 0x807 (acquisition_ctrl_value ?self)])"
    show ?thesis using assms(2) frontend_ok_upd [OF ok]
      by (simp add: e c core_def quiet_def same_path_upd in_step_def values_upd ports_write [OF ok] downscale_write)
  qed (use assms(2) in simp)
qed

lemma standard_ctrl_core:
  assumes "core n (self, s, log)" "keeps_registers f"
    "\<And>q. power_state_cache (f q) = power_state_cache q"
    "\<And>q. data_path_state_physical_cache (f q) = data_path_state_physical_cache q"
    "\<And>q. data_path_state_logical_cache (f q) = data_path_state_logical_cache q"
    "\<And>q. data_path_dw_speed_cache (f q) = data_path_dw_speed_cache q"
    "\<And>q. led_state_cache (f q) = led_state_cache q"
    "\<And>q. acquisition_state_cache (f q) = acquisition_state_cache q"
    "\<And>q. camera_downscale_state_cache (f q) = camera_downscale_state_cache q"
  shows "core n (cxp_update_standard_ctrl_register (logged ri) (upd_port l f self, s, log))
    \<and> quiet (self, s, log) (cxp_update_standard_ctrl_register (logged ri) (upd_port l f self, s, log))"
proof -
  from assms(1) have ok: "frontend_ok n self" by (simp add: core_def)
  show ?thesis using assms(1) frontend_ok_upd [OF ok assms(2)] frontend_okD(7) [OF ok]
    by (simp add: cxp_update_standard_ctrl_register_def core_def quiet_def same_path_upd in_step_def values_upd assms(3-)
        ports_write [OF ok] downscale_write)
qed

lemma standard_version_core:
  assumes "cxp_set_port_standard_version (logged ri) p new c = Some (r, c')" "core n c"
  shows "core n c' \<and> quiet c c'"
proof -
  obtain self s log where c: "c = (self, s, log)" by (cases c)
  have "c' = c \<or> c' = cxp_update_standard_ctrl_register (logged ri)
      (upd_port (logical_of self p) (\<lambda>q. q\<lparr>standard_version_cache := new\<rparr>) self, s, log)"
    using assms(1) by (auto simp: cxp_set_port_standard_version_def c Let_def split: if_splits)
  then show ?thesis using assms(2) standard_ctrl_core [of n self s log] c by auto
qed

lemma core_holds:
  assumes "\<And>a v. holds (snd st') a v = holds (snd st) a v"
  shows "core n (self, st') = core n (self, st)" "quiet (self, st) (self, st')"
  by (simp_all add: core_def in_step_def port_in_step_def downscale_in_step_def quiet_def same_path_def assms)

lemma wait_core:
  assumes "cxp_wait_port_data_path_speed_change_done (logged ri) pat p c = (r, c')"
  shows "core n c' = core n c" "quiet c c'" "fst c' = fst c"
proof -
  obtain self st where c: "c = (self, st)" by (cases c)
  obtain st' where "c' = (self, st')" "\<And>a v. holds (snd st') a v = holds (snd st) a v"
    using wait_done [of ri pat p self st r c'] assms(1) c by blast
  with core_holds [of st' st] c show "core n c' = core n c" "quiet c c'" "fst c' = fst c" by simp_all
qed

lemma set_downlink_core:
  assumes "set_downlink (logged ri) pat p new c = (r, c')" "core n c" "p < num_ports (fst c)"
  shows "core n c' \<and> quiet c c'"
proof -
  obtain self s log where c: "c = (self, s, log)" by (cases c)
  from assms(2,3) c have ok: "frontend_ok n self" and p: "p < num_ports self" by (simp_all add: core_def)
  let ?self = "upd_port p (\<lambda>q. q\<lparr>data_path_dw_speed_cache := new\<rparr>) self"
  let ?c = "(?self, ri_write ri (dl_reg p) (downlink_bitrate new) s, log @ [Wr (dl_reg p) (downlink_bitrate new)])"
  note R = port_registers_differ [OF ok _ p] port_registers_differ [OF ok p]
  have "port_in_step ?self (log @ [Wr (dl_reg p) (downlink_bitrate new)]) q"
    if "q < num_ports self" "port_in_step self log q" for q
    using that R(2) [OF that(1)] R(6) [OF that(1)] port_in_range(2) [OF ok p]
    by (auto simp: port_in_step_def port_of_upd)
  moreover have "dl_reg p \<notin> {0x800, 0x801, 0x806, 0x807, 0x817}" using R(9) [OF p] by blast
  ultimately have "core n ?c \<and> quiet c ?c" using assms(2) frontend_ok_upd [OF ok]
    by (simp add: c core_def quiet_def same_path_upd in_step_def values_upd(1-4,6-) downscale_write)
  moreover have "c' = c \<or> cxp_wait_port_data_path_speed_change_done (logged ri) pat p ?c = (r, c')"
    using assms(1) port_registers(1) [OF ok p] by (auto simp: set_downlink_def c split: if_splits)
  ultimately show ?thesis
    using assms(2) wait_core(1,2) [of ri pat p ?c r c'] quiet_trans [of c ?c c'] by (elim disjE) simp_all
qed

lemma set_uplink_core:
  assumes "core n c"
  shows "core n (set_uplink (logged ri) l up c) \<and> quiet c (set_uplink (logged ri) l up c)"
proof -
  obtain self s log where c: "c = (self, s, log)" by (cases c)
  from standard_ctrl_core [of n self s log "\<lambda>q. q\<lparr>data_path_up_speed_cache := up\<rparr>"] assms c show ?thesis
    by (simp add: set_uplink_def)
qed

lemma data_path_speed_core:
  assumes "cxp_set_port_data_path_speed (logged ri) pat p new c = Some (r, c')" "core n c"
  shows "core n c' \<and> quiet c c'"
proof -
  obtain self st where c: "c = (self, st)" by (cases c)
  let ?w = "cxp_wait_port_data_path_speed_change_done (logged ri) pat p c"
  let ?d = "set_downlink (logged ri) pat p new (snd ?w)"
  consider "c' = c" | "c' = snd ?w" | "p < num_ports self"
    "c' = set_uplink (logged ri) (logical_of self p) (uplink_of new) (snd ?d)"
    using assms(1) by (auto simp: cxp_set_port_data_path_speed_def c Let_def not_le case_prod_beta split: if_splits)
  then show ?thesis
  proof cases
    case 3
    have w: "core n (snd ?w)" "quiet c (snd ?w)" "fst (snd ?w) = self"
      using wait_core [of ri pat p c "fst ?w" "snd ?w"] assms(2) c by simp_all
    have d: "core n (snd ?d) \<and> quiet (snd ?w) (snd ?d)"
      using set_downlink_core [of ri pat p new "snd ?w" "fst ?d" "snd ?d" n] w(1,3) 3(1) by simp
    show ?thesis unfolding 3(2) using set_uplink_core [of n "snd ?d"] d w(2) quiet_trans by blast
  qed (use assms(2) wait_core [of ri pat p c "fst ?w" "snd ?w"] in simp_all)
qed

lemma downscaling_core:
  assumes "cxp_set_port_camera_donwscaling (logged ri) p k c = Some (r, c')" "core n c"
  shows "core n c' \<and> quiet c c'"
proof -
  obtain self s log where c: "c = (self, s, log)" by (cases c)
  from assms(2) c have ok: "frontend_ok n self" by (simp add: core_def)
  let ?self = "upd_port (logical_of self p) (\<lambda>q. q\<lparr>camera_downscale_state_cache := ucast k\<rparr>) self"
  consider "c' = c" | v where "downscale_fields ?self (all_ports ?self) 0 = Some v"
    "c' = (?self, ri_write ri 0x817 (ucast v) s, log @ [Wr 0x817 (ucast v)])"
    using assms(1) frontend_okD(10) [OF ok]
    by (auto simp: cxp_set_port_camera_donwscaling_def c Let_def split: if_splits)
  then show ?thesis
  proof cases
    case 2
    show ?thesis using assms(2) frontend_ok_upd [OF ok] 2(1)
      by (simp add: 2(2) c core_def quiet_def same_path_upd in_step_def values_upd ports_write [OF ok] downscale_in_step_def)
  qed (use assms(2) in simp)
qed

lemma support_tgs_holds:
  "holds (snd (snd (does_board_applet_support_tgs (logged ri) st))) a v = holds (snd st) a v"
  by (simp add: does_board_applet_support_tgs_def Let_def holds_def last_write_append)

lemma stream_register_differs:
  assumes "frontend_ok n self" "p < num_ports self" "q < num_ports self"
  shows "config_image_stream_id_register (port_of self p) \<notin> {0x800, 0x801, 0x806, 0x807, 0x817, dl_reg q, led_reg q}"
proof -
  have "config_image_stream_id_register (port_of self p) = 0x81c + p"
    using assms(1) port_in_range(1) [OF assms(1,2)] by (auto simp: frontend_ok_def port_of_def)
  with small_port [OF assms(1,2)] small_port [OF assms(1,3)] show ?thesis
    by (auto simp: dl_reg_def led_reg_def cxp_port_init_def)
qed

lemma unat_num_ports: "frontend_ok n self \<Longrightarrow> unat (num_ports self) = n"
  using port_count_le [OF frontend_okD(1) [of n self]] frontend_okD(4) [of n self] by simp

lemma logical_less: "frontend_ok n self \<Longrightarrow> p < num_ports self \<Longrightarrow> logical_of self p < num_ports self"
  using port_in_range(4) [of n self p] unat_num_ports [of n self] by (simp add: word_less_nat_alt)

lemma stream_id_core:
  assumes "cxp_set_port_image_stream_id (logged ri) p sid c = Some (r, c')" "core n c"
  shows "core n c' \<and> quiet c c'"
proof -
  obtain self st where c: "c = (self, st)" by (cases c)
  from assms(2) c have ok: "frontend_ok n self" by (simp add: core_def)
  let ?st = "snd (does_board_applet_support_tgs (logged ri) st)"
  let ?l = "logical_of self p"
  let ?f = "\<lambda>x q. q\<lparr>stream_id_cache := x\<rparr>" and ?a = "config_image_stream_id_register (port_of self ?l)"
  have upd: "core n (upd_port ?l (?f x) self, st') \<and> quiet (self, st') (upd_port ?l (?f x) self, st')"
    if "core n (self, st')" for x st'
    using that frontend_ok_upd [OF ok, of "?f x" ?l] by (simp add: core_def quiet_def same_path_upd in_step_def values_upd)
  have st: "core n (self, ?st)" "quiet (self, st) (self, ?st)"
    using assms(2) core_holds [of ?st st] support_tgs_holds c by blast+
  have cs: "c' = c \<or> c' = (self, ?st) \<or> c' = (upd_port ?l (?f (-1)) self, st)
    \<or> p < num_ports self \<and> (\<exists>v. c' = (upd_port ?l (?f sid) self, ri_write (logged ri) ?a v ?st))"
    using assms(1) by (auto simp: cxp_set_port_image_stream_id_def c Let_def not_le case_prod_beta simp del: logged_write split: if_splits)
  have wr: "core n (upd_port ?l (?f sid) self, ri_write (logged ri) ?a v ?st)
      \<and> quiet (self, st) (upd_port ?l (?f sid) self, ri_write (logged ri) ?a v ?st)" if p: "p < num_ports self" for v
  proof -
    note D = stream_register_differs [OF ok logical_less [OF ok p]]
    obtain s log where s: "?st = (s, log)" by fastforce
    have a: "?a \<notin> {0x800, 0x801, 0x806, 0x807, 0x817}" using D [OF logical_less [OF ok p]] by blast
    moreover have "port_in_step self (log @ [Wr ?a v]) q = port_in_step self log q" if "q < num_ports self" for q
      using D [OF that] by (auto simp: port_in_step_def)
    ultimately have "core n (self, ri_write (logged ri) ?a v ?st)"
      using st(1) by (auto simp: s core_def in_step_def downscale_write)
    moreover have "quiet (self, ?st) (self, ri_write (logged ri) ?a v ?st)"
      using a by (simp add: s quiet_def same_path_def)
    ultimately show ?thesis using upd st(2) quiet_trans by blast
  qed
  have "core n (self, st)" using assms(2) c by simp
  with upd [OF this, of "- 1"] cs assms(2) st wr c show ?thesis by (metis quiet_refl)
qed

text \<open>The steps of the data path itself.\<close>

lemma data_path_state_core:
  assumes "cxp_set_port_data_path_state (logged ri) p new c = Some (r, c')" "core n c"
  shows "core n c'"
    "c' = c \<or> holds (snd (snd c')) 0x801 (reset_ctrl_value (fst c'))"
    "p < num_ports (fst c) \<Longrightarrow> in_sync (fst c) \<Longrightarrow> in_sync (fst c')"
proof -
  obtain self s log where c: "c = (self, s, log)" by (cases c)
  from assms(2) c have ok: "frontend_ok n self" by (simp_all add: core_def)
  let ?l = "logical_of self p"
  let ?self = "upd_port ?l (\<lambda>q. q\<lparr>data_path_state_logical_cache := new\<rparr>)
    (upd_port p (\<lambda>q. q\<lparr>data_path_state_physical_cache := new\<rparr>) self)"
  consider "c' = c" | "p < num_ports self"
    "c' = (?self, ri_write ri 0x801 (reset_ctrl_value ?self) s, log @ [Wr 0x801 (reset_ctrl_value ?self)])"
    using assms(1) frontend_okD(6) [OF ok]
    by (auto simp: cxp_set_port_data_path_state_def c Let_def not_le split: if_splits)
  note cs = this
  then show "core n c'"
  proof cases
    case 2
    show ?thesis using assms(2) frontend_ok_upd [OF frontend_ok_upd [OF ok]]
      by (simp add: 2(2) c core_def in_step_def values_upd(1,3-6) ports_write [OF ok] downscale_write)
  qed (use assms(2) in simp)
  show "c' = c \<or> holds (snd (snd c')) 0x801 (reset_ctrl_value (fst c'))" using cs by (cases) simp_all
  show "in_sync (fst c')" if "in_sync (fst c)" using cs
  proof cases
    case 2
    then show ?thesis using that port_in_range(2,3) [OF ok 2(1)] logical_of_inj [OF ok _ 2(1)]
      by (auto simp: in_sync_def port_of_upd c)
  qed (use that in simp)
qed

lemma data_path_state_steady:
  assumes "cxp_set_port_data_path_state (logged ri) p new c = Some (r, c')" "steady n c"
  shows "steady n c'"
proof (cases "p < num_ports (fst c)")
  case True
  have "core n c" using assms(2) by (simp add: steady_def)
  from data_path_state_core [OF assms(1) this] True assms(2) show ?thesis by (auto simp: steady_def)
next
  case False
  then have "c' = c" using assms(1) by (simp add: cxp_set_port_data_path_state_def Let_def case_prod_beta not_less)
  with assms(2) show ?thesis by simp
qed

lemmas quiet_calls = stream_id_core downscaling_core acquisition_state_core led_state_core
  standard_version_core data_path_speed_core power_state_core

lemma quiet_calls_steady:
  "core n c' \<and> quiet c c' \<Longrightarrow> steady n c \<Longrightarrow> steady n c'"
  using quiet_steady by blast

lemma calls_steady:
  "cxp_set_port_image_stream_id (logged ri) p sid c = Some (r, c') \<Longrightarrow> steady n c \<Longrightarrow> steady n c'"
  "cxp_set_port_camera_donwscaling (logged ri) p x c = Some (r, c') \<Longrightarrow> steady n c \<Longrightarrow> steady n c'"
  "cxp_set_port_acquisition_state (logged ri) p x c = Some (r, c') \<Longrightarrow> steady n c \<Longrightarrow> steady n c'"
  "cxp_set_port_led_state (logged ri) p x c = Some (r, c') \<Longrightarrow> steady n c \<Longrightarrow> steady n c'"
  "cxp_set_port_standard_version (logged ri) p x c = Some (r, c') \<Longrightarrow> steady n c \<Longrightarrow> steady n c'"
  "cxp_set_port_data_path_speed (logged ri) pat p x c = Some (r, c') \<Longrightarrow> steady n c \<Longrightarrow> steady n c'"
  "cxp_set_port_power_state (logged ri) p x c = Some (r, c') \<Longrightarrow> steady n c \<Longrightarrow> steady n c'"
  using quiet_calls quiet_calls_steady by (metis steady_def)+

end
