(* ===== verification/Cxp_Remap.thy ===== *)
theory Cxp_Remap
  imports Cxp_Props
begin

text \<open>
  What the operations of the CoaXPress frontend do to the caches, for any device; that no command
  leaves the arrays; and that a new port map carries the states of the ports over.
\<close>

section \<open>What one operation changes\<close>

lemma upd_id: "f (port_of self l) = port_of self l \<Longrightarrow> upd_port l f self = self"
  by (cases "unat l < length (ports self)") (simp_all add: upd_port_def port_of_def list_update_beyond)

text \<open>The protocol of a logical port, and the states that \<open>UNKNOWN\<close> is not among.\<close>

definition view :: "cxp_port \<Rightarrow> u32 \<times> u32 \<times> u32 \<times> u8" where
  "view q = (data_path_state_logical_cache q, standard_version_cache q, acquisition_state_cache q,
     camera_downscale_state_cache q)"

definition path_ok :: "u32 \<Rightarrow> bool" where "path_ok x \<longleftrightarrow> 1 \<le> x \<and> x \<le> 5"
definition standard_ok :: "u32 \<Rightarrow> bool" where "standard_ok x \<longleftrightarrow> 1 \<le> x \<and> x \<le> 3"
definition acquisition_ok :: "u32 \<Rightarrow> bool" where "acquisition_ok x \<longleftrightarrow> 1 \<le> x \<and> x \<le> 2"
definition downscale_ok :: "nat \<Rightarrow> u8 \<Rightarrow> bool" where "downscale_ok n x \<longleftrightarrow> 1 \<le> x \<and> x \<le> 4 \<and> (n = 1 \<or> n = 5 \<longrightarrow> x = 1)"

definition live :: "nat \<Rightarrow> cxp_frontend \<Rightarrow> bool" where
  "live n self \<longleftrightarrow> (\<forall>p < num_ports self. path_ok (data_path_state_physical_cache (port_of self p))
     \<and> standard_ok (standard_version_cache (port_of self p))
     \<and> acquisition_ok (acquisition_state_cache (port_of self p))
     \<and> downscale_ok n (camera_downscale_state_cache (port_of self p)))"

text \<open>The same board, with the same states of the data path and the protocol.\<close>

definition same_view :: "nat \<Rightarrow> cxp_frontend \<Rightarrow> cxp_frontend \<Rightarrow> bool" where
  "same_view n self self' \<longleftrightarrow> frontend_ok n self' \<and> num_ports self' = num_ports self
     \<and> current_port_map self' = current_port_map self
     \<and> (\<forall>q. data_path_state_physical_cache (port_of self' q) = data_path_state_physical_cache (port_of self q)
          \<and> view (port_of self' q) = view (port_of self q))"

lemma same_view_refl: "frontend_ok n self \<Longrightarrow> same_view n self self"
  by (simp add: same_view_def)

lemma same_view_trans: "same_view n a b \<Longrightarrow> same_view n b c \<Longrightarrow> same_view n a c"
  by (simp add: same_view_def)

lemma same_view_upd:
  assumes "frontend_ok n self" "keeps_registers f"
    "\<And>q. data_path_state_physical_cache (f q) = data_path_state_physical_cache q" "\<And>q. view (f q) = view q"
  shows "same_view n self (upd_port l f self)"
  using assms(3,4) frontend_ok_upd [OF assms(1,2)] by (simp add: same_view_def sels sel_upd [of view])

lemma same_view_live: "same_view n self self' \<Longrightarrow> live n self \<Longrightarrow> live n self'"
  by (auto simp: same_view_def live_def view_def)

text \<open>An operation that answers, whatever the device does.\<close>

definition answers :: "(int \<times> 'hw cxp) option \<Rightarrow> (cxp_frontend \<Rightarrow> bool) \<Rightarrow> bool" where
  "answers x P \<longleftrightarrow> (\<exists>r self' s'. x = Some (r, self', s') \<and> P self')"

lemma answers_Some: "answers (Some y) P = P (fst (snd y))"
  by (cases y) (simp add: answers_def)

lemma answers_mono: "answers x P \<Longrightarrow> (\<And>s. P s \<Longrightarrow> Q s) \<Longrightarrow> answers x Q"
  by (auto simp: answers_def)

lemma power_answers:
  "frontend_ok n self \<Longrightarrow> answers (cxp_set_port_power_state ri p x (self, s)) (same_view n self)"
  by (auto simp: answers_def cxp_set_port_power_state_def Let_def same_view_refl view_def intro!: same_view_upd)

lemma led_answers:
  "frontend_ok n self \<Longrightarrow> answers (cxp_set_port_led_state ri p x (self, s)) (same_view n self)"
  by (auto simp: answers_def cxp_set_port_led_state_def Let_def same_view_refl view_def intro!: same_view_upd)

lemma stream_answers:
  assumes "frontend_ok n self"
  shows "answers (cxp_set_port_image_stream_id ri p x (self, s)) (same_view n self)"
  using port_in_range(3) [OF assms] assms
  by (auto simp: answers_def cxp_set_port_image_stream_id_def Let_def case_prod_beta same_view_refl view_def not_le
      intro!: same_view_upd)

lemma wait_self: "fst (snd (cxp_wait_port_data_path_speed_change_done ri pat p c)) = fst c"
  by (simp add: cxp_wait_port_data_path_speed_change_done_def Let_def case_prod_beta)

lemma set_downlink_view:
  "frontend_ok n (fst c) \<Longrightarrow> same_view n (fst c) (fst (snd (set_downlink ri pat p x c)))"
  by (auto simp: set_downlink_def case_prod_beta wait_self same_view_refl view_def intro!: same_view_upd)

lemma set_uplink_view:
  "frontend_ok n (fst c) \<Longrightarrow> same_view n (fst c) (fst (set_uplink ri l x c))"
  by (auto simp: set_uplink_def cxp_update_standard_ctrl_register_def case_prod_beta same_view_refl view_def
      intro!: same_view_upd)

lemma speed_answers:
  assumes "frontend_ok n self"
  shows "answers (cxp_set_port_data_path_speed ri pat p x (self, s)) (same_view n self)"
proof (cases "p < num_ports self \<and> valid_speed x \<and> (x \<noteq> data_path_dw_speed_cache (port_of self p)
    \<or> uplink_of x \<noteq> data_path_up_speed_cache (port_of self (logical_of self p)))")
  case False
  then show ?thesis using port_in_range(3) [OF assms] same_view_refl [OF assms]
    by (auto simp: answers_def cxp_set_port_data_path_speed_def Let_def not_le)
next
  case True
  let ?w = "cxp_wait_port_data_path_speed_change_done ri pat p (self, s)"
  let ?d = "set_downlink ri pat p x (snd ?w)"
  let ?u = "set_uplink ri (logical_of self p) (uplink_of x) (snd ?d)"
  have w: "fst (snd ?w) = self" using wait_self [of ri pat p "(self, s)"] by simp
  have d: "same_view n self (fst (snd ?d))" using set_downlink_view [of n "snd ?w" ri pat p x] w assms by simp
  have "frontend_ok n (fst (snd ?d))" using d by (simp add: same_view_def)
  from same_view_trans [OF d set_uplink_view [OF this]] have u: "same_view n self (fst ?u)" .
  have "cxp_set_port_data_path_speed ri pat p x (self, s) = Some (if fst ?w = 0 then (fst ?d, ?u) else ?w)"
  proof -
    from True have t: "\<not> num_ports self \<le> p" "valid_speed x" "in_ports self (logical_of self p)"
      "x \<noteq> data_path_dw_speed_cache (port_of self p) \<or> uplink_of x \<noteq> data_path_up_speed_cache (port_of self (logical_of self p))"
      using port_in_range(3) [OF assms] by auto
    show ?thesis unfolding cxp_set_port_data_path_speed_def Let_def case_prod_beta fst_conv
      using t by (cases "fst ?w = 0") (simp_all only: simp_thms if_False if_True prod.collapse)
  qed
  then show ?thesis using w u same_view_refl [OF assms]
    by (simp add: answers_Some)
qed

text \<open>The operations that change the data path or the protocol: the new caches, if the value is valid.\<close>

definition path_upd :: "u32 \<Rightarrow> u32 \<Rightarrow> cxp_frontend \<Rightarrow> cxp_frontend" where
  "path_upd p x self = upd_port (logical_of self p) (\<lambda>q. q\<lparr>data_path_state_logical_cache := x\<rparr>)
     (upd_port p (\<lambda>q. q\<lparr>data_path_state_physical_cache := x\<rparr>) self)"

lemma path_answers:
  assumes "frontend_ok n self" "p < num_ports self" "path_ok x"
  shows "answers (cxp_set_port_data_path_state ri p x (self, s)) ((=) (path_upd p x self))"
proof -
  have "path_upd p x self = self" if "x = data_path_state_physical_cache (port_of self p)"
    "x = data_path_state_logical_cache (port_of self (logical_of self p))"
    using that by (simp add: path_upd_def upd_id)
  then show ?thesis using assms(2,3) port_in_range(3) [OF assms(1,2)]
    by (auto simp: answers_def cxp_set_port_data_path_state_def Let_def path_ok_def path_upd_def not_le not_less)
qed

lemma standard_answers:
  assumes "frontend_ok n self" "p < num_ports self" "standard_ok x"
  shows "answers (cxp_set_port_standard_version ri p x (self, s))
    ((=) (upd_port (logical_of self p) (\<lambda>q. q\<lparr>standard_version_cache := x\<rparr>) self))"
  using assms(2,3) port_in_range(3) [OF assms(1,2)]
  by (auto simp: answers_def cxp_set_port_standard_version_def cxp_update_standard_ctrl_register_def Let_def
      standard_ok_def not_le not_less upd_id)

lemma acquisition_answers:
  assumes "frontend_ok n self" "p < num_ports self" "acquisition_ok x"
  shows "answers (cxp_set_port_acquisition_state ri p x (self, s))
    ((=) (upd_port (logical_of self p) (\<lambda>q. q\<lparr>acquisition_state_cache := x\<rparr>) self))"
  using assms(2,3) port_in_range(3) [OF assms(1,2)]
  by (auto simp: answers_def cxp_set_port_acquisition_state_def Let_def acquisition_ok_def not_le not_less upd_id)

lemma downscale_fields_some: "(\<forall>p \<in> set ps. unat p < 4) \<Longrightarrow> \<exists>w. downscale_fields self ps v = Some w"
  by (induction ps arbitrary: v) auto

lemma all_ports_small:
  assumes "frontend_ok n self" "n \<noteq> 5"
  shows "\<forall>p \<in> set (all_ports self). unat p < 4"
  using unat_num_ports [OF assms(1)] frontend_okD(1) [OF assms(1)] assms(2)
  by (auto simp: all_ports_def port_count_def)

lemma downscale_answers:
  assumes "frontend_ok n self" "p < num_ports self" "0 < x" "x \<le> 4"
    "n = 5 \<longrightarrow> camera_downscale_state_cache (port_of self (logical_of self p)) = ucast x"
  shows "answers (cxp_set_port_camera_donwscaling ri p x (self, s))
    ((=) (if n = 1 then self else upd_port (logical_of self p) (\<lambda>q. q\<lparr>camera_downscale_state_cache := ucast x\<rparr>) self))"
proof -
  let ?l = "logical_of self p"
  let ?self = "upd_port ?l (\<lambda>q. q\<lparr>camera_downscale_state_cache := ucast x\<rparr>) self"
  have x: "ucast (ucast x :: u8) = x" 
  proof -
    have "unat x \<le> 4" using assms(4) by (simp add: word_le_nat_alt)
    then have "take_bit 8 (unat x) = unat x" by (simp add: take_bit_nat_eq_self_iff)
    then show ?thesis by (simp add: word_unat_eq_iff unsigned_ucast_eq unsigned_take_bit_eq)
  qed
  have y: "ucast (ucast (d :: u8) :: u32) = d" for d by (rule bit_word_eqI) (simp add: bit_ucast_iff)
  have n: "num_ports self = 1 \<longleftrightarrow> n = 1"
    using unat_num_ports [OF assms(1)] by (auto simp: word_unat_eq_iff)
  show ?thesis
  proof (cases "n = 1 \<or> x = ucast (camera_downscale_state_cache (port_of self ?l))")
    case True
    then have "n = 1 \<or> ?self = self" by (auto intro!: upd_id simp: y)
    with True show ?thesis using assms(2-4) n port_in_range(3) [OF assms(1,2)]
      by (auto simp: answers_def cxp_set_port_camera_donwscaling_def Let_def not_le not_less)
  next
    case False
    then have "n \<noteq> 5" using assms(5) x by metis
    then obtain v where "downscale_fields ?self (all_ports ?self) 0 = Some v"
      using downscale_fields_some [of "all_ports ?self" ?self 0] all_ports_small [OF assms(1)] by auto
    with False show ?thesis using assms(2-4) n port_in_range(3) [OF assms(1,2)]
      by (auto simp: answers_def cxp_set_port_camera_donwscaling_def Let_def not_le not_less)
  qed
qed

end
