(* ===== verification/Cxp_Restore.thy ===== *)
theory Cxp_Restore
  imports Cxp_Remap
begin

text \<open>
  A new port map: the caches of the ports move with the physical ports, and every port keeps its
  states.
\<close>

section \<open>The tables and the arrays of a remap\<close>

lemma fold_update_length: "length (fold (\<lambda>l arr. arr[g l := h l]) ls arr) = length arr"
  by (induction ls arbitrary: arr) simp_all

lemma fold_update_nth:
  assumes "inj_on g (set ls)" "l \<in> set ls" "g l < length arr"
  shows "fold (\<lambda>l arr. arr[g l := h l]) ls arr ! g l = h l"
  using assms
proof (induction ls arbitrary: arr rule: rev_induct)
  case (snoc x ls)
  have inj: "inj_on g (set ls)" using snoc.prems(1) by (simp add: inj_on_def)
  show ?case
  proof (cases "g x = g l")
    case True
    then have "x = l" using snoc.prems(1,2) by (auto simp: inj_on_def)
    then show ?thesis using snoc.prems(3) by (simp add: fold_update_length)
  next
    case False
    then have "l \<in> set ls" using snoc.prems(2) by auto
    with snoc.IH [OF inj this snoc.prems(3)] False show ?thesis by (simp add: nth_list_update_neq)
  qed
qed simp

lemma set_all_ports:
  assumes "frontend_ok n self"
  shows "set (all_ports self) = {p. p < num_ports self}"
proof (intro set_eqI iffI)
  fix p assume "p \<in> set (all_ports self)"
  then obtain k where "k < n" "p = of_nat k" using unat_num_ports [OF assms] by (auto simp: all_ports_def)
  then show "p \<in> {p. p < num_ports self}"
    using unat_num_ports [OF assms] port_count_le [OF frontend_okD(1) [OF assms]]
    by (simp add: word_less_nat_alt)
next
  fix p assume "p \<in> {p. p < num_ports self}"
  then have "unat p < n" "p = of_nat (unat p)" using port_in_range(1) [OF assms] by simp_all
  then show "p \<in> set (all_ports self)" unfolding all_ports_def unat_num_ports [OF assms] by force
qed

lemma by_physical_port:
  assumes "frontend_ok n self" "p < num_ports self"
  shows "by_physical (current_port_map self) self f ! unat p = Some (f (port_of self (logical_of self p)))"
proof -
  let ?P = "\<lambda>l. unat (cxp_get_physical_port_number_from_port_map (current_port_map self) l)"
  note d = frontend_okD [OF assms(1)]
  have "inj_on ?P (set (all_ports self))"
  proof (rule inj_onI)
    fix a b
    assume "a \<in> set (all_ports self)" "b \<in> set (all_ports self)" and e: "?P a = ?P b"
    then have "unat a < n" "unat b < n" using set_all_ports [OF assms(1)] port_in_range(1) [OF assms(1)] by auto
    with valid_map_ports(4) [OF d(1,3)] e show "a = b" by (metis word_unat_eq_iff)
  qed
  moreover have "logical_of self p \<in> set (all_ports self)" using logical_less [OF assms] set_all_ports [OF assms(1)] by simp
  moreover have P: "?P (logical_of self p) = unat p" using port_in_range(5) [OF assms] by simp
  moreover have "unat p < 5" using port_in_range(1) [OF assms] port_count_le [OF d(1)] by linarith
  ultimately show ?thesis
    using fold_update_nth [of ?P "all_ports self" "logical_of self p" "replicate 5 None" "\<lambda>l. Some (f (port_of self l))"]
    by (simp add: by_physical_def)
qed

lemma find_in_table:
  assumes "CXP_PORT_MAP_INVALID \<notin> set xs"
  shows "(xs @ [CXP_PORT_MAP_INVALID]) ! find_port_map (xs @ [CXP_PORT_MAP_INVALID]) m
    = (if m \<in> set xs then m else CXP_PORT_MAP_INVALID)"
  using assms by (induction xs) (auto simp: find_port_map_def)

lemma find_port_map_table:
  assumes "port_count n"
  shows "port_maps_of n ! find_port_map (port_maps_of n) m = (if valid_map n m then m else CXP_PORT_MAP_INVALID)"
proof -
  have "CXP_PORT_MAP_INVALID \<notin> set (map map_of_perm (perms_of n))"
    using map_not_invalid perms_of_ok [OF assms] port_count_le [OF assms] by fastforce
  from find_in_table [OF this, of m] show ?thesis unfolding tables [OF assms] by (auto simp: valid_map_def)
qed

lemma switch_map:
  assumes "frontend_ok n self" "valid_map n m"
  shows "frontend_ok n (self\<lparr>port_map_index := find_port_map (port_maps self) m\<rparr>)"
    "current_port_map (self\<lparr>port_map_index := find_port_map (port_maps self) m\<rparr>) = m"
proof -
  note d = frontend_okD [OF assms(1)]
  let ?i = "find_port_map (port_maps self) m"
  show cm: "current_port_map (self\<lparr>port_map_index := ?i\<rparr>) = m"
    using find_port_map_table [OF d(1), of m] assms(2) d(14) by (simp add: current_port_map_def)
  from assms(1) obtain b ps i where "self = (cxp_frontend_init n b)\<lparr>ports := ps, port_map_index := i\<rparr>"
    by (auto simp: frontend_ok_def)
  then have "\<exists>b ps i. self\<lparr>port_map_index := ?i\<rparr> = (cxp_frontend_init n b)\<lparr>ports := ps, port_map_index := i\<rparr>" by auto
  with assms cm show "frontend_ok n (self\<lparr>port_map_index := ?i\<rparr>)" by (simp add: frontend_ok_def)
qed

section \<open>One port\<close>

text \<open>The states of a port are set to \<open>t\<close>, and those of the others stay.\<close>

definition restored :: "nat \<Rightarrow> u32 \<Rightarrow> u32 \<times> u32 \<times> u32 \<times> u8 \<Rightarrow> cxp_frontend \<Rightarrow> cxp_frontend \<Rightarrow> bool" where
  "restored n p t self self' \<longleftrightarrow> frontend_ok n self' \<and> num_ports self' = num_ports self
     \<and> current_port_map self' = current_port_map self
     \<and> (\<forall>q. data_path_state_physical_cache (port_of self' q)
            = (if q = p then fst t else data_path_state_physical_cache (port_of self q))
          \<and> view (port_of self' q) = (if q = logical_of self p then t else view (port_of self q)))"

lemma answers_next: "answers (f c) P \<Longrightarrow> \<exists>c'. next_call f (Some c) = Some c' \<and> P (fst c')"
  by (auto simp: answers_def next_call_def)

lemma next_SomeD: "next_call f (Some c) = Some c' \<Longrightarrow> \<exists>r. f c = Some (r, c')"
  by (auto simp: next_call_def bind_eq_Some_conv)

lemma same_logical:
  "current_port_map self' = current_port_map self \<Longrightarrow> logical_of self' p = logical_of self p"
  by (simp add: logical_of_def)

lemma restored_views:
  assumes "frontend_ok n self" "p < num_ports self" "same_view n (path_upd p d self) self2"
  shows "restored n p (d, v, a, w) self (upd_port (logical_of self p) (\<lambda>q. q\<lparr>camera_downscale_state_cache := w\<rparr>)
    (upd_port (logical_of self p) (\<lambda>q. q\<lparr>acquisition_state_cache := a\<rparr>)
      (upd_port (logical_of self p) (\<lambda>q. q\<lparr>standard_version_cache := v\<rparr>) self2)))"
proof -
  let ?l = "logical_of self p"
  note S = assms(3) [unfolded same_view_def]
  have num: "num_ports self2 = num_ports self" "current_port_map self2 = current_port_map self"
    using S by (simp_all add: path_upd_def)
  have ok: "frontend_ok n self2" using S by simp
  have inp: "in_ports self2 ?l" "in_ports self ?l" "in_ports self p"
    using port_in_range(2,3) [OF assms(1,2)] port_in_range(3) [OF ok, of p] num assms(2) same_logical [OF num(2)] by simp_all
  have phys: "data_path_state_physical_cache (port_of self2 q)
      = (if q = p then d else data_path_state_physical_cache (port_of self q))" for q
    using S inp(3) by (simp add: path_upd_def port_of_upd)
  have "view (port_of self2 q) = view (port_of (path_upd p d self) q)" for q using S by simp
  then have vw: "view (port_of self2 q) = (if q = ?l then (d, snd (view (port_of self q))) else view (port_of self q))" for q
    using inp(2) by (simp add: path_upd_def port_of_upd view_def)
  have vl: "data_path_state_logical_cache (port_of self2 ?l) = d" using vw [of ?l] by (simp add: view_def)
  show ?thesis
    using ok num phys vw vl inp(1) by (auto simp: restored_def frontend_ok_upd port_of_upd view_def)
qed

lemma restore_calls:
  assumes "frontend_ok n self" "p < num_ports self"
    "path_ok d" "standard_ok v" "acquisition_ok a" "downscale_ok n w" "n \<noteq> 1"
    "n = 5 \<Longrightarrow> camera_downscale_state_cache (port_of self (logical_of self p)) = w"
  shows "\<exists>c'. next_call (cxp_set_port_camera_donwscaling ri p (ucast w))
     (next_call (cxp_set_port_acquisition_state ri p a)
     (next_call (cxp_set_port_standard_version ri p v)
     (next_call (cxp_set_port_data_path_speed ri pat p x)
     (next_call (cxp_set_port_data_path_state ri p d) (Some (self, s)))))) = Some c'
     \<and> restored n p (d, v, a, w) self (fst c')"
proof -
  let ?l = "logical_of self p"
  obtain s1 where 1: "next_call (cxp_set_port_data_path_state ri p d) (Some (self, s)) = Some (path_upd p d self, s1)"
    using answers_next [of "cxp_set_port_data_path_state ri p d" "(self, s)", OF path_answers [OF assms(1-3)]] by auto
  have ok1: "frontend_ok n (path_upd p d self)" using assms(1) by (simp add: path_upd_def frontend_ok_upd)
  obtain self2 s2 where 2: "next_call (cxp_set_port_data_path_speed ri pat p x) (Some (path_upd p d self, s1)) = Some (self2, s2)"
    and v2: "same_view n (path_upd p d self) self2"
    using answers_next [of "cxp_set_port_data_path_speed ri pat p x" "(path_upd p d self, s1)", OF speed_answers [OF ok1]] by fastforce
  then have ok2: "frontend_ok n self2" and p2: "p < num_ports self2" and l2: "logical_of self2 p = ?l"
    using assms(2) by (auto simp: same_view_def path_upd_def logical_of_def)
  let ?self3 = "upd_port ?l (\<lambda>q. q\<lparr>standard_version_cache := v\<rparr>) self2"
  let ?self4 = "upd_port ?l (\<lambda>q. q\<lparr>acquisition_state_cache := a\<rparr>) ?self3"
  let ?self5 = "upd_port ?l (\<lambda>q. q\<lparr>camera_downscale_state_cache := w\<rparr>) ?self4"
  obtain s3 where 3: "next_call (cxp_set_port_standard_version ri p v) (Some (self2, s2)) = Some (?self3, s3)"
    using answers_next [of "cxp_set_port_standard_version ri p v" "(self2, s2)", OF standard_answers [OF ok2 p2 assms(4)]] l2 by auto
  have ok3: "frontend_ok n ?self3" using ok2 by (simp add: frontend_ok_upd)
  obtain s4 where 4: "next_call (cxp_set_port_acquisition_state ri p a) (Some (?self3, s3)) = Some (?self4, s4)"
    using answers_next [of "cxp_set_port_acquisition_state ri p a" "(?self3, s3)", OF acquisition_answers [of n ?self3 p, OF ok3 _ assms(5)]] p2 l2 by auto
  have ok4: "frontend_ok n ?self4" using ok3 by (simp add: frontend_ok_upd)
  have w: "(ucast (ucast w :: u32) :: u8) = w" by (rule bit_word_eqI) (simp add: bit_ucast_iff)
  have down: "n = 5 \<longrightarrow> camera_downscale_state_cache (port_of ?self4 (logical_of ?self4 p)) = ucast (ucast w :: u32)"
  proof
    assume n: "n = 5"
    have "view (port_of self2 ?l) = view (port_of (path_upd p d self) ?l)" using v2 by (simp add: same_view_def)
    then have "camera_downscale_state_cache (port_of self2 ?l) = camera_downscale_state_cache (port_of self ?l)"
      by (simp add: view_def path_upd_def sels)
    with assms(8) [OF n] w l2 show "camera_downscale_state_cache (port_of ?self4 (logical_of ?self4 p)) = ucast (ucast w :: u32)"
      by (simp add: sels)
  qed
  have small: "0 < (ucast w :: u32)" "(ucast w :: u32) \<le> 4"
  proof -
    have "unat (ucast w :: u32) = unat w"
    proof -
      have "unat w < 2 ^ LENGTH(8)" by (rule unsigned_less)
      then show ?thesis by (simp add: unsigned_ucast_eq unsigned_take_bit_eq take_bit_nat_eq_self_iff)
    qed
    with assms(6) show "0 < (ucast w :: u32)" "(ucast w :: u32) \<le> 4"
      by (simp_all add: downscale_ok_def word_less_nat_alt word_le_nat_alt)
  qed
  obtain s5 where 5: "next_call (cxp_set_port_camera_donwscaling ri p (ucast w)) (Some (?self4, s4)) = Some (?self5, s5)"
    using answers_next [of "cxp_set_port_camera_donwscaling ri p (ucast w)" "(?self4, s4)", OF downscale_answers [OF ok4 _ small down]] p2 l2 w assms(7) by auto
  from restored_views [OF assms(1,2) v2, of v a w] show ?thesis unfolding 1 2 3 4 5 by simp
qed

section \<open>All ports\<close>

lemma each_port_total:
  assumes "I D c" "\<And>p D c. p \<in> set ps \<Longrightarrow> I D c \<Longrightarrow> \<exists>c'. f p c = Some c' \<and> I (insert p D) c'"
  shows "\<exists>c'. each_port f ps c = Some c' \<and> I (D \<union> set ps) c'"
  using assms
proof (induction ps arbitrary: D c)
  case (Cons p ps)
  obtain c1 where 1: "f p c = Some c1" "I (insert p D) c1"
    using Cons.prems(2) [OF list.set_intros(1) Cons.prems(1)] by blast
  from Cons.IH [OF 1(2)] Cons.prems(2) show ?case using 1(1) by (auto simp: Un_insert_left)
qed simp

lemma each_port_keeps:
  assumes "each_port f ps c = Some c'" "J c" "\<And>p c c'. p \<in> set ps \<Longrightarrow> f p c = Some c' \<Longrightarrow> J c \<Longrightarrow> J c'"
  shows "J c'"
  using assms
proof (induction ps arbitrary: c)
  case (Cons p ps)
  then obtain c1 where 1: "f p c = Some c1" "each_port f ps c1 = Some c'" by (auto simp: bind_eq_Some_conv)
  show ?case
  proof (rule Cons.IH [OF 1(2)])
    show "J c1" by (rule Cons.prems(3) [OF _ 1(1) Cons.prems(2)]) simp
    show "\<And>q c c'. q \<in> set ps \<Longrightarrow> f q c = Some c' \<Longrightarrow> J c \<Longrightarrow> J c'"
      by (rule Cons.prems(3) [OF list.set_intros(2)])
  qed
qed simp

text \<open>The states that a physical port had, and the progress of a remap to the map \<open>m\<close>.\<close>

definition states_of :: "cxp_frontend \<Rightarrow> u32 \<Rightarrow> u32 \<times> u32 \<times> u32 \<times> u8" where
  "states_of self p = (data_path_state_physical_cache (port_of self p), snd (view (port_of self (logical_of self p))))"

lemma in_sync_states: "in_sync self \<Longrightarrow> p < num_ports self \<Longrightarrow> states_of self p = view (port_of self (logical_of self p))"
  by (simp add: states_of_def in_sync_def view_def)

definition moved :: "nat \<Rightarrow> cxp_frontend \<Rightarrow> u64 \<Rightarrow> u32 set \<Rightarrow> cxp_frontend \<Rightarrow> bool" where
  "moved n old m D self \<longleftrightarrow> frontend_ok n self \<and> num_ports self = num_ports old \<and> current_port_map self = m
     \<and> (\<forall>p < num_ports old. data_path_state_physical_cache (port_of self p) = data_path_state_physical_cache (port_of old p)
          \<and> (p \<in> D \<or> logical_of old p = logical_of self p \<longrightarrow> view (port_of self (logical_of self p)) = states_of old p)
          \<and> (n = 5 \<longrightarrow> camera_downscale_state_cache (port_of self p) = 1))"

lemma one_port_maps: "valid_map 1 m \<Longrightarrow> valid_map 1 m' \<Longrightarrow> m = m'"
  by (simp add: valid_map_def perms_of_def perms_1_def)

lemma restore_port_moves:
  assumes old: "frontend_ok n old" "live n old" and p: "p < num_ports old" and mv: "moved n old m D (fst c)"
  shows "\<exists>c'. restore_port ri pat (current_port_map old) m old p c = Some c' \<and> moved n old m (insert p D) (fst c')"
proof -
  obtain self s where c: "c = (self, s)" by (cases c)
  from mv c have ok: "frontend_ok n self" and num: "num_ports self = num_ports old" and m: "current_port_map self = m"
    by (simp_all add: moved_def)
  show ?thesis
  proof (cases "logical_of old p = logical_of self p")
    case True
    then have "restore_port ri pat (current_port_map old) m old p c = Some c"
      by (simp add: restore_port_def logical_of_def m)
    moreover have "moved n old m (insert p D) self" using mv True c by (simp add: moved_def)
    ultimately show ?thesis using c by simp
  next
    case False
    let ?l = "logical_of old p"
    let ?q = "port_of old ?l"
    have "n \<noteq> 1" using one_port_maps frontend_okD(3) [OF ok] frontend_okD(3) [OF old(1)] False
      by (metis same_logical)
    have l: "?l < num_ports old" by (rule logical_less [OF old(1) p])
    have lv: "path_ok (data_path_state_physical_cache (port_of old p))" "standard_ok (standard_version_cache ?q)"
      "acquisition_ok (acquisition_state_cache ?q)" "downscale_ok n (camera_downscale_state_cache ?q)"
      using old(2) p l by (simp_all add: live_def)
    have p': "p < num_ports self" using p num by simp
    have five: "camera_downscale_state_cache (port_of self (logical_of self p)) = camera_downscale_state_cache ?q" if "n = 5"
      using mv c that logical_less [OF ok p'] lv(4) num by (simp add: moved_def downscale_ok_def)
    have tgt: "(data_path_state_physical_cache (port_of old p), standard_version_cache ?q, acquisition_state_cache ?q,
        camera_downscale_state_cache ?q) = states_of old p" by (simp add: states_of_def view_def)
    from False have F: "cxp_get_logical_port_number_from_port_map (current_port_map old) p
        \<noteq> cxp_get_logical_port_number_from_port_map m p" by (simp add: logical_of_def m)
    have "\<exists>c'. restore_port ri pat (current_port_map old) m old p c = Some c' \<and> restored n p (states_of old p) self (fst c')"
      unfolding c restore_port_def by_physical_port [OF old(1) p] option.case prod.case if_not_P [OF F] tgt [symmetric]
      by (rule restore_calls [OF ok p' lv \<open>n \<noteq> 1\<close>]) (rule five)
    then obtain c' where c': "restore_port ri pat (current_port_map old) m old p c = Some c'"
      and r: "restored n p (states_of old p) self (fst c')" by blast
    have "moved n old m (insert p D) (fst c')"
      unfolding moved_def
    proof (intro conjI allI impI)
      fix q assume q: "q < num_ports old"
      have lg: "logical_of (fst c') = logical_of self" using r by (auto simp: restored_def logical_of_def)
      have inj: "logical_of self q = logical_of self p \<longleftrightarrow> q = p" using logical_of_inj [OF ok] p q num by simp
      show "data_path_state_physical_cache (port_of (fst c') q) = data_path_state_physical_cache (port_of old q)"
        using r mv c q by (simp add: restored_def moved_def states_of_def)
      show "view (port_of (fst c') (logical_of (fst c') q)) = states_of old q"
        if "q \<in> insert p D \<or> logical_of old q = logical_of (fst c') q"
        using r mv c q that inj False by (auto simp: restored_def moved_def lg)
      show "camera_downscale_state_cache (port_of (fst c') q) = 1" if "n = 5"
      proof -
        have "view (port_of (fst c') q) = (if q = logical_of self p then states_of old p else view (port_of self q))"
          using r by (simp add: restored_def)
        then have "camera_downscale_state_cache (port_of (fst c') q)
            = (if q = logical_of self p then camera_downscale_state_cache ?q else camera_downscale_state_cache (port_of self q))"
          by (auto simp: view_def states_of_def split: if_splits)
        then show ?thesis using mv c q that lv(4) by (simp add: moved_def downscale_ok_def)
      qed
    qed (use r num m in \<open>simp_all add: restored_def\<close>)
    with c' show ?thesis by simp
  qed
qed

lemma port_map_cases:
  assumes "frontend_ok n self"
  shows "cxp_set_port_map ri pat m (self, s) =
    (if m = current_port_map self then Some (0, self, s)
     else if \<not> valid_map n m then Some (CXP_FRONTEND_ERROR_INVALID_PARAMETER, self, s)
     else let i = find_port_map (port_maps self) m
          in map_option (Pair 0) (each_port (restore_port ri pat (current_port_map self) m self) (all_ports self)
               (self\<lparr>port_map_index := i\<rparr>, ri_write ri 0x808 (of_nat i) s)))"
proof -
  note d = frontend_okD [OF assms]
  have "current_port_map self \<noteq> CXP_PORT_MAP_INVALID" using d(1,3) by (simp add: valid_map_iff)
  moreover have "valid_map n m \<Longrightarrow> m \<noteq> CXP_PORT_MAP_INVALID" using d(1) by (simp add: valid_map_iff)
  moreover have "port_maps self ! find_port_map (port_maps self) m = (if valid_map n m then m else CXP_PORT_MAP_INVALID)"
    using find_port_map_table [OF d(1)] d(14) by simp
  ultimately show ?thesis using d(9) by (simp add: cxp_set_port_map_def Let_def)
qed

lemma set_port_map_moves:
  assumes "frontend_ok n self" "live n self" "in_sync self" "valid_map n m"
  shows "\<exists>self' s'. cxp_set_port_map ri pat m (self, s) = Some (0, self', s') \<and> moved n self m UNIV self'"
proof (cases "m = current_port_map self")
  case True
  have "moved n self m UNIV self"
    using assms True logical_less [OF assms(1)] in_sync_states [OF assms(3)]
    by (auto simp: moved_def live_def downscale_ok_def)
  then show ?thesis unfolding port_map_cases [OF assms(1)] using True by auto
next
  case False
  let ?i = "find_port_map (port_maps self) m"
  let ?self = "self\<lparr>port_map_index := ?i\<rparr>" and ?s = "ri_write ri 0x808 (of_nat ?i) s"
  note S = switch_map [OF assms(1,4)]
  have sel: "num_ports ?self = num_ports self" "port_of ?self q = port_of self q" for q by (simp_all add: port_of_def)
  have "moved n self m {} (fst (?self, ?s))"
    using S sel assms(2) in_sync_states [OF assms(3)]
    by (auto simp: moved_def live_def downscale_ok_def)
  then have "\<exists>c'. each_port (restore_port ri pat (current_port_map self) m self) (all_ports self) (?self, ?s) = Some c'
      \<and> moved n self m ({} \<union> set (all_ports self)) (fst c')"
    by (rule each_port_total [where I = "\<lambda>D c. moved n self m D (fst c)"])
      (use set_all_ports [OF assms(1)] restore_port_moves [OF assms(1,2)] in auto)
  then obtain self' s' where e: "each_port (restore_port ri pat (current_port_map self) m self) (all_ports self) (?self, ?s)
      = Some (self', s')" and mv: "moved n self m (set (all_ports self)) self'" by auto
  have "moved n self m UNIV self'" using mv set_all_ports [OF assms(1)] by (simp add: moved_def)
  with e show ?thesis using False assms(4) port_map_cases [OF assms(1), of ri pat m s] by (simp add: Let_def)
qed

end
