(* ===== verification/Cxp_Commands.thy ===== *)
theory Cxp_Commands
  imports Cxp_Restore
begin

text \<open>
  A history of commands: after the reset of the construction every command is answered, but for the
  change of the downscaling of a board of five ports, and the states stay valid.
\<close>

section \<open>Sound states\<close>

definition sound :: "nat \<Rightarrow> cxp_frontend \<Rightarrow> bool" where
  "sound n self \<longleftrightarrow> frontend_ok n self \<and> live n self \<and> in_sync self"

lemma same_view_sound: "same_view n self self' \<Longrightarrow> sound n self \<Longrightarrow> sound n self'"
  using same_view_live [of n self self']
  by (auto simp: sound_def same_view_def in_sync_def view_def logical_of_def)

lemma path_upd_sound:
  assumes "sound n self" "p < num_ports self" "path_ok x"
  shows "sound n (path_upd p x self)"
proof -
  from assms(1) have ok: "frontend_ok n self" by (simp add: sound_def)
  show ?thesis
    using assms logical_of_inj [OF ok _ assms(2)] port_in_range(2,3) [OF ok assms(2)]
    by (auto simp: sound_def path_upd_def frontend_ok_upd live_def in_sync_def port_of_upd)
qed

lemma protocol_upd_sound:
  assumes "sound n self"
  shows "standard_ok v \<Longrightarrow> sound n (upd_port l (\<lambda>q. q\<lparr>standard_version_cache := v\<rparr>) self)"
    "acquisition_ok a \<Longrightarrow> sound n (upd_port l (\<lambda>q. q\<lparr>acquisition_state_cache := a\<rparr>) self)"
    "downscale_ok n w \<Longrightarrow> sound n (upd_port l (\<lambda>q. q\<lparr>camera_downscale_state_cache := w\<rparr>) self)"
  using assms by (auto simp: sound_def frontend_ok_upd live_def in_sync_def port_of_upd)

lemma moved_sound:
  assumes "sound n old" "moved n old m UNIV self"
  shows "sound n self"
proof -
  from assms have ok: "frontend_ok n old" "frontend_ok n self" and lv: "live n old" and num: "num_ports self = num_ports old"
    and cm: "current_port_map self = m"
    by (simp_all add: sound_def moved_def)
  have mv: "data_path_state_physical_cache (port_of self p) = data_path_state_physical_cache (port_of old p)"
    "view (port_of self (logical_of self p)) = states_of old p" if "p < num_ports old" for p
    using assms(2) that by (simp_all add: moved_def)
  have "in_sync self" using mv num by (simp add: in_sync_def states_of_def view_def)
  moreover have "live n self" unfolding live_def
  proof (intro allI impI)
    fix l assume l: "l < num_ports self"
    let ?p = "cxp_get_physical_port_number_from_port_map m l"
    note V = valid_map_ports(3,4) [OF frontend_okD(1,3) [OF ok(2)] port_in_range(1) [OF ok(2) l]]
    have p: "?p < num_ports old" and lp: "logical_of self ?p = l"
      using V unat_num_ports [OF ok(1)] by (simp_all add: cm logical_of_def word_less_nat_alt)
    have "view (port_of self l) = states_of old ?p" using mv(2) [OF p] lp by simp
    then show "path_ok (data_path_state_physical_cache (port_of self l))
      \<and> standard_ok (standard_version_cache (port_of self l)) \<and> acquisition_ok (acquisition_state_cache (port_of self l))
      \<and> downscale_ok n (camera_downscale_state_cache (port_of self l))"
      using lv mv(1) [of l] l p num logical_less [OF ok(1) p] by (simp add: view_def states_of_def live_def)
  qed
  ultimately show ?thesis using ok by (simp add: sound_def)
qed

section \<open>Reset\<close>

text \<open>The same board, with the states of one logical port changed by \<open>f\<close>.\<close>

definition sets :: "nat \<Rightarrow> u32 \<Rightarrow> (u32 \<times> u32 \<times> u32 \<times> u8 \<Rightarrow> u32 \<times> u32 \<times> u32 \<times> u8) \<Rightarrow> cxp_frontend \<Rightarrow> cxp_frontend \<Rightarrow> bool" where
  "sets n l f self self' \<longleftrightarrow> frontend_ok n self' \<and> num_ports self' = num_ports self
     \<and> current_port_map self' = current_port_map self
     \<and> (\<forall>q. data_path_state_physical_cache (port_of self' q) = data_path_state_physical_cache (port_of self q)
          \<and> view (port_of self' q) = (if q = l then f (view (port_of self q)) else view (port_of self q)))"

lemma sets_view: "same_view n a b \<Longrightarrow> sets n l (\<lambda>t. t) a b"
  by (simp add: sets_def same_view_def)

lemma sets_trans: "sets n l f a b \<Longrightarrow> sets n l g b c \<Longrightarrow> sets n l (\<lambda>t. g (f t)) a c"
  by (simp add: sets_def)

lemma sets_ok: "sets n l f a b \<Longrightarrow> frontend_ok n b \<and> num_ports b = num_ports a \<and> logical_of b p = logical_of a p"
  by (simp add: sets_def logical_of_def)

lemma sets_upd:
  assumes "frontend_ok n self" "in_ports self l"
  shows "sets n l (\<lambda>(d, v, a, w). (d, x, a, w)) self (upd_port l (\<lambda>q. q\<lparr>standard_version_cache := x\<rparr>) self)"
    "sets n l (\<lambda>(d, v, a, w). (d, v, x, w)) self (upd_port l (\<lambda>q. q\<lparr>acquisition_state_cache := x\<rparr>) self)"
    "sets n l (\<lambda>(d, v, a, w). (d, v, a, y)) self (upd_port l (\<lambda>q. q\<lparr>camera_downscale_state_cache := y\<rparr>) self)"
  using assms by (auto simp: sets_def frontend_ok_upd port_of_upd view_def)

lemma restored_sets:
  assumes "frontend_ok n self" "p < num_ports self"
    "sets n (logical_of self p) f (path_upd p d self) self'" "f (d, snd (view (port_of self (logical_of self p)))) = t" "fst t = d"
  shows "restored n p t self self'"
  using assms port_in_range(2,3) [OF assms(1,2)]
  by (auto simp: restored_def sets_def path_upd_def port_of_upd view_def)

lemma answers_eq: "answers x ((=) y) \<Longrightarrow> P y \<Longrightarrow> answers x P"
  by (auto simp: answers_def)

lemma answers_sets:
  assumes "frontend_ok n self" "p < num_ports self" "l = logical_of self p"
  shows "standard_ok x \<Longrightarrow> answers (cxp_set_port_standard_version ri p x (self, s)) (sets n l (\<lambda>(d, v, a, w). (d, x, a, w)) self)"
    "acquisition_ok x \<Longrightarrow> answers (cxp_set_port_acquisition_state ri p x (self, s)) (sets n l (\<lambda>(d, v, a, w). (d, v, x, w)) self)"
    "n = 1 \<or> n = 5 \<longrightarrow> camera_downscale_state_cache (port_of self l) = 1
      \<Longrightarrow> answers (cxp_set_port_camera_donwscaling ri p 1 (self, s)) (sets n l (\<lambda>(d, v, a, w). (d, v, a, 1)) self)"
proof -
  have l: "in_ports self l" using port_in_range(3) [OF assms(1,2)] assms(3) by simp
  note U = sets_upd [OF assms(1) l]
  show "answers (cxp_set_port_standard_version ri p x (self, s)) (sets n l (\<lambda>(d, v, a, w). (d, x, a, w)) self)" if "standard_ok x"
    by (rule answers_eq [OF standard_answers [OF assms(1,2) that]]) (use U(1) assms(3) in simp)
  show "answers (cxp_set_port_acquisition_state ri p x (self, s)) (sets n l (\<lambda>(d, v, a, w). (d, v, x, w)) self)" if "acquisition_ok x"
    by (rule answers_eq [OF acquisition_answers [OF assms(1,2) that]]) (use U(2) assms(3) in simp)
  assume one: "n = 1 \<or> n = 5 \<longrightarrow> camera_downscale_state_cache (port_of self l) = 1"
  let ?self = "upd_port l (\<lambda>q. q\<lparr>camera_downscale_state_cache := 1\<rparr>) self"
  have "answers (cxp_set_port_camera_donwscaling ri p 1 (self, s)) ((=) (if n = 1 then self else ?self))"
    using downscale_answers [OF assms(1,2), of 1 ri s] one assms(3) by (cases "n = 1") simp_all
  moreover have "n = 1 \<Longrightarrow> ?self = self" using one by (intro upd_id) simp
  ultimately have "answers (cxp_set_port_camera_donwscaling ri p 1 (self, s)) ((=) ?self)" by (cases "n = 1") simp_all
  then show "answers (cxp_set_port_camera_donwscaling ri p 1 (self, s)) (sets n l (\<lambda>(d, v, a, w). (d, v, a, 1)) self)"
    by (rule answers_eq) (rule U(3))
qed

text \<open>A call after calls that have reached a state.\<close>

definition reaches :: "'hw cxp option \<Rightarrow> (cxp_frontend \<Rightarrow> bool) \<Rightarrow> bool" where
  "reaches c P \<longleftrightarrow> (\<exists>self s. c = Some (self, s) \<and> P self)"

lemma next_reaches:
  assumes "reaches c (sets n l f self)"
    "\<And>self1 s1. sets n l f self self1 \<Longrightarrow> answers (g (self1, s1)) (sets n l h self1)"
  shows "reaches (next_call g c) (sets n l (\<lambda>t. h (f t)) self)"
proof -
  obtain self1 s1 where 1: "c = Some (self1, s1)" "sets n l f self self1" using assms(1) by (auto simp: reaches_def)
  obtain r self2 s2 where "g (self1, s1) = Some (r, self2, s2)" "sets n l h self1 self2"
    using assms(2) [OF 1(2), of s1] by (auto simp: answers_def)
  with 1 sets_trans [OF 1(2)] show ?thesis by (auto simp: reaches_def next_call_def)
qed

lemma answers_keeps: "answers x (same_view n self) \<Longrightarrow> answers x (sets n l (\<lambda>t. t) self)"
  by (erule answers_mono) (rule sets_view)

lemma reset_port_sets:
  assumes "frontend_ok n self" "p < num_ports self"
    "n = 1 \<or> n = 5 \<longrightarrow> camera_downscale_state_cache (port_of self (logical_of self p)) = 1"
  shows "\<exists>c'. cxp_reset_port ri pat p (self, s) = Some c' \<and> restored n p (2, 2, 1, 1) self (fst c')"
proof -
  let ?l = "logical_of self p"
  let ?self1 = "path_upd p 2 self"
  have ok1: "frontend_ok n ?self1" using assms(1) by (simp add: path_upd_def frontend_ok_upd)
  have S: "frontend_ok n b" "p < num_ports b" "?l = logical_of b p" if "sets n ?l f ?self1 b" for f b
    using sets_ok [OF that, of p] assms(2) by (simp_all add: path_upd_def)
  have one: "n = 1 \<or> n = 5 \<longrightarrow> camera_downscale_state_cache (port_of b ?l) = 1"
    if "sets n ?l f ?self1 b" "\<And>t. snd (snd (snd (f t))) = snd (snd (snd t))" for f b
  proof -
    have "view (port_of b ?l) = f (view (port_of ?self1 ?l))" using that(1) by (simp add: sets_def)
    then have "snd (snd (snd (view (port_of b ?l)))) = snd (snd (snd (view (port_of ?self1 ?l))))" using that(2) by simp
    then show ?thesis using assms(3) by (simp add: view_def path_upd_def sels)
  qed
  let ?std = "\<lambda>(d, v, a, w). (d, 2, a, w) :: u32 \<times> u32 \<times> u32 \<times> u8" and ?acq = "\<lambda>(d, v, a, w). (d, v, 1, w) :: u32 \<times> u32 \<times> u32 \<times> u8"
    and ?down = "\<lambda>(d, v, a, w). (d, v, a, 1) :: u32 \<times> u32 \<times> u32 \<times> u8"
  let ?c1 = "next_call (cxp_set_port_data_path_state ri p 2) (Some (self, s))"
  let ?c2 = "next_call (cxp_set_port_data_path_speed ri pat p 3125) ?c1"
  let ?c3 = "next_call (cxp_set_port_standard_version ri p 2) ?c2"
  let ?c4 = "next_call (cxp_set_port_led_state ri p 2) ?c3"
  let ?c5 = "next_call (cxp_set_port_acquisition_state ri p 1) ?c4"
  let ?c6 = "next_call (cxp_set_port_camera_donwscaling ri p 1) ?c5"
  have 1: "reaches ?c1 (sets n ?l (\<lambda>t. t) ?self1)"
    using path_answers [OF assms(1,2), of 2 ri s] sets_view [OF same_view_refl [OF ok1]]
    by (auto simp: answers_def reaches_def next_call_def path_ok_def)
  have 2: "reaches ?c2 (sets n ?l (\<lambda>t. t) ?self1)"
    by (rule next_reaches [OF 1, where h = "\<lambda>t. t"]) (rule answers_keeps [OF speed_answers [OF S(1)]])
  have 3: "reaches ?c3 (sets n ?l (\<lambda>t. ?std t) ?self1)"
    by (rule next_reaches [OF 2, where h = ?std]) (rule answers_sets(1) [OF S], simp_all add: standard_ok_def)
  have 4: "reaches ?c4 (sets n ?l (\<lambda>t. ?std t) ?self1)"
    by (rule next_reaches [OF 3, where h = "\<lambda>t. t"]) (rule answers_keeps [OF led_answers [OF S(1)]])
  have 5: "reaches ?c5 (sets n ?l (\<lambda>t. ?acq (?std t)) ?self1)"
    by (rule next_reaches [OF 4, where h = ?acq]) (rule answers_sets(2) [OF S], simp_all add: acquisition_ok_def)
  have 6: "reaches ?c6 (sets n ?l (\<lambda>t. ?down (?acq (?std t))) ?self1)"
    by (rule next_reaches [OF 5, where h = ?down]) (rule answers_sets(3) [OF S], assumption+, rule one, assumption, simp add: case_prod_beta)
  have 7: "reaches (next_call (cxp_set_port_image_stream_id ri p (-1)) ?c6) (sets n ?l (\<lambda>t. ?down (?acq (?std t))) ?self1)"
    by (rule next_reaches [OF 6, where h = "\<lambda>t. t"])
      (rule answers_keeps [OF stream_answers [OF S(1)]])
  then obtain c' where c': "cxp_reset_port ri pat p (self, s) = Some c'" "sets n ?l (\<lambda>t. ?down (?acq (?std t))) ?self1 (fst c')"
    using assms(2) unfolding reaches_def cxp_reset_port_def fst_conv by auto
  have "restored n p (2, 2, 1, 1) self (fst c')"
    by (rule restored_sets [OF assms(1,2) c'(2)]) (simp_all add: case_prod_beta)
  with c'(1) show ?thesis by blast
qed


text \<open>The identity, and the progress of a reset under it.\<close>

lemma identity_map: "valid_map n IDENTITY_PORT_MAP" if "port_count n"
proof -
  have "IDENTITY_PORT_MAP \<in> set (port_maps_of n)"
    by (auto simp: port_maps_of_def cxp_port_maps_5ch_def cxp_port_maps_4ch_def cxp_port_maps_2ch_def cxp_port_maps_1ch_def)
  then show ?thesis using that by (simp add: valid_map_iff)
qed

lemma identity_logical:
  assumes "frontend_ok n self" "p < num_ports self" "current_port_map self = IDENTITY_PORT_MAP"
  shows "logical_of self p = p"
  using small_port [OF assms(1,2)] assms(3)
  by (auto simp: logical_of_def cxp_get_logical_port_number_from_port_map_def)

definition reset_to :: "nat \<Rightarrow> u32 set \<Rightarrow> cxp_frontend \<Rightarrow> bool" where
  "reset_to n D self \<longleftrightarrow> frontend_ok n self \<and> current_port_map self = IDENTITY_PORT_MAP
     \<and> (\<forall>p < of_nat n. (n = 1 \<or> n = 5 \<longrightarrow> camera_downscale_state_cache (port_of self p) = 1)
          \<and> (p \<in> D \<longrightarrow> data_path_state_physical_cache (port_of self p) = 2 \<and> view (port_of self p) = (2, 2, 1, 1)))"

lemma reset_port_step:
  assumes "reset_to n D (fst c)" "p < of_nat n"
  shows "\<exists>c'. cxp_reset_port ri pat p c = Some c' \<and> reset_to n (insert p D) (fst c')"
proof -
  obtain self s where c: "c = (self, s)" by (cases c)
  from assms(1) c have ok: "frontend_ok n self" and cm: "current_port_map self = IDENTITY_PORT_MAP"
    and R: "q < of_nat n \<Longrightarrow> (n = 1 \<or> n = 5 \<longrightarrow> camera_downscale_state_cache (port_of self q) = 1)
          \<and> (q \<in> D \<longrightarrow> data_path_state_physical_cache (port_of self q) = 2 \<and> view (port_of self q) = (2, 2, 1, 1))" for q
    by (simp add: reset_to_def, simp add: reset_to_def, use assms(1) c in \<open>auto simp: reset_to_def\<close>)
  have p: "p < num_ports self" and l: "logical_of self p = p"
    using assms(2) frontend_okD(4) [OF ok] identity_logical [OF ok _ cm, of p] by simp_all
  have "n = 1 \<or> n = 5 \<longrightarrow> camera_downscale_state_cache (port_of self (logical_of self p)) = 1"
    using R [OF assms(2)] l by simp
  from reset_port_sets [OF ok p this, of ri pat s] obtain c' where c': "cxp_reset_port ri pat p c = Some c'"
    and r: "restored n p (2, 2, 1, 1) self (fst c')" using c by blast
  have vw: "data_path_state_physical_cache (port_of (fst c') q) = (if q = p then 2 else data_path_state_physical_cache (port_of self q))"
    "view (port_of (fst c') q) = (if q = p then (2, 2, 1, 1) else view (port_of self q))" for q
    using r l by (simp_all add: restored_def)
  have dn: "camera_downscale_state_cache (port_of (fst c') q) = (if q = p then 1 else camera_downscale_state_cache (port_of self q))" for q
    using vw(2) [of q] by (simp add: view_def split: if_splits)
  have "frontend_ok n (fst c')" "current_port_map (fst c') = IDENTITY_PORT_MAP" using r cm by (simp_all add: restored_def)
  then have "reset_to n (insert p D) (fst c')" using R by (auto simp: reset_to_def vw dn)
  with c' show ?thesis by blast
qed

lemma reset_to_sound:
  assumes "reset_to n (set (all_ports self)) self"
  shows "sound n self"
proof -
  from assms have ok: "frontend_ok n self" and cm: "current_port_map self = IDENTITY_PORT_MAP" by (simp_all add: reset_to_def)
  have "data_path_state_physical_cache (port_of self p) = 2 \<and> view (port_of self p) = (2, 2, 1, 1) \<and> logical_of self p = p"
    if "p < num_ports self" for p
    using assms that set_all_ports [OF ok] frontend_okD(4) [OF ok] identity_logical [OF ok that cm] by (simp add: reset_to_def)
  with ok show ?thesis
    by (simp add: sound_def live_def in_sync_def view_def path_ok_def standard_ok_def acquisition_ok_def downscale_ok_def)
qed

lemma reset_ports:
  assumes "reset_to n {} self"
  shows "\<exists>c'. each_port (cxp_reset_port ri pat) (all_ports self) (self, s) = Some c' \<and> sound n (fst c')
    \<and> current_port_map (fst c') = IDENTITY_PORT_MAP"
proof -
  from assms have ok: "frontend_ok n self" by (simp add: reset_to_def)
  have "\<exists>c'. each_port (cxp_reset_port ri pat) (all_ports self) (self, s) = Some c' \<and> reset_to n ({} \<union> set (all_ports self)) (fst c')"
    by (rule each_port_total [where I = "\<lambda>D c. reset_to n D (fst c)"])
      (use assms reset_port_step set_all_ports [OF ok] frontend_okD(4) [OF ok] in auto)
  then obtain c' where c': "each_port (cxp_reset_port ri pat) (all_ports self) (self, s) = Some c'"
    and r: "reset_to n (set (all_ports self)) (fst c')" by auto
  then have "all_ports (fst c') = all_ports self"
    using frontend_okD(4) [OF ok] frontend_okD(4) [of n "fst c'"] by (simp add: reset_to_def all_ports_def)
  with r reset_to_sound [of n "fst c'"] c' show ?thesis by (auto simp: reset_to_def)
qed

lemma reset_answers:
  assumes "sound n self"
  shows "\<exists>c'. cxp_reset ri pat (self, s) = Some (0, c') \<and> sound n (fst c') \<and> current_port_map (fst c') = IDENTITY_PORT_MAP"
proof -
  from assms have S: "frontend_ok n self" "live n self" "in_sync self" by (simp_all add: sound_def)
  note V = identity_map [OF frontend_okD(1) [OF S(1)]]
  obtain self' s' where m: "cxp_set_port_map ri pat IDENTITY_PORT_MAP (self, s) = Some (0, self', s')"
    and mv: "moved n self IDENTITY_PORT_MAP UNIV self'"
    using set_port_map_moves [OF S V, of ri pat s] by blast
  have snd': "sound n self'" by (rule moved_sound [OF assms mv])
  then have "reset_to n {} self'"
    using mv frontend_okD(4) [of n self'] by (auto simp: reset_to_def moved_def sound_def live_def downscale_ok_def)
  from reset_ports [OF this, of ri pat s'] show ?thesis using m by (auto simp: cxp_reset_def)
qed

text \<open>The first reset, right after the construction.\<close>

lemma init_map:
  assumes "port_count n"
  shows "current_port_map (cxp_frontend_init n b) = CXP_PORT_MAP_INVALID"
  using assms tables [OF assms]
  by (auto simp: current_port_map_def cxp_frontend_init_def Let_def port_count_def nth_append)

lemma first_map:
  assumes "port_count n"
  shows "\<exists>i. cxp_set_port_map ri pat IDENTITY_PORT_MAP (cxp_frontend_init n b, s)
      = Some (0, (cxp_frontend_init n b)\<lparr>port_map_index := i\<rparr>, ri_write ri 0x808 (of_nat i) s)
    \<and> frontend_ok n ((cxp_frontend_init n b)\<lparr>port_map_index := i\<rparr>)
    \<and> reset_to n {} ((cxp_frontend_init n b)\<lparr>port_map_index := i\<rparr>)"
proof -
  let ?self = "cxp_frontend_init n b"
  let ?i = "find_port_map (port_maps ?self) IDENTITY_PORT_MAP"
  let ?self1 = "?self\<lparr>port_map_index := ?i\<rparr>"
  note V = identity_map [OF assms]
  have n: "port_maps ?self = port_maps_of n" "num_ports ?self = of_nat n" "discovery_config_register ?self = 0x808"
    "ports ?self = map (\<lambda>p. cxp_port_init (of_nat p)) [0..<n]"
    using assms by (auto simp: cxp_frontend_init_def Let_def port_count_def)
  have cm: "current_port_map ?self1 = IDENTITY_PORT_MAP"
    using find_port_map_table [OF assms, of IDENTITY_PORT_MAP] V n(1) by (simp add: current_port_map_def)
  have "\<exists>b ps i. ?self1 = (cxp_frontend_init n b)\<lparr>ports := ps, port_map_index := i\<rparr>"
    by (intro exI [of _ b] exI [of _ "ports ?self"] exI [of _ ?i]) simp
  with assms V cm have ok: "frontend_ok n ?self1"
    unfolding frontend_ok_def by (simp add: n(4) cxp_port_init_def del: split_paired_Ex)
  have "camera_downscale_state_cache (port_of ?self1 p) = 1" if "p < of_nat n" for p
  proof -
    have "unat p < n" using port_in_range(1) [OF ok, of p] that n(2) by simp
    then show ?thesis by (simp add: port_of_def n(4) cxp_port_init_def)
  qed
  with ok cm have "reset_to n {} ?self1" by (simp add: reset_to_def)
  moreover have "cxp_set_port_map ri pat IDENTITY_PORT_MAP (?self, s) = Some (0, ?self1, ri_write ri 0x808 (of_nat ?i) s)"
    using init_map [OF assms, of b] find_port_map_table [OF assms, of IDENTITY_PORT_MAP] V n
    by (simp add: cxp_set_port_map_def Let_def)
  ultimately show ?thesis using ok by blast
qed

lemma first_reset:
  assumes "port_count n"
  shows "\<exists>c'. cxp_reset ri pat (cxp_frontend_init n b, s) = Some (0, c') \<and> sound n (fst c')
    \<and> current_port_map (fst c') = IDENTITY_PORT_MAP"
proof -
  obtain i where i: "cxp_set_port_map ri pat IDENTITY_PORT_MAP (cxp_frontend_init n b, s)
      = Some (0, (cxp_frontend_init n b)\<lparr>port_map_index := i\<rparr>, ri_write ri 0x808 (of_nat i) s)"
    "reset_to n {} ((cxp_frontend_init n b)\<lparr>port_map_index := i\<rparr>)"
    using first_map [OF assms, of ri pat b s] by blast
  from reset_ports [OF i(2), of ri pat] show ?thesis using i(1) by (auto simp: cxp_reset_def)
qed

section \<open>Commands\<close>

text \<open>The one command that has no answer: the downscaling of five ports.\<close>

definition undefined_shift :: "nat \<Rightarrow> u32 \<Rightarrow> u64 \<Rightarrow> bool" where
  "undefined_shift n cmd args \<longleftrightarrow> n = 5 \<and> cmd = CAMERA_COMMAND_SET_PORT_CXP_CAMERA_DOWNSCALING
     \<and> unat (arg_port args) < 5 \<and> 1 < arg_param args \<and> arg_param args \<le> 4"

lemma answers_same: "P self \<Longrightarrow> answers (Some (r, self, s)) P"
  by (simp add: answers_Some)

lemma path_sound:
  assumes "sound n self"
  shows "answers (cxp_set_port_data_path_state ri p x (self, s)) (sound n)"
proof (cases "p < num_ports self \<and> path_ok x")
  case True
  then have p: "p < num_ports self" "path_ok x" by simp_all
  have ok: "frontend_ok n self" using assms by (simp add: sound_def)
  show ?thesis by (rule answers_eq [OF path_answers [OF ok p]]) (rule path_upd_sound [OF assms p])
next
  case False
  then show ?thesis using assms
    by (auto simp: cxp_set_port_data_path_state_def Let_def path_ok_def not_less not_le answers_Some split: if_split)
qed

lemma standard_sound:
  assumes "sound n self"
  shows "answers (cxp_set_port_standard_version ri p x (self, s)) (sound n)"
proof (cases "p < num_ports self \<and> standard_ok x")
  case True
  then have p: "p < num_ports self" "standard_ok x" by simp_all
  have ok: "frontend_ok n self" using assms by (simp add: sound_def)
  show ?thesis by (rule answers_eq [OF standard_answers [OF ok p]]) (rule protocol_upd_sound(1) [OF assms p(2)])
next
  case False
  then show ?thesis using assms
    by (auto simp: cxp_set_port_standard_version_def Let_def standard_ok_def not_less not_le answers_Some split: if_split)
qed

lemma acquisition_sound:
  assumes "sound n self"
  shows "answers (cxp_set_port_acquisition_state ri p x (self, s)) (sound n)"
proof (cases "p < num_ports self \<and> acquisition_ok x")
  case True
  then have p: "p < num_ports self" "acquisition_ok x" by simp_all
  have ok: "frontend_ok n self" using assms by (simp add: sound_def)
  show ?thesis by (rule answers_eq [OF acquisition_answers [OF ok p]]) (rule protocol_upd_sound(2) [OF assms p(2)])
next
  case False
  then show ?thesis using assms
    by (auto simp: cxp_set_port_acquisition_state_def Let_def acquisition_ok_def not_less not_le answers_Some split: if_split)
qed

lemma u8_small: "x \<le> 4 \<Longrightarrow> unat (ucast (x :: u32) :: u8) = unat x"
proof -
  assume "x \<le> 4"
  then have "unat x < 2 ^ 8" by (simp add: word_le_nat_alt)
  then show ?thesis by (simp add: unsigned_ucast_eq unsigned_take_bit_eq take_bit_nat_eq_self_iff)
qed

lemma downscale_sound:
  assumes "sound n self" "n = 5 \<longrightarrow> \<not> (p < 5 \<and> 1 < x \<and> x \<le> 4)"
  shows "answers (cxp_set_port_camera_donwscaling ri p x (self, s)) (sound n)"
proof (cases "p < num_ports self \<and> 0 < x \<and> x \<le> 4")
  case True
  from assms(1) have ok: "frontend_ok n self" and lv: "live n self" by (simp_all add: sound_def)
  let ?l = "logical_of self p"
  have l: "?l < num_ports self" using logical_less [OF ok] True by blast
  have five: "x = 1" if "n = 5"
  proof -
    have "\<not> 1 < x" using assms(2) that True frontend_okD(4) [OF ok] by auto
    with True show ?thesis by (simp add: word_less_nat_alt word_unat_eq_iff)
  qed
  moreover have "n = 5 \<Longrightarrow> camera_downscale_state_cache (port_of self ?l) = 1"
    using lv l by (simp add: live_def downscale_ok_def)
  ultimately have A: "answers (cxp_set_port_camera_donwscaling ri p x (self, s))
    ((=) (if n = 1 then self else upd_port ?l (\<lambda>q. q\<lparr>camera_downscale_state_cache := ucast x\<rparr>) self))"
    using downscale_answers [OF ok, of p x ri s] True by simp
  have "downscale_ok n (ucast x)" if "n \<noteq> 1"
    using True five that u8_small [of x] by (auto simp: downscale_ok_def word_le_nat_alt word_less_nat_alt)
  then have "sound n (if n = 1 then self else upd_port ?l (\<lambda>q. q\<lparr>camera_downscale_state_cache := ucast x\<rparr>) self)"
    using assms(1) protocol_upd_sound(3) [OF assms(1)] by (cases "n = 1") simp_all
  with A show ?thesis by (rule answers_eq)
next
  case False
  then have "num_ports self \<le> p \<or> 4 < x \<or> x = 0" by (auto simp: not_less not_le word_gt_0)
  then show ?thesis using assms(1)
    by (elim disjE) (simp_all add: cxp_set_port_camera_donwscaling_def Let_def answers_Some split: if_split)
qed

lemma port_map_sound:
  assumes "sound n self"
  shows "answers (cxp_set_port_map ri pat m (self, s)) (sound n)"
proof (cases "valid_map n m")
  case True
  from assms have "frontend_ok n self" "live n self" "in_sync self" by (simp_all add: sound_def)
  from set_port_map_moves [OF this True, of ri pat s] show ?thesis using moved_sound [OF assms] by (auto simp: answers_def)
next
  case False
  have ok: "frontend_ok n self" using assms by (simp add: sound_def)
  from False assms show ?thesis unfolding port_map_cases [OF ok] by (simp add: answers_Some split: if_split)
qed

lemma same_view_answers: "sound n self \<Longrightarrow> answers x (same_view n self) \<Longrightarrow> answers x (sound n)"
  by (erule answers_mono) (rule same_view_sound)

lemma command_sound:
  assumes "sound n self" "\<not> undefined_shift n cmd args"
  shows "answers (cxp_execute_command ri pat cmd args (self, s)) (sound n)"
proof -
  have ok: "frontend_ok n self" using assms(1) by (simp add: sound_def)
  note S = same_view_answers [OF assms(1)]
  have "answers (cxp_reset ri pat (self, s)) (sound n)" using reset_answers [OF assms(1), of ri pat s] by (auto simp: answers_def)
  moreover have "answers (cxp_set_port_camera_donwscaling ri (arg_port args) (arg_param args) (self, s)) (sound n)"
    if "cmd = CAMERA_COMMAND_SET_PORT_CXP_CAMERA_DOWNSCALING"
    by (rule downscale_sound [OF assms(1)]) (use assms(2) that in \<open>auto simp: undefined_shift_def word_less_nat_alt\<close>)
  ultimately show ?thesis
    unfolding cxp_execute_command_def
    by (simp add: port_map_sound [OF assms(1)] path_sound [OF assms(1)] standard_sound [OF assms(1)]
        acquisition_sound [OF assms(1)] S [OF power_answers [OF ok]] S [OF led_answers [OF ok]]
        S [OF stream_answers [OF ok]] S [OF speed_answers [OF ok]] answers_Some assms(1) split: if_split)
qed

end
