(* ===== verification/Cxp_Steady.thy ===== *)
theory Cxp_Steady
  imports Cxp_Commands
begin

text \<open>
  A remap and a reset keep the registers in step with the states, and the claims about the frontend.
\<close>

section \<open>The data path under two maps\<close>

lemma bit_fold_or: "bit (fold (\<lambda>p acc. acc OR F p) ps v) i \<longleftrightarrow> bit (v :: u32) i \<or> (\<exists>p \<in> set ps. bit (F p) i)"
  by (induction ps arbitrary: v) (auto simp: bit_or_iff)

lemma bit_combined:
  "frontend_ok n self \<Longrightarrow> bit (combined self F) i \<longleftrightarrow> (\<exists>p < num_ports self. bit (F p) i)"
  by (auto simp: combined_def bit_fold_or set_all_ports)

lemma reset_value_mono:
  assumes "frontend_ok n a" "frontend_ok n b" "num_ports b = num_ports a" "in_sync a" "in_sync b"
    "\<And>p. p < num_ports a \<Longrightarrow> data_path_state_physical_cache (port_of b p) = data_path_state_physical_cache (port_of a p)"
    "\<And>l. l < num_ports a \<Longrightarrow> data_path_state_logical_cache (port_of b l) = data_path_state_logical_cache (port_of a l)"
    "bit (reset_ctrl_value a) i"
  shows "bit (reset_ctrl_value b) i"
proof -
  let ?H = "\<lambda>c p. push_bit (5 * unat (logical_of c p)) (port_reset_ctrl_host (data_path_state_physical_cache (port_of c p)) AND 0x7)"
  let ?T = "\<lambda>c p. push_bit (5 * unat p) (port_reset_ctrl_transceiver (data_path_state_physical_cache (port_of c p)) AND 0x18)"
  have V: "bit (reset_ctrl_value c) i \<longleftrightarrow> (\<exists>p < num_ports c. bit (?H c p) i \<or> bit (?T c p) i)" if "frontend_ok n c" for c
    by (simp add: reset_ctrl_value_def bit_combined [OF that] Let_def bit_or_iff)
  from assms(8) obtain p where p: "p < num_ports a" and h: "bit (?H a p) i \<or> bit (?T a p) i" using V [OF assms(1)] by blast
  let ?l = "logical_of a p"
  let ?q = "cxp_get_physical_port_number_from_port_map (current_port_map b) ?l"
  have l: "?l < num_ports a" by (rule logical_less [OF assms(1) p])
  have "unat ?l < n" using port_in_range(4) [OF assms(1) p] .
  from valid_map_ports(3,4) [OF frontend_okD(1,3) [OF assms(2)] this]
  have q: "?q < num_ports b" "logical_of b ?q = ?l"
    using unat_num_ports [OF assms(2)] by (simp_all add: logical_of_def word_less_nat_alt)
  have "data_path_state_physical_cache (port_of b ?q) = data_path_state_physical_cache (port_of a p)"
    using assms(4,5,7) p q l by (metis in_sync_def)
  with q h have "bit (?H b ?q) i \<or> bit (?T b p) i" using assms(6) [OF p] by auto
  then show ?thesis using V [OF assms(2)] q(1) p assms(3) by auto
qed

lemma reset_value_maps:
  assumes "frontend_ok n a" "frontend_ok n b" "num_ports b = num_ports a" "in_sync a" "in_sync b"
    "\<And>p. p < num_ports a \<Longrightarrow> data_path_state_physical_cache (port_of b p) = data_path_state_physical_cache (port_of a p)"
    "\<And>l. l < num_ports a \<Longrightarrow> data_path_state_logical_cache (port_of b l) = data_path_state_logical_cache (port_of a l)"
  shows "reset_ctrl_value b = reset_ctrl_value a"
proof (rule bit_word_eqI)
  fix i
  show "bit (reset_ctrl_value b) i \<longleftrightarrow> bit (reset_ctrl_value a) i"
    using reset_value_mono [OF assms, of i] reset_value_mono [OF assms(2,1) assms(3) [symmetric] assms(5,4), of i] assms(3,6,7)
    by auto
qed

section \<open>Steps of a remap\<close>

text \<open>
  During a remap the register of the data path holds the value that belongs to the states, or the one
  from before, and then no logical state has changed.
\<close>

definition followed :: "nat \<Rightarrow> cxp_frontend \<Rightarrow> u64 \<Rightarrow> ('hw \<times> bus_event list) cxp \<Rightarrow> bool" where
  "followed n old m c \<longleftrightarrow> core n c \<and> num_ports (fst c) = num_ports old \<and> current_port_map (fst c) = m
     \<and> (\<forall>p < num_ports old. data_path_state_physical_cache (port_of (fst c) p) = data_path_state_physical_cache (port_of old p))
     \<and> (holds (snd (snd c)) 0x801 (reset_ctrl_value (fst c))
        \<or> holds (snd (snd c)) 0x801 (reset_ctrl_value old)
          \<and> (\<forall>l. data_path_state_logical_cache (port_of (fst c) l) = data_path_state_logical_cache (port_of old l)))"

lemma followed_quiet:
  assumes "core n c' \<and> quiet c c'" "followed n old m c"
  shows "followed n old m c'"
  using assms same_path_values(1) [of "fst c" "fst c'"] by (simp add: followed_def quiet_def same_path_def)

lemma path_result:
  assumes "cxp_set_port_data_path_state ri p new c = Some (r, c')"
  shows "c' = c \<or> p < num_ports (fst c) \<and> fst c' = path_upd p new (fst c)"
  using assms by (auto simp: cxp_set_port_data_path_state_def Let_def case_prod_beta path_upd_def not_le split: if_splits)

lemma followed_path:
  assumes "cxp_set_port_data_path_state (logged ri) p (data_path_state_physical_cache (port_of old p)) c = Some (r, c')"
    "followed n old m c"
  shows "followed n old m c'"
proof -
  let ?x = "data_path_state_physical_cache (port_of old p)"
  have cr: "core n c" using assms(2) by (simp add: followed_def)
  note D = data_path_state_core(1,2) [OF assms(1) cr]
  from path_result [OF assms(1)] show ?thesis
  proof
    assume e: "p < num_ports (fst c) \<and> fst c' = path_upd p ?x (fst c)"
    have "data_path_state_physical_cache (port_of (fst c') q) = data_path_state_physical_cache (port_of old q)"
      if "q < num_ports old" for q
      using e assms(2) that by (auto simp: followed_def path_upd_def port_of_upd)
    then show ?thesis using assms(2) D e by (auto simp: followed_def path_upd_def)
  qed (use assms(2) in simp)
qed

lemma followed_calls:
  "cxp_set_port_camera_donwscaling (logged ri) p x c = Some (r, c') \<Longrightarrow> followed n old m c \<Longrightarrow> followed n old m c'"
  "cxp_set_port_acquisition_state (logged ri) p x c = Some (r, c') \<Longrightarrow> followed n old m c \<Longrightarrow> followed n old m c'"
  "cxp_set_port_standard_version (logged ri) p x c = Some (r, c') \<Longrightarrow> followed n old m c \<Longrightarrow> followed n old m c'"
  "cxp_set_port_data_path_speed (logged ri) pat p x c = Some (r, c') \<Longrightarrow> followed n old m c \<Longrightarrow> followed n old m c'"
  using followed_quiet followed_def
    downscaling_core acquisition_state_core standard_version_core data_path_speed_core by metis+

lemma keeps_next:
  assumes "\<And>c'. c = Some c' \<Longrightarrow> J c'" "\<And>r c c'. f c = Some (r, c') \<Longrightarrow> J c \<Longrightarrow> J c'"
  shows "next_call f c = Some c' \<Longrightarrow> J c'"
  using assms by (auto simp: next_call_def bind_eq_Some_conv)

lemma followed_restore:
  assumes "restore_port (logged ri) pat om m old p c = Some c'" "followed n old m c"
  shows "followed n old m c'"
proof (cases "c' = c")
  case False
  then obtain v a w where r: "next_call (cxp_set_port_camera_donwscaling (logged ri) p w)
            (next_call (cxp_set_port_acquisition_state (logged ri) p a)
            (next_call (cxp_set_port_standard_version (logged ri) p v)
            (next_call (cxp_set_port_data_path_speed (logged ri) pat p (data_path_dw_speed_cache (port_of old p)))
            (next_call (cxp_set_port_data_path_state (logged ri) p (data_path_state_physical_cache (port_of old p)))
              (Some c))))) = Some c'"
    using assms(1) by (auto simp: restore_port_def split: if_splits option.splits)
  note K = keeps_next [where J = "followed n old m"]
  show ?thesis
    using r by (elim K [rotated 2]) ((erule (1) followed_calls followed_path) | simp add: assms(2))+
qed (use assms(2) in simp)


lemma port_map_steady:
  assumes "cxp_set_port_map (logged ri) pat m c = Some (r, c')" "sound n (fst c)" "steady n c"
  shows "steady n c'"
proof -
  obtain self s log where c: "c = (self, s, log)" by (cases c)
  from assms(2,3) c have ok: "frontend_ok n self" and snd': "sound n self" and cr: "core n (self, s, log)"
    and sync: "in_sync self" and V: "holds log 0x801 (reset_ctrl_value self)" and lv: "live n self"
    by (simp_all add: sound_def steady_def)
  show ?thesis
  proof (cases "m = current_port_map self \<or> \<not> valid_map n m")
    case True
    then have "c' = c" using assms(1) unfolding c port_map_cases [OF ok] by (auto split: if_splits)
    with assms(3) show ?thesis by simp
  next
    case False
    let ?i = "find_port_map (port_maps self) m"
    let ?c = "(self\<lparr>port_map_index := ?i\<rparr>, ri_write ri 0x808 (of_nat ?i) s, log @ [Wr 0x808 (of_nat ?i)])"
    have m: "valid_map n m" using False by blast
    note S = switch_map [OF ok m]
    have e: "each_port (restore_port (logged ri) pat (current_port_map self) m self) (all_ports self) ?c = Some c'"
      using assms(1) False unfolding c port_map_cases [OF ok] by (auto simp: Let_def)
    have sel: "port_of (self\<lparr>port_map_index := i\<rparr>) q = port_of self q" "combined (self\<lparr>port_map_index := i\<rparr>) F = combined self F"
      "downscale_fields (self\<lparr>port_map_index := i\<rparr>) ps w = downscale_fields self ps w"
      "all_ports (self\<lparr>port_map_index := i\<rparr>) = all_ports self" for i q F ps w
      by (simp_all add: port_of_def combined_def all_ports_def) (induction ps arbitrary: w, simp_all add: port_of_def)
    have "in_step (self\<lparr>port_map_index := ?i\<rparr>) log'  \<longleftrightarrow> in_step self log'" for log'
      by (simp add: in_step_def power_ctrl_value_def standard_ctrl_value_def acquisition_ctrl_value_def port_in_step_def
          downscale_in_step_def sel)
    moreover have "in_step self (log @ [Wr 0x808 (of_nat ?i)])"
      using cr by (simp add: core_def in_step_def downscale_write ports_write [OF ok])
    ultimately have "core n ?c" using S(1) by (simp add: core_def)
    then have "followed n self m ?c" using S(2) V by (simp add: followed_def sel)
    with e have F: "followed n self m c'"
      by (rule each_port_keeps) (erule (1) followed_restore)
    obtain self' s' where mv: "cxp_set_port_map (logged ri) pat m (self, s, log) = Some (0, self', s')"
      "moved n self m UNIV self'"
      using set_port_map_moves [OF ok lv sync m, of "logged ri" pat "(s, log)"] by blast
    then have c': "c' = (self', s')" using assms(1) c by simp
    then have "sound n (fst c')" using moved_sound [OF snd' mv(2)] by simp
    moreover from this have "holds (snd (snd c')) 0x801 (reset_ctrl_value (fst c'))"
      using F reset_value_maps [OF ok, of "fst c'"] sync by (auto simp: followed_def sound_def)
    ultimately show ?thesis using F by (simp add: steady_def followed_def sound_def)
  qed
qed

lemma reset_port_steady:
  assumes "cxp_reset_port (logged ri) pat p c = Some c'" "steady n c"
  shows "steady n c'"
proof (cases "c' = c")
  case False
  then have r: "next_call (cxp_set_port_image_stream_id (logged ri) p (-1))
        (next_call (cxp_set_port_camera_donwscaling (logged ri) p 1)
        (next_call (cxp_set_port_acquisition_state (logged ri) p ACQUISITION_STATE_STOPPED)
        (next_call (cxp_set_port_led_state (logged ri) p CXP_LED_STATE_POWERED)
        (next_call (cxp_set_port_standard_version (logged ri) p CXP_STANDARD_VERSION_1_1)
        (next_call (cxp_set_port_data_path_speed (logged ri) pat p DATA_PATH_SPEED_3125)
        (next_call (cxp_set_port_data_path_state (logged ri) p DATA_PATH_STATE_INACTIVE)
          (Some c))))))) = Some c'"
    using assms(1) by (auto simp: cxp_reset_port_def split: if_splits)
  note K = keeps_next [where J = "steady n"]
  show ?thesis using r
    by (elim K [rotated 2]) ((erule (1) calls_steady data_path_state_steady) | simp add: assms(2))+
qed (use assms(2) in simp)

lemma reset_ports_steady:
  "each_port (cxp_reset_port (logged ri) pat) ps c = Some c' \<Longrightarrow> steady n c \<Longrightarrow> steady n c'"
  by (rule each_port_keeps [where J = "steady n"]) (assumption | erule (1) reset_port_steady)+

lemma reset_steady:
  assumes "cxp_reset (logged ri) pat c = Some (r, c')" "sound n (fst c)" "steady n c"
  shows "steady n c'"
  using assms(1) port_map_steady [OF _ assms(2,3)] reset_ports_steady by (fastforce simp: cxp_reset_def bind_eq_Some_conv)

lemma command_steady:
  assumes "cxp_execute_command (logged ri) pat cmd args c = Some (r, c')" "sound n (fst c)" "steady n c"
  shows "steady n c'"
  using assms(1,3) unfolding cxp_execute_command_def
  by (auto split: if_splits intro: assms(3) reset_steady [OF _ assms(2,3)] port_map_steady [OF _ assms(2,3)]
      calls_steady [OF _ assms(3)] data_path_state_steady [OF _ assms(3)])

end
