(* ===== verification/Cxp_Streams.thy ===== *)
theory Cxp_Streams
  imports Cxp_Steady
begin

text \<open>
  The registers of the frontend that do not combine the states of all ports: the one that selects the
  port map, and those of the image stream ids of the logical ports.
\<close>

definition stream_register :: "u32 \<Rightarrow> u32" where
  "stream_register l = 0x81c + l"

text \<open>
  A port with a stream id has it in its register; a port without, because none was set since the last
  reset or because it was taken back, may have an old one there.
\<close>

definition stream_ok :: "bus_event list \<Rightarrow> u32 \<Rightarrow> cxp_port \<Rightarrow> bool" where
  "stream_ok log l q \<longleftrightarrow> stream_id_cache q = -1 \<or> last_write (stream_register l) log = Some (push_bit 8 (ucast (stream_id_cache q)))"

definition selected :: "nat \<Rightarrow> ('hw \<times> bus_event list) cxp \<Rightarrow> bool" where
  "selected n c \<longleftrightarrow> frontend_ok n (fst c) \<and> last_write 0x808 (snd (snd c)) = Some (of_nat (port_map_index (fst c)))
     \<and> (\<forall>l < num_ports (fst c). stream_ok (snd (snd c)) l (port_of (fst c) l))"

definition apart :: "u32 \<Rightarrow> bool" where
  "apart a \<longleftrightarrow> a \<notin> {0x808, 0x81c, 0x81d, 0x81e, 0x81f, 0x820}"

lemma apart_regs: "apart 0x800" "apart 0x801" "apart 0x806" "apart 0x807" "apart 0x815" "apart 0x817"
  by (simp_all add: apart_def)

lemma apart_ports:
  assumes "frontend_ok n self" "p < num_ports self"
  shows "apart (dl_reg p)" "apart (led_reg p)"
  using small_port [OF assms] by (auto simp: apart_def dl_reg_def led_reg_def cxp_port_init_def)

lemma apart_stream:
  assumes "frontend_ok n self" "l < num_ports self" "apart a"
  shows "a \<noteq> 0x808" "a \<noteq> stream_register l" "stream_register l \<noteq> 0x808"
  using small_port [OF assms(1,2)] assms(3) by (auto simp: apart_def stream_register_def)

text \<open>A step that changes a port but not its stream id, and writes registers apart from these.\<close>

lemma selected_write:
  assumes "selected n (self, s, log)" "apart a"
  shows "selected n (self, s', log @ [Wr a v])"
proof -
  have "frontend_ok n self" using assms(1) by (simp add: selected_def)
  from apart_stream [OF this _ assms(2)] assms show ?thesis
    by (auto simp: selected_def stream_ok_def apart_def)
qed

lemma selected_upd:
  assumes "selected n (self, st)" "keeps_registers f" "\<And>q. stream_id_cache (f q) = stream_id_cache q"
  shows "selected n (upd_port l f self, st)"
  using assms sel_upd [of stream_id_cache f self l]
  by (simp add: selected_def frontend_ok_upd stream_ok_def)

lemma selected_log:
  assumes "\<And>a. last_write a (snd st') = last_write a (snd st)"
  shows "selected n (self, st') = selected n (self, st)"
  by (simp add: selected_def stream_ok_def assms)

lemma wait_selected:
  assumes "cxp_wait_port_data_path_speed_change_done (logged ri) pat p c = (r, c')"
  shows "selected n c' = selected n c" "fst c' = fst c"
proof -
  obtain self st where c: "c = (self, st)" by (cases c)
  let ?P = "poll_register (logged ri) (data_path_status_register self)
      (\<lambda>v. v AND push_bit (unat p) 1 = push_bit (unat p) 1) (pat st) st"
  have "c' = (self, snd ?P)"
    using assms unfolding c cxp_wait_port_data_path_speed_change_done_def Let_def case_prod_beta by simp
  with c selected_log [OF poll_register_writes] show "selected n c' = selected n c" "fst c' = fst c" by simp_all
qed

lemma power_selected:
  assumes "cxp_set_port_power_state (logged ri) p x c = Some (r, c')" "selected n c"
  shows "selected n c'"
proof -
  obtain self s log where c: "c = (self, s, log)" by (cases c)
  have ok: "frontend_ok n self" using assms(2) c by (simp add: selected_def)
  from assms show ?thesis
    by (auto simp: cxp_set_port_power_state_def c Let_def frontend_okD(5) [OF ok] split: if_splits
        intro!: selected_write selected_upd apart_regs)
qed

lemma path_selected:
  assumes "cxp_set_port_data_path_state (logged ri) p x c = Some (r, c')" "selected n c"
  shows "selected n c'"
proof -
  obtain self s log where c: "c = (self, s, log)" by (cases c)
  have ok: "frontend_ok n self" using assms(2) c by (simp add: selected_def)
  from assms show ?thesis
    by (auto simp: cxp_set_port_data_path_state_def c Let_def frontend_okD(6) [OF ok] split: if_splits
        intro!: selected_write selected_upd apart_regs)
qed

lemma standard_ctrl_selected:
  assumes "selected n c"
  shows "selected n (cxp_update_standard_ctrl_register (logged ri) c)"
proof -
  obtain self s log where c: "c = (self, s, log)" by (cases c)
  have ok: "frontend_ok n self" using assms c by (simp add: selected_def)
  from assms show ?thesis
    by (auto simp: cxp_update_standard_ctrl_register_def c frontend_okD(7) [OF ok] intro!: selected_write apart_regs)
qed

lemma version_selected:
  assumes "cxp_set_port_standard_version (logged ri) p x c = Some (r, c')" "selected n c"
  shows "selected n c'"
  using assms by (cases c) (auto simp: cxp_set_port_standard_version_def Let_def split: if_splits
      intro!: standard_ctrl_selected selected_upd)

lemma led_selected:
  assumes "cxp_set_port_led_state (logged ri) p x c = Some (r, c')" "selected n c"
  shows "selected n c'"
proof -
  obtain self s log where c: "c = (self, s, log)" by (cases c)
  have ok: "frontend_ok n self" using assms(2) c by (simp add: selected_def)
  from assms show ?thesis
    by (auto simp: cxp_set_port_led_state_def c Let_def not_le port_registers(2) [OF ok] split: if_splits
        intro!: selected_write selected_upd apart_ports [OF ok])
qed

lemma acquisition_selected:
  assumes "cxp_set_port_acquisition_state (logged ri) p x c = Some (r, c')" "selected n c"
  shows "selected n c'"
proof -
  obtain self s log where c: "c = (self, s, log)" by (cases c)
  have ok: "frontend_ok n self" using assms(2) c by (simp add: selected_def)
  from assms show ?thesis
    by (auto simp: cxp_set_port_acquisition_state_def c Let_def frontend_okD(8) [OF ok] split: if_splits
        intro!: selected_write selected_upd apart_regs)
qed

lemma downscaling_selected:
  assumes "cxp_set_port_camera_donwscaling (logged ri) p x c = Some (r, c')" "selected n c"
  shows "selected n c'"
proof -
  obtain self s log where c: "c = (self, s, log)" by (cases c)
  have ok: "frontend_ok n self" using assms(2) c by (simp add: selected_def)
  from assms show ?thesis
    by (auto simp: cxp_set_port_camera_donwscaling_def c Let_def frontend_okD(10) [OF ok] split: if_splits option.splits
        intro!: selected_write selected_upd apart_regs)
qed

lemma downlink_selected:
  assumes "set_downlink (logged ri) pat p x c = (r, c')" "selected n c" "p < num_ports (fst c)"
  shows "selected n c'"
proof -
  obtain self s log where c: "c = (self, s, log)" by (cases c)
  have ok: "frontend_ok n self" using assms(2) c by (simp add: selected_def)
  have p: "p < num_ports self" using assms(3) c by simp
  let ?c = "(upd_port p (\<lambda>q. q\<lparr>data_path_dw_speed_cache := x\<rparr>) self,
      ri_write ri (dl_reg p) (downlink_bitrate x) s, log @ [Wr (dl_reg p) (downlink_bitrate x)])"
  have "c' = c \<or> cxp_wait_port_data_path_speed_change_done (logged ri) pat p ?c = (r, c')"
    using assms(1) port_registers(1) [OF ok p] by (auto simp: set_downlink_def c split: if_splits)
  moreover have "selected n ?c"
    using assms(2) by (auto simp: c intro!: selected_write selected_upd apart_ports [OF ok p])
  ultimately show ?thesis using wait_selected(1) assms(2) by blast
qed

lemma speed_selected:
  assumes "cxp_set_port_data_path_speed (logged ri) pat p x c = Some (r, c')" "selected n c"
  shows "selected n c'"
proof -
  obtain self st where c: "c = (self, st)" by (cases c)
  let ?w = "cxp_wait_port_data_path_speed_change_done (logged ri) pat p c"
  let ?d = "set_downlink (logged ri) pat p x (snd ?w)"
  consider "c' = c" | "c' = snd ?w" | "p < num_ports self"
    "c' = set_uplink (logged ri) (logical_of self p) (uplink_of x) (snd ?d)"
    using assms(1) by (auto simp: cxp_set_port_data_path_speed_def c Let_def not_le case_prod_beta split: if_splits)
  then show ?thesis
  proof cases
    case 3
    have w: "selected n (snd ?w)" "fst (snd ?w) = self"
      using wait_selected [of ri pat p c "fst ?w" "snd ?w"] assms(2) c by simp_all
    have "selected n (snd ?d)"
      using downlink_selected [of ri pat p x "snd ?w" "fst ?d" "snd ?d" n] w 3(1) by simp
    then show ?thesis unfolding 3(2)
      by (cases "snd ?d") (auto simp: set_uplink_def intro!: standard_ctrl_selected selected_upd)
  qed (use assms(2) wait_selected [of ri pat p c "fst ?w" "snd ?w"] in simp_all)
qed

section \<open>The stream id itself\<close>

lemma stream_field:
  assumes "0 \<le> sint (sid :: u16)" "sint sid \<le> 255"
  shows "(0xff00 AND push_bit 8 (scast sid AND 0xff)) AND 0xffff = (push_bit 8 (ucast sid) :: u32)"
proof -
  have "uint sid = uint (word_of_int (sint sid) :: u16)" by simp
  also have "\<dots> = sint sid" unfolding uint_word_of_int using assms by simp
  finally have "uint sid < 256" using assms(2) by simp
  then have "take_bit 8 sid = sid" by (simp add: word_uint_eq_iff unsigned_take_bit_eq take_bit_int_eq_self_iff)
  then have b: "bit sid i \<Longrightarrow> i < 8" for i using bit_take_bit_iff [of 8 sid i] by simp
  have m: "(0xff00 :: u32) = push_bit 8 (mask 8)" "(0xff :: u32) = mask 8" "(0xffff :: u32) = mask 16"
    by (simp_all add: mask_eq_exp_minus_1)
  show ?thesis unfolding m
    by (rule bit_word_eqI) (auto simp: bit_simps min_def dest: b)
qed

lemma support_tgs_writes:
  "last_write a (snd (snd (does_board_applet_support_tgs (logged ri) st))) = last_write a (snd st)"
  by (simp add: does_board_applet_support_tgs_def Let_def last_write_append)

lemma stream_reg:
  assumes "frontend_ok n self" "l < num_ports self"
  shows "config_image_stream_id_register (port_of self l) = stream_register l"
  using assms(1) port_in_range(1) [OF assms] by (auto simp: frontend_ok_def port_of_def stream_register_def)

lemma selected_stream:
  assumes "selected n (self, s, log)" "l < num_ports self"
  shows "selected n (upd_port l (\<lambda>q. q\<lparr>stream_id_cache := -1\<rparr>) self, s, log)"
    "selected n (upd_port l (\<lambda>q. q\<lparr>stream_id_cache := x\<rparr>) self, s', log @ [Wr (stream_register l) (push_bit 8 (ucast x))])"
proof -
  from assms(1) have ok: "frontend_ok n self" by (simp add: selected_def)
  have "stream_register l \<noteq> 0x808" using apart_stream(3) [OF ok assms(2) apart_regs(1)] .
  moreover have "stream_register p = stream_register q \<longleftrightarrow> p = q" for p q by (simp add: stream_register_def)
  ultimately show "selected n (upd_port l (\<lambda>q. q\<lparr>stream_id_cache := -1\<rparr>) self, s, log)"
    "selected n (upd_port l (\<lambda>q. q\<lparr>stream_id_cache := x\<rparr>) self, s', log @ [Wr (stream_register l) (push_bit 8 (ucast x))])"
    using assms port_in_range(2) [OF ok assms(2)]
    by (auto simp: selected_def stream_ok_def port_of_upd frontend_ok_upd [OF ok])
qed

lemma stream_selected:
  assumes "cxp_set_port_image_stream_id (logged ri) p sid c = Some (r, c')" "selected n c"
  shows "selected n c'"
proof -
  obtain self st where c: "c = (self, st)" by (cases c)
  obtain s log where st: "snd (does_board_applet_support_tgs (logged ri) st) = (s, log)" by fastforce
  from assms(2) c have ok: "frontend_ok n self" by (simp add: selected_def)
  let ?l = "logical_of self p"
  have s: "selected n (self, s, log)"
    using assms(2) selected_log [of "(s, log)" st n self] support_tgs_writes [of _ ri st] c st by simp
  have "c' = c \<or> c' = (self, s, log) \<or> p < num_ports self \<and> c' = (upd_port ?l (\<lambda>q. q\<lparr>stream_id_cache := -1\<rparr>) self, st)
    \<or> p < num_ports self \<and> 0 \<le> sint sid \<and> sint sid \<le> 255 \<and> c' = (upd_port ?l (\<lambda>q. q\<lparr>stream_id_cache := sid\<rparr>) self,
        ri_write (logged ri) (config_image_stream_id_register (port_of self ?l))
          ((0xff00 AND push_bit 8 (scast sid AND 0xff)) AND 0xffff) (s, log))"
    using assms(1) st
    by (auto simp: cxp_set_port_image_stream_id_def c Let_def not_le not_less case_prod_beta
        simp del: logged_write split: if_splits)
  then show ?thesis
  proof (elim disjE conjE)
    assume p: "p < num_ports self" and e: "c' = (upd_port ?l (\<lambda>q. q\<lparr>stream_id_cache := -1\<rparr>) self, st)"
    show ?thesis unfolding e using selected_stream(1) [OF _ logical_less [OF ok p]] assms(2) c by (cases st) simp
  next
    assume p: "p < num_ports self" and r: "0 \<le> sint sid" "sint sid \<le> 255"
      and e: "c' = (upd_port ?l (\<lambda>q. q\<lparr>stream_id_cache := sid\<rparr>) self,
        ri_write (logged ri) (config_image_stream_id_register (port_of self ?l))
          ((0xff00 AND push_bit 8 (scast sid AND 0xff)) AND 0xffff) (s, log))"
    show ?thesis unfolding e stream_field [OF r] stream_reg [OF ok logical_less [OF ok p]]
      using selected_stream(2) [OF s logical_less [OF ok p]] by simp
  qed (use assms(2) s in simp_all)
qed

section \<open>Remap, reset and commands\<close>

lemma restore_selected:
  assumes "restore_port (logged ri) pat om m old p c = Some c'" "selected n c"
  shows "selected n c'"
proof (cases "c' = c")
  case False
  then obtain v a w where r: "next_call (cxp_set_port_camera_donwscaling (logged ri) p w)
            (next_call (cxp_set_port_acquisition_state (logged ri) p a)
            (next_call (cxp_set_port_standard_version (logged ri) p v)
            (next_call (cxp_set_port_data_path_speed (logged ri) pat p (data_path_dw_speed_cache (port_of old p)))
            (next_call (cxp_set_port_data_path_state (logged ri) p (data_path_state_physical_cache (port_of old p)))
              (Some c))))) = Some c'"
    using assms(1) by (auto simp: restore_port_def split: if_splits option.splits)
  note K = keeps_next [where J = "selected n"]
  show ?thesis
    using r by (elim K [rotated 2])
      ((erule (1) downscaling_selected acquisition_selected version_selected speed_selected path_selected) | simp add: assms(2))+
qed (use assms(2) in simp)

text \<open>Also before the first map is selected, when the register of the map was not written yet.\<close>

lemma switched_selected:
  assumes "frontend_ok n (self\<lparr>port_map_index := i\<rparr>)" "\<And>l. l < num_ports self \<Longrightarrow> stream_ok log l (port_of self l)"
  shows "selected n (self\<lparr>port_map_index := i\<rparr>, s, log @ [Wr 0x808 (of_nat i)])"
proof -
  have "stream_register l \<noteq> 0x808" if "l < num_ports self" for l
    using that apart_stream(3) [OF assms(1) _ apart_regs(1), of l] by simp
  with assms show ?thesis by (simp add: selected_def stream_ok_def port_of_def)
qed

lemma port_map_selected:
  assumes "cxp_set_port_map (logged ri) pat m c = Some (r, c')" "selected n c"
  shows "selected n c'"
proof -
  obtain self s log where c: "c = (self, s, log)" by (cases c)
  from assms(2) c have ok: "frontend_ok n self" by (simp add: selected_def)
  show ?thesis
  proof (cases "m = current_port_map self \<or> \<not> valid_map n m")
    case True
    then have "c' = c" using assms(1) unfolding c port_map_cases [OF ok] by (auto split: if_splits)
    with assms(2) show ?thesis by simp
  next
    case False
    let ?i = "find_port_map (port_maps self) m"
    let ?c = "(self\<lparr>port_map_index := ?i\<rparr>, ri_write ri 0x808 (of_nat ?i) s, log @ [Wr 0x808 (of_nat ?i)])"
    have "each_port (restore_port (logged ri) pat (current_port_map self) m self) (all_ports self) ?c = Some c'"
      using assms(1) False unfolding c port_map_cases [OF ok] by (auto simp: Let_def)
    moreover have "selected n ?c"
      using switch_map(1) [OF ok, of m] False assms(2) by (intro switched_selected) (simp_all add: selected_def c)
    ultimately show ?thesis by (rule each_port_keeps) (erule (1) restore_selected)
  qed
qed

lemma reset_port_selected:
  assumes "cxp_reset_port (logged ri) pat p c = Some c'" "selected n c"
  shows "selected n c'"
proof (cases "c' = c")
  case False
  then have r: "next_call (cxp_set_port_image_stream_id (logged ri) p (-1))
        (next_call (cxp_set_port_camera_donwscaling (logged ri) p 1)
        (next_call (cxp_set_port_acquisition_state (logged ri) p ACQUISITION_STATE_STOPPED)
        (next_call (cxp_set_port_led_state (logged ri) p CXP_LED_STATE_POWERED)
        (next_call (cxp_set_port_standard_version (logged ri) p CXP_STANDARD_VERSION_1_1)
        (next_call (cxp_set_port_data_path_speed (logged ri) pat p DATA_PATH_SPEED_3125)
        (next_call (cxp_set_port_data_path_state (logged ri) p DATA_PATH_STATE_INACTIVE)
          (Some c))))))) = Some c'"
    using assms(1) by (auto simp: cxp_reset_port_def split: if_splits)
  note K = keeps_next [where J = "selected n"]
  show ?thesis using r
    by (elim K [rotated 2])
      ((erule (1) stream_selected downscaling_selected acquisition_selected led_selected version_selected
          speed_selected path_selected) | simp add: assms(2))+
qed (use assms(2) in simp)

lemma reset_ports_selected:
  "each_port (cxp_reset_port (logged ri) pat) ps c = Some c' \<Longrightarrow> selected n c \<Longrightarrow> selected n c'"
  by (rule each_port_keeps [where J = "selected n"]) (assumption | erule (1) reset_port_selected)+

lemma reset_selected:
  assumes "cxp_reset (logged ri) pat c = Some (r, c')" "selected n c"
  shows "selected n c'"
  using assms(1) port_map_selected [OF _ assms(2)] reset_ports_selected by (fastforce simp: cxp_reset_def bind_eq_Some_conv)

lemma command_selected:
  assumes "cxp_execute_command (logged ri) pat cmd args c = Some (r, c')" "selected n c"
  shows "selected n c'"
  using assms(1,2) unfolding cxp_execute_command_def
  by (auto split: if_splits intro: reset_selected [OF _ assms(2)] port_map_selected [OF _ assms(2)]
      stream_selected [OF _ assms(2)] downscaling_selected [OF _ assms(2)] acquisition_selected [OF _ assms(2)]
      led_selected [OF _ assms(2)] version_selected [OF _ assms(2)] speed_selected [OF _ assms(2)]
      path_selected [OF _ assms(2)] power_selected [OF _ assms(2)])

end
