(* ===== verification/Cxp_Claims.thy ===== *)
theory Cxp_Claims
  imports Cxp_Streams
begin

text \<open>
  The claims about the CoaXPress frontend: what its port maps are, and what holds after any sequence
  of camera control calls to a board that was opened.
\<close>

section \<open>Sessions\<close>

text \<open>The calls of a user, one after the other; each input is a command, or a copy that faults.\<close>

fun camera_calls ::
    "'hw register_interface \<Rightarrow> ('hw \<Rightarrow> nat) \<Rightarrow> (u32 \<times> u64) option list \<Rightarrow> 'hw cxp \<Rightarrow> 'hw cxp option" where
  "camera_calls ri patience [] c = Some c"
| "camera_calls ri patience (i # inputs) c =
     (case do_camera_control ri patience i (Some c) of
        Some (_, _, Some c1) \<Rightarrow> camera_calls ri patience inputs c1
      | _ \<Rightarrow> None)"

text \<open>A board that has a frontend is opened, which resets it, and is used.\<close>

definition camera_session ::
    "'hw register_interface \<Rightarrow> ('hw \<Rightarrow> nat) \<Rightarrow> nat \<times> bool \<Rightarrow> (u32 \<times> u64) option list \<Rightarrow> 'hw \<Rightarrow> 'hw cxp option" where
  "camera_session ri patience kind inputs s =
     Option.bind (cxp_reset ri patience (cxp_frontend_init (fst kind) (snd kind), s)) (\<lambda>(_, c). camera_calls ri patience inputs c)"

definition undefined_call :: "nat \<Rightarrow> (u32 \<times> u64) option \<Rightarrow> bool" where
  "undefined_call n i = (case i of None \<Rightarrow> False | Some (cmd, args) \<Rightarrow> undefined_shift n cmd args)"

lemma board_ports: "frontend_of_board board dsn = Some (n, b) \<Longrightarrow> port_count n"
  by (auto simp: frontend_of_board_def port_count_def split: if_splits)

lemma undefined_shift_None:
  assumes "sound n self" "undefined_shift n cmd args"
  shows "cxp_execute_command ri pat cmd args (self, s) = None"
proof -
  let ?p = "arg_port args" and ?x = "arg_param args"
  from assms have ok: "frontend_ok n self" and lv: "live n self" and n: "n = 5" and x: "1 < ?x" "?x \<le> 4"
    and cmd: "cmd = 9" and p5: "unat ?p < 5"
    by (simp_all add: sound_def undefined_shift_def)
  have num: "num_ports self = 5" using frontend_okD(4) [OF ok] n by simp
  then have p: "?p < num_ports self" using p5 by (simp add: word_less_nat_alt)
  let ?l = "logical_of self ?p"
  have "camera_downscale_state_cache (port_of self ?l) = 1"
    using lv logical_less [OF ok p] n by (simp add: live_def downscale_ok_def)
  moreover have "\<not> 4 < ?x" "?x \<noteq> 0" "?x \<noteq> 1" using x by auto
  moreover have "downscale_fields c (all_ports self) v = None" for c v
    using num by (simp add: all_ports_def upt_conv_Cons)
  ultimately have "cxp_set_port_camera_donwscaling ri ?p ?x (self, s) = None"
    using p num port_in_range(3) [OF ok p] by (simp add: cxp_set_port_camera_donwscaling_def Let_def not_le)
  then show ?thesis by (simp add: cxp_execute_command_def cmd)
qed

lemma camera_call:
  assumes "sound n (fst c)"
  shows "(\<exists>r v c'. do_camera_control ri pat i (Some c) = Some (r, v, Some c') \<and> sound n (fst c')) \<or>
    undefined_call n i \<and> do_camera_control ri pat i (Some c) = None"
    "undefined_call n i \<Longrightarrow> do_camera_control ri pat i (Some c) = None"
proof -
  obtain self s where c: "c = (self, s)" by (cases c)
  show N: "do_camera_control ri pat i (Some c) = None" if u: "undefined_call n i"
  proof -
    obtain cmd args where i: "i = Some (cmd, args)" "undefined_shift n cmd args"
      using u by (cases i) (auto simp: undefined_call_def)
    then have "cmd \<noteq> 0" by (auto simp: undefined_shift_def)
    then show ?thesis using undefined_shift_None [OF _ i(2), of self ri pat s] assms by (simp add: do_camera_control_def i(1) c)
  qed
  show "(\<exists>r v c'. do_camera_control ri pat i (Some c) = Some (r, v, Some c') \<and> sound n (fst c')) \<or>
    undefined_call n i \<and> do_camera_control ri pat i (Some c) = None"
  proof (cases "undefined_call n i")
    case False
    show ?thesis
    proof (cases i)
      case (Some ca)
      then obtain cmd args where i: "i = Some (cmd, args)" by (cases ca) auto
      with False have "\<not> undefined_shift n cmd args" by (simp add: undefined_call_def)
      from command_sound [OF _ this, of self ri pat s] assms c obtain r c'
        where "cxp_execute_command ri pat cmd args c = Some (r, c')" "sound n (fst c')" by (auto simp: answers_def)
      then show ?thesis using assms by (cases c, cases c') (auto simp: do_camera_control_def i)
    next
      case None
      then have "do_camera_control ri pat i (Some c) = Some (- EFAULT, False, Some c)" by (simp add: do_camera_control_def)
      with assms show ?thesis by blast
    qed
  qed (use N in simp)
qed

lemma camera_calls_sound:
  assumes "sound n (fst c)"
  shows "(\<exists>c'. camera_calls ri pat inputs c = Some c' \<and> sound n (fst c')) \<or>
    (\<exists>i \<in> set inputs. undefined_call n i) \<and> camera_calls ri pat inputs c = None"
    "(\<exists>i \<in> set inputs. undefined_call n i) \<Longrightarrow> camera_calls ri pat inputs c = None"
proof -
  show "(\<exists>c'. camera_calls ri pat inputs c = Some c' \<and> sound n (fst c')) \<or>
    (\<exists>i \<in> set inputs. undefined_call n i) \<and> camera_calls ri pat inputs c = None"
    using assms
  proof (induction inputs arbitrary: c)
    case (Cons i inputs)
    from camera_call(1) [OF Cons.prems, of ri pat i] show ?case using Cons.IH by fastforce
  qed simp
  show "(\<exists>i \<in> set inputs. undefined_call n i) \<Longrightarrow> camera_calls ri pat inputs c = None"
    using assms
  proof (induction inputs arbitrary: c)
    case (Cons i inputs)
    from camera_call [OF Cons.prems(2), where ri = ri and pat = pat and i = i] show ?case using Cons by fastforce
  qed simp
qed

lemma session_sound:
  assumes "port_count n"
  shows "(\<exists>c. camera_session ri pat (n, b) inputs s = Some c \<and> sound n (fst c)) \<or>
    (\<exists>i \<in> set inputs. undefined_call n i) \<and> camera_session ri pat (n, b) inputs s = None"
    "(\<exists>i \<in> set inputs. undefined_call n i) \<Longrightarrow> camera_session ri pat (n, b) inputs s = None"
proof -
  obtain c where "cxp_reset ri pat (cxp_frontend_init n b, s) = Some (0, c)" "sound n (fst c)"
    using first_reset [OF assms, of ri pat b s] by blast
  then show "(\<exists>c. camera_session ri pat (n, b) inputs s = Some c \<and> sound n (fst c)) \<or>
    (\<exists>i \<in> set inputs. undefined_call n i) \<and> camera_session ri pat (n, b) inputs s = None"
    "(\<exists>i \<in> set inputs. undefined_call n i) \<Longrightarrow> camera_session ri pat (n, b) inputs s = None"
    using camera_calls_sound [where n = n and c = c and ri = ri and pat = pat and inputs = inputs] by (simp_all add: camera_session_def)
qed

lemma camera_calls_steady:
  assumes "camera_calls (logged ri) pat inputs c = Some c'" "sound n (fst c)" "steady n c"
  shows "steady n c'"
  using assms
proof (induction inputs arbitrary: c)
  case (Cons i inputs)
  then obtain r v c1 where 1: "do_camera_control (logged ri) pat i (Some c) = Some (r, v, Some c1)"
    "camera_calls (logged ri) pat inputs c1 = Some c'" by (auto split: option.splits)
  have "sound n (fst c1)" using camera_call(1) [OF Cons.prems(2), of "logged ri" pat i] 1(1) by auto
  moreover have "steady n c1"
    using 1(1) command_steady [OF _ Cons.prems(2,3)] Cons.prems(3)
    by (auto simp: do_camera_control_def split: option.splits if_splits)
  ultimately show ?case using Cons.IH [OF 1(2)] by blast
qed simp

lemma session_steady:
  assumes "port_count n" "camera_session (logged ri) pat (n, b) inputs (s, []) = Some c"
  shows "steady n c"
proof -
  let ?self = "cxp_frontend_init n b"
  obtain c0 where c0: "cxp_reset (logged ri) pat (?self, s, []) = Some (0, c0)" "sound n (fst c0)"
    using first_reset [OF assms(1), of "logged ri" pat b "(s, [])"] by blast
  obtain i where m: "cxp_set_port_map (logged ri) pat IDENTITY_PORT_MAP (?self, s, [])
      = Some (0, ?self\<lparr>port_map_index := i\<rparr>, ri_write ri 0x808 (of_nat i) s, [Wr 0x808 (of_nat i)])"
    and ok: "frontend_ok n (?self\<lparr>port_map_index := i\<rparr>)"
    using first_map [OF assms(1), of "logged ri" pat b "(s, [])"] by auto
  have "data_path_state_physical_cache (port_of (?self\<lparr>port_map_index := i\<rparr>) p) = 0
      \<and> data_path_state_logical_cache (port_of (?self\<lparr>port_map_index := i\<rparr>) p) = 0" if "unat p < n" for p
    using that assms(1) by (auto simp: port_of_def cxp_frontend_init_def Let_def port_count_def cxp_port_init_def)
  then have "in_sync (?self\<lparr>port_map_index := i\<rparr>)"
    using port_in_range(1,4) [OF ok] by (simp add: in_sync_def)
  moreover have "in_step (?self\<lparr>port_map_index := i\<rparr>) [Wr 0x808 (of_nat i)]"
    using port_registers_differ(4,5) [OF ok]
    by (auto simp: in_step_def holds_def port_in_step_def downscale_in_step_def)
  ultimately have "steady n (?self\<lparr>port_map_index := i\<rparr>, ri_write ri 0x808 (of_nat i) s, [Wr 0x808 (of_nat i)])"
    using ok by (simp add: steady_def core_def holds_def)
  then have "steady n c0" using c0(1) m reset_ports_steady by (fastforce simp: cxp_reset_def)
  then show ?thesis
    using camera_calls_steady [OF _ c0(2)] assms(2) c0(1) by (simp add: camera_session_def)
qed


section \<open>Claims\<close>

text \<open>
  C21: For a board of \<open>n\<close> ports, whatever permutation \<open>p\<close> of the ports one asks for, the table has exactly one
  map that takes each physical port to its logical port, and that map, read the other way round, gives
  the physical port back. Apart from the \<open>n!\<close> maps the table holds only its end mark.
\<close>

theorem port_maps_are_the_permutations:
  assumes "port_count n"
  shows "length (port_maps_of n) = fact n + 1 \<and> last (port_maps_of n) = CXP_PORT_MAP_INVALID
    \<and> (\<forall>p. length p = n \<longrightarrow> set p = {0..<n} \<longrightarrow>
         (\<exists>!m. m \<in> set (port_maps_of n) \<and> m \<noteq> CXP_PORT_MAP_INVALID
            \<and> (\<forall>i < n. cxp_get_logical_port_number_from_port_map m (of_nat i) = of_nat (p ! i)
                 \<and> cxp_get_physical_port_number_from_port_map m (of_nat (p ! i)) = of_nat i)))"
proof (intro conjI allI impI)
  show "length (port_maps_of n) = fact n + 1" "last (port_maps_of n) = CXP_PORT_MAP_INVALID"
    using perms_of_count [OF assms] by (simp_all add: tables [OF assms])
next
  fix p assume p: "length p = n" "set p = {0..<n}"
  then have ok: "perm_ok n p" by (auto simp: perm_ok_def list_all_iff)
  have n: "n \<le> 8" "n \<le> 5" using port_count_le [OF assms] by simp_all
  have v: "valid_map n (map_of_perm p)" using perms_of_all [OF assms ok] by (auto simp: valid_map_def)
  have "cxp_get_logical_port_number_from_port_map (map_of_perm p) (of_nat i) = of_nat (p ! i)
      \<and> cxp_get_physical_port_number_from_port_map (map_of_perm p) (of_nat (p ! i)) = of_nat i" if "i < n" for i
  proof -
    have l: "cxp_get_logical_port_number_from_port_map (map_of_perm p) (of_nat i) = of_nat (p ! i)"
      by (rule map_of_perm_ports(1) [OF ok n(1) that])
    have "unat (of_nat i :: u32) < n" using that n(2) by simp
    from valid_map_ports(2) [OF assms v this] l show ?thesis by simp
  qed
  moreover have "m = map_of_perm p"
    if m: "m \<in> set (port_maps_of n)" "m \<noteq> CXP_PORT_MAP_INVALID"
      "\<forall>i < n. cxp_get_logical_port_number_from_port_map m (of_nat i) = of_nat (p ! i)" for m
  proof -
    obtain q where q: "q \<in> set (perms_of n)" "m = map_of_perm q" using m(1,2) by (auto simp: tables [OF assms])
    note okq = perms_of_ok [OF assms q(1)]
    have "q ! i = p ! i" if i: "i < n" for i
    proof -
      have "(of_nat (q ! i) :: u32) = of_nat (p ! i)"
        using map_of_perm_ports(1) [OF okq n(1) i] m(3) i q(2) by simp
      moreover have "q ! i < 5" "p ! i < 5"
        using perm_okD [OF okq] perm_okD [OF ok] i n(2) nth_mem [of i q] nth_mem [of i p] by auto
      moreover have "unat (of_nat k :: u32) = k" if "k < 5" for k using that by simp
      ultimately show ?thesis by metis
    qed
    then show ?thesis using perm_okD(1) [OF okq] p(1) q(2) nth_equalityI [of q p] by simp
  qed
  ultimately show "\<exists>!m. m \<in> set (port_maps_of n) \<and> m \<noteq> CXP_PORT_MAP_INVALID
      \<and> (\<forall>i < n. cxp_get_logical_port_number_from_port_map m (of_nat i) = of_nat (p ! i)
           \<and> cxp_get_physical_port_number_from_port_map m (of_nat (p ! i)) = of_nat i)"
    using v assms by (intro ex1I [of _ "map_of_perm p"]) (auto simp: valid_map_iff)
qed

theorem port_maps_are_the_permutations_witness:
  "\<exists>!m. m \<in> set (port_maps_of 2) \<and> m \<noteq> CXP_PORT_MAP_INVALID
     \<and> (\<forall>i < 2. cxp_get_logical_port_number_from_port_map m (of_nat i) = of_nat ([1, 0] ! i)
          \<and> cxp_get_physical_port_number_from_port_map m (of_nat ([1, 0] ! i)) = of_nat i)"
proof -
  have "port_count 2" "length [1, 0 :: nat] = 2" "set [1, 0] = {0..<2 :: nat}" by (auto simp: port_count_def)
  with port_maps_are_the_permutations [of 2] show ?thesis by blast
qed

lemma camera_calls_selected:
  assumes "camera_calls (logged ri) pat inputs c = Some c'" "selected n c"
  shows "selected n c'"
  using assms
proof (induction inputs arbitrary: c)
  case (Cons i inputs)
  then obtain r v c1 where 1: "do_camera_control (logged ri) pat i (Some c) = Some (r, v, Some c1)"
    "camera_calls (logged ri) pat inputs c1 = Some c'" by (auto split: option.splits)
  have "selected n c1"
    using 1(1) command_selected [OF _ Cons.prems(2)] Cons.prems(2)
    by (auto simp: do_camera_control_def split: option.splits if_splits)
  then show ?case using Cons.IH [OF 1(2)] by blast
qed simp

lemma session_selected:
  assumes "port_count n" "camera_session (logged ri) pat (n, b) inputs (s, []) = Some c"
  shows "selected n c"
proof -
  let ?self = "cxp_frontend_init n b"
  obtain i where m: "cxp_set_port_map (logged ri) pat IDENTITY_PORT_MAP (?self, s, [])
      = Some (0, ?self\<lparr>port_map_index := i\<rparr>, ri_write ri 0x808 (of_nat i) s, [Wr 0x808 (of_nat i)])"
    and ok: "frontend_ok n (?self\<lparr>port_map_index := i\<rparr>)"
    using first_map [OF assms(1), of "logged ri" pat b "(s, [])"] by auto
  have "stream_id_cache (port_of ?self l) = -1" if "l < num_ports ?self" for l
    using that port_in_range(1) [OF ok, of l] assms(1)
    by (auto simp: port_of_def cxp_frontend_init_def Let_def port_count_def cxp_port_init_def)
  then have 1: "selected n (?self\<lparr>port_map_index := i\<rparr>, ri_write ri 0x808 (of_nat i) s, [Wr 0x808 (of_nat i)])"
    using switched_selected [OF ok, of "[]"] by (simp add: stream_ok_def)
  obtain r c0 where c0: "cxp_reset (logged ri) pat (?self, s, []) = Some (r, c0)" "camera_calls (logged ri) pat inputs c0 = Some c"
    using assms(2) by (auto simp: camera_session_def bind_eq_Some_conv)
  then obtain ps where "each_port (cxp_reset_port (logged ri) pat) ps
      (?self\<lparr>port_map_index := i\<rparr>, ri_write ri 0x808 (of_nat i) s, [Wr 0x808 (of_nat i)]) = Some c0"
    using m by (auto simp: cxp_reset_def)
  from camera_calls_selected [OF c0(2) reset_ports_selected [OF this 1]] show ?thesis .
qed

text \<open>
  C18: On a board with a frontend, in whatever order users call the camera control and whatever the
  device answers to reads, after any calls, also those that fail, that fault, that time out or that
  change the port map: the registers that control power, data path, standard version, acquisition,
  downscaling, the downlink bit rates and the LEDs hold the values that belong to the cached states
  of the ports, if they were written at all; the register of the port map was written and holds the
  index of the current map; and the two caches of the data path agree. The register of an image stream
  id is the exception: it holds the id of the port if the port has one, and nothing is claimed for a
  port without an id, because taking an id back and a reset clear the cache and leave the register.
\<close>

theorem cxp_registers_follow_states:
  assumes "frontend_of_board board dsn = Some (n, b)"
    "camera_session (logged ri) patience (n, b) inputs (s, []) = Some (self, s', log)"
  shows "holds log 0x800 (power_ctrl_value self) \<and> holds log 0x801 (reset_ctrl_value self)
    \<and> holds log 0x806 (standard_ctrl_value self) \<and> holds log 0x807 (acquisition_ctrl_value self)
    \<and> last_write 0x808 log = Some (of_nat (port_map_index self))
    \<and> (\<forall>p < num_ports self.
         holds log (downlink_bitrate_register (port_of self p)) (downlink_bitrate (data_path_dw_speed_cache (port_of self p)))
       \<and> holds log (led_ctrl_register (port_of self p)) (led_ctrl (led_state_cache (port_of self p)))
       \<and> (stream_id_cache (port_of self p) = -1 \<or>
            last_write (config_image_stream_id_register (port_of self p)) log
              = Some (push_bit 8 (ucast (stream_id_cache (port_of self p)))))
       \<and> data_path_state_logical_cache (port_of self (logical_of self p)) = data_path_state_physical_cache (port_of self p))
    \<and> (\<forall>v. downscale_fields self (all_ports self) 0 = Some v \<longrightarrow> holds log 0x817 (ucast v))"
proof -
  have st: "steady n (self, s', log)" by (rule session_steady [OF board_ports [OF assms(1)] assms(2)])
  have se: "selected n (self, s', log)" by (rule session_selected [OF board_ports [OF assms(1)] assms(2)])
  from st have ok: "frontend_ok n self" by (simp add: steady_def core_def)
  from st se show ?thesis
    using port_registers [OF ok] stream_reg [OF ok]
    by (simp add: steady_def core_def in_step_def port_in_step_def in_sync_def downscale_in_step_def
        selected_def stream_ok_def)
qed

definition ready_board :: "unit register_interface" where
  "ready_board = \<lparr>ri_read = (\<lambda>a s. (0xf, s)), ri_write = (\<lambda>a v s. s)\<rparr>"

lemma two_ports: "frontend_of_board PN_MICROENABLE6_CXP12_IC_2C 0 = Some (2, True)"
  by (simp add: frontend_of_board_def)

theorem cxp_registers_follow_states_witness:
  "\<exists>self s log. camera_session (logged ready_board) (\<lambda>_. 3) (2, True)
       [Some (CAMERA_COMMAND_SET_PORT_DATA_PATH_STATE, 0x500000000), Some (CAMERA_COMMAND_SET_PORT_MAP, 0x7654320176543201)]
       ((), []) = Some (self, s, log)
     \<and> holds log 0x801 (reset_ctrl_value self) \<and> holds log 0x806 (standard_ctrl_value self)"
proof -
  obtain self s log where c: "camera_session (logged ready_board) (\<lambda>_. 3) (2, True)
       [Some (CAMERA_COMMAND_SET_PORT_DATA_PATH_STATE, 0x500000000), Some (CAMERA_COMMAND_SET_PORT_MAP, 0x7654320176543201)]
       ((), []) = Some (self, s, log)"
    using session_sound(1) [of 2 "logged ready_board" "\<lambda>_. 3" True
        "[Some (CAMERA_COMMAND_SET_PORT_DATA_PATH_STATE, 0x500000000), Some (CAMERA_COMMAND_SET_PORT_MAP, 0x7654320176543201)]" "((), [])"]
    by (auto simp: port_count_def undefined_call_def undefined_shift_def)
  show ?thesis using c cxp_registers_follow_states [OF two_ports c] by blast
qed

text \<open>
  C19: A new port map keeps the states of the ports: after the command every physical port has the data
  path state it had, and the logical port that the new map gives it has the state of the data path, the
  version of the standard, the state of the acquisition and the downscaling that its logical port had
  under the old map.
\<close>

theorem cxp_remap_keeps_port_states:
  assumes "frontend_of_board board dsn = Some (n, b)"
    "camera_session ri patience (n, b) inputs s = Some (self, s1)"
    "m \<in> set (port_maps self)" "m \<noteq> CXP_PORT_MAP_INVALID"
  shows "\<exists>self' s'. do_camera_control ri patience (Some (CAMERA_COMMAND_SET_PORT_MAP, m)) (Some (self, s1))
      = Some (0, False, Some (self', s'))
    \<and> current_port_map self' = m
    \<and> (\<forall>p < num_ports self.
         data_path_state_physical_cache (port_of self' p) = data_path_state_physical_cache (port_of self p)
       \<and> (let q = port_of self' (logical_of self' p); q0 = port_of self (logical_of self p)
          in data_path_state_logical_cache q = data_path_state_logical_cache q0
           \<and> standard_version_cache q = standard_version_cache q0
           \<and> acquisition_state_cache q = acquisition_state_cache q0
           \<and> camera_downscale_state_cache q = camera_downscale_state_cache q0))"
proof -
  note n = board_ports [OF assms(1)]
  have sd: "sound n self" using session_sound(1) [OF n, of ri patience b inputs s] assms(2) by auto
  then have S: "frontend_ok n self" "live n self" "in_sync self" by (simp_all add: sound_def)
  have "valid_map n m" using assms(3,4) frontend_okD(14) [OF S(1)] n by (simp add: valid_map_iff)
  from set_port_map_moves [OF S this, of ri patience s1] obtain self' s'
    where m: "cxp_set_port_map ri patience m (self, s1) = Some (0, self', s')" and mv: "moved n self m UNIV self'" by blast
  have "view (port_of self' (logical_of self' p)) = view (port_of self (logical_of self p))" if "p < num_ports self" for p
    using mv that in_sync_states [OF S(3) that] by (simp add: moved_def)
  then show ?thesis using m mv
    by (simp add: do_camera_control_def cxp_execute_command_def moved_def Let_def view_def)
qed

theorem cxp_remap_keeps_port_states_witness:
  "\<exists>self s1 self' s'. camera_session ready_board (\<lambda>_. 3) (2, True) [] () = Some (self, s1)
     \<and> do_camera_control ready_board (\<lambda>_. 3) (Some (CAMERA_COMMAND_SET_PORT_MAP, 0x7654320176543201)) (Some (self, s1))
       = Some (0, False, Some (self', s'))
     \<and> current_port_map self' = 0x7654320176543201"
proof -
  obtain self s1 where c: "camera_session ready_board (\<lambda>_. 3) (2, True) [] () = Some (self, s1)" and sd: "sound 2 self"
    using session_sound(1) [of 2 ready_board "\<lambda>_. 3" True "[]" "()"] by (auto simp: port_count_def)
  have "frontend_ok 2 self" using sd by (simp add: sound_def)
  then have "0x7654320176543201 \<in> set (port_maps self)"
    using frontend_okD(14) [of 2 self] by (simp add: port_maps_of_def cxp_port_maps_2ch_def)
  from cxp_remap_keeps_port_states [OF two_ports c this] c show ?thesis by auto
qed

text \<open>
  C20: Every sequence of camera control calls on an opened board is served, except one: on the board of
  five ports a change of the downscaling to more than one connection shifts by a negative number. No
  other call, valid or not, reads or writes outside the arrays of the ports and of the maps.
\<close>

theorem cxp_calls_are_served:
  assumes "frontend_of_board board dsn = Some (n, b)"
  shows "(\<exists>c. camera_session ri patience (n, b) inputs s = Some c) \<longleftrightarrow>
    \<not> (n = 5 \<and> (\<exists>args. Some (CAMERA_COMMAND_SET_PORT_CXP_CAMERA_DOWNSCALING, args) \<in> set inputs
          \<and> unat (arg_port args) < 5 \<and> 1 < arg_param args \<and> arg_param args \<le> 4))"
proof -
  have "undefined_call n i \<longleftrightarrow> n = 5 \<and> (\<exists>args. i = Some (CAMERA_COMMAND_SET_PORT_CXP_CAMERA_DOWNSCALING, args)
      \<and> unat (arg_port args) < 5 \<and> 1 < arg_param args \<and> arg_param args \<le> 4)" for i
    by (auto simp: undefined_call_def undefined_shift_def split: option.splits)
  then have e: "(\<exists>i \<in> set inputs. undefined_call n i) \<longleftrightarrow>
      n = 5 \<and> (\<exists>args. Some (CAMERA_COMMAND_SET_PORT_CXP_CAMERA_DOWNSCALING, args) \<in> set inputs
          \<and> unat (arg_port args) < 5 \<and> 1 < arg_param args \<and> arg_param args \<le> 4)" by auto
  note S = session_sound [OF board_ports [OF assms], where ri = ri and pat = patience and b = b and inputs = inputs and s = s]
  show ?thesis unfolding e [symmetric]
    using S by (cases "\<exists>i \<in> set inputs. undefined_call n i") (simp, blast)
qed

theorem cxp_calls_are_served_witness:
  "\<not> (\<exists>c. camera_session ready_board (\<lambda>_. 3) (5, False) [Some (CAMERA_COMMAND_SET_PORT_CXP_CAMERA_DOWNSCALING, 0x200000000)] () = Some c)"
proof -
  have "frontend_of_board PN_MICROENABLE6_IMAFLEX_CXP12_PENTA 0 = Some (5, False)"
    by (simp add: frontend_of_board_def ME6_IMPULSE_CXP_SUPPORTS_IDLE_VIOLATION_FIX_def static_version_greater_equal_def)
  moreover have "arg_port 0x200000000 = 0" "arg_param 0x200000000 = 2" by (simp_all add: arg_port_def arg_param_def)
  ultimately show ?thesis
    using cxp_calls_are_served [of PN_MICROENABLE6_IMAFLEX_CXP12_PENTA 0 5 False ready_board "\<lambda>_. 3"
      "[Some (CAMERA_COMMAND_SET_PORT_CXP_CAMERA_DOWNSCALING, 0x200000000)]" "()"] by auto
qed

text \<open>
  A change of the speed that was written to the device but timed out is reported only once: the
  same command again answers success without an access to the device.
\<close>

theorem repeated_speed_change_hides_timeout:
  assumes "cxp_set_port_data_path_speed ri patience p x (self, s) = Some (CXP_FRONTEND_ERROR_TIMEOUT, self1, s1)"
    "in_ports self p" "data_path_dw_speed_cache (port_of self1 p) \<noteq> data_path_dw_speed_cache (port_of self p)"
  shows "cxp_set_port_data_path_speed ri patience p x (self1, s2) = Some (0, self1, s2)"
proof -
  let ?l = "logical_of self p"
  let ?w = "cxp_wait_port_data_path_speed_change_done ri patience p (self, s)"
  let ?d = "set_downlink ri patience p x (snd ?w)"
  let ?self = "upd_port p (\<lambda>q. q\<lparr>data_path_dw_speed_cache := x\<rparr>) self"
  have w: "fst (snd ?w) = self" using wait_self [of ri patience p "(self, s)"] by simp
  from assms(1,3) have ok: "p < num_ports self" "valid_speed x" "in_ports self ?l"
    by (auto simp: cxp_set_port_data_path_speed_def Let_def case_prod_beta w split: if_splits)
  have s1: "(self1, s1) = set_uplink ri ?l (uplink_of x) (snd ?d)"
    using assms(1,3) w by (auto simp: cxp_set_port_data_path_speed_def Let_def case_prod_beta split: if_splits)
  have up: "fst (set_uplink ri ?l u c) = (if u \<noteq> data_path_up_speed_cache (port_of (fst c) ?l)
      then upd_port ?l (\<lambda>q. q\<lparr>data_path_up_speed_cache := u\<rparr>) (fst c) else fst c)" for u c
    by (simp add: set_uplink_def cxp_update_standard_ctrl_register_def case_prod_beta)
  have "fst (snd ?d) = (if x \<noteq> data_path_dw_speed_cache (port_of self p) then ?self else self)"
    by (simp add: set_downlink_def case_prod_beta wait_self w)
  then have self1: "self1 = (let c = (if x \<noteq> data_path_dw_speed_cache (port_of self p) then ?self else self)
     in if uplink_of x \<noteq> data_path_up_speed_cache (port_of c ?l)
        then upd_port ?l (\<lambda>q. q\<lparr>data_path_up_speed_cache := uplink_of x\<rparr>) c else c)"
    using arg_cong [OF s1, of fst] up [of "uplink_of x" "snd ?d"] by (simp add: Let_def)
  have "data_path_dw_speed_cache (port_of self1 p) = x \<and> data_path_up_speed_cache (port_of self1 ?l) = uplink_of x
      \<and> num_ports self1 = num_ports self \<and> logical_of self1 p = ?l \<and> in_ports self1 ?l"
    unfolding self1 Let_def using assms(2) ok(3) by (auto simp: port_of_upd)
  with ok show ?thesis by (simp add: cxp_set_port_data_path_speed_def Let_def not_le)
qed

text \<open>A device whose link is ready until it is written to.\<close>

definition lost_link :: "bool register_interface" where
  "lost_link = \<lparr>ri_read = (\<lambda>a s. (if s then 1 else 0, s)), ri_write = (\<lambda>a v s. False)\<rparr>"

lemma lost_link_wait:
  "cxp_wait_port_data_path_speed_change_done lost_link (\<lambda>_. 1) 0 (c, t) = (if t then 0 else CXP_FRONTEND_ERROR_TIMEOUT, c, t)"
  by (simp add: cxp_wait_port_data_path_speed_change_done_def lost_link_def)

lemma lost_link_speed:
  assumes "num_ports c = 1" "logical_of c 0 = 0" "in_ports c 0" "data_path_dw_speed_cache (port_of c 0) = 0"
  shows "\<exists>c1. cxp_set_port_data_path_speed lost_link (\<lambda>_. 1) 0 3125 (c, True) = Some (CXP_FRONTEND_ERROR_TIMEOUT, c1, False)
    \<and> data_path_dw_speed_cache (port_of c1 0) = 3125"
proof -
  have w: "ri_write lost_link a v t = False" for a v t by (simp add: lost_link_def)
  show ?thesis using assms
    by (simp add: cxp_set_port_data_path_speed_def Let_def lost_link_wait w valid_speed_def set_downlink_def set_uplink_def
        cxp_update_standard_ctrl_register_def port_of_upd case_prod_beta del: One_nat_def)
qed

theorem repeated_speed_change_hides_timeout_witness:
  "\<exists>self1. cxp_set_port_data_path_speed lost_link (\<lambda>_. 1) 0 3125 ((cxp_frontend_init 1 False)\<lparr>port_map_index := 0\<rparr>, True)
       = Some (CXP_FRONTEND_ERROR_TIMEOUT, self1, False)
     \<and> cxp_set_port_data_path_speed lost_link (\<lambda>_. 1) 0 3125 (self1, False) = Some (0, self1, False)"
proof -
  let ?self = "(cxp_frontend_init 1 False)\<lparr>port_map_index := 0\<rparr>"
  have l: "logical_of ?self 0 = 0"
    by (simp add: logical_of_def current_port_map_def cxp_frontend_init_def port_maps_of_def cxp_port_maps_1ch_def
        cxp_get_logical_port_number_from_port_map_def)
  have s: "num_ports ?self = 1" "in_ports ?self 0" "data_path_dw_speed_cache (port_of ?self 0) = 0"
    by (simp_all add: cxp_frontend_init_def in_ports_def port_of_def cxp_port_init_def)
  obtain self1 where 1: "cxp_set_port_data_path_speed lost_link (\<lambda>_. 1) 0 3125 (?self, True)
      = Some (CXP_FRONTEND_ERROR_TIMEOUT, self1, False)" "data_path_dw_speed_cache (port_of self1 0) = 3125"
    using lost_link_speed [OF s(1) l s(2,3)] by blast
  show ?thesis using repeated_speed_change_hides_timeout [OF 1(1) s(2), of False] 1 s(3) by auto
qed

end
