(* ===== verification/Uiq_Cuts.thy ===== *)
theory Uiq_Cuts
  imports Uiq_Device_Props
begin

text \<open>
  How the words of an event stream are cut into interrupts. Each interrupt starts without a timestamp
  and reads the clock once, when a word asks for one; so the words of a packet that is cut get the
  times of the interrupts they come with, and nothing else depends on the cut.
\<close>

section \<open>Interrupts and stamped words\<close>

text \<open>
  The event interrupts of a board, one after the other: the number of words that each announces, the
  time its clock reads, and what the uninitialised variable for the timestamp holds.
\<close>

record event_irq =
  irq_words :: nat
  irq_now :: uiq_timestamp
  irq_garbage :: uiq_timestamp

fun event_irqs :: "'hw register_interface \<Rightarrow> event_irq list \<Rightarrow> 'hw uiq_board \<Rightarrow> 'hw uiq_board option" where
  "event_irqs ri [] b = Some b"
| "event_irqs ri (e # es) b =
     Option.bind (process_uiq_data ri (irq_now e) (irq_words e) b (irq_garbage e, False))
       (\<lambda>(b1, s). event_irqs ri es b1)"

text \<open>One word at a time, each with the time of its interrupt.\<close>

definition stamped_step ::
    "'hw register_interface \<Rightarrow> uiq_timestamp \<Rightarrow> 'hw uiq_board \<Rightarrow> 'hw uiq_board option" where
  "stamped_step ri t b = map_option fst (word_step ri t (b, (t, True)))"

fun stamped_words ::
    "'hw register_interface \<Rightarrow> uiq_timestamp list \<Rightarrow> 'hw uiq_board \<Rightarrow> 'hw uiq_board option" where
  "stamped_words ri [] b = Some b"
| "stamped_words ri (t # ts) b = Option.bind (stamped_step ri t b) (stamped_words ri ts)"

definition stamps :: "event_irq list \<Rightarrow> uiq_timestamp list" where
  "stamps es = concat (map (\<lambda>e. replicate (irq_words e) (irq_now e)) es)"

lemma stamped_words_append:
  "stamped_words ri (ts @ us) b = Option.bind (stamped_words ri ts b) (stamped_words ri us)"
proof (induction ts arbitrary: b)
  case (Cons t ts)
  then show ?case by (cases "stamped_step ri t b") simp_all
qed simp

section \<open>The state of the timestamp\<close>

text \<open>Not read yet, or read in this interrupt.\<close>

definition same_clock :: "uiq_timestamp \<Rightarrow> ts_state \<Rightarrow> bool" where
  "same_clock now s \<longleftrightarrow> snd s = False \<or> s = (now, True)"

lemma clock_word:
  assumes "same_clock now s"
  shows "fst (write_word_with_dataloss_flag_if_applicable now q w s)
      = fst (write_word_with_dataloss_flag_if_applicable now q w (now, True))
    \<and> same_clock now (snd (write_word_with_dataloss_flag_if_applicable now q w s))"
  using assms by (auto simp: write_word_with_dataloss_flag_if_applicable_def Let_def same_clock_def
      init_timestamp_if_uninitialized_def)

lemma clock_grabber:
  assumes "same_clock now s"
  shows "fst (write_from_grabber now q w s) = fst (write_from_grabber now q w (now, True))
    \<and> same_clock now (snd (write_from_grabber now q w s))"
  using assms clock_word [OF assms, of q w]
  by (auto simp: write_from_grabber_legacy_def write_from_grabber_va_event_def case_prod_beta Let_def
      split: uiq_protocol.splits)

lemma clock_pop:
  assumes "same_clock now s" "men_uiq_pop ri now u b s = (m, u1, b1, s1)"
  shows "same_clock now s1 \<and> (\<exists>m' s2. men_uiq_pop ri now u b (now, True) = (m', u1, b1, s2))"
proof -
  let ?w = "fst (men_fetch_next_incoming_uiq_word ri (data_register_offset (base u)) b)"
  from clock_grabber [OF assms(1), of "base u" ?w] assms(2) show ?thesis
    by (auto simp: men_uiq_pop_def case_prod_beta Let_def simp del: write_from_grabber.simps)
qed

lemma clock_step:
  assumes "same_clock now s"
  shows "map_option fst (word_step ri now (b, s)) = stamped_step ri now b
    \<and> (\<forall>c s1. word_step ri now (b, s) = Some (c, s1) \<longrightarrow> same_clock now s1)"
proof -
  have p: "same_clock now (snd (snd (snd (men_uiq_pop ri now u b s))))
      \<and> fst (snd (men_uiq_pop ri now u b (now, True))) = fst (snd (men_uiq_pop ri now u b s))
      \<and> fst (snd (snd (men_uiq_pop ri now u b (now, True)))) = fst (snd (snd (men_uiq_pop ri now u b s)))" for u
    using clock_pop [OF assms, of ri u b] by (cases "men_uiq_pop ri now u b s") fastforce
  then show ?thesis using assms
    by (auto simp: word_step_def stamped_step_def Let_def case_prod_beta split: option.splits) (metis p)
qed

lemma clock_steps:
  assumes "same_clock now s"
  shows "map_option fst (word_steps ri now n (b, s)) = stamped_words ri (replicate n now) b"
  using assms
proof (induction n arbitrary: b s)
  case (Suc n)
  note c = clock_step [OF Suc.prems, of ri b]
  show ?case
  proof (cases "word_step ri now (b, s)")
    case None
    then show ?thesis using c by simp
  next
    case (Some cs)
    then have "stamped_step ri now b = Some (fst cs)" "same_clock now (snd cs)"
      using c by (cases cs; auto)+
    with Some Suc.IH [of "snd cs" "fst cs"] show ?thesis by simp
  qed
qed simp

section \<open>Interrupts are stamped words\<close>

lemma plain_stamped_step: "map_option plain (stamped_step ri t (plain b)) = map_option plain (stamped_step ri t b)"
  using plain_step [of ri t b "(t, True)"]
  by (cases "word_step ri t (b, (t, True))"; cases "word_step ri t (plain b, (t, True))")
    (auto simp: stamped_step_def plain_res_def)

lemma plain_stamped:
  assumes "plain b = plain b'"
  shows "map_option plain (stamped_words ri ts b) = map_option plain (stamped_words ri ts b')"
  using assms
proof (induction ts arbitrary: b b')
  case (Cons t ts)
  have e: "map_option plain (stamped_step ri t b) = map_option plain (stamped_step ri t b')"
    using plain_stamped_step [of ri t b] plain_stamped_step [of ri t b'] by (simp only: Cons.prems)
  then consider "stamped_step ri t b = None" "stamped_step ri t b' = None"
    | c c' where "stamped_step ri t b = Some c" "stamped_step ri t b' = Some c'" "plain c = plain c'"
    by (auto simp: map_option_case split: option.splits)
  then show ?case
  proof cases
    case 2
    with Cons.IH [OF 2(3)] show ?thesis by simp
  qed simp
qed simp

lemma process_stamped:
  "map_option plain (map_option fst (process_uiq_data ri now n b (x, False)))
     = map_option plain (stamped_words ri (replicate n now) b)"
proof -
  have "map_option fst (plain_res r) = map_option plain (map_option fst r)" for r :: "('a uiq_board \<times> ts_state) option"
    by (cases r) (auto simp: plain_res_def)
  moreover have "same_clock now (x, False)" by (simp add: same_clock_def)
  ultimately show ?thesis
    using process_word_steps [of ri now n b "(x, False)"] clock_steps [of now "(x, False)" ri n b] by metis
qed

lemma irqs_stamped:
  "map_option plain (event_irqs ri es b) = map_option plain (stamped_words ri (stamps es) b)"
proof (induction es arbitrary: b)
  case (Cons e es)
  let ?p = "process_uiq_data ri (irq_now e) (irq_words e) b (irq_garbage e, False)"
  let ?q = "stamped_words ri (replicate (irq_words e) (irq_now e)) b"
  have q: "map_option plain (map_option fst ?p) = map_option plain ?q" by (rule process_stamped)
  have s: "stamped_words ri (stamps (e # es)) b = Option.bind ?q (stamped_words ri (stamps es))"
    by (simp add: stamps_def stamped_words_append)
  show ?case
  proof (cases ?p)
    case None
    then show ?thesis using q s by simp
  next
    case (Some c)
    then obtain d where "?q = Some d" "plain (fst c) = plain d" using q by (cases ?q) auto
    then show ?thesis
      using Some s Cons.IH [of "fst c"] plain_stamped [of "fst c" d ri "stamps es"] by (simp add: case_prod_beta)
  qed
qed (simp add: stamps_def)

section \<open>Two clocks\<close>

text \<open>
  Words that are equal, or the same part of two timestamps taken at the same word of the stream; the
  last part may carry the end of the transmission.
\<close>

definition stamp_parts :: "uiq_timestamp \<Rightarrow> u32 list" where
  "stamp_parts t = ts_words t @ [ts3 t OR UIQ_CONTROL_EOT]"

definition same_word :: "(uiq_timestamp \<times> uiq_timestamp) list \<Rightarrow> u32 \<Rightarrow> u32 \<Rightarrow> bool" where
  "same_word P x y \<longleftrightarrow> x = y \<or> (\<exists>(t, t') \<in> set P. (x, y) \<in> set (zip (stamp_parts t) (stamp_parts t')))"

text \<open>
  Queues, and boards, that differ in counters and completions and in the parts of timestamps only; a
  write queue has no timestamps.
\<close>

definition same_base :: "(uiq_timestamp \<times> uiq_timestamp) list \<Rightarrow> uiq_base \<Rightarrow> uiq_base \<Rightarrow> bool" where
  "same_base P p q \<longleftrightarrow> p\<lparr>irq_count := irq_count q, uiq_data := uiq_data q\<rparr> = q
     \<and> list_all2 (same_word P) (uiq_data p) (uiq_data q)
     \<and> (if UIQ_TYPE_IS_WRITE (uiq_type_of p) then uiq_data p = uiq_data q else True)"

definition same_uiq :: "(uiq_timestamp \<times> uiq_timestamp) list \<Rightarrow> menable_uiq \<Rightarrow> menable_uiq \<Rightarrow> bool" where
  "same_uiq P u v \<longleftrightarrow> u\<lparr>base := base v, cpl := cpl v\<rparr> = v \<and> same_base P (base u) (base v)"

definition same_board :: "(uiq_timestamp \<times> uiq_timestamp) list \<Rightarrow> 'hw uiq_board \<Rightarrow> 'hw uiq_board \<Rightarrow> bool" where
  "same_board P b c \<longleftrightarrow> b\<lparr>uiqs := uiqs c\<rparr> = c \<and> list_all2 (rel_option (same_uiq P)) (uiqs b) (uiqs c)"

lemma same_word_refl [simp]: "same_word P x x"
  by (simp add: same_word_def)

lemma same_words_refl [simp]: "list_all2 (same_word P) xs xs"
  by (simp add: list_all2_refl)

text \<open>The queue operations on read queues whose words correspond.\<close>

definition similar :: "(uiq_timestamp \<times> uiq_timestamp) list \<Rightarrow> uiq_base \<Rightarrow> uiq_base \<Rightarrow> bool" where
  "similar P p q \<longleftrightarrow> p\<lparr>irq_count := irq_count q, uiq_data := uiq_data q\<rparr> = q \<and> list_all2 (same_word P) (uiq_data p) (uiq_data q)"

lemma similar_same: "\<not> UIQ_TYPE_IS_WRITE (uiq_type_of p) \<Longrightarrow> similar P p q \<longleftrightarrow> same_base P p q"
  by (simp add: similar_def same_base_def)

lemma similar_push_word:
  "similar P p q \<Longrightarrow> same_word P w w' \<Longrightarrow> similar P (push_word w p) (push_word w' q)"
  by (cases p; cases q) (simp add: similar_def push_word_def Let_def list_all2_update_cong)

lemma similar_push_words:
  assumes "list_all2 (same_word P) ws vs" "similar P p q"
  shows "similar P (fold push_word ws p) (fold push_word vs q)"
  using assms by (induction arbitrary: p q rule: list_all2_induct) (simp_all add: similar_push_word)

lemma similar_fields:
  assumes "similar P p q"
  shows "capacity q = capacity p" "fill q = fill p" "uiq_type_of q = uiq_type_of p" "uiq_id q = uiq_id p"
    "read_protocol q = read_protocol p" "data_register_offset q = data_register_offset p"
    "last_words_were_lost q = last_words_were_lost p" "last_word_was_eop q = last_word_was_eop p"
    "lost_words_count q = lost_words_count p"
  using assms by (cases p; cases q; simp add: similar_def)+

lemma similar_upd:
  assumes "similar P p q"
  shows "similar P (p\<lparr>last_words_were_lost := x\<rparr>) (q\<lparr>last_words_were_lost := x\<rparr>)"
    "similar P (p\<lparr>last_word_was_eop := x\<rparr>) (q\<lparr>last_word_was_eop := x\<rparr>)"
    "similar P (record_discarded_words p k) (record_discarded_words q k)"
  using assms by (cases p; cases q; simp add: similar_def record_discarded_words_def)+

lemma similar_push_back:
  assumes "similar P p q" "list_all2 (same_word P) ws vs"
  shows "similar P (snd (push_back p ws)) (snd (push_back q vs))"
proof -
  have l: "length vs = length ws" using assms(2) by (simp add: list_all2_lengthD)
  have "similar P (fold push_word (take k ws) p) (fold push_word (take k vs) q)" for k
    using assms by (intro similar_push_words list_all2_takeI)
  then show ?thesis
    by (simp add: push_back_def Let_def l similar_fields [OF assms(1)] similar_upd)
qed

lemma similar_stamped:
  assumes "similar P p q" "(t, t') \<in> set P"
  shows "similar P (snd (push_back_decorated_with_timestamp p w t)) (snd (push_back_decorated_with_timestamp q w t'))"
proof -
  have "same_word P x y" if "(x, y) \<in> set (zip (stamp_parts t) (stamp_parts t'))" for x y
    using that assms(2) by (auto simp: same_word_def)
  then have "same_word P (ts0 t) (ts0 t')" "same_word P (ts1 t) (ts1 t')" "same_word P (ts2 t) (ts2 t')"
    "same_word P (ts3 t) (ts3 t')" "same_word P (ts3 t OR UIQ_CONTROL_EOT) (ts3 t' OR UIQ_CONTROL_EOT)"
    by (simp_all add: stamp_parts_def ts_words_def)
  then show ?thesis
    using similar_push_back [OF assms(1)]
    by (simp add: push_back_decorated_with_timestamp_def push_back_decorated_with_timestamp_unchecked_def
        get_free_capacity_def similar_fields [OF assms(1)] Let_def)
qed

lemma similar_word:
  assumes "similar P p q" "(t, t') \<in> set P"
  shows "similar P (fst (write_word_with_dataloss_flag_if_applicable t p w (t, True)))
     (fst (write_word_with_dataloss_flag_if_applicable t' q w (t', True)))"
  using similar_stamped [OF assms] similar_push_back [OF assms(1)]
  by (simp add: write_word_with_dataloss_flag_if_applicable_def similar_fields [OF assms(1)] Let_def
      init_timestamp_if_uninitialized_def)

lemma similar_grabber:
  assumes "similar P p q" "(t, t') \<in> set P"
  shows "similar P (fst (write_from_grabber t p w (t, True))) (fst (write_from_grabber t' q w (t', True)))"
  using similar_word [OF assms, of w] similar_push_back [OF assms(1), of "[w]" "[w]"] similar_upd [OF assms(1)] assms(1)
  by (auto simp: write_from_grabber_raw_def write_from_grabber_legacy_def write_from_grabber_va_event_def
      similar_fields [OF assms(1)] case_prod_beta Let_def similar_upd split: uiq_protocol.splits)

text \<open>Boards.\<close>

lemma same_uiq_plain: "same_uiq P (plain_uiq u) (plain_uiq v) = same_uiq P u v"
proof -
  obtain q r where "q = base u" "r = base v" by simp
  then show ?thesis
    by (cases q; cases r; cases u; cases v) (auto simp: same_uiq_def same_base_def plain_uiq_def)
qed

lemma same_board_plain: "same_board P (plain b) (plain c) = same_board P b c"
proof -
  have "rel_option (same_uiq P) (map_option plain_uiq x) (map_option plain_uiq y) = rel_option (same_uiq P) x y" for x y
    by (cases x; cases y) (simp_all add: same_uiq_plain)
  then show ?thesis
    by (cases b; cases c) (simp add: same_board_def plain_def list_all2_map1 list_all2_map2)
qed

lemma same_board_refl [simp]: "same_board P b b"
proof -
  have "same_uiq P u u" for u by (simp add: same_uiq_def same_base_def)
  then show ?thesis by (simp add: same_board_def list_all2_refl option.rel_refl)
qed

lemma same_uiqD:
  assumes "same_uiq P u v"
  shows "uiq_id (base v) = uiq_id (base u)" "uiq_type_of (base v) = uiq_type_of (base u)"
    "data_register_offset (base v) = data_register_offset (base u)" "cpltodo v = cpltodo u"
    "UIQ_TYPE_IS_WRITE (uiq_type_of (base u)) \<Longrightarrow> plain_uiq u = plain_uiq v"
proof -
  have S: "v = u\<lparr>base := base v, cpl := cpl v\<rparr>" "base v = (base u)\<lparr>irq_count := irq_count (base v), uiq_data := uiq_data (base v)\<rparr>"
    and d: "UIQ_TYPE_IS_WRITE (uiq_type_of (base u)) \<Longrightarrow> uiq_data (base v) = uiq_data (base u)"
    using assms by (simp_all add: same_uiq_def same_base_def)
  then obtain n ds k where v: "v = u\<lparr>base := (base u)\<lparr>irq_count := n, uiq_data := ds\<rparr>, cpl := k\<rparr>" by metis
  show "uiq_id (base v) = uiq_id (base u)" "uiq_type_of (base v) = uiq_type_of (base u)"
    "data_register_offset (base v) = data_register_offset (base u)" "cpltodo v = cpltodo u"
    by (simp_all add: v)
  show "plain_uiq u = plain_uiq v" if "UIQ_TYPE_IS_WRITE (uiq_type_of (base u))"
    using d [OF that] by (simp add: v plain_uiq_def)
qed

lemma same_boardD:
  assumes "same_board P b c"
  shows "uiq_transfer c = uiq_transfer b" "ub_hw c = ub_hw b" "msg_dma_mem c = msg_dma_mem b"
    "num_active_uiqs c = num_active_uiqs b" "rel_option (same_uiq P) (uiq_of i b) (uiq_of i c)"
    "length (uiqs c) = length (uiqs b)"
proof -
  have l: "list_all2 (rel_option (same_uiq P)) (uiqs b) (uiqs c)" using assms by (simp add: same_board_def)
  then show "length (uiqs c) = length (uiqs b)" "rel_option (same_uiq P) (uiq_of i b) (uiq_of i c)"
    by (auto simp: uiq_of_def list_all2_conv_all_nth)
  show "uiq_transfer c = uiq_transfer b" "ub_hw c = ub_hw b" "msg_dma_mem c = msg_dma_mem b"
    "num_active_uiqs c = num_active_uiqs b"
    using assms by (cases b; cases c; simp add: same_board_def)+
qed

lemma same_board_upd:
  assumes "same_board P b c"
  shows "same_board P (upd_transfer f b) (upd_transfer f c)" "same_board P (b\<lparr>ub_hw := h\<rparr>) (c\<lparr>ub_hw := h\<rparr>)"
    "same_uiq P u v \<Longrightarrow> same_board P (put_uiq i u b) (put_uiq i v c)"
  using assms by (cases b; cases c; simp add: same_board_def upd_transfer_def put_uiq_def list_all2_update_cong)+

lemma same_fetch:
  assumes "same_board P b c"
  shows "fst (men_fetch_next_incoming_uiq_word ri a c) = fst (men_fetch_next_incoming_uiq_word ri a b)"
    "same_board P (snd (men_fetch_next_incoming_uiq_word ri a b)) (snd (men_fetch_next_incoming_uiq_word ri a c))"
  using same_board_upd(2) [OF assms] same_board_upd(1) [OF assms, of "\<lambda>t. t\<lparr>read_ptr := read_ptr t + 1\<rparr>"]
  by (simp_all add: men_fetch_next_incoming_uiq_word_def same_boardD [OF assms] case_prod_beta Let_def upd_transfer_def
      split: option.split)

lemma same_find:
  assumes "same_board P b c"
  shows "find_uiq x c = find_uiq x b"
proof -
  have "(case uiq_of i c of None \<Rightarrow> False | Some u \<Rightarrow> uiq_id (base u) = x)
      = (case uiq_of i b of None \<Rightarrow> False | Some u \<Rightarrow> uiq_id (base u) = x)" for i
    using same_boardD(5) [OF assms, of i] by (auto simp: same_uiqD elim!: option.rel_cases)
  then show ?thesis by (simp add: find_uiq_def same_boardD [OF assms])
qed

lemma same_header:
  assumes "same_board P b c"
  shows "same_board P (take_header ri b) (take_header ri c)"
  using same_fetch [OF assms, of ri ME6_REG_IRQ_EVENT_DATA] same_find [OF same_fetch(2) [OF assms]]
  by (simp add: take_header_def case_prod_beta Let_def same_board_upd)

lemma same_done:
  assumes "same_board P b c" "plain_uiq u = plain_uiq v"
  shows "same_board P (write_packet_done ri i u b) (write_packet_done ri i v c)"
proof -
  have f: "fill (base v) = fill (base u)" using assms(2) by (metis plain_uiq_sel(3))
  have eq: "same_uiq P x y" if "plain_uiq x = plain_uiq y" for x y
    using that same_uiq_plain [of P x y] same_uiq_plain [of P y y] by (simp add: same_uiq_def same_base_def)
  obtain m u1 h m' v1 h' where p: "men_uiq_push ri u (ub_hw b) = (m, u1, h)" "men_uiq_push ri v (ub_hw b) = (m', v1, h')"
    by (cases "men_uiq_push ri u (ub_hw b)"; cases "men_uiq_push ri v (ub_hw b)") auto
  have "plain_uiq u1 = plain_uiq v1 \<and> h' = h"
    using plain_push [of ri u "ub_hw b"] plain_push [of ri v "ub_hw b"] assms(2) by (simp add: p case_prod_beta)
  moreover have "plain_uiq (stop_queue u) = plain_uiq (stop_queue v)" using assms(2) by (metis plain_uiq_idem(2))
  ultimately show ?thesis
    by (simp add: write_packet_done_def f p same_boardD [OF assms(1)] same_board_upd assms(1) eq)
qed

lemma same_pop:
  assumes "same_board P b c" "same_uiq P u v" "\<not> UIQ_TYPE_IS_WRITE (uiq_type_of (base u))" "(t, t') \<in> set P"
    "men_uiq_pop ri t u b (t, True) = (m, u1, b1, s1)" "men_uiq_pop ri t' v c (t', True) = (m', v1, c1, s2)"
  shows "same_uiq P u1 v1 \<and> same_board P b1 c1"
proof -
  let ?w = "men_fetch_next_incoming_uiq_word ri (data_register_offset (base u)) b"
  have "similar P (base u) (base v)" using assms(2,3) by (simp add: same_uiq_def similar_same)
  then have q: "similar P (fst (write_from_grabber t (base u) (fst ?w) (t, True)))
      (fst (write_from_grabber t' (base v) (fst ?w) (t', True)))" by (rule similar_grabber [OF _ assms(4)])
  have u1: "u1 = u\<lparr>base := fst (write_from_grabber t (base u) (fst ?w) (t, True))\<rparr>" "b1 = snd ?w"
    using assms(5) by (simp_all add: men_uiq_pop_def case_prod_beta Let_def del: write_from_grabber.simps)
  have v1: "v1 = v\<lparr>base := fst (write_from_grabber t' (base v) (fst ?w) (t', True))\<rparr>"
    "c1 = snd (men_fetch_next_incoming_uiq_word ri (data_register_offset (base u)) c)"
    using assms(6) same_fetch(1) [OF assms(1)] same_uiqD(3) [OF assms(2)]
    by (simp_all add: men_uiq_pop_def case_prod_beta Let_def del: write_from_grabber.simps)
  have "same_base P (base u1) (base v1)"
    using q assms(3) type_grabber [of t "base u" "fst ?w" "(t, True)"]
    by (simp add: similar_same u1 v1 del: write_from_grabber.simps)
  then have "same_uiq P u1 v1" using assms(2) u1(1) v1(1) by (cases u; cases v) (simp add: same_uiq_def)
  then show ?thesis using same_fetch(2) [OF assms(1)] u1 v1 by simp
qed

lemma same_step:
  assumes "same_board P b c" "(t, t') \<in> set P"
  shows "rel_option (same_board P) (stamped_step ri t b) (stamped_step ri t' c)"
proof (cases "remaining b = 0")
  case True
  then show ?thesis using same_header [OF assms(1), of ri] same_boardD(1) [OF assms(1)]
    by (simp add: stamped_step_def word_step_def)
next
  case rem: False
  let ?f = "\<lambda>b. dec_remaining (snd (men_fetch_next_incoming_uiq_word ri ME6_REG_IRQ_EVENT_DATA b))"
  note tr = same_boardD(1) [OF assms(1)]
  have f: "same_board P (?f b) (?f c)" by (intro same_board_upd same_fetch assms)
  show ?thesis
  proof (cases "current_uiq (uiq_transfer b)")
    case None
    then show ?thesis using rem tr f by (simp add: stamped_step_def word_step_def Let_def)
  next
    case cur: (Some i)
    from same_boardD(5) [OF assms(1), of i] show ?thesis
    proof (cases rule: option.rel_cases)
      case None
      then show ?thesis using rem tr cur by (simp add: stamped_step_def word_step_def Let_def)
    next
      case (Some u v)
      show ?thesis
      proof (cases "UIQ_TYPE_IS_WRITE (uiq_type_of (base u))")
        case True
        then show ?thesis
          using rem tr cur Some f same_done [OF f same_uiqD(5) [OF Some(3) True], of ri i] same_uiqD(2) [OF Some(3)]
          by (simp add: stamped_step_def word_step_def Let_def)
      next
        case False
        obtain m u1 b1 s1 m' v1 c1 s2 where p: "men_uiq_pop ri t u b (t, True) = (m, u1, b1, s1)"
          "men_uiq_pop ri t' v c (t', True) = (m', v1, c1, s2)"
          by (cases "men_uiq_pop ri t u b (t, True)"; cases "men_uiq_pop ri t' v c (t', True)") auto
        from same_pop [OF assms(1) Some(3) False assms(2) p] show ?thesis
          using rem tr cur Some False same_uiqD(2) [OF Some(3)] p
          by (simp add: stamped_step_def word_step_def Let_def same_board_upd)
      qed
    qed
  qed
qed

lemma same_words:
  assumes "list_all2 (\<lambda>t t'. (t, t') \<in> set P) ts us" "same_board P b c"
  shows "rel_option (same_board P) (stamped_words ri ts b) (stamped_words ri us c)"
  using assms
proof (induction arbitrary: b c rule: list_all2_induct)
  case (Cons t ts t' us)
  from same_step [OF Cons.prems Cons.hyps(1), of ri] show ?case
    using Cons.IH by (cases rule: option.rel_cases) simp_all
qed simp

lemma same_results_plain:
  assumes "map_option plain r = map_option plain r'" "map_option plain q = map_option plain q'"
  shows "rel_option (same_board P) r q = rel_option (same_board P) r' q'"
proof -
  have "rel_option (same_board P) x y = rel_option (same_board P) (map_option plain x) (map_option plain y)" for x y
    by (cases x; cases y) (simp_all add: same_board_plain)
  with assms show ?thesis by metis
qed

section \<open>The claim\<close>

lemma stamps_length: "length (stamps es) = sum_list (map irq_words es)"
  by (induction es) (simp_all add: stamps_def)

lemma stamps_one_clock: "stamps (map (\<lambda>e. e\<lparr>irq_now := t\<rparr>) es) = replicate (sum_list (map irq_words es)) t"
  by (induction es) (simp_all add: stamps_def replicate_add)

text \<open>
  C5: The words of an event stream come with interrupts, each of which starts without a timestamp and
  reads its own clock once, if a word asks for a timestamp. However they are cut, also within a packet,
  the batch loops of \<^verbatim>\<open>process_uiq_data\<close> do what a machine does that takes one word at a time (header,
  unknown packet, write queue and read queue words alike) and gives each the time of the interrupt it
  came with. So if all clocks read the same, the stream has the same effect as in a single interrupt.
  If they do not, the board still differs from that of a single interrupt in nothing but timestamps in
  read queues: only where the one has a part of the time of a word's interrupt, the other has the same
  part of the time of the single interrupt. In all three statements the interrupt counters of the
  queues and the number of their completions are left out, because a batch counts once, however many
  words it has. A packet for a queue that is gone makes both sides undefined.
\<close>

theorem event_stream_may_be_cut_anywhere:
  "map_option plain (event_irqs ri es b) = map_option plain (stamped_words ri (stamps es) b)
   \<and> map_option plain (event_irqs ri (map (\<lambda>e. e\<lparr>irq_now := now\<rparr>) es) b)
       = map_option plain (event_irqs ri [\<lparr>irq_words = sum_list (map irq_words es), irq_now = now, irq_garbage = x\<rparr>] b)
   \<and> rel_option (same_board (zip (stamps es) (replicate (sum_list (map irq_words es)) now)))
       (event_irqs ri es b)
       (event_irqs ri [\<lparr>irq_words = sum_list (map irq_words es), irq_now = now, irq_garbage = x\<rparr>] b)"
proof -
  let ?n = "sum_list (map irq_words es)"
  let ?one = "[\<lparr>irq_words = ?n, irq_now = now, irq_garbage = x\<rparr>]" and ?P = "zip (stamps es) (replicate ?n now)"
  have one: "stamps ?one = replicate ?n now" by (simp add: stamps_def)
  have "list_all2 (\<lambda>t t'. (t, t') \<in> set ?P) (stamps es) (replicate ?n now)"
    by (auto simp: list_all2_iff stamps_length)
  from same_words [OF this same_board_refl, of ri]
  have "rel_option (same_board ?P) (event_irqs ri es b) (event_irqs ri ?one b)"
    using same_results_plain [OF irqs_stamped [of ri es b] irqs_stamped [of ri ?one b]] by (simp only: one)
  then show ?thesis
    by (simp only: irqs_stamped one stamps_one_clock simp_thms)
qed

end
