(* ===== verification/Notify.thy ===== *)
theory Notify
  imports Registers
begin

text \<open>
  Alarms of a board and how user space learns of them: the notification handlers and the device
  control requests of \<^verbatim>\<open>linux/menable5.c\<close> and \<^verbatim>\<open>linux/menable6.c\<close>, which share this code word for word
  but for the encoding of the alarms.

  Every process that asks for notifications gets a handler, found by the numbers of the process
  and its parent. An interrupt sets the alarm in the board's status, masks it and counts the time stamp; a
  deferred work wakes the handlers. Acknowledging an alarm enables it again; the temperature alarm is
  acknowledged by a delayed work. A work is represented by whether it is scheduled.
\<close>

section \<open>Data\<close>

record me_notification_handler =
  pid :: nat
  ppid :: nat
  seen_time_stamp :: u64
  notification_available :: nat
  quit_requested :: bool

record notify_data =
  notifications :: u64
  notification_time_stamp :: u64
  notification_handler_heads :: "me_notification_handler list"
  irq_notification_work :: bool
  temperature_alarm_work :: bool
  temperature_alarm_period :: u32

abbreviation NOTIFICATION_DRIVER_CLOSED :: u64 where "NOTIFICATION_DRIVER_CLOSED \<equiv> 1"
abbreviation NOTIFICATION_DEVICE_REMOVED :: u64 where "NOTIFICATION_DEVICE_REMOVED \<equiv> 2"
abbreviation NOTIFICATION_DEVICE_ADDED :: u64 where "NOTIFICATION_DEVICE_ADDED \<equiv> 4"
abbreviation NOTIFICATION_DEVICE_ALARM :: u64 where "NOTIFICATION_DEVICE_ALARM \<equiv> 8"

abbreviation DEVCTRL_ASYNC_NOTIFY_DRIVER_CLOSED :: u64 where "DEVCTRL_ASYNC_NOTIFY_DRIVER_CLOSED \<equiv> 0"
abbreviation DEVCTRL_ASYNC_NOTIFY_DEVICE_REMOVED :: u64 where "DEVCTRL_ASYNC_NOTIFY_DEVICE_REMOVED \<equiv> 1"
abbreviation DEVCTRL_ASYNC_NOTIFY_DEVICE_ADDED :: u64 where "DEVCTRL_ASYNC_NOTIFY_DEVICE_ADDED \<equiv> 2"
abbreviation DEVCTRL_ASYNC_NOTIFY_DEVICE_ALARM :: u64 where "DEVCTRL_ASYNC_NOTIFY_DEVICE_ALARM \<equiv> 3"

abbreviation DEVCTRL_DEVICE_ALARM_TEMPERATURE :: u64 where "DEVCTRL_DEVICE_ALARM_TEMPERATURE \<equiv> 1"
abbreviation DEVCTRL_DEVICE_ALARM_PHY :: u64 where "DEVCTRL_DEVICE_ALARM_PHY \<equiv> 2"
abbreviation DEVCTRL_DEVICE_ALARM_POE :: u64 where "DEVCTRL_DEVICE_ALARM_POE \<equiv> 4"
abbreviation DEVCTRL_DEVICE_ALARM_ACL_MASK :: u64 where "DEVCTRL_DEVICE_ALARM_ACL_MASK \<equiv> 0xf0"
abbreviation DEVCTRL_DEVICE_ALARM_PHY_0 :: u64 where "DEVCTRL_DEVICE_ALARM_PHY_0 \<equiv> 0x100"
abbreviation DEVCTRL_DEVICE_ALARM_PHY_1 :: u64 where "DEVCTRL_DEVICE_ALARM_PHY_1 \<equiv> 0x200"
abbreviation DEVCTRL_DEVICE_ALARM_PHY_2 :: u64 where "DEVCTRL_DEVICE_ALARM_PHY_2 \<equiv> 0x400"
abbreviation DEVCTRL_DEVICE_ALARM_PHY_3 :: u64 where "DEVCTRL_DEVICE_ALARM_PHY_3 \<equiv> 0x800"
abbreviation DEVCTRL_DEVICE_ALARM_SOFTWARE :: u64 where "DEVCTRL_DEVICE_ALARM_SOFTWARE \<equiv> 0x80000000"
abbreviation DEVCTRL_CLOSE_DRIVER_MAGIC :: u64 where "DEVCTRL_CLOSE_DRIVER_MAGIC \<equiv> 0x6e7745f1"
abbreviation LONG_MAX :: u64 where "LONG_MAX \<equiv> 0x7fffffffffffffff"

section \<open>Handlers\<close>

definition complete_handler :: "me_notification_handler \<Rightarrow> me_notification_handler" where
  "complete_handler h = h\<lparr>notification_available := notification_available h + 1\<rparr>"

definition is_handler_of :: "nat \<Rightarrow> nat \<Rightarrow> me_notification_handler \<Rightarrow> bool" where
  "is_handler_of pp p h \<longleftrightarrow> pid h = p \<and> ppid h = pp"

definition me5_get_notify_handler ::
    "nat \<Rightarrow> nat \<Rightarrow> 'a notify_data_scheme \<Rightarrow> me_notification_handler option" where
  "me5_get_notify_handler pp p d = List.find (is_handler_of pp p) (notification_handler_heads d)"

text \<open>\<open>mem\<close>: does \<^verbatim>\<open>kzalloc\<close> give memory?\<close>

definition me5_create_notify_handler ::
    "bool \<Rightarrow> nat \<Rightarrow> nat \<Rightarrow> 'a notify_data_scheme \<Rightarrow> bool \<times> 'a notify_data_scheme" where
  "me5_create_notify_handler mem pp p d =
     (if \<not> mem then (False, d)
      else (True, d\<lparr>notification_handler_heads := notification_handler_heads d @
        [\<lparr>pid = p, ppid = pp, seen_time_stamp = notification_time_stamp d,
          notification_available = 0, quit_requested = False\<rparr>]\<rparr>))"

definition me5_free_notify_handler :: "nat \<Rightarrow> nat \<Rightarrow> 'a notify_data_scheme \<Rightarrow> 'a notify_data_scheme" where
  "me5_free_notify_handler pp p d = d\<lparr>notification_handler_heads :=
     filter (\<lambda>h. \<not> is_handler_of pp p h) (notification_handler_heads d)\<rparr>"

definition upd_handler ::
    "nat \<Rightarrow> nat \<Rightarrow> (me_notification_handler \<Rightarrow> me_notification_handler)
     \<Rightarrow> 'a notify_data_scheme \<Rightarrow> 'a notify_data_scheme" where
  "upd_handler pp p f d = d\<lparr>notification_handler_heads :=
     map (\<lambda>h. if is_handler_of pp p h then f h else h) (notification_handler_heads d)\<rparr>"

text \<open>\<^verbatim>\<open>DEVCTRL_RESET_ASYNC_NOTIFY\<close> with \<^verbatim>\<open>DRIVER_CLOSED\<close>: the handlers of the parent process end.\<close>

definition request_quit :: "nat \<Rightarrow> 'a notify_data_scheme \<Rightarrow> 'a notify_data_scheme" where
  "request_quit pp d = d\<lparr>notification_handler_heads :=
     map (\<lambda>h. if ppid h = pp then complete_handler (h\<lparr>quit_requested := True\<rparr>) else h)
       (notification_handler_heads d)\<rparr>"

section \<open>Waiting for a notification\<close>

text \<open>
  The reply; an event that is not assigned is \<open>None\<close>. \<^verbatim>\<open>wait_for_completion_killable_timeout\<close> ends with a
  status after others changed the state; a positive status takes one completion.
\<close>

record async_reply =
  reply_event :: "u64 option"
  reply_pl :: u64
  reply_ph :: u64

abbreviation ticks_250ms :: int where "ticks_250ms \<equiv> 25"

definition wait_notification ::
    "nat \<Rightarrow> nat \<Rightarrow> int \<times> ('a notify_data_scheme \<Rightarrow> 'a notify_data_scheme)
     \<Rightarrow> 'a notify_data_scheme \<Rightarrow> 'a notify_data_scheme" where
  "wait_notification pp p w d =
     (let d1 = snd w d
      in if fst w > 0
         then upd_handler pp p (\<lambda>h. h\<lparr>notification_available := notification_available h - 1\<rparr>) d1
         else d1)"

text \<open>The event of a notification, with the payload \<open>alarm_pl\<close> of the pending alarms.\<close>

definition async_event :: "u64 \<Rightarrow> u64 \<Rightarrow> async_reply" where
  "async_event n alarm_pl =
     (if n AND NOTIFICATION_DEVICE_REMOVED \<noteq> 0
      then \<lparr>reply_event = Some DEVCTRL_ASYNC_NOTIFY_DEVICE_REMOVED, reply_pl = 0, reply_ph = 0\<rparr>
      else if n AND NOTIFICATION_DEVICE_ALARM \<noteq> 0
      then \<lparr>reply_event = Some DEVCTRL_ASYNC_NOTIFY_DEVICE_ALARM, reply_pl = alarm_pl, reply_ph = 0\<rparr>
      else if n AND NOTIFICATION_DRIVER_CLOSED \<noteq> 0
      then \<lparr>reply_event = Some DEVCTRL_ASYNC_NOTIFY_DRIVER_CLOSED, reply_pl = 0, reply_ph = 0\<rparr>
      else if n AND NOTIFICATION_DEVICE_ADDED \<noteq> 0
      then \<lparr>reply_event = Some DEVCTRL_ASYNC_NOTIFY_DEVICE_ADDED, reply_pl = 0, reply_ph = 0\<rparr>
      else \<lparr>reply_event = None, reply_pl = 0, reply_ph = 0\<rparr>)"

text \<open>
  What \<^verbatim>\<open>DEVCTRL_GET_ASYNC_NOTIFY\<close> does after the wait, for the handler \<open>h\<close> of the caller. \<open>alarm_pl\<close>
  encodes the alarms that are pending now; \<open>copy_ok\<close>: does \<^verbatim>\<open>copy_to_user\<close> succeed?
\<close>

definition answer_notification ::
    "nat \<Rightarrow> nat \<Rightarrow> bool \<Rightarrow> ('a notify_data_scheme \<Rightarrow> u64) \<Rightarrow> int \<Rightarrow> me_notification_handler
     \<Rightarrow> 'a notify_data_scheme \<Rightarrow> int \<times> async_reply option \<times> 'a notify_data_scheme" where
  "answer_notification pp p copy_ok alarm_pl wakeup_time h d =
     (let reply = (\<lambda>r d. if copy_ok then (0, Some r, d) else (- EFAULT, None, d))
      in if quit_requested h
         then if copy_ok
              then (0, Some \<lparr>reply_event = Some DEVCTRL_ASYNC_NOTIFY_DRIVER_CLOSED,
                             reply_pl = 0, reply_ph = 0\<rparr>, me5_free_notify_handler pp p d)
              else (- EFAULT, None, d)
         else if seen_time_stamp h \<noteq> notification_time_stamp d
         then let d1 = upd_handler pp p (\<lambda>h. h\<lparr>seen_time_stamp := notification_time_stamp d,
                                              notification_available := 0\<rparr>) d
              in if notifications d = 0 then (- ETIMEDOUT, None, d1)
                 else if notifications d AND NOTIFICATION_DEVICE_REMOVED \<noteq> 0
                 then reply (async_event (notifications d) (alarm_pl d)) (me5_free_notify_handler pp p d1)
                 else reply (async_event (notifications d) (alarm_pl d)) d1
         else if wakeup_time \<ge> 0 then (- ETIMEDOUT, None, d)
         else (- EFAULT, None, d))"

text \<open>
  \<^verbatim>\<open>DEVCTRL_GET_ASYNC_NOTIFY\<close>. The handler belongs to the calling thread, which alone frees it; if it
  were gone after the wait, its use would be undefined (\<open>None\<close>).
\<close>

definition get_async_notify ::
    "nat \<Rightarrow> nat \<Rightarrow> bool \<Rightarrow> bool \<Rightarrow> bool \<Rightarrow> ('a notify_data_scheme \<Rightarrow> u64)
     \<Rightarrow> int \<times> ('a notify_data_scheme \<Rightarrow> 'a notify_data_scheme) \<Rightarrow> 'a notify_data_scheme
     \<Rightarrow> (int \<times> async_reply option \<times> 'a notify_data_scheme) option" where
  "get_async_notify pp p size_ok mem copy_ok alarm_pl w d =
     (if \<not> size_ok then Some (- EINVAL, None, d)
      else
        let (found, d1) = (case me5_get_notify_handler pp p d of
                             Some h \<Rightarrow> (True, d) | None \<Rightarrow> me5_create_notify_handler mem pp p d)
        in if \<not> found then Some (- ENOMEM, None, d1)
           else case me5_get_notify_handler pp p d1 of
             None \<Rightarrow> None
           | Some h \<Rightarrow>
               let waits = (\<not> quit_requested h \<and>
                     (seen_time_stamp h = notification_time_stamp d \<or> notifications d = 0));
                   d2 = (if waits then wait_notification pp p w d1 else d1);
                   wakeup_time = (if waits then fst w else ticks_250ms)
               in map_option (\<lambda>h2. answer_notification pp p copy_ok alarm_pl wakeup_time h2 d2)
                    (me5_get_notify_handler pp p d2))"

section \<open>The deferred works\<close>

text \<open>
  The work that follows an interrupt: wake the handlers, and have the temperature alarm acknowledged
  later, if it is pending. \<open>hot\<close> tells whether it is.
\<close>

definition notify_handlers :: "'a notify_data_scheme \<Rightarrow> 'a notify_data_scheme" where
  "notify_handlers d = d\<lparr>notification_handler_heads :=
     map complete_handler (notification_handler_heads d)\<rparr>"

definition notification_work ::
    "('a notify_data_scheme \<Rightarrow> bool) \<Rightarrow> 'a notify_data_scheme \<Rightarrow> 'a notify_data_scheme" where
  "notification_work hot d =
     (let d1 = notify_handlers (d\<lparr>irq_notification_work := False\<rparr>)
      in if hot d1 then d1\<lparr>temperature_alarm_work := True\<rparr> else d1)"

text \<open>
  The period of the temperature alarm, set by \<^verbatim>\<open>DEVCTRL_RESET_ASYNC_NOTIFY\<close>; a work that is scheduled
  is scheduled again with the new delay.
\<close>

definition set_temperature_period :: "u64 \<Rightarrow> 'a notify_data_scheme \<Rightarrow> 'a notify_data_scheme" where
  "set_temperature_period ph d =
     (if ph \<noteq> 0 \<and> ph < LONG_MAX
      then let d1 = d\<lparr>temperature_alarm_period := ucast ph\<rparr>;
               cancelled = temperature_alarm_work d1;
               d2 = d1\<lparr>temperature_alarm_work := False\<rparr>
           in if cancelled then d2\<lparr>temperature_alarm_work := True\<rparr> else d2
      else d)"

text \<open>\<^verbatim>\<open>stopirq\<close> cancels the delayed work, or waits for it if it runs; either way it is not scheduled.\<close>

definition cancel_temperature_work :: "'a notify_data_scheme \<Rightarrow> 'a notify_data_scheme" where
  "cancel_temperature_work d = d\<lparr>temperature_alarm_work := False\<rparr>"

text \<open>What \<^verbatim>\<open>me5_device_removed\<close> tells the handlers.\<close>

definition notify_removed :: "'a notify_data_scheme \<Rightarrow> 'a notify_data_scheme" where
  "notify_removed d =
     notify_handlers (d\<lparr>notifications := notifications d OR NOTIFICATION_DEVICE_REMOVED,
                        notification_time_stamp := notification_time_stamp d + 1\<rparr>)"

end
