(* ===== verification/Me5_Alarms.thy ===== *)
theory Me5_Alarms
  imports Notify
begin

text \<open>
  Interrupts and alarms of mE5 boards, \<^verbatim>\<open>linux/menable5.c\<close>, and the alarms of mE6 boards,
  \<^verbatim>\<open>linux/menable6.c\<close>. The state of a board is its data and the device behind the registers. The sections
  of \<^verbatim>\<open>me5_irq\<close> and \<^verbatim>\<open>me5_irq_ack\<close> that hold a lock are definitions of their own, since others may
  run between them.
\<close>

section \<open>mE5\<close>

record me5_data = notify_data +
  irq_wanted :: u32
  irq_alarms_status :: u32
  dma_stop_bugfix_present :: bool

type_synonym 's me5_state = "me5_data \<times> 's"

abbreviation ME5_IRQSTATUS :: u32 where "ME5_IRQSTATUS \<equiv> 0x0100"
abbreviation ME5_IRQACK :: u32 where "ME5_IRQACK \<equiv> 0x0102"
abbreviation ME5_IRQTYPE :: u32 where "ME5_IRQTYPE \<equiv> 0x0104"
abbreviation ME5_IRQENABLE :: u32 where "ME5_IRQENABLE \<equiv> 0x0106"
abbreviation ME5_LED_CONTROL :: u32 where "ME5_LED_CONTROL \<equiv> 0x0012"
abbreviation ME5_IRQQ_LOW :: nat where "ME5_IRQQ_LOW \<equiv> 16"
abbreviation ME5_IRQQ_HIGH :: nat where "ME5_IRQQ_HIGH \<equiv> 29"

abbreviation INT_MASK_DMA_CHANNEL_IRQ :: u32 where "INT_MASK_DMA_CHANNEL_IRQ \<equiv> 0x000000FF"
abbreviation INT_MASK_ALARMS :: u32 where "INT_MASK_ALARMS \<equiv> 0x0000BF00"
abbreviation INT_MASK_ACTION_CMD_LOST :: u32 where "INT_MASK_ACTION_CMD_LOST \<equiv> 0x00000F00"
abbreviation INT_MASK_PHY_MANAGEMENT :: u32 where "INT_MASK_PHY_MANAGEMENT \<equiv> 0x00001000"
abbreviation INT_MASK_POE :: u32 where "INT_MASK_POE \<equiv> 0x00002000"
abbreviation INT_MASK_TEMPERATURE_ALARM :: u32 where "INT_MASK_TEMPERATURE_ALARM \<equiv> 0x00008000"
abbreviation INT_MASK_USER_QUEUE_IRQ :: u32 where "INT_MASK_USER_QUEUE_IRQ \<equiv> 0x3FFF0000"

definition enable_irqs :: "'s register_interface \<Rightarrow> 's me5_state \<Rightarrow> 's me5_state" where
  "enable_irqs ri ds = (fst ds, ri_write ri ME5_IRQENABLE (irq_wanted (fst ds)) (snd ds))"

subsection \<open>Acknowledging an alarm\<close>

definition ack_write :: "'s register_interface \<Rightarrow> u32 \<Rightarrow> 's me5_state \<Rightarrow> 's me5_state" where
  "ack_write ri alarm ds = (fst ds, ri_write ri ME5_IRQACK alarm (snd ds))"

definition ack_enable :: "'s register_interface \<Rightarrow> u32 \<Rightarrow> 's me5_state \<Rightarrow> 's me5_state" where
  "ack_enable ri alarm ds =
     enable_irqs ri ((fst ds)\<lparr>irq_wanted := irq_wanted (fst ds) OR alarm\<rparr>, snd ds)"

definition ack_clear :: "u32 \<Rightarrow> 's me5_state \<Rightarrow> 's me5_state" where
  "ack_clear alarm ds =
     (let d = (fst ds)\<lparr>irq_alarms_status := irq_alarms_status (fst ds) AND NOT alarm\<rparr>
      in (if irq_alarms_status d = 0
          then d\<lparr>notifications := notifications d AND NOT NOTIFICATION_DEVICE_ALARM\<rparr> else d, snd ds))"

definition me5_irq_ack :: "'s register_interface \<Rightarrow> u32 \<Rightarrow> 's me5_state \<Rightarrow> 's me5_state" where
  "me5_irq_ack ri alarm ds = ack_clear alarm (ack_enable ri alarm (ack_write ri alarm ds))"

subsection \<open>The interrupt\<close>

text \<open>
  The first section of \<^verbatim>\<open>me5_irq\<close>: not our interrupt, a device that is gone, or the wanted sources.
\<close>

datatype irq_sources = Irq_none | Irq_dead | Irq_sources u32

definition irq_status_section :: "'s register_interface \<Rightarrow> 's me5_state \<Rightarrow> irq_sources \<times> 's me5_state" where
  "irq_status_section ri ds =
     (let (sr, s) = ri_read ri ME5_IRQSTATUS (snd ds); d = fst ds
      in if sr = 0 then (Irq_none, (d, s))
         else if sr = 0xffffffff
         then (Irq_dead, ack_write ri 0xffffffff (enable_irqs ri (d\<lparr>irq_wanted := 0\<rparr>, s)))
         else let badmask = sr AND NOT (irq_wanted d)
              in if badmask \<noteq> 0
                 then (Irq_sources (sr AND irq_wanted d), ack_write ri badmask (enable_irqs ri (d, s)))
                 else (Irq_sources sr, (d, s)))"

text \<open>The two sections that handle alarms; the first gives the alarms the second masks.\<close>

definition alarm_note :: "u32 \<Rightarrow> 's me5_state \<Rightarrow> u32 \<times> 's me5_state" where
  "alarm_note st ds =
     (let d = (fst ds)\<lparr>irq_alarms_status := irq_alarms_status (fst ds) OR (st AND irq_wanted (fst ds))\<rparr>;
          d1 = (if irq_alarms_status d \<noteq> 0
                then d\<lparr>notifications := notifications d OR NOTIFICATION_DEVICE_ALARM,
                       notification_time_stamp := notification_time_stamp d + 1,
                       irq_notification_work := True\<rparr>
                else d)
      in (irq_alarms_status d1, (d1, snd ds)))"

definition alarm_mask :: "'s register_interface \<Rightarrow> u32 \<Rightarrow> 's me5_state \<Rightarrow> 's me5_state" where
  "alarm_mask ri tmp ds =
     enable_irqs ri ((fst ds)\<lparr>irq_wanted := irq_wanted (fst ds) AND NOT tmp\<rparr>, snd ds)"

definition me5_alarm_irq :: "'s register_interface \<Rightarrow> u32 \<Rightarrow> 's me5_state \<Rightarrow> 's me5_state" where
  "me5_alarm_irq ri sr ds =
     (let st = sr AND INT_MASK_ALARMS
      in if st \<noteq> 0 then let (tmp, ds1) = alarm_note st ds in alarm_mask ri tmp ds1 else ds)"

subsection \<open>Works\<close>

definition me5_irq_notification_work :: "'s me5_state \<Rightarrow> 's me5_state" where
  "me5_irq_notification_work ds =
     (notification_work (\<lambda>d. irq_alarms_status d AND INT_MASK_TEMPERATURE_ALARM \<noteq> 0) (fst ds), snd ds)"

definition me5_temperature_alarm_work :: "'s register_interface \<Rightarrow> 's me5_state \<Rightarrow> 's me5_state" where
  "me5_temperature_alarm_work ri ds =
     me5_irq_ack ri INT_MASK_TEMPERATURE_ALARM ((fst ds)\<lparr>temperature_alarm_work := False\<rparr>, snd ds)"

subsection \<open>Starting and stopping interrupts\<close>

definition me5_startirq :: "'s register_interface \<Rightarrow> u32 \<Rightarrow> 's me5_state \<Rightarrow> 's me5_state" where
  "me5_startirq ri uiqcnt0 ds =
     (let mask = push_bit ME5_IRQQ_LOW (push_bit (unat uiqcnt0) 1 - 1) OR INT_MASK_ALARMS
      in enable_irqs ri (ack_write ri 0xffffffff ((fst ds)\<lparr>irq_wanted := mask\<rparr>, snd ds)))"

text \<open>The part of \<^verbatim>\<open>me5_stopirq\<close> on the interrupts; the queues of the board stop as well.\<close>

definition me5_stopirq :: "'s register_interface \<Rightarrow> nat \<Rightarrow> 's me5_state \<Rightarrow> 's me5_state" where
  "me5_stopirq ri active ds =
     (let d = cancel_temperature_work (fst ds);
          ds1 = (if active > 0
                 then ack_write ri 0xffffffff (enable_irqs ri (d\<lparr>irq_wanted := 0\<rparr>, snd ds))
                 else (d, snd ds))
      in (cancel_temperature_work (fst ds1), snd ds1))"

subsection \<open>Requests\<close>

definition me5_alarm_pl :: "u32 \<Rightarrow> u64" where
  "me5_alarm_pl alarms =
     (if alarms AND INT_MASK_TEMPERATURE_ALARM \<noteq> 0 then DEVCTRL_DEVICE_ALARM_TEMPERATURE else 0)
     OR drop_bit 4 (ucast (alarms AND INT_MASK_ACTION_CMD_LOST))
     OR (if alarms AND INT_MASK_PHY_MANAGEMENT \<noteq> 0 then DEVCTRL_DEVICE_ALARM_PHY else 0)
     OR (if alarms AND INT_MASK_POE \<noteq> 0 then DEVCTRL_DEVICE_ALARM_POE else 0)"

text \<open>\<^verbatim>\<open>DEVCTRL_RESET_ASYNC_NOTIFY\<close> of the process with the parent \<open>pp\<close>.\<close>

definition me5_reset_alarms :: "'s register_interface \<Rightarrow> u64 \<Rightarrow> u64 \<Rightarrow> 's me5_state \<Rightarrow> 's me5_state" where
  "me5_reset_alarms ri pl ph ds =
     (let ds1 = (if pl AND DEVCTRL_DEVICE_ALARM_TEMPERATURE \<noteq> 0
                 then (set_temperature_period ph (fst ds), snd ds) else ds);
          ds2 = (if pl AND DEVCTRL_DEVICE_ALARM_PHY \<noteq> 0
                 then me5_irq_ack ri INT_MASK_PHY_MANAGEMENT ds1 else ds1);
          ds3 = (if pl AND DEVCTRL_DEVICE_ALARM_ACL_MASK \<noteq> 0
                 then me5_irq_ack ri (ucast (push_bit 4 (pl AND DEVCTRL_DEVICE_ALARM_ACL_MASK))
                        AND INT_MASK_ACTION_CMD_LOST) ds2 else ds2)
      in if pl AND DEVCTRL_DEVICE_ALARM_POE \<noteq> 0 then me5_irq_ack ri INT_MASK_POE ds3 else ds3)"

definition me5_reset_async_notify ::
    "'s register_interface \<Rightarrow> nat \<Rightarrow> u64 \<Rightarrow> u64 \<Rightarrow> u64 \<Rightarrow> 's me5_state \<Rightarrow> 's me5_state" where
  "me5_reset_async_notify ri pp ev pl ph ds =
     (if ev = DEVCTRL_ASYNC_NOTIFY_DRIVER_CLOSED
      then if ph = DEVCTRL_CLOSE_DRIVER_MAGIC then (request_quit pp (fst ds), snd ds) else ds
      else if ev = DEVCTRL_ASYNC_NOTIFY_DEVICE_ALARM then me5_reset_alarms ri pl ph ds
      else ds)"

definition me5_set_leds :: "'s register_interface \<Rightarrow> u16 \<Rightarrow> 's me5_state \<Rightarrow> 's me5_state" where
  "me5_set_leds ri v ds = (fst ds, ri_write ri ME5_LED_CONTROL (ucast v) (snd ds))"

text \<open>Which LEDs there are, and their state.\<close>

definition me5_get_leds :: "'s register_interface \<Rightarrow> 's me5_state \<Rightarrow> (u16 \<times> u16) \<times> 's me5_state" where
  "me5_get_leds ri ds =
     (let (leds, s) = ri_read ri ME5_LED_CONTROL (snd ds)
      in ((ucast (leds AND 0xffff), ucast (drop_bit 16 leds AND 0xffff)), (fst ds, s)))"

section \<open>mE6\<close>

text \<open>The words are \<^verbatim>\<open>unsigned long\<close>; a register takes their lower half.\<close>

record me6_data = notify_data +
  alarms_status :: u64
  alarms_enabled :: u64

type_synonym 's me6_state = "me6_data \<times> 's"

abbreviation ME6_REG_IRQ_ALARMS_ENABLE :: u32 where "ME6_REG_IRQ_ALARMS_ENABLE \<equiv> 4"
abbreviation ME6_REG_IRQ_ALARMS_STATUS :: u32 where "ME6_REG_IRQ_ALARMS_STATUS \<equiv> 4"
abbreviation ME6_REG_IRQ_SOFTWARE_TRIGGER :: u32 where "ME6_REG_IRQ_SOFTWARE_TRIGGER \<equiv> 0x000D"
abbreviation ME6_REG_LED_CONTROL :: u32 where "ME6_REG_LED_CONTROL \<equiv> 0x0012"

abbreviation ME6_ALARM_OVERTEMP :: u64 where "ME6_ALARM_OVERTEMP \<equiv> 0x1"
abbreviation ME6_ALARM_SOFTWARE :: u64 where "ME6_ALARM_SOFTWARE \<equiv> 0x2"
abbreviation ME6_ABACUS_ALARM_PHY_0_MGM :: u64 where "ME6_ABACUS_ALARM_PHY_0_MGM \<equiv> 0x4"
abbreviation ME6_ABACUS_ALARM_PHY_1_MGM :: u64 where "ME6_ABACUS_ALARM_PHY_1_MGM \<equiv> 0x8"
abbreviation ME6_ABACUS_ALARM_PHY_2_MGM :: u64 where "ME6_ABACUS_ALARM_PHY_2_MGM \<equiv> 0x10"
abbreviation ME6_ABACUS_ALARM_PHY_3_MGM :: u64 where "ME6_ABACUS_ALARM_PHY_3_MGM \<equiv> 0x20"
abbreviation ME6_ABACUS_ALARM_POE_FAULT :: u64 where "ME6_ABACUS_ALARM_POE_FAULT \<equiv> 0x40"

text \<open>The encodings of the board variants, \<^verbatim>\<open>menable6_abacus.c\<close> and \<^verbatim>\<open>menable6_impulse.c\<close>.\<close>

definition me6_abacus_alarm_to_event_pl :: "u64 \<Rightarrow> u64" where
  "me6_abacus_alarm_to_event_pl alarms =
     (if alarms AND ME6_ALARM_OVERTEMP \<noteq> 0 then DEVCTRL_DEVICE_ALARM_TEMPERATURE else 0)
     OR (if alarms AND ME6_ALARM_SOFTWARE \<noteq> 0 then DEVCTRL_DEVICE_ALARM_SOFTWARE else 0)
     OR (if alarms AND ME6_ABACUS_ALARM_PHY_0_MGM \<noteq> 0 then DEVCTRL_DEVICE_ALARM_PHY_0 else 0)
     OR (if alarms AND ME6_ABACUS_ALARM_PHY_1_MGM \<noteq> 0 then DEVCTRL_DEVICE_ALARM_PHY_1 else 0)
     OR (if alarms AND ME6_ABACUS_ALARM_PHY_2_MGM \<noteq> 0 then DEVCTRL_DEVICE_ALARM_PHY_2 else 0)
     OR (if alarms AND ME6_ABACUS_ALARM_PHY_3_MGM \<noteq> 0 then DEVCTRL_DEVICE_ALARM_PHY_3 else 0)
     OR (if alarms AND ME6_ABACUS_ALARM_POE_FAULT \<noteq> 0 then DEVCTRL_DEVICE_ALARM_POE else 0)"

definition me6_abacus_event_pl_to_alarm :: "u64 \<Rightarrow> u64" where
  "me6_abacus_event_pl_to_alarm pl =
     (if pl AND DEVCTRL_DEVICE_ALARM_TEMPERATURE \<noteq> 0 then ME6_ALARM_OVERTEMP else 0)
     OR (if pl AND DEVCTRL_DEVICE_ALARM_SOFTWARE \<noteq> 0 then ME6_ALARM_SOFTWARE else 0)
     OR (if pl AND DEVCTRL_DEVICE_ALARM_PHY \<noteq> 0
         then ME6_ABACUS_ALARM_PHY_0_MGM OR ME6_ABACUS_ALARM_PHY_1_MGM
              OR ME6_ABACUS_ALARM_PHY_2_MGM OR ME6_ABACUS_ALARM_PHY_3_MGM else 0)
     OR (if pl AND DEVCTRL_DEVICE_ALARM_PHY_0 \<noteq> 0 then ME6_ABACUS_ALARM_PHY_0_MGM else 0)
     OR (if pl AND DEVCTRL_DEVICE_ALARM_PHY_1 \<noteq> 0 then ME6_ABACUS_ALARM_PHY_1_MGM else 0)
     OR (if pl AND DEVCTRL_DEVICE_ALARM_PHY_2 \<noteq> 0 then ME6_ABACUS_ALARM_PHY_2_MGM else 0)
     OR (if pl AND DEVCTRL_DEVICE_ALARM_PHY_3 \<noteq> 0 then ME6_ABACUS_ALARM_PHY_3_MGM else 0)
     OR (if pl AND DEVCTRL_DEVICE_ALARM_POE \<noteq> 0 then ME6_ABACUS_ALARM_POE_FAULT else 0)"

definition me6_impulse_alarm_to_event_pl :: "u64 \<Rightarrow> u64" where
  "me6_impulse_alarm_to_event_pl alarms =
     (if alarms AND ME6_ALARM_OVERTEMP \<noteq> 0 then DEVCTRL_DEVICE_ALARM_TEMPERATURE else 0)
     OR (if alarms AND ME6_ALARM_SOFTWARE \<noteq> 0 then DEVCTRL_DEVICE_ALARM_SOFTWARE else 0)"

definition me6_impulse_event_pl_to_alarm :: "u64 \<Rightarrow> u64" where
  "me6_impulse_event_pl_to_alarm pl =
     (if pl AND DEVCTRL_DEVICE_ALARM_TEMPERATURE \<noteq> 0 then ME6_ALARM_OVERTEMP else 0)
     OR (if pl AND DEVCTRL_DEVICE_ALARM_SOFTWARE \<noteq> 0 then ME6_ALARM_SOFTWARE else 0)"

text \<open>One critical section.\<close>

definition me6_ack_alarms :: "'s register_interface \<Rightarrow> u64 \<Rightarrow> 's me6_state \<Rightarrow> 's me6_state" where
  "me6_ack_alarms ri alarms ds =
     (let d = (fst ds)\<lparr>alarms_status := alarms_status (fst ds) AND NOT alarms\<rparr>;
          d1 = (if alarms_status d = 0
                then d\<lparr>notifications := notifications d AND NOT NOTIFICATION_DEVICE_ALARM\<rparr> else d);
          d2 = d1\<lparr>alarms_enabled := alarms_enabled d1 OR alarms\<rparr>
      in (d2, ri_write ri ME6_REG_IRQ_ALARMS_ENABLE (ucast (alarms_enabled d2)) (snd ds)))"

text \<open>
  The part of \<^verbatim>\<open>me6_level_irq\<close> that holds the lock, and the interrupt. The status and its complement have
  32 bits, so the upper half of what is enabled is lost.
\<close>

definition level_note :: "u32 \<Rightarrow> me6_data \<Rightarrow> me6_data" where
  "level_note status d =
     d\<lparr>alarms_enabled := alarms_enabled d AND ucast (NOT status),
       alarms_status := alarms_status d OR ucast status,
       notifications := notifications d OR NOTIFICATION_DEVICE_ALARM,
       notification_time_stamp := notification_time_stamp d + 1,
       irq_notification_work := True\<rparr>"

definition me6_level_irq :: "'s register_interface \<Rightarrow> 's me6_state \<Rightarrow> 's me6_state" where
  "me6_level_irq ri ds =
     (let (status, s) = ri_read ri ME6_REG_IRQ_ALARMS_STATUS (snd ds)
      in if status \<noteq> 0
         then (level_note status (fst ds),
               if status AND ucast ME6_ALARM_SOFTWARE \<noteq> 0
               then ri_write ri ME6_REG_IRQ_SOFTWARE_TRIGGER 0 s else s)
         else (fst ds, s))"

definition me6_irq_notification_work :: "(u64 \<Rightarrow> u64) \<Rightarrow> 's me6_state \<Rightarrow> 's me6_state" where
  "me6_irq_notification_work event_pl_to_alarms ds =
     (notification_work (\<lambda>d. ucast (ucast (alarms_status d) :: u32)
          AND event_pl_to_alarms DEVCTRL_DEVICE_ALARM_TEMPERATURE \<noteq> 0)
        (fst ds), snd ds)"

definition me6_temperature_alarm_work ::
    "'s register_interface \<Rightarrow> (u64 \<Rightarrow> u64) \<Rightarrow> 's me6_state \<Rightarrow> 's me6_state" where
  "me6_temperature_alarm_work ri event_pl_to_alarms ds =
     me6_ack_alarms ri (event_pl_to_alarms DEVCTRL_DEVICE_ALARM_TEMPERATURE)
       ((fst ds)\<lparr>temperature_alarm_work := False\<rparr>, snd ds)"

text \<open>\<open>ready\<close>: the state of the board is at least \<^verbatim>\<open>BOARD_STATE_READY\<close>.\<close>

definition me6_startirq :: "'s register_interface \<Rightarrow> (u64 \<Rightarrow> u64) \<Rightarrow> bool \<Rightarrow> 's me6_state \<Rightarrow> 's me6_state" where
  "me6_startirq ri event_pl_to_alarms ready ds =
     (if ready then
        let d = (fst ds)\<lparr>alarms_enabled := event_pl_to_alarms 0xffffffff\<rparr>
        in (d, ri_write ri ME6_REG_IRQ_ALARMS_ENABLE (ucast (alarms_enabled d))
                 (ri_write ri ME6_REG_IRQ_SOFTWARE_TRIGGER 0 (snd ds)))
      else ds)"

definition me6_stopirq :: "'s register_interface \<Rightarrow> 's me6_state \<Rightarrow> 's me6_state" where
  "me6_stopirq ri ds =
     (let d = (cancel_temperature_work (fst ds))\<lparr>alarms_enabled := 0\<rparr>
      in (cancel_temperature_work d, ri_write ri ME6_REG_IRQ_ALARMS_ENABLE 0 (snd ds)))"

definition me6_reset_alarms ::
    "'s register_interface \<Rightarrow> (u64 \<Rightarrow> u64) \<Rightarrow> u64 \<Rightarrow> u64 \<Rightarrow> 's me6_state \<Rightarrow> 's me6_state" where
  "me6_reset_alarms ri event_pl_to_alarms pl ph ds =
     (let hot = pl AND DEVCTRL_DEVICE_ALARM_TEMPERATURE \<noteq> 0;
          ds1 = (if hot then (set_temperature_period ph (fst ds), snd ds) else ds);
          pl1 = (if hot then pl AND NOT DEVCTRL_DEVICE_ALARM_TEMPERATURE else pl);
          alarms_to_ack = event_pl_to_alarms pl1
      in if alarms_to_ack \<noteq> 0 then me6_ack_alarms ri alarms_to_ack ds1 else ds1)"

definition me6_reset_async_notify ::
    "'s register_interface \<Rightarrow> (u64 \<Rightarrow> u64) \<Rightarrow> nat \<Rightarrow> u64 \<Rightarrow> u64 \<Rightarrow> u64 \<Rightarrow> 's me6_state \<Rightarrow> 's me6_state" where
  "me6_reset_async_notify ri event_pl_to_alarms pp ev pl ph ds =
     (if ev = DEVCTRL_ASYNC_NOTIFY_DRIVER_CLOSED
      then if ph = DEVCTRL_CLOSE_DRIVER_MAGIC then (request_quit pp (fst ds), snd ds) else ds
      else if ev = DEVCTRL_ASYNC_NOTIFY_DEVICE_ALARM
      then me6_reset_alarms ri event_pl_to_alarms pl ph ds else ds)"

text \<open>\<^verbatim>\<open>DEVCTRL_SET_ASYNC_NOTIFY\<close> triggers an alarm by software.\<close>

definition me6_set_async_notify ::
    "'s register_interface \<Rightarrow> u64 \<Rightarrow> u64 \<Rightarrow> u64 \<Rightarrow> 's me6_state \<Rightarrow> 's me6_state" where
  "me6_set_async_notify ri ev pl ph ds =
     (if ev = DEVCTRL_ASYNC_NOTIFY_DEVICE_ALARM \<and> pl = DEVCTRL_DEVICE_ALARM_SOFTWARE
      then (fst ds, ri_write ri ME6_REG_IRQ_SOFTWARE_TRIGGER (ucast ph) (snd ds)) else ds)"

end
