(* ===== verification/Alarm_Props.thy ===== *)
theory Alarm_Props
  imports Me5_Alarms
begin

text \<open>
  What the alarms of a board promise, whatever the device reports: an alarm is enabled or it is pending,
  user space is told while one is pending, and the temperature alarm comes back by itself. The contract is a
  locale over the two operations on alarms and the two works. The code of both boards keeps it as long as
  each operation runs undisturbed. On mE6 boards the operations are critical sections, so it always
  does; on mE5 boards they are not, and an interrupt within an acknowledgement loses the alarm.
\<close>

section \<open>The contract\<close>

lemma bit_and_not: "bit (x AND NOT a :: 'w::len word) n \<longleftrightarrow> bit x n \<and> \<not> bit a n"
  by (auto simp: bit_simps dest: bit_imp_le_length)

lemma shared_bit: "bit x n \<Longrightarrow> bit y n \<Longrightarrow> x AND y \<noteq> (0 :: 'w::len word)"
  by (metis bit_and_iff bit_0_eq bot_apply bot_bool_def)

lemma bit_low: "n < 32 \<Longrightarrow> bit (ucast (ucast (x :: u64) :: u32) :: u64) n = bit x n"
  by (simp add: bit_simps)

lemma bit_ucast_not: "n < 32 \<Longrightarrow> bit (ucast (NOT (w :: u32)) :: u64) n \<longleftrightarrow> \<not> bit (ucast w :: u64) n"
  by (simp add: bit_simps)

text \<open>What happens to the alarms; an interrupt of a device that is gone ends the run.\<close>

datatype 'w alarm_event = Alarm_irq | Alarm_ack 'w | Notify_work | Temperature_work

type_synonym ('a, 'h) alarm_state = "'a notify_data_scheme \<times> 'h"

fun alarm_step ::
    "(('a, 'h) alarm_state \<Rightarrow> ('a, 'h) alarm_state option)
     \<Rightarrow> ('w \<Rightarrow> ('a, 'h) alarm_state \<Rightarrow> ('a, 'h) alarm_state)
     \<Rightarrow> (('a, 'h) alarm_state \<Rightarrow> ('a, 'h) alarm_state)
     \<Rightarrow> (('a, 'h) alarm_state \<Rightarrow> ('a, 'h) alarm_state)
     \<Rightarrow> 'w alarm_event \<Rightarrow> ('a, 'h) alarm_state \<Rightarrow> ('a, 'h) alarm_state option" where
  "alarm_step irq ack nw tw Alarm_irq s = irq s"
| "alarm_step irq ack nw tw (Alarm_ack a) s = Some (ack a s)"
| "alarm_step irq ack nw tw Notify_work s =
     Some (if irq_notification_work (fst s) then nw s else s)"
| "alarm_step irq ack nw tw Temperature_work s =
     Some (if temperature_alarm_work (fst s) then tw s else s)"

fun alarm_run ::
    "('e \<Rightarrow> 's \<Rightarrow> 's option) \<Rightarrow> 'e list \<Rightarrow> 's \<Rightarrow> 's option" where
  "alarm_run step [] s = Some s"
| "alarm_run step (e # es) s = Option.bind (step e s) (alarm_run step es)"

definition noted :: "'a notify_data_scheme \<Rightarrow> bool" where
  "noted d \<longleftrightarrow> notifications d AND NOTIFICATION_DEVICE_ALARM \<noteq> 0"

definition alarms_armed ::
    "('a notify_data_scheme \<Rightarrow> 'w::len word) \<Rightarrow> ('a notify_data_scheme \<Rightarrow> 'w word) \<Rightarrow> 'w word
     \<Rightarrow> 'w word \<Rightarrow> 'a notify_data_scheme \<Rightarrow> bool" where
  "alarms_armed enabled status all hot d \<longleftrightarrow>
     (\<forall>n<32. bit all n \<longrightarrow> bit (enabled d) n \<or> bit (status d) n)
     \<and> (noted d \<longleftrightarrow> status d \<noteq> 0)
     \<and> (\<forall>n<32. bit hot n \<longrightarrow> bit (status d) n \<longrightarrow> bit (enabled d) n
          \<or> irq_notification_work d \<or> temperature_alarm_work d)"

locale alarm_board =
  fixes enabled status :: "'a notify_data_scheme \<Rightarrow> 'w::len word"
    and hot :: "'w word"
    and irq :: "('a, 'h) alarm_state \<Rightarrow> ('a, 'h) alarm_state option"
    and ack :: "'w word \<Rightarrow> ('a, 'h) alarm_state \<Rightarrow> ('a, 'h) alarm_state"
    and nw tw :: "('a, 'h) alarm_state \<Rightarrow> ('a, 'h) alarm_state"
  assumes irq_masks: "irq s = Some s' \<Longrightarrow> n < 32 \<Longrightarrow> bit (enabled (fst s)) n
                        \<Longrightarrow> bit (enabled (fst s')) n \<or> bit (status (fst s')) n"
    and irq_keeps: "irq s = Some s' \<Longrightarrow> bit (status (fst s)) n \<Longrightarrow> bit (status (fst s')) n"
    and irq_noted: "irq s = Some s' \<Longrightarrow> noted (fst s) = (status (fst s) \<noteq> 0)
                        \<Longrightarrow> noted (fst s') = (status (fst s') \<noteq> 0)"
    and irq_works: "irq s = Some s' \<Longrightarrow>
                      irq_notification_work (fst s') \<and> temperature_alarm_work (fst s') = temperature_alarm_work (fst s)
                      \<or> enabled (fst s') = enabled (fst s) \<and> status (fst s') = status (fst s)
                        \<and> irq_notification_work (fst s') = irq_notification_work (fst s)
                        \<and> temperature_alarm_work (fst s') = temperature_alarm_work (fst s)"
    and ack_enabled: "enabled (fst (ack a s)) = enabled (fst s) OR a"
    and ack_status: "status (fst (ack a s)) = status (fst s) AND NOT a"
    and ack_noted: "noted (fst s) = (status (fst s) \<noteq> 0)
                        \<Longrightarrow> noted (fst (ack a s)) = (status (fst (ack a s)) \<noteq> 0)"
    and ack_works: "irq_notification_work (fst (ack a s)) = irq_notification_work (fst s)"
                   "temperature_alarm_work (fst (ack a s)) = temperature_alarm_work (fst s)"
    and nw_alarms: "enabled (fst (nw s)) = enabled (fst s)" "status (fst (nw s)) = status (fst s)"
                   "noted (fst (nw s)) = noted (fst s)"
    and nw_works: "\<not> irq_notification_work (fst (nw s))"
                  "temperature_alarm_work (fst s) \<Longrightarrow> temperature_alarm_work (fst (nw s))"
                  "n < 32 \<Longrightarrow> bit hot n \<Longrightarrow> bit (status (fst s)) n \<Longrightarrow> temperature_alarm_work (fst (nw s))"
    and tw_enabled: "enabled (fst (tw s)) = enabled (fst s) OR hot"
    and tw_status: "status (fst (tw s)) = status (fst s) AND NOT hot"
    and tw_noted: "noted (fst s) = (status (fst s) \<noteq> 0)
                        \<Longrightarrow> noted (fst (tw s)) = (status (fst (tw s)) \<noteq> 0)"
begin

abbreviation step where "step \<equiv> alarm_step irq ack nw tw"
abbreviation armed where "armed all s \<equiv> alarms_armed enabled status all hot (fst s)"

lemma irq_armed:
  assumes "irq s = Some s'" "armed all s"
  shows "armed all s'"
  using irq_masks [OF assms(1)] irq_keeps [OF assms(1)] irq_noted [OF assms(1)] irq_works [OF assms(1)]
    assms(2) unfolding alarms_armed_def by metis

lemma ack_armed: "armed all s \<Longrightarrow> armed all (ack a s)"
  unfolding alarms_armed_def ack_enabled ack_status ack_works
  using ack_noted [of s a, unfolded ack_status] by (auto simp: bit_or_iff bit_and_not)

lemma nw_armed: "armed all s \<Longrightarrow> armed all (nw s)"
  unfolding alarms_armed_def nw_alarms using nw_works by blast

lemma tw_armed: "armed all s \<Longrightarrow> armed all (tw s)"
  unfolding alarms_armed_def tw_enabled tw_status
  using tw_noted [of s, unfolded tw_status] by (auto simp: bit_or_iff bit_and_not)

lemma step_armed: "step e s = Some s' \<Longrightarrow> armed all s \<Longrightarrow> armed all s'"
  by (cases e) (auto intro: irq_armed ack_armed nw_armed tw_armed split: if_splits)

lemma run_armed: "alarm_run step es s = Some s' \<Longrightarrow> armed all s \<Longrightarrow> armed all s'"
  by (induction es arbitrary: s) (auto simp: bind_eq_Some_conv intro: step_armed)

text \<open>The works that are scheduled enable the temperature alarm again.\<close>

lemma works_enable_hot:
  assumes "armed all s" "\<And>n. bit hot n \<Longrightarrow> bit all n" "bit hot n" "n < 32"
  shows "\<exists>s'. alarm_run step [Notify_work, Temperature_work] s = Some s' \<and> bit (enabled (fst s')) n"
proof -
  let ?s = "if irq_notification_work (fst s) then nw s else s"
  let ?t = "if temperature_alarm_work (fst ?s) then tw ?s else ?s"
  have a: "armed all ?s" using assms(1) by (simp add: nw_armed)
  have "\<not> irq_notification_work (fst ?s)" by (simp add: nw_works)
  then have "bit (enabled (fst ?t)) n"
    using a assms(2,3,4) unfolding alarms_armed_def by (cases "temperature_alarm_work (fst ?s)") (simp_all only: if_True if_False tw_enabled bit_or_iff, blast+)
  then show ?thesis by (cases "irq_notification_work (fst s)"; cases "temperature_alarm_work (fst ?s)") auto
qed

lemma run_brings_hot_back:
  assumes "alarm_run step es s = Some s1" "armed all s" "\<And>n. bit hot n \<Longrightarrow> bit all n" "bit hot n" "n < 32"
  shows "\<exists>s2. alarm_run step [Notify_work, Temperature_work] s1 = Some s2 \<and> bit (enabled (fst s2)) n"
  by (rule works_enable_hot [OF run_armed [OF assms(1,2)] assms(3-5)])

end

section \<open>Both boards keep it\<close>

text \<open>The alarms in one run of \<^verbatim>\<open>me5_irq\<close>, and in \<^verbatim>\<open>me6_level_irq\<close>.\<close>

definition me5_irq_alarms :: "'s register_interface \<Rightarrow> 's me5_state \<Rightarrow> 's me5_state option" where
  "me5_irq_alarms ri ds = (case irq_status_section ri ds of
      (Irq_none, ds1) \<Rightarrow> Some ds1
    | (Irq_dead, ds1) \<Rightarrow> None
    | (Irq_sources sr, ds1) \<Rightarrow> Some (me5_alarm_irq ri sr ds1))"

definition me6_irq_alarms :: "'s register_interface \<Rightarrow> 's me6_state \<Rightarrow> 's me6_state option" where
  "me6_irq_alarms ri ds = Some (me6_level_irq ri ds)"

lemma or_and_same: "(x OR a) AND a = (a :: 'w::len word)"
  by (rule bit_eqI) (auto simp: bit_simps)

lemma and_not_same: "(x AND NOT a) AND a = (0 :: 'w::len word)"
  by (rule bit_eqI) (auto simp: bit_simps)

lemma noted_upd [simp]:
  "noted (d\<lparr>irq_alarms_status := x\<rparr>) = noted (d :: me5_data)"
  "noted (d\<lparr>irq_wanted := x\<rparr>) = noted (d :: me5_data)"
  "noted (e\<lparr>notification_time_stamp := t\<rparr>) = noted e"
  "noted (e\<lparr>irq_notification_work := b\<rparr>) = noted e"
  "noted (e\<lparr>temperature_alarm_work := b\<rparr>) = noted e"
  "noted (e\<lparr>notification_handler_heads := hs\<rparr>) = noted e"
  "noted (e\<lparr>notifications := n OR NOTIFICATION_DEVICE_ALARM\<rparr>)"
  "\<not> noted (e\<lparr>notifications := n AND - 9\<rparr>)"
  using and_not_same [of n NOTIFICATION_DEVICE_ALARM] by (simp_all add: noted_def or_and_same)

lemma irq_status_section_data:
  "irq_status_section ri ds = (Irq_none, ds1) \<Longrightarrow> fst ds1 = fst ds"
  "irq_status_section ri ds = (Irq_sources sr, ds1) \<Longrightarrow> fst ds1 = fst ds"
  by (auto simp: irq_status_section_def Let_def enable_irqs_def ack_write_def
      split: prod.splits if_splits)

lemma irq_status_section_wanted:
  "irq_status_section ri ds = (Irq_sources sr, ds1) \<Longrightarrow> sr AND NOT (irq_wanted (fst ds)) = 0"
  by (auto simp: irq_status_section_def Let_def and.assoc split: prod.splits if_splits)

lemma me5_alarm_irq_data:
  "fst (me5_alarm_irq ri sr ds) =
     (let d = fst ds; st = sr AND INT_MASK_ALARMS;
          status = irq_alarms_status d OR (st AND irq_wanted d);
          d1 = d\<lparr>irq_alarms_status := status, irq_wanted := irq_wanted d AND NOT status\<rparr>
      in if st = 0 then d
         else if status = 0 then d1
         else d1\<lparr>notifications := notifications d OR NOTIFICATION_DEVICE_ALARM,
                 notification_time_stamp := notification_time_stamp d + 1,
                 irq_notification_work := True\<rparr>)"
  by (simp add: me5_alarm_irq_def alarm_note_def alarm_mask_def enable_irqs_def Let_def)

lemma me5_irq_alarms_data:
  assumes "me5_irq_alarms ri ds = Some ds'"
  obtains "fst ds' = fst ds"
  | sr ds1 where "fst ds1 = fst ds" "ds' = me5_alarm_irq ri sr ds1"
proof (cases "irq_status_section ri ds")
  case (fields src d s)
  then show ?thesis
    using assms that irq_status_section_data(1) [of ri ds "(d, s)"]
      irq_status_section_data(2) [of ri ds _ "(d, s)"]
    by (cases src) (auto simp: me5_irq_alarms_def)
qed

lemma me5_irq_ack_data:
  "irq_wanted (fst (me5_irq_ack ri a ds)) = irq_wanted (fst ds) OR a"
  "irq_alarms_status (fst (me5_irq_ack ri a ds)) = irq_alarms_status (fst ds) AND NOT a"
  "irq_notification_work (fst (me5_irq_ack ri a ds)) = irq_notification_work (fst ds)"
  "temperature_alarm_work (fst (me5_irq_ack ri a ds)) = temperature_alarm_work (fst ds)"
  by (simp_all add: me5_irq_ack_def ack_clear_def ack_enable_def ack_write_def enable_irqs_def Let_def)

lemma me5_irq_ack_noted:
  "noted (fst ds) = (irq_alarms_status (fst ds) \<noteq> 0) \<Longrightarrow>
   noted (fst (me5_irq_ack ri a ds)) = (irq_alarms_status (fst (me5_irq_ack ri a ds)) \<noteq> 0)"
  by (auto simp: me5_irq_ack_def ack_clear_def ack_enable_def ack_write_def enable_irqs_def Let_def
      cong: if_cong)

lemma notification_work_data:
  "irq_notification_work (notification_work f d) = False"
  "noted (notification_work f d) = noted d"
  by (simp_all add: notification_work_def notify_handlers_def Let_def)

lemma me5_notification_work_data:
  "irq_wanted (fst (me5_irq_notification_work ds)) = irq_wanted (fst ds)"
  "irq_alarms_status (fst (me5_irq_notification_work ds)) = irq_alarms_status (fst ds)"
  "irq_notification_work (fst (me5_irq_notification_work ds)) = False"
  "noted (fst (me5_irq_notification_work ds)) = noted (fst ds)"
  "temperature_alarm_work (fst (me5_irq_notification_work ds)) \<longleftrightarrow>
     temperature_alarm_work (fst ds) \<or> irq_alarms_status (fst ds) AND INT_MASK_TEMPERATURE_ALARM \<noteq> 0"
  by (simp_all add: me5_irq_notification_work_def notification_work_def notify_handlers_def Let_def)

lemma me5_work_hot:
  "temperature_alarm_work (fst s) \<Longrightarrow> temperature_alarm_work (fst (me5_irq_notification_work s))"
  "bit INT_MASK_TEMPERATURE_ALARM n \<Longrightarrow> bit (irq_alarms_status (fst s)) n
     \<Longrightarrow> temperature_alarm_work (fst (me5_irq_notification_work s))"
  unfolding me5_notification_work_data using shared_bit by blast+

interpretation me5: alarm_board irq_wanted irq_alarms_status INT_MASK_TEMPERATURE_ALARM
    "me5_irq_alarms ri" "me5_irq_ack ri" me5_irq_notification_work "me5_temperature_alarm_work ri" for ri
proof (unfold_locales, goal_cases)
  case (1 s s' n)
  then show ?case by (elim me5_irq_alarms_data) (auto simp: me5_alarm_irq_data Let_def bit_or_iff bit_and_not
        simp del: bit.de_Morgan_disj bit.de_Morgan_conj)
next
  case (2 s s' n)
  then show ?case by (elim me5_irq_alarms_data) (auto simp: me5_alarm_irq_data Let_def bit_or_iff or_eq_0_iff)
next
  case (3 s s')
  then show ?case
    by (elim me5_irq_alarms_data) (auto simp: me5_alarm_irq_data Let_def or_eq_0_iff)
next
  case (4 s s')
  then show ?case
    by (elim me5_irq_alarms_data) (auto simp: me5_alarm_irq_data Let_def or_eq_0_iff)
qed (auto simp: me5_irq_ack_data me5_irq_ack_noted me5_notification_work_data(1-4)
       me5_temperature_alarm_work_def intro: me5_work_hot)

text \<open>The operations of an mE6 board, whose encoding of alarms is a parameter.\<close>

lemma me6_ack_data:
  "alarms_enabled (fst (me6_ack_alarms ri a ds)) = alarms_enabled (fst ds) OR a"
  "alarms_status (fst (me6_ack_alarms ri a ds)) = alarms_status (fst ds) AND NOT a"
  "irq_notification_work (fst (me6_ack_alarms ri a ds)) = irq_notification_work (fst ds)"
  "temperature_alarm_work (fst (me6_ack_alarms ri a ds)) = temperature_alarm_work (fst ds)"
  by (simp_all add: me6_ack_alarms_def Let_def)

lemma me6_noted_upd [simp]:
  "noted (d\<lparr>alarms_status := x\<rparr>) = noted (d :: me6_data)"
  "noted (d\<lparr>alarms_enabled := x\<rparr>) = noted (d :: me6_data)"
  by (simp_all add: noted_def)

lemma me6_ack_noted:
  "noted (fst ds) = (alarms_status (fst ds) \<noteq> 0) \<Longrightarrow>
   noted (fst (me6_ack_alarms ri a ds)) = (alarms_status (fst (me6_ack_alarms ri a ds)) \<noteq> 0)"
  by (auto simp: me6_ack_alarms_def Let_def cong: if_cong)

lemma me6_notification_work_data:
  "alarms_enabled (fst (me6_irq_notification_work f ds)) = alarms_enabled (fst ds)"
  "alarms_status (fst (me6_irq_notification_work f ds)) = alarms_status (fst ds)"
  "irq_notification_work (fst (me6_irq_notification_work f ds)) = False"
  "noted (fst (me6_irq_notification_work f ds)) = noted (fst ds)"
  "temperature_alarm_work (fst (me6_irq_notification_work f ds)) \<longleftrightarrow>
     temperature_alarm_work (fst ds)
     \<or> ucast (ucast (alarms_status (fst ds)) :: u32) AND f DEVCTRL_DEVICE_ALARM_TEMPERATURE \<noteq> 0"
  by (simp_all add: me6_irq_notification_work_def notification_work_def notify_handlers_def Let_def)

lemma me6_level_irq_data:
  assumes "me6_irq_alarms ri ds = Some ds'"
  obtains "fst ds' = fst ds" | st where "st \<noteq> 0" "fst ds' = level_note st (fst ds)"
  using assms by (auto simp: me6_irq_alarms_def me6_level_irq_def Let_def split: prod.splits if_splits)

lemma ucast_u64_eq_0: "(ucast (x :: u32) :: u64) = 0 \<longleftrightarrow> x = 0"
  by (metis unat_ucast_u32 unat_eq_zero)

lemma me6_work_hot:
  "temperature_alarm_work (fst s) \<Longrightarrow> temperature_alarm_work (fst (me6_irq_notification_work f s))"
  "n < 32 \<Longrightarrow> bit (f DEVCTRL_DEVICE_ALARM_TEMPERATURE) n \<Longrightarrow> bit (alarms_status (fst s)) n
     \<Longrightarrow> temperature_alarm_work (fst (me6_irq_notification_work f s))"
  unfolding me6_notification_work_data using shared_bit bit_low by blast+

interpretation me6: alarm_board alarms_enabled alarms_status "f DEVCTRL_DEVICE_ALARM_TEMPERATURE"
    "me6_irq_alarms ri" "me6_ack_alarms ri" "me6_irq_notification_work f"
    "me6_temperature_alarm_work ri f" for ri f
proof (unfold_locales, goal_cases)
  case (1 s s' n)
  then show ?case by (elim me6_level_irq_data) (auto simp: level_note_def bit_or_iff bit_and_iff bit_ucast_not simp del: bit_not_iff)
next
  case (2 s s' n)
  then show ?case by (elim me6_level_irq_data) (auto simp: level_note_def bit_or_iff)
next
  case (3 s s')
  then show ?case
    by (elim me6_level_irq_data) (auto simp: level_note_def or_eq_0_iff ucast_u64_eq_0)
next
  case (4 s s')
  then show ?case by (elim me6_level_irq_data) (auto simp: level_note_def)
qed (auto simp: me6_ack_data me6_ack_noted me6_notification_work_data(1-4) me6_temperature_alarm_work_def
      intro: me6_work_hot)

text \<open>A board without handlers, and a device that reports one alarm after another.\<close>

definition quiet :: notify_data where
  "quiet = \<lparr>notifications = 0, notification_time_stamp = 0, notification_handler_heads = [],
     irq_notification_work = False, temperature_alarm_work = False, temperature_alarm_period = 1000\<rparr>"

definition quiet_me5 :: me5_data where
  "quiet_me5 = notify_data.extend quiet
     \<lparr>irq_wanted = 0, irq_alarms_status = 0, dma_stop_bugfix_present = True\<rparr>"

definition quiet_me6 :: me6_data where
  "quiet_me6 = notify_data.extend quiet \<lparr>alarms_status = 0, alarms_enabled = 0\<rparr>"

lemmas quiet_defs = quiet_def quiet_me5_def quiet_me6_def notify_data.defs noted_def

end
