(* ===== verification/Alarm_Race.thy ===== *)
theory Alarm_Race
  imports Alarm_Props
begin

text \<open>
  The sections of \<^verbatim>\<open>me5_irq\<close> and \<^verbatim>\<open>me5_irq_ack\<close> interleaved: each of the two is at some point between its
  locked sections, and the other may run there, on another processor or because the interrupt arrives
  when the acknowledgement has just enabled it.
\<close>

datatype irq_pc = Irq_idle | Irq_seen u32 | Irq_noted u32

datatype ack_pc = Ack_idle | Ack_written u32 | Ack_enabled u32

type_synonym 's race_state = "irq_pc \<times> ack_pc \<times> 's me5_state"

text \<open>
  The alarms user space can acknowledge; the temperature alarm is acknowledged by its work alone.
\<close>

definition user_ack :: "u32 \<Rightarrow> bool" where
  "user_ack a \<longleftrightarrow> a AND INT_MASK_TEMPERATURE_ALARM = 0"

inductive race_step :: "'s register_interface \<Rightarrow> 's race_state \<Rightarrow> 's race_state \<Rightarrow> bool" for ri where
  Irq_begin: "irq_status_section ri ds = (Irq_sources sr, ds1) \<Longrightarrow> sr AND INT_MASK_ALARMS \<noteq> 0 \<Longrightarrow>
    race_step ri (Irq_idle, a, ds) (Irq_seen (sr AND INT_MASK_ALARMS), a, ds1)"
| Irq_other: "irq_status_section ri ds = (src, ds1) \<Longrightarrow>
    (\<And>sr. src = Irq_sources sr \<Longrightarrow> sr AND INT_MASK_ALARMS = 0) \<Longrightarrow>
    race_step ri (Irq_idle, a, ds) (Irq_idle, a, ds1)"
| Irq_note: "alarm_note st ds = (tmp, ds1) \<Longrightarrow>
    race_step ri (Irq_seen st, a, ds) (Irq_noted tmp, a, ds1)"
| Irq_mask: "race_step ri (Irq_noted tmp, a, ds) (Irq_idle, a, alarm_mask ri tmp ds)"
| Ack_begin: "user_ack alarm \<Longrightarrow>
    race_step ri (i, Ack_idle, ds) (i, Ack_written alarm, ack_write ri alarm ds)"
| Ack_hot: "temperature_alarm_work (fst ds) \<Longrightarrow>
    race_step ri (i, Ack_idle, ds)
      (i, Ack_written INT_MASK_TEMPERATURE_ALARM,
       ack_write ri INT_MASK_TEMPERATURE_ALARM ((fst ds)\<lparr>temperature_alarm_work := False\<rparr>, snd ds))"
| Ack_enable: "race_step ri (i, Ack_written alarm, ds) (i, Ack_enabled alarm, ack_enable ri alarm ds)"
| Ack_clear: "race_step ri (i, Ack_enabled alarm, ds) (i, Ack_idle, ack_clear alarm ds)"
| Notify: "irq_notification_work (fst ds) \<Longrightarrow>
    race_step ri (i, a, ds) (i, a, me5_irq_notification_work ds)"

inductive_cases race_stepE: "race_step ri (i, a, ds) s'"

text \<open>
  The temperature alarm is lost: it is neither enabled nor pending nor reported, and nothing that is
  under way or scheduled will change that.
\<close>

fun temperature_lost :: "'s race_state \<Rightarrow> bool" where
  "temperature_lost (i, a, d, s) \<longleftrightarrow>
     irq_wanted d AND INT_MASK_TEMPERATURE_ALARM = 0
     \<and> irq_alarms_status d AND INT_MASK_TEMPERATURE_ALARM = 0
     \<and> \<not> temperature_alarm_work d
     \<and> (\<forall>st. i = Irq_seen st \<longrightarrow> st AND INT_MASK_TEMPERATURE_ALARM = 0)
     \<and> (\<forall>alarm. a = Ack_written alarm \<or> a = Ack_enabled alarm \<longrightarrow> user_ack alarm)"

lemma and_sub: "x AND NOT y = 0 \<Longrightarrow> y AND t = 0 \<Longrightarrow> x AND t = (0 :: 'w::len word)"
proof (rule bit_eqI)
  fix n assume a: "x AND NOT y = 0" "y AND t = 0"
  have "bit x n \<longrightarrow> bit y n" using a(1) bit_and_not [of x y n] by simp
  moreover have "\<not> (bit y n \<and> bit t n)" using a(2) bit_and_iff [of y t n] by simp
  ultimately show "bit (x AND t) n = bit (0 :: 'w word) n" by (simp add: bit_and_iff)
qed

lemma or_and_0: "x AND t = 0 \<Longrightarrow> y AND t = 0 \<Longrightarrow> (x OR y) AND t = (0 :: 'w::len word)"
  by (simp add: bit.conj_disj_distrib2)

lemma and_and_0: "x AND t = 0 \<Longrightarrow> (x AND y) AND t = (0 :: 'w::len word)"
  by (simp add: and.commute [of x] and.assoc)

lemma irq_status_section_lost:
  assumes "irq_status_section ri ds = (src, ds1)" "irq_wanted (fst ds) AND INT_MASK_TEMPERATURE_ALARM = 0"
  shows "irq_wanted (fst ds1) AND INT_MASK_TEMPERATURE_ALARM = 0"
    "irq_alarms_status (fst ds1) = irq_alarms_status (fst ds)"
    "temperature_alarm_work (fst ds1) = temperature_alarm_work (fst ds)"
  using assms by (auto simp: irq_status_section_def Let_def enable_irqs_def ack_write_def
      split: prod.splits if_splits)

lemma temperature_lost_step:
  assumes "race_step ri s s'" "temperature_lost s"
  shows "temperature_lost s'"
  using assms
proof (induction rule: race_step.induct)
  case (Irq_begin ds sr ds1 a)
  have w: "irq_wanted (fst ds) AND INT_MASK_TEMPERATURE_ALARM = 0"
    using Irq_begin.prems by (cases ds) simp
  have "sr AND INT_MASK_TEMPERATURE_ALARM = 0"
    by (rule and_sub [OF irq_status_section_wanted [OF Irq_begin.hyps(1)] w])
  then show ?case
    using Irq_begin.prems irq_status_section_lost [OF Irq_begin.hyps(1) w]
    by (cases ds; cases ds1) (simp add: and_and_0)
next
  case (Irq_other ds src ds1 a)
  have w: "irq_wanted (fst ds) AND INT_MASK_TEMPERATURE_ALARM = 0"
    using Irq_other.prems by (cases ds) simp
  show ?case
    using Irq_other.prems irq_status_section_lost [OF Irq_other.hyps(1) w]
    by (cases ds; cases ds1) simp
next
  case (Irq_note st ds tmp ds1 a)
  then show ?case
    by (cases ds) (auto simp: alarm_note_def Let_def and_and_0 or_and_0)
next
  case (Irq_mask tmp a ds)
  then show ?case by (cases ds) (auto simp: alarm_mask_def enable_irqs_def and_and_0)
next
  case (Ack_enable i alarm ds)
  then show ?case by (cases ds) (auto simp: ack_enable_def enable_irqs_def or_and_0 user_ack_def)
next
  case (Ack_clear i alarm ds)
  then show ?case by (cases ds) (auto simp: ack_clear_def Let_def and_and_0)
next
  case (Notify ds i a)
  then show ?case
    by (cases ds) (auto simp: me5_irq_notification_work_def notification_work_def notify_handlers_def Let_def)
qed (auto simp: ack_write_def)

lemma temperature_lost_forever:
  "(race_step ri)\<^sup>*\<^sup>* s s' \<Longrightarrow> temperature_lost s \<Longrightarrow> temperature_lost s'"
  by (induction rule: rtranclp_induct) (auto intro: temperature_lost_step)

end
