(* ===== verification/Alarm_Claims.thy ===== *)
theory Alarm_Claims
  imports Alarm_Race
begin

text \<open>
  The properties of alarms and notifications on both boards.
\<close>

section \<open>Alarms that run undisturbed\<close>

lemma hot_is_alarm: "bit INT_MASK_TEMPERATURE_ALARM i \<Longrightarrow> bit INT_MASK_ALARMS i"
proof -
  have "INT_MASK_ALARMS AND INT_MASK_TEMPERATURE_ALARM = INT_MASK_TEMPERATURE_ALARM" by simp
  then show "bit INT_MASK_TEMPERATURE_ALARM i \<Longrightarrow> bit INT_MASK_ALARMS i" by (metis bit_and_iff)
qed

lemma me5_startirq_armed:
  assumes "noted (fst ds) = (irq_alarms_status (fst ds) \<noteq> 0)"
  shows "me5.armed INT_MASK_ALARMS (me5_startirq ri n ds)"
proof -
  let ?d = "fst (me5_startirq ri n ds)"
  have w: "irq_wanted ?d = push_bit ME5_IRQQ_LOW (push_bit (unat n) 1 - 1) OR INT_MASK_ALARMS"
    "irq_alarms_status ?d = irq_alarms_status (fst ds)" "noted ?d = noted (fst ds)"
    by (simp_all add: me5_startirq_def ack_write_def enable_irqs_def Let_def)
  have "bit INT_MASK_ALARMS i \<Longrightarrow> bit (irq_wanted ?d) i" for i unfolding w by (simp add: bit_or_iff)
  then show ?thesis using assms hot_is_alarm w(2,3) unfolding alarms_armed_def by metis
qed

lemma me6_startirq_armed:
  assumes "noted (fst ds) = (alarms_status (fst ds) \<noteq> 0)" "\<And>n. bit (f 1) n \<Longrightarrow> bit (f 0xffffffff) n"
  shows "me6.armed f (f 0xffffffff) (me6_startirq ri f True ds)"
  using assms by (auto simp: me6_startirq_def alarms_armed_def Let_def)


text \<open>
  On a started mE5 board whose interrupts and acknowledgements do not interrupt each other, the temperature alarm comes
  back by itself: after any such sequence, the works that are scheduled enable it again, however often it was raised. Every
  other alarm is enabled or pending as well.
\<close>

theorem me5_temperature_alarm_comes_back:
  assumes consistent: "noted (fst ds) = (irq_alarms_status (fst ds) \<noteq> 0)"
    and run: "alarm_run (alarm_step (me5_irq_alarms ri) (me5_irq_ack ri) me5_irq_notification_work
                (me5_temperature_alarm_work ri)) es (me5_startirq ri n ds) = Some s"
  shows "(\<forall>i. bit INT_MASK_ALARMS i \<longrightarrow> bit (irq_wanted (fst s)) i \<or> bit (irq_alarms_status (fst s)) i)
    \<and> (\<exists>s'. alarm_run (alarm_step (me5_irq_alarms ri) (me5_irq_ack ri) me5_irq_notification_work
                (me5_temperature_alarm_work ri)) [Notify_work, Temperature_work] s = Some s'
           \<and> irq_wanted (fst s') AND INT_MASK_TEMPERATURE_ALARM \<noteq> 0)"
proof -
  note a = me5.run_armed [OF run me5_startirq_armed [OF consistent]]
  have t: "bit INT_MASK_TEMPERATURE_ALARM 15" by simp
  obtain s' where "alarm_run (me5.step ri) [Notify_work, Temperature_work] s = Some s'"
      "bit (irq_wanted (fst s')) 15"
    using me5.works_enable_hot [OF a hot_is_alarm t, simplified] by auto
  moreover from this(2) have "irq_wanted (fst s') AND INT_MASK_TEMPERATURE_ALARM \<noteq> 0"
    using t by (metis bit_and_iff bit_0_eq bot_apply bot_bool_def)
  ultimately show ?thesis using a by (auto simp: alarms_armed_def)
qed


lemma me5_temperature_alarm_comes_back_witness:
  "\<exists>s s'. alarm_run (alarm_step (me5_irq_alarms fifo_device) (me5_irq_ack fifo_device)
       me5_irq_notification_work (me5_temperature_alarm_work fifo_device))
       [Alarm_irq, Notify_work] (me5_startirq fifo_device 4 (quiet_me5, [0x8000], [])) = Some s
     \<and> irq_wanted (fst s) AND INT_MASK_TEMPERATURE_ALARM = 0
     \<and> alarm_run (alarm_step (me5_irq_alarms fifo_device) (me5_irq_ack fifo_device)
         me5_irq_notification_work (me5_temperature_alarm_work fifo_device))
         [Notify_work, Temperature_work] s = Some s'
     \<and> irq_wanted (fst s') AND INT_MASK_TEMPERATURE_ALARM \<noteq> 0"
proof -
  have c: "noted (fst (quiet_me5, [0x8000 :: u32], [] :: (u32 \<times> u32) list))
      = (irq_alarms_status (fst (quiet_me5, [0x8000 :: u32], [] :: (u32 \<times> u32) list)) \<noteq> 0)"
    by (simp add: quiet_defs)
  obtain s where s: "alarm_run (alarm_step (me5_irq_alarms fifo_device) (me5_irq_ack fifo_device)
       me5_irq_notification_work (me5_temperature_alarm_work fifo_device))
       [Alarm_irq, Notify_work] (me5_startirq fifo_device 4 (quiet_me5, [0x8000], [])) = Some s"
     "irq_wanted (fst s) AND INT_MASK_TEMPERATURE_ALARM = 0"
    by (simp add: quiet_defs me5_startirq_def ack_write_def enable_irqs_def me5_irq_alarms_def
        irq_status_section_def fifo_device_def me5_alarm_irq_def alarm_note_def alarm_mask_def Let_def
        me5_irq_notification_work_def notification_work_def notify_handlers_def push_bit_eq_mult)
  then show ?thesis using me5_temperature_alarm_comes_back [OF c s(1)] by blast
qed

section \<open>An interrupt within an acknowledgement\<close>

text \<open>
  The acknowledgement of \<^verbatim>\<open>me5_irq_ack\<close> enables the alarm in one critical section and clears it in a later one. If the
  temperature is still too high, the interrupt arrives in between, masks the alarm and notes it, and the
  acknowledgement then clears what was noted. From there on, whatever interrupts arrive, whatever is acknowledged by user
  space and whatever works run, the temperature alarm is neither enabled nor pending nor about to be acknowledged, until the
  interrupts of the board are started anew.
\<close>

theorem interrupt_in_ack_loses_temperature_alarm:
  assumes hot: "\<forall>s. fst (ri_read ri ME5_IRQSTATUS s) = INT_MASK_TEMPERATURE_ALARM"
    and raised: "irq_alarms_status (fst ds) = INT_MASK_TEMPERATURE_ALARM"
    and scheduled: "temperature_alarm_work (fst ds)"
  shows "\<exists>d h. (race_step ri)\<^sup>*\<^sup>* (Irq_idle, Ack_idle, ds) (Irq_idle, Ack_idle, d, h)
     \<and> irq_alarms_status d = 0 \<and> \<not> noted d
     \<and> (\<forall>s. (race_step ri)\<^sup>*\<^sup>* (Irq_idle, Ack_idle, d, h) s \<longrightarrow> temperature_lost s)"
proof -
  let ?T = INT_MASK_TEMPERATURE_ALARM
  define ds1 where "ds1 = ack_write ri ?T ((fst ds)\<lparr>temperature_alarm_work := False\<rparr>, snd ds)"
  define ds2 where "ds2 = ack_enable ri ?T ds1"
  define ds3 where "ds3 = (fst ds2, snd (ri_read ri ME5_IRQSTATUS (snd ds2)))"
  define ds4 where "ds4 = snd (alarm_note ?T ds3)"
  define ds5 where "ds5 = alarm_mask ri ?T ds4"
  define ds6 where "ds6 = ack_clear ?T ds5"
  note defs = ds1_def ds2_def ds3_def ds4_def ds5_def ds6_def
  have w: "irq_wanted (fst ds2) = irq_wanted (fst ds) OR ?T"
    by (simp add: defs ack_enable_def enable_irqs_def ack_write_def)
  have "?T AND NOT (irq_wanted (fst ds2)) = 0" unfolding w by (rule bit_eqI) (auto simp: bit_simps)
  then have sec: "irq_status_section ri ds2 = (Irq_sources ?T, ds3)"
    by (simp add: irq_status_section_def case_prod_beta Let_def hot ds3_def)
  have status: "irq_alarms_status (fst ds3) = ?T"
    using raised by (simp add: defs ack_enable_def enable_irqs_def ack_write_def)
  have noted_T: "alarm_note ?T ds3 = (?T, ds4)"
    using status by (simp add: ds4_def alarm_note_def Let_def)
  have "race_step ri (Irq_idle, Ack_idle, ds) (Irq_idle, Ack_written ?T, ds1)"
    unfolding ds1_def by (rule race_step.Ack_hot [OF scheduled])
  moreover have "race_step ri (Irq_idle, Ack_written ?T, ds1) (Irq_idle, Ack_enabled ?T, ds2)"
    unfolding ds2_def by (rule race_step.Ack_enable)
  moreover have "race_step ri (Irq_idle, Ack_enabled ?T, ds2) (Irq_seen ?T, Ack_enabled ?T, ds3)"
    using race_step.Irq_begin [OF sec, of "Ack_enabled ?T"] by simp
  moreover have "race_step ri (Irq_seen ?T, Ack_enabled ?T, ds3) (Irq_noted ?T, Ack_enabled ?T, ds4)"
    by (rule race_step.Irq_note [OF noted_T])
  moreover have "race_step ri (Irq_noted ?T, Ack_enabled ?T, ds4) (Irq_idle, Ack_enabled ?T, ds5)"
    unfolding ds5_def by (rule race_step.Irq_mask)
  moreover have "race_step ri (Irq_idle, Ack_enabled ?T, ds5) (Irq_idle, Ack_idle, ds6)"
    unfolding ds6_def by (rule race_step.Ack_clear)
  ultimately have run: "(race_step ri)\<^sup>*\<^sup>* (Irq_idle, Ack_idle, ds) (Irq_idle, Ack_idle, ds6)"
    by (meson converse_rtranclp_into_rtranclp rtranclp.rtrancl_refl)
  have d4: "irq_alarms_status (fst ds4) = ?T" "\<not> temperature_alarm_work (fst ds4)"
    using status by (simp_all add: ds4_def alarm_note_def Let_def defs ack_enable_def enable_irqs_def ack_write_def)
  have d6: "irq_alarms_status (fst ds6) = 0" "\<not> noted (fst ds6)" "\<not> temperature_alarm_work (fst ds6)"
      "irq_wanted (fst ds6) = irq_wanted (fst ds4) AND NOT ?T"
    using d4 by (simp_all add: ds6_def ds5_def ack_clear_def alarm_mask_def enable_irqs_def Let_def)
  have "temperature_lost (Irq_idle, Ack_idle, ds6)"
    using d6 and_not_same [of "irq_wanted (fst ds4)" ?T] by (cases ds6) simp
  then have "\<forall>s. (race_step ri)\<^sup>*\<^sup>* (Irq_idle, Ack_idle, ds6) s \<longrightarrow> temperature_lost s"
    by (metis temperature_lost_forever)
  then show ?thesis using run d6(1,2)
    by (intro exI [of _ "fst ds6"] exI [of _ "snd ds6"]) simp
qed

definition hot_device :: "unit register_interface" where
  "hot_device = \<lparr>ri_read = (\<lambda>a s. (INT_MASK_TEMPERATURE_ALARM, s)), ri_write = (\<lambda>a v s. s)\<rparr>"

lemma interrupt_in_ack_loses_temperature_alarm_witness:
  "\<exists>d h. (race_step hot_device)\<^sup>*\<^sup>*
      (Irq_idle, Ack_idle, quiet_me5\<lparr>irq_wanted := 0x3f00, irq_alarms_status := INT_MASK_TEMPERATURE_ALARM,
         notifications := NOTIFICATION_DEVICE_ALARM, temperature_alarm_work := True\<rparr>, ())
      (Irq_idle, Ack_idle, d, h) \<and> irq_alarms_status d = 0 \<and> \<not> noted d
      \<and> (\<forall>s. (race_step hot_device)\<^sup>*\<^sup>* (Irq_idle, Ack_idle, d, h) s \<longrightarrow> temperature_lost s)"
  by (rule interrupt_in_ack_loses_temperature_alarm) (simp_all add: hot_device_def)

section \<open>Stopping\<close>

text \<open>
  \<^verbatim>\<open>me5_stopirq\<close> cancels the work of the temperature alarm, but not the work that schedules it: if the
  interrupt was the last thing before the stop, the alarm is enabled on the stopped board.
\<close>

lemma stopped_board_enables_temperature_alarm:
  assumes "irq_notification_work (fst ds)" "irq_alarms_status (fst ds) AND INT_MASK_TEMPERATURE_ALARM \<noteq> 0"
    "0 < active"
  shows "irq_wanted (fst (me5_stopirq ri active ds)) = 0
    \<and> (\<exists>s. alarm_run (me5.step ri) [Notify_work, Temperature_work] (me5_stopirq ri active ds) = Some s
         \<and> irq_wanted (fst s) = INT_MASK_TEMPERATURE_ALARM)"
proof -
  let ?s = "me5_stopirq ri active ds"
  have d: "irq_wanted (fst ?s) = 0" "irq_notification_work (fst ?s)"
      "irq_alarms_status (fst ?s) = irq_alarms_status (fst ds)"
    using assms by (simp_all add: me5_stopirq_def cancel_temperature_work_def enable_irqs_def ack_write_def Let_def)
  let ?n = "me5_irq_notification_work ?s"
  have "temperature_alarm_work (fst ?n)" "irq_wanted (fst ?n) = 0"
    using d assms(2) by (simp_all add: me5_notification_work_data)
  then have "irq_wanted (fst (me5_temperature_alarm_work ri ?n)) = INT_MASK_TEMPERATURE_ALARM"
      "alarm_run (me5.step ri) [Notify_work, Temperature_work] ?s = Some (me5_temperature_alarm_work ri ?n)"
    using d(2) by (simp_all add: me5.tw_enabled)
  then show ?thesis using d(1) by blast
qed

section \<open>Removal\<close>

definition removed :: "'a notify_data_scheme \<Rightarrow> bool" where
  "removed d \<longleftrightarrow> notifications d AND NOTIFICATION_DEVICE_REMOVED \<noteq> 0"

lemma removed_or: "removed d \<Longrightarrow> removed (d\<lparr>notifications := notifications d OR x\<rparr>)"
  by (auto simp: removed_def bit.conj_disj_distrib2 or_eq_0_iff)

lemma removed_and_not_alarm:
  "removed (d\<lparr>notifications := notifications d AND NOT NOTIFICATION_DEVICE_ALARM\<rparr>) = removed d"
proof -
  have "(n AND NOT NOTIFICATION_DEVICE_ALARM) AND NOTIFICATION_DEVICE_REMOVED
      = n AND NOTIFICATION_DEVICE_REMOVED" for n by (simp add: and.assoc)
  then show ?thesis by (simp add: removed_def del: bit.de_Morgan_conj)
qed

lemma removed_cong: "notifications d' = notifications d \<Longrightarrow> removed d' = removed d"
  by (simp add: removed_def)

lemma alarm_irq_removed:
  assumes "me5_irq_alarms ri ds = Some ds'" "removed (fst ds)" shows "removed (fst ds')"
  using assms(1)
proof (rule me5_irq_alarms_data)
  fix sr ds1 assume "fst ds1 = fst ds" "ds' = me5_alarm_irq ri sr ds1"
  then show ?thesis
    using assms(2) removed_or [OF assms(2), of NOTIFICATION_DEVICE_ALARM]
    by (simp add: me5_alarm_irq_data Let_def removed_def)
qed (use assms(2) in simp)

lemma ack_removed: "removed (fst (me5_irq_ack ri a ds)) = removed (fst ds)"
  using removed_and_not_alarm [of "fst ds"]
  by (simp add: me5_irq_ack_def ack_clear_def ack_enable_def ack_write_def enable_irqs_def Let_def removed_def)

lemma step_removed:
  assumes "me5.step ri e ds = Some ds'" "removed (fst ds)" shows "removed (fst ds')"
proof (cases e)
  case Alarm_irq
  then show ?thesis using assms alarm_irq_removed [of ri ds ds'] by simp
next
  case (Alarm_ack a)
  then show ?thesis using assms by (auto simp: ack_removed)
next
  case Notify_work
  then show ?thesis using assms
    by (auto simp: me5_irq_notification_work_def notification_work_def notify_handlers_def removed_def Let_def
        split: if_splits)
next
  case Temperature_work
  have "removed (fst (me5_temperature_alarm_work ri ds)) = removed (fst ds)"
    unfolding me5_temperature_alarm_work_def ack_removed by (simp add: removed_def)
  then show ?thesis using assms Temperature_work by (auto split: if_splits)
qed

lemma run_removed: "alarm_run (me5.step ri) es ds = Some ds' \<Longrightarrow> removed (fst ds) \<Longrightarrow> removed (fst ds')"
  by (induction es arbitrary: ds) (auto simp: bind_eq_Some_conv intro: step_removed)

lemma notify_removed_removed: "removed (notify_removed d)"
  using or_and_same [of "notifications d" NOTIFICATION_DEVICE_REMOVED]
  by (simp add: notify_removed_def notify_handlers_def removed_def)

lemma answer_removed:
  assumes "answer_notification pp p ok pl t h d = (0, Some r, d')" "removed d"
  shows "reply_event r = Some (if quit_requested h then DEVCTRL_ASYNC_NOTIFY_DRIVER_CLOSED
                               else DEVCTRL_ASYNC_NOTIFY_DEVICE_REMOVED)"
  using assms by (auto simp: answer_notification_def async_event_def removed_def Let_def split: if_splits)

lemma get_async_notify_removed:
  assumes "get_async_notify pp p size_ok mem ok pl w d = Some (0, Some r, d')" "removed d"
    and others: "\<And>d. removed d \<Longrightarrow> removed (snd w d)"
  shows "reply_event r = Some DEVCTRL_ASYNC_NOTIFY_DRIVER_CLOSED
    \<or> reply_event r = Some DEVCTRL_ASYNC_NOTIFY_DEVICE_REMOVED"
proof -
  have c: "removed (snd (me5_create_notify_handler mem pp p d))"
    using assms(2) by (simp add: me5_create_notify_handler_def removed_def)
  have w: "removed x \<Longrightarrow> removed (wait_notification pp p w x)" for x
    using others [of x] by (simp add: wait_notification_def upd_handler_def Let_def removed_def)
  obtain b d1 where d1: "(case me5_get_notify_handler pp p d of
        Some h \<Rightarrow> (True, d) | None \<Rightarrow> me5_create_notify_handler mem pp p d) = (b, d1)" by fastforce
  have r1: "removed d1" using d1 c assms(2) by (simp split: option.splits)
  obtain h where h: "me5_get_notify_handler pp p d1 = Some h"
    using assms(1) d1 by (auto simp: get_async_notify_def Let_def split: if_splits option.splits)
  define W where "W \<longleftrightarrow> \<not> quit_requested h \<and>
      (seen_time_stamp h = notification_time_stamp d \<or> notifications d = 0)"
  define d2 where "d2 = (if W then wait_notification pp p w d1 else d1)"
  have r2: "removed d2" using r1 w by (simp add: d2_def)
  have "size_ok" "b" using assms(1) d1 by (auto simp: get_async_notify_def Let_def split: if_splits)
  then have "get_async_notify pp p size_ok mem ok pl w d =
      map_option (\<lambda>h2. answer_notification pp p ok pl (if W then fst w else ticks_250ms) h2 d2)
        (me5_get_notify_handler pp p d2)"
    unfolding get_async_notify_def d1 Let_def d2_def W_def by (simp only: prod.case h option.case not_True_eq_False if_False simp_thms)
  then have e: "Some (0, Some r, d') =
      map_option (\<lambda>h2. answer_notification pp p ok pl (if W then fst w else ticks_250ms) h2 d2)
        (me5_get_notify_handler pp p d2)" unfolding assms(1) .
  have "\<exists>h2. answer_notification pp p ok pl (if W then fst w else ticks_250ms) h2 d2 = (0, Some r, d')"
  proof (cases "me5_get_notify_handler pp p d2")
    case (Some h2)
    show ?thesis using e [symmetric] unfolding Some option.map option.inject by blast
  qed (use e in simp)
  then obtain h2 where a: "answer_notification pp p ok pl (if W then fst w else ticks_250ms) h2 d2
      = (0, Some r, d')" by blast
  show ?thesis using answer_removed [OF a r2] by (cases "quit_requested h2") simp_all
qed

text \<open>
  A board that was reconfigured once never reports an alarm again: nothing clears \<^verbatim>\<open>NOTIFICATION_DEVICE_REMOVED\<close>, which has
  precedence. After any sequence of alarms, acknowledgements and works, whatever happens during the wait, a process
  that asks for notifications is told that the device was removed or that the driver was closed.
\<close>

theorem alarms_after_removal_are_not_reported:
  assumes run: "alarm_run (alarm_step (me5_irq_alarms ri) (me5_irq_ack ri) me5_irq_notification_work
                (me5_temperature_alarm_work ri)) es (me5_startirq ri n (notify_removed d, h)) = Some s"
    and others: "\<And>d. notifications d AND NOTIFICATION_DEVICE_REMOVED \<noteq> 0
                  \<Longrightarrow> notifications (snd w d) AND NOTIFICATION_DEVICE_REMOVED \<noteq> 0"
    and answer: "get_async_notify pp p True mem ok (\<lambda>d. me5_alarm_pl (irq_alarms_status d)) w (fst s)
                   = Some (0, Some r, d')"
  shows "reply_event r = Some DEVCTRL_ASYNC_NOTIFY_DRIVER_CLOSED
    \<or> reply_event r = Some DEVCTRL_ASYNC_NOTIFY_DEVICE_REMOVED"
proof -
  have "removed (fst (me5_startirq ri n (notify_removed d, h)))"
    using notify_removed_removed [of d]
    by (simp add: me5_startirq_def ack_write_def enable_irqs_def Let_def removed_def)
  then have "removed (fst s)" by (rule run_removed [OF run])
  then show ?thesis using get_async_notify_removed [OF answer _ others [folded removed_def]] by simp
qed

lemma alarms_after_removal_are_not_reported_witness:
  "\<exists>s r d'. alarm_run (alarm_step (me5_irq_alarms fifo_device) (me5_irq_ack fifo_device)
       me5_irq_notification_work (me5_temperature_alarm_work fifo_device)) [Alarm_irq]
       (me5_startirq fifo_device 4 (notify_removed (quiet_me5\<lparr>notification_handler_heads :=
          [\<lparr>pid = 7, ppid = 6, seen_time_stamp = 0, notification_available = 0, quit_requested = False\<rparr>]\<rparr>),
          [INT_MASK_PHY_MANAGEMENT], [])) = Some s
     \<and> irq_alarms_status (fst s) = INT_MASK_PHY_MANAGEMENT
     \<and> get_async_notify 6 7 True True True (\<lambda>d. me5_alarm_pl (irq_alarms_status d)) (0, \<lambda>d. d) (fst s)
         = Some (0, Some r, d')
     \<and> reply_event r \<noteq> Some DEVCTRL_ASYNC_NOTIFY_DEVICE_ALARM"
proof -
  let ?d = "quiet_me5\<lparr>notification_handler_heads :=
      [\<lparr>pid = 7, ppid = 6, seen_time_stamp = 0, notification_available = 0, quit_requested = False\<rparr>]\<rparr>"
  obtain s where s: "alarm_run (alarm_step (me5_irq_alarms fifo_device) (me5_irq_ack fifo_device)
       me5_irq_notification_work (me5_temperature_alarm_work fifo_device)) [Alarm_irq]
       (me5_startirq fifo_device 4 (notify_removed ?d, [INT_MASK_PHY_MANAGEMENT], [])) = Some s"
    "irq_alarms_status (fst s) = INT_MASK_PHY_MANAGEMENT"
    "notification_handler_heads (fst s) = [\<lparr>pid = 7, ppid = 6, seen_time_stamp = 0,
        notification_available = 1, quit_requested = False\<rparr>]"
    "notification_time_stamp (fst s) = 2" "notifications (fst s) = 10"
    by (simp add: quiet_defs me5_startirq_def ack_write_def enable_irqs_def me5_irq_alarms_def
        irq_status_section_def fifo_device_def me5_alarm_irq_def alarm_note_def alarm_mask_def Let_def
        notify_removed_def notify_handlers_def complete_handler_def push_bit_eq_mult)
  obtain r d' where r: "get_async_notify 6 7 True True True (\<lambda>d. me5_alarm_pl (irq_alarms_status d))
      (0, \<lambda>d. d) (fst s) = Some (0, Some r, d')"
    using s(3-5) by (simp add: get_async_notify_def me5_get_notify_handler_def is_handler_of_def
        answer_notification_def Let_def)
  then show ?thesis
    using s(1,2) alarms_after_removal_are_not_reported [OF s(1) _ r] by fastforce
qed

end
