(* ===== verification/Alarm_Codes.thy ===== *)
theory Alarm_Codes
  imports Alarm_Props
begin

text \<open>
  The encodings of alarms in the replies to user space and in its requests.
\<close>

section \<open>What is reported can be acknowledged\<close>

lemma and_power: "x AND 2 ^ n = (if x AND 2 ^ n \<noteq> 0 then 2 ^ n else (0 :: 'w::len word))"
proof -
  have "x AND 2 ^ n = (if bit x n then 2 ^ n else 0)"
    by (rule bit_eqI) (auto simp: bit_simps)
  then show ?thesis by auto
qed

lemma me6_impulse_roundtrip:
  "me6_impulse_event_pl_to_alarm (me6_impulse_alarm_to_event_pl a) = a AND 3"
proof -
  have m: "a AND 3 = a AND 1 OR a AND 2" by (simp flip: bit.conj_disj_distrib)
  show ?thesis
    unfolding m me6_impulse_event_pl_to_alarm_def me6_impulse_alarm_to_event_pl_def
    using and_power [of a 0] and_power [of a 1]
    by (cases "a AND 1 = 0"; cases "a AND 2 = 0") simp_all
qed

lemma me6_abacus_roundtrip:
  "me6_abacus_event_pl_to_alarm (me6_abacus_alarm_to_event_pl a) = a AND 0x7f"
proof -
  have m: "a AND 0x7f = a AND 1 OR a AND 2 OR a AND 4 OR a AND 8 OR a AND 0x10 OR a AND 0x20 OR a AND 0x40"
    by (simp flip: bit.conj_disj_distrib)
  show ?thesis
    unfolding m me6_abacus_event_pl_to_alarm_def me6_abacus_alarm_to_event_pl_def
    using and_power [of a 0] and_power [of a 1] and_power [of a 2] and_power [of a 3]
      and_power [of a 4] and_power [of a 5] and_power [of a 6]
    by (cases "a AND 1 = 0"; cases "a AND 2 = 0"; cases "a AND 4 = 0"; cases "a AND 8 = 0";
        cases "a AND 0x10 = 0"; cases "a AND 0x20 = 0"; cases "a AND 0x40 = 0") simp_all
qed

text \<open>The alarms of mE5 boards; the four lost action commands are reported four bits lower.\<close>

lemma action_cmd_bits:
  fixes x :: u32
  defines "A \<equiv> drop_bit 4 (ucast (x AND INT_MASK_ACTION_CMD_LOST)) :: u64"
  shows "A AND DEVCTRL_DEVICE_ALARM_ACL_MASK = A"
    and "ucast (push_bit 4 A) AND INT_MASK_ACTION_CMD_LOST = x AND INT_MASK_ACTION_CMD_LOST"
    and "A = 0 \<longleftrightarrow> x AND INT_MASK_ACTION_CMD_LOST = 0"
proof -
  have m: "INT_MASK_ACTION_CMD_LOST = push_bit 8 (mask 4)" "DEVCTRL_DEVICE_ALARM_ACL_MASK = push_bit 4 (mask 4)"
    by (simp_all add: mask_eq_exp_minus_1 push_bit_eq_mult)
  have b: "bit A n \<longleftrightarrow> 4 \<le> n \<and> n < 8 \<and> bit x (n + 4)" for n
    unfolding A_def m by (auto simp: bit_simps add.commute)
  show "A AND DEVCTRL_DEVICE_ALARM_ACL_MASK = A"
    unfolding m by (rule bit_eqI) (auto simp: bit_and_iff b bit_simps)
  show c: "ucast (push_bit 4 A) AND INT_MASK_ACTION_CMD_LOST = x AND INT_MASK_ACTION_CMD_LOST"
    unfolding m by (rule bit_eqI) (auto simp: bit_and_iff bit_ucast_iff bit_push_bit_iff b bit_mask_iff add.commute)
  show "A = 0 \<longleftrightarrow> x AND INT_MASK_ACTION_CMD_LOST = 0"
    using c by (auto simp: A_def)
qed

lemma me5_alarm_pl_bits:
  "me5_alarm_pl x AND DEVCTRL_DEVICE_ALARM_TEMPERATURE \<noteq> 0 \<longleftrightarrow> x AND INT_MASK_TEMPERATURE_ALARM \<noteq> 0"
  "me5_alarm_pl x AND DEVCTRL_DEVICE_ALARM_PHY \<noteq> 0 \<longleftrightarrow> x AND INT_MASK_PHY_MANAGEMENT \<noteq> 0"
  "me5_alarm_pl x AND DEVCTRL_DEVICE_ALARM_POE \<noteq> 0 \<longleftrightarrow> x AND INT_MASK_POE \<noteq> 0"
  "me5_alarm_pl x AND DEVCTRL_DEVICE_ALARM_ACL_MASK = drop_bit 4 (ucast (x AND INT_MASK_ACTION_CMD_LOST))"
proof -
  define A :: u64 where "A = drop_bit 4 (ucast (x AND INT_MASK_ACTION_CMD_LOST))"
  have a: "A AND 0xf0 = A" unfolding A_def by (rule action_cmd_bits(1))
  have "A AND c = 0" if "0xf0 AND c = 0" for c using that a by (metis and.assoc and_zero_eq)
  then have z: "A AND 1 = 0" "A AND 2 = 0" "A AND 4 = 0" by simp_all
  note d = me5_alarm_pl_def [of x, folded A_def] bit.conj_disj_distrib2 a z
  show "me5_alarm_pl x AND DEVCTRL_DEVICE_ALARM_TEMPERATURE \<noteq> 0 \<longleftrightarrow> x AND INT_MASK_TEMPERATURE_ALARM \<noteq> 0"
    "me5_alarm_pl x AND DEVCTRL_DEVICE_ALARM_PHY \<noteq> 0 \<longleftrightarrow> x AND INT_MASK_PHY_MANAGEMENT \<noteq> 0"
    "me5_alarm_pl x AND DEVCTRL_DEVICE_ALARM_POE \<noteq> 0 \<longleftrightarrow> x AND INT_MASK_POE \<noteq> 0"
    "me5_alarm_pl x AND DEVCTRL_DEVICE_ALARM_ACL_MASK = drop_bit 4 (ucast (x AND INT_MASK_ACTION_CMD_LOST))"
    unfolding A_def [symmetric] by (simp_all add: d)
qed

lemma word_and_eq_0: "(x AND y = (0 :: 'w::len word)) \<longleftrightarrow> (\<forall>n. \<not> (bit x n \<and> bit y n))"
  by (auto simp: bit_eq_iff bit_and_iff dest: bit_imp_le_length)

lemma ack_in_turn:
  fixes x :: "'w::len word"
  assumes "x AND NOT (t OR p OR c OR e) = 0" "t AND (p OR c OR e) = 0"
  shows "((x AND NOT (x AND p)) AND NOT (x AND c)) AND NOT (x AND e) = x AND t"
    "((w OR (x AND p)) OR (x AND c)) OR (x AND e) = w OR (x AND NOT t)"
proof -
  have s: "bit x n \<Longrightarrow> bit t n \<or> bit p n \<or> bit c n \<or> bit e n" for n
    using assms(1) bit_and_not [of x "t OR p OR c OR e" n] by (auto simp: bit_or_iff)
  have d: "\<not> (bit t n \<and> (bit p n \<or> bit c n \<or> bit e n))" for n
    using assms(2) by (auto simp: word_and_eq_0 bit_or_iff)
  show "((x AND NOT (x AND p)) AND NOT (x AND c)) AND NOT (x AND e) = x AND t"
  proof (rule bit_eqI)
    fix n show "bit (((x AND NOT (x AND p)) AND NOT (x AND c)) AND NOT (x AND e)) n = bit (x AND t) n"
      using s [of n] d [of n] unfolding bit_and_not unfolding bit_and_iff by blast
  qed
  show "((w OR (x AND p)) OR (x AND c)) OR (x AND e) = w OR (x AND NOT t)"
  proof (rule bit_eqI)
    fix n show "bit (((w OR (x AND p)) OR (x AND c)) OR (x AND e)) n = bit (w OR (x AND NOT t)) n"
      using s [of n] d [of n] unfolding bit_and_not bit_or_iff unfolding bit_and_iff by blast
  qed
qed

text \<open>
  If user space answers a report with the payload of the report, exactly the reported alarms are acknowledged and
  enabled again, save the temperature alarm, which stays pending until its work runs. The encodings of the mE6 variants
  are inverse to each other on the alarms of the variant.
\<close>

theorem reported_alarms_are_acknowledged:
  assumes known: "irq_alarms_status (fst ds) AND NOT INT_MASK_ALARMS = 0"
    and ds': "ds' = me5_reset_async_notify ri pp DEVCTRL_ASYNC_NOTIFY_DEVICE_ALARM
                    (me5_alarm_pl (irq_alarms_status (fst ds))) ph ds"
  shows "irq_alarms_status (fst ds') = irq_alarms_status (fst ds) AND INT_MASK_TEMPERATURE_ALARM
    \<and> irq_wanted (fst ds') = irq_wanted (fst ds)
        OR (irq_alarms_status (fst ds) AND NOT INT_MASK_TEMPERATURE_ALARM)
    \<and> me6_abacus_event_pl_to_alarm (me6_abacus_alarm_to_event_pl a) = a AND 0x7f
    \<and> me6_impulse_event_pl_to_alarm (me6_impulse_alarm_to_event_pl a) = a AND 3"
proof -
  let ?x = "irq_alarms_status (fst ds)" and ?P = INT_MASK_PHY_MANAGEMENT
    and ?C = INT_MASK_ACTION_CMD_LOST and ?E = INT_MASK_POE
  let ?ack = "\<lambda>c s. if ?x AND c \<noteq> 0 then me5_irq_ack ri (?x AND c) s else s"
  let ?t = "if ?x AND INT_MASK_TEMPERATURE_ALARM \<noteq> 0 then (set_temperature_period ph (fst ds), snd ds) else ds"
  have acked: "irq_alarms_status (fst (?ack c s)) = irq_alarms_status (fst s) AND NOT (?x AND c)"
    "irq_wanted (fst (?ack c s)) = irq_wanted (fst s) OR (?x AND c)" for c s
    by (simp_all add: me5_irq_ack_data del: bit.de_Morgan_conj)
  have t: "irq_alarms_status (fst ?t) = ?x" "irq_wanted (fst ?t) = irq_wanted (fst ds)"
    by (simp_all add: set_temperature_period_def Let_def)
  have single: "?x AND ?P \<noteq> 0 \<Longrightarrow> ?x AND ?P = ?P" "?x AND ?E \<noteq> 0 \<Longrightarrow> ?x AND ?E = ?E"
    using and_power [of ?x 12] and_power [of ?x 13] by simp_all
  have "ds' = ?ack ?E (?ack ?C (?ack ?P ?t))"
    unfolding ds' me5_reset_async_notify_def me5_reset_alarms_def Let_def me5_alarm_pl_bits
      action_cmd_bits(2,3)
    by (simp add: single cong: if_cong)
  then have s: "irq_alarms_status (fst ds') = ((?x AND NOT (?x AND ?P)) AND NOT (?x AND ?C)) AND NOT (?x AND ?E)"
      "irq_wanted (fst ds') = ((irq_wanted (fst ds) OR (?x AND ?P)) OR (?x AND ?C)) OR (?x AND ?E)"
    by (simp_all only: acked t)
  have "INT_MASK_TEMPERATURE_ALARM OR ?P OR ?C OR ?E = INT_MASK_ALARMS" by simp
  then show ?thesis
    using ack_in_turn [of ?x INT_MASK_TEMPERATURE_ALARM ?P ?C ?E] known
    unfolding s by (simp only: me6_abacus_roundtrip me6_impulse_roundtrip) simp
qed

lemma reported_alarms_are_acknowledged_witness:
  "\<exists>ds'. irq_alarms_status (fst (ds' :: (u32 list \<times> (u32 \<times> u32) list) me5_state)) = INT_MASK_TEMPERATURE_ALARM
     \<and> irq_wanted (fst ds') = 0x1500"
proof -
  let ?ds = "(quiet_me5\<lparr>irq_wanted := 0x400, irq_alarms_status := 0x9100\<rparr>, [], [])"
  have "irq_alarms_status (fst ?ds) AND NOT INT_MASK_ALARMS = 0" by simp
  from reported_alarms_are_acknowledged [OF this refl, of fifo_device 1 0 0]
  show ?thesis by auto
qed

end
