(* ===== verification/Me5_Dma.thy ===== *)
theory Me5_Dma
  imports Dma_Irq_Props Me5_Alarms
begin

text \<open>
  The DMA engine of mE5 boards, \<^verbatim>\<open>linux/menable5.c\<close>. The state behind the registers of a board is the data of
  \<^verbatim>\<open>struct me5_data\<close> and the device, since starting and stopping a channel changes the wanted
  interrupts. The engine counts the frames of a channel in a register, and the driver counts them in
  \<^verbatim>\<open>imgcnt\<close>; an interrupt handles the difference.
\<close>

abbreviation ME5_NUMDMA :: u32 where "ME5_NUMDMA \<equiv> 0x0002"
abbreviation ME5_DMAOFFS :: u32 where "ME5_DMAOFFS \<equiv> 0x0110"
abbreviation ME5_DMASZ :: u32 where "ME5_DMASZ \<equiv> 0x0010"
abbreviation ME5_DMACTRL :: u32 where "ME5_DMACTRL \<equiv> 0"
abbreviation ME5_DMAADDR :: u32 where "ME5_DMAADDR \<equiv> 2"
abbreviation ME5_DMAACTIVE :: u32 where "ME5_DMAACTIVE \<equiv> 4"
abbreviation ME5_DMALENGTH :: u32 where "ME5_DMALENGTH \<equiv> 6"
abbreviation ME5_DMACOUNT :: u32 where "ME5_DMACOUNT \<equiv> 8"
abbreviation ME5_DMAMAXLEN :: u32 where "ME5_DMAMAXLEN \<equiv> 0xa"
abbreviation ME5_DMATYPE :: u32 where "ME5_DMATYPE \<equiv> 0xc"
abbreviation ME5_DMATAG :: u32 where "ME5_DMATAG \<equiv> 0xe"
abbreviation EACCES :: int where "EACCES \<equiv> 13"

text \<open>The registers of the device, and the data of the board, behind \<^verbatim>\<open>struct siso_menable\<close>.\<close>

definition me5_regs :: "'s register_interface \<Rightarrow> 's me5_state register_interface" where
  "me5_regs ri = \<lparr>
     ri_read = (\<lambda>a (d, s). let (v, s') = ri_read ri a s in (v, (d, s'))),
     ri_write = (\<lambda>a v (d, s). (d, ri_write ri a v s))\<rparr>"

definition upd_d5 :: "(me5_data \<Rightarrow> me5_data) \<Rightarrow> 's me5_state siso_menable \<Rightarrow> 's me5_state siso_menable" where
  "upd_d5 f m = m\<lparr>hw := (f (fst (hw m)), snd (hw m))\<rparr>"

definition d5 :: "'s me5_state siso_menable \<Rightarrow> me5_data" where
  "d5 m = fst (hw m)"

text \<open>\<^verbatim>\<open>me5_dmabase\<close>: the registers of a channel and its bit in the interrupt registers.\<close>

definition me5_iobase :: "menable_dmachan \<Rightarrow> u32" where
  "me5_iobase c = ME5_DMAOFFS + ME5_DMASZ * of_nat (number c)"

definition chan_bit :: "menable_dmachan \<Rightarrow> u32" where
  "chan_bit c = push_bit (number c) 1"

definition me5_query_dma ::
    "'s register_interface \<Rightarrow> nat \<Rightarrow> 's me5_state siso_menable \<Rightarrow> u32 \<times> 's me5_state siso_menable" where
  "me5_query_dma ri arg m =
     (let (u, m1) = reg_read (me5_regs ri) ME5_NUMDMA m
      in if u = 0xffffffff then (0, m1) else (u, m1))"

section \<open>Start and stop\<close>

text \<open>Reading the control register until the abort bit is as wanted, 100 times at most.\<close>

fun abort_poll ::
    "'s register_interface \<Rightarrow> u32 \<Rightarrow> bool \<Rightarrow> nat \<Rightarrow> 's me5_state siso_menable \<Rightarrow> 's me5_state siso_menable" where
  "abort_poll ri a want 0 m = m"
| "abort_poll ri a want (Suc n) m =
     (let (dmastat, m1) = reg_read (me5_regs ri) a m
      in if (dmastat AND 4 \<noteq> 0) = want then m1 else abort_poll ri a want n m1)"

definition me5_abortdma ::
    "'s register_interface \<Rightarrow> chan_ptr \<Rightarrow> 's me5_state siso_menable \<Rightarrow> 's me5_state siso_menable" where
  "me5_abortdma ri cp m =
     (let ctrl = me5_iobase (chans m cp) + ME5_DMACTRL;
          m1 = abort_poll ri ctrl True 100 (reg_write (me5_regs ri) ctrl 2 m)
      in abort_poll ri ctrl False 100 (reg_write (me5_regs ri) ctrl 0 m1))"

definition me5_stopdma ::
    "'s register_interface \<Rightarrow> chan_ptr \<Rightarrow> 's me5_state siso_menable \<Rightarrow> 's me5_state siso_menable" where
  "me5_stopdma ri cp m =
     (let ctrl = me5_iobase (chans m cp) + ME5_DMACTRL; b = chan_bit (chans m cp);
          m1 = reg_write (me5_regs ri) ctrl 0 m;
          m2 = snd (reg_read (me5_regs ri) ctrl m1);
          (irqreg, m3) = reg_read (me5_regs ri) ME5_IRQENABLE m2;
          m4 = reg_write (me5_regs ri) ME5_IRQENABLE (irqreg AND NOT b) m3;
          m5 = reg_write (me5_regs ri) ME5_IRQACK b m4;
          m6 = upd_d5 (\<lambda>d. d\<lparr>irq_wanted := irq_wanted d AND NOT b\<rparr>) m5
      in if dma_stop_bugfix_present (d5 m6)
         then let m7 = abort_poll ri ctrl True 100 (reg_write (me5_regs ri) ctrl 2 m6)
              in abort_poll ri ctrl False 100 (reg_write (me5_regs ri) ctrl 0 m7)
         else m6)"

text \<open>The registers that start the engine, after the channel's interrupt was enabled.\<close>

definition me5_go :: "'s register_interface \<Rightarrow> u32 \<Rightarrow> 's me5_state siso_menable \<Rightarrow> 's me5_state siso_menable" where
  "me5_go ri io m =
     (let m1 = snd (reg_read (me5_regs ri) (io + ME5_DMAACTIVE)
                      (reg_write (me5_regs ri) (io + ME5_DMAACTIVE) 1 m));
          m2 = snd (reg_read (me5_regs ri) (io + ME5_DMAACTIVE)
                      (reg_write (me5_regs ri) (io + ME5_DMAACTIVE) 0 m1))
      in snd (reg_read (me5_regs ri) (io + ME5_DMACTRL) (reg_write (me5_regs ri) (io + ME5_DMACTRL) 1 m2)))"

definition me5_startdma ::
    "'s register_interface \<Rightarrow> chan_ptr \<Rightarrow> 's me5_state siso_menable
     \<Rightarrow> (int \<times> 's me5_state siso_menable) option" where
  "me5_startdma ri cp m =
     (let io = me5_iobase (chans m cp); b = chan_bit (chans m cp);
          m1 = me5_abortdma ri cp m;
          dir = (if direction (chans m cp) = DMA_TO_DEVICE then 2 else 1);
          (tmp, m2) = reg_read (me5_regs ri) (io + ME5_DMATYPE) m1
      in if tmp AND dir = 0 then Some (- EACCES, m2)
         else
           let m3 = reg_write (me5_regs ri) (io + ME5_DMATYPE) dir m2;
               m4 = reg_write (me5_regs ri) ME5_IRQACK b m3;
               (count, m5) = reg_read (me5_regs ri) (io + ME5_DMACOUNT) m4
           in case queue_max_chan cp (upd_chan cp (\<lambda>c. c\<lparr>imgcnt := ucast count\<rparr>) m5) of
                None \<Rightarrow> None
              | Some m6 \<Rightarrow>
                  let m7 = upd_d5 (\<lambda>d. d\<lparr>irq_wanted := irq_wanted d OR b\<rparr>) m6;
                      m8 = reg_write (me5_regs ri) ME5_IRQENABLE (irq_wanted (d5 m7)) m7
                  in Some (0, me5_go ri io m8))"

definition me5_ops :: "'s register_interface \<Rightarrow> 's me5_state board_ops" where
  "me5_ops ri = \<lparr>startdma = me5_startdma ri, stopdma = me5_stopdma ri,
     abortdma = me5_abortdma ri, query_dma = me5_query_dma ri\<rparr>"

text \<open>
  \<^verbatim>\<open>me5_queue_sb\<close>: the four register writes that hand a buffer to the engine, its length in words and the
  address of its list, by \<^verbatim>\<open>w64\<close> in two halves each.
\<close>

definition w64 :: "u32 \<Rightarrow> u64 \<Rightarrow> (u32 \<times> u32) list" where
  "w64 offs v = [(offs, ucast (v AND 0xffffffff)), (offs + 1, ucast (drop_bit 32 v AND 0xffffffff))]"

definition me5_queue_sb :: "u32 \<Rightarrow> u64 \<Rightarrow> u64 \<Rightarrow> (u32 \<times> u32) list" where
  "me5_queue_sb io len dma = w64 (io + ME5_DMAMAXLEN) (len div 4) @ w64 (io + ME5_DMAADDR) dma"

section \<open>The completion interrupt\<close>

text \<open>One frame; the driver notes what arrived in the dummy buffer as well.\<close>

definition me5_irq_frame ::
    "'s register_interface \<Rightarrow> menable_timespec \<Rightarrow> chan_ptr \<Rightarrow> 's me5_state siso_menable
     \<Rightarrow> 's me5_state siso_menable option" where
  "me5_irq_frame ri ts cp m =
     (case on_chan_ret cp (men_move_hot ts) m of
        None \<Rightarrow> None
      | Some (sb, m1) \<Rightarrow>
          let (len, m2) = reg_read (me5_regs ri) (me5_iobase (chans m1 cp) + ME5_DMALENGTH) m1;
              (tag, m3) = reg_read (me5_regs ri) (me5_iobase (chans m1 cp) + ME5_DMATAG) m2
          in Some (case sb of
                None \<Rightarrow> m3
              | Some b \<Rightarrow> m3\<lparr>heap := (heap m3)(b := (heap m3 b)\<lparr>dma_length := ucast len,
                     dma_tag := tag, frame_number := latest_frame_number (chans m3 cp)\<rparr>)\<rparr>))"

fun me5_irq_frames ::
    "'s register_interface \<Rightarrow> menable_timespec \<Rightarrow> chan_ptr \<Rightarrow> nat \<Rightarrow> 's me5_state siso_menable
     \<Rightarrow> 's me5_state siso_menable option" where
  "me5_irq_frames ri ts cp 0 m = Some m"
| "me5_irq_frames ri ts cp (Suc n) m =
     (case me5_irq_frame ri ts cp m of None \<Rightarrow> None | Some m1 \<Rightarrow> me5_irq_frames ri ts cp n m1)"

text \<open>A channel without an active head drops its frames, as many as the difference read as an \<^verbatim>\<open>int\<close>.\<close>

fun me5_irq_drop ::
    "'s register_interface \<Rightarrow> chan_ptr \<Rightarrow> nat \<Rightarrow> 's me5_state siso_menable \<Rightarrow> 's me5_state siso_menable" where
  "me5_irq_drop ri cp 0 m = m"
| "me5_irq_drop ri cp (Suc n) m =
     (let m1 = snd (reg_read (me5_regs ri) (me5_iobase (chans m cp) + ME5_DMALENGTH) m);
          m2 = snd (reg_read (me5_regs ri) (me5_iobase (chans m cp) + ME5_DMATAG) m1)
      in me5_irq_drop ri cp n (upd_chan cp (\<lambda>c. c\<lparr>lost_count := lost_count c + 1\<rparr>) m2))"

definition frame_delta :: "u32 \<Rightarrow> menable_dmachan \<Rightarrow> u32" where
  "frame_delta dma_count c = ucast (ucast dma_count - imgcnt c)"

definition me5_dma_irq ::
    "'s register_interface \<Rightarrow> menable_timespec \<Rightarrow> u32 \<Rightarrow> 's me5_state siso_menable
     \<Rightarrow> 's me5_state siso_menable option" where
  "me5_dma_irq ri ts dma m =
     (case men_dma_channel dma m of
        None \<Rightarrow> None
      | Some cp \<Rightarrow>
          let m1 = reg_write (me5_regs ri) ME5_IRQACK (chan_bit (chans m cp)) m;
              (dma_count, m2) = reg_read (me5_regs ri) (me5_iobase (chans m1 cp) + ME5_DMACOUNT) m1;
              delta = frame_delta dma_count (chans m2 cp)
          in if active (chans m2 cp) = None
             then Some (me5_irq_drop ri cp (nat (sint delta)) m2)
             else (case me5_irq_frames ri ts cp (unat delta) m2 of
                     None \<Rightarrow> None
                   | Some m3 \<Rightarrow> irq_finish cp (delta \<noteq> 0) m3))"

text \<open>The DMA part of \<^verbatim>\<open>me5_irq\<close>: the channels of the board with a bit in the status.\<close>

fun me5_dma_irqs ::
    "'s register_interface \<Rightarrow> menable_timespec \<Rightarrow> u32 \<Rightarrow> nat list \<Rightarrow> 's me5_state siso_menable
     \<Rightarrow> 's me5_state siso_menable option" where
  "me5_dma_irqs ri ts st [] m = Some m"
| "me5_dma_irqs ri ts st (dma # dmas) m =
     (if st AND push_bit dma 1 = 0 then me5_dma_irqs ri ts st dmas m
      else case me5_dma_irq ri ts (of_nat dma) m of
             None \<Rightarrow> None | Some m1 \<Rightarrow> me5_dma_irqs ri ts st dmas m1)"

end
