(* ===== verification/Me5_Dma_Props.thy ===== *)
theory Me5_Dma_Props
  imports Me5_Dma Alarm_Props
begin

text \<open>
  The mE5 engine provides what the code above a DMA engine relies on, its completion interrupt keeps a running
  channel running, and starting and stopping leave the alarms of the board alone. Frames that find no buffer
  are not counted in \<^verbatim>\<open>imgcnt\<close>, so every later interrupt counts them again.
\<close>

section \<open>Register accesses\<close>

lemma upd_d5_same: "same_dma m (upd_d5 f m)"
proof -
  have "upd_d5 f m = m\<lparr>hw := (f (fst (hw m)), snd (hw m)), board_state := board_state m\<rparr>"
    by (simp add: upd_d5_def)
  then show ?thesis unfolding same_dma_def by blast
qed

lemma abort_poll_same: "same_dma m (abort_poll ri a want n m)"
proof (induction n arbitrary: m)
  case (Suc n)
  obtain s m1 where r: "reg_read (me5_regs ri) a m = (s, m1)" by (cases "reg_read (me5_regs ri) a m") auto
  then have "same_dma m m1" using reg_read_same [of m "me5_regs ri" a] by simp
  then show ?case using r Suc.IH [of m1] same_dma_trans by (auto simp: Let_def)
qed simp

lemmas me5_same_intros = same_dma_trans [OF _ reg_write_same] same_dma_trans [OF _ reg_read_same]
  same_dma_trans [OF _ upd_d5_same] same_dma_trans [OF _ abort_poll_same]

lemma me5_abortdma_same: "same_dma m (me5_abortdma ri cp m)"
  unfolding me5_abortdma_def Let_def by (intro me5_same_intros same_dma_refl)

lemma me5_stopdma_same: "same_dma m (me5_stopdma ri cp m)"
  unfolding me5_stopdma_def Let_def case_prod_beta
  by (simp only: if_split) (intro conjI impI me5_same_intros same_dma_refl)

lemma me5_go_same: "same_dma m (me5_go ri io m)"
  unfolding me5_go_def Let_def by (intro me5_same_intros same_dma_refl)

section \<open>Starting\<close>

lemma me5_startdma_spec:
  assumes "chan_running cp bs d m"
  shows "\<exists>ret m'. me5_startdma ri cp m = Some (ret, m') \<and> ret \<le> 0 \<and> chan_running cp bs d m'
    \<and> same_progress (chans m cp) (chans m' cp)"
proof -
  let ?io = "me5_iobase (chans m cp)" and ?b = "chan_bit (chans m cp)"
  let ?dir = "if direction (chans m cp) = DMA_TO_DEVICE then 2 else 1 :: u32"
  obtain tmp m2 where r2: "reg_read (me5_regs ri) (?io + ME5_DMATYPE) (me5_abortdma ri cp m) = (tmp, m2)"
    by fastforce
  have s2: "same_dma m m2"
    using same_dma_trans [OF me5_abortdma_same reg_read_same] r2 by (metis snd_conv)
  show ?thesis
  proof (cases "tmp AND ?dir = 0")
    case True
    then have "me5_startdma ri cp m = Some (- EACCES, m2)" by (simp add: me5_startdma_def Let_def r2)
    moreover have "chan_running cp bs d m2" using assms chan_running_same [OF s2] by blast
    moreover have "same_progress (chans m cp) (chans m2 cp)"
      by (simp add: same_progress_def same_dma_fields [OF s2])
    ultimately show ?thesis by force
  next
    case False
    let ?m4 = "reg_write (me5_regs ri) ME5_IRQACK ?b (reg_write (me5_regs ri) (?io + ME5_DMATYPE) ?dir m2)"
    obtain count m5 where r5: "reg_read (me5_regs ri) (?io + ME5_DMACOUNT) ?m4 = (count, m5)" by fastforce
    have "same_dma m (snd (reg_read (me5_regs ri) (?io + ME5_DMACOUNT) ?m4))"
      by (intro me5_same_intros s2)
    then have s5: "same_dma m m5" using r5 by simp
    let ?f = "\<lambda>c. c\<lparr>imgcnt := ucast count\<rparr>"
    have f: "lst k (?f c) = lst k c" "cnt k (?f c) = cnt k c" "active (?f c) = active c" for k c
      by (cases k; simp)+
    have "chan_running cp bs d (upd_chan cp ?f m5)"
      using assms chan_running_same [OF s5] by (intro chan_running_upd [OF _ f]) blast
    then obtain m6 where m6: "queue_max_chan cp (upd_chan cp ?f m5) = Some m6" "chan_running cp bs d m6"
        "same_progress (chans (upd_chan cp ?f m5) cp) (chans m6 cp)"
      by (rule queue_max_chan_spec)
    let ?m7 = "upd_d5 (\<lambda>d. d\<lparr>irq_wanted := irq_wanted d OR ?b\<rparr>) m6"
    let ?m9 = "me5_go ri ?io (reg_write (me5_regs ri) ME5_IRQENABLE (irq_wanted (d5 ?m7)) ?m7)"
    have s9: "same_dma m6 ?m9"
      by (rule same_dma_trans [OF _ me5_go_same]) (intro me5_same_intros same_dma_refl)
    have "me5_startdma ri cp m = Some (0, ?m9)"
      using False by (simp add: me5_startdma_def Let_def r2 r5 m6(1))
    moreover have "chan_running cp bs d ?m9" using m6(2) chan_running_same [OF s9] by blast
    moreover have "same_progress (chans m cp) (chans ?m9 cp)"
      using m6(3) by (simp add: same_progress_def same_dma_fields [OF s9] same_dma_fields [OF s5])
    ultimately show ?thesis by force
  qed
qed

interpretation me5_dma: dma_engine "me5_ops ri" for ri
proof
  show "same_dma m (stopdma (me5_ops ri) cp m)" for m cp by (simp add: me5_ops_def me5_stopdma_same)
  show "\<exists>ret m'. startdma (me5_ops ri) cp m = Some (ret, m') \<and> ret \<le> 0 \<and> chan_running cp bs d m'
      \<and> same_progress (chans m cp) (chans m' cp)" if "chan_running cp bs d m" for cp bs d m
    using me5_startdma_spec [OF that, of ri] by (simp add: me5_ops_def)
qed

text \<open>
  On mE5 boards, too, \<^verbatim>\<open>fg_start_transfer\<close> on an idle channel with an available head never hits a \<^verbatim>\<open>BUG\<close>, whatever the
  device answers: it returns zero with the channel started on the head, or an error, among them \<^verbatim>\<open>-EACCES\<close> for a direction
  the engine does not support, with the channel stopped.
\<close>

theorem me5_start_reaches_started_or_stopped:
  assumes check: "fg_check fgr tsize m = Inr (hp, cp)"
    and idle: "state (chans m cp) \<noteq> MEN_DMA_CHAN_STATE_STOPPING"
    and avail: "head_available cp hp m"
    and ok: "head_ok (heads m hp) (heap m)" and fifo: "0 < dma_fifo_length m"
  shows "\<exists>ret m'. fg_start_transfer (me5_ops ri) env tgid fgr tsize m = Some (ret, m')
     \<and> chan_running cp (set (present (bufs (heads m hp)))) (dummybuf (heads m hp)) m'
     \<and> active (chans m' cp) = Some hp
     \<and> (ret = 0 \<and> state (chans m' cp) = MEN_DMA_CHAN_STATE_STARTED
          \<and> transfer_todo (chans m' cp)
            = (if fg_transfer_todo fgr = -1 then LLONG_MAX else fg_transfer_todo fgr)
        \<or> ret < 0 \<and> state (chans m' cp) = MEN_DMA_CHAN_STATE_STOPPED \<and> transfer_todo (chans m' cp) = 0)"
  by (rule me5_dma.start_transfer_spec [OF assms])

section \<open>Channels and alarms share the interrupt register\<close>

lemma d5_simps [simp]:
  "d5 (snd (reg_read (me5_regs ri) a m)) = d5 m"
  "d5 (reg_write (me5_regs ri) a v m) = d5 m"
  "d5 (upd_d5 f m) = f (d5 m)"
  "d5 (upd_chan cp g m) = d5 m"
  by (simp_all add: d5_def upd_d5_def reg_read_def reg_write_def me5_regs_def upd_chan_def case_prod_beta Let_def)

lemma d5_abort_poll [simp]: "d5 (abort_poll ri a want n m) = d5 m"
proof (induction n arbitrary: m)
  case (Suc n)
  obtain s m1 where r: "reg_read (me5_regs ri) a m = (s, m1)" by fastforce
  then have "d5 m1 = d5 m" using d5_simps(1) [of ri a m] by simp
  then show ?case by (simp add: r Let_def Suc.IH)
qed simp

lemma d5_queue_max: "queue_max_chan cp m = Some m' \<Longrightarrow> d5 m' = d5 m"
  by (auto simp: queue_max_chan_def on_chan_def d5_def split: option.splits)

lemma me5_stopdma_d5:
  "d5 (me5_stopdma ri cp m) = (d5 m)\<lparr>irq_wanted := irq_wanted (d5 m) AND NOT (chan_bit (chans m cp))\<rparr>"
  by (simp add: me5_stopdma_def Let_def case_prod_beta)

lemma me5_startdma_d5:
  assumes "me5_startdma ri cp m = Some (ret, m')"
  shows "if ret = 0 then d5 m' = (d5 m)\<lparr>irq_wanted := irq_wanted (d5 m) OR chan_bit (chans m cp)\<rparr>
    else d5 m' = d5 m"
proof -
  have "ret = - EACCES \<and> d5 m' = d5 m
    \<or> ret = 0 \<and> d5 m' = (d5 m)\<lparr>irq_wanted := irq_wanted (d5 m) OR chan_bit (chans m cp)\<rparr>"
    using assms
    by (auto simp: me5_startdma_def Let_def case_prod_beta me5_abortdma_def me5_go_def
        dest!: d5_queue_max split: if_splits option.splits)
  then show ?thesis by auto
qed

lemma chan_bit_not_alarm:
  assumes "number c < MEN_MAX_DMA" "bit INT_MASK_ALARMS n" shows "\<not> bit (chan_bit c) n"
proof -
  have "INT_MASK_ALARMS = push_bit 8 0xBF" by (simp add: push_bit_eq_mult)
  then have "8 \<le> n" using assms(2) by (simp only: bit_push_bit_iff)
  then show ?thesis using assms(1) by (auto simp: chan_bit_def bit_simps)
qed

text \<open>
  Starting and stopping a channel changes, of the data of the board, only the channel's own bit among the wanted
  interrupts, so the alarms keep their contract: each is enabled or pending, reported exactly while one is pending, and the
  temperature alarm has a work scheduled that brings it back.
\<close>

theorem channels_leave_alarms_alone:
  assumes armed: "alarms_armed irq_wanted irq_alarms_status INT_MASK_ALARMS INT_MASK_TEMPERATURE_ALARM (d5 m)"
    and number: "number (chans m cp) < MEN_MAX_DMA"
  shows "alarms_armed irq_wanted irq_alarms_status INT_MASK_ALARMS INT_MASK_TEMPERATURE_ALARM
           (d5 (me5_stopdma ri cp m))
    \<and> irq_wanted (d5 (me5_stopdma ri cp m)) AND chan_bit (chans m cp) = 0
    \<and> (\<forall>ret m'. me5_startdma ri cp m = Some (ret, m') \<longrightarrow>
         alarms_armed irq_wanted irq_alarms_status INT_MASK_ALARMS INT_MASK_TEMPERATURE_ALARM (d5 m')
         \<and> (ret = 0 \<longrightarrow> irq_wanted (d5 m') AND chan_bit (chans m cp) = chan_bit (chans m cp)))"
proof -
  let ?b = "chan_bit (chans m cp)"
  note nb = chan_bit_not_alarm [OF number]
  have sub: "bit INT_MASK_TEMPERATURE_ALARM n \<Longrightarrow> bit INT_MASK_ALARMS n" for n
  proof -
    have "INT_MASK_ALARMS AND INT_MASK_TEMPERATURE_ALARM = INT_MASK_TEMPERATURE_ALARM" by simp
    then show "bit INT_MASK_TEMPERATURE_ALARM n \<Longrightarrow> bit INT_MASK_ALARMS n" by (metis bit_and_iff)
  qed
  have keep: "alarms_armed irq_wanted irq_alarms_status INT_MASK_ALARMS INT_MASK_TEMPERATURE_ALARM
      ((d5 m)\<lparr>irq_wanted := w\<rparr>)" if "\<And>n. bit INT_MASK_ALARMS n \<Longrightarrow> bit w n = bit (irq_wanted (d5 m)) n" for w
    using armed that sub unfolding alarms_armed_def by simp
  have stop: "alarms_armed irq_wanted irq_alarms_status INT_MASK_ALARMS INT_MASK_TEMPERATURE_ALARM
      (d5 (me5_stopdma ri cp m))"
    unfolding me5_stopdma_d5 by (rule keep) (simp add: bit_and_not nb)
  have start: "alarms_armed irq_wanted irq_alarms_status INT_MASK_ALARMS INT_MASK_TEMPERATURE_ALARM (d5 m')
      \<and> (ret = 0 \<longrightarrow> irq_wanted (d5 m') AND ?b = ?b)"
    if "me5_startdma ri cp m = Some (ret, m')" for ret m'
    using me5_startdma_d5 [OF that] armed keep [of "irq_wanted (d5 m) OR ?b"]
    by (cases "ret = 0") (simp_all add: bit_or_iff nb or_and_same)
  show ?thesis using stop start by (simp add: me5_stopdma_d5 and_not_same)
qed

section \<open>Examples\<close>

text \<open>The example boards of \<open>Dma_Start_Props\<close> with another device behind them, whose registers all read as one.\<close>

definition with_hw :: "'b \<Rightarrow> 'a siso_menable \<Rightarrow> 'b siso_menable" where
  "with_hw x m = \<lparr>hw = x, board_state = board_state m, active_fpgas = active_fpgas m, dmacnt = dmacnt m,
     dmachannels = dmachannels m, use_count = use_count m, releasing = releasing m,
     num_buffer_heads = num_buffer_heads m, buffer_heads_list = buffer_heads_list m,
     dma_fifo_length = dma_fifo_length m, threadgroups_heads = threadgroups_heads m,
     threadgroups = threadgroups m, heads = heads m, chans = chans m, heap = heap m\<rparr>"

lemma with_hw_simps [simp]:
  "hw (with_hw x m) = x" "dmacnt (with_hw x m) = dmacnt m" "dmachannels (with_hw x m) = dmachannels m"
  "dma_fifo_length (with_hw x m) = dma_fifo_length m" "heads (with_hw x m) = heads m"
  "chans (with_hw x m) = chans m" "heap (with_hw x m) = heap m"
  by (simp_all add: with_hw_def)

lemma chan_running_with_hw: "chan_running cp bs d (with_hw x m) = chan_running cp bs d m"
  by (simp add: chan_running_def)

definition ones :: "unit register_interface" where
  "ones = \<lparr>ri_read = (\<lambda>a s. (1, s)), ri_write = (\<lambda>a v s. s)\<rparr>"

lemma me5_start_reaches_started_or_stopped_witness:
  "\<exists>ret m'. fg_start_transfer (me5_ops ones) (\<lambda>m. m) 42 (demo_fg 0 0) 0 (with_hw (quiet_me5, ()) demo_board)
       = Some (ret, m') \<and> chan_running 0 {0, 1, 2} 100 m'"
proof -
  let ?m = "with_hw (quiet_me5, ()) demo_board"
  have c: "fg_check (demo_fg 0 0) 0 ?m = Inr (0, 0)" by code_simp
  have b: "present (bufs (heads demo_board 0)) = [0, 1, 2]" by code_simp
  moreover have "dummybuf (heads demo_board 0) = 100" by (simp add: demo_board_def)
  moreover have "state (chans ?m 0) \<noteq> MEN_DMA_CHAN_STATE_STOPPING"
      "head_available 0 0 ?m" "0 < dma_fifo_length ?m" "head_ok (heads ?m 0) (heap ?m)"
    using demo_head_ok by (simp_all add: demo_board_def idle_chan_def head_available_def)
  ultimately show ?thesis
    using me5_start_reaches_started_or_stopped [OF c, of ones "\<lambda>m. m" 42]
    by (metis (no_types, lifting) list.simps(15) set_empty2 empty_set with_hw_simps(5))
qed

lemma channels_leave_alarms_alone_witness:
  "irq_wanted (d5 (me5_stopdma ones 0 (with_hw (quiet_me5\<lparr>irq_wanted := 0xBF01\<rparr>, ()) demo_board)))
     AND chan_bit (chans demo_board 0) = 0"
proof -
  let ?m = "with_hw (quiet_me5\<lparr>irq_wanted := 0xBF01\<rparr>, ()) demo_board"
  have sub: "bit INT_MASK_ALARMS n \<Longrightarrow> bit (0xBF01 :: u32) n" for n
  proof -
    have "INT_MASK_ALARMS AND 0xBF01 = INT_MASK_ALARMS" by simp
    then show "bit INT_MASK_ALARMS n \<Longrightarrow> bit (0xBF01 :: u32) n" by (metis bit_and_iff)
  qed
  have "alarms_armed irq_wanted irq_alarms_status INT_MASK_ALARMS INT_MASK_TEMPERATURE_ALARM (d5 ?m)"
    using sub by (simp add: alarms_armed_def d5_def quiet_defs)
  moreover have "number (chans ?m 0) < MEN_MAX_DMA" by (simp add: demo_board_def idle_chan_def)
  ultimately show ?thesis using channels_leave_alarms_alone [of ?m 0 ones] by simp
qed

end
