(* ===== verification/Me5_Irq_Props.thy ===== *)
theory Me5_Irq_Props
  imports Me5_Dma_Props
begin

text \<open>
  The completion interrupt of mE5 boards.
\<close>

lemma me5_irq_frame_spec:
  assumes "chan_running cp bs d m"
  obtains m' where "me5_irq_frame ri ts cp m = Some m'" "chan_running cp bs d m'"
    "state (chans m' cp) = state (chans m cp)"
proof -
  obtain b m1 where m1: "on_chan_ret cp (men_move_hot ts) m = Some (b, m1)" "chan_running cp bs d m1"
    "state (chans m1 cp) = state (chans m cp)"
    by (rule move_hot_chan_spec [OF assms])
  let ?io = "me5_iobase (chans m1 cp)"
  obtain len m2 where r2: "reg_read (me5_regs ri) (?io + ME5_DMALENGTH) m1 = (len, m2)" by fastforce
  obtain tag m3 where r3: "reg_read (me5_regs ri) (?io + ME5_DMATAG) m2 = (tag, m3)" by fastforce
  have "same_dma m1 m2" using reg_read_same [of m1 "me5_regs ri" "?io + ME5_DMALENGTH"] r2 by simp
  then have s3: "same_dma m1 m3"
    using same_dma_trans reg_read_same [of m2 "me5_regs ri" "?io + ME5_DMATAG"] r3 by (metis snd_conv)
  have run3: "chan_running cp bs d m3" using m1(2) chan_running_same [OF s3] by blast
  let ?g = "\<lambda>b. b\<lparr>dma_length := ucast len, dma_tag := tag, frame_number := latest_frame_number (chans m3 cp)\<rparr>"
  let ?m4 = "case b of None \<Rightarrow> m3 | Some x \<Rightarrow> m3\<lparr>heap := (heap m3)(x := ?g (heap m3 x))\<rparr>"
  have "me5_irq_frame ri ts cp m = Some ?m4"
    by (simp add: me5_irq_frame_def m1(1) Let_def r2) (simp add: same_dma_fields [OF \<open>same_dma m1 m2\<close>] r3)
  moreover have "chan_running cp bs d ?m4"
    using run3 note_frame_running [OF run3, of ?g] by (simp split: option.split)
  moreover have "chans ?m4 cp = chans m1 cp" by (simp add: same_dma_fields [OF s3] split: option.split)
  ultimately show ?thesis using that m1(3) by simp
qed

lemma me5_irq_frames_spec:
  assumes "chan_running cp bs d m"
  shows "\<exists>m'. me5_irq_frames ri ts cp n m = Some m' \<and> chan_running cp bs d m'
    \<and> state (chans m' cp) = state (chans m cp)"
  using assms
proof (induction n arbitrary: m)
  case (Suc n)
  obtain m1 where m1: "me5_irq_frame ri ts cp m = Some m1" "chan_running cp bs d m1"
      "state (chans m1 cp) = state (chans m cp)"
    by (rule me5_irq_frame_spec [OF Suc.prems])
  from Suc.IH [OF m1(2)] show ?case by (simp add: m1)
qed simp

text \<open>The frames the device has counted when the interrupt reads the count.\<close>

definition counted :: "'s register_interface \<Rightarrow> chan_ptr \<Rightarrow> 's me5_state siso_menable \<Rightarrow> u32" where
  "counted ri cp m = fst (reg_read (me5_regs ri) (me5_iobase (chans m cp) + ME5_DMACOUNT)
     (reg_write (me5_regs ri) ME5_IRQACK (chan_bit (chans m cp)) m))"

lemma me5_dma_irq_unfold:
  assumes "men_dma_channel dma m = Some cp"
  obtains m2 where "same_dma m m2" "me5_dma_irq ri ts dma m =
     (if active (chans m cp) = None
      then Some (me5_irq_drop ri cp (nat (sint (frame_delta (counted ri cp m) (chans m cp)))) m2)
      else case me5_irq_frames ri ts cp (unat (frame_delta (counted ri cp m) (chans m cp))) m2 of
             None \<Rightarrow> None
           | Some m3 \<Rightarrow> irq_finish cp (frame_delta (counted ri cp m) (chans m cp) \<noteq> 0) m3)"
proof -
  let ?m1 = "reg_write (me5_regs ri) ME5_IRQACK (chan_bit (chans m cp)) m"
  let ?a = "me5_iobase (chans m cp) + ME5_DMACOUNT"
  have s1: "same_dma m ?m1" by (rule reg_write_same)
  obtain D m2 where r: "reg_read (me5_regs ri) ?a ?m1 = (D, m2)" by fastforce
  have s2: "same_dma m m2" using same_dma_trans [OF s1 reg_read_same] r by (metis snd_conv)
  have D: "counted ri cp m = D" by (simp add: counted_def r)
  have eq: "me5_dma_irq ri ts dma m =
     (if active (chans m cp) = None
      then Some (me5_irq_drop ri cp (nat (sint (frame_delta D (chans m cp)))) m2)
      else case me5_irq_frames ri ts cp (unat (frame_delta D (chans m cp))) m2 of
             None \<Rightarrow> None
           | Some m3 \<Rightarrow> irq_finish cp (frame_delta D (chans m cp) \<noteq> 0) m3)"
    using assms by (simp add: me5_dma_irq_def Let_def same_dma_fields [OF s1] r same_dma_fields [OF s2]
      split: option.split)
  show ?thesis by (rule that [OF s2 eq [folded D]])
qed

text \<open>
  A completion interrupt on a running channel of an mE5 board reaches no undefined behaviour whatever the device
  reports, leaves the queues well formed and within the DMA fifo, wakes every waiter whose frame has arrived, and
  stops the channel exactly when nothing is left to transfer.
\<close>

theorem me5_dma_irq_keeps_running_and_wakes_waiters:
  assumes "men_dma_channel dma m = Some cp" "chan_running cp bs d m"
  shows "\<exists>m'. me5_dma_irq ri ts dma m = Some m' \<and> chan_running cp bs d m'
     \<and> (\<forall>w\<in>set (wait_list (chans m' cp)). frame w \<le> goodcnt (chans m' cp) \<longrightarrow> completed w)
     \<and> (if transfer_todo (chans m' cp) > 0 then state (chans m' cp) = state (chans m cp)
        else state (chans m' cp) = MEN_DMA_CHAN_STATE_STOPPING \<and> dwork_scheduled (chans m' cp))"
proof -
  let ?delta = "frame_delta (counted ri cp m) (chans m cp)"
  obtain m2 where m2: "same_dma m m2" "me5_dma_irq ri ts dma m =
     (if active (chans m cp) = None then Some (me5_irq_drop ri cp (nat (sint ?delta)) m2)
      else case me5_irq_frames ri ts cp (unat ?delta) m2 of
             None \<Rightarrow> None | Some m3 \<Rightarrow> irq_finish cp (?delta \<noteq> 0) m3)"
    by (rule me5_dma_irq_unfold [OF assms(1)])
  obtain a where act: "active (chans m cp) = Some a"
    using running_okD(4) [OF assms(2) [unfolded chan_running_def]] by blast
  have "chan_running cp bs d m2" using assms(2) chan_running_same [OF m2(1)] by blast
  then obtain m3 where m3: "me5_irq_frames ri ts cp (unat ?delta) m2 = Some m3" "chan_running cp bs d m3"
      "state (chans m3 cp) = state (chans m2 cp)" using me5_irq_frames_spec by blast
  have irq: "me5_dma_irq ri ts dma m = irq_finish cp (?delta \<noteq> 0) m3" by (simp add: m2(2) m3(1) act)
  have st: "state (chans m3 cp) = state (chans m cp)" using m3(3) by (simp add: same_dma_fields [OF m2(1)])
  show ?thesis unfolding irq
    by (rule irq_finish_spec [OF m3(2), of "?delta \<noteq> 0"]) (use st in auto)
qed

section \<open>Frames without a buffer\<close>

lemma nat_sint_small: "unat (x :: u32) < 2147483648 \<Longrightarrow> nat (sint x) = unat x"
proof -
  assume a: "unat x < 2147483648"
  have "int (unat x) < 2147483648" using a by linarith
  then have u: "uint x < 2147483648" by (simp only: uint_nat)
  have "signed_take_bit 31 (uint x) = uint x"
    by (rule signed_take_bit_int_eq_self) (use u in \<open>simp_all add: order_trans [OF _ unsigned_greater_eq]\<close>)
  then have "sint x = uint x" by (simp add: sint_uint)
  then show "nat (sint x) = unat x" by (simp only: unat_eq_nat_uint)
qed

lemma me5_irq_drop_counts:
  "lost_count (chans (me5_irq_drop ri cp n m) cp) = lost_count (chans m cp) + of_nat n"
  "imgcnt (chans (me5_irq_drop ri cp n m) cp) = imgcnt (chans m cp)"
proof -
  have "lost_count (chans (me5_irq_drop ri cp n m) cp) = lost_count (chans m cp) + of_nat n
    \<and> imgcnt (chans (me5_irq_drop ri cp n m) cp) = imgcnt (chans m cp)"
  proof (induction n arbitrary: m)
    case (Suc n)
    let ?m1 = "snd (reg_read (me5_regs ri) (me5_iobase (chans m cp) + ME5_DMALENGTH) m)"
    let ?m2 = "snd (reg_read (me5_regs ri) (me5_iobase (chans m cp) + ME5_DMATAG) ?m1)"
    have "same_dma m ?m2" by (intro me5_same_intros same_dma_refl)
    then have "chans ?m2 = chans m" by (rule same_dma_fields)
    then show ?case by (simp add: Let_def Suc.IH)
  qed simp
  then show "lost_count (chans (me5_irq_drop ri cp n m) cp) = lost_count (chans m cp) + of_nat n"
    "imgcnt (chans (me5_irq_drop ri cp n m) cp) = imgcnt (chans m cp)" by simp_all
qed

lemma me5_irq_frame_lost:
  assumes "hot_count (chans m cp) = 0" "active (chans m cp) = Some a"
  shows "\<exists>m'. me5_irq_frame ri ts cp m = Some m'
    \<and> same_dma (upd_chan cp (\<lambda>c. c\<lparr>lost_count := lost_count c + 1\<rparr>) m) m'"
proof -
  let ?m1 = "upd_chan cp (\<lambda>c. c\<lparr>lost_count := lost_count c + 1\<rparr>) m"
  let ?io = "me5_iobase (chans ?m1 cp)"
  have m1: "on_chan_ret cp (men_move_hot ts) m = Some (None, ?m1)"
    using assms by (simp add: on_chan_ret_def men_move_hot_def upd_chan_def)
  obtain len m2 where r2: "reg_read (me5_regs ri) (?io + ME5_DMALENGTH) ?m1 = (len, m2)" by fastforce
  obtain tag m3 where r3: "reg_read (me5_regs ri) (?io + ME5_DMATAG) m2 = (tag, m3)" by fastforce
  have s2: "same_dma ?m1 m2" using reg_read_same [of ?m1 "me5_regs ri" "?io + ME5_DMALENGTH"] r2 by simp
  have "same_dma ?m1 m3"
    using same_dma_trans [OF s2] reg_read_same [of m2 "me5_regs ri" "?io + ME5_DMATAG"] r3 by simp
  moreover have "me5_irq_frame ri ts cp m = Some m3"
    unfolding me5_irq_frame_def m1 Let_def option.case prod.case r2
    by (simp only: same_dma_fields [OF s2] r3 prod.case option.case)
  ultimately show ?thesis by blast
qed

lemma me5_irq_frames_lost:
  assumes "hot_count (chans m cp) = 0" "active (chans m cp) = Some a"
  shows "\<exists>m'. me5_irq_frames ri ts cp n m = Some m'
    \<and> chans m' cp = (chans m cp)\<lparr>lost_count := lost_count (chans m cp) + of_nat n\<rparr>"
  using assms
proof (induction n arbitrary: m)
  case (Suc n)
  obtain m1 where m1: "me5_irq_frame ri ts cp m = Some m1"
      "same_dma (upd_chan cp (\<lambda>c. c\<lparr>lost_count := lost_count c + 1\<rparr>) m) m1"
    using me5_irq_frame_lost [OF Suc.prems] by blast
  have c: "chans m1 cp = (chans m cp)\<lparr>lost_count := lost_count (chans m cp) + 1\<rparr>"
    using same_dma_fields(1) [OF m1(2)] by simp
  have "hot_count (chans m1 cp) = 0" "active (chans m1 cp) = Some a" using c Suc.prems by simp_all
  from Suc.IH [OF this] show ?case by (auto simp: m1(1) c algebra_simps)
qed simp

lemma queue_max_counts:
  assumes "chan_running cp bs d m" "queue_max_chan cp m = Some m'"
  shows "lost_count (chans m' cp) = lost_count (chans m cp)" "imgcnt (chans m' cp) = imgcnt (chans m cp)"
proof -
  let ?c = "chans m cp"
  note D = running_okD [OF assms(1) [unfolded chan_running_def]]
  obtain c' h' where r: "men_dma_queue_max (dma_fifo_length m) (heads m) ?c (heap m) = Some (c', h')"
      "chans m' cp = c'"
    using assms(2) by (auto simp: queue_max_chan_def on_chan_def split: option.splits)
  have "lost_count c' = lost_count ?c \<and> imgcnt c' = imgcnt ?c"
    using r(1) men_dma_queue_max_result [OF D(1,3,5)]
    by (auto simp: with_dummy_def queued_chan_def split: if_splits)
  then show "lost_count (chans m' cp) = lost_count ?c" "imgcnt (chans m' cp) = imgcnt ?c" using r(2) by simp_all
qed

lemma irq_finish_counts:
  assumes "chan_running cp bs d m" "irq_finish cp new m = Some m'"
  shows "lost_count (chans m' cp) = lost_count (chans m cp) \<and> imgcnt (chans m' cp) = imgcnt (chans m cp)"
proof -
  let ?m3 = "upd_chan cp complete_reached m"
  have run3: "chan_running cp bs d ?m3" by (rule chan_running_upd [OF assms(1) complete_reached_spec(1-3)])
  have c3: "lost_count (chans ?m3 cp) = lost_count (chans m cp)" "imgcnt (chans ?m3 cp) = imgcnt (chans m cp)"
    by (simp_all add: complete_reached_def)
  show ?thesis
    using assms(2) queue_max_counts [OF run3] c3
    by (auto simp: irq_finish_def Let_def split: if_splits option.splits)
qed

text \<open>
  Frames of an mE5 board that find no buffer, since no buffer is hot or the channel has lost its head, are counted
  as lost, but not in \<^verbatim>\<open>imgcnt\<close>; the next interrupt finds the same difference between the count of the device
  and its own, and counts all of them again, for every frame that follows.
\<close>

theorem me5_lost_frames_are_counted_again:
  assumes chan: "men_dma_channel dma m = Some cp"
    and no_buffer: "active (chans m cp) = None \<or> chan_running cp bs d m \<and> hot_list (chans m cp) = []"
    and small: "unat (frame_delta (counted ri cp m) (chans m cp)) < 2147483648"
  shows "\<exists>m'. me5_dma_irq ri ts dma m = Some m'
     \<and> lost_count (chans m' cp) = lost_count (chans m cp) + frame_delta (counted ri cp m) (chans m cp)
     \<and> (\<forall>dma_count. frame_delta dma_count (chans m' cp) = frame_delta dma_count (chans m cp))"
proof -
  let ?delta = "frame_delta (counted ri cp m) (chans m cp)"
  obtain m2 where m2: "same_dma m m2" "me5_dma_irq ri ts dma m =
     (if active (chans m cp) = None then Some (me5_irq_drop ri cp (nat (sint ?delta)) m2)
      else case me5_irq_frames ri ts cp (unat ?delta) m2 of
             None \<Rightarrow> None | Some m3 \<Rightarrow> irq_finish cp (?delta \<noteq> 0) m3)"
    by (rule me5_dma_irq_unfold [OF chan])
  note f2 = same_dma_fields(1) [OF m2(1)]
  show ?thesis
  proof (cases "active (chans m cp)")
    case None
    then have "me5_dma_irq ri ts dma m = Some (me5_irq_drop ri cp (unat ?delta) m2)"
      using m2(2) nat_sint_small [OF small] by simp
    then show ?thesis by (simp add: me5_irq_drop_counts f2 frame_delta_def)
  next
    case (Some a)
    then have run: "chan_running cp bs d m" "hot_list (chans m cp) = []" using no_buffer by simp_all
    have run2: "chan_running cp bs d m2" using run(1) chan_running_same [OF m2(1)] by blast
    have "hot_count (chans m cp) = 0"
      using cnt_zero_iff [OF running_okD(1) [OF run(1) [unfolded chan_running_def]], of HOT_LIST] run(2) by simp
    then obtain m3 where m3: "me5_irq_frames ri ts cp (unat ?delta) m2 = Some m3"
        "chans m3 cp = (chans m cp)\<lparr>lost_count := lost_count (chans m cp) + ?delta\<rparr>"
      using me5_irq_frames_lost [of m2 cp a ri ts "unat ?delta"] Some by (auto simp: f2)
    have run3: "chan_running cp bs d m3" using me5_irq_frames_spec [OF run2] m3(1) by (metis option.inject)
    obtain m' where "irq_finish cp (?delta \<noteq> 0) m3 = Some m'"
      by (rule irq_finish_spec [OF run3, of "?delta \<noteq> 0"])
    then show ?thesis
      using m2(2) Some m3 irq_finish_counts [OF run3] by (simp add: frame_delta_def)
  qed
qed

lemma me5_dma_irq_keeps_running_and_wakes_waiters_witness:
  "men_dma_channel 0 (with_hw (quiet_me5, ()) busy_board) = Some 0
   \<and> (\<exists>m'. me5_dma_irq ones demo_ts 0 (with_hw (quiet_me5, ()) busy_board) = Some m'
        \<and> chan_running 0 {0, 1, 2, 3} 9 m')"
proof
  show c: "men_dma_channel 0 (with_hw (quiet_me5, ()) busy_board) = Some 0" by code_simp
  have "chan_running 0 {0, 1, 2, 3} 9 (with_hw (quiet_me5, ()) busy_board)"
    unfolding chan_running_with_hw by (rule busy_running)
  then show "\<exists>m'. me5_dma_irq ones demo_ts 0 (with_hw (quiet_me5, ()) busy_board) = Some m'
      \<and> chan_running 0 {0, 1, 2, 3} 9 m'"
    using me5_dma_irq_keeps_running_and_wakes_waiters [OF c, of "{0, 1, 2, 3}" 9 ones demo_ts] by blast
qed

text \<open>A channel without a head: the one frame the device has counted is lost again and again.\<close>

lemma me5_lost_frames_are_counted_again_witness:
  "\<exists>m'. me5_dma_irq ones demo_ts 0 (with_hw (quiet_me5, ()) demo_board) = Some m'
     \<and> lost_count (chans m' 0) = lost_count (chans demo_board 0) + 1
     \<and> frame_delta 1 (chans m' 0) = 1"
proof -
  let ?m = "with_hw (quiet_me5, ()) demo_board"
  have c: "men_dma_channel 0 ?m = Some 0" by code_simp
  have a: "active (chans ?m 0) = None" by (simp add: demo_board_def idle_chan_def)
  have n: "counted ones 0 ?m = 1"
    by (simp add: counted_def reg_read_def reg_write_def me5_regs_def ones_def)
  have d: "frame_delta 1 (chans ?m 0) = 1" by (simp add: frame_delta_def demo_board_def idle_chan_def)
  then have "unat (frame_delta (counted ones 0 ?m) (chans ?m 0)) < 2147483648" by (simp add: n)
  then show ?thesis
    using me5_lost_frames_are_counted_again [OF c, of undefined undefined ones demo_ts] a n d by auto
qed

end
