(* ===== verification/Me5_Uiq.thy ===== *)
theory Me5_Uiq
  imports Uiq_Board Me5_Alarms
begin

text \<open>
  The event queues of mE5 boards, \<^verbatim>\<open>linux/menable5.c\<close>: which queues there are, by the type of the board and the
  configuration of its CameraLink chips, and their interrupts. A table has \<^verbatim>\<open>NULL\<close> where a configuration has gaps.
\<close>

section \<open>Which queues there are\<close>

fun bit_mask_loop :: "nat \<Rightarrow> u32 \<Rightarrow> u32" where
  "bit_mask_loop 0 m = m"
| "bit_mask_loop (Suc n) m = bit_mask_loop n (push_bit 1 m OR 1)"

definition getBitMask :: "u32 \<Rightarrow> u32" where
  "getBitMask n = bit_mask_loop (unat n) 0"

definition GETFIRMWAREVERSION :: "u32 \<Rightarrow> u32" where
  "GETFIRMWAREVERSION x = (x AND 0xff00) OR (drop_bit 16 x AND 0xff)"

definition GETBOARDTYPE :: "u32 \<Rightarrow> u32" where
  "GETBOARDTYPE x = drop_bit 16 x AND 0xffff"

abbreviation ME5_CONFIG :: u32 where "ME5_CONFIG \<equiv> 0"
abbreviation ME5_CONFIG_EX :: u32 where "ME5_CONFIG_EX \<equiv> 1"
abbreviation ME5_UIQCNT :: u32 where "ME5_UIQCNT \<equiv> 6"
abbreviation ME5_FIRSTUIQ :: u32 where "ME5_FIRSTUIQ \<equiv> 7"
abbreviation ME5_IRQQUEUE :: u32 where "ME5_IRQQUEUE \<equiv> 0x80"
abbreviation ME5_CLCAMERASTATUS :: u32 where "ME5_CLCAMERASTATUS \<equiv> 0x0a00"
abbreviation ME5_CLCHIPGROUPNOTUSED :: u32 where "ME5_CLCHIPGROUPNOTUSED \<equiv> 0"
abbreviation ME5_CLSINGLEBASE0 :: u32 where "ME5_CLSINGLEBASE0 \<equiv> 1"
abbreviation ME5_CLSINGLEBASE1 :: u32 where "ME5_CLSINGLEBASE1 \<equiv> 2"
abbreviation ME5_CLDUALBASE :: u32 where "ME5_CLDUALBASE \<equiv> 3"
abbreviation ME5_CLMEDIUM :: u32 where "ME5_CLMEDIUM \<equiv> 4"
abbreviation ME5_CLFULL :: u32 where "ME5_CLFULL \<equiv> 5"

definition has_cl_chips :: "int \<Rightarrow> bool" where
  "has_cl_chips boardType \<longleftrightarrow> boardType = PN_MICROENABLE5_LIGHTBRIDGE_VCL_PROTOTYPE
     \<or> boardType = PN_MICROENABLE5_LIGHTBRIDGE_MARATHON_VCL
     \<or> boardType = PN_MICROENABLE5_LIGHTBRIDGE_MARATHON_ACL
     \<or> boardType = PN_MICROENABLE5_LIGHTBRIDGE_MARATHON_VCLx"

text \<open>The mask of the queues, and the size of the table, for a configuration of the chips.\<close>

definition cl_layout :: "u32 \<Rightarrow> u32 \<Rightarrow> u32 \<times> u32" where
  "cl_layout clConfig n =
     (if clConfig = ME5_CLCHIPGROUPNOTUSED then (push_bit 4 (getBitMask n), n + 4)
      else if clConfig = ME5_CLSINGLEBASE0 \<or> clConfig = ME5_CLSINGLEBASE1 \<or> clConfig = ME5_CLFULL
      then (0x3 OR push_bit 4 (getBitMask (n - 2)), n + 2)
      else if clConfig = ME5_CLMEDIUM then (0x3 OR push_bit 4 (getBitMask (n - 4)), n)
      else (getBitMask n, n))"

definition uiq_layout :: "int \<Rightarrow> u32 \<Rightarrow> u32 \<Rightarrow> u32 \<times> u32" where
  "uiq_layout boardType clConfig n =
     (if has_cl_chips boardType then cl_layout clConfig n else (getBitMask n, n))"

text \<open>One entry of the table, of type and register by its index.\<close>

definition new_uiq ::
    "uiq_init_env \<Rightarrow> int \<Rightarrow> u32 \<Rightarrow> u32 \<Rightarrow> nat \<Rightarrow> int + menable_uiq" where
  "new_uiq e boardType type_flags offs i =
     map_sum id (\<lambda>u. u\<lparr>irqack_offs := ME5_IRQACK, ackbit := i + ME5_IRQQ_LOW\<rparr>)
       (fst (men_uiq_init e boardType (int i) 0
               (if type_flags AND push_bit (i + ME5_IRQQ_LOW) 1 \<noteq> 0 then UIQ_TYPE_WRITE_LEGACY else UIQ_TYPE_READ)
               (offs div 4 + 2 * of_nat i) 16))"

text \<open>The entries in order, or the error of the first queue that cannot be made.\<close>

fun new_uiqs ::
    "(nat \<Rightarrow> uiq_init_env) \<Rightarrow> int \<Rightarrow> u32 \<Rightarrow> u32 \<Rightarrow> u32 \<Rightarrow> nat list \<Rightarrow> int + menable_uiq option list" where
  "new_uiqs env boardType type_flags offs msk [] = Inr []"
| "new_uiqs env boardType type_flags offs msk (i # is) =
     (if bit msk i then
        case new_uiq (env i) boardType type_flags offs i of
          Inl e \<Rightarrow> Inl e
        | Inr u \<Rightarrow> map_sum id (\<lambda>us. Some u # us) (new_uiqs env boardType type_flags offs msk is)
      else map_sum id (\<lambda>us. None # us) (new_uiqs env boardType type_flags offs msk is))"

definition me5_add_uiqs ::
    "'hw register_interface \<Rightarrow> (nat \<Rightarrow> uiq_init_env) \<Rightarrow> bool \<Rightarrow> int \<Rightarrow> u32 \<Rightarrow> u32 \<Rightarrow> u32 \<Rightarrow> 'hw uiq_board
     \<Rightarrow> int \<times> 'hw uiq_board" where
  "me5_add_uiqs ri env mem boardType n offs msk b =
     (let (type_flags, s) = ri_read ri ME5_IRQTYPE (ub_hw b); b1 = b\<lparr>ub_hw := s\<rparr>
      in if \<not> mem then (- ENOMEM, b1)
         else case new_uiqs env boardType type_flags offs msk [0..<unat n] of
                Inl e \<Rightarrow> (e, b1)
              | Inr us \<Rightarrow> (0, b1\<lparr>uiqs := us, uiqcnt := (uiqcnt b)[0 := ucast n],
                                num_active_uiqs := num_active_uiqs b + n\<rparr>))"

definition me5_init_uiqs ::
    "'hw register_interface \<Rightarrow> (nat \<Rightarrow> uiq_init_env) \<Rightarrow> bool \<Rightarrow> int \<Rightarrow> u32 \<Rightarrow> 'hw uiq_board
     \<Rightarrow> int \<times> 'hw uiq_board" where
  "me5_init_uiqs ri env mem pci_type config_ex b =
     (let boardType = uint (GETBOARDTYPE config_ex);
          (fpgaUIQs, s1) = ri_read ri ME5_UIQCNT (ub_hw b);
          (offs0, s2) = ri_read ri ME5_FIRSTUIQ s1;
          (status, s3) = (if has_cl_chips boardType then ri_read ri ME5_CLCAMERASTATUS s2 else (0, s2));
          clConfig = drop_bit 24 status AND 7;
          (uiqmask, cnt0) = uiq_layout boardType clConfig fpgaUIQs;
          old_firmware = (cnt0 = 0 \<and> offs0 = 0);
          n = (if old_firmware then of_nat (ME5_IRQQ_HIGH - ME5_IRQQ_LOW + 1) else cnt0);
          offs = (if old_firmware then 4 * ME5_IRQQUEUE else offs0);
          b1 = b\<lparr>ub_hw := s3\<rparr>
      in if n \<noteq> 0 then me5_add_uiqs ri env mem pci_type n offs uiqmask b1 else (0, b1))"

text \<open>Since which firmware the engine of a board can be stopped without fault.\<close>

definition me5_check_stop_bugfix :: "u32 \<Rightarrow> u32 \<Rightarrow> bool" where
  "me5_check_stop_bugfix config config_ex =
     (let boardType = uint (GETBOARDTYPE config_ex);
          firmwareVersion = ucast (ucast (GETFIRMWAREVERSION config) :: u16) :: u32
      in if boardType \<in> {PN_MICROENABLE5_MARATHON_ACX_SP, PN_MICROENABLE5_MARATHON_ACX_DP,
                         PN_MICROENABLE5_MARATHON_VCX_QP} then firmwareVersion \<ge> 0x101
         else if boardType = PN_MICROENABLE5_ABACUS_4G_BASE then firmwareVersion \<ge> 0x102
         else if boardType = PN_MICROENABLE5_ABACUS_4G_BASE_II then firmwareVersion \<ge> 0x103
         else if boardType \<in> {PN_MICROENABLE5AD8CL, PN_MICROENABLE5VD8CL,
                              PN_MICROENABLE5_LIGHTBRIDGE_MARATHON_VCL} then firmwareVersion \<ge> 0x106
         else if boardType \<in> {PN_MICROENABLE5A1CLHSF2, PN_MICROENABLE5A2CLHSF2, PN_MICROENABLE5AD8CLHSF2,
                              PN_MICROENABLE5_LIGHTBRIDGE_MARATHON_ACL} then firmwareVersion \<ge> 0x107
         else if boardType = PN_MICROENABLE5_MARATHON_VF2_DP then firmwareVersion \<ge> 0x201
         else if boardType = PN_MICROENABLE5_MARATHON_AF2_DP then firmwareVersion \<ge> 0x202
         else if boardType \<in> {PN_MICROENABLE5A1CXP4, PN_MICROENABLE5AQ8CXP6B, PN_MICROENABLE5AQ8CXP6D,
                              PN_MICROENABLE5VQ8CXP6B, PN_MICROENABLE5VQ8CXP6D} then firmwareVersion \<ge> 0x20a
         else if boardType = PN_TDI then firmwareVersion \<ge> 0x301
         else if boardType = PN_MICROENABLE5_MARATHON_ACX_QP then firmwareVersion \<ge> 0x302
         else boardType = PN_MICROENABLE5_LIGHTBRIDGE_MARATHON_VCLx)"

section \<open>Their interrupts\<close>

text \<open>
  The loop of \<^verbatim>\<open>me5_irq\<close> over the bits of the status; it ends when no bit is left. An entry is read before
  its bit is tested, so reading past the table is undefined behaviour (\<open>None\<close>), as is a queue whose
  words never end. The result has the bits that no queue has taken.
\<close>

fun me5_uiq_irqs ::
    "'hw register_interface \<Rightarrow> uiq_timestamp \<Rightarrow> nat list \<Rightarrow> u32 \<Rightarrow> 'hw uiq_board \<Rightarrow> ts_state
     \<Rightarrow> (u32 \<times> 'hw uiq_board \<times> ts_state) option" where
  "me5_uiq_irqs ri now [] st b s = Some (st, b, s)"
| "me5_uiq_irqs ri now (n # ns) st b s =
     (if st = 0 then Some (st, b, s)
      else let i = n - ME5_IRQQ_LOW
      in if i \<ge> length (uiqs b) then None
         else case uiqs b ! i of
                None \<Rightarrow> me5_uiq_irqs ri now ns st b s
              | Some u \<Rightarrow>
                  if bit st n then
                    (case uiq_irq ri now u b s of
                       None \<Rightarrow> None
                     | Some (u1, b1, s1) \<Rightarrow>
                         me5_uiq_irqs ri now ns (st XOR push_bit n 1) (put_uiq i u1 b1) s1)
                  else me5_uiq_irqs ri now ns st b s)"

end
