(* ===== verification/Me5_Uiq_Props.thy ===== *)
theory Me5_Uiq_Props
  imports Me5_Uiq
begin

text \<open>
  Which queues the configurations give, and what an interrupt does that belongs to none of them.
\<close>

section \<open>Layouts\<close>

lemma mask_Suc_u32: "push_bit 1 (mask k) OR 1 = (mask (Suc k) :: u32)"
proof (rule bit_word_eqI)
  fix i
  show "bit (push_bit 1 (mask k) OR 1 :: u32) i = bit (mask (Suc k) :: u32) i" if "i < LENGTH(32)"
    using that unfolding bit_or_iff bit_push_bit_iff bit_mask_iff bit_1_iff by (cases i) auto
qed

lemma bit_mask_loop_mask: "bit_mask_loop n (mask k) = mask (n + k)"
proof (induction n arbitrary: k)
  case (Suc n)
  show ?case unfolding bit_mask_loop.simps mask_Suc_u32 using Suc.IH [of "Suc k"] by simp
qed simp

lemma getBitMask_mask: "getBitMask n = mask (unat n)"
  using bit_mask_loop_mask [of "unat n" 0] by (simp add: getBitMask_def)

text \<open>The queues of a layout.\<close>

definition layout_queues :: "u32 \<times> u32 \<Rightarrow> nat set" where
  "layout_queues mn = {i. i < unat (snd mn) \<and> bit (fst mn) i}"

lemma layout_queues_mask: "unat n \<le> 32 \<Longrightarrow> layout_queues (getBitMask n, n) = {0..<unat n}"
  by (auto simp: layout_queues_def getBitMask_mask bit_mask_iff)

lemma bit_3: "bit (3 :: int) i \<longleftrightarrow> i < 2" "bit (3 :: nat) i \<longleftrightarrow> i < 2"
proof -
  have "(3 :: int) = mask 2" "(3 :: nat) = mask 2" by (simp_all add: mask_eq_exp_minus_1)
  then show "bit (3 :: int) i \<longleftrightarrow> i < 2" "bit (3 :: nat) i \<longleftrightarrow> i < 2"
    unfolding bit_mask_iff by (simp_all only: bit_mask_iff) simp_all
qed

lemma bit_3_u32: "bit (3 :: u32) i \<longleftrightarrow> i < 2"
proof -
  have "(3 :: u32) = mask 2" by (simp add: mask_eq_exp_minus_1)
  then show ?thesis by (auto simp only: bit_mask_iff) auto
qed

text \<open>
  The configuration of the CameraLink chips decides which queues exist: all that the FPGA reports, from the first on, or
  after four that are left out, or two, two left out, and the rest; the medium configuration has two less than
  reported, which the firmware counts too many. In every other configuration exactly as many exist as reported.
\<close>

theorem uiq_layouts:
  assumes n: "4 \<le> unat n" "unat n \<le> 28"
  shows "layout_queues (uiq_layout t cl n) =
      (if \<not> has_cl_chips t then {0..<unat n}
       else if cl = ME5_CLCHIPGROUPNOTUSED then {4..<unat n + 4}
       else if cl = ME5_CLSINGLEBASE0 \<or> cl = ME5_CLSINGLEBASE1 \<or> cl = ME5_CLFULL then {0, 1} \<union> {4..<unat n + 2}
       else if cl = ME5_CLMEDIUM then {0, 1} \<union> {4..<unat n}
       else {0..<unat n})
    \<and> card (layout_queues (uiq_layout t cl n)) = (if has_cl_chips t \<and> cl = ME5_CLMEDIUM then unat n - 2 else unat n)"
proof -
  have u: "unat (n + 4) = unat n + 4" "unat (n + 2) = unat n + 2"
      "unat (n - 2) = unat n - 2" "unat (n - 4) = unat n - 4"
    using n by (simp_all add: unat_add_u32 unat_sub_u32)
  have shifted: "layout_queues (push_bit 4 (getBitMask n), n + 4) = {4..<unat n + 4}"
    using n by (auto simp: layout_queues_def getBitMask_mask u bit_simps)
  have base: "layout_queues (3 OR push_bit 4 (getBitMask (n - 2)), n + 2) = {0, 1} \<union> {4..<unat n + 2}"
    using n by (auto simp: layout_queues_def getBitMask_mask u bit_or_iff bit_3_u32 bit_3 bit_push_bit_iff bit_mask_iff)
  have medium: "layout_queues (3 OR push_bit 4 (getBitMask (n - 4)), n) = {0, 1} \<union> {4..<unat n}"
    using n by (auto simp: layout_queues_def getBitMask_mask u bit_or_iff bit_3_u32 bit_3 bit_push_bit_iff bit_mask_iff)
  have plain: "layout_queues (getBitMask n, n) = {0..<unat n}" using n by (simp add: layout_queues_mask)
  have c: "card ({0, 1} \<union> {4..<unat n + 2}) = unat n" "card ({0, 1} \<union> {4..<unat n}) = unat n - 2"
    using n by (subst card_Un_disjoint; auto)+
  show ?thesis
    using shifted base medium plain c by (simp add: uiq_layout_def cl_layout_def)
qed

section \<open>Old firmware\<close>

lemma new_uiqs_none: "new_uiqs env t f offs 0 is = Inr (map (\<lambda>i. None) is)"
  by (induction "is") simp_all

text \<open>
  For firmware that does not report its queues, \<^verbatim>\<open>me5_init_uiqs\<close> makes a table of fourteen, but the mask of the queues
  was computed before, from a count of zero, so none of the fourteen is made.
\<close>

theorem me5_old_firmware_gets_no_queues:
  assumes silent: "\<And>s. fst (ri_read ri ME5_UIQCNT s) = 0" "\<And>s. fst (ri_read ri ME5_FIRSTUIQ s) = 0"
    and type: "\<not> has_cl_chips (uint (GETBOARDTYPE config_ex))"
  shows "\<exists>b'. me5_init_uiqs ri env True t config_ex b = (0, b')
    \<and> uiqs b' = replicate 14 None \<and> num_active_uiqs b' = num_active_uiqs b + 14"
proof -
  have z: "getBitMask 0 = 0" by (simp add: getBitMask_def)
  have n: "map (\<lambda>i. None) [0..<14] = replicate 14 None" by (simp add: map_replicate_const)
  show ?thesis
    using type
    by (simp add: silent me5_init_uiqs_def Let_def case_prod_beta uiq_layout_def z me5_add_uiqs_def new_uiqs_none n)
qed

section \<open>Gaps\<close>

lemma gap_loop:
  assumes "st = push_bit k 1" "k < 32" "uiq_of (k - ME5_IRQQ_LOW) b = None" "\<forall>n\<in>set ns. ME5_IRQQ_LOW \<le> n"
    "ME5_IRQQ_LOW \<le> k"
  shows "me5_uiq_irqs ri now ns st b s =
     (if \<exists>n\<in>set ns. length (uiqs b) \<le> n - ME5_IRQQ_LOW then None else Some (st, b, s))"
  using assms(4)
proof (induction ns)
  case (Cons n ns)
  have st: "st \<noteq> 0" using assms(1,2) by (simp add: push_bit_eq_0_iff)
  show ?case
  proof (cases "length (uiqs b) \<le> n - ME5_IRQQ_LOW")
    case False
    have "\<not> bit st n" if "uiqs b ! (n - ME5_IRQQ_LOW) = Some u" for u
    proof
      assume "bit st n"
      then have "n = k" using assms(1) by (auto simp: bit_simps)
      then show False using assms(3) that False by (simp add: uiq_of_def)
    qed
    then show ?thesis using Cons False st by (auto simp: Let_def split: option.split)
  qed (simp add: st Let_def)
qed (use assms in simp)

text \<open>
  The enabled interrupts cover all entries of the table, gaps included. An interrupt of a gap, or of no queue at all, is never
  acknowledged: the handler returns with the bit still set and no register written, so it is called again at once. With
  fewer than fourteen entries it reads past the end of the table before.
\<close>

theorem interrupt_of_a_gap_is_not_acknowledged:
  assumes "uiq_of i b = None" "i < 14"
  shows "me5_uiq_irqs ri now [ME5_IRQQ_LOW..<Suc ME5_IRQQ_HIGH] (push_bit (i + ME5_IRQQ_LOW) 1) b s =
     (if length (uiqs b) < 14 then None else Some (push_bit (i + ME5_IRQQ_LOW) 1, b, s))"
proof -
  have "(\<exists>n\<in>set [ME5_IRQQ_LOW..<Suc ME5_IRQQ_HIGH]. length (uiqs b) \<le> n - ME5_IRQQ_LOW) \<longleftrightarrow> length (uiqs b) < 14"
    by (auto intro!: bexI [of _ "29 :: nat"])
  then show ?thesis
    using gap_loop [OF refl, of "i + ME5_IRQQ_LOW" b "[ME5_IRQQ_LOW..<Suc ME5_IRQQ_HIGH]" ri now s] assms
    by simp
qed

end
