(* ===== verification/Dma_Alloc.thy ===== *)
theory Dma_Alloc
  imports Dma_Me6_Props
begin

text \<open>
  The table of DMA channels of a board: its growth, \<^verbatim>\<open>men_add_dmas\<close>, and its removal, \<^verbatim>\<open>men_alloc_dma\<close>, of
  \<^verbatim>\<open>linux/menable_dma.c\<close>. The kernel services enter as outcomes. A pointer that is returned is the
  address of a channel, or a number made with \<^verbatim>\<open>ERR_PTR\<close>; \<^verbatim>\<open>IS_ERR\<close> holds of the negated error numbers only. A result
  \<open>None\<close> is undefined behaviour: a write past the table, or a number that passes for a channel.
\<close>

section \<open>One channel\<close>

record chan_env =
  ce_mem :: "chan_ptr option"
  ce_register :: int
  ce_link :: int

definition IS_ERR :: "int \<Rightarrow> bool" where
  "IS_ERR e \<longleftrightarrow> - 4095 \<le> e \<and> e < 0"

text \<open>The index is an \<^verbatim>\<open>unsigned char\<close>.\<close>

definition new_chan :: "nat \<Rightarrow> nat \<Rightarrow> menable_dmachan" where
  "new_chan idx fp = \<lparr>active = None, number = idx mod 256, fpga = fp, mode = 0, direction = 0,
     state = MEN_DMA_CHAN_STATE_STARTING, imgcnt = 0, goodcnt = 0, latest_frame_number = 0,
     free_count = 0, ready_count = 0, grabbed_count = 0, hot_count = 0, lost_count = 0,
     locked_count = 0, free_list = [], ready_list = [], grabbed_list = [], hot_list = [],
     wait_list = [], transfer_todo = 0, chan_timeout = 0, timer_armed = False,
     dwork_scheduled = False, hw_queue = []\<rparr>"

text \<open>
  \<^verbatim>\<open>men_create_dmachan\<close>: the address, or the number given to \<^verbatim>\<open>ERR_PTR\<close>; and how often the memory of the
  channel was freed, \<^verbatim>\<open>device_unregister\<close> being the last to hold it.
\<close>

definition men_create_dmachan ::
    "chan_env \<Rightarrow> nat \<Rightarrow> nat \<Rightarrow> 'hw siso_menable \<Rightarrow> (int + chan_ptr) \<times> nat \<times> 'hw siso_menable" where
  "men_create_dmachan e idx fp m =
     (case ce_mem e of
        None \<Rightarrow> (Inl ENOMEM, 0, m)
      | Some p \<Rightarrow>
          let m1 = upd_chan p (\<lambda>c. new_chan idx fp) m
          in if ce_register e \<noteq> 0 then (Inl (ce_register e), 1, m1)
             else if ce_link e \<noteq> 0 then (Inl (ce_link e), 2, m1)
             else (Inr p, 0, m1))"

definition men_dma_remove :: "chan_ptr \<Rightarrow> 'hw siso_menable \<Rightarrow> 'hw siso_menable" where
  "men_dma_remove p m = upd_chan p (\<lambda>c. c\<lparr>timer_armed := False\<rparr>) m"

section \<open>More channels\<close>

definition dma_total :: "'hw siso_menable \<Rightarrow> nat" where
  "dma_total m = sum_list (map unat (take MAX_FPGAS (dmacnt m)))"

text \<open>What each FPGA in use reports.\<close>

fun query_all ::
    "'hw board_ops \<Rightarrow> nat list \<Rightarrow> 'hw siso_menable \<Rightarrow> u32 list \<times> 'hw siso_menable" where
  "query_all ops [] m = ([], m)"
| "query_all ops (i # is) m =
     (let (n, m1) = query_dma ops i m; (ns, m2) = query_all ops is m1 in (n # ns, m2))"

text \<open>
  The channels to create, as pairs of the index and the FPGA; the number for an FPGA is a difference of
  \<^verbatim>\<open>unsigned int\<close>.
\<close>

definition new_channels :: "nat \<Rightarrow> (nat \<Rightarrow> u32) \<Rightarrow> u32 list \<Rightarrow> (nat \<times> nat) list" where
  "new_channels first existing requested =
     (let fpgas = concat (map (\<lambda>i. replicate (unat (requested ! i - existing i)) i) [0..<length requested])
      in zip [first..<first + length fpgas] fpgas)"

text \<open>
  Creating them: the new entries of the table, or the error to return after the ones made so far are removed.
\<close>

fun create_all ::
    "(nat \<Rightarrow> chan_env) \<Rightarrow> nat \<Rightarrow> (nat \<times> nat) list \<Rightarrow> chan_ptr list \<Rightarrow> 'hw siso_menable
     \<Rightarrow> ((int + chan_ptr list) \<times> 'hw siso_menable) option" where
  "create_all env slots [] made m = Some (Inr made, m)"
| "create_all env slots ((idx, fp) # rest) made m =
     (if idx \<ge> slots then None
      else case men_create_dmachan (env idx) idx fp m of
             (Inr p, _, m1) \<Rightarrow> create_all env slots rest (made @ [p]) m1
           | (Inl e, _, m1) \<Rightarrow> if IS_ERR e then Some (Inl e, fold men_dma_remove made m1) else None)"

definition men_add_dmas ::
    "'hw board_ops \<Rightarrow> (nat \<Rightarrow> chan_env) \<Rightarrow> bool \<Rightarrow> 'hw siso_menable \<Rightarrow> (int \<times> 'hw siso_menable) option" where
  "men_add_dmas ops env table_mem m =
     (let existing = (\<lambda>i. ucast (dmacnt m ! i) :: u32);
          total = dma_total m;
          (requested, m1) = query_all ops [0..<active_fpgas m] m;
          wanted = unat (sum_list requested)
      in if wanted \<le> total then Some (0, m1)
         else if \<not> table_mem then Some (- ENOMEM, m1)
         else case create_all env wanted (new_channels total existing requested) [] m1 of
                None \<Rightarrow> None
              | Some (Inl e, m2) \<Rightarrow> Some (e, m2)
              | Some (Inr made, m2) \<Rightarrow>
                  let (again, m3) = query_all ops [0..<active_fpgas m] m2
                  in Some (0, m3\<lparr>dmachannels := take total (dmachannels m) @ map Some made,
                                dmacnt := map ucast again @ drop (active_fpgas m) (dmacnt m)\<rparr>))"

section \<open>Fewer channels\<close>

text \<open>\<^verbatim>\<open>men_stop_dma_locked\<close> on the channels from \<open>count\<close> on; a missing channel would be dereferenced.\<close>

fun stop_from :: "nat list \<Rightarrow> 'hw siso_menable \<Rightarrow> 'hw siso_menable option" where
  "stop_from [] m = Some m"
| "stop_from (i # is) m =
     (case men_dma_channel (of_nat i) m of
        None \<Rightarrow> None
      | Some p \<Rightarrow> stop_from is (upd_chan p men_stop_dma_locked m))"

text \<open>The new counts; the rest of \<open>count\<close> is computed in \<^verbatim>\<open>unsigned int\<close>.\<close>

fun cut_counts :: "u32 \<Rightarrow> u8 list \<Rightarrow> u8 list \<times> u32" where
  "cut_counts left [] = ([], left)"
| "cut_counts left (n # ns) =
     (let (ns', rest) = cut_counts (if left > 0 then left - ucast n else left) ns
      in (ucast (min left (ucast n)) # ns', rest))"

definition men_alloc_dma :: "u32 \<Rightarrow> 'hw siso_menable \<Rightarrow> 'hw siso_menable option" where
  "men_alloc_dma count0 m =
     (let count = (if releasing m then 0 else count0); oldcnt = dma_total m
      in if oldcnt > MEN_MAX_DMA then None
         else if unat count \<ge> oldcnt then Some m
         else case stop_from [unat count..<oldcnt] m of
                None \<Rightarrow> None
              | Some m1 \<Rightarrow>
                  let old = drop (unat count) (take oldcnt (dmachannels m1));
                      (cnts, rest) = cut_counts count (take MAX_FPGAS (dmacnt m1));
                      table = take (unat count) (dmachannels m1) @ replicate (oldcnt - unat count) None
                              @ drop oldcnt (dmachannels m1);
                      m2 = m1\<lparr>dmacnt := cnts @ drop MAX_FPGAS (dmacnt m1),
                              dmachannels := (if rest = 0 then [] else table)\<rparr>
                  in Some (fold (\<lambda>e m. case e of None \<Rightarrow> m | Some p \<Rightarrow> men_dma_remove p m) (rev old) m2))"

end
