(* ===== verification/Dma_Alloc_Props.thy ===== *)
theory Dma_Alloc_Props
  imports Dma_Alloc
begin

text \<open>
  The table of channels agrees with the counts of the FPGAs, however channels are added and removed.
\<close>

section \<open>The invariant\<close>

text \<open>
  As many channels as the FPGA has, each at its index, at addresses of their own, and no others; the
  boards of this driver have their channels in one FPGA.
\<close>

definition dma_table_ok :: "'hw siso_menable \<Rightarrow> bool" where
  "dma_table_ok m \<longleftrightarrow> active_fpgas m = 1 \<and> (\<exists>n. dmacnt m = [n, 0] \<and> unat n \<le> MEN_MAX_DMA
     \<and> (\<exists>ps k. length ps = unat n \<and> distinct ps \<and> dmachannels m = map Some ps @ replicate k None
          \<and> (\<forall>i<length ps. number (chans m (ps ! i)) = i \<and> fpga (chans m (ps ! i)) = 0)))"

lemma dma_total_single: "dmacnt m = [n, 0] \<Longrightarrow> dma_total m = unat n"
  by (simp add: dma_total_def)

lemma new_channels_single:
  "new_channels first existing [r] =
     map (\<lambda>i. (i, 0)) [first..<first + unat (r - existing 0)]"
  by (simp add: new_channels_def zip_replicate2)

text \<open>Adding when memory and registration succeed.\<close>

definition env_ok :: "(nat \<Rightarrow> chan_env) \<Rightarrow> nat set \<Rightarrow> chan_ptr set \<Rightarrow> bool" where
  "env_ok env I used \<longleftrightarrow> inj_on (\<lambda>i. ce_mem (env i)) I
     \<and> (\<forall>i\<in>I. ce_register (env i) = 0 \<and> ce_link (env i) = 0 \<and> (\<exists>p. ce_mem (env i) = Some p \<and> p \<notin> used))"

lemma create_all_ok:
  assumes "\<forall>i\<in>set is. ce_register (env i) = 0 \<and> ce_link (env i) = 0 \<and> ce_mem (env i) \<noteq> None"
    "\<forall>i\<in>set is. i < slots" "inj_on (\<lambda>i. ce_mem (env i)) (set is)" "distinct is"
  shows "\<exists>m'. create_all env slots (map (\<lambda>i. (i, 0)) is) made m
       = Some (Inr (made @ map (\<lambda>i. the (ce_mem (env i))) is), m')
     \<and> chans m' = (\<lambda>p. case List.find (\<lambda>i. ce_mem (env i) = Some p) is of
                        None \<Rightarrow> chans m p | Some i \<Rightarrow> new_chan i 0)
     \<and> dmacnt m' = dmacnt m \<and> dmachannels m' = dmachannels m \<and> active_fpgas m' = active_fpgas m"
  using assms
proof (induction "is" arbitrary: made m)
  case (Cons i "is")
  obtain p where p: "ce_mem (env i) = Some p" using Cons.prems(1) by auto
  let ?m = "upd_chan p (\<lambda>c. new_chan i 0) m"
  have c: "men_create_dmachan (env i) i 0 m = (Inr p, 0, ?m)"
    using Cons.prems(1) by (simp add: men_create_dmachan_def p Let_def)
  have other: "j \<in> set is \<Longrightarrow> ce_mem (env j) \<noteq> Some p" for j
    using Cons.prems(3,4) p by (force simp: inj_on_def)
  have "List.find (\<lambda>i. ce_mem (env i) = Some p) is = None" using other by (simp add: find_None_iff)
  moreover obtain m' where "create_all env slots (map (\<lambda>i. (i, 0)) is) (made @ [p]) ?m
       = Some (Inr ((made @ [p]) @ map (\<lambda>i. the (ce_mem (env i))) is), m')"
     "chans m' = (\<lambda>p. case List.find (\<lambda>i. ce_mem (env i) = Some p) is of
                        None \<Rightarrow> chans ?m p | Some i \<Rightarrow> new_chan i 0)"
     "dmacnt m' = dmacnt ?m" "dmachannels m' = dmachannels ?m" "active_fpgas m' = active_fpgas ?m"
    using Cons.IH [of "made @ [p]" ?m] Cons.prems by (auto simp: inj_on_def)
  ultimately show ?case
    using Cons.prems(2) by (auto simp: c p fun_eq_iff upd_chan_def split: option.split)
qed simp

section \<open>Removing\<close>

lemma unat_u8_bound: "unat (n :: u8) < 256"
  using unsigned_less [of n, where 'a = nat] by simp

lemma men_dma_channel_table:
  assumes "dmacnt m = [n, 0]" "dmachannels m = map Some ps @ xs" "length ps = unat n" "i < unat n"
  shows "men_dma_channel (of_nat i) m = Some (ps ! i)"
proof -
  have "unat n < 256" by (rule unat_u8_bound)
  then have "unat (of_nat i :: u32) = i" using assms(4) by simp
  then show ?thesis using assms by (simp add: men_dma_channel_def nth_append)
qed

lemma men_stop_dma_locked_todo: "transfer_todo (men_stop_dma_locked c) \<le> 0"
  "number (men_stop_dma_locked c) = number c" "fpga (men_stop_dma_locked c) = fpga c"
  by (simp_all add: men_stop_dma_locked_def)

lemma stop_from_ok:
  assumes "dmacnt m = [n, 0]" "dmachannels m = map Some ps @ xs" "length ps = unat n" "\<forall>i\<in>set is. i < unat n"
  shows "\<exists>m'. stop_from is m = Some m' \<and> dmacnt m' = dmacnt m \<and> dmachannels m' = dmachannels m
    \<and> active_fpgas m' = active_fpgas m
    \<and> (\<forall>p. number (chans m' p) = number (chans m p) \<and> fpga (chans m' p) = fpga (chans m p)
         \<and> (transfer_todo (chans m p) \<le> 0 \<longrightarrow> transfer_todo (chans m' p) \<le> 0))
    \<and> (\<forall>i\<in>set is. transfer_todo (chans m' (ps ! i)) \<le> 0)"
  using assms
proof (induction "is" arbitrary: m)
  case (Cons i "is")
  let ?m = "upd_chan (ps ! i) men_stop_dma_locked m"
  have c: "men_dma_channel (of_nat i) m = Some (ps ! i)"
    using Cons.prems by (intro men_dma_channel_table) auto
  have "dmacnt ?m = [n, 0]" "dmachannels ?m = map Some ps @ xs" using Cons.prems by simp_all
  then obtain m' where m': "stop_from is ?m = Some m'" "dmacnt m' = dmacnt ?m" "dmachannels m' = dmachannels ?m"
      "active_fpgas m' = active_fpgas ?m"
      "\<And>p. number (chans m' p) = number (chans ?m p) \<and> fpga (chans m' p) = fpga (chans ?m p)
         \<and> (transfer_todo (chans ?m p) \<le> 0 \<longrightarrow> transfer_todo (chans m' p) \<le> 0)"
      "\<forall>i\<in>set is. transfer_todo (chans m' (ps ! i)) \<le> 0"
    using Cons.IH [of ?m] Cons.prems by auto
  have stopped: "transfer_todo (chans m' (ps ! i)) \<le> 0"
    using m'(5) [of "ps ! i"] men_stop_dma_locked_todo(1) by simp
  have "number (chans m' p) = number (chans m p) \<and> fpga (chans m' p) = fpga (chans m p)
      \<and> (transfer_todo (chans m p) \<le> 0 \<longrightarrow> transfer_todo (chans m' p) \<le> 0)" for p
    using m'(5) [of p] men_stop_dma_locked_todo by (cases "p = ps ! i") simp_all
  then show ?case using m' stopped c by (simp add: upd_chan_def)
qed simp

lemma fold_remove:
  "dmacnt (fold (\<lambda>e m. case e of None \<Rightarrow> m | Some p \<Rightarrow> men_dma_remove p m) es m) = dmacnt m
   \<and> dmachannels (fold (\<lambda>e m. case e of None \<Rightarrow> m | Some p \<Rightarrow> men_dma_remove p m) es m) = dmachannels m
   \<and> active_fpgas (fold (\<lambda>e m. case e of None \<Rightarrow> m | Some p \<Rightarrow> men_dma_remove p m) es m) = active_fpgas m
   \<and> (\<forall>p. let c = chans (fold (\<lambda>e m. case e of None \<Rightarrow> m | Some p \<Rightarrow> men_dma_remove p m) es m) p
         in number c = number (chans m p) \<and> fpga c = fpga (chans m p)
            \<and> transfer_todo c = transfer_todo (chans m p))"
proof (induction es arbitrary: m)
  case (Cons e es)
  show ?case using Cons.IH [of "case e of None \<Rightarrow> m | Some p \<Rightarrow> men_dma_remove p m"]
    by (cases e) (auto simp: men_dma_remove_def upd_chan_def Let_def)
qed simp

lemma cut_counts_single:
  assumes "unat c < unat (n :: u8)"
  shows "cut_counts c [n, 0] = ([ucast c, 0], if c = 0 then 0 else c - ucast n)"
proof -
  have "unat (ucast n :: u32) = unat n"
    using unat_u8_bound [of n] by (simp add: unsigned_ucast_eq take_bit_eq_mod)
  then have "min c (ucast n) = c" using assms by (simp add: min_def word_le_nat_alt)
  then show ?thesis by (simp add: Let_def word_gt_0)
qed

lemma alloc_dma_spec:
  assumes "dma_table_ok m"
    and c_def: "c = (if releasing m then 0 else wanted)"
  shows "\<exists>m'. men_alloc_dma wanted m = Some m' \<and> dma_table_ok m' \<and> dma_total m' = min (unat c) (dma_total m)
    \<and> (\<forall>i. unat c \<le> i \<longrightarrow> i < dma_total m \<longrightarrow> transfer_todo (chans m' (the (dmachannels m ! i))) \<le> 0)"
proof -
  obtain n ps k where t: "active_fpgas m = 1" "dmacnt m = [n, 0]" "unat n \<le> MEN_MAX_DMA" "length ps = unat n"
      "distinct ps" "dmachannels m = map Some ps @ replicate k None"
      "\<forall>i<length ps. number (chans m (ps ! i)) = i \<and> fpga (chans m (ps ! i)) = 0"
    using assms(1) by (auto simp: dma_table_ok_def)
  note total = dma_total_single [OF t(2)]
  show ?thesis
  proof (cases "unat c \<ge> unat n")
    case True
    then have "men_alloc_dma wanted m = Some m"
      using t(3) by (simp add: men_alloc_dma_def total c_def [symmetric] Let_def)
    then show ?thesis using assms(1) True by (auto simp: total)
  next
    case False
    then have lt: "unat c < unat n" by simp
    obtain m1 where m1: "stop_from [unat c..<unat n] m = Some m1" "dmacnt m1 = dmacnt m"
        "dmachannels m1 = dmachannels m" "active_fpgas m1 = active_fpgas m"
        "\<And>p. number (chans m1 p) = number (chans m p) \<and> fpga (chans m1 p) = fpga (chans m p)"
        "\<forall>i\<in>set [unat c..<unat n]. transfer_todo (chans m1 (ps ! i)) \<le> 0"
      using stop_from_ok [OF t(2,6,4), of "[unat c..<unat n]"] by auto
    define table where "table = map Some (take (unat c) ps) @ replicate (unat n - unat c) None @ replicate k None"
    let ?m2 = "m1\<lparr>dmacnt := [ucast c, 0],
        dmachannels := (if (if c = 0 then 0 else c - ucast n) = 0 then [] else table)\<rparr>"
    define m3 where "m3 = fold (\<lambda>e m. case e of None \<Rightarrow> m | Some p \<Rightarrow> men_dma_remove p m)
        (rev (map Some (drop (unat c) ps))) ?m2"
    have res: "men_alloc_dma wanted m = Some m3"
      using t lt m1(1-3) cut_counts_single [OF lt]
      by (simp add: men_alloc_dma_def total c_def [symmetric] Let_def m3_def table_def take_map drop_map)
    note f = fold_remove [of "rev (map Some (drop (unat c) ps))" ?m2, folded m3_def]
    have uc: "unat (ucast c :: u8) = unat c"
      using lt unat_u8_bound [of n] by (simp add: unsigned_ucast_eq take_bit_eq_mod)
    have ne: "c \<noteq> 0 \<Longrightarrow> c - ucast n \<noteq> 0"
    proof
      assume "c - ucast n = 0"
      then have "unat c = unat (ucast n :: u32)" by simp
      then show False using lt unat_u8_bound [of n] by (simp add: unsigned_ucast_eq take_bit_eq_mod)
    qed
    have "dmachannels m3 = map Some (take (unat c) ps) @ replicate (if c = 0 then 0 else unat n - unat c + k) None"
      using f ne by (simp add: table_def replicate_add)
    moreover have "dmacnt m3 = [ucast c, 0]" "active_fpgas m3 = 1" using f m1(4) t(1) by simp_all
    moreover have "\<forall>p. number (chans m3 p) = number (chans m p) \<and> fpga (chans m3 p) = fpga (chans m p)"
      using f m1(5) by (simp add: Let_def)
    moreover have todo: "\<forall>p. transfer_todo (chans m3 p) = transfer_todo (chans m1 p)"
      using f by (simp add: Let_def)
    ultimately have "dma_table_ok m3"
      using t(3,5,7) t(4) lt uc unfolding dma_table_ok_def
      by (intro conjI exI [of _ "ucast c"] exI [of _ "take (unat c) ps"]
          exI [of _ "if c = 0 then 0 else unat n - unat c + k"]) auto
    moreover have "dma_total m3 = unat c" using f uc by (simp add: dma_total_def)
    ultimately show ?thesis
      using res lt t(4,6) todo m1(6) by (simp add: total nth_append)
  qed
qed

section \<open>Adding\<close>

text \<open>A device that keeps answering \<open>q\<close>, and changes nothing but its own state.\<close>

definition query_answers :: "'hw board_ops \<Rightarrow> u32 \<Rightarrow> bool" where
  "query_answers ops q \<longleftrightarrow> (\<forall>m. fst (query_dma ops 0 m) = q \<and> same_dma m (snd (query_dma ops 0 m)))"

lemma query_all_single:
  assumes "query_answers ops q"
  shows "\<exists>m'. query_dma ops 0 m = (q, m') \<and> same_dma m m' \<and> dmacnt m' = dmacnt m \<and> active_fpgas m' = active_fpgas m"
proof -
  obtain m' where q: "query_dma ops 0 m = (q, m')" "same_dma m m'"
    using assms by (metis query_answers_def prod.collapse)
  then have "dmacnt m' = dmacnt m \<and> active_fpgas m' = active_fpgas m" by (auto simp: same_dma_def)
  then show ?thesis using q by simp
qed

lemma add_dmas_spec:
  assumes ok: "dma_table_ok m" and ans: "query_answers ops q" and q: "unat q \<le> MEN_MAX_DMA"
    and env: "env_ok env {dma_total m..<unat q} {p. Some p \<in> set (dmachannels m)}"
  shows "\<exists>m'. men_add_dmas ops env True m = Some (0, m') \<and> dma_table_ok m'
    \<and> dma_total m' = max (dma_total m) (unat q)"
proof -
  obtain n ps k where t: "active_fpgas m = 1" "dmacnt m = [n, 0]" "unat n \<le> MEN_MAX_DMA" "length ps = unat n"
      "distinct ps" "dmachannels m = map Some ps @ replicate k None"
      "\<forall>i<length ps. number (chans m (ps ! i)) = i \<and> fpga (chans m (ps ! i)) = 0"
    using ok by (auto simp: dma_table_ok_def)
  note total = dma_total_single [OF t(2)]
  obtain m1 where m1: "query_dma ops 0 m = (q, m1)" "same_dma m m1" "dmacnt m1 = dmacnt m"
      "active_fpgas m1 = active_fpgas m" using query_all_single [OF ans] by blast
  note f1 = same_dma_fields [OF m1(2)]
  show ?thesis
  proof (cases "unat q \<le> unat n")
    case True
    then have "men_add_dmas ops env True m = Some (0, m1)" by (simp add: men_add_dmas_def t(1) m1(1) total Let_def)
    moreover have "dma_table_ok m1 = dma_table_ok m" by (simp add: dma_table_ok_def f1 m1(3,4))
    moreover have "dma_total m1 = unat n" using m1(3) by (simp add: dma_total_def t(2))
    ultimately show ?thesis using ok True by (simp add: total)
  next
    case False
    let ?I = "[unat n..<unat q]" and ?p = "\<lambda>i. the (ce_mem (env i))"
    have e: "\<forall>i\<in>set ?I. ce_register (env i) = 0 \<and> ce_link (env i) = 0 \<and> ce_mem (env i) \<noteq> None"
      "inj_on (\<lambda>i. ce_mem (env i)) (set ?I)" "\<forall>i\<in>set ?I. ?p i \<notin> set ps"
      using env by (auto simp: env_ok_def total t(6))
    have un: "unat (q - ucast n) = unat q - unat n"
      using False unat_u8_bound [of n]
      by (subst unat_sub_u32) (simp_all add: unsigned_ucast_eq take_bit_eq_mod)
    then have nc: "new_channels (unat n) (\<lambda>i. ucast ([n, 0] ! i)) [q] = map (\<lambda>i. (i, 0)) ?I"
      using False by (simp add: new_channels_single t(2))
    obtain m2 where m2: "create_all env (unat q) (map (\<lambda>i. (i, 0)) ?I) [] m1 = Some (Inr (map ?p ?I), m2)"
        "chans m2 = (\<lambda>p. case List.find (\<lambda>i. ce_mem (env i) = Some p) ?I of
                        None \<Rightarrow> chans m1 p | Some i \<Rightarrow> new_chan i 0)"
        "dmacnt m2 = dmacnt m1" "active_fpgas m2 = active_fpgas m1"
      using create_all_ok [OF e(1) _ e(2), of "unat q" "[]" m1] by auto
    obtain m3 where m3: "query_dma ops 0 m2 = (q, m3)" "same_dma m2 m3" "dmacnt m3 = dmacnt m2"
        "active_fpgas m3 = active_fpgas m2" using query_all_single [OF ans] by blast
    let ?m = "m3\<lparr>dmachannels := map Some (ps @ map ?p ?I), dmacnt := [ucast q, 0]\<rparr>"
    have res: "men_add_dmas ops env True m = Some (0, ?m)"
      using False by (simp add: men_add_dmas_def t(1) m1(1) total Let_def nc m2(1) m3(1) t(2,4,6))
    have uq: "unat (ucast q :: u8) = unat q" using q by (simp add: unsigned_ucast_eq take_bit_eq_mod)
    have old: "chans ?m (ps ! i) = chans m (ps ! i)" if "i < length ps" for i
    proof -
      have "List.find (\<lambda>j. ce_mem (env j) = Some (ps ! i)) ?I = None"
        using e(3) that by (force simp: find_None_iff)
      then show ?thesis by (simp add: same_dma_fields [OF m3(2)] m2(2) f1)
    qed
    have new: "chans ?m (?p i) = new_chan i 0" if "i \<in> set ?I" for i
    proof -
      have "List.find (\<lambda>j. ce_mem (env j) = Some (?p i)) ?I = Some i"
      proof (cases "List.find (\<lambda>j. ce_mem (env j) = Some (?p i)) ?I")
        case None
        then show ?thesis using e(1) that by (force simp: find_None_iff)
      next
        case (Some j)
        then have "j \<in> set ?I" "ce_mem (env j) = Some (?p i)" by (auto simp: find_Some_iff)
        moreover from this have "ce_mem (env j) = ce_mem (env i)" using e(1) that by simp
        ultimately have "j = i" using inj_onD [OF e(2)] that by blast
        then show ?thesis using Some by simp
      qed
      then show ?thesis by (simp add: same_dma_fields [OF m3(2)] m2(2))
    qed
    have len: "length (ps @ map ?p ?I) = unat q" using False t(4) by simp
    have "inj_on ?p (set ?I)"
    proof (rule inj_onI)
      fix i j assume ij: "i \<in> set ?I" "j \<in> set ?I" "?p i = ?p j"
      then have "ce_mem (env i) = ce_mem (env j)" using e(1) by (metis option.expand)
      then show "i = j" using inj_onD [OF e(2)] ij(1,2) by blast
    qed
    then have "distinct (ps @ map ?p ?I)" using t(5) e(3) by (auto simp: distinct_map)
    moreover have "number (chans ?m ((ps @ map ?p ?I) ! i)) = i \<and> fpga (chans ?m ((ps @ map ?p ?I) ! i)) = 0"
      if "i < unat q" for i
    proof (cases "i < length ps")
      case True
      then show ?thesis using old t(7) by (simp add: nth_append)
    next
      case False
      then have "(ps @ map ?p ?I) ! i = ?p i" "i \<in> set ?I" using that t(4) by (auto simp: nth_append)
      moreover have "i < 256" using that q by simp
      ultimately show ?thesis using new by (simp add: new_chan_def)
    qed
    ultimately have "dma_table_ok ?m"
      using len q uq t(1) m1(4) m2(4) m3(4) unfolding dma_table_ok_def
      by (intro conjI exI [of _ "ucast q"] exI [of _ "ps @ map ?p ?I"] exI [of _ 0]) auto
    then show ?thesis using res uq False by (simp add: dma_total_def t(2))
  qed
qed

text \<open>
  C32: On a board with one active FPGA whose table of channels agrees with its count (as many channels as counted, each at its
  index, at addresses of their own), \<^verbatim>\<open>men_alloc_dma\<close> and \<^verbatim>\<open>men_add_dmas\<close> keep the agreement. \<^verbatim>\<open>men_alloc_dma\<close> keeps the first
  channels, as many as wanted, none if the board is released, and those it removes have nothing left to transfer.
  \<^verbatim>\<open>men_add_dmas\<close> brings the count up to what the device reports and never down, if the device reports the same number, at most \<open>MEN_MAX_DMA\<close>,
  whenever asked, changing nothing but its own state, and if memory (at addresses not in use) and registration do not fail.
\<close>

theorem dma_table_stays_consistent:
  assumes ok: "dma_table_ok m" and ans: "query_answers ops q" and q: "unat q \<le> MEN_MAX_DMA"
    and env: "env_ok env {dma_total m..<unat q} {p. Some p \<in> set (dmachannels m)}"
  shows "(\<exists>m'. men_alloc_dma wanted m = Some m' \<and> dma_table_ok m'
       \<and> dma_total m' = min (if releasing m then 0 else unat wanted) (dma_total m)
       \<and> (\<forall>i. dma_total m' \<le> i \<longrightarrow> i < dma_total m \<longrightarrow>
            transfer_todo (chans m' (the (dmachannels m ! i))) \<le> 0))
    \<and> (\<exists>m'. men_add_dmas ops env True m = Some (0, m') \<and> dma_table_ok m'
       \<and> dma_total m' = max (dma_total m) (unat q))"
proof
  let ?c = "if releasing m then 0 else wanted"
  obtain m' where "men_alloc_dma wanted m = Some m'" "dma_table_ok m'" "dma_total m' = min (unat ?c) (dma_total m)"
      "\<forall>i. unat ?c \<le> i \<longrightarrow> i < dma_total m \<longrightarrow> transfer_todo (chans m' (the (dmachannels m ! i))) \<le> 0"
    using alloc_dma_spec [OF ok refl, of wanted] by blast
  then show "\<exists>m'. men_alloc_dma wanted m = Some m' \<and> dma_table_ok m'
       \<and> dma_total m' = min (if releasing m then 0 else unat wanted) (dma_total m)
       \<and> (\<forall>i. dma_total m' \<le> i \<longrightarrow> i < dma_total m \<longrightarrow>
            transfer_todo (chans m' (the (dmachannels m ! i))) \<le> 0)"
    by (intro exI [of _ m']) auto
qed (rule add_dmas_spec [OF assms])

text \<open>
  When memory for a channel is short, \<^verbatim>\<open>men_create_dmachan\<close> returns \<^verbatim>\<open>ERR_PTR(ENOMEM)\<close>, whose sign is wrong:
  \<^verbatim>\<open>IS_ERR\<close> does not hold of it, and the number is entered in the table as a channel.
\<close>

lemma missing_memory_passes_for_a_channel:
  assumes "dma_table_ok m" "query_answers ops q" "dma_total m < unat q" "ce_mem (env (dma_total m)) = None"
  shows "men_add_dmas ops env True m = None"
proof -
  obtain n where t: "active_fpgas m = 1" "dmacnt m = [n, 0]" using assms(1) by (auto simp: dma_table_ok_def)
  note total = dma_total_single [OF t(2)]
  obtain m1 where m1: "query_dma ops 0 m = (q, m1)" using query_all_single [OF assms(2)] by blast
  have un: "unat (q - ucast n) = unat q - unat n"
    using assms(3) unat_u8_bound [of n] by (subst unat_sub_u32) (simp_all add: unsigned_ucast_eq take_bit_eq_mod total)
  then have "new_channels (unat n) (\<lambda>i. ucast ([n, 0] ! i)) [q] = map (\<lambda>i. (i, 0)) [unat n..<unat q]"
    using assms(3) by (simp add: new_channels_single t(2) total)
  moreover have "[unat n..<unat q] = unat n # [Suc (unat n)..<unat q]"
    using assms(3) by (simp add: total upt_conv_Cons)
  ultimately show ?thesis
    using assms(3,4) by (simp add: men_add_dmas_def t m1 total Let_def men_create_dmachan_def IS_ERR_def)
qed

text \<open>A released board with two channels, and a device that reports three when the board is probed again.\<close>

definition three_ops :: "unit board_ops" where
  "three_ops = (me6_ops demo_ri)\<lparr>query_dma := (\<lambda>arg m. (3, m))\<rparr>"

definition plain_env :: "nat \<Rightarrow> chan_env" where
  "plain_env i = \<lparr>ce_mem = Some (10 + i), ce_register = 0, ce_link = 0\<rparr>"

lemma dma_table_stays_consistent_witness:
  "(\<exists>m'. men_alloc_dma 0 demo_board = Some m' \<and> dma_total m' = 0)
   \<and> (\<exists>m'. men_add_dmas three_ops plain_env True demo_board = Some (0, m') \<and> dma_total m' = 3)"
proof -
  have nums: "\<forall>i<length [0, 1]. number (chans demo_board ([0, 1] ! i)) = i \<and> fpga (chans demo_board ([0, 1] ! i)) = 0"
    by (auto simp: demo_board_def idle_chan_def less_Suc_eq)
  have "dmacnt demo_board = [2, 0]" "active_fpgas demo_board = 1"
      "dmachannels demo_board = map Some [0, 1] @ replicate 0 None" by (simp_all add: demo_board_def)
  then have ok: "dma_table_ok demo_board"
    unfolding dma_table_ok_def using nums
    by (intro conjI exI [of _ "2 :: u8"] exI [of _ "[0, 1] :: nat list"] exI [of _ "0 :: nat"]) simp_all
  have t: "dma_total demo_board = 2" by (simp add: dma_total_def demo_board_def)
  have ans: "query_answers three_ops 3" by (simp add: query_answers_def three_ops_def)
  have env: "env_ok plain_env {dma_total demo_board..<unat (3 :: u32)} {p. Some p \<in> set (dmachannels demo_board)}"
    by (simp add: env_ok_def plain_env_def inj_on_def demo_board_def)
  show ?thesis
    using dma_table_stays_consistent [OF ok ans _ env, of 0] by (auto simp: t)
qed

end
