(* ===== verification/Pci_Config.thy ===== *)
theory Pci_Config
  imports Bits
begin

text \<open>
  The PCI configuration space: headers, capabilities and base addresses, \<^verbatim>\<open>lib/pci/pci_config_interface.c\<close>,
  and what the driver takes from it, \<^verbatim>\<open>menable_read_config_space\<close> of \<^verbatim>\<open>linux/menable_core.c\<close>. The accesses of the
  kernel are a parameter: a value for each address, or none if the access fails. Reading changes nothing.
\<close>

abbreviation STATUS_ERR_DEV_IO :: int where "STATUS_ERR_DEV_IO \<equiv> -3"
abbreviation STATUS_ERR_NOT_FOUND :: int where "STATUS_ERR_NOT_FOUND \<equiv> -4"

record pci_config_interface =
  read8 :: "int \<Rightarrow> u8 option"
  read16 :: "int \<Rightarrow> u16 option"
  read32 :: "int \<Rightarrow> u32 option"

abbreviation PCI_BARS_ADDR :: int where "PCI_BARS_ADDR \<equiv> 0x10"
abbreviation PCI_CAPS_PTR :: int where "PCI_CAPS_PTR \<equiv> 0x34"
abbreviation PCIE_EXT_CAPS_PTR :: int where "PCIE_EXT_CAPS_PTR \<equiv> 0x100"
abbreviation PCI_HEADER_ADDR_ID :: int where "PCI_HEADER_ADDR_ID \<equiv> 0"
abbreviation PCI_HEADER_ADDR_CMD_STATUS :: int where "PCI_HEADER_ADDR_CMD_STATUS \<equiv> 4"
abbreviation PCI_HEADER_ADDR_SUBSYS_ID :: int where "PCI_HEADER_ADDR_SUBSYS_ID \<equiv> 0x2c"

section \<open>The header\<close>

record men_pci_header =
  vendor_id :: u16
  device_id :: u16
  subsys_vendor_id :: u16
  subsys_id :: u16
  command :: u16
  pci_status :: u16

definition get_pci_header :: "pci_config_interface \<Rightarrow> int + men_pci_header" where
  "get_pci_header cfg =
     (case read32 cfg PCI_HEADER_ADDR_ID of
        None \<Rightarrow> Inl STATUS_ERR_DEV_IO
      | Some ids \<Rightarrow>
        (case read32 cfg PCI_HEADER_ADDR_CMD_STATUS of
           None \<Rightarrow> Inl STATUS_ERR_DEV_IO
         | Some cmd \<Rightarrow>
           (case read32 cfg PCI_HEADER_ADDR_CMD_STATUS of
              None \<Rightarrow> Inl STATUS_ERR_DEV_IO
            | Some subsys \<Rightarrow> Inr \<lparr>vendor_id = ucast (GET_BITS ids 0 15), device_id = ucast (GET_BITS ids 16 31),
                subsys_vendor_id = ucast (GET_BITS subsys 0 15), subsys_id = ucast (GET_BITS subsys 16 31),
                command = ucast (GET_BITS cmd 0 15), pci_status = ucast (GET_BITS cmd 16 31)\<rparr>)))"

section \<open>Capabilities\<close>

text \<open>
  The lists of capabilities are followed until the pointer is zero; a list that runs in a circle is
  followed for ever, which is the value \<open>None\<close>.
\<close>

definition cap_id_of :: "u16 \<Rightarrow> u8" where
  "cap_id_of d = ucast (GET_BITS d 0 7)"

definition cap_next_of :: "u16 \<Rightarrow> u8" where
  "cap_next_of d = ucast (GET_BITS d 8 15)"

partial_function (option) cap_loop ::
    "pci_config_interface \<Rightarrow> u8 \<Rightarrow> u8 \<Rightarrow> (int + u8) option" where
  "cap_loop cfg cap cap_addr =
     (if cap_addr = 0 then Some (Inl STATUS_ERR_NOT_FOUND)
      else case read16 cfg (uint cap_addr) of
             None \<Rightarrow> Some (Inl STATUS_ERR_DEV_IO)
           | Some d \<Rightarrow> if cap_id_of d = cap then Some (Inr cap_addr) else cap_loop cfg cap (cap_next_of d))"

definition find_capability_address :: "pci_config_interface \<Rightarrow> u8 \<Rightarrow> (int + u8) option" where
  "find_capability_address cfg cap =
     (case read8 cfg PCI_CAPS_PTR of
        None \<Rightarrow> Some (Inl STATUS_ERR_DEV_IO)
      | Some a \<Rightarrow> cap_loop cfg cap a)"

definition ext_id_of :: "u32 \<Rightarrow> u16" where
  "ext_id_of h = ucast (h AND GEN_BITS 16)"

definition ext_next_of :: "u32 \<Rightarrow> int" where
  "ext_next_of h = uint (GET_BITS h 20 31)"

partial_function (option) ext_loop ::
    "pci_config_interface \<Rightarrow> u16 \<Rightarrow> int \<Rightarrow> (int + int) option" where
  "ext_loop cfg cap a =
     (case read32 cfg a of
        None \<Rightarrow> Some (Inl STATUS_ERR_DEV_IO)
      | Some h \<Rightarrow> if ext_id_of h = cap then Some (Inr a)
                  else if ext_next_of h \<noteq> 0 then ext_loop cfg cap (ext_next_of h)
                  else Some (Inl STATUS_ERR_NOT_FOUND))"

definition find_extended_cap_address :: "pci_config_interface \<Rightarrow> u16 \<Rightarrow> (int + int) option" where
  "find_extended_cap_address cfg cap = ext_loop cfg cap PCIE_EXT_CAPS_PTR"

text \<open>
  Reading an array; what the failed and the later elements hold is what the memory held before
  (\<open>old\<close>, as long as the array).
\<close>

fun pci_read_array_32 :: "pci_config_interface \<Rightarrow> int \<Rightarrow> u32 list \<Rightarrow> int \<times> u32 list" where
  "pci_read_array_32 cfg a [] = (STATUS_OK, [])"
| "pci_read_array_32 cfg a (x # old) =
     (case read32 cfg a of
        None \<Rightarrow> (STATUS_ERR_DEV_IO, x # old)
      | Some v \<Rightarrow> let (ret, vs) = pci_read_array_32 cfg (a + 4) old in (ret, v # vs))"

datatype cap_data =
    Msix_data bool bool u16 u8 u32 u8 u32
  | Pci_express_data u32 u16 u16 u32 u16 u16

abbreviation MEN_PCI_CAPABILITY_ID_PCI_EXPRESS :: u8 where "MEN_PCI_CAPABILITY_ID_PCI_EXPRESS \<equiv> 0x10"
abbreviation MEN_PCI_CAPABILITY_ID_MSIX :: u8 where "MEN_PCI_CAPABILITY_ID_MSIX \<equiv> 0x11"
abbreviation MEN_PCIE_CAP_ID_DEVICE_SERIAL_NUMBER :: u16 where "MEN_PCIE_CAP_ID_DEVICE_SERIAL_NUMBER \<equiv> 3"

definition msix_data :: "u32 list \<Rightarrow> cap_data" where
  "msix_data data =
     (let ctrl = ucast (GET_BITS (data ! 0) 16 31) :: u16
      in Msix_data (GET_BITS ctrl 15 15 \<noteq> 0) (GET_BITS ctrl 14 14 \<noteq> 0) (GET_BITS ctrl 0 10 + 1)
           (ucast (GET_BITS (data ! 1) 0 2)) (data ! 1 AND GEN_BITS_INV 3)
           (ucast (GET_BITS (data ! 2) 0 2)) (data ! 2 AND GEN_BITS_INV 3))"

definition pci_express_data :: "u32 list \<Rightarrow> cap_data" where
  "pci_express_data data = Pci_express_data (data ! 1)
     (ucast (GET_BITS (data ! 2) 0 15)) (ucast (GET_BITS (data ! 2) 16 31)) (data ! 3)
     (ucast (GET_BITS (data ! 4) 0 15)) (ucast (GET_BITS (data ! 4) 16 31))"

text \<open>\<open>stack\<close>: what the uninitialised array holds, 15 words.\<close>

definition pci_get_capability_data ::
    "pci_config_interface \<Rightarrow> u32 list \<Rightarrow> u8 \<Rightarrow> u8 \<Rightarrow> int + cap_data" where
  "pci_get_capability_data cfg stack cap address =
     (if cap = MEN_PCI_CAPABILITY_ID_MSIX then
        (case pci_read_array_32 cfg (uint address) (take 3 stack) of
           (ret, data) \<Rightarrow> if ret < 0 then Inl STATUS_ERR_DEV_IO else Inr (msix_data data))
      else if cap = MEN_PCI_CAPABILITY_ID_PCI_EXPRESS then
        Inr (pci_express_data (snd (pci_read_array_32 cfg (uint address) (take 15 stack))))
      else Inl STATUS_ERR_NOT_FOUND)"

definition find_capability ::
    "pci_config_interface \<Rightarrow> u32 list \<Rightarrow> u8 \<Rightarrow> (int + cap_data) option" where
  "find_capability cfg stack cap =
     map_option (\<lambda>r. case r of Inl e \<Rightarrow> Inl e
                        | Inr a \<Rightarrow> pci_get_capability_data cfg stack cap (GET_BITS a 0 7))
       (find_capability_address cfg cap)"

text \<open>The only extended capability the code decodes is the serial number.\<close>

definition get_pcie_capbability_data :: "pci_config_interface \<Rightarrow> u32 list \<Rightarrow> u16 \<Rightarrow> u16 \<Rightarrow> int + u64" where
  "get_pcie_capbability_data cfg stack cap address =
     (if cap = MEN_PCIE_CAP_ID_DEVICE_SERIAL_NUMBER then
        (case pci_read_array_32 cfg (uint address + 4) (take 2 stack) of
           (ret, data) \<Rightarrow> if ret < 0 then Inl STATUS_ERR_DEV_IO
                          else Inr (ucast (data ! 0) OR push_bit 32 (ucast (data ! 1))))
      else Inl STATUS_ERROR)"

definition find_extended_capability ::
    "pci_config_interface \<Rightarrow> u32 list \<Rightarrow> u16 \<Rightarrow> (int + u64) option" where
  "find_extended_capability cfg stack cap =
     map_option (\<lambda>r. case r of Inl e \<Rightarrow> Inl e
                        | Inr a \<Rightarrow> get_pcie_capbability_data cfg stack cap
                                     (ucast (GET_BITS (word_of_int a :: u32) 0 15)))
       (find_extended_cap_address cfg cap)"

section \<open>Base addresses\<close>

record men_pci_bar =
  is_valid :: bool
  is_memory :: bool
  is_64_bit :: bool
  bar_address :: u64

text \<open>
  The loop over the descriptors, the index first. A 64 bit address in the last one makes the loop write
  behind the array, which is undefined (\<open>None\<close>). \<open>n\<close> counts down as the index runs up to the number of descriptors.
\<close>

abbreviation NUM_BARS :: nat where "NUM_BARS \<equiv> 6"

fun bars_loop ::
    "pci_config_interface \<Rightarrow> nat \<Rightarrow> nat \<Rightarrow> men_pci_bar list \<Rightarrow> (int + men_pci_bar list) option" where
  "bars_loop cfg i 0 bars = Some (Inr bars)"
| "bars_loop cfg i (Suc n) bars =
     (case read32 cfg (PCI_BARS_ADDR + int i * 4) of
        None \<Rightarrow> Some (Inl STATUS_ERR_DEV_IO)
      | Some v \<Rightarrow>
          if v = 0 then bars_loop cfg (i + 1) n (bars[i := (bars ! i)\<lparr>is_valid := False\<rparr>])
          else if v AND 1 \<noteq> 0 then
            bars_loop cfg (i + 1) n (bars[i := \<lparr>is_valid = True, is_memory = False, is_64_bit = False,
                                                bar_address = ucast (v AND GEN_MASK 2 31)\<rparr>])
          else
            let wide = (GET_BITS v 1 2 = 2); address = ucast (v AND GEN_MASK 4 31) :: u64;
                b = \<lparr>is_valid = True, is_memory = True, is_64_bit = wide, bar_address = address\<rparr>
            in if \<not> wide then bars_loop cfg (i + 1) n (bars[i := b])
               else (case read32 cfg (PCI_BARS_ADDR + int (i + 1) * 4) of
                       None \<Rightarrow> Some (Inl STATUS_ERR_DEV_IO)
                     | Some hi \<Rightarrow>
                         (case n of
                            0 \<Rightarrow> None
                          | Suc n' \<Rightarrow> bars_loop cfg (i + 2) n'
                              (bars[i := b\<lparr>bar_address := address OR push_bit 32 (ucast hi)\<rparr>,
                                    i + 1 := (bars ! (i + 1))\<lparr>is_valid := False\<rparr>]))))"

definition get_bars_info :: "pci_config_interface \<Rightarrow> men_pci_bar list \<Rightarrow> (int + men_pci_bar list) option" where
  "get_bars_info cfg bars = bars_loop cfg 0 NUM_BARS bars"

section \<open>What the driver takes from it\<close>

record config_data =
  cd_pci_vendor_id :: u16
  cd_pci_device_id :: u16
  cd_pci_subsys_vendor_id :: u16
  cd_pci_subsys_device_id :: u16
  cd_pcie_device_caps :: u32
  cd_pcie_device_ctrl :: u16
  cd_pcie_link_caps :: u32
  cd_pcie_link_stat :: u16
  cd_pcie_dsn_low :: u32
  cd_pcie_dsn_high :: u32

definition config_header :: "pci_config_interface \<Rightarrow> config_data \<Rightarrow> config_data" where
  "config_header cfg d =
     (case get_pci_header cfg of
        Inl _ \<Rightarrow> d
      | Inr h \<Rightarrow> d\<lparr>cd_pci_vendor_id := vendor_id h, cd_pci_device_id := device_id h,
          cd_pci_subsys_vendor_id := subsys_vendor_id h, cd_pci_subsys_device_id := subsys_id h\<rparr>)"

definition config_express :: "int + cap_data \<Rightarrow> config_data \<Rightarrow> config_data" where
  "config_express r d =
     (case r of
        Inr (Pci_express_data dcap dctl dstat lcap lctl lstat) \<Rightarrow>
          d\<lparr>cd_pcie_device_caps := dcap, cd_pcie_device_ctrl := dctl,
            cd_pcie_link_caps := lcap, cd_pcie_link_stat := lstat\<rparr>
      | _ \<Rightarrow> d)"

definition config_serial :: "int + u64 \<Rightarrow> config_data \<Rightarrow> config_data" where
  "config_serial r d =
     (case r of
        Inl _ \<Rightarrow> d
      | Inr sn \<Rightarrow> d\<lparr>cd_pcie_dsn_low := ucast sn, cd_pcie_dsn_high := ucast (drop_bit 32 sn)\<rparr>)"

definition menable_read_config_space ::
    "pci_config_interface \<Rightarrow> u32 list \<Rightarrow> config_data \<Rightarrow> config_data option" where
  "menable_read_config_space cfg stack d =
     Option.bind (find_capability cfg stack MEN_PCI_CAPABILITY_ID_PCI_EXPRESS) (\<lambda>c.
     Option.bind (find_extended_capability cfg stack MEN_PCIE_CAP_ID_DEVICE_SERIAL_NUMBER) (\<lambda>x.
     Some (config_serial x (config_express c (config_header cfg d)))))"

end
