(* ===== verification/Pci_Config_Props.thy ===== *)
theory Pci_Config_Props
  imports Pci_Config
begin

text \<open>
  The lists of capabilities are searched in order, the base addresses are decoded as the board encodes
  them, and what the driver keeps of the configuration space, right and wrong.
\<close>

section \<open>Lists of capabilities\<close>

text \<open>The capabilities on the list that starts at an address, as pairs of their address and identifier.\<close>

inductive cap_chain :: "pci_config_interface \<Rightarrow> u8 \<Rightarrow> (u8 \<times> u8) list \<Rightarrow> bool" for cfg where
  End: "cap_chain cfg 0 []"
| Cap: "a \<noteq> 0 \<Longrightarrow> read16 cfg (uint a) = Some d \<Longrightarrow> cap_chain cfg (cap_next_of d) cs
        \<Longrightarrow> cap_chain cfg a ((a, cap_id_of d) # cs)"

inductive ext_chain :: "pci_config_interface \<Rightarrow> int \<Rightarrow> (int \<times> u16) list \<Rightarrow> bool" for cfg where
  Last: "read32 cfg a = Some h \<Longrightarrow> ext_next_of h = 0 \<Longrightarrow> ext_chain cfg a [(a, ext_id_of h)]"
| More: "read32 cfg a = Some h \<Longrightarrow> ext_next_of h \<noteq> 0 \<Longrightarrow> ext_chain cfg (ext_next_of h) cs
        \<Longrightarrow> ext_chain cfg a ((a, ext_id_of h) # cs)"

definition first_cap :: "'i \<Rightarrow> ('a \<times> 'i) list \<Rightarrow> int + 'a" where
  "first_cap cap cs = (case List.find (\<lambda>(a, i). i = cap) cs of
     None \<Rightarrow> Inl STATUS_ERR_NOT_FOUND | Some (a, i) \<Rightarrow> Inr a)"

lemma first_cap_simps [simp]:
  "first_cap cap [] = Inl STATUS_ERR_NOT_FOUND"
  "first_cap cap ((a, i) # cs) = (if i = cap then Inr a else first_cap cap cs)"
  by (simp_all add: first_cap_def)

lemma cap_loop_first: "cap_chain cfg a cs \<Longrightarrow> cap_loop cfg cap a = Some (first_cap cap cs)"
  by (induction rule: cap_chain.induct) (simp_all add: cap_loop.simps)

lemma ext_loop_first: "ext_chain cfg a cs \<Longrightarrow> ext_loop cfg cap a = Some (first_cap cap cs)"
  by (induction rule: ext_chain.induct) (simp_all add: ext_loop.simps)

text \<open>
  A list that comes back to an address without the capability is followed for ever. \<open>along\<close> are the
  addresses on a round.
\<close>

lemma cap_loop_round:
  assumes "\<And>a. a \<in> S \<Longrightarrow> a \<noteq> 0 \<and> (\<exists>d. read16 cfg (uint a) = Some d \<and> cap_id_of d \<noteq> cap \<and> cap_next_of d \<in> S)"
    and "a \<in> S"
  shows "cap_loop cfg cap a = None"
proof -
  have "a \<in> S \<longrightarrow> cfg' \<noteq> cfg \<or> cap' \<noteq> cap" if "cap_loop cfg' cap' a = Some r" for cfg' cap' a r
    using that
  proof (rule cap_loop.raw_induct [of "\<lambda>cfg' cap' a r. a \<in> S \<longrightarrow> cfg' \<noteq> cfg \<or> cap' \<noteq> cap", rotated])
    fix f and cfg' :: pci_config_interface and cap' a :: u8 and r
    assume IH: "\<And>cfg' cap' a r. f cfg' cap' a = Some r \<Longrightarrow> a \<in> S \<longrightarrow> cfg' \<noteq> cfg \<or> cap' \<noteq> cap"
      and step: "(if a = 0 then Some (Inl STATUS_ERR_NOT_FOUND)
         else case read16 cfg' (uint a) of None \<Rightarrow> Some (Inl STATUS_ERR_DEV_IO)
           | Some d \<Rightarrow> if cap_id_of d = cap' then Some (Inr a) else f cfg' cap' (cap_next_of d)) = Some r"
    show "a \<in> S \<longrightarrow> cfg' \<noteq> cfg \<or> cap' \<noteq> cap"
    proof (intro impI)
      assume "a \<in> S"
      from assms(1) [OF this] obtain d where "a \<noteq> 0" "read16 cfg (uint a) = Some d" "cap_id_of d \<noteq> cap"
        "cap_next_of d \<in> S" by blast
      then show "cfg' \<noteq> cfg \<or> cap' \<noteq> cap" using step IH [of cfg' cap' "cap_next_of d" r] by fastforce
    qed
  qed
  then show ?thesis using assms(2) by fastforce
qed

section \<open>Base addresses\<close>

text \<open>What a descriptor says, and the registers the board shows for it.\<close>

datatype bar_kind = Unused | Io u32 | Mem32 u32 | Mem64 u64

fun bar_ok :: "bar_kind \<Rightarrow> bool" where
  "bar_ok Unused = True"
| "bar_ok (Io a) = (a AND 3 = 0)"
| "bar_ok (Mem32 a) = (a AND 0xf = 0 \<and> a \<noteq> 0)"
| "bar_ok (Mem64 a) = (a AND 0xf = 0)"

fun bar_regs :: "bar_kind \<Rightarrow> u32 list" where
  "bar_regs Unused = [0]"
| "bar_regs (Io a) = [a OR 1]"
| "bar_regs (Mem32 a) = [a]"
| "bar_regs (Mem64 a) = [ucast a OR 4, ucast (drop_bit 32 a)]"

fun bar_infos :: "men_pci_bar list \<Rightarrow> bar_kind list \<Rightarrow> men_pci_bar list" where
  "bar_infos bars [] = []"
| "bar_infos bars (Unused # ks) = (hd bars)\<lparr>is_valid := False\<rparr> # bar_infos (drop 1 bars) ks"
| "bar_infos bars (Io a # ks) = \<lparr>is_valid = True, is_memory = False, is_64_bit = False,
     bar_address = ucast a\<rparr> # bar_infos (drop 1 bars) ks"
| "bar_infos bars (Mem32 a # ks) = \<lparr>is_valid = True, is_memory = True, is_64_bit = False,
     bar_address = ucast a\<rparr> # bar_infos (drop 1 bars) ks"
| "bar_infos bars (Mem64 a # ks) = \<lparr>is_valid = True, is_memory = True, is_64_bit = True,
     bar_address = a\<rparr> # (bars ! 1)\<lparr>is_valid := False\<rparr> # bar_infos (drop 2 bars) ks"

text \<open>The words from a base address on.\<close>

definition holds_words :: "pci_config_interface \<Rightarrow> int \<Rightarrow> u32 list \<Rightarrow> bool" where
  "holds_words cfg a ws \<longleftrightarrow> (\<forall>i<length ws. read32 cfg (a + int i * 4) = Some (ws ! i))"

lemma mask_io: "(a OR 1) AND GEN_MASK 2 31 = a" if "a AND 3 = 0" for a :: u32
proof (rule bit_word_eqI)
  fix n assume "n < LENGTH(32)"
  have "bit (a AND 3) n = False" using that by simp
  moreover have "bit (3 :: u32) n \<longleftrightarrow> n < 2"
    using bit_mask_iff [where 'a = "32 word", of 2 n] by (auto simp: mask_eq_exp_minus_1)
  ultimately show "bit ((a OR 1) AND GEN_MASK 2 31) n = bit a n"
    using \<open>n < LENGTH(32)\<close> by (auto simp: bit_and_iff bit_or_iff bit_GEN_MASK bit_1_iff)
qed

lemma low4:
  assumes b: "bit (a :: 'w::len word) n" and z: "a AND 0xf = 0"
  shows "4 \<le> n"
proof (rule ccontr)
  assume "\<not> 4 \<le> n"
  then have "bit (mask 4 :: 'w word) n" using bit_imp_le_length [OF b] by (simp add: bit_mask_iff)
  then have "bit (a AND mask 4) n" using b by (simp add: bit_and_iff)
  then show False using z by (simp add: mask_eq_exp_minus_1)
qed

lemma mask_mem: "a AND GEN_MASK 4 31 = (a :: u32)" if "a AND 0xf = 0"
  by (rule bit_word_eqI) (use that low4 [of a] in \<open>auto simp: bit_and_iff bit_GEN_MASK\<close>)


lemma mem_bit_0: "(a :: 'w::len word) AND 0xf = 0 \<Longrightarrow> a AND 1 = 0"
  by (rule bit_word_eqI) (use low4 [of a] in \<open>force simp: bit_and_iff bit_1_iff\<close>)

lemma mem_type: "(a :: u32) AND 0xf = 0 \<Longrightarrow> GET_BITS a 1 2 = 0"
  by (rule bit_word_eqI) (use low4 [of a] in \<open>force simp: bit_GET_BITS\<close>)

lemma io_bit_0: "(a OR 1) AND 1 \<noteq> (0 :: u32)"
  by (simp add: bit.conj_disj_distrib2)

lemma low_half_aligned: "(a :: u64) AND 0xf = 0 \<Longrightarrow> (ucast a :: u32) AND 0xf = 0"
proof (rule bit_word_eqI)
  fix n assume z: "a AND 0xf = 0" and n: "n < LENGTH(32)"
  have m: "(0xf :: u32) = mask 4" by (simp add: mask_eq_exp_minus_1)
  have "\<not> (bit a n \<and> n < 4)" using low4 [OF _ z, of n] by auto
  then show "bit ((ucast a :: u32) AND 0xf) n = bit (0 :: u32) n"
    unfolding m by (auto simp: bit_and_iff bit_mask_iff bit_ucast_iff)
qed

lemma wide_regs:
  assumes "(a :: u64) AND 0xf = 0"
  defines "v \<equiv> ucast a OR 4 :: u32"
  shows "v \<noteq> 0" "v AND 1 = 0" "GET_BITS v 1 2 = 2" "ucast (v AND GEN_MASK 4 31) OR push_bit 32 (ucast (ucast (drop_bit 32 a) :: u32)) = a"
proof -
  have b: "bit v n \<longleftrightarrow> n < 32 \<and> (bit a n \<or> n = 2)" for n
  proof -
    have "bit (4 :: u32) n \<longleftrightarrow> n = 2"
      using bit_exp_iff [where 'a = "32 word", of 2 n] by auto
    then show ?thesis by (auto simp: v_def bit_or_iff bit_ucast_iff dest: bit_imp_le_length)
  qed
  have l: "bit a n \<Longrightarrow> 4 \<le> n" for n by (rule low4 [OF _ assms(1)])
  have "bit v 2" by (simp add: b)
  then show "v \<noteq> 0" by auto
  show "v AND 1 = 0" by (rule bit_word_eqI) (use l [of 0] in \<open>auto simp: bit_and_iff bit_1_iff b\<close>)
  show "GET_BITS v 1 2 = 2"
  proof (rule bit_word_eqI)
    fix n assume "n < LENGTH(32)"
    have "bit (2 :: u32) n \<longleftrightarrow> n = 1"
      using bit_exp_iff [where 'a = "32 word", of 1 n] by auto
    then show "bit (GET_BITS v 1 2) n = bit (2 :: u32) n"
      using l [of "1 + n"] by (auto simp: bit_GET_BITS b)
  qed
  show "ucast (v AND GEN_MASK 4 31) OR push_bit 32 (ucast (ucast (drop_bit 32 a) :: u32)) = a"
  proof (rule bit_word_eqI)
    fix n assume "n < LENGTH(64)"
    then show "bit (ucast (v AND GEN_MASK 4 31) OR push_bit 32 (ucast (ucast (drop_bit 32 a) :: u32)) :: u64) n = bit a n"
      using l [of n] by (cases "n < 32") (auto simp: bit_or_iff bit_ucast_iff bit_and_iff bit_GEN_MASK b bit_push_bit_iff bit_drop_bit_eq)
  qed
qed


text \<open>\<open>pre\<close>: the entries that are done.\<close>

lemma bars_loop_infos:
  assumes "\<forall>k\<in>set ks. bar_ok k" "length (concat (map bar_regs ks)) = n" "length rest = n"
    "holds_words cfg (PCI_BARS_ADDR + int (length pre) * 4) (concat (map bar_regs ks))"
  shows "bars_loop cfg (length pre) n (pre @ rest) = Some (Inr (pre @ bar_infos rest ks))"
  using assms
proof (induction ks arbitrary: n pre rest)
  case (Cons k ks)
  let ?i = "length pre" and ?ws = "concat (map bar_regs ks)"
  have words: "holds_words cfg (PCI_BARS_ADDR + int ?i * 4) (bar_regs k @ ?ws)" using Cons.prems(4) by simp
  have tail: "holds_words cfg (PCI_BARS_ADDR + int (?i + length (bar_regs k)) * 4) ?ws"
    unfolding holds_words_def
  proof (intro allI impI)
    fix j assume "j < length ?ws"
    then show "read32 cfg (PCI_BARS_ADDR + int (?i + length (bar_regs k)) * 4 + int j * 4) = Some (?ws ! j)"
      using words [unfolded holds_words_def, rule_format, of "length (bar_regs k) + j"]
      by (simp add: nth_append algebra_simps)
  qed
  have len: "length (bar_regs k) + length ?ws = n" using Cons.prems(2) by simp
  have first: "read32 cfg (PCI_BARS_ADDR + int ?i * 4) = Some (bar_regs k ! 0)"
    using words [unfolded holds_words_def, rule_format, of 0] by (cases k) simp_all
  have ok: "bar_ok k" "\<forall>k\<in>set ks. bar_ok k" using Cons.prems(1) by simp_all
  show ?case
  proof (cases "\<exists>a. k = Mem64 a")
    case False
    then have one: "length (bar_regs k) = 1" by (cases k) simp_all
    then obtain n' where n: "n = Suc n'" "length ?ws = n'" using len by (cases n) auto
    then obtain x rest' where rest: "rest = x # rest'" "length rest' = n'"
      using Cons.prems(3) by (cases rest) auto
    have IH: "bars_loop cfg (?i + 1) n' (pre @ y # rest') = Some (Inr (pre @ y # bar_infos rest' ks))" for y
      using Cons.IH [OF ok(2) n(2) rest(2), of "pre @ [y]"] tail one by simp
    show ?thesis
    proof (cases k)
      case (Io a)
      then show ?thesis using first ok(1) IH io_bit_0 [of a]
        by (simp add: n(1) rest(1) list_update_append mask_io or_eq_0_iff)
    next
      case (Mem32 a)
      then show ?thesis using first ok(1) IH mem_bit_0 [of a] mem_type [of a]
        by (simp add: n(1) rest(1) list_update_append mask_mem Let_def)
    qed (use first IH False in \<open>simp_all add: n(1) rest(1) list_update_append\<close>)
  next
    case True
    then obtain a where k: "k = Mem64 a" by blast
    have "2 \<le> n" using len k by simp
    then obtain n' where n: "n = Suc (Suc n')" "length ?ws = n'" using len k by (metis add_2_eq_Suc le_Suc_ex add_left_cancel bar_regs.simps(4) length_Cons list.size(3) numeral_2_eq_2)
    then obtain x y rest' where rest: "rest = x # y # rest'" "length rest' = n'"
      using Cons.prems(3) by (auto simp: length_Suc_conv)
    have second: "read32 cfg (PCI_BARS_ADDR + int (?i + 1) * 4) = Some (ucast (drop_bit 32 a))"
      using words [unfolded holds_words_def, rule_format, of 1] by (simp add: k algebra_simps)
    have IH: "bars_loop cfg (?i + 2) n' (pre @ u # v # rest') = Some (Inr (pre @ u # v # bar_infos rest' ks))" for u v
      using Cons.IH [OF ok(2) n(2) rest(2), of "pre @ [u, v]"] tail k by simp
    show ?thesis
      using first second wide_regs [of a] ok(1) IH
      by (simp add: n(1) rest(1) k list_update_append nth_append Let_def)
  qed
qed simp


text \<open>
  Six descriptors that encode what the board has are decoded to it, with wide addresses joined and the second
  half of each marked as not valid. A wide address in the last descriptor makes the code write behind its array.
\<close>

theorem bars_are_decoded:
  assumes "\<forall>k\<in>set ks. bar_ok k" "length (concat (map bar_regs ks)) = NUM_BARS" "length bars = NUM_BARS"
    "holds_words cfg PCI_BARS_ADDR (concat (map bar_regs ks))"
  shows "get_bars_info cfg bars = Some (Inr (bar_infos bars ks))"
  using bars_loop_infos [of ks NUM_BARS bars cfg "[]"] assms by (simp add: get_bars_info_def)

lemma last_bar_overruns:
  assumes "read32 cfg 0x24 = Some v" "v AND 1 = 0" "GET_BITS v 1 2 = 2" "read32 cfg 0x28 \<noteq> None"
    "\<And>i. i < 5 \<Longrightarrow> read32 cfg (PCI_BARS_ADDR + int i * 4) = Some 0"
  shows "get_bars_info cfg bars = None"
proof -
  have "v \<noteq> 0" using assms(3) by (auto simp: GET_BITS_def)
  moreover have "read32 cfg 16 = Some 0" "read32 cfg 20 = Some 0" "read32 cfg 24 = Some 0"
      "read32 cfg 28 = Some 0" "read32 cfg 32 = Some 0"
    using assms(5) [of 0] assms(5) [of 1] assms(5) [of 2] assms(5) [of 3] assms(5) [of 4] by simp_all
  ultimately show ?thesis using assms(1-4) by (auto simp: get_bars_info_def eval_nat_numeral Let_def)
qed

section \<open>What the driver keeps\<close>

lemma read_array_all:
  assumes "\<And>a. read32 cfg a = Some (f a)"
  shows "pci_read_array_32 cfg a old = (STATUS_OK, map (\<lambda>i. f (a + int i * 4)) [0..<length old])"
proof (induction old arbitrary: a)
  case (Cons x old)
  have "map (\<lambda>i. f (a + int i * 4)) [0..<Suc (length old)]
      = f a # map (\<lambda>i. f (a + 4 + int i * 4)) [0..<length old]"
    unfolding upt_conv_Cons [OF zero_less_Suc] map_Suc_upt [symmetric] by (simp add: algebra_simps)
  then show ?case using Cons.IH [of "a + 4"] by (simp add: assms)
qed simp

lemma GET_BITS_byte: "GET_BITS (a :: u8) 0 7 = a"
  by (rule bit_word_eqI) (auto simp: bit_GET_BITS)

text \<open>
  On a board whose accesses succeed and whose lists of capabilities end, the driver keeps the identifiers,
  the words of the first PCI Express capability and the serial number, each from its place; as
  identifiers of the subsystem it keeps the command and status of the device, since \<^verbatim>\<open>get_pci_header\<close> reads that register twice.
\<close>

theorem config_space_is_read:
  assumes words: "\<And>a. read32 cfg a = Some (f a)"
    and caps: "read8 cfg PCI_CAPS_PTR = Some p" "cap_chain cfg p cs"
    and express: "first_cap MEN_PCI_CAPABILITY_ID_PCI_EXPRESS cs = Inr x"
    and ext: "ext_chain cfg PCIE_EXT_CAPS_PTR es"
    and serial: "first_cap MEN_PCIE_CAP_ID_DEVICE_SERIAL_NUMBER es = Inr y" "0 \<le> y" "y < 65536"
    and stack: "length stack = 15"
  shows "menable_read_config_space cfg stack d = Some \<lparr>
      cd_pci_vendor_id = ucast (GET_BITS (f 0) 0 15), cd_pci_device_id = ucast (GET_BITS (f 0) 16 31),
      cd_pci_subsys_vendor_id = ucast (GET_BITS (f PCI_HEADER_ADDR_CMD_STATUS) 0 15),
      cd_pci_subsys_device_id = ucast (GET_BITS (f PCI_HEADER_ADDR_CMD_STATUS) 16 31),
      cd_pcie_device_caps = f (uint x + 4), cd_pcie_device_ctrl = ucast (GET_BITS (f (uint x + 8)) 0 15),
      cd_pcie_link_caps = f (uint x + 12), cd_pcie_link_stat = ucast (GET_BITS (f (uint x + 16)) 16 31),
      cd_pcie_dsn_low = f (y + 4), cd_pcie_dsn_high = f (y + 8)\<rparr>"
proof -
  have "find_capability_address cfg MEN_PCI_CAPABILITY_ID_PCI_EXPRESS = Some (Inr x)"
    using caps express by (simp add: find_capability_address_def cap_loop_first)
  then have c: "find_capability cfg stack MEN_PCI_CAPABILITY_ID_PCI_EXPRESS
      = Some (Inr (pci_express_data (map (\<lambda>i. f (uint x + int i * 4)) [0..<15])))"
    by (simp add: find_capability_def GET_BITS_byte pci_get_capability_data_def stack
        read_array_all [OF words])
  have y: "uint (ucast (GET_BITS (word_of_int y :: u32) 0 15) :: u16) = y"
  proof -
    have "(ucast (GET_BITS (word_of_int y :: u32) 0 15) :: u16) = word_of_int y"
      by (rule bit_word_eqI) (auto simp: bit_ucast_iff bit_GET_BITS bit_word_of_int_iff)
    then show ?thesis using serial(2,3) by (simp add: uint_word_of_int)
  qed
  have "find_extended_cap_address cfg MEN_PCIE_CAP_ID_DEVICE_SERIAL_NUMBER = Some (Inr y)"
    using ext serial(1) by (simp add: find_extended_cap_address_def ext_loop_first)
  then have e: "find_extended_capability cfg stack MEN_PCIE_CAP_ID_DEVICE_SERIAL_NUMBER
      = Some (Inr (ucast (f (y + 4)) OR push_bit 32 (ucast (f (y + 8)))))"
    by (simp add: find_extended_capability_def get_pcie_capbability_data_def y stack
        read_array_all [OF words] upt_rec add.assoc)
  have sn: "ucast (ucast l OR push_bit 32 (ucast h) :: u64) = l"
      "ucast (drop_bit 32 (ucast l OR push_bit 32 (ucast h) :: u64)) = h" for l h :: u32
    by (rule bit_word_eqI; auto simp: bit_ucast_iff bit_or_iff bit_push_bit_iff bit_drop_bit_eq
        dest: bit_imp_le_length)+
  have s: "config_serial (Inr (ucast l OR push_bit 32 (ucast h))) d' = d'\<lparr>cd_pcie_dsn_low := l, cd_pcie_dsn_high := h\<rparr>"
    for l h d' by (simp only: config_serial_def sum.case sn)
  show ?thesis
    by (cases d) (simp add: menable_read_config_space_def c e s config_express_def config_header_def
        get_pci_header_def words pci_express_data_def)
qed

end
