(* ===== verification/Dma_Base.thy ===== *)
theory Dma_Base
  imports Bits Registers
begin

text \<open>
  The engine that the DMA controllers of the library share, \<^verbatim>\<open>lib/dma/dma_controller_base.c\<close>: start, stop and abort. Waits
  end by the clock; \<open>patience s\<close> is how often a wait that starts in the state \<open>s\<close> of the device finds its
  timeout not yet elapsed, which is arbitrary. The status that is read for debug output alone is not read without it.
\<close>

section \<open>Operations\<close>

record dma_controller_base =
  base_control_register :: u32
  base_status_register :: u32

abbreviation DMA_CTRL_BIT_ENABLE :: u32 where "DMA_CTRL_BIT_ENABLE \<equiv> 1"
abbreviation DMA_CTRL_BIT_RESET :: u32 where "DMA_CTRL_BIT_RESET \<equiv> 2"
abbreviation DMA_STATUS_BIT_ENABLED :: u32 where "DMA_STATUS_BIT_ENABLED \<equiv> 1"
abbreviation DMA_STATUS_BIT_RESETTING :: u32 where "DMA_STATUS_BIT_RESETTING \<equiv> 2"
abbreviation DMA_STATUS_BIT_RUNNING :: u32 where "DMA_STATUS_BIT_RUNNING \<equiv> 4"

definition are_status_bits_set ::
    "'hw register_interface \<Rightarrow> dma_controller_base \<Rightarrow> u32 \<Rightarrow> 'hw \<Rightarrow> bool \<times> 'hw" where
  "are_status_bits_set ri c status_bits s =
     (let (reg_value, s1) = ri_read ri (base_status_register c) s in (ARE_BITS_SET reg_value status_bits, s1))"

text \<open>Reading the status until the bits are as wanted or the timeout has elapsed.\<close>

fun wait_status_bits ::
    "'hw register_interface \<Rightarrow> dma_controller_base \<Rightarrow> u32 \<Rightarrow> bool \<Rightarrow> nat \<Rightarrow> 'hw \<Rightarrow> 'hw" where
  "wait_status_bits ri c bits wanted 0 s = snd (are_status_bits_set ri c bits s)"
| "wait_status_bits ri c bits wanted (Suc n) s =
     (let (b, s1) = are_status_bits_set ri c bits s
      in if b = wanted then s1 else wait_status_bits ri c bits wanted n s1)"

text \<open>The wait, and the check after it.\<close>

definition wait_and_check ::
    "'hw register_interface \<Rightarrow> ('hw \<Rightarrow> nat) \<Rightarrow> dma_controller_base \<Rightarrow> u32 \<Rightarrow> bool \<Rightarrow> 'hw \<Rightarrow> int \<times> 'hw" where
  "wait_and_check ri patience c bits wanted s =
     (let (b, s1) = are_status_bits_set ri c bits (wait_status_bits ri c bits wanted (patience s) s)
      in (if b = wanted then STATUS_OK else STATUS_ERR_TIMEOUT, s1))"

definition dma_controller_base_start ::
    "'hw register_interface \<Rightarrow> ('hw \<Rightarrow> nat) \<Rightarrow> dma_controller_base \<Rightarrow> 'hw \<Rightarrow> int \<times> 'hw" where
  "dma_controller_base_start ri patience c s =
     (let (enabled, s1) = are_status_bits_set ri c DMA_STATUS_BIT_ENABLED s
      in if enabled then (STATUS_OK, s1)
         else wait_and_check ri patience c (DMA_STATUS_BIT_ENABLED OR DMA_STATUS_BIT_RUNNING) True
                (ri_write ri (base_control_register c) DMA_CTRL_BIT_ENABLE s1))"

definition dma_controller_base_stop ::
    "'hw register_interface \<Rightarrow> ('hw \<Rightarrow> nat) \<Rightarrow> dma_controller_base \<Rightarrow> 'hw \<Rightarrow> int \<times> 'hw" where
  "dma_controller_base_stop ri patience c s =
     (let (enabled, s1) = are_status_bits_set ri c DMA_STATUS_BIT_ENABLED s;
          s2 = (if enabled then ri_write ri (base_control_register c) 0 s1 else s1);
          (running, s3) = are_status_bits_set ri c DMA_STATUS_BIT_RUNNING s2
      in if running then wait_and_check ri patience c DMA_STATUS_BIT_RUNNING False s3
         else (STATUS_OK, s3))"

definition dma_controller_base_abort ::
    "'hw register_interface \<Rightarrow> ('hw \<Rightarrow> nat) \<Rightarrow> dma_controller_base \<Rightarrow> 'hw \<Rightarrow> int \<times> 'hw" where
  "dma_controller_base_abort ri patience c s =
     (let (ret, s1) = dma_controller_base_stop ri patience c s
      in if ret < 0 then (ret, s1)
         else let (resetting, s2) = are_status_bits_set ri c DMA_STATUS_BIT_RESETTING s1;
                  s3 = (if resetting then s2 else ri_write ri (base_control_register c) DMA_CTRL_BIT_RESET s2)
              in wait_and_check ri patience c DMA_CTRL_BIT_RESET False (ri_write ri (base_control_register c) 0 s3))"

section \<open>What success means\<close>

text \<open>
  Accesses to an engine: all reads are of the status register, and the writes are the words given.
\<close>

fun writes_of :: "bus_event list \<Rightarrow> (u32 \<times> u32) list" where
  "writes_of [] = []"
| "writes_of (Rd a v # t) = writes_of t"
| "writes_of (Wr a v # t) = (a, v) # writes_of t"

lemma writes_of_append [simp]: "writes_of (t @ u) = writes_of t @ writes_of u"
  by (induction t rule: writes_of.induct) simp_all

text \<open>A step that ends by reading the status, with the bits as wanted if it reports success.\<close>

definition ends_with ::
    "dma_controller_base \<Rightarrow> u32 \<Rightarrow> bool \<Rightarrow> (u32 \<times> u32) list \<Rightarrow> bus_event list
     \<Rightarrow> int \<times> 'hw \<times> bus_event list \<Rightarrow> bool" where
  "ends_with c bits wanted ws t r \<longleftrightarrow>
     (\<exists>u v. snd (snd r) = t @ u @ [Rd (base_status_register c) v] \<and> writes_of u = ws
        \<and> (fst r = STATUS_OK \<and> ARE_BITS_SET v bits = wanted \<or> fst r = STATUS_ERR_TIMEOUT))"

lemma logged_status [simp]:
  "are_status_bits_set (logged ri) c bits st =
     (ARE_BITS_SET (fst (ri_read ri (base_status_register c) (fst st))) bits,
      snd (ri_read ri (base_status_register c) (fst st)),
      snd st @ [Rd (base_status_register c) (fst (ri_read ri (base_status_register c) (fst st)))])"
  by (simp add: are_status_bits_set_def Let_def)

lemma wait_only_reads:
  "\<exists>u. snd (wait_status_bits (logged ri) c bits wanted n st) = snd st @ u \<and> writes_of u = []"
proof (induction n arbitrary: st)
  case (Suc n)
  let ?st = "snd (are_status_bits_set (logged ri) c bits st)"
  obtain u where "snd (wait_status_bits (logged ri) c bits wanted n ?st) = snd ?st @ u" "writes_of u = []"
    using Suc.IH [of ?st] by blast
  then show ?case by (auto simp: Let_def)
qed auto

lemma wait_and_check_ends:
  "ends_with c bits wanted ws t (wait_and_check (logged ri) patience c bits wanted st)"
  if "snd st = t @ u" "writes_of u = ws"
proof -
  obtain u' where "snd (wait_status_bits (logged ri) c bits wanted (patience st) st) = snd st @ u'" "writes_of u' = []"
    using wait_only_reads by blast
  then show ?thesis unfolding ends_with_def
    by (intro exI [of _ "u @ u'"] exI [of _ "fst (ri_read ri (base_status_register c)
          (fst (wait_status_bits (logged ri) c bits wanted (patience st) st)))"])
      (simp add: wait_and_check_def that)
qed

text \<open>
  Whatever the device answers: start writes the enable bit unless the engine is enabled, and if it writes and reports
  success, the last status read had the engine enabled and running.
\<close>

theorem start_reports_what_it_saw:
  assumes v_def: "v = fst (ri_read ri (base_status_register c) s)"
    and r_def: "r = dma_controller_base_start (logged ri) patience c (s, t)"
  shows "if ARE_BITS_SET v DMA_STATUS_BIT_ENABLED
     then fst r = STATUS_OK \<and> snd (snd r) = t @ [Rd (base_status_register c) v]
     else ends_with c (DMA_STATUS_BIT_ENABLED OR DMA_STATUS_BIT_RUNNING) True
            [(base_control_register c, DMA_CTRL_BIT_ENABLE)] t r"
proof (cases "ARE_BITS_SET v DMA_STATUS_BIT_ENABLED")
  case False
  then show ?thesis unfolding r_def dma_controller_base_start_def
    by (simp add: v_def Let_def wait_and_check_ends)
qed (simp add: r_def v_def dma_controller_base_start_def Let_def)

text \<open>
  Stop clears the enable bit if it is set, and if it reports success, the last status read had the engine
  not running.
\<close>

theorem stop_reports_what_it_saw:
  assumes v_def: "v = fst (ri_read ri (base_status_register c) s)"
  shows "ends_with c DMA_STATUS_BIT_RUNNING False
     (if ARE_BITS_SET v DMA_STATUS_BIT_ENABLED then [(base_control_register c, 0)] else []) t
     (dma_controller_base_stop (logged ri) patience c (s, t))"
proof -
  let ?a = "base_status_register c"
  let ?e = "ARE_BITS_SET v DMA_STATUS_BIT_ENABLED"
  let ?ws = "if ?e then [(base_control_register c, 0)] else []"
  define s2 where "s2 = (if ?e then ri_write (logged ri) (base_control_register c) 0 else id)
    (snd (ri_read ri ?a s), t @ [Rd ?a v])"
  obtain u where u: "snd s2 = t @ u" "writes_of u = ?ws"
    by (rule that [of "Rd ?a v # (if ?e then [Wr (base_control_register c) 0] else [])"]) (simp_all add: s2_def)
  define w where "w = fst (ri_read ri ?a (fst s2))"
  define s3 where "s3 = (snd (ri_read ri ?a (fst s2)), snd s2 @ [Rd ?a w])"
  have "dma_controller_base_stop (logged ri) patience c (s, t) =
     (if ARE_BITS_SET w DMA_STATUS_BIT_RUNNING
      then wait_and_check (logged ri) patience c DMA_STATUS_BIT_RUNNING False s3 else (STATUS_OK, s3))"
    by (simp add: dma_controller_base_stop_def Let_def v_def s2_def s3_def w_def)
  moreover have "ends_with c DMA_STATUS_BIT_RUNNING False ?ws t
      (wait_and_check (logged ri) patience c DMA_STATUS_BIT_RUNNING False s3)"
    by (rule wait_and_check_ends [of _ _ "u @ [Rd ?a w]"]) (use u in \<open>simp_all add: s3_def\<close>)
  moreover have "ends_with c DMA_STATUS_BIT_RUNNING False ?ws t (STATUS_OK, s3)"
    if "\<not> ARE_BITS_SET w DMA_STATUS_BIT_RUNNING"
    using that u by (auto simp: ends_with_def s3_def)
  ultimately show ?thesis by simp
qed

text \<open>
  An abort that reports success has stopped the engine, has written the reset bit unless the reset was under way, has
  written zero last, and the last status read had the reset ended.
\<close>

theorem abort_reports_what_it_saw:
  assumes stop_def: "stop = dma_controller_base_stop (logged ri) patience c (s, t)"
    and r_def: "r = dma_controller_base_abort (logged ri) patience c (s, t)"
  shows "if fst stop < 0 then r = stop
     else \<exists>ws \<in> {[(base_control_register c, 0)],
                 [(base_control_register c, DMA_CTRL_BIT_RESET), (base_control_register c, 0)]}.
          ends_with c DMA_STATUS_BIT_RESETTING False ws (snd (snd stop)) r"
proof (cases "fst stop < 0")
  case False
  let ?a = "base_status_register c" and ?k = "base_control_register c"
  obtain ret s1 where st: "stop = (ret, s1)" by (cases stop)
  define v where "v = fst (ri_read ri ?a (fst s1))"
  define s2 where "s2 = (snd (ri_read ri ?a (fst s1)), snd s1 @ [Rd ?a v])"
  define ws where "ws = (if ARE_BITS_SET v DMA_STATUS_BIT_RESETTING then [(?k, 0)] else [(?k, DMA_CTRL_BIT_RESET), (?k, 0)])"
  define s4 where "s4 = ri_write (logged ri) ?k 0
    (if ARE_BITS_SET v DMA_STATUS_BIT_RESETTING then s2 else ri_write (logged ri) ?k DMA_CTRL_BIT_RESET s2)"
  have "\<exists>u. snd s4 = snd s1 @ u \<and> writes_of u = ws"
    by (simp add: s4_def s2_def ws_def)
  then obtain u where u: "snd s4 = snd s1 @ u" "writes_of u = ws" by blast
  have "r = wait_and_check (logged ri) patience c DMA_CTRL_BIT_RESET False s4"
    using False by (simp add: r_def dma_controller_base_abort_def stop_def [symmetric] st Let_def s4_def s2_def v_def)
  then have "ends_with c DMA_STATUS_BIT_RESETTING False ws (snd s1) r"
    using wait_and_check_ends [OF u] by simp
  then show ?thesis using False by (auto simp: ws_def st split: if_splits)
qed (auto simp: r_def dma_controller_base_abort_def stop_def Let_def split: prod.splits)

end
