(* ===== verification/Spi_Dual.thy ===== *)
theory Spi_Dual
  imports Spi_V2
begin

text \<open>
  The SPI controller of two flash chips, \<^verbatim>\<open>lib/controllers/spi_dual_controller.c\<close>. All lines are bits of one register
  that the driver writes; commands go to both chips bit by bit, data four bits to each chip with every clock. The
  states of a line are held by writing them several times. The port of the controller is whether the chips are
  selected, and the device.
\<close>

section \<open>Registers\<close>

record spi_dual_controller =
  dual_control_register :: u32
  flash_select_register :: u32

abbreviation SPI_REG_MOSI_0 :: u32 where "SPI_REG_MOSI_0 \<equiv> 0x1"
abbreviation SPI_REG_MISO_0 :: u32 where "SPI_REG_MISO_0 \<equiv> 0x2"
abbreviation SPI_REG_WPn_0 :: u32 where "SPI_REG_WPn_0 \<equiv> 0x4"
abbreviation SPI_REG_HOLDn_0 :: u32 where "SPI_REG_HOLDn_0 \<equiv> 0x8"
abbreviation SPI_REG_MOSI_1 :: u32 where "SPI_REG_MOSI_1 \<equiv> 0x10"
abbreviation SPI_REG_MISO_1 :: u32 where "SPI_REG_MISO_1 \<equiv> 0x20"
abbreviation SPI_REG_WPn_1 :: u32 where "SPI_REG_WPn_1 \<equiv> 0x40"
abbreviation SPI_REG_HOLDn_1 :: u32 where "SPI_REG_HOLDn_1 \<equiv> 0x80"
abbreviation SPI_REG_CLK :: u32 where "SPI_REG_CLK \<equiv> 0x100"
abbreviation SPI_REG_RD_WRn :: u32 where "SPI_REG_RD_WRn \<equiv> 0x200"
abbreviation SPI_REG_CSn :: u32 where "SPI_REG_CSn \<equiv> 0x400"
abbreviation SPI_REG_NAND_CEn :: u32 where "SPI_REG_NAND_CEn \<equiv> 0x1000"
abbreviation SPI_REG_NAND_WEn :: u32 where "SPI_REG_NAND_WEn \<equiv> 0x4000"

definition SPI_REG_IDLE :: u32 where
  "SPI_REG_IDLE = SPI_REG_NAND_CEn OR SPI_REG_NAND_WEn OR SPI_REG_CSn OR SPI_REG_RD_WRn OR SPI_REG_CLK
     OR SPI_REG_HOLDn_1 OR SPI_REG_HOLDn_0"

definition SPI_REG_ACTIVE_SINGLE :: u32 where
  "SPI_REG_ACTIVE_SINGLE = SPI_REG_NAND_CEn OR SPI_REG_NAND_WEn OR SPI_REG_HOLDn_1 OR SPI_REG_HOLDn_0"

definition SPI_REG_ACTIVE_QUAD :: u32 where
  "SPI_REG_ACTIVE_QUAD = SPI_REG_NAND_CEn OR SPI_REG_NAND_WEn"

abbreviation SEL_REG_SPI :: u32 where "SEL_REG_SPI \<equiv> 1"
abbreviation SEL_REG_NONE :: u32 where "SEL_REG_NONE \<equiv> 3"
abbreviation SPI_BURST_FLAG_DATA_ACCESS :: u8 where "SPI_BURST_FLAG_DATA_ACCESS \<equiv> 2"

text \<open>Values with how often each is written.\<close>

definition repeated :: "(u32 \<times> nat) list \<Rightarrow> u32 list" where
  "repeated vns = concat (map (\<lambda>(v, n). replicate n v) vns)"

definition write_ctrl_register ::
    "'hw register_interface \<Rightarrow> spi_dual_controller \<Rightarrow> (u32 \<times> nat) list \<Rightarrow> 'hw \<Rightarrow> 'hw" where
  "write_ctrl_register ri self vns = write_words ri (dual_control_register self) (repeated vns)"

definition write_falsh_select_register ::
    "'hw register_interface \<Rightarrow> spi_dual_controller \<Rightarrow> u32 \<Rightarrow> nat \<Rightarrow> 'hw \<Rightarrow> 'hw" where
  "write_falsh_select_register ri self v n = write_words ri (flash_select_register self) (replicate n v)"

section \<open>Chip select\<close>

definition dual_set_chipselect ::
    "'hw register_interface \<Rightarrow> spi_dual_controller \<Rightarrow> spi_cs_status \<Rightarrow> bool \<times> 'hw \<Rightarrow> bool \<times> 'hw" where
  "dual_set_chipselect ri self status p =
     (case status of
        SPI_CS_ON \<Rightarrow>
          if fst p then p
          else (True, write_ctrl_register ri self [(SPI_REG_ACTIVE_SINGLE OR SPI_REG_CLK, 10)]
                        (write_falsh_select_register ri self SEL_REG_SPI 5 (snd p)))
      | SPI_CS_OFF \<Rightarrow>
          (False, write_falsh_select_register ri self SEL_REG_NONE 5
                    (write_ctrl_register ri self [(SPI_REG_IDLE, 10)] (snd p))))"

definition spi_dual_handle_pre_burst_flags ::
    "'hw register_interface \<Rightarrow> spi_dual_controller \<Rightarrow> u32 \<Rightarrow> (bool \<times> 'hw) handler" where
  "spi_dual_handle_pre_burst_flags ri self flags c = Some (0, upd_port (dual_set_chipselect ri self SPI_CS_ON) c)"

definition spi_dual_handle_post_burst_flags ::
    "'hw register_interface \<Rightarrow> spi_dual_controller \<Rightarrow> u32 \<Rightarrow> (bool \<times> 'hw) handler" where
  "spi_dual_handle_post_burst_flags ri self flags c =
     Some (0, if flags AND SPI_POST_BURST_FLAG_LEAVE_CS_ASSERTED = 0
              then upd_port (dual_set_chipselect ri self SPI_CS_OFF) c else c)"

section \<open>Writing\<close>

text \<open>One bit to both chips, set up while the clock is low.\<close>

definition dual_clock_out :: "bool \<Rightarrow> (u32 \<times> nat) list" where
  "dual_clock_out b =
     (let w = SPI_REG_ACTIVE_SINGLE OR SPI_REG_WPn_1 OR SPI_REG_WPn_0;
          c = (if b then SPI_REG_MOSI_0 OR SPI_REG_MOSI_1 else 0)
      in [(w, 5), (w OR c, 5), (w OR SPI_REG_CLK OR c, 5), (w OR SPI_REG_CLK, 5)])"

definition write_chip_single :: "u8 \<Rightarrow> (u32 \<times> nat) list" where
  "write_chip_single data =
     (SPI_REG_ACTIVE_SINGLE OR SPI_REG_CLK OR SPI_REG_WPn_1 OR SPI_REG_WPn_0, 5)
     # concat (map dual_clock_out (msb_first data))"

definition dual_quad_out :: "u8 \<Rightarrow> (u32 \<times> nat) list" where
  "dual_quad_out c =
     [(SPI_REG_ACTIVE_QUAD, 5), (SPI_REG_ACTIVE_QUAD OR ucast c, 5),
      (SPI_REG_ACTIVE_QUAD OR SPI_REG_CLK OR ucast c, 5), (SPI_REG_ACTIVE_QUAD OR SPI_REG_CLK, 5)]"

text \<open>Two bytes at a time; an odd last byte is followed by \<open>0xff\<close>.\<close>

fun write_quad_data :: "u8 list \<Rightarrow> (u32 \<times> nat) list" where
  "write_quad_data [] = []"
| "write_quad_data [c] = (SPI_REG_ACTIVE_QUAD OR SPI_REG_CLK, 5) # dual_quad_out c @ dual_quad_out 0xff"
| "write_quad_data (c # d # buf) =
     (SPI_REG_ACTIVE_QUAD OR SPI_REG_CLK, 5) # dual_quad_out c @ dual_quad_out d @ write_quad_data buf"

definition dual_data_access :: "'s controller \<Rightarrow> bool" where
  "dual_data_access c \<longleftrightarrow> current_burst_flags c AND SPI_BURST_FLAG_DATA_ACCESS = SPI_BURST_FLAG_DATA_ACCESS"

definition dual_quad_mode :: "'s controller \<Rightarrow> bool" where
  "dual_quad_mode c \<longleftrightarrow> current_burst_flags c AND SPI_BURST_FLAG_QUAD_MODE = SPI_BURST_FLAG_QUAD_MODE"

definition spi_dual_write_shot ::
    "'hw register_interface \<Rightarrow> spi_dual_controller \<Rightarrow> u8 list \<Rightarrow> (bool \<times> 'hw) handler" where
  "spi_dual_write_shot ri self buf c =
     (let out = (\<lambda>vns. Some (0, upd_port (\<lambda>(cs, s). (cs, write_ctrl_register ri self vns s)) c))
      in if dual_data_access c
         then if \<not> dual_quad_mode c then Some (-1, c) else out (write_quad_data buf)
         else if dual_quad_mode c then Some (-1, c) else out (concat (map write_chip_single buf)))"

section \<open>Reading\<close>

text \<open>One bit of each chip, read while the clock is high.\<close>

definition dual_clock_in ::
    "'hw register_interface \<Rightarrow> spi_dual_controller \<Rightarrow> 'hw \<Rightarrow> (bool \<times> bool) \<times> 'hw" where
  "dual_clock_in ri self s =
     (let (val, s1) = ri_read ri (dual_control_register self) (write_ctrl_register ri self
            [(SPI_REG_ACTIVE_SINGLE OR SPI_REG_RD_WRn, 10),
             (SPI_REG_ACTIVE_SINGLE OR SPI_REG_RD_WRn OR SPI_REG_CLK, 5)] s)
      in ((val AND SPI_REG_MISO_0 \<noteq> 0, val AND SPI_REG_MISO_1 \<noteq> 0), s1))"

definition read_chip_single ::
    "'hw register_interface \<Rightarrow> spi_dual_controller \<Rightarrow> 'hw \<Rightarrow> (u8 \<times> u8) \<times> 'hw" where
  "read_chip_single ri self s =
     fold (\<lambda>k ((d0, d1), s).
             let ((b0, b1), s1) = dual_clock_in ri self s
             in ((if b0 then d0 OR push_bit k 1 else d0, if b1 then d1 OR push_bit k 1 else d1), s1))
       [7, 6, 5, 4, 3, 2, 1, 0]
       ((0, 0), write_ctrl_register ri self [(SPI_REG_ACTIVE_SINGLE OR SPI_REG_RD_WRn OR SPI_REG_CLK, 5)] s)"

definition dual_quad_in :: "'hw register_interface \<Rightarrow> spi_dual_controller \<Rightarrow> 'hw \<Rightarrow> u8 \<times> 'hw" where
  "dual_quad_in ri self s =
     (let (val, s1) = ri_read ri (dual_control_register self) (write_ctrl_register ri self
            [(SPI_REG_ACTIVE_QUAD OR SPI_REG_RD_WRn, 10),
             (SPI_REG_ACTIVE_QUAD OR SPI_REG_RD_WRn OR SPI_REG_CLK, 5)] s)
      in (ucast (val AND 0xff), s1))"

definition read_quad_data ::
    "'hw register_interface \<Rightarrow> spi_dual_controller \<Rightarrow> 'hw \<Rightarrow> (u8 \<times> u8) \<times> 'hw" where
  "read_quad_data ri self s =
     (let s1 = write_ctrl_register ri self [(SPI_REG_ACTIVE_QUAD OR SPI_REG_RD_WRn OR SPI_REG_CLK, 5)] s;
          (c, s2) = dual_quad_in ri self s1; (d, s3) = dual_quad_in ri self s2
      in ((c, d), s3))"

text \<open>Two bytes at a time; the second of an odd last pair is dropped.\<close>

fun read_pairs :: "('hw \<Rightarrow> (u8 \<times> u8) \<times> 'hw) \<Rightarrow> nat \<Rightarrow> 'hw \<Rightarrow> u8 list \<times> 'hw" where
  "read_pairs f 0 s = ([], s)"
| "read_pairs f (Suc 0) s = (let ((c, d), s1) = f s in ([c], s1))"
| "read_pairs f (Suc (Suc n)) s =
     (let ((c, d), s1) = f s; (bs, s2) = read_pairs f n s1 in (c # d # bs, s2))"

definition spi_dual_read_shot ::
    "'hw register_interface \<Rightarrow> spi_dual_controller \<Rightarrow> nat \<Rightarrow> (bool \<times> 'hw) controller
     \<Rightarrow> ((int \<times> u8 list) \<times> (bool \<times> 'hw) controller) option" where
  "spi_dual_read_shot ri self n c =
     (let get = (\<lambda>f. let (bs, s) = read_pairs f n (snd (port c))
                     in Some ((0, bs), c\<lparr>port := (fst (port c), s)\<rparr>))
      in if dual_data_access c
         then if \<not> dual_quad_mode c then Some ((-1, []), c) else get (read_quad_data ri self)
         else if dual_quad_mode c then Some ((-1, []), c) else get (read_chip_single ri self))"

definition spi_dual_burst_aborted ::
    "'hw register_interface \<Rightarrow> spi_dual_controller \<Rightarrow> (bool \<times> 'hw) controller \<Rightarrow> (bool \<times> 'hw) controller" where
  "spi_dual_burst_aborted ri self c = upd_port (dual_set_chipselect ri self SPI_CS_OFF) c"

definition spi_dual_cleanup ::
    "'hw register_interface \<Rightarrow> spi_dual_controller \<Rightarrow> (bool \<times> 'hw) controller \<Rightarrow> (bool \<times> 'hw) controller" where
  "spi_dual_cleanup ri self c = upd_port (dual_set_chipselect ri self SPI_CS_OFF) c"

definition spi_dual_ops :: "'hw register_interface \<Rightarrow> spi_dual_controller \<Rightarrow> (bool \<times> 'hw) controller_ops" where
  "spi_dual_ops ri self = \<lparr>
     handle_begin_transaction = None,
     handle_end_transaction = None,
     handle_pre_burst_flags = spi_dual_handle_pre_burst_flags ri self,
     handle_post_burst_flags = spi_dual_handle_post_burst_flags ri self,
     write_shot = spi_dual_write_shot ri self,
     request_read = (\<lambda>n c. Some (0, c)),
     read_shot = spi_dual_read_shot ri self,
     execute_command = controller_base_execute_command_not_supported,
     wait_for_write_queue_empty = (\<lambda>c. Some (0, c)),
     burst_aborted = spi_dual_burst_aborted ri self,
     cleanup = spi_dual_cleanup ri self,
     read_queue_size = 1,
     max_bytes_per_read = 512,
     write_queue_size = 1,
     max_bytes_per_write = 512\<rparr>"

end
