(* ===== verification/Spi_Dual_Props.thy ===== *)
theory Spi_Dual_Props
  imports Spi_Dual Spi_Bs_Props
begin

text \<open>
  What two flash chips that sample their lines at the rising edge of the clock receive from the shots of the
  dual SPI controller, and which bytes a shot gives for what the chips show.
\<close>

section \<open>Rising edges\<close>

text \<open>The values of the control register at the rising edges of the clock, bit 8, after a clock of \<open>b\<close>.\<close>

fun rising :: "bool \<Rightarrow> u32 list \<Rightarrow> u32 list" where
  "rising b [] = []"
| "rising b (x # xs) = (if bit x 8 \<and> \<not> b then [x] else []) @ rising (bit x 8) xs"

fun clock_after :: "bool \<Rightarrow> u32 list \<Rightarrow> bool" where
  "clock_after b [] = b"
| "clock_after b (x # xs) = clock_after (bit x 8) xs"

lemma rising_append: "rising b (xs @ ys) = rising b xs @ rising (clock_after b xs) ys"
  by (induction xs arbitrary: b) simp_all

lemma clock_after_append: "clock_after b (xs @ ys) = clock_after (clock_after b xs) ys"
  by (induction xs arbitrary: b) simp_all

lemma clock_after_replicate: "clock_after b (replicate n v) = (if n = 0 then b else bit v 8)"
  by (induction n arbitrary: b) simp_all

lemma rising_replicate: "rising b (replicate n v) = (if n \<noteq> 0 \<and> bit v 8 \<and> \<not> b then [v] else [])"
  by (induction n arbitrary: b) simp_all

lemma repeated_simps [simp]:
  "repeated [] = []" "repeated ((v, n) # vns) = replicate n v @ repeated vns" "repeated (xs @ ys) = repeated xs @ repeated ys"
  by (simp_all add: repeated_def)

lemma rising_repeated:
  "rising b (repeated ((v, n) # vns)) = (if n \<noteq> 0 \<and> bit v 8 \<and> \<not> b then [v] else [])
     @ rising (if n = 0 then b else bit v 8) (repeated vns)"
  by (simp add: rising_append rising_replicate clock_after_replicate)

lemma clock_after_repeated:
  "clock_after b (repeated ((v, n) # vns)) = clock_after (if n = 0 then b else bit v 8) (repeated vns)"
  by (simp add: clock_after_append clock_after_replicate)

section \<open>Writing\<close>

text \<open>The lines of both chips at an edge, in single mode; the bytes for both chips, in quad mode.\<close>

definition single_lines :: "u32 \<Rightarrow> bool \<times> bool" where
  "single_lines x = (bit x 0, bit x 4)"

definition quad_lines :: "u32 \<Rightarrow> u8" where
  "quad_lines x = ucast x"

lemma dual_clock_out_edge:
  "map single_lines (rising True (repeated (dual_clock_out b))) = [(b, b)]
   \<and> clock_after True (repeated (dual_clock_out b))"
  by (cases b) (simp_all add: dual_clock_out_def Let_def SPI_REG_ACTIVE_SINGLE_def rising_append clock_after_append
      rising_replicate clock_after_replicate single_lines_def)

lemma dual_clock_outs_edges:
  "map single_lines (rising True (repeated (concat (map dual_clock_out bs)))) = map (\<lambda>b. (b, b)) bs
   \<and> clock_after True (repeated (concat (map dual_clock_out bs)))"
  by (induction bs) (simp_all add: dual_clock_out_edge rising_append clock_after_append)

lemma write_chip_single_edges:
  "map single_lines (rising True (repeated (write_chip_single d))) = map (\<lambda>b. (b, b)) (msb_first d)
   \<and> clock_after True (repeated (write_chip_single d))"
proof -
  have c: "bit (SPI_REG_ACTIVE_SINGLE OR SPI_REG_CLK OR SPI_REG_WPn_1 OR SPI_REG_WPn_0) 8"
    by (simp add: SPI_REG_ACTIVE_SINGLE_def)
  show ?thesis using dual_clock_outs_edges [of "msb_first d"] c
    unfolding write_chip_single_def rising_repeated clock_after_repeated by simp
qed

lemma dual_quad_out_edge:
  "map quad_lines (rising True (repeated (dual_quad_out c))) = [c] \<and> clock_after True (repeated (dual_quad_out c))"
proof -
  have b: "\<not> bit (ucast c :: u32) 8" using bit_imp_le_length [of c 8] by (auto simp: bit_ucast_iff)
  have q: "ucast (SPI_REG_ACTIVE_QUAD OR SPI_REG_CLK OR ucast c) = c"
  proof -
    have "SPI_REG_ACTIVE_QUAD OR SPI_REG_CLK = push_bit 8 0x51"
      by (simp add: SPI_REG_ACTIVE_QUAD_def push_bit_eq_mult)
    then show ?thesis
      unfolding or.assoc [symmetric] \<open>SPI_REG_ACTIVE_QUAD OR SPI_REG_CLK = push_bit 8 0x51\<close>
      by (intro bit_word_eqI) (simp only: bit_ucast_iff bit_or_iff bit_push_bit_iff, auto dest: bit_imp_le_length)
  qed
  show ?thesis using b q
    by (simp add: dual_quad_out_def SPI_REG_ACTIVE_QUAD_def rising_append clock_after_append rising_replicate
        clock_after_replicate bit_or_iff quad_lines_def)
qed

lemma write_quad_edges:
  "map quad_lines (rising True (repeated (write_quad_data buf))) = buf @ (if even (length buf) then [] else [0xff])
   \<and> clock_after True (repeated (write_quad_data buf))"
proof -
  have c: "bit (SPI_REG_ACTIVE_QUAD OR SPI_REG_CLK) 8" by (simp add: SPI_REG_ACTIVE_QUAD_def)
  show ?thesis
    using c dual_quad_out_edge
    by (induction buf rule: write_quad_data.induct)
      (simp_all add: rising_append clock_after_append rising_replicate clock_after_replicate)
qed

text \<open>
  Whatever the device answers: a shot without data access in single mode clocks each byte of the buffer out to both chips,
  most significant bit first; a shot with data access in quad mode clocks the bytes out as they are, four bits to each
  chip, and \<open>0xff\<close> after an odd number of them; other shots fail and write nothing. The clock stays high.
\<close>

theorem dual_write_shot_edges:
  assumes "spi_dual_write_shot ri self buf c = Some (ret, c')"
  shows "if dual_data_access c = dual_quad_mode c
     then ret = 0 \<and> (\<exists>ws. c' = c\<lparr>port := (fst (port c), write_words ri (dual_control_register self) ws (snd (port c)))\<rparr>
         \<and> clock_after True ws
         \<and> (if dual_data_access c
            then map quad_lines (rising True ws) = buf @ (if even (length buf) then [] else [0xff])
            else map single_lines (rising True ws) = concat (map (\<lambda>d. map (\<lambda>b. (b, b)) (msb_first d)) buf)))
     else ret = -1 \<and> c' = c"
proof -
  have single: "map single_lines (rising True (repeated (concat (map write_chip_single buf))))
        = concat (map (\<lambda>d. map (\<lambda>b. (b, b)) (msb_first d)) buf)
      \<and> clock_after True (repeated (concat (map write_chip_single buf)))"
    by (induction buf) (simp_all add: write_chip_single_edges rising_append clock_after_append)
  show ?thesis
    using assms single write_quad_edges [of buf]
    by (cases "dual_data_access c"; cases "dual_quad_mode c")
      (auto simp: spi_dual_write_shot_def write_ctrl_register_def upd_port_def case_prod_beta Let_def)
qed

section \<open>Reading\<close>

fun reads_of :: "bus_event list \<Rightarrow> u32 list" where
  "reads_of [] = []"
| "reads_of (Rd a v # t) = v # reads_of t"
| "reads_of (Wr a v # t) = reads_of t"

lemma reads_of_append [simp]: "reads_of (t @ u) = reads_of t @ reads_of u"
  by (induction t rule: reads_of.induct) simp_all

lemma logged_writes:
  "\<exists>u. snd (write_words (logged ri) a ws st) = snd st @ u \<and> reads_of u = []"
proof (induction ws arbitrary: st)
  case (Cons w ws)
  obtain u where "snd (write_words (logged ri) a ws (ri_write (logged ri) a w st))
      = snd (ri_write (logged ri) a w st) @ u" "reads_of u = []" using Cons.IH by blast
  then show ?case by (intro exI [of _ "Wr a w # u"]) simp
qed simp

lemma logged_ctrl:
  obtains u where "snd (write_ctrl_register (logged ri) self vns st) = snd st @ u" "reads_of u = []"
  using logged_writes unfolding write_ctrl_register_def by blast

text \<open>The two bytes of a read access: as they are, or one bit of each in eight words.\<close>

definition got_quad :: "u32 list \<Rightarrow> u8 list" where
  "got_quad vs = map quad_lines vs"

definition got_single :: "u32 list \<Rightarrow> u8 list" where
  "got_single vs = [byte_of_bits (map (\<lambda>v. bit v 1) vs), byte_of_bits (map (\<lambda>v. bit v 5) vs)]"

definition gives :: "(u32 list \<Rightarrow> u8 list) \<Rightarrow> nat
    \<Rightarrow> ('hw \<times> bus_event list \<Rightarrow> (u8 \<times> u8) \<times> 'hw \<times> bus_event list) \<Rightarrow> bool" where
  "gives got k f \<longleftrightarrow> (\<forall>st. \<exists>u. snd (snd (f st)) = snd st @ u \<and> length (reads_of u) = k
     \<and> got (reads_of u) = [fst (fst (f st)), snd (fst (f st))])"

lemma read_pairs_gives:
  assumes "gives got k f"
  shows "\<exists>us. snd (snd (read_pairs f n st)) = snd st @ concat us \<and> length us = (n + 1) div 2
    \<and> (\<forall>u\<in>set us. length (reads_of u) = k)
    \<and> fst (read_pairs f n st) = take n (concat (map (\<lambda>u. got (reads_of u)) us))"
  using assms
proof (induction f n st rule: read_pairs.induct)
  case (2 f s)
  obtain u where "snd (snd (f s)) = snd s @ u" "length (reads_of u) = k"
      "got (reads_of u) = [fst (fst (f s)), snd (fst (f s))]"
    using "2.prems" unfolding gives_def by blast
  then show ?case by (intro exI [of _ "[u]"]) (simp add: case_prod_beta)
next
  case (3 f n s)
  obtain u where "snd (snd (f s)) = snd s @ u" "length (reads_of u) = k"
      "got (reads_of u) = [fst (fst (f s)), snd (fst (f s))]"
    using "3.prems" unfolding gives_def by blast
  moreover obtain us where "snd (snd (read_pairs f n (snd (f s)))) = snd (snd (f s)) @ concat us"
      "length us = (n + 1) div 2" "\<forall>u\<in>set us. length (reads_of u) = k"
      "fst (read_pairs f n (snd (f s))) = take n (concat (map (\<lambda>u. got (reads_of u)) us))"
    using "3.IH" [OF refl prod.collapse prod.collapse "3.prems"] by blast
  ultimately show ?case by (intro exI [of _ "u # us"]) (simp add: case_prod_beta)
qed simp


lemma read_quad_gives: "gives got_quad 2 (read_quad_data (logged ri) self)"
  unfolding gives_def
proof
  fix st :: "'a \<times> bus_event list"
  let ?r = "dual_control_register self"
  have one: "\<exists>u. snd (snd (dual_quad_in (logged ri) self st)) = snd st @ u
      \<and> map quad_lines (reads_of u) = [fst (dual_quad_in (logged ri) self st)]" for st
  proof -
    have "ucast (v AND 0xff) = (ucast v :: u8)" for v :: u32
    proof -
      have "(0xff :: u32) = mask 8" by (simp add: mask_eq_exp_minus_1)
      then show ?thesis by (intro bit_word_eqI) (simp only: bit_ucast_iff bit_and_iff bit_mask_iff, auto)
    qed
    moreover obtain u where "snd (write_ctrl_register (logged ri) self
        [(SPI_REG_ACTIVE_QUAD OR SPI_REG_RD_WRn, 10),
             (SPI_REG_ACTIVE_QUAD OR SPI_REG_RD_WRn OR SPI_REG_CLK, 5)] st) = snd st @ u" "reads_of u = []"
      by (rule logged_ctrl)
    ultimately show ?thesis
      by (simp add: dual_quad_in_def Let_def quad_lines_def)
  qed
  define s1 where "s1 = write_ctrl_register (logged ri) self
      [(SPI_REG_ACTIVE_QUAD OR SPI_REG_RD_WRn OR SPI_REG_CLK, 5)] st"
  obtain u0 where u0: "snd s1 = snd st @ u0" "reads_of u0 = []"
    unfolding s1_def by (rule logged_ctrl)
  obtain u1 where u1: "snd (snd (dual_quad_in (logged ri) self s1)) = snd s1 @ u1"
      "map quad_lines (reads_of u1) = [fst (dual_quad_in (logged ri) self s1)]" using one [of s1] by (elim exE conjE)
  define s2 where "s2 = snd (dual_quad_in (logged ri) self s1)"
  obtain u2 where u2: "snd (snd (dual_quad_in (logged ri) self s2)) = snd s2 @ u2"
      "map quad_lines (reads_of u2) = [fst (dual_quad_in (logged ri) self s2)]" using one [of s2] by (elim exE conjE)
  have e: "read_quad_data (logged ri) self st = ((fst (dual_quad_in (logged ri) self s1),
      fst (dual_quad_in (logged ri) self s2)), snd (dual_quad_in (logged ri) self s2))"
    by (simp add: read_quad_data_def s1_def s2_def Let_def case_prod_beta)
  have l: "length (reads_of u1) = 1" "length (reads_of u2) = 1"
    using arg_cong [OF u1(2), of length] arg_cong [OF u2(2), of length] by simp_all
  have "snd (snd (read_quad_data (logged ri) self st)) = snd st @ (u0 @ u1 @ u2)"
    using u0(1) u1(1) [folded s2_def] u2(1) by (simp add: e)
  then show "\<exists>u. snd (snd (read_quad_data (logged ri) self st)) = snd st @ u \<and> length (reads_of u) = 2
     \<and> got_quad (reads_of u) = [fst (fst (read_quad_data (logged ri) self st)), snd (fst (read_quad_data (logged ri) self st))]"
    using u0(2) u1(2) u2(2) l by (intro exI [of _ "u0 @ u1 @ u2"]) (simp add: e got_quad_def)
qed

section \<open>Reading bit by bit\<close>

definition set_bits :: "nat \<Rightarrow> (nat \<times> u32) list \<Rightarrow> u8 \<Rightarrow> u8" where
  "set_bits i kvs d = fold (\<lambda>(k, v) d. if bit v i then d OR push_bit k 1 else d) kvs d"

lemma bit_set_bits:
  "bit (set_bits i kvs d) n \<longleftrightarrow> bit d n \<or> n < 8 \<and> (\<exists>v. (n, v) \<in> set kvs \<and> bit v i)"
proof (induction kvs arbitrary: d)
  case (Cons kv kvs)
  obtain k v where kv: "kv = (k, v)" by fastforce
  have p: "bit (push_bit k 1 :: u8) n \<longleftrightarrow> n = k \<and> n < 8"
    unfolding bit_push_bit_iff bit_1_iff by auto
  have "set_bits i (kv # kvs) d = set_bits i kvs (if bit v i then d OR push_bit k 1 else d)"
    by (simp add: set_bits_def kv)
  then show ?case using Cons.IH p by (auto simp: kv bit_or_iff)
qed (simp add: set_bits_def)

lemma set_bits_byte:
  assumes "length vs = 8"
  shows "set_bits i (zip [7, 6, 5, 4, 3, 2, 1, 0] vs) 0 = byte_of_bits (map (\<lambda>v. bit v i) vs)"
proof (rule bit_word_eqI)
  fix n assume n: "n < LENGTH(8)"
  have ks: "[7, 6, 5, 4, 3, 2, 1, 0] = rev [0..<8]" by (simp add: upt_rec)
  have z: "(\<exists>v. (n, v) \<in> set (zip [7, 6, 5, 4, 3, 2, 1, 0] vs) \<and> bit v i) \<longleftrightarrow> bit (vs ! (7 - n)) i"
  proof
    assume "\<exists>v. (n, v) \<in> set (zip [7, 6, 5, 4, 3, 2, 1, 0] vs) \<and> bit v i"
    then obtain j where "j < 8" "n = 7 - j" "bit (vs ! j) i"
      using assms unfolding ks by (auto simp: in_set_zip rev_nth)
    then show "bit (vs ! (7 - n)) i" by simp
  next
    assume "bit (vs ! (7 - n)) i"
    then show "\<exists>v. (n, v) \<in> set (zip [7, 6, 5, 4, 3, 2, 1, 0] vs) \<and> bit v i"
      using n assms unfolding ks
      by (intro exI [of _ "vs ! (7 - n)"]) (auto simp: in_set_zip rev_nth intro!: exI [of _ "7 - n"])
  qed
  have "bit (byte_of_bits (map (\<lambda>v. bit v i) vs)) n \<longleftrightarrow> bit (vs ! (7 - n)) i"
    using n assms by (simp add: byte_of_bits_def bit_horner_sum_bit_iff rev_nth)
  then show "bit (set_bits i (zip [7, 6, 5, 4, 3, 2, 1, 0] vs) 0) n = bit (byte_of_bits (map (\<lambda>v. bit v i) vs)) n"
    using n z unfolding bit_set_bits by auto
qed


text \<open>The words that are read, one for each bit.\<close>

lemma single_bits:
  "\<exists>u. snd (snd (fold (\<lambda>k ((d0, d1), s).
        let ((b0, b1), s1) = dual_clock_in (logged ri) self s
        in ((if b0 then d0 OR push_bit k 1 else d0, if b1 then d1 OR push_bit k 1 else d1), s1)) ks ((d0, d1), st)))
      = snd st @ u
    \<and> length (reads_of u) = length ks
    \<and> fst (fold (\<lambda>k ((d0, d1), s).
        let ((b0, b1), s1) = dual_clock_in (logged ri) self s
        in ((if b0 then d0 OR push_bit k 1 else d0, if b1 then d1 OR push_bit k 1 else d1), s1)) ks ((d0, d1), st))
      = (set_bits 1 (zip ks (reads_of u)) d0, set_bits 5 (zip ks (reads_of u)) d1)"
proof (induction ks arbitrary: d0 d1 st)
  case (Cons k ks)
  let ?ws = "[(SPI_REG_ACTIVE_SINGLE OR SPI_REG_RD_WRn, 10),
      (SPI_REG_ACTIVE_SINGLE OR SPI_REG_RD_WRn OR SPI_REG_CLK, 5)]"
  obtain u0 where u0: "snd (write_ctrl_register (logged ri) self ?ws st) = snd st @ u0" "reads_of u0 = []"
    by (rule logged_ctrl)
  let ?w = "write_ctrl_register (logged ri) self ?ws st"
  define v where "v = fst (ri_read ri (dual_control_register self) (fst ?w))"
  define st1 where "st1 = (snd (ri_read ri (dual_control_register self) (fst ?w)),
      snd st @ u0 @ [Rd (dual_control_register self) v])"
  have miso: "(v AND SPI_REG_MISO_0 \<noteq> 0) = bit v 1" "(v AND SPI_REG_MISO_1 \<noteq> 0) = bit v 5"
    using and_exp_eq_0_iff_not_bit [of v 1] and_exp_eq_0_iff_not_bit [of v 5] by simp_all
  have c: "dual_clock_in (logged ri) self st = ((bit v 1, bit v 5), st1)"
    using u0(1) miso by (simp add: dual_clock_in_def Let_def v_def st1_def)
  let ?d0 = "if bit v 1 then d0 OR push_bit k 1 else d0" and ?d1 = "if bit v 5 then d1 OR push_bit k 1 else d1"
  from Cons.IH [of ?d0 ?d1 st1] obtain u where u:
    "snd (snd (fold (\<lambda>k ((d0, d1), s).
        let ((b0, b1), s1) = dual_clock_in (logged ri) self s
        in ((if b0 then d0 OR push_bit k 1 else d0, if b1 then d1 OR push_bit k 1 else d1), s1)) ks ((?d0, ?d1), st1)))
      = snd st1 @ u"
    "length (reads_of u) = length ks"
    "fst (fold (\<lambda>k ((d0, d1), s).
        let ((b0, b1), s1) = dual_clock_in (logged ri) self s
        in ((if b0 then d0 OR push_bit k 1 else d0, if b1 then d1 OR push_bit k 1 else d1), s1)) ks ((?d0, ?d1), st1))
      = (set_bits 1 (zip ks (reads_of u)) ?d0, set_bits 5 (zip ks (reads_of u)) ?d1)" by blast
  let ?u = "u0 @ [Rd (dual_control_register self) v] @ u"
  show ?case
  proof (intro exI [of _ ?u] conjI)
    show "length (reads_of ?u) = length (k # ks)" using u(2) u0(2) by simp
  qed (use u u0(2) in \<open>simp_all add: c st1_def set_bits_def\<close>)
qed (simp add: set_bits_def)

lemma read_single_gives: "gives got_single 8 (read_chip_single (logged ri) self)"
  unfolding gives_def
proof
  fix st :: "'a \<times> bus_event list"
  let ?ks = "[7, 6, 5, 4, 3, 2, 1, 0] :: nat list"
  let ?s = "write_ctrl_register (logged ri) self [(SPI_REG_ACTIVE_SINGLE OR SPI_REG_RD_WRn OR SPI_REG_CLK, 5)] st"
  obtain u0 where u0: "snd ?s = snd st @ u0" "reads_of u0 = []" by (rule logged_ctrl)
  obtain u where u: "snd (snd (read_chip_single (logged ri) self st)) = snd ?s @ u" "length (reads_of u) = 8"
      "fst (read_chip_single (logged ri) self st) = (set_bits 1 (zip ?ks (reads_of u)) 0, set_bits 5 (zip ?ks (reads_of u)) 0)"
    using single_bits [of ri self ?ks 0 0 ?s] unfolding read_chip_single_def by force
  show "\<exists>u. snd (snd (read_chip_single (logged ri) self st)) = snd st @ u \<and> length (reads_of u) = 8
     \<and> got_single (reads_of u) = [fst (fst (read_chip_single (logged ri) self st)), snd (fst (read_chip_single (logged ri) self st))]"
    using u u0 set_bits_byte [OF u(2), of 1] set_bits_byte [OF u(2), of 5]
    by (intro exI [of _ "u0 @ u"]) (simp add: got_single_def)
qed

text \<open>
  Whatever the device answers: a shot in quad mode with data access gives the low bytes of the words it reads, two for each access; one in single
  mode without gives two bytes for each eight words, from bit 1, the first chip, and bit 5, the second, most significant bit first; of an
  odd last pair the first. Other shots fail and read nothing.
\<close>

theorem dual_read_shot_gives:
  assumes "spi_dual_read_shot (logged ri) self n c = Some ((ret, bs), c')"
  defines "got \<equiv> if dual_data_access c then got_quad else got_single"
  shows "if dual_data_access c = dual_quad_mode c
     then ret = 0 \<and> (\<exists>us. snd (snd (port c')) = snd (snd (port c)) @ concat us \<and> length us = (n + 1) div 2
         \<and> (\<forall>u\<in>set us. length (reads_of u) = (if dual_data_access c then 2 else 8))
         \<and> bs = take n (concat (map (\<lambda>u. got (reads_of u)) us)))
     else ret = -1 \<and> bs = [] \<and> c' = c"
  using assms(1) read_pairs_gives [OF read_quad_gives, of ri self n "snd (port c)"]
    read_pairs_gives [OF read_single_gives, of ri self n "snd (port c)"]
  by (cases "dual_data_access c"; cases "dual_quad_mode c")
    (auto simp: spi_dual_read_shot_def Let_def case_prod_beta got_def)

end
