(* ===== verification/Spec2Isabelle.thy ===== *)
theory Spec2Isabelle
  imports Dma_Ioctl_Props Uiq_Board_Props Sgl_Props Image_Deque_Props Linked_List Spi_V2_Props Spi_Bs_Props Jtag_Loopback I2c_Props Bpi_Props Transaction_Props Cxp_Claims Uiq_Cuts Alarm_Claims Alarm_Codes Me5_Dma_Props
    Me5_Irq_Props Me5_Uiq_Props Dma_Alloc_Props Pci_Config_Props Dma_Base Spi_Dual_Props
begin

text \<open>
  A model of the menable frame grabber driver.

  The driver moves images from a frame grabber into buffers of user space, and events and serial
  data between the board and user space. Its core are two data paths. In the DMA path user space
  registers buffers under a head (\<^verbatim>\<open>linux/menable_ioctl.c\<close>, \<^verbatim>\<open>linux/menable_mem.c\<close>), starts a channel
  on a head (\<^verbatim>\<open>linux/fgrab.c\<close>, \<^verbatim>\<open>linux/menable_dma.c\<close>), the channel hands buffers to the engine
  of the board (\<^verbatim>\<open>linux/menable6.c\<close>), the completion interrupt files them as grabbed, and user space takes
  and unlocks them. In the event path (\<^verbatim>\<open>linux/uiq.c\<close>, \<^verbatim>\<open>lib/uiq\<close>) words travel through ring buffers;
  on mE6 boards they arrive as packets in one stream, from a register or by a messaging DMA
  (\<^verbatim>\<open>lib/dma/messaging_dma_controller.c\<close>).

  Theories and what they model.

  \<^item> \<open>Prelude\<close>: C integer types, status codes and error numbers, facts about words and ring indices, and
    the contract \<open>fifo\<close> of a bounded queue. \<open>Bits\<close>: \<^verbatim>\<open>lib/helpers/bits.h\<close> and the mask-and-shift
    helpers of \<^verbatim>\<open>linux/menable.h\<close>. \<open>Registers\<close>: \<^verbatim>\<open>struct register_interface\<close>; the device behind it is a
    parameter of every definition that accesses it. \<open>Crc32\<close>: \<^verbatim>\<open>lib/helpers/crc32.c\<close>.
  \<^item> \<open>Boards\<close>: the board types and predicates of \<^verbatim>\<open>linux/sisoboards.h\<close>, the protocol of a queue
    (\<^verbatim>\<open>lib/uiq/uiq_helper.c\<close>), the PCI table and the probe (\<^verbatim>\<open>linux/menable_core.c\<close>).
  \<^item> \<open>Uiq\<close>: the ring buffer \<^verbatim>\<open>lib/uiq/uiq_base.c\<close> with its loss accounting and the three protocols of
    the grabber words; \<open>Uiq_Props\<close> proves that it refines an abstract queue and interprets \<open>fifo\<close>.
    \<open>Uiq_Device\<close>: a queue on a board (\<^verbatim>\<open>linux/uiq.c\<close>) and the event interrupt of \<^verbatim>\<open>linux/menable6.c\<close>;
    \<open>Uiq_Board\<close>: the table of queues and the messaging DMA. \<open>Uiq_Device_Props\<close> and \<open>Uiq_Board_Props\<close>
    hold their properties, \<open>Uiq_Cuts\<close> what is left of a stream of events however interrupts cut it.
  \<^item> \<open>Dma_Channel\<close>: the lists and counters of a DMA channel and the operations of
    \<^verbatim>\<open>linux/menable_mem.c\<close> that move buffers between them. \<open>Dma_Queues\<close> states their invariant \<open>chan_wf\<close>,
    \<open>Dma_Queue_Ops\<close> and \<open>Dma_Queue_Props\<close> show what each operation does and that any history of them
    keeps it. \<open>Dma_Board\<close>: the board with its channels, heads, buffers and thread groups, and
    start, stop and wait. \<open>Dma_Me6\<close>: the engine of mE6 boards. \<open>Dma_Start_Props\<close>, \<open>Dma_Me6_Props\<close> and
    \<open>Dma_Irq_Props\<close> hold their properties; the locale \<open>dma_engine\<close> is what a start relies on, and both families of
    boards provide it. \<open>Dma_Alloc\<close> and \<open>Dma_Alloc_Props\<close>: the table of channels as it grows and shrinks.
  \<^item> \<open>Me5_Dma\<close>, \<open>Me5_Uiq\<close>: the DMA engine and the event queues of mE5 boards (\<^verbatim>\<open>linux/menable5.c\<close>), with their
    interrupts; \<open>Me5_Dma_Props\<close>, \<open>Me5_Irq_Props\<close> and \<open>Me5_Uiq_Props\<close> hold their properties.
  \<^item> \<open>Notify\<close>: the handlers and requests for notifications, the same code in \<^verbatim>\<open>menable5.c\<close> and \<^verbatim>\<open>menable6.c\<close>;
    \<open>Me5_Alarms\<close>: the alarms of both boards. \<open>Alarm_Props\<close> states their contract as the locale \<open>alarm_board\<close>, which both
    boards keep as long as operations run one after the other; \<open>Alarm_Race\<close> interleaves the critical sections of mE5 boards, and
    \<open>Alarm_Claims\<close> and \<open>Alarm_Codes\<close> hold the properties, the lost alarm among them.
  \<^item> \<open>Dma_Ioctl\<close>: creation and deletion of heads and buffers, unlocking and queueing, and the clean-up on
    close (\<^verbatim>\<open>linux/menable_core.c\<close>); \<open>Dma_Dispatch\<close>: the \<^verbatim>\<open>ioctl\<close> entry points;
    \<open>Dma_Ioctl_Props\<close> holds their properties.

  \<^item> \<open>Sgl\<close>: the scatter-gather lists of \<^verbatim>\<open>linux/menable6.c\<close> and \<open>Sgl_Lib\<close> those of
    \<^verbatim>\<open>lib/dma/sgl_v2.c\<close> and \<^verbatim>\<open>me6_sgl.c\<close>. \<open>Sgl_Spec\<close> states the format bit by bit and how the board reads
    it; \<open>Sgl_Chain\<close> shows that a chain is read back and freed, \<open>Sgl_Equiv\<close> that the writers agree, \<open>Sgl_Props\<close> where
    they do not.
  \<^item> \<open>Image_Deque\<close>, \<open>Image_Deque_Props\<close>: \<^verbatim>\<open>lib/acquisition\<close>; \<open>Linked_List\<close>: \<^verbatim>\<open>lib/helpers/linked_list.c\<close>.
    Both interpret \<open>fifo\<close>.
  \<^item> \<open>Controller_Base\<close>: the bursts of \<^verbatim>\<open>lib/controllers/controller_base.c\<close>; \<open>Controller_Ports\<close> states what
    a controller promises them as locales and proves the bursts once. \<open>Spi_V2\<close> models the SPI controllers,
    \<open>Spi_V2_Props\<close> and \<open>Spi_Bs_Props\<close> interpret the locales. \<open>Spi_Dual\<close>: the controller of two flash chips, whose
    shots \<open>Spi_Dual_Props\<close> reads at the edges of the clock.
  \<^item> \<open>Dma_Base\<close>: start, stop and abort of the engines of \<^verbatim>\<open>lib/dma/dma_controller_base.c\<close>. \<open>Pci_Config\<close>,
    \<open>Pci_Config_Props\<close>: the configuration space, \<^verbatim>\<open>lib/pci\<close>.
  \<^item> \<open>Jtag\<close>: the JTAG controller. \<open>Jtag_Props\<close> reads the words it writes as the clocks of a test access port
    (IEEE 1149.1) and shows what is shifted; \<open>Jtag_Loopback\<close> has the round trip and the faults.
  \<^item> \<open>I2c\<close>: the I2C master core and the buses that share it; \<open>I2c_Props\<close> reads the accesses to its
    registers as what happens on the bus, for any device and any timeout.
  \<^item> \<open>Bpi\<close>: the flash controller; \<open>Bpi_Props\<close> reads the accesses as the words of a banked flash.
  \<^item> \<open>Transaction\<close>: the transactions of user space with a controller (\<^verbatim>\<open>process_transaction\<close>) and the
    controllers of a board; \<open>Transaction_Props\<close> composes them with the SPI controller.
  \<^item> \<open>Cxp\<close>: the CoaXPress frontend (\<^verbatim>\<open>lib/frontends\<close>) and the camera control of \<^verbatim>\<open>linux/menable_ioctl.c\<close>.
    \<open>Cxp_Maps\<close> takes the tables of port maps apart; \<open>Cxp_Props\<close> shows that each operation keeps the registers
    in step with the states, \<open>Cxp_Remap\<close> and \<open>Cxp_Restore\<close> what a new port map does, \<open>Cxp_Commands\<close> that commands
    keep states valid, \<open>Cxp_Streams\<close> follows the stream ids and the selected port map,
    \<open>Cxp_Steady\<close> combines them, and \<open>Cxp_Claims\<close> states the properties of any sequence of calls.
    Waits that end by the clock take the number of rounds from an argument (\<open>patience\<close>), which is arbitrary.

  Conventions. A C structure is a record with the fields of the C structure, an integer a word of its
  width where it can wrap. Pointers to heads, buffers, channels and thread groups are
  addresses into maps of the board record, since several structures share them. Lists of the kernel
  are HOL lists of addresses; a buffer's list is found by its \<^verbatim>\<open>listname\<close> as in the code. A result
  \<open>None\<close> is undefined behaviour or a \<^verbatim>\<open>BUG\<close>, except in \<open>Uiq_Device\<close>, where it is also a loop that
  does not end or a caller that still waits; error returns are values. Locks are not modelled (but the mutex in \<open>Transaction\<close> and the sections in \<open>Alarm_Race\<close>):
  an operation that holds the lock of a channel or queue over its whole body is one step, and where the code drops
  the lock to wait, what others do meanwhile is an argument of the definition (\<open>others\<close>, \<open>wait_event\<close>). Polling loops
  run on the counter of the code (100000 rounds, \<open>ME6_DMA_STAT_TIMEOUT\<close>); the loops on the words of a queue or
  packet are recursions on the number of words, and \<^verbatim>\<open>process_uiq_data\<close> terminates since every round takes at least
  one word; the two loops of \<^verbatim>\<open>men_uiq_pop_all\<close> depend on the device alone and are partial
  functions. No fuel was added anywhere.

  Choices that the statements inherit. An interrupt of a DMA engine is one step, although the code releases the lock
  of the lists between two frames; the lock of the channel is held throughout. What is left of a transfer (\<open>transfer_todo\<close>) is an
  unbounded integer where the code has 64 bits. The buffers handed to an engine are kept as a log, beside the counts. An access to the table of
  queues outside its bounds finds no queue. A JTAG read gets its temporary buffer, filled with zeros. The two readings of the
  prescaler of the I2C core are made in the order of the text; C leaves it open.

  What the properties show. The queue properties (\<open>dma_history_is_safe_and_in_order\<close> and those
  after it) are the contract of the DMA path: no history reaches a \<^verbatim>\<open>BUG\<close>, nothing is lost or reordered, start ends
  started or stopped; the table of channels agrees with its counts, and on mE6 boards no alarm is lost. The event path refines a bounded queue, the event words that end up in
  the queues, less their timestamps, do not depend on how interrupts cut the stream, and bursts send the front of the queue. Where the code does not keep its contract, a property
  states what it does instead: double frees, counters that break, words that are dropped, and
  requests that are answered with success but have no effect.

  Not modelled. Pinning of user pages, scatterlists and DMA mapping are kernel services and enter as
  outcomes. The probe and the scatter-gather lists of mE5 boards, their reconfiguration, the tables of the board variants and the MCAP library are not modelled. The sysfs
  attributes, debug output and kernel version shims are pure I/O.
\<close>

end
